(* ===== verification/Prelude.thy ===== *)
theory Prelude
  imports Complex_Main "HOL-Library.Word" "HOL-Library.Char_ord" "HOL-Library.List_Lexorder"
    "HOL-Library.Multiset"
begin

text \<open>
  What every theory of the development shares: the outcome of an operation that can stop the
  simulation, and the generic list facts the component proofs rest on.

  An operation of the simulator that calls \<open>error(...)\<close>, throws a \<open>cRuntimeError\<close>, fails an
  \<open>ASSERT2\<close>, throws \<open>std::out_of_range\<close> or runs into undefined behaviour of C++ ends the
  simulation run.  The model returns it as \<open>Inl e\<close>, a normal end as \<open>Inr x\<close>.
\<close>

unbundle bit_operations_syntax

section \<open>Outcomes\<close>

datatype sim_error =
    RuntimeError string   \<comment> \<open>\<open>error(...)\<close> or \<open>throw cRuntimeError(...)\<close>\<close>
  | AssertFail string     \<comment> \<open>a failed \<open>ASSERT2\<close>\<close>
  | OutOfRange            \<comment> \<open>\<open>std::out_of_range\<close> of a checked \<open>at()\<close>\<close>
  | Undefined string      \<comment> \<open>undefined behaviour of the language\<close>

type_synonym 'a outcome = "sim_error + 'a"

type_synonym u8 = "8 word"
type_synonym u16 = "16 word"
type_synonym u32 = "32 word"
type_synonym u64 = "64 word"

named_theorems outcome_simps "equations that run an outcome"

definition and_then :: "'a outcome \<Rightarrow> ('a \<Rightarrow> 'b outcome) \<Rightarrow> 'b outcome" where
  "and_then r f = (case r of Inl e \<Rightarrow> Inl e | Inr x \<Rightarrow> f x)"

definition require :: "bool \<Rightarrow> sim_error \<Rightarrow> unit outcome" where
  "require c e = (if c then Inr () else Inl e)"

fun is_ok :: "'a outcome \<Rightarrow> bool" where
  "is_ok (Inl e) = False"
| "is_ok (Inr x) = True"

lemma and_then_Inl [simp, outcome_simps]: "and_then (Inl e) f = Inl e"
  by (simp add: and_then_def)

lemma and_then_Inr [simp, outcome_simps]: "and_then (Inr x) f = f x"
  by (simp add: and_then_def)

lemma and_then_eq_Inr:
  "and_then r f = Inr y \<longleftrightarrow> (\<exists>x. r = Inr x \<and> f x = Inr y)"
  by (cases r) auto

lemma and_then_eq_Inl:
  "and_then r f = Inl e \<longleftrightarrow> r = Inl e \<or> (\<exists>x. r = Inr x \<and> f x = Inl e)"
  by (cases r) auto

lemma require_eq_Inr [simp, outcome_simps]: "require c e = Inr u \<longleftrightarrow> c"
  by (simp add: require_def)

lemma require_True [simp, outcome_simps]: "require True e = Inr ()"
  by (simp add: require_def)

lemma require_False [simp, outcome_simps]: "require False e = Inl e"
  by (simp add: require_def)

lemma is_ok_iff: "is_ok r \<longleftrightarrow> (\<exists>x. r = Inr x)"
  by (cases r) auto

text \<open>The loops \<open>for (x : xs) body(x);\<close> whose body can stop the simulation.\<close>

fun for_each :: "('a \<Rightarrow> 's \<Rightarrow> 's outcome) \<Rightarrow> 'a list \<Rightarrow> 's \<Rightarrow> 's outcome" where
  "for_each f [] s = Inr s"
| "for_each f (x # xs) s = and_then (f x s) (for_each f xs)"

lemma for_each_invariant:
  assumes "for_each f xs s = Inr s'" "I s"
    and "\<And>x s s'. x \<in> set xs \<Longrightarrow> I s \<Longrightarrow> f x s = Inr s' \<Longrightarrow> I s'"
  shows "I s'"
  using assms by (induction xs arbitrary: s) (auto simp: and_then_eq_Inr)

lemma for_each_append: "for_each f (xs @ ys) s = and_then (for_each f xs s) (for_each f ys)"
  by (induction xs arbitrary: s) (auto simp: and_then_def split: sum.split)

section \<open>Index search\<close>

text \<open>
  The loops \<open>for (i = 0; i < v.size(); i++) if (P(v[i])) return i;\<close> of the sources, which give
  the first index whose element satisfies the test.
\<close>

fun first_index :: "('a \<Rightarrow> bool) \<Rightarrow> 'a list \<Rightarrow> nat option" where
  "first_index P [] = None"
| "first_index P (x # xs) = (if P x then Some 0 else map_option Suc (first_index P xs))"

lemma first_index_None: "first_index P xs = None \<longleftrightarrow> (\<forall>x\<in>set xs. \<not> P x)"
  by (induction xs) auto

lemma first_index_Some:
  "first_index P xs = Some i \<longleftrightarrow> i < length xs \<and> P (xs ! i) \<and> (\<forall>j<i. \<not> P (xs ! j))"
proof (induction xs arbitrary: i)
  case Nil
  then show ?case by simp
next
  case (Cons x xs)
  show ?case
  proof (cases i)
    case 0
    then show ?thesis by auto
  next
    case (Suc k)
    with Cons.IH [of k] show ?thesis
      by (auto simp: nth_Cons' less_Suc_eq_0_disj split: if_splits)
  qed
qed

lemma first_index_less: "first_index P xs = Some i \<Longrightarrow> i < length xs"
  by (simp add: first_index_Some)

lemma first_index_nth: "first_index P xs = Some i \<Longrightarrow> P (xs ! i)"
  by (simp add: first_index_Some)

lemma first_index_cong:
  "length xs = length ys \<Longrightarrow> (\<And>i. i < length xs \<Longrightarrow> P (xs ! i) = Q (ys ! i))
    \<Longrightarrow> first_index P xs = first_index Q ys"
proof (induction xs arbitrary: ys)
  case Nil
  then show ?case by simp
next
  case (Cons x xs)
  then obtain y ys' where ys: "ys = y # ys'" by (cases ys) auto
  have "P x = Q y" using Cons.prems(2) [of 0] ys by simp
  moreover have "first_index P xs = first_index Q ys'"
    using Cons.prems ys by (intro Cons.IH) force+
  ultimately show ?case by (simp add: ys)
qed

section \<open>Vectors and message arrays\<close>

text \<open>
  \<open>std::vector::resize\<close> and the \<open>set...ArraySize\<close> of a generated message; and the element setter of
  a generated message, which checks its index.
\<close>

definition resize_to :: "nat \<Rightarrow> 'a \<Rightarrow> 'a list \<Rightarrow> 'a list" where
  "resize_to n d xs = take n xs @ replicate (n - length xs) d"

definition array_set :: "nat \<Rightarrow> 'a \<Rightarrow> 'a list \<Rightarrow> 'a list outcome" where
  "array_set i x xs = (if i < length xs then Inr (xs[i := x]) else Inl OutOfRange)"

lemma length_resize_to [simp]: "length (resize_to n d xs) = n"
  by (simp add: resize_to_def)

text \<open>\<open>for (auto &x : ys) setX(i++, x)\<close>\<close>

fun array_fill :: "nat \<Rightarrow> 'a list \<Rightarrow> 'a list \<Rightarrow> 'a list outcome" where
  "array_fill i [] xs = Inr xs"
| "array_fill i (y # ys) xs = and_then (array_set i y xs) (array_fill (Suc i) ys)"

lemma array_fill_spec:
  "i \<le> length xs \<Longrightarrow> array_fill i ys xs =
     (if i + length ys \<le> length xs then Inr (take i xs @ ys @ drop (i + length ys) xs) else Inl OutOfRange)"
  by (induction i ys xs rule: array_fill.induct)
    (auto simp: array_set_def take_Suc_conv_app_nth upd_conv_take_nth_drop ac_simps)

section \<open>Ordered maps\<close>

text \<open>
  A \<open>std::map\<close> whose iteration order matters: an association list in increasing key order.
  \<open>map_at k d f m\<close> is \<open>m[k] = f(m[k])\<close>, where \<open>m[k]\<close> inserts \<open>d\<close> when \<open>k\<close> is missing.
\<close>

fun map_at :: "'k::linorder \<Rightarrow> 'v \<Rightarrow> ('v \<Rightarrow> 'v) \<Rightarrow> ('k \<times> 'v) list \<Rightarrow> ('k \<times> 'v) list" where
  "map_at k d f [] = [(k, f d)]"
| "map_at k d f ((k', v) # m) =
     (if k = k' then (k, f v) # m
      else if k < k' then (k, f d) # (k', v) # m
      else (k', v) # map_at k d f m)"

definition map_ordered :: "('k::linorder \<times> 'v) list \<Rightarrow> bool" where
  "map_ordered m \<longleftrightarrow> sorted (map fst m) \<and> distinct (map fst m)"

lemma map_ordered_Cons:
  "map_ordered ((k, v) # m) \<longleftrightarrow> (\<forall>x\<in>set m. k < fst x) \<and> map_ordered m"
  by (auto simp: map_ordered_def less_le)

lemma map_at_keys: "fst ` set (map_at k d f m) = insert k (fst ` set m)"
  by (induction k d f m rule: map_at.induct) auto

lemma map_at_ordered: "map_ordered m \<Longrightarrow> map_ordered (map_at k d f m)"
proof (induction k d f m rule: map_at.induct)
  case (1 k d f)
  then show ?case by (simp add: map_ordered_def)
next
  case (2 k d f k' v m)
  then have m: "\<forall>x\<in>set m. k' < fst x" "map_ordered m" by (simp_all add: map_ordered_Cons)
  consider "k = k'" | "k < k'" | "k' < k" by (rule linorder_cases)
  then show ?case
  proof cases
    case 3
    have "\<forall>x\<in>set (map_at k d f m). k' < fst x"
      using m(1) 3 map_at_keys [of k d f m] by (metis image_iff insert_iff)
    with 3 2 m show ?thesis by (auto simp: map_ordered_Cons)
  qed (use m in \<open>auto simp: map_ordered_Cons\<close>)
qed

lemma map_of_map_at:
  "map_ordered m \<Longrightarrow>
     map_of (map_at k d f m) = (map_of m)(k \<mapsto> f (case map_of m k of Some v \<Rightarrow> v | None \<Rightarrow> d))"
proof (induction k d f m rule: map_at.induct)
  case (1 k d f)
  then show ?case by simp
next
  case (2 k d f k' v m)
  then have m: "\<forall>x\<in>set m. k' < fst x" "map_ordered m" by (simp_all add: map_ordered_Cons)
  consider "k = k'" | "k < k'" | "k' < k" by (rule linorder_cases)
  then show ?case
  proof cases
    case 2
    then have "map_of m k = None" using m(1) by (force simp: map_of_eq_None_iff)
    with 2 show ?thesis by auto
  next
    case 3
    with "2.IH" m show ?thesis by auto
  qed auto
qed

section \<open>Machine integers\<close>

text \<open>The value of 32 bits read as \<open>int\<close>.\<close>

lemma sint32: "sint (w :: 32 word) = (if uint w < 2 ^ 31 then uint w else uint w - 2 ^ 32)"
proof -
  have r: "0 \<le> uint w" "uint w < 2 ^ 32" using uint_lt2p [of w] by auto
  have "sint w = signed_take_bit 31 (uint w)" by (simp add: sint_uint)
  also have "\<dots> = (uint w + 2 ^ 31) mod 2 ^ 32 - 2 ^ 31"
    by (simp add: signed_take_bit_eq_take_bit_shift take_bit_eq_mod)
  also have "\<dots> = (if uint w < 2 ^ 31 then uint w else uint w - 2 ^ 32)"
  proof (cases "uint w < 2 ^ 31")
    case True with r show ?thesis by simp
  next
    case False
    have "(uint w + 2 ^ 31) mod 2 ^ 32 = (uint w + 2 ^ 31 - 2 ^ 32) mod 2 ^ 32" by (rule minus_mod_self2 [symmetric])
    also have "\<dots> = uint w + 2 ^ 31 - 2 ^ 32" using False r by (intro mod_pos_pos_trivial) auto
    finally show ?thesis using False by simp
  qed
  finally show ?thesis .
qed


lemma sint_of_int_range:
  "- (2 ^ 31) \<le> r \<Longrightarrow> r < 2 ^ 31 \<Longrightarrow> sint (of_int r :: u32) = r"
  using signed_take_bit_int_eq_self [of 31 r] by (simp add: sint_sbintrunc')

lemma unat_u32: "unat (w :: u32) < 2 ^ 31 \<longleftrightarrow> uint w < 2 ^ 31"
  unfolding uint_nat by (metis of_nat_less_iff of_nat_numeral of_nat_power)

lemma u32_sub_uint:
  fixes a b :: u32
  assumes "b \<le> a"
  shows "uint (a - b) = uint a - uint b"
  using assms by (simp add: uint_sub_if' word_le_def)

end
