(* ===== verification/BitTools.thy ===== *)
theory BitTools
  imports Prelude
begin

text \<open>
  The bit helpers of \<open>core/tools.h\<close> and the DNS header of \<open>architecture/dns/DnsHeader\<close>, whose two
  flag bytes pack seven fields.  The lemmas show that every field reads back what was written to
  it and that no write disturbs another field.
\<close>

section \<open>Bits of a byte\<close>

text \<open>
  \<open>value << position\<close> and \<open>1 << position\<close> are computed in \<open>int\<close> and stored back into a
  \<open>uint8_t\<close>; for every position below 31 that is the shift on 8 bits.  The sources only pass the
  constants 0, 1, 2 and 7.
\<close>

definition setBitInByte :: "u8 \<Rightarrow> nat \<Rightarrow> bool \<Rightarrow> u8" where
  "setBitInByte byte position value =
     (let mask = push_bit position (of_bool value :: u8)
      in (byte AND NOT (push_bit position 1)) OR mask)"

definition setBitInByteInPlace :: "u8 \<Rightarrow> nat \<Rightarrow> bool \<Rightarrow> u8" where
  "setBitInByteInPlace byte position value =
     (let mask = push_bit position (of_bool value :: u8)
      in (byte AND NOT (push_bit position 1)) OR mask)"

definition getBitInByte :: "u8 \<Rightarrow> nat \<Rightarrow> bool" where
  "getBitInByte byte position \<longleftrightarrow> drop_bit position byte AND 1 \<noteq> 0"

lemma getBitInByte_bit: "getBitInByte b p = bit b p"
  by (simp add: getBitInByte_def and_one_eq mod_2_eq_odd bit_iff_odd_drop_bit)

lemma bit_setBitInByte:
  "bit (setBitInByte b p v) n \<longleftrightarrow> (if n = p then v \<and> p < 8 else bit b n)"
  by (cases v) (auto simp: setBitInByte_def bit_simps Let_def dest: bit_imp_le_length)

lemma setBitInByteInPlace_eq: "setBitInByteInPlace = setBitInByte"
  by (simp add: fun_eq_iff setBitInByteInPlace_def setBitInByte_def)

section \<open>The DNS header\<close>

record DnsHeader =
  hdr_id :: u16
  flag_field_1 :: u8
  flag_field_2 :: u8
  questionCount :: u16
  answerCount :: u16
  authorityRecordCount :: u16
  additionalRecordCount :: u16

datatype OperationCode = QUERY | IQUERY | STATUS | NOTIFY

datatype ReturnCode =
    NOERROR | FORMERR | SERVFAIL | NXDOMAIN | NOTIMP
  | REFUSED | YXDOMAIN | XRRSET | NOTAUTH | NOTZONE

text \<open>The numbers of the enumerators, and the enumerator a \<open>static_cast\<close> of a number gives (none
  when the number is not one of the enumeration).\<close>

fun opcode_val :: "OperationCode \<Rightarrow> u8" where
  "opcode_val QUERY = 0"
| "opcode_val IQUERY = 1"
| "opcode_val STATUS = 2"
| "opcode_val NOTIFY = 3"

definition to_opcode :: "u8 \<Rightarrow> OperationCode option" where
  "to_opcode v = (if v = 0 then Some QUERY else if v = 1 then Some IQUERY
     else if v = 2 then Some STATUS else if v = 3 then Some NOTIFY else None)"

fun rcode_val :: "ReturnCode \<Rightarrow> u8" where
  "rcode_val NOERROR = 0"
| "rcode_val FORMERR = 1"
| "rcode_val SERVFAIL = 2"
| "rcode_val NXDOMAIN = 3"
| "rcode_val NOTIMP = 4"
| "rcode_val REFUSED = 5"
| "rcode_val YXDOMAIN = 6"
| "rcode_val XRRSET = 7"
| "rcode_val NOTAUTH = 8"
| "rcode_val NOTZONE = 9"

definition to_rcode :: "u8 \<Rightarrow> ReturnCode option" where
  "to_rcode v = (if v = 0 then Some NOERROR else if v = 1 then Some FORMERR
     else if v = 2 then Some SERVFAIL else if v = 3 then Some NXDOMAIN
     else if v = 4 then Some NOTIMP else if v = 5 then Some REFUSED
     else if v = 6 then Some YXDOMAIN else if v = 7 then Some XRRSET
     else if v = 8 then Some NOTAUTH else if v = 9 then Some NOTZONE else None)"

definition setQueryOrResponseFlag :: "bool \<Rightarrow> DnsHeader \<Rightarrow> DnsHeader" where
  "setQueryOrResponseFlag v h =
     h\<lparr>flag_field_1 := setBitInByteInPlace (flag_field_1 h) 7 v\<rparr>"

definition getQueryOrResponseFlag :: "DnsHeader \<Rightarrow> bool" where
  "getQueryOrResponseFlag h = getBitInByte (flag_field_1 h) 7"

definition setAuthoritativeAnswerFlag :: "bool \<Rightarrow> DnsHeader \<Rightarrow> DnsHeader" where
  "setAuthoritativeAnswerFlag v h =
     h\<lparr>flag_field_1 := setBitInByteInPlace (flag_field_1 h) 2 v\<rparr>"

definition getAuthoritativeAnswerFlag :: "DnsHeader \<Rightarrow> bool" where
  "getAuthoritativeAnswerFlag h = getBitInByte (flag_field_1 h) 2"

definition setTruncationFlag :: "bool \<Rightarrow> DnsHeader \<Rightarrow> DnsHeader" where
  "setTruncationFlag v h = h\<lparr>flag_field_1 := setBitInByteInPlace (flag_field_1 h) 1 v\<rparr>"

definition getTruncationFlag :: "DnsHeader \<Rightarrow> bool" where
  "getTruncationFlag h = getBitInByte (flag_field_1 h) 1"

definition setRecursionDesiredFlag :: "bool \<Rightarrow> DnsHeader \<Rightarrow> DnsHeader" where
  "setRecursionDesiredFlag v h =
     h\<lparr>flag_field_1 := setBitInByteInPlace (flag_field_1 h) 0 v\<rparr>"

definition getRecursionDesiredFlag :: "DnsHeader \<Rightarrow> bool" where
  "getRecursionDesiredFlag h = getBitInByte (flag_field_1 h) 0"

definition setRecursionAvailableFlag :: "bool \<Rightarrow> DnsHeader \<Rightarrow> DnsHeader" where
  "setRecursionAvailableFlag v h =
     h\<lparr>flag_field_2 := setBitInByteInPlace (flag_field_2 h) 7 v\<rparr>"

definition getRecursionAvailableFlag :: "DnsHeader \<Rightarrow> bool" where
  "getRecursionAvailableFlag h = getBitInByte (flag_field_2 h) 7"

definition setOperationCode :: "OperationCode \<Rightarrow> DnsHeader \<Rightarrow> DnsHeader" where
  "setOperationCode code h =
     (let mask = push_bit 3 (opcode_val code)
      in h\<lparr>flag_field_1 := (flag_field_1 h AND NOT 0x78) OR mask\<rparr>)"

definition getOperationCode :: "DnsHeader \<Rightarrow> OperationCode option" where
  "getOperationCode h =
     (let value = drop_bit 3 (flag_field_1 h) AND 0x0F in to_opcode value)"

definition setResponseCode :: "ReturnCode \<Rightarrow> DnsHeader \<Rightarrow> DnsHeader" where
  "setResponseCode code h =
     h\<lparr>flag_field_2 := (flag_field_2 h AND 0xF0) OR rcode_val code\<rparr>"

definition getResponseCode :: "DnsHeader \<Rightarrow> ReturnCode option" where
  "getResponseCode h = (let value = flag_field_2 h AND 0x0F in to_rcode value)"

section \<open>Field laws\<close>

lemma u8_bit_eqI:
  fixes a b :: u8
  assumes "\<And>n. n \<in> {0, 1, 2, 3, 4, 5, 6, 7} \<Longrightarrow> bit a n = bit b n"
  shows "a = b"
proof (rule bit_word_eqI)
  fix n assume "n < LENGTH(8)"
  then have "n \<in> {0, 1, 2, 3, 4, 5, 6, 7}" by auto
  then show "bit a n = bit b n" by (rule assms)
qed

text \<open>The two masked writes, named so that the simplifier keeps them whole.\<close>

definition op_byte :: "u8 \<Rightarrow> OperationCode \<Rightarrow> u8" where
  "op_byte f c = (f AND NOT 0x78) OR push_bit 3 (opcode_val c)"

definition rc_byte :: "u8 \<Rightarrow> ReturnCode \<Rightarrow> u8" where
  "rc_byte f c = (f AND 0xF0) OR rcode_val c"

lemma setOperationCode_byte:
  "setOperationCode c h = h\<lparr>flag_field_1 := op_byte (flag_field_1 h) c\<rparr>"
  by (simp add: setOperationCode_def op_byte_def Let_def)

lemma setResponseCode_byte:
  "setResponseCode c h = h\<lparr>flag_field_2 := rc_byte (flag_field_2 h) c\<rparr>"
  by (simp add: setResponseCode_def rc_byte_def)

lemma drop_op_byte: "drop_bit 3 (op_byte f c) AND 0x0F = opcode_val c"
  by (rule u8_bit_eqI) (cases c; auto simp: op_byte_def bit_simps)

lemma mask_rc_byte: "rc_byte f c AND 0x0F = rcode_val c"
  by (rule u8_bit_eqI) (cases c; auto simp: rc_byte_def bit_simps)

lemma to_opcode_val: "to_opcode (opcode_val c) = Some c"
  by (cases c) (simp_all add: to_opcode_def)

lemma to_rcode_val: "to_rcode (rcode_val c) = Some c"
  by (cases c) (simp_all add: to_rcode_def)

lemma bit_op_byte:
  "bit (op_byte f c) 0 = bit f 0" "bit (op_byte f c) (Suc 0) = bit f (Suc 0)"
  "bit (op_byte f c) 2 = bit f 2" "bit (op_byte f c) 7 = bit f 7"
  by (cases c; simp add: op_byte_def bit_simps)+

lemma bit_rc_byte: "bit (rc_byte f c) 7 = bit f 7"
  by (cases c) (simp_all add: rc_byte_def bit_simps)

lemma opcode_field_of_setBit:
  "n \<in> {0, 1, 2, 7} \<Longrightarrow> drop_bit 3 (setBitInByte f n v) AND 0x0F = drop_bit 3 f AND 0x0F"
  by (rule u8_bit_eqI) (auto simp: bit_simps bit_setBitInByte)

lemma rcode_field_of_setBit: "setBitInByte f 7 v AND 0x0F = f AND 0x0F"
  by (rule u8_bit_eqI) (auto simp: bit_simps bit_setBitInByte)

lemma op_byte_twice: "op_byte (op_byte f w) v = op_byte f v"
  by (rule u8_bit_eqI) (cases v; cases w; auto simp: op_byte_def bit_simps)

lemma rc_byte_twice: "rc_byte (rc_byte f w) v = rc_byte f v"
  by (rule u8_bit_eqI) (cases v; cases w; auto simp: rc_byte_def bit_simps)

lemma setBit_setBit: "setBitInByte (setBitInByte b n w) n v = setBitInByte b n v"
  by (rule bit_word_eqI) (simp add: bit_setBitInByte)

lemmas header_field_simps =
  setQueryOrResponseFlag_def getQueryOrResponseFlag_def
  setAuthoritativeAnswerFlag_def getAuthoritativeAnswerFlag_def
  setTruncationFlag_def getTruncationFlag_def
  setRecursionDesiredFlag_def getRecursionDesiredFlag_def
  setRecursionAvailableFlag_def getRecursionAvailableFlag_def
  setOperationCode_byte getOperationCode_def setResponseCode_byte getResponseCode_def
  setBitInByteInPlace_eq getBitInByte_bit bit_setBitInByte Let_def
  drop_op_byte mask_rc_byte to_opcode_val to_rcode_val bit_op_byte bit_rc_byte
  opcode_field_of_setBit rcode_field_of_setBit op_byte_twice rc_byte_twice setBit_setBit

text \<open>
  A packed field: a getter and a setter over the header.  What is written is read back, and
  writing twice is writing the last value.
\<close>

locale header_field =
  fixes get :: "DnsHeader \<Rightarrow> 'v" and set :: "'a \<Rightarrow> DnsHeader \<Rightarrow> DnsHeader"
    and val :: "'a \<Rightarrow> 'v"
  assumes get_set: "get (set v h) = val v"
    and set_set: "set v (set w h) = set v h"
begin

lemma set_idem: "set v (set v h) = set v h"
  by (rule set_set)

lemma set_eq_val: "set v h = set w h \<Longrightarrow> val v = val w"
  by (metis get_set)

end

locale separate_fields =
  a: header_field get1 set1 val1 + b: header_field get2 set2 val2
  for get1 :: "DnsHeader \<Rightarrow> 'v" and set1 :: "'a \<Rightarrow> DnsHeader \<Rightarrow> DnsHeader" and val1 :: "'a \<Rightarrow> 'v"
    and get2 :: "DnsHeader \<Rightarrow> 'w" and set2 :: "'b \<Rightarrow> DnsHeader \<Rightarrow> DnsHeader" and val2 :: "'b \<Rightarrow> 'w" +
  assumes get1_set2: "get1 (set2 y h) = get1 h"
    and get2_set1: "get2 (set1 x h) = get2 h"
begin

lemma both_kept:
  "get1 (set2 y (set1 x h)) = val1 x \<and> get2 (set1 x (set2 y h)) = val2 y"
  by (simp add: get1_set2 get2_set1 a.get_set b.get_set)

end

interpretation QR: header_field getQueryOrResponseFlag setQueryOrResponseFlag "\<lambda>v. v"
  by unfold_locales (simp_all add: header_field_simps)

interpretation OP: header_field getOperationCode setOperationCode Some
  by unfold_locales (simp_all add: header_field_simps)

interpretation AA: header_field getAuthoritativeAnswerFlag setAuthoritativeAnswerFlag "\<lambda>v. v"
  by unfold_locales (simp_all add: header_field_simps)

interpretation TC: header_field getTruncationFlag setTruncationFlag "\<lambda>v. v"
  by unfold_locales (simp_all add: header_field_simps)

interpretation RD: header_field getRecursionDesiredFlag setRecursionDesiredFlag "\<lambda>v. v"
  by unfold_locales (simp_all add: header_field_simps)

interpretation RA: header_field getRecursionAvailableFlag setRecursionAvailableFlag "\<lambda>v. v"
  by unfold_locales (simp_all add: header_field_simps)

interpretation RC: header_field getResponseCode setResponseCode Some
  by unfold_locales (simp_all add: header_field_simps)

interpretation OP_RD: separate_fields
  getOperationCode setOperationCode Some
  getRecursionDesiredFlag setRecursionDesiredFlag "\<lambda>v. v"
  by unfold_locales (simp_all add: header_field_simps)

interpretation RA_RC: separate_fields
  getRecursionAvailableFlag setRecursionAvailableFlag "\<lambda>v. v"
  getResponseCode setResponseCode Some
  by unfold_locales (simp_all add: header_field_simps)

interpretation QR_OP: separate_fields
  getQueryOrResponseFlag setQueryOrResponseFlag "\<lambda>v. v"
  getOperationCode setOperationCode Some
  by unfold_locales (simp_all add: header_field_simps)

interpretation OP_AA: separate_fields
  getOperationCode setOperationCode Some
  getAuthoritativeAnswerFlag setAuthoritativeAnswerFlag "\<lambda>v. v"
  by unfold_locales (simp_all add: header_field_simps)

section \<open>The fields as a record\<close>

text \<open>
  What RFC 1035 calls the header: its fields one by one, the flag bytes taken apart.  The fields
  (with the three reserved bits \<open>hf_z\<close>) cover the sixteen flag bits.
\<close>

record HeaderFields =
  hf_id :: u16
  hf_qr :: bool
  hf_opcode :: "OperationCode option"
  hf_aa :: bool
  hf_tc :: bool
  hf_rd :: bool
  hf_ra :: bool
  hf_z :: "bool \<times> bool \<times> bool"
  hf_rcode :: "ReturnCode option"
  hf_counts :: "u16 \<times> u16 \<times> u16 \<times> u16"

definition header_fields :: "DnsHeader \<Rightarrow> HeaderFields" where
  "header_fields h =
     \<lparr>hf_id = hdr_id h, hf_qr = getQueryOrResponseFlag h, hf_opcode = getOperationCode h,
      hf_aa = getAuthoritativeAnswerFlag h, hf_tc = getTruncationFlag h,
      hf_rd = getRecursionDesiredFlag h, hf_ra = getRecursionAvailableFlag h,
      hf_z = (bit (flag_field_2 h) 6, bit (flag_field_2 h) 5, bit (flag_field_2 h) 4),
      hf_rcode = getResponseCode h,
      hf_counts = (questionCount h, answerCount h, authorityRecordCount h,
        additionalRecordCount h)\<rparr>"

lemma bit_rc_byte_reserved:
  "bit (rc_byte f c) 4 = bit f 4" "bit (rc_byte f c) 5 = bit f 5" "bit (rc_byte f c) 6 = bit f 6"
  by (cases c; simp add: rc_byte_def bit_simps)+

lemmas header_fields_simps = header_fields_def header_field_simps bit_rc_byte_reserved

text \<open>C1.  On any header, each of the seven setters of the flag bytes changes exactly its own
  field: that field then reads back the value written, and every other packed field, the reserved
  bits, the identifier and the four counters read what they read before.\<close>

theorem header_fields_roundtrip:
  "header_fields (setQueryOrResponseFlag qr h) = (header_fields h)\<lparr>hf_qr := qr\<rparr> \<and>
   header_fields (setOperationCode op h) = (header_fields h)\<lparr>hf_opcode := Some op\<rparr> \<and>
   header_fields (setAuthoritativeAnswerFlag aa h) = (header_fields h)\<lparr>hf_aa := aa\<rparr> \<and>
   header_fields (setTruncationFlag tc h) = (header_fields h)\<lparr>hf_tc := tc\<rparr> \<and>
   header_fields (setRecursionDesiredFlag rd h) = (header_fields h)\<lparr>hf_rd := rd\<rparr> \<and>
   header_fields (setRecursionAvailableFlag ra h) = (header_fields h)\<lparr>hf_ra := ra\<rparr> \<and>
   header_fields (setResponseCode rc h) = (header_fields h)\<lparr>hf_rcode := Some rc\<rparr>"
  by (intro conjI; simp add: header_fields_simps)

end
