(* ===== verification/Resources.thy ===== *)
theory Resources
  imports Prelude
begin

text \<open>
  Virtual machine templates, the resources of a node, the node itself and the pool of nodes of a
  data centre: \<open>VirtualMachine\<close>, \<open>NodeResources\<close>, \<open>Node\<close> and \<open>NodePool\<close>.  Every amount is the
  \<open>uint32_t\<close> of the source (\<open>uint64_t\<close> in the pool's totals), so additions and subtractions wrap.
  The two \<open>double\<close> fields of a template are only stored and are kept as rationals.
\<close>

section \<open>Templates and node resources\<close>

record VirtualMachine =
  vm_type :: string
  vm_numCores :: u32
  vm_diskMiB :: u32
  vm_memoryMiB :: u32
  vm_cost :: rat
  vm_scu :: rat

record NodeResources =
  nr_memoryMiB :: u32
  nr_diskMiB :: u32
  nr_cores :: u32
  nr_vms :: u32
  nr_users :: u32

definition hasUserAndVmSpace :: "NodeResources \<Rightarrow> bool" where
  "hasUserAndVmSpace r \<longleftrightarrow> nr_vms r > 0 \<and> nr_users r > 0"

definition isExhausted :: "NodeResources \<Rightarrow> bool" where
  "isExhausted r \<longleftrightarrow>
     (nr_cores r OR nr_memoryMiB r) OR nr_diskMiB r = 0 \<or> \<not> hasUserAndVmSpace r"

text \<open>\<open>operator<\<close> of \<open>std::tuple\<close> compares lexicographically; \<open>a <= b\<close> is \<open>!(b < a)\<close>.\<close>

fun tuple3_less :: "u32 \<times> u32 \<times> u32 \<Rightarrow> u32 \<times> u32 \<times> u32 \<Rightarrow> bool" where
  "tuple3_less (a, b, c) (a', b', c') \<longleftrightarrow>
     a < a' \<or> (\<not> a' < a \<and> (b < b' \<or> (\<not> b' < b \<and> c < c')))"

definition vm_tuple :: "VirtualMachine \<Rightarrow> u32 \<times> u32 \<times> u32" where
  "vm_tuple vm = (vm_numCores vm, vm_diskMiB vm, vm_memoryMiB vm)"

definition node_tuple :: "NodeResources \<Rightarrow> u32 \<times> u32 \<times> u32" where
  "node_tuple r = (nr_cores r, nr_diskMiB r, nr_memoryMiB r)"

definition node_eq_vm :: "NodeResources \<Rightarrow> VirtualMachine \<Rightarrow> bool" where
  "node_eq_vm node vm \<longleftrightarrow> vm_tuple vm = node_tuple node \<and> hasUserAndVmSpace node"

definition vm_eq_node :: "VirtualMachine \<Rightarrow> NodeResources \<Rightarrow> bool" where
  "vm_eq_node vm node \<longleftrightarrow> vm_tuple vm = node_tuple node \<and> hasUserAndVmSpace node"

definition node_ge_vm :: "NodeResources \<Rightarrow> VirtualMachine \<Rightarrow> bool" where
  "node_ge_vm node vm \<longleftrightarrow>
     \<not> tuple3_less (node_tuple node) (vm_tuple vm) \<and> hasUserAndVmSpace node"

definition vm_le_node :: "VirtualMachine \<Rightarrow> NodeResources \<Rightarrow> bool" where
  "vm_le_node vm node \<longleftrightarrow>
     \<not> tuple3_less (node_tuple node) (vm_tuple vm) \<and> hasUserAndVmSpace node"

text \<open>What "the node has enough of everything" means, as the documentation of the class puts it.\<close>

definition has_room :: "NodeResources \<Rightarrow> VirtualMachine \<Rightarrow> bool" where
  "has_room r vm \<longleftrightarrow> vm_numCores vm \<le> nr_cores r \<and> vm_diskMiB vm \<le> nr_diskMiB r \<and>
     vm_memoryMiB vm \<le> nr_memoryMiB r \<and> hasUserAndVmSpace r"

lemma has_room_vm_le_node: "has_room r vm \<Longrightarrow> vm_le_node vm r"
  by (auto simp: has_room_def vm_le_node_def vm_tuple_def node_tuple_def)

section \<open>Logical distance\<close>

text \<open>
  The distance of \<open>getLogicalDistance\<close>: \<open>DBL_MAX\<close> or the sum of three \<open>int\<close> differences.  The
  differences are unsigned subtractions stored into an \<open>int\<close>; their sum is \<open>int\<close> arithmetic,
  whose overflow is undefined.
\<close>

datatype distance = Dist int | DblMax

instantiation distance :: linorder
begin

fun less_eq_distance :: "distance \<Rightarrow> distance \<Rightarrow> bool" where
  "less_eq_distance (Dist a) (Dist b) = (a \<le> b)"
| "less_eq_distance (Dist a) DblMax = True"
| "less_eq_distance DblMax (Dist b) = False"
| "less_eq_distance DblMax DblMax = True"

definition less_distance :: "distance \<Rightarrow> distance \<Rightarrow> bool" where
  "less_distance a b \<longleftrightarrow> a \<le> b \<and> \<not> b \<le> a"

instance
proof
  fix a b c :: distance
  show "a < b \<longleftrightarrow> a \<le> b \<and> \<not> b \<le> a" by (simp add: less_distance_def)
  show "a \<le> a" by (cases a) auto
  show "a \<le> b \<or> b \<le> a" by (cases a; cases b) auto
  show "a \<le> b \<Longrightarrow> b \<le> c \<Longrightarrow> a \<le> c" by (cases a; cases b; cases c) auto
  show "a \<le> b \<Longrightarrow> b \<le> a \<Longrightarrow> a = b" by (cases a; cases b) auto
qed

end

definition getLogicalDistance :: "NodeResources \<Rightarrow> VirtualMachine \<Rightarrow> distance outcome" where
  "getLogicalDistance r vm =
     (if \<not> hasUserAndVmSpace r then Inr DblMax
      else
        let distance1 = sint (nr_cores r - vm_numCores vm);
            distance2 = sint (nr_diskMiB r - vm_diskMiB vm);
            distance3 = sint (nr_memoryMiB r - vm_memoryMiB vm)
        in if distance1 < 0 \<or> distance2 < 0 \<or> distance3 < 0 then Inr DblMax
           else if distance1 + distance2 + distance3 \<ge> 2 ^ 31
             then Inl (Undefined ''signed overflow'')
           else Inr (Dist (distance1 + distance2 + distance3)))"

lemma DblMax_le [simp]: "DblMax \<le> d \<longleftrightarrow> d = DblMax"
  by (cases d) auto

lemma le_DblMax [simp]: "d \<le> DblMax"
  by (cases d) auto

lemma distance_nonneg: "getLogicalDistance r vm = Inr d \<Longrightarrow> Dist 0 \<le> d"
  by (auto simp: getLogicalDistance_def Let_def split: if_splits)

text \<open>A node whose amounts stay below \<open>2 ^ 31\<close>, so that an \<open>int\<close> holds them.\<close>

definition int_sized :: "u32 \<Rightarrow> bool" where
  "int_sized w \<longleftrightarrow> unat w < 2 ^ 31"

definition node_int_sized :: "NodeResources \<Rightarrow> bool" where
  "node_int_sized r \<longleftrightarrow> int_sized (nr_cores r) \<and> int_sized (nr_diskMiB r) \<and>
     int_sized (nr_memoryMiB r)"

definition vm_int_sized :: "VirtualMachine \<Rightarrow> bool" where
  "vm_int_sized vm \<longleftrightarrow> int_sized (vm_numCores vm) \<and> int_sized (vm_diskMiB vm) \<and>
     int_sized (vm_memoryMiB vm)"

lemma sint_sub_nonneg:
  assumes "int_sized a" "int_sized b" "0 \<le> sint (a - b)"
  shows "b \<le> a"
proof (rule ccontr)
  assume "\<not> b \<le> a"
  then have lt: "uint a < uint b" by (simp add: word_le_def)
  have ab: "uint a < 2 ^ 31" "uint b < 2 ^ 31"
    using assms(1,2) by (simp_all only: int_sized_def unat_u32)
  have pow_int: "(2 :: int) ^ 31 = 2147483648" "(2 :: int) ^ 32 = 4294967296" by simp_all
  have sub: "uint (a - b) = uint a - uint b + 2 ^ 32"
    using lt by (simp add: uint_sub_if')
  have "2 ^ 31 \<le> uint (a - b)"
    using sub ab uint_ge_0 [of a] unfolding pow_int by linarith
  then have "sint (a - b) < 0"
    using uint_lt2p [of "a - b"] by (simp add: sint32)
  then show False using assms(3) by simp
qed

text \<open>A distance other than \<open>DBL_MAX\<close> means that the node has room in every dimension.\<close>

lemma getLogicalDistance_Dist:
  assumes "getLogicalDistance r vm = Inr (Dist d)"
  shows "hasUserAndVmSpace r" "0 \<le> sint (nr_cores r - vm_numCores vm)"
    "0 \<le> sint (nr_diskMiB r - vm_diskMiB vm)" "0 \<le> sint (nr_memoryMiB r - vm_memoryMiB vm)"
proof -
  obtain x y z where xyz: "sint (nr_cores r - vm_numCores vm) = x"
    "sint (nr_diskMiB r - vm_diskMiB vm) = y" "sint (nr_memoryMiB r - vm_memoryMiB vm) = z" by blast
  have "hasUserAndVmSpace r \<and> 0 \<le> x \<and> 0 \<le> y \<and> 0 \<le> z"
    using assms unfolding getLogicalDistance_def Let_def xyz by (simp split: if_splits)
  then show "hasUserAndVmSpace r" "0 \<le> sint (nr_cores r - vm_numCores vm)"
    "0 \<le> sint (nr_diskMiB r - vm_diskMiB vm)" "0 \<le> sint (nr_memoryMiB r - vm_memoryMiB vm)"
    unfolding xyz by blast+
qed

lemma distance_has_room:
  assumes "getLogicalDistance r vm = Inr (Dist d)" "node_int_sized r" "vm_int_sized vm"
  shows "has_room r vm"
  using getLogicalDistance_Dist [OF assms(1)] assms(2,3)
  unfolding has_room_def node_int_sized_def vm_int_sized_def
  by (blast intro: sint_sub_nonneg)

section \<open>Nodes\<close>

text \<open>The enumerators of \<open>Node::State\<close> are bit masks kept in one byte.\<close>

definition ACTIVE :: u8 where "ACTIVE = 1"
definition IN_USE :: u8 where "IN_USE = 2"
definition MAXED_OUT :: u8 where "MAXED_OUT = 4"

record Node =
  availableResources :: NodeResources
  address :: int
  state :: u8

definition setInactive :: "Node \<Rightarrow> Node" where
  "setInactive n = n\<lparr>state := state n XOR state n\<rparr>"

definition setActive :: "Node \<Rightarrow> Node" where
  "setActive n = n\<lparr>state := (state n XOR state n) OR ACTIVE\<rparr>"

definition setInUse :: "Node \<Rightarrow> Node" where
  "setInUse n = n\<lparr>state := (state n XOR state n) OR IN_USE\<rparr>"

definition setMaxedOut :: "Node \<Rightarrow> Node" where
  "setMaxedOut n = n\<lparr>state := (state n XOR state n) OR MAXED_OUT\<rparr>"

definition isActive :: "Node \<Rightarrow> bool" where "isActive n \<longleftrightarrow> state n AND ACTIVE \<noteq> 0"
definition inUse :: "Node \<Rightarrow> bool" where "inUse n \<longleftrightarrow> state n AND IN_USE \<noteq> 0"
definition isMaxedOut :: "Node \<Rightarrow> bool" where "isMaxedOut n \<longleftrightarrow> state n AND MAXED_OUT \<noteq> 0"

lemma node_state_exclusive:
  "isActive (setActive n) \<and> \<not> inUse (setActive n) \<and> \<not> isMaxedOut (setActive n)"
  "inUse (setInUse n) \<and> \<not> isActive (setInUse n) \<and> \<not> isMaxedOut (setInUse n)"
  "isMaxedOut (setMaxedOut n) \<and> \<not> isActive (setMaxedOut n) \<and> \<not> inUse (setMaxedOut n)"
  "\<not> isActive (setInactive n) \<and> \<not> inUse (setInactive n) \<and> \<not> isMaxedOut (setInactive n)"
  by (simp_all add: isActive_def inUse_def isMaxedOut_def setActive_def setInUse_def
      setMaxedOut_def setInactive_def ACTIVE_def IN_USE_def MAXED_OUT_def)

section \<open>The pool of nodes\<close>

record PoolResources =
  pr_memoryMiB :: u64
  pr_diskMiB :: u64
  pr_cores :: u64
  pr_vms :: u64

record NodePool =
  nodes :: "Node list"
  totalResources :: PoolResources
  pool_availableResources :: PoolResources

definition zero_node :: Node where
  "zero_node = \<lparr>availableResources = \<lparr>nr_memoryMiB = 0, nr_diskMiB = 0, nr_cores = 0,
     nr_vms = 0, nr_users = 0\<rparr>, address = 0, state = 0\<rparr>"

definition addNode :: "int \<Rightarrow> NodeResources \<Rightarrow> NodePool \<Rightarrow> nat \<times> NodePool" where
  "addNode addr resources pool =
     (let index = length (nodes pool);
          node = setActive (zero_node\<lparr>address := addr, availableResources := resources\<rparr>);
          total = totalResources pool;
          total' = total\<lparr>pr_memoryMiB := pr_memoryMiB total + ucast (nr_memoryMiB resources),
            pr_diskMiB := pr_diskMiB total + ucast (nr_diskMiB resources),
            pr_cores := pr_cores total + ucast (nr_cores resources),
            pr_vms := pr_vms total + ucast (nr_vms resources)\<rparr>
      in (index, pool\<lparr>nodes := nodes pool @ [node], totalResources := total',
            pool_availableResources := total'\<rparr>))"

definition take_from_node :: "VirtualMachine \<Rightarrow> Node \<Rightarrow> Node" where
  "take_from_node vm n =
     (let r = availableResources n
      in n\<lparr>availableResources := r\<lparr>nr_memoryMiB := nr_memoryMiB r - vm_memoryMiB vm,
           nr_diskMiB := nr_diskMiB r - vm_diskMiB vm, nr_cores := nr_cores r - vm_numCores vm,
           nr_vms := nr_vms r - 1\<rparr>\<rparr>)"

definition give_to_node :: "VirtualMachine \<Rightarrow> Node \<Rightarrow> Node" where
  "give_to_node vm n =
     (let r = availableResources n
      in n\<lparr>availableResources := r\<lparr>nr_memoryMiB := nr_memoryMiB r + vm_memoryMiB vm,
           nr_diskMiB := nr_diskMiB r + vm_diskMiB vm, nr_cores := nr_cores r + vm_numCores vm,
           nr_vms := nr_vms r + 1\<rparr>\<rparr>)"

definition allocateResources :: "nat \<Rightarrow> VirtualMachine \<Rightarrow> NodePool \<Rightarrow> NodePool outcome" where
  "allocateResources index vm pool =
     (if index < length (nodes pool)
      then Inr (pool\<lparr>nodes := (nodes pool)[index := take_from_node vm (nodes pool ! index)]\<rparr>)
      else Inl OutOfRange)"

definition deallocateResources :: "nat \<Rightarrow> VirtualMachine \<Rightarrow> NodePool \<Rightarrow> NodePool outcome" where
  "deallocateResources index vm pool =
     (if index < length (nodes pool)
      then Inr (pool\<lparr>nodes := (nodes pool)[index := give_to_node vm (nodes pool ! index)]\<rparr>)
      else Inl OutOfRange)"

definition getNode :: "nat \<Rightarrow> NodePool \<Rightarrow> Node outcome" where
  "getNode index pool =
     (if index < length (nodes pool) then Inr (nodes pool ! index) else Inl OutOfRange)"

text \<open>Taking and giving back cancel and commute, whatever the amounts, because both wrap.\<close>

lemma give_take [simp]: "give_to_node vm (take_from_node vm n) = n"
  by (simp add: give_to_node_def take_from_node_def Let_def)

lemma give_take_commute:
  "give_to_node vm (take_from_node vm' n) = take_from_node vm' (give_to_node vm n)"
  by (simp add: give_to_node_def take_from_node_def Let_def algebra_simps)

lemma give_commute: "give_to_node vm (give_to_node vm' n) = give_to_node vm' (give_to_node vm n)"
  by (simp add: give_to_node_def Let_def algebra_simps)

lemma allocate_Inr:
  "allocateResources i vm p = Inr p' \<longleftrightarrow> i < length (nodes p) \<and>
     p' = p\<lparr>nodes := (nodes p)[i := take_from_node vm (nodes p ! i)]\<rparr>"
  by (auto simp: allocateResources_def)

lemma deallocate_Inr:
  "deallocateResources i vm p = Inr p' \<longleftrightarrow> i < length (nodes p) \<and>
     p' = p\<lparr>nodes := (nodes p)[i := give_to_node vm (nodes p ! i)]\<rparr>"
  by (auto simp: deallocateResources_def)

lemma deallocate_allocate:
  "allocateResources i vm p = Inr p' \<Longrightarrow> deallocateResources i vm p' = Inr p"
  by (auto simp: allocate_Inr deallocateResources_def)

lemma allocate_keeps:
  "allocateResources i vm p = Inr p' \<Longrightarrow> length (nodes p') = length (nodes p) \<and>
     totalResources p' = totalResources p \<and>
     pool_availableResources p' = pool_availableResources p"
  by (auto simp: allocate_Inr)

text \<open>The pool's totals are the sums over its nodes' declared resources (modulo \<open>2 ^ 64\<close>).\<close>

fun addNodes :: "(int \<times> NodeResources) list \<Rightarrow> NodePool \<Rightarrow> NodePool" where
  "addNodes [] p = p"
| "addNodes ((a, r) # rs) p = addNodes rs (snd (addNode a r p))"

lemma addNodes_total:
  "pr_cores (totalResources (addNodes rs p)) =
     pr_cores (totalResources p) + sum_list (map (\<lambda>(a, r). ucast (nr_cores r)) rs) \<and>
   pr_memoryMiB (totalResources (addNodes rs p)) =
     pr_memoryMiB (totalResources p) + sum_list (map (\<lambda>(a, r). ucast (nr_memoryMiB r)) rs) \<and>
   pr_diskMiB (totalResources (addNodes rs p)) =
     pr_diskMiB (totalResources p) + sum_list (map (\<lambda>(a, r). ucast (nr_diskMiB r)) rs) \<and>
   pr_vms (totalResources (addNodes rs p)) =
     pr_vms (totalResources p) + sum_list (map (\<lambda>(a, r). ucast (nr_vms r)) rs)"
  by (induction rs p rule: addNodes.induct) (simp_all add: addNode_def Let_def algebra_simps)

lemma addNodes_nodes:
  "map availableResources (nodes (addNodes rs p)) = map availableResources (nodes p) @ map snd rs"
  by (induction rs p rule: addNodes.induct)
    (simp_all add: addNode_def Let_def setActive_def zero_node_def)

end
