(* ===== verification/Selection.thy ===== *)
theory Selection
  imports Resources
begin

text \<open>
  The node selection strategies of the data centre's resource manager
  (\<open>management/managers/selection/Strategies\<close>): first fit and best fit, and the contract every
  strategy has with the resource manager.
\<close>

section \<open>First fit\<close>

definition firstFit_selectNode :: "VirtualMachine \<Rightarrow> Node list \<Rightarrow> nat option outcome" where
  "firstFit_selectNode vmSpecs ns =
     Inr (first_index (\<lambda>node. vm_le_node vmSpecs (availableResources node)) ns)"

section \<open>Best fit\<close>

text \<open>
  \<open>std::make_heap\<close> with \<open>std::greater\<close> rearranges the vector so that its front is a minimum; which
  of several minima and how the rest is arranged is left to the library, so the rearrangement is an
  argument of the model and its two promises are a locale.
\<close>

type_synonym NodeDistance = "distance \<times> nat"

locale min_heap =
  fixes mk :: "NodeDistance list \<Rightarrow> NodeDistance list"
  assumes heap_mset: "mset (mk xs) = mset xs"
    and heap_front: "x \<in> set xs \<Longrightarrow> fst (hd (mk xs)) \<le> fst x"
begin

lemma heap_set: "set (mk xs) = set xs"
  by (rule mset_eq_setD [OF heap_mset])

lemma heap_Nil: "mk xs = [] \<longleftrightarrow> xs = []"
  using heap_set [of xs] by (metis set_empty)

end

fun bestFit_loop :: "(NodeDistance list \<Rightarrow> NodeDistance list) \<Rightarrow> VirtualMachine \<Rightarrow> nat \<Rightarrow> Node list
    \<Rightarrow> NodeDistance list \<Rightarrow> nat option outcome" where
  "bestFit_loop mk vmSpecs i [] distances =
     (case distances of
        [] \<Rightarrow> Inl (Undefined ''front of an empty vector'')
      | bestNode # _ \<Rightarrow> Inr (if fst bestNode = DblMax then None else Some (snd bestNode)))"
| "bestFit_loop mk vmSpecs i (node # ns) distances =
     and_then (getLogicalDistance (availableResources node) vmSpecs) (\<lambda>d.
       let distances' = mk (distances @ [(d, i)])
       in case distances' of
            [] \<Rightarrow> Inl (Undefined ''front of an empty vector'')
          | front # _ \<Rightarrow>
              if fst front = Dist 0 then Inr (Some (snd front))
              else bestFit_loop mk vmSpecs (i + 1) ns distances')"

definition bestFit_selectNode ::
  "(NodeDistance list \<Rightarrow> NodeDistance list) \<Rightarrow> VirtualMachine \<Rightarrow> Node list \<Rightarrow> nat option outcome" where
  "bestFit_selectNode mk vmSpecs ns = bestFit_loop mk vmSpecs 0 ns []"

text \<open>The simplest rearrangement that keeps the promises: a sorted vector is a heap.\<close>

definition sorted_heap :: "NodeDistance list \<Rightarrow> NodeDistance list" where
  "sorted_heap xs = sort_key fst xs"

interpretation sh: min_heap sorted_heap
proof
  fix xs :: "NodeDistance list" and x
  show "mset (sorted_heap xs) = mset xs" by (simp add: sorted_heap_def)
  assume "x \<in> set xs"
  then have x: "x \<in> set (sorted_heap xs)" by (simp add: sorted_heap_def)
  have "sorted (map fst (sorted_heap xs))" by (simp add: sorted_heap_def)
  with x show "fst (hd (sorted_heap xs)) \<le> fst x"
    by (cases "sorted_heap xs") auto
qed

text \<open>The distances of the nodes seen so far, numbered.\<close>

definition seen :: "VirtualMachine \<Rightarrow> Node list \<Rightarrow> NodeDistance set" where
  "seen vm ns = {(d, j). j < length ns \<and> getLogicalDistance (availableResources (ns ! j)) vm = Inr d}"

lemma seen_snoc:
  "getLogicalDistance (availableResources n) vm = Inr d \<Longrightarrow>
     seen vm (ns @ [n]) = insert (d, length ns) (seen vm ns)"
  by (auto simp: seen_def nth_append less_Suc_eq)

lemma seen_append: "seen vm ns \<subseteq> seen vm (ns @ ms)"
  by (auto simp: seen_def nth_append)

definition best_of :: "VirtualMachine \<Rightarrow> Node list \<Rightarrow> nat option \<Rightarrow> bool" where
  "best_of vm ns sel \<longleftrightarrow> (case sel of
     Some i \<Rightarrow> \<exists>d. (Dist d, i) \<in> seen vm ns \<and> (\<forall>x\<in>seen vm ns. Dist d \<le> fst x)
   | None \<Rightarrow> (\<forall>x\<in>seen vm ns. fst x = DblMax))"

context min_heap
begin

lemma bestFit_loop_best:
  assumes "bestFit_loop mk vm i ns h = Inr sel" "set h = seen vm done" "i = length done"
    "h \<noteq> [] \<Longrightarrow> \<forall>x\<in>set h. fst (hd h) \<le> fst x"
  shows "best_of vm (done @ ns) sel"
  using assms
proof (induction ns arbitrary: i h "done")
  case Nil
  then obtain b h' where h: "h = b # h'" by (cases h) auto
  have b: "b \<in> seen vm done" "\<forall>x\<in>seen vm done. fst b \<le> fst x"
    using Nil.prems(2,4) h by auto
  show ?case
  proof (cases "fst b")
    case (Dist d)
    with Nil.prems(1) h have "sel = Some (snd b)" by simp
    with b Dist show ?thesis by (auto simp: best_of_def intro!: exI [of _ d]) (metis prod.collapse)
  next
    case DblMax
    with Nil.prems(1) h have "sel = None" by simp
    with b DblMax show ?thesis by (auto simp: best_of_def)
  qed
next
  case (Cons n ns)
  from Cons.prems(1) obtain d where d: "getLogicalDistance (availableResources n) vm = Inr d"
    by (auto simp: and_then_eq_Inr)
  define h' where "h' = mk (h @ [(d, i)])"
  have set_h': "set h' = seen vm (done @ [n])"
    using Cons.prems(2,3) seen_snoc [OF d] by (auto simp: h'_def heap_set)
  have front: "\<forall>x\<in>set h'. fst (hd h') \<le> fst x"
    unfolding h'_def heap_set by (blast intro: heap_front)
  have "h' \<noteq> []" by (simp add: h'_def heap_Nil)
  then obtain f fs where h'f: "h' = f # fs" by (cases h') auto
  have f: "f \<in> seen vm (done @ n # ns)"
    using set_h' h'f seen_append [of vm "done @ [n]" ns] by auto
  show ?case
  proof (cases "fst f = Dist 0")
    case True
    with Cons.prems(1) d h'f have "sel = Some (snd f)" by (simp add: h'_def)
    moreover have "\<forall>x\<in>seen vm (done @ n # ns). Dist 0 \<le> fst x"
      by (auto simp: seen_def intro: distance_nonneg)
    ultimately show ?thesis
      using f True by (auto simp: best_of_def intro!: exI [of _ 0]) (metis prod.collapse)
  next
    case False
    with Cons.prems(1) d h'f have "bestFit_loop mk vm (i + 1) ns h' = Inr sel"
      by (simp add: h'_def)
    from Cons.IH [OF this set_h'] show ?thesis using Cons.prems(3) front by simp
  qed
qed

lemma bestFit_best:
  "bestFit_selectNode mk vm ns = Inr sel \<Longrightarrow> best_of vm ns sel"
  using bestFit_loop_best [of vm 0 ns "[]" sel "[]"] by (simp add: bestFit_selectNode_def seen_def)

text \<open>Without \<open>int\<close> overflow, only an empty pool makes the strategy fail.\<close>

lemma bestFit_loop_ok:
  assumes "\<And>n. n \<in> set ns \<Longrightarrow> is_ok (getLogicalDistance (availableResources n) vm)"
    and "ns \<noteq> [] \<or> h \<noteq> []"
  shows "is_ok (bestFit_loop mk vm i ns h)"
  using assms
proof (induction ns arbitrary: i h)
  case Nil
  then show ?case by (cases h) auto
next
  case (Cons n ns)
  obtain d where d: "getLogicalDistance (availableResources n) vm = Inr d"
    using Cons.prems(1) [of n] by (auto simp: is_ok_iff)
  have ne: "mk (h @ [(d, i)]) \<noteq> []" by (simp add: heap_Nil)
  then obtain f fs where f: "mk (h @ [(d, i)]) = f # fs" by (cases "mk (h @ [(d, i)])") auto
  show ?case using Cons.IH [of "mk (h @ [(d, i)])" "i + 1"] Cons.prems(1) ne d f by simp
qed

end

section \<open>The contract of a strategy\<close>

text \<open>What the resource manager relies on: a selected index is one of the pool.\<close>

locale selection_strategy =
  fixes selectNode :: "VirtualMachine \<Rightarrow> Node list \<Rightarrow> nat option outcome"
  assumes selected_in_range: "selectNode vm ns = Inr (Some i) \<Longrightarrow> i < length ns"

text \<open>A strategy that only selects nodes on which the template fits in every dimension.\<close>

locale fitting_strategy = selection_strategy +
  assumes selected_has_room:
    "selectNode vm ns = Inr (Some i) \<Longrightarrow> vm_int_sized vm \<Longrightarrow>
       (\<And>n. n \<in> set ns \<Longrightarrow> node_int_sized (availableResources n)) \<Longrightarrow>
       has_room (availableResources (ns ! i)) vm"

interpretation ff: selection_strategy firstFit_selectNode
  by unfold_locales (auto simp: firstFit_selectNode_def first_index_Some)

context min_heap
begin

lemma bestFit_fitting: "fitting_strategy (bestFit_selectNode mk)"
proof
  fix vm ns i
  assume sel: "bestFit_selectNode mk vm ns = Inr (Some i)"
  then obtain d where d: "(Dist d, i) \<in> seen vm ns"
    using bestFit_best [OF sel] by (auto simp: best_of_def)
  then show "i < length ns" by (simp add: seen_def)
  assume "vm_int_sized vm" "\<And>n. n \<in> set ns \<Longrightarrow> node_int_sized (availableResources n)"
  with d show "has_room (availableResources (ns ! i)) vm"
    by (auto simp: seen_def intro: distance_has_room)
qed

end

interpretation bf: fitting_strategy "bestFit_selectNode sorted_heap"
  by (rule sh.bestFit_fitting)

text \<open>C2.  Best fit is optimal for every heap arrangement the library may choose: a selected node has
  the least logical distance among all nodes whose distance is defined and is not the
  \<open>DBL_MAX\<close> of a node without room; when it selects none, no such node has room.  With amounts
  below \<open>2 ^ 31\<close> the selected node really has enough cores, disk, memory and a free slot, and on a
  non-empty pool without \<open>int\<close> overflow the strategy always answers.
\<close>

theorem bestFit_optimal:
  assumes "min_heap mk" "vm_int_sized vm"
    and "\<forall>n\<in>set ns. node_int_sized (availableResources n)"
    and "\<forall>n\<in>set ns. is_ok (getLogicalDistance (availableResources n) vm)" "ns \<noteq> []"
  shows "case bestFit_selectNode mk vm ns of
      Inl e \<Rightarrow> False
    | Inr None \<Rightarrow> list_all (\<lambda>n. getLogicalDistance (availableResources n) vm = Inr DblMax) ns
    | Inr (Some i) \<Rightarrow> i < length ns \<and> has_room (availableResources (ns ! i)) vm \<and>
        (\<exists>d. getLogicalDistance (availableResources (ns ! i)) vm = Inr (Dist d) \<and>
           list_all (\<lambda>n. \<exists>e. getLogicalDistance (availableResources n) vm = Inr e \<and> Dist d \<le> e) ns)"
proof -
  have "is_ok (bestFit_selectNode mk vm ns)"
    using min_heap.bestFit_loop_ok [OF assms(1)] assms(4,5) by (simp add: bestFit_selectNode_def)
  then obtain sel where sel: "bestFit_selectNode mk vm ns = Inr sel" by (auto simp: is_ok_iff)
  have best: "best_of vm ns sel" by (rule min_heap.bestFit_best [OF assms(1) sel])
  have dist: "\<exists>e. getLogicalDistance (availableResources n) vm = Inr e \<and> (e, j) \<in> seen vm ns"
    if "j < length ns" "n = ns ! j" for n j
    using that assms(4) nth_mem [of j ns] by (auto simp: is_ok_iff seen_def)
  show ?thesis
  proof (cases sel)
    case None
    with best have "\<forall>x\<in>seen vm ns. fst x = DblMax" by (simp add: best_of_def)
    with dist show ?thesis by (fastforce simp: sel None list_all_length)
  next
    case (Some i)
    with best obtain d where d: "(Dist d, i) \<in> seen vm ns" "\<forall>x\<in>seen vm ns. Dist d \<le> fst x"
      by (auto simp: best_of_def)
    have "has_room (availableResources (ns ! i)) vm"
      by (rule fitting_strategy.selected_has_room [OF min_heap.bestFit_fitting [OF assms(1)]])
        (use sel Some assms(2,3) in auto)
    moreover have "list_all (\<lambda>n. \<exists>e. getLogicalDistance (availableResources n) vm = Inr e \<and>
        Dist d \<le> e) ns"
      using dist d(2) by (fastforce simp: list_all_length)
    ultimately show ?thesis using d(1) by (auto simp: sel Some seen_def)
  qed
qed

definition small_vm :: VirtualMachine where
  "small_vm = \<lparr>vm_type = ''small'', vm_numCores = 2, vm_diskMiB = 100, vm_memoryMiB = 1024,
     vm_cost = 1, vm_scu = 1\<rparr>"

definition node_with :: "u32 \<Rightarrow> u32 \<Rightarrow> u32 \<Rightarrow> Node" where
  "node_with cores disk ram = \<lparr>availableResources = \<lparr>nr_memoryMiB = ram, nr_diskMiB = disk,
     nr_cores = cores, nr_vms = 4, nr_users = 1\<rparr>, address = 0, state = ACTIVE\<rparr>"

theorem bestFit_optimal_witness:
  "bestFit_selectNode sorted_heap small_vm
     [node_with 1 500 4096, node_with 16 900 4096, node_with 4 200 2048] = Inr (Some 2) \<and>
   has_room (availableResources (node_with 4 200 2048)) small_vm"
proof -
  have "bestFit_selectNode sorted_heap small_vm
     [node_with 1 500 4096, node_with 16 900 4096, node_with 4 200 2048] = Inr (Some 2)"
    by code_simp
  then show ?thesis
    using bestFit_optimal [OF sh.min_heap_axioms, of small_vm
        "[node_with 1 500 4096, node_with 16 900 4096, node_with 4 200 2048]"]
    by (simp add: vm_int_sized_def node_int_sized_def int_sized_def small_vm_def node_with_def
        getLogicalDistance_def hasUserAndVmSpace_def Let_def)
qed

section \<open>Where first fit goes wrong\<close>

text \<open>First fit returns the first node that the source's comparison accepts, and that comparison is
  lexicographic: more cores alone make a node acceptable.  On a node with 4 cores, 10 MiB of disk
  and 512 MiB of memory the small template (2 cores, 100 MiB, 1024 MiB) is accepted although there
  is no room for it, and allocating it wraps both amounts around \<open>2 ^ 32\<close>.
\<close>

theorem firstFit_overcommits:
  "firstFit_selectNode small_vm [node_with 4 10 512] = Inr (Some 0) \<and>
   \<not> has_room (availableResources (node_with 4 10 512)) small_vm \<and>
   unat (nr_diskMiB (availableResources (take_from_node small_vm (node_with 4 10 512)))) =
     2 ^ 32 - 90 \<and>
   unat (nr_memoryMiB (availableResources (take_from_node small_vm (node_with 4 10 512)))) =
     2 ^ 32 - 512"
  by (simp add: firstFit_selectNode_def vm_le_node_def vm_tuple_def node_tuple_def
      hasUserAndVmSpace_def small_vm_def node_with_def has_room_def take_from_node_def Let_def)

end
