(* ===== verification/UserMessages.thy ===== *)
theory UserMessages
  imports Prelude
begin

text \<open>
  The payload of the messages users, cloud providers and data centres exchange: the virtual machine
  requests of \<open>messages/VMRequest\<close> and \<open>messages/SM_UserVM\<close>, the application requests of
  \<open>messages/SM_UserAPP\<close> and the builder that groups application requests per virtual machine.
  Points in time and other \<open>double\<close> fields are only stored and are rationals here; the clock
  \<open>simTime()\<close> is an argument.
\<close>

section \<open>Virtual machine requests\<close>

datatype VM_Response_State = NOT_ASSIGNED | ACCEPTED | REJECTED

record VM_Response =
  rsp_startTime :: rat
  rsp_price :: int
  rsp_state :: VM_Response_State
  rsp_ip :: string

record InstanceRequestTimes =
  maxStartTime :: rat
  rentTime :: rat
  maxSubTime :: rat
  maxSubscriptionTime :: rat

record VM_Request =
  rq_times :: InstanceRequestTimes
  rq_vmType :: string
  rq_vmId :: string
  rq_response :: VM_Response

definition vm_request_eq :: "VM_Request \<Rightarrow> VM_Request \<Rightarrow> bool" where
  "vm_request_eq a b \<longleftrightarrow> rq_vmId a = rq_vmId b"

fun show_response_state :: "VM_Response_State \<Rightarrow> string" where
  "show_response_state NOT_ASSIGNED = ''Not assigned''"
| "show_response_state ACCEPTED = ''Accepted''"
| "show_response_state REJECTED = ''Rejected''"

record SM_UserVM =
  uv_operation :: int
  uv_isResponse :: bool
  uv_result :: int
  uv_autoSourceTopic :: bool
  uv_destinationTopic :: string
  uv_returnTopic :: string
  uv_startSubscriptionTime :: rat
  uv_endSubscriptionTime :: rat
  uv_vmId :: string
  uv_userId :: string
  uv_zone :: string
  uv_domain :: string
  uv_vm :: "VM_Request list"

definition empty_response :: VM_Response where
  "empty_response = \<lparr>rsp_startTime = 0, rsp_price = 0, rsp_state = NOT_ASSIGNED, rsp_ip = []\<rparr>"

definition createNewVmRequest ::
  "string \<Rightarrow> string \<Rightarrow> InstanceRequestTimes \<Rightarrow> SM_UserVM \<Rightarrow> SM_UserVM" where
  "createNewVmRequest type instanceId request_times rq =
     rq\<lparr>uv_vm := uv_vm rq @ [\<lparr>rq_times = request_times, rq_vmType = type, rq_vmId = instanceId,
       rq_response = empty_response\<rparr>]\<rparr>"

text \<open>The array accessors of the message check the index and stop the simulation.\<close>

definition createResponse ::
  "nat \<Rightarrow> bool \<Rightarrow> rat \<Rightarrow> string \<Rightarrow> int \<Rightarrow> SM_UserVM \<Rightarrow> SM_UserVM outcome" where
  "createResponse index accepted time ip price rq =
     (if index < length (uv_vm rq)
      then Inr (rq\<lparr>uv_vm := (uv_vm rq)[index := (uv_vm rq ! index)\<lparr>rq_response :=
             \<lparr>rsp_startTime = time, rsp_price = price,
              rsp_state = (if accepted then ACCEPTED else REJECTED), rsp_ip = ip\<rparr>\<rparr>]\<rparr>)
      else Inl (RuntimeError ''Array of size indexed out of range''))"

definition getResponse :: "nat \<Rightarrow> SM_UserVM \<Rightarrow> VM_Response option outcome" where
  "getResponse index rq =
     (if index < length (uv_vm rq)
      then let response = rq_response (uv_vm rq ! index)
           in Inr (if rsp_state response = ACCEPTED then Some response else None)
      else Inl (RuntimeError ''Array of size indexed out of range''))"

text \<open>
  \<open>dup(vmId)\<close>: the assignment of the base class copies the whole request array before the matching
  request is appended.
\<close>

definition dup_vm :: "string \<Rightarrow> SM_UserVM \<Rightarrow> SM_UserVM option" where
  "dup_vm vmId rq =
     (case first_index (\<lambda>vm. rq_vmId vm = vmId) (uv_vm rq) of
        Some i \<Rightarrow> Some (rq\<lparr>uv_vm := uv_vm rq @ [uv_vm rq ! i]\<rparr>)
      | None \<Rightarrow> None)"

lemma dup_vm_not_single:
  "dup_vm v rq = Some rq' \<Longrightarrow> length (uv_vm rq') = Suc (length (uv_vm rq)) \<and> uv_vm rq \<noteq> []"
  by (auto simp: dup_vm_def split: option.splits)

lemma createResponse_getResponse:
  assumes "createResponse i a t ip price rq = Inr rq'"
  shows "getResponse i rq' = Inr (if a then Some \<lparr>rsp_startTime = t, rsp_price = price,
      rsp_state = ACCEPTED, rsp_ip = ip\<rparr> else None)"
    and "j \<noteq> i \<Longrightarrow> getResponse j rq' = getResponse j rq"
  using assms by (auto simp: createResponse_def getResponse_def Let_def split: if_splits)

section \<open>Application requests\<close>

text \<open>The enumerators of \<open>tApplicationState\<close>, which the request keeps in a byte.\<close>

definition appWaiting :: u8 where "appWaiting = 0"
definition appRunning :: u8 where "appRunning = 1"
definition appFinishedOK :: u8 where "appFinishedOK = 2"
definition appFinishedTimeout :: u8 where "appFinishedTimeout = 3"
definition appFinishedError :: u8 where "appFinishedError = 4"

lemmas app_states = appWaiting_def appRunning_def appFinishedOK_def appFinishedTimeout_def
  appFinishedError_def

record AppRequest =
  app_name :: string
  app_type :: string
  app_startTime :: rat
  app_finishTime :: rat
  app_state :: u8

definition isFinishedOK :: "AppRequest \<Rightarrow> bool" where
  "isFinishedOK a \<longleftrightarrow> app_state a = appFinishedOK"

definition isFinishedKO :: "AppRequest \<Rightarrow> bool" where
  "isFinishedKO a \<longleftrightarrow> app_state a = appFinishedError \<or> app_state a = appFinishedTimeout"

definition isFinished :: "AppRequest \<Rightarrow> bool" where
  "isFinished a \<longleftrightarrow> isFinishedOK a \<or> isFinishedKO a"

definition setAppState :: "rat \<Rightarrow> u8 \<Rightarrow> AppRequest \<Rightarrow> AppRequest" where
  "setAppState now newState a =
     (let a' = a\<lparr>app_state := newState\<rparr>
      in if isFinished a' then a'\<lparr>app_finishTime := now\<rparr> else a')"

record SM_UserAPP =
  ua_operation :: int
  ua_isResponse :: bool
  ua_result :: int
  ua_destinationTopic :: string
  ua_returnTopic :: string
  ua_vmId :: string
  ua_hypervisorUrl :: string
  ua_userId :: string
  ua_app :: "AppRequest list"
  ua_nFinishedApps :: int
  ua_finished :: bool

definition new_app :: "string \<Rightarrow> string \<Rightarrow> rat \<Rightarrow> AppRequest" where
  "new_app name type startRentTime =
     \<lparr>app_name = name, app_type = type, app_startTime = startRentTime, app_finishTime = 0,
      app_state = appWaiting\<rparr>"

definition createNewAppRequest :: "string \<Rightarrow> string \<Rightarrow> rat \<Rightarrow> SM_UserAPP \<Rightarrow> SM_UserAPP" where
  "createNewAppRequest name type startRentTime rq =
     rq\<lparr>ua_app := ua_app rq @ [new_app name type startRentTime]\<rparr>"

definition findRequestIndex :: "string \<Rightarrow> SM_UserAPP \<Rightarrow> int" where
  "findRequestIndex name rq =
     (case first_index (\<lambda>a. app_name a = name) (ua_app rq) of Some i \<Rightarrow> int i | None \<Rightarrow> -1)"

definition changeStateByIndex :: "rat \<Rightarrow> int \<Rightarrow> u8 \<Rightarrow> SM_UserAPP \<Rightarrow> SM_UserAPP outcome" where
  "changeStateByIndex now nIndex eNewState rq =
     (if 0 \<le> nIndex \<and> nIndex < int (length (ua_app rq))
      then Inr (rq\<lparr>ua_app := (ua_app rq)[nat nIndex :=
             setAppState now eNewState (ua_app rq ! nat nIndex)]\<rparr>)
      else Inl (Undefined ''array index''))"

definition changeState :: "rat \<Rightarrow> string \<Rightarrow> u8 \<Rightarrow> SM_UserAPP \<Rightarrow> SM_UserAPP outcome" where
  "changeState now service eNewState rq =
     changeStateByIndex now (findRequestIndex service rq) eNewState rq"

definition at_request :: "(AppRequest \<Rightarrow> bool) \<Rightarrow> int \<Rightarrow> SM_UserAPP \<Rightarrow> bool outcome" where
  "at_request P i rq =
     (if 0 \<le> i \<and> i < int (length (ua_app rq)) then Inr (P (ua_app rq ! nat i))
      else Inl (Undefined ''array index''))"

definition service_isFinishedOK :: "string \<Rightarrow> SM_UserAPP \<Rightarrow> bool outcome" where
  "service_isFinishedOK service rq = at_request isFinishedOK (findRequestIndex service rq) rq"

definition service_isFinishedKO :: "string \<Rightarrow> SM_UserAPP \<Rightarrow> bool outcome" where
  "service_isFinishedKO service rq = at_request isFinishedKO (findRequestIndex service rq) rq"

definition allAppsFinishedOK :: "SM_UserAPP \<Rightarrow> bool" where
  "allAppsFinishedOK rq = list_all isFinishedOK (ua_app rq)"

definition allAppsFinished :: "SM_UserAPP \<Rightarrow> bool" where
  "allAppsFinished rq = list_all isFinished (ua_app rq)"

definition abortAllApps :: "rat \<Rightarrow> SM_UserAPP \<Rightarrow> SM_UserAPP" where
  "abortAllApps now rq =
     rq\<lparr>ua_app := map (\<lambda>a. if \<not> isFinished a then setAppState now appFinishedTimeout a else a)
       (ua_app rq)\<rparr>"

lemma isFinished_setAppState [simp]:
  "isFinished (setAppState now s a) \<longleftrightarrow>
     s = appFinishedOK \<or> s = appFinishedError \<or> s = appFinishedTimeout"
  by (simp add: setAppState_def isFinished_def isFinishedOK_def isFinishedKO_def Let_def)

lemma app_name_setAppState [simp]: "app_name (setAppState now s a) = app_name a"
  by (simp add: setAppState_def Let_def)

lemma findRequestIndex_range:
  "findRequestIndex n rq = i \<Longrightarrow> i \<noteq> -1 \<Longrightarrow>
     0 \<le> i \<and> i < int (length (ua_app rq)) \<and> app_name (ua_app rq ! nat i) = n"
  by (auto simp: findRequestIndex_def first_index_Some split: option.splits)

text \<open>\<open>changeState\<close> works exactly for the known services.\<close>

lemma changeState_ok_iff:
  "is_ok (changeState now s st rq) \<longleftrightarrow> s \<in> app_name ` set (ua_app rq)"
proof (cases "first_index (\<lambda>a. app_name a = s) (ua_app rq)")
  case None
  then have "s \<notin> app_name ` set (ua_app rq)" by (auto simp: first_index_None)
  with None show ?thesis
    by (simp add: changeState_def changeStateByIndex_def findRequestIndex_def)
next
  case (Some i)
  then have "i < length (ua_app rq)" "app_name (ua_app rq ! i) = s"
    by (auto simp: first_index_Some)
  moreover from this have "s \<in> app_name ` set (ua_app rq)" by (metis imageI nth_mem)
  ultimately show ?thesis
    by (simp add: changeState_def changeStateByIndex_def findRequestIndex_def Some)
qed

lemma changeState_frame:
  assumes "changeState now s st rq = Inr rq'"
  shows "map app_name (ua_app rq') = map app_name (ua_app rq)"
  using assms
  by (auto simp: changeState_def changeStateByIndex_def list_eq_iff_nth_eq nth_list_update
      split: if_splits)

lemma abort_isFinished_unchanged:
  "isFinished a \<Longrightarrow> a \<in> set (ua_app rq) \<Longrightarrow> a \<in> set (ua_app (abortAllApps now rq))"
  by (force simp: abortAllApps_def)


text \<open>
  Aborting a deployment leaves no application unfinished, does not touch the ones that had
  finished, and a second abort changes nothing.
\<close>

lemma abortAllApps_finishes:
  "allAppsFinished (abortAllApps now rq)"
  "list_all2 (\<lambda>a b. if isFinished a then b = a
     else app_state b = appFinishedTimeout \<and> app_finishTime b = now \<and> app_name b = app_name a)
     (ua_app rq) (ua_app (abortAllApps now rq))"
  "abortAllApps now' (abortAllApps now rq) = abortAllApps now rq"
proof -
  show "allAppsFinished (abortAllApps now rq)"
    by (simp add: allAppsFinished_def abortAllApps_def list_all_length)
  show "list_all2 (\<lambda>a b. if isFinished a then b = a
     else app_state b = appFinishedTimeout \<and> app_finishTime b = now \<and> app_name b = app_name a)
     (ua_app rq) (ua_app (abortAllApps now rq))"
    by (simp add: abortAllApps_def list_all2_conv_all_nth setAppState_def Let_def isFinished_def
        isFinishedKO_def)
  show "abortAllApps now' (abortAllApps now rq) = abortAllApps now rq"
    by (simp add: abortAllApps_def)
qed

section \<open>The application request builder\<close>

text \<open>\<open>requests\<close> is a \<open>std::map\<close> from the virtual machine's id, iterated in key order.\<close>

type_synonym UserAppBuilder = "(string \<times> AppRequest list) list"

definition newRequest :: "UserAppBuilder \<Rightarrow> UserAppBuilder" where
  "newRequest requests = []"

definition builder_createNewAppRequest ::
  "string \<Rightarrow> string \<Rightarrow> string \<Rightarrow> rat \<Rightarrow> UserAppBuilder \<Rightarrow> UserAppBuilder" where
  "builder_createNewAppRequest name type vmId startRentTime requests =
     (let appRQ = setAppState 0 appWaiting (new_app name type 0)
      in map_at vmId [] (\<lambda>v. v @ [appRQ\<lparr>app_startTime := startRentTime\<rparr>]) requests)"

text \<open>\<open>SM_APP_Req\<close>\<close>

definition SM_APP_Req :: int where "SM_APP_Req = 503"

definition builder_finish :: "string \<Rightarrow> UserAppBuilder \<Rightarrow> SM_UserAPP list" where
  "builder_finish userId requests =
     map (\<lambda>(vm, apps). \<lparr>ua_operation = SM_APP_Req, ua_isResponse = False, ua_result = -1,
       ua_destinationTopic = [], ua_returnTopic = [],
       ua_vmId = vm, ua_hypervisorUrl = [], ua_userId = userId, ua_app = apps,
       ua_nFinishedApps = 0, ua_finished = False\<rparr>) requests"

text \<open>The calls of one build: name, type, virtual machine and start time of each application.\<close>

fun build_apps :: "(string \<times> string \<times> string \<times> rat) list \<Rightarrow> UserAppBuilder \<Rightarrow> UserAppBuilder" where
  "build_apps [] b = b"
| "build_apps ((name, type, vm, t) # as) b =
     build_apps as (builder_createNewAppRequest name type vm t b)"

definition apps_for :: "string \<Rightarrow> (string \<times> string \<times> string \<times> rat) list \<Rightarrow> AppRequest list" where
  "apps_for vm as = map (\<lambda>(name, type, _, t). new_app name type t)
     (filter (\<lambda>(_, _, v, _). v = vm) as)"

lemma builder_create_eq:
  "builder_createNewAppRequest name type vm t b = map_at vm [] (\<lambda>v. v @ [new_app name type t]) b"
  by (simp add: builder_createNewAppRequest_def setAppState_def isFinished_def isFinishedOK_def
      isFinishedKO_def app_states new_app_def Let_def)

lemma build_apps_ordered: "map_ordered b \<Longrightarrow> map_ordered (build_apps as b)"
  by (induction as b rule: build_apps.induct) (simp_all add: builder_create_eq map_at_ordered)

lemma build_apps_lookup:
  "map_ordered b \<Longrightarrow> map_of (build_apps as b) vm =
     (case map_of b vm of Some l \<Rightarrow> Some (l @ apps_for vm as)
      | None \<Rightarrow> if apps_for vm as = [] then None else Some (apps_for vm as))"
proof (induction as b rule: build_apps.induct)
  case (1 b)
  then show ?case by (simp add: apps_for_def split: option.splits)
next
  case (2 name type v t as b)
  have o: "map_ordered (builder_createNewAppRequest name type v t b)"
    using 2(2) by (simp add: builder_create_eq map_at_ordered)
  show ?case
    using 2(1)[OF o] 2(2)
    by (simp add: builder_create_eq map_of_map_at apps_for_def split: option.splits)
qed

text \<open>Building a deployment: however the calls that add applications are interleaved over virtual
  machines, \<open>finish\<close> yields exactly one \<open>SM_APP_Req\<close> message per virtual machine named in a call,
  in increasing order of the ids, holding that machine's applications in the order they were
  added, all waiting and carrying the start time given.
\<close>

theorem builder_groups_apps:
  "let ms = builder_finish user (build_apps as (newRequest b)) in
     sorted (map ua_vmId ms) \<and> distinct (map ua_vmId ms) \<and>
     set (map ua_vmId ms) = (\<lambda>(_, _, vm, _). vm) ` set as \<and>
     list_all (\<lambda>m. ua_app m = apps_for (ua_vmId m) as \<and> ua_operation m = SM_APP_Req \<and>
       ua_userId m = user \<and> \<not> ua_isResponse m) ms"
proof -
  let ?b = "build_apps as (newRequest b)"
  have e: "map_ordered ([] :: UserAppBuilder)" by (simp add: map_ordered_def)
  have o: "map_ordered ?b" by (simp add: newRequest_def build_apps_ordered [OF e])
  have ids: "map ua_vmId (builder_finish user ?b) = map fst ?b"
    by (simp add: builder_finish_def comp_def case_prod_beta)
  have look: "map_of ?b vm = (if apps_for vm as = [] then None else Some (apps_for vm as))" for vm
    by (simp add: newRequest_def build_apps_lookup [OF e])
  have keys: "set (map fst ?b) = (\<lambda>(_, _, vm, _). vm) ` set as"
  proof -
    have "vm \<in> fst ` set ?b \<longleftrightarrow> apps_for vm as \<noteq> []" for vm
      using map_of_eq_None_iff [of ?b vm] look [of vm] by auto
    moreover have "apps_for vm as \<noteq> [] \<longleftrightarrow> vm \<in> (\<lambda>(_, _, vm, _). vm) ` set as" for vm
      by (force simp: apps_for_def filter_empty_conv)
    ultimately show ?thesis unfolding set_map by blast
  qed
  have "snd x = apps_for (fst x) as" if "x \<in> set ?b" for x
  proof -
    have "map_of ?b (fst x) = Some (snd x)"
      using o that by (intro map_of_is_SomeI) (auto simp: map_ordered_def)
    then show ?thesis by (simp add: look split: if_splits)
  qed
  then have "list_all (\<lambda>m. ua_app m = apps_for (ua_vmId m) as \<and> ua_operation m = SM_APP_Req \<and>
       ua_userId m = user \<and> \<not> ua_isResponse m) (builder_finish user ?b)"
    by (auto simp: builder_finish_def list_all_iff)
  with o keys show ?thesis unfolding Let_def ids by (simp only: map_ordered_def simp_thms)
qed

end
