(* ===== verification/ResManager.thy ===== *)
theory ResManager
  imports Selection UserMessages
begin

text \<open>
  The data centre's resource manager (\<open>management/managers/ResourceManager\<close>): it places the
  virtual machines of a request on nodes chosen by a strategy and undoes everything when one of
  them cannot be placed.  The catalogue of templates is the partial map the data manager
  answers \<open>searchVm\<close> with; an unknown type dereferences a null pointer.  The signals emitted for
  the statistics are part of the result.
\<close>

section \<open>Operations\<close>

record NodeVmRecord =
  rec_nodeIndex :: nat
  rec_vmTemplate :: VirtualMachine

text \<open>The statistics signals; the amounts are those of the source, the gigabytes as rationals.\<close>

datatype signal =
    AllocatedVms int | AllocatedCores int | AllocatedRam rat | AllocatedDisk rat

text \<open>
  One pass of the loop: the records made so far, the accumulated \<open>uint64_t\<close> amounts and the flag
  \<open>ok\<close>, which stops the loop.
\<close>

record alloc_state =
  al_pool :: NodePool
  al_records :: "NodeVmRecord list"
  al_cores :: u64
  al_ram :: u64
  al_disk :: u64
  al_ok :: bool

definition allocateOneVm ::
  "(VirtualMachine \<Rightarrow> Node list \<Rightarrow> nat option outcome) \<Rightarrow> (string \<Rightarrow> VirtualMachine option) \<Rightarrow>
   VM_Request \<Rightarrow> alloc_state \<Rightarrow> alloc_state outcome" where
  "allocateOneVm selectNode searchVm vm s =
     (case searchVm (rq_vmType vm) of
        None \<Rightarrow> Inl (Undefined ''null template'')
      | Some vmTemplate \<Rightarrow>
          and_then (selectNode vmTemplate (nodes (al_pool s))) (\<lambda>sel.
            case sel of
              None \<Rightarrow> Inr (s\<lparr>al_ok := False\<rparr>)
            | Some nodeIndex \<Rightarrow>
                and_then (allocateResources nodeIndex vmTemplate (al_pool s)) (\<lambda>pool.
                  Inr (s\<lparr>al_pool := pool,
                         al_records := al_records s @
                           [\<lparr>rec_nodeIndex = nodeIndex, rec_vmTemplate = vmTemplate\<rparr>],
                         al_cores := al_cores s + ucast (vm_numCores vmTemplate),
                         al_ram := al_ram s + ucast (vm_memoryMiB vmTemplate),
                         al_disk := al_disk s + ucast (vm_diskMiB vmTemplate)\<rparr>))))"

fun allocate_loop ::
  "(VirtualMachine \<Rightarrow> Node list \<Rightarrow> nat option outcome) \<Rightarrow> (string \<Rightarrow> VirtualMachine option) \<Rightarrow>
   VM_Request list \<Rightarrow> alloc_state \<Rightarrow> alloc_state outcome" where
  "allocate_loop selectNode searchVm [] s = Inr s"
| "allocate_loop selectNode searchVm (vm # vms) s =
     (if al_ok s
      then and_then (allocateOneVm selectNode searchVm vm s) (allocate_loop selectNode searchVm vms)
      else Inr s)"

fun deallocate_records :: "NodeVmRecord list \<Rightarrow> NodePool \<Rightarrow> NodePool outcome" where
  "deallocate_records [] pool = Inr pool"
| "deallocate_records (r # rs) pool =
     and_then (deallocateResources (rec_nodeIndex r) (rec_vmTemplate r) pool)
       (deallocate_records rs)"

definition alloc_start :: "NodePool \<Rightarrow> alloc_state" where
  "alloc_start pool = \<lparr>al_pool = pool, al_records = [], al_cores = 0, al_ram = 0, al_disk = 0,
     al_ok = True\<rparr>"

definition allocateVms ::
  "(VirtualMachine \<Rightarrow> Node list \<Rightarrow> nat option outcome) \<Rightarrow> (string \<Rightarrow> VirtualMachine option) \<Rightarrow>
   SM_UserVM \<Rightarrow> NodePool \<Rightarrow> (NodeVmRecord list option \<times> NodePool \<times> signal list) outcome" where
  "allocateVms selectNode searchVm request pool =
     and_then (allocate_loop selectNode searchVm (uv_vm request) (alloc_start pool)) (\<lambda>s.
       if \<not> al_ok s
       then and_then (deallocate_records (al_records s) (al_pool s)) (\<lambda>pool'.
              Inr (None, pool', []))
       else Inr (Some (al_records s), al_pool s,
              [AllocatedVms (int (length (uv_vm request))), AllocatedCores (uint (al_cores s)),
               AllocatedRam (of_int (uint (al_ram s)) / 1024),
               AllocatedDisk (of_int (uint (al_disk s)) / 1024)]))"

text \<open>
  \<open>-vmTemplate->getNumCores()\<close> negates a \<open>uint32_t\<close>, so the signal is emitted as the unsigned
  two's complement; so is the memory before it is divided.
\<close>

definition emitSignals :: "bool \<Rightarrow> VirtualMachine \<Rightarrow> bool \<Rightarrow> signal list" where
  "emitSignals mayHaveListeners vmTemplate allocation =
     (if \<not> mayHaveListeners then []
      else if allocation
      then [AllocatedVms 1, AllocatedCores (uint (vm_numCores vmTemplate)),
            AllocatedRam (of_int (uint (vm_memoryMiB vmTemplate)) / 1024),
            AllocatedDisk (of_int (uint (vm_diskMiB vmTemplate)) / 1024)]
      else [AllocatedVms (-1), AllocatedCores (uint (- vm_numCores vmTemplate)),
            AllocatedRam (of_int (uint (- vm_memoryMiB vmTemplate)) / 1024),
            AllocatedDisk (of_int (uint (- vm_memoryMiB vmTemplate)) / 1024)])"

definition confirmNodeDeallocation ::
  "bool \<Rightarrow> nat \<Rightarrow> VirtualMachine \<Rightarrow> NodePool \<Rightarrow> (NodePool \<times> signal list) outcome" where
  "confirmNodeDeallocation mayHaveListeners nodeId vmTemplate pool =
     and_then (deallocateResources nodeId vmTemplate pool) (\<lambda>pool'.
       Inr (pool', emitSignals mayHaveListeners vmTemplate False))"

definition getNodeAvailableResources :: "nat \<Rightarrow> NodePool \<Rightarrow> NodeResources outcome" where
  "getNodeAvailableResources nodeId pool = and_then (getNode nodeId pool) (\<lambda>n. Inr (availableResources n))"

definition getAvailableCores :: "NodePool \<Rightarrow> u64" where
  "getAvailableCores pool = pr_cores (totalResources pool)"

definition getAvailableDiskMiB :: "NodePool \<Rightarrow> u64" where
  "getAvailableDiskMiB pool = pr_diskMiB (totalResources pool)"

definition getAvailableRamMiB :: "NodePool \<Rightarrow> u64" where
  "getAvailableRamMiB pool = pr_memoryMiB (totalResources pool)"

definition getAggregateCpuUsage :: "NodePool \<Rightarrow> rat" where
  "getAggregateCpuUsage pool =
     (of_int (uint (pr_cores (totalResources pool) - pr_cores (pool_availableResources pool))) /
      of_int (uint (pr_cores (totalResources pool)))) * 100"

section \<open>What an allocation leaves behind\<close>

text \<open>The pool after taking the records of an allocation from it, one after the other.\<close>

definition take_record :: "NodeVmRecord \<Rightarrow> NodePool \<Rightarrow> NodePool" where
  "take_record r p = p\<lparr>nodes := (nodes p)[rec_nodeIndex r :=
     take_from_node (rec_vmTemplate r) (nodes p ! rec_nodeIndex r)]\<rparr>"

definition take_records :: "NodeVmRecord list \<Rightarrow> NodePool \<Rightarrow> NodePool" where
  "take_records rs p = fold take_record rs p"

definition give_record :: "NodeVmRecord \<Rightarrow> NodePool \<Rightarrow> NodePool" where
  "give_record r p = p\<lparr>nodes := (nodes p)[rec_nodeIndex r :=
     give_to_node (rec_vmTemplate r) (nodes p ! rec_nodeIndex r)]\<rparr>"

lemma length_take_record [simp]: "length (nodes (take_record r p)) = length (nodes p)"
  by (simp add: take_record_def)

lemma length_take_records [simp]: "length (nodes (take_records rs p)) = length (nodes p)"
  by (induction rs arbitrary: p) (simp_all add: take_records_def)

lemma give_take_record:
  "rec_nodeIndex r < length (nodes p) \<Longrightarrow> give_record r (take_record r p) = p"
  by (simp add: give_record_def take_record_def)

lemma give_take_record_commute:
  assumes "rec_nodeIndex r < length (nodes p)" "rec_nodeIndex r' < length (nodes p)"
  shows "give_record r (take_record r' p) = take_record r' (give_record r p)"
  using assms
  by (cases "rec_nodeIndex r = rec_nodeIndex r'")
    (simp_all add: give_record_def take_record_def give_take_commute list_update_swap)

lemma give_take_records_commute:
  assumes "rec_nodeIndex r < length (nodes p)" "\<forall>x\<in>set rs. rec_nodeIndex x < length (nodes p)"
  shows "give_record r (fold take_record rs p) = fold take_record rs (give_record r p)"
  using assms
proof (induction rs arbitrary: p)
  case Nil
  then show ?case by simp
next
  case (Cons x xs)
  then show ?case by (simp add: give_take_record_commute)
qed

lemma deallocate_records_ok:
  assumes "\<forall>x\<in>set rs. rec_nodeIndex x < length (nodes p)"
  shows "deallocate_records rs p = Inr (fold give_record rs p)"
  using assms
proof (induction rs arbitrary: p)
  case Nil
  then show ?case by simp
next
  case (Cons x xs)
  then have "deallocateResources (rec_nodeIndex x) (rec_vmTemplate x) p = Inr (give_record x p)"
    by (simp add: deallocateResources_def give_record_def)
  moreover have "length (nodes (give_record x p)) = length (nodes p)" by (simp add: give_record_def)
  ultimately show ?case using Cons by simp
qed

text \<open>Giving back in allocation order undoes the allocation.\<close>

lemma deallocate_take_records:
  assumes "\<forall>x\<in>set rs. rec_nodeIndex x < length (nodes p)"
  shows "deallocate_records rs (take_records rs p) = Inr p"
proof -
  have "fold give_record rs (fold take_record rs p) = p"
    using assms
  proof (induction rs arbitrary: p)
    case Nil
    then show ?case by simp
  next
    case (Cons x xs)
    have "give_record x (fold take_record xs (take_record x p)) =
        fold take_record xs (give_record x (take_record x p))"
      using Cons.prems by (intro give_take_records_commute) auto
    also have "give_record x (take_record x p) = p"
      using Cons.prems by (simp add: give_take_record)
    finally show ?case using Cons by simp
  qed
  with assms show ?thesis
    using deallocate_records_ok [of rs "take_records rs p"] by (simp add: take_records_def [symmetric])
qed

lemma take_records_append: "take_records (rs @ qs) p = take_records qs (take_records rs p)"
  by (simp add: take_records_def)

lemma take_records_totals [simp]:
  "totalResources (take_records rs p) = totalResources p"
  "pool_availableResources (take_records rs p) = pool_availableResources p"
  by (induction rs arbitrary: p) (simp_all add: take_records_def take_record_def)

text \<open>The amounts a list of records takes, as the signals report them.\<close>

definition sum_cores :: "NodeVmRecord list \<Rightarrow> u64" where
  "sum_cores rs = sum_list (map (\<lambda>r. ucast (vm_numCores (rec_vmTemplate r))) rs)"

definition valid_records :: "nat \<Rightarrow> NodeVmRecord list \<Rightarrow> bool" where
  "valid_records n rs \<longleftrightarrow> (\<forall>r\<in>set rs. rec_nodeIndex r < n)"

lemma allocate_loop_result:
  assumes "allocate_loop sel db vms s = Inr s'" "al_ok s"
  shows "\<exists>rs. al_records s' = al_records s @ rs \<and> al_pool s' = take_records rs (al_pool s) \<and>
     valid_records (length (nodes (al_pool s))) rs \<and>
     al_cores s' = al_cores s + sum_cores rs \<and>
     map (Some o rec_vmTemplate) rs = map (db o rq_vmType) (take (length rs) vms) \<and>
     (al_ok s' \<longleftrightarrow> length rs = length vms)"
  using assms
proof (induction vms arbitrary: s)
  case Nil
  then show ?case
    by (intro exI [of _ "[]"]) (simp add: take_records_def valid_records_def sum_cores_def)
next
  case (Cons vm vms)
  then obtain s1 where s1: "allocateOneVm sel db vm s = Inr s1"
    and rest: "allocate_loop sel db vms s1 = Inr s'"
    by (auto simp: and_then_eq_Inr)
  from s1 obtain tmpl where tmpl: "db (rq_vmType vm) = Some tmpl"
    by (auto simp: allocateOneVm_def split: option.splits)
  with s1 obtain choice where ch: "sel tmpl (nodes (al_pool s)) = Inr choice"
    by (auto simp: allocateOneVm_def and_then_eq_Inr)
  show ?case
  proof (cases choice)
    case None
    with s1 tmpl ch have "s1 = s\<lparr>al_ok := False\<rparr>" by (simp add: allocateOneVm_def)
    with rest have "s' = s\<lparr>al_ok := False\<rparr>" by (cases vms) simp_all
    then show ?thesis
      by (intro exI [of _ "[]"]) (simp add: take_records_def valid_records_def sum_cores_def)
  next
    case (Some i)
    let ?r = "\<lparr>rec_nodeIndex = i, rec_vmTemplate = tmpl\<rparr>"
    from s1 tmpl ch Some have i: "i < length (nodes (al_pool s))"
      and s1': "al_pool s1 = take_record ?r (al_pool s)" "al_records s1 = al_records s @ [?r]"
        "al_cores s1 = al_cores s + ucast (vm_numCores tmpl)" "al_ok s1"
      using Cons.prems(2)
      by (auto simp: allocateOneVm_def and_then_eq_Inr allocate_Inr take_record_def)
    from Cons.IH [OF rest s1'(4)] obtain rs where
      rs: "al_records s' = al_records s1 @ rs" "al_pool s' = take_records rs (al_pool s1)"
        "valid_records (length (nodes (al_pool s1))) rs" "al_cores s' = al_cores s1 + sum_cores rs"
        "map (Some o rec_vmTemplate) rs = map (db o rq_vmType) (take (length rs) vms)"
        "al_ok s' \<longleftrightarrow> length rs = length vms" by blast
    then show ?thesis
      using i s1' tmpl
      by (intro exI [of _ "?r # rs"])
        (simp add: take_records_def valid_records_def sum_cores_def add.assoc comp_def)
  qed
qed

text \<open>What an allocation answers and leaves behind.\<close>

lemma allocateVms_result:
  assumes "allocateVms sel db rq pool = Inr (res, pool', sigs)"
  shows "case res of
      None \<Rightarrow> pool' = pool \<and> sigs = []
    | Some rs \<Rightarrow>
        map (Some o rec_vmTemplate) rs = map (db o rq_vmType) (uv_vm rq) \<and>
        list_all (\<lambda>r. rec_nodeIndex r < length (nodes pool)) rs \<and>
        pool' = take_records rs pool \<and> deallocate_records rs pool' = Inr pool \<and>
        AllocatedVms (int (length rs)) \<in> set sigs \<and> AllocatedCores (uint (sum_cores rs)) \<in> set sigs"
proof -
  from assms obtain s where s: "allocate_loop sel db (uv_vm rq) (alloc_start pool) = Inr s"
    by (auto simp: allocateVms_def and_then_eq_Inr)
  from allocate_loop_result [OF s] obtain rs where
    rs: "al_records s = rs" "al_pool s = take_records rs pool"
      "valid_records (length (nodes pool)) rs" "al_cores s = sum_cores rs"
      "map (Some o rec_vmTemplate) rs = map (db o rq_vmType) (take (length rs) (uv_vm rq))"
      "al_ok s \<longleftrightarrow> length rs = length (uv_vm rq)"
    by (auto simp: alloc_start_def)
  have undo: "deallocate_records rs (take_records rs pool) = Inr pool"
    using rs(3) by (intro deallocate_take_records) (simp add: valid_records_def)
  show ?thesis
  proof (cases "al_ok s")
    case True
    with assms s rs undo show ?thesis
      by (auto simp: allocateVms_def valid_records_def list_all_iff)
  next
    case False
    with assms s rs undo show ?thesis by (auto simp: allocateVms_def)
  qed
qed

text \<open>C3.  Placing the virtual machines of a request is all or nothing, for every strategy: when the
  resource manager answers that it could not place them, the pool is exactly what it was before and
  no signal was emitted.  When it could, there is one record per requested machine, in request
  order, with the template of its type and a node index of the pool; the pool has exactly those
  templates taken from those nodes, and giving the records back restores the pool.
\<close>

theorem allocateVms_all_or_nothing:
  assumes "allocateVms sel db rq pool = Inr (res, pool', sigs)"
  shows "case res of
      None \<Rightarrow> pool' = pool \<and> sigs = []
    | Some rs \<Rightarrow>
        map (Some o rec_vmTemplate) rs = map (db o rq_vmType) (uv_vm rq) \<and>
        list_all (\<lambda>r. rec_nodeIndex r < length (nodes pool)) rs \<and>
        pool' = take_records rs pool \<and> deallocate_records rs pool' = Inr pool \<and>
        AllocatedVms (int (length rs)) \<in> set sigs \<and> AllocatedCores (uint (sum_cores rs)) \<in> set sigs"
  by (rule allocateVms_result [OF assms])

definition request_of :: "string list \<Rightarrow> SM_UserVM" where
  "request_of types = \<lparr>uv_operation = 500, uv_isResponse = False, uv_result = -1, uv_autoSourceTopic = True,
     uv_destinationTopic = [], uv_returnTopic = [],
     uv_startSubscriptionTime = 0, uv_endSubscriptionTime = 0, uv_vmId = [], uv_userId = ''u'',
     uv_zone = [], uv_domain = [],
     uv_vm = map (\<lambda>t. \<lparr>rq_times = \<lparr>maxStartTime = 0, rentTime = 1, maxSubTime = 0,
       maxSubscriptionTime = 0\<rparr>, rq_vmType = t, rq_vmId = t, rq_response = empty_response\<rparr>) types\<rparr>"

definition two_node_pool :: NodePool where
  "two_node_pool = \<lparr>nodes = [node_with 2 500 4096, node_with 4 200 2048],
     totalResources = \<lparr>pr_memoryMiB = 6144, pr_diskMiB = 700, pr_cores = 6, pr_vms = 8\<rparr>,
     pool_availableResources = \<lparr>pr_memoryMiB = 6144, pr_diskMiB = 700, pr_cores = 6, pr_vms = 8\<rparr>\<rparr>"

definition catalogue :: "string \<Rightarrow> VirtualMachine option" where
  "catalogue t = (if t = ''small'' then Some small_vm else None)"

theorem allocateVms_all_or_nothing_witness:
  "\<exists>sigs. allocateVms (bestFit_selectNode sorted_heap) catalogue
     (request_of (replicate 4 ''small'')) two_node_pool = Inr (None, two_node_pool, sigs) \<and> sigs = []"
proof -
  have "case allocateVms (bestFit_selectNode sorted_heap) catalogue
     (request_of (replicate 4 ''small'')) two_node_pool of Inr (None, _) \<Rightarrow> True | _ \<Rightarrow> False"
    by code_simp
  then obtain p sigs where "allocateVms (bestFit_selectNode sorted_heap) catalogue
     (request_of (replicate 4 ''small'')) two_node_pool = Inr (None, p, sigs)"
    by (auto split: sum.splits prod.splits option.splits)
  from this allocateVms_all_or_nothing [OF this] show ?thesis by simp
qed

section \<open>Strategies that only choose nodes with room never overcommit\<close>

definition used :: "(VirtualMachine \<Rightarrow> nat) \<Rightarrow> nat \<Rightarrow> NodeVmRecord list \<Rightarrow> nat" where
  "used f k rs = sum_list (map (f o rec_vmTemplate) (filter (\<lambda>r. rec_nodeIndex r = k) rs))"

lemma used_Cons [simp]:
  "used f k (r # rs) = (if rec_nodeIndex r = k then f (rec_vmTemplate r) else 0) + used f k rs"
  by (simp add: used_def)

lemma used_Nil [simp]: "used f k [] = 0"
  by (simp add: used_def)

text \<open>What the node has left plus what its records took is what it had, without wrapping.\<close>

definition node_conserved :: "nat \<Rightarrow> NodeVmRecord list \<Rightarrow> NodeResources \<Rightarrow> NodeResources \<Rightarrow> bool" where
  "node_conserved k rs r r' \<longleftrightarrow>
     unat (nr_cores r') + used (unat o vm_numCores) k rs = unat (nr_cores r) \<and>
     unat (nr_memoryMiB r') + used (unat o vm_memoryMiB) k rs = unat (nr_memoryMiB r) \<and>
     unat (nr_diskMiB r') + used (unat o vm_diskMiB) k rs = unat (nr_diskMiB r) \<and>
     unat (nr_vms r') + used (\<lambda>_. 1) k rs = unat (nr_vms r)"

fun fits :: "NodePool \<Rightarrow> NodeVmRecord list \<Rightarrow> bool" where
  "fits p [] = True"
| "fits p (r # rs) = (rec_nodeIndex r < length (nodes p) \<and>
     has_room (availableResources (nodes p ! rec_nodeIndex r)) (rec_vmTemplate r) \<and>
     fits (take_record r p) rs)"

lemma take_from_node_conserved:
  assumes "has_room (availableResources n) (rec_vmTemplate r)"
  shows "node_conserved (rec_nodeIndex r) [r] (availableResources n)
     (availableResources (take_from_node (rec_vmTemplate r) n))"
proof -
  have "0 < nr_vms (availableResources n)"
    using assms by (simp add: has_room_def hasUserAndVmSpace_def)
  then have "unat (nr_vms (availableResources n) - 1) = unat (nr_vms (availableResources n)) - 1"
    "0 < unat (nr_vms (availableResources n))"
    by (auto simp: unat_minus_one unat_gt_0 word_gt_0)
  with assms show ?thesis
    by (auto simp: node_conserved_def take_from_node_def Let_def has_room_def unat_sub word_le_nat_alt)
qed

lemma node_conserved_trans:
  "node_conserved k [r] a b \<Longrightarrow> node_conserved k rs b c \<Longrightarrow> node_conserved k (r # rs) a c"
  by (auto simp: node_conserved_def)

lemma node_conserved_skip:
  "rec_nodeIndex r \<noteq> k \<Longrightarrow> node_conserved k rs b c \<Longrightarrow> node_conserved k (r # rs) b c"
  by (auto simp: node_conserved_def)

lemma fits_conserved:
  assumes "fits p rs" "k < length (nodes p)"
  shows "node_conserved k rs (availableResources (nodes p ! k))
     (availableResources (nodes (take_records rs p) ! k))"
  using assms
proof (induction rs arbitrary: p)
  case Nil
  then show ?case by (simp add: node_conserved_def take_records_def)
next
  case (Cons r rs)
  let ?p = "take_record r p"
  have IH: "node_conserved k rs (availableResources (nodes ?p ! k))
     (availableResources (nodes (take_records rs ?p) ! k))"
    using Cons by simp
  have rec: "take_records (r # rs) p = take_records rs ?p" by (simp add: take_records_def)
  show ?case
  proof (cases "rec_nodeIndex r = k")
    case True
    then have "nodes ?p ! k = take_from_node (rec_vmTemplate r) (nodes p ! k)"
      using Cons.prems(2) by (simp add: take_record_def)
    then have "node_conserved k [r] (availableResources (nodes p ! k))
        (availableResources (nodes ?p ! k))"
      using take_from_node_conserved [of "nodes p ! k" r] Cons.prems(1) True by simp
    with IH show ?thesis unfolding rec by (rule node_conserved_trans [rotated])
  next
    case False
    then have "nodes ?p ! k = nodes p ! k" by (simp add: take_record_def)
    with IH False show ?thesis unfolding rec by (simp add: node_conserved_skip)
  qed
qed

definition pool_int_sized :: "NodePool \<Rightarrow> bool" where
  "pool_int_sized p \<longleftrightarrow> (\<forall>n\<in>set (nodes p). node_int_sized (availableResources n))"

lemma int_sized_sub: "b \<le> a \<Longrightarrow> int_sized a \<Longrightarrow> int_sized (a - b)"
  by (simp add: int_sized_def unat_sub word_le_nat_alt)

lemma take_record_int_sized:
  assumes "pool_int_sized p" "rec_nodeIndex r < length (nodes p)"
    "has_room (availableResources (nodes p ! rec_nodeIndex r)) (rec_vmTemplate r)"
  shows "pool_int_sized (take_record r p)"
proof -
  let ?n = "nodes p ! rec_nodeIndex r"
  have "node_int_sized (availableResources ?n)" using assms by (simp add: pool_int_sized_def)
  then have "node_int_sized (availableResources (take_from_node (rec_vmTemplate r) ?n))"
    using assms(3)
    by (simp add: node_int_sized_def take_from_node_def Let_def has_room_def int_sized_sub)
  with assms(1) show ?thesis
    using set_update_subset_insert [of "nodes p" "rec_nodeIndex r"]
    by (auto simp: pool_int_sized_def take_record_def)
qed

context fitting_strategy
begin

lemma allocate_loop_fits:
  assumes "allocate_loop selectNode db vms s = Inr s'" "al_ok s" "pool_int_sized (al_pool s)"
    and "\<And>t vm. db t = Some vm \<Longrightarrow> vm_int_sized vm"
    and "al_records s' = al_records s @ rs"
  shows "fits (al_pool s) rs"
  using assms
proof (induction vms arbitrary: s rs)
  case Nil
  then show ?case by simp
next
  case (Cons vm vms)
  then obtain s1 where s1: "allocateOneVm selectNode db vm s = Inr s1"
    and rest: "allocate_loop selectNode db vms s1 = Inr s'"
    by (auto simp: and_then_eq_Inr)
  from s1 obtain tmpl where tmpl: "db (rq_vmType vm) = Some tmpl"
    by (auto simp: allocateOneVm_def split: option.splits)
  with s1 obtain choice where ch: "selectNode tmpl (nodes (al_pool s)) = Inr choice"
    by (auto simp: allocateOneVm_def and_then_eq_Inr)
  show ?case
  proof (cases choice)
    case None
    with s1 tmpl ch have "s1 = s\<lparr>al_ok := False\<rparr>" by (simp add: allocateOneVm_def)
    with rest have "s' = s\<lparr>al_ok := False\<rparr>" by (cases vms) simp_all
    with Cons.prems(5) show ?thesis by simp
  next
    case (Some i)
    let ?r = "\<lparr>rec_nodeIndex = i, rec_vmTemplate = tmpl\<rparr>"
    from s1 tmpl ch Some have i: "i < length (nodes (al_pool s))"
      and s1': "al_pool s1 = take_record ?r (al_pool s)" "al_records s1 = al_records s @ [?r]" "al_ok s1"
      using Cons.prems(2)
      by (auto simp: allocateOneVm_def and_then_eq_Inr allocate_Inr take_record_def)
    have room: "has_room (availableResources (nodes (al_pool s) ! i)) tmpl"
      using selected_has_room ch Some Cons.prems(3,4) tmpl by (simp add: pool_int_sized_def)
    from allocate_loop_result [OF rest s1'(3)] obtain qs where
      qs: "al_records s' = al_records s1 @ qs" by blast
    have "fits (al_pool s1) qs"
      by (rule Cons.IH [OF rest s1'(3) _ Cons.prems(4) qs])
        (use s1'(1) Cons.prems(3) i room in \<open>auto intro!: take_record_int_sized\<close>)
    with qs s1' Cons.prems(5) i room show ?thesis by simp
  qed
qed

lemma allocateVms_conserves:
  assumes "allocateVms selectNode db rq pool = Inr (Some rs, pool', sigs)" "pool_int_sized pool"
    and "\<And>t vm. db t = Some vm \<Longrightarrow> vm_int_sized vm" "k < length (nodes pool)"
  shows "node_conserved k rs (availableResources (nodes pool ! k))
     (availableResources (nodes pool' ! k))"
proof -
  from assms(1) obtain s where s: "allocate_loop selectNode db (uv_vm rq) (alloc_start pool) = Inr s"
    "al_ok s" "rs = al_records s" "pool' = al_pool s"
    by (auto simp: allocateVms_def and_then_eq_Inr split: if_splits)
  have "fits pool rs"
    using allocate_loop_fits [OF s(1), of rs] s(3) assms(2,3) by (simp add: alloc_start_def)
  moreover have "pool' = take_records rs pool"
    using allocate_loop_result [OF s(1)] s(3,4) by (auto simp: alloc_start_def)
  ultimately show ?thesis using fits_conserved assms(4) by simp
qed

end

text \<open>C4.  Best fit never overcommits a node: when templates and nodes hold amounts below \<open>2 ^ 31\<close>,
  then after any successful request every node's remaining cores, memory, disk and virtual machine
  slots plus what the records placed on it took are exactly what it had, as natural numbers, so no
  32-bit subtraction wrapped.
\<close>

theorem bestFit_never_overcommits:
  assumes "min_heap mk"
    and "allocateVms (bestFit_selectNode mk) db rq pool = Inr (Some rs, pool', sigs)"
    and "pool_int_sized pool" "\<And>t vm. db t = Some vm \<Longrightarrow> vm_int_sized vm"
    and "k < length (nodes pool)"
  shows "node_conserved k rs (availableResources (nodes pool ! k))
     (availableResources (nodes pool' ! k))"
  by (rule fitting_strategy.allocateVms_conserves [OF min_heap.bestFit_fitting [OF assms(1)]
        assms(2-5)])

theorem bestFit_never_overcommits_witness:
  "\<exists>rs pool' sigs. allocateVms (bestFit_selectNode sorted_heap) catalogue
     (request_of (replicate 3 ''small'')) two_node_pool = Inr (Some rs, pool', sigs) \<and>
   node_conserved 1 rs (availableResources (nodes two_node_pool ! 1))
     (availableResources (nodes pool' ! 1))"
proof -
  have "case allocateVms (bestFit_selectNode sorted_heap) catalogue
     (request_of (replicate 3 ''small'')) two_node_pool of Inr (Some _, _) \<Rightarrow> True | _ \<Rightarrow> False"
    by code_simp
  then obtain rs p sigs where r: "allocateVms (bestFit_selectNode sorted_heap) catalogue
     (request_of (replicate 3 ''small'')) two_node_pool = Inr (Some rs, p, sigs)"
    by (auto split: sum.splits prod.splits option.splits)
  moreover have "pool_int_sized two_node_pool"
    by (simp add: pool_int_sized_def two_node_pool_def node_with_def node_int_sized_def int_sized_def)
  moreover have "vm_int_sized vm" if "catalogue t = Some vm" for t vm
    using that by (auto simp: catalogue_def small_vm_def vm_int_sized_def int_sized_def split: if_splits)
  moreover have "1 < length (nodes two_node_pool)" by (simp add: two_node_pool_def)
  ultimately show ?thesis
    using bestFit_never_overcommits [OF sh.min_heap_axioms r] by blast
qed

end
