(* ===== verification/Hardware.thy ===== *)
theory Hardware
  imports ResManager
begin

text \<open>
  The hardware managers of a node (\<open>os/hardwaremanagers\<close>): which processor cores are free, for how
  long each was used, and the node's resources.  \<open>HardwareManager\<close> holds the table of cores;
  \<open>EdgeHardwareManager\<close> keeps its own available resources, \<open>DcHardwareManager\<close> leaves them to the
  resource manager of the data centre.  Times are whole seconds (\<open>inUnit(SIMTIME_S)\<close>); the current
  one is an argument.  Core numbers are naturals below the 32-bit size of the table.
\<close>

section \<open>The table of cores\<close>

record CoreState =
  usageTime :: int
  startTime :: int
  free :: bool

definition UINT32_MAX :: nat where "UINT32_MAX = 4294967295"

definition fresh_core :: CoreState where
  "fresh_core = \<lparr>usageTime = 0, startTime = 0, free = True\<rparr>"

definition checkNodeSetup :: "bool \<Rightarrow> NodeResources \<Rightarrow> unit outcome" where
  "checkNodeSetup isVirtualHardware resources =
     (if isVirtualHardware then
        if nr_vms resources \<le> 0 \<or> nr_vms resources > nr_cores resources
        then Inl (RuntimeError ''For virtual environments, 0 < maxVMs <= numCpuCores'')
        else if nr_cores resources \<le> 0
        then Inl (RuntimeError ''The parameter numCpuCores must be a positive value (>0)'')
        else if nr_users resources \<noteq> nr_vms resources
        then Inl (RuntimeError ''For virtual environments, maxUsers = maxVMs'')
        else Inr ()
      else
        if nr_vms resources \<noteq> 1
        then Inl (RuntimeError ''For non-virtual environments, maxVMs must be 1'')
        else if nr_cores resources \<le> 0
        then Inl (RuntimeError ''The parameter numCpuCores must be a positive value (>0)'')
        else if nr_users resources \<le> 0
        then Inl (RuntimeError ''The parameter maxUsers must be a positive value (>0)'')
        else Inr ())"

text \<open>
  The scan of \<open>allocateCores\<close>: the second argument is the number of cores still wanted, the third
  the index of the first core of the remaining table.
\<close>

fun allocate_scan :: "int \<Rightarrow> nat \<Rightarrow> nat \<Rightarrow> CoreState list \<Rightarrow> nat list \<times> CoreState list" where
  "allocate_scan now 0 i cs = ([], cs)"
| "allocate_scan now (Suc k) i [] = ([], [])"
| "allocate_scan now (Suc k) i (c # cs) =
     (if free c
      then let (ix, cs') = allocate_scan now k (Suc i) cs
           in (i # ix, c\<lparr>free := False, startTime := now\<rparr> # cs')
      else let (ix, cs') = allocate_scan now (Suc k) (Suc i) cs in (ix, c # cs'))"

text \<open>
  \<open>new uint32_t[cores]{UINT32_MAX}\<close> sets the first entry only, the others are 0, and it throws for
  a size below 1.  Entries past the cores found keep that initial value.
\<close>

definition allocateCores ::
  "int \<Rightarrow> int \<Rightarrow> CoreState list \<Rightarrow> (nat list \<times> CoreState list) outcome" where
  "allocateCores now cores coresState =
     (if cores < 1 then Inl (RuntimeError ''bad_array_new_length'')
      else let (ix, cs') = allocate_scan now (nat cores) 0 coresState
           in Inr (ix @ drop (length ix) (UINT32_MAX # replicate (nat cores - 1) 0), cs'))"

fun deallocate_cores :: "int \<Rightarrow> nat list \<Rightarrow> CoreState list \<Rightarrow> CoreState list outcome" where
  "deallocate_cores now [] cs = Inr cs"
| "deallocate_cores now (index # is) cs =
     (if index < length cs
      then deallocate_cores now is (cs[index := (cs ! index)\<lparr>free := True,
             usageTime := usageTime (cs ! index) + (now - startTime (cs ! index))\<rparr>])
      else Inl (Undefined ''vector index''))"

definition deallocateCores ::
  "int \<Rightarrow> nat list \<Rightarrow> nat \<Rightarrow> CoreState list \<Rightarrow> CoreState list outcome" where
  "deallocateCores now coreIndex coreIndexSize coresState =
     (if coreIndexSize \<le> length coreIndex
      then deallocate_cores now (take coreIndexSize coreIndex) coresState
      else Inl (Undefined ''array index''))"

definition finish_usage :: "int \<Rightarrow> CoreState list \<Rightarrow> CoreState list" where
  "finish_usage now = map (\<lambda>core. if \<not> free core
     then core\<lparr>usageTime := usageTime core + (now - startTime core)\<rparr> else core)"

definition numFree :: "CoreState list \<Rightarrow> nat" where
  "numFree cs = length (filter free cs)"

lemma numFree_simps [simp]: "numFree [] = 0"
  "numFree (c # cs) = (if free c then Suc (numFree cs) else numFree cs)"
  by (simp_all add: numFree_def)

definition take_core :: "int \<Rightarrow> CoreState \<Rightarrow> CoreState" where
  "take_core now c = c\<lparr>free := False, startTime := now\<rparr>"

text \<open>The scan takes the first free cores in order and changes no other.\<close>

lemma allocate_scan_spec:
  assumes "allocate_scan now k i cs = (ix, cs')"
  shows "length cs' = length cs" "length ix = min k (numFree cs)"
    "sorted ix" "distinct ix" "\<forall>x\<in>set ix. i \<le> x \<and> x < i + length cs \<and> free (cs ! (x - i))"
    "\<forall>j<length cs. cs' ! j = (if i + j \<in> set ix then take_core now (cs ! j) else cs ! j)"
    "numFree cs' = numFree cs - length ix"
    "\<forall>x\<in>set ix. \<forall>j<x - i. free (cs ! j) \<longrightarrow> i + j \<in> set ix"
proof -
  have "length cs' = length cs \<and> length ix = min k (numFree cs) \<and> sorted ix \<and> distinct ix \<and>
    (\<forall>x\<in>set ix. i \<le> x \<and> x < i + length cs \<and> free (cs ! (x - i))) \<and>
    (\<forall>j<length cs. cs' ! j = (if i + j \<in> set ix then take_core now (cs ! j) else cs ! j)) \<and>
    numFree cs' = numFree cs - length ix \<and>
    (\<forall>x\<in>set ix. \<forall>j<x - i. free (cs ! j) \<longrightarrow> i + j \<in> set ix)"
    using assms
  proof (induction now k i cs arbitrary: ix cs' rule: allocate_scan.induct)
    case (1 now i cs)
    then show ?case by simp
  next
    case (2 now k i)
    then show ?case by simp
  next
    case (3 now k i c cs)
    show ?case
    proof (cases "free c")
      case True
      with 3(3) obtain ix1 cs1 where s: "allocate_scan now k (Suc i) cs = (ix1, cs1)"
        and e: "ix = i # ix1" "cs' = take_core now c # cs1"
        by (auto simp: take_core_def split: prod.splits)
      note IH = 3(1)[OF True s]
      have in0: "\<forall>x\<in>set ix1. Suc i \<le> x" using IH by blast
      have nth: "\<forall>j<length (c # cs). cs' ! j = (if i + j \<in> set ix then take_core now ((c # cs) ! j)
          else (c # cs) ! j)"
        using IH e by (auto simp: nth_Cons' less_Suc_eq_0_disj)
      have fst: "\<forall>x\<in>set ix. \<forall>j<x - i. free ((c # cs) ! j) \<longrightarrow> i + j \<in> set ix"
      proof (intro ballI allI impI)
        fix x j assume x: "x \<in> set ix" and j: "j < x - i" "free ((c # cs) ! j)"
        show "i + j \<in> set ix"
        proof (cases j)
          case 0 then show ?thesis by (simp add: e)
        next
          case (Suc j')
          then have "x \<in> set ix1" "j' < x - Suc i" using x j e by auto
          with IH Suc j e show ?thesis by fastforce
        qed
      qed
      have rng: "\<forall>x\<in>set ix. i \<le> x \<and> x < i + length (c # cs) \<and> free ((c # cs) ! (x - i))"
        using IH e True by (auto simp: nth_Cons' Suc_diff_le dest!: bspec)
      show ?thesis
        using IH e True in0 nth fst rng by (auto simp: take_core_def)
    next
      case False
      with 3(3) obtain ix1 cs1 where s: "allocate_scan now (Suc k) (Suc i) cs = (ix1, cs1)"
        and e: "ix = ix1" "cs' = c # cs1"
        by (auto split: prod.splits)
      note IH = 3(2)[OF False s]
      have in0: "\<forall>x\<in>set ix1. Suc i \<le> x" using IH by blast
      have nth: "\<forall>j<length (c # cs). cs' ! j = (if i + j \<in> set ix then take_core now ((c # cs) ! j)
          else (c # cs) ! j)"
        using IH e in0 by (auto simp: nth_Cons' less_Suc_eq_0_disj)
      have fst: "\<forall>x\<in>set ix. \<forall>j<x - i. free ((c # cs) ! j) \<longrightarrow> i + j \<in> set ix"
      proof (intro ballI allI impI)
        fix x j assume x: "x \<in> set ix" and j: "j < x - i" "free ((c # cs) ! j)"
        with False obtain j' where "j = Suc j'" by (cases j) auto
        with IH x j e show "i + j \<in> set ix" by fastforce
      qed
      have rng: "\<forall>x\<in>set ix. i \<le> x \<and> x < i + length (c # cs) \<and> free ((c # cs) ! (x - i))"
        using IH e by (auto simp: nth_Cons' dest!: bspec)
      show ?thesis
        using IH e False nth fst rng by auto
    qed
  qed
  then show "length cs' = length cs" "length ix = min k (numFree cs)"
    "sorted ix" "distinct ix" "\<forall>x\<in>set ix. i \<le> x \<and> x < i + length cs \<and> free (cs ! (x - i))"
    "\<forall>j<length cs. cs' ! j = (if i + j \<in> set ix then take_core now (cs ! j) else cs ! j)"
    "numFree cs' = numFree cs - length ix"
    "\<forall>x\<in>set ix. \<forall>j<x - i. free (cs ! j) \<longrightarrow> i + j \<in> set ix"
    by blast+
qed

definition release_core :: "int \<Rightarrow> CoreState \<Rightarrow> CoreState" where
  "release_core now c = c\<lparr>free := True, usageTime := usageTime c + (now - startTime c)\<rparr>"

lemma deallocate_cores_spec:
  assumes "\<forall>x\<in>set is. x < length cs" "distinct is"
  shows "\<exists>cs'. deallocate_cores now is cs = Inr cs' \<and> length cs' = length cs \<and>
     (\<forall>j<length cs. cs' ! j = (if j \<in> set is then release_core now (cs ! j) else cs ! j))"
  using assms
proof (induction now "is" cs rule: deallocate_cores.induct)
  case (1 now cs)
  then show ?case by simp
next
  case (2 now i "is" cs)
  let ?cs = "cs[i := release_core now (cs ! i)]"
  have i: "i < length cs" using 2 by simp
  then obtain cs' where cs': "deallocate_cores now is ?cs = Inr cs'" "length cs' = length cs"
    "\<forall>j<length cs. cs' ! j = (if j \<in> set is then release_core now (?cs ! j) else ?cs ! j)"
    using 2 by (auto simp: release_core_def)
  have "\<forall>j<length cs. cs' ! j = (if j \<in> set (i # is) then release_core now (cs ! j) else cs ! j)"
    using cs'(3) i 2(3) by (auto simp: nth_list_update)
  with cs' i show ?case by (simp add: release_core_def)
qed

lemma allocateCores_enough:
  assumes "0 < n" "n \<le> numFree cs"
  shows "allocateCores now (int n) cs = Inr (allocate_scan now n 0 cs)"
proof -
  obtain ix cs' where s: "allocate_scan now n 0 cs = (ix, cs')" by force
  then have "length ix = n" using allocate_scan_spec(2) [OF s] assms(2) by simp
  with assms(1) s show ?thesis by (auto simp: allocateCores_def)
qed

text \<open>What releasing an allocated index leaves: busy time charged, all else as before.\<close>

definition charged :: "nat list \<Rightarrow> int \<Rightarrow> int \<Rightarrow> CoreState list \<Rightarrow> CoreState list" where
  "charged ix now later cs = map2 (\<lambda>j c. if j \<in> set ix
     then c\<lparr>startTime := now, usageTime := usageTime c + (later - now)\<rparr> else c) [0..<length cs] cs"

lemma allocateCores_facts:
  assumes "0 < n" "n \<le> numFree cs" "allocateCores now (int n) cs = Inr (ix, cs')"
  shows "length ix = n" "distinct ix" "list_all (\<lambda>i. i < length cs \<and> free (cs ! i)) ix"
    "list_all (\<lambda>i. \<not> free (cs' ! i)) ix" "numFree cs' = numFree cs - n"
    "list_all (\<lambda>i. list_all (\<lambda>j. \<not> free (cs ! j) \<or> j \<in> set ix) [0..<i]) ix"
    "deallocateCores later ix n cs' = Inr (charged ix now later cs)"
proof -
  have s: "allocate_scan now n 0 cs = (ix, cs')"
    using assms(3) allocateCores_enough [OF assms(1,2)] by simp
  note sp = allocate_scan_spec [OF s]
  show len: "length ix = n" using sp(2) assms(2) by simp
  show "distinct ix" by (rule sp(4))
  show "list_all (\<lambda>i. i < length cs \<and> free (cs ! i)) ix"
    using sp(5) by (simp add: list_all_iff)
  show "list_all (\<lambda>i. \<not> free (cs' ! i)) ix"
    using sp(5,6) by (auto simp: list_all_iff take_core_def)
  show "numFree cs' = numFree cs - n" using sp(7) len by simp
  show "list_all (\<lambda>i. list_all (\<lambda>j. \<not> free (cs ! j) \<or> j \<in> set ix) [0..<i]) ix"
    using sp(8) by (auto simp: list_all_iff)
  have rng: "\<forall>x\<in>set ix. x < length cs'" using sp(1,5) by simp
  obtain cs'' where r: "deallocate_cores later ix cs' = Inr cs''" "length cs'' = length cs'"
    "\<forall>j<length cs'. cs'' ! j = (if j \<in> set ix then release_core later (cs' ! j) else cs' ! j)"
    using deallocate_cores_spec [OF rng sp(4)] by blast
  have "cs'' = charged ix now later cs"
  proof (rule nth_equalityI)
    show "length cs'' = length (charged ix now later cs)" using r(2) sp(1) by (simp add: charged_def)
  next
    fix j assume "j < length cs''"
    then have j: "j < length cs" using r(2) sp(1) by simp
    have "free (cs ! j)" if "j \<in> set ix" using sp(5) that by auto
    then show "cs'' ! j = charged ix now later cs ! j"
      using r(3) sp(1,6) j by (simp add: charged_def release_core_def take_core_def)
  qed
  with r(1) len show "deallocateCores later ix n cs' = Inr (charged ix now later cs)"
    by (simp add: deallocateCores_def)
qed

text \<open>C5.  When at least the wanted number of cores is free, \<open>allocateCores\<close> hands out exactly that
  many different cores, the free ones with the lowest numbers, marks them busy from now and touches
  no other; releasing the index later frees exactly those cores again and charges each of them the
  time in between, and every other core is as it was before the allocation.
\<close>

theorem allocate_release_cores:
  assumes "0 < n" "n \<le> numFree cs"
  shows "case allocateCores now (int n) cs of
      Inl _ \<Rightarrow> False
    | Inr (ix, cs') \<Rightarrow>
        length ix = n \<and> distinct ix \<and> list_all (\<lambda>i. i < length cs \<and> free (cs ! i)) ix \<and>
        list_all (\<lambda>i. \<not> free (cs' ! i)) ix \<and> numFree cs' = numFree cs - n \<and>
        list_all (\<lambda>i. list_all (\<lambda>j. \<not> free (cs ! j) \<or> j \<in> set ix) [0..<i]) ix \<and>
        deallocateCores later ix n cs' = Inr (charged ix now later cs)"
proof -
  obtain ix cs' where al: "allocateCores now (int n) cs = Inr (ix, cs')"
    using allocateCores_enough [OF assms] by (metis surj_pair)
  show ?thesis unfolding al sum.case prod.case
    by (intro conjI allocateCores_facts [OF assms al])
qed

theorem allocate_release_cores_witness:
  "(case allocateCores 5 (int 2) (replicate 3 fresh_core) of Inl _ \<Rightarrow> False
    | Inr (ix, cs') \<Rightarrow> length ix = 2 \<and> deallocateCores 9 ix 2 cs' = Inr
        [fresh_core\<lparr>startTime := 5, usageTime := 4\<rparr>, fresh_core\<lparr>startTime := 5, usageTime := 4\<rparr>,
         fresh_core])"
proof -
  have "2 \<le> numFree (replicate 3 fresh_core)"
    by (simp add: numFree_def fresh_core_def numeral_eq_Suc)
  with allocate_release_cores [where n = 2 and cs = "replicate 3 fresh_core" and now = 5 and later = 9] show ?thesis
    by (simp add: allocateCores_def fresh_core_def charged_def numeral_eq_Suc)
qed

text \<open>With fewer free cores than wanted nothing is refused: the index is padded with the
  initialisers of the array, and the padding 0 names a real core.  On a node of two cores, a first
  machine that was given core 0 has it marked free again, while it still runs, as soon as a second
  machine that asked for three cores is released.
\<close>

theorem allocateCores_overcommit_releases_foreign_core:
  "\<exists>a b c. allocateCores 0 1 (replicate 2 fresh_core) = Inr ([0], a) \<and> \<not> free (a ! 0) \<and>
     allocateCores 1 3 a = Inr ([1, 0, 0], b) \<and>
     deallocateCores 2 [1, 0, 0] 3 b = Inr c \<and> free (c ! 0)"
  by (simp add: allocateCores_def deallocateCores_def fresh_core_def numeral_eq_Suc)

section \<open>The hardware manager of an edge node\<close>

record EdgeHardwareManager =
  edge_total :: NodeResources
  edge_available :: NodeResources
  edge_coresState :: "CoreState list"
  edge_nodeIp :: int

text \<open>The module parameters; \<open>memorySize\<close> and \<open>diskSize\<close> are \<open>double\<close> amounts of MiB, rounded up.\<close>

record HardwareParams =
  par_isVirtualHardware :: bool
  par_numCpuCores :: u32
  par_memorySize :: rat
  par_diskSize :: rat
  par_maxVMs :: u32
  par_maxUsers :: u32
  par_address :: int

definition params_resources :: "HardwareParams \<Rightarrow> NodeResources" where
  "params_resources ps = \<lparr>nr_memoryMiB = of_int \<lceil>par_memorySize ps\<rceil>,
     nr_diskMiB = of_int \<lceil>par_diskSize ps\<rceil>, nr_cores = par_numCpuCores ps,
     nr_vms = par_maxVMs ps, nr_users = par_maxUsers ps\<rparr>"

definition edge_initialize :: "HardwareParams \<Rightarrow> EdgeHardwareManager outcome" where
  "edge_initialize ps =
     (let total = params_resources ps;
          hw = \<lparr>edge_total = total, edge_available = total,
                edge_coresState = replicate (unat (nr_cores total)) fresh_core,
                edge_nodeIp = par_address ps\<rparr>
      in and_then (checkNodeSetup (par_isVirtualHardware ps) total) (\<lambda>_. Inr hw))"

definition edge_tryAllocateResources ::
  "int \<Rightarrow> VirtualMachine \<Rightarrow> EdgeHardwareManager \<Rightarrow>
     (nat list option \<times> EdgeHardwareManager) outcome" where
  "edge_tryAllocateResources now vmTemplate hw =
     (let cores = sint (vm_numCores vmTemplate)
      in if \<not> vm_le_node vmTemplate (edge_available hw) then Inr (None, hw)
         else and_then (allocateCores now cores (edge_coresState hw)) (\<lambda>(coreIndex, cs).
           let a = edge_available hw
           in Inr (Some coreIndex, hw\<lparr>edge_coresState := cs,
                edge_available := a\<lparr>nr_cores := nr_cores a - of_int cores,
                  nr_memoryMiB := nr_memoryMiB a - vm_memoryMiB vmTemplate,
                  nr_diskMiB := nr_diskMiB a - vm_diskMiB vmTemplate,
                  nr_vms := nr_vms a - 1\<rparr>\<rparr>)))"

definition edge_deallocateResources ::
  "int \<Rightarrow> VirtualMachine \<Rightarrow> nat list \<Rightarrow> EdgeHardwareManager \<Rightarrow> EdgeHardwareManager outcome" where
  "edge_deallocateResources now vmTemplate coreIndex hw =
     (let a = edge_available hw;
          hw' = hw\<lparr>edge_available := a\<lparr>nr_vms := nr_vms a + 1,
                  nr_memoryMiB := nr_memoryMiB a + vm_memoryMiB vmTemplate,
                  nr_diskMiB := nr_diskMiB a + vm_diskMiB vmTemplate,
                  nr_cores := nr_cores a + vm_numCores vmTemplate\<rparr>\<rparr>
      in and_then (deallocateCores now coreIndex (unat (vm_numCores vmTemplate))
             (edge_coresState hw')) (\<lambda>cs. Inr (hw'\<lparr>edge_coresState := cs\<rparr>)))"

text \<open>The available cores are those that are free in the table.\<close>

definition edge_inv :: "EdgeHardwareManager \<Rightarrow> bool" where
  "edge_inv hw \<longleftrightarrow> numFree (edge_coresState hw) = unat (nr_cores (edge_available hw)) \<and>
     int_sized (nr_cores (edge_available hw))"

lemma edge_initialize_inv:
  "edge_initialize ps = Inr hw \<Longrightarrow> int_sized (par_numCpuCores ps) \<Longrightarrow> edge_inv hw"
  by (auto simp: edge_initialize_def Let_def and_then_eq_Inr edge_inv_def params_resources_def
      numFree_def fresh_core_def)

lemma vm_le_node_cores: "vm_le_node vm r \<Longrightarrow> vm_numCores vm \<le> nr_cores r"
  by (auto simp: vm_le_node_def vm_tuple_def node_tuple_def split: if_splits)

lemma sint_int_sized: "int_sized w \<Longrightarrow> sint w = int (unat w)"
  unfolding int_sized_def unat_u32 sint32 by (simp only: if_True) (simp only: uint_nat)

lemma numFree_cong: "map free cs = map free cs' \<Longrightarrow> numFree cs = numFree cs'"
proof -
  have "numFree xs = length (filter (\<lambda>b. b) (map free xs))" for xs by (induction xs) simp_all
  then show "map free cs = map free cs' \<Longrightarrow> numFree cs = numFree cs'" by metis
qed

lemma int_sized_mono: "b \<le> a \<Longrightarrow> int_sized a \<Longrightarrow> int_sized b"
  by (simp add: int_sized_def word_le_nat_alt)

text \<open>On an edge node the count of available cores and the table of free cores agree, and a
  machine that the node accepts gets as many different cores as its template says; releasing it
  gives back exactly the cores, memory, disk and slot it took.  A machine that does not pass the
  comparison changes nothing.
\<close>

theorem edge_allocate_release:
  assumes "edge_inv hw" "vm_numCores vm \<noteq> 0"
  shows "case edge_tryAllocateResources now vm hw of
      Inl _ \<Rightarrow> False
    | Inr (None, hw') \<Rightarrow> hw' = hw \<and> \<not> vm_le_node vm (edge_available hw)
    | Inr (Some ix, hw') \<Rightarrow> vm_le_node vm (edge_available hw) \<and>
        edge_inv hw' \<and> length ix = unat (vm_numCores vm) \<and> distinct ix \<and>
        list_all (\<lambda>i. free (edge_coresState hw ! i)) ix \<and>
        (case edge_deallocateResources later vm ix hw' of
           Inl _ \<Rightarrow> False
         | Inr hw'' \<Rightarrow> edge_inv hw'' \<and> edge_available hw'' = edge_available hw)"
proof (cases "vm_le_node vm (edge_available hw)")
  case False
  then show ?thesis by (simp add: edge_tryAllocateResources_def Let_def)
next
  case True
  let ?a = "edge_available hw" and ?cs = "edge_coresState hw" and ?n = "unat (vm_numCores vm)"
  have le: "vm_numCores vm \<le> nr_cores ?a" using True by (rule vm_le_node_cores)
  have sz: "int_sized (vm_numCores vm)" "numFree ?cs = unat (nr_cores ?a)" "int_sized (nr_cores ?a)"
    using assms(1) le by (auto simp: edge_inv_def int_sized_mono)
  have n: "0 < ?n" "?n \<le> numFree ?cs"
    using assms(2) le sz(2) by (simp_all add: unat_gt_0 word_le_nat_alt)
  obtain ix cs' where al: "allocateCores now (int ?n) ?cs = Inr (ix, cs')"
    using allocateCores_enough [OF n] by (metis surj_pair)
  note facts = allocateCores_facts [OF n al]
  have sint: "sint (vm_numCores vm) = int ?n" by (rule sint_int_sized [OF sz(1)])
  let ?a' = "?a\<lparr>nr_cores := nr_cores ?a - vm_numCores vm,
     nr_memoryMiB := nr_memoryMiB ?a - vm_memoryMiB vm, nr_diskMiB := nr_diskMiB ?a - vm_diskMiB vm,
     nr_vms := nr_vms ?a - 1\<rparr>"
  let ?hw' = "hw\<lparr>edge_coresState := cs', edge_available := ?a'\<rparr>"
  have alloc: "edge_tryAllocateResources now vm hw = Inr (Some ix, ?hw')"
    using True al by (simp add: edge_tryAllocateResources_def Let_def sint)
  have inv': "edge_inv ?hw'"
    using sz facts(5) le by (simp add: edge_inv_def int_sized_sub unat_sub word_le_nat_alt)
  have de: "edge_deallocateResources later vm ix ?hw' =
      Inr (hw\<lparr>edge_coresState := charged ix now later ?cs\<rparr>)"
    using facts(7) [of later] by (simp add: edge_deallocateResources_def Let_def)
  have "numFree (charged ix now later ?cs) = numFree ?cs"
    by (rule numFree_cong, rule nth_equalityI) (simp_all add: charged_def)
  then have "edge_inv (hw\<lparr>edge_coresState := charged ix now later ?cs\<rparr>)"
    using assms(1) by (simp add: edge_inv_def)
  with True inv' facts(1-3) de show ?thesis
    unfolding alloc sum.case prod.case option.case by (simp add: list_all_iff)
qed

definition edge_example :: EdgeHardwareManager where
  "edge_example = \<lparr>edge_total = \<lparr>nr_memoryMiB = 4096, nr_diskMiB = 500, nr_cores = 4, nr_vms = 4,
     nr_users = 4\<rparr>, edge_available = \<lparr>nr_memoryMiB = 4096, nr_diskMiB = 500, nr_cores = 4,
     nr_vms = 4, nr_users = 4\<rparr>, edge_coresState = [fresh_core, fresh_core, fresh_core, fresh_core], edge_nodeIp = 1\<rparr>"

theorem edge_allocate_release_witness:
  "case edge_tryAllocateResources 3 small_vm edge_example of
     Inr (Some ix, hw') \<Rightarrow> ix = [0, 1] \<and> edge_inv hw' | _ \<Rightarrow> False"
proof -
  have "vm_le_node small_vm (edge_available edge_example)"
    by (simp add: vm_le_node_def vm_tuple_def node_tuple_def hasUserAndVmSpace_def small_vm_def
        edge_example_def)
  moreover have "\<exists>cs. allocateCores 3 2 (edge_coresState edge_example) = Inr ([0, 1], cs)"
    by (simp add: allocateCores_def edge_example_def fresh_core_def numeral_2_eq_2)
  moreover have "sint (vm_numCores small_vm) = 2" by (simp add: small_vm_def)
  ultimately obtain hw' where r:
    "edge_tryAllocateResources 3 small_vm edge_example = Inr (Some [0, 1], hw')"
    by (auto simp: edge_tryAllocateResources_def Let_def)
  have "edge_inv edge_example" "vm_numCores small_vm \<noteq> 0"
    by (simp_all add: edge_inv_def edge_example_def fresh_core_def int_sized_def small_vm_def)
  then show ?thesis
    using edge_allocate_release [where hw = edge_example and vm = small_vm and now = 3 and later = 7]
    unfolding r sum.case prod.case option.case by blast
qed

section \<open>The hardware manager of a data centre node\<close>

record DcHardwareManager =
  dc_total :: NodeResources
  dc_nodeId :: nat
  dc_coresState :: "CoreState list"

text \<open>\<open>initialize(BLADE)\<close> registers the node with the resource manager's pool.\<close>

definition dc_initialize ::
  "HardwareParams \<Rightarrow> int \<Rightarrow> NodePool \<Rightarrow> (DcHardwareManager \<times> NodePool) outcome" where
  "dc_initialize ps ip pool =
     (let total = params_resources ps
      in and_then (checkNodeSetup (par_isVirtualHardware ps) total) (\<lambda>_.
           let (nodeId, pool') = addNode ip total pool
           in Inr (\<lparr>dc_total = total, dc_nodeId = nodeId,
                    dc_coresState = replicate (unat (nr_cores total)) fresh_core\<rparr>, pool')))"

definition dc_tryAllocateResources ::
  "int \<Rightarrow> VirtualMachine \<Rightarrow> DcHardwareManager \<Rightarrow> (nat list \<times> bool \<times> DcHardwareManager) outcome" where
  "dc_tryAllocateResources now vmTemplate hw =
     and_then (allocateCores now (sint (vm_numCores vmTemplate)) (dc_coresState hw))
       (\<lambda>(coreIndex, cs). Inr (coreIndex, True, hw\<lparr>dc_coresState := cs\<rparr>))"

definition dc_deallocateResources ::
  "bool \<Rightarrow> int \<Rightarrow> VirtualMachine \<Rightarrow> nat list \<Rightarrow> DcHardwareManager \<Rightarrow> NodePool \<Rightarrow>
     (DcHardwareManager \<times> NodePool \<times> signal list) outcome" where
  "dc_deallocateResources mayHaveListeners now vmTemplate coreIndex hw pool =
     and_then (deallocateCores now coreIndex (unat (vm_numCores vmTemplate)) (dc_coresState hw))
       (\<lambda>cs. and_then (confirmNodeDeallocation mayHaveListeners (dc_nodeId hw) vmTemplate pool)
         (\<lambda>(pool', sigs). Inr (hw\<lparr>dc_coresState := cs\<rparr>, pool', sigs)))"

definition dc_getAvailableResources :: "DcHardwareManager \<Rightarrow> NodePool \<Rightarrow> NodeResources outcome" where
  "dc_getAvailableResources hw pool = getNodeAvailableResources (dc_nodeId hw) pool"

lemma dc_initialize_available:
  assumes "dc_initialize ps ip pool = Inr (hw, pool')"
  shows "dc_getAvailableResources hw pool' = Inr (params_resources ps)"
    "numFree (dc_coresState hw) = unat (par_numCpuCores ps)"
  using assms
  by (auto simp: dc_initialize_def Let_def and_then_eq_Inr addNode_def dc_getAvailableResources_def
      getNodeAvailableResources_def getNode_def setActive_def params_resources_def numFree_def
      fresh_core_def)

text \<open>A virtual node that passes the check has at least one core per virtual machine slot.\<close>

lemma checkNodeSetup_virtual:
  "checkNodeSetup True r = Inr () \<longleftrightarrow>
     0 < nr_vms r \<and> nr_vms r \<le> nr_cores r \<and> nr_users r = nr_vms r"
  by (auto simp: checkNodeSetup_def word_gt_0 not_less dest: leD)

end
