(* ===== verification/MsgTrace.thy ===== *)
theory MsgTrace
  imports Prelude
begin

text \<open>
  The base message \<open>SIMCAN_Message\<close> (\<open>messages/SIMCAN_Message\<close>): the parameters every message
  carries and its trace, the stack of the nodes and modules a request went through, which the
  response follows back.  An access to \<open>back()\<close> of an empty vector or list is undefined.  The gate
  a message arrived on is part of it, as in the simulation kernel.
\<close>

section \<open>Decimal numbers\<close>

fun show_nat :: "nat \<Rightarrow> string" where
  "show_nat n = (if n < 10 then [char_of (48 + n)]
     else show_nat (n div 10) @ [char_of (48 + n mod 10)])"

declare show_nat.simps [simp del]

definition show_int :: "int \<Rightarrow> string" where
  "show_int i = (if i < 0 then ''-'' @ show_nat (nat (- i)) else show_nat (nat i))"

definition is_digit :: "char \<Rightarrow> bool" where
  "is_digit c \<longleftrightarrow> 48 \<le> (of_char c :: nat) \<and> (of_char c :: nat) \<le> 57"

lemma show_nat_digits: "c \<in> set (show_nat n) \<Longrightarrow> is_digit c"
proof (induction n rule: show_nat.induct)
  case (1 n)
  have d: "is_digit (char_of (48 + k))" if "k < 10" for k :: nat
    using that by (simp add: is_digit_def of_char_of)
  show ?case
  proof (cases "n < 10")
    case True
    with 1(2) d show ?thesis by (subst (asm) show_nat.simps) simp
  next
    case False
    with 1 d [of "n mod 10"] show ?thesis by (subst (asm) show_nat.simps) auto
  qed
qed

lemma show_nat_not_empty: "show_nat n \<noteq> []"
  by (subst show_nat.simps) simp

section \<open>The message\<close>

record TraceComponent =
  moduleID :: int
  gateID :: int
  reqSequence :: "u64 list"

type_synonym TraceVector = "(string \<times> TraceComponent list) list"

record SIMCAN_Message =
  msg_name :: string
  msg_byteLength :: int
  msg_arrivalGate :: "int option"
  operation :: u32
  isResponse :: bool
  remoteOperation :: bool
  autoSourceTopic :: bool
  destinationTopic :: string
  returnTopic :: string
  connectionId :: int
  commId :: int
  sourceId :: int
  nextModuleIndex :: int
  msg_result :: int
  trace :: TraceVector

definition SM_BaseLength :: int where "SM_BaseLength = 1"
definition SM_UnsetValue :: int where "SM_UnsetValue = -1"
definition SM_NullOperation :: u32 where "SM_NullOperation = 0"
definition SM_VM_Req :: u32 where "SM_VM_Req = 500"
definition SM_ExecCpu :: u32 where "SM_ExecCpu = 1000"
definition SM_AbortCpu :: u32 where "SM_AbortCpu = 1001"

text \<open>The two constructors of a trace component.\<close>

definition TraceComponent2 :: "int \<Rightarrow> int \<Rightarrow> TraceComponent" where
  "TraceComponent2 newModule newGate =
     \<lparr>moduleID = newModule, gateID = newGate, reqSequence = []\<rparr>"

definition TraceComponent3 :: "int \<Rightarrow> int \<Rightarrow> u64 \<Rightarrow> TraceComponent" where
  "TraceComponent3 newModule newGate newReq =
     \<lparr>moduleID = newModule, gateID = newGate, reqSequence = newReq # []\<rparr>"

text \<open>The constructor ignores the name it is given.\<close>

definition new_SIMCAN_Message :: "string \<Rightarrow> SIMCAN_Message" where
  "new_SIMCAN_Message name =
     \<lparr>msg_name = ''SIMCAN_Message'', msg_byteLength = SM_BaseLength, msg_arrivalGate = None,
      operation = SM_NullOperation, isResponse = False, remoteOperation = False,
      autoSourceTopic = True, destinationTopic = [], returnTopic = [],
      connectionId = SM_UnsetValue, commId = SM_UnsetValue, sourceId = SM_UnsetValue,
      nextModuleIndex = SM_UnsetValue, msg_result = SM_UnsetValue, trace = []\<rparr>"

definition empty_trace_error :: sim_error where
  "empty_trace_error = RuntimeError ''Trace is empty!''"

text \<open>\<open>v.back()\<close> and the replacement of the last element.\<close>

definition back_of :: "'a list \<Rightarrow> 'a outcome" where
  "back_of xs = (if xs = [] then Inl (Undefined ''back of an empty container'') else Inr (last xs))"

definition set_back :: "'a list \<Rightarrow> 'a \<Rightarrow> 'a list" where
  "set_back xs x = butlast xs @ [x]"

definition isTraceEmpty :: "('a SIMCAN_Message_scheme) \<Rightarrow> bool" where
  "isTraceEmpty sm \<longleftrightarrow> trace sm = []"

definition setTraceArraySize :: "nat \<Rightarrow> 'a SIMCAN_Message_scheme \<Rightarrow> 'a SIMCAN_Message_scheme" where
  "setTraceArraySize n sm = sm"

definition getTraceArraySize :: "'a SIMCAN_Message_scheme \<Rightarrow> nat" where
  "getTraceArraySize sm = length (trace sm)"

definition addModuleToTrace ::
  "int \<Rightarrow> int \<Rightarrow> u64 \<Rightarrow> 'a SIMCAN_Message_scheme \<Rightarrow> 'a SIMCAN_Message_scheme outcome" where
  "addModuleToTrace mod_id gate currentRequest sm =
     (let currentModule = TraceComponent2 mod_id gate
      in if trace sm = [] then Inl empty_trace_error
         else let m = currentModule\<lparr>reqSequence := reqSequence currentModule @ [currentRequest]\<rparr>;
                  (node, comps) = last (trace sm)
              in Inr (sm\<lparr>trace := set_back (trace sm) (node, comps @ [m])\<rparr>))"

definition removeLastModuleFromTrace ::
  "'a SIMCAN_Message_scheme \<Rightarrow> 'a SIMCAN_Message_scheme outcome" where
  "removeLastModuleFromTrace sm =
     (if trace sm = [] then Inl empty_trace_error
      else let (node, comps) = last (trace sm)
           in if comps = [] then Inl (Undefined ''pop_back of an empty vector'')
              else Inr (sm\<lparr>trace := set_back (trace sm) (node, butlast comps)\<rparr>))"

definition addNodeToTrace :: "string \<Rightarrow> 'a SIMCAN_Message_scheme \<Rightarrow> 'a SIMCAN_Message_scheme" where
  "addNodeToTrace node sm = sm\<lparr>trace := trace sm @ [(node, [])]\<rparr>"

definition removeLastNodeFromTrace ::
  "'a SIMCAN_Message_scheme \<Rightarrow> 'a SIMCAN_Message_scheme outcome" where
  "removeLastNodeFromTrace sm =
     (if trace sm = [] then Inl empty_trace_error
      else Inr (sm\<lparr>trace := butlast (trace sm)\<rparr>))"

text \<open>The last module of the last node, and its replacement.\<close>

definition last_module :: "'a SIMCAN_Message_scheme \<Rightarrow> TraceComponent outcome" where
  "last_module sm =
     (if trace sm = [] then Inl empty_trace_error else back_of (snd (last (trace sm))))"

definition set_last_module ::
  "TraceComponent \<Rightarrow> 'a SIMCAN_Message_scheme \<Rightarrow> 'a SIMCAN_Message_scheme" where
  "set_last_module c sm =
     (let (node, comps) = last (trace sm)
      in sm\<lparr>trace := set_back (trace sm) (node, set_back comps c)\<rparr>)"

definition addRequestToTrace ::
  "int \<Rightarrow> 'a SIMCAN_Message_scheme \<Rightarrow> 'a SIMCAN_Message_scheme outcome" where
  "addRequestToTrace request sm =
     and_then (last_module sm) (\<lambda>c.
       Inr (set_last_module (c\<lparr>reqSequence := reqSequence c @ [of_int request]\<rparr>) sm))"

definition removeLastRequestFromTrace ::
  "'a SIMCAN_Message_scheme \<Rightarrow> 'a SIMCAN_Message_scheme outcome" where
  "removeLastRequestFromTrace sm =
     and_then (last_module sm) (\<lambda>c.
       if reqSequence c = [] then Inl (Undefined ''pop_back of an empty list'')
       else Inr (set_last_module (c\<lparr>reqSequence := butlast (reqSequence c)\<rparr>) sm))"

definition getLastGateId :: "'a SIMCAN_Message_scheme \<Rightarrow> int outcome" where
  "getLastGateId sm = and_then (last_module sm) (\<lambda>c. Inr (gateID c))"

definition getLastModuleId :: "'a SIMCAN_Message_scheme \<Rightarrow> int outcome" where
  "getLastModuleId sm = and_then (last_module sm) (\<lambda>c. Inr (moduleID c))"

text \<open>The request number is an \<open>unsigned long\<close> returned as \<open>int\<close>.\<close>

definition getCurrentRequest :: "'a SIMCAN_Message_scheme \<Rightarrow> int outcome" where
  "getCurrentRequest sm = and_then (last_module sm) (\<lambda>c.
     and_then (back_of (reqSequence c)) (\<lambda>r. Inr (sint (ucast r :: u32))))"

definition addNodeTrace ::
  "string \<Rightarrow> TraceComponent list \<Rightarrow> 'a SIMCAN_Message_scheme \<Rightarrow> 'a SIMCAN_Message_scheme" where
  "addNodeTrace host nodeTrace sm =
     (let currentNodeTrace = map (\<lambda>c. \<lparr>moduleID = moduleID c, gateID = gateID c,
        reqSequence = foldl (\<lambda>l r. l @ [r]) [] (reqSequence c)\<rparr>) nodeTrace
      in sm\<lparr>trace := trace sm @ [(host, currentNodeTrace)]\<rparr>)"

definition getInitialModuleName :: "nat \<Rightarrow> 'a SIMCAN_Message_scheme \<Rightarrow> string outcome" where
  "getInitialModuleName k sm =
     (if k < length (trace sm) then Inr (fst (trace sm ! k)) else Inl (Undefined ''vector index''))"

definition getNodeTrace :: "nat \<Rightarrow> 'a SIMCAN_Message_scheme \<Rightarrow> TraceComponent list outcome" where
  "getNodeTrace k sm =
     (if k < length (trace sm) then Inr (snd (trace sm ! k)) else Inl (Undefined ''vector index''))"

definition getTrace :: "nat \<Rightarrow> 'a SIMCAN_Message_scheme \<Rightarrow> TraceComponent outcome" where
  "getTrace k sm = and_then (getNodeTrace k sm) back_of"

text \<open>\<open>copy\<close>: the trace of the other message is appended node by node.\<close>

definition copy_trace :: "TraceVector \<Rightarrow> 'a SIMCAN_Message_scheme \<Rightarrow> 'a SIMCAN_Message_scheme" where
  "copy_trace other sm =
     foldl (\<lambda>m (host, comps). addNodeTrace host comps m) (setTraceArraySize (length other) sm) other"

lemma addNodeTrace_eq: "addNodeTrace host comps sm = sm\<lparr>trace := trace sm @ [(host, comps)]\<rparr>"
proof -
  have f: "foldl (\<lambda>l r. l @ [r]) ys xs = ys @ xs" for xs ys :: "u64 list"
    by (induction xs arbitrary: ys) simp_all
  have m: "\<lparr>moduleID = moduleID c, gateID = gateID c, reqSequence = reqSequence c\<rparr> = c"
    for c :: TraceComponent by simp
  show ?thesis by (simp only: addNodeTrace_def f append_Nil m Let_def list.map_ident)
qed

lemma copy_trace_appends: "copy_trace other sm = sm\<lparr>trace := trace sm @ other\<rparr>"
proof -
  have "foldl (\<lambda>m (host, comps). addNodeTrace host comps m) sm other =
      sm\<lparr>trace := trace sm @ other\<rparr>"
    by (induction other arbitrary: sm) (auto simp: addNodeTrace_eq)
  then show ?thesis by (simp add: copy_trace_def setTraceArraySize_def)
qed

text \<open>Popping undoes pushing, on every level of the trace.\<close>

lemma remove_add_module:
  "addModuleToTrace m g r sm = Inr sm' \<Longrightarrow>
     removeLastModuleFromTrace sm' = Inr sm \<and> getLastGateId sm' = Inr g \<and>
     getLastModuleId sm' = Inr m \<and> trace sm' \<noteq> []"
proof -
  assume add: "addModuleToTrace m g r sm = Inr sm'"
  then obtain pre node comps where t: "trace sm = pre @ [(node, comps)]"
    by (cases "trace sm" rule: rev_cases) (simp_all add: addModuleToTrace_def, metis surj_pair)
  have t': "sm' = sm\<lparr>trace := pre @ [(node, comps @ [\<lparr>moduleID = m, gateID = g, reqSequence = [r]\<rparr>])]\<rparr>"
    using add by (simp add: addModuleToTrace_def t set_back_def TraceComponent2_def)
  then show ?thesis
    by (simp add: removeLastModuleFromTrace_def getLastGateId_def getLastModuleId_def
        last_module_def back_of_def set_back_def t [symmetric])
qed

lemma remove_add_request:
  assumes "addRequestToTrace r sm = Inr sm'" "- (2 ^ 31) \<le> r" "r < 2 ^ 31"
  shows "removeLastRequestFromTrace sm' = Inr sm" "getCurrentRequest sm' = Inr r"
proof -
  from assms(1) obtain pre node comps c where t: "trace sm = pre @ [(node, comps @ [c])]"
    by (cases "trace sm" rule: rev_cases)
      (auto simp: addRequestToTrace_def and_then_eq_Inr last_module_def back_of_def
        split: if_splits, metis append_butlast_last_id)
  have sm': "sm' = set_last_module (c\<lparr>reqSequence := reqSequence c @ [of_int r]\<rparr>) sm"
    using assms(1) by (simp add: addRequestToTrace_def last_module_def back_of_def t)
  show "removeLastRequestFromTrace sm' = Inr sm"
    by (simp add: sm' removeLastRequestFromTrace_def last_module_def back_of_def set_last_module_def
        set_back_def t)
  have "sint (ucast (of_int r :: u64) :: u32) = r"
  proof -
    have "ucast (of_int r :: u64) = (of_int r :: u32)"
      by (rule bit_word_eqI) (auto simp: bit_simps)
    moreover have "sint (of_int r :: u32) = r"
      using assms(2,3) by (rule sint_of_int_range)
    ultimately show ?thesis by simp
  qed
  then show "getCurrentRequest sm' = Inr r"
    by (simp add: sm' getCurrentRequest_def last_module_def back_of_def set_last_module_def
        set_back_def t)
qed

section \<open>Printing\<close>

fun intersperse_with :: "string \<Rightarrow> string list \<Rightarrow> string" where
  "intersperse_with sep [] = []"
| "intersperse_with sep [x] = x"
| "intersperse_with sep (x # y # xs) = x @ sep @ intersperse_with sep (y # xs)"

definition module_to_string :: "TraceComponent \<Rightarrow> string" where
  "module_to_string c = show_int (moduleID c) @ '','' @ show_int (gateID c) @ '':'' @
     intersperse_with ''.'' (map (\<lambda>r. show_nat (unat r)) (reqSequence c))"

definition traceToString :: "'a SIMCAN_Message_scheme \<Rightarrow> string" where
  "traceToString sm = intersperse_with ''|'' (map (\<lambda>(host, comps). host @ ''@'' @
     intersperse_with ''/'' (map module_to_string comps)) (trace sm))"

definition operationToString :: "u32 \<Rightarrow> string" where
  "operationToString op =
     (if op = SM_NullOperation then ''Operation not set!''
      else if op = SM_ExecCpu then ''SM_ExecCpu''
      else if op = SM_VM_Req then ''SM_VM_Req''
      else ''Unknown operation!'')"

definition message_operationToString :: "'a SIMCAN_Message_scheme \<Rightarrow> string" where
  "message_operationToString sm = operationToString (operation sm)"

definition show_bool :: "bool \<Rightarrow> string" where
  "show_bool b = (if b then ''true'' else ''false'')"

definition newline :: string where "newline = [CHR 0x0A]"

definition contentsToString :: "bool \<Rightarrow> bool \<Rightarrow> 'a SIMCAN_Message_scheme \<Rightarrow> string" where
  "contentsToString showContents includeTrace sm =
     (if showContents then
        ''Message contents:'' @ newline @
        '' + Name:'' @ msg_name sm @ '' - Operation:'' @ operationToString (operation sm) @
        '' - Length:'' @ show_int (msg_byteLength sm) @ '' bytes'' @ newline @
        '' + isResponse:'' @ show_bool (isResponse sm) @
        '' - RemoteOperation:'' @ show_bool (remoteOperation sm) @
        '' - NextModuleIndex:'' @ show_int (nextModuleIndex sm) @ newline @
        '' + ConnectionId:'' @ show_int (connectionId sm) @
        '' - CommunicationId:'' @ show_int (commId sm) @
        '' - SourceProcess ID:'' @ show_int (sourceId sm) @
        '' - Result:'' @ show_int (msg_result sm) @ newline @
        (if includeTrace then '' + Trace:'' @ traceToString sm @ newline else [])
      else [])"

text \<open>\<open>std::string::find_last_of\<close> of one character; \<open>None\<close> is \<open>npos\<close>.\<close>

definition find_last_of :: "char \<Rightarrow> string \<Rightarrow> nat option" where
  "find_last_of c s = (case first_index (\<lambda>x. x = c) (rev s) of
     Some i \<Rightarrow> Some (length s - 1 - i) | None \<Rightarrow> None)"

text \<open>The two overloads; a null parent fails the cast.\<close>

definition fitWithParent_msg ::
  "'a SIMCAN_Message_scheme option \<Rightarrow> 'a SIMCAN_Message_scheme \<Rightarrow> bool outcome" where
  "fitWithParent_msg parentMsg sm =
     (case parentMsg of
        None \<Rightarrow> Inl (RuntimeError ''check_and_cast of a null pointer'')
      | Some parent \<Rightarrow>
          let childTrace = traceToString sm; parentTrace = traceToString parent
          in Inr (case (find_last_of (CHR ''.'') childTrace, find_last_of (CHR '':'') childTrace) of
               (Some dot, Some twoDots) \<Rightarrow>
                 if dot > twoDots then take dot childTrace = parentTrace else False
             | _ \<Rightarrow> False))"

definition fitWithParent ::
  "'a SIMCAN_Message_scheme option \<Rightarrow> 'a SIMCAN_Message_scheme \<Rightarrow> bool outcome" where
  "fitWithParent parentRequest sm = fitWithParent_msg parentRequest sm"

lemma find_last_of_append:
  assumes "c \<notin> set t"
  shows "find_last_of c (s @ c # t) = Some (length s)"
proof -
  have f: "first_index (\<lambda>x. x = c) (xs @ c # ys) = Some (length xs)" if "c \<notin> set xs" for xs ys
    using that by (induction xs) auto
  have "first_index (\<lambda>x. x = c) (rev (s @ c # t)) = Some (length t)"
    using f [of "rev t" "rev s"] assms by simp
  then show ?thesis by (simp add: find_last_of_def)
qed

lemma intersperse_snoc:
  "xs \<noteq> [] \<Longrightarrow> intersperse_with sep (xs @ [x]) = intersperse_with sep xs @ sep @ x"
  by (induction sep xs rule: intersperse_with.induct) simp_all

lemma intersperse_last:
  "\<exists>p. intersperse_with sep (xs @ [x]) = p @ x \<and> (\<forall>y. intersperse_with sep (xs @ [y]) = p @ y)"
  by (cases "xs = []") (auto simp: intersperse_snoc)

text \<open>Adding a request to a module that has one already extends the printed trace by a dot and
  the number.\<close>

lemma traceToString_addRequest:
  assumes "addRequestToTrace r sm = Inr sm'" "last_module sm = Inr c" "reqSequence c \<noteq> []"
  shows "traceToString sm' = traceToString sm @ ''.'' @ show_nat (unat (of_int r :: u64))"
    "CHR '':'' \<in> set (traceToString sm)"
proof -
  from assms(2) obtain pre node comps where t: "trace sm = pre @ [(node, comps @ [c])]"
    by (cases "trace sm" rule: rev_cases)
      (auto simp: last_module_def back_of_def split: if_splits, metis append_butlast_last_id)
  let ?c = "c\<lparr>reqSequence := reqSequence c @ [of_int r]\<rparr>"
  have t': "trace sm' = pre @ [(node, comps @ [?c])]"
    using assms(1,2) by (auto simp: addRequestToTrace_def set_last_module_def set_back_def t)
  have m: "module_to_string ?c = module_to_string c @ ''.'' @ show_nat (unat (of_int r :: u64))"
    using assms(3) by (simp add: module_to_string_def intersperse_snoc)
  let ?n = "\<lambda>(host, comps). host @ ''@'' @ intersperse_with ''/'' (map module_to_string comps)"
  obtain p where p: "\<forall>y. intersperse_with ''/'' (map module_to_string comps @ [y]) = p @ y"
    using intersperse_last by blast
  obtain q where q: "\<forall>y. intersperse_with ''|'' (map ?n pre @ [y]) = q @ y"
    using intersperse_last by blast
  have s: "traceToString sm = q @ node @ ''@'' @ p @ module_to_string c"
    using p q by (simp add: traceToString_def t)
  have s': "traceToString sm' = q @ node @ ''@'' @ p @ module_to_string ?c"
    using p q by (simp add: traceToString_def t')
  show "traceToString sm' = traceToString sm @ ''.'' @ show_nat (unat (of_int r :: u64))"
    by (simp add: s s' m)
  show "CHR '':'' \<in> set (traceToString sm)"
    by (simp add: s module_to_string_def)
qed

text \<open>A subrequest fits with its parent: a message whose trace is the parent's trace with one more
  request number on the last module, as a module that splits a request adds it, is recognised by
  \<open>fitWithParent\<close>, whatever the host names contain.
\<close>

theorem subrequest_fits_parent:
  assumes "last_module parent = Inr c" "reqSequence c \<noteq> []"
    and "addRequestToTrace r parent = Inr child"
  shows "fitWithParent (Some parent) child = Inr True"
proof -
  let ?d = "show_nat (unat (of_int r :: u64))"
  note tr = traceToString_addRequest [OF assms(3,1,2)]
  have no: "CHR ''.'' \<notin> set ?d" "CHR '':'' \<notin> set ?d"
    using show_nat_digits [of "CHR ''.''"] show_nat_digits [of "CHR '':''"]
    by (auto simp: is_digit_def)
  obtain a b where ab: "traceToString parent = a @ CHR '':'' # b" "CHR '':'' \<notin> set b"
    using split_list_last [OF tr(2)] by blast
  have dot: "find_last_of (CHR ''.'') (traceToString child) = Some (length (traceToString parent))"
    using find_last_of_append [OF no(1)] by (simp add: tr(1))
  have "find_last_of (CHR '':'') (a @ CHR '':'' # (b @ ''.'' @ ?d)) = Some (length a)"
    by (rule find_last_of_append) (use no ab(2) in simp)
  then have colon: "find_last_of (CHR '':'') (traceToString child) = Some (length a)"
    by (simp add: tr(1) ab(1))
  show ?thesis
    by (simp add: fitWithParent_def fitWithParent_msg_def dot colon) (simp add: ab(1) tr(1))
qed

definition parent_example :: SIMCAN_Message where
  "parent_example = (new_SIMCAN_Message [])\<lparr>trace := [(''net.a'', [TraceComponent3 7 2 5])]\<rparr>"

theorem subrequest_fits_parent_witness:
  "\<exists>child. addRequestToTrace 1 parent_example = Inr child \<and>
     fitWithParent (Some parent_example) child = Inr True"
proof -
  have "last_module parent_example = Inr (TraceComponent3 7 2 5)"
    by (simp add: parent_example_def last_module_def back_of_def)
  moreover have "reqSequence (TraceComponent3 7 2 5) \<noteq> []" by (simp add: TraceComponent3_def)
  moreover obtain child where "addRequestToTrace 1 parent_example = Inr child"
    by (simp add: addRequestToTrace_def parent_example_def last_module_def back_of_def)
  ultimately show ?thesis using subrequest_fits_parent by blast
qed

end
