(* ===== verification/SimCore.thy ===== *)
theory SimCore
  imports MsgTrace
begin

text \<open>
  The base of the request processing modules (\<open>core/cSIMCAN_Core\<close>): a module appends itself to the
  trace of a request it receives, queues it and processes the head of the queue; the response of a
  request goes back through the gate its trace remembers.  The messages a module sends are
  collected with the gate they leave through.

  \<open>processRequestMessage\<close> belongs to the concrete module.  Where it sends, the send is its last
  action, and the send then processes the next queued request: \<open>drain\<close> is that loop, and the flag a
  module's processing returns says whether it ended with a send.
\<close>

section \<open>State\<close>

record 'm core =
  modId :: int
  fullPath :: string
  currentRequest :: u64
  queue :: "'m list"
  sent :: "('m \<times> int) list"

definition SC_UnsetGateID :: int where "SC_UnsetGateID = -5"

definition core_initialize :: "int \<Rightarrow> string \<Rightarrow> 'm core" where
  "core_initialize i path =
     \<lparr>modId = i, fullPath = path, currentRequest = 0, queue = [], sent = []\<rparr>"

definition send_via :: "'m \<Rightarrow> int \<Rightarrow> 'm core \<Rightarrow> 'm core" where
  "send_via m gate c = c\<lparr>sent := sent c @ [(m, gate)]\<rparr>"

section \<open>Operations\<close>

definition updateMessageTrace ::
  "int option \<Rightarrow> 'a SIMCAN_Message_scheme \<Rightarrow> 'a SIMCAN_Message_scheme core \<Rightarrow>
     ('a SIMCAN_Message_scheme \<times> 'a SIMCAN_Message_scheme core) outcome" where
  "updateMessageTrace selection sm c =
     (let gateId = (case selection of None \<Rightarrow> SC_UnsetGateID | Some g \<Rightarrow> g)
      in and_then (addModuleToTrace (modId c) gateId (currentRequest c) sm) (\<lambda>sm'.
           Inr (sm', c\<lparr>currentRequest := currentRequest c + 1\<rparr>)))"

definition sendRequest ::
  "int option \<Rightarrow> int \<Rightarrow> 'a SIMCAN_Message_scheme \<Rightarrow> 'a SIMCAN_Message_scheme core \<Rightarrow>
     'a SIMCAN_Message_scheme core outcome" where
  "sendRequest selection gateId sm c =
     and_then (if isTraceEmpty sm
               then updateMessageTrace selection (addNodeToTrace (fullPath c) sm) c
               else Inr (sm, c)) (\<lambda>(sm', c'). Inr (send_via sm' gateId c'))"

definition sendResponse ::
  "'a SIMCAN_Message_scheme \<Rightarrow> 'a SIMCAN_Message_scheme core \<Rightarrow>
     'a SIMCAN_Message_scheme core outcome" where
  "sendResponse sm c =
     and_then (getLastGateId sm) (\<lambda>gateId.
       and_then (removeLastModuleFromTrace sm) (\<lambda>sm'. Inr (send_via sm' gateId c)))"

definition isPendingRequest :: "bool option \<Rightarrow> bool" where
  "isPendingRequest latencyMessage =
     (case latencyMessage of None \<Rightarrow> False | Some scheduled \<Rightarrow> scheduled)"

text \<open>
  \<open>processCurrentRequestMessage\<close>: pop the head of the queue and process it; when the processing
  ended with a send, the next one follows.
\<close>

fun drain :: "('m \<Rightarrow> 's \<Rightarrow> ('s \<times> bool) outcome) \<Rightarrow> 'm list \<Rightarrow> 's \<Rightarrow> ('m list \<times> 's) outcome" where
  "drain processRequest [] s = Inr ([], s)"
| "drain processRequest (sm # q) s =
     and_then (processRequest sm s) (\<lambda>(s', sending).
       if sending then drain processRequest q s' else Inr (q, s'))"

lemma drain_single:
  "drain p [m] s = and_then (p m s) (\<lambda>(s', _). Inr ([], s'))"
  by (cases "p m s") auto

section \<open>A response retraces its request\<close>

text \<open>A request that enters the modules of a list one after the other, each with the gate it sees
  the request come from; and the gates a response leaves through on its way back.\<close>

fun travel :: "(int option \<times> 'a SIMCAN_Message_scheme core) list \<Rightarrow> 'a SIMCAN_Message_scheme \<Rightarrow>
    'a SIMCAN_Message_scheme outcome" where
  "travel [] sm = Inr sm"
| "travel ((selection, c) # cs) sm =
     and_then (updateMessageTrace selection sm c) (\<lambda>(sm', _). travel cs sm')"

fun travel_back :: "'a SIMCAN_Message_scheme core list \<Rightarrow> 'a SIMCAN_Message_scheme \<Rightarrow>
    (int list \<times> 'a SIMCAN_Message_scheme) outcome" where
  "travel_back [] sm = Inr ([], sm)"
| "travel_back (c # cs) sm =
     and_then (sendResponse sm (c\<lparr>sent := []\<rparr>)) (\<lambda>c'.
       case sent c' of
         [(sm', gate)] \<Rightarrow> and_then (travel_back cs sm') (\<lambda>(gs, sm''). Inr (gate # gs, sm''))
       | _ \<Rightarrow> Inl OutOfRange)"

lemma sendResponse_after_update:
  assumes "updateMessageTrace sel sm c = Inr (sm', c')"
  shows "sendResponse sm' d = Inr (send_via sm (case sel of None \<Rightarrow> SC_UnsetGateID | Some g \<Rightarrow> g) d)"
    "trace sm' \<noteq> []"
  using assms remove_add_module
  by (fastforce simp: updateMessageTrace_def sendResponse_def Let_def and_then_eq_Inr)+

text \<open>The same for a message that has changed otherwise since, but not in its trace.\<close>

lemma sendResponse_same_trace:
  assumes "updateMessageTrace sel sm c = Inr (sm', c')" "trace x = trace sm'"
  shows "sendResponse x d = Inr (send_via (x\<lparr>trace := trace sm\<rparr>)
     (case sel of None \<Rightarrow> SC_UnsetGateID | Some g \<Rightarrow> g) d)"
proof -
  obtain pre node comps where t: "trace sm = pre @ [(node, comps)]"
    using assms(1)
    by (cases "trace sm" rule: rev_cases)
      (simp_all add: updateMessageTrace_def addModuleToTrace_def Let_def, metis surj_pair)
  have "trace sm' = pre @ [(node, comps @ [\<lparr>moduleID = modId c,
      gateID = (case sel of None \<Rightarrow> SC_UnsetGateID | Some g \<Rightarrow> g), reqSequence = [currentRequest c]\<rparr>])]"
    using assms(1)
    by (auto simp: updateMessageTrace_def addModuleToTrace_def t set_back_def TraceComponent2_def
        Let_def and_then_eq_Inr)
  then show ?thesis
    using assms(2)
    by (simp add: sendResponse_def getLastGateId_def removeLastModuleFromTrace_def last_module_def
        back_of_def set_back_def t)
qed

lemma updateMessageTrace_ok:
  "trace sm \<noteq> [] \<Longrightarrow> \<exists>sm' c'. updateMessageTrace sel sm c = Inr (sm', c')"
  by (auto simp: updateMessageTrace_def addModuleToTrace_def Let_def split: prod.splits)

lemma travel_snoc:
  "travel (xs @ [(sel, c)]) sm = and_then (travel xs sm) (\<lambda>sm1.
     and_then (updateMessageTrace sel sm1 c) (\<lambda>(sm', _). Inr sm'))"
proof (induction xs arbitrary: sm)
  case Nil
  then show ?case by simp
next
  case (Cons x xs)
  then show ?case
    by (cases x; cases "updateMessageTrace (fst x) sm (snd x)") (auto split: prod.splits)
qed

lemma travel_ok:
  assumes "trace sm \<noteq> []"
  shows "\<exists>sm'. travel path sm = Inr sm' \<and> trace sm' \<noteq> []"
  using assms
proof (induction path arbitrary: sm)
  case Nil
  then show ?case by simp
next
  case (Cons x xs)
  obtain sel c where x: "x = (sel, c)" by force
  obtain sm' c' where u: "updateMessageTrace sel sm c = Inr (sm', c')"
    using updateMessageTrace_ok Cons.prems by blast
  with Cons.IH [of sm'] sendResponse_after_update(2) [OF u] show ?case by (simp add: x)
qed

lemma travel_back_all:
  assumes "trace sm \<noteq> []" "travel path sm = Inr sm'" "length back_path = length path"
  shows "travel_back back_path sm' = Inr (map (\<lambda>(sel, _). case sel of None \<Rightarrow> SC_UnsetGateID
     | Some g \<Rightarrow> g) (rev path), sm)"
  using assms(2,3)
proof (induction path arbitrary: sm' back_path rule: rev_induct)
  case Nil
  then show ?case by simp
next
  case (snoc x xs)
  obtain sel c where x: "x = (sel, c)" by force
  obtain d ds where ds: "back_path = d # ds" "length ds = length xs"
    using snoc.prems(2) by (cases back_path) auto
  obtain sm1 where t: "travel xs sm = Inr sm1" using travel_ok [OF assms(1)] by blast
  obtain c' where u: "updateMessageTrace sel sm1 c = Inr (sm', c')"
    using snoc.prems(1) t by (auto simp: x travel_snoc and_then_eq_Inr)
  show ?case
    using sendResponse_after_update(1) [OF u, of "d\<lparr>sent := []\<rparr>"] snoc.IH [OF t ds(2)]
    by (simp add: ds(1) x send_via_def)
qed

text \<open>C6.  A response retraces the path of its request: whatever modules a request with a started trace
  travels through, no step fails, and the response that visits as many modules on its way back
  leaves through exactly the gates the request came in by, in reverse order, and ends with the
  trace the request had at the start.
\<close>

theorem response_retraces_request:
  assumes "trace sm \<noteq> []" "length back_path = length path"
  shows "and_then (travel path sm) (travel_back back_path) =
     Inr (map (\<lambda>(sel, _). case sel of None \<Rightarrow> SC_UnsetGateID | Some g \<Rightarrow> g) (rev path), sm)"
  using travel_ok [OF assms(1)] travel_back_all [OF assms(1) _ assms(2)] by fastforce

theorem response_retraces_request_witness:
  "and_then (travel [(Some 3, core_initialize 1 ''a''), (None, core_initialize 2 ''b'')]
      parent_example)
     (travel_back [core_initialize 2 ''b'', core_initialize 1 ''a'']) =
     Inr ([SC_UnsetGateID, 3], parent_example)"
  using response_retraces_request [of parent_example
      "[core_initialize 2 ''b'', core_initialize 1 ''a'']"
      "[(Some 3, core_initialize 1 ''a''), (None, core_initialize 2 ''b'')]"]
  by (simp add: parent_example_def)

end
