(* ===== verification/Cpu.thy ===== *)
theory Cpu
  imports SimCore
begin

text \<open>
  The processor: the computing request \<open>SM_CPU_Message\<close> (\<open>messages/SM_CPU_Message\<close>), the core that
  executes one request tick by tick (\<open>architecture/cpu/CpuCore\<close>) and the round robin scheduler that
  shares the cores (\<open>os/schedulers/CpuSchedulerRR\<close>).  Simulation times are integers in the resolution
  of the clock; the million instructions of a request, a \<open>double\<close>, are exact rationals.
\<close>

section \<open>Computing requests\<close>

record Syscall = SIMCAN_Message +
  pid :: int
  vmId :: int
  opCode :: u16

record SM_CPU_Message = Syscall +
  useTime :: bool
  cpuTime :: int
  useMis :: bool
  misToExecute :: rat
  quantum :: int
  cpuPriority :: int
  isCompleted :: bool
  appInstance :: string

definition SM_Syscall_Req :: u32 where "SM_Syscall_Req = 800"
definition SYS_EXEC :: u16 where "SYS_EXEC = 2"
definition SM_CpuInfiniteQuantum :: int where "SM_CpuInfiniteQuantum = -1"

definition new_SM_CPU_Message :: SM_CPU_Message where
  "new_SM_CPU_Message =
     SIMCAN_Message.extend ((new_SIMCAN_Message [])\<lparr>msg_name := ''SM_CPU_Message'',
       operation := SM_Syscall_Req\<rparr>)
      \<lparr>pid = 0, vmId = 0, opCode = SYS_EXEC, useTime = False, cpuTime = 0, useMis = False,
       misToExecute = 0, quantum = 0, cpuPriority = 0, isCompleted = False, appInstance = []\<rparr>"

text \<open>\<open>dup\<close> copies the listed parameters into a fresh message.\<close>

definition cpu_dup :: "SM_CPU_Message \<Rightarrow> SM_CPU_Message" where
  "cpu_dup sm =
     copy_trace (trace sm)
      (new_SM_CPU_Message\<lparr>operation := operation sm, isResponse := isResponse sm,
         remoteOperation := remoteOperation sm, connectionId := connectionId sm,
         commId := commId sm, sourceId := sourceId sm, nextModuleIndex := nextModuleIndex sm,
         msg_result := msg_result sm, msg_byteLength := msg_byteLength sm,
         useTime := useTime sm, cpuTime := cpuTime sm, useMis := useMis sm,
         misToExecute := misToExecute sm, cpuPriority := cpuPriority sm, quantum := quantum sm,
         isCompleted := isCompleted sm\<rparr>)"

definition updateLength :: "SM_CPU_Message \<Rightarrow> SM_CPU_Message" where
  "updateLength sm = sm\<lparr>msg_byteLength := SM_BaseLength\<rparr>"

definition executeMIs :: "rat \<Rightarrow> SM_CPU_Message \<Rightarrow> SM_CPU_Message" where
  "executeMIs numberMIs sm =
     (let sm1 = (if quantum sm \<noteq> SM_CpuInfiniteQuantum then sm\<lparr>quantum := quantum sm - 1\<rparr> else sm)
      in if misToExecute sm1 - numberMIs > 0
         then sm1\<lparr>misToExecute := misToExecute sm1 - numberMIs\<rparr>
         else sm1\<lparr>misToExecute := 0, isCompleted := True\<rparr>)"

definition executeTime :: "int \<Rightarrow> SM_CPU_Message \<Rightarrow> SM_CPU_Message" where
  "executeTime executedTime sm =
     (let remainingTime = cpuTime sm;
          sm1 = (if quantum sm \<noteq> SM_CpuInfiniteQuantum then sm\<lparr>quantum := quantum sm - 1\<rparr> else sm)
      in if remainingTime - executedTime > 0
         then sm1\<lparr>cpuTime := remainingTime - executedTime\<rparr>
         else sm1\<lparr>cpuTime := 0, isCompleted := True\<rparr>)"

text \<open>The copy keeps what the scheduler reports, but not the application the request is for.\<close>

lemma cpu_dup_keeps:
  "trace (cpu_dup sm) = trace sm \<and> cpuTime (cpu_dup sm) = cpuTime sm \<and>
   misToExecute (cpu_dup sm) = misToExecute sm \<and> isCompleted (cpu_dup sm) = isCompleted sm \<and>
   nextModuleIndex (cpu_dup sm) = nextModuleIndex sm \<and> operation (cpu_dup sm) = operation sm"
  by (simp add: cpu_dup_def copy_trace_appends new_SM_CPU_Message_def SIMCAN_Message.defs
      new_SIMCAN_Message_def)

lemma cpu_dup_loses:
  "appInstance (cpu_dup sm) = [] \<and> pid (cpu_dup sm) = 0 \<and> vmId (cpu_dup sm) = 0"
  by (simp add: cpu_dup_def copy_trace_appends new_SM_CPU_Message_def SIMCAN_Message.defs)

section \<open>The core\<close>

record CpuCore =
  cc_core :: "SM_CPU_Message core"
  cc_speed :: rat
  cc_tick :: int
  cc_ipt :: rat
  cc_inGate :: int
  cc_outGate :: int
  pendingMessage :: "SM_CPU_Message option"
  latencyMessage :: "int option"

text \<open>\<open>latencyMessage\<close> holds the time the timer is scheduled for.  \<open>tick.dbl()\<close>, the tick in
  seconds, is an argument.\<close>

definition cpu_initialize ::
  "int \<Rightarrow> string \<Rightarrow> rat \<Rightarrow> int \<Rightarrow> rat \<Rightarrow> int \<Rightarrow> int \<Rightarrow> bool \<Rightarrow> CpuCore outcome" where
  "cpu_initialize modid path speed tick tick_dbl inGate outGate isConnected =
     (if \<not> isConnected then Inl (RuntimeError ''outGate is not connected'')
      else Inr \<lparr>cc_core = core_initialize modid path, cc_speed = speed, cc_tick = tick,
             cc_ipt = speed * tick_dbl, cc_inGate = inGate, cc_outGate = outGate,
             pendingMessage = None, latencyMessage = None\<rparr>)"

definition cpu_getOutGate :: "SM_CPU_Message \<Rightarrow> CpuCore \<Rightarrow> int option outcome" where
  "cpu_getOutGate msg s =
     (if msg_arrivalGate msg = Some (cc_inGate s) then Inr (Some (cc_outGate s))
      else Inl (RuntimeError ''Message received from an unknown gate''))"

definition cpu_scheduleTick :: "int \<Rightarrow> CpuCore \<Rightarrow> CpuCore outcome" where
  "cpu_scheduleTick now s =
     (if latencyMessage s \<noteq> None then Inl (RuntimeError ''message is already scheduled'')
      else Inr (s\<lparr>latencyMessage := Some (now + cc_tick s)\<rparr>))"

definition cpu_execute :: "CpuCore \<Rightarrow> SM_CPU_Message \<Rightarrow> SM_CPU_Message" where
  "cpu_execute s sm = (if useTime sm then executeTime (cc_tick s) sm else executeMIs (cc_ipt s) sm)"

definition cpu_processRequestMessage ::
  "int \<Rightarrow> SM_CPU_Message \<Rightarrow> CpuCore \<Rightarrow> (CpuCore \<times> bool) outcome" where
  "cpu_processRequestMessage now sm s =
     (if operation sm = SM_AbortCpu
      then Inr (s\<lparr>pendingMessage := None, latencyMessage := None\<rparr>, False)
      else if quantum sm \<le> 0 \<and> quantum sm \<noteq> SM_CpuInfiniteQuantum
      then Inl (RuntimeError ''CPU request with quantum=0.'')
      else and_then (cpu_scheduleTick now (s\<lparr>pendingMessage := Some (cpu_execute s sm)\<rparr>))
             (\<lambda>s'. Inr (s', False)))"

definition cpu_processCurrentRequestMessage :: "int \<Rightarrow> CpuCore \<Rightarrow> CpuCore outcome" where
  "cpu_processCurrentRequestMessage now s =
     and_then (drain (cpu_processRequestMessage now) (queue (cc_core s))
         (s\<lparr>cc_core := (cc_core s)\<lparr>queue := []\<rparr>\<rparr>))
       (\<lambda>(q, s'). Inr (s'\<lparr>cc_core := (cc_core s')\<lparr>queue := q\<rparr>\<rparr>))"

definition cpu_sendResponseMessage :: "int \<Rightarrow> SM_CPU_Message \<Rightarrow> CpuCore \<Rightarrow> CpuCore outcome" where
  "cpu_sendResponseMessage now sm s =
     and_then (sendResponse sm (cc_core s)) (\<lambda>c.
       cpu_processCurrentRequestMessage now (s\<lparr>cc_core := c\<rparr>))"

text \<open>The timer: \<open>processSelfMessage\<close> of the latency message.\<close>

definition cpu_processSelfMessage :: "int \<Rightarrow> CpuCore \<Rightarrow> CpuCore outcome" where
  "cpu_processSelfMessage now s =
     (case pendingMessage s of
        None \<Rightarrow> Inl (RuntimeError ''check_and_cast of a null pointer'')
      | Some sm_cpu \<Rightarrow>
          if isCompleted sm_cpu \<or> quantum sm_cpu = 0
          then cpu_sendResponseMessage now (sm_cpu\<lparr>isResponse := True\<rparr>)
                 (s\<lparr>pendingMessage := None\<rparr>)
          else cpu_scheduleTick now (s\<lparr>pendingMessage := Some (cpu_execute s sm_cpu)\<rparr>))"

text \<open>\<open>handleMessage\<close> of the base, for the timer and for a message.\<close>

definition cpu_timer :: "CpuCore \<Rightarrow> CpuCore outcome" where
  "cpu_timer s =
     (case latencyMessage s of
        None \<Rightarrow> Inr s
      | Some t \<Rightarrow> cpu_processSelfMessage t (s\<lparr>latencyMessage := None\<rparr>))"

definition cpu_handleMessage :: "int \<Rightarrow> SM_CPU_Message \<Rightarrow> CpuCore \<Rightarrow> CpuCore outcome" where
  "cpu_handleMessage now sm s =
     (if isResponse sm then Inl (RuntimeError ''This module cannot process self messages'')
      else and_then (cpu_getOutGate sm s) (\<lambda>sel.
        and_then (updateMessageTrace sel sm (cc_core s)) (\<lambda>(sm', c).
          cpu_processCurrentRequestMessage now
            (s\<lparr>cc_core := c\<lparr>queue := queue c @ [sm']\<rparr>\<rparr>))))"

text \<open>
  A tick of either unit as one function on the work left: the time or the instructions, whichever
  the request is measured in, of which a tick executes \<open>amount\<close>.
\<close>

definition work_left :: "SM_CPU_Message \<Rightarrow> rat" where
  "work_left sm = (if useTime sm then of_int (cpuTime sm) else misToExecute sm)"

definition set_work :: "rat \<Rightarrow> SM_CPU_Message \<Rightarrow> SM_CPU_Message" where
  "set_work w sm = (if useTime sm then sm\<lparr>cpuTime := \<lfloor>w\<rfloor>\<rparr> else sm\<lparr>misToExecute := w\<rparr>)"

definition tick_work :: "CpuCore \<Rightarrow> SM_CPU_Message \<Rightarrow> rat" where
  "tick_work s sm = (if useTime sm then of_int (cc_tick s) else cc_ipt s)"

definition less_quantum :: "int \<Rightarrow> int \<Rightarrow> int" where
  "less_quantum n q = (if q = SM_CpuInfiniteQuantum then q else q - n)"

lemma cpu_execute_eq:
  "cpu_execute s sm = (set_work (max 0 (work_left sm - tick_work s sm)) sm)
     \<lparr>quantum := less_quantum 1 (quantum sm),
      isCompleted := isCompleted sm \<or> work_left sm \<le> tick_work s sm\<rparr>"
proof (cases "useTime sm")
  case True
  have "\<lfloor>max 0 (of_int (cpuTime sm) - of_int (cc_tick s) :: rat)\<rfloor> = max 0 (cpuTime sm - cc_tick s)"
    by (simp add: max_def flip: of_int_diff)
  with True show ?thesis
    by (simp add: cpu_execute_def executeTime_def set_work_def work_left_def tick_work_def
        less_quantum_def Let_def max_def)
next
  case False
  then show ?thesis
    by (simp add: cpu_execute_def executeMIs_def set_work_def work_left_def tick_work_def
        less_quantum_def Let_def max_def)
qed

text \<open>A request after \<open>n\<close> ticks.\<close>

definition after_ticks :: "CpuCore \<Rightarrow> nat \<Rightarrow> SM_CPU_Message \<Rightarrow> SM_CPU_Message" where
  "after_ticks s n sm = (set_work (max 0 (work_left sm - of_nat n * tick_work s sm)) sm)
     \<lparr>quantum := less_quantum (int n) (quantum sm),
      isCompleted := isCompleted sm \<or> work_left sm \<le> of_nat n * tick_work s sm\<rparr>"

lemma work_left_set_work:
  "(useTime sm \<Longrightarrow> \<exists>i. w = of_int i) \<Longrightarrow> work_left (set_work w sm) = w"
  by (auto simp: work_left_def set_work_def)

lemma set_work_simps [simp]:
  "useTime (set_work w sm) = useTime sm" "quantum (set_work w sm) = quantum sm"
  "isCompleted (set_work w sm) = isCompleted sm" "trace (set_work w sm) = trace sm"
  "operation (set_work w sm) = operation sm" "nextModuleIndex (set_work w sm) = nextModuleIndex sm"
  by (simp_all add: set_work_def)

lemma execute_after_ticks:
  assumes "0 < n" "0 \<le> tick_work s sm" "quantum sm = SM_CpuInfiniteQuantum \<or> int n \<le> quantum sm"
  shows "cpu_execute s (after_ticks s n sm) = after_ticks s (Suc n) sm"
proof -
  let ?w = "work_left sm" and ?t = "tick_work s sm"
  have int: "\<exists>i. max 0 (?w - of_nat n * ?t) = of_int i" if "useTime sm"
    using that by (intro exI [of _ "max 0 (cpuTime sm - int n * cc_tick s)"])
      (simp add: work_left_def tick_work_def of_int_max)
  have wl: "work_left (after_ticks s n sm) = max 0 (?w - of_nat n * ?t)"
  proof -
    have "work_left (after_ticks s n sm) = work_left (set_work (max 0 (?w - of_nat n * ?t)) sm)"
      by (simp add: after_ticks_def work_left_def)
    then show ?thesis using work_left_set_work [OF int] by simp
  qed
  have tw: "tick_work s (after_ticks s n sm) = ?t"
    by (simp add: after_ticks_def tick_work_def)
  have m: "max 0 (max 0 (?w - of_nat n * ?t) - ?t) = max 0 (?w - of_nat (Suc n) * ?t)"
    using assms(2) by (simp add: max_def algebra_simps)
  have c: "isCompleted sm \<or> ?w \<le> of_nat n * ?t \<or> max 0 (?w - of_nat n * ?t) \<le> ?t
      \<longleftrightarrow> isCompleted sm \<or> ?w \<le> of_nat (Suc n) * ?t"
    using assms(2) by (auto simp: max_def algebra_simps split: if_splits)
  have q: "less_quantum 1 (less_quantum (int n) (quantum sm)) = less_quantum (int (Suc n)) (quantum sm)"
    using assms(1,3) by (auto simp: less_quantum_def SM_CpuInfiniteQuantum_def)
  have sw: "set_work a (set_work b sm) = set_work a sm" for a b
    by (simp add: set_work_def)
  have "cpu_execute s (after_ticks s n sm) =
    (set_work (max 0 (max 0 (?w - of_nat n * ?t) - ?t)) (after_ticks s n sm))
     \<lparr>quantum := less_quantum 1 (quantum (after_ticks s n sm)),
      isCompleted := isCompleted (after_ticks s n sm) \<or> max 0 (?w - of_nat n * ?t) \<le> ?t\<rparr>"
    by (simp only: cpu_execute_eq wl tw)
  also have "\<dots> = after_ticks s (Suc n) sm"
    unfolding m using q c by (simp add: after_ticks_def sw set_work_def)
  finally show ?thesis .
qed

lemma execute_first_tick: "cpu_execute s sm = after_ticks s 1 sm"
  by (simp add: cpu_execute_eq after_ticks_def)

section \<open>A core runs a request\<close>

fun timers :: "nat \<Rightarrow> CpuCore \<Rightarrow> CpuCore outcome" where
  "timers 0 s = Inr s"
| "timers (Suc n) s = and_then (cpu_timer s) (timers n)"

lemma timers_Suc: "timers (Suc n) s = and_then (timers n s) cpu_timer"
proof (induction n arbitrary: s)
  case 0
  then show ?case by (cases "cpu_timer s") auto
next
  case (Suc n)
  show ?case using Suc.IH by (cases "cpu_timer s") simp_all
qed

definition cpu_idle :: "CpuCore \<Rightarrow> bool" where
  "cpu_idle s \<longleftrightarrow> pendingMessage s = None \<and> latencyMessage s = None \<and> queue (cc_core s) = []"

text \<open>The ticks a request gets before it is returned: until it is done or its quantum is used.\<close>

definition ticks_granted :: "CpuCore \<Rightarrow> SM_CPU_Message \<Rightarrow> nat" where
  "ticks_granted s sm =
     (let c = nat \<lceil>work_left sm / tick_work s sm\<rceil>
      in if quantum sm = SM_CpuInfiniteQuantum then c else min c (nat (quantum sm)))"

definition busy_with :: "CpuCore \<Rightarrow> SM_CPU_Message core \<Rightarrow> SM_CPU_Message \<Rightarrow> int \<Rightarrow> nat \<Rightarrow> CpuCore" where
  "busy_with s c sm now n = s\<lparr>cc_core := c, pendingMessage := Some (after_ticks s n sm),
     latencyMessage := Some (now + int n * cc_tick s)\<rparr>"

lemma not_completed_iff:
  assumes "0 < tick_work s sm"
  shows "of_nat n * tick_work s sm < work_left sm \<longleftrightarrow> n < nat \<lceil>work_left sm / tick_work s sm\<rceil>"
proof -
  have "of_nat n * tick_work s sm < work_left sm \<longleftrightarrow> of_nat n < work_left sm / tick_work s sm"
    using assms by (simp add: pos_less_divide_eq)
  also have "\<dots> \<longleftrightarrow> int n < \<lceil>work_left sm / tick_work s sm\<rceil>"
    by (simp add: less_ceiling_iff)
  finally show ?thesis by linarith
qed

lemma busy_timer:
  assumes "0 < n" "n < ticks_granted s sm" "0 < tick_work s sm" "\<not> isCompleted sm"
    "0 < quantum sm \<or> quantum sm = SM_CpuInfiniteQuantum"
  shows "cpu_timer (busy_with s c sm now n) = Inr (busy_with s c sm now (Suc n))"
proof -
  have n: "n < nat \<lceil>work_left sm / tick_work s sm\<rceil>"
    "quantum sm = SM_CpuInfiniteQuantum \<or> int n < quantum sm"
    using assms(2,5) by (auto simp: ticks_granted_def Let_def split: if_splits)
  have "\<not> isCompleted (after_ticks s n sm)"
    using not_completed_iff [OF assms(3)] n(1) assms(4) by (simp add: after_ticks_def not_le)
  moreover have "quantum (after_ticks s n sm) \<noteq> 0"
    using n(2) by (auto simp: after_ticks_def less_quantum_def SM_CpuInfiniteQuantum_def)
  moreover have "cpu_execute (busy_with s c sm now n\<lparr>latencyMessage := None\<rparr>) (after_ticks s n sm) =
      after_ticks s (Suc n) sm"
    using execute_after_ticks [of n s sm] assms(1,3) n(2)
    by (auto simp: cpu_execute_def busy_with_def)
  ultimately show ?thesis
    by (simp add: cpu_timer_def cpu_processSelfMessage_def busy_with_def cpu_scheduleTick_def
        distrib_right add.assoc)
qed

lemma busy_timers:
  assumes "k < ticks_granted s sm" "0 < tick_work s sm" "\<not> isCompleted sm"
    "0 < quantum sm \<or> quantum sm = SM_CpuInfiniteQuantum"
  shows "timers k (busy_with s c sm now 1) = Inr (busy_with s c sm now (Suc k))"
  using assms(1)
proof (induction k)
  case 0
  then show ?case by simp
next
  case (Suc k)
  then have "timers k (busy_with s c sm now 1) = Inr (busy_with s c sm now (Suc k))" by simp
  then show ?case
    using busy_timer [of "Suc k" s sm c now] Suc.prems assms(2-4)
    by (simp only: timers_Suc and_then_Inr) simp
qed

lemma handle_busy:
  assumes "cpu_idle s" "\<not> isResponse sm" "operation sm \<noteq> SM_AbortCpu"
    "msg_arrivalGate sm = Some (cc_inGate s)"
    "0 < quantum sm \<or> quantum sm = SM_CpuInfiniteQuantum"
    and u: "updateMessageTrace (Some (cc_outGate s)) sm (cc_core s) = Inr (sm', c)"
  shows "cpu_handleMessage now sm s = Inr (busy_with s c sm' now 1)"
proof -
  from u have c: "c = (cc_core s)\<lparr>currentRequest := currentRequest (cc_core s) + 1\<rparr>"
    and sm': "\<exists>t. sm' = sm\<lparr>trace := t\<rparr>"
    by (auto simp: updateMessageTrace_def Let_def and_then_eq_Inr addModuleToTrace_def
        split: if_splits prod.splits)
  have q: "queue c = []" using assms(1) c by (simp add: cpu_idle_def)
  have c': "c\<lparr>queue := []\<rparr> = c" using q by (cases c) simp
  have ok: "operation sm' = operation sm" "quantum sm' = quantum sm" using sm' by auto
  have ex: "cpu_execute (s\<lparr>cc_core := c\<rparr>) sm' = after_ticks s 1 sm'"
    unfolding execute_first_tick [symmetric] by (simp add: cpu_execute_def)
  have "cpu_processRequestMessage now sm' (s\<lparr>cc_core := c\<rparr>) = Inr (busy_with s c sm' now 1, False)"
    using assms(1,3,5) ok ex
    by (auto simp: cpu_processRequestMessage_def cpu_scheduleTick_def cpu_idle_def busy_with_def
        SM_CpuInfiniteQuantum_def)
  then have "cpu_processCurrentRequestMessage now (s\<lparr>cc_core := c\<lparr>queue := queue c @ [sm']\<rparr>\<rparr>) =
      Inr (busy_with s c sm' now 1)"
    by (simp add: cpu_processCurrentRequestMessage_def q c' drain_single del: drain.simps)
      (simp add: busy_with_def c')
  then show ?thesis
    using assms(2,4) u by (simp add: cpu_handleMessage_def cpu_getOutGate_def)
qed

lemma busy_finish:
  assumes "n = ticks_granted s sm" "0 < n" "0 < tick_work s sm"
    "0 < quantum sm \<or> quantum sm = SM_CpuInfiniteQuantum" "cpu_idle s" "queue c = []"
    and r: "sendResponse ((after_ticks s n sm)\<lparr>isResponse := True\<rparr>) c = Inr d" "queue d = []"
  shows "cpu_timer (busy_with s c sm now n) = Inr (s\<lparr>cc_core := d\<rparr>)"
proof -
  have "isCompleted (after_ticks s n sm) \<or> quantum (after_ticks s n sm) = 0"
    using not_completed_iff [OF assms(3), of n] assms(1,2,4)
    by (auto simp: after_ticks_def ticks_granted_def less_quantum_def Let_def not_less min_def
        split: if_splits)
  moreover have "d\<lparr>queue := []\<rparr> = d" using r(2) by (cases d) simp
  moreover have "s\<lparr>pendingMessage := None, latencyMessage := None\<rparr> = s"
    using assms(5) by (cases s) (simp add: cpu_idle_def)
  ultimately show ?thesis
    using r by (simp add: cpu_timer_def busy_with_def cpu_processSelfMessage_def
        cpu_sendResponseMessage_def cpu_processCurrentRequestMessage_def)
      (cases s; simp add: cpu_idle_def)
qed

lemma after_ticks_trace:
  "(after_ticks s n (sm\<lparr>trace := t\<rparr>))\<lparr>isResponse := True, trace := t'\<rparr> =
     (after_ticks s n (sm\<lparr>trace := t'\<rparr>))\<lparr>isResponse := True\<rparr>"
  by (simp add: after_ticks_def set_work_def work_left_def tick_work_def)

text \<open>C7.  A core executes a request to the end of its quantum or of its work, whichever is first: an
  idle core that receives a request with work left schedules a tick at a time, sends nothing before
  the last of the granted ticks, and at that tick sends exactly one message, the response, through
  the gate the request came from.  The response has the granted ticks' work taken off, is complete
  exactly when the granted ticks cover the work, carries the trace the request arrived with, and
  the core is idle again.  The granted ticks are the quantum or the work divided by the work of a
  tick, rounded up.
\<close>

theorem core_runs_request:
  assumes "cpu_idle s" "\<not> isResponse sm" "operation sm \<noteq> SM_AbortCpu"
    "msg_arrivalGate sm = Some (cc_inGate s)" "trace sm \<noteq> []" "\<not> isCompleted sm"
    "0 < quantum sm \<or> quantum sm = SM_CpuInfiniteQuantum"
    "0 < work_left sm" "0 < tick_work s sm"
  shows "and_then (cpu_handleMessage now sm s) (timers (ticks_granted s sm)) =
      Inr (s\<lparr>cc_core := send_via ((after_ticks s (ticks_granted s sm) sm)\<lparr>isResponse := True\<rparr>)
        (cc_outGate s) ((cc_core s)\<lparr>currentRequest := currentRequest (cc_core s) + 1\<rparr>)\<rparr>) \<and>
    (\<forall>k<ticks_granted s sm. \<exists>s'. and_then (cpu_handleMessage now sm s) (timers k) = Inr s' \<and>
       sent (cc_core s') = sent (cc_core s) \<and>
       latencyMessage s' = Some (now + int (Suc k) * cc_tick s))"
proof -
  let ?n = "ticks_granted s sm"
  obtain sm' c where u: "updateMessageTrace (Some (cc_outGate s)) sm (cc_core s) = Inr (sm', c)"
    using updateMessageTrace_ok [OF assms(5)] by blast
  then have c: "c = (cc_core s)\<lparr>currentRequest := currentRequest (cc_core s) + 1\<rparr>"
    and sm': "\<exists>t. sm' = sm\<lparr>trace := t\<rparr>"
    by (auto simp: updateMessageTrace_def Let_def and_then_eq_Inr addModuleToTrace_def
        split: if_splits prod.splits)
  then obtain t where t: "sm' = sm\<lparr>trace := t\<rparr>" by blast
  have same: "tick_work s sm' = tick_work s sm" "work_left sm' = work_left sm"
    "quantum sm' = quantum sm" "isCompleted sm' = isCompleted sm"
    by (simp_all add: t tick_work_def work_left_def)
  have n: "ticks_granted s sm' = ?n" unfolding ticks_granted_def same by (rule refl)
  have "0 < nat \<lceil>work_left sm / tick_work s sm\<rceil>"
    using not_completed_iff [OF assms(9), of 0] assms(8) by simp
  then have n0: "0 < ?n" using assms(7) by (auto simp: ticks_granted_def SM_CpuInfiniteQuantum_def)
  have start: "cpu_handleMessage now sm s = Inr (busy_with s c sm' now 1)"
    using handle_busy assms(1-4,7) u by blast
  have run: "timers k (busy_with s c sm' now 1) = Inr (busy_with s c sm' now (Suc k))" if "k < ?n" for k
    using busy_timers that same n assms(6,7,9) by simp
  have q: "queue c = []" using assms(1) c by (simp add: cpu_idle_def)
  let ?r = "(after_ticks s ?n sm)\<lparr>isResponse := True\<rparr>"
  have r: "sendResponse ((after_ticks s ?n sm')\<lparr>isResponse := True\<rparr>) c =
      Inr (send_via ?r (cc_outGate s) c)"
    using sendResponse_same_trace [OF u, of "(after_ticks s ?n sm')\<lparr>isResponse := True\<rparr>" c]
      after_ticks_trace [where s = s and n = ?n and sm = sm and t = t and t' = "trace sm"]
    by (simp add: t after_ticks_def)
  have "cpu_timer (busy_with s c sm' now ?n) = Inr (s\<lparr>cc_core := send_via ?r (cc_outGate s) c\<rparr>)"
    by (rule busy_finish) (use n n0 same assms(1,7,9) q r in \<open>simp_all add: send_via_def\<close>)
  moreover have "timers ?n (busy_with s c sm' now 1) =
      cpu_timer (busy_with s c sm' now ?n)"
    using run [of "?n - 1"] n0 timers_Suc [of "?n - 1"] by simp
  ultimately show ?thesis
    using start run c by (simp add: busy_with_def)
qed

definition cpu_example :: CpuCore where
  "cpu_example = \<lparr>cc_core = core_initialize 9 ''core'', cc_speed = 100, cc_tick = 10, cc_ipt = 5,
     cc_inGate = 1, cc_outGate = 2, pendingMessage = None, latencyMessage = None\<rparr>"

definition cpu_request_example :: SM_CPU_Message where
  "cpu_request_example = new_SM_CPU_Message\<lparr>operation := SM_ExecCpu, msg_arrivalGate := Some 1,
     trace := [(''app'', [])], useTime := True, cpuTime := 25, quantum := 8\<rparr>"

theorem core_runs_request_witness:
  "ticks_granted cpu_example cpu_request_example = 3 \<and>
   (\<exists>s'. and_then (cpu_handleMessage 100 cpu_request_example cpu_example) (timers 3) = Inr s' \<and>
     length (sent (cc_core s')) = 1)"
proof -
  have "\<lceil>5 / 2 :: rat\<rceil> = 3" by (rule ceiling_unique) simp_all
  then have n: "ticks_granted cpu_example cpu_request_example = 3"
    by (simp add: ticks_granted_def work_left_def tick_work_def cpu_example_def
        cpu_request_example_def SM_CpuInfiniteQuantum_def new_SM_CPU_Message_def
        SIMCAN_Message.defs Let_def)
  have "cpu_idle cpu_example \<and> \<not> isResponse cpu_request_example \<and>
     operation cpu_request_example \<noteq> SM_AbortCpu \<and>
     msg_arrivalGate cpu_request_example = Some (cc_inGate cpu_example) \<and>
     trace cpu_request_example \<noteq> [] \<and> \<not> isCompleted cpu_request_example \<and>
     0 < quantum cpu_request_example \<and> 0 < work_left cpu_request_example \<and>
     0 < tick_work cpu_example cpu_request_example"
    by (simp add: cpu_idle_def cpu_example_def cpu_request_example_def core_initialize_def
        work_left_def tick_work_def new_SM_CPU_Message_def SIMCAN_Message.defs
        new_SIMCAN_Message_def SM_ExecCpu_def SM_AbortCpu_def)
  with core_runs_request [of cpu_example cpu_request_example 100]
  show ?thesis by (simp add: n send_via_def) (simp add: cpu_example_def core_initialize_def)
qed

end
