(* ===== verification/CpuSched.thy ===== *)
theory CpuSched
  imports Cpu
begin

text \<open>
  The round robin scheduler (\<open>os/schedulers/CpuSchedulerRR\<close>): it hands the computing requests of a
  virtual machine (or of the node) to the cores it manages and queues what finds no idle core.
  Core numbers are the \<open>unsigned int\<close>s of the source; \<open>cpuCoreIndex\<close> is a pointer and may be null.
\<close>

section \<open>State\<close>

definition SC_NotFound :: int where "SC_NotFound = -4"

record CpuSchedulerRR =
  cs_core :: "SM_CPU_Message core"
  numCpuCores :: nat
  managedCpuCores :: nat
  cs_quantum :: int
  cs_isVirtualHardware :: bool
  bRunning :: bool
  cores :: "bool list"
  cpuCoreIndex :: "u32 list option"
  requestsQueue :: "SM_CPU_Message list"
  abortsQueue :: "SM_CPU_Message list"
  toHypervisorGate :: int
  fromHypervisorGate :: int
  toHubGate :: int
  fromHubGate :: int

section \<open>Operations\<close>

definition setManagedCpuCores :: "nat \<Rightarrow> CpuSchedulerRR \<Rightarrow> CpuSchedulerRR outcome" where
  "setManagedCpuCores n s =
     (if bRunning s
      then Inl (RuntimeError ''Cannot change the number of CPU cores while the scheduler is running'')
      else Inr (s\<lparr>managedCpuCores := n, cores := replicate n True\<rparr>))"

definition sched_initialize ::
  "int \<Rightarrow> string \<Rightarrow> bool \<Rightarrow> nat \<Rightarrow> int \<Rightarrow> int \<times> int \<Rightarrow> int \<times> int \<Rightarrow> bool \<Rightarrow> CpuSchedulerRR outcome" where
  "sched_initialize i path isVirtual n q hyp hub isConnected =
     (let s = \<lparr>cs_core = core_initialize i path, numCpuCores = n, managedCpuCores = 0,
            cs_quantum = q, cs_isVirtualHardware = isVirtual, bRunning = False, cores = [],
            cpuCoreIndex = None, requestsQueue = [], abortsQueue = [],
            toHypervisorGate = snd hyp, fromHypervisorGate = fst hyp,
            toHubGate = snd hub, fromHubGate = fst hub\<rparr>
      in if \<not> isConnected then Inl (RuntimeError ''toHypervisorGate is not connected'')
         else if \<not> isVirtual
         then and_then (setManagedCpuCores n s) (\<lambda>s'.
                Inr (s'\<lparr>bRunning := True, cpuCoreIndex := Some (map of_nat [0..<n])\<rparr>))
         else Inr s)"

definition sched_getOutGate :: "SM_CPU_Message \<Rightarrow> CpuSchedulerRR \<Rightarrow> int option outcome" where
  "sched_getOutGate msg s =
     (if msg_arrivalGate msg = Some (fromHypervisorGate s) then Inr (Some (toHypervisorGate s))
      else if msg_arrivalGate msg = Some (fromHubGate s)
      then Inl (RuntimeError ''This module cannot receive requests from the CPU system!'')
      else Inr None)"

text \<open>\<open>delete from queue\<close>: the first message of the same application instance is taken out.\<close>

fun remove_instance :: "string \<Rightarrow> SM_CPU_Message list \<Rightarrow> SM_CPU_Message list option" where
  "remove_instance a [] = None"
| "remove_instance a (msg # q) =
     (if appInstance msg = a then Some q else map_option (Cons msg) (remove_instance a q))"

definition deleteFromRequestsQueue ::
  "SM_CPU_Message \<Rightarrow> CpuSchedulerRR \<Rightarrow> bool \<times> CpuSchedulerRR" where
  "deleteFromRequestsQueue sm s =
     (case remove_instance (appInstance sm) (requestsQueue s) of
        Some q \<Rightarrow> (True, s\<lparr>requestsQueue := q\<rparr>)
      | None \<Rightarrow> (False, s))"

definition deleteFromAbortsQueue ::
  "SM_CPU_Message \<Rightarrow> CpuSchedulerRR \<Rightarrow> bool \<times> CpuSchedulerRR" where
  "deleteFromAbortsQueue sm s =
     (case remove_instance (appInstance sm) (abortsQueue s) of
        Some q \<Rightarrow> (True, s\<lparr>abortsQueue := q\<rparr>)
      | None \<Rightarrow> (False, s))"

definition getVirtualCpuIndex :: "u32 \<Rightarrow> CpuSchedulerRR \<Rightarrow> int outcome" where
  "getVirtualCpuIndex realCpuIndex s =
     (case cpuCoreIndex s of
        None \<Rightarrow> if managedCpuCores s = 0 then Inr (-1) else Inl (Undefined ''null core index'')
      | Some ix \<Rightarrow>
          (case first_index (\<lambda>c. c = realCpuIndex) (take (managedCpuCores s) ix) of
             Some i \<Rightarrow> Inr (int i)
           | None \<Rightarrow> if managedCpuCores s \<le> length ix then Inr (-1)
                     else Inl (Undefined ''array index'')))"

definition searchIdleCPU :: "CpuSchedulerRR \<Rightarrow> int" where
  "searchIdleCPU s =
     (case first_index (\<lambda>c. c) (take (managedCpuCores s) (cores s)) of
        Some i \<Rightarrow> int i | None \<Rightarrow> SC_NotFound)"

definition core_index :: "nat \<Rightarrow> CpuSchedulerRR \<Rightarrow> u32 outcome" where
  "core_index i s =
     (case cpuCoreIndex s of
        None \<Rightarrow> Inl (Undefined ''null core index'')
      | Some ix \<Rightarrow> if i < length ix then Inr (ix ! i) else Inl (Undefined ''array index''))"

text \<open>The part of \<open>sendRequestMessage\<close> before it processes the next queued request.\<close>

definition sched_send_request :: "SM_CPU_Message \<Rightarrow> CpuSchedulerRR \<Rightarrow> CpuSchedulerRR outcome" where
  "sched_send_request sm s =
     and_then (if isTraceEmpty sm then sched_getOutGate sm s else Inr None) (\<lambda>sel.
       and_then (sendRequest sel (toHubGate s) sm (cs_core s)) (\<lambda>c. Inr (s\<lparr>cs_core := c\<rparr>)))"

definition sched_processRequestMessage ::
  "SM_CPU_Message \<Rightarrow> CpuSchedulerRR \<Rightarrow> (CpuSchedulerRR \<times> bool) outcome" where
  "sched_processRequestMessage sm s =
     (if operation sm = SM_AbortCpu
      then let (found, s') = deleteFromRequestsQueue sm s
           in Inr (if \<not> found then s'\<lparr>abortsQueue := abortsQueue s' @ [sm]\<rparr> else s', False)
      else if \<not> bRunning s
      then Inl (RuntimeError ''Scheduler is not running and a request has been received.'')
      else if \<not> useTime sm \<and> \<not> useMis sm
      then Inl (RuntimeError ''Empty CPU request.'')
      else
        let sm1 = sm\<lparr>quantum := cs_quantum s\<rparr>;
            cpuIndex = searchIdleCPU s
        in if cpuIndex = SC_NotFound
           then Inr (s\<lparr>requestsQueue := requestsQueue s @ [sm1]\<rparr>, False)
           else and_then (core_index (nat cpuIndex) s) (\<lambda>realIndex.
                  and_then (sched_send_request (sm1\<lparr>nextModuleIndex := sint realIndex\<rparr>)
                      (s\<lparr>cores := (cores s)[nat cpuIndex := False]\<rparr>)) (\<lambda>s'. Inr (s', True))))"

definition sched_processCurrentRequestMessage :: "CpuSchedulerRR \<Rightarrow> CpuSchedulerRR outcome" where
  "sched_processCurrentRequestMessage s =
     and_then (drain sched_processRequestMessage (queue (cs_core s))
         (s\<lparr>cs_core := (cs_core s)\<lparr>queue := []\<rparr>\<rparr>))
       (\<lambda>(q, s'). Inr (s'\<lparr>cs_core := (cs_core s')\<lparr>queue := q\<rparr>\<rparr>))"

definition sched_sendRequestMessage :: "SM_CPU_Message \<Rightarrow> CpuSchedulerRR \<Rightarrow> CpuSchedulerRR outcome" where
  "sched_sendRequestMessage sm s =
     and_then (sched_send_request sm s) sched_processCurrentRequestMessage"

definition sched_sendResponseMessage :: "SM_CPU_Message \<Rightarrow> CpuSchedulerRR \<Rightarrow> CpuSchedulerRR outcome" where
  "sched_sendResponseMessage sm s =
     and_then (sendResponse sm (cs_core s)) (\<lambda>c.
       sched_processCurrentRequestMessage (s\<lparr>cs_core := c\<rparr>))"

text \<open>The next waiting request takes over the core that has just become idle.\<close>

definition dispatch_next :: "u32 \<Rightarrow> nat \<Rightarrow> CpuSchedulerRR \<Rightarrow> CpuSchedulerRR outcome" where
  "dispatch_next realCpuIndex virtualCpuIndex s =
     (case requestsQueue s of
        [] \<Rightarrow> Inr s
      | nextRequest # q \<Rightarrow>
          sched_sendRequestMessage
            (nextRequest\<lparr>nextModuleIndex := sint realCpuIndex, quantum := cs_quantum s\<rparr>)
            (s\<lparr>requestsQueue := q, cores := (cores s)[virtualCpuIndex := False]\<rparr>))"

definition sched_processResponseMessage ::
  "SM_CPU_Message \<Rightarrow> CpuSchedulerRR \<Rightarrow> CpuSchedulerRR outcome" where
  "sched_processResponseMessage sm s =
     (if \<not> bRunning s then Inr s
      else
        let realCpuIndex = of_int (nextModuleIndex sm) :: u32
        in and_then (getVirtualCpuIndex realCpuIndex s) (\<lambda>virtualCpuIndex.
          if virtualCpuIndex \<ge> int (managedCpuCores s) \<or> virtualCpuIndex < 0
          then Inl (RuntimeError ''CPU index error'')
          else
            let v = nat virtualCpuIndex; s1 = s\<lparr>cores := (cores s)[v := True]\<rparr>
            in and_then
                 (if \<not> isCompleted sm
                  then and_then (sched_sendResponseMessage ((cpu_dup sm)\<lparr>isResponse := True\<rparr>) s1)
                         (\<lambda>s2. Inr (s2\<lparr>requestsQueue := requestsQueue s2 @ [sm\<lparr>isResponse := False\<rparr>]\<rparr>))
                  else sched_sendResponseMessage (sm\<lparr>isResponse := True\<rparr>) s1)
                 (dispatch_next realCpuIndex v)))"

definition sched_handleMessage :: "SM_CPU_Message \<Rightarrow> CpuSchedulerRR \<Rightarrow> CpuSchedulerRR outcome" where
  "sched_handleMessage sm s =
     (if \<not> isResponse sm
      then and_then (sched_getOutGate sm s) (\<lambda>sel.
             and_then (updateMessageTrace sel sm (cs_core s)) (\<lambda>(sm', c).
               sched_processCurrentRequestMessage (s\<lparr>cs_core := c\<lparr>queue := queue c @ [sm']\<rparr>\<rparr>)))
      else sched_processResponseMessage sm s)"

definition stopCpu :: "nat \<Rightarrow> CpuSchedulerRR \<Rightarrow> CpuSchedulerRR outcome" where
  "stopCpu virtualCpuIndex s =
     and_then (core_index virtualCpuIndex s) (\<lambda>realIndex.
       sched_sendRequestMessage ((updateLength (new_SM_CPU_Message\<lparr>operation := SM_AbortCpu\<rparr>))
         \<lparr>nextModuleIndex := sint realIndex\<rparr>) s)"

fun stop_cpus :: "nat list \<Rightarrow> CpuSchedulerRR \<Rightarrow> CpuSchedulerRR outcome" where
  "stop_cpus [] s = Inr s"
| "stop_cpus (i # is) s =
     (if i < length (cores s)
      then and_then (if \<not> cores s ! i then stopCpu i s else Inr s) (stop_cpus is)
      else Inl (Undefined ''vector index''))"

definition stopAllProcess :: "CpuSchedulerRR \<Rightarrow> CpuSchedulerRR outcome" where
  "stopAllProcess s = stop_cpus [0..<managedCpuCores s] (s\<lparr>requestsQueue := []\<rparr>)"

definition setIsRunning :: "bool \<Rightarrow> CpuSchedulerRR \<Rightarrow> CpuSchedulerRR outcome" where
  "setIsRunning running s =
     and_then (if bRunning s \<and> \<not> running then stopAllProcess s else Inr s) (\<lambda>s'.
       Inr (s'\<lparr>bRunning := running\<rparr>))"

definition setCpuCoreIndex :: "u32 list option \<Rightarrow> CpuSchedulerRR \<Rightarrow> CpuSchedulerRR" where
  "setCpuCoreIndex ix s = s\<lparr>cpuCoreIndex := ix\<rparr>"

section \<open>The handlers in closed form\<close>

lemma process_empty [simp]:
  "queue (cs_core s) = [] \<Longrightarrow> sched_processCurrentRequestMessage s = Inr s"
  by (cases s) (simp add: sched_processCurrentRequestMessage_def)

lemma queue_send_via [simp]: "queue (send_via m g c) = queue c"
  by (simp add: send_via_def)

lemma sched_send_request_traced:
  "trace sm \<noteq> [] \<Longrightarrow> sched_send_request sm s =
     Inr (s\<lparr>cs_core := send_via sm (toHubGate s) (cs_core s)\<rparr>)"
  by (simp add: sched_send_request_def sendRequest_def isTraceEmpty_def)

text \<open>A message whose last module is the scheduler's own entry, made when it came in.\<close>

definition returns_to_hypervisor :: "CpuSchedulerRR \<Rightarrow> SM_CPU_Message \<Rightarrow> bool" where
  "returns_to_hypervisor s sm \<longleftrightarrow> trace sm \<noteq> [] \<and> snd (last (trace sm)) \<noteq> [] \<and>
     gateID (last (snd (last (trace sm)))) = toHypervisorGate s"

definition popped :: "SM_CPU_Message \<Rightarrow> SM_CPU_Message" where
  "popped sm = (case removeLastModuleFromTrace sm of Inr sm' \<Rightarrow> sm' | Inl _ \<Rightarrow> sm)"

lemma sendResponse_returns:
  "returns_to_hypervisor s sm \<Longrightarrow> sendResponse sm c = Inr (send_via (popped sm) (toHypervisorGate s) c)"
  by (auto simp: returns_to_hypervisor_def sendResponse_def popped_def getLastGateId_def
      last_module_def back_of_def removeLastModuleFromTrace_def split: prod.splits)

lemma update_returns:
  assumes "updateMessageTrace (Some (toHypervisorGate s)) sm c = Inr (sm', c')"
  shows "returns_to_hypervisor s sm'" "\<exists>t. sm' = sm\<lparr>trace := t\<rparr>"
    "c' = c\<lparr>currentRequest := currentRequest c + 1\<rparr>"
  using assms
  by (auto simp: updateMessageTrace_def addModuleToTrace_def returns_to_hypervisor_def
      TraceComponent2_def set_back_def Let_def split: if_splits prod.splits)

text \<open>What holds of a scheduler that is in use: its table of cores matches the core index, and no
  message waits in the queue of the base between two events.\<close>

definition sched_ready :: "CpuSchedulerRR \<Rightarrow> u32 list \<Rightarrow> bool" where
  "sched_ready s ix \<longleftrightarrow> bRunning s \<and> cpuCoreIndex s = Some ix \<and> length ix = managedCpuCores s \<and>
     length (cores s) = managedCpuCores s \<and> distinct ix \<and> queue (cs_core s) = [] \<and>
     toHypervisorGate s \<noteq> toHubGate s \<and> fromHypervisorGate s \<noteq> fromHubGate s"

definition new_request :: "CpuSchedulerRR \<Rightarrow> SM_CPU_Message \<Rightarrow> bool" where
  "new_request s m \<longleftrightarrow> \<not> isResponse m \<and> msg_arrivalGate m = Some (fromHypervisorGate s) \<and>
     trace m \<noteq> [] \<and> (operation m = SM_AbortCpu \<or> useTime m \<or> useMis m)"

text \<open>What a request leads to, given its traced version and the base with the trace counted.\<close>

definition request_result ::
  "CpuSchedulerRR \<Rightarrow> u32 list \<Rightarrow> SM_CPU_Message \<Rightarrow> SM_CPU_Message \<Rightarrow> SM_CPU_Message core \<Rightarrow>
     CpuSchedulerRR" where
  "request_result s ix m m' c =
     (if operation m = SM_AbortCpu
      then case remove_instance (appInstance m) (requestsQueue s) of
            Some q \<Rightarrow> s\<lparr>cs_core := c, requestsQueue := q\<rparr>
          | None \<Rightarrow> s\<lparr>cs_core := c, abortsQueue := abortsQueue s @ [m']\<rparr>
      else case first_index (\<lambda>b. b) (cores s) of
            None \<Rightarrow> s\<lparr>cs_core := c, requestsQueue := requestsQueue s @ [m'\<lparr>quantum := cs_quantum s\<rparr>]\<rparr>
          | Some i \<Rightarrow> s\<lparr>cs_core := send_via (m'\<lparr>quantum := cs_quantum s,
              nextModuleIndex := sint (ix ! i)\<rparr>) (toHubGate s) c, cores := (cores s)[i := False]\<rparr>)"

lemma handle_request:
  assumes "sched_ready s ix" "new_request s m"
  shows "\<exists>m' c. returns_to_hypervisor s m' \<and> (\<exists>t. m' = m\<lparr>trace := t\<rparr>) \<and> queue c = [] \<and>
    sent c = sent (cs_core s) \<and> sched_handleMessage m s = Inr (request_result s ix m m' c)"
proof -
  have m: "\<not> isResponse m" "msg_arrivalGate m = Some (fromHypervisorGate s)" "trace m \<noteq> []"
    "operation m = SM_AbortCpu \<or> useTime m \<or> useMis m"
    using assms(2) by (auto simp: new_request_def)
  obtain m' c where u: "updateMessageTrace (Some (toHypervisorGate s)) m (cs_core s) = Inr (m', c)"
    using updateMessageTrace_ok [OF m(3)] by blast
  note u' = update_returns [OF u]
  then obtain t where t: "m' = m\<lparr>trace := t\<rparr>" by blast
  have ne: "trace m' \<noteq> []" using u'(1) by (simp add: returns_to_hypervisor_def)
  have r: "bRunning s" "cpuCoreIndex s = Some ix" "length ix = managedCpuCores s"
    "length (cores s) = managedCpuCores s" "queue (cs_core s) = []"
    using assms(1) by (auto simp: sched_ready_def)
  have q: "queue c = []" using u'(3) r(5) by simp
  have qe: "c\<lparr>queue := []\<rparr> = c" using q by (cases c) simp
  have h: "sched_handleMessage m s = and_then (and_then (sched_processRequestMessage m' (s\<lparr>cs_core := c\<rparr>))
      (\<lambda>(s', _). Inr ([], s'))) (\<lambda>(q, s'). Inr (s'\<lparr>cs_core := (cs_core s')\<lparr>queue := q\<rparr>\<rparr>))"
    using m(1,2) u
    by (simp add: sched_handleMessage_def sched_getOutGate_def sched_processCurrentRequestMessage_def
        drain_single q qe del: drain.simps)
  have ab: "appInstance m' = appInstance m" "operation m' = operation m" "useTime m' = useTime m"
    "useMis m' = useMis m" using t by auto
  have "sched_handleMessage m s =
       Inr (request_result s ix m m' c)"
  proof (cases "operation m = SM_AbortCpu")
    case True
    then show ?thesis
      by (simp add: h sched_processRequestMessage_def ab deleteFromRequestsQueue_def qe
          request_result_def split: option.split)
  next
    case False
    with m(4) have us: "\<not> (\<not> useTime m \<and> \<not> useMis m)" by auto
    show ?thesis
    proof (cases "first_index (\<lambda>b. b) (cores s)")
      case None
      with False us r(1,4) show ?thesis
        by (simp add: h sched_processRequestMessage_def ab searchIdleCPU_def SC_NotFound_def qe
            request_result_def)
    next
      case (Some i)
      then have "i < managedCpuCores s" using r(4) first_index_less by fastforce
      with False us r Some ne show ?thesis
        by (simp add: h sched_processRequestMessage_def ab searchIdleCPU_def SC_NotFound_def
            core_index_def sched_send_request_traced send_via_def q qe request_result_def)
    qed
  qed
  then show ?thesis
    using u'(1,2) q u'(3) by (intro exI [of _ m'] exI [of _ c] conjI) simp_all
qed

lemma index_of_core:
  assumes "sched_ready s ix" "i < managedCpuCores s"
  shows "getVirtualCpuIndex (ix ! i) s = Inr (int i)"
proof -
  have "first_index (\<lambda>c. c = ix ! i) ix = Some i"
    using assms by (auto simp: first_index_Some sched_ready_def nth_eq_iff_index_eq)
  with assms show ?thesis by (simp add: getVirtualCpuIndex_def sched_ready_def)
qed

text \<open>A response of core \<open>i\<close>: the answer that goes up, what joins the queue, and the request that
  takes the core over.\<close>

definition answer :: "SM_CPU_Message \<Rightarrow> SM_CPU_Message" where
  "answer r = popped (if isCompleted r then r\<lparr>isResponse := True\<rparr> else (cpu_dup r)\<lparr>isResponse := True\<rparr>)"

definition requeued :: "SM_CPU_Message \<Rightarrow> SM_CPU_Message list" where
  "requeued r = (if isCompleted r then [] else [r\<lparr>isResponse := False\<rparr>])"

lemma handle_response:
  assumes "sched_ready s ix" "i < managedCpuCores s" "of_int (nextModuleIndex r) = ix ! i"
    "isResponse r" "returns_to_hypervisor s r"
    "\<forall>m\<in>set (requestsQueue s). returns_to_hypervisor s m"
  shows "sched_handleMessage r s = Inr (
      let c = send_via (answer r) (toHypervisorGate s) (cs_core s)
      in case requestsQueue s @ requeued r of
           [] \<Rightarrow> s\<lparr>cs_core := c, cores := (cores s)[i := True]\<rparr>
         | m # q \<Rightarrow> s\<lparr>cs_core := send_via (m\<lparr>nextModuleIndex := sint (ix ! i), quantum := cs_quantum s\<rparr>)
                (toHubGate s) c, requestsQueue := q, cores := (cores s)[i := False]\<rparr>)"
proof -
  have r: "bRunning s" "length (cores s) = managedCpuCores s" "queue (cs_core s) = []"
    using assms(1) by (auto simp: sched_ready_def)
  let ?s1 = "s\<lparr>cores := (cores s)[i := True]\<rparr>"
  let ?c = "send_via (answer r) (toHypervisorGate s) (cs_core s)"
  let ?s2 = "s\<lparr>cs_core := ?c, cores := (cores s)[i := True], requestsQueue := requestsQueue s @ requeued r\<rparr>"
  have ret: "returns_to_hypervisor s (r\<lparr>isResponse := True\<rparr>)"
    "returns_to_hypervisor s ((cpu_dup r)\<lparr>isResponse := True\<rparr>)"
    using assms(5) by (simp_all add: returns_to_hypervisor_def cpu_dup_keeps)
  have first: "(if \<not> isCompleted r
        then and_then (sched_sendResponseMessage ((cpu_dup r)\<lparr>isResponse := True\<rparr>) ?s1)
               (\<lambda>s2. Inr (s2\<lparr>requestsQueue := requestsQueue s2 @ [r\<lparr>isResponse := False\<rparr>]\<rparr>))
        else sched_sendResponseMessage (r\<lparr>isResponse := True\<rparr>) ?s1) = Inr ?s2"
    using sendResponse_returns [OF ret(1)] sendResponse_returns [OF ret(2)] r(3)
    by (simp add: sched_sendResponseMessage_def answer_def requeued_def)
  have disp: "dispatch_next (ix ! i) i ?s2 = Inr (case requestsQueue s @ requeued r of
           [] \<Rightarrow> s\<lparr>cs_core := ?c, cores := (cores s)[i := True]\<rparr>
         | m # q \<Rightarrow> s\<lparr>cs_core := send_via (m\<lparr>nextModuleIndex := sint (ix ! i), quantum := cs_quantum s\<rparr>)
                (toHubGate s) ?c, requestsQueue := q, cores := (cores s)[i := False]\<rparr>)"
  proof (cases "requestsQueue s @ requeued r")
    case Nil
    then show ?thesis by (simp add: dispatch_next_def)
  next
    case (Cons m q)
    then have "m \<in> set (requestsQueue s @ requeued r)" by simp
    then have "trace m \<noteq> []"
      using assms(5,6) by (auto simp: returns_to_hypervisor_def requeued_def split: if_splits)
    with Cons r(3) show ?thesis
      by (simp add: dispatch_next_def sched_sendRequestMessage_def sched_send_request_traced)
  qed
  have "sched_handleMessage r s = and_then (Inr ?s2) (dispatch_next (ix ! i) i)"
    unfolding first [symmetric]
    using assms(2-4) r(1) index_of_core [OF assms(1,2)]
    by (simp add: sched_handleMessage_def sched_processResponseMessage_def Let_def)
  with disp show ?thesis by (simp add: Let_def)
qed

section \<open>The scheduler and its cores as a transition system\<close>

text \<open>
  A state is the scheduler and the requests that are at the cores.  A request arrives from the
  hypervisor, or a core returns one of the requests it has, changed by its execution but with its
  trace and core number.  What the scheduler sends to the hub goes to the cores.
\<close>

definition launched :: "CpuSchedulerRR \<Rightarrow> CpuSchedulerRR \<Rightarrow> SM_CPU_Message list" where
  "launched s s' = map fst (filter (\<lambda>(_, g). g = toHubGate s)
     (drop (length (sent (cs_core s))) (sent (cs_core s'))))"

inductive sched_step ::
  "CpuSchedulerRR \<times> SM_CPU_Message list \<Rightarrow> CpuSchedulerRR \<times> SM_CPU_Message list \<Rightarrow> bool" where
  arrive: "new_request s m \<Longrightarrow> sched_handleMessage m s = Inr s' \<Longrightarrow>
     sched_step (s, fl) (s', fl @ launched s s')"
| return: "m \<in> set fl \<Longrightarrow> isResponse r \<Longrightarrow> trace r = trace m \<Longrightarrow>
     nextModuleIndex r = nextModuleIndex m \<Longrightarrow> sched_handleMessage r s = Inr s' \<Longrightarrow>
     sched_step (s, fl) (s', remove1 m fl @ launched s s')"

inductive_cases sched_stepE: "sched_step a b"

inductive sched_reachable ::
  "CpuSchedulerRR \<Rightarrow> CpuSchedulerRR \<times> SM_CPU_Message list \<Rightarrow> bool" for s0 where
  start: "sched_reachable s0 (s0, [])"
| step: "sched_reachable s0 a \<Longrightarrow> sched_step a b \<Longrightarrow> sched_reachable s0 b"

text \<open>The busy cores are exactly those that have a request, one each; a request waits only when every
  core is busy; every message remembers its way back.\<close>

definition core_of :: "SM_CPU_Message \<Rightarrow> u32" where
  "core_of m = of_int (nextModuleIndex m)"

definition sched_inv :: "u32 list \<Rightarrow> CpuSchedulerRR \<times> SM_CPU_Message list \<Rightarrow> bool" where
  "sched_inv ix a \<longleftrightarrow> (case a of (s, fl) \<Rightarrow>
     sched_ready s ix \<and>
     distinct (map core_of fl) \<and>
     core_of ` set fl = {ix ! i | i. i < managedCpuCores s \<and> \<not> cores s ! i} \<and>
     (requestsQueue s = [] \<or> True \<notin> set (cores s)) \<and>
     (\<forall>m\<in>set fl. returns_to_hypervisor s m) \<and>
     (\<forall>m\<in>set (requestsQueue s). returns_to_hypervisor s m))"

lemma returns_cong:
  "toHypervisorGate s' = toHypervisorGate s \<Longrightarrow> trace m' = trace m \<Longrightarrow>
     returns_to_hypervisor s' m' = returns_to_hypervisor s m"
  by (simp add: returns_to_hypervisor_def)

lemma core_of_sint [simp]: "core_of (m\<lparr>nextModuleIndex := sint w, quantum := q\<rparr>) = w"
  "core_of (m\<lparr>quantum := q, nextModuleIndex := sint w\<rparr>) = w"
  by (simp_all add: core_of_def)

lemma set_remove_instance:
  "remove_instance a q = Some q' \<Longrightarrow> set q' \<subseteq> set q \<and> (q = [] \<longrightarrow> q' = [])"
  by (induction q arbitrary: q') (fastforce split: if_splits)+

lemma remove1_image:
  assumes "distinct (map f xs)" "m \<in> set xs"
  shows "distinct (map f (remove1 m xs))" "f ` set (remove1 m xs) = f ` set xs - {f m}"
proof -
  have d: "distinct xs" "inj_on f (set xs)" using assms(1) by (simp_all add: distinct_map)
  then show "distinct (map f (remove1 m xs))"
    by (simp add: distinct_map inj_on_subset [OF d(2)] Diff_subset)
  show "f ` set (remove1 m xs) = f ` set xs - {f m}"
    using d assms(2) by (simp add: inj_on_image_set_diff [OF d(2)])
qed

lemma sched_ready_update:
  "sched_ready s ix \<Longrightarrow> queue c = [] \<Longrightarrow> length cs = managedCpuCores s \<Longrightarrow>
     sched_ready (s\<lparr>cs_core := c, requestsQueue := q, abortsQueue := a, cores := cs\<rparr>) ix"
  by (simp add: sched_ready_def)

lemma busy_set_True:
  assumes "distinct ix" "length ix = n" "length cs = n" "i < n" "\<not> cs ! i"
  shows "{ix ! j | j. j < n \<and> \<not> cs[i := True] ! j} = {ix ! j | j. j < n \<and> \<not> cs ! j} - {ix ! i}"
  using assms by (auto simp: nth_list_update nth_eq_iff_index_eq)

lemma busy_set_False:
  assumes "distinct ix" "length ix = n" "length cs = n" "i < n" "cs ! i"
  shows "{ix ! j | j. j < n \<and> \<not> cs[i := False] ! j} = insert (ix ! i) {ix ! j | j. j < n \<and> \<not> cs ! j}"
    "ix ! i \<notin> {ix ! j | j. j < n \<and> \<not> cs ! j}"
  using assms by (auto simp: nth_list_update nth_eq_iff_index_eq split: if_splits)

lemma sched_invI:
  assumes "sched_ready s' ix" "toHypervisorGate s' = toHypervisorGate s"
    "managedCpuCores s' = managedCpuCores s" "distinct (map core_of fl)"
    "core_of ` set fl = {ix ! i | i. i < managedCpuCores s \<and> \<not> cores s' ! i}"
    "requestsQueue s' = [] \<or> True \<notin> set (cores s')"
    "\<forall>m\<in>set fl. returns_to_hypervisor s m"
    "\<forall>m\<in>set (requestsQueue s'). returns_to_hypervisor s m"
  shows "sched_inv ix (s', fl)"
proof -
  have "returns_to_hypervisor s' = returns_to_hypervisor s"
    using assms(2) by (simp add: fun_eq_iff returns_to_hypervisor_def)
  with assms show ?thesis by (simp add: sched_inv_def)
qed

lemma abort_inv:
  assumes "sched_inv ix (s, fl)" "operation m = SM_AbortCpu" "queue c = []" "sent c = sent (cs_core s)"
    "s' = request_result s ix m m' c"
  shows "sched_inv ix (s', fl @ launched s s')"
proof -
  have inv: "sched_ready s ix" "distinct (map core_of fl)"
    "core_of ` set fl = {ix ! i | i. i < managedCpuCores s \<and> \<not> cores s ! i}"
    "requestsQueue s = [] \<or> True \<notin> set (cores s)"
    "\<forall>m\<in>set fl. returns_to_hypervisor s m" "\<forall>m\<in>set (requestsQueue s). returns_to_hypervisor s m"
    using assms(1) by (auto simp: sched_inv_def)
  let ?q = "case remove_instance (appInstance m) (requestsQueue s) of Some q \<Rightarrow> q | None \<Rightarrow> requestsQueue s"
  have q: "set ?q \<subseteq> set (requestsQueue s)" "requestsQueue s = [] \<Longrightarrow> ?q = []"
    using set_remove_instance by (auto split: option.split)
  have s': "requestsQueue s' = ?q" "cs_core s' = c" "cores s' = cores s" "sched_ready s' ix"
    "toHypervisorGate s' = toHypervisorGate s" "managedCpuCores s' = managedCpuCores s"
    using assms(2,3,5) inv(1)
    by (simp_all add: request_result_def sched_ready_def split: option.split)
  have l: "launched s s' = []" using assms(4) by (simp add: launched_def s'(2))
  show ?thesis unfolding l append_Nil2
  proof (rule sched_invI [OF s'(4-6) inv(2)])
    show "core_of ` set fl = {ix ! i |i. i < managedCpuCores s \<and> \<not> cores s' ! i}"
      unfolding s'(3) by (rule inv(3))
    show "requestsQueue s' = [] \<or> True \<notin> set (cores s')"
      unfolding s'(1,3) using inv(4) q(2) by blast
    show "\<forall>m\<in>set (requestsQueue s'). returns_to_hypervisor s m"
      unfolding s'(1) using inv(6) q(1) by blast
  qed (rule inv(5))
qed

lemma arrive_inv:
  assumes "sched_inv ix (s, fl)" "new_request s m" "sched_handleMessage m s = Inr s'"
  shows "sched_inv ix (s', fl @ launched s s')"
proof -
  have inv: "sched_ready s ix" "distinct (map core_of fl)"
    "core_of ` set fl = {ix ! i | i. i < managedCpuCores s \<and> \<not> cores s ! i}"
    "requestsQueue s = [] \<or> True \<notin> set (cores s)"
    "\<forall>m\<in>set fl. returns_to_hypervisor s m" "\<forall>m\<in>set (requestsQueue s). returns_to_hypervisor s m"
    using assms(1) by (auto simp: sched_inv_def)
  have len: "length (cores s) = managedCpuCores s" "distinct ix" "length ix = managedCpuCores s"
    using inv(1) by (auto simp: sched_ready_def)
  obtain m' c where h: "returns_to_hypervisor s m'" "queue c = []" "sent c = sent (cs_core s)"
    "s' = request_result s ix m m' c"
    using handle_request [OF inv(1) assms(2)] assms(3) by auto
  have rq: "returns_to_hypervisor s (m'\<lparr>quantum := q\<rparr>)"
    "returns_to_hypervisor s (m'\<lparr>quantum := q, nextModuleIndex := j\<rparr>)" for q j
    using h(1) by (simp_all add: returns_to_hypervisor_def)
  show ?thesis
  proof (cases "operation m = SM_AbortCpu")
    case True
    then show ?thesis by (rule abort_inv [OF assms(1) _ h(2-4)])
  next
    case False
    show ?thesis
    proof (cases "first_index (\<lambda>b. b) (cores s)")
      case None
      with False h(4) have s': "s' = s\<lparr>cs_core := c, requestsQueue := requestsQueue s @
          [m'\<lparr>quantum := cs_quantum s\<rparr>]\<rparr>" by (simp add: request_result_def)
      have ready: "sched_ready s' ix" using inv(1) h(2) by (simp add: s' sched_ready_def)
      have l: "launched s s' = []" using h(3) by (simp add: launched_def s')
      have "True \<notin> set (cores s)" using None by (auto simp: first_index_None)
      then show ?thesis unfolding l append_Nil2
        using inv(3,5,6) rq(1) by (intro sched_invI [OF ready _ _ inv(2)]) (auto simp: s')
    next
      case (Some i)
      let ?m = "m'\<lparr>quantum := cs_quantum s, nextModuleIndex := sint (ix ! i)\<rparr>"
      from Some have i: "i < managedCpuCores s" "cores s ! i"
        using len(1) by (auto simp: first_index_Some)
      from False Some h(4) have s': "s' = s\<lparr>cs_core := send_via ?m (toHubGate s) c,
          cores := (cores s)[i := False]\<rparr>" by (simp add: request_result_def)
      have l: "launched s s' = [?m]" using h(3) by (simp add: launched_def s' send_via_def)
      have ready: "sched_ready s' ix" using inv(1) h(2) by (simp add: s' sched_ready_def)
      have "True \<in> set (cores s)" using i len(1) by (metis (full_types) nth_mem)
      then have nq: "requestsQueue s = []" using inv(4) by blast
      note busy = busy_set_False [OF len(2,3,1) i]
      have d: "distinct (map core_of (fl @ [?m]))"
        using inv(2) busy(2) unfolding inv(3) [symmetric] by simp
      have im: "core_of ` set (fl @ [?m]) = {ix ! j |j. j < managedCpuCores s \<and> \<not> cores s' ! j}"
        using busy(1) inv(3) by (simp add: s')
      show ?thesis unfolding l
        by (rule sched_invI [OF ready _ _ d im]) (use nq inv(5) rq(2) in \<open>auto simp: s'\<close>)
    qed
  qed
qed

lemma return_inv:
  assumes "sched_inv ix (s, fl)" "m \<in> set fl" "isResponse r" "trace r = trace m"
    "nextModuleIndex r = nextModuleIndex m" "sched_handleMessage r s = Inr s'"
  shows "sched_inv ix (s', remove1 m fl @ launched s s')"
proof -
  have inv: "sched_ready s ix" "distinct (map core_of fl)"
    "core_of ` set fl = {ix ! i | i. i < managedCpuCores s \<and> \<not> cores s ! i}"
    "requestsQueue s = [] \<or> True \<notin> set (cores s)"
    "\<forall>m\<in>set fl. returns_to_hypervisor s m" "\<forall>m\<in>set (requestsQueue s). returns_to_hypervisor s m"
    using assms(1) by (auto simp: sched_inv_def)
  have len: "length (cores s) = managedCpuCores s" "distinct ix" "length ix = managedCpuCores s"
    "toHypervisorGate s \<noteq> toHubGate s"
    using inv(1) by (auto simp: sched_ready_def)
  have "core_of m \<in> core_of ` set fl" using assms(2) by simp
  then obtain i where i: "i < managedCpuCores s" "\<not> cores s ! i" "core_of m = ix ! i"
    unfolding inv(3) by blast
  have r: "of_int (nextModuleIndex r) = ix ! i" using i(3) assms(5) by (simp add: core_of_def)
  have ret: "returns_to_hypervisor s r"
    using inv(5) assms(2,4) by (auto simp: returns_to_hypervisor_def)
  note rem = remove1_image [OF inv(2) assms(2)]
  have rest: "\<forall>x\<in>set (remove1 m fl). returns_to_hypervisor s x"
    using inv(5) set_remove1_subset [of m fl] by blast
  let ?c = "send_via (answer r) (toHypervisorGate s) (cs_core s)"
  note h = handle_response [OF inv(1) i(1) r assms(3) ret inv(6)]
  show ?thesis
  proof (cases "requestsQueue s @ requeued r")
    case Nil
    then have s': "s' = s\<lparr>cs_core := ?c, cores := (cores s)[i := True]\<rparr>"
      using h assms(6) by simp
    have l: "launched s s' = []" using len(4) by (simp add: launched_def s' send_via_def)
    have ready: "sched_ready s' ix" using inv(1) by (simp add: s' sched_ready_def)
    have im: "core_of ` set (remove1 m fl) = {ix ! j |j. j < managedCpuCores s \<and> \<not> cores s' ! j}"
      using busy_set_True [OF len(2,3,1) i(1,2)] rem(2) inv(3) i(3) by (simp add: s')
    show ?thesis unfolding l append_Nil2
      by (rule sched_invI [OF ready _ _ rem(1) im]) (use Nil rest in \<open>auto simp: s'\<close>)
  next
    case (Cons x q)
    let ?x = "x\<lparr>nextModuleIndex := sint (ix ! i), quantum := cs_quantum s\<rparr>"
    from Cons have s': "s' = s\<lparr>cs_core := send_via ?x (toHubGate s) ?c, requestsQueue := q,
        cores := (cores s)[i := False]\<rparr>"
      using h assms(6) by simp
    have same: "(cores s)[i := False] = cores s" using i(2) list_update_id [of "cores s" i] by simp
    have l: "launched s s' = [?x]" using len(4) by (simp add: launched_def s' send_via_def)
    have mem: "\<forall>y\<in>set (x # q). returns_to_hypervisor s y"
      using inv(6) ret unfolding Cons [symmetric]
      by (auto simp: requeued_def returns_to_hypervisor_def split: if_splits)
    have ready: "sched_ready s' ix" using inv(1) by (simp add: s' sched_ready_def)
    have dist: "distinct (map core_of (remove1 m fl @ [?x]))"
      using rem i(3) by simp
    have imgs: "core_of ` set (remove1 m fl @ [?x]) = core_of ` set fl"
      using rem(2) i(3) imageI [OF assms(2), of core_of] by auto
    have wait: "q = [] \<or> True \<notin> set (cores s)"
    proof (cases "requestsQueue s = []")
      case True
      with Cons show ?thesis by (auto simp: requeued_def split: if_splits)
    qed (use inv(4) in auto)
    have im: "core_of ` set (remove1 m fl @ [?x]) =
        {ix ! j |j. j < managedCpuCores s \<and> \<not> cores s' ! j}"
      unfolding imgs inv(3) by (simp add: s' same)
    have rx: "returns_to_hypervisor s ?x" using mem by (simp add: returns_to_hypervisor_def)
    show ?thesis unfolding l
      by (rule sched_invI [OF ready _ _ dist im]) (use wait mem rest rx in \<open>auto simp: s' same\<close>)
  qed
qed

lemma sched_reachable_inv:
  assumes "sched_reachable s0 a" "sched_ready s0 ix" "requestsQueue s0 = []" "\<forall>b\<in>set (cores s0). b"
  shows "sched_inv ix a"
  using assms
proof (induction rule: sched_reachable.induct)
  case start
  have "length (cores s0) = managedCpuCores s0" using start(1) by (simp add: sched_ready_def)
  then have "\<forall>i<managedCpuCores s0. cores s0 ! i" using start(3) nth_mem by metis
  then have "{ix ! i |i. i < managedCpuCores s0 \<and> \<not> cores s0 ! i} = {}" by blast
  then show ?case using start(1,2) by (intro sched_invI) simp_all
next
  case (step a b)
  have IH: "sched_inv ix a" by (rule step.IH [OF step.prems])
  from step.hyps(2) show ?case
  proof (cases rule: sched_step.cases)
    case (arrive s m s' fl)
    show ?thesis
      using arrive_inv [OF IH [unfolded arrive(1)] arrive(3,4)] unfolding arrive(2) .
  next
    case (return m fl r s s')
    show ?thesis
      using return_inv [OF IH [unfolded return(1)] return(3-7)] unfolding return(2) .
  qed
qed

text \<open>C8.  The scheduler is work conserving and loses no core: in every state reachable from a running
  scheduler with idle cores and no waiting request, the busy cores are exactly the cores of the
  requests handed out, no two of which share a core, and a request waits only while every core is
  busy.  No event can get stuck there: every request of the hypervisor and every response of a core
  is processed without an error.
\<close>

theorem scheduler_work_conserving:
  assumes "sched_ready s0 ix" "requestsQueue s0 = []" "\<forall>b\<in>set (cores s0). b"
    and "sched_reachable s0 (s, fl)"
  shows "(requestsQueue s \<noteq> [] \<longrightarrow> True \<notin> set (cores s)) \<and>
    distinct (map core_of fl) \<and>
    core_of ` set fl = {ix ! i | i. i < managedCpuCores s \<and> \<not> cores s ! i} \<and>
    (new_request s m \<longrightarrow> is_ok (sched_handleMessage m s)) \<and>
    (r \<in> set fl \<longrightarrow> is_ok (sched_handleMessage (r\<lparr>isResponse := True\<rparr>) s))"
proof -
  have "sched_inv ix (s, fl)" by (rule sched_reachable_inv [OF assms(4,1-3)])
  then have inv: "sched_ready s ix" "distinct (map core_of fl)"
    "core_of ` set fl = {ix ! i | i. i < managedCpuCores s \<and> \<not> cores s ! i}"
    "requestsQueue s = [] \<or> True \<notin> set (cores s)"
    "\<forall>m\<in>set fl. returns_to_hypervisor s m" "\<forall>m\<in>set (requestsQueue s). returns_to_hypervisor s m"
    by (auto simp: sched_inv_def)
  have req: "is_ok (sched_handleMessage m s)" if "new_request s m"
    using handle_request [OF inv(1) that] by auto
  have resp: "is_ok (sched_handleMessage (r\<lparr>isResponse := True\<rparr>) s)" if "r \<in> set fl"
  proof -
    have "core_of r \<in> core_of ` set fl" using that by simp
    then obtain i where i: "i < managedCpuCores s" "core_of r = ix ! i" unfolding inv(3) by blast
    have "returns_to_hypervisor s (r\<lparr>isResponse := True\<rparr>)"
      using inv(5) that by (simp add: returns_to_hypervisor_def)
    then show ?thesis
      using handle_response [OF inv(1) i(1), of "r\<lparr>isResponse := True\<rparr>"] i(2) inv(6)
      by (simp add: core_of_def)
  qed
  show ?thesis using inv(2-4) req resp by blast
qed

definition sched_example :: CpuSchedulerRR where
  "sched_example = \<lparr>cs_core = core_initialize 4 ''sched'', numCpuCores = 2, managedCpuCores = 2,
     cs_quantum = 3, cs_isVirtualHardware = False, bRunning = True, cores = [True, True],
     cpuCoreIndex = Some [0, 1], requestsQueue = [], abortsQueue = [], toHypervisorGate = 12,
     fromHypervisorGate = 11, toHubGate = 14, fromHubGate = 13\<rparr>"

definition sched_request :: SM_CPU_Message where
  "sched_request = cpu_request_example\<lparr>msg_arrivalGate := Some 11\<rparr>"

lemma sched_example_initialize:
  "sched_initialize 4 ''sched'' False 2 3 (11, 12) (13, 14) True = Inr sched_example"
  by (simp add: sched_initialize_def setManagedCpuCores_def sched_example_def numeral_2_eq_2)

theorem scheduler_work_conserving_witness:
  "is_ok (sched_handleMessage sched_request sched_example)"
proof -
  have "sched_ready sched_example [0, 1]"
    by (simp add: sched_ready_def sched_example_def core_initialize_def)
  moreover have "requestsQueue sched_example = []" "\<forall>b\<in>set (cores sched_example). b"
    by (simp_all add: sched_example_def)
  moreover have "new_request sched_example sched_request"
    by (simp add: new_request_def sched_example_def sched_request_def cpu_request_example_def
        new_SM_CPU_Message_def SIMCAN_Message.defs new_SIMCAN_Message_def)
  ultimately show ?thesis
    using scheduler_work_conserving [OF _ _ _ sched_reachable.start, of sched_example "[0, 1]"]
    by blast
qed

text \<open>Round robin: when a core returns a request whose work is not finished, its application gets
  a progress report, the request goes to the end of the line and the core immediately takes the
  request at the head of the line with a fresh quantum; with nobody else waiting that is the same
  request again.
\<close>

theorem unfinished_request_requeued:
  assumes "sched_ready s ix" "i < managedCpuCores s" "of_int (nextModuleIndex r) = ix ! i"
    "isResponse r" "returns_to_hypervisor s r" "\<not> isCompleted r"
    "\<forall>m\<in>set (requestsQueue s). returns_to_hypervisor s m"
  shows "\<exists>s' m q. sched_handleMessage r s = Inr s' \<and>
     requestsQueue s @ [r\<lparr>isResponse := False\<rparr>] = m # q \<and> requestsQueue s' = q \<and>
     sent (cs_core s') = sent (cs_core s) @
       [(popped ((cpu_dup r)\<lparr>isResponse := True\<rparr>), toHypervisorGate s),
        (m\<lparr>nextModuleIndex := sint (ix ! i), quantum := cs_quantum s\<rparr>, toHubGate s)] \<and>
     cores s' = (cores s)[i := False]"
proof -
  obtain m q where mq: "requestsQueue s @ [r\<lparr>isResponse := False\<rparr>] = m # q"
    by (cases "requestsQueue s @ [r\<lparr>isResponse := False\<rparr>]") auto
  show ?thesis
    using handle_response [OF assms(1-5,7)] assms(6) mq
    by (simp add: requeued_def answer_def send_via_def Let_def)
qed

definition unfinished_example :: SM_CPU_Message where
  "unfinished_example = sched_request\<lparr>isResponse := True, nextModuleIndex := 1,
     trace := [(''app'', [TraceComponent3 4 12 0])]\<rparr>"

theorem unfinished_request_requeued_witness:
  "\<exists>s'. sched_handleMessage unfinished_example (sched_example\<lparr>cores := [True, False]\<rparr>) = Inr s' \<and>
     cores s' = [True, False] \<and> requestsQueue s' = []"
proof -
  let ?s = "sched_example\<lparr>cores := [True, False]\<rparr>"
  have "sched_ready ?s [0, 1]"
    by (simp add: sched_ready_def sched_example_def core_initialize_def)
  moreover have "1 < managedCpuCores ?s" "of_int (nextModuleIndex unfinished_example) = [0, 1 :: u32] ! 1"
    "isResponse unfinished_example" "returns_to_hypervisor ?s unfinished_example"
    "\<not> isCompleted unfinished_example" "\<forall>m\<in>set (requestsQueue ?s). returns_to_hypervisor ?s m"
    by (simp_all add: sched_example_def unfinished_example_def sched_request_def
        cpu_request_example_def returns_to_hypervisor_def TraceComponent3_def new_SM_CPU_Message_def
        SIMCAN_Message.defs)
  ultimately obtain s' m q where
    "sched_handleMessage unfinished_example ?s = Inr s'"
    "requestsQueue ?s @ [unfinished_example\<lparr>isResponse := False\<rparr>] = m # q" "requestsQueue s' = q"
    "cores s' = (cores ?s)[1 := False]"
    using unfinished_request_requeued by blast
  then show ?thesis by (simp add: sched_example_def)
qed

section \<open>Stopping\<close>

text \<open>
  Stopping a running scheduler forgets the waiting requests and sends an abort to every busy core,
  but it leaves the cores marked busy; a core that answers afterwards is ignored.  So a scheduler that
  is started again without setting its number of cores has lost those cores.
\<close>

lemma stop_ignores_responses:
  "\<not> bRunning s \<Longrightarrow> isResponse r \<Longrightarrow> sched_handleMessage r s = Inr s"
  by (simp add: sched_handleMessage_def sched_processResponseMessage_def)

lemma stopCpu_keeps:
  assumes "queue (cs_core s) = []" "stopCpu i s = Inr s'"
  shows "cores s' = cores s \<and> requestsQueue s' = requestsQueue s \<and> queue (cs_core s') = [] \<and>
     managedCpuCores s' = managedCpuCores s"
proof -
  obtain w where w: "core_index i s = Inr w"
    using assms(2) by (auto simp: stopCpu_def and_then_eq_Inr)
  let ?m = "(updateLength (new_SM_CPU_Message\<lparr>operation := SM_AbortCpu\<rparr>))\<lparr>nextModuleIndex := sint w\<rparr>"
  from assms(2) w obtain s1 where s1: "sched_send_request ?m s = Inr s1"
    "sched_processCurrentRequestMessage s1 = Inr s'"
    by (auto simp: stopCpu_def sched_sendRequestMessage_def and_then_eq_Inr)
  from s1(1) obtain sel c where c: "sendRequest sel (toHubGate s) ?m (cs_core s) = Inr c"
    "s1 = s\<lparr>cs_core := c\<rparr>"
    by (auto simp: sched_send_request_def and_then_eq_Inr)
  have "queue c = queue (cs_core s)"
    using c(1)
    by (auto simp: sendRequest_def updateMessageTrace_def and_then_eq_Inr Let_def
        split: if_splits prod.splits)
  with s1(2) c(2) assms(1) have "s' = s\<lparr>cs_core := c\<rparr>" "queue c = []" by auto
  then show ?thesis by simp
qed

lemma stop_cpus_keeps:
  assumes "queue (cs_core s) = []" "stop_cpus is s = Inr s'"
  shows "cores s' = cores s \<and> requestsQueue s' = requestsQueue s"
  using assms
proof (induction "is" s rule: stop_cpus.induct)
  case (1 s)
  then show ?case by simp
next
  case (2 i "is" s)
  show ?case
  proof (cases "cores s ! i")
    case True
    with 2 show ?thesis by (auto split: if_splits)
  next
    case False
    with 2(3) obtain s1 where s1: "stopCpu i s = Inr s1" "stop_cpus is s1 = Inr s'" "i < length (cores s)"
      by (auto simp: and_then_eq_Inr split: if_splits)
    note k = stopCpu_keeps [OF 2(2) s1(1)]
    with 2(1) [OF s1(3), of s1] s1 False show ?thesis by auto
  qed
qed

lemma setIsRunning_False_keeps_busy:
  assumes "queue (cs_core s) = []" "bRunning s" "setIsRunning False s = Inr s'"
  shows "cores s' = cores s \<and> requestsQueue s' = [] \<and> \<not> bRunning s'"
  using assms(2,3) stop_cpus_keeps [of "s\<lparr>requestsQueue := []\<rparr>" "[0..<managedCpuCores s]"] assms(1)
  by (auto simp: setIsRunning_def stopAllProcess_def and_then_eq_Inr)

end
