(* ===== verification/ControlTable.thy ===== *)
theory ControlTable
  imports Resources UserMessages
begin

text \<open>
  The hypervisor's control table (\<open>os/control/ControlEntries\<close> and \<open>os/control/VmControlTable\<close>): the
  virtual machine slots with their application slots, the calls buffered while a machine is
  suspended and the maps between global and local ids.  \<open>'c\<close> is the type of the buffered calls.
  Identifiers are \<open>int\<close>s, -1 for none.
\<close>

section \<open>Control blocks\<close>

record AppControlBlock =
  acb_pid :: int
  acb_vmId :: int
  deploymentIndex :: int

definition fresh_app :: AppControlBlock where
  "fresh_app = \<lparr>acb_pid = -1, acb_vmId = -1, deploymentIndex = -1\<rparr>"

definition app_initialize :: "int \<Rightarrow> int \<Rightarrow> int \<Rightarrow> AppControlBlock \<Rightarrow> AppControlBlock" where
  "app_initialize vmId pid index a =
     a\<lparr>acb_pid := pid, acb_vmId := vmId, deploymentIndex := index\<rparr>"

definition app_free :: "AppControlBlock \<Rightarrow> AppControlBlock" where
  "app_free a = a\<lparr>acb_pid := -1\<rparr>"

definition app_isFree :: "AppControlBlock \<Rightarrow> bool" where
  "app_isFree a \<longleftrightarrow> acb_pid a = -1"

datatype tVmState = vmIdle | vmAccepted | vmRunning | vmSuspended | vmFinished

text \<open>A pointer to an object the block owns: null, to an object, or to a deleted object.\<close>

datatype 'a pointer = Null | To 'a | Dangling

record 'c VmControlBlock =
  vcb_vmId :: int
  vcb_state :: tVmState
  vcb_vmType :: "VirtualMachine option"
  vcb_userId :: string
  apps :: "AppControlBlock list"
  callBuffer :: "'c list"
  request :: "SM_UserAPP pointer"

definition fresh_block :: "'c VmControlBlock" where
  "fresh_block = \<lparr>vcb_vmId = 0, vcb_state = vmIdle, vcb_vmType = None, vcb_userId = [], apps = [],
     callBuffer = [], request = Null\<rparr>"

definition block_initialize ::
  "int \<Rightarrow> VirtualMachine option \<Rightarrow> string \<Rightarrow> nat \<Rightarrow> 'c VmControlBlock \<Rightarrow> 'c VmControlBlock" where
  "block_initialize vmId vmType userId n b =
     b\<lparr>vcb_vmId := vmId, vcb_vmType := vmType, vcb_userId := userId, vcb_state := vmIdle,
       request := Null, apps := resize_to n fresh_app (apps b)\<rparr>"

definition block_free :: "'c VmControlBlock \<Rightarrow> 'c VmControlBlock" where
  "block_free b =
     b\<lparr>vcb_state := vmIdle, vcb_vmType := None, callBuffer := [], apps := [],
       request := (case request b of Null \<Rightarrow> Null | _ \<Rightarrow> Dangling)\<rparr>"

definition block_resize :: "nat \<Rightarrow> 'c VmControlBlock \<Rightarrow> 'c VmControlBlock" where
  "block_resize n b =
     (if n > length (apps b) then b\<lparr>apps := resize_to n fresh_app (apps b)\<rparr> else b)"

definition setRunning :: "'c VmControlBlock \<Rightarrow> 'c VmControlBlock" where
  "setRunning b = b\<lparr>vcb_state := vmRunning\<rparr>"

definition setSuspended :: "'c VmControlBlock \<Rightarrow> 'c VmControlBlock" where
  "setSuspended b = b\<lparr>vcb_state := vmSuspended\<rparr>"

definition block_isRunning :: "'c VmControlBlock \<Rightarrow> bool" where
  "block_isRunning b \<longleftrightarrow> vcb_state b = vmRunning"

definition block_isSuspended :: "'c VmControlBlock \<Rightarrow> bool" where
  "block_isSuspended b \<longleftrightarrow> vcb_state b = vmSuspended"

definition block_isFree :: "'c VmControlBlock \<Rightarrow> bool" where
  "block_isFree b \<longleftrightarrow> vcb_state b = vmIdle"

section \<open>The table\<close>

record 'c VmControlTable =
  globalToLocalVmIdMap :: "string \<rightharpoonup> int"
  localToGlobalVmIdMap :: "int \<rightharpoonup> string"
  vmTable :: "'c VmControlBlock list"
  numAppsPerVm :: nat

definition table_initialize :: "nat \<Rightarrow> nat \<Rightarrow> 'c VmControlTable" where
  "table_initialize numVMs numApps =
     \<lparr>globalToLocalVmIdMap = Map.empty, localToGlobalVmIdMap = Map.empty,
      vmTable = replicate numVMs (fresh_block\<lparr>apps := replicate numApps fresh_app\<rparr>),
      numAppsPerVm = numApps\<rparr>"

definition table_finish :: "'c VmControlTable \<Rightarrow> 'c VmControlTable" where
  "table_finish t = t\<lparr>vmTable := [], globalToLocalVmIdMap := Map.empty,
     localToGlobalVmIdMap := Map.empty\<rparr>"

definition vm_in_bounds :: "int \<Rightarrow> 'c VmControlTable \<Rightarrow> unit outcome" where
  "vm_in_bounds vmId t = require (0 \<le> vmId \<and> vmId < int (length (vmTable t)))
     (AssertFail ''Invalid vmId, out of bounds'')"

definition vm_block :: "int \<Rightarrow> 'c VmControlTable \<Rightarrow> 'c VmControlBlock" where
  "vm_block vmId t = vmTable t ! nat vmId"

definition set_block :: "int \<Rightarrow> 'c VmControlBlock \<Rightarrow> 'c VmControlTable \<Rightarrow> 'c VmControlTable" where
  "set_block vmId b t = t\<lparr>vmTable := (vmTable t)[nat vmId := b]\<rparr>"

definition allocateVm ::
  "VirtualMachine option \<Rightarrow> string \<Rightarrow> 'c VmControlTable \<Rightarrow> int \<times> 'c VmControlTable" where
  "allocateVm vmType userId t =
     (case first_index block_isFree (vmTable t) of
        Some i \<Rightarrow> (int i, set_block (int i)
          (setRunning (block_initialize (int i) vmType userId (numAppsPerVm t) (vmTable t ! i))) t)
      | None \<Rightarrow> (-1, t))"

definition allocateApp :: "int \<Rightarrow> int \<Rightarrow> 'c VmControlTable \<Rightarrow> (int \<times> 'c VmControlTable) outcome" where
  "allocateApp vmId index t =
     and_then (vm_in_bounds vmId t) (\<lambda>_.
     and_then (require (block_isRunning (vm_block vmId t)) (AssertFail ''Invalid vmId, not running''))
       (\<lambda>_. let b = vm_block vmId t
            in case first_index app_isFree (apps b) of
                 Some i \<Rightarrow> Inr (int i, set_block vmId
                   (b\<lparr>apps := (apps b)[i := app_initialize vmId (int i) index (apps b ! i)]\<rparr>) t)
               | None \<Rightarrow> Inr (-1, t)))"

definition deallocateVm :: "int \<Rightarrow> 'c VmControlTable \<Rightarrow> 'c VmControlTable outcome" where
  "deallocateVm vmId t =
     and_then (vm_in_bounds vmId t) (\<lambda>_.
     and_then (require (block_isFree (vm_block vmId t)) (AssertFail ''Invalid vmId, not free'')) (\<lambda>_.
       Inr (set_block vmId (block_free (vm_block vmId t)) t)))"

definition app_in_bounds :: "int \<Rightarrow> int \<Rightarrow> 'c VmControlTable \<Rightarrow> unit outcome" where
  "app_in_bounds vmId appId t =
     require (0 \<le> appId \<and> appId < int (length (apps (vm_block vmId t))))
       (AssertFail ''Invalid appId, out of bounds'')"

definition deallocateApp :: "int \<Rightarrow> int \<Rightarrow> 'c VmControlTable \<Rightarrow> 'c VmControlTable outcome" where
  "deallocateApp vmId appId t =
     and_then (vm_in_bounds vmId t) (\<lambda>_. and_then (app_in_bounds vmId appId t) (\<lambda>_.
       let b = vm_block vmId t
       in Inr (set_block vmId (b\<lparr>apps := (apps b)[nat appId := app_free (apps b ! nat appId)]\<rparr>) t)))"

definition suspendVm :: "int \<Rightarrow> 'c VmControlTable \<Rightarrow> 'c VmControlTable outcome" where
  "suspendVm vmId t =
     and_then (vm_in_bounds vmId t) (\<lambda>_.
     and_then (require (block_isRunning (vm_block vmId t)) (AssertFail ''Invalid vmId, not running''))
       (\<lambda>_. Inr (set_block vmId (setSuspended (vm_block vmId t)) t)))"

definition bufferCall :: "int \<Rightarrow> 'c \<Rightarrow> 'c VmControlTable \<Rightarrow> 'c VmControlTable outcome" where
  "bufferCall vmId msg t =
     and_then (vm_in_bounds vmId t) (\<lambda>_.
     and_then (require (block_isSuspended (vm_block vmId t))
         (AssertFail ''Invalid vmId, not suspended'')) (\<lambda>_.
       let b = vm_block vmId t
       in Inr (set_block vmId (b\<lparr>callBuffer := callBuffer b @ [msg]\<rparr>) t)))"

definition vmIsSuspended :: "int \<Rightarrow> 'c VmControlTable \<Rightarrow> bool outcome" where
  "vmIsSuspended vmId t =
     and_then (vm_in_bounds vmId t) (\<lambda>_. Inr (block_isSuspended (vm_block vmId t)))"

text \<open>\<open>resumeVm\<close> returns a reference to the machine's own buffer; its content is the result here.\<close>

definition resumeVm :: "int \<Rightarrow> 'c VmControlTable \<Rightarrow> ('c list \<times> 'c VmControlTable) outcome" where
  "resumeVm vmId t =
     and_then (vm_in_bounds vmId t) (\<lambda>_.
     and_then (require (block_isSuspended (vm_block vmId t))
         (AssertFail ''Invalid vmId, not suspended'')) (\<lambda>_.
       let b = setRunning (vm_block vmId t) in Inr (callBuffer b, set_block vmId b t)))"

definition createMapping :: "string \<Rightarrow> int \<Rightarrow> 'c VmControlTable \<Rightarrow> 'c VmControlTable outcome" where
  "createMapping globalVmId localVmId t =
     and_then (vm_in_bounds localVmId t) (\<lambda>_.
       Inr (t\<lparr>globalToLocalVmIdMap := (globalToLocalVmIdMap t)(globalVmId \<mapsto> localVmId),
              localToGlobalVmIdMap := (localToGlobalVmIdMap t)(localVmId \<mapsto> globalVmId)\<rparr>))"

definition getGlobalVmId :: "int \<Rightarrow> 'c VmControlTable \<Rightarrow> string outcome" where
  "getGlobalVmId localVmId t =
     (case localToGlobalVmIdMap t localVmId of Some g \<Rightarrow> Inr g | None \<Rightarrow> Inl OutOfRange)"

definition getLocalVmId :: "string \<Rightarrow> 'c VmControlTable \<Rightarrow> int outcome" where
  "getLocalVmId globalVmId t =
     (case globalToLocalVmIdMap t globalVmId of Some l \<Rightarrow> Inr l | None \<Rightarrow> Inl OutOfRange)"

definition getVmControlBlock :: "int \<Rightarrow> 'c VmControlTable \<Rightarrow> 'c VmControlBlock outcome" where
  "getVmControlBlock vmId t = and_then (vm_in_bounds vmId t) (\<lambda>_. Inr (vm_block vmId t))"

definition getAppControlBlock :: "int \<Rightarrow> int \<Rightarrow> 'c VmControlTable \<Rightarrow> AppControlBlock outcome" where
  "getAppControlBlock vmId appId t =
     and_then (vm_in_bounds vmId t) (\<lambda>_. and_then (app_in_bounds vmId appId t) (\<lambda>_.
       Inr (apps (vm_block vmId t) ! nat appId)))"

definition associateDeploymentToVm :: "int \<Rightarrow> SM_UserAPP \<Rightarrow> 'c VmControlTable \<Rightarrow> 'c VmControlTable outcome" where
  "associateDeploymentToVm vmId rq t =
     and_then (vm_in_bounds vmId t) (\<lambda>_.
       Inr (set_block vmId ((vm_block vmId t)\<lparr>request := To rq\<rparr>) t))"

definition getPidFromServiceName :: "int \<Rightarrow> string \<Rightarrow> 'c VmControlTable \<Rightarrow> int outcome" where
  "getPidFromServiceName vmId serviceName t =
     and_then (vm_in_bounds vmId t) (\<lambda>_.
       case request (vm_block vmId t) of
         To rq \<Rightarrow> Inr (findRequestIndex serviceName rq)
       | _ \<Rightarrow> Inl (Undefined ''invalid request pointer''))"

section \<open>Runs of operations\<close>

text \<open>The operations of the table that change it, as one type, and one step of each.\<close>

datatype 'c table_op =
    AllocateVm "VirtualMachine option" string
  | AllocateApp int int
  | DeallocateVm int
  | DeallocateApp int int
  | SuspendVm int
  | BufferCall int 'c
  | ResumeVm int
  | CreateMapping string int
  | Associate int SM_UserAPP

fun table_step :: "'c table_op \<Rightarrow> 'c VmControlTable \<Rightarrow> 'c VmControlTable outcome" where
  "table_step (AllocateVm ty u) t = Inr (snd (allocateVm ty u t))"
| "table_step (AllocateApp v d) t = and_then (allocateApp v d t) (\<lambda>r. Inr (snd r))"
| "table_step (DeallocateVm v) t = deallocateVm v t"
| "table_step (DeallocateApp v a) t = deallocateApp v a t"
| "table_step (SuspendVm v) t = suspendVm v t"
| "table_step (BufferCall v c) t = bufferCall v c t"
| "table_step (ResumeVm v) t = and_then (resumeVm v t) (\<lambda>r. Inr (snd r))"
| "table_step (CreateMapping g l) t = createMapping g l t"
| "table_step (Associate v rq) t = associateDeploymentToVm v rq t"

text \<open>A run; an operation whose assertion fails ends the simulation.\<close>

fun table_run :: "'c table_op list \<Rightarrow> 'c VmControlTable \<Rightarrow> 'c VmControlTable outcome" where
  "table_run [] t = Inr t"
| "table_run (x # xs) t = and_then (table_step x t) (table_run xs)"

lemma vm_in_bounds_eq [simp]:
  "vm_in_bounds v t = Inr u \<longleftrightarrow> 0 \<le> v \<and> v < int (length (vmTable t))"
  by (simp add: vm_in_bounds_def)

lemma app_in_bounds_eq [simp]:
  "app_in_bounds v a t = Inr u \<longleftrightarrow> 0 \<le> a \<and> a < int (length (apps (vm_block v t)))"
  by (simp add: app_in_bounds_def)

text \<open>No machine that is in use becomes idle.\<close>

definition keeps_busy :: "'c VmControlTable \<Rightarrow> 'c VmControlTable \<Rightarrow> bool" where
  "keeps_busy t t' \<longleftrightarrow> length (vmTable t') = length (vmTable t) \<and>
     (\<forall>i<length (vmTable t). vcb_state (vmTable t ! i) \<noteq> vmIdle \<longrightarrow> vcb_state (vmTable t' ! i) \<noteq> vmIdle)"

lemma keeps_busy_set_block:
  "0 \<le> v \<Longrightarrow> v < int (length (vmTable t)) \<Longrightarrow>
     (vcb_state (vm_block v t) \<noteq> vmIdle \<Longrightarrow> vcb_state b \<noteq> vmIdle) \<Longrightarrow>
     keeps_busy t (set_block v b t)"
  by (auto simp: keeps_busy_def set_block_def vm_block_def nth_list_update)

lemma keeps_busy_refl [simp]: "keeps_busy t t"
  by (simp add: keeps_busy_def)

lemma keeps_busy_trans: "keeps_busy a b \<Longrightarrow> keeps_busy b c \<Longrightarrow> keeps_busy a c"
  by (simp add: keeps_busy_def)

lemma allocateVm_keeps_busy: "keeps_busy t (snd (allocateVm ty u t))"
proof (cases "first_index block_isFree (vmTable t)")
  case None
  then show ?thesis by (simp add: allocateVm_def)
next
  case (Some i)
  then have "i < length (vmTable t)" by (rule first_index_less)
  then have "keeps_busy t (set_block (int i) (setRunning (block_initialize (int i) ty u
      (numAppsPerVm t) (vmTable t ! i))) t)"
    by (intro keeps_busy_set_block) (simp_all add: setRunning_def)
  then show ?thesis by (simp add: allocateVm_def Some)
qed

lemma allocateApp_keeps_busy:
  assumes "allocateApp v d t = Inr (pid, t')"
  shows "keeps_busy t t'"
proof (cases "first_index app_isFree (apps (vm_block v t))")
  case None
  with assms show ?thesis by (auto simp: allocateApp_def and_then_eq_Inr)
next
  case (Some i)
  with assms show ?thesis
    by (auto simp: allocateApp_def and_then_eq_Inr Let_def intro!: keeps_busy_set_block)
qed

lemma table_step_keeps_busy: "table_step x t = Inr t' \<Longrightarrow> keeps_busy t t'"
proof (cases x)
  case (AllocateVm ty u)
  then show "table_step x t = Inr t' \<Longrightarrow> keeps_busy t t'" using allocateVm_keeps_busy by auto
next
  case (AllocateApp v d)
  then show "table_step x t = Inr t' \<Longrightarrow> keeps_busy t t'"
    using allocateApp_keeps_busy by (fastforce simp: and_then_eq_Inr)
next
  case (CreateMapping g l)
  then show "table_step x t = Inr t' \<Longrightarrow> keeps_busy t t'"
    by (auto simp: createMapping_def and_then_eq_Inr keeps_busy_def)
qed (auto simp: and_then_eq_Inr deallocateVm_def deallocateApp_def suspendVm_def bufferCall_def
    resumeVm_def associateDeploymentToVm_def Let_def block_isFree_def setSuspended_def
    setRunning_def block_isSuspended_def intro!: keeps_busy_set_block)

lemma table_run_keeps_busy: "table_run xs t = Inr t' \<Longrightarrow> keeps_busy t t'"
  by (induction xs arbitrary: t)
    (auto simp: and_then_eq_Inr dest!: table_step_keeps_busy intro: keeps_busy_trans)

text \<open>Virtual machine slots are never given back: \<open>deallocateVm\<close> demands that the machine is idle,
  so releasing a machine that was just allocated fails its assertion, and whatever operations run
  in whatever order, no slot in use becomes free again.
\<close>

theorem vm_slots_never_released:
  assumes "allocateVm ty user t = (v, t1)" "v \<noteq> -1" "table_run xs t1 = Inr t2"
  shows "deallocateVm v t2 = Inl (AssertFail ''Invalid vmId, not free'') \<and>
    \<not> block_isFree (vm_block v t2)"
proof -
  obtain i where i: "first_index block_isFree (vmTable t) = Some i" "v = int i"
    using assms(1,2) by (auto simp: allocateVm_def split: option.splits)
  then have len: "i < length (vmTable t)" by (simp add: first_index_less)
  have t1: "length (vmTable t1) = length (vmTable t)" "vcb_state (vmTable t1 ! i) = vmRunning"
    using assms(1) i len by (auto simp: allocateVm_def set_block_def setRunning_def)
  have "keeps_busy t1 t2" by (rule table_run_keeps_busy [OF assms(3)])
  then have "vcb_state (vmTable t2 ! i) \<noteq> vmIdle" "length (vmTable t2) = length (vmTable t)"
    using t1 len by (auto simp: keeps_busy_def)
  then show ?thesis
    using i(2) len by (simp add: deallocateVm_def vm_in_bounds_def block_isFree_def vm_block_def)
qed

theorem vm_slots_never_released_witness:
  "deallocateVm 0 (snd (allocateVm None ''u'' (table_initialize 1 2 :: nat VmControlTable))) =
     Inl (AssertFail ''Invalid vmId, not free'')"
proof -
  let ?t = "table_initialize 1 2 :: nat VmControlTable"
  have "allocateVm None ''u'' ?t = (0, snd (allocateVm None ''u'' ?t))"
    by (simp add: allocateVm_def table_initialize_def fresh_block_def block_isFree_def)
  from vm_slots_never_released [OF this, of "[]"] show ?thesis by simp
qed

section \<open>Process identifiers\<close>

text \<open>A used application slot carries its own index as process id and its machine's id.\<close>

definition pids_ok :: "'c VmControlTable \<Rightarrow> bool" where
  "pids_ok t \<longleftrightarrow> (\<forall>i<length (vmTable t). \<forall>j<length (apps (vmTable t ! i)).
     acb_pid (apps (vmTable t ! i) ! j) = -1 \<or>
     acb_pid (apps (vmTable t ! i) ! j) = int j \<and> acb_vmId (apps (vmTable t ! i) ! j) = int i)"

definition block_pids_ok :: "nat \<Rightarrow> 'c VmControlBlock \<Rightarrow> bool" where
  "block_pids_ok i b \<longleftrightarrow> (\<forall>j<length (apps b). acb_pid (apps b ! j) = -1 \<or>
     acb_pid (apps b ! j) = int j \<and> acb_vmId (apps b ! j) = int i)"

lemma pids_ok_iff: "pids_ok t \<longleftrightarrow> (\<forall>i<length (vmTable t). block_pids_ok i (vmTable t ! i))"
  by (simp add: pids_ok_def block_pids_ok_def)

lemma pids_ok_set_block:
  "pids_ok t \<Longrightarrow> 0 \<le> v \<Longrightarrow> v < int (length (vmTable t)) \<Longrightarrow>
     (block_pids_ok (nat v) (vm_block v t) \<Longrightarrow> block_pids_ok (nat v) b) \<Longrightarrow>
     pids_ok (set_block v b t)"
  by (auto simp: pids_ok_iff set_block_def vm_block_def nth_list_update)

lemma block_pids_ok_simps [simp]:
  "block_pids_ok i (b\<lparr>vcb_state := s\<rparr>) = block_pids_ok i b"
  "block_pids_ok i (b\<lparr>callBuffer := c\<rparr>) = block_pids_ok i b"
  "block_pids_ok i (b\<lparr>request := r\<rparr>) = block_pids_ok i b"
  "block_pids_ok i (setRunning b) = block_pids_ok i b"
  "block_pids_ok i (setSuspended b) = block_pids_ok i b"
  by (simp_all add: block_pids_ok_def setRunning_def setSuspended_def)

lemma block_pids_ok_resize:
  "block_pids_ok i b \<Longrightarrow> block_pids_ok i (block_initialize k ty u n b)"
  by (auto simp: block_pids_ok_def block_initialize_def resize_to_def nth_append fresh_app_def)

lemma block_pids_ok_app:
  assumes "block_pids_ok i b"
    "acb_pid a = -1 \<or> acb_pid a = int j \<and> acb_vmId a = int i"
  shows "block_pids_ok i (b\<lparr>apps := (apps b)[j := a]\<rparr>)"
  unfolding block_pids_ok_def
proof (intro allI impI)
  fix k assume "k < length (apps (b\<lparr>apps := (apps b)[j := a]\<rparr>))"
  then show "acb_pid (apps (b\<lparr>apps := (apps b)[j := a]\<rparr>) ! k) = -1 \<or>
      acb_pid (apps (b\<lparr>apps := (apps b)[j := a]\<rparr>) ! k) = int k \<and>
      acb_vmId (apps (b\<lparr>apps := (apps b)[j := a]\<rparr>) ! k) = int i"
    using assms by (cases "k = j") (simp_all add: block_pids_ok_def)
qed

lemma table_step_pids_ok:
  assumes "pids_ok t" "table_step x t = Inr t'"
  shows "pids_ok t'"
proof (cases x)
  case (AllocateVm ty u)
  show ?thesis
  proof (cases "first_index block_isFree (vmTable t)")
    case None
    with assms AllocateVm show ?thesis by (simp add: allocateVm_def)
  next
    case (Some i)
    then have "i < length (vmTable t)" by (rule first_index_less)
    then show ?thesis
      using assms AllocateVm Some
      by (auto simp: allocateVm_def vm_block_def intro!: pids_ok_set_block block_pids_ok_resize)
  qed
next
  case (AllocateApp v d)
  show ?thesis
  proof (cases "first_index app_isFree (apps (vm_block v t))")
    case None
    with assms AllocateApp show ?thesis by (auto simp: allocateApp_def and_then_eq_Inr)
  next
    case (Some i)
    with assms AllocateApp show ?thesis
      by (auto simp: allocateApp_def and_then_eq_Inr Let_def app_initialize_def
          intro!: pids_ok_set_block block_pids_ok_app)
  qed
next
  case (DeallocateApp v a)
  with assms show ?thesis
    by (auto simp: deallocateApp_def and_then_eq_Inr Let_def app_free_def
        intro!: pids_ok_set_block block_pids_ok_app)
next
  case (CreateMapping g l)
  with assms show ?thesis by (auto simp: createMapping_def and_then_eq_Inr pids_ok_iff)
next
  case (DeallocateVm v)
  with assms show ?thesis
    by (auto simp: deallocateVm_def and_then_eq_Inr block_free_def block_pids_ok_def
        intro!: pids_ok_set_block)
qed (use assms in \<open>auto simp: and_then_eq_Inr suspendVm_def bufferCall_def resumeVm_def Let_def
    associateDeploymentToVm_def intro!: pids_ok_set_block\<close>)

lemma table_run_pids_ok: "pids_ok t \<Longrightarrow> table_run xs t = Inr t' \<Longrightarrow> pids_ok t'"
  by (induction xs arbitrary: t) (auto simp: and_then_eq_Inr dest: table_step_pids_ok)

text \<open>The table without its application slots: what an operation on one slot must leave alone.\<close>

definition without_apps :: "'c VmControlTable \<Rightarrow> 'c VmControlTable" where
  "without_apps t = t\<lparr>vmTable := map (\<lambda>b. b\<lparr>apps := []\<rparr>) (vmTable t)\<rparr>"

text \<open>One slot replaced: the table as a whole, and the slots one by one.\<close>

definition with_app :: "int \<Rightarrow> int \<Rightarrow> AppControlBlock \<Rightarrow> 'c VmControlTable \<Rightarrow> 'c VmControlTable" where
  "with_app v p a t = set_block v ((vm_block v t)\<lparr>apps := (apps (vm_block v t))[nat p := a]\<rparr>) t"

lemma without_apps_with_app: "without_apps (with_app v p a t) = without_apps t"
proof (cases "nat v < length (vmTable t)")
  case True
  then show ?thesis
    by (simp add: without_apps_def with_app_def set_block_def vm_block_def map_update
        list_update_same_conv)
next
  case False
  then show ?thesis by (simp add: without_apps_def with_app_def set_block_def list_update_beyond)
qed

lemma getAppControlBlock_with_app:
  assumes "0 \<le> v" "v < int (length (vmTable t))" "0 \<le> p" "p < int (length (apps (vm_block v t)))"
  shows "getAppControlBlock w k (with_app v p a t) =
    (if w = v \<and> k = p then Inr a else getAppControlBlock w k t)"
proof (cases "w = v")
  case True
  with assms show ?thesis
    by (auto simp: getAppControlBlock_def with_app_def set_block_def vm_block_def vm_in_bounds_def
        app_in_bounds_def require_def nth_list_update)
next
  case False
  show ?thesis
  proof (cases "0 \<le> w \<and> w < int (length (vmTable t))")
    case True
    with False assms have "nat w \<noteq> nat v" by auto
    then have "vm_block w (with_app v p a t) = vm_block w t"
      by (simp add: with_app_def set_block_def vm_block_def)
    with False show ?thesis
      by (simp add: getAppControlBlock_def vm_in_bounds_def app_in_bounds_def)
        (simp add: with_app_def set_block_def)
  next
    case outside: False
    have len: "length (vmTable (with_app v p a t)) = length (vmTable t)"
      by (simp add: with_app_def set_block_def)
    have "vm_in_bounds w (with_app v p a t) = vm_in_bounds w t"
      by (simp add: vm_in_bounds_def len)
    moreover have "vm_in_bounds w t = Inl (AssertFail ''Invalid vmId, out of bounds'')"
      using outside by (simp add: vm_in_bounds_def require_def)
    ultimately show ?thesis using False by (simp add: getAppControlBlock_def)
  qed
qed

text \<open>C9.  Process identifiers are sound: after any run of operations from the initial table, an
  application that is allocated on a running machine gets a slot of that machine that was free,
  the lowest one; its process id is the number of the slot and no other application of the machine
  has it.  Every other slot of every machine, and everything else in the table, is left as it was.
  Releasing the application makes the slot free again and again changes nothing else.
\<close>

theorem pid_allocation_sound:
  assumes "table_run xs (table_initialize numVMs numApps) = Inr t"
    and "allocateApp v d t = Inr (pid, t')" "pid \<noteq> -1"
  shows "(case getAppControlBlock v pid t of Inl _ \<Rightarrow> False | Inr a \<Rightarrow> app_isFree a) \<and>
    list_all (\<lambda>a. \<not> app_isFree a) (take (nat pid) (apps (vm_block v t))) \<and>
    (\<forall>w k. getAppControlBlock w k t' =
       (if w = v \<and> k = pid then Inr \<lparr>acb_pid = pid, acb_vmId = v, deploymentIndex = d\<rparr>
        else getAppControlBlock w k t)) \<and>
    without_apps t' = without_apps t \<and>
    list_all (\<lambda>j. acb_pid (apps (vm_block v t') ! j) = pid \<longleftrightarrow> int j = pid)
      [0..<length (apps (vm_block v t'))] \<and>
    (case deallocateApp v pid t' of
       Inl _ \<Rightarrow> False
     | Inr t'' \<Rightarrow> app_isFree (apps (vm_block v t'') ! nat pid) \<and> without_apps t'' = without_apps t \<and>
         (\<forall>w k. (w, k) = (v, pid) \<or> getAppControlBlock w k t'' = getAppControlBlock w k t))"
proof -
  have init: "pids_ok (table_initialize numVMs numApps :: 'a VmControlTable)"
    by (simp add: pids_ok_def table_initialize_def fresh_app_def)
  have ok: "pids_ok t" by (rule table_run_pids_ok [OF init assms(1)])
  have ok': "pids_ok t'"
    using table_step_pids_ok [OF ok, of "AllocateApp v d"] assms(2) by simp
  let ?b = "vm_block v t" and ?a = "\<lparr>acb_pid = pid, acb_vmId = v, deploymentIndex = d\<rparr>"
  from assms(2,3) obtain i where i: "first_index app_isFree (apps ?b) = Some i" "pid = int i"
    and v: "0 \<le> v" "v < int (length (vmTable t))"
    and t'0: "t' = set_block v (?b\<lparr>apps := (apps ?b)[i := app_initialize v (int i) d (apps ?b ! i)]\<rparr>) t"
    by (auto simp: allocateApp_def and_then_eq_Inr Let_def split: option.splits)
  have len: "i < length (apps ?b)" and free: "app_isFree (apps ?b ! i)"
    using i(1) by (auto simp: first_index_Some)
  have t': "t' = with_app v pid ?a t"
    by (cases "apps ?b ! i") (simp add: t'0 with_app_def i(2) app_initialize_def)
  have blk: "vm_block v t' = ?b\<lparr>apps := (apps ?b)[i := ?a]\<rparr>"
    and tl: "length (vmTable t') = length (vmTable t)"
    using v i(2) by (simp_all add: t' with_app_def vm_block_def set_block_def)
  have p: "0 \<le> pid" "pid < int (length (apps ?b))" using i(2) len by simp_all
  have p': "pid < int (length (apps (vm_block v t')))" using p by (simp add: blk)
  note get = getAppControlBlock_with_app [OF v p]
  have "block_pids_ok (nat v) (vm_block v t')"
    using ok' v tl by (simp add: pids_ok_iff vm_block_def)
  then have uniq: "list_all (\<lambda>j. acb_pid (apps (vm_block v t') ! j) = pid \<longleftrightarrow> int j = pid)
      [0..<length (apps (vm_block v t'))]"
    using i(2) len by (auto simp: list_all_iff block_pids_ok_def blk)
  have low: "list_all (\<lambda>a. \<not> app_isFree a) (take (nat pid) (apps ?b))"
    using i len by (auto simp: list_all_length first_index_Some)
  have was: "case getAppControlBlock v pid t of Inl _ \<Rightarrow> False | Inr a \<Rightarrow> app_isFree a"
    using v p free i(2) by (simp add: getAppControlBlock_def vm_in_bounds_def app_in_bounds_def)
  have slots: "\<forall>w k. getAppControlBlock w k t' =
      (if w = v \<and> k = pid then Inr ?a else getAppControlBlock w k t)"
    by (simp add: t' get)
  have rest: "without_apps t' = without_apps t" by (simp add: t' without_apps_with_app)
  have "deallocateApp v pid t' = Inr (with_app v pid (app_free (apps (vm_block v t') ! nat pid)) t')"
    using v p(1) p' tl
    by (simp add: deallocateApp_def vm_in_bounds_def app_in_bounds_def with_app_def Let_def)
  moreover have "(w, k) = (v, pid) \<or>
      getAppControlBlock w k (with_app v pid x t') = getAppControlBlock w k t" for w k x
    using getAppControlBlock_with_app [of v t' pid w k x] v tl p(1) p' slots by auto
  moreover have "app_isFree (apps (vm_block v (with_app v pid (app_free x) t')) ! nat pid)" for x
    using v tl p(1) p'
    by (simp add: with_app_def vm_block_def set_block_def app_isFree_def app_free_def nat_less_iff)
  ultimately have "case deallocateApp v pid t' of Inl _ \<Rightarrow> False
     | Inr t'' \<Rightarrow> app_isFree (apps (vm_block v t'') ! nat pid) \<and> without_apps t'' = without_apps t \<and>
         (\<forall>w k. (w, k) = (v, pid) \<or> getAppControlBlock w k t'' = getAppControlBlock w k t)"
    by (simp add: without_apps_with_app rest)
  with uniq low was slots rest show ?thesis by blast
qed

theorem pid_allocation_sound_witness:
  "\<exists>t'. allocateApp 0 7 (snd (allocateVm None ''u'' (table_initialize 1 2 :: nat VmControlTable))) =
     Inr (0, t') \<and> getAppControlBlock 0 0 t' = Inr \<lparr>acb_pid = 0, acb_vmId = 0, deploymentIndex = 7\<rparr>"
proof -
  let ?t = "snd (allocateVm None ''u'' (table_initialize 1 2 :: nat VmControlTable))"
  have run: "table_run [AllocateVm None ''u''] (table_initialize 1 2 :: nat VmControlTable) = Inr ?t"
    by simp
  obtain t' where "allocateApp 0 7 ?t = Inr (0, t')"
    by (simp add: allocateApp_def vm_in_bounds_def allocateVm_def table_initialize_def
        fresh_block_def block_isFree_def block_isRunning_def vm_block_def set_block_def
        setRunning_def block_initialize_def resize_to_def fresh_app_def app_isFree_def
        numeral_2_eq_2)
  with pid_allocation_sound [OF run this] show ?thesis by simp
qed

section \<open>Suspension\<close>

fun buffer_calls :: "int \<Rightarrow> 'c list \<Rightarrow> 'c VmControlTable \<Rightarrow> 'c VmControlTable outcome" where
  "buffer_calls v [] t = Inr t"
| "buffer_calls v (c # cs) t = and_then (bufferCall v c t) (buffer_calls v cs)"

lemma buffer_calls_spec:
  assumes "0 \<le> v" "v < int (length (vmTable t))" "block_isSuspended (vm_block v t)"
  shows "buffer_calls v cs t =
     Inr (set_block v ((vm_block v t)\<lparr>callBuffer := callBuffer (vm_block v t) @ cs\<rparr>) t)"
  using assms
proof (induction cs arbitrary: t)
  case Nil
  then show ?case by (simp add: set_block_def vm_block_def)
next
  case (Cons c cs)
  let ?t = "set_block v ((vm_block v t)\<lparr>callBuffer := callBuffer (vm_block v t) @ [c]\<rparr>) t"
  have "bufferCall v c t = Inr ?t"
    using Cons.prems by (simp add: bufferCall_def vm_in_bounds_def Let_def)
  moreover have "buffer_calls v cs ?t = Inr (set_block v ((vm_block v ?t)\<lparr>callBuffer :=
      callBuffer (vm_block v ?t) @ cs\<rparr>) ?t)"
    using Cons.prems by (intro Cons.IH) (auto simp: set_block_def vm_block_def block_isSuspended_def)
  ultimately show ?case using Cons.prems by (simp add: set_block_def vm_block_def)
qed

end
