(* ===== verification/Hypervisor.thy ===== *)
theory Hypervisor
  imports ControlTable CpuSched Hardware
begin

text \<open>
  The hypervisor (\<open>os/hypervisors/Hypervisor\<close>): it creates virtual machines and applications, routes
  the system calls of the applications to the processor, the disk and back, and holds the calls of
  a suspended machine back.  The hardware manager is used through its two operations, which are
  arguments here; the data manager's look-ups are partial maps.  What the hypervisor sends, and the
  application modules it builds and deletes, are collected in order.
\<close>

section \<open>System calls\<close>

record DiskSyscall = Syscall +
  bufferSize :: rat
  abortIOs :: bool

text \<open>The classes a system call object can have, and what the base class shows of it.\<close>

datatype any_call = CpuCall SM_CPU_Message | DiskCall DiskSyscall | PlainCall Syscall

fun call_base :: "any_call \<Rightarrow> Syscall" where
  "call_base (CpuCall m) = Syscall.truncate m"
| "call_base (DiskCall m) = Syscall.truncate m"
| "call_base (PlainCall m) = m"

fun mark_response :: "any_call \<Rightarrow> any_call" where
  "mark_response (CpuCall m) = CpuCall (m\<lparr>isResponse := True\<rparr>)"
| "mark_response (DiskCall m) = DiskCall (m\<lparr>isResponse := True\<rparr>)"
| "mark_response (PlainCall m) = PlainCall (m\<lparr>isResponse := True\<rparr>)"

definition SYS_READ :: u16 where "SYS_READ = 0"
definition SYS_WRITE :: u16 where "SYS_WRITE = 1"
definition SYS_EXIT :: u16 where "SYS_EXIT = 9"
definition SYS_ABORT :: u16 where "SYS_ABORT = 10"

definition SM_APP_Res_Accept :: int where "SM_APP_Res_Accept = 10005"

record SM_VmExtend =
  ve_vmId :: string
  ve_userId :: string
  ve_accepted :: bool
  ve_extensionTime :: int
  ve_hypervisorUrl :: string
  ve_isResponse :: bool
  ve_result :: int
  ve_destinationTopic :: string
  ve_returnTopic :: string

definition new_VmExtend :: SM_VmExtend where
  "new_VmExtend = \<lparr>ve_vmId = [], ve_userId = [], ve_accepted = False, ve_extensionTime = 0, ve_hypervisorUrl = [],
     ve_isResponse = False, ve_result = SM_UnsetValue, ve_destinationTopic = [], ve_returnTopic = []\<rparr>"

record SM_AppSettings =
  as_vmId :: string
  as_appName :: string
  as_parameters :: "(string \<times> string) list"

text \<open>A message after decapsulation: one of the four commands or a system call.\<close>

datatype hyp_message =
    AppReq SM_UserAPP | VmReq SM_UserVM | Extension SM_VmExtend | Settings SM_AppSettings
  | Call any_call

section \<open>State\<close>

datatype hyp_out =
    ToScheduler int any_call
  | ToDisk any_call
  | ToApp int any_call
  | Event SM_UserAPP
  | BuildApp int int string string   \<comment> \<open>machine, process, type and name of the application\<close>
  | DeleteApp int int
  | SetParam int int string string

record 'h Hypervisor =
  hyp_table :: "any_call VmControlTable"
  hyp_hw :: 'h
  hyp_schedulers :: "CpuSchedulerRR list"
  hyp_isVirtual :: bool
  hyp_out :: "hyp_out list"

definition emit_out :: "hyp_out \<Rightarrow> 'h Hypervisor \<Rightarrow> 'h Hypervisor" where
  "emit_out x s = s\<lparr>hyp_out := hyp_out s @ [x]\<rparr>"

text \<open>Run an operation of the control table.\<close>

definition on_table ::
  "(any_call VmControlTable \<Rightarrow> any_call VmControlTable outcome) \<Rightarrow> 'h Hypervisor \<Rightarrow> 'h Hypervisor outcome" where
  "on_table f s = and_then (f (hyp_table s)) (\<lambda>t. Inr (s\<lparr>hyp_table := t\<rparr>))"

section \<open>Applications\<close>

fun start_apps ::
  "(string \<Rightarrow> 'a option) \<Rightarrow> int \<Rightarrow> nat \<Rightarrow> AppRequest list \<Rightarrow> 'h Hypervisor \<Rightarrow> 'h Hypervisor outcome" where
  "start_apps searchApp localVmId i [] s = Inr s"
| "start_apps searchApp localVmId i (ap # as) s =
     (case searchApp (app_type ap) of
        None \<Rightarrow> Inl (RuntimeError ''Error while querying the application type'')
      | Some schema \<Rightarrow>
          and_then (allocateApp localVmId (int i) (hyp_table s)) (\<lambda>(newPid, t).
            start_apps searchApp localVmId (Suc i) as
              (emit_out (BuildApp localVmId newPid (app_type ap) (app_name ap))
                (s\<lparr>hyp_table := t\<rparr>))))"

definition handleAppRequest ::
  "(string \<Rightarrow> 'a option) \<Rightarrow> SM_UserAPP \<Rightarrow> 'h Hypervisor \<Rightarrow> 'h Hypervisor outcome" where
  "handleAppRequest searchApp sm s =
     and_then (getLocalVmId (ua_vmId sm) (hyp_table s)) (\<lambda>localVmId.
     and_then (on_table (associateDeploymentToVm localVmId sm) s)
       (start_apps searchApp localVmId 0 (ua_app sm)))"

definition handleAppTermination ::
  "rat \<Rightarrow> int \<Rightarrow> int \<Rightarrow> u8 \<Rightarrow> 'h Hypervisor \<Rightarrow> 'h Hypervisor outcome" where
  "handleAppTermination now p v exitStatus s =
     and_then (getVmControlBlock v (hyp_table s)) (\<lambda>vmControl.
     and_then (getAppControlBlock v p (hyp_table s)) (\<lambda>app.
     and_then (on_table (deallocateApp v p) s) (\<lambda>s1.
       let s2 = emit_out (DeleteApp v p) s1
       in case request vmControl of
            To userRequest \<Rightarrow>
              and_then (changeStateByIndex now (deploymentIndex app) exitStatus userRequest) (\<lambda>rq.
              and_then (on_table (associateDeploymentToVm v rq) s2) (\<lambda>s3.
                if allAppsFinished rq
                then and_then (getGlobalVmId v (hyp_table s3)) (\<lambda>gid.
                       Inr (emit_out (Event (rq\<lparr>ua_destinationTopic := ua_returnTopic rq,
                         ua_result := SM_APP_Res_Accept, ua_vmId := gid, ua_isResponse := True\<rparr>)) s3))
                else Inr s3))
          | _ \<Rightarrow> Inl (Undefined ''invalid request pointer''))))"

definition handleAppSettings :: "SM_AppSettings \<Rightarrow> 'h Hypervisor \<Rightarrow> 'h Hypervisor outcome" where
  "handleAppSettings settings s =
     and_then (getLocalVmId (as_vmId settings) (hyp_table s)) (\<lambda>vmId.
     and_then (getPidFromServiceName vmId (as_appName settings) (hyp_table s)) (\<lambda>pid.
       Inr (fold (\<lambda>(name, value). emit_out (SetParam vmId pid name value)) (as_parameters settings) s)))"

section \<open>Virtual machines\<close>

definition start_vm ::
  "(VirtualMachine \<Rightarrow> 'h \<Rightarrow> (nat list option \<times> 'h) outcome) \<Rightarrow> (string \<Rightarrow> VirtualMachine option) \<Rightarrow>
   string \<Rightarrow> VM_Request \<Rightarrow> 'h Hypervisor \<Rightarrow> 'h Hypervisor outcome" where
  "start_vm tryAllocate searchVm userId vm s =
     (case searchVm (rq_vmType vm) of
        None \<Rightarrow> Inl (Undefined ''null template'')
      | Some vmTemplate \<Rightarrow>
          and_then (tryAllocate vmTemplate (hyp_hw s)) (\<lambda>(res, hw).
          case res of
            None \<Rightarrow> Inl (RuntimeError ''Unexpected failure on allocating vm resources'')
          | Some coreIx \<Rightarrow>
              let (vmId, t) = allocateVm (Some vmTemplate) userId (hyp_table s)
              in and_then (createMapping (rq_vmId vm) vmId t) (\<lambda>t'.
                   if nat vmId < length (hyp_schedulers s)
                   then and_then (setManagedCpuCores (unat (vm_numCores vmTemplate))
                            (hyp_schedulers s ! nat vmId)) (\<lambda>sch.
                        and_then (setIsRunning True (setCpuCoreIndex (Some (map of_nat coreIx)) sch))
                          (\<lambda>sch'. Inr (s\<lparr>hyp_table := t', hyp_hw := hw,
                             hyp_schedulers := (hyp_schedulers s)[nat vmId := sch']\<rparr>)))
                   else Inl OutOfRange)))"

fun start_vms ::
  "(VirtualMachine \<Rightarrow> 'h \<Rightarrow> (nat list option \<times> 'h) outcome) \<Rightarrow> (string \<Rightarrow> VirtualMachine option) \<Rightarrow>
   string \<Rightarrow> VM_Request list \<Rightarrow> 'h Hypervisor \<Rightarrow> 'h Hypervisor outcome" where
  "start_vms tryAllocate searchVm userId [] s = Inr s"
| "start_vms tryAllocate searchVm userId (vm # vms) s =
     and_then (start_vm tryAllocate searchVm userId vm s) (start_vms tryAllocate searchVm userId vms)"

definition handleVmRequest ::
  "(VirtualMachine \<Rightarrow> 'h \<Rightarrow> (nat list option \<times> 'h) outcome) \<Rightarrow> (string \<Rightarrow> VirtualMachine option) \<Rightarrow>
   SM_UserVM \<Rightarrow> 'h Hypervisor \<Rightarrow> 'h Hypervisor outcome" where
  "handleVmRequest tryAllocate searchVm rq s =
     (if \<not> hyp_isVirtual s
      then Inl (RuntimeError ''Only virtual hardware is supported for vm requests!'')
      else start_vms tryAllocate searchVm (uv_userId rq) (uv_vm rq) s)"

text \<open>The loop over the applications reads each entry when it gets to it.\<close>

fun terminate_apps :: "rat \<Rightarrow> int \<Rightarrow> nat list \<Rightarrow> 'h Hypervisor \<Rightarrow> 'h Hypervisor outcome" where
  "terminate_apps now v [] s = Inr s"
| "terminate_apps now v (i # is) s =
     (let app = apps (vm_block v (hyp_table s)) ! i
      in and_then (handleAppTermination now (acb_pid app) (acb_vmId app) appFinishedTimeout s)
           (terminate_apps now v is))"

definition abort_disk :: "int \<Rightarrow> DiskSyscall" where
  "abort_disk v = SIMCAN_Message.extend ((new_SIMCAN_Message [])\<lparr>operation := SM_Syscall_Req\<rparr>)
     \<lparr>pid = 0, vmId = v, opCode = 0, bufferSize = 0, abortIOs = True\<rparr>"

definition deallocateVmResources ::
  "(VirtualMachine \<Rightarrow> nat list \<Rightarrow> 'h \<Rightarrow> 'h outcome) \<Rightarrow> rat \<Rightarrow> int \<Rightarrow> 'h Hypervisor \<Rightarrow> 'h Hypervisor outcome" where
  "deallocateVmResources deallocate now v s =
     and_then (getVmControlBlock v (hyp_table s)) (\<lambda>block.
     and_then (terminate_apps now v [0..<length (apps block)] s) (\<lambda>s1.
     and_then (on_table (deallocateVm v) s1) (\<lambda>s2.
       if hyp_isVirtual s2 then
         (case vcb_vmType (vm_block v (hyp_table s2)) of
            None \<Rightarrow> Inl (Undefined ''null template'')
          | Some ty \<Rightarrow>
              if nat v < length (hyp_schedulers s2) then
                (let sch = hyp_schedulers s2 ! nat v
                 in and_then (deallocate ty (map unat (case cpuCoreIndex sch of Some ix \<Rightarrow> ix | None \<Rightarrow> []))
                       (hyp_hw s2)) (\<lambda>hw.
                    and_then (setIsRunning False sch) (\<lambda>sch'.
                      Inr (emit_out (ToDisk (DiskCall (abort_disk v))) (s2\<lparr>hyp_hw := hw,
                        hyp_schedulers := (hyp_schedulers s2)[nat v := sch']\<rparr>)))))
              else Inl OutOfRange)
       else Inr s2)))"

section \<open>System calls\<close>

definition processSyscallStart :: "rat \<Rightarrow> any_call \<Rightarrow> 'h Hypervisor \<Rightarrow> 'h Hypervisor outcome" where
  "processSyscallStart now rq s =
     (let b = call_base rq
      in and_then (vmIsSuspended (vmId b) (hyp_table s)) (\<lambda>suspended.
           if suspended then on_table (bufferCall (vmId b) rq) s
           else if opCode b = SYS_EXEC then Inr (emit_out (ToScheduler (vmId b) rq) s)
           else if opCode b = SYS_READ \<or> opCode b = SYS_WRITE then Inr (emit_out (ToDisk rq) s)
           else if opCode b = SYS_EXIT \<or> opCode b = SYS_ABORT
           then handleAppTermination now (pid b) (vmId b)
                  (if opCode b = SYS_EXIT then appFinishedOK else appFinishedError) s
           else Inl (RuntimeError ''Undefined system call operation code'')))"

definition sendOrBufferToApp :: "any_call \<Rightarrow> 'h Hypervisor \<Rightarrow> 'h Hypervisor outcome" where
  "sendOrBufferToApp syscall s =
     (let v = vmId (call_base syscall)
      in and_then (vmIsSuspended v (hyp_table s)) (\<lambda>suspended.
           if suspended then on_table (bufferCall v syscall) s
           else Inr (emit_out (ToApp v syscall) s)))"

definition processSyscallEnd :: "any_call \<Rightarrow> 'h Hypervisor \<Rightarrow> 'h Hypervisor outcome" where
  "processSyscallEnd response s =
     (if operation (call_base response) = SM_ExecCpu then
        (case response of
           CpuCall cpuRequest \<Rightarrow>
             if \<not> isCompleted cpuRequest then Inr s
             else sendOrBufferToApp (mark_response response) s
         | _ \<Rightarrow> Inl (RuntimeError ''check_and_cast''))
      else sendOrBufferToApp (mark_response response) s)"

text \<open>
  \<open>while (callBuffer.isEmpty()) callBuffer.pop()\<close>: a loop that starts when nothing is buffered, and
  taking from an empty queue is an error.
\<close>

definition resume_loop :: "any_call list \<Rightarrow> 'h Hypervisor \<Rightarrow> 'h Hypervisor outcome" where
  "resume_loop buffered s =
     (if buffered = [] then Inl (RuntimeError ''pop(): queue empty'') else Inr s)"

definition handleVmExtension ::
  "(VirtualMachine \<Rightarrow> nat list \<Rightarrow> 'h \<Rightarrow> 'h outcome) \<Rightarrow> rat \<Rightarrow> SM_VmExtend \<Rightarrow> 'h Hypervisor \<Rightarrow>
     'h Hypervisor outcome" where
  "handleVmExtension deallocate now sm s =
     and_then (getLocalVmId (ve_vmId sm) (hyp_table s)) (\<lambda>v.
       if ve_accepted sm
       then and_then (resumeVm v (hyp_table s)) (\<lambda>(buffered, t).
              resume_loop buffered (s\<lparr>hyp_table := t\<rparr>))
       else deallocateVmResources deallocate now v s)"

text \<open>\<open>handleMessage\<close> and \<open>processCommand\<close>\<close>

definition hyp_handleMessage ::
  "(VirtualMachine \<Rightarrow> 'h \<Rightarrow> (nat list option \<times> 'h) outcome) \<Rightarrow>
   (VirtualMachine \<Rightarrow> nat list \<Rightarrow> 'h \<Rightarrow> 'h outcome) \<Rightarrow> (string \<Rightarrow> VirtualMachine option) \<Rightarrow>
   (string \<Rightarrow> 'a option) \<Rightarrow> rat \<Rightarrow> hyp_message \<Rightarrow> 'h Hypervisor \<Rightarrow> 'h Hypervisor outcome" where
  "hyp_handleMessage tryAllocate deallocate searchVm searchApp now msg s =
     (case msg of
        AppReq sm \<Rightarrow> handleAppRequest searchApp sm s
      | VmReq sm \<Rightarrow> handleVmRequest tryAllocate searchVm sm s
      | Extension sm \<Rightarrow> handleVmExtension deallocate now sm s
      | Settings sm \<Rightarrow> handleAppSettings sm s
      | Call c \<Rightarrow> if isResponse (call_base c) then processSyscallEnd c s
                  else processSyscallStart now c s)"

text \<open>A machine's time is over: it is suspended and its owner is asked for an extension.\<close>

definition dc_handleVmTimeout :: "int \<Rightarrow> 'h Hypervisor \<Rightarrow> (SM_VmExtend \<times> 'h Hypervisor) outcome" where
  "dc_handleVmTimeout v s =
     (let b = setSuspended (vm_block v (hyp_table s));
          s' = s\<lparr>hyp_table := set_block v b (hyp_table s)\<rparr>
      in and_then (getGlobalVmId (vcb_vmId b) (hyp_table s')) (\<lambda>g.
           Inr (new_VmExtend\<lparr>ve_vmId := g, ve_userId := vcb_userId b, ve_isResponse := False\<rparr>, s')))"

text \<open>An edge node has one machine, allocated at the start under the name of the host.\<close>

definition edge_start :: "string \<Rightarrow> 'h Hypervisor \<Rightarrow> 'h Hypervisor outcome" where
  "edge_start hostName s =
     (let (v, t) = allocateVm None [] (hyp_table s)
      in and_then (createMapping hostName v t) (\<lambda>t'. Inr (s\<lparr>hyp_table := t'\<rparr>)))"

section \<open>Calls of a suspended machine\<close>

definition is_progress :: "any_call \<Rightarrow> bool" where
  "is_progress c \<longleftrightarrow> isResponse (call_base c) \<and> operation (call_base c) = SM_ExecCpu \<and>
     (case c of CpuCall m \<Rightarrow> \<not> isCompleted m | _ \<Rightarrow> False)"

definition well_typed_call :: "any_call \<Rightarrow> bool" where
  "well_typed_call c \<longleftrightarrow> isResponse (call_base c) \<longrightarrow> operation (call_base c) = SM_ExecCpu \<longrightarrow>
     (case c of CpuCall m \<Rightarrow> True | _ \<Rightarrow> False)"

definition held :: "any_call \<Rightarrow> any_call" where
  "held c = (if isResponse (call_base c) then mark_response c else c)"

definition handle_call :: "rat \<Rightarrow> any_call \<Rightarrow> 'h Hypervisor \<Rightarrow> 'h Hypervisor outcome" where
  "handle_call now c s =
     (if isResponse (call_base c) then processSyscallEnd c s else processSyscallStart now c s)"

fun handle_calls :: "rat \<Rightarrow> any_call list \<Rightarrow> 'h Hypervisor \<Rightarrow> 'h Hypervisor outcome" where
  "handle_calls now [] s = Inr s"
| "handle_calls now (c # cs) s = and_then (handle_call now c s) (handle_calls now cs)"

lemma call_base_simps [simp]:
  "vmId (call_base (mark_response c)) = vmId (call_base c)"
  "operation (call_base (mark_response c)) = operation (call_base c)"
  by (cases c; simp add: Syscall.defs)+

lemma bufferCall_suspended:
  assumes "0 \<le> v" "v < int (length (vmTable t))" "block_isSuspended (vm_block v t)"
  shows "bufferCall v c t = Inr (set_block v ((vm_block v t)\<lparr>callBuffer :=
     callBuffer (vm_block v t) @ [c]\<rparr>) t)"
  using buffer_calls_spec [OF assms, of "[c]"] by (cases "bufferCall v c t") simp_all

lemma handle_call_suspended:
  assumes "0 \<le> v" "v < int (length (vmTable (hyp_table s)))"
    "block_isSuspended (vm_block v (hyp_table s))" "vmId (call_base c) = v" "well_typed_call c"
  shows "handle_call now c s = (if is_progress c then Inr s
     else on_table (buffer_calls v [held c]) s)"
proof -
  have sus: "vmIsSuspended v (hyp_table s) = Inr True"
    using assms(1-3) by (simp add: vmIsSuspended_def vm_in_bounds_def)
  have one: "buffer_calls v [x] = bufferCall v x" for x :: any_call
  proof
    fix t show "buffer_calls v [x] t = bufferCall v x t" by (cases "bufferCall v x t") simp_all
  qed
  show ?thesis
  proof (cases "isResponse (call_base c)")
    case False
    then show ?thesis
      using assms(4) sus
      by (simp add: handle_call_def processSyscallStart_def Let_def is_progress_def held_def one
          del: buffer_calls.simps)
  next
    case True
    have "sendOrBufferToApp (mark_response c) s = on_table (bufferCall v (mark_response c)) s"
      using assms(4) sus by (simp add: sendOrBufferToApp_def Let_def)
    with True assms(5) show ?thesis
      by (auto simp: handle_call_def processSyscallEnd_def is_progress_def well_typed_call_def
          held_def one simp del: buffer_calls.simps split: any_call.splits)
  qed
qed

text \<open>C10.  While a machine is suspended nothing of it moves: any sequence of system calls and answers
  for it is buffered in the order it came, answers marked as such; only the progress reports
  of unfinished computations are dropped, and nothing is sent.
\<close>

theorem suspended_calls_are_held:
  assumes "0 \<le> v" "v < int (length (vmTable (hyp_table s)))"
    "block_isSuspended (vm_block v (hyp_table s))"
    "\<forall>c\<in>set cs. vmId (call_base c) = v \<and> well_typed_call c"
  shows "handle_calls now cs s = Inr (s\<lparr>hyp_table := set_block v ((vm_block v (hyp_table s))
     \<lparr>callBuffer := callBuffer (vm_block v (hyp_table s)) @
        map held (filter (\<lambda>c. \<not> is_progress c) cs)\<rparr>) (hyp_table s)\<rparr>)"
  using assms
proof (induction cs arbitrary: s)
  case Nil
  then show ?case by (simp add: set_block_def vm_block_def)
next
  case (Cons c cs)
  let ?b = "vm_block v (hyp_table s)"
  note hc = handle_call_suspended [OF Cons.prems(1-3), of c now]
  show ?case
  proof (cases "is_progress c")
    case True
    with hc Cons.prems(4) Cons.IH [OF Cons.prems(1-3)] show ?thesis by simp
  next
    case False
    let ?s = "s\<lparr>hyp_table := set_block v (?b\<lparr>callBuffer := callBuffer ?b @ [held c]\<rparr>) (hyp_table s)\<rparr>"
    have "handle_call now c s = Inr ?s"
      using hc Cons.prems(4) False buffer_calls_spec [OF Cons.prems(1-3), of "[held c]"]
      by (simp add: on_table_def del: buffer_calls.simps)
    moreover have b: "vm_block v (hyp_table ?s) = ?b\<lparr>callBuffer := callBuffer ?b @ [held c]\<rparr>"
      using Cons.prems(1,2) by (simp add: vm_block_def set_block_def)
    have "handle_calls now cs ?s = Inr (?s\<lparr>hyp_table := set_block v ((vm_block v (hyp_table ?s))
     \<lparr>callBuffer := callBuffer (vm_block v (hyp_table ?s)) @
        map held (filter (\<lambda>c. \<not> is_progress c) cs)\<rparr>) (hyp_table ?s)\<rparr>)"
    proof (rule Cons.IH)
      show "block_isSuspended (vm_block v (hyp_table ?s))"
        unfolding b using Cons.prems(3) by (simp add: block_isSuspended_def)
    qed (use Cons.prems in \<open>auto simp: set_block_def\<close>)
    ultimately show ?thesis using False unfolding b by (simp add: set_block_def)
  qed
qed

section \<open>Extending a suspended machine\<close>

lemma on_table_Inr: "on_table f s = Inr s' \<longleftrightarrow> (\<exists>t. f (hyp_table s) = Inr t \<and> s' = s\<lparr>hyp_table := t\<rparr>)"
  by (auto simp: on_table_def and_then_eq_Inr)

lemma handleAppTermination_keeps_busy:
  assumes "handleAppTermination now p v st s = Inr s'"
  shows "keeps_busy (hyp_table s) (hyp_table s')"
proof -
  from assms obtain s1 where s1: "on_table (deallocateApp v p) s = Inr s1"
    by (auto simp: handleAppTermination_def and_then_eq_Inr)
  then have k1: "keeps_busy (hyp_table s) (hyp_table s1)"
    using table_step_keeps_busy [of "DeallocateApp v p"] by (auto simp: on_table_Inr)
  have "\<exists>rq s3. on_table (associateDeploymentToVm v rq) (emit_out (DeleteApp v p) s1) = Inr s3 \<and>
      hyp_table s' = hyp_table s3"
  proof (cases "request (vm_block v (hyp_table s))")
    case (To r)
    with assms s1 show ?thesis
      by (auto simp: handleAppTermination_def getVmControlBlock_def and_then_eq_Inr Let_def
          emit_out_def split: if_splits) (intro exI conjI, assumption, rule refl)
  qed (use assms s1 in \<open>auto simp: handleAppTermination_def getVmControlBlock_def and_then_eq_Inr
      Let_def\<close>)
  then obtain rq s3 where
    s3: "on_table (associateDeploymentToVm v rq) (emit_out (DeleteApp v p) s1) = Inr s3"
    "hyp_table s' = hyp_table s3" by blast
  have "keeps_busy (hyp_table s1) (hyp_table s3)"
    using table_step_keeps_busy [of "Associate v rq" "hyp_table s1"] s3(1)
    by (auto simp: on_table_Inr emit_out_def)
  with k1 s3(2) show ?thesis by (auto intro: keeps_busy_trans)
qed

lemma terminate_apps_keeps_busy:
  "terminate_apps now v is s = Inr s' \<Longrightarrow> keeps_busy (hyp_table s) (hyp_table s')"
proof (induction "is" arbitrary: s)
  case Nil
  then show ?case by simp
next
  case (Cons i "is")
  then obtain s1 where "handleAppTermination now (acb_pid (apps (vm_block v (hyp_table s)) ! i))
      (acb_vmId (apps (vm_block v (hyp_table s)) ! i)) appFinishedTimeout s = Inr s1"
    "terminate_apps now v is s1 = Inr s'"
    by (auto simp: Let_def and_then_eq_Inr)
  with Cons.IH show ?case
    using handleAppTermination_keeps_busy keeps_busy_trans by blast
qed

lemma deallocateVmResources_fails:
  assumes "0 \<le> v" "v < int (length (vmTable (hyp_table s)))"
    "\<not> block_isFree (vm_block v (hyp_table s))"
  shows "\<not> is_ok (deallocateVmResources de now v s)"
proof
  assume "is_ok (deallocateVmResources de now v s)"
  then obtain s1 s2 where s1: "terminate_apps now v [0..<length (apps (vm_block v (hyp_table s)))] s = Inr s1"
    "on_table (deallocateVm v) s1 = Inr s2"
    using assms(1,2)
    by (auto simp: is_ok_iff deallocateVmResources_def and_then_eq_Inr getVmControlBlock_def)
  have "keeps_busy (hyp_table s) (hyp_table s1)" by (rule terminate_apps_keeps_busy [OF s1(1)])
  then have "\<not> block_isFree (vm_block v (hyp_table s1))"
    using assms by (auto simp: keeps_busy_def block_isFree_def vm_block_def)
  with s1(2) show False by (auto simp: on_table_Inr deallocateVm_def and_then_eq_Inr)
qed

text \<open>The answer to an extension offer never does what it should: the loop that replays the
  buffered calls has its condition inverted.  If calls were buffered, an accepted extension makes the
  machine run again but sends none of them, and they stay in the buffer; if none were, the handler
  stops the simulation; and a rejected extension always stops it, because no machine in use can be
  deallocated.
\<close>

theorem extension_never_replays:
  assumes "getLocalVmId (ve_vmId sm) (hyp_table s) = Inr v" "0 \<le> v"
    "v < int (length (vmTable (hyp_table s)))" "block_isSuspended (vm_block v (hyp_table s))"
  shows "case handleVmExtension de now sm s of
      Inl e \<Rightarrow> \<not> ve_accepted sm \<or> callBuffer (vm_block v (hyp_table s)) = []
    | Inr s' \<Rightarrow> ve_accepted sm \<and> hyp_out s' = hyp_out s \<and>
        block_isRunning (vm_block v (hyp_table s')) \<and>
        callBuffer (vm_block v (hyp_table s')) = callBuffer (vm_block v (hyp_table s)) \<and>
        callBuffer (vm_block v (hyp_table s)) \<noteq> []"
proof (cases "ve_accepted sm")
  case True
  have r: "resumeVm v (hyp_table s) = Inr (callBuffer (vm_block v (hyp_table s)),
      set_block v (setRunning (vm_block v (hyp_table s))) (hyp_table s))"
    using assms(2-4) by (simp add: resumeVm_def vm_in_bounds_def Let_def setRunning_def)
  with True assms show ?thesis
    by (simp add: handleVmExtension_def resume_loop_def set_block_def vm_block_def setRunning_def
        block_isRunning_def)
next
  case False
  have "\<not> block_isFree (vm_block v (hyp_table s))"
    using assms(4) by (simp add: block_isFree_def block_isSuspended_def)
  then have "\<not> is_ok (handleVmExtension de now sm s)"
    using False assms deallocateVmResources_fails by (simp add: handleVmExtension_def)
  with False show ?thesis by (auto simp: is_ok_iff split: sum.split)
qed

definition hyp_example :: "unit Hypervisor" where
  "hyp_example = \<lparr>hyp_table = \<lparr>globalToLocalVmIdMap = [''vm'' \<mapsto> 0], localToGlobalVmIdMap = [0 \<mapsto> ''vm''],
     vmTable = [fresh_block\<lparr>vcb_state := vmSuspended\<rparr>], numAppsPerVm = 2\<rparr>, hyp_hw = (),
     hyp_schedulers = [], hyp_isVirtual = True, hyp_out = []\<rparr>"

definition exec_call :: any_call where
  "exec_call = CpuCall cpu_request_example"

theorem suspended_calls_are_held_witness:
  "\<exists>s'. handle_calls 0 [exec_call] hyp_example = Inr s' \<and> hyp_out s' = [] \<and>
     callBuffer (vm_block 0 (hyp_table s')) = [exec_call]"
proof -
  have v: "vmId (call_base exec_call) = 0" "\<not> isResponse (call_base exec_call)"
    by (simp_all add: exec_call_def Syscall.defs cpu_request_example_def new_SM_CPU_Message_def
        SIMCAN_Message.defs new_SIMCAN_Message_def)
  then show ?thesis
    using suspended_calls_are_held [of 0 hyp_example "[exec_call]" 0]
    by (simp add: hyp_example_def vm_block_def set_block_def block_isSuspended_def
        well_typed_call_def is_progress_def held_def fresh_block_def)
qed

theorem extension_never_replays_witness:
  "\<not> is_ok (handleVmExtension (\<lambda>_ _ h. Inr h) 0 (new_VmExtend\<lparr>ve_vmId := ''vm'', ve_userId := ''u'',
     ve_extensionTime := 1\<rparr>) hyp_example)"
proof -
  let ?sm = "new_VmExtend\<lparr>ve_vmId := ''vm'', ve_userId := ''u'', ve_extensionTime := 1\<rparr>"
  have "getLocalVmId (ve_vmId ?sm) (hyp_table hyp_example) = Inr 0" "(0 :: int) \<le> 0"
    "0 < int (length (vmTable (hyp_table hyp_example)))"
    "block_isSuspended (vm_block 0 (hyp_table hyp_example))"
    by (simp_all add: getLocalVmId_def hyp_example_def vm_block_def block_isSuspended_def)
  from extension_never_replays [OF this, of "\<lambda>_ _ h. Inr h" 0] show ?thesis
    by (auto simp: is_ok_iff new_VmExtend_def split: sum.splits)
qed

end
