(* ===== verification/DnsData.thy ===== *)
theory DnsData
  imports Prelude BitTools
begin

text \<open>
  The data of the name service (\<open>architecture/dns\<close>): resource records, questions and requests
  (\<open>ResourceRecord.msg\<close>, \<open>DnsRequest.msg\<close>), the helpers of \<open>DnsCommon\<close>, and the tree of zones of
  \<open>db/DnsTree\<close> with the wrapper \<open>db/DnsDb\<close>.

  The address type of the network library is the type parameter \<open>'ip\<close>, of which only its linear order
  is used.  A C string is a \<open>string\<close>, a pointer into it the rest of the string from there;
  \<open>opp_strcmp\<close> is the lexicographic order.  The tokenizer of the simulation library is the parameter
  \<open>tok\<close>.  A \<open>std::set\<close> of records is the list of its elements in iteration order, and the parent
  pointer of a node is the node the search went through before.
\<close>

section \<open>Records and requests\<close>

datatype RecordType = RT_A | RT_NS | RT_CNAME | RT_SOA | RT_PTR | RT_MX | RT_TXT | RT_ANY

fun rtype_val :: "RecordType \<Rightarrow> nat" where
  "rtype_val RT_A = 0" | "rtype_val RT_NS = 1" | "rtype_val RT_CNAME = 2" | "rtype_val RT_SOA = 3"
| "rtype_val RT_PTR = 4" | "rtype_val RT_MX = 5" | "rtype_val RT_TXT = 6" | "rtype_val RT_ANY = 7"

record 'ip ResourceRecord =
  rr_domain :: string
  rr_contents :: string
  rr_ip :: 'ip
  rr_type :: RecordType

record DnsQuestion =
  q_domain :: string
  q_type :: RecordType

record 'ip DnsRequest =
  dr_requestId :: u16
  dr_operationCode :: OperationCode
  dr_returnCode :: ReturnCode
  dr_isAuthoritative :: bool
  dr_question :: "DnsQuestion list"
  dr_nonAuth :: "'ip ResourceRecord list"
  dr_auth :: "'ip ResourceRecord list"

text \<open>The messages between the resolver and the client module (\<open>client/DnsClientCommand.msg\<close>).\<close>

datatype DnsClientResult = DC_OK | DC_ERROR

record 'ip DnsClientCommand =
  cc_ipPool :: "'ip list"
  cc_requestId :: u16
  cc_payload :: "'ip DnsRequest"

record 'ip DnsClientIndication =
  ci_requestId :: u16
  ci_result :: DnsClientResult
  ci_payload :: "'ip DnsRequest option"

datatype DnsLevel = ROOT | TLD | AUTHORITATIVE

text \<open>\<open>operator<\<close> of \<open>DnsCommon.h\<close>.\<close>

definition record_less :: "'ip::linorder ResourceRecord \<Rightarrow> 'ip ResourceRecord \<Rightarrow> bool" where
  "record_less lhs rhs \<longleftrightarrow>
     rr_domain lhs < rr_domain rhs \<or> rtype_val (rr_type lhs) < rtype_val (rr_type rhs) \<or>
     rr_ip lhs < rr_ip rhs"

text \<open>\<open>strncmp(type, "A", 1) == 0\<close> and so on: each name is compared as a prefix, \<open>"A"\<close> first.\<close>

definition has_prefix :: "string \<Rightarrow> string \<Rightarrow> bool" where
  "has_prefix p s \<longleftrightarrow> take (length p) s = p"

definition getRecordType :: "string \<Rightarrow> RecordType outcome" where
  "getRecordType ty =
     (if has_prefix ''A'' ty then Inr RT_A
      else if has_prefix ''NS'' ty then Inr RT_NS
      else if has_prefix ''CNAME'' ty then Inr RT_CNAME
      else if has_prefix ''SOA'' ty then Inr RT_SOA
      else if has_prefix ''PTR'' ty then Inr RT_PTR
      else if has_prefix ''MX'' ty then Inr RT_MX
      else if has_prefix ''TXT'' ty then Inr RT_TXT
      else if has_prefix ''ANY'' ty then Inr RT_ANY
      else Inl (RuntimeError ''Unknown record type''))"

fun show_record_type :: "RecordType \<Rightarrow> string" where
  "show_record_type RT_A = ''A''" | "show_record_type RT_NS = ''NS''"
| "show_record_type RT_CNAME = ''CNAME''" | "show_record_type RT_SOA = ''SOA''"
| "show_record_type RT_PTR = ''PTR''" | "show_record_type RT_MX = ''MX''"
| "show_record_type RT_TXT = ''TXT''" | "show_record_type RT_ANY = ''ANY''"

text \<open>
  The loop of \<open>getQuestionForLevel\<close> and \<open>matchesAuthorityDomain\<close>: \<open>tld\<close> and \<open>root\<close> are pointers into
  the name, \<open>None\<close> the null pointer.  At every dot \<open>tld\<close> takes the old \<open>root\<close>.
\<close>

fun dot_scan :: "string \<Rightarrow> string option \<times> string option \<Rightarrow> string option \<times> string option" where
  "dot_scan [] st = st"
| "dot_scan (c # p) (tld, rt) =
     dot_scan p (if c = CHR ''.'' then (rt, Some (c # p)) else (tld, rt))"

definition getQuestionForLevel :: "string \<Rightarrow> DnsLevel \<Rightarrow> string outcome" where
  "getQuestionForLevel domain level =
     (case dot_scan domain (Some domain, None) of (tld, rt) \<Rightarrow>
        (case rt of
           None \<Rightarrow> Inl (RuntimeError ''Invalid FQDN'')
         | Some r \<Rightarrow>
             (case level of
                TLD \<Rightarrow> (case tld of
                    None \<Rightarrow> Inl (Undefined ''offset of a null pointer'')
                  | Some t \<Rightarrow> Inr (tl t))
              | ROOT \<Rightarrow> Inr (tl r)
              | AUTHORITATIVE \<Rightarrow> Inr domain)))"

text \<open>\<open>opp_strcmp\<close> takes a null pointer as the empty string.\<close>

definition matchesAuthorityDomain :: "'ip ResourceRecord \<Rightarrow> string \<Rightarrow> bool outcome" where
  "matchesAuthorityDomain r domain =
     (case dot_scan domain (Some domain, None) of (tld, rt) \<Rightarrow>
        (case rt of
           None \<Rightarrow> Inl (RuntimeError ''Invalid FQDN'')
         | Some _ \<Rightarrow> Inr (rr_domain r = (case tld of None \<Rightarrow> [] | Some t \<Rightarrow> t))))"

definition ends_with :: "string \<Rightarrow> string \<Rightarrow> bool" where
  "ends_with s e \<longleftrightarrow> length e \<le> length s \<and> drop (length s - length e) s = e"

definition matchWithWildcard :: "'ip ResourceRecord \<Rightarrow> string \<Rightarrow> bool" where
  "matchWithWildcard r domain =
     (case rr_domain r of
        CHR ''*'' # c # e \<Rightarrow> ends_with domain (c # e)
      | r_domain \<Rightarrow> r_domain = domain)"

definition matchesQuestionType :: "RecordType \<Rightarrow> RecordType \<Rightarrow> bool" where
  "matchesQuestionType r query \<longleftrightarrow> r = query \<or> query = RT_ANY"

section \<open>The tree of zones\<close>

datatype 'ip DnsTreeNode =
  Zone (node_domain: string) (node_level: DnsLevel)
    (node_children: "(string \<times> 'ip DnsTreeNode) list") (node_records: "'ip ResourceRecord list")

definition NUM_DNS_LEVELS :: nat where "NUM_DNS_LEVELS = 3"

definition new_root :: "'ip DnsTreeNode" where
  "new_root = Zone ''.'' ROOT [] []"

text \<open>\<open>(DnsLevel)(level + 1)\<close>; there is no level below the last, and no node is created there.\<close>

fun next_level :: "DnsLevel \<Rightarrow> DnsLevel" where
  "next_level ROOT = TLD"
| "next_level TLD = AUTHORITATIVE"
| "next_level AUTHORITATIVE = undefined"

definition getChild :: "string \<Rightarrow> 'ip DnsTreeNode \<Rightarrow> 'ip DnsTreeNode option" where
  "getChild d n = map_of (node_children n) d"

text \<open>
  \<open>getChildOrCreate\<close> hands out a reference into the map; the model applies \<open>f\<close> to what it refers to.
\<close>

definition getChildOrCreate ::
  "string \<Rightarrow> ('ip DnsTreeNode \<Rightarrow> 'ip DnsTreeNode) \<Rightarrow> 'ip DnsTreeNode \<Rightarrow> 'ip DnsTreeNode" where
  "getChildOrCreate d f n =
     Zone (node_domain n) (node_level n)
       (map_at d (Zone d (next_level (node_level n)) [] []) f (node_children n)) (node_records n)"

definition getChildCount :: "'ip DnsTreeNode \<Rightarrow> nat" where
  "getChildCount n = length (node_children n)"

text \<open>\<open>getRecords()\<close> is null when there are none.\<close>

definition getRecords :: "'ip DnsTreeNode \<Rightarrow> 'ip ResourceRecord list option" where
  "getRecords n = (if node_records n = [] then None else Some (node_records n))"

text \<open>Insertion into the ordered set: nothing happens when an equivalent element is there.\<close>

fun set_insert :: "('a \<Rightarrow> 'a \<Rightarrow> bool) \<Rightarrow> 'a \<Rightarrow> 'a list \<Rightarrow> 'a list" where
  "set_insert lt x [] = [x]"
| "set_insert lt x (y # ys) =
     (if lt x y then x # y # ys else if lt y x then y # set_insert lt x ys else y # ys)"

definition addRecord :: "'ip::linorder ResourceRecord \<Rightarrow> 'ip DnsTreeNode \<Rightarrow> 'ip DnsTreeNode" where
  "addRecord r n = Zone (node_domain n) (node_level n) (node_children n)
     (set_insert record_less r (node_records n))"

definition node_clear :: "'ip DnsTreeNode \<Rightarrow> 'ip DnsTreeNode" where
  "node_clear n = Zone (node_domain n) (node_level n) [] []"

text \<open>
  \<open>DnsTree::searchRecords\<close>, over the labels of the name from the last to the first.  The result is
  the node found with its parent.
\<close>

fun search_loop ::
  "'ip DnsTreeNode \<Rightarrow> 'ip DnsTreeNode option \<Rightarrow> string list \<Rightarrow> ('ip DnsTreeNode option \<times> 'ip DnsTreeNode) option" where
  "search_loop parent None subs = None"
| "search_loop parent (Some n) [] = Some (Some parent, n)"
| "search_loop parent (Some n) (s # subs) =
     (if getChildCount n = 0 then Some (Some parent, n)
      else search_loop n (getChild s n) subs)"

definition searchRecords ::
  "(string \<Rightarrow> string list) \<Rightarrow> string \<Rightarrow> 'ip DnsTreeNode \<Rightarrow> ('ip DnsTreeNode option \<times> 'ip DnsTreeNode) option" where
  "searchRecords tok domain rt =
     (case rev (tok domain) of
        [] \<Rightarrow> Some (None, rt)
      | s # subs \<Rightarrow>
          if getChildCount rt = 0 then Some (None, rt)
          else search_loop rt (getChild s rt) subs)"

fun insert_loop ::
  "nat \<Rightarrow> string list \<Rightarrow> 'ip::linorder ResourceRecord \<Rightarrow> 'ip DnsTreeNode \<Rightarrow> 'ip DnsTreeNode" where
  "insert_loop (Suc i) (s # subs) r n = getChildOrCreate s (insert_loop i subs r) n"
| "insert_loop i subs r n = addRecord r n"

definition insertRecord ::
  "(string \<Rightarrow> string list) \<Rightarrow> string \<Rightarrow> 'ip::linorder ResourceRecord \<Rightarrow> 'ip DnsTreeNode \<Rightarrow> 'ip DnsTreeNode" where
  "insertRecord tok zone r rt =
     (case rev (tok zone) of
        [] \<Rightarrow> addRecord r rt
      | s # subs \<Rightarrow> getChildOrCreate s (insert_loop (NUM_DNS_LEVELS - 2) subs r) rt)"

text \<open>
  \<open>removeRecord\<close> searches the node and erases the equivalent records there; a node without records
  gives a null set.  \<open>remove_loop\<close> is the way of the search with the update at its end.
\<close>

definition erase_record :: "'ip::linorder ResourceRecord \<Rightarrow> 'ip DnsTreeNode \<Rightarrow> ('ip DnsTreeNode \<times> bool) outcome" where
  "erase_record r n =
     (if getRecords n = None then Inl (Undefined ''erase of a null set'')
      else let rs = filter (\<lambda>x. record_less x r \<or> record_less r x) (node_records n) in
        Inr (Zone (node_domain n) (node_level n) (node_children n) rs,
             length rs < length (node_records n)))"

fun remove_loop ::
  "string list \<Rightarrow> 'ip::linorder ResourceRecord \<Rightarrow> 'ip DnsTreeNode \<Rightarrow> ('ip DnsTreeNode \<times> bool) outcome" where
  "remove_loop [] r n = erase_record r n"
| "remove_loop (s # subs) r n =
     (if getChildCount n = 0 then erase_record r n
      else (case getChild s n of
          None \<Rightarrow> Inr (n, False)
        | Some c \<Rightarrow> and_then (remove_loop subs r c) (\<lambda>(c', b).
            Inr (getChildOrCreate s (\<lambda>_. c') n, b))))"

definition removeRecord ::
  "(string \<Rightarrow> string list) \<Rightarrow> string \<Rightarrow> 'ip::linorder ResourceRecord \<Rightarrow> 'ip DnsTreeNode \<Rightarrow> ('ip DnsTreeNode \<times> bool) outcome" where
  "removeRecord tok zone r rt = remove_loop (rev (tok zone)) r rt"

section \<open>The database module\<close>

text \<open>
  \<open>DnsDb::initialize\<close> over the parsed configuration: the address of a record is parsed by the
  network library (\<open>parse_ip\<close>), and \<open>no_ip\<close> is an unset address.
\<close>

record zone_record =
  zr_domain :: string
  zr_type :: string
  zr_text :: string
  zr_ip :: string

definition config_record :: "(string \<Rightarrow> 'ip) \<Rightarrow> 'ip \<Rightarrow> zone_record \<Rightarrow> 'ip ResourceRecord outcome" where
  "config_record parse_ip no_ip z =
     and_then (getRecordType (zr_type z)) (\<lambda>ty.
       Inr (if ty = RT_CNAME \<or> ty = RT_TXT
            then \<lparr>rr_domain = zr_domain z, rr_contents = zr_text z, rr_ip = no_ip, rr_type = ty\<rparr>
            else \<lparr>rr_domain = zr_domain z, rr_contents = [], rr_ip = parse_ip (zr_ip z), rr_type = ty\<rparr>))"

fun load_records ::
  "(string \<Rightarrow> string list) \<Rightarrow> (string \<Rightarrow> 'ip::linorder) \<Rightarrow> 'ip \<Rightarrow> string \<Rightarrow> zone_record list \<Rightarrow>
   'ip DnsTreeNode \<Rightarrow> 'ip DnsTreeNode outcome" where
  "load_records tok parse_ip no_ip zone [] t = Inr t"
| "load_records tok parse_ip no_ip zone (z # zs) t =
     and_then (config_record parse_ip no_ip z) (\<lambda>r.
       load_records tok parse_ip no_ip zone zs (insertRecord tok zone r t))"

fun db_initialize ::
  "(string \<Rightarrow> string list) \<Rightarrow> (string \<Rightarrow> 'ip::linorder) \<Rightarrow> 'ip \<Rightarrow> (string \<times> zone_record list) list \<Rightarrow>
   'ip DnsTreeNode \<Rightarrow> 'ip DnsTreeNode outcome" where
  "db_initialize tok parse_ip no_ip [] t = Inr t"
| "db_initialize tok parse_ip no_ip ((zone, zs) # cfg) t =
     and_then (load_records tok parse_ip no_ip zone zs t) (db_initialize tok parse_ip no_ip cfg)"

definition db_searchRecords ::
  "(string \<Rightarrow> string list) \<Rightarrow> DnsQuestion \<Rightarrow> 'ip DnsTreeNode \<Rightarrow> ('ip DnsTreeNode option \<times> 'ip DnsTreeNode) option" where
  "db_searchRecords tok q t = searchRecords tok (q_domain q) t"

section \<open>Well-formed trees\<close>

definition auth_ok :: "string \<Rightarrow> 'ip DnsTreeNode \<Rightarrow> bool" where
  "auth_ok k n \<longleftrightarrow> node_domain n = k \<and> node_level n = AUTHORITATIVE \<and> node_children n = []"

definition tld_ok :: "string \<Rightarrow> 'ip DnsTreeNode \<Rightarrow> bool" where
  "tld_ok k n \<longleftrightarrow> node_domain n = k \<and> node_level n = TLD \<and> map_ordered (node_children n) \<and>
     (\<forall>(j, c)\<in>set (node_children n). auth_ok j c)"

definition tree_ok :: "'ip DnsTreeNode \<Rightarrow> bool" where
  "tree_ok t \<longleftrightarrow> node_level t = ROOT \<and> map_ordered (node_children t) \<and>
     (\<forall>(k, n)\<in>set (node_children t). tld_ok k n)"

lemma addRecord_sel [simp]:
  "node_domain (addRecord r n) = node_domain n" "node_level (addRecord r n) = node_level n"
  "node_children (addRecord r n) = node_children n"
  "node_records (addRecord r n) = set_insert record_less r (node_records n)"
  by (simp_all add: addRecord_def)

lemma getChildOrCreate_sel [simp]:
  "node_domain (getChildOrCreate d f n) = node_domain n"
  "node_level (getChildOrCreate d f n) = node_level n"
  "node_records (getChildOrCreate d f n) = node_records n"
  by (simp_all add: getChildOrCreate_def)

definition child_or_new :: "string \<Rightarrow> 'ip DnsTreeNode \<Rightarrow> 'ip DnsTreeNode" where
  "child_or_new d n = (case getChild d n of
     Some c \<Rightarrow> c | None \<Rightarrow> Zone d (next_level (node_level n)) [] [])"

lemma getChild_getChildOrCreate:
  assumes "map_ordered (node_children n)"
  shows "getChild e (getChildOrCreate d f n) =
    (if e = d then Some (f (child_or_new d n)) else getChild e n)"
  using assms
  by (simp add: getChild_def getChildOrCreate_def map_of_map_at child_or_new_def split: option.split)

lemma getChildCount_getChildOrCreate [simp]: "getChildCount (getChildOrCreate d f n) \<noteq> 0"
proof -
  have "map_at d x f m \<noteq> []" for x m by (cases m) (auto split: if_splits)
  then show ?thesis by (simp add: getChildCount_def getChildOrCreate_def)
qed

lemma map_at_set:
  "(k, v) \<in> set (map_at d x f m) \<Longrightarrow> (k, v) \<in> set m \<or> k = d \<and> (v = f x \<or> (\<exists>w. (d, w) \<in> set m \<and> v = f w))"
  by (induction d x f m rule: map_at.induct) (auto split: if_splits)

lemma set_insert_sub: "set ys \<subseteq> set (set_insert lt x ys)"
  by (induction lt x ys rule: set_insert.induct) auto

lemma set_insert_has: "\<exists>y\<in>set (set_insert lt x ys). y = x \<or> \<not> lt x y \<and> \<not> lt y x"
  by (induction lt x ys rule: set_insert.induct) auto

lemma set_insert_set: "set (set_insert lt x ys) \<subseteq> insert x (set ys)"
  by (induction lt x ys rule: set_insert.induct) auto

lemma auth_ok_insert: "auth_ok k n \<Longrightarrow> auth_ok k (addRecord r n)"
  by (simp add: auth_ok_def)

lemma insert_auth: "insert_loop 0 subs r n = addRecord r n"
  by (cases subs) simp_all

lemma getChildOrCreate_ok:
  assumes "map_ordered (node_children n)" "\<forall>(k, c)\<in>set (node_children n). P k c"
    "\<And>c. P d c \<Longrightarrow> P d (f c)" "P d (Zone d (next_level (node_level n)) [] [])"
  shows "map_ordered (node_children (getChildOrCreate d f n))"
    "\<forall>(k, c)\<in>set (node_children (getChildOrCreate d f n)). P k c"
proof -
  show "map_ordered (node_children (getChildOrCreate d f n))"
    using assms(1) by (simp add: getChildOrCreate_def map_at_ordered)
  show "\<forall>(k, c)\<in>set (node_children (getChildOrCreate d f n)). P k c"
  proof clarify
    fix k c assume "(k, c) \<in> set (node_children (getChildOrCreate d f n))"
    then have "(k, c) \<in> set (node_children n) \<or> k = d \<and>
        (c = f (Zone d (next_level (node_level n)) [] []) \<or> (\<exists>w. (d, w) \<in> set (node_children n) \<and> c = f w))"
      by (simp add: getChildOrCreate_def map_at_set)
    with assms(2-4) show "P k c" by blast
  qed
qed

lemma tld_ok_insert:
  assumes "tld_ok k n"
  shows "tld_ok k (insert_loop (NUM_DNS_LEVELS - 2) subs r n)"
proof (cases subs)
  case Nil
  with assms show ?thesis by (simp add: tld_ok_def NUM_DNS_LEVELS_def)
next
  case (Cons s rest)
  have n: "map_ordered (node_children n)" "\<forall>(j, c)\<in>set (node_children n). auth_ok j c"
    "auth_ok s (Zone s (next_level (node_level n)) [] [])"
    using assms by (simp_all add: tld_ok_def auth_ok_def)
  note new = getChildOrCreate_ok [where f = "addRecord r", OF n(1) n(2) auth_ok_insert n(3)]
  from Cons show ?thesis
    unfolding tld_ok_def using assms new
    by (simp add: tld_ok_def NUM_DNS_LEVELS_def insert_auth [abs_def])
qed

lemma tree_ok_insert:
  assumes "tree_ok t"
  shows "tree_ok (insertRecord tok zone r t)"
proof (cases "rev (tok zone)")
  case Nil
  with assms show ?thesis by (simp add: tree_ok_def insertRecord_def)
next
  case (Cons s subs)
  have t: "map_ordered (node_children t)" "\<forall>(k, n)\<in>set (node_children t). tld_ok k n"
    "tld_ok s (Zone s (next_level (node_level t)) [] [])"
    using assms by (simp_all add: tree_ok_def tld_ok_def map_ordered_def)
  note new = getChildOrCreate_ok
    [where f = "insert_loop (NUM_DNS_LEVELS - 2) subs r", OF t(1) t(2) tld_ok_insert t(3)]
  from Cons show ?thesis
    unfolding tree_ok_def using assms new by (simp add: tree_ok_def insertRecord_def)
qed

lemma tree_child: "tree_ok t \<Longrightarrow> getChild s t = Some n \<Longrightarrow> tld_ok s n"
  by (auto simp: tree_ok_def getChild_def dest!: map_of_SomeD)

lemma tld_child: "tld_ok k n \<Longrightarrow> getChild s n = Some c \<Longrightarrow> auth_ok s c"
  by (auto simp: tld_ok_def getChild_def dest!: map_of_SomeD)

lemma levels_below:
  "tree_ok t \<Longrightarrow> getChild s t = Some n \<Longrightarrow> node_level n = TLD"
  "tree_ok t \<Longrightarrow> getChild s t = Some n \<Longrightarrow> getChild a n = Some c \<Longrightarrow> node_level c = AUTHORITATIVE"
  using tree_child [of t s n] tld_child [of s n a c] by (simp_all add: tld_ok_def auth_ok_def)

lemma tree_child_or_new: "tree_ok t \<Longrightarrow> tld_ok s (child_or_new s t)"
  by (cases "getChild s t")
    (simp_all add: child_or_new_def tree_child, simp add: tree_ok_def tld_ok_def map_ordered_def)

lemma tld_child_or_new: "tld_ok k n \<Longrightarrow> auth_ok s (child_or_new s n)"
  by (cases "getChild s n")
    (simp_all add: child_or_new_def tld_child, simp add: tld_ok_def auth_ok_def)

text \<open>What an insertion changes, seen from the two labels that select the zone.\<close>

lemma search_found:
  assumes "tree_ok t"
  shows "searchRecords tok d t = (case rev (tok d) of
      [] \<Rightarrow> Some (None, t)
    | s # subs \<Rightarrow> if getChildCount t = 0 then Some (None, t)
        else (case getChild s t of None \<Rightarrow> None
          | Some n \<Rightarrow> (case subs of [] \<Rightarrow> Some (Some t, n)
              | a # _ \<Rightarrow> if getChildCount n = 0 then Some (Some t, n)
                  else map_option (\<lambda>c. (Some n, c)) (getChild a n))))"
proof -
  have "search_loop n (getChild a n) rest = map_option (\<lambda>c. (Some n, c)) (getChild a n)"
    if "getChild s t = Some n" for s n a rest
  proof (cases "getChild a n")
    case (Some c)
    then have "getChildCount c = 0"
      using tld_child [OF tree_child [OF assms that] Some] by (simp add: auth_ok_def getChildCount_def)
    with Some show ?thesis by (cases rest) simp_all
  qed simp
  then show ?thesis
    by (auto simp: searchRecords_def split: list.split option.split)
qed

lemma getChild_insert:
  assumes "tree_ok t" "rev (tok zone) = s # subs"
  shows "getChild e (insertRecord tok zone r t) =
    (if e = s then Some (insert_loop (Suc 0) subs r (child_or_new s t)) else getChild e t)"
    "getChildCount (insertRecord tok zone r t) \<noteq> 0"
  using assms by (simp_all add: insertRecord_def tree_ok_def getChild_getChildOrCreate NUM_DNS_LEVELS_def)

lemma getChild_insert_tld:
  assumes "tld_ok k n"
  shows "getChild e (insert_loop (Suc 0) (a # rest) r n) =
    (if e = a then Some (addRecord r (child_or_new a n)) else getChild e n)"
    "getChildCount (insert_loop (Suc 0) (a # rest) r n) \<noteq> 0"
  using assms by (simp_all add: tld_ok_def getChild_getChildOrCreate insert_auth [abs_def])

section \<open>Properties\<close>

fun level_depth :: "DnsLevel \<Rightarrow> nat" where
  "level_depth ROOT = 0"
| "level_depth TLD = 1"
| "level_depth AUTHORITATIVE = 2"

definition same_record :: "'ip::linorder ResourceRecord \<Rightarrow> 'ip ResourceRecord \<Rightarrow> bool" where
  "same_record x y \<longleftrightarrow> x = y \<or> \<not> record_less x y \<and> \<not> record_less y x"

lemma addRecord_has: "\<exists>x\<in>set (node_records (addRecord r n)). same_record x r"
  using set_insert_has [of record_less r "node_records n"] by (auto simp: same_record_def)

lemma insert_search_new:
  assumes "tree_ok t" and same: "take 2 (rev (tok d)) = take 2 (rev (tok zone))"
  shows "\<exists>p n. searchRecords tok d (insertRecord tok zone r t) = Some (p, n) \<and>
    (\<exists>x\<in>set (node_records n). same_record x r)"
proof -
  note found = search_found [OF tree_ok_insert [OF assms(1)]]
  note ins = getChild_insert [OF assms(1)] and ins2 = getChild_insert_tld [OF tree_child_or_new [OF assms(1)]]
  show ?thesis
  proof (cases "rev (tok zone)")
    case Nil
    with same have "rev (tok d) = []" by simp
    with Nil show ?thesis using addRecord_has [of r t] 
      by (simp add: searchRecords_def insertRecord_def)
  next
    case (Cons s subs)
    with same obtain subs' where d: "rev (tok d) = s # subs'" "take 1 subs' = take 1 subs"
      by (cases "rev (tok d)") auto
    show ?thesis
    proof (cases subs)
      case Nil
      with d have "subs' = []" by simp
      with d(1) Cons Nil show ?thesis
        using addRecord_has [of r "child_or_new s t"] by (simp add: found ins)
    next
      case (Cons a rest)
      with d(2) obtain rest' where "subs' = a # rest'" by (cases subs') auto
      with d(1) \<open>rev (tok zone) = s # subs\<close> Cons show ?thesis
        using addRecord_has [of r "child_or_new a (child_or_new s t)"]
        by (simp add: found ins ins2 del: insert_loop.simps)
    qed
  qed
qed

lemma insert_search_old:
  assumes "tree_ok t" and e: "searchRecords tok e t = Some (p, n)" "node_level n = AUTHORITATIVE"
  shows "\<exists>p' n'. searchRecords tok e (insertRecord tok zone r t) = Some (p', n') \<and>
    node_domain n' = node_domain n \<and> node_level n' = AUTHORITATIVE \<and> set (node_records n) \<subseteq> set (node_records n')"
proof -
  note found = search_found [OF tree_ok_insert [OF assms(1)]]
  note ins = getChild_insert [OF assms(1)] and old = search_found [OF assms(1)]
    obtain s a rest m where m: "rev (tok e) = s # a # rest" "getChild s t = Some m"
        "getChildCount m \<noteq> 0" "getChild a m = Some n" "getChildCount t \<noteq> 0"
      using e assms(1) by (auto simp: old tree_ok_def split: list.splits if_splits option.splits
          dest: levels_below [OF assms(1)])
    then have cn: "child_or_new s t = m" "child_or_new a m = n" by (simp_all add: child_or_new_def)
    show ?thesis
    proof (cases "rev (tok zone)")
      case Nil
      then have "getChild x (insertRecord tok zone r t) = getChild x t"
        "getChildCount (insertRecord tok zone r t) = getChildCount t" for x
        by (simp_all add: insertRecord_def getChild_def getChildCount_def)
      with m e(2) show ?thesis by (simp add: found)
    next
      case (Cons z zs)
      show ?thesis
      proof (cases "z = s \<and> zs \<noteq> []")
        case True
        then obtain b zs' where "zs = b # zs'" by (cases zs) auto
        with m Cons True e(2) cn show ?thesis
          using set_insert_sub [of "node_records n" record_less r]
          by (cases "a = b") (simp_all add: found ins getChild_insert_tld [OF tree_child [OF assms(1) m(2)]]
              del: insert_loop.simps)
      next
        case False
        note z = getChild_insert(1) [where tok = tok and zone = zone and e = s and r = r, OF assms(1) Cons]
          getChild_insert(2) [where tok = tok and zone = zone and r = r, OF assms(1) Cons]
        obtain m' where "getChild s (insertRecord tok zone r t) = Some m'"
          "getChildCount m' \<noteq> 0" "getChild a m' = Some n"
          using z False m(2-4) cn by (cases "z = s") (auto simp: getChild_def getChildCount_def)
        with z(2) m(1) e(2) show ?thesis by (simp add: found)
      qed
    qed
qed

lemma insert_search_parts:
  assumes "tree_ok t"
  shows "tree_ok (insertRecord tok zone r t)"
    and "take 2 (rev (tok d)) = take 2 (rev (tok zone)) \<Longrightarrow>
      \<exists>p n. searchRecords tok d (insertRecord tok zone r t) = Some (p, n) \<and>
        (\<exists>x\<in>set (node_records n). same_record x r)"
    and "searchRecords tok e t = Some (p, n) \<Longrightarrow> node_level n = AUTHORITATIVE \<Longrightarrow>
      \<exists>p' n'. searchRecords tok e (insertRecord tok zone r t) = Some (p', n') \<and>
        node_domain n' = node_domain n \<and> node_level n' = AUTHORITATIVE \<and>
        set (node_records n) \<subseteq> set (node_records n')"
proof -
  show "tree_ok (insertRecord tok zone r t)" by (rule tree_ok_insert [OF assms])
qed (rule insert_search_new [OF assms], assumption, rule insert_search_old [OF assms])

text \<open>The tree as a finite map from label paths (from the root down) to the records kept there.\<close>

fun node_at :: "string list \<Rightarrow> 'ip DnsTreeNode \<Rightarrow> 'ip DnsTreeNode option" where
  "node_at [] n = Some n"
| "node_at (s # ss) n = (case getChild s n of None \<Rightarrow> None | Some c \<Rightarrow> node_at ss c)"

definition path_records :: "string list \<Rightarrow> 'ip DnsTreeNode \<Rightarrow> 'ip ResourceRecord list option" where
  "path_records path t = map_option node_records (node_at path t)"

definition records_or_none :: "string list \<Rightarrow> 'ip DnsTreeNode \<Rightarrow> 'ip ResourceRecord list" where
  "records_or_none path t = (case path_records path t of None \<Rightarrow> [] | Some rs \<Rightarrow> rs)"

lemma path_records_Cons:
  "path_records (s # ss) t = (case getChild s t of None \<Rightarrow> None | Some c \<Rightarrow> path_records ss c)"
  by (simp add: path_records_def split: option.split)

lemma path_records_Nil: "path_records [] t = Some (node_records t)"
  by (simp add: path_records_def)

lemma path_records_addRecord: "ss \<noteq> [] \<Longrightarrow> path_records ss (addRecord r n) = path_records ss n"
  by (cases ss) (simp_all add: path_records_Cons getChild_def)

lemma getChild_new [simp]: "getChild a (Zone d l [] rs) = None"
  by (simp add: getChild_def)

lemma path_records_new: "path_records (s # ss) (Zone d l [] rs) = None"
  by (simp add: path_records_Cons getChild_def)

lemma path_records_child_or_new:
  "ss \<noteq> [] \<Longrightarrow> path_records ss (child_or_new s t) = path_records (s # ss) t"
  by (cases ss; cases "getChild s t";
      simp add: child_or_new_def path_records_Cons path_records_new)

lemma records_or_none_child_or_new:
  "records_or_none ss (child_or_new s t) = records_or_none (s # ss) t"
  by (cases ss; cases "getChild s t";
      simp add: child_or_new_def path_records_Cons path_records_Nil path_records_new
        records_or_none_def)

lemma path_records_insert_tld:
  assumes "tld_ok k n"
  shows "path_records path (insert_loop (Suc 0) subs r n) =
    (if path = take 1 subs then Some (set_insert record_less r (records_or_none path n))
     else if path = [] then Some (node_records n) else path_records path n)"
proof (cases subs)
  case Nil
  then show ?thesis
    by (cases path) (simp_all add: path_records_Nil records_or_none_def path_records_addRecord)
next
  case subs: (Cons a rest)
  note ins = getChild_insert_tld [OF assms, where a = a and rest = rest and r = r]
  show ?thesis
  proof (cases path)
    case Nil
    with subs show ?thesis by (simp add: path_records_Nil)
  next
    case (Cons p ps)
    show ?thesis
    proof (cases "p = a")
      case True
      then have step: "path_records path (insert_loop (Suc 0) subs r n) =
          path_records ps (addRecord r (child_or_new a n))"
        using Cons subs by (simp add: path_records_Cons ins del: insert_loop.simps)
      show ?thesis
      proof (cases ps)
        case Nil
        have "node_records (child_or_new a n) = records_or_none [a] n"
          using records_or_none_child_or_new [of "[]" a n]
          by (simp add: records_or_none_def path_records_Nil)
        with step Nil Cons True subs show ?thesis by (simp add: path_records_Nil)
      next
        case more: (Cons q qs)
        then have "path_records ps (addRecord r (child_or_new a n)) = path_records path n"
          using path_records_addRecord [of ps r] path_records_child_or_new [of ps a n] Cons True
          by simp
        with step more Cons subs show ?thesis by simp
      qed
    next
      case False
      with Cons subs show ?thesis by (simp add: path_records_Cons ins del: insert_loop.simps)
    qed
  qed
qed

lemma path_records_insert:
  assumes "tree_ok t"
  shows "path_records path (insertRecord tok zone r t) =
    (let z = take 2 (rev (tok zone)) in
     if path = z then Some (set_insert record_less r (records_or_none z t))
     else if path = take (length path) z then Some (records_or_none path t)
     else path_records path t)"
proof (cases "rev (tok zone)")
  case Nil
  then show ?thesis
    by (cases path)
      (simp_all add: insertRecord_def path_records_Nil records_or_none_def path_records_addRecord)
next
  case z: (Cons s subs)
  note ins = getChild_insert(1) [where tok = tok and zone = zone and r = r, OF assms z]
  show ?thesis
  proof (cases path)
    case Nil
    with z show ?thesis by (simp add: insertRecord_def path_records_Nil records_or_none_def)
  next
    case (Cons p ps)
    show ?thesis
    proof (cases "p = s")
      case True
      have "path_records path (insertRecord tok zone r t) =
          path_records ps (insert_loop (Suc 0) subs r (child_or_new s t))"
        using Cons True by (simp add: path_records_Cons ins
            del: insert_loop.simps)
      also have "\<dots> = (if ps = take 1 subs
            then Some (set_insert record_less r (records_or_none ps (child_or_new s t)))
          else if ps = [] then Some (node_records (child_or_new s t))
          else path_records ps (child_or_new s t))"
        by (rule path_records_insert_tld [OF tree_child_or_new [OF assms]])
      also have "records_or_none ps (child_or_new s t) = records_or_none path t"
        using Cons True by (simp add: records_or_none_child_or_new)
      finally have step: "path_records path (insertRecord tok zone r t) = (if ps = take 1 subs
            then Some (set_insert record_less r (records_or_none path t))
          else if ps = [] then Some (node_records (child_or_new s t))
          else path_records ps (child_or_new s t))" .
      have "node_records (child_or_new s t) = records_or_none [s] t"
        using records_or_none_child_or_new [of "[]" s t]
        by (simp add: records_or_none_def path_records_Nil)
      moreover have "path_records ps (child_or_new s t) = path_records path t" if "ps \<noteq> []"
        using path_records_child_or_new [OF that, of s t] Cons True by simp
      moreover have "take 2 (rev (tok zone)) = s # take 1 subs" using z by simp
      moreover have "length (take 1 subs) \<le> 1" by simp
      ultimately show ?thesis using step Cons True by (cases ps) auto
    next
      case False
      with Cons z show ?thesis
        by (simp add: path_records_Cons ins del: insert_loop.simps)
    qed
  qed
qed

lemma set_insert_spec:
  "(\<exists>x\<in>set (set_insert record_less r rs). same_record x r) \<and> set rs \<subseteq> set (set_insert record_less r rs) \<and>
    set (set_insert record_less r rs) \<subseteq> insert r (set rs)"
  using set_insert_has [of record_less r rs] set_insert_sub [of rs record_less r]
    set_insert_set [of record_less r rs]
  by (auto simp: same_record_def)

lemma records_kept:
  assumes "tree_ok t" and z: "z = take 2 (rev (tok zone))"
  shows "(case path_records z (insertRecord tok zone r t) of
       None \<Rightarrow> False
     | Some rs \<Rightarrow> (\<exists>x\<in>set rs. same_record x r) \<and> set (records_or_none z t) \<subseteq> set rs \<and>
         set rs \<subseteq> insert r (set (records_or_none z t))) \<and>
    (\<forall>path. path = z \<or> path_records path (insertRecord tok zone r t) = path_records path t \<or>
       path_records path t = None \<and> path = take (length path) z \<and>
         path_records path (insertRecord tok zone r t) = Some [])"
proof (intro conjI allI)
  show "case path_records z (insertRecord tok zone r t) of None \<Rightarrow> False
     | Some rs \<Rightarrow> (\<exists>x\<in>set rs. same_record x r) \<and> set (records_or_none z t) \<subseteq> set rs \<and>
         set rs \<subseteq> insert r (set (records_or_none z t))"
    using set_insert_spec [of r "records_or_none z t"]
    by (simp add: path_records_insert [OF assms(1)] z)
  fix path
  show "path = z \<or> path_records path (insertRecord tok zone r t) = path_records path t \<or>
       path_records path t = None \<and> path = take (length path) z \<and>
         path_records path (insertRecord tok zone r t) = Some []"
    using path_records_insert [OF assms(1), of path tok zone r] z
    by (cases "path_records path t") (auto simp: Let_def records_or_none_def split: if_splits)
qed

text \<open>C11.  A record inserted into a zone is kept by exactly that zone: the path of the zone's last
  two labels then holds the record, or one the order of the set takes for the same, with all it
  held before and nothing else; at every other path of the tree, above, below or beside it, the
  records are the same as before (a missing node on the way is created empty, no other appears).
  The tree stays well formed, with at most three levels; every name with the same last two labels
  finds a node that holds the record; and a name that found an authoritative node before finds the
  node of that zone still.
\<close>

theorem insert_then_search:
  assumes "tree_ok t" and z: "z = take 2 (rev (tok zone))"
  shows "tree_ok (insertRecord tok zone r t) \<and>
    (case path_records z (insertRecord tok zone r t) of
       None \<Rightarrow> False
     | Some rs \<Rightarrow> (\<exists>x\<in>set rs. same_record x r) \<and> set (records_or_none z t) \<subseteq> set rs \<and>
         set rs \<subseteq> insert r (set (records_or_none z t))) \<and>
    (\<forall>path. path = z \<or> path_records path (insertRecord tok zone r t) = path_records path t \<or>
       path_records path t = None \<and> path = take (length path) z \<and>
         path_records path (insertRecord tok zone r t) = Some []) \<and>
    (take 2 (rev (tok d)) = z \<longrightarrow>
      (\<exists>p n. searchRecords tok d (insertRecord tok zone r t) = Some (p, n) \<and>
        (\<exists>x\<in>set (node_records n). same_record x r))) \<and>
    (\<forall>p n. searchRecords tok e t = Some (p, n) \<longrightarrow> node_level n = AUTHORITATIVE \<longrightarrow>
      (\<exists>p' n'. searchRecords tok e (insertRecord tok zone r t) = Some (p', n') \<and>
        node_domain n' = node_domain n \<and> node_level n' = AUTHORITATIVE \<and>
        set (node_records n) \<subseteq> set (node_records n')))"
proof (intro conjI)
  note parts = insert_search_parts [OF assms(1)] and kept = records_kept [where tok = tok and zone = zone and r = r, OF assms]
  show "tree_ok (insertRecord tok zone r t)" by (rule parts(1))
  show "take 2 (rev (tok d)) = z \<longrightarrow> (\<exists>p n. searchRecords tok d (insertRecord tok zone r t) = Some (p, n) \<and>
      (\<exists>x\<in>set (node_records n). same_record x r))"
    using parts(2) z by blast
  show "\<forall>p n. searchRecords tok e t = Some (p, n) \<longrightarrow> node_level n = AUTHORITATIVE \<longrightarrow>
      (\<exists>p' n'. searchRecords tok e (insertRecord tok zone r t) = Some (p', n') \<and>
        node_domain n' = node_domain n \<and> node_level n' = AUTHORITATIVE \<and>
        set (node_records n) \<subseteq> set (node_records n'))"
    using parts(3) by blast
  show "case path_records z (insertRecord tok zone r t) of None \<Rightarrow> False
     | Some rs \<Rightarrow> (\<exists>x\<in>set rs. same_record x r) \<and> set (records_or_none z t) \<subseteq> set rs \<and>
         set rs \<subseteq> insert r (set (records_or_none z t))"
    by (rule kept [THEN conjunct1])
  show "\<forall>path. path = z \<or> path_records path (insertRecord tok zone r t) = path_records path t \<or>
       path_records path t = None \<and> path = take (length path) z \<and>
         path_records path (insertRecord tok zone r t) = Some []"
    by (rule kept [THEN conjunct2])
qed

text \<open>
  A name without an authoritative zone finds the node above it; as soon as a record of any other zone
  below that node is inserted, it finds nothing at all.
\<close>

lemma siblings_hidden:
  assumes "tree_ok t" "searchRecords tok d t = Some (p, n)" "node_level n \<noteq> AUTHORITATIVE"
    and "k = level_depth (node_level n)" "k < length (tok d)" "k < length (tok zone)"
    and "take k (rev (tok d)) = take k (rev (tok zone))" "rev (tok d) ! k \<noteq> rev (tok zone) ! k"
  shows "searchRecords tok d (insertRecord tok zone r t) = None"
proof -
  note found = search_found [OF tree_ok_insert [OF assms(1)]] and old = search_found [OF assms(1)]
  note ins = getChild_insert [OF assms(1)]
    and ins2 = getChild_insert_tld [OF tree_child_or_new [OF assms(1)]]
  obtain s subs where d: "rev (tok d) = s # subs" using assms(5) by (cases "rev (tok d)") auto
  obtain z zs where z: "rev (tok zone) = z # zs" using assms(6) by (cases "rev (tok zone)") auto
  show ?thesis
  proof (cases "node_level n")
    case ROOT
    then have "getChildCount t = 0"
      using assms(2) d by (auto simp: old split: list.splits if_splits option.splits
          dest: levels_below [OF assms(1) sym] levels_below [OF assms(1)])
    moreover have "s \<noteq> z" using ROOT assms(4,8) d z by simp
    ultimately show ?thesis using d getChild_insert(1) [where tok = tok and zone = zone and e = s and r = r, OF assms(1) z]
        getChild_insert(2) [where tok = tok and zone = zone and r = r, OF assms(1) z]
      by (simp add: found getChild_def getChildCount_def)
  next
    case TLD
    then obtain a ds b bs where ab: "subs = a # ds" "zs = b # bs"
      using assms(4-6) d z by (cases subs; cases zs) (auto dest!: arg_cong [where f = length])
    have "s = z" "a \<noteq> b" using TLD assms(4,7,8) d z ab by simp_all
    moreover have n: "getChild s t = Some n" "getChildCount n = 0"
      using assms(1,2) TLD d ab by (auto simp: old tree_ok_def split: if_splits option.splits
          dest: levels_below [OF assms(1) sym])
    moreover have "getChild a n = None" "child_or_new s t = n"
      using n by (simp_all add: getChild_def getChildCount_def child_or_new_def)
    ultimately show ?thesis
      using d ab getChild_insert(1) [where tok = tok and zone = zone and e = s and r = r, OF assms(1) z]
        getChild_insert(2) [where tok = tok and zone = zone and r = r, OF assms(1) z]
        getChild_insert_tld [OF tree_child [OF assms(1) n(1)]]
      by (simp add: found del: insert_loop.simps)
  next
    case AUTHORITATIVE
    with assms(3) show ?thesis by simp
  qed
qed

lemma set_insert_again:
  assumes "\<And>y. lt b y = lt a y" "\<And>y. lt y b = lt y a"
  shows "\<not> lt a a \<Longrightarrow> set_insert lt b (set_insert lt a ys) = set_insert lt a ys"
  by (induction ys) (simp_all add: assms)

lemma same_key_lost:
  assumes "rr_domain a = rr_domain b" "rr_type a = rr_type b" "rr_ip a = rr_ip b"
  shows "addRecord b (addRecord a n) = addRecord a n"
proof -
  have "set_insert record_less b (set_insert record_less a (node_records n)) =
      set_insert record_less a (node_records n)"
    by (rule set_insert_again) (use assms in \<open>simp_all add: record_less_def\<close>)
  then show ?thesis by (simp add: addRecord_def)
qed

text \<open>Records are told apart by name, type and address only: of two records that differ in their
  text, the second to arrive is lost, whatever else the zone holds.  And the order the set uses is no
  order: it puts each of two records before the other, which the library leaves undefined.
\<close>

theorem record_order_flaws:
  "(rr_domain a = rr_domain b \<and> rr_type a = rr_type b \<and> rr_ip a = rr_ip b \<longrightarrow>
     addRecord b (addRecord a n) = addRecord a n) \<and>
   (rr_domain a < rr_domain b \<and> rr_ip b < rr_ip a \<longrightarrow> record_less a b \<and> record_less b a)"
  by (auto simp: same_key_lost record_less_def)

text \<open>Concrete trees: the labels of a name without empty ones, addresses as numbers.\<close>

fun dot_labels :: "string \<Rightarrow> string \<Rightarrow> string list" where
  "dot_labels [] acc = (if acc = [] then [] else [acc])"
| "dot_labels (c # s) acc =
     (if c = CHR ''.'' then (if acc = [] then dot_labels s [] else acc # dot_labels s [])
      else dot_labels s (acc @ [c]))"

definition example_record :: "string \<Rightarrow> nat \<Rightarrow> RecordType \<Rightarrow> nat ResourceRecord" where
  "example_record d i ty = \<lparr>rr_domain = d, rr_contents = [], rr_ip = i, rr_type = ty\<rparr>"

definition tokens :: "string \<Rightarrow> string list" where
  "tokens s = dot_labels s []"

definition com_tree :: "nat DnsTreeNode" where
  "com_tree = insertRecord tokens ''com'' (example_record ''b.com'' 7 RT_NS) new_root"

lemma com_tree_ok: "tree_ok com_tree"
  unfolding com_tree_def by (rule tree_ok_insert) (simp add: tree_ok_def new_root_def map_ordered_def)

lemma tokens_eval [simp]:
  "tokens ''com'' = [''com'']" "tokens ''w.a.com'' = [''w'', ''a'', ''com'']"
  "tokens ''x.b.com'' = [''x'', ''b'', ''com'']" "tokens ''a.com'' = [''a'', ''com'']"
  by (simp_all add: tokens_def)

theorem insert_then_search_witness:
  "tree_ok (insertRecord tokens ''a.com'' (example_record ''w.a.com'' 9 RT_A) com_tree) \<and>
   (\<exists>p n. searchRecords tokens ''w.a.com''
        (insertRecord tokens ''a.com'' (example_record ''w.a.com'' 9 RT_A) com_tree) = Some (p, n) \<and>
      (\<exists>x\<in>set (node_records n). same_record x (example_record ''w.a.com'' 9 RT_A))) \<and>
   path_records [''com''] (insertRecord tokens ''a.com'' (example_record ''w.a.com'' 9 RT_A) com_tree) =
     Some [example_record ''b.com'' 7 RT_NS]"
proof -
  have z: "[''com'', ''a''] = take 2 (rev (tokens ''a.com''))" by simp
  have com: "path_records [''com''] com_tree = Some [example_record ''b.com'' 7 RT_NS]"
    by (simp add: com_tree_def path_records_insert tree_ok_def new_root_def map_ordered_def
        records_or_none_def path_records_new)
  note all = insert_then_search [where tok = tokens and zone = "''a.com''"
      and r = "example_record ''w.a.com'' 9 RT_A" and d = "''w.a.com''", OF com_tree_ok z]
  have "path_records [''com''] (insertRecord tokens ''a.com'' (example_record ''w.a.com'' 9 RT_A) com_tree)
      = path_records [''com''] com_tree"
    using all [THEN conjunct2, THEN conjunct2, THEN conjunct1, THEN spec [of _ "[''com'']"]] com
    by simp
  with all com show ?thesis by simp
qed

theorem record_order_flaws_witness:
  "addRecord \<lparr>rr_domain = ''d'', rr_contents = ''two'', rr_ip = 0, rr_type = RT_TXT\<rparr>
     (addRecord \<lparr>rr_domain = ''d'', rr_contents = ''one'', rr_ip = 0::nat, rr_type = RT_TXT\<rparr> new_root) =
   addRecord \<lparr>rr_domain = ''d'', rr_contents = ''one'', rr_ip = 0, rr_type = RT_TXT\<rparr> new_root \<and>
   record_less (example_record ''a'' 2 RT_A) (example_record ''b'' 1 RT_A) \<and>
   record_less (example_record ''b'' 1 RT_A) (example_record ''a'' 2 RT_A)"
  using record_order_flaws [of "example_record ''a'' 2 RT_A" "example_record ''b'' 1 RT_A"]
  by (simp add: record_order_flaws example_record_def)

end
