(* ===== verification/DnsServer.thy ===== *)
theory DnsServer
  imports DnsData
begin

text \<open>
  The name server \<open>architecture/dns/server/DnsServiceSimplified\<close>: it answers every request of a
  datagram from its zone database.

  A datagram is the list of its chunks with the address and port of its sender; the pattern matcher
  that says for which names the server is authoritative is a parameter of the server's state, and
  what the server sends goes to the list \<open>srv_sent\<close>.
\<close>

section \<open>State and operations\<close>

datatype 'ip chunk = RequestChunk "'ip DnsRequest" | OtherChunk

record 'ip Datagram =
  dg_src :: 'ip
  dg_port :: int
  dg_chunks :: "'ip chunk list"

record 'ip DnsServer =
  srv_db :: "'ip DnsTreeNode"
  srv_authority :: "string \<Rightarrow> bool"
  srv_sent :: "('ip DnsRequest \<times> 'ip \<times> int) list"

definition sendResponseTo :: "'ip Datagram \<Rightarrow> 'ip DnsRequest \<Rightarrow> 'ip DnsServer \<Rightarrow> 'ip DnsServer" where
  "sendResponseTo p response s = s\<lparr>srv_sent := srv_sent s @ [(response, dg_src p, dg_port p)]\<rparr>"

text \<open>A new element of a record array is a default constructed record.\<close>

definition default_record :: "'ip \<Rightarrow> 'ip ResourceRecord" where
  "default_record no_ip = \<lparr>rr_domain = [], rr_contents = [], rr_ip = no_ip, rr_type = RT_A\<rparr>"

definition processRecords ::
  "'ip \<Rightarrow> string \<Rightarrow> 'ip DnsRequest \<Rightarrow> 'ip ResourceRecord list \<Rightarrow> 'ip DnsServer \<Rightarrow> 'ip DnsRequest outcome" where
  "processRecords no_ip domain response rs s =
     (if srv_authority s domain then
        let response = response\<lparr>dr_isAuthoritative := True,
              dr_auth := resize_to (length rs) (default_record no_ip) (dr_auth response)\<rparr> in
        and_then (array_fill 0 rs (dr_auth response)) (\<lambda>xs. Inr (response\<lparr>dr_auth := xs\<rparr>))
      else
        let response = response\<lparr>dr_isAuthoritative := False,
              dr_nonAuth := resize_to (length rs) (default_record no_ip) (dr_nonAuth response)\<rparr> in
        and_then (array_fill 0 rs (dr_auth response)) (\<lambda>xs. Inr (response\<lparr>dr_auth := xs\<rparr>)))"

definition handleQuery ::
  "(string \<Rightarrow> string list) \<Rightarrow> 'ip \<Rightarrow> 'ip Datagram \<Rightarrow> 'ip DnsRequest \<Rightarrow> 'ip DnsServer \<Rightarrow> 'ip DnsServer outcome" where
  "handleQuery tok no_ip p req s =
     (if length (dr_question req) = 0 \<or> length (dr_question req) > 1
      then Inr (sendResponseTo p (req\<lparr>dr_returnCode := FORMERR\<rparr>) s)
      else
        let q = dr_question req ! 0 in
        (case db_searchRecords tok q (srv_db s) of
           Some (_, n) \<Rightarrow>
             (case getRecords n of
                Some rs \<Rightarrow> and_then (processRecords no_ip (q_domain q) req rs s) (\<lambda>response.
                    Inr (sendResponseTo p (response\<lparr>dr_returnCode := NOERROR\<rparr>) s))
              | None \<Rightarrow> Inr (sendResponseTo p (req\<lparr>dr_returnCode := NXDOMAIN\<rparr>) s))
         | None \<Rightarrow> Inr (sendResponseTo p (req\<lparr>dr_returnCode := NXDOMAIN\<rparr>) s)))"

definition handleNotImplemented :: "'ip Datagram \<Rightarrow> 'ip DnsRequest \<Rightarrow> 'ip DnsServer \<Rightarrow> 'ip DnsServer" where
  "handleNotImplemented p req s = sendResponseTo p (req\<lparr>dr_returnCode := NOTIMP\<rparr>) s"

text \<open>\<open>while (queue.has<DnsRequest>())\<close>\<close>

fun serve_chunks ::
  "(string \<Rightarrow> string list) \<Rightarrow> 'ip \<Rightarrow> 'ip Datagram \<Rightarrow> 'ip chunk list \<Rightarrow> 'ip DnsServer \<Rightarrow> 'ip DnsServer outcome" where
  "serve_chunks tok no_ip p (RequestChunk req # cs) s =
     and_then (if dr_operationCode req = QUERY then handleQuery tok no_ip p req s
               else Inr (handleNotImplemented p req s))
       (serve_chunks tok no_ip p cs)"
| "serve_chunks tok no_ip p cs s = Inr s"

definition srv_socketDataArrived ::
  "(string \<Rightarrow> string list) \<Rightarrow> 'ip \<Rightarrow> 'ip Datagram \<Rightarrow> 'ip DnsServer \<Rightarrow> 'ip DnsServer outcome" where
  "srv_socketDataArrived tok no_ip p s = serve_chunks tok no_ip p (dg_chunks p) s"

section \<open>What a server answers\<close>

text \<open>
  The specification of an answer.  \<open>zone_records\<close> is what the database holds for the only question
  of a request.
\<close>

definition zone_records :: "(string \<Rightarrow> string list) \<Rightarrow> 'ip DnsServer \<Rightarrow> 'ip DnsRequest \<Rightarrow> 'ip ResourceRecord list" where
  "zone_records tok s req =
     (case db_searchRecords tok (hd (dr_question req)) (srv_db s) of
        Some (_, n) \<Rightarrow> node_records n | None \<Rightarrow> [])"

definition authoritative_for :: "'ip DnsServer \<Rightarrow> 'ip DnsRequest \<Rightarrow> bool" where
  "authoritative_for s req \<longleftrightarrow> srv_authority s (q_domain (hd (dr_question req)))"

definition srv_answer :: "(string \<Rightarrow> string list) \<Rightarrow> 'ip DnsServer \<Rightarrow> 'ip DnsRequest \<Rightarrow> 'ip DnsRequest" where
  "srv_answer tok s req =
     (if dr_operationCode req \<noteq> QUERY then req\<lparr>dr_returnCode := NOTIMP\<rparr>
      else if length (dr_question req) \<noteq> 1 then req\<lparr>dr_returnCode := FORMERR\<rparr>
      else if zone_records tok s req = [] then req\<lparr>dr_returnCode := NXDOMAIN\<rparr>
      else req\<lparr>dr_returnCode := NOERROR, dr_isAuthoritative := True, dr_auth := zone_records tok s req\<rparr>)"

text \<open>A query for a zone that is held here under the authority of another server.\<close>

definition foreign_query :: "(string \<Rightarrow> string list) \<Rightarrow> 'ip DnsServer \<Rightarrow> 'ip DnsRequest \<Rightarrow> bool" where
  "foreign_query tok s req \<longleftrightarrow> dr_operationCode req = QUERY \<and> length (dr_question req) = 1 \<and>
     zone_records tok s req \<noteq> [] \<and> \<not> authoritative_for s req"

fun leading_requests :: "'ip chunk list \<Rightarrow> 'ip DnsRequest list" where
  "leading_requests (RequestChunk req # cs) = req # leading_requests cs"
| "leading_requests cs = []"

lemma handle_one:
  assumes "\<not> foreign_query tok s req"
  shows "(if dr_operationCode req = QUERY then handleQuery tok no_ip p req s
          else Inr (handleNotImplemented p req s)) =
    Inr (s\<lparr>srv_sent := srv_sent s @ [(srv_answer tok s req, dg_src p, dg_port p)]\<rparr>)"
proof (cases "dr_operationCode req = QUERY \<and> length (dr_question req) = 1")
  case True
  then obtain q where q: "dr_question req = [q]" by (auto simp: length_Suc_conv)
  show ?thesis
  proof (cases "zone_records tok s req = []")
    case True
    with q \<open>dr_operationCode req = QUERY \<and> _\<close> show ?thesis
      by (auto simp: handleQuery_def zone_records_def getRecords_def srv_answer_def sendResponseTo_def
          split: option.splits)
  next
    case False
    then obtain par n where n: "db_searchRecords tok q (srv_db s) = Some (par, n)"
        "zone_records tok s req = node_records n"
      using q by (auto simp: zone_records_def split: option.splits)
    have "srv_authority s (q_domain q)"
      using assms True False q by (simp add: foreign_query_def authoritative_for_def)
    with n q True False show ?thesis
      by (simp add: handleQuery_def getRecords_def processRecords_def array_fill_spec srv_answer_def
          sendResponseTo_def)
  qed
qed (auto simp: srv_answer_def handleNotImplemented_def sendResponseTo_def handleQuery_def not_less le_Suc_eq)

lemma answer_sent [simp]:
  "srv_answer tok (s\<lparr>srv_sent := x\<rparr>) = srv_answer tok s"
  "foreign_query tok (s\<lparr>srv_sent := x\<rparr>) = foreign_query tok s"
  by (simp_all add: fun_eq_iff srv_answer_def zone_records_def foreign_query_def authoritative_for_def)

lemma serve_chunks_spec:
  assumes "\<forall>req\<in>set (leading_requests cs). \<not> foreign_query tok s req"
  shows "serve_chunks tok no_ip p cs s = Inr (s\<lparr>srv_sent := srv_sent s @
    map (\<lambda>req. (srv_answer tok s req, dg_src p, dg_port p)) (leading_requests cs)\<rparr>)"
  using assms
proof (induction cs arbitrary: s)
  case (Cons c cs)
  show ?case
  proof (cases c)
    case (RequestChunk req)
    with Cons.prems handle_one [of tok s req no_ip p] Cons.IH show ?thesis by simp
  qed simp
qed simp

text \<open>
  The reply of a request whose zone is held without authority: the branch sizes one array and
  writes the other, so the records replace the first of those the request itself came with, and
  when it came with fewer there is no reply and the simulation ends.
\<close>

definition srv_reply ::
  "(string \<Rightarrow> string list) \<Rightarrow> 'ip \<Rightarrow> 'ip DnsServer \<Rightarrow> 'ip DnsRequest \<Rightarrow> 'ip DnsRequest option" where
  "srv_reply tok no_ip s req =
     (if \<not> foreign_query tok s req then Some (srv_answer tok s req)
      else let rs = zone_records tok s req in
        if length (dr_auth req) < length rs then None
        else Some (req\<lparr>dr_returnCode := NOERROR, dr_isAuthoritative := False,
          dr_auth := rs @ drop (length rs) (dr_auth req),
          dr_nonAuth := resize_to (length rs) (default_record no_ip) (dr_nonAuth req)\<rparr>))"

lemma srv_reply_sent [simp]: "srv_reply tok no_ip (s\<lparr>srv_sent := x\<rparr>) = srv_reply tok no_ip s"
  by (simp add: fun_eq_iff srv_reply_def zone_records_def)

lemma handle_foreign:
  assumes "foreign_query tok s req"
  shows "handleQuery tok no_ip p req s = (case srv_reply tok no_ip s req of
      None \<Rightarrow> Inl OutOfRange
    | Some r \<Rightarrow> Inr (s\<lparr>srv_sent := srv_sent s @ [(r, dg_src p, dg_port p)]\<rparr>))"
proof -
  obtain q where q: "dr_question req = [q]"
    using assms by (auto simp: foreign_query_def length_Suc_conv)
  then obtain par n where n: "db_searchRecords tok q (srv_db s) = Some (par, n)" "node_records n \<noteq> []"
    using assms by (auto simp: foreign_query_def zone_records_def split: option.splits)
  have zr: "zone_records tok s req = node_records n" using q n by (simp add: zone_records_def)
  have "\<not> srv_authority s (q_domain q)"
    using assms q by (simp add: foreign_query_def authoritative_for_def)
  with q n zr assms show ?thesis
    by (simp add: handleQuery_def getRecords_def processRecords_def array_fill_spec srv_reply_def
        sendResponseTo_def Let_def)
qed

lemma handle_any:
  "(if dr_operationCode req = QUERY then handleQuery tok no_ip p req s
    else Inr (handleNotImplemented p req s)) =
   (case srv_reply tok no_ip s req of
      None \<Rightarrow> Inl OutOfRange
    | Some r \<Rightarrow> Inr (s\<lparr>srv_sent := srv_sent s @ [(r, dg_src p, dg_port p)]\<rparr>))"
proof (cases "foreign_query tok s req")
  case True
  then have "dr_operationCode req = QUERY" by (simp add: foreign_query_def)
  with handle_foreign [OF True] show ?thesis by simp
next
  case False
  with handle_one [OF False, of no_ip p] show ?thesis by (simp add: srv_reply_def)
qed

lemma serve_chunks_all:
  "serve_chunks tok no_ip p cs s =
    (case those (map (srv_reply tok no_ip s) (leading_requests cs)) of
       None \<Rightarrow> Inl OutOfRange
     | Some rs \<Rightarrow> Inr (s\<lparr>srv_sent := srv_sent s @ map (\<lambda>r. (r, dg_src p, dg_port p)) rs\<rparr>))"
proof (induction cs arbitrary: s)
  case (Cons c cs)
  show ?case
  proof (cases c)
    case (RequestChunk req)
    show ?thesis
    proof (cases "srv_reply tok no_ip s req")
      case None
      with RequestChunk show ?thesis by (simp add: handle_any del: if_split)
    next
      case (Some r)
      with RequestChunk Cons.IH show ?thesis
        by (simp add: handle_any split: option.split del: if_split)
    qed
  qed simp
qed simp

text \<open>C12.  What a server does with any datagram: the requests at its front are replied to exactly
  once each, in order and to the sender of the datagram.  Other operations than queries are not
  implemented, a request with any number of questions but one is malformed, a name without records
  does not exist, and a name it has authority over gets all records of its zone, under the
  identifier and the question of the request.  A query for a zone that is held without authority
  has no reply of that kind: unless the request itself already carries at least as many answers as
  the zone has records (which the replied records then overwrite), it ends the simulation, so the
  datagram is served if and only if no request in it is such a query.
\<close>

theorem every_request_answered:
  "srv_socketDataArrived tok no_ip p s =
    (case those (map (srv_reply tok no_ip s) (leading_requests (dg_chunks p))) of
       None \<Rightarrow> Inl OutOfRange
     | Some rs \<Rightarrow> Inr (s\<lparr>srv_sent := srv_sent s @ map (\<lambda>r. (r, dg_src p, dg_port p)) rs\<rparr>)) \<and>
   (those (map (srv_reply tok no_ip s) (leading_requests (dg_chunks p))) = None \<longleftrightarrow>
     list_ex (\<lambda>req. foreign_query tok s req \<and> length (dr_auth req) < length (zone_records tok s req))
       (leading_requests (dg_chunks p)))"
proof
  have "srv_reply tok no_ip s req = None \<longleftrightarrow>
      foreign_query tok s req \<and> length (dr_auth req) < length (zone_records tok s req)" for req
    by (simp add: srv_reply_def Let_def)
  moreover have "those (map f xs) = None \<longleftrightarrow> list_ex (\<lambda>x. f x = None) xs"
    for f :: "'a DnsRequest \<Rightarrow> 'a DnsRequest option" and xs
    by (induction xs) (auto split: option.split)
  ultimately show "those (map (srv_reply tok no_ip s) (leading_requests (dg_chunks p))) = None \<longleftrightarrow>
     list_ex (\<lambda>req. foreign_query tok s req \<and> length (dr_auth req) < length (zone_records tok s req))
       (leading_requests (dg_chunks p))"
    by simp
qed (simp add: srv_socketDataArrived_def serve_chunks_all)

text \<open>A server never answers for a zone it holds without authority: the branch for these answers
  sizes one array and writes the other, so the first such query of a client, whose request carries no
  answers, ends the simulation.
\<close>

theorem non_authoritative_answer_fails:
  assumes "foreign_query tok s req" "dr_auth req = []" "dg_chunks p = map RequestChunk before @ RequestChunk req # rest"
    and "\<forall>r\<in>set before. \<not> foreign_query tok s r"
  shows "srv_socketDataArrived tok no_ip p s = Inl OutOfRange"
proof -
  have fail: "serve_chunks tok no_ip p (RequestChunk req # rest) s' = Inl OutOfRange"
    if s': "srv_db s' = srv_db s" "srv_authority s' = srv_authority s" for s'
  proof -
    obtain q where q: "dr_question req = [q]"
      using assms(1) by (auto simp: foreign_query_def length_Suc_conv)
    then obtain par n where n: "db_searchRecords tok q (srv_db s') = Some (par, n)" "node_records n \<noteq> []"
      using assms(1) s' by (auto simp: foreign_query_def zone_records_def split: option.splits)
    from q n assms(1,2) s' show ?thesis
      by (simp add: foreign_query_def authoritative_for_def handleQuery_def getRecords_def
          processRecords_def array_fill_spec)
  qed
  have "serve_chunks tok no_ip p (map RequestChunk before @ RequestChunk req # rest) s' = Inl OutOfRange"
    if "srv_db s' = srv_db s" "srv_authority s' = srv_authority s"
      "\<forall>r\<in>set before. \<not> foreign_query tok s' r" for s'
    using that
  proof (induction before arbitrary: s')
    case Nil
    then show ?case using fail by simp
  next
    case (Cons r before)
    then show ?case using handle_one [of tok s' r no_ip p] by simp
  qed
  with assms(3,4) show ?thesis by (simp add: srv_socketDataArrived_def)
qed

definition server_example :: "(string \<Rightarrow> bool) \<Rightarrow> nat DnsServer" where
  "server_example f = \<lparr>srv_db = com_tree, srv_authority = f, srv_sent = []\<rparr>"

definition query_example :: "nat DnsRequest" where
  "query_example = \<lparr>dr_requestId = 5, dr_operationCode = QUERY, dr_returnCode = NOERROR,
     dr_isAuthoritative = False, dr_question = [\<lparr>q_domain = ''com'', q_type = RT_A\<rparr>],
     dr_nonAuth = [], dr_auth = []\<rparr>"

definition datagram_example :: "nat Datagram" where
  "datagram_example = \<lparr>dg_src = 8, dg_port = 53, dg_chunks = [RequestChunk query_example]\<rparr>"

lemma com_zone: "zone_records tokens (server_example f) query_example = [example_record ''b.com'' 7 RT_NS]"
  by (simp add: zone_records_def query_example_def server_example_def db_searchRecords_def
      searchRecords_def com_tree_def insertRecord_def NUM_DNS_LEVELS_def getChildOrCreate_def
      new_root_def addRecord_def getChildCount_def getChild_def)

theorem every_request_answered_witness:
  "\<exists>s'. srv_socketDataArrived tokens 0 datagram_example (server_example (\<lambda>_. True)) = Inr s' \<and>
     map (\<lambda>(r, to, _). (dr_requestId r, dr_auth r, to)) (srv_sent s') =
       [(5, [example_record ''b.com'' 7 RT_NS], 8)]"
proof -
  have "\<not> foreign_query tokens (server_example (\<lambda>_. True)) query_example"
    by (simp add: foreign_query_def authoritative_for_def server_example_def)
  then show ?thesis
    using com_zone [of "\<lambda>_. True"]
      every_request_answered [of tokens 0 datagram_example "server_example (\<lambda>_. True)"]
    by (simp add: datagram_example_def srv_answer_def srv_reply_def)
      (simp add: server_example_def query_example_def)
qed

theorem non_authoritative_answer_fails_witness:
  "srv_socketDataArrived tokens 0 datagram_example (server_example (\<lambda>_. False)) = Inl OutOfRange"
proof (rule non_authoritative_answer_fails [where before = "[]" and rest = "[]" and req = query_example])
  show "foreign_query tokens (server_example (\<lambda>_. False)) query_example"
    using com_zone [of "\<lambda>_. False"]
    by (simp add: foreign_query_def authoritative_for_def) (simp add: query_example_def server_example_def)
qed (simp_all add: query_example_def datagram_example_def)

end
