(* ===== verification/DnsResolver.thy ===== *)
theory DnsResolver
  imports DnsServer
begin

text \<open>
  The recursive resolver \<open>architecture/dns/resolver\<close>: the resolution of one request
  (\<open>Resolution.h\<close>) and the module \<open>DnsResolverService\<close>, which resolves requests from its cache and
  asks other servers through the client module.

  A resolution handed around by reference is a value that the operations return updated.
  \<open>processResolution\<close> and \<open>processAuthResolution\<close> call each other once for every alias followed; the
  model bounds the depth of these calls by \<open>fuel\<close>, and running out of it is the outcome of a call
  stack that overflows.  Replies to clients and commands to the client module go to \<open>rv_out\<close>.
\<close>

section \<open>State\<close>

datatype ResolutionState =
  INIT | TLD_RESOLUTION | NS_RESOLUTION | AUTH_RESOLUTION | RESOLVED | NOT_FOUND | SERVER_ERROR

record 'ip Resolution =
  rs_id :: u16
  rs_remoteAddress :: 'ip
  rs_remotePort :: int
  rs_question :: DnsQuestion
  rs_state :: ResolutionState
  rs_response :: "'ip DnsRequest option"

datatype 'ip resolver_out =
    Reply "'ip DnsRequest" 'ip int
  | AskServers "'ip DnsClientCommand"

record 'ip DnsResolver =
  rv_db :: "'ip DnsTreeNode"
  resolutions :: "u16 \<rightharpoonup> 'ip Resolution"
  questionMap :: "string \<rightharpoonup> u16"
  requestMap :: "u16 \<rightharpoonup> u16 list"   \<comment> \<open>ordered sets\<close>
  lastId :: u16
  lastQuestionId :: u16
  rv_out :: "'ip resolver_out list"

definition resolver_initialize :: "'ip DnsTreeNode \<Rightarrow> 'ip DnsResolver" where
  "resolver_initialize db = \<lparr>rv_db = db, resolutions = Map.empty, questionMap = Map.empty,
     requestMap = Map.empty, lastId = 0, lastQuestionId = 0, rv_out = []\<rparr>"

definition resolver_finish :: "'ip DnsResolver \<Rightarrow> 'ip DnsResolver" where
  "resolver_finish s = s\<lparr>questionMap := Map.empty, requestMap := Map.empty, resolutions := Map.empty\<rparr>"

text \<open>The constructors; \<open>getQuestion(0)\<close> checks its index.\<close>

definition new_Resolution :: "u16 \<Rightarrow> 'ip \<Rightarrow> int \<Rightarrow> 'ip DnsRequest \<Rightarrow> 'ip Resolution outcome" where
  "new_Resolution i ip port req =
     (case dr_question req of
        [] \<Rightarrow> Inl OutOfRange
      | q # _ \<Rightarrow> Inr \<lparr>rs_id = i, rs_remoteAddress = ip, rs_remotePort = port, rs_question = q,
          rs_state = INIT, rs_response = Some req\<rparr>)"

definition default_Resolution :: "'ip \<Rightarrow> 'ip Resolution" where
  "default_Resolution no_ip = \<lparr>rs_id = 0, rs_remoteAddress = no_ip, rs_remotePort = 0,
     rs_question = \<lparr>q_domain = [], q_type = RT_A\<rparr>, rs_state = INIT, rs_response = None\<rparr>"

definition hasFinished :: "'ip Resolution \<Rightarrow> bool" where
  "hasFinished r \<longleftrightarrow> rs_state r = RESOLVED \<or> rs_state r = NOT_FOUND"

definition getCurrentQuestion :: "'ip Resolution \<Rightarrow> string" where
  "getCurrentQuestion r = q_domain (rs_question r)"

text \<open>The response is a pointer; using a null one is undefined.\<close>

definition with_response ::
  "'ip Resolution \<Rightarrow> ('ip DnsRequest \<Rightarrow> 'ip DnsRequest) \<Rightarrow> 'ip Resolution outcome" where
  "with_response r f =
     (case rs_response r of
        None \<Rightarrow> Inl (Undefined ''null response'')
      | Some x \<Rightarrow> Inr (r\<lparr>rs_response := Some (f x)\<rparr>))"

section \<open>Operations\<close>

definition resolver_sendResponse ::
  "'ip Resolution \<Rightarrow> 'ip DnsResolver \<Rightarrow> ('ip Resolution \<times> 'ip DnsResolver) outcome" where
  "resolver_sendResponse r s =
     (if \<not> hasFinished r
      then Inl (RuntimeError ''Attempting to send response(s) for a resolution that is not finished'')
      else
        let code = (if rs_state r = RESOLVED then NOERROR
                    else if rs_state r = NOT_FOUND then NXDOMAIN else SERVFAIL) in
        and_then (with_response r (\<lambda>x. x\<lparr>dr_returnCode := code, dr_isAuthoritative := False\<rparr>)) (\<lambda>r.
          Inr (r, s\<lparr>rv_out := rv_out s @
            [Reply (the (rs_response r)) (rs_remoteAddress r) (rs_remotePort r)]\<rparr>)))"

definition makeTransition ::
  "'ip Resolution \<Rightarrow> ResolutionState \<Rightarrow> 'ip DnsResolver \<Rightarrow> ('ip Resolution \<times> 'ip DnsResolver) outcome" where
  "makeTransition r st s =
     (let r = r\<lparr>rs_state := st\<rparr> in
      if hasFinished r then resolver_sendResponse r s else Inr (r, s))"

definition requestMap_insert :: "u16 \<Rightarrow> u16 \<Rightarrow> 'ip DnsResolver \<Rightarrow> 'ip DnsResolver" where
  "requestMap_insert k i s = s\<lparr>requestMap := (requestMap s)
     (k \<mapsto> set_insert (<) i (case requestMap s k of None \<Rightarrow> [] | Some is \<Rightarrow> is))\<rparr>"

text \<open>The addresses of the servers to ask.\<close>

fun authority_ips :: "'ip ResourceRecord list \<Rightarrow> string \<Rightarrow> 'ip list outcome" where
  "authority_ips [] domain = Inr []"
| "authority_ips (r # rs) domain =
     (if rr_type r = RT_NS
      then and_then (matchesAuthorityDomain r domain) (\<lambda>b.
             and_then (authority_ips rs domain) (\<lambda>ips. Inr (if b then rr_ip r # ips else ips)))
      else authority_ips rs domain)"

definition name_server_ips :: "'ip ResourceRecord list \<Rightarrow> 'ip list" where
  "name_server_ips rs = map rr_ip (filter (\<lambda>r. rr_type r = RT_NS) rs)"

definition servers_to_ask ::
  "'ip DnsTreeNode option \<Rightarrow> 'ip DnsTreeNode \<Rightarrow> string \<Rightarrow> 'ip list outcome" where
  "servers_to_ask parent n domain =
     (if node_level n = AUTHORITATIVE
      then (case parent of
          None \<Rightarrow> Inl (Undefined ''null parent'')
        | Some p \<Rightarrow> (case getRecords p of
              None \<Rightarrow> Inl (Undefined ''null records'')
            | Some rs \<Rightarrow> authority_ips rs domain))
      else (case getRecords n of
          None \<Rightarrow> Inl (Undefined ''null records'')
        | Some rs \<Rightarrow> Inr (name_server_ips rs)))"

definition question_request :: "u16 \<Rightarrow> DnsQuestion \<Rightarrow> 'ip DnsRequest" where
  "question_request i q = \<lparr>dr_requestId = i, dr_operationCode = QUERY, dr_returnCode = NOERROR,
     dr_isAuthoritative = False, dr_question = [q], dr_nonAuth = [], dr_auth = []\<rparr>"

definition registerQuestion ::
  "DnsQuestion \<Rightarrow> 'ip DnsTreeNode option \<Rightarrow> 'ip DnsTreeNode \<Rightarrow> u16 \<Rightarrow> 'ip DnsResolver \<Rightarrow> 'ip DnsResolver outcome" where
  "registerQuestion question parent n i s =
     and_then (getQuestionForLevel (q_domain question) (node_level n)) (\<lambda>q.
       (case questionMap s q of
          Some k \<Rightarrow> Inr (requestMap_insert k i s)
        | None \<Rightarrow>
            let s = requestMap_insert i i (s\<lparr>questionMap := (questionMap s)(q \<mapsto> i)\<rparr>);
                c = lastQuestionId s;
                s = s\<lparr>lastQuestionId := c + 1\<rparr> in
            and_then (servers_to_ask parent n (q_domain question)) (\<lambda>ips.
              and_then (require (ips \<noteq> []) (AssertFail ''Error, no IPs to query'')) (\<lambda>_.
                Inr (s\<lparr>rv_out := rv_out s @ [AskServers \<lparr>cc_ipPool = ips, cc_requestId = c,
                  cc_payload = question_request c question\<rparr>]\<rparr>)))))"

text \<open>
  The loop over the records of the zone: the answers are collected, and the first alias that matches
  replaces the question and ends it (the second component says so).
\<close>

fun scan_records :: "'ip ResourceRecord list \<Rightarrow> 'ip Resolution \<Rightarrow> ('ip Resolution \<times> bool) outcome" where
  "scan_records [] r = Inr (r, False)"
| "scan_records (rec # rs) r =
     (if matchWithWildcard rec (getCurrentQuestion r)
      then if rr_type rec = RT_CNAME
           then Inr (r\<lparr>rs_question := (rs_question r)\<lparr>q_domain := rr_contents rec\<rparr>\<rparr>, True)
           else and_then (with_response r (\<lambda>x. x\<lparr>dr_nonAuth := dr_nonAuth x @ [rec]\<rparr>)) (scan_records rs)
      else scan_records rs r)"

definition processAuthResolution ::
  "('ip Resolution \<Rightarrow> 'ip DnsResolver \<Rightarrow> ('ip Resolution \<times> bool \<times> 'ip DnsResolver) outcome) \<Rightarrow>
   'ip DnsTreeNode option \<Rightarrow> 'ip DnsTreeNode \<Rightarrow> 'ip Resolution \<Rightarrow> 'ip DnsResolver \<Rightarrow>
   ('ip Resolution \<times> 'ip DnsResolver) outcome" where
  "processAuthResolution again parent n r s =
     and_then (scan_records (node_records n) r) (\<lambda>(r, alias).
       if alias then and_then (again r s) (\<lambda>(r, _, s). Inr (r, s))
       else (case rs_response r of
           None \<Rightarrow> Inl (Undefined ''null response'')
         | Some x \<Rightarrow>
             if length (dr_nonAuth x) > 0 then makeTransition r RESOLVED s
             else if rs_state r = INIT
             then and_then (makeTransition r AUTH_RESOLUTION s) (\<lambda>(r, s).
                    and_then (registerQuestion (rs_question r) parent n (rs_id r) s) (\<lambda>s. Inr (r, s)))
             else makeTransition r NOT_FOUND s))"

text \<open>
  \<open>processResolution\<close> returns the resolution, whether it erases its entry (\<open>resolutions.erase\<close>, the
  last statement), and the state; the callers do the erasing, since only they know where the
  resolution is stored.
\<close>

fun processResolution ::
  "nat \<Rightarrow> (string \<Rightarrow> string list) \<Rightarrow> bool \<Rightarrow> 'ip Resolution \<Rightarrow> 'ip DnsResolver \<Rightarrow>
   ('ip Resolution \<times> bool \<times> 'ip DnsResolver) outcome" where
  "processResolution 0 tok recursion r s = Inl (Undefined ''call stack exhausted'')"
| "processResolution (Suc fuel) tok recursion r s =
     (case db_searchRecords tok (rs_question r) (rv_db s) of
        None \<Rightarrow> and_then (makeTransition r NOT_FOUND s) (\<lambda>(r, s). Inr (r, False, s))
      | Some (parent, n) \<Rightarrow>
          if getRecords n = None
          then and_then (makeTransition r NOT_FOUND s) (\<lambda>(r, s). Inr (r, False, s))
          else and_then
            (if node_level n = AUTHORITATIVE
             then processAuthResolution (processResolution fuel tok True) parent n r s
             else and_then (makeTransition r (if node_level n = ROOT then TLD_RESOLUTION else NS_RESOLUTION) s)
               (\<lambda>(r, s). and_then (registerQuestion (rs_question r) parent n (rs_id r) s) (\<lambda>s. Inr (r, s))))
            (\<lambda>(r, s). Inr (r, hasFinished r \<and> \<not> recursion, s)))"

definition erase_resolution :: "u16 \<Rightarrow> 'ip DnsResolver \<Rightarrow> 'ip DnsResolver" where
  "erase_resolution i s = s\<lparr>resolutions := (resolutions s)(i := None)\<rparr>"

definition resolver_handleRequest ::
  "nat \<Rightarrow> (string \<Rightarrow> string list) \<Rightarrow> 'ip Datagram \<Rightarrow> 'ip DnsRequest \<Rightarrow> 'ip DnsResolver \<Rightarrow> 'ip DnsResolver outcome" where
  "resolver_handleRequest fuel tok p req s =
     and_then (new_Resolution (lastId s) (dg_src p) (dg_port p) req) (\<lambda>r.
       let s = s\<lparr>lastId := lastId s + 1\<rparr>; questionCount = length (dr_question req) in
       if questionCount = 0 \<or> questionCount > 1
       then and_then (with_response r (\<lambda>x. x\<lparr>dr_returnCode := FORMERR\<rparr>)) (\<lambda>r.
              and_then (makeTransition r RESOLVED s) (\<lambda>(r, s).
                and_then (resolver_sendResponse r s) (\<lambda>(_, s). Inr s)))
       else and_then (processResolution fuel tok False r s) (\<lambda>(r, erase, s).
              let s = (if erase then erase_resolution (rs_id r) s else s) in
              Inr (if hasFinished r then s
                   else s\<lparr>resolutions := (resolutions s)(rs_id r \<mapsto> r)\<rparr>)))"

fun resolver_chunks ::
  "nat \<Rightarrow> (string \<Rightarrow> string list) \<Rightarrow> 'ip Datagram \<Rightarrow> 'ip chunk list \<Rightarrow> 'ip DnsResolver \<Rightarrow> 'ip DnsResolver outcome" where
  "resolver_chunks fuel tok p (RequestChunk req # cs) s =
     and_then (resolver_handleRequest fuel tok p req s) (resolver_chunks fuel tok p cs)"
| "resolver_chunks fuel tok p cs s = Inr s"

definition resolver_socketDataArrived ::
  "nat \<Rightarrow> (string \<Rightarrow> string list) \<Rightarrow> 'ip Datagram \<Rightarrow> 'ip DnsResolver \<Rightarrow> 'ip DnsResolver outcome" where
  "resolver_socketDataArrived fuel tok p s = resolver_chunks fuel tok p (dg_chunks p) s"

fun markFailedResolutions :: "u16 list \<Rightarrow> ReturnCode \<Rightarrow> 'ip DnsResolver \<Rightarrow> 'ip DnsResolver outcome" where
  "markFailedResolutions [] code s = Inr s"
| "markFailedResolutions (i # is) code s =
     (case resolutions s i of
        None \<Rightarrow> Inl (Undefined ''end iterator'')
      | Some r \<Rightarrow>
          and_then (with_response r (\<lambda>x. x\<lparr>dr_returnCode := code\<rparr>)) (\<lambda>r.
            and_then (makeTransition r NOT_FOUND s) (\<lambda>(_, s).
              markFailedResolutions is code (erase_resolution i s))))"

text \<open>
  \<open>processResolution(resolutions[id])\<close> for every waiting resolution.  The set iterated over can only
  grow by the element being processed, so the loop runs over the set as it was.
\<close>

fun process_waiting ::
  "nat \<Rightarrow> (string \<Rightarrow> string list) \<Rightarrow> 'ip \<Rightarrow> u16 list \<Rightarrow> 'ip DnsResolver \<Rightarrow> 'ip DnsResolver outcome" where
  "process_waiting fuel tok no_ip [] s = Inr s"
| "process_waiting fuel tok no_ip (i # is) s =
     and_then (processResolution fuel tok False
         (case resolutions s i of None \<Rightarrow> default_Resolution no_ip | Some r \<Rightarrow> r) s)
       (\<lambda>(r, erase, s).
         let s = s\<lparr>resolutions := (resolutions s)(i \<mapsto> r)\<rparr> in
         process_waiting fuel tok no_ip is (if erase then erase_resolution (rs_id r) s else s))"

definition insert_records ::
  "(string \<Rightarrow> string list) \<Rightarrow> string \<Rightarrow> 'ip::linorder ResourceRecord list \<Rightarrow> 'ip DnsTreeNode \<Rightarrow> 'ip DnsTreeNode" where
  "insert_records tok zone rs t = fold (insertRecord tok zone) rs t"

definition resolver_handleResponse ::
  "nat \<Rightarrow> (string \<Rightarrow> string list) \<Rightarrow> 'ip::linorder \<Rightarrow> 'ip DnsClientIndication \<Rightarrow> 'ip DnsResolver \<Rightarrow>
   'ip DnsResolver outcome" where
  "resolver_handleResponse fuel tok no_ip msg s =
     (case requestMap s (ci_requestId msg) of
        None \<Rightarrow> Inl (RuntimeError ''Received a response for an unknown request'')
      | Some ids \<Rightarrow>
          if ci_result msg \<noteq> DC_OK then markFailedResolutions ids SERVFAIL s
          else (case ci_payload msg of
              None \<Rightarrow> Inl (AssertFail ''Error, receive send OK with empty payload!'')
            | Some response \<Rightarrow>
                and_then
                  (if dr_returnCode response = NOERROR
                   then (case dr_question response of
                       [] \<Rightarrow> Inl OutOfRange
                     | q # _ \<Rightarrow> process_waiting fuel tok no_ip ids
                         (s\<lparr>rv_db := insert_records tok (q_domain q) (dr_auth response)
                            (insert_records tok (q_domain q) (dr_nonAuth response) (rv_db s))\<rparr>))
                   else markFailedResolutions ids (dr_returnCode response) s)
                  (\<lambda>s. let s = s\<lparr>requestMap := (requestMap s)(ci_requestId msg := None)\<rparr> in
                    (case dr_question response of
                       [] \<Rightarrow> Inl OutOfRange
                     | q # _ \<Rightarrow> Inr (s\<lparr>questionMap := (questionMap s)(q_domain q := None)\<rparr>)))))"

section \<open>Answers from the cache\<close>

definition matching :: "string \<Rightarrow> 'ip ResourceRecord list \<Rightarrow> 'ip ResourceRecord list" where
  "matching domain rs = filter (\<lambda>r. matchWithWildcard r domain) rs"

lemma with_response_Some [simp]:
  "rs_response r = Some x \<Longrightarrow> with_response r f = Inr (r\<lparr>rs_response := Some (f x)\<rparr>)"
  by (simp add: with_response_def)

lemma scan_no_alias:
  assumes "\<forall>x\<in>set (matching (getCurrentQuestion r) rs). rr_type x \<noteq> RT_CNAME" "rs_response r = Some x"
  shows "scan_records rs r =
    Inr (r\<lparr>rs_response := Some (x\<lparr>dr_nonAuth := dr_nonAuth x @ matching (getCurrentQuestion r) rs\<rparr>)\<rparr>, False)"
  using assms
proof (induction rs arbitrary: r x)
  case Nil
  then show ?case by (simp add: matching_def)
next
  case (Cons y rs)
  let ?x = "x\<lparr>dr_nonAuth := dr_nonAuth x @ [y]\<rparr>"
  show ?case
  proof (cases "matchWithWildcard y (getCurrentQuestion r)")
    case True
    have "\<forall>z\<in>set (matching (getCurrentQuestion (r\<lparr>rs_response := Some ?x\<rparr>)) rs). rr_type z \<noteq> RT_CNAME"
      using Cons.prems by (simp add: matching_def getCurrentQuestion_def)
    from Cons.IH [OF this, of ?x] True Cons.prems show ?thesis
      by (simp add: matching_def getCurrentQuestion_def)
  next
    case False
    with Cons.IH [of r x] Cons.prems show ?thesis by (simp add: matching_def)
  qed
qed

lemma scan_alias:
  assumes "find (\<lambda>x. matchWithWildcard x (getCurrentQuestion r)) rs = Some y" "rr_type y = RT_CNAME"
  shows "scan_records rs r =
    Inr (r\<lparr>rs_question := (rs_question r)\<lparr>q_domain := rr_contents y\<rparr>\<rparr>, True)"
  using assms by (induction rs) (auto split: if_splits)

lemma makeTransition_finish:
  assumes "st = RESOLVED \<or> st = NOT_FOUND" "rs_response r = Some x"
    "x' = x\<lparr>dr_returnCode := (if st = RESOLVED then NOERROR else NXDOMAIN), dr_isAuthoritative := False\<rparr>"
  shows "makeTransition r st s = Inr (r\<lparr>rs_state := st, rs_response := Some x'\<rparr>,
    s\<lparr>rv_out := rv_out s @ [Reply x' (rs_remoteAddress r) (rs_remotePort r)]\<rparr>)"
  using assms by (auto simp: makeTransition_def Let_def hasFinished_def resolver_sendResponse_def)

lemma makeTransition_go:
  "st \<noteq> RESOLVED \<Longrightarrow> st \<noteq> NOT_FOUND \<Longrightarrow> makeTransition r st s = Inr (r\<lparr>rs_state := st\<rparr>, s)"
  by (simp add: makeTransition_def hasFinished_def)

text \<open>
  The cache holds an answer for a question: the name has an authoritative node, some records of it
  match, and none of these is an alias.
\<close>

definition cached_answer ::
  "(string \<Rightarrow> string list) \<Rightarrow> DnsQuestion \<Rightarrow> 'ip DnsTreeNode \<Rightarrow> 'ip ResourceRecord list \<Rightarrow> bool" where
  "cached_answer tok q db ans \<longleftrightarrow>
     (case db_searchRecords tok q db of
        None \<Rightarrow> False
      | Some (_, n) \<Rightarrow> node_level n = AUTHORITATIVE \<and> ans = matching (q_domain q) (node_records n) \<and>
          ans \<noteq> [] \<and> (\<forall>x\<in>set ans. rr_type x \<noteq> RT_CNAME))"

definition good_reply :: "'ip DnsRequest \<Rightarrow> 'ip ResourceRecord list \<Rightarrow> 'ip DnsRequest" where
  "good_reply req ans = req\<lparr>dr_nonAuth := dr_nonAuth req @ ans, dr_returnCode := NOERROR,
     dr_isAuthoritative := False\<rparr>"

lemma process_cached:
  assumes "cached_answer tok (rs_question r) (rv_db s) ans" "rs_response r = Some x"
  shows "processResolution (Suc fuel) tok rec r s =
    Inr (r\<lparr>rs_state := RESOLVED, rs_response := Some (good_reply x ans)\<rparr>, \<not> rec,
      s\<lparr>rv_out := rv_out s @ [Reply (good_reply x ans) (rs_remoteAddress r) (rs_remotePort r)]\<rparr>)"
proof -
  obtain par n where n: "db_searchRecords tok (rs_question r) (rv_db s) = Some (par, n)"
      "node_level n = AUTHORITATIVE" "ans = matching (q_domain (rs_question r)) (node_records n)"
      "ans \<noteq> []" "\<forall>x\<in>set ans. rr_type x \<noteq> RT_CNAME"
    using assms(1) by (auto simp: cached_answer_def split: option.splits)
  have rec: "node_records n \<noteq> []" using n(3,4) by (auto simp: matching_def)
  have "scan_records (node_records n) r =
      Inr (r\<lparr>rs_response := Some (x\<lparr>dr_nonAuth := dr_nonAuth x @ ans\<rparr>)\<rparr>, False)"
    using scan_no_alias [OF _ assms(2), of "node_records n"] n(3,5) by (simp add: getCurrentQuestion_def)
  then show ?thesis
    using n rec makeTransition_finish [OF _ _ refl, of RESOLVED "r\<lparr>rs_response := Some (x\<lparr>dr_nonAuth := dr_nonAuth x @ ans\<rparr>)\<rparr>"]
    by (simp add: getRecords_def processAuthResolution_def hasFinished_def good_reply_def)
qed

lemma process_ask:
  assumes "db_searchRecords tok (rs_question r) (rv_db s) = Some (par, n)" "getRecords n \<noteq> None"
    "node_level n \<noteq> AUTHORITATIVE"
  shows "processResolution (Suc fuel) tok rec r s =
    and_then (registerQuestion (rs_question r) par n (rs_id r) s) (\<lambda>s.
      Inr (r\<lparr>rs_state := (if node_level n = ROOT then TLD_RESOLUTION else NS_RESOLUTION)\<rparr>, False, s))"
  using assms by (auto simp: makeTransition_go hasFinished_def and_then_def split: sum.split)

definition asks :: "(string \<Rightarrow> string list) \<Rightarrow> DnsQuestion \<Rightarrow> 'ip DnsTreeNode \<Rightarrow> string \<Rightarrow> 'ip list \<Rightarrow> bool" where
  "asks tok q db key ips \<longleftrightarrow>
     (case db_searchRecords tok q db of
        None \<Rightarrow> False
      | Some (_, n) \<Rightarrow> node_level n \<noteq> AUTHORITATIVE \<and> getQuestionForLevel (q_domain q) (node_level n) = Inr key \<and>
          ips = name_server_ips (node_records n) \<and> ips \<noteq> [])"

lemma handle_ask:
  assumes "asks tok q (rv_db s) key ips" "dr_question req = [q]"
  shows "resolver_handleRequest (Suc fuel) tok p req s =
    (let i = lastId s; r = \<lparr>rs_id = i, rs_remoteAddress = dg_src p, rs_remotePort = dg_port p,
        rs_question = q, rs_state = (case db_searchRecords tok q (rv_db s) of
            Some (_, n) \<Rightarrow> if node_level n = ROOT then TLD_RESOLUTION else NS_RESOLUTION),
        rs_response = Some req\<rparr>;
      s' = s\<lparr>lastId := i + 1, resolutions := (resolutions s)(i \<mapsto> r)\<rparr> in
     Inr (case questionMap s key of
        Some k \<Rightarrow> requestMap_insert k i s'
      | None \<Rightarrow> (requestMap_insert i i s')
          \<lparr>questionMap := (questionMap s)(key \<mapsto> i), lastQuestionId := lastQuestionId s + 1,
           rv_out := rv_out s @ [AskServers \<lparr>cc_ipPool = ips, cc_requestId = lastQuestionId s,
             cc_payload = question_request (lastQuestionId s) q\<rparr>]\<rparr>))"
proof -
  obtain par n where n: "db_searchRecords tok q (rv_db s) = Some (par, n)"
      "node_level n \<noteq> AUTHORITATIVE" "getQuestionForLevel (q_domain q) (node_level n) = Inr key"
      "ips = name_server_ips (node_records n)" "ips \<noteq> []"
    using assms(1) by (auto simp: asks_def split: option.splits)
  have g: "getRecords n = Some (node_records n)"
    using n(4,5) by (auto simp: getRecords_def name_server_ips_def)
  let ?r = "\<lparr>rs_id = lastId s, rs_remoteAddress = dg_src p, rs_remotePort = dg_port p,
      rs_question = q, rs_state = INIT, rs_response = Some req\<rparr>"
  note ask = process_ask [where r = ?r and s = "s\<lparr>lastId := lastId s + 1\<rparr>" and tok = tok and par = par
      and n = n and fuel = fuel and rec = False]
  show ?thesis
    using assms(2) ask n g
    by (cases "questionMap s key")
      (simp_all add: resolver_handleRequest_def new_Resolution_def registerQuestion_def Let_def
        servers_to_ask_def requestMap_insert_def hasFinished_def)
qed

section \<open>Properties\<close>

lemma process_waiting_cached:
  assumes "distinct ids"
    and "\<forall>i\<in>set ids. \<exists>r x. resolutions s i = Some r \<and> rs_id r = i \<and> rs_response r = Some x \<and>
      cached_answer tok (rs_question r) (rv_db s) (ans i)"
  shows "process_waiting (Suc fuel) tok no_ip ids s = Inr (s\<lparr>
      resolutions := (\<lambda>i. if i \<in> set ids then None else resolutions s i),
      rv_out := rv_out s @ map (\<lambda>i. let r = the (resolutions s i) in
        Reply (good_reply (the (rs_response r)) (ans i)) (rs_remoteAddress r) (rs_remotePort r)) ids\<rparr>)"
  using assms
proof (induction ids arbitrary: s)
  case (Cons i ids)
  obtain r x where r: "resolutions s i = Some r" "rs_id r = i" "rs_response r = Some x"
    "cached_answer tok (rs_question r) (rv_db s) (ans i)" using Cons.prems(2) by auto
  let ?s = "s\<lparr>rv_out := rv_out s @ [Reply (good_reply x (ans i)) (rs_remoteAddress r) (rs_remotePort r)],
      resolutions := (resolutions s)(i := None)\<rparr>"
  have "process_waiting (Suc fuel) tok no_ip (i # ids) s = process_waiting (Suc fuel) tok no_ip ids ?s"
    using process_cached [OF r(4,3), of fuel False] r(1,2)
    by (simp add: erase_resolution_def del: processResolution.simps)
  moreover have "\<forall>j\<in>set ids. \<exists>r x. resolutions ?s j = Some r \<and> rs_id r = j \<and> rs_response r = Some x \<and>
      cached_answer tok (rs_question r) (rv_db ?s) (ans j)"
    using Cons.prems by auto
  ultimately show ?case
    using Cons.IH [of ?s] Cons.prems(1) r(1,3)
    by (auto simp: Let_def fun_eq_iff cong: map_cong)
qed (simp add: fun_eq_iff)

text \<open>The cache after a response has been stored.\<close>

definition stored :: "(string \<Rightarrow> string list) \<Rightarrow> 'ip::linorder DnsRequest \<Rightarrow> string \<Rightarrow> 'ip DnsTreeNode \<Rightarrow> 'ip DnsTreeNode" where
  "stored tok response zone db =
     insert_records tok zone (dr_auth response) (insert_records tok zone (dr_nonAuth response) db)"

lemma handleResponse_answers:
  assumes "requestMap s (ci_requestId msg) = Some ids" "distinct ids" "ci_result msg = DC_OK"
    and "ci_payload msg = Some response" "dr_returnCode response = NOERROR" "dr_question response = q # qs"
    and "\<forall>i\<in>set ids. \<exists>r x. resolutions s i = Some r \<and> rs_id r = i \<and> rs_response r = Some x \<and>
      cached_answer tok (rs_question r) (stored tok response (q_domain q) (rv_db s)) (ans i)"
  shows "resolver_handleResponse (Suc fuel) tok no_ip msg s = Inr (s\<lparr>
      rv_db := stored tok response (q_domain q) (rv_db s),
      resolutions := (\<lambda>i. if i \<in> set ids then None else resolutions s i),
      requestMap := (requestMap s)(ci_requestId msg := None),
      questionMap := (questionMap s)(q_domain q := None),
      rv_out := rv_out s @ map (\<lambda>i. let r = the (resolutions s i) in
        Reply (good_reply (the (rs_response r)) (ans i)) (rs_remoteAddress r) (rs_remotePort r)) ids\<rparr>)"
  using assms process_waiting_cached [where s = "s\<lparr>rv_db := stored tok response (q_domain q) (rv_db s)\<rparr>"
      and ids = ids and tok = tok and ans = ans and fuel = fuel and no_ip = no_ip]
  by (simp add: resolver_handleResponse_def stored_def Let_def)
    (rule DnsResolver.equality; simp add: fun_eq_iff stored_def)

text \<open>C13.  Every client that waits for an answer gets it.  When the client module delivers an answer and,
  with its records stored, the cache answers the questions of all resolutions waiting for it, each of
  them is replied to exactly once, to its own client, with exactly the records that match its name;
  none of them is kept, and no other resolution is touched.
\<close>

theorem waiting_clients_answered:
  assumes "requestMap s (ci_requestId msg) = Some ids" "distinct ids" "ci_result msg = DC_OK"
    and "ci_payload msg = Some response" "dr_returnCode response = NOERROR" "dr_question response = q # qs"
    and "\<forall>i\<in>set ids. \<exists>r x. resolutions s i = Some r \<and> rs_id r = i \<and> rs_response r = Some x \<and>
      cached_answer tok (rs_question r) (stored tok response (q_domain q) (rv_db s)) (ans i)"
  shows "\<exists>s'. resolver_handleResponse (Suc fuel) tok no_ip msg s = Inr s' \<and>
    rv_out s' = rv_out s @ map (\<lambda>i. let r = the (resolutions s i) in
      Reply (good_reply (the (rs_response r)) (ans i)) (rs_remoteAddress r) (rs_remotePort r)) ids \<and>
    (\<forall>i. resolutions s' i = (if i \<in> set ids then None else resolutions s i)) \<and>
    requestMap s' (ci_requestId msg) = None"
  using handleResponse_answers [OF assms] by simp

text \<open>C14.  A name is resolved in one exchange.  A fresh resolver that knows the servers of the zone above
  a name asks all of them, once; their answer, if it holds matching records, reaches the client that
  asked, and the resolver forgets the resolution.  From then on the name is answered from the cache
  without asking again.
\<close>

theorem name_resolved_and_cached:
  assumes "lastId s = lastQuestionId s" "questionMap s key = None" "requestMap s (lastId s) = None"
    and "dr_question req = [q]" "asks tok q (rv_db s) key ips"
    and "ci_requestId msg = lastId s" "ci_result msg = DC_OK" "ci_payload msg = Some response"
    and "dr_returnCode response = NOERROR" "dr_question response = [q']"
    and "cached_answer tok q (stored tok response (q_domain q') (rv_db s)) ans"
    and "dr_question req' = [q]"
  shows "\<exists>s1 s2 s3. resolver_handleRequest (Suc fuel) tok p req s = Inr s1 \<and>
    rv_out s1 = rv_out s @ [AskServers \<lparr>cc_ipPool = ips, cc_requestId = lastId s,
      cc_payload = question_request (lastId s) q\<rparr>] \<and>
    resolver_handleResponse (Suc fuel) tok no_ip msg s1 = Inr s2 \<and>
    rv_out s2 = rv_out s1 @ [Reply (good_reply req ans) (dg_src p) (dg_port p)] \<and>
    resolutions s2 = (resolutions s)(lastId s := None) \<and>
    resolver_handleRequest (Suc fuel) tok p' req' s2 = Inr s3 \<and>
    rv_out s3 = rv_out s2 @ [Reply (good_reply req' ans) (dg_src p') (dg_port p')]"
proof -
  let ?st = "case db_searchRecords tok q (rv_db s) of
      Some (_, n) \<Rightarrow> if node_level n = ROOT then TLD_RESOLUTION else NS_RESOLUTION"
  let ?r = "\<lparr>rs_id = lastId s, rs_remoteAddress = dg_src p, rs_remotePort = dg_port p,
      rs_question = q, rs_state = ?st, rs_response = Some req\<rparr>"
  let ?s1 = "s\<lparr>lastId := lastId s + 1, resolutions := (resolutions s)(lastId s \<mapsto> ?r),
      requestMap := (requestMap s)(lastId s \<mapsto> [lastId s]), questionMap := (questionMap s)(key \<mapsto> lastId s),
      lastQuestionId := lastQuestionId s + 1, rv_out := rv_out s @
        [AskServers \<lparr>cc_ipPool = ips, cc_requestId = lastId s, cc_payload = question_request (lastId s) q\<rparr>]\<rparr>"
  have s1: "resolver_handleRequest (Suc fuel) tok p req s = Inr ?s1"
    using handle_ask [OF assms(5,4), of fuel p] assms(1-3) by (simp add: Let_def requestMap_insert_def)
  note s2 = handleResponse_answers [where s = ?s1 and ids = "[lastId s]" and ans = "\<lambda>_. ans" and q = q' and qs = "[]"
      and msg = msg and response = response and tok = tok and fuel = fuel and no_ip = no_ip]
  obtain s2 where s2: "resolver_handleResponse (Suc fuel) tok no_ip msg ?s1 = Inr s2"
      "rv_out s2 = rv_out ?s1 @ [Reply (good_reply req ans) (dg_src p) (dg_port p)]"
      "resolutions s2 = (resolutions s)(lastId s := None)"
      "rv_db s2 = stored tok response (q_domain q') (rv_db s)"
    using s2 assms(6-11) by (simp add: fun_eq_iff)
  let ?rr = "\<lparr>rs_id = lastId s2, rs_remoteAddress = dg_src p', rs_remotePort = dg_port p',
      rs_question = q, rs_state = INIT, rs_response = Some req'\<rparr>"
  have "cached_answer tok (rs_question ?rr) (rv_db (s2\<lparr>lastId := lastId s2 + 1\<rparr>)) ans"
    using assms(11) s2(4) by simp
  note c = process_cached [OF this, of req' fuel False]
  have "\<exists>s3. resolver_handleRequest (Suc fuel) tok p' req' s2 = Inr s3 \<and>
      rv_out s3 = rv_out s2 @ [Reply (good_reply req' ans) (dg_src p') (dg_port p')]"
    using assms(12) c
    by (simp add: resolver_handleRequest_def new_Resolution_def erase_resolution_def hasFinished_def
        del: processResolution.simps)
  with s1 s2 show ?thesis by simp
qed

text \<open>An alias: the first record that matches the name leads to another name.\<close>

definition alias_of :: "(string \<Rightarrow> string list) \<Rightarrow> 'ip DnsTreeNode \<Rightarrow> string \<Rightarrow> string \<Rightarrow> bool" where
  "alias_of tok db d e \<longleftrightarrow>
     (case searchRecords tok d db of
        None \<Rightarrow> False
      | Some (_, n) \<Rightarrow> node_level n = AUTHORITATIVE \<and>
          (case find (\<lambda>x. matchWithWildcard x d) (node_records n) of
             None \<Rightarrow> False
           | Some x \<Rightarrow> rr_type x = RT_CNAME \<and> rr_contents x = e))"

lemma process_alias:
  assumes "alias_of tok (rv_db s) (q_domain (rs_question r)) e"
  shows "processResolution (Suc fuel) tok rec r s =
    and_then (processResolution fuel tok True
        (r\<lparr>rs_question := (rs_question r)\<lparr>q_domain := e\<rparr>\<rparr>) s)
      (\<lambda>(r, _, s). Inr (r, hasFinished r \<and> \<not> rec, s))"
proof -
  obtain par n x where n: "searchRecords tok (q_domain (rs_question r)) (rv_db s) = Some (par, n)"
      "node_level n = AUTHORITATIVE"
      "find (\<lambda>x. matchWithWildcard x (q_domain (rs_question r))) (node_records n) = Some x"
      "rr_type x = RT_CNAME" "rr_contents x = e"
    using assms by (auto simp: alias_of_def split: option.splits)
  have "node_records n \<noteq> []" using n(3) by auto
  then show ?thesis
    using n scan_alias [of r "node_records n" x]
    by (simp add: db_searchRecords_def getRecords_def processAuthResolution_def getCurrentQuestion_def
        and_then_def split: sum.split prod.split)
qed

lemma chain_resolves:
  assumes "\<forall>i<k. alias_of tok (rv_db s) (ds i) (ds (Suc i))" "q_domain (rs_question r) = ds 0"
    and "cached_answer tok ((rs_question r)\<lparr>q_domain := ds k\<rparr>) (rv_db s) ans" "rs_response r = Some x"
  shows "processResolution (Suc k + fuel) tok rec r s =
    Inr (r\<lparr>rs_question := (rs_question r)\<lparr>q_domain := ds k\<rparr>, rs_state := RESOLVED,
        rs_response := Some (good_reply x ans)\<rparr>, \<not> rec,
      s\<lparr>rv_out := rv_out s @ [Reply (good_reply x ans) (rs_remoteAddress r) (rs_remotePort r)]\<rparr>)"
  using assms
proof (induction k arbitrary: r ds rec)
  case 0
  then have "rs_question r = (rs_question r)\<lparr>q_domain := ds 0\<rparr>" by simp
  then have c: "cached_answer tok (rs_question r) (rv_db s) ans" using 0(3) by simp
  have r: "r\<lparr>rs_question := (rs_question r)\<lparr>q_domain := ds 0\<rparr>\<rparr> = r" using 0(2) by simp
  show ?case
    using process_cached [OF c 0(4), of fuel rec] r
    by (simp del: processResolution.simps)
next
  case (Suc k)
  let ?r = "r\<lparr>rs_question := (rs_question r)\<lparr>q_domain := ds 1\<rparr>\<rparr>"
  have "\<forall>i<k. alias_of tok (rv_db s) ((ds \<circ> Suc) i) ((ds \<circ> Suc) (Suc i))"
    using Suc.prems(1) by simp
  from Suc.IH [OF this, of ?r True] Suc.prems
  have "processResolution (Suc k + fuel) tok True ?r s =
    Inr (?r\<lparr>rs_question := (rs_question r)\<lparr>q_domain := ds (Suc k)\<rparr>, rs_state := RESOLVED,
        rs_response := Some (good_reply x ans)\<rparr>, False,
      s\<lparr>rv_out := rv_out s @ [Reply (good_reply x ans) (rs_remoteAddress r) (rs_remotePort r)]\<rparr>)"
    by (simp del: processResolution.simps)
  moreover have "alias_of tok (rv_db s) (q_domain (rs_question r)) (ds 1)"
    using Suc.prems(1,2) by auto
  ultimately show ?case
    using process_alias [of tok s r "ds 1" "Suc k + fuel" rec]
    by (simp add: hasFinished_def del: processResolution.simps)
qed

lemma cycle_diverges:
  assumes "\<forall>d\<in>C. \<exists>e\<in>C. alias_of tok (rv_db s) d e" "q_domain (rs_question r) \<in> C"
  shows "processResolution fuel tok rec r s = Inl (Undefined ''call stack exhausted'')"
  using assms(2)
proof (induction fuel arbitrary: r rec)
  case (Suc fuel)
  then obtain e where e: "e \<in> C" "alias_of tok (rv_db s) (q_domain (rs_question r)) e"
    using assms(1) by blast
  let ?r = "r\<lparr>rs_question := (rs_question r)\<lparr>q_domain := e\<rparr>\<rparr>"
  have "processResolution fuel tok True ?r s = Inl (Undefined ''call stack exhausted'')"
    using Suc.IH [of ?r True] e(1) by simp
  then show ?case by (simp only: process_alias [OF e(2)] and_then_Inl)
qed simp

lemma alias_parts:
  assumes "dr_question req = [q]"
  shows "\<forall>i<k. alias_of tok (rv_db s) (ds i) (ds (Suc i)) \<Longrightarrow> q_domain q = ds 0 \<Longrightarrow>
      cached_answer tok (q\<lparr>q_domain := ds k\<rparr>) (rv_db s) ans \<Longrightarrow> fuel > k \<Longrightarrow>
      \<exists>s'. resolver_handleRequest fuel tok p req s = Inr s' \<and>
        rv_out s' = rv_out s @ [Reply (good_reply req ans) (dg_src p) (dg_port p)]"
    and "\<forall>d\<in>C. \<exists>e\<in>C. alias_of tok (rv_db s) d e \<Longrightarrow> q_domain q \<in> C \<Longrightarrow>
      resolver_handleRequest fuel tok p req s = Inl (Undefined ''call stack exhausted'')"
proof -
  let ?r = "\<lparr>rs_id = lastId s, rs_remoteAddress = dg_src p, rs_remotePort = dg_port p,
      rs_question = q, rs_state = INIT, rs_response = Some req\<rparr>"
  let ?s = "s\<lparr>lastId := lastId s + 1\<rparr>"
  show "\<exists>s'. resolver_handleRequest fuel tok p req s = Inr s' \<and>
        rv_out s' = rv_out s @ [Reply (good_reply req ans) (dg_src p) (dg_port p)]"
    if chain: "\<forall>i<k. alias_of tok (rv_db s) (ds i) (ds (Suc i))" "q_domain q = ds 0"
      "cached_answer tok (q\<lparr>q_domain := ds k\<rparr>) (rv_db s) ans" "fuel > k"
  proof -
    obtain f where f: "fuel = Suc k + f" using chain(4) less_imp_Suc_add [of k fuel] by auto
    show ?thesis
      using chain_resolves [where s = ?s and r = ?r and k = k and ds = ds and ans = ans and x = req
          and tok = tok and fuel = f and rec = False] chain(1-3) assms
      by (simp add: f resolver_handleRequest_def new_Resolution_def erase_resolution_def hasFinished_def
          del: processResolution.simps)
  qed
  show "resolver_handleRequest fuel tok p req s = Inl (Undefined ''call stack exhausted'')"
    if "\<forall>d\<in>C. \<exists>e\<in>C. alias_of tok (rv_db s) d e" "q_domain q \<in> C"
    using cycle_diverges [where s = ?s and r = ?r and C = C and tok = tok and fuel = fuel and rec = False]
      that assms
    by (simp add: resolver_handleRequest_def new_Resolution_def del: processResolution.simps)
qed

text \<open>Aliases.  A request for a name that leads over a chain of \<open>k\<close> aliases to a cached answer is
  replied to at once, when the stack holds \<open>k + 1\<close> calls, with the records of the last name; but if
  the aliases run in a circle, the resolver never returns, whatever the size of its stack.
\<close>

theorem aliases_followed:
  assumes "dr_question req = [q]"
  shows "((\<forall>i<k. alias_of tok (rv_db s) (ds i) (ds (Suc i))) \<and> q_domain q = ds 0 \<and>
      cached_answer tok (q\<lparr>q_domain := ds k\<rparr>) (rv_db s) ans \<and> fuel > k \<longrightarrow>
      (\<exists>s'. resolver_handleRequest fuel tok p req s = Inr s' \<and>
        rv_out s' = rv_out s @ [Reply (good_reply req ans) (dg_src p) (dg_port p)])) \<and>
    ((\<forall>d\<in>C. \<exists>e\<in>C. alias_of tok (rv_db s) d e) \<and> q_domain q \<in> C \<longrightarrow>
      resolver_handleRequest fuel tok p req s = Inl (Undefined ''call stack exhausted''))"
  using alias_parts [OF assms] by blast

text \<open>A malformed request is not refused.  Without a question it ends the simulation, because the
  constructor of the resolution reads the first question before they are counted; with several it is
  replied to twice, and both replies say that no error occurred.
\<close>

theorem malformed_request_mishandled:
  assumes "length (dr_question req) \<noteq> 1"
  shows "resolver_handleRequest fuel tok p req s =
    (if dr_question req = [] then Inl OutOfRange
     else let R = Reply (req\<lparr>dr_returnCode := NOERROR, dr_isAuthoritative := False\<rparr>) (dg_src p) (dg_port p) in
       Inr (s\<lparr>lastId := lastId s + 1, rv_out := rv_out s @ [R, R]\<rparr>))"
  using assms
  by (cases "dr_question req")
    (simp_all add: resolver_handleRequest_def new_Resolution_def makeTransition_def hasFinished_def
      resolver_sendResponse_def Let_def)

lemma makeTransition_keeps:
  "makeTransition r st s = Inr (r', s') \<Longrightarrow> questionMap s' = questionMap s \<and> rv_db s' = rv_db s"
  by (auto simp: makeTransition_def Let_def resolver_sendResponse_def and_then_eq_Inr split: if_splits)

lemma markFailed_keeps:
  "markFailedResolutions ids code s = Inr s' \<Longrightarrow> questionMap s' = questionMap s \<and> rv_db s' = rv_db s"
proof (induction ids arbitrary: s)
  case (Cons i ids)
  then obtain r r' s2 where "makeTransition r NOT_FOUND s = Inr (r', s2)"
    "markFailedResolutions ids code (erase_resolution i s2) = Inr s'"
    by (auto simp: and_then_eq_Inr split: option.splits)
  with Cons.IH [of "erase_resolution i s2"] makeTransition_keeps [of r NOT_FOUND s r' s2] show ?case
    by (simp add: erase_resolution_def)
qed simp

fun handle_requests ::
  "nat \<Rightarrow> (string \<Rightarrow> string list) \<Rightarrow> ('ip Datagram \<times> 'ip DnsRequest) list \<Rightarrow> 'ip DnsResolver \<Rightarrow> 'ip DnsResolver outcome" where
  "handle_requests fuel tok [] s = Inr s"
| "handle_requests fuel tok ((p, req) # reqs) s =
     and_then (resolver_handleRequest fuel tok p req s) (handle_requests fuel tok reqs)"

lemma deaf_request:
  assumes "questionMap s key = Some k" "dr_question req = [q]" "asks tok q (rv_db s) key ips"
  shows "\<exists>s'. resolver_handleRequest (Suc fuel) tok p req s = Inr s' \<and> rv_out s' = rv_out s \<and>
    questionMap s' = questionMap s \<and> rv_db s' = rv_db s"
  using handle_ask [OF assms(3,2), of fuel p] assms(1) by (simp add: Let_def requestMap_insert_def)

lemma deaf_requests:
  assumes "questionMap s key = Some k"
    "\<forall>(p, req)\<in>set reqs. \<exists>q ips. dr_question req = [q] \<and> asks tok q (rv_db s) key ips"
  shows "\<exists>s'. handle_requests (Suc fuel) tok reqs s = Inr s' \<and> rv_out s' = rv_out s"
  using assms
proof (induction reqs arbitrary: s)
  case (Cons pr reqs)
  obtain p req where pr: "pr = (p, req)" by (cases pr)
  with Cons.prems obtain q ips where "dr_question req = [q]" "asks tok q (rv_db s) key ips" by auto
  from deaf_request [OF Cons.prems(1) this, of fuel p] obtain s1 where
    s1: "resolver_handleRequest (Suc fuel) tok p req s = Inr s1" "rv_out s1 = rv_out s"
      "questionMap s1 = questionMap s" "rv_db s1 = rv_db s" by blast
  with Cons.IH [of s1] Cons.prems pr show ?case by simp
qed simp

text \<open>A failed question is never asked again.  After the client module has reported that a question
  could not be answered, or a server has answered it with an error, the question stays registered:
  however many requests for names under it arrive later, none of them gets a reply, and no server is
  asked.
\<close>

theorem failed_question_blocks_zone:
  assumes "resolver_handleResponse fuel tok no_ip msg s = Inr s1" "questionMap s key = Some k"
    and "ci_result msg \<noteq> DC_OK \<or> (\<exists>response q qs. ci_payload msg = Some response \<and>
      dr_returnCode response \<noteq> NOERROR \<and> dr_question response = q # qs \<and> q_domain q \<noteq> key)"
    and "\<forall>(p, req)\<in>set reqs. \<exists>q ips. dr_question req = [q] \<and> asks tok q (rv_db s) key ips"
  shows "\<exists>s2. handle_requests (Suc fuel') tok reqs s1 = Inr s2 \<and> rv_out s2 = rv_out s1"
proof (rule deaf_requests)
  have "questionMap s1 key = Some k \<and> rv_db s1 = rv_db s"
    using assms(1-3)
    by (auto simp: resolver_handleResponse_def and_then_eq_Inr Let_def dest!: markFailed_keeps
        split: option.splits if_splits)
  then show "questionMap s1 key = Some k"
    "\<forall>(p, req)\<in>set reqs. \<exists>q ips. dr_question req = [q] \<and> asks tok q (rv_db s1) key ips"
    using assms(4) by simp_all
qed

text \<open>The answer to a question is only recognised while the two counters agree.  A question is
  registered under the number of its resolution, but sent under a number of its own; as soon as one
  request has been answered from the cache the numbers differ, and the answer to the next question
  ends the simulation.
\<close>

theorem answer_not_recognised:
  assumes "dr_question req = [q]" "asks tok q (rv_db s) key ips" "questionMap s key = None"
    and "lastId s \<noteq> lastQuestionId s" "requestMap s (lastQuestionId s) = None"
    and "ci_requestId msg = lastQuestionId s"
  shows "\<exists>s1. resolver_handleRequest (Suc fuel) tok p req s = Inr s1 \<and>
    rv_out s1 = rv_out s @ [AskServers \<lparr>cc_ipPool = ips, cc_requestId = lastQuestionId s,
      cc_payload = question_request (lastQuestionId s) q\<rparr>] \<and>
    \<not> is_ok (resolver_handleResponse fuel' tok no_ip msg s1)"
proof -
  obtain s1 where s1: "resolver_handleRequest (Suc fuel) tok p req s = Inr s1"
    "rv_out s1 = rv_out s @ [AskServers \<lparr>cc_ipPool = ips, cc_requestId = lastQuestionId s,
      cc_payload = question_request (lastQuestionId s) q\<rparr>]"
    "requestMap s1 (lastQuestionId s) = None"
    using handle_ask [OF assms(2,1), of fuel p] assms(3-5) by (simp add: Let_def requestMap_insert_def)
  with assms(6) show ?thesis by (simp add: resolver_handleResponse_def)
qed

text \<open>One cached zone makes its siblings unknown.  Whenever the resolver would ask the servers of a
  zone for a name, it instead replies that the name does not exist, without asking anybody, as soon
  as a record of any other zone below has been stored.
\<close>

theorem cached_zone_hides_siblings:
  assumes "tree_ok (rv_db s)" "dr_question req = [q]"
    and "searchRecords tok (q_domain q) (rv_db s) = Some (par, n)" "node_level n \<noteq> AUTHORITATIVE"
    and "k = level_depth (node_level n)" "k < length (tok (q_domain q))" "k < length (tok zone)"
    and "take k (rev (tok (q_domain q))) = take k (rev (tok zone))"
    and "rev (tok (q_domain q)) ! k \<noteq> rev (tok zone) ! k"
  shows "\<exists>s'. resolver_handleRequest (Suc fuel) tok p req (s\<lparr>rv_db := insertRecord tok zone r (rv_db s)\<rparr>) = Inr s' \<and>
    rv_out s' = rv_out s @ [Reply (req\<lparr>dr_returnCode := NXDOMAIN, dr_isAuthoritative := False\<rparr>)
      (dg_src p) (dg_port p)]"
proof -
  have "searchRecords tok (q_domain q) (insertRecord tok zone r (rv_db s)) = None"
    by (rule siblings_hidden [OF assms(1,3-9)])
  then show ?thesis
    using assms(2)
    by (simp add: resolver_handleRequest_def new_Resolution_def db_searchRecords_def
        makeTransition_def hasFinished_def resolver_sendResponse_def)
qed

section \<open>Witnesses\<close>

definition question_at :: "string \<Rightarrow> DnsQuestion" where
  "question_at d = \<lparr>q_domain = d, q_type = RT_A\<rparr>"

definition request_for :: "string \<Rightarrow> nat DnsRequest" where
  "request_for d = query_example\<lparr>dr_question := [question_at d]\<rparr>"

definition answer_for :: "string \<Rightarrow> nat DnsRequest" where
  "answer_for d = (request_for d)\<lparr>dr_auth := [example_record d 9 RT_A]\<rparr>"

definition indication_for :: "u16 \<Rightarrow> string \<Rightarrow> nat DnsClientIndication" where
  "indication_for i d = \<lparr>ci_requestId = i, ci_result = DC_OK, ci_payload = Some (answer_for d)\<rparr>"

definition resolver_example :: "nat DnsResolver" where
  "resolver_example = resolver_initialize com_tree"

lemma request_for_question [simp]: "dr_question (request_for d) = [question_at d]"
  by (simp add: request_for_def)

lemma com_tree_eq: "com_tree = Zone ''.'' ROOT
    [(''com'', Zone ''com'' TLD [] [example_record ''b.com'' 7 RT_NS])] []"
  by (simp add: com_tree_def insertRecord_def NUM_DNS_LEVELS_def getChildOrCreate_def new_root_def
      addRecord_def)

lemma asks_com: "asks tokens (question_at ''x.b.com'') com_tree ''b.com'' [7]"
  by (simp add: asks_def db_searchRecords_def searchRecords_def question_at_def com_tree_eq
      getChildCount_def getChild_def getQuestionForLevel_def name_server_ips_def example_record_def)

lemma stored_b: "stored tokens (answer_for ''x.b.com'') ''x.b.com'' com_tree = Zone ''.'' ROOT
    [(''com'', Zone ''com'' TLD [(''b'', Zone ''b'' AUTHORITATIVE [] [example_record ''x.b.com'' 9 RT_A])]
      [example_record ''b.com'' 7 RT_NS])] []"
  by (simp add: stored_def insert_records_def answer_for_def request_for_def query_example_def com_tree_eq
      insertRecord_def NUM_DNS_LEVELS_def getChildOrCreate_def addRecord_def)

lemma cached_b: "cached_answer tokens (question_at ''x.b.com'')
    (stored tokens (answer_for ''x.b.com'') ''x.b.com'' com_tree) [example_record ''x.b.com'' 9 RT_A]"
  by (simp add: cached_answer_def stored_b db_searchRecords_def searchRecords_def question_at_def
      getChildCount_def getChild_def matching_def matchWithWildcard_def example_record_def)

lemma resolver_example_simps [simp]:
  "rv_db resolver_example = com_tree" "resolutions resolver_example = Map.empty"
  "questionMap resolver_example = Map.empty" "requestMap resolver_example = Map.empty"
  "lastId resolver_example = 0" "lastQuestionId resolver_example = 0" "rv_out resolver_example = []"
  by (simp_all add: resolver_example_def resolver_initialize_def)

lemma indication_simps [simp]:
  "ci_requestId (indication_for i d) = i" "ci_result (indication_for i d) = DC_OK"
  "ci_payload (indication_for i d) = Some (answer_for d)"
  "dr_returnCode (answer_for d) = NOERROR" "dr_question (answer_for d) = [question_at d]"
  "q_domain (question_at d) = d"
  by (simp_all add: indication_for_def answer_for_def request_for_def query_example_def question_at_def)

theorem name_resolved_and_cached_witness:
  "\<exists>s1 s2. resolver_handleRequest 1 tokens datagram_example (request_for ''x.b.com'') resolver_example = Inr s1 \<and>
     resolver_handleResponse 1 tokens 0 (indication_for 0 ''x.b.com'') s1 = Inr s2 \<and>
     rv_out s2 = [AskServers \<lparr>cc_ipPool = [7], cc_requestId = 0,
         cc_payload = question_request 0 (question_at ''x.b.com'')\<rparr>,
       Reply (good_reply (request_for ''x.b.com'') [example_record ''x.b.com'' 9 RT_A]) 8 53]"
  using name_resolved_and_cached [where s = resolver_example and key = "''b.com''" and fuel = 0
      and req = "request_for ''x.b.com''" and req' = "request_for ''x.b.com''"
      and q = "question_at ''x.b.com''" and tok = tokens and ips = "[7]" and p = datagram_example
      and q' = "question_at ''x.b.com''" and msg = "indication_for 0 ''x.b.com''"
      and response = "answer_for ''x.b.com''" and ans = "[example_record ''x.b.com'' 9 RT_A]"
      and p' = datagram_example and no_ip = 0] asks_com cached_b
  by (auto simp: datagram_example_def)

definition two_waiting :: "nat DnsResolver" where
  "two_waiting = resolver_example\<lparr>requestMap := [0 \<mapsto> [0, 1]],
     resolutions := [0 \<mapsto> \<lparr>rs_id = 0, rs_remoteAddress = 8, rs_remotePort = 53,
         rs_question = question_at ''x.b.com'', rs_state = NS_RESOLUTION, rs_response = Some (request_for ''x.b.com'')\<rparr>,
       1 \<mapsto> \<lparr>rs_id = 1, rs_remoteAddress = 6, rs_remotePort = 53,
         rs_question = question_at ''x.b.com'', rs_state = NS_RESOLUTION, rs_response = Some (request_for ''x.b.com'')\<rparr>]\<rparr>"

theorem waiting_clients_answered_witness:
  "\<exists>s'. resolver_handleResponse 1 tokens 0 (indication_for 0 ''x.b.com'') two_waiting = Inr s' \<and>
     rv_out s' = [Reply (good_reply (request_for ''x.b.com'') [example_record ''x.b.com'' 9 RT_A]) 8 53,
       Reply (good_reply (request_for ''x.b.com'') [example_record ''x.b.com'' 9 RT_A]) 6 53]"
  using waiting_clients_answered [where s = two_waiting and msg = "indication_for 0 ''x.b.com''"
      and ids = "[0, 1]" and response = "answer_for ''x.b.com''" and q = "question_at ''x.b.com''" and qs = "[]"
      and tok = tokens and ans = "\<lambda>_. [example_record ''x.b.com'' 9 RT_A]" and fuel = 0 and no_ip = 0]
    cached_b
  by (auto simp: two_waiting_def)

definition alias_tree :: "nat DnsTreeNode" where
  "alias_tree = Zone ''.'' ROOT [(''com'', Zone ''com'' TLD [(''b'', Zone ''b'' AUTHORITATIVE []
     [\<lparr>rr_domain = ''x.b.com'', rr_contents = ''x.b.com'', rr_ip = 0, rr_type = RT_CNAME\<rparr>])] [])] []"

theorem aliases_followed_witness:
  "\<not> is_ok (resolver_handleRequest 500 tokens datagram_example (request_for ''x.b.com'')
     (resolver_example\<lparr>rv_db := alias_tree\<rparr>)) \<and>
   (\<exists>s'. resolver_handleRequest 1 tokens datagram_example (request_for ''x.b.com'')
       (resolver_example\<lparr>rv_db := stored tokens (answer_for ''x.b.com'') ''x.b.com'' com_tree\<rparr>) = Inr s' \<and>
     rv_out s' = [Reply (good_reply (request_for ''x.b.com'') [example_record ''x.b.com'' 9 RT_A]) 8 53])"
proof
  have "alias_of tokens alias_tree ''x.b.com'' ''x.b.com''"
    by (simp add: alias_of_def alias_tree_def searchRecords_def getChildCount_def getChild_def matchWithWildcard_def)
  then have "resolver_handleRequest 500 tokens datagram_example (request_for ''x.b.com'')
      (resolver_example\<lparr>rv_db := alias_tree\<rparr>) = Inl (Undefined ''call stack exhausted'')"
    by (intro aliases_followed [where C = "{''x.b.com''}" and q = "question_at ''x.b.com''", THEN conjunct2, rule_format])
      simp_all
  then show "\<not> is_ok (resolver_handleRequest 500 tokens datagram_example (request_for ''x.b.com'')
     (resolver_example\<lparr>rv_db := alias_tree\<rparr>))" by simp
  have q: "(question_at ''x.b.com'')\<lparr>q_domain := ''x.b.com''\<rparr> = question_at ''x.b.com''"
    by (simp add: question_at_def)
  show "\<exists>s'. resolver_handleRequest 1 tokens datagram_example (request_for ''x.b.com'')
       (resolver_example\<lparr>rv_db := stored tokens (answer_for ''x.b.com'') ''x.b.com'' com_tree\<rparr>) = Inr s' \<and>
     rv_out s' = [Reply (good_reply (request_for ''x.b.com'') [example_record ''x.b.com'' 9 RT_A]) 8 53]"
    using aliases_followed [where k = 0 and q = "question_at ''x.b.com''" and tok = tokens and p = datagram_example
        and req = "request_for ''x.b.com''" and ds = "\<lambda>_. ''x.b.com''" and fuel = 1
        and ans = "[example_record ''x.b.com'' 9 RT_A]" and
        s = "resolver_example\<lparr>rv_db := stored tokens (answer_for ''x.b.com'') ''x.b.com'' com_tree\<rparr>"]
      cached_b
    by (simp add: datagram_example_def q)
qed

theorem malformed_request_mishandled_witness:
  "resolver_handleRequest 1 tokens datagram_example (query_example\<lparr>dr_question := []\<rparr>) resolver_example = Inl OutOfRange"
  using malformed_request_mishandled [of "query_example\<lparr>dr_question := []\<rparr>" 1 tokens datagram_example resolver_example]
  by simp

theorem failed_question_blocks_zone_witness:
  "\<exists>s1 s2. resolver_handleResponse 1 tokens 0
       ((indication_for 0 ''x.b.com'')\<lparr>ci_result := DC_ERROR\<rparr>)
       (two_waiting\<lparr>questionMap := [''b.com'' \<mapsto> 0]\<rparr>) = Inr s1 \<and>
     handle_requests 1 tokens [(datagram_example, request_for ''x.b.com'')] s1 = Inr s2 \<and> rv_out s2 = rv_out s1"
proof -
  obtain s1 where s1: "resolver_handleResponse 1 tokens 0
       ((indication_for 0 ''x.b.com'')\<lparr>ci_result := DC_ERROR\<rparr>)
       (two_waiting\<lparr>questionMap := [''b.com'' \<mapsto> 0]\<rparr>) = Inr s1"
    by (simp add: resolver_handleResponse_def two_waiting_def makeTransition_def hasFinished_def
        resolver_sendResponse_def erase_resolution_def)
  have db: "rv_db (two_waiting\<lparr>questionMap := [''b.com'' \<mapsto> 0]\<rparr>) = com_tree" by (simp add: two_waiting_def)
  have "\<exists>s2. handle_requests (Suc 0) tokens [(datagram_example, request_for ''x.b.com'')] s1 = Inr s2 \<and>
      rv_out s2 = rv_out s1"
    by (rule failed_question_blocks_zone [OF s1, of "''b.com''" 0]) (use asks_com db in auto)
  with s1 show ?thesis by auto
qed

theorem answer_not_recognised_witness:
  "\<exists>s1. resolver_handleRequest 1 tokens datagram_example (request_for ''x.b.com'')
       (resolver_example\<lparr>lastId := 1\<rparr>) = Inr s1 \<and>
     \<not> is_ok (resolver_handleResponse 1 tokens 0 (indication_for 0 ''x.b.com'') s1)"
  using answer_not_recognised [where req = "request_for ''x.b.com''" and q = "question_at ''x.b.com''" and tok = tokens
      and s = "resolver_example\<lparr>lastId := 1\<rparr>" and key = "''b.com''" and ips = "[7]" and fuel = 0 and fuel' = 1
      and p = datagram_example and no_ip = 0 and msg = "indication_for 0 ''x.b.com''"] asks_com
  by auto

theorem cached_zone_hides_siblings_witness:
  "\<exists>s'. resolver_handleRequest 1 tokens datagram_example (request_for ''x.b.com'')
       (resolver_example\<lparr>rv_db := insertRecord tokens ''a.com'' (example_record ''w.a.com'' 9 RT_A) com_tree\<rparr>) = Inr s' \<and>
     map (\<lambda>x. case x of Reply r _ _ \<Rightarrow> Some (dr_returnCode r) | _ \<Rightarrow> None) (rv_out s') = [Some NXDOMAIN]"
proof -
  have f: "searchRecords tokens (q_domain (question_at ''x.b.com'')) (rv_db resolver_example) =
      Some (Some com_tree, Zone ''com'' TLD [] [example_record ''b.com'' 7 RT_NS])"
    by (simp add: com_tree_eq searchRecords_def getChildCount_def getChild_def)
  then show ?thesis
    using cached_zone_hides_siblings [where k = 1 and zone = "''a.com''" and r = "example_record ''w.a.com'' 9 RT_A",
        OF _ _ f] com_tree_ok
    by force
qed

end
