(* ===== verification/DnsClient.thy ===== *)
theory DnsClient
  imports DnsServer
begin

text \<open>
  The retransmitting client \<open>architecture/dns/client/DnsClientService\<close>: it sends the query of a
  command to the servers of the command, one after the other, until one answers.

  The counters of a request only grow from 0, so the model keeps them as natural numbers.  What goes
  to the network or to the client module is listed in \<open>cl_out\<close>; \<open>cl_timer\<close> says whether the tick
  timer is scheduled, and a tick is one arrival of it.
\<close>

section \<open>State\<close>

record 'ip RequestContext =
  rc_servers :: "'ip list"
  rc_tick :: nat
  rc_tries :: nat
  rc_selectedAddress :: nat
  rc_id :: u16
  rc_packet :: "'ip DnsRequest"

datatype 'ip client_out =
    SendTo "'ip DnsRequest" 'ip nat
  | Indicate "'ip DnsClientIndication"

record 'ip DnsClient =
  cl_timer :: bool
  cl_requests :: "(u16 \<times> 'ip RequestContext) list"
  cl_failed :: "'ip set"
  ticksForTimeOut :: int
  maxAttempts :: int
  cl_out :: "'ip client_out list"

definition DNS_PORT :: nat where "DNS_PORT = 53"

definition client_initialize :: "int \<Rightarrow> int \<Rightarrow> 'ip DnsClient" where
  "client_initialize tft ma = \<lparr>cl_timer = False, cl_requests = [], cl_failed = {},
     ticksForTimeOut = tft, maxAttempts = ma, cl_out = []\<rparr>"

definition client_finish :: "'ip DnsClient \<Rightarrow> 'ip DnsClient" where
  "client_finish s = s\<lparr>cl_timer := False, cl_requests := []\<rparr>"

definition new_RequestContext :: "'ip DnsClientCommand \<Rightarrow> 'ip RequestContext" where
  "new_RequestContext c = \<lparr>rc_servers = cc_ipPool c, rc_tick = 0, rc_tries = 0, rc_selectedAddress = 0,
     rc_id = cc_requestId c, rc_packet = cc_payload c\<rparr>"

section \<open>Operations\<close>

definition updateWithFailedAttempt :: "int \<Rightarrow> 'ip RequestContext \<Rightarrow> bool \<times> 'ip RequestContext" where
  "updateWithFailedAttempt ma c =
     (if int (rc_tries c) \<ge> ma
      then let c = c\<lparr>rc_selectedAddress := rc_selectedAddress c + 1\<rparr> in
        if rc_selectedAddress c \<ge> length (rc_servers c) then (False, c)
        else (True, c\<lparr>rc_tries := 0\<rparr>)
      else (True, c))"

text \<open>
  The loop that skips failed servers.  Its condition reads the selected server before it looks at the
  flag, so it reads past the end when all of them have failed.
\<close>

function skip_failed :: "'ip set \<Rightarrow> bool \<Rightarrow> 'ip RequestContext \<Rightarrow> (bool \<times> 'ip RequestContext) outcome" where
  "skip_failed failed continue c =
     (if rc_selectedAddress c \<ge> length (rc_servers c) then Inl (Undefined ''server index'')
      else if rc_servers c ! rc_selectedAddress c \<in> failed \<and> continue
      then (case updateWithFailedAttempt 0 c of (continue, c) \<Rightarrow> skip_failed failed continue c)
      else Inr (continue, c))"
  by pat_completeness auto
termination
  by (relation "measure (\<lambda>(_, _, c). length (rc_servers c) - rc_selectedAddress c)")
    (auto simp: updateWithFailedAttempt_def Let_def split: if_splits)

declare skip_failed.simps [simp del]

definition client_sendRequest ::
  "'ip set \<Rightarrow> 'ip RequestContext \<Rightarrow> (bool \<times> 'ip RequestContext \<times> 'ip client_out list) outcome" where
  "client_sendRequest failed c =
     and_then (skip_failed failed True c) (\<lambda>(continue, c).
       if continue
       then Inr (True, c\<lparr>rc_tries := rc_tries c + 1\<rparr>,
              [SendTo (rc_packet c) (rc_servers c ! rc_selectedAddress c) DNS_PORT])
       else Inr (False, c, []))"

definition client_sendResponse ::
  "u16 \<Rightarrow> DnsClientResult \<Rightarrow> 'ip DnsRequest option \<Rightarrow> 'ip client_out list outcome" where
  "client_sendResponse i status p =
     and_then (require (status = DC_OK \<and> p \<noteq> None) (AssertFail ''Error, cannot send OK with empty payload!''))
       (\<lambda>_. Inr [Indicate \<lparr>ci_requestId = i, ci_result = status, ci_payload = p\<rparr>])"

definition client_handleRequest :: "'ip DnsClientCommand \<Rightarrow> 'ip DnsClient \<Rightarrow> 'ip DnsClient outcome" where
  "client_handleRequest cmd s =
     (let s = s\<lparr>cl_timer := True\<rparr>; i = cc_requestId cmd in
      (case map_of (cl_requests s) i of
         Some _ \<Rightarrow> Inr s
       | None \<Rightarrow> and_then (client_sendRequest (cl_failed s) (new_RequestContext cmd)) (\<lambda>(_, c, out).
           Inr (s\<lparr>cl_requests := map_at i c (\<lambda>_. c) (cl_requests s), cl_out := cl_out s @ out\<rparr>))))"

text \<open>\<open>socketDataArrived\<close> looks at the first chunk of a packet only.\<close>

definition client_socketDataArrived :: "'ip chunk list \<Rightarrow> 'ip DnsClient \<Rightarrow> 'ip DnsClient outcome" where
  "client_socketDataArrived cs s =
     (case cs of
        RequestChunk p # _ \<Rightarrow>
          (case map_of (cl_requests s) (dr_requestId p) of
             Some _ \<Rightarrow> and_then (client_sendResponse (dr_requestId p) DC_OK (Some p)) (\<lambda>out.
               let m = filter (\<lambda>x. fst x \<noteq> dr_requestId p) (cl_requests s) in
               Inr (s\<lparr>cl_requests := m, cl_timer := cl_timer s \<and> m \<noteq> [], cl_out := cl_out s @ out\<rparr>))
           | None \<Rightarrow> Inr s)
      | _ \<Rightarrow> Inr s)"

fun process_requests ::
  "int \<Rightarrow> int \<Rightarrow> 'ip set \<Rightarrow> (u16 \<times> 'ip RequestContext) list \<Rightarrow>
   ((u16 \<times> 'ip RequestContext) list \<times> 'ip client_out list) outcome" where
  "process_requests tft ma failed [] = Inr ([], [])"
| "process_requests tft ma failed ((k, c) # m) =
     (let c = c\<lparr>rc_tick := rc_tick c + 1\<rparr> in
      and_then
        (if int (rc_tick c) = tft
         then (case updateWithFailedAttempt ma (c\<lparr>rc_tick := 0\<rparr>) of (again, c) \<Rightarrow>
             and_then (if again then client_sendRequest failed c else Inr (False, c, [])) (\<lambda>(sent, c, out).
               if sent then Inr ([(k, c)], out)
               else and_then (client_sendResponse (rc_id c) DC_ERROR None) (\<lambda>out. Inr ([], out))))
         else Inr ([(k, c)], []))
        (\<lambda>(kept, out). and_then (process_requests tft ma failed m) (\<lambda>(m, out'). Inr (kept @ m, out @ out'))))"

definition processRequests :: "'ip DnsClient \<Rightarrow> 'ip DnsClient outcome" where
  "processRequests s =
     and_then (process_requests (ticksForTimeOut s) (maxAttempts s) (cl_failed s) (cl_requests s)) (\<lambda>(m, out).
       Inr (s\<lparr>cl_requests := m, cl_failed := {}, cl_out := cl_out s @ out\<rparr>))"

text \<open>The arrival of the tick timer, which is scheduled again at once.\<close>

definition client_tick :: "'ip DnsClient \<Rightarrow> 'ip DnsClient outcome" where
  "client_tick s = processRequests (s\<lparr>cl_timer := True\<rparr>)"

definition client_socketErrorArrived :: "'ip \<Rightarrow> 'ip DnsClient \<Rightarrow> 'ip DnsClient" where
  "client_socketErrorArrived ip s = s\<lparr>cl_failed := insert ip (cl_failed s)\<rparr>"

section \<open>Retransmission\<close>

fun ticks :: "nat \<Rightarrow> 'ip DnsClient \<Rightarrow> 'ip DnsClient outcome" where
  "ticks 0 s = Inr s"
| "ticks (Suc n) s = and_then (ticks n s) client_tick"

lemma ticks_add: "ticks (m + n) s = and_then (ticks m s) (ticks n)"
proof (induction n)
  case 0
  then show ?case by (simp add: and_then_def split: sum.split)
next
  case (Suc n)
  then show ?case by (simp add: and_then_def split: sum.split)
qed

lemma skip_none [simp]:
  "rc_selectedAddress c < length (rc_servers c) \<Longrightarrow> skip_failed {} b c = Inr (b, c)"
  by (simp add: skip_failed.simps)

lemma send_none:
  "rc_selectedAddress c < length (rc_servers c) \<Longrightarrow> client_sendRequest {} c =
    Inr (True, c\<lparr>rc_tries := rc_tries c + 1\<rparr>,
      [SendTo (rc_packet c) (rc_servers c ! rc_selectedAddress c) DNS_PORT])"
  by (simp add: client_sendRequest_def)

text \<open>The only request of a client after \<open>n\<close> transmissions, \<open>t\<close> ticks into its current attempt.\<close>

definition tried :: "'ip DnsClientCommand \<Rightarrow> nat \<Rightarrow> nat \<Rightarrow> nat \<Rightarrow> 'ip RequestContext" where
  "tried cmd ma n t = (new_RequestContext cmd)\<lparr>rc_tick := t, rc_tries := Suc ((n - 1) mod ma),
     rc_selectedAddress := (n - 1) div ma\<rparr>"

definition sent_to :: "'ip DnsClientCommand \<Rightarrow> nat \<Rightarrow> nat \<Rightarrow> 'ip client_out" where
  "sent_to cmd ma j = SendTo (cc_payload cmd) (cc_ipPool cmd ! (j div ma)) DNS_PORT"

definition waiting :: "'ip DnsClientCommand \<Rightarrow> nat \<Rightarrow> nat \<Rightarrow> nat \<Rightarrow> nat \<Rightarrow> 'ip client_out list \<Rightarrow> 'ip DnsClient" where
  "waiting cmd tft ma n t out = \<lparr>cl_timer = True, cl_requests = [(cc_requestId cmd, tried cmd ma n t)],
     cl_failed = {}, ticksForTimeOut = int tft, maxAttempts = int ma, cl_out = out\<rparr>"

lemma tick_waits:
  assumes "Suc t < tft"
  shows "client_tick (waiting cmd tft ma n t out) = Inr (waiting cmd tft ma n (Suc t) out)"
  using assms by (simp add: client_tick_def processRequests_def waiting_def tried_def)

lemma ticks_wait:
  assumes "t < tft"
  shows "ticks t (waiting cmd tft ma n 0 out) = Inr (waiting cmd tft ma n t out)"
  using assms by (induction t) (simp_all add: tick_waits)

lemma update_tried:
  assumes "ma > 0" "n > 0"
  shows "updateWithFailedAttempt (int ma) (tried cmd ma n 0) =
    (if n < length (cc_ipPool cmd) * ma
     then (True, (tried cmd ma (Suc n) 0)\<lparr>rc_tries := n mod ma\<rparr>)
     else if n mod ma = 0 then (False, (tried cmd ma n 0)\<lparr>rc_selectedAddress := n div ma\<rparr>)
     else (True, tried cmd ma n 0))"
proof -
  obtain j where n: "n = Suc j" using assms(2) by (cases n) auto
  have q: "n < length (cc_ipPool cmd) * ma \<longleftrightarrow> n div ma < length (cc_ipPool cmd)"
    using assms(1) by (simp add: div_less_iff_less_mult)
  show ?thesis
  proof (cases "Suc (j mod ma) = ma")
    case True
    then have "Suc j div ma = Suc (j div ma)" "Suc j mod ma = 0"
      by (simp_all add: div_Suc mod_Suc)
    with True assms(1) q n show ?thesis
      by (simp add: updateWithFailedAttempt_def tried_def new_RequestContext_def)
  next
    case False
    then have "Suc (j mod ma) < ma" using assms(1) mod_less_divisor [of ma j] by linarith
    with False have "Suc (j mod ma) < ma" "Suc j div ma = j div ma" "Suc j mod ma = Suc (j mod ma)"
      using assms(1) by (simp_all add: div_Suc mod_Suc)
    with n show ?thesis
      by (simp add: updateWithFailedAttempt_def tried_def new_RequestContext_def)
  qed
qed

lemma tried_simps [simp]:
  "rc_tick (tried cmd ma n t) = t" "(tried cmd ma n t)\<lparr>rc_tick := u\<rparr> = tried cmd ma n u"
  "rc_servers (tried cmd ma n t) = cc_ipPool cmd" "rc_packet (tried cmd ma n t) = cc_payload cmd"
  "rc_id (tried cmd ma n t) = cc_requestId cmd" "rc_selectedAddress (tried cmd ma n t) = (n - 1) div ma"
  by (simp_all add: tried_def new_RequestContext_def)

lemma tried_sent: "(tried cmd ma (Suc n) t)\<lparr>rc_tries := Suc (n mod ma)\<rparr> = tried cmd ma (Suc n) t"
  by (simp add: tried_def)

lemma tick_resends:
  assumes "tft > 0" "ma > 0" "n > 0" "n < length (cc_ipPool cmd) * ma"
  shows "client_tick (waiting cmd tft ma n (tft - 1) out) =
    Inr (waiting cmd tft ma (Suc n) 0 (out @ [sent_to cmd ma n]))"
proof -
  have q: "n div ma < length (cc_ipPool cmd)"
    using assms(2,4) by (simp add: div_less_iff_less_mult)
  have u: "updateWithFailedAttempt (int ma) (tried cmd ma n 0) =
      (True, (tried cmd ma (Suc n) 0)\<lparr>rc_tries := n mod ma\<rparr>)"
    using update_tried [OF assms(2,3), of cmd] assms(4) by simp
  show ?thesis
    using assms(1) q
    by (simp add: client_tick_def processRequests_def waiting_def u send_none tried_sent sent_to_def)
qed

lemma tick_gives_up:
  assumes "tft > 0" "ma > 0" "cc_ipPool cmd \<noteq> []"
  shows "client_tick (waiting cmd tft ma (length (cc_ipPool cmd) * ma) (tft - 1) out) =
    Inl (AssertFail ''Error, cannot send OK with empty payload!'')"
proof -
  let ?n = "length (cc_ipPool cmd) * ma"
  have n: "?n > 0" using assms by simp
  have u: "updateWithFailedAttempt (int ma) (tried cmd ma ?n 0) =
      (False, (tried cmd ma ?n 0)\<lparr>rc_selectedAddress := ?n div ma\<rparr>)"
    using update_tried [OF assms(2) n, of cmd] by simp
  show ?thesis
    using assms(1) by (simp add: client_tick_def processRequests_def waiting_def u client_sendResponse_def)
qed

lemma attempts:
  assumes "tft > 0" "ma > 0" "n < length (cc_ipPool cmd) * ma"
  shows "ticks (n * tft) (waiting cmd tft ma 1 0 out) =
    Inr (waiting cmd tft ma (Suc n) 0 (out @ map (sent_to cmd ma) [1..<Suc n]))"
  using assms(3)
proof (induction n)
  case (Suc n)
  obtain k where k: "tft = Suc k" using assms(1) by (cases tft) auto
  have r: "client_tick (waiting cmd tft ma (Suc n) k x) =
      Inr (waiting cmd tft ma (Suc (Suc n)) 0 (x @ [sent_to cmd ma (Suc n)]))" for x
    using tick_resends [of tft ma "Suc n" cmd x] assms(1,2) Suc.prems k by simp
  have "ticks tft (waiting cmd tft ma (Suc n) 0 x) =
      Inr (waiting cmd tft ma (Suc (Suc n)) 0 (x @ [sent_to cmd ma (Suc n)]))" for x
    using ticks_wait [of k tft cmd ma "Suc n" x] r k by simp
  moreover have "ticks (Suc n * tft) w = and_then (ticks (n * tft) w) (ticks tft)" for w :: "'a DnsClient"
    using ticks_add [of "n * tft" tft w] by (simp add: add.commute)
  ultimately show ?case using Suc by simp
qed simp

lemma handle_first:
  assumes "tft > 0" "ma > 0" "cc_ipPool cmd \<noteq> []"
  shows "client_handleRequest cmd (client_initialize (int tft) (int ma)) =
    Inr (waiting cmd tft ma 1 0 [sent_to cmd ma 0])"
  using assms
  by (simp add: client_handleRequest_def client_initialize_def send_none new_RequestContext_def
      waiting_def tried_def sent_to_def)

text \<open>C15.  A query is sent to every server in turn, \<open>maxAttempts\<close> times to each, once per
  \<open>ticksForTimeOut\<close> ticks, until it is answered; when the last attempt at the last server has timed
  out, the failure is not reported but ends the simulation, because the response to the client module
  is asserted to be a success.
\<close>

theorem servers_tried_in_turn:
  assumes "tft > 0" "ma > 0" "cc_ipPool cmd \<noteq> []" "N = length (cc_ipPool cmd) * ma"
  shows "\<exists>s. client_handleRequest cmd (client_initialize (int tft) (int ma)) = Inr s \<and>
    (\<forall>n<N. \<exists>s'. ticks (n * tft) s = Inr s' \<and>
      cl_out s' = map (\<lambda>j. SendTo (cc_payload cmd) (cc_ipPool cmd ! (j div ma)) DNS_PORT) [0..<Suc n]) \<and>
    \<not> is_ok (ticks (N * tft) s)"
proof -
  let ?s = "waiting cmd tft ma 1 0 [sent_to cmd ma 0]"
  have "\<exists>s'. ticks (n * tft) ?s = Inr s' \<and>
      cl_out s' = map (\<lambda>j. SendTo (cc_payload cmd) (cc_ipPool cmd ! (j div ma)) DNS_PORT) [0..<Suc n]"
    if "n < N" for n
    using attempts [OF assms(1,2), of n cmd "[sent_to cmd ma 0]"] that assms(4)
    by (simp add: waiting_def sent_to_def upt_rec [of 0] del: upt_Suc)
  moreover have "\<not> is_ok (ticks (N * tft) ?s)"
  proof -
    have "N > 0" using assms by simp
    then obtain m where m: "N = Suc m" by (cases N) auto
    obtain k where k: "tft = Suc k" using assms(1) by (cases tft) auto
    have "ticks (m * tft) ?s = Inr (waiting cmd tft ma N 0 ([sent_to cmd ma 0] @ map (sent_to cmd ma) [1..<N]))"
      using attempts [OF assms(1,2), of m cmd] m assms(4) by simp
    moreover have "\<not> is_ok (ticks tft (waiting cmd tft ma N 0 x))" for x
      using ticks_wait [of k tft cmd ma N x] tick_gives_up [OF assms(1-3), of x] k assms(4) by simp
    moreover have "ticks (N * tft) ?s = and_then (ticks (m * tft) ?s) (ticks tft)"
      using ticks_add [of "m * tft" tft ?s] m by (simp add: add.commute)
    ultimately show ?thesis by simp
  qed
  ultimately show ?thesis using handle_first [OF assms(1-3)] by simp
qed

text \<open>The first answer to a pending query is handed to the client module once, and the query is
  forgotten; further copies of the answer, and answers to unknown queries, change nothing.
\<close>

theorem answer_delivered_once:
  assumes "map_of (cl_requests s) (dr_requestId p) = Some c"
  shows "\<exists>s'. client_socketDataArrived (RequestChunk p # cs) s = Inr s' \<and>
    cl_out s' = cl_out s @ [Indicate \<lparr>ci_requestId = dr_requestId p, ci_result = DC_OK, ci_payload = Some p\<rparr>] \<and>
    map_of (cl_requests s') = (map_of (cl_requests s))(dr_requestId p := None) \<and>
    client_socketDataArrived (RequestChunk p # cs') s' = Inr s'"
proof -
  have "map_of (filter (\<lambda>x. fst x \<noteq> k) m) = (map_of m)(k := None)" for k and m :: "(u16 \<times> 'a RequestContext) list"
    by (induction m) (auto simp: fun_eq_iff)
  then show ?thesis
    using assms by (simp add: client_socketDataArrived_def client_sendResponse_def Let_def)
qed

definition command_example :: "nat DnsClientCommand" where
  "command_example = \<lparr>cc_ipPool = [7, 9], cc_requestId = 0, cc_payload = query_example\<rparr>"

theorem servers_tried_in_turn_witness:
  "\<exists>s s'. client_handleRequest command_example (client_initialize 3 2) = Inr s \<and> ticks 9 s = Inr s' \<and>
     cl_out s' = [SendTo query_example 7 53, SendTo query_example 7 53, SendTo query_example 9 53,
       SendTo query_example 9 53] \<and> \<not> is_ok (ticks 12 s)"
proof -
  have c: "cc_ipPool command_example = [7, 9]" "cc_payload command_example = query_example"
    by (simp_all add: command_example_def)
  obtain s where s: "client_handleRequest command_example (client_initialize 3 2) = Inr s"
    "\<forall>n<4. \<exists>s'. ticks (n * 3) s = Inr s' \<and>
      cl_out s' = map (\<lambda>j. SendTo query_example ([7, 9] ! (j div 2)) DNS_PORT) [0..<Suc n]"
    "\<not> is_ok (ticks 12 s)"
    using servers_tried_in_turn [of 3 2 command_example 4] by (auto simp: c)
  have "\<exists>s'. ticks 9 s = Inr s' \<and>
      cl_out s' = map (\<lambda>j. SendTo query_example ([7, 9] ! (j div 2)) DNS_PORT) [0..<4]"
    using s(2) [rule_format, of 3] by (simp del: upt_Suc)
  moreover have "[0..<4] = [0, 1, 2, 3::nat]" by (simp add: upt_rec)
  ultimately show ?thesis using s(1,3) by (auto simp: DNS_PORT_def)
qed

theorem answer_delivered_once_witness:
  "\<exists>s'. client_socketDataArrived [RequestChunk query_example]
       ((client_initialize 3 2)\<lparr>cl_requests := [(5, new_RequestContext command_example)]\<rparr>) = Inr s' \<and>
     cl_out s' = [Indicate \<lparr>ci_requestId = 5, ci_result = DC_OK, ci_payload = Some query_example\<rparr>]"
  using answer_delivered_once [where p = query_example and cs = "[]" and c = "new_RequestContext command_example"
      and s = "(client_initialize 3 2)\<lparr>cl_requests := [(5, new_RequestContext command_example)]\<rparr>"]
  by (auto simp: query_example_def client_initialize_def)

end
