(* ===== verification/PowChain.thy ===== *)
theory PowChain
  imports Prelude
begin

text \<open>
  The block chain data of \<open>architecture/p2p/pow/chain\<close>: inputs and outputs of transactions
  (\<open>InOut\<close>), transactions, the set of unspent outputs (\<open>UtxoSet\<close>), blocks with their Merkle root and
  target (\<open>Block\<close>), and the difficulty (\<open>Blockchain\<close>).

  The hash functions and the signature scheme of the crypto library are the fields of the record
  \<open>Crypto\<close>, an argument of every operation that uses them.  A digest and a byte vector are lists of
  bytes; the memory of an integer is its little endian bytes, and the header of a block is laid out
  without padding.
\<close>

section \<open>Bytes and hashes\<close>

type_synonym bytes = "u8 list"

record Crypto =
  sha256 :: "bytes \<Rightarrow> bytes"
  ripemd160 :: "bytes \<Rightarrow> bytes"
  verify_signature :: "bytes \<Rightarrow> bytes \<Rightarrow> bytes \<Rightarrow> bool"   \<comment> \<open>key in DER form, data, signature\<close>

definition le_bytes :: "nat \<Rightarrow> 'a::len word \<Rightarrow> bytes" where
  "le_bytes k w = map (\<lambda>i. ucast (drop_bit (8 * i) w)) [0..<k]"

definition dsha256 :: "Crypto \<Rightarrow> bytes \<Rightarrow> bytes" where
  "dsha256 c d = sha256 c (sha256 c d)"

definition hashPublic :: "Crypto \<Rightarrow> bytes \<Rightarrow> bytes" where
  "hashPublic c pubDer = ripemd160 c (sha256 c pubDer)"

text \<open>\<open>memcmp(a, b, 32) > 0\<close>\<close>

definition gt :: "bytes \<Rightarrow> bytes \<Rightarrow> bool" where
  "gt a b \<longleftrightarrow> map unat b < map unat a"

definition GENESIS_HASH :: bytes where
  "GENESIS_HASH = replicate 32 0"

section \<open>Transactions\<close>

record utxo =
  amount :: u64
  pubkeyScript :: bytes

record txi =
  txid :: bytes
  vout :: u32
  signatureScript :: bytes
  sequenceNumber :: u32

record Transaction =
  tx_version :: u32
  outputs :: "utxo list"
  inputs :: "txi list"
  locktime :: u32

definition RIPEMD160_DIGEST_LENGTH :: nat where "RIPEMD160_DIGEST_LENGTH = 20"
definition SIGSIZE :: nat where "SIGSIZE = 64"

definition utxo_size :: "utxo \<Rightarrow> nat" where
  "utxo_size u = 8 + length (pubkeyScript u)"

definition utxo_getBytes :: "utxo \<Rightarrow> bytes" where
  "utxo_getBytes u = le_bytes 8 (amount u) @ pubkeyScript u"

definition getPubkeyScript :: "utxo \<Rightarrow> bytes outcome" where
  "getPubkeyScript u =
     and_then (require (length (pubkeyScript u) \<ge> RIPEMD160_DIGEST_LENGTH) (AssertFail ''pubkeyScript''))
       (\<lambda>_. Inr (take RIPEMD160_DIGEST_LENGTH (pubkeyScript u)))"

definition txi_size :: "txi \<Rightarrow> nat" where
  "txi_size i = 32 + 4 + 4 + length (signatureScript i)"

definition txi_getBytes :: "txi \<Rightarrow> bytes" where
  "txi_getBytes i = txid i @ le_bytes 4 (vout i) @ signatureScript i @ le_bytes 4 (sequenceNumber i)"

definition getSignatureScript :: "txi \<Rightarrow> (bytes \<times> bytes) outcome" where
  "getSignatureScript i =
     and_then (require (length (signatureScript i) > SIGSIZE) (AssertFail ''signatureScript''))
       (\<lambda>_. Inr (take SIGSIZE (signatureScript i), drop SIGSIZE (signatureScript i)))"

definition new_Transaction :: Transaction where
  "new_Transaction = \<lparr>tx_version = 1, outputs = [], inputs = [], locktime = 100\<rparr>"

definition addOutput :: "Crypto \<Rightarrow> u64 \<Rightarrow> bytes \<Rightarrow> Transaction \<Rightarrow> Transaction" where
  "addOutput c a pubDer t = t\<lparr>outputs := outputs t @ [\<lparr>amount = a, pubkeyScript = hashPublic c pubDer\<rparr>]\<rparr>"

text \<open>\<open>sign_with\<close> signs with the private key handed to the operation.\<close>

definition addInput :: "(bytes \<Rightarrow> bytes) \<Rightarrow> bytes \<Rightarrow> u32 \<Rightarrow> u64 \<Rightarrow> bytes \<Rightarrow> Transaction \<Rightarrow> Transaction" where
  "addInput sign_with i v a pubDer t =
     t\<lparr>inputs := inputs t @ [\<lparr>txid = i, vout = v,
        signatureScript = sign_with (le_bytes 8 a) @ pubDer, sequenceNumber = 0\<rparr>]\<rparr>"

definition tx_bytes :: "Transaction \<Rightarrow> bytes" where
  "tx_bytes t = le_bytes 4 (tx_version t) @ concat (map utxo_getBytes (outputs t)) @
     concat (map txi_getBytes (inputs t)) @ le_bytes 4 (locktime t)"

definition tx_hash :: "Crypto \<Rightarrow> Transaction \<Rightarrow> bytes" where
  "tx_hash c t = sha256 c (tx_bytes t)"

definition tx_size :: "Transaction \<Rightarrow> nat" where
  "tx_size t = 4 + 4 + sum_list (map txi_size (inputs t)) + sum_list (map utxo_size (outputs t))"

section \<open>Unspent outputs\<close>

type_synonym UtxoSet = "bytes \<rightharpoonup> utxo list"

definition utxo_add :: "Crypto \<Rightarrow> Transaction \<Rightarrow> UtxoSet \<Rightarrow> UtxoSet" where
  "utxo_add c t db = db(tx_hash c t \<mapsto> outputs t)"

text \<open>
  The index is an \<open>int\<close> made from the \<open>uint32_t\<close> of an input.  Both operations let the index one past
  the end through.
\<close>

definition utxo_get :: "bytes \<Rightarrow> int \<Rightarrow> UtxoSet \<Rightarrow> utxo option outcome" where
  "utxo_get i v db =
     (case db i of
        None \<Rightarrow> Inr None
      | Some os \<Rightarrow>
          if v < 0 \<or> v > int (length os) then Inr None
          else if nat v < length os then Inr (Some (os ! nat v))
          else Inl (Undefined ''past the end''))"

text \<open>\<open>int sum; sum += utxo.amount\<close>: the sum is taken in 64 bits and cut to 32.\<close>

definition int_sum :: "utxo list \<Rightarrow> u32" where
  "int_sum os = foldl (\<lambda>sum u. ucast ((scast sum :: u64) + amount u)) 0 os"

definition spendCoin :: "bytes \<Rightarrow> int \<Rightarrow> UtxoSet \<Rightarrow> UtxoSet outcome" where
  "spendCoin i v db =
     (case db i of
        None \<Rightarrow> Inr db
      | Some os \<Rightarrow>
          if v < 0 \<or> v > int (length os) then Inr db
          else if nat v < length os
          then let os' = os[nat v := (os ! nat v)\<lparr>amount := - 1\<rparr>] in
            Inr (if (scast (int_sum os') :: u64) = - of_nat (length os') then db(i := None)
                 else db(i \<mapsto> os'))
          else Inl (Undefined ''past the end''))"

section \<open>Blocks\<close>

record TxFee =
  tf_tx :: Transaction
  tf_fee :: u64

record BlockHeader =
  bh_version :: u32
  parentBlockHash :: bytes
  merkleRootHash :: bytes
  bh_time :: u32
  nBits :: u32
  nonce :: u32

record Block =
  header :: BlockHeader
  transactions :: "TxFee list"

definition header_bytes :: "BlockHeader \<Rightarrow> bytes" where
  "header_bytes h = le_bytes 4 (bh_version h) @ parentBlockHash h @ merkleRootHash h @
     le_bytes 4 (bh_time h) @ le_bytes 4 (nBits h) @ le_bytes 4 (nonce h)"

definition block_hash :: "Crypto \<Rightarrow> Block \<Rightarrow> bytes" where
  "block_hash c b = dsha256 c (header_bytes (header b))"

text \<open>\<open>std::clamp\<close> wants its bounds in order; the subscripts of a \<open>std::array\<close> are not checked.\<close>

definition getTarget :: "int \<Rightarrow> BlockHeader \<Rightarrow> bytes outcome" where
  "getTarget fakeness h =
     (let hi = sint (32 - drop_bit 24 (nBits h)); coefficient = nBits h AND 0x00FFFFFF;
          x = sint (32 - drop_bit 24 (nBits h) - word_of_int fakeness :: u32) in
      if hi < 0 then Inl (Undefined ''clamp'')
      else
        let i = nat (max 0 (min x hi)) in
        if i + 2 < 32
        then Inr ((replicate 32 0)[i := ucast (drop_bit 16 coefficient AND 0xFF),
               i + 1 := ucast (drop_bit 8 coefficient AND 0xFF), i + 2 := ucast (coefficient AND 0xFF)])
        else Inl (Undefined ''target index''))"

definition new_Block :: "Crypto \<Rightarrow> u32 \<Rightarrow> Block option \<Rightarrow> u32 \<Rightarrow> Block" where
  "new_Block c now parent difficulty = \<lparr>header = \<lparr>bh_version = 1,
       parentBlockHash = (case parent of Some p \<Rightarrow> block_hash c p | None \<Rightarrow> GENESIS_HASH),
       merkleRootHash = replicate 32 0, bh_time = now, nBits = difficulty, nonce = 0\<rparr>,
     transactions = []\<rparr>"

text \<open>One round over pairs of hashes, an odd last one paired with itself; then the rounds.\<close>

fun merkle_round :: "Crypto \<Rightarrow> bytes list \<Rightarrow> bytes list" where
  "merkle_round c (a # b # hs) = dsha256 c (a @ b) # merkle_round c hs"
| "merkle_round c [a] = [dsha256 c (a @ a)]"
| "merkle_round c [] = []"

lemma length_merkle_round: "length (merkle_round c hs) = (length hs + 1) div 2"
  by (induction c hs rule: merkle_round.induct) auto

function merkle_rounds :: "Crypto \<Rightarrow> bytes list \<Rightarrow> bytes list" where
  "merkle_rounds c hs = (if length hs > 1 then merkle_rounds c (merkle_round c hs) else hs)"
  by pat_completeness auto
termination
  by (relation "measure (\<lambda>(c, hs). length hs)") (auto simp: length_merkle_round)

declare merkle_rounds.simps [simp del]

definition merkleRoot :: "Crypto \<Rightarrow> TxFee list \<Rightarrow> bytes" where
  "merkleRoot c ts =
     (if ts = [] then replicate 32 0 else hd (merkle_rounds c (map (\<lambda>t. tx_hash c (tf_tx t)) ts)))"

definition isValid :: "Crypto \<Rightarrow> Block option \<Rightarrow> Block \<Rightarrow> bool" where
  "isValid c parent b \<longleftrightarrow>
     parentBlockHash (header b) = (case parent of Some p \<Rightarrow> block_hash c p | None \<Rightarrow> GENESIS_HASH) \<and>
     merkleRootHash (header b) = merkleRoot c (transactions b)"

section \<open>Difficulty and subsidy\<close>

definition GENESIS_NBITS :: u32 where "GENESIS_NBITS = 0x1D00FFFF"
definition BASE_SUBSIDY :: u64 where "BASE_SUBSIDY = 50 * 1000000000"
definition BLOCK_MINETIME :: u32 where "BLOCK_MINETIME = 600"
definition BLOCK_DIFFUPDATE :: nat where "BLOCK_DIFFUPDATE = 2016"
definition HALVING_INTERVAL :: nat where "HALVING_INTERVAL = 210000"
definition MAX_BLOCK_SERIALIZED_SIZE :: nat where "MAX_BLOCK_SERIALIZED_SIZE = 1000"
definition COINBASE_SIZE :: nat where "COINBASE_SIZE = 80"

text \<open>A shift by the width of the type or more is undefined.\<close>

definition getSubsidy :: "nat \<Rightarrow> u64 outcome" where
  "getSubsidy height =
     (if height div HALVING_INTERVAL < 64 then Inr (drop_bit (height div HALVING_INTERVAL) BASE_SUBSIDY)
      else Inl (Undefined ''shift''))"

definition clamp32 :: "u32 \<Rightarrow> u32 \<Rightarrow> u32 \<Rightarrow> u32" where
  "clamp32 x lo hi = (if x < lo then lo else if hi < x then hi else x)"

text \<open>
  The two loops that normalise the coefficient.  The first shifts right and ends after at most two
  rounds, the second shifts left and ends after at most four, because nothing is left of the 32 bits
  then.
\<close>

fun shrink :: "nat \<Rightarrow> u32 \<times> u32 \<Rightarrow> u32 \<times> u32" where
  "shrink 0 x = x"
| "shrink (Suc k) (exponent, coefficient) =
     (if coefficient AND NOT 0x007FFFFF \<noteq> 0
      then shrink k (exponent + 1, drop_bit 8 coefficient) else (exponent, coefficient))"

fun stretch :: "nat \<Rightarrow> u32 \<times> u32 \<Rightarrow> u32 \<times> u32" where
  "stretch 0 x = x"
| "stretch (Suc k) (exponent, coefficient) =
     (if coefficient \<noteq> 0 \<and> coefficient AND 0x00800000 = 0
      then stretch k (exponent - 1, push_bit 8 coefficient) else (exponent, coefficient))"

definition TARGETSPAN :: u32 where "TARGETSPAN = BLOCK_MINETIME * of_nat BLOCK_DIFFUPDATE"

definition getDifficulty :: "Block list \<Rightarrow> int \<Rightarrow> u32 outcome" where
  "getDifficulty chain height =
     (if height = -1 then Inr GENESIS_NBITS
      else if height < 0 \<or> height \<ge> int (length chain) then Inl (Undefined ''block index'')
      else
        let h = nat height; lastDiff = h - h mod BLOCK_DIFFUPDATE; bits = nBits (header (chain ! lastDiff)) in
        if (h + 1) mod BLOCK_DIFFUPDATE \<noteq> 0 then Inr bits
        else
          let exponent = drop_bit 24 bits; coefficient = bits AND 0x007FFFFF;
              timespan = clamp32 (bh_time (header (chain ! h)) - bh_time (header (chain ! lastDiff)))
                (TARGETSPAN div 4) (TARGETSPAN * 4);
              coefficient = coefficient * (TARGETSPAN div timespan);
              (exponent, coefficient) = stretch 5 (shrink 4 (exponent, coefficient)) in
          Inr (push_bit 24 exponent OR coefficient))"

section \<open>Properties of the chain data\<close>

lemma TARGETSPAN_val [simp]: "TARGETSPAN = 1209600"
  by (simp add: TARGETSPAN_def BLOCK_MINETIME_def BLOCK_DIFFUPDATE_def)

lemma clamp32_above:
  "x > 1209600 \<Longrightarrow> clamp32 x (1209600 div 4) (1209600 * 4) > 1209600"
  by (simp add: clamp32_def word_less_nat_alt)

lemma not_less_zeros: "length xs = n \<Longrightarrow> \<not> xs < replicate n (0::nat)"
  by (induction xs arbitrary: n) (auto simp: list_less_def)

lemma gt_zeros: "length t = n \<Longrightarrow> \<not> gt (replicate n 0) t"
  by (simp add: gt_def not_less_zeros)

lemma length_target: "getTarget f h = Inr t \<Longrightarrow> length t = 32"
  by (auto simp: getTarget_def Let_def split: if_splits)

lemma no_coefficient: "shrink k (e, 0) = (e, 0)" "stretch k (e, 0) = (e, 0)"
  by (cases k; simp)+

lemma mask_eq_24: "mask 24 = (0x00FFFFFF :: u32)"
  by (simp add: mask_eq_exp_minus_1)

lemma push_24: "(push_bit 24 e :: u32) AND 0x00FFFFFF = 0"
proof -
  have "(push_bit 24 e :: u32) AND mask 24 = 0"
    by (rule bit_word_eqI) (auto simp: bit_simps)
  then show ?thesis by (simp only: mask_eq_24)
qed

lemma target_zero:
  assumes "nBits h AND 0x00FFFFFF = 0" "getTarget f h = Inr t"
  shows "t = replicate 32 0"
proof -
  have "(replicate n x)[i := x] = replicate n x" for n i and x :: u8
    by (metis list_update_id list_update_beyond not_less nth_replicate length_replicate)
  with assms show ?thesis by (auto simp: getTarget_def Let_def split: if_splits)
qed

text \<open>Slow blocks make mining impossible.  When the blocks of a difficulty interval took longer than
  intended, the quotient of the two spans is the integer 0: the difficulty of the next block has no
  coefficient left, every target computed from it is the zero hash, and no other hash reaches it.
\<close>

theorem slow_interval_unminable:
  assumes "h < length chain" "(h + 1) mod BLOCK_DIFFUPDATE = 0"
    and "bh_time (header (chain ! h)) - bh_time (header (chain ! (h - h mod BLOCK_DIFFUPDATE))) > TARGETSPAN"
  shows "\<exists>bits. getDifficulty chain (int h) = Inr bits \<and>
    (\<forall>hd f t. nBits hd = bits \<and> getTarget f hd = Inr t \<longrightarrow>
      (\<forall>x. length x = 32 \<and> x \<noteq> replicate 32 0 \<longrightarrow> gt x t))"
proof -
  let ?bits = "nBits (header (chain ! (h - h mod BLOCK_DIFFUPDATE)))"
  let ?n = "push_bit 24 (drop_bit 24 ?bits) OR 0 :: u32"
  have q: "1209600 div clamp32 (bh_time (header (chain ! h)) -
      bh_time (header (chain ! (h - h mod BLOCK_DIFFUPDATE)))) (1209600 div 4) (1209600 * 4) = 0"
    using clamp32_above [of "bh_time (header (chain ! h)) - bh_time (header (chain ! (h - h mod BLOCK_DIFFUPDATE)))"]
      assms(3) by (simp add: div_word_less)
  have d: "getDifficulty chain (int h) = Inr ?n"
    using assms(1,2) q by (simp add: getDifficulty_def Let_def no_coefficient)
  have "gt x t" if "nBits hd = ?n" "getTarget f hd = Inr t" "length x = 32" "x \<noteq> replicate 32 0" for hd f t x
  proof -
    have t: "t = replicate 32 0" using target_zero [of hd f t] that(1,2) push_24 by simp
    have "map unat x \<noteq> replicate 32 0"
      using that(3,4) by (auto simp: list_eq_iff_nth_eq unat_eq_0)
    moreover have "\<not> map unat x < replicate 32 0" using that(3) by (simp add: not_less_zeros)
    ultimately show ?thesis
      by (metis gt_def linorder_cases map_replicate t unat_0)
  qed
  with d show ?thesis by blast
qed

lemma merkle_round_dup:
  "odd (length hs) \<Longrightarrow> merkle_round c (hs @ [last hs]) = merkle_round c hs"
proof (induction c hs rule: merkle_round.induct)
  case (1 c a b hs)
  then have "hs \<noteq> []" by auto
  with 1 show ?case by simp
qed auto

text \<open>The Merkle root does not determine the transactions: a block with an odd number of them, and
  the block that repeats its last one, have the same root, so both have the same hash and are equally
  valid to a node.
\<close>

theorem merkle_root_repeats:
  assumes "odd (length ts)" "length ts > 1"
  shows "merkleRoot c (ts @ [last ts]) = merkleRoot c ts"
proof -
  let ?h = "map (\<lambda>t. tx_hash c (tf_tx t)) ts"
  have "ts \<noteq> []" using assms(2) by auto
  then have "merkle_round c (?h @ [tx_hash c (tf_tx (last ts))]) = merkle_round c ?h"
    using merkle_round_dup [of ?h c] assms(1) by (simp add: last_map)
  then have "merkle_rounds c (?h @ [tx_hash c (tf_tx (last ts))]) = merkle_rounds c ?h"
    using assms(2) \<open>ts \<noteq> []\<close>
    by (subst (1 2) merkle_rounds.simps) (simp add: Suc_lessI)
  then show ?thesis using \<open>ts \<noteq> []\<close> by (simp add: merkleRoot_def)
qed

lemma cut_add: "(ucast ((b :: u64) + c) :: u32) = ucast b + ucast c"
proof transfer
  fix b c :: int
  have "take_bit 32 (take_bit 64 (b + c)) = take_bit 32 (b + c)" by simp
  also have "\<dots> = take_bit 32 (take_bit 32 b + take_bit 32 c)" by (simp add: take_bit_add)
  also have "\<dots> = take_bit 32 (take_bit 32 (take_bit 64 b) + take_bit 32 (take_bit 64 c))" by simp
  also have "\<dots> = take_bit 32 (take_bit 64 b + take_bit 64 c)" by (simp only: take_bit_add)
  finally show "take_bit LENGTH(32) (take_bit LENGTH(64) (b + c)) =
       take_bit LENGTH(32) (take_bit LENGTH(64) b + take_bit LENGTH(64) c)" by simp
qed

lemma cut_int [simp]: "(ucast (scast (a :: u32) :: u64) :: u32) = a"
  by (rule bit_word_eqI) (simp add: bit_simps)

lemma int_sum_eq: "int_sum os = (\<Sum>u\<leftarrow>os. ucast (amount u))"
proof -
  have "foldl (\<lambda>sum u. ucast ((scast (sum :: u32) :: u64) + amount u)) a os = a + (\<Sum>u\<leftarrow>os. ucast (amount u))" for a
    by (induction os arbitrary: a) (simp_all add: ac_simps cut_add)
  then show ?thesis by (simp add: int_sum_def)
qed

lemma scast_minus:
  assumes "n < 2 ^ 31"
  shows "(scast (- of_nat n :: u32) :: u64) = - of_nat n"
proof -
  have s: "sint (- of_nat n :: u32) = - int n"
    using assms sint_of_int_range [of "- int n"] by simp
  have "(scast (- of_nat n :: u32) :: u64) = word_of_int (sint (- of_nat n :: u32))"
    by simp
  also have "\<dots> = - of_nat n" by (simp only: s) simp
  finally show ?thesis .
qed

text \<open>Spending one coin can lose another.  An output is spent by setting its amount to -1, and its
  transaction is dropped when the amounts, summed up in an \<open>int\<close>, look as if all were spent: besides
  the outputs that are spent, every unspent one whose amount is one less than a multiple of
  \<open>2 ^ 32\<close> is taken for spent, and disappears from the set.
\<close>

theorem spending_loses_coins:
  assumes "db i = Some os" "v < length os" "length os < 2 ^ 31"
    and "\<forall>j<length os. j \<noteq> v \<longrightarrow> ucast (amount (os ! j)) = (- 1 :: u32)"
  shows "spendCoin i (int v) db = Inr (db(i := None))"
proof -
  let ?os = "os[v := (os ! v)\<lparr>amount := - 1\<rparr>]"
  have "ucast (amount u) = (- 1 :: u32)" if u: "u \<in> set ?os" for u
  proof -
    obtain j where j: "j < length os" "u = ?os ! j" using u by (auto simp: in_set_conv_nth)
    have "(ucast (- 1 :: u64) :: u32) = - 1" by (rule bit_word_eqI) (simp add: bit_simps)
    with j assms(2,4) show ?thesis by (cases "j = v") simp_all
  qed
  then have "map (\<lambda>u. ucast (amount u)) ?os = map (\<lambda>_. - 1 :: u32) ?os" by (rule map_cong [OF refl])
  then have "int_sum ?os = - of_nat (length os)"
    unfolding int_sum_eq by (simp add: map_replicate_const sum_list_replicate)
  then show ?thesis
    using assms(1-3) by (simp add: spendCoin_def Let_def scast_minus)
qed

definition coin :: "u64 \<Rightarrow> utxo" where
  "coin a = \<lparr>amount = a, pubkeyScript = []\<rparr>"

theorem spending_loses_coins_witness:
  "spendCoin [1] 0 [[1] \<mapsto> [coin 7, coin 0xFFFFFFFF]] = Inr ([[1] \<mapsto> [coin 7, coin 0xFFFFFFFF]]([1] := None))"
  using spending_loses_coins [of "[[1] \<mapsto> [coin 7, coin 0xFFFFFFFF]]" "[1]" "[coin 7, coin 0xFFFFFFFF]" 0]
  by (simp add: less_Suc_eq coin_def)

definition plain_tx :: "nat \<Rightarrow> TxFee" where
  "plain_tx n = \<lparr>tf_tx = new_Transaction\<lparr>locktime := of_nat n\<rparr>, tf_fee = 0\<rparr>"

theorem merkle_root_repeats_witness:
  "\<forall>c. merkleRoot c (map plain_tx [1, 2, 3, 3]) = merkleRoot c (map plain_tx [1, 2, 3])"
  using merkle_root_repeats [of "map plain_tx [1, 2, 3]"] by simp

definition timed_block :: "u32 \<Rightarrow> Block" where
  "timed_block t = \<lparr>header = \<lparr>bh_version = 1, parentBlockHash = GENESIS_HASH, merkleRootHash = GENESIS_HASH,
     bh_time = t, nBits = GENESIS_NBITS, nonce = 0\<rparr>, transactions = []\<rparr>"

theorem slow_interval_unminable_witness:
  "\<exists>bits. getDifficulty (map (\<lambda>i. timed_block (of_nat i * 601)) [0..<2016]) 2015 = Inr bits \<and>
    (\<forall>hd f t. nBits hd = bits \<and> getTarget f hd = Inr t \<longrightarrow>
      (\<forall>x. length x = 32 \<and> x \<noteq> replicate 32 0 \<longrightarrow> gt x t))"
  using slow_interval_unminable [of 2015 "map (\<lambda>i. timed_block (of_nat i * 601)) [0..<2016]"]
  by (simp add: BLOCK_DIFFUPDATE_def timed_block_def word_less_nat_alt)

end
