(* ===== verification/FullNode.thy ===== *)
theory FullNode
  imports PowChain
begin

text \<open>
  The full node of the block chain, \<open>architecture/p2p/pow/nodes/FullNode\<close>: it validates
  transactions against its set of unspent outputs, collects them by fee, mines blocks and extends its
  chain.

  The priority queue of the pool is the list of its elements with the parameter \<open>pick\<close>, which says
  where the library finds the greatest one (ties are its choice).  Mining tries nonces without bound,
  so it is a partial function: \<open>None\<close> is a search that does not end.  \<open>now\<close> gives the wall clock at
  its successive readings.
\<close>

section \<open>State\<close>

record FullNode =
  blockchain :: "Block list"
  node_utxo :: UtxoSet
  node_pubDer :: bytes
  mempool :: "TxFee list"

definition node_initialize :: "bytes \<Rightarrow> FullNode" where
  "node_initialize pubDer = \<lparr>blockchain = [], node_utxo = Map.empty, node_pubDer = pubDer, mempool = []\<rparr>"

definition last_block :: "FullNode \<Rightarrow> Block option" where
  "last_block s = (if blockchain s = [] then None else Some (last (blockchain s)))"

section \<open>Transactions\<close>

text \<open>
  The loop over the inputs; \<open>None\<close> is the early return of -1.  The index of an outpoint goes from
  \<open>uint32_t\<close> to \<open>int\<close>.
\<close>

fun validate_inputs :: "Crypto \<Rightarrow> UtxoSet \<Rightarrow> txi list \<Rightarrow> u64 \<Rightarrow> u64 option outcome" where
  "validate_inputs c db [] fee = Inr (Some fee)"
| "validate_inputs c db (i # is) fee =
     and_then (utxo_get (txid i) (sint (vout i)) db) (\<lambda>out.
       (case out of
          None \<Rightarrow> Inr None
        | Some u \<Rightarrow>
            if amount u = - 1 then Inr None
            else and_then (getSignatureScript i) (\<lambda>(inputSignature, inputPubDer).
              and_then (getPubkeyScript u) (\<lambda>outputPubHash.
                if hashPublic c inputPubDer \<noteq> outputPubHash \<or>
                   \<not> verify_signature c inputPubDer (le_bytes 8 (amount u)) inputSignature
                then Inr None
                else validate_inputs c db is (fee + amount u)))))"

text \<open>The result is an \<open>int\<close>, into which the 64 bits of the fee are cut.\<close>

definition validateTransaction :: "Crypto \<Rightarrow> Transaction \<Rightarrow> FullNode \<Rightarrow> u32 outcome" where
  "validateTransaction c t s =
     and_then (validate_inputs c (node_utxo s) (inputs t) 0) (\<lambda>r.
       Inr (case r of None \<Rightarrow> - 1 | Some fee \<Rightarrow> ucast (foldl (\<lambda>fee u. fee - amount u) fee (outputs t))))"

text \<open>\<open>fee\<close> is unsigned, so the comparison with 0 never holds.\<close>

definition addToMempool :: "Crypto \<Rightarrow> Transaction \<Rightarrow> FullNode \<Rightarrow> FullNode outcome" where
  "addToMempool c t s =
     and_then (validateTransaction c t s) (\<lambda>v.
       let fee = scast v :: u64 in
       if fee < 0 then Inr s
       else Inr (s\<lparr>mempool := mempool s @ [\<lparr>tf_tx = t, tf_fee = fee\<rparr>]\<rparr>))"

section \<open>Mining\<close>

definition addCoinbase :: "Crypto \<Rightarrow> FullNode \<Rightarrow> Block \<Rightarrow> Block outcome" where
  "addCoinbase c s b =
     (let fee = foldl (\<lambda>fee t. fee + tf_fee t) 0 (transactions b); chainSize = length (blockchain s) in
      and_then (getSubsidy chainSize) (\<lambda>subsidy.
        let coinbase = addOutput c (fee + subsidy) (node_pubDer s) new_Transaction;
            coinbase = coinbase\<lparr>inputs := inputs coinbase @ [\<lparr>txid = replicate 32 0, vout = - 1,
              signatureScript = le_bytes 4 (of_nat chainSize :: u32), sequenceNumber = 0\<rparr>]\<rparr>;
            b = b\<lparr>transactions := \<lparr>tf_tx = coinbase, tf_fee = 0\<rparr> # transactions b\<rparr> in
        Inr (b\<lparr>header := (header b)\<lparr>merkleRootHash := merkleRoot c (transactions b)\<rparr>\<rparr>)))"

text \<open>
  Filling the block: while there is room and the pool is not empty, the top of the pool is taken.
  Every round takes an element, so the size of the pool bounds the rounds.
\<close>

fun fill_block :: "nat \<Rightarrow> (TxFee list \<Rightarrow> nat) \<Rightarrow> nat \<Rightarrow> TxFee list \<Rightarrow> TxFee list \<times> TxFee list" where
  "fill_block 0 pick blockSize pool = ([], pool)"
| "fill_block (Suc n) pick blockSize pool =
     (if blockSize < MAX_BLOCK_SERIALIZED_SIZE - COINBASE_SIZE \<and> pool \<noteq> []
      then let t = pool ! pick pool;
               (ts, rest) = fill_block n pick (blockSize + tx_size (tf_tx t))
                 (take (pick pool) pool @ drop (Suc (pick pool)) pool) in (t # ts, rest)
      else ([], pool))"

partial_function (option) find_nonce ::
  "Crypto \<Rightarrow> (nat \<Rightarrow> u32) \<Rightarrow> bytes \<Rightarrow> nat \<Rightarrow> BlockHeader \<Rightarrow> BlockHeader option" where
  "find_nonce c now target k h =
     (if gt (dsha256 c (header_bytes h)) target
      then let h = h\<lparr>nonce := nonce h + 1\<rparr> in
        find_nonce c now target (Suc k) (if nonce h = 0 then h\<lparr>bh_time := now k\<rparr> else h)
      else Some h)"

definition mineBlock ::
  "Crypto \<Rightarrow> (TxFee list \<Rightarrow> nat) \<Rightarrow> (nat \<Rightarrow> u32) \<Rightarrow> FullNode \<Rightarrow> (Block \<times> FullNode) option outcome" where
  "mineBlock c pick now s =
     and_then (getDifficulty (blockchain s) (int (length (blockchain s)) - 1)) (\<lambda>difficulty.
       let b = new_Block c (now 0) (last_block s) difficulty;
           (ts, rest) = fill_block (length (mempool s)) pick 80 (mempool s) in
       and_then (addCoinbase c s (b\<lparr>transactions := ts\<rparr>)) (\<lambda>b.
         and_then (getTarget 2 (header b)) (\<lambda>target.
           Inr (map_option (\<lambda>h. (b\<lparr>header := h\<rparr>, s\<lparr>mempool := rest\<rparr>))
             (find_nonce c now target 1 (header b))))))"

section \<open>Extending the chain\<close>

text \<open>The transactions after the first, with the sum of their fees; \<open>None\<close> is the early return.\<close>

fun check_fees :: "Crypto \<Rightarrow> FullNode \<Rightarrow> TxFee list \<Rightarrow> u64 \<Rightarrow> u64 option outcome" where
  "check_fees c s [] fee = Inr (Some fee)"
| "check_fees c s (t # ts) fee =
     (if tf_fee t < 0 then Inr None
      else and_then (validateTransaction c (tf_tx t) s) (\<lambda>v.
        if tf_fee t \<noteq> scast v then Inr None else check_fees c s ts (fee + tf_fee t)))"

fun spend_inputs :: "txi list \<Rightarrow> UtxoSet \<Rightarrow> UtxoSet outcome" where
  "spend_inputs [] db = Inr db"
| "spend_inputs (i # is) db = and_then (spendCoin (txid i) (sint (vout i)) db) (spend_inputs is)"

definition coinbase_ok :: "nat \<Rightarrow> u64 \<Rightarrow> Transaction \<Rightarrow> bool" where
  "coinbase_ok chainSize fee cb \<longleftrightarrow>
     length (inputs cb) = 1 \<and> outputs cb \<noteq> [] \<and>
     txid (hd (inputs cb)) = GENESIS_HASH \<and> vout (hd (inputs cb)) = - 1 \<and>
     signatureScript (hd (inputs cb)) = le_bytes 4 (of_nat chainSize :: u32) \<and>
     foldl (\<lambda>fee u. fee - amount u) fee (outputs cb) = 0"

definition addBlock :: "Crypto \<Rightarrow> Block \<Rightarrow> FullNode \<Rightarrow> FullNode outcome" where
  "addBlock c b s =
     (case transactions b of
        [] \<Rightarrow> Inl (Undefined ''front of an empty vector'')
      | first # others \<Rightarrow>
          and_then (getSubsidy (length (blockchain s))) (\<lambda>subsidy.
          and_then (getTarget 2 (header b)) (\<lambda>target.
          and_then (getDifficulty (blockchain s) (int (length (blockchain s)) - 1)) (\<lambda>bits.
            if \<not> isValid c (last_block s) b then Inr s
            else if bits \<noteq> nBits (header b) \<or> gt (block_hash c b) target then Inr s
            else and_then (check_fees c s others subsidy) (\<lambda>r.
              (case r of
                 None \<Rightarrow> Inr s
               | Some fee \<Rightarrow>
                   if \<not> coinbase_ok (length (blockchain s)) fee (tf_tx first) then Inr s
                   else and_then (spend_inputs (concat (map (\<lambda>t. inputs (tf_tx t)) others)) (node_utxo s)) (\<lambda>db.
                     Inr (s\<lparr>node_utxo := utxo_add c (tf_tx first) db,
                            blockchain := blockchain s @ [b]\<rparr>))))))))"

section \<open>Mining and acceptance agree\<close>

lemma find_nonce_result:
  assumes "find_nonce c now target k h = Some h'"
  shows "\<not> gt (dsha256 c (header_bytes h')) target \<and> (\<exists>n t. h' = h\<lparr>nonce := n, bh_time := t\<rparr>)"
proof (rule find_nonce.raw_induct [OF _ assms, where
      P = "\<lambda>c now target k h h'. \<not> gt (dsha256 c (header_bytes h')) target \<and> (\<exists>n t. h' = h\<lparr>nonce := n, bh_time := t\<rparr>)"])
  fix search c now target k h h'
  assume ih: "\<And>c now target k h h'. search c now target k h = Some h' \<Longrightarrow>
      \<not> gt (dsha256 c (header_bytes h')) target \<and> (\<exists>n t. h' = h\<lparr>nonce := n, bh_time := t\<rparr>)"
    and step: "(if gt (dsha256 c (header_bytes h)) target
      then let h = h\<lparr>nonce := nonce h + 1\<rparr> in
        search c now target (Suc k) (if nonce h = 0 then h\<lparr>bh_time := now k\<rparr> else h)
      else Some h) = Some h'"
  show "\<not> gt (dsha256 c (header_bytes h')) target \<and> (\<exists>n t. h' = h\<lparr>nonce := n, bh_time := t\<rparr>)"
  proof (cases "gt (dsha256 c (header_bytes h)) target")
    case True
    let ?n = "h\<lparr>nonce := nonce h + 1\<rparr>"
    have "search c now target (Suc k) (if nonce ?n = 0 then ?n\<lparr>bh_time := now k\<rparr> else ?n) = Some h'"
      using step True by (simp add: Let_def)
    from ih [OF this] show ?thesis by (auto split: if_splits)
  next
    case False
    with step have "h' = h" by simp
    moreover have "h = h\<lparr>nonce := nonce h, bh_time := bh_time h\<rparr>" by simp
    ultimately show ?thesis using False by metis
  qed
qed

lemma last_block_mempool [simp]: "last_block (s\<lparr>mempool := x\<rparr>) = last_block s"
  by (simp add: last_block_def)

lemma getTarget_stable [simp]: "getTarget f (h\<lparr>nonce := n, bh_time := t\<rparr>) = getTarget f h"
  by (simp add: getTarget_def)

lemma foldl_fees: "foldl (\<lambda>fee t. fee + tf_fee t) a ts = a + (\<Sum>t\<leftarrow>ts. tf_fee t)"
  by (induction ts arbitrary: a) (simp_all add: ac_simps)

text \<open>The fee recorded with a transaction is what its validation returns.\<close>

definition fee_recorded :: "Crypto \<Rightarrow> FullNode \<Rightarrow> TxFee \<Rightarrow> bool" where
  "fee_recorded c s t \<longleftrightarrow>
     (case validateTransaction c (tf_tx t) s of Inl _ \<Rightarrow> False | Inr v \<Rightarrow> tf_fee t = scast v)"

text \<open>No input points one past the outputs of a transaction in the set.\<close>

definition inside :: "UtxoSet \<Rightarrow> txi \<Rightarrow> bool" where
  "inside db i \<longleftrightarrow> (case db (txid i) of None \<Rightarrow> True | Some os \<Rightarrow> sint (vout i) \<noteq> int (length os))"

lemma check_fees_recorded:
  "\<forall>t\<in>set ts. fee_recorded c s t \<Longrightarrow> check_fees c s ts fee = Inr (Some (fee + (\<Sum>t\<leftarrow>ts. tf_fee t)))"
  by (induction ts arbitrary: fee) (auto simp: fee_recorded_def ac_simps split: sum.splits)

lemma spendCoin_inside:
  assumes "inside db i"
  shows "\<exists>db'. spendCoin (txid i) (sint (vout i)) db = Inr db' \<and> (\<forall>j. inside db j \<longrightarrow> inside db' j) \<and>
    dom db' \<subseteq> dom db"
  using assms by (auto simp: spendCoin_def inside_def Let_def nat_less_iff split: option.splits)

lemma spend_inputs_inside:
  "\<forall>i\<in>set is. inside db i \<Longrightarrow> \<exists>db'. spend_inputs is db = Inr db'"
proof (induction "is" arbitrary: db)
  case (Cons i "is")
  with spendCoin_inside [of db i] show ?case by auto
qed simp

lemma fill_block_takes:
  assumes "\<And>pool. pool \<noteq> [] \<Longrightarrow> pick pool < length pool"
  shows "fill_block n pick k pool = (ts, rest) \<Longrightarrow> set ts \<subseteq> set pool"
proof (induction n arbitrary: k pool ts rest)
  case (Suc n)
  show ?case
  proof (cases "k < MAX_BLOCK_SERIALIZED_SIZE - COINBASE_SIZE \<and> pool \<noteq> []")
    case True
    let ?p = "take (pick pool) pool @ drop (Suc (pick pool)) pool"
    obtain us where us: "fill_block n pick (k + tx_size (tf_tx (pool ! pick pool))) ?p = (us, rest)"
      "ts = pool ! pick pool # us"
      using Suc.prems True by (auto simp: Let_def split: prod.splits)
    have "set us \<subseteq> set pool"
      using Suc.IH [OF us(1)] set_take_subset [of "pick pool" pool] set_drop_subset [of "Suc (pick pool)" pool]
      by auto
    with us(2) True assms [of pool] show ?thesis by auto
  qed (use Suc.prems in auto)
qed simp

lemma mineBlock_cases:
  assumes "mineBlock c pick now s = Inr (Some (b, s'))"
  obtains ts rest bits b1 target h where
    "fill_block (length (mempool s)) pick 80 (mempool s) = (ts, rest)"
    "getDifficulty (blockchain s) (int (length (blockchain s)) - 1) = Inr bits"
    "addCoinbase c s ((new_Block c (now 0) (last_block s) bits)\<lparr>transactions := ts\<rparr>) = Inr b1"
    "getTarget 2 (header b1) = Inr target" "find_nonce c now target 1 (header b1) = Some h"
    "b = b1\<lparr>header := h\<rparr>" "s' = s\<lparr>mempool := rest\<rparr>"
proof -
  obtain ts rest where f: "fill_block (length (mempool s)) pick 80 (mempool s) = (ts, rest)"
    by (cases "fill_block (length (mempool s)) pick 80 (mempool s)")
  then show thesis using assms that by (auto simp: mineBlock_def and_then_eq_Inr Let_def)
qed

lemma mined_accepted:
  assumes pick: "\<And>pool. pool \<noteq> [] \<Longrightarrow> pick pool < length pool"
    and fees: "\<forall>t\<in>set (mempool s). fee_recorded c s t \<and> (\<forall>i\<in>set (inputs (tf_tx t)). inside (node_utxo s) i)"
    and mined: "mineBlock c pick now s = Inr (Some (b, s'))"
  shows "\<exists>s'' ts rest. addBlock c b s' = Inr s'' \<and> blockchain s'' = blockchain s @ [b] \<and>
    fill_block (length (mempool s)) pick 80 (mempool s) = (ts, rest) \<and>
    tl (transactions b) = ts \<and> mempool s'' = rest"
proof -
  let ?chain = "blockchain s"
  obtain ts rest bits b1 target h where
    f: "fill_block (length (mempool s)) pick 80 (mempool s) = (ts, rest)"
    and bits: "getDifficulty ?chain (int (length ?chain) - 1) = Inr bits"
    and b1: "addCoinbase c s ((new_Block c (now 0) (last_block s) bits)\<lparr>transactions := ts\<rparr>) = Inr b1"
    "getTarget 2 (header b1) = Inr target" "find_nonce c now target 1 (header b1) = Some h"
    "b = b1\<lparr>header := h\<rparr>" "s' = s\<lparr>mempool := rest\<rparr>"
    using mined by (rule mineBlock_cases)
  let ?b0 = "(new_Block c (now 0) (last_block s) bits)\<lparr>transactions := ts\<rparr>"
  obtain subsidy where sub: "getSubsidy (length ?chain) = Inr subsidy"
    using b1(1) by (auto simp: addCoinbase_def and_then_eq_Inr Let_def)
  let ?fee = "\<Sum>t\<leftarrow>ts. tf_fee t"
  let ?cb = "\<lparr>tx_version = 1, outputs = [\<lparr>amount = ?fee + subsidy, pubkeyScript = hashPublic c (node_pubDer s)\<rparr>],
      inputs = [\<lparr>txid = replicate 32 0, vout = - 1,
        signatureScript = le_bytes 4 (of_nat (length ?chain) :: u32), sequenceNumber = 0\<rparr>], locktime = 100\<rparr>"
  let ?ts = "\<lparr>tf_tx = ?cb, tf_fee = 0\<rparr> # ts"
  have b1': "b1 = ?b0\<lparr>transactions := ?ts, header := (header ?b0)\<lparr>merkleRootHash := merkleRoot c ?ts\<rparr>\<rparr>"
    using b1(1) sub
    by (simp add: addCoinbase_def Let_def foldl_fees addOutput_def new_Transaction_def)
  obtain n t where h: "\<not> gt (dsha256 c (header_bytes h)) target" "h = (header b1)\<lparr>nonce := n, bh_time := t\<rparr>"
    using find_nonce_result [OF b1(3)] by auto
  have mem: "set ts \<subseteq> set (mempool s)" using fill_block_takes [OF pick f] .
  have cf: "check_fees c s' ts subsidy = Inr (Some (subsidy + ?fee))"
    by (rule check_fees_recorded)
      (use fees mem b1(5) in \<open>auto simp: fee_recorded_def validateTransaction_def\<close>)
  have "\<exists>db'. spend_inputs (concat (map (\<lambda>t. inputs (tf_tx t)) ts)) (node_utxo s) = Inr db'"
    by (rule spend_inputs_inside) (use fees mem in auto)
  then obtain db where db: "spend_inputs (concat (map (\<lambda>t. inputs (tf_tx t)) ts)) (node_utxo s) = Inr db" ..
  have valid: "isValid c (last_block s) b"
    by (simp add: isValid_def b1(4) h(2) b1' new_Block_def)
  have tr: "transactions b = ?ts" by (simp add: b1(4) b1')
  have nb: "nBits (header b) = bits" by (simp add: b1(4) h(2) b1' new_Block_def)
  have gt: "\<not> gt (block_hash c b) target" using h(1) by (simp add: block_hash_def b1(4))
  have tg: "getTarget 2 (header b) = Inr target" using b1(2) by (simp add: b1(4) h(2))
  have cb: "coinbase_ok (length ?chain) (subsidy + ?fee) ?cb"
    by (simp add: coinbase_ok_def GENESIS_HASH_def)
  have "addBlock c b s' = Inr (s'\<lparr>node_utxo := utxo_add c ?cb db, blockchain := ?chain @ [b]\<rparr>)"
    using sub tg bits valid nb gt cf cb db
    by (simp add: addBlock_def tr b1(5))
  with f tr b1(5) show ?thesis by simp
qed

text \<open>A node accepts what it mines.  When the fees in the pool are those the validation of the
  transactions returns, and the search for a nonce ends, the mined block is accepted by the node that
  mined it: it becomes the last of the chain, and the pool keeps exactly what the block left.
\<close>

theorem mined_block_accepted:
  assumes "\<And>pool. pool \<noteq> [] \<Longrightarrow> pick pool < length pool"
    and "\<forall>t\<in>set (mempool s). fee_recorded c s t \<and> (\<forall>i\<in>set (inputs (tf_tx t)). inside (node_utxo s) i)"
    and "mineBlock c pick now s = Inr (Some (b, s'))"
  shows "\<exists>s''. addBlock c b s' = Inr s'' \<and> blockchain s'' = blockchain s @ [b] \<and>
    (tl (transactions b), mempool s'') = fill_block (length (mempool s)) pick 80 (mempool s)"
  using mined_accepted [OF assms] by force

text \<open>Nothing has to be paid for.  A transaction whose first input refers to no output at all enters
  the pool of any node, with the greatest fee there can be; the node mines it at once, and accepts
  the block that contains it.
\<close>

theorem forged_transaction_mined:
  assumes "\<And>pool. pool \<noteq> [] \<Longrightarrow> pick pool < length pool"
    and "mempool s = []" "inputs t = i # ins" "node_utxo s (txid i) = None"
    and "\<forall>j\<in>set ins. inside (node_utxo s) j"
  shows "\<exists>s1. addToMempool c t s = Inr s1 \<and> mempool s1 = [\<lparr>tf_tx = t, tf_fee = - 1\<rparr>] \<and>
    (\<forall>b s2. mineBlock c pick now s1 = Inr (Some (b, s2)) \<longrightarrow>
      (\<exists>s3. addBlock c b s2 = Inr s3 \<and> blockchain s3 = blockchain s @ [b] \<and>
        t \<in> tf_tx ` set (transactions b)))"
proof -
  let ?s1 = "s\<lparr>mempool := [\<lparr>tf_tx = t, tf_fee = - 1\<rparr>]\<rparr>"
  have v: "validateTransaction c t s' = Inr (- 1)" if "node_utxo s' = node_utxo s" for s'
    using assms(3,4) that by (simp add: validateTransaction_def utxo_get_def)
  have s1: "addToMempool c t s = Inr ?s1"
    using assms(2) v [of s] by (simp add: addToMempool_def)
  have f: "\<forall>t\<in>set (mempool ?s1). fee_recorded c ?s1 t \<and> (\<forall>i\<in>set (inputs (tf_tx t)). inside (node_utxo ?s1) i)"
    using v [of ?s1] assms(3-5) by (simp add: fee_recorded_def inside_def)
  have "\<exists>s3. addBlock c b s2 = Inr s3 \<and> blockchain s3 = blockchain s @ [b] \<and> t \<in> tf_tx ` set (transactions b)"
    if m: "mineBlock c pick now ?s1 = Inr (Some (b, s2))" for b s2
  proof -
    obtain s3 ts rest where a: "addBlock c b s2 = Inr s3" "blockchain s3 = blockchain ?s1 @ [b]"
      "fill_block (length (mempool ?s1)) pick 80 (mempool ?s1) = (ts, rest)" "tl (transactions b) = ts"
      using mined_accepted [OF assms(1) f m] by blast
    have "pick [\<lparr>tf_tx = t, tf_fee = - 1\<rparr>] = 0" using assms(1) [of "[\<lparr>tf_tx = t, tf_fee = - 1\<rparr>]"] by simp
    then have "ts = [\<lparr>tf_tx = t, tf_fee = - 1\<rparr>]"
      using a(3) by (simp add: MAX_BLOCK_SERIALIZED_SIZE_def COINBASE_SIZE_def)
    with a(4) have "\<lparr>tf_tx = t, tf_fee = - 1\<rparr> \<in> set (transactions b)" by (cases "transactions b") auto
    with a(1,2) show ?thesis by force
  qed
  with s1 show ?thesis by simp
qed

section \<open>What an accepted block passed\<close>

text \<open>The checks of \<open>addBlock\<close> in a word; \<open>ChainSound\<close> says what they amount to.\<close>

definition checks_passed :: "Crypto \<Rightarrow> FullNode \<Rightarrow> Block \<Rightarrow> bool" where
  "checks_passed c s b \<longleftrightarrow>
     isValid c (last_block s) b \<and>
     getDifficulty (blockchain s) (int (length (blockchain s)) - 1) = Inr (nBits (header b)) \<and>
     (\<exists>target. getTarget 2 (header b) = Inr target \<and> \<not> gt (block_hash c b) target) \<and>
     (\<exists>subsidy fee. getSubsidy (length (blockchain s)) = Inr subsidy \<and>
        check_fees c s (tl (transactions b)) subsidy = Inr (Some fee) \<and>
        coinbase_ok (length (blockchain s)) fee (tf_tx (hd (transactions b))))"

lemma addBlock_cases:
  assumes "addBlock c b s = Inr s'"
  obtains "s' = s"
    | first others fee db where "transactions b = first # others" "checks_passed c s b"
      "spend_inputs (concat (map (\<lambda>t. inputs (tf_tx t)) others)) (node_utxo s) = Inr db"
      "s' = s\<lparr>node_utxo := utxo_add c (tf_tx first) db, blockchain := blockchain s @ [b]\<rparr>"
proof -
  from assms obtain first others where t: "transactions b = first # others"
    by (auto simp: addBlock_def split: list.splits)
  from assms t obtain subsidy target bits where o: "getSubsidy (length (blockchain s)) = Inr subsidy"
    "getTarget 2 (header b) = Inr target"
    "getDifficulty (blockchain s) (int (length (blockchain s)) - 1) = Inr bits"
    by (auto simp: addBlock_def and_then_eq_Inr)
  show thesis
  proof (cases "isValid c (last_block s) b \<and> bits = nBits (header b) \<and> \<not> gt (block_hash c b) target")
    case True
    with assms t o obtain r where r: "check_fees c s others subsidy = Inr r"
      by (auto simp: addBlock_def and_then_eq_Inr)
    show thesis
    proof (cases "\<exists>fee. r = Some fee \<and> coinbase_ok (length (blockchain s)) fee (tf_tx first)")
      case True
      then obtain fee where fee: "r = Some fee" "coinbase_ok (length (blockchain s)) fee (tf_tx first)" by blast
      with assms t o r \<open>isValid c (last_block s) b \<and> _\<close> obtain db where
        "spend_inputs (concat (map (\<lambda>t. inputs (tf_tx t)) others)) (node_utxo s) = Inr db"
        "s' = s\<lparr>node_utxo := utxo_add c (tf_tx first) db, blockchain := blockchain s @ [b]\<rparr>"
        by (auto simp: addBlock_def and_then_eq_Inr)
      moreover have "checks_passed c s b"
        using t o r fee \<open>isValid c (last_block s) b \<and> _\<close>
        by (simp add: checks_passed_def)
      ultimately show thesis using t that(2) by blast
    next
      case False
      with assms t o r \<open>isValid c (last_block s) b \<and> _\<close> have "s' = s"
        by (auto simp: addBlock_def split: option.splits)
      then show thesis by (rule that(1))
    qed
  next
    case False
    with assms t o have "s' = s" by (auto simp: addBlock_def split: if_splits)
    then show thesis by (rule that(1))
  qed
qed

fun receive_blocks :: "Crypto \<Rightarrow> Block list \<Rightarrow> FullNode \<Rightarrow> FullNode outcome" where
  "receive_blocks c [] s = Inr s"
| "receive_blocks c (b # bs) s = and_then (addBlock c b s) (receive_blocks c bs)"

lemma spend_inputs_dom: "spend_inputs is db = Inr db' \<Longrightarrow> dom db' \<subseteq> dom db"
proof (induction "is" arbitrary: db)
  case (Cons i "is")
  then obtain d where d: "spendCoin (txid i) (sint (vout i)) db = Inr d" "spend_inputs is d = Inr db'"
    by (auto simp: and_then_eq_Inr)
  have "dom d \<subseteq> dom db" using d(1) by (auto simp: spendCoin_def Let_def split: option.splits if_splits)
  with Cons.IH [OF d(2)] show ?case by blast
qed simp

text \<open>Payments are lost.  Only the outputs of the coinbase of an accepted block become spendable: the
  outputs of every other transaction of the block, the ones that pay somebody, never enter the set of
  unspent outputs.
\<close>

theorem payments_lost:
  assumes "addBlock c b s = Inr s'" "t \<in> set (tl (transactions b))"
    and "node_utxo s (tx_hash c (tf_tx t)) = None"
    and "tx_hash c (tf_tx t) \<noteq> tx_hash c (tf_tx (hd (transactions b)))"
  shows "node_utxo s' (tx_hash c (tf_tx t)) = None"
proof (rule addBlock_cases [OF assms(1)])
  assume "s' = s"
  with assms(3) show ?thesis by simp
next
  fix first others fee db
  assume "transactions b = first # others"
    and "spend_inputs (concat (map (\<lambda>t. inputs (tf_tx t)) others)) (node_utxo s) = Inr db"
    and "s' = s\<lparr>node_utxo := utxo_add c (tf_tx first) db, blockchain := blockchain s @ [b]\<rparr>"
  with spend_inputs_dom assms(3,4) show ?thesis by (fastforce simp: utxo_add_def)
qed

section \<open>Witnesses\<close>

text \<open>
  A crypto library whose digests only hold the last byte of what is hashed, and a node that mines its
  first block with it.
\<close>

definition weak_crypto :: Crypto where
  "weak_crypto = \<lparr>sha256 = \<lambda>d. replicate 31 0 @ [last d], ripemd160 = \<lambda>_. replicate 20 0,
     verify_signature = \<lambda>_ _ _. True\<rparr>"

definition forged_tx :: Transaction where
  "forged_tx = new_Transaction\<lparr>inputs := [\<lparr>txid = [1], vout = 0, signatureScript = [], sequenceNumber = 0\<rparr>],
     locktime := 0x01000000\<rparr>"

lemma node_initialize_simps [simp]:
  "blockchain (node_initialize p) = []" "node_utxo (node_initialize p) = Map.empty"
  "mempool (node_initialize p) = []"
  by (simp_all add: node_initialize_def)

lemma genesis_target: "nBits h = GENESIS_NBITS \<Longrightarrow> \<exists>t. getTarget 2 h = Inr t"
  by (simp add: getTarget_def GENESIS_NBITS_def Let_def)

lemma last_le_bytes: "last (le_bytes 4 (w :: u32)) = ucast (drop_bit 24 w)"
  by (simp add: le_bytes_def upt_rec)

lemma le_bytes_Nil [simp]: "le_bytes 4 w \<noteq> []"
  by (simp add: le_bytes_def)

lemma weak_header: "nonce h = 0 \<Longrightarrow> dsha256 weak_crypto (header_bytes h) = replicate 32 0"
proof -
  assume "nonce h = 0"
  then have "last (header_bytes h) = 0" by (simp add: header_bytes_def last_le_bytes)
  moreover have "replicate 31 0 @ [0::u8] = replicate 32 0" by (simp add: eval_nat_numeral)
  ultimately show ?thesis by (simp add: dsha256_def weak_crypto_def)
qed

lemma weak_mines:
  assumes "blockchain s = []"
  shows "\<exists>b s'. mineBlock weak_crypto pick now s = Inr (Some (b, s'))"
proof -
  obtain ts rest where f: "fill_block (length (mempool s)) pick 80 (mempool s) = (ts, rest)"
    by (cases "fill_block (length (mempool s)) pick 80 (mempool s)")
  let ?b = "(new_Block weak_crypto (now 0) None GENESIS_NBITS)\<lparr>transactions := ts\<rparr>"
  obtain b where b: "addCoinbase weak_crypto s ?b = Inr b" "nBits (header b) = GENESIS_NBITS" "nonce (header b) = 0"
    using assms by (simp add: addCoinbase_def getSubsidy_def Let_def new_Block_def)
  obtain t where t: "getTarget 2 (header b) = Inr t" using genesis_target [OF b(2)] by blast
  have "\<not> gt (dsha256 weak_crypto (header_bytes (header b))) t"
    using gt_zeros [OF length_target [OF t]] by (simp add: weak_header [OF b(3)])
  then have "find_nonce weak_crypto now t 1 (header b) = Some (header b)"
    by (subst find_nonce.simps) simp
  with f b(1) t assms show ?thesis
    by (simp add: mineBlock_def getDifficulty_def last_block_def Let_def)
qed

lemma mined_coinbase:
  "mineBlock c pick now s = Inr (Some (b, s')) \<Longrightarrow> locktime (tf_tx (hd (transactions b))) = 100"
  by (erule mineBlock_cases) (auto simp: and_then_eq_Inr Let_def addCoinbase_def addOutput_def new_Transaction_def)

theorem mined_block_accepted_witness:
  "\<exists>b s' s''. mineBlock weak_crypto (\<lambda>_. 0) (\<lambda>_. 0) (node_initialize []) = Inr (Some (b, s')) \<and>
    addBlock weak_crypto b s' = Inr s'' \<and> blockchain s'' = [b]"
proof -
  obtain b s' where m: "mineBlock weak_crypto (\<lambda>_. 0) (\<lambda>_. 0) (node_initialize []) = Inr (Some (b, s'))"
    using weak_mines [of "node_initialize []"] by fastforce
  from mined_block_accepted [OF _ _ m] show ?thesis using m by auto
qed

theorem forged_transaction_mined_witness:
  "\<exists>s1 b s2 s3. addToMempool weak_crypto forged_tx (node_initialize []) = Inr s1 \<and>
    mineBlock weak_crypto (\<lambda>_. 0) (\<lambda>_. 0) s1 = Inr (Some (b, s2)) \<and>
    addBlock weak_crypto b s2 = Inr s3 \<and> forged_tx \<in> tf_tx ` set (transactions b)"
proof -
  obtain s1 where s1: "addToMempool weak_crypto forged_tx (node_initialize []) = Inr s1"
    "\<forall>b s2. mineBlock weak_crypto (\<lambda>_. 0) (\<lambda>_. 0) s1 = Inr (Some (b, s2)) \<longrightarrow>
      (\<exists>s3. addBlock weak_crypto b s2 = Inr s3 \<and> blockchain s3 = [] @ [b] \<and> forged_tx \<in> tf_tx ` set (transactions b))"
    using forged_transaction_mined [where pick = "\<lambda>_. 0" and s = "node_initialize []" and t = forged_tx
        and c = weak_crypto and now = "\<lambda>_. 0" and ins = "[]"]
    by (auto simp: forged_tx_def)
  have "blockchain s1 = []"
    using s1(1) by (auto simp: addToMempool_def and_then_eq_Inr Let_def)
  from weak_mines [OF this, of "\<lambda>_. 0" "\<lambda>_. 0"] s1 show ?thesis by blast
qed

lemma block_with_forged_tx:
  "\<exists>b s s'. addBlock weak_crypto b s = Inr s' \<and> blockchain s' = [b] \<and> blockchain s = [] \<and>
    node_utxo s = Map.empty \<and> tl (transactions b) = [\<lparr>tf_tx = forged_tx, tf_fee = - 1\<rparr>] \<and>
    locktime (tf_tx (hd (transactions b))) = 100"
proof -
  let ?s = "(node_initialize [])\<lparr>mempool := [\<lparr>tf_tx = forged_tx, tf_fee = - 1\<rparr>]\<rparr>"
  obtain b s' where m: "mineBlock weak_crypto (\<lambda>_. 0) (\<lambda>_. 0) ?s = Inr (Some (b, s'))"
    using weak_mines [of ?s] by fastforce
  have s': "blockchain s' = [] \<and> node_utxo s' = Map.empty"
    using m by (rule mineBlock_cases) simp
  have "\<forall>t\<in>set (mempool ?s). fee_recorded weak_crypto ?s t \<and> (\<forall>i\<in>set (inputs (tf_tx t)). inside (node_utxo ?s) i)"
    by (simp add: fee_recorded_def validateTransaction_def utxo_get_def forged_tx_def inside_def)
  from mined_accepted [OF _ this m] s' mined_coinbase [OF m] show ?thesis
    by (fastforce simp: MAX_BLOCK_SERIALIZED_SIZE_def COINBASE_SIZE_def)
qed

lemma weak_chain:
  "\<exists>b s. receive_blocks weak_crypto [b] (node_initialize []) = Inr s \<and> blockchain s = [b]"
proof -
  obtain b s' where m: "mineBlock weak_crypto (\<lambda>_. 0) (\<lambda>_. 0) (node_initialize []) = Inr (Some (b, s'))"
    using weak_mines [of "node_initialize []"] by fastforce
  from m have "s' = node_initialize []" by (auto simp: mineBlock_def and_then_eq_Inr Let_def)
  with mined_accepted [OF _ _ m] obtain s where
    "addBlock weak_crypto b (node_initialize []) = Inr s" "blockchain s = [b]" by auto
  then have "receive_blocks weak_crypto [b] (node_initialize []) = Inr s \<and> blockchain s = [b]" by simp
  then show ?thesis by blast
qed

lemma weak_tx_hash: "tx_hash weak_crypto t = replicate 31 0 @ [ucast (drop_bit 24 (locktime t))]"
  by (simp add: tx_hash_def weak_crypto_def tx_bytes_def last_le_bytes)

theorem payments_lost_witness:
  "\<exists>b s s'. addBlock weak_crypto b s = Inr s' \<and> blockchain s' = [b] \<and>
    forged_tx \<in> tf_tx ` set (transactions b) \<and> node_utxo s' (tx_hash weak_crypto forged_tx) = None"
proof -
  obtain b s s' where b: "addBlock weak_crypto b s = Inr s'" "blockchain s' = [b]" "node_utxo s = Map.empty"
    "tl (transactions b) = [\<lparr>tf_tx = forged_tx, tf_fee = - 1\<rparr>]" "locktime (tf_tx (hd (transactions b))) = 100"
    using block_with_forged_tx by blast
  have "node_utxo s' (tx_hash weak_crypto (tf_tx \<lparr>tf_tx = forged_tx, tf_fee = - 1\<rparr>)) = None"
    by (rule payments_lost [OF b(1)]) (simp_all add: b(3-5) weak_tx_hash forged_tx_def)
  moreover have "\<lparr>tf_tx = forged_tx, tf_fee = - 1\<rparr> \<in> set (transactions b)"
    using b(4) by (cases "transactions b") auto
  ultimately show ?thesis using b(1,2) by force
qed

end
