(* ===== verification/ChainSound.thy ===== *)
theory ChainSound
  imports FullNode
begin

text \<open>
  What a sound chain of blocks is, said without the routines the node checks its blocks with: the
  link to the predecessor, the Merkle tree, the difficulty of a place, the target as a number and
  the coinbase are specified here from scratch, and every chain a full node builds
  (\<open>architecture/p2p/pow/nodes/FullNode.cc\<close>, \<open>chain/Block.cc\<close>, \<open>chain/Blockchain.cc\<close>) meets them.
\<close>

section \<open>Digests and targets as numbers\<close>

text \<open>A digest read as a big endian number.\<close>

primrec be_value :: "bytes \<Rightarrow> nat" where
  "be_value [] = 0"
| "be_value (b # bs) = unat b * 256 ^ length bs + be_value bs"

lemma unat_byte: "unat (b :: u8) < 256"
proof -
  have "unat b < 2 ^ LENGTH(8)" by (rule unsigned_less)
  then show ?thesis by simp
qed

lemma be_value_less: "be_value bs < 256 ^ length bs"
proof (induction bs)
  case (Cons b bs)
  then have "be_value (b # bs) < (unat b + 1) * 256 ^ length bs" by simp
  also have "\<dots> \<le> 256 * 256 ^ length bs"
    using unat_byte [of b] by (intro mult_le_mono1) simp
  finally show ?case by simp
qed simp

lemma less_be_value:
  assumes "length a = length b"
  shows "map unat a < map unat b \<longleftrightarrow> be_value a < be_value b"
  using assms
proof (induction a b rule: list_induct2)
  case (Cons x xs y ys)
  have step: "unat u * 256 ^ length us + be_value us < unat v * 256 ^ length us + be_value vs"
    if "unat u < unat v" for u v :: u8 and us vs
  proof -
    have "(unat u + 1) * 256 ^ length us \<le> unat v * 256 ^ length us"
      using that by (intro mult_le_mono1) simp
    with be_value_less [of us] show ?thesis by simp
  qed
  consider "unat x < unat y" | "unat x = unat y" | "unat y < unat x" by linarith
  then show ?case
  proof cases
    case 1
    with step [of x y xs ys] Cons.hyps show ?thesis by simp
  next
    case 2
    with Cons show ?thesis by simp
  next
    case 3
    with step [of y x ys xs] Cons.hyps show ?thesis by simp
  qed
qed simp

lemma be_value_append: "be_value (xs @ ys) = be_value xs * 256 ^ length ys + be_value ys"
  by (induction xs) (simp_all add: power_add algebra_simps)

lemma be_value_zeros: "be_value (replicate n 0) = 0"
  by (induction n) simp_all

text \<open>The target of compact bits: three bytes of coefficient, moved up by an exponent that the easing
  of the simulated chain (two bytes) and the 32 bytes of a digest bound.\<close>

definition target_value :: "u32 \<Rightarrow> nat" where
  "target_value bits =
     (unat bits mod 2 ^ 24) * 256 ^ min 29 (unat bits div 2 ^ 24 - 1)"

lemma unat_drop: "unat (drop_bit n (w :: u32)) = unat w div 2 ^ n"
  by (subst unat_drop_bit_eq) (rule drop_bit_eq_div)

lemma unat_mask: "unat ((w :: u32) AND mask n) = unat w mod 2 ^ n"
  by (simp only: take_bit_eq_mask [symmetric] unsigned_take_bit_eq) (rule take_bit_eq_mod)

lemma unat_low: "unat ((w :: u32) AND 0x00FFFFFF) = unat w mod 2 ^ 24"
  by (simp only: mask_eq_24 [symmetric] unat_mask)

lemma sint_small:
  "n < 256 \<Longrightarrow> sint (word_of_int (32 - int n) :: u32) = 32 - int n"
  "n < 256 \<Longrightarrow> sint (word_of_int (30 - int n) :: u32) = 30 - int n"
  by (simp_all only: sint_sbintrunc') (simp_all add: signed_take_bit_int_eq_self)

lemma sint_exponent:
  fixes e :: u32
  assumes "unat e < 256"
  shows "sint (32 - e) = 32 - int (unat e)" "sint (32 - e - 2) = 30 - int (unat e)"
proof -
  have e: "32 - e = word_of_int (32 - int (unat e))" "32 - e - 2 = word_of_int (30 - int (unat e))"
    by simp_all
  show "sint (32 - e) = 32 - int (unat e)"
    unfolding e(1) by (rule sint_small [OF assms])
  show "sint (32 - e - 2) = 30 - int (unat e)"
    unfolding e(2) by (rule sint_small [OF assms])
qed

lemma three_bytes:
  fixes w :: u32
  assumes "unat w < 2 ^ 24"
  shows "be_value [ucast (drop_bit 16 w AND 0xFF), ucast (drop_bit 8 w AND 0xFF), ucast (w AND 0xFF)] =
    unat w"
proof -
  have m: "(0xFF :: u32) = mask 8" by (simp add: mask_eq_exp_minus_1)
  have byte: "unat (ucast (x AND 0xFF) :: u8) = unat x mod 256" for x :: u32
    by (simp add: m unsigned_ucast_eq unat_mask take_bit_eq_mod)
  let ?n = "unat w"
  have "?n div 65536 < 256" using assms by simp
  moreover have "?n div 256 div 256 = ?n div 65536" by (simp add: div_mult2_eq [symmetric])
  ultimately have "?n div 65536 * 65536 + (?n div 256 mod 256 * 256 + ?n mod 256) = ?n"
    using div_mult_mod_eq [of ?n 256] div_mult_mod_eq [of "?n div 256" 256] by linarith
  moreover have "?n div 65536 mod 256 = ?n div 65536" using assms by simp
  ultimately show ?thesis by (simp add: byte unat_drop)
qed

lemma target_bytes:
  assumes "i + 2 < 32"
  shows "be_value ((replicate 32 0)[i := p, i + 1 := q, i + 2 := r]) = be_value [p, q, r] * 256 ^ (29 - i)"
proof -
  have "32 = i + Suc (Suc (Suc (29 - i)))" using assms by simp
  then have "replicate 32 (0 :: u8) = replicate i 0 @ 0 # 0 # 0 # replicate (29 - i) 0"
    by (metis replicate_Suc replicate_add)
  then have "(replicate 32 0)[i := p, i + 1 := q, i + 2 := r] =
      replicate i 0 @ [p, q, r] @ replicate (29 - i) 0"
    by (simp add: list_update_append)
  then show ?thesis
    by (simp add: be_value_append be_value_zeros algebra_simps)
qed

lemma getTarget_value:
  assumes "getTarget 2 h = Inr t"
  shows "be_value t = target_value (nBits h)"
proof -
  let ?e = "drop_bit 24 (nBits h)" and ?c = "nBits h AND 0x00FFFFFF"
  let ?i = "nat (max 0 (min (30 - int (unat ?e)) (32 - int (unat ?e))))"
  have e: "unat ?e < 256" proof -
    have "unat (nBits h) < 2 ^ LENGTH(32)" by (rule unsigned_less)
    then show ?thesis by (simp add: unat_drop div_less_iff_less_mult)
  qed
  have i: "?i + 2 < 32" and t: "t = (replicate 32 0)[?i := ucast (drop_bit 16 ?c AND 0xFF),
      ?i + 1 := ucast (drop_bit 8 ?c AND 0xFF), ?i + 2 := ucast (?c AND 0xFF)]"
    using assms sint_exponent [OF e] by (auto simp: getTarget_def Let_def split: if_splits)
  have c: "unat ?c < 2 ^ 24" by (simp add: unat_low)
  have "be_value t = unat ?c * 256 ^ (29 - ?i)"
    by (simp only: t target_bytes [OF i] three_bytes [OF c])
  also have "29 - ?i = min 29 (unat ?e - 1)" using i by linarith
  finally show ?thesis by (simp add: target_value_def unat_low unat_drop)
qed

section \<open>The Merkle tree\<close>

text \<open>The level above: the hashes of neighbours, the last of an odd number paired with itself.\<close>

definition pair_up :: "Crypto \<Rightarrow> bytes list \<Rightarrow> bytes list" where
  "pair_up c hs = map (\<lambda>k. dsha256 c (hs ! (2 * k) @ hs ! min (2 * k + 1) (length hs - 1)))
     [0..<(length hs + 1) div 2]"

inductive merkle_root_of :: "Crypto \<Rightarrow> bytes list \<Rightarrow> bytes \<Rightarrow> bool" for c where
  leaf: "merkle_root_of c [h] h"
| level: "1 < length hs \<Longrightarrow> merkle_root_of c (pair_up c hs) r \<Longrightarrow> merkle_root_of c hs r"

inductive_cases leafE: "merkle_root_of c [h] r"

lemma merkle_round_nth:
  "k < (length hs + 1) div 2 \<Longrightarrow>
    merkle_round c hs ! k = dsha256 c (hs ! (2 * k) @ hs ! min (2 * k + 1) (length hs - 1))"
proof (induction c hs arbitrary: k rule: merkle_round.induct)
  case (1 c a b hs)
  show ?case
  proof (cases k)
    case (Suc j)
    with "1.prems" have j: "j < (length hs + 1) div 2" by simp
    then have "min (2 * k + 1) (length (a # b # hs) - 1) = Suc (Suc (min (2 * j + 1) (length hs - 1)))"
      using Suc by (cases hs) auto
    with Suc "1.IH" [OF j] show ?thesis by simp
  qed simp
qed simp_all

lemma merkle_round_pair_up: "merkle_round c hs = pair_up c hs"
  by (rule nth_equalityI) (simp_all add: length_merkle_round pair_up_def merkle_round_nth)

lemma merkle_rounds_root: "hs \<noteq> [] \<Longrightarrow> merkle_root_of c hs (hd (merkle_rounds c hs))"
proof (induction c hs rule: merkle_rounds.induct)
  case (1 c hs)
  show ?case
  proof (cases "length hs > 1")
    case True
    have "merkle_round c hs \<noteq> []" using True by (cases hs rule: remdups_adj.cases) auto
    with "1.IH" [OF True] True show ?thesis
      by (simp add: merkle_rounds.simps [of c hs] merkle_round_pair_up level)
  next
    case False
    with "1.prems" obtain h where "hs = [h]" by (cases hs) auto
    then show ?thesis by (simp add: merkle_rounds.simps [of c "[h]"] leaf)
  qed
qed

lemma merkleRoot_root:
  "ts \<noteq> [] \<Longrightarrow> merkle_root_of c (map (\<lambda>t. tx_hash c (tf_tx t)) ts) (merkleRoot c ts)"
  using merkle_rounds_root [of "map (\<lambda>t. tx_hash c (tf_tx t)) ts" c] by (simp add: merkleRoot_def)

section \<open>The difficulty of a place\<close>

text \<open>
  The bits after an interval of 2016 blocks that took the given seconds: the coefficient times the
  whole number of times the interval fits the intended fortnight (the time taken between a quarter
  and four times of it), then moved by whole bytes until bit 23 is set or nothing is left in 32 bits.
\<close>

definition bytes_to_move :: "nat \<Rightarrow> nat" where
  "bytes_to_move k =
     (if k = 0 then 0 else if bit k 15 then 1 else if k mod 2 ^ 16 = 0 \<or> bit k 7 then 2
      else if k mod 2 ^ 8 = 0 then 3 else 4)"

definition retargeted :: "u32 \<Rightarrow> u32 \<Rightarrow> u32" where
  "retargeted bits took =
     (let k = unat bits mod 2 ^ 23 * (1209600 div max 302400 (min 4838400 (unat took)));
          (e, k) = (if k < 2 ^ 23 then (drop_bit 24 bits, k) else (drop_bit 24 bits + 1, k div 256));
          m = bytes_to_move k
      in push_bit 24 (e - of_nat m) OR of_nat (k * 256 ^ m))"

definition due_bits :: "Block list \<Rightarrow> nat \<Rightarrow> u32" where
  "due_bits chain i =
     (if i = 0 then 0x1D00FFFF
      else let first = header (chain ! ((i - 1) div 2016 * 2016)) in
        if i mod 2016 \<noteq> 0 then nBits first
        else retargeted (nBits first) (bh_time (header (chain ! (i - 1))) - bh_time first))"

lemma and_not_mask_zero: "(w :: u32) AND NOT (mask n) = 0 \<longleftrightarrow> unat w < 2 ^ n"
proof
  assume z: "w AND NOT (mask n) = 0"
  have "w = (w AND mask n) OR (w AND NOT (mask n))" by (rule bit_eqI) (auto simp: bit_simps)
  then have "w = w AND mask n" by (simp only: z or.right_neutral)
  then have "unat w = unat w mod 2 ^ n" by (metis unat_mask)
  then show "unat w < 2 ^ n" by (metis mod_less_divisor zero_less_numeral zero_less_power)
next
  assume "unat w < 2 ^ n"
  then have "unat (w AND mask n) = unat w" by (simp only: unat_mask mod_less)
  then have "w AND mask n = w" by (simp only: word_unat_eq_iff)
  then have "w AND NOT (mask n) = (w AND mask n) AND NOT (mask n)" by simp
  also have "\<dots> = 0" by (rule bit_eqI) (auto simp: bit_simps)
  finally show "w AND NOT (mask n) = 0" .
qed

lemma mask_eq_23: "mask 23 = (0x007FFFFF :: u32)"
  by (simp add: mask_eq_exp_minus_1)

lemma shrink_twice:
  assumes "unat w < 2 ^ 25"
  shows "shrink (Suc (Suc n)) (e, w) = (if unat w < 2 ^ 23 then (e, w) else (e + 1, drop_bit 8 w))"
proof -
  have "unat (drop_bit 8 w) < 2 ^ 23" using assms by (simp add: unat_drop)
  then have "drop_bit 8 w AND NOT 0x007FFFFF = 0" by (simp only: mask_eq_23 [symmetric] and_not_mask_zero)
  moreover have "w AND NOT 0x007FFFFF = 0 \<longleftrightarrow> unat w < 2 ^ 23"
    by (simp only: mask_eq_23 [symmetric] and_not_mask_zero)
  ultimately show ?thesis by simp
qed

lemma push_zero: "k \<le> 32 \<Longrightarrow> push_bit k (w :: u32) = 0 \<longleftrightarrow> unat w mod 2 ^ (32 - k) = 0"
proof -
  assume k: "k \<le> 32"
  have "push_bit k w = of_nat (unat w * 2 ^ k)" by (simp add: push_bit_eq_mult)
  then have "push_bit k w = 0 \<longleftrightarrow> 2 ^ 32 dvd unat w * 2 ^ k"
    by (simp only: word_of_nat_eq_0_iff) simp
  also have "(2 :: nat) ^ 32 = 2 ^ (32 - k) * 2 ^ k" using k by (simp add: power_add [symmetric])
  finally show ?thesis by (simp add: dvd_eq_mod_eq_0)
qed

lemma bit_23: "(w :: u32) AND 0x00800000 = 0 \<longleftrightarrow> \<not> bit w 23"
proof -
  have "(0x00800000 :: u32) = 2 ^ 23" by simp
  then show ?thesis by (simp only: and_exp_eq_0_iff_not_bit)
qed

lemma stretch_moves:
  assumes "unat w < 2 ^ 23" "m = bytes_to_move (unat w)"
  shows "stretch 5 (e, w) = (e - of_nat m, of_nat (unat w * 256 ^ m))"
proof -
  have b23: "\<not> bit w 23"
  proof
    assume "bit w 23"
    then have "bit (unat w) 23" by (simp add: bit_unsigned_iff)
    moreover have "take_bit 23 (unat w) = unat w" using assms(1) by (simp add: take_bit_eq_mod)
    ultimately show False by (metis bit_take_bit_iff less_irrefl)
  qed
  have p: "of_nat (unat w * 256 ^ 1) = push_bit 8 w" "of_nat (unat w * 256 ^ 2) = push_bit 16 w"
    "of_nat (unat w * 256 ^ 3) = push_bit 24 w" "of_nat (unat w * 256 ^ 4) = push_bit 32 w"
    by (simp_all add: push_bit_eq_mult)
  have z: "push_bit 8 w = 0 \<longleftrightarrow> w = 0" "push_bit 16 w = 0 \<longleftrightarrow> unat w mod 2 ^ 16 = 0"
    "push_bit 24 w = 0 \<longleftrightarrow> unat w mod 2 ^ 8 = 0" "push_bit 32 w = 0"
    using assms(1) by (simp_all add: push_zero unat_eq_0)
  have b: "bit (push_bit 8 w) 23 = bit (unat w) 15" "bit (push_bit 16 w) 23 = bit (unat w) 7"
    "\<not> bit (push_bit 24 w) 23"
    by (simp_all add: bit_push_bit_iff bit_unsigned_iff)
  have five: "(5 :: nat) = Suc (Suc (Suc (Suc (Suc 0))))" by simp
  have pp: "push_bit 8 (push_bit 8 w) = push_bit 16 w" "push_bit 8 (push_bit 16 w) = push_bit 24 w"
    "push_bit 8 (push_bit 24 w) = push_bit 32 w" by simp_all
  consider "w = 0" | "w \<noteq> 0" "bit (unat w) 15"
    | "w \<noteq> 0" "\<not> bit (unat w) 15" "unat w mod 2 ^ 16 = 0 \<or> bit (unat w) 7"
    | "w \<noteq> 0" "\<not> bit (unat w) 15" "unat w mod 2 ^ 16 \<noteq> 0" "\<not> bit (unat w) 7" "unat w mod 2 ^ 8 = 0"
    | "w \<noteq> 0" "\<not> bit (unat w) 15" "unat w mod 2 ^ 16 \<noteq> 0" "\<not> bit (unat w) 7" "unat w mod 2 ^ 8 \<noteq> 0"
    by blast
  then show ?thesis
  proof cases
    case 1
    then show ?thesis by (simp add: five assms(2) bytes_to_move_def)
  next
    case 2
    then have "m = 1" by (simp add: assms(2) bytes_to_move_def unat_eq_0)
    with 2 show ?thesis by (simp only: p) (simp add: five bit_23 b23 b pp z)
  next
    case 3
    then have "m = 2" by (simp add: assms(2) bytes_to_move_def unat_eq_0)
    with 3 show ?thesis by (simp only: p) (auto simp: five bit_23 b23 b pp z)
  next
    case 4
    then have "m = 3" by (simp add: assms(2) bytes_to_move_def unat_eq_0)
    with 4 show ?thesis by (simp only: p) (simp add: five bit_23 b23 b pp z)
  next
    case 5
    then have "m = 4" by (simp add: assms(2) bytes_to_move_def unat_eq_0)
    with 5 show ?thesis by (simp only: p) (simp add: five bit_23 b23 b pp z)
  qed
qed

lemma clamped: "unat (clamp32 t (1209600 div 4) (1209600 * 4)) = max 302400 (min 4838400 (unat t))"
  by (auto simp: clamp32_def word_less_nat_alt)

lemma retarget_code:
  assumes "w = (bits AND 0x007FFFFF) * (TARGETSPAN div clamp32 t (TARGETSPAN div 4) (TARGETSPAN * 4))"
    and "stretch 5 (shrink 4 (drop_bit 24 bits, w)) = (e, k)"
  shows "push_bit 24 e OR k = retargeted bits t"
proof -
  let ?q = "1209600 div clamp32 t (1209600 div 4) (1209600 * 4)"
  let ?n = "1209600 div max 302400 (min 4838400 (unat t))"
  have q: "unat ?q = ?n" using clamped [of t] by (simp add: unat_div)
  have n4: "?n \<le> 4"
  proof -
    have "?n \<le> 1209600 div 302400" by (rule div_le_mono2) simp_all
    then show ?thesis by simp
  qed
  have c: "unat (bits AND 0x007FFFFF) = unat bits mod 2 ^ 23"
    by (simp only: mask_eq_23 [symmetric] unat_mask)
  have small: "unat bits mod 2 ^ 23 * ?n < 2 ^ 25"
  proof -
    have "unat bits mod 2 ^ 23 * ?n \<le> unat bits mod 2 ^ 23 * 4" using n4 by (rule mult_le_mono2)
    also have "\<dots> < 2 ^ 23 * 4" by simp
    finally show ?thesis by simp
  qed
  have w: "unat w = unat bits mod 2 ^ 23 * ?n"
  proof -
    have "unat w = unat (bits AND 0x007FFFFF) * unat ?q mod 2 ^ 32"
      by (simp add: assms(1) unat_word_ariths)
    then show ?thesis using small by (simp only: c q) simp
  qed
  have r: "retargeted bits t =
      (case (if unat w < 2 ^ 23 then (drop_bit 24 bits, unat w) else (drop_bit 24 bits + 1, unat w div 256)) of
         (e, k) \<Rightarrow> push_bit 24 (e - of_nat (bytes_to_move k)) OR of_nat (k * 256 ^ bytes_to_move k))"
    by (simp only: retargeted_def Let_def w)
  have s: "shrink 4 (drop_bit 24 bits, w) =
      (if unat w < 2 ^ 23 then (drop_bit 24 bits, w) else (drop_bit 24 bits + 1, drop_bit 8 w))"
    using shrink_twice [of w 2] small w by simp
  show ?thesis
  proof (cases "unat w < 2 ^ 23")
    case True
    then have "stretch 5 (shrink 4 (drop_bit 24 bits, w)) =
        (drop_bit 24 bits - of_nat (bytes_to_move (unat w)), of_nat (unat w * 256 ^ bytes_to_move (unat w)))"
      using s stretch_moves [OF True refl] by simp
    with assms(2) True show ?thesis by (auto simp: r)
  next
    case False
    have u: "unat (drop_bit 8 w) = unat w div 256" by (simp add: unat_drop)
    have "unat w < 2 ^ 25" using small by (simp only: w)
    then have "unat (drop_bit 8 w) < 2 ^ 23" by (simp add: unat_drop)
    from stretch_moves [OF this refl] have "stretch 5 (shrink 4 (drop_bit 24 bits, w)) =
        (drop_bit 24 bits + 1 - of_nat (bytes_to_move (unat w div 256)),
         of_nat (unat w div 256 * 256 ^ bytes_to_move (unat w div 256)))"
      using s False u by simp
    with assms(2) False show ?thesis by (auto simp: r)
  qed
qed

lemma getDifficulty_due:
  assumes "getDifficulty chain (int (length chain) - 1) = Inr bits"
  shows "bits = due_bits chain (length chain)"
proof (cases "chain = []")
  case True
  with assms show ?thesis by (simp add: getDifficulty_def due_bits_def GENESIS_NBITS_def)
next
  case False
  then obtain h where h: "length chain = Suc h" by (cases chain) auto
  have start: "h - h mod 2016 = h div 2016 * 2016" by (simp add: minus_mod_eq_div_mult)
  let ?first = "header (chain ! (h div 2016 * 2016))"
  show ?thesis
  proof (cases "Suc h mod 2016 = 0")
    case True
    obtain e k where ek: "stretch 5 (shrink 4 (drop_bit 24 (nBits ?first), (nBits ?first AND 0x007FFFFF) *
        (TARGETSPAN div clamp32 (bh_time (header (chain ! h)) - bh_time ?first)
          (TARGETSPAN div 4) (TARGETSPAN * 4)))) = (e, k)"
      by (metis surj_pair)
    then have "bits = push_bit 24 e OR k"
      using assms h True by (simp add: getDifficulty_def BLOCK_DIFFUPDATE_def start Let_def)
    with retarget_code [OF refl ek] h True show ?thesis by (simp add: due_bits_def Let_def)
  next
    case False
    with assms h show ?thesis
      by (simp add: getDifficulty_def BLOCK_DIFFUPDATE_def start due_bits_def Let_def)
  qed
qed

section \<open>Sound chains\<close>

text \<open>
  A coinbase: its only input refers to no output and carries the number of the block, and its outputs
  pay exactly what the block brings in, the halving subsidy and the fees, in 64 bits.
\<close>

definition coinbase_spec :: "nat \<Rightarrow> u64 \<Rightarrow> Transaction \<Rightarrow> bool" where
  "coinbase_spec i fees t \<longleftrightarrow>
     (case inputs t of
        [x] \<Rightarrow> txid x = replicate 32 0 \<and> vout x = - 1 \<and>
          signatureScript x = le_bytes 4 (of_nat i :: u32)
      | _ \<Rightarrow> False) \<and>
     outputs t \<noteq> [] \<and>
     (\<Sum>u\<leftarrow>outputs t. amount u) = of_nat (50000000000 div 2 ^ (i div 210000)) + fees"

definition sound_block :: "Crypto \<Rightarrow> Block list \<Rightarrow> nat \<Rightarrow> bool" where
  "sound_block c chain i \<longleftrightarrow>
     (let hd = header (chain ! i); ts = transactions (chain ! i) in
      parentBlockHash hd =
        (if i = 0 then replicate 32 0 else dsha256 c (header_bytes (header (chain ! (i - 1))))) \<and>
      merkle_root_of c (map (\<lambda>t. tx_hash c (tf_tx t)) ts) (merkleRootHash hd) \<and>
      nBits hd = due_bits chain i \<and>
      be_value (dsha256 c (header_bytes hd)) \<le> target_value (nBits hd) \<and>
      (case ts of
         [] \<Rightarrow> False
       | t # others \<Rightarrow> coinbase_spec i (\<Sum>u\<leftarrow>others. tf_fee u) (tf_tx t)))"

lemma coinbase_sound:
  assumes "coinbase_ok i (subsidy + fees) t" "getSubsidy i = Inr subsidy"
  shows "coinbase_spec i fees t"
proof -
  have sub: "subsidy = of_nat (50000000000 div 2 ^ (i div 210000))"
  proof -
    have "subsidy = drop_bit (i div 210000) (50000000000 :: u64)"
      using assms(2) by (simp add: getSubsidy_def HALVING_INTERVAL_def BASE_SUBSIDY_def split: if_splits)
    also have "\<dots> = of_nat (50000000000 div 2 ^ (i div 210000))"
    proof (rule word_unat_eq_iff [THEN iffD2])
      have "unat (drop_bit (i div 210000) (50000000000 :: u64)) = 50000000000 div 2 ^ (i div 210000)"
        by (subst unat_drop_bit_eq) (simp add: drop_bit_eq_div)
      moreover have "50000000000 div 2 ^ (i div 210000) < (2 :: nat) ^ LENGTH(64)"
        by (rule le_less_trans [OF div_le_dividend]) simp
      ultimately show "unat (drop_bit (i div 210000) (50000000000 :: u64)) =
          unat (of_nat (50000000000 div 2 ^ (i div 210000)) :: u64)"
        by (simp only: unat_of_nat mod_less)
    qed
    finally show ?thesis .
  qed
  have f: "foldl (\<lambda>fee u. fee - amount u) x us = x - (\<Sum>u\<leftarrow>us. amount u)" for x us
    by (induction us arbitrary: x) (simp_all add: algebra_simps)
  from assms(1) obtain x where "inputs t = [x]"
    by (auto simp: coinbase_ok_def length_Suc_conv)
  with assms(1) sub show ?thesis
    by (auto simp: coinbase_ok_def coinbase_spec_def GENESIS_HASH_def f)
qed

lemma check_fees_sum: "check_fees c s ts fee = Inr (Some f) \<Longrightarrow> f = fee + (\<Sum>t\<leftarrow>ts. tf_fee t)"
proof (induction ts arbitrary: fee)
  case (Cons t ts)
  then have "check_fees c s ts (fee + tf_fee t) = Inr (Some f)"
    by (auto simp: and_then_eq_Inr split: if_splits)
  from Cons.IH [OF this] show ?case by (simp add: ac_simps)
qed simp

lemma due_bits_append:
  assumes "i \<le> length chain"
  shows "due_bits (chain @ [b]) i = due_bits chain i"
proof (cases i)
  case (Suc h)
  have "h div 2016 * 2016 \<le> h" by (rule div_times_less_eq_dividend)
  with assms Suc have "(chain @ [b]) ! h = chain ! h"
    "(chain @ [b]) ! (h div 2016 * 2016) = chain ! (h div 2016 * 2016)"
    by (simp_all add: nth_append)
  with Suc show ?thesis by (simp add: due_bits_def Let_def)
qed (simp add: due_bits_def)

lemma checks_sound:
  assumes len: "\<forall>d. length (sha256 c d) = 32" and "checks_passed c s b" "transactions b = first # others"
  shows "sound_block c (blockchain s @ [b]) (length (blockchain s))"
proof -
  let ?chain = "blockchain s"
  from assms(2) obtain target subsidy fee where
    v: "isValid c (last_block s) b" and d: "getDifficulty ?chain (int (length ?chain) - 1) = Inr (nBits (header b))"
    and t: "getTarget 2 (header b) = Inr target" "\<not> gt (block_hash c b) target"
    and f: "getSubsidy (length ?chain) = Inr subsidy" "check_fees c s others subsidy = Inr (Some fee)"
      "coinbase_ok (length ?chain) fee (tf_tx first)"
    using assms(3) by (auto simp: checks_passed_def)
  have at: "(?chain @ [b]) ! length ?chain = b" by simp
  have due: "due_bits (?chain @ [b]) (length ?chain) = due_bits ?chain (length ?chain)"
    by (simp add: due_bits_append)
  have parent: "parentBlockHash (header b) = (if length ?chain = 0 then replicate 32 0
      else dsha256 c (header_bytes (header ((?chain @ [b]) ! (length ?chain - 1)))))"
    using v by (auto simp: isValid_def last_block_def block_hash_def GENESIS_HASH_def nth_append last_conv_nth
        split: if_splits)
  have merkle: "merkle_root_of c (map (\<lambda>t. tx_hash c (tf_tx t)) (transactions b)) (merkleRootHash (header b))"
    using v merkleRoot_root [of "transactions b" c] assms(3) by (simp add: isValid_def)
  have "length (block_hash c b) = length target"
    using len length_target [OF t(1)] by (simp add: block_hash_def dsha256_def)
  then have hash: "be_value (dsha256 c (header_bytes (header b))) \<le> target_value (nBits (header b))"
    using t(2) getTarget_value [OF t(1)] less_be_value [of target "block_hash c b"]
    by (simp add: gt_def block_hash_def)
  have coin: "coinbase_spec (length ?chain) (\<Sum>u\<leftarrow>others. tf_fee u) (tf_tx first)"
    using coinbase_sound [OF _ f(1)] f(3) check_fees_sum [OF f(2)] by simp
  show ?thesis
    unfolding sound_block_def Let_def at
    using parent merkle hash coin due getDifficulty_due [OF d] assms(3) by simp
qed

lemma sound_block_append:
  assumes "i < length chain"
  shows "sound_block c (chain @ [b]) i = sound_block c chain i"
proof -
  have "(chain @ [b]) ! i = chain ! i" "(chain @ [b]) ! (i - 1) = chain ! (i - 1)"
    using assms by (simp_all add: nth_append)
  then show ?thesis
    using due_bits_append [of i chain b] assms by (simp only: sound_block_def less_imp_le)
qed

definition sound_chain :: "Crypto \<Rightarrow> Block list \<Rightarrow> bool" where
  "sound_chain c chain \<longleftrightarrow> (\<forall>i<length chain. sound_block c chain i)"

lemma receive_blocks_sound:
  assumes len: "\<forall>d. length (sha256 c d) = 32"
  shows "sound_chain c (blockchain s) \<Longrightarrow> receive_blocks c bs s = Inr s' \<Longrightarrow> sound_chain c (blockchain s')"
proof (induction bs arbitrary: s)
  case (Cons b bs)
  then obtain s1 where s1: "addBlock c b s = Inr s1" "receive_blocks c bs s1 = Inr s'"
    by (auto simp: and_then_eq_Inr)
  have "sound_chain c (blockchain s1)"
  proof (rule addBlock_cases [OF s1(1)])
    assume "s1 = s"
    with Cons.prems show ?thesis by simp
  next
    fix first others fee db
    assume "transactions b = first # others" "checks_passed c s b"
      "s1 = s\<lparr>node_utxo := utxo_add c (tf_tx first) db, blockchain := blockchain s @ [b]\<rparr>"
    with Cons.prems(1) checks_sound [OF len, of s b first others] show ?thesis
      by (auto simp: sound_chain_def sound_block_append less_Suc_eq)
  qed
  with Cons.IH s1(2) show ?case by blast
qed simp

text \<open>C16.  The chain is always sound.  Whatever blocks a node is given, in every chain it builds each
  block carries the double hash of the header of the block before it (zeros for the first), the root
  of the Merkle tree over the identifiers of its transactions, and the bits due at its place: the
  initial ones, those of its interval of 2016 blocks, or those retargeted from the time the last
  interval took.  Its hash, as a number, is at most the target its bits stand for.  It begins with a
  coinbase: one input, which refers to no output and carries the number of the block, and outputs that
  together pay exactly the halving subsidy and the fees of the other transactions.  The digests of
  the crypto library have their 32 bytes.
\<close>

theorem chain_always_sound:
  assumes "\<forall>d. length (sha256 c d) = 32"
    and "receive_blocks c bs (node_initialize pubDer) = Inr s" "i < length (blockchain s)"
  shows "sound_block c (blockchain s) i"
proof -
  have "sound_chain c (blockchain s)"
    by (rule receive_blocks_sound [OF assms(1) _ assms(2)]) (simp add: sound_chain_def)
  with assms(3) show ?thesis by (simp add: sound_chain_def)
qed

theorem chain_always_sound_witness:
  "\<exists>b s. receive_blocks weak_crypto [b] (node_initialize []) = Inr s \<and> blockchain s = [b] \<and>
    sound_block weak_crypto [b] 0"
proof -
  obtain b s where b: "receive_blocks weak_crypto [b] (node_initialize []) = Inr s" "blockchain s = [b]"
    using weak_chain by blast
  have "sound_block weak_crypto (blockchain s) 0"
    by (rule chain_always_sound [OF _ b(1)]) (simp_all add: weak_crypto_def b(2))
  with b show ?thesis by auto
qed

end
