(* ===== verification/NodeTable.thy ===== *)
theory NodeTable
  imports Prelude
begin

text \<open>
  The cloud provider's directory of data centres (\<open>management/cloudprovider/NodeTable\<close> and the
  module \<open>NodeDb\<close> around it): the resources each data centre reported under its topic, and the data
  centres of each zone.  The names are compared with \<open>strcmp\<close>, which is the lexicographic order of
  strings; a pointer that may be null is an option.
\<close>

section \<open>Binary search in a sorted vector\<close>

text \<open>\<open>std::lower_bound\<close> of the standard library, a halving search, with \<open>below x\<close> for \<open>x < value\<close>.\<close>

function lower_bound_loop :: "('a \<Rightarrow> bool) \<Rightarrow> 'a list \<Rightarrow> nat \<Rightarrow> nat \<Rightarrow> nat" where
  "lower_bound_loop below xs begin_at len =
     (if len = 0 then begin_at
      else let half = len div 2; middle = begin_at + half
           in if below (xs ! middle) then lower_bound_loop below xs (middle + 1) (len - half - 1)
              else lower_bound_loop below xs begin_at half)"
  by pat_completeness auto
termination by (relation "measure (\<lambda>(_, _, _, len). len)") auto

declare lower_bound_loop.simps [simp del]

definition lower_bound :: "('a \<Rightarrow> bool) \<Rightarrow> 'a list \<Rightarrow> nat" where
  "lower_bound below xs = lower_bound_loop below xs 0 (length xs)"

text \<open>
  The lookup both directories use: \<open>iter != end && !(name < *iter)\<close> after \<open>lower_bound\<close>.
\<close>

definition find_sorted :: "('a \<Rightarrow> string) \<Rightarrow> string \<Rightarrow> 'a list \<Rightarrow> nat option" where
  "find_sorted key name xs =
     (let i = lower_bound (\<lambda>x. key x < name) xs
      in if i < length xs \<and> \<not> name < key (xs ! i) then Some i else None)"

lemma lower_bound_loop_bounds:
  assumes "\<forall>i j. i \<le> j \<longrightarrow> j < length xs \<longrightarrow> below (xs ! j) \<longrightarrow> below (xs ! i)"
    and "b + len \<le> length xs" "\<forall>i<b. below (xs ! i)"
    and "\<forall>i. b + len \<le> i \<longrightarrow> i < length xs \<longrightarrow> \<not> below (xs ! i)"
  shows "lower_bound_loop below xs b len \<le> length xs \<and>
    (\<forall>i<length xs. below (xs ! i) \<longleftrightarrow> i < lower_bound_loop below xs b len)"
  using assms(2-4)
proof (induction len arbitrary: b rule: less_induct)
  case (less len)
  note mono = assms(1)
  let ?m = "b + len div 2"
  show ?case
  proof (cases "len = 0")
    case True
    then have "lower_bound_loop below xs b len = b" by (subst lower_bound_loop.simps) simp
    moreover have "i < b \<or> b \<le> i" for i by linarith
    ultimately show ?thesis using less.prems True by (metis add.right_neutral)
  next
    case False
    then have m: "?m < length xs" using less.prems(1) by auto
    show ?thesis
    proof (cases "below (xs ! ?m)")
      case True
      have eq: "lower_bound_loop below xs b len = lower_bound_loop below xs (?m + 1) (len - len div 2 - 1)"
        using False True lower_bound_loop.simps [of below xs b len] by (simp only: Let_def if_False if_True refl simp_thms)
      have "\<forall>i<?m + 1. below (xs ! i)" using mono True m by (metis Suc_eq_plus1 less_Suc_eq_le)
      moreover have "?m + 1 + (len - len div 2 - 1) = b + len" "len - len div 2 - 1 < len" using False by auto
      ultimately show ?thesis
        unfolding eq using less.prems(1,3) by (intro less.IH) (simp_all only:)
    next
      case no: False
      have eq: "lower_bound_loop below xs b len = lower_bound_loop below xs b (len div 2)"
        using False no lower_bound_loop.simps [of below xs b len] by (simp only: Let_def if_False if_True refl simp_thms)
      have "\<forall>i. ?m \<le> i \<longrightarrow> i < length xs \<longrightarrow> \<not> below (xs ! i)" using mono no m by blast
      moreover have "len div 2 < len" using False by simp
      ultimately show ?thesis
        unfolding eq using m less.prems(2) by (intro less.IH) (simp_all only: less_imp_le)
    qed
  qed
qed

lemma lower_bound_spec:
  assumes "sorted (map key xs)"
  shows "lower_bound (\<lambda>x. key x < name) xs \<le> length xs \<and>
    (\<forall>i<length xs. key (xs ! i) < name \<longleftrightarrow> i < lower_bound (\<lambda>x. key x < name) xs)"
  unfolding lower_bound_def
proof (rule lower_bound_loop_bounds)
  show "\<forall>i j. i \<le> j \<longrightarrow> j < length xs \<longrightarrow> key (xs ! j) < name \<longrightarrow> key (xs ! i) < name"
  proof (intro allI impI)
    fix i j assume "i \<le> j" "j < length xs" "key (xs ! j) < name"
    moreover have "key (xs ! i) \<le> key (xs ! j)"
      using sorted_nth_mono [OF assms, of i j] \<open>i \<le> j\<close> \<open>j < length xs\<close> by simp
    ultimately show "key (xs ! i) < name" by simp
  qed
qed simp_all

lemma find_sorted_Some:
  assumes "sorted (map key xs)" "distinct (map key xs)"
  shows "find_sorted key name xs = Some i \<longleftrightarrow> i < length xs \<and> key (xs ! i) = name"
proof -
  let ?l = "lower_bound (\<lambda>x. key x < name) xs"
  note spec = lower_bound_spec [OF assms(1), of name]
  have hit: "key (xs ! ?l) = name" if "?l < length xs" "\<not> name < key (xs ! ?l)"
    using spec that by (metis less_irrefl linorder_less_linear)
  have unique: "?l = i" if "i < length xs" "key (xs ! i) = name"
  proof -
    have "\<not> i < ?l" using spec that by auto
    then have "?l < length xs" using that by simp
    moreover have "key (xs ! ?l) \<le> key (xs ! i)"
      using sorted_nth_mono [OF assms(1), of ?l i] \<open>\<not> i < ?l\<close> that by simp
    ultimately have "key (xs ! ?l) = name" using spec that by (metis less_irrefl order_le_less)
    with that \<open>?l < length xs\<close> show ?thesis using assms(2) by (metis length_map nth_eq_iff_index_eq nth_map)
  qed
  show ?thesis
    using hit unique unfolding find_sorted_def Let_def by (auto split: if_splits)
qed

lemma find_sorted_None:
  assumes "sorted (map key xs)" "distinct (map key xs)"
  shows "find_sorted key name xs = None \<longleftrightarrow> name \<notin> key ` set xs"
proof -
  have "find_sorted key name xs \<noteq> None \<longleftrightarrow> (\<exists>i<length xs. key (xs ! i) = name)"
    using find_sorted_Some [OF assms] by auto
  then show ?thesis by (metis image_iff in_set_conv_nth)
qed

section \<open>The table\<close>

record NodeEntry =
  ne_availableCores :: u64
  ne_availableRam :: u64
  ne_availableDisk :: u64
  ne_topicIndex :: nat
  ne_zoneIndex :: nat

record NodeTopic =
  nt_topic :: string
  nt_nodeId :: nat

record NodeZone =
  nz_zone :: string
  nz_nodes :: "nat list"   \<comment> \<open>a \<open>std::set<int>\<close>, in increasing order\<close>

record NodeTable =
  tb_nodes :: "NodeEntry list"
  tb_topics :: "NodeTopic list"
  tb_zones :: "NodeZone list"

definition clear_table :: NodeTable where
  "clear_table = \<lparr>tb_nodes = [], tb_topics = [], tb_zones = []\<rparr>"

definition set_resources :: "u64 \<Rightarrow> u64 \<Rightarrow> u64 \<Rightarrow> NodeEntry \<Rightarrow> NodeEntry" where
  "set_resources c r d e = e\<lparr>ne_availableCores := c, ne_availableRam := r, ne_availableDisk := d\<rparr>"

text \<open>The branch that inserts the zone of a new node: its index in \<open>zones\<close> and the new \<open>zones\<close>.\<close>

definition add_to_zone :: "string \<Rightarrow> nat \<Rightarrow> NodeZone list \<Rightarrow> nat \<times> NodeZone list" where
  "add_to_zone zone nodeIndex zones =
     (case find_sorted nz_zone zone zones of
        Some z \<Rightarrow> (z, zones[z := (zones ! z)\<lparr>nz_nodes := insort_insert nodeIndex (nz_nodes (zones ! z))\<rparr>])
      | None \<Rightarrow> (length zones, sort_key nz_zone (zones @ [\<lparr>nz_zone = zone, nz_nodes = [nodeIndex]\<rparr>])))"

text \<open>
  The result of the insertion is read through the reference \<open>newTopic\<close> to the last element of
  \<open>topics\<close>, after the vector has been sorted.
\<close>

definition addOrUpdateNode ::
  "string option \<Rightarrow> string option \<Rightarrow> u64 \<Rightarrow> u64 \<Rightarrow> u64 \<Rightarrow> NodeTable \<Rightarrow> (nat \<times> NodeTable) outcome" where
  "addOrUpdateNode topic zone c r d tb =
     (case (topic, zone) of
        (Some t, Some z) \<Rightarrow>
          (case find_sorted nt_topic t (tb_topics tb) of
             Some i \<Rightarrow>
               let n = nt_nodeId (tb_topics tb ! i)
               in if n < length (tb_nodes tb)
                  then Inr (n, tb\<lparr>tb_nodes := (tb_nodes tb)[n := set_resources c r d (tb_nodes tb ! n)]\<rparr>)
                  else Inl OutOfRange
           | None \<Rightarrow>
               let nodeIndex = length (tb_nodes tb); topicIndex = length (tb_topics tb);
                   topics = sort_key nt_topic (tb_topics tb @ [\<lparr>nt_topic = t, nt_nodeId = nodeIndex\<rparr>]);
                   (zoneIndex, zones) = add_to_zone z nodeIndex (tb_zones tb)
               in Inr (nt_nodeId (last topics),
                    \<lparr>tb_nodes = tb_nodes tb @
                       [\<lparr>ne_availableCores = c, ne_availableRam = r, ne_availableDisk = d,
                         ne_topicIndex = topicIndex, ne_zoneIndex = zoneIndex\<rparr>],
                     tb_topics = topics, tb_zones = zones\<rparr>))
      | (None, _) \<Rightarrow> Inl (AssertFail ''Error, topic cannot be null'')
      | (_, None) \<Rightarrow> Inl (AssertFail ''Error, zone cannot be null''))"

text \<open>The index of the node of a topic; the source returns \<open>-1\<close> when there is none.\<close>

definition findNodeByTopic :: "string \<Rightarrow> NodeTable \<Rightarrow> int" where
  "findNodeByTopic topic tb =
     (case find_sorted nt_topic topic (tb_topics tb) of
        Some i \<Rightarrow> int (nt_nodeId (tb_topics tb ! i)) | None \<Rightarrow> - 1)"

definition findNodesByZone :: "string \<Rightarrow> NodeTable \<Rightarrow> nat list option" where
  "findNodesByZone zone tb =
     map_option (\<lambda>z. nz_nodes (tb_zones tb ! z)) (find_sorted nz_zone zone (tb_zones tb))"

definition getNodeEntry :: "int \<Rightarrow> NodeTable \<Rightarrow> NodeEntry outcome" where
  "getNodeEntry i tb =
     (if 0 \<le> i \<and> nat i < length (tb_nodes tb) then Inr (tb_nodes tb ! nat i) else Inl OutOfRange)"

definition getTopicForNode :: "NodeEntry \<Rightarrow> NodeTable \<Rightarrow> string outcome" where
  "getTopicForNode e tb =
     (if ne_topicIndex e < length (tb_topics tb) then Inr (nt_topic (tb_topics tb ! ne_topicIndex e))
      else Inl (Undefined ''topics[]''))"

definition getZoneForNode :: "NodeEntry \<Rightarrow> NodeTable \<Rightarrow> string outcome" where
  "getZoneForNode e tb =
     (if ne_zoneIndex e < length (tb_zones tb) then Inr (nz_zone (tb_zones tb ! ne_zoneIndex e))
      else Inl (Undefined ''zones[]''))"

text \<open>\<open>NodeDb::addOrUpdateNode\<close> prints the node with the returned index, which must exist.\<close>

definition db_addOrUpdateNode ::
  "string option \<Rightarrow> string option \<Rightarrow> u64 \<Rightarrow> u64 \<Rightarrow> u64 \<Rightarrow> NodeTable \<Rightarrow> NodeTable outcome" where
  "db_addOrUpdateNode topic zone c r d tb =
     and_then (addOrUpdateNode topic zone c r d tb) (\<lambda>(i, tb').
       and_then (getNodeEntry (int i) tb') (\<lambda>_. Inr tb'))"

section \<open>The directory it implements\<close>

text \<open>
  The specification: a map from topics to the resources last reported, and one from topics to the
  zone first reported.
\<close>

type_synonym amounts = "u64 \<times> u64 \<times> u64"

definition entry_amounts :: "NodeEntry \<Rightarrow> amounts" where
  "entry_amounts e = (ne_availableCores e, ne_availableRam e, ne_availableDisk e)"

definition directory :: "NodeTable \<Rightarrow> string \<Rightarrow> amounts option" where
  "directory tb t = map_option (\<lambda>n. entry_amounts (tb_nodes tb ! n))
     (map_of (map (\<lambda>e. (nt_topic e, nt_nodeId e)) (tb_topics tb)) t)"

definition zone_topics :: "NodeTable \<Rightarrow> string \<Rightarrow> string set" where
  "zone_topics tb z =
     {nt_topic e | e y. e \<in> set (tb_topics tb) \<and> y \<in> set (tb_zones tb) \<and> nz_zone y = z \<and>
        nt_nodeId e \<in> set (nz_nodes y)}"

definition table_ok :: "NodeTable \<Rightarrow> bool" where
  "table_ok tb \<longleftrightarrow>
     sorted (map nt_topic (tb_topics tb)) \<and> distinct (map nt_topic (tb_topics tb)) \<and>
     sorted (map nz_zone (tb_zones tb)) \<and> distinct (map nz_zone (tb_zones tb)) \<and>
     distinct (map nt_nodeId (tb_topics tb)) \<and>
     nt_nodeId ` set (tb_topics tb) = {..<length (tb_nodes tb)} \<and>
     (\<forall>y\<in>set (tb_zones tb). set (nz_nodes y) \<subseteq> {..<length (tb_nodes tb)} \<and> nz_nodes y \<noteq> [] \<and>
        sorted (nz_nodes y) \<and> distinct (nz_nodes y)) \<and>
     (\<forall>i<length (tb_nodes tb). ne_topicIndex (tb_nodes tb ! i) = i)"

lemma distinct_map_sort_key [simp]: "distinct (map f (sort_key g xs)) = distinct (map f xs)"
  by (rule mset_eq_imp_distinct_iff) simp

lemma table_ok_clear: "table_ok clear_table"
  by (simp add: table_ok_def clear_table_def)

lemma add_to_zone_ok:
  assumes zs: "sorted (map nz_zone zs)" "distinct (map nz_zone zs)"
    and e: "\<forall>y\<in>set zs. set (nz_nodes y) \<subseteq> {..<n} \<and> nz_nodes y \<noteq> [] \<and> sorted (nz_nodes y) \<and> distinct (nz_nodes y)"
    and a: "add_to_zone z n zs = (k, zs')"
  shows "sorted (map nz_zone zs') \<and> distinct (map nz_zone zs') \<and>
    (\<forall>y\<in>set zs'. set (nz_nodes y) \<subseteq> {..<Suc n} \<and> nz_nodes y \<noteq> [] \<and> sorted (nz_nodes y) \<and> distinct (nz_nodes y)) \<and>
    (\<forall>i z'. (\<exists>y\<in>set zs'. nz_zone y = z' \<and> i \<in> set (nz_nodes y)) \<longleftrightarrow>
       (z' = z \<and> i = n) \<or> (\<exists>y\<in>set zs. nz_zone y = z' \<and> i \<in> set (nz_nodes y)))"
proof (cases "find_sorted nz_zone z zs")
  case None
  then have "z \<notin> nz_zone ` set zs" using find_sorted_None [OF zs] by simp
  then show ?thesis using None a e zs by (force simp: add_to_zone_def less_Suc_eq)
next
  case (Some j)
  then have j: "j < length zs" "nz_zone (zs ! j) = z" using find_sorted_Some [OF zs] by auto
  let ?y = "(zs ! j)\<lparr>nz_nodes := insort_insert n (nz_nodes (zs ! j))\<rparr>"
  have zs': "zs' = zs[j := ?y]" using Some a by (auto simp: add_to_zone_def)
  have m: "map nz_zone zs' = map nz_zone zs" using j by (simp add: zs' map_update list_update_same_conv)
  have jn: "zs ! j \<in> set zs" using j by simp
  have y: "set (nz_nodes ?y) = insert n (set (nz_nodes (zs ! j)))" "sorted (nz_nodes ?y)" "distinct (nz_nodes ?y)"
    using e jn by (auto simp: set_insort_insert sorted_insort_insert distinct_insort_insert)
  have ne: "nz_nodes ?y \<noteq> []" using y(1) by force
  have set': "x \<in> set zs' \<longleftrightarrow> x = ?y \<or> (\<exists>i<length zs. i \<noteq> j \<and> x = zs ! i)" for x
    using j(1) unfolding zs' by (auto simp: in_set_conv_nth nth_list_update)
  have "(\<exists>y\<in>set zs'. nz_zone y = z' \<and> i \<in> set (nz_nodes y)) \<longleftrightarrow>
      (z' = z \<and> i = n) \<or> (\<exists>y\<in>set zs. nz_zone y = z' \<and> i \<in> set (nz_nodes y))" for i z'
  proof -
    define P where "P y \<longleftrightarrow> nz_zone y = z' \<and> i \<in> set (nz_nodes y)" for y :: NodeZone
    have "(\<exists>y\<in>set zs'. P y) \<longleftrightarrow> P ?y \<or> (\<exists>i<length zs. i \<noteq> j \<and> P (zs ! i))"
      by (metis set')
    moreover have "(\<exists>y\<in>set zs. P y) \<longleftrightarrow> P (zs ! j) \<or> (\<exists>i<length zs. i \<noteq> j \<and> P (zs ! i))"
      using j(1) by (metis in_set_conv_nth)
    moreover have "P ?y \<longleftrightarrow> (z' = z \<and> i = n) \<or> P (zs ! j)" using j(2) y(1) by (auto simp: P_def)
    ultimately show ?thesis by (auto simp: P_def)
  qed
  moreover have "\<forall>x\<in>set zs'. set (nz_nodes x) \<subseteq> {..<Suc n} \<and> nz_nodes x \<noteq> [] \<and> sorted (nz_nodes x) \<and> distinct (nz_nodes x)"
  proof
    fix x assume "x \<in> set zs'"
    then consider "x = ?y" | "x \<in> set zs" using set' by auto
    then show "set (nz_nodes x) \<subseteq> {..<Suc n} \<and> nz_nodes x \<noteq> [] \<and> sorted (nz_nodes x) \<and> distinct (nz_nodes x)"
      using e jn y ne by cases (fastforce simp: less_Suc_eq)+
  qed
  ultimately show ?thesis using zs by (simp add: m)
qed

lemma map_of_sort_key:
  "distinct (map fst (map p (sort_key g xs))) \<Longrightarrow> map_of (map p (sort_key g xs)) = map_of (map p xs)"
  by (rule map_of_inject_set [THEN iffD2]) (auto simp: comp_def)

lemma known_topic:
  assumes "table_ok tb"
  shows "find_sorted nt_topic t (tb_topics tb) = Some i \<longleftrightarrow>
      i < length (tb_topics tb) \<and> nt_topic (tb_topics tb ! i) = t"
    and "find_sorted nt_topic t (tb_topics tb) = None \<longleftrightarrow> directory tb t = None"
  using assms find_sorted_Some [of nt_topic "tb_topics tb" t i] find_sorted_None [of nt_topic "tb_topics tb" t]
  by (auto simp: table_ok_def directory_def map_of_eq_None_iff image_image)

lemma table_ids:
  assumes "table_ok tb"
  shows "e \<in> set (tb_topics tb) \<Longrightarrow> nt_nodeId e < length (tb_nodes tb)"
    and "length (tb_topics tb) = length (tb_nodes tb)"
proof -
  show "e \<in> set (tb_topics tb) \<Longrightarrow> nt_nodeId e < length (tb_nodes tb)"
    using assms by (auto simp: table_ok_def)
  have "card (nt_nodeId ` set (tb_topics tb)) = length (tb_topics tb)"
    using assms by (metis distinct_card length_map list.set_map table_ok_def)
  then show "length (tb_topics tb) = length (tb_nodes tb)" using assms by (simp add: table_ok_def)
qed

lemma directory_Some:
  assumes "table_ok tb"
  shows "directory tb t = Some a \<longleftrightarrow>
    (\<exists>e\<in>set (tb_topics tb). nt_topic e = t \<and> a = entry_amounts (tb_nodes tb ! nt_nodeId e))"
proof -
  have "distinct (map fst (map (\<lambda>e. (nt_topic e, nt_nodeId e)) (tb_topics tb)))"
    using assms by (simp add: table_ok_def comp_def)
  from map_of_eq_Some_iff [OF this] show ?thesis by (auto simp: directory_def)
qed

lemma update_node_ok:
  assumes ok: "table_ok tb" and i: "find_sorted nt_topic t (tb_topics tb) = Some i"
    and a: "addOrUpdateNode (Some t) (Some z) c r d tb = Inr (k, tb')"
  shows "table_ok tb' \<and> directory tb' = (directory tb)(t \<mapsto> (c, r, d)) \<and> zone_topics tb' = zone_topics tb \<and>
    k < length (tb_nodes tb')"
proof -
  let ?n = "nt_nodeId (tb_topics tb ! i)"
  have i': "i < length (tb_topics tb)" "nt_topic (tb_topics tb ! i) = t" using i known_topic(1) [OF ok] by auto
  then have n: "?n < length (tb_nodes tb)" using table_ids(1) [OF ok] by simp
  have tb': "tb' = tb\<lparr>tb_nodes := (tb_nodes tb)[?n := set_resources c r d (tb_nodes tb ! ?n)]\<rparr>" "k = ?n"
    using a i n by (auto simp: addOrUpdateNode_def Let_def)
  have "\<forall>j<length (tb_nodes tb). ne_topicIndex (tb_nodes tb' ! j) = j"
    using ok n by (auto simp: tb' table_ok_def nth_list_update set_resources_def)
  then have ok': "table_ok tb'" using ok by (simp add: tb' table_ok_def)
  have other: "nt_nodeId e \<noteq> ?n" if "e \<in> set (tb_topics tb)" "nt_topic e \<noteq> t" for e
  proof
    assume "nt_nodeId e = ?n"
    then have "e = tb_topics tb ! i"
      using ok that(1) i'(1) by (metis distinct_map inj_onD nth_mem table_ok_def)
    with that(2) i'(2) show False by simp
  qed
  have same: "e = tb_topics tb ! i" if "e \<in> set (tb_topics tb)" "nt_topic e = t" for e
    using ok that i' by (metis distinct_map inj_onD nth_mem table_ok_def)
  have "directory tb' x = ((directory tb)(t \<mapsto> (c, r, d))) x" for x
  proof (rule option.expand)
    show "(directory tb' x = None) = (((directory tb)(t \<mapsto> (c, r, d))) x = None)"
      using i' by (auto simp: directory_def tb' map_of_eq_None_iff image_image)
  next
    assume x: "directory tb' x \<noteq> None"
    then obtain e where e: "e \<in> set (tb_topics tb)" "nt_topic e = x"
      and v: "directory tb' x = Some (entry_amounts (tb_nodes tb' ! nt_nodeId e))"
      using directory_Some [OF ok'] by (auto simp: tb')
    show "the (directory tb' x) = the (((directory tb)(t \<mapsto> (c, r, d))) x)"
    proof (cases "x = t")
      case True
      then show ?thesis using v same [OF e(1)] e n by (simp add: tb' entry_amounts_def set_resources_def)
    next
      case False
      then have "directory tb x = Some (entry_amounts (tb_nodes tb ! nt_nodeId e))"
        using directory_Some [OF ok] e by auto
      then show ?thesis using v False other [OF e(1)] e(2) by (simp add: tb')
    qed
  qed
  moreover have "zone_topics tb' = zone_topics tb" by (simp add: tb' zone_topics_def fun_eq_iff)
  ultimately show ?thesis using ok' n by (auto simp: tb')
qed

lemma insert_directory:
  assumes "table_ok tb" "t \<notin> nt_topic ` set (tb_topics tb)" "tb_nodes tb' = tb_nodes tb @ [node]"
    and "tb_topics tb' = sort_key nt_topic (tb_topics tb @ [\<lparr>nt_topic = t, nt_nodeId = length (tb_nodes tb)\<rparr>])"
  shows "directory tb' = (directory tb)(t \<mapsto> entry_amounts node)"
proof
  fix u
  let ?pairs = "\<lambda>ts. map_of (map (\<lambda>e. (nt_topic e, nt_nodeId e)) ts)"
  have "?pairs (tb_topics tb') u = ?pairs (tb_topics tb @ [\<lparr>nt_topic = t, nt_nodeId = length (tb_nodes tb)\<rparr>]) u"
    using assms(1,2) unfolding assms(4) by (subst map_of_sort_key) (auto simp: table_ok_def comp_def)
  also have "\<dots> = (if u = t then Some (length (tb_nodes tb)) else ?pairs (tb_topics tb) u)"
  proof -
    have "?pairs (tb_topics tb) t = None" using assms(2) by (auto simp: map_of_eq_None_iff image_image)
    then show ?thesis by (cases "u = t") (auto simp: map_add_def split: option.split)
  qed
  finally have e: "?pairs (tb_topics tb') u = (if u = t then Some (length (tb_nodes tb)) else ?pairs (tb_topics tb) u)" .
  have lt: "n < length (tb_nodes tb)" if "?pairs (tb_topics tb) u = Some n" for n
    using map_of_SomeD [OF that] table_ids(1) [OF assms(1)] by auto
  show "directory tb' u = ((directory tb)(t \<mapsto> entry_amounts node)) u"
  proof (cases "u = t")
    case True
    then show ?thesis unfolding directory_def e assms(3) by simp
  next
    case False
    then show ?thesis unfolding directory_def e assms(3) using lt
      by (cases "?pairs (tb_topics tb) u") (simp_all add: nth_append)
  qed
qed

lemma insert_zone_topics:
  assumes "table_ok tb" "set (tb_topics tb') = insert \<lparr>nt_topic = t, nt_nodeId = length (tb_nodes tb)\<rparr> (set (tb_topics tb))"
    and "\<And>i z'. (\<exists>y\<in>set (tb_zones tb'). nz_zone y = z' \<and> i \<in> set (nz_nodes y)) \<longleftrightarrow>
       (z' = z \<and> i = length (tb_nodes tb)) \<or> (\<exists>y\<in>set (tb_zones tb). nz_zone y = z' \<and> i \<in> set (nz_nodes y))"
  shows "zone_topics tb' = (zone_topics tb)(z := insert t (zone_topics tb z))"
proof
  let ?n = "length (tb_nodes tb)" and ?x = "\<lparr>nt_topic = t, nt_nodeId = length (tb_nodes tb)\<rparr>"
  have newid: "?n \<notin> set (nz_nodes y)" if "y \<in> set (tb_zones tb)" for y
    using assms(1) that by (auto simp: table_ok_def)
  have old: "nt_nodeId e \<noteq> ?n" if "e \<in> set (tb_topics tb)" for e using table_ids(1) [OF assms(1) that] by simp
  fix z'
  have "zone_topics tb' z' = {nt_topic e | e. e \<in> insert ?x (set (tb_topics tb)) \<and>
      (\<exists>y\<in>set (tb_zones tb'). nz_zone y = z' \<and> nt_nodeId e \<in> set (nz_nodes y))}"
    unfolding zone_topics_def assms(2) by auto
  also have "\<dots> = {nt_topic e | e. e \<in> insert ?x (set (tb_topics tb)) \<and> ((z' = z \<and> nt_nodeId e = ?n) \<or>
      (\<exists>y\<in>set (tb_zones tb). nz_zone y = z' \<and> nt_nodeId e \<in> set (nz_nodes y)))}"
    by (simp only: assms(3))
  also have "\<dots> = {nt_topic e | e. e \<in> set (tb_topics tb) \<and>
      (\<exists>y\<in>set (tb_zones tb). nz_zone y = z' \<and> nt_nodeId e \<in> set (nz_nodes y))} \<union> (if z' = z then {t} else {})"
    using newid old by (auto intro: exI [of _ ?x])
  also have "\<dots> = ((zone_topics tb)(z := insert t (zone_topics tb z))) z'"
    unfolding zone_topics_def by auto
  finally show "zone_topics tb' z' = ((zone_topics tb)(z := insert t (zone_topics tb z))) z'" .
qed

lemma insert_node_ok:
  assumes ok: "table_ok tb" and t: "find_sorted nt_topic t (tb_topics tb) = None"
    and a: "addOrUpdateNode (Some t) (Some z) c r d tb = Inr (k, tb')"
  shows "table_ok tb' \<and> directory tb' = (directory tb)(t \<mapsto> (c, r, d)) \<and>
    zone_topics tb' = (zone_topics tb)(z := insert t (zone_topics tb z)) \<and> k < length (tb_nodes tb')"
proof -
  let ?n = "length (tb_nodes tb)" and ?x = "\<lparr>nt_topic = t, nt_nodeId = length (tb_nodes tb)\<rparr>"
  obtain zi zs' where zone: "add_to_zone z ?n (tb_zones tb) = (zi, zs')" by (cases "add_to_zone z ?n (tb_zones tb)")
  define node where "node = \<lparr>ne_availableCores = c, ne_availableRam = r, ne_availableDisk = d,
    ne_topicIndex = length (tb_topics tb), ne_zoneIndex = zi\<rparr>"
  have tb': "tb' = \<lparr>tb_nodes = tb_nodes tb @ [node], tb_topics = sort_key nt_topic (tb_topics tb @ [?x]),
      tb_zones = zs'\<rparr>" and k: "k = nt_nodeId (last (sort_key nt_topic (tb_topics tb @ [?x])))"
    using a t zone by (auto simp: addOrUpdateNode_def Let_def node_def)
  have fresh: "t \<notin> nt_topic ` set (tb_topics tb)"
    using t ok find_sorted_None [of nt_topic "tb_topics tb" t] by (auto simp: table_ok_def)
  have zones: "sorted (map nz_zone zs')" "distinct (map nz_zone zs')"
      "\<forall>y\<in>set zs'. set (nz_nodes y) \<subseteq> {..<Suc ?n} \<and> nz_nodes y \<noteq> [] \<and> sorted (nz_nodes y) \<and> distinct (nz_nodes y)"
    and in_zone: "\<And>i z'. (\<exists>y\<in>set zs'. nz_zone y = z' \<and> i \<in> set (nz_nodes y)) \<longleftrightarrow>
       (z' = z \<and> i = ?n) \<or> (\<exists>y\<in>set (tb_zones tb). nz_zone y = z' \<and> i \<in> set (nz_nodes y))"
    using add_to_zone_ok [OF _ _ _ zone] ok unfolding table_ok_def by blast+
  note ids = table_ids [OF ok]
  have "\<forall>i<Suc ?n. ne_topicIndex ((tb_nodes tb @ [node]) ! i) = i"
    using ok ids(2) by (auto simp: nth_append node_def less_Suc_eq table_ok_def)
  then have ok': "table_ok tb'"
    using ok fresh zones ids(1) by (auto simp: tb' table_ok_def lessThan_Suc)
  have "directory tb' = (directory tb)(t \<mapsto> (c, r, d))"
    using insert_directory [OF ok fresh, of tb' node] by (simp add: tb' node_def entry_amounts_def)
  moreover have "zone_topics tb' = (zone_topics tb)(z := insert t (zone_topics tb z))"
    by (rule insert_zone_topics [OF ok]) (simp_all add: tb' in_zone)
  moreover have "k < length (tb_nodes tb')"
  proof -
    have "last (sort_key nt_topic (tb_topics tb @ [?x])) \<in> set (sort_key nt_topic (tb_topics tb @ [?x]))"
      by (rule last_in_set) (metis append_is_Nil_conv length_0_conv length_sort not_Cons_self)
    then show ?thesis unfolding k tb' using ids(1) by (auto intro: less_SucI)
  qed
  ultimately show ?thesis using ok' by blast
qed

lemma addOrUpdateNode_total:
  assumes "table_ok tb"
  obtains k tb' where "addOrUpdateNode (Some t) (Some z) c r d tb = Inr (k, tb')"
proof (cases "find_sorted nt_topic t (tb_topics tb)")
  case None
  moreover obtain zi zs where "add_to_zone z (length (tb_nodes tb)) (tb_zones tb) = (zi, zs)" by fastforce
  ultimately show thesis using that by (simp add: addOrUpdateNode_def Let_def)
next
  case (Some i)
  then have "nt_nodeId (tb_topics tb ! i) < length (tb_nodes tb)"
    using known_topic(1) [OF assms] table_ids(1) [OF assms] by simp
  with Some show thesis using that by (auto simp: addOrUpdateNode_def Let_def)
qed

section \<open>Any sequence of reports\<close>

type_synonym report = "string \<times> string \<times> amounts"

fun reports :: "report list \<Rightarrow> NodeTable \<Rightarrow> NodeTable outcome" where
  "reports [] tb = Inr tb"
| "reports ((t, z, c, r, d) # us) tb =
     and_then (db_addOrUpdateNode (Some t) (Some z) c r d tb) (reports us)"

fun spec_report ::
  "report \<Rightarrow> (string \<Rightarrow> amounts option) \<times> (string \<Rightarrow> string set) \<Rightarrow> (string \<Rightarrow> amounts option) \<times> (string \<Rightarrow> string set)" where
  "spec_report (t, z, a) (m, zs) = (m(t \<mapsto> a), if m t = None then zs(z := insert t (zs z)) else zs)"

definition report_of :: "string \<Rightarrow> NodeTable \<Rightarrow> amounts option outcome" where
  "report_of t tb =
     (if findNodeByTopic t tb = - 1 then Inr None
      else and_then (getNodeEntry (findNodeByTopic t tb) tb) (\<lambda>e. Inr (Some (entry_amounts e))))"

definition in_zone :: "string \<Rightarrow> string \<Rightarrow> NodeTable \<Rightarrow> bool" where
  "in_zone t z tb = (case findNodesByZone z tb of None \<Rightarrow> False
     | Some ns \<Rightarrow> list_ex (\<lambda>n. findNodeByTopic t tb = int n) ns)"

lemma db_report_refines:
  assumes ok: "table_ok tb"
  shows "\<exists>tb'. db_addOrUpdateNode (Some t) (Some z) c r d tb = Inr tb' \<and> table_ok tb' \<and>
    (directory tb', zone_topics tb') = spec_report (t, z, c, r, d) (directory tb, zone_topics tb)"
proof -
  obtain k tb' where a: "addOrUpdateNode (Some t) (Some z) c r d tb = Inr (k, tb')"
    using addOrUpdateNode_total [OF ok] .
  show ?thesis
  proof (cases "find_sorted nt_topic t (tb_topics tb)")
    case None
    with insert_node_ok [OF ok None a] known_topic(2) [OF ok] a show ?thesis
      by (simp add: db_addOrUpdateNode_def getNodeEntry_def)
  next
    case (Some i)
    then have "directory tb t \<noteq> None" using known_topic(2) [OF ok] by (metis option.distinct(1))
    with update_node_ok [OF ok Some a] a show ?thesis by (auto simp: db_addOrUpdateNode_def getNodeEntry_def)
  qed
qed

lemma findNodeByTopic_eq:
  assumes "table_ok tb"
  shows "findNodeByTopic t tb = int n \<longleftrightarrow> (\<exists>e\<in>set (tb_topics tb). nt_topic e = t \<and> nt_nodeId e = n)"
    and "findNodeByTopic t tb = - 1 \<longleftrightarrow> directory tb t = None"
proof -
  have u: "e = e'" if "e \<in> set (tb_topics tb)" "e' \<in> set (tb_topics tb)" "nt_topic e = nt_topic e'" for e e'
    using assms that by (metis distinct_map inj_onD table_ok_def)
  show "findNodeByTopic t tb = int n \<longleftrightarrow> (\<exists>e\<in>set (tb_topics tb). nt_topic e = t \<and> nt_nodeId e = n)"
  proof (cases "find_sorted nt_topic t (tb_topics tb)")
    case None
    then show ?thesis using find_sorted_None [of nt_topic "tb_topics tb" t] assms
      by (auto simp: findNodeByTopic_def table_ok_def)
  next
    case (Some i)
    with known_topic(1) [OF assms] have "tb_topics tb ! i \<in> set (tb_topics tb)" "nt_topic (tb_topics tb ! i) = t" by auto
    then show ?thesis using u Some by (auto simp: findNodeByTopic_def)
  qed
  show "findNodeByTopic t tb = - 1 \<longleftrightarrow> directory tb t = None"
    using known_topic(2) [OF assms, of t] by (auto simp: findNodeByTopic_def split: option.splits)
qed

lemma report_of_directory:
  assumes "table_ok tb" shows "report_of t tb = Inr (directory tb t)"
proof (cases "directory tb t")
  case None
  then show ?thesis using findNodeByTopic_eq(2) [OF assms] by (simp add: report_of_def)
next
  case (Some a)
  then obtain e where e: "e \<in> set (tb_topics tb)" "nt_topic e = t" "a = entry_amounts (tb_nodes tb ! nt_nodeId e)"
    using directory_Some [OF assms] by auto
  then have "findNodeByTopic t tb = int (nt_nodeId e)" using findNodeByTopic_eq(1) [OF assms] by blast
  then show ?thesis using Some e table_ids(1) [OF assms e(1)] by (simp add: report_of_def getNodeEntry_def)
qed

lemma in_zone_topics:
  assumes "table_ok tb" shows "in_zone t z tb \<longleftrightarrow> t \<in> zone_topics tb z"
proof -
  have zs: "sorted (map nz_zone (tb_zones tb))" "distinct (map nz_zone (tb_zones tb))"
    using assms by (auto simp: table_ok_def)
  have u: "y = y'" if "y \<in> set (tb_zones tb)" "y' \<in> set (tb_zones tb)" "nz_zone y = nz_zone y'" for y y'
    using zs(2) that by (metis distinct_map inj_onD)
  show ?thesis
  proof (cases "find_sorted nz_zone z (tb_zones tb)")
    case None
    then have "z \<notin> nz_zone ` set (tb_zones tb)" using find_sorted_None [OF zs] by simp
    with None show ?thesis by (auto simp: in_zone_def findNodesByZone_def zone_topics_def)
  next
    case (Some i)
    then have i: "tb_zones tb ! i \<in> set (tb_zones tb)" "nz_zone (tb_zones tb ! i) = z"
      using find_sorted_Some [OF zs] by auto
    have "in_zone t z tb \<longleftrightarrow>
        (\<exists>n\<in>set (nz_nodes (tb_zones tb ! i)). \<exists>e\<in>set (tb_topics tb). nt_topic e = t \<and> nt_nodeId e = n)"
      using Some findNodeByTopic_eq(1) [OF assms] by (simp add: in_zone_def findNodesByZone_def list_ex_iff)
    then show ?thesis using u i by (auto simp: zone_topics_def)
  qed
qed

lemma reports_ok:
  "table_ok tb \<Longrightarrow> \<exists>tb'. reports us tb = Inr tb' \<and> table_ok tb' \<and>
     (directory tb', zone_topics tb') = fold spec_report us (directory tb, zone_topics tb)"
proof (induction us arbitrary: tb)
  case Nil
  then show ?case by simp
next
  case (Cons u us)
  obtain t z c r d where u: "u = (t, z, c, r, d)" by (cases u)
  obtain tb1 where 1: "db_addOrUpdateNode (Some t) (Some z) c r d tb = Inr tb1" "table_ok tb1"
      "(directory tb1, zone_topics tb1) = spec_report (t, z, c, r, d) (directory tb, zone_topics tb)"
    using db_report_refines [OF Cons.prems] by blast
  from Cons.IH [OF 1(2)] show ?case unfolding 1(3) by (simp add: u 1(1))
qed

text \<open>C18.  Refinement: whatever data centres report, in whatever order, the sorted vectors of the table
  implement a map from topics to the amounts last reported and a map from zones to the topics first
  reported there: no report fails, and the lookups of the code read off exactly those maps.
\<close>

theorem node_table_refines:
  "\<exists>tb. reports us clear_table = Inr tb \<and>
    (\<forall>t. report_of t tb = Inr (fst (fold spec_report us (Map.empty, \<lambda>_. {})) t)) \<and>
    (\<forall>t z. in_zone t z tb \<longleftrightarrow> t \<in> snd (fold spec_report us (Map.empty, \<lambda>_. {})) z)"
proof -
  have "directory clear_table = Map.empty" "zone_topics clear_table = (\<lambda>_. {})"
    by (auto simp: directory_def clear_table_def zone_topics_def fun_eq_iff)
  with reports_ok [OF table_ok_clear, of us] obtain tb where
    tb: "reports us clear_table = Inr tb" "table_ok tb"
      "(directory tb, zone_topics tb) = fold spec_report us (Map.empty, \<lambda>_. {})" by auto
  then show ?thesis using report_of_directory [OF tb(2)] in_zone_topics [OF tb(2)] by (metis fst_conv snd_conv)
qed

lemma reports_append: "reports (us @ vs) tb = and_then (reports us tb) (reports vs)"
  by (induction us tb rule: reports.induct) (auto simp: and_then_def split: sum.split)

lemma reports_topics:
  assumes "distinct (map fst us)" "reports us clear_table = Inr tb"
  shows "map nt_topic (tb_topics tb) = sort (map fst us) \<and> length (tb_nodes tb) = length us \<and>
    (\<forall>i<length us. entry_amounts (tb_nodes tb ! i) = snd (snd (us ! i)))"
  using assms
proof (induction us arbitrary: tb rule: rev_induct)
  case Nil
  then show ?case by (auto simp: clear_table_def)
next
  case (snoc u us)
  obtain t z c r d where u: "u = (t, z, c, r, d)" by (cases u)
  obtain tb0 where tb0: "reports us clear_table = Inr tb0"
    and d: "db_addOrUpdateNode (Some t) (Some z) c r d tb0 = Inr tb"
    using snoc.prems(2) by (auto simp: reports_append u and_then_eq_Inr)
  have ok: "table_ok tb0" using reports_ok [OF table_ok_clear, of us] tb0 by simp
  have IH: "map nt_topic (tb_topics tb0) = sort (map fst us)" "length (tb_nodes tb0) = length us"
      "\<forall>i<length us. entry_amounts (tb_nodes tb0 ! i) = snd (snd (us ! i))"
    using snoc.IH [OF _ tb0] snoc.prems(1) by auto
  have "t \<notin> set (map nt_topic (tb_topics tb0))" using snoc.prems(1) unfolding IH(1) by (simp add: u)
  then have none: "find_sorted nt_topic t (tb_topics tb0) = None"
    using find_sorted_None [of nt_topic "tb_topics tb0" t] ok by (auto simp: table_ok_def)
  obtain zi zs' where zone: "add_to_zone z (length (tb_nodes tb0)) (tb_zones tb0) = (zi, zs')" by fastforce
  have new: "tb_topics tb = sort_key nt_topic (tb_topics tb0 @ [\<lparr>nt_topic = t, nt_nodeId = length (tb_nodes tb0)\<rparr>])"
      "tb_nodes tb = tb_nodes tb0 @ [\<lparr>ne_availableCores = c, ne_availableRam = r, ne_availableDisk = d,
        ne_topicIndex = length (tb_topics tb0), ne_zoneIndex = zi\<rparr>]"
    using d none zone by (auto simp: db_addOrUpdateNode_def addOrUpdateNode_def Let_def and_then_eq_Inr)
  have "map nt_topic (tb_topics tb) = sort (map nt_topic (tb_topics tb0) @ [t])"
    unfolding new(1) by (rule properties_for_sort [symmetric]) simp_all
  also have "\<dots> = sort (map fst us @ [t])" unfolding IH(1) by (rule properties_for_sort) simp_all
  finally show ?case using IH(2,3) by (auto simp: new(2) u nth_append entry_amounts_def less_Suc_eq)
qed

text \<open>The topic the table gives for a node is not the topic of that node: the \<open>i\<close>-th data centre to
  report keeps the index its topic had before the vector of topics was sorted, so it is given the
  \<open>i\<close>-th topic in alphabetical order.  Every data centre is given its own topic only when they
  happen to report in alphabetical order.
\<close>

theorem topics_confused:
  assumes "distinct (map fst us)" "reports us clear_table = Inr tb"
  shows "(\<forall>i<length us. entry_amounts (tb_nodes tb ! i) = snd (snd (us ! i)) \<and>
      getTopicForNode (tb_nodes tb ! i) tb = Inr (sort (map fst us) ! i)) \<and>
    ((\<forall>i<length us. getTopicForNode (tb_nodes tb ! i) tb = Inr (fst (us ! i))) \<longleftrightarrow> sorted (map fst us))"
proof -
  note t = reports_topics [OF assms]
  then have l: "length (tb_topics tb) = length us" by (metis length_map length_sort)
  have "table_ok tb" using reports_ok [OF table_ok_clear, of us] assms(2) by simp
  then have i: "\<forall>i<length us. ne_topicIndex (tb_nodes tb ! i) = i" using t by (simp add: table_ok_def)
  have g: "getTopicForNode (tb_nodes tb ! i) tb = Inr (sort (map fst us) ! i)" if "i < length us" for i
    using that i l t by (simp add: getTopicForNode_def) (metis nth_map)
  have "(\<forall>i<length us. getTopicForNode (tb_nodes tb ! i) tb = Inr (fst (us ! i))) \<longleftrightarrow>
      sort (map fst us) = map fst us"
    using g by (auto simp: list_eq_iff_nth_eq)
  also have "\<dots> \<longleftrightarrow> sorted (map fst us)" by (metis sorted_sort sorted_sort_id)
  finally show ?thesis using g t by blast
qed

theorem topics_confused_witness:
  "\<exists>tb. reports [(''madrid'', ''fog'', 8, 1, 1), (''berlin'', ''cloud'', 64, 1, 1)] clear_table = Inr tb \<and>
    getTopicForNode (tb_nodes tb ! 0) tb = Inr ''berlin''"
proof -
  let ?us = "[(''madrid'', ''fog'', 8, 1, 1), (''berlin'', ''cloud'', 64, 1, 1)]"
  obtain tb where tb: "reports ?us clear_table = Inr tb" using reports_ok [OF table_ok_clear] by blast
  have "sort (map fst ?us) ! 0 = ''berlin''" by code_simp
  with topics_confused [OF _ tb] tb show ?thesis by force
qed

end
