(* ===== verification/GroupVector.thy ===== *)
theory GroupVector
  imports Prelude
begin

text \<open>
  The container \<open>core/include/GroupVector.hpp\<close>: one flat vector of elements and the positions at
  which its groups start, each with the representative of the group.  The specification is the list
  of groups; every operation refines the operation on that list.
\<close>

section \<open>The container\<close>

record ('s, 'e) group_vector =
  gv_elements :: "'e list"
  gv_bounds :: "('s \<times> nat) list"   \<comment> \<open>\<open>boundraries\<close>: \<open>element\<close> and \<open>collection_index\<close>\<close>

definition empty_gv :: "('s, 'e) group_vector" where
  "empty_gv = \<lparr>gv_elements = [], gv_bounds = []\<rparr>"

text \<open>\<open>push_back\<close>, and \<open>emplace_back\<close> with an element built from its arguments.\<close>

definition gv_push_back :: "'e \<Rightarrow> ('s, 'e) group_vector \<Rightarrow> ('s, 'e) group_vector" where
  "gv_push_back x g = g\<lparr>gv_elements := gv_elements g @ [x]\<rparr>"

definition new_collection :: "'s \<Rightarrow> ('s, 'e) group_vector \<Rightarrow> ('s, 'e) group_vector" where
  "new_collection rep g = g\<lparr>gv_bounds := gv_bounds g @ [(rep, length (gv_elements g))]\<rparr>"

text \<open>
  With no group yet, \<open>boundraries.size() - 1\<close> is the largest \<open>size_t\<close>, so the check lets every index
  through and the vector is read past its end.
\<close>

definition SIZE_MAX :: nat where "SIZE_MAX = 2 ^ 64 - 1"

definition get_collection_size :: "nat \<Rightarrow> ('s, 'e) group_vector \<Rightarrow> nat outcome" where
  "get_collection_size index g =
     (let last_pos = (if gv_bounds g = [] then SIZE_MAX else length (gv_bounds g) - 1)
      in if index > last_pos then Inr SIZE_MAX
         else if gv_bounds g = [] then Inl (Undefined ''boundraries[]'')
         else if index = last_pos then Inr (length (gv_elements g) - snd (gv_bounds g ! last_pos))
         else Inr (snd (gv_bounds g ! (index + 1)) - snd (gv_bounds g ! index)))"

definition gv_size :: "('s, 'e) group_vector \<Rightarrow> nat" where
  "gv_size g = length (gv_elements g)"

definition gv_index :: "nat \<Rightarrow> ('s, 'e) group_vector \<Rightarrow> 's outcome" where
  "gv_index i g =
     (if i < length (gv_bounds g) then Inr (fst (gv_bounds g ! i)) else Inl (Undefined ''boundraries[]''))"

definition gv_at :: "nat \<Rightarrow> ('s, 'e) group_vector \<Rightarrow> 's outcome" where
  "gv_at i g = (if i < length (gv_bounds g) then Inr (fst (gv_bounds g ! i)) else Inl OutOfRange)"

definition flattened :: "('s, 'e) group_vector \<Rightarrow> 'e list" where
  "flattened g = gv_elements g"

text \<open>The elements a loop over a group visits, from its \<open>begin()\<close> to its \<open>end()\<close>.\<close>

definition iterate_collection :: "nat \<Rightarrow> ('s, 'e) group_vector \<Rightarrow> 'e list outcome" where
  "iterate_collection i g =
     (if i < length (gv_bounds g) then and_then (get_collection_size i g) (\<lambda>n.
         Inr (take n (drop (snd (gv_bounds g ! i)) (gv_elements g))))
      else Inl (Undefined ''boundraries[]''))"

text \<open>\<open>collection::operator[]\<close>, which can run into the following groups.\<close>

definition collection_index_op :: "nat \<Rightarrow> nat \<Rightarrow> ('s, 'e) group_vector \<Rightarrow> 'e outcome" where
  "collection_index_op i j g =
     (if i < length (gv_bounds g) \<and> snd (gv_bounds g ! i) + j < length (gv_elements g)
      then Inr (gv_elements g ! (snd (gv_bounds g ! i) + j)) else Inl (Undefined ''elements[]''))"

definition gv_find :: "'s \<Rightarrow> ('s, 'e) group_vector \<Rightarrow> nat option" where
  "gv_find key g = first_index (\<lambda>c. fst c = key) (gv_bounds g)"

section \<open>The list of groups it implements\<close>

fun groups_from :: "('s \<times> nat) list \<Rightarrow> 'e list \<Rightarrow> ('s \<times> 'e list) list" where
  "groups_from [] xs = []"
| "groups_from [(s, k)] xs = [(s, drop k xs)]"
| "groups_from ((s, k) # (s', k') # bs) xs = (s, take (k' - k) (drop k xs)) # groups_from ((s', k') # bs) xs"

definition groups :: "('s, 'e) group_vector \<Rightarrow> ('s \<times> 'e list) list" where
  "groups g = groups_from (gv_bounds g) (gv_elements g)"

definition gv_ok :: "('s, 'e) group_vector \<Rightarrow> bool" where
  "gv_ok g \<longleftrightarrow> sorted (map snd (gv_bounds g)) \<and> (\<forall>b\<in>set (gv_bounds g). snd b \<le> length (gv_elements g)) \<and>
     (gv_bounds g = [] \<longrightarrow> gv_elements g = []) \<and> (gv_bounds g \<noteq> [] \<longrightarrow> snd (hd (gv_bounds g)) = 0)"

fun add_to_last :: "'e \<Rightarrow> ('s \<times> 'e list) list \<Rightarrow> ('s \<times> 'e list) list" where
  "add_to_last x [] = []"
| "add_to_last x [(s, xs)] = [(s, xs @ [x])]"
| "add_to_last x (g # g' # gs) = g # add_to_last x (g' # gs)"

lemma length_groups_from [simp]: "length (groups_from bs xs) = length bs"
  by (induction bs xs rule: groups_from.induct) auto

lemma groups_from_nth:
  "i < length bs \<Longrightarrow> groups_from bs xs ! i =
    (fst (bs ! i), if Suc i < length bs then take (snd (bs ! Suc i) - snd (bs ! i)) (drop (snd (bs ! i)) xs)
       else drop (snd (bs ! i)) xs)"
proof (induction bs xs arbitrary: i rule: groups_from.induct)
  case (3 s k s' k' bs xs)
  then show ?case by (cases i) auto
qed auto

lemma groups_from_push:
  assumes "sorted (map snd bs)" "\<forall>b\<in>set bs. snd b \<le> length xs" "bs \<noteq> []"
  shows "groups_from bs (xs @ [x]) = add_to_last x (groups_from bs xs)"
  using assms
proof (induction bs xs rule: groups_from.induct)
  case (3 s k s' k' bs xs)
  then obtain g gs where "groups_from ((s', k') # bs) xs = g # gs"
    by (cases "groups_from ((s', k') # bs) xs") (metis length_0_conv length_groups_from list.distinct(1))
  with 3 show ?case by (auto simp: take_append)
qed auto

lemma groups_from_snoc:
  assumes "sorted (map snd bs)" "\<forall>b\<in>set bs. snd b \<le> length xs"
  shows "groups_from (bs @ [(s, length xs)]) xs = groups_from bs xs @ [(s, [])]"
  using assms by (induction bs xs rule: groups_from.induct) auto

lemma groups_from_concat:
  assumes "sorted (map snd bs)" "\<forall>b\<in>set bs. snd b \<le> length xs" "bs \<noteq> []"
  shows "concat (map snd (groups_from bs xs)) = drop (snd (hd bs)) xs"
  using assms
proof (induction bs xs rule: groups_from.induct)
  case (3 s k s' k' bs xs)
  then have "concat (map snd (groups_from ((s', k') # bs) xs)) = drop k' xs" by simp
  moreover have "take (k' - k) (drop k xs) @ drop k' xs = drop k xs"
    using 3 by (metis append_take_drop_id drop_drop le_add_diff_inverse2 list.set_intros(1) list.simps(9) nat_le_linear
      snd_conv sorted2)
  ultimately show ?case by simp
qed auto

lemma gv_ok_empty: "gv_ok empty_gv"
  by (simp add: gv_ok_def empty_gv_def)

lemma new_collection_refines:
  assumes "gv_ok g"
  shows "gv_ok (new_collection s g)" and "groups (new_collection s g) = groups g @ [(s, [])]"
  using assms groups_from_snoc [of "gv_bounds g" "gv_elements g" s]
  by (auto simp: gv_ok_def new_collection_def groups_def sorted_append hd_append)

lemma push_back_refines:
  assumes "gv_ok g" "gv_bounds g \<noteq> []"
  shows "gv_ok (gv_push_back x g)" and "groups (gv_push_back x g) = add_to_last x (groups g)"
  using assms groups_from_push [of "gv_bounds g" "gv_elements g" x]
  by (auto simp: gv_ok_def gv_push_back_def groups_def)

lemma collection_refines:
  assumes ok: "gv_ok g" and i: "i < length (groups g)"
  shows "gv_index i g = Inr (fst (groups g ! i))"
    and "get_collection_size i g = Inr (length (snd (groups g ! i)))"
    and "iterate_collection i g = Inr (snd (groups g ! i))"
proof -
  let ?b = "gv_bounds g" and ?e = "gv_elements g"
  have i': "i < length ?b" using i by (simp add: groups_def)
  note n = groups_from_nth [OF i', of ?e]
  have le: "snd (?b ! j) \<le> length ?e" if "j < length ?b" for j
    using ok that unfolding gv_ok_def by (meson nth_mem)
  show 1: "gv_index i g = Inr (fst (groups g ! i))" using i' n by (simp add: gv_index_def groups_def)
  have eq: "get_collection_size i g = Inr ((if Suc i < length ?b then snd (?b ! Suc i) else length ?e) - snd (?b ! i))"
    using i' by (auto simp: get_collection_size_def Let_def not_less_less_Suc_eq)
  then show 2: "get_collection_size i g = Inr (length (snd (groups g ! i)))"
    using n le [of "Suc i"] by (cases "Suc i < length ?b") (auto simp: groups_def min_def dest: diff_le_mono)
  show "iterate_collection i g = Inr (snd (groups g ! i))"
    using eq n i' by (auto simp: iterate_collection_def groups_def)
qed

lemma flattened_refines: "gv_ok g \<Longrightarrow> flattened g = concat (map snd (groups g))"
  using groups_from_concat [of "gv_bounds g" "gv_elements g"]
  by (cases "gv_bounds g = []") (auto simp: gv_ok_def flattened_def groups_def)

lemma gv_find_refines: "gv_find key g = first_index (\<lambda>c. fst c = key) (groups g)"
  unfolding gv_find_def groups_def by (rule first_index_cong) (simp_all add: groups_from_nth)

text \<open>The programs that fill a group vector.\<close>

datatype ('s, 'e) gv_op = NewGroup 's | Push 'e

fun gv_step :: "('s, 'e) gv_op \<Rightarrow> ('s, 'e) group_vector \<Rightarrow> ('s, 'e) group_vector" where
  "gv_step (NewGroup s) g = new_collection s g"
| "gv_step (Push x) g = gv_push_back x g"

fun spec_step :: "('s, 'e) gv_op \<Rightarrow> ('s \<times> 'e list) list \<Rightarrow> ('s \<times> 'e list) list" where
  "spec_step (NewGroup s) gs = gs @ [(s, [])]"
| "spec_step (Push x) gs = add_to_last x gs"

lemma gv_steps_refine:
  "gv_ok g \<Longrightarrow> gv_bounds g \<noteq> [] \<Longrightarrow>
     gv_ok (fold gv_step ops g) \<and> groups (fold gv_step ops g) = fold spec_step ops (groups g)"
proof (induction ops arbitrary: g)
  case (Cons p ops)
  then show ?case
    using new_collection_refines [of g] push_back_refines [of g]
    by (cases p) (auto simp: new_collection_def gv_push_back_def)
qed simp

section \<open>Filling it group by group\<close>

text \<open>What a client that fills the container group by group relies on.\<close>

locale group_store =
  fixes open_group :: "'s \<Rightarrow> 'g \<Rightarrow> 'g"
    and add_element :: "'e \<Rightarrow> 'g \<Rightarrow> 'g"
    and content :: "'g \<Rightarrow> ('s \<times> 'e list) list"
    and good :: "'g \<Rightarrow> bool"
  assumes open_content: "good g \<Longrightarrow> good (open_group s g) \<and> content (open_group s g) = content g @ [(s, [])]"
    and add_content: "good g \<Longrightarrow> content g \<noteq> [] \<Longrightarrow>
      good (add_element x g) \<and> content (add_element x g) = add_to_last x (content g)"
begin

definition fill_group :: "'s \<times> 'e list \<Rightarrow> 'g \<Rightarrow> 'g" where
  "fill_group p g = fold add_element (snd p) (open_group (fst p) g)"

lemma add_to_last_snoc: "add_to_last x (gs @ [(s, xs)]) = gs @ [(s, xs @ [x])]"
  by (induction gs rule: add_to_last.induct [of _ x]) (auto split: list.splits simp: neq_Nil_conv)

lemma fill_group_content:
  "good g \<Longrightarrow> good (fill_group p g) \<and> content (fill_group p g) = content g @ [p]"
proof -
  assume g: "good g"
  have "good (fold add_element xs h) \<and> content (fold add_element xs h) = gs @ [(s, ys @ xs)]"
    if "good h" "content h = gs @ [(s, ys)]" for h gs s ys xs
    using that
  proof (induction xs arbitrary: h ys)
    case (Cons x xs)
    then show ?case using add_content [of h x] by (simp add: add_to_last_snoc)
  qed simp
  from this [of "open_group (fst p) g" "content g" "fst p" "[]" "snd p"] open_content [OF g, of "fst p"]
  show ?thesis by (simp add: fill_group_def)
qed

lemma fill_groups_content:
  "good g \<Longrightarrow> good (fold fill_group ps g) \<and> content (fold fill_group ps g) = content g @ ps"
  by (induction ps arbitrary: g) (auto simp: fill_group_content)

end

interpretation gv: group_store new_collection gv_push_back groups gv_ok
proof
  fix g :: "('s, 'e) group_vector" and s x
  assume ok: "gv_ok g"
  show "gv_ok (new_collection s g) \<and> groups (new_collection s g) = groups g @ [(s, [])]"
    using new_collection_refines [OF ok] by simp
  assume "groups g \<noteq> []"
  then have "gv_bounds g \<noteq> []" by (auto simp: groups_def)
  then show "gv_ok (gv_push_back x g) \<and> groups (gv_push_back x g) = add_to_last x (groups g)"
    using push_back_refines [OF ok] by simp
qed

text \<open>C17.  Refinement: a vector filled by any program that opens a group before it adds elements is the
  list of its groups: size, representative, iteration, search and the flat view of the container
  are those of that list.
\<close>

theorem group_vector_refines:
  fixes g :: "('s, 'e) group_vector"
  assumes "ops = NewGroup s # ops'" "g = fold gv_step ops empty_gv" "gs = fold spec_step ops []"
  shows "flattened g = concat (map snd gs) \<and> (\<forall>key. gv_find key g = first_index (\<lambda>c. fst c = key) gs) \<and>
    (\<forall>i<length gs. gv_index i g = Inr (fst (gs ! i)) \<and> get_collection_size i g = Inr (length (snd (gs ! i))) \<and>
       iterate_collection i g = Inr (snd (gs ! i)))"
proof -
  let ?g = "new_collection s empty_gv :: ('s, 'e) group_vector"
  have "gv_ok ?g" "groups ?g = [(s, [])]" "gv_bounds ?g \<noteq> []"
    using new_collection_refines [OF gv_ok_empty] by (auto simp: groups_def empty_gv_def new_collection_def)
  then have "gv_ok g \<and> groups g = gs"
    using gv_steps_refine [of ?g ops'] assms by simp
  then show ?thesis using collection_refines [of g] flattened_refines [of g] gv_find_refines [of _ g] by metis
qed

theorem group_vector_refines_witness:
  "iterate_collection 1 (fold gv_step [NewGroup ''a'', Push (1 :: nat), NewGroup ''b'', Push 2, Push 3] empty_gv)
    = Inr [2, 3]"
  using group_vector_refines [OF refl refl refl, of "''a''" "[Push (1 :: nat), NewGroup ''b'', Push 2, Push 3]"]
  by simp

end
