(* ===== verification/Users.thy ===== *)
theory Users
  imports ControlTable GroupVector MsgTrace
begin

text \<open>
  The data classes of \<open>management/dataClasses\<close>: applications, users, service level agreements and the
  instances a simulated user owns, whose virtual machines are kept in a group vector.  Fields of type
  \<open>double\<close> are only stored and are rationals here.
\<close>

section \<open>Applications\<close>

datatype NedType = T_BOOL | T_INT | T_DOUBLE | T_STRING | T_XML

record Application =
  ap_name :: string
  ap_type :: string
  ap_path :: string
  ap_parameters :: "(string \<times> string) list"   \<comment> \<open>a \<open>std::map\<close>, in key order\<close>

definition new_Application :: "string \<Rightarrow> string \<Rightarrow> string \<Rightarrow> Application" where
  "new_Application name type path = \<lparr>ap_name = name, ap_type = type, ap_path = path, ap_parameters = []\<rparr>"

definition typeMap :: "string \<Rightarrow> NedType option" where
  "typeMap = [''int'' \<mapsto> T_INT, ''double'' \<mapsto> T_DOUBLE, ''string'' \<mapsto> T_STRING, ''xml'' \<mapsto> T_XML, ''bool'' \<mapsto> T_BOOL]"

definition strToType :: "string \<Rightarrow> NedType outcome" where
  "strToType type = (case typeMap type of Some t \<Rightarrow> Inr t | None \<Rightarrow> Inl OutOfRange)"

definition getParameter :: "string \<Rightarrow> Application \<Rightarrow> string outcome" where
  "getParameter name a = (case map_of (ap_parameters a) name of Some v \<Rightarrow> Inr v | None \<Rightarrow> Inl OutOfRange)"

definition insertParameter :: "string \<Rightarrow> string \<Rightarrow> Application \<Rightarrow> Application" where
  "insertParameter name v a = a\<lparr>ap_parameters := map_at name [] (\<lambda>_. v) (ap_parameters a)\<rparr>"

definition getNumParameters :: "Application \<Rightarrow> nat" where
  "getNumParameters a = length (ap_parameters a)"

section \<open>Application instances\<close>

record AppInstance =
  ai_appInstanceID :: string
  ai_appName :: string
  ai_instanceNumber :: int
  ai_userID :: string
  ai_state :: u8
  ai_vmInstanceID :: string

definition new_AppInstance :: "string \<Rightarrow> int \<Rightarrow> int \<Rightarrow> string \<Rightarrow> AppInstance" where
  "new_AppInstance name i n user =
     \<lparr>ai_appInstanceID = name @ ''-'' @ user @ ''-['' @ show_int (i + 1) @ ''/'' @ show_int n @ '']'',
      ai_appName = name, ai_instanceNumber = i, ai_userID = user, ai_state = appWaiting,
      ai_vmInstanceID = []\<rparr>"

definition app_stateToString :: "u8 \<Rightarrow> string" where
  "app_stateToString s =
     (if s = appWaiting then ''waiting'' else if s = appRunning then ''running''
      else if s = appFinishedOK then ''finishedOK'' else if s = appFinishedTimeout then ''finishedTimeout''
      else if s = appFinishedError then ''finishedError'' else ''unkown state'')"

definition AppInstance_toString :: "AppInstance \<Rightarrow> string" where
  "AppInstance_toString a = ai_appInstanceID a @ ''  - State: '' @ app_stateToString (ai_state a)"

record AppInstanceCollection =
  ac_appBase :: Application
  ac_appInstances :: "AppInstance list"

definition generateInstances :: "Application \<Rightarrow> string \<Rightarrow> int \<Rightarrow> AppInstance list" where
  "generateInstances base user n = map (\<lambda>i. new_AppInstance (ap_name base) (int i) n user) [0..<nat n]"

definition new_AppInstanceCollection ::
  "Application option \<Rightarrow> string \<Rightarrow> int \<Rightarrow> AppInstanceCollection outcome" where
  "new_AppInstanceCollection base user n =
     (case base of
        None \<Rightarrow> Inl (RuntimeError ''null pointer to the base Application'')
      | Some b \<Rightarrow> Inr \<lparr>ac_appBase = b, ac_appInstances = generateInstances b user n\<rparr>)"

text \<open>The comparison with \<open>size()\<close> is unsigned, so a negative index is not below it.\<close>

definition getInstance :: "int \<Rightarrow> AppInstanceCollection \<Rightarrow> AppInstance option" where
  "getInstance i c =
     (if 0 \<le> i \<and> i < int (length (ac_appInstances c)) then Some (ac_appInstances c ! nat i) else None)"

section \<open>Users and service level agreements\<close>

datatype tPriorityType = Regular | Priority

record User =
  us_type :: string
  us_numInstances :: int
  us_applications :: "(Application option \<times> int) list"

record CloudUser = User +
  cu_virtualMachines :: "(VirtualMachine \<times> int \<times> int) list"   \<comment> \<open>template, instances, rent time\<close>

record CloudUserPriority = CloudUser +
  cp_priorityType :: tPriorityType
  cp_sla :: string

definition new_CloudUserPriority :: "string \<Rightarrow> int \<Rightarrow> tPriorityType \<Rightarrow> string \<Rightarrow> CloudUserPriority" where
  "new_CloudUserPriority type n p sla =
     \<lparr>us_type = type, us_numInstances = n, us_applications = [], cu_virtualMachines = [],
      cp_priorityType = p, cp_sla = sla\<rparr>"

definition insertApplication :: "Application option \<Rightarrow> int \<Rightarrow> 'a User_scheme \<Rightarrow> 'a User_scheme" where
  "insertApplication app n u = u\<lparr>us_applications := us_applications u @ [(app, n)]\<rparr>"

definition insertVirtualMachine ::
  "VirtualMachine \<Rightarrow> int \<Rightarrow> int \<Rightarrow> 'a CloudUser_scheme \<Rightarrow> 'a CloudUser_scheme" where
  "insertVirtualMachine vm n rent u = u\<lparr>cu_virtualMachines := cu_virtualMachines u @ [(vm, n, rent)]\<rparr>"

definition getVirtualMachine :: "nat \<Rightarrow> 'a CloudUser_scheme \<Rightarrow> (VirtualMachine \<times> int \<times> int) outcome" where
  "getVirtualMachine i u =
     (if i < length (cu_virtualMachines u) then Inr (cu_virtualMachines u ! i) else Inl OutOfRange)"

definition getApplication :: "nat \<Rightarrow> 'a User_scheme \<Rightarrow> (Application option \<times> int) outcome" where
  "getApplication i u = (if i < length (us_applications u) then Inr (us_applications u ! i) else Inl OutOfRange)"

record VMCost =
  base_cost :: rat
  cost_increase :: rat
  cost_discount :: rat
  cost_compensation :: rat

record Sla =
  sla_type :: string
  sla_vmCostMap :: "(string \<times> VMCost) list"

definition new_Sla :: "string \<Rightarrow> Sla" where
  "new_Sla type = \<lparr>sla_type = type, sla_vmCostMap = []\<rparr>"

definition addVmCost :: "string \<Rightarrow> rat \<Rightarrow> rat \<Rightarrow> rat \<Rightarrow> rat \<Rightarrow> Sla \<Rightarrow> Sla" where
  "addVmCost vmType b i d c s =
     (if map_of (sla_vmCostMap s) vmType = None
      then s\<lparr>sla_vmCostMap := map_at vmType \<lparr>base_cost = b, cost_increase = i, cost_discount = d, cost_compensation = c\<rparr>
               (\<lambda>x. x) (sla_vmCostMap s)\<rparr>
      else s)"

definition addVmCost_vm :: "VirtualMachine \<Rightarrow> rat \<Rightarrow> rat \<Rightarrow> rat \<Rightarrow> rat \<Rightarrow> Sla \<Rightarrow> Sla" where
  "addVmCost_vm vm = addVmCost (vm_type vm)"

definition getVmCost :: "string \<Rightarrow> Sla \<Rightarrow> VMCost outcome" where
  "getVmCost vmType s = (case map_of (sla_vmCostMap s) vmType of Some c \<Rightarrow> Inr c | None \<Rightarrow> Inl OutOfRange)"

section \<open>Virtual machine instances\<close>

record VmInstanceType =
  vt_userId :: string
  vt_base :: VirtualMachine
  vt_rentingTime :: u64
  vt_numInstances :: int

record VmInstance =
  vi_type :: VmInstanceType   \<comment> \<open>a pointer to the representative of its group\<close>
  vi_id :: string
  vi_instanceNumber :: int
  vi_state :: tVmState

definition new_VmInstance :: "VmInstanceType \<Rightarrow> int \<Rightarrow> int \<Rightarrow> VmInstance" where
  "new_VmInstance type i n =
     \<lparr>vi_type = type,
      vi_id = vm_type (vt_base type) @ ''-'' @ vt_userId type @ ''-['' @ show_int (i + 1) @ ''/'' @ show_int n @ '']'',
      vi_instanceNumber = i, vi_state = vmIdle\<rparr>"

fun vm_stateToString :: "tVmState \<Rightarrow> string" where
  "vm_stateToString vmIdle = ''idle''"
| "vm_stateToString vmAccepted = ''accepted''"
| "vm_stateToString vmRunning = ''running''"
| "vm_stateToString vmFinished = ''finished''"
| "vm_stateToString vmSuspended = ''unknown state''"

section \<open>User instances\<close>

record UserInstance =
  ui_id :: string
  ui_type :: string
  ui_userNumber :: u32
  ui_instanceNumber :: int
  ui_applications :: "AppInstanceCollection list"

definition user_instance_id :: "string \<Rightarrow> u32 \<Rightarrow> int \<Rightarrow> int \<Rightarrow> string" where
  "user_instance_id type userNumber i n =
     ''('' @ show_int (uint userNumber) @ '')'' @ type @ ''['' @ show_int (i + 1) @ ''/'' @ show_int n @ '']''"

fun app_collections :: "string \<Rightarrow> (Application option \<times> int) list \<Rightarrow> AppInstanceCollection list outcome" where
  "app_collections user [] = Inr []"
| "app_collections user ((app, n) # rest) =
     and_then (new_AppInstanceCollection app user n) (\<lambda>c.
       and_then (app_collections user rest) (\<lambda>cs. Inr (c # cs)))"

definition new_UserInstance :: "'a User_scheme \<Rightarrow> u32 \<Rightarrow> int \<Rightarrow> int \<Rightarrow> UserInstance outcome" where
  "new_UserInstance user userNumber i n =
     (let uid = user_instance_id (us_type user) userNumber i n
      in and_then (app_collections uid (us_applications user)) (\<lambda>cs.
           Inr \<lparr>ui_id = uid, ui_type = us_type user, ui_userNumber = userNumber, ui_instanceNumber = i,
                ui_applications = cs\<rparr>))"

definition getAppCollection :: "nat \<Rightarrow> 'a UserInstance_scheme \<Rightarrow> AppInstanceCollection outcome" where
  "getAppCollection i u = (if i < length (ui_applications u) then Inr (ui_applications u ! i) else Inl OutOfRange)"

record InstanceTimes =
  it_initTime :: int
  it_arrival2Cloud :: int
  it_initWaitTime :: int
  it_waitTime :: int
  it_initExec :: int
  it_endTime :: int

text \<open>Division of an \<open>int64_t\<close>, which rounds towards zero.\<close>

definition convertToHours :: "int \<Rightarrow> int" where
  "convertToHours v = (if v \<noteq> 0 then sgn v * (\<bar>v\<bar> div 3600) else 0)"

definition times_convertToHours :: "InstanceTimes \<Rightarrow> InstanceTimes" where
  "times_convertToHours t =
     \<lparr>it_initTime = convertToHours (it_initTime t), it_arrival2Cloud = convertToHours (it_arrival2Cloud t),
      it_initWaitTime = convertToHours (it_initWaitTime t), it_waitTime = convertToHours (it_waitTime t),
      it_initExec = convertToHours (it_initExec t), it_endTime = convertToHours (it_endTime t)\<rparr>"

text \<open>\<open>bSubscribe\<close> is set by \<open>startSubscription\<close> only; before that its value is indeterminate.\<close>

record CloudUserInstance = UserInstance +
  ci_nId :: int
  ci_times :: InstanceTimes
  ci_vmGroupedInstances :: "(VmInstanceType, VmInstance) group_vector"
  ci_vmIdMap :: "string \<Rightarrow> nat option"
  ci_numFinishedVMs :: int
  ci_numActiveSubscriptions :: int
  ci_timeout_t2 :: bool
  ci_timeout_t4 :: bool
  ci_finished :: bool
  ci_subscribe :: "bool option"

definition getNumVms :: "'a CloudUser_scheme \<Rightarrow> int" where
  "getNumVms user = sum_list (map (\<lambda>(_, n, _). n) (cu_virtualMachines user))"

type_synonym vm_building = "(VmInstanceType, VmInstance) group_vector \<times> (string \<Rightarrow> nat option) \<times> int"

definition add_vm_instance :: "VmInstanceType \<Rightarrow> int \<Rightarrow> vm_building \<Rightarrow> vm_building" where
  "add_vm_instance type n = (\<lambda>(g, ids, k).
     let e = new_VmInstance type k n; g' = gv_push_back e g
     in (g', ids(vi_id e \<mapsto> length (flattened g') - 1), k + 1))"

definition add_vm_reference ::
  "string \<Rightarrow> int \<Rightarrow> VirtualMachine \<times> int \<times> int \<Rightarrow> vm_building \<Rightarrow> vm_building" where
  "add_vm_reference uid n = (\<lambda>(base, instances, rent) (g, ids, k).
     let type = \<lparr>vt_userId = uid, vt_base = base, vt_rentingTime = of_int rent, vt_numInstances = instances\<rparr>
     in (add_vm_instance type n ^^ nat instances) (new_collection type g, ids, k))"

definition new_CloudUserInstance ::
  "'a CloudUser_scheme \<Rightarrow> u32 \<Rightarrow> u32 \<Rightarrow> int \<Rightarrow> int \<Rightarrow> CloudUserInstance outcome" where
  "new_CloudUserInstance user totalUserInstance userNumber i n =
     and_then (new_UserInstance user userNumber i n) (\<lambda>u.
       let (g, ids, _) = fold (add_vm_reference (ui_id u) (getNumVms user)) (cu_virtualMachines user)
             (empty_gv, Map.empty, 0)
       in if length (flattened g) < length (ui_applications u)
          then Inl (RuntimeError ''There must be at least a VmInstance for each AppCollection'')
          else Inr (UserInstance.extend u
            (CloudUserInstance.fields (sint totalUserInstance)
              \<lparr>it_initTime = 0, it_arrival2Cloud = 0, it_initWaitTime = 0, it_waitTime = 0, it_initExec = 0,
               it_endTime = 0\<rparr> g ids 0 0 False False False None)))"

definition user_before :: "CloudUserInstance \<Rightarrow> CloudUserInstance \<Rightarrow> bool" where
  "user_before a b \<longleftrightarrow> it_arrival2Cloud (ci_times a) < it_arrival2Cloud (ci_times b)"

definition getTotalVMs :: "CloudUserInstance \<Rightarrow> nat" where
  "getTotalVMs u = length (flattened (ci_vmGroupedInstances u))"

definition allVmsFinished :: "CloudUserInstance \<Rightarrow> bool" where
  "allVmsFinished u \<longleftrightarrow> int (getTotalVMs u) \<le> ci_numFinishedVMs u"

definition isTimeout :: "CloudUserInstance \<Rightarrow> bool" where
  "isTimeout u \<longleftrightarrow> ci_timeout_t2 u \<or> ci_timeout_t4 u"

definition hasSubscribed :: "CloudUserInstance \<Rightarrow> bool outcome" where
  "hasSubscribed u = (case ci_subscribe u of Some b \<Rightarrow> Inr b | None \<Rightarrow> Inl (Undefined ''bSubscribe is indeterminate''))"

definition getVmInstanceState :: "string \<Rightarrow> CloudUserInstance \<Rightarrow> tVmState outcome" where
  "getVmInstanceState vmId u =
     (case ci_vmIdMap u vmId of
        Some i \<Rightarrow> if i < getTotalVMs u then Inr (vi_state (flattened (ci_vmGroupedInstances u) ! i)) else Inl OutOfRange
      | None \<Rightarrow> Inl OutOfRange)"

text \<open>The clock in seconds, \<open>simTime().inUnit(SIMTIME_S)\<close>, is the argument \<open>now\<close>.\<close>

definition startExecution :: "int \<Rightarrow> CloudUserInstance \<Rightarrow> CloudUserInstance" where
  "startExecution now u = u\<lparr>ci_times := (ci_times u)\<lparr>it_initExec := now\<rparr>\<rparr>"

definition startSubscription :: "int \<Rightarrow> CloudUserInstance \<Rightarrow> CloudUserInstance" where
  "startSubscription now u =
     (let u' = (if ci_numActiveSubscriptions u < 1
                then u\<lparr>ci_subscribe := Some True, ci_times := (ci_times u)\<lparr>it_initWaitTime := now\<rparr>\<rparr> else u)
      in u'\<lparr>ci_numActiveSubscriptions := ci_numActiveSubscriptions u' + 1\<rparr>)"

definition endSubscription :: "int \<Rightarrow> CloudUserInstance \<Rightarrow> CloudUserInstance" where
  "endSubscription now u =
     (let u' = u\<lparr>ci_numActiveSubscriptions := ci_numActiveSubscriptions u - 1\<rparr>; t = ci_times u
      in if ci_numActiveSubscriptions u' < 1
         then u'\<lparr>ci_times := t\<lparr>it_waitTime := (it_waitTime t + now) - it_initWaitTime t\<rparr>\<rparr> else u')"

definition user_finish :: "int \<Rightarrow> CloudUserInstance \<Rightarrow> CloudUserInstance" where
  "user_finish now u = u\<lparr>ci_times := (ci_times u)\<lparr>it_endTime := now\<rparr>, ci_finished := True\<rparr>"

definition finished_change :: "tVmState \<Rightarrow> tVmState \<Rightarrow> int \<Rightarrow> int" where
  "finished_change old new n =
     (if old \<noteq> vmFinished \<and> new = vmFinished then n + 1
      else if old = vmFinished \<and> new \<noteq> vmFinished then n - 1 else n)"

definition finish_if_done :: "int \<Rightarrow> CloudUserInstance \<Rightarrow> CloudUserInstance" where
  "finish_if_done now u = (if allVmsFinished u then user_finish now u else u)"

definition updateVmInstanceStatus :: "int \<Rightarrow> string \<Rightarrow> tVmState \<Rightarrow> CloudUserInstance \<Rightarrow> CloudUserInstance outcome" where
  "updateVmInstanceStatus now vmId st u =
     (case ci_vmIdMap u vmId of
        None \<Rightarrow> Inl OutOfRange
      | Some i \<Rightarrow>
          let g = ci_vmGroupedInstances u; xs = gv_elements g
          in if i < length xs
             then Inr (finish_if_done now (u\<lparr>
               ci_vmGroupedInstances := g\<lparr>gv_elements := xs[i := (xs ! i)\<lparr>vi_state := st\<rparr>]\<rparr>,
               ci_numFinishedVMs := finished_change (vi_state (xs ! i)) st (ci_numFinishedVMs u)\<rparr>))
             else Inl OutOfRange)"

definition updateAllVmInstances :: "int \<Rightarrow> tVmState \<Rightarrow> CloudUserInstance \<Rightarrow> CloudUserInstance" where
  "updateAllVmInstances now st u =
     (let g = ci_vmGroupedInstances u; xs = gv_elements g
      in finish_if_done now (u\<lparr>
           ci_vmGroupedInstances := g\<lparr>gv_elements := map (\<lambda>e. e\<lparr>vi_state := st\<rparr>) xs\<rparr>,
           ci_numFinishedVMs := fold (\<lambda>e. finished_change (vi_state e) st) xs (ci_numFinishedVMs u)\<rparr>))"

section \<open>Names are unambiguous\<close>

definition digits_value :: "string \<Rightarrow> nat" where
  "digits_value s = foldl (\<lambda>a c. 10 * a + (of_char c - 48)) 0 s"

lemma digits_value_show: "digits_value (show_nat n) = n"
proof (induction n rule: show_nat.induct)
  case (1 n)
  show ?case
  proof (cases "n < 10")
    case True
    then show ?thesis by (subst show_nat.simps) (simp add: digits_value_def of_char_of)
  next
    case False
    then have "digits_value (show_nat n) = 10 * digits_value (show_nat (n div 10)) + n mod 10"
      by (subst show_nat.simps) (simp add: digits_value_def of_char_of)
    with 1 False show ?thesis by simp
  qed
qed

lemma show_nat_inject: "show_nat m = show_nat n \<Longrightarrow> m = n"
  by (metis digits_value_show)

lemma last_number:
  assumes "\<not> is_digit c"
  shows "takeWhile is_digit (rev (pre @ c # show_nat n)) = rev (show_nat n)"
  using assms show_nat_digits [of _ n] by (simp add: takeWhile_append)

lemma is_digit_bracket: "\<not> is_digit CHR ''[''"
  by (simp add: is_digit_def)

lemma vm_ids_distinct:
  assumes "vi_id (new_VmInstance t k n) = vi_id (new_VmInstance t' k' n)" "0 \<le> k" "0 \<le> k'"
  shows "k = k'"
proof -
  have shape: "vi_id (new_VmInstance x j n) =
      ((vm_type (vt_base x) @ ''-'' @ vt_userId x @ ''-'') @ CHR ''['' # show_nat (nat (j + 1))) @ (''/'' @ show_int n @ '']'')"
    if "0 \<le> j" for x j
    using that by (simp add: new_VmInstance_def show_int_def)
  from assms have "(vm_type (vt_base t) @ ''-'' @ vt_userId t @ ''-'') @ CHR ''['' # show_nat (nat (k + 1)) =
      (vm_type (vt_base t') @ ''-'' @ vt_userId t' @ ''-'') @ CHR ''['' # show_nat (nat (k' + 1))"
    unfolding shape [OF assms(2)] shape [OF assms(3)] by (simp only: append_same_eq)
  then have "rev (show_nat (nat (k + 1))) = rev (show_nat (nat (k' + 1)))"
    by (metis last_number [of "CHR ''[''"] is_digit_bracket)
  then show ?thesis using assms(2,3) show_nat_inject by fastforce
qed

section \<open>The machines of a new user instance\<close>

definition building_ok :: "int \<Rightarrow> vm_building \<Rightarrow> bool" where
  "building_ok n = (\<lambda>(g, ids, k). gv_ok g \<and> k = int (length (flattened g)) \<and>
     (\<forall>j<length (flattened g). \<exists>type. flattened g ! j = new_VmInstance type (int j) n) \<and>
     (\<forall>v j. ids v = Some j \<longleftrightarrow> j < length (flattened g) \<and> vi_id (flattened g ! j) = v))"

lemma building_ok_start: "building_ok n (empty_gv, Map.empty, 0)"
  by (simp add: building_ok_def gv_ok_empty flattened_def) (simp add: empty_gv_def)

lemma add_vm_instance_ok:
  assumes "building_ok n (g, ids, k)" "groups g \<noteq> []"
  shows "building_ok n (add_vm_instance type n (g, ids, k))"
    and "groups (fst (add_vm_instance type n (g, ids, k))) = add_to_last (new_VmInstance type k n) (groups g)"
    and "snd (snd (add_vm_instance type n (g, ids, k))) = k + 1"
proof -
  let ?e = "new_VmInstance type k n" and ?f = "flattened g"
  have b: "gv_bounds g \<noteq> []" using assms(2) by (auto simp: groups_def)
  have ok: "gv_ok g" "k = int (length ?f)" "\<And>j. j < length ?f \<Longrightarrow> \<exists>type. ?f ! j = new_VmInstance type (int j) n"
    "\<And>v j. ids v = Some j \<longleftrightarrow> j < length ?f \<and> vi_id (?f ! j) = v"
    using assms(1) by (auto simp: building_ok_def)
  have f: "flattened (gv_push_back ?e g) = ?f @ [?e]" by (simp add: flattened_def gv_push_back_def)
  have new: "vi_id (?f ! j) \<noteq> vi_id ?e" if j: "j < length ?f" for j
  proof
    assume eq: "vi_id (?f ! j) = vi_id ?e"
    obtain t where "?f ! j = new_VmInstance t (int j) n" using ok(3) [OF j] by blast
    with vm_ids_distinct [of t "int j" n type k] eq ok(2) j show False by simp
  qed
  show "groups (fst (add_vm_instance type n (g, ids, k))) = add_to_last ?e (groups g)"
    using push_back_refines(2) [OF ok(1) b] by (simp add: add_vm_instance_def Let_def)
  show "snd (snd (add_vm_instance type n (g, ids, k))) = k + 1" by (simp add: add_vm_instance_def Let_def)
  have "\<exists>t. (?f @ [?e]) ! j = new_VmInstance t (int j) n" if "j < Suc (length ?f)" for j
    using ok(2,3) that by (cases "j = length ?f") (auto simp: nth_append)
  moreover have "(ids(vi_id ?e \<mapsto> length ?f)) v = Some j \<longleftrightarrow> j < Suc (length ?f) \<and> vi_id ((?f @ [?e]) ! j) = v" for v j
    using ok(4) new by (auto simp: nth_append less_Suc_eq)
  ultimately show "building_ok n (add_vm_instance type n (g, ids, k))"
    using ok(2) push_back_refines(1) [OF ok(1) b, of ?e] f by (simp add: building_ok_def add_vm_instance_def Let_def)
qed

lemma add_vm_instances_ok:
  assumes "building_ok n (g, ids, k)" "groups g = gs @ [(type, es)]"
  shows "case (add_vm_instance type n ^^ c) (g, ids, k) of (g', ids', k') \<Rightarrow>
    building_ok n (g', ids', k') \<and> k' = k + int c \<and>
    groups g' = gs @ [(type, es @ map (\<lambda>i. new_VmInstance type (k + int i) n) [0..<c])]"
proof (induction c)
  case (Suc c)
  obtain g' ids' k' where s: "(add_vm_instance type n ^^ c) (g, ids, k) = (g', ids', k')" by (metis prod_cases3)
  from add_vm_instance_ok [of n g' ids' k' type] Suc s show ?case
    by (cases "add_vm_instance type n (g', ids', k')") (auto simp: gv.add_to_last_snoc)
qed (use assms in simp)

fun machine_groups ::
  "string \<Rightarrow> int \<Rightarrow> int \<Rightarrow> (VirtualMachine \<times> int \<times> int) list \<Rightarrow> (VmInstanceType \<times> VmInstance list) list" where
  "machine_groups uid n k [] = []"
| "machine_groups uid n k ((base, instances, rent) # vms) =
     (let type = \<lparr>vt_userId = uid, vt_base = base, vt_rentingTime = of_int rent, vt_numInstances = instances\<rparr>
      in (type, map (\<lambda>i. new_VmInstance type (k + int i) n) [0..<nat instances]) #
         machine_groups uid n (k + int (nat instances)) vms)"

lemma add_vm_references_ok:
  assumes "building_ok n (g, ids, k)"
  shows "case fold (add_vm_reference uid n) vms (g, ids, k) of (g', ids', k') \<Rightarrow>
    building_ok n (g', ids', k') \<and> groups g' = groups g @ machine_groups uid n k vms"
  using assms
proof (induction vms arbitrary: g ids k)
  case (Cons vm vms)
  obtain base instances rent where vm: "vm = (base, instances, rent)" by (cases vm)
  let ?t = "\<lparr>vt_userId = uid, vt_base = base, vt_rentingTime = of_int rent, vt_numInstances = instances\<rparr>"
  have "gv_ok g" using Cons.prems by (simp add: building_ok_def)
  then have n: "building_ok n (new_collection ?t g, ids, k)" "groups (new_collection ?t g) = groups g @ [(?t, [])]"
    using new_collection_refines [of g ?t] Cons.prems by (auto simp: building_ok_def flattened_def new_collection_def)
  obtain g' ids' k' where s: "(add_vm_instance ?t n ^^ nat instances) (new_collection ?t g, ids, k) = (g', ids', k')"
    by (metis prod_cases3)
  have s': "building_ok n (g', ids', k')" "k' = k + int (nat instances)"
      "groups g' = groups g @ [(?t, map (\<lambda>i. new_VmInstance ?t (k + int i) n) [0..<nat instances])]"
    using add_vm_instances_ok [OF n, of "nat instances"] unfolding s prod.case append_Nil by blast+
  have "add_vm_reference uid n vm (g, ids, k) = (g', ids', k')" using s by (simp add: add_vm_reference_def vm Let_def)
  with Cons.IH [OF s'(1)] s' show ?case by (simp add: vm Let_def split: prod.splits)
qed simp

lemma new_CloudUserInstance_shape:
  assumes "new_CloudUserInstance user t un i n = Inr u"
  obtains ids k where "building_ok (getNumVms user) (ci_vmGroupedInstances u, ids, k)" "ci_vmIdMap u = ids"
    "groups (ci_vmGroupedInstances u) = machine_groups (ui_id u) (getNumVms user) 0 (cu_virtualMachines user)"
    "ui_id u = user_instance_id (us_type user) un i n" "ci_numFinishedVMs u = 0" "\<not> ci_finished u"
    "ci_numActiveSubscriptions u = 0" "it_waitTime (ci_times u) = 0"
proof -
  obtain u0 where u0: "new_UserInstance user un i n = Inr u0" using assms by (auto simp: new_CloudUserInstance_def and_then_eq_Inr)
  then have id0: "ui_id u0 = user_instance_id (us_type user) un i n"
    by (auto simp: new_UserInstance_def Let_def and_then_eq_Inr)
  obtain g ids k where f: "fold (add_vm_reference (ui_id u0) (getNumVms user)) (cu_virtualMachines user)
      (empty_gv, Map.empty, 0) = (g, ids, k)" by (metis prod_cases3)
  have e: "groups (empty_gv :: (VmInstanceType, VmInstance) group_vector) = []"
    by (simp add: groups_def empty_gv_def)
  have ok: "building_ok (getNumVms user) (g, ids, k)"
      "groups g = machine_groups (ui_id u0) (getNumVms user) 0 (cu_virtualMachines user)"
    using add_vm_references_ok [OF building_ok_start, of "getNumVms user" "ui_id u0" "cu_virtualMachines user"]
    unfolding f prod.case e by simp_all
  have "ci_vmGroupedInstances u = g \<and> ci_vmIdMap u = ids \<and> ui_id u = ui_id u0 \<and> ci_numFinishedVMs u = 0 \<and>
      \<not> ci_finished u \<and> ci_numActiveSubscriptions u = 0 \<and> it_waitTime (ci_times u) = 0"
    using assms u0 f by (auto simp: new_CloudUserInstance_def UserInstance.defs CloudUserInstance.defs split: if_splits)
  with ok id0 that [of ids k] show thesis by simp
qed

text \<open>A new user instance owns, for every machine reference of its user, one group with as many idle
  machines as the reference asks for, numbered consecutively over all references; and the map from
  machine ids to positions is exact: it finds every machine at its position, and nothing else.
\<close>

theorem new_user_machines:
  assumes "new_CloudUserInstance user t un i n = Inr u"
  shows "groups (ci_vmGroupedInstances u) = machine_groups (ui_id u) (getNumVms user) 0 (cu_virtualMachines user) \<and>
    (\<forall>v j. ci_vmIdMap u v = Some j \<longleftrightarrow> j < getTotalVMs u \<and> vi_id (flattened (ci_vmGroupedInstances u) ! j) = v) \<and>
    (\<forall>j<getTotalVMs u. vi_instanceNumber (flattened (ci_vmGroupedInstances u) ! j) = int j \<and>
       getVmInstanceState (vi_id (flattened (ci_vmGroupedInstances u) ! j)) u = Inr vmIdle)"
proof -
  obtain ids k where s: "building_ok (getNumVms user) (ci_vmGroupedInstances u, ids, k)" "ci_vmIdMap u = ids"
    "groups (ci_vmGroupedInstances u) = machine_groups (ui_id u) (getNumVms user) 0 (cu_virtualMachines user)"
    using new_CloudUserInstance_shape [OF assms] by metis
  then have b: "\<And>j. j < getTotalVMs u \<Longrightarrow> \<exists>type. flattened (ci_vmGroupedInstances u) ! j = new_VmInstance type (int j) (getNumVms user)"
    and m: "\<And>v j. ids v = Some j \<longleftrightarrow> j < getTotalVMs u \<and> vi_id (flattened (ci_vmGroupedInstances u) ! j) = v"
    by (auto simp: building_ok_def getTotalVMs_def)
  have "vi_instanceNumber (flattened (ci_vmGroupedInstances u) ! j) = int j \<and>
      getVmInstanceState (vi_id (flattened (ci_vmGroupedInstances u) ! j)) u = Inr vmIdle" if j: "j < getTotalVMs u" for j
  proof -
    obtain ty where ty: "flattened (ci_vmGroupedInstances u) ! j = new_VmInstance ty (int j) (getNumVms user)"
      using b [OF j] by blast
    have "ids (vi_id (flattened (ci_vmGroupedInstances u) ! j)) = Some j" using m j by blast
    then show ?thesis using j ty s(2) by (simp add: getVmInstanceState_def new_VmInstance_def)
  qed
  with s m show ?thesis by blast
qed

section \<open>Finished machines and waiting time\<close>

datatype user_event = SetState string tVmState | SetAll tVmState

fun user_run :: "(int \<times> user_event) list \<Rightarrow> CloudUserInstance \<Rightarrow> CloudUserInstance outcome" where
  "user_run [] u = Inr u"
| "user_run ((now, SetState v st) # es) u = and_then (updateVmInstanceStatus now v st u) (user_run es)"
| "user_run ((now, SetAll st) # es) u = user_run es (updateAllVmInstances now st u)"

definition finished_count :: "VmInstance list \<Rightarrow> int" where
  "finished_count xs = int (length (filter (\<lambda>e. vi_state e = vmFinished) xs))"

definition counts_ok :: "CloudUserInstance \<Rightarrow> bool" where
  "counts_ok u \<longleftrightarrow> ci_numFinishedVMs u = finished_count (gv_elements (ci_vmGroupedInstances u))"

lemma finished_count_Cons:
  "finished_count (x # xs) = (if vi_state x = vmFinished then 1 else 0) + finished_count xs"
  by (simp add: finished_count_def)

lemma finished_count_update:
  "i < length xs \<Longrightarrow>
     finished_count (xs[i := (xs ! i)\<lparr>vi_state := st\<rparr>]) = finished_change (vi_state (xs ! i)) st (finished_count xs)"
proof (induction xs arbitrary: i)
  case (Cons x xs)
  then show ?case by (cases i) (auto simp: finished_count_Cons finished_change_def)
qed simp

lemma finished_count_all:
  "fold (\<lambda>e. finished_change (vi_state e) st) xs (finished_count xs + k) =
     finished_count (map (\<lambda>e. e\<lparr>vi_state := st\<rparr>) xs) + k"
proof (induction xs arbitrary: k)
  case (Cons x xs)
  have "finished_change (vi_state x) st (finished_count (x # xs) + k) =
      finished_count xs + (k + (if st = vmFinished then 1 else 0))"
    by (auto simp: finished_change_def finished_count_Cons)
  with Cons.IH [of "k + (if st = vmFinished then 1 else 0)"] show ?case by (simp add: finished_count_Cons)
qed (simp add: finished_count_def)

lemma finish_if_done_simps [simp]:
  "ci_vmGroupedInstances (finish_if_done now u) = ci_vmGroupedInstances u"
  "ci_numFinishedVMs (finish_if_done now u) = ci_numFinishedVMs u"
  by (simp_all add: finish_if_done_def user_finish_def)

lemma finish_if_done_flag: "allVmsFinished (finish_if_done now u) \<longrightarrow> ci_finished (finish_if_done now u)"
  by (simp add: finish_if_done_def user_finish_def)

lemma update_counts:
  assumes "updateVmInstanceStatus now v st u = Inr u'" "counts_ok u"
  shows "counts_ok u' \<and> (allVmsFinished u' \<longrightarrow> ci_finished u')"
  using assms
  by (auto simp: updateVmInstanceStatus_def counts_ok_def Let_def finished_count_update
      split: option.splits if_splits dest: finish_if_done_flag [rule_format])

lemma update_all_counts:
  assumes "counts_ok u"
  shows "counts_ok (updateAllVmInstances now st u) \<and>
    (allVmsFinished (updateAllVmInstances now st u) \<longrightarrow> ci_finished (updateAllVmInstances now st u))"
  using assms finished_count_all [of st "gv_elements (ci_vmGroupedInstances u)" 0]
  by (auto simp: updateAllVmInstances_def counts_ok_def Let_def dest: finish_if_done_flag [rule_format])

lemma user_run_counts:
  "user_run es u = Inr u' \<Longrightarrow> counts_ok u \<Longrightarrow>
     counts_ok u' \<and> (es \<noteq> [] \<longrightarrow> allVmsFinished u' \<longrightarrow> ci_finished u')"
proof (induction es u rule: user_run.induct)
  case (2 now v st es u)
  then obtain u1 where u1: "updateVmInstanceStatus now v st u = Inr u1" "user_run es u1 = Inr u'"
    by (auto simp: and_then_eq_Inr)
  with 2 update_counts [OF u1(1)] show ?case by (cases es) auto
next
  case (3 now st es u)
  with update_all_counts [of u now st] show ?case by (cases es) auto
qed auto

lemma counts_finished:
  assumes "counts_ok u"
  shows "allVmsFinished u \<longleftrightarrow> (\<forall>e\<in>set (flattened (ci_vmGroupedInstances u)). vi_state e = vmFinished)"
proof -
  have "length (filter P xs) \<ge> length xs \<longleftrightarrow> (\<forall>x\<in>set xs. P x)" for P and xs :: "VmInstance list"
    by (metis filter_id_conv le_antisym length_filter_le length_filter_less nat_less_le)
  then show ?thesis using assms
    by (simp add: counts_ok_def allVmsFinished_def getTotalVMs_def flattened_def finished_count_def)
qed

lemma new_counts_ok:
  assumes "new_CloudUserInstance user t un i n = Inr u" shows "counts_ok u"
proof -
  obtain ids k where s: "building_ok (getNumVms user) (ci_vmGroupedInstances u, ids, k)" "ci_numFinishedVMs u = 0"
    using new_CloudUserInstance_shape [OF assms] by metis
  then have "vi_state e = vmIdle" if "e \<in> set (gv_elements (ci_vmGroupedInstances u))" for e
    using that by (auto simp: building_ok_def flattened_def in_set_conv_nth new_VmInstance_def)
  then have "filter (\<lambda>e. vi_state e = vmFinished) (gv_elements (ci_vmGroupedInstances u)) = []"
    by (auto simp: filter_empty_conv)
  with s(2) show ?thesis by (simp add: counts_ok_def finished_count_def)
qed

text \<open>The counter of finished machines is exact: whatever states a user's machines are given, in
  whatever order and however often, the user counts as done exactly when every machine is finished,
  and is then marked as finished.
\<close>

theorem finished_exactly:
  assumes "new_CloudUserInstance user t un i n = Inr u0" "user_run es u0 = Inr u"
  shows "(allVmsFinished u \<longleftrightarrow> (\<forall>e\<in>set (flattened (ci_vmGroupedInstances u)). vi_state e = vmFinished)) \<and>
    (es \<noteq> [] \<and> allVmsFinished u \<longrightarrow> ci_finished u)"
  using user_run_counts [OF assms(2) new_counts_ok [OF assms(1)]] counts_finished by blast

datatype sub_event = Subscribe | Unsubscribe

fun sub_run :: "(int \<times> sub_event) list \<Rightarrow> CloudUserInstance \<Rightarrow> CloudUserInstance" where
  "sub_run [] u = u"
| "sub_run ((now, Subscribe) # es) u = sub_run es (startSubscription now u)"
| "sub_run ((now, Unsubscribe) # es) u = sub_run es (endSubscription now u)"

text \<open>The time during which at least one subscription was open, of \<open>k\<close> open ones at time \<open>since\<close>.\<close>

fun waited :: "nat \<Rightarrow> int \<Rightarrow> (int \<times> sub_event) list \<Rightarrow> int" where
  "waited k since [] = 0"
| "waited k since ((now, e) # es) =
     (if k > 0 then now - since else 0) + waited (case e of Subscribe \<Rightarrow> k + 1 | Unsubscribe \<Rightarrow> k - 1) now es"

text \<open>Every subscription that ends was open, and all have ended.\<close>

fun all_closed :: "nat \<Rightarrow> (int \<times> sub_event) list \<Rightarrow> bool" where
  "all_closed k [] \<longleftrightarrow> k = 0"
| "all_closed k ((_, Subscribe) # es) \<longleftrightarrow> all_closed (k + 1) es"
| "all_closed k ((_, Unsubscribe) # es) \<longleftrightarrow> k > 0 \<and> all_closed (k - 1) es"

lemma sub_run_waited:
  "all_closed k es \<Longrightarrow> ci_numActiveSubscriptions u = int k \<Longrightarrow>
     it_waitTime (ci_times (sub_run es u)) =
       it_waitTime (ci_times u) + (if k > 0 then since - it_initWaitTime (ci_times u) else 0) + waited k since es"
proof (induction k es arbitrary: u since rule: all_closed.induct)
  case (2 k now es)
  from 2(1) [of "startSubscription now u" now] 2(2,3) show ?case
    by (cases "k = 0") (auto simp: startSubscription_def Let_def)
next
  case (3 k now es)
  from 3(1) [of "endSubscription now u" now] 3(2,3) show ?case
    by (cases "k = 1") (auto simp: endSubscription_def Let_def)
qed simp

text \<open>The waiting time recorded for a user is the time during which at least one of its
  subscriptions was open, however the subscriptions overlap.
\<close>

theorem waiting_time_exact:
  assumes "new_CloudUserInstance user t un i n = Inr u" "all_closed 0 es"
  shows "it_waitTime (ci_times (sub_run es u)) = waited 0 0 es"
  using new_CloudUserInstance_shape [OF assms(1)] sub_run_waited [OF assms(2), of u 0] by fastforce

section \<open>A concrete user\<close>

definition sample_vm :: VirtualMachine where
  "sample_vm = \<lparr>vm_type = ''small'', vm_numCores = 2, vm_diskMiB = 100, vm_memoryMiB = 100, vm_cost = 0, vm_scu = 0\<rparr>"

definition sample_user :: CloudUserPriority where
  "sample_user = insertVirtualMachine sample_vm 2 3 (new_CloudUserPriority ''bob'' 1 Regular ''gold'')"

lemma sample_instance: "\<exists>u. new_CloudUserInstance sample_user 0 0 0 1 = Inr u \<and> getTotalVMs u = 2"
  by (simp add: new_CloudUserInstance_def new_UserInstance_def sample_user_def new_CloudUserPriority_def
      insertVirtualMachine_def getNumVms_def Let_def add_vm_reference_def numeral_2_eq_2 add_vm_instance_def
      gv_push_back_def new_collection_def flattened_def getTotalVMs_def UserInstance.defs CloudUserInstance.defs
      empty_gv_def)

theorem new_user_machines_witness:
  "\<exists>u. new_CloudUserInstance sample_user 0 0 0 1 = Inr u \<and>
     getVmInstanceState (vi_id (flattened (ci_vmGroupedInstances u) ! 1)) u = Inr vmIdle"
proof -
  obtain u where u: "new_CloudUserInstance sample_user 0 0 0 1 = Inr u" "getTotalVMs u = 2" using sample_instance by blast
  from new_user_machines [OF u(1)] u show ?thesis by auto
qed

theorem finished_exactly_witness:
  "\<exists>u u'. new_CloudUserInstance sample_user 0 0 0 1 = Inr u \<and> user_run [(7, SetAll vmFinished)] u = Inr u' \<and>
     ci_finished u'"
proof -
  obtain u where u: "new_CloudUserInstance sample_user 0 0 0 1 = Inr u" using sample_instance by blast
  let ?u' = "updateAllVmInstances 7 vmFinished u"
  have r: "user_run [(7, SetAll vmFinished)] u = Inr ?u'" by simp
  have "\<forall>e\<in>set (flattened (ci_vmGroupedInstances ?u')). vi_state e = vmFinished"
    by (simp add: updateAllVmInstances_def Let_def flattened_def)
  with finished_exactly [OF u r] u r show ?thesis by blast
qed

theorem waiting_time_exact_witness:
  "\<exists>u. new_CloudUserInstance sample_user 0 0 0 1 = Inr u \<and>
     it_waitTime (ci_times (sub_run [(2, Subscribe), (5, Subscribe), (9, Unsubscribe), (12, Unsubscribe)] u)) = 10"
proof -
  obtain u where u: "new_CloudUserInstance sample_user 0 0 0 1 = Inr u" using sample_instance by blast
  from waiting_time_exact [OF u, of "[(2, Subscribe), (5, Subscribe), (9, Unsubscribe), (12, Unsubscribe)]"] u
  show ?thesis by auto
qed

end
