(* ===== verification/DataManager.thy ===== *)
theory DataManager
  imports Users
begin

text \<open>
  The simulation's catalogue: the repository of definitions (\<open>core/simdata/DataRepository\<close>), the
  engine that fills it from the JSON-like module parameters (\<open>engine/JsonDataEngine\<close>) and the data
  manager the other modules query (\<open>DataManager\<close>).  A parameter object is the list of its fields as
  the simulation library has parsed them; the \<open>double\<close> amounts are rationals.
\<close>

section \<open>The repository\<close>

record DataRepository =
  appMap :: "(string \<times> Application) list"
  vmMap :: "(string \<times> VirtualMachine) list"
  slaMap :: "(string \<times> Sla) list"
  userMap :: "(string \<times> CloudUserPriority) list"   \<comment> \<open>\<open>std::map\<close>s, in key order\<close>

definition empty_repository :: DataRepository where
  "empty_repository = \<lparr>appMap = [], vmMap = [], slaMap = [], userMap = []\<rparr>"

definition findInMapOrNull :: "(string \<times> 'a) list \<Rightarrow> string \<Rightarrow> 'a option" where
  "findInMapOrNull m name = map_of m name"

text \<open>\<open>insertInMap\<close>: \<open>emplace\<close> does not replace, and a name that is taken is an error.\<close>

definition emplace_new :: "string \<Rightarrow> 'a \<Rightarrow> (string \<times> 'a) list \<Rightarrow> (string \<times> 'a) list outcome" where
  "emplace_new name x m =
     (if map_of m name = None then Inr (map_at name x (\<lambda>y. y) m)
      else Inl (RuntimeError ''Error while inserting in DataRepository''))"

definition insert_app :: "string \<Rightarrow> Application \<Rightarrow> DataRepository \<Rightarrow> DataRepository outcome" where
  "insert_app name x r = and_then (emplace_new name x (appMap r)) (\<lambda>m. Inr (r\<lparr>appMap := m\<rparr>))"

definition insert_vm :: "string \<Rightarrow> VirtualMachine \<Rightarrow> DataRepository \<Rightarrow> DataRepository outcome" where
  "insert_vm name x r = and_then (emplace_new name x (vmMap r)) (\<lambda>m. Inr (r\<lparr>vmMap := m\<rparr>))"

definition insert_sla :: "string \<Rightarrow> Sla \<Rightarrow> DataRepository \<Rightarrow> DataRepository outcome" where
  "insert_sla name x r = and_then (emplace_new name x (slaMap r)) (\<lambda>m. Inr (r\<lparr>slaMap := m\<rparr>))"

definition insert_user :: "string \<Rightarrow> CloudUserPriority \<Rightarrow> DataRepository \<Rightarrow> DataRepository outcome" where
  "insert_user name x r = and_then (emplace_new name x (userMap r)) (\<lambda>m. Inr (r\<lparr>userMap := m\<rparr>))"

section \<open>The JSON engine\<close>

record JsonApp =
  ja_name :: string
  ja_model :: string
  ja_package :: string
  ja_parameters :: "(string \<times> string) list"

record JsonVm =
  jv_name :: string
  jv_cost :: rat
  jv_cores :: int
  jv_scu :: rat
  jv_memory :: rat
  jv_disk :: rat

record JsonSla =
  js_name :: string
  js_bindings :: "(string \<times> rat \<times> rat \<times> rat \<times> rat) list"   \<comment> \<open>name, cost, increase, discount, compensation\<close>

record JsonUser =
  ju_priority :: bool
  ju_sla_id :: string
  ju_apps :: "(string \<times> int) list"
  ju_vms :: "(string \<times> int \<times> int) list"

record JsonConfig =
  jc_checkConsistency :: bool
  jc_apps :: "JsonApp list"
  jc_vms :: "JsonVm list"
  jc_slas :: "JsonSla list"
  jc_users :: "string \<Rightarrow> JsonUser option"
  jc_experiments :: "string \<Rightarrow> (string \<times> int) list option"

definition load_app :: "JsonApp \<Rightarrow> DataRepository \<Rightarrow> DataRepository outcome" where
  "load_app d r = insert_app (ja_name d)
     (fold (\<lambda>(k, v). insertParameter k v) (ja_parameters d)
        (new_Application (ja_name d) (ja_model d) (ja_package d))) r"

definition loadApps :: "JsonConfig \<Rightarrow> DataRepository \<Rightarrow> DataRepository outcome" where
  "loadApps c = for_each load_app (jc_apps c)"

text \<open>\<open>uint32_t(std::ceil(g * 1024))\<close>: a value outside the range of the type is undefined.\<close>

definition toMiB :: "rat \<Rightarrow> u32 outcome" where
  "toMiB g = (let n = \<lceil>g * 1024\<rceil>
     in if 0 \<le> n \<and> n < 2 ^ 32 then Inr (of_int n) else Inl (Undefined ''uint32_t out of range''))"

definition load_vm :: "JsonVm \<Rightarrow> DataRepository \<Rightarrow> DataRepository outcome" where
  "load_vm d r =
     and_then (toMiB (jv_disk d)) (\<lambda>diskMiB.
       and_then (toMiB (jv_memory d)) (\<lambda>memoryMiB.
         insert_vm (jv_name d) \<lparr>vm_type = jv_name d, vm_numCores = of_int (jv_cores d), vm_diskMiB = diskMiB,
           vm_memoryMiB = memoryMiB, vm_cost = jv_cost d, vm_scu = jv_scu d\<rparr> r))"

definition loadVms :: "JsonConfig \<Rightarrow> DataRepository \<Rightarrow> DataRepository outcome" where
  "loadVms c = for_each load_vm (jc_vms c)"

definition bind_vm ::
  "bool \<Rightarrow> DataRepository \<Rightarrow> string \<times> rat \<times> rat \<times> rat \<times> rat \<Rightarrow> Sla \<Rightarrow> Sla outcome" where
  "bind_vm checkConsistency r = (\<lambda>(name, b, i, d, c) sla.
     if checkConsistency \<and> findInMapOrNull (vmMap r) name = None
     then Inl (RuntimeError ''Cross reference integrity check failed'')
     else Inr (addVmCost name b i d c sla))"

definition load_sla :: "bool \<Rightarrow> JsonSla \<Rightarrow> DataRepository \<Rightarrow> DataRepository outcome" where
  "load_sla check d r =
     and_then (insert_sla (js_name d) (new_Sla (js_name d)) r) (\<lambda>_.
       and_then (for_each (bind_vm check r) (js_bindings d) (new_Sla (js_name d))) (\<lambda>sla.
         insert_sla (js_name d) sla r))"

definition loadSlas :: "JsonConfig \<Rightarrow> DataRepository \<Rightarrow> DataRepository outcome" where
  "loadSlas c = for_each (load_sla (jc_checkConsistency c)) (jc_slas c)"

definition engine_initialize :: "JsonConfig \<Rightarrow> DataRepository outcome" where
  "engine_initialize c =
     and_then (loadVms c empty_repository) (\<lambda>r. and_then (loadSlas c r) (loadApps c))"

definition add_user_app :: "DataRepository \<Rightarrow> string \<times> int \<Rightarrow> CloudUserPriority \<Rightarrow> CloudUserPriority outcome" where
  "add_user_app r = (\<lambda>(name, n) u.
     case findInMapOrNull (appMap r) name of
       None \<Rightarrow> Inl (RuntimeError ''User has an app that does not exist'')
     | Some app \<Rightarrow> Inr (insertApplication (Some app) n u))"

definition add_user_vm :: "DataRepository \<Rightarrow> string \<times> int \<times> int \<Rightarrow> CloudUserPriority \<Rightarrow> CloudUserPriority outcome" where
  "add_user_vm r = (\<lambda>(name, n, rent) u.
     case findInMapOrNull (vmMap r) name of
       None \<Rightarrow> Inl (RuntimeError ''User has an vm that does not exist'')
     | Some vm \<Rightarrow> Inr (insertVirtualMachine vm n rent u))"

definition load_user :: "JsonConfig \<Rightarrow> string \<times> int \<Rightarrow> DataRepository \<Rightarrow> DataRepository outcome" where
  "load_user c = (\<lambda>(name, n) r.
     case jc_users c name of
       None \<Rightarrow> Inl (RuntimeError ''no such key'')
     | Some d \<Rightarrow>
         let u = new_CloudUserPriority name n (if ju_priority d then Priority else Regular) (ju_sla_id d)
         in and_then (insert_user name u r) (\<lambda>_.
              and_then (for_each (add_user_app r) (ju_apps d) u) (\<lambda>u.
                and_then (for_each (add_user_vm r) (ju_vms d) u) (\<lambda>u. insert_user name u r))))"

definition loadUsersInExperiment :: "JsonConfig \<Rightarrow> string \<Rightarrow> DataRepository \<Rightarrow> DataRepository outcome" where
  "loadUsersInExperiment c experiment r =
     (case jc_experiments c experiment of
        None \<Rightarrow> Inl (RuntimeError ''no such key'')
      | Some users \<Rightarrow> for_each (load_user c) users r)"

text \<open>A search of the JSON engine finds nothing that is not loaded.\<close>

definition json_search :: "string \<Rightarrow> 'a option" where
  "json_search name = None"

section \<open>The data manager\<close>

definition manager_search :: "(string \<times> 'a) list \<Rightarrow> (string \<Rightarrow> 'a option) \<Rightarrow> string \<Rightarrow> 'a option" where
  "manager_search m engine name =
     (case findInMapOrNull m name of Some d \<Rightarrow> Some d | None \<Rightarrow> engine name)"

definition searchApp :: "DataRepository \<Rightarrow> string \<Rightarrow> Application option" where
  "searchApp r = manager_search (appMap r) json_search"

definition searchVm :: "DataRepository \<Rightarrow> string \<Rightarrow> VirtualMachine option" where
  "searchVm r = manager_search (vmMap r) json_search"

definition searchSla :: "DataRepository \<Rightarrow> string \<Rightarrow> Sla option" where
  "searchSla r = manager_search (slaMap r) json_search"

definition searchUser :: "DataRepository \<Rightarrow> string \<Rightarrow> CloudUserPriority option" where
  "searchUser r = manager_search (userMap r) json_search"

definition getSimUsers ::
  "JsonConfig \<Rightarrow> string \<Rightarrow> DataRepository \<Rightarrow> (CloudUserPriority list \<times> DataRepository) outcome" where
  "getSimUsers c experiment r =
     and_then (loadUsersInExperiment c experiment r) (\<lambda>r. Inr (map snd (userMap r), r))"

section \<open>What the catalogue promises\<close>

definition vms_ok :: "DataRepository \<Rightarrow> bool" where
  "vms_ok r \<longleftrightarrow> (\<forall>k v. map_of (vmMap r) k = Some v \<longrightarrow> vm_type v = k) \<and>
     (\<forall>k a. map_of (appMap r) k = Some a \<longrightarrow> ap_name a = k) \<and>
     map_ordered (vmMap r) \<and> map_ordered (appMap r) \<and> map_ordered (slaMap r) \<and> map_ordered (userMap r)"

lemma emplace_new_Inr:
  assumes "emplace_new name x m = Inr m'" "map_ordered m"
  shows "map_ordered m'" and "map_of m name = None" and "map_of m' = (map_of m)(name \<mapsto> x)"
  using assms map_at_ordered [OF assms(2)] map_of_map_at [OF assms(2), of name x "\<lambda>y. y"]
  by (auto simp: emplace_new_def split: if_splits)

lemma fold_insertParameter_name:
  "ap_name (fold (\<lambda>(k, v). insertParameter k v) ps a) = ap_name a"
  by (induction ps arbitrary: a) (auto simp: insertParameter_def)

lemma vms_ok_empty: "vms_ok empty_repository"
  by (simp add: vms_ok_def empty_repository_def map_ordered_def)

lemma load_vm_ok: "load_vm d r = Inr r' \<Longrightarrow> vms_ok r \<Longrightarrow> vms_ok r' \<and> userMap r' = userMap r"
  using emplace_new_Inr
  by (fastforce simp: load_vm_def insert_vm_def and_then_eq_Inr vms_ok_def split: if_splits)

lemma load_sla_ok: "load_sla b d r = Inr r' \<Longrightarrow> vms_ok r \<Longrightarrow> vms_ok r' \<and> userMap r' = userMap r"
  using emplace_new_Inr(1) by (fastforce simp: load_sla_def insert_sla_def and_then_eq_Inr vms_ok_def)

lemma load_app_ok: "load_app d r = Inr r' \<Longrightarrow> vms_ok r \<Longrightarrow> vms_ok r' \<and> userMap r' = userMap r"
  using emplace_new_Inr
  by (fastforce simp: load_app_def insert_app_def and_then_eq_Inr vms_ok_def fold_insertParameter_name
      new_Application_def split: if_splits)

lemma engine_initialize_ok:
  assumes "engine_initialize c = Inr r" shows "vms_ok r" "userMap r = []"
proof -
  obtain r1 r2 where r: "loadVms c empty_repository = Inr r1" "loadSlas c r1 = Inr r2" "loadApps c r2 = Inr r"
    using assms by (auto simp: engine_initialize_def and_then_eq_Inr)
  let ?I = "\<lambda>r. vms_ok r \<and> userMap r = []"
  have "?I r1"
    by (rule for_each_invariant [OF r(1) [unfolded loadVms_def]])
      (use vms_ok_empty load_vm_ok in \<open>auto simp: empty_repository_def\<close>)
  then have "?I r2" by (rule for_each_invariant [OF r(2) [unfolded loadSlas_def]]) (use load_sla_ok in auto)
  then have "?I r" by (rule for_each_invariant [OF r(3) [unfolded loadApps_def]]) (use load_app_ok in auto)
  then show "vms_ok r" "userMap r = []" by auto
qed

text \<open>What a user definition of the parameters becomes.\<close>

definition user_as_declared :: "JsonConfig \<Rightarrow> DataRepository \<Rightarrow> string \<times> int \<Rightarrow> CloudUserPriority \<Rightarrow> bool" where
  "user_as_declared c r = (\<lambda>(name, n) u. \<exists>d. jc_users c name = Some d \<and>
     us_type u = name \<and> us_numInstances u = n \<and> cp_sla u = ju_sla_id d \<and>
     cp_priorityType u = (if ju_priority d then Priority else Regular) \<and>
     map (\<lambda>(vm, k, t). (vm_type vm, k, t)) (cu_virtualMachines u) = ju_vms d \<and>
     map (\<lambda>(app, k). (map_option ap_name app, k)) (us_applications u) = map (\<lambda>(a, k). (Some a, k)) (ju_apps d) \<and>
     (\<forall>(vm, k, t)\<in>set (cu_virtualMachines u). searchVm r (vm_type vm) = Some vm) \<and>
     (\<forall>(app, k)\<in>set (us_applications u). \<exists>a. app = Some a \<and> searchApp r (ap_name a) = Some a))"

lemma add_user_apps:
  assumes "for_each (add_user_app r) ps u = Inr u'" "vms_ok r"
  shows "\<exists>new. u' = u\<lparr>us_applications := us_applications u @ new\<rparr> \<and>
    map (\<lambda>(app, k). (map_option ap_name app, k)) new = map (\<lambda>(a, k). (Some a, k)) ps \<and>
    (\<forall>(app, k)\<in>set new. \<exists>a. app = Some a \<and> searchApp r (ap_name a) = Some a)"
  using assms(1)
proof (induction ps arbitrary: u)
  case Nil
  then show ?case by (intro exI [of _ "[]"]) simp
next
  case (Cons x ps)
  obtain name n where x: "x = (name, n)" by (cases x)
  then obtain app where app: "map_of (appMap r) name = Some app"
      "for_each (add_user_app r) ps (insertApplication (Some app) n u) = Inr u'"
    using Cons.prems by (auto simp: and_then_eq_Inr add_user_app_def findInMapOrNull_def split: option.splits)
  obtain new where new: "u' = insertApplication (Some app) n u\<lparr>us_applications :=
        us_applications (insertApplication (Some app) n u) @ new\<rparr>"
      "map (\<lambda>(app, k). (map_option ap_name app, k)) new = map (\<lambda>(a, k). (Some a, k)) ps"
      "\<forall>(app, k)\<in>set new. \<exists>a. app = Some a \<and> searchApp r (ap_name a) = Some a"
    using Cons.IH [OF app(2)] by blast
  have "ap_name app = name" using app(1) assms(2) by (simp add: vms_ok_def)
  then show ?case using new app(1)
    by (intro exI [of _ "(Some app, n) # new"])
      (auto simp: x insertApplication_def searchApp_def manager_search_def findInMapOrNull_def)
qed

lemma add_user_vms:
  assumes "for_each (add_user_vm r) ps u = Inr u'" "vms_ok r"
  shows "\<exists>new. u' = u\<lparr>cu_virtualMachines := cu_virtualMachines u @ new\<rparr> \<and>
    map (\<lambda>(vm, k, t). (vm_type vm, k, t)) new = ps \<and>
    (\<forall>(vm, k, t)\<in>set new. searchVm r (vm_type vm) = Some vm)"
  using assms(1)
proof (induction ps arbitrary: u)
  case Nil
  then show ?case by (intro exI [of _ "[]"]) simp
next
  case (Cons x ps)
  obtain name n t where x: "x = (name, n, t)" by (cases x)
  then obtain vm where vm: "map_of (vmMap r) name = Some vm"
      "for_each (add_user_vm r) ps (insertVirtualMachine vm n t u) = Inr u'"
    using Cons.prems by (auto simp: and_then_eq_Inr add_user_vm_def findInMapOrNull_def split: option.splits)
  obtain new where new: "u' = insertVirtualMachine vm n t u\<lparr>cu_virtualMachines :=
        cu_virtualMachines (insertVirtualMachine vm n t u) @ new\<rparr>"
      "map (\<lambda>(vm, k, t). (vm_type vm, k, t)) new = ps"
      "\<forall>(vm, k, t)\<in>set new. searchVm r (vm_type vm) = Some vm"
    using Cons.IH [OF vm(2)] by blast
  have "vm_type vm = name" using vm(1) assms(2) by (simp add: vms_ok_def)
  then show ?case using new vm(1)
    by (intro exI [of _ "(vm, n, t) # new"])
      (auto simp: x insertVirtualMachine_def searchVm_def manager_search_def findInMapOrNull_def)
qed

lemma load_user_declared:
  assumes "load_user c (name, n) r = Inr r'" "vms_ok r"
  shows "\<exists>u. user_as_declared c r (name, n) u \<and> map_of (userMap r) name = None \<and> vms_ok r' \<and>
    map_of (userMap r') = (map_of (userMap r))(name \<mapsto> u) \<and> vmMap r' = vmMap r \<and> appMap r' = appMap r"
proof -
  obtain d where d: "jc_users c name = Some d" using assms(1) by (auto simp: load_user_def split: option.splits)
  let ?u = "new_CloudUserPriority name n (if ju_priority d then Priority else Regular) (ju_sla_id d)"
  obtain u1 u2 where 1: "for_each (add_user_app r) (ju_apps d) ?u = Inr u1"
    and 2: "for_each (add_user_vm r) (ju_vms d) u1 = Inr u2" and 3: "insert_user name u2 r = Inr r'"
    using assms(1) d by (auto simp: load_user_def and_then_eq_Inr Let_def)
  obtain as where as: "u1 = ?u\<lparr>us_applications := us_applications ?u @ as\<rparr>"
      "map (\<lambda>(app, k). (map_option ap_name app, k)) as = map (\<lambda>(a, k). (Some a, k)) (ju_apps d)"
      "\<forall>(app, k)\<in>set as. \<exists>a. app = Some a \<and> searchApp r (ap_name a) = Some a"
    using add_user_apps [OF 1 assms(2)] by blast
  obtain vs where vs: "u2 = u1\<lparr>cu_virtualMachines := cu_virtualMachines u1 @ vs\<rparr>"
      "map (\<lambda>(vm, k, t). (vm_type vm, k, t)) vs = ju_vms d"
      "\<forall>(vm, k, t)\<in>set vs. searchVm r (vm_type vm) = Some vm"
    using add_user_vms [OF 2 assms(2)] by blast
  have "user_as_declared c r (name, n) u2"
    using d as vs by (simp add: user_as_declared_def new_CloudUserPriority_def)
  moreover obtain m where m: "emplace_new name u2 (userMap r) = Inr m" "r' = r\<lparr>userMap := m\<rparr>"
    using 3 by (auto simp: insert_user_def and_then_eq_Inr)
  moreover have "map_ordered (userMap r)" using assms(2) by (simp add: vms_ok_def)
  ultimately show ?thesis
    using emplace_new_Inr [OF m(1)] assms(2) by (intro exI [of _ u2]) (auto simp: vms_ok_def)
qed

lemma declared_stable:
  "user_as_declared c r d u \<Longrightarrow> vmMap r' = vmMap r \<Longrightarrow> appMap r' = appMap r \<Longrightarrow> user_as_declared c r' d u"
  by (cases d) (auto simp: user_as_declared_def searchVm_def searchApp_def)

lemma load_users_declared:
  assumes "for_each (load_user c) ds r = Inr r'" "vms_ok r"
  shows "vms_ok r' \<and> distinct (map fst ds) \<and> (\<forall>name\<in>fst ` set ds. map_of (userMap r) name = None) \<and>
    dom (map_of (userMap r')) = fst ` set ds \<union> dom (map_of (userMap r)) \<and>
    (\<forall>name. name \<notin> fst ` set ds \<longrightarrow> map_of (userMap r') name = map_of (userMap r) name) \<and>
    (\<forall>(name, n)\<in>set ds. \<exists>u. map_of (userMap r') name = Some u \<and> user_as_declared c r' (name, n) u) \<and>
    vmMap r' = vmMap r \<and> appMap r' = appMap r"
  using assms
proof (induction ds arbitrary: r)
  case (Cons d ds)
  obtain name n where d: "d = (name, n)" by (cases d)
  obtain r1 where r1: "load_user c (name, n) r = Inr r1" "for_each (load_user c) ds r1 = Inr r'"
    using Cons.prems(1) by (auto simp: d and_then_eq_Inr)
  obtain u where u: "user_as_declared c r (name, n) u" "map_of (userMap r) name = None" "vms_ok r1"
      "map_of (userMap r1) = (map_of (userMap r))(name \<mapsto> u)" "vmMap r1 = vmMap r" "appMap r1 = appMap r"
    using load_user_declared [OF r1(1) Cons.prems(2)] by blast
  note IH = Cons.IH [OF r1(2) u(3)]
  have nin: "name \<notin> fst ` set ds" using IH u(4) by force
  then have hit: "map_of (userMap r') name = Some u" using IH u(4) by simp
  have "user_as_declared c r' (name, n) u" using declared_stable [OF u(1)] IH u(5,6) by simp
  with hit have new: "\<exists>u. map_of (userMap r') name = Some u \<and> user_as_declared c r' (name, n) u" by blast
  have old: "map_of (userMap r) x = None" if "x \<in> fst ` set ds" for x
    using IH that u(4) by (metis fun_upd_apply option.distinct(1))
  show ?case
    using IH nin new old u by (auto simp: d)
qed simp

text \<open>What the parameters declare is what the simulation gets: the users of the experiment, one for
  each entry and under its own name, each with the declared number of instances, priority, agreement,
  applications and machines; and every machine and application a user refers to is found in the
  catalogue under its name.
\<close>

theorem users_as_declared:
  assumes "engine_initialize c = Inr r0" "jc_experiments c e = Some ds" "getSimUsers c e r0 = Inr (us, r)"
  shows "set (map us_type us) = set (map fst ds) \<and> length us = length ds \<and>
    (\<forall>d\<in>set ds. \<exists>u\<in>set us. searchUser r (fst d) = Some u \<and> user_as_declared c r d u)"
proof -
  have l: "for_each (load_user c) ds r0 = Inr r" "us = map snd (userMap r)"
    using assms(2,3) by (auto simp: getSimUsers_def loadUsersInExperiment_def and_then_eq_Inr)
  note D = load_users_declared [OF l(1) engine_initialize_ok(1) [OF assms(1)]]
  have o: "map_ordered (userMap r)" using D unfolding vms_ok_def by blast
  have ds: "distinct (map fst ds)" using D by blast
  have "dom (map_of (userMap r)) = fst ` set ds \<union> dom (map_of (userMap r0))" using D by blast
  then have keys: "fst ` set (userMap r) = fst ` set ds"
    by (simp add: engine_initialize_ok(2) [OF assms(1)] dom_map_of_conv_image_fst)
  have decl': "\<forall>(name, n)\<in>set ds. \<exists>u. map_of (userMap r) name = Some u \<and> user_as_declared c r (name, n) u"
    using D by blast
  have decl: "\<exists>u. map_of (userMap r) (fst d) = Some u \<and> user_as_declared c r d u" if "d \<in> set ds" for d
    using bspec [OF decl' that] by (cases d) simp
  have type: "us_type u = k" if "(k, u) \<in> set (userMap r)" for k u
  proof -
    have "map_of (userMap r) k = Some u" using that o by (simp add: map_ordered_def)
    moreover have "k \<in> fst ` set ds" unfolding keys [symmetric] using that by (metis fst_conv image_eqI)
    then obtain d where d: "d \<in> set ds" "fst d = k" by blast
    ultimately obtain n where "user_as_declared c r (k, n) u" using decl [OF d(1)] by (cases d) simp
    then show ?thesis unfolding user_as_declared_def by auto
  qed
  have "map us_type us = map fst (userMap r)"
    unfolding l(2) map_map by (rule map_cong [OF refl]) (simp add: type split: prod.splits)
  then have "set (map us_type us) = set (map fst ds)" using keys by simp
  moreover have "length us = length ds"
  proof -
    have "length (map fst (userMap r)) = card (fst ` set (userMap r))"
      using o distinct_card [of "map fst (userMap r)"] by (simp add: map_ordered_def)
    moreover have "length (map fst ds) = card (fst ` set ds)" using ds distinct_card [of "map fst ds"] by simp
    ultimately show ?thesis by (simp add: l(2) keys)
  qed
  moreover have "\<exists>u\<in>set us. searchUser r (fst d) = Some u \<and> user_as_declared c r d u" if dd: "d \<in> set ds" for d
  proof -
    obtain u where u: "map_of (userMap r) (fst d) = Some u" "user_as_declared c r d u" using decl [OF dd] by blast
    then have "u \<in> set us" using map_of_SomeD [OF u(1)] unfolding l(2) by (metis image_eqI list.set_map snd_conv)
    moreover have "searchUser r (fst d) = Some u"
      using u(1) by (simp add: searchUser_def manager_search_def findInMapOrNull_def)
    ultimately show ?thesis using u(2) by blast
  qed
  ultimately show ?thesis by (intro conjI ballI)
qed

text \<open>The users of an experiment can be asked for only once: a second user generator, or the same
  one again, ends the simulation as soon as the experiment has a user.
\<close>

theorem users_asked_once:
  assumes "engine_initialize c = Inr r0" "getSimUsers c e r0 = Inr (us, r)" "us \<noteq> []"
  shows "\<exists>err. getSimUsers c e r = Inl err"
proof (rule ccontr)
  assume "\<not> ?thesis"
  then obtain us' r' where again: "getSimUsers c e r = Inr (us', r')" by (cases "getSimUsers c e r") auto
  obtain ds where ds: "jc_experiments c e = Some ds" "for_each (load_user c) ds r0 = Inr r" "us = map snd (userMap r)"
    using assms(2) by (auto simp: getSimUsers_def loadUsersInExperiment_def and_then_eq_Inr split: option.splits)
  note D = load_users_declared [OF ds(2) engine_initialize_ok(1) [OF assms(1)]]
  have "for_each (load_user c) ds r = Inr r'"
    using again ds(1) by (auto simp: getSimUsers_def loadUsersInExperiment_def and_then_eq_Inr)
  then have "\<forall>name\<in>fst ` set ds. map_of (userMap r) name = None"
    using load_users_declared D by blast
  moreover have "dom (map_of (userMap r)) = fst ` set ds"
    using D engine_initialize_ok(2) [OF assms(1)] by simp
  ultimately have "dom (map_of (userMap r)) = {}" by (metis all_not_in_conv domIff)
  then show False using assms(3) ds(3) by (simp add: dom_map_of_conv_image_fst)
qed

section \<open>A concrete configuration\<close>

definition sample_config :: JsonConfig where
  "sample_config = \<lparr>jc_checkConsistency = True, jc_apps = [],
     jc_vms = [\<lparr>jv_name = ''small'', jv_cost = 1, jv_cores = 2, jv_scu = 1, jv_memory = 1 / 2, jv_disk = 4\<rparr>],
     jc_slas = [\<lparr>js_name = ''gold'', js_bindings = [(''small'', 1, 0, 0, 0)]\<rparr>],
     jc_users = [''bob'' \<mapsto> \<lparr>ju_priority = False, ju_sla_id = ''gold'', ju_apps = [], ju_vms = [(''small'', 2, 3)]\<rparr>],
     jc_experiments = [''night'' \<mapsto> [(''bob'', 1)]]\<rparr>"

lemma sample_loaded:
  "\<exists>r0 us r. engine_initialize sample_config = Inr r0 \<and> getSimUsers sample_config ''night'' r0 = Inr (us, r) \<and> us \<noteq> []"
  by (simp add: sample_config_def engine_initialize_def loadVms_def load_vm_def toMiB_def insert_vm_def
      emplace_new_def empty_repository_def loadSlas_def load_sla_def insert_sla_def bind_vm_def findInMapOrNull_def
      addVmCost_def new_Sla_def loadApps_def getSimUsers_def loadUsersInExperiment_def load_user_def insert_user_def
      add_user_vm_def Let_def)

theorem users_as_declared_witness:
  "\<exists>r us. getSimUsers sample_config ''night'' r = Inr us \<and>
     (\<exists>u\<in>set (fst us). searchUser (snd us) ''bob'' = Some u \<and> user_as_declared sample_config (snd us) (''bob'', 1) u)"
proof -
  obtain r0 us r where r: "engine_initialize sample_config = Inr r0"
    "getSimUsers sample_config ''night'' r0 = Inr (us, r)" using sample_loaded by blast
  have "jc_experiments sample_config ''night'' = Some [(''bob'', 1)]" by (simp add: sample_config_def)
  from users_as_declared [OF r(1) this r(2)] r(2) show ?thesis
    by (intro exI [of _ r0] exI [of _ "(us, r)"]) simp
qed

theorem users_asked_once_witness:
  "\<exists>r err. getSimUsers sample_config ''night'' r = Inl err"
  using sample_loaded users_asked_once by blast

end
