(* ===== verification/SqlEngine.thy ===== *)
theory SqlEngine
  imports DataManager
begin

text \<open>
  The engine that fills the catalogue from a database, \<open>core/simdata/engine/sql/MySqlDataEngine\<close>.

  The database is the parameter \<open>sql_db\<close>: the rows its prepared statements give for their arguments, and for the
  k-th statement executed whether the connection is valid, whether a reconnection succeeds and whether the
  statement runs.  \<open>json_parameters\<close> is what the JSON library makes of the two texts of an application: the text
  values by key, or its exception.  The prepared statements are owned by the engine through plain pointers; the
  state says whether they exist.
\<close>

section \<open>State\<close>

record AppRow =
  ar_name :: string
  ar_type :: string
  ar_package :: string
  ar_parameters :: string
  ar_interface :: string

record VmRow =
  vr_type :: string
  vr_cost :: rat
  vr_cores :: int
  vr_scu :: int
  vr_disk :: int
  vr_memory :: int

record SlaRow =
  sr_type :: string
  sr_cost :: rat
  sr_increase :: rat
  sr_discount :: rat
  sr_compensation :: rat

record UserRow =
  ur_name :: string
  ur_priority :: int
  ur_sla :: string
  ur_instances :: int

record sql_db =
  db_apps :: "string \<Rightarrow> AppRow list"                      \<comment> \<open>\<open>APP_DATA\<close>\<close>
  db_vms :: "string \<Rightarrow> VmRow list"                        \<comment> \<open>\<open>VM_DATA\<close>\<close>
  db_slas :: "string \<Rightarrow> SlaRow list"                      \<comment> \<open>\<open>SLA_DATA\<close>\<close>
  db_user :: "string \<Rightarrow> string \<Rightarrow> UserRow list"            \<comment> \<open>\<open>USER_BASE_INFO\<close>\<close>
  db_users :: "string \<Rightarrow> UserRow list"                    \<comment> \<open>\<open>SIM_USERS\<close>\<close>
  db_userApps :: "string \<Rightarrow> (int \<times> string) list"          \<comment> \<open>\<open>APP_INFO\<close>\<close>
  db_userVms :: "string \<Rightarrow> (int \<times> int \<times> string) list"     \<comment> \<open>\<open>VM_INFO\<close>\<close>
  db_valid :: "nat \<Rightarrow> bool"
  db_reconnects :: "nat \<Rightarrow> bool"
  db_runs :: "nat \<Rightarrow> bool"

record SqlEngine =
  se_repository :: DataRepository
  se_prepared :: bool
  se_executed :: nat

section \<open>The connection\<close>

definition deleteStatements :: "SqlEngine \<Rightarrow> SqlEngine outcome" where
  "deleteStatements s = (if se_prepared s then Inr (s\<lparr>se_prepared := False\<rparr>) else Inl (Undefined ''double delete''))"

definition createStatements :: "SqlEngine \<Rightarrow> SqlEngine" where
  "createStatements s = s\<lparr>se_prepared := True\<rparr>"

definition sql_initialize :: "bool \<Rightarrow> bool \<Rightarrow> SqlEngine outcome" where
  "sql_initialize hasPassword connects =
     (if \<not> hasPassword then Inl (RuntimeError ''Missing password in environement'')
      else if \<not> connects then Inl (RuntimeError ''Connection or initialization failure'')
      else Inr (createStatements \<lparr>se_repository = empty_repository, se_prepared = False, se_executed = 0\<rparr>))"

definition sql_finish :: "SqlEngine \<Rightarrow> SqlEngine outcome" where
  "sql_finish s = deleteStatements s"

text \<open>\<open>attemptReconnect\<close>: the flag of the result is false when the exception is thrown.\<close>

definition attemptReconnect :: "sql_db \<Rightarrow> SqlEngine \<Rightarrow> (bool \<times> SqlEngine) outcome" where
  "attemptReconnect db s =
     and_then (deleteStatements s) (\<lambda>s1.
       if db_reconnects db (se_executed s1) then Inr (True, createStatements s1) else Inr (False, s1))"

text \<open>\<open>executeStatement\<close>: no result when the connection or the statement fails.\<close>

definition executeStatement :: "sql_db \<Rightarrow> 'r list \<Rightarrow> SqlEngine \<Rightarrow> ('r list option \<times> SqlEngine) outcome" where
  "executeStatement db rows s =
     and_then (if db_valid db (se_executed s) then Inr (True, s) else attemptReconnect db s) (\<lambda>(ok, s1).
       let s2 = s1\<lparr>se_executed := se_executed s1 + 1\<rparr>
       in if \<not> ok then Inr (None, s2)
          else if \<not> se_prepared s1 then Inl (Undefined ''use of a deleted statement'')
          else Inr (if db_runs db (se_executed s1) then Some rows else None, s2))"

text \<open>\<open>if (!res || res->rowsCount() == 0) return nullptr;\<close>\<close>

definition found_rows :: "sql_db \<Rightarrow> 'r list \<Rightarrow> SqlEngine \<Rightarrow> ('r list option \<times> SqlEngine) outcome" where
  "found_rows db rows s =
     and_then (executeStatement db rows s) (\<lambda>(r, s1). Inr (if r = Some [] then None else r, s1))"

section \<open>Searches\<close>

definition on_repository :: "(DataRepository \<Rightarrow> DataRepository outcome) \<Rightarrow> SqlEngine \<Rightarrow> SqlEngine outcome" where
  "on_repository f s = and_then (f (se_repository s)) (\<lambda>r. Inr (s\<lparr>se_repository := r\<rparr>))"

definition sql_searchApp ::
  "sql_db \<Rightarrow> (string \<Rightarrow> string \<Rightarrow> (string \<times> string) list outcome) \<Rightarrow> string \<Rightarrow> SqlEngine \<Rightarrow>
     (Application option \<times> SqlEngine) outcome" where
  "sql_searchApp db json_parameters name s =
     and_then (found_rows db (db_apps db name) s) (\<lambda>(res, s1).
       case res of
         None \<Rightarrow> Inr (None, s1)
       | Some rows \<Rightarrow>
           let row = hd rows; app = new_Application (ar_name row) (ar_type row) (ar_package row)
           in and_then (on_repository (insert_app (ar_name row) app) s1) (\<lambda>_.
              and_then (json_parameters (ar_parameters row) (ar_interface row)) (\<lambda>ps.
                let app2 = fold (\<lambda>(k, v). insertParameter k v) ps app
                in and_then (on_repository (insert_app (ar_name row) app2) s1) (\<lambda>s2. Inr (Some app2, s2)))))"

text \<open>A \<open>double\<close> passed for a \<open>uint32_t\<close> loses its fraction; out of range it is undefined.\<close>

definition u32_of_rat :: "rat \<Rightarrow> u32 outcome" where
  "u32_of_rat x =
     (let n = (if 0 \<le> x then \<lfloor>x\<rfloor> else \<lceil>x\<rceil>)
      in if 0 \<le> n \<and> n < 2 ^ 32 then Inr (of_int n) else Inl (Undefined ''uint32_t out of range''))"

text \<open>The arguments of the constructor are the number of cores, the disk, the memory, the cost and the units, in
  this order; what is passed for them is as below.\<close>

definition sql_searchVm :: "sql_db \<Rightarrow> string \<Rightarrow> SqlEngine \<Rightarrow> (VirtualMachine option \<times> SqlEngine) outcome" where
  "sql_searchVm db name s =
     and_then (found_rows db (db_vms db name) s) (\<lambda>(res, s1).
       case res of
         None \<Rightarrow> Inr (None, s1)
       | Some rows \<Rightarrow>
           let row = hd rows
           in and_then (u32_of_rat (vr_cost row)) (\<lambda>numCores.
                let vm = \<lparr>vm_type = vr_type row, vm_numCores = numCores, vm_diskMiB = of_int (vr_cores row),
                    vm_memoryMiB = of_int (vr_scu row), vm_cost = of_int (vr_disk row), vm_scu = of_int (vr_memory row)\<rparr>
                in and_then (on_repository (insert_vm (vr_type row) vm) s1) (\<lambda>s2. Inr (Some vm, s2))))"

definition sql_searchSla :: "sql_db \<Rightarrow> string \<Rightarrow> SqlEngine \<Rightarrow> (Sla option \<times> SqlEngine) outcome" where
  "sql_searchSla db name s =
     and_then (found_rows db (db_slas db name) s) (\<lambda>(res, s1).
       case res of
         None \<Rightarrow> Inr (None, s1)
       | Some rows \<Rightarrow>
           let sla = fold (\<lambda>r. addVmCost (sr_type r) (sr_cost r) (sr_increase r) (sr_discount r) (sr_compensation r)) rows (new_Sla name)
           in and_then (on_repository (insert_sla name sla) s1) (\<lambda>s2. Inr (Some sla, s2)))"

section \<open>Users\<close>

record UserBaseInfo =
  ub_userName :: string
  ub_slaId :: string
  ub_numInstances :: int
  ub_priority :: tPriorityType

definition searchUserBaseInfo :: "sql_db \<Rightarrow> string \<Rightarrow> string \<Rightarrow> SqlEngine \<Rightarrow> (UserBaseInfo option \<times> SqlEngine) outcome" where
  "searchUserBaseInfo db user experiment s =
     and_then (found_rows db (db_user db user experiment) s) (\<lambda>(res, s1).
       Inr (map_option (\<lambda>rows. let row = hd rows in
         \<lparr>ub_userName = ur_name row, ub_slaId = ur_sla row, ub_numInstances = ur_instances row,
          ub_priority = (if ur_priority row = 1 then Priority else Regular)\<rparr>) res, s1))"

fun load_user_vms ::
  "sql_db \<Rightarrow> (int \<times> int \<times> string) list \<Rightarrow> CloudUserPriority \<times> SqlEngine \<Rightarrow> (CloudUserPriority \<times> SqlEngine) outcome" where
  "load_user_vms db [] us = Inr us"
| "load_user_vms db ((n, rent, ty) # rows) (u, s) =
     and_then (sql_searchVm db ty s) (\<lambda>(vm, s1).
       case vm of None \<Rightarrow> Inl (RuntimeError ''EINVAL'')
       | Some v \<Rightarrow> load_user_vms db rows (insertVirtualMachine v n rent u, s1))"

fun load_user_apps ::
  "sql_db \<Rightarrow> (string \<Rightarrow> string \<Rightarrow> (string \<times> string) list outcome) \<Rightarrow> (int \<times> string) list \<Rightarrow>
     CloudUserPriority \<times> SqlEngine \<Rightarrow> (CloudUserPriority \<times> SqlEngine) outcome" where
  "load_user_apps db jp [] us = Inr us"
| "load_user_apps db jp ((n, name) # rows) (u, s) =
     and_then (sql_searchApp db jp name s) (\<lambda>(app, s1).
       case app of None \<Rightarrow> Inl (RuntimeError ''EINVAL'')
       | Some a \<Rightarrow> load_user_apps db jp rows (insertApplication (Some a) n u, s1))"

text \<open>The searches give a null cursor for no rows, and the loops step it without a test.\<close>

definition loadUserAppsAndVms ::
  "sql_db \<Rightarrow> (string \<Rightarrow> string \<Rightarrow> (string \<times> string) list outcome) \<Rightarrow> CloudUserPriority \<Rightarrow> SqlEngine \<Rightarrow>
     (CloudUserPriority \<times> SqlEngine) outcome" where
  "loadUserAppsAndVms db jp u s =
     and_then (found_rows db (db_userVms db (us_type u)) s) (\<lambda>(vmCursor, s1).
       case vmCursor of None \<Rightarrow> Inl (Undefined ''null cursor'')
       | Some vms \<Rightarrow> and_then (load_user_vms db vms (u, s1)) (\<lambda>(u1, s2).
           and_then (found_rows db (db_userApps db (us_type u1)) s2) (\<lambda>(appCursor, s3).
             case appCursor of None \<Rightarrow> Inl (Undefined ''null cursor'')
             | Some rows \<Rightarrow> load_user_apps db jp rows (u1, s3))))"

definition sql_searchUser ::
  "sql_db \<Rightarrow> (string \<Rightarrow> string \<Rightarrow> (string \<times> string) list outcome) \<Rightarrow> string \<Rightarrow> string \<Rightarrow> SqlEngine \<Rightarrow>
     (CloudUserPriority option \<times> SqlEngine) outcome" where
  "sql_searchUser db jp userType experiment s =
     and_then (searchUserBaseInfo db userType experiment s) (\<lambda>(info, s1).
       case info of None \<Rightarrow> Inr (None, s1)
       | Some b \<Rightarrow>
           let u = new_CloudUserPriority (ub_userName b) (ub_numInstances b) (ub_priority b) (ub_slaId b)
           in and_then (on_repository (insert_user (ub_userName b) u) s1) (\<lambda>_.
              and_then (loadUserAppsAndVms db jp u s1) (\<lambda>(u1, s2).
              and_then (on_repository (insert_user (ub_userName b) u1) s2) (\<lambda>s3. Inr (Some u1, s3)))))"

text \<open>\<open>loadUsersInExperiment\<close> keeps a pointer into the text of a row that is gone after the statement; \<open>freed\<close> is what
  is read through it, or the crash.\<close>

fun load_user_rows ::
  "sql_db \<Rightarrow> (string \<Rightarrow> string \<Rightarrow> (string \<times> string) list outcome) \<Rightarrow> (string \<Rightarrow> string outcome) \<Rightarrow> UserRow list \<Rightarrow>
     SqlEngine \<Rightarrow> SqlEngine outcome" where
  "load_user_rows db jp freed [] s = Inr s"
| "load_user_rows db jp freed (row # rows) s =
     and_then (freed (ur_name row)) (\<lambda>name.
       let u = new_CloudUserPriority name (ur_instances row) (if ur_priority row = 1 then Priority else Regular) (ur_sla row)
       in and_then (on_repository (insert_user name u) s) (\<lambda>_.
          and_then (loadUserAppsAndVms db jp u s) (\<lambda>(u1, s1).
          and_then (on_repository (insert_user name u1) s1) (load_user_rows db jp freed rows))))"

definition sql_loadUsers ::
  "sql_db \<Rightarrow> (string \<Rightarrow> string \<Rightarrow> (string \<times> string) list outcome) \<Rightarrow> (string \<Rightarrow> string outcome) \<Rightarrow> string \<Rightarrow>
     SqlEngine \<Rightarrow> SqlEngine outcome" where
  "sql_loadUsers db jp freed experiment s =
     and_then (found_rows db (db_users db experiment) s) (\<lambda>(res, s1).
       case res of None \<Rightarrow> Inl (RuntimeError ''No users in current experiment'')
       | Some rows \<Rightarrow> load_user_rows db jp freed rows s1)"

section \<open>Properties\<close>

definition connected_at :: "sql_db \<Rightarrow> nat \<Rightarrow> bool" where
  "connected_at db k \<longleftrightarrow> db_valid db k \<and> db_runs db k"

lemma found_connected:
  assumes "connected_at db (se_executed s)" "se_prepared s"
  shows "found_rows db rows s = Inr (if rows = [] then None else Some rows, s\<lparr>se_executed := se_executed s + 1\<rparr>)"
  using assms by (simp add: found_rows_def executeStatement_def connected_at_def Let_def)

text \<open>A reconnection that fails leaves the pointers to its deleted statements behind: whatever the engine is asked
  next, and also its end, uses or deletes them again.\<close>

lemma lost_connection_fatal:
  assumes "\<not> db_valid db (se_executed s)" "\<not> db_reconnects db (se_executed s)" "se_prepared s"
  shows "\<exists>s' e1 e2. found_rows db rows s = Inr (None, s') \<and> found_rows db rows' s' = Inl (Undefined e1) \<and>
    sql_finish s' = Inl (Undefined e2)"
  using assms
  by (auto simp: found_rows_def executeStatement_def attemptReconnect_def deleteStatements_def sql_finish_def Let_def)

text \<open>On a working connection the first search for a type of virtual machine adds its row to the catalogue and
  nothing else, with the cost for the number of cores, the cores for the disk, the units for the memory, the
  disk for the cost and the memory for the units; and the second search, which the users that share the type
  bring about, ends the simulation.
\<close>

theorem vm_type_loaded_once:
  assumes "vms_ok (se_repository s)" "se_prepared s" "connected_at db (se_executed s)" "connected_at db (se_executed s + 1)"
    and "db_vms db name = r # rs" "vr_type r = name" "0 \<le> vr_cost r" "vr_cost r < 2 ^ 32"
    and "map_of (vmMap (se_repository s)) name = None"
  shows "\<exists>vm s'. sql_searchVm db name s = Inr (Some vm, s') \<and>
    vm = \<lparr>vm_type = name, vm_numCores = of_int \<lfloor>vr_cost r\<rfloor>, vm_diskMiB = of_int (vr_cores r), vm_memoryMiB = of_int (vr_scu r),
          vm_cost = of_int (vr_disk r), vm_scu = of_int (vr_memory r)\<rparr> \<and>
    map_of (vmMap (se_repository s')) = (map_of (vmMap (se_repository s)))(name \<mapsto> vm) \<and>
    appMap (se_repository s') = appMap (se_repository s) \<and> slaMap (se_repository s') = slaMap (se_repository s) \<and>
    userMap (se_repository s') = userMap (se_repository s) \<and> vms_ok (se_repository s') \<and>
    sql_searchVm db name s' = Inl (RuntimeError ''Error while inserting in DataRepository'')"
proof -
  let ?vm = "\<lparr>vm_type = name, vm_numCores = of_int \<lfloor>vr_cost r\<rfloor>, vm_diskMiB = of_int (vr_cores r),
      vm_memoryMiB = of_int (vr_scu r), vm_cost = of_int (vr_disk r), vm_scu = of_int (vr_memory r)\<rparr>"
  let ?m = "map_at name ?vm (\<lambda>y. y) (vmMap (se_repository s))"
  let ?s = "s\<lparr>se_repository := (se_repository s)\<lparr>vmMap := ?m\<rparr>, se_executed := se_executed s + 1\<rparr>"
  have cost: "u32_of_rat (vr_cost r) = Inr (of_int \<lfloor>vr_cost r\<rfloor>)"
    using assms(7,8) by (simp add: u32_of_rat_def Let_def floor_less_iff)
  have ord: "map_ordered (vmMap (se_repository s))" using assms(1) by (simp add: vms_ok_def)
  have m: "map_of ?m = (map_of (vmMap (se_repository s)))(name \<mapsto> ?vm)"
    using map_of_map_at [OF ord, of name ?vm "\<lambda>y. y"] assms(9) by simp
  have 1: "sql_searchVm db name s = Inr (Some ?vm, ?s)"
    using assms(5,6,9) cost
    by (simp add: sql_searchVm_def found_connected [OF assms(3,2)] Let_def on_repository_def insert_vm_def emplace_new_def)
  have 2: "sql_searchVm db name ?s = Inl (RuntimeError ''Error while inserting in DataRepository'')"
    using assms(2,4,5,6) cost m
    by (simp add: sql_searchVm_def found_connected Let_def on_repository_def insert_vm_def emplace_new_def)
  have "vms_ok (se_repository ?s)"
    using assms(1) m map_at_ordered [OF ord] by (auto simp: vms_ok_def)
  with 1 2 m show ?thesis by (intro exI [of _ ?vm] exI [of _ ?s]) simp
qed

definition sql_example :: sql_db where
  "sql_example = \<lparr>db_apps = (\<lambda>_. []), db_vms = (\<lambda>n. if n = ''small'' then [\<lparr>vr_type = ''small'', vr_cost = 3 / 2, vr_cores = 2,
      vr_scu = 1, vr_disk = 250, vr_memory = 16\<rparr>] else []), db_slas = (\<lambda>_. []), db_user = (\<lambda>_ _. []), db_users = (\<lambda>_. []),
     db_userApps = (\<lambda>_. []), db_userVms = (\<lambda>_. []), db_valid = (\<lambda>_. True), db_reconnects = (\<lambda>_. True), db_runs = (\<lambda>_. True)\<rparr>"

theorem vm_type_loaded_once_witness:
  "\<exists>s vm s'. sql_initialize True True = Inr s \<and> sql_searchVm sql_example ''small'' s = Inr (Some vm, s') \<and>
     vm_numCores vm = 1 \<and> vm_diskMiB vm = 2 \<and> vm_cost vm = 250 \<and>
     sql_searchVm sql_example ''small'' s' = Inl (RuntimeError ''Error while inserting in DataRepository'')"
proof -
  let ?s = "\<lparr>se_repository = empty_repository, se_prepared = True, se_executed = 0\<rparr>"
  let ?r = "\<lparr>vr_type = ''small'', vr_cost = 3 / 2, vr_cores = 2, vr_scu = 1, vr_disk = 250, vr_memory = 16\<rparr>"
  have h: "vms_ok (se_repository ?s)" "se_prepared ?s" "connected_at sql_example (se_executed ?s)"
    "connected_at sql_example (se_executed ?s + 1)" "db_vms sql_example ''small'' = [?r]" "vr_type ?r = ''small''"
    "0 \<le> vr_cost ?r" "vr_cost ?r < 2 ^ 32" "map_of (vmMap (se_repository ?s)) ''small'' = None"
    by (simp_all add: vms_ok_empty connected_at_def sql_example_def) (simp add: empty_repository_def)
  have "\<lfloor>vr_cost ?r\<rfloor> = 1" by (simp add: floor_eq_iff)
  with vm_type_loaded_once [OF h] have "\<exists>vm s'. sql_searchVm sql_example ''small'' ?s = Inr (Some vm, s') \<and>
     vm_numCores vm = 1 \<and> vm_diskMiB vm = 2 \<and> vm_cost vm = 250 \<and>
     sql_searchVm sql_example ''small'' s' = Inl (RuntimeError ''Error while inserting in DataRepository'')" by auto
  moreover have "sql_initialize True True = Inr ?s" by (simp add: sql_initialize_def createStatements_def)
  ultimately show ?thesis by blast
qed

end
