(* ===== verification/CloudProvider.thy ===== *)
theory CloudProvider
  imports NodeTable DataManager
begin

text \<open>
  The cloud provider (\<open>management/cloudprovider/CloudProvider\<close>): it forwards the machine requests of
  the users to a data centre chosen from the node table, keeps subscribed requests in a queue until
  a data centre reports enough cores or the subscription times out, and takes the reports.

  A request is identified by the address of its message, which the environment hands in with the
  message.  The timers of the queue are the pairs of their time and of the request they point to.
  What the module sends goes to \<open>cp_sent\<close>.  The catalogue is that of the data manager.
\<close>

section \<open>State\<close>

record QueueElement =
  qe_request :: nat          \<comment> \<open>the address of the request\<close>
  qe_message :: SM_UserVM
  qe_timeOut :: rat          \<comment> \<open>the time of the timer\<close>

record CloudProvider =
  cp_nodeDb :: NodeTable
  cp_queue :: "QueueElement list"
  cp_dispatchPriority :: bool
  cp_defaultZone :: string
  cp_timers :: "(rat \<times> nat) list"
  cp_sent :: "(nat \<times> SM_UserVM) list"

definition cp_initialize :: "bool \<Rightarrow> string \<Rightarrow> CloudProvider" where
  "cp_initialize dispatchPriority defaultZone =
     \<lparr>cp_nodeDb = clear_table, cp_queue = [], cp_dispatchPriority = dispatchPriority,
      cp_defaultZone = defaultZone, cp_timers = [], cp_sent = []\<rparr>"

definition cp_send :: "nat \<Rightarrow> SM_UserVM \<Rightarrow> CloudProvider \<Rightarrow> CloudProvider" where
  "cp_send a rq s = s\<lparr>cp_sent := cp_sent s @ [(a, rq)]\<rparr>"

definition SM_VM_Sub :: int where "SM_VM_Sub = 502"
definition SM_VM_Res_Accept :: int where "SM_VM_Res_Accept = 10001"
definition SM_VM_Res_Reject :: int where "SM_VM_Res_Reject = 10002"
definition SM_APP_Sub_Timeout :: int where "SM_APP_Sub_Timeout = 10004"
definition SM_VM_Req_op :: int where "SM_VM_Req_op = 500"

section \<open>The type of a user\<close>

text \<open>\<open>substr(from, n)\<close> of a string that has the position \<open>from\<close>.\<close>

definition user_type_of :: "string \<Rightarrow> string option" where
  "user_type_of userId =
     (case (first_index (\<lambda>c. c = CHR '')'') userId, first_index (\<lambda>c. c = CHR ''['') userId) of
        (Some fromPos, Some toPos) \<Rightarrow>
          if fromPos < toPos then Some (take (toPos - fromPos - 1) (drop (fromPos + 1) userId)) else None
      | _ \<Rightarrow> None)"

definition findUserTypeById :: "DataRepository \<Rightarrow> string \<Rightarrow> CloudUserPriority option" where
  "findUserTypeById r userId = Option.bind (user_type_of userId) (searchUser r)"

section \<open>Choosing a node\<close>

fun requested_cores :: "DataRepository \<Rightarrow> VM_Request list \<Rightarrow> u64 \<Rightarrow> u64 outcome" where
  "requested_cores r [] n = Inr n"
| "requested_cores r (vm # vms) n =
     (case searchVm r (rq_vmType vm) of
        None \<Rightarrow> Inl (RuntimeError ''Did not find vm of type'')
      | Some t \<Rightarrow> requested_cores r vms (n + ucast (vm_numCores t)))"

definition calculateRequestedCores :: "DataRepository \<Rightarrow> SM_UserVM \<Rightarrow> u64 outcome" where
  "calculateRequestedCores r rq = requested_cores r (uv_vm rq) 0"

text \<open>
  The loop over the pool.  \<open>bestCandidate\<close> is an \<open>int\<close>: it keeps the low 32 bits of the amount and
  is compared as a \<open>uint64_t\<close> after sign extension.
\<close>

fun best_node :: "u64 \<Rightarrow> NodeTable \<Rightarrow> nat list \<Rightarrow> u32 \<times> int \<Rightarrow> int outcome" where
  "best_node totalCores tb [] (best, selected) = Inr selected"
| "best_node totalCores tb (n # ns) (best, selected) =
     and_then (getNodeEntry (int n) tb) (\<lambda>e.
       let c = ne_availableCores e
       in if totalCores \<le> c \<and> scast best < c then best_node totalCores tb ns (ucast c, int n)
          else best_node totalCores tb ns (best, selected))"

definition take_cores :: "int \<Rightarrow> u64 \<Rightarrow> NodeTable \<Rightarrow> NodeTable" where
  "take_cores n c tb = tb\<lparr>tb_nodes := (tb_nodes tb)[nat n :=
     (tb_nodes tb ! nat n)\<lparr>ne_availableCores := ne_availableCores (tb_nodes tb ! nat n) - c\<rparr>]\<rparr>"

definition selectNodeInPool ::
  "DataRepository \<Rightarrow> SM_UserVM \<Rightarrow> nat list \<Rightarrow> NodeTable \<Rightarrow> (string option \<times> NodeTable) outcome" where
  "selectNodeInPool r rq pool tb =
     and_then (calculateRequestedCores r rq) (\<lambda>totalCores.
       and_then (best_node totalCores tb pool (0, - 1)) (\<lambda>selected.
         if selected = - 1 then Inr (None, tb)
         else and_then (getNodeEntry selected tb) (\<lambda>e.
           and_then (getTopicForNode e tb) (\<lambda>topic.
             Inr (Some topic, take_cores selected totalCores tb)))))"

definition selectNode ::
  "DataRepository \<Rightarrow> SM_UserVM \<Rightarrow> string \<Rightarrow> NodeTable \<Rightarrow> (string option \<times> NodeTable) outcome" where
  "selectNode r rq defaultZone tb =
     and_then (case findNodesByZone (uv_zone rq) tb of
         None \<Rightarrow> Inr (None, tb) | Some pool \<Rightarrow> selectNodeInPool r rq pool tb) (\<lambda>(topic, tb').
       if topic \<noteq> None then Inr (topic, tb')
       else case findNodesByZone defaultZone tb' of
           None \<Rightarrow> Inl (RuntimeError ''No nodes found in default zone!'')
         | Some pool \<Rightarrow> selectNodeInPool r rq pool tb')"

section \<open>Handlers\<close>

definition rejectVmRequest :: "nat \<Rightarrow> SM_UserVM \<Rightarrow> CloudProvider \<Rightarrow> CloudProvider" where
  "rejectVmRequest a rq = cp_send a (rq\<lparr>uv_isResponse := True, uv_operation := SM_VM_Req_op,
     uv_result := SM_VM_Res_Reject, uv_destinationTopic := uv_returnTopic rq\<rparr>)"

definition dispatch :: "nat \<Rightarrow> SM_UserVM \<Rightarrow> string \<Rightarrow> CloudProvider \<Rightarrow> CloudProvider" where
  "dispatch a rq topic = cp_send a (rq\<lparr>uv_autoSourceTopic := False, uv_destinationTopic := topic\<rparr>)"

fun dispatch_queue :: "DataRepository \<Rightarrow> QueueElement list \<Rightarrow> CloudProvider \<Rightarrow> CloudProvider outcome" where
  "dispatch_queue r [] s = Inr (s\<lparr>cp_queue := []\<rparr>)"
| "dispatch_queue r (e # q) s =
     and_then (selectNode r (qe_message e) (cp_defaultZone s) (cp_nodeDb s)) (\<lambda>(topic, tb).
       case topic of
         None \<Rightarrow> Inr (s\<lparr>cp_nodeDb := tb, cp_queue := e # q\<rparr>)
       | Some t \<Rightarrow> dispatch_queue r q (dispatch (qe_request e) (qe_message e) t
           (s\<lparr>cp_nodeDb := tb, cp_timers := remove1 (qe_timeOut e, qe_request e) (cp_timers s)\<rparr>)))"

definition attemptDispatching :: "DataRepository \<Rightarrow> CloudProvider \<Rightarrow> CloudProvider outcome" where
  "attemptDispatching r s = dispatch_queue r (cp_queue s) s"

definition handleNodeUpdate ::
  "DataRepository \<Rightarrow> string \<Rightarrow> string \<Rightarrow> u64 \<Rightarrow> u64 \<Rightarrow> u64 \<Rightarrow> CloudProvider \<Rightarrow> CloudProvider outcome" where
  "handleNodeUpdate r topic zone c m d s =
     and_then (db_addOrUpdateNode (Some topic) (Some zone) c m d (cp_nodeDb s)) (\<lambda>tb.
       attemptDispatching r (s\<lparr>cp_nodeDb := tb\<rparr>))"

definition skips_queue :: "DataRepository \<Rightarrow> SM_UserVM \<Rightarrow> CloudProvider \<Rightarrow> bool" where
  "skips_queue r rq s \<longleftrightarrow> cp_dispatchPriority s \<and>
     (case findUserTypeById r (uv_userId rq) of None \<Rightarrow> False | Some u \<Rightarrow> cp_priorityType u = Priority)"

definition cp_handleVmRequest :: "DataRepository \<Rightarrow> nat \<Rightarrow> SM_UserVM \<Rightarrow> CloudProvider \<Rightarrow> CloudProvider outcome" where
  "cp_handleVmRequest r a rq s =
     (if cp_queue s \<noteq> [] \<and> \<not> skips_queue r rq s then Inr (rejectVmRequest a rq s)
      else and_then (selectNode r rq (cp_defaultZone s) (cp_nodeDb s)) (\<lambda>(topic, tb).
        Inr (case topic of
            None \<Rightarrow> rejectVmRequest a rq (s\<lparr>cp_nodeDb := tb\<rparr>)
          | Some t \<Rightarrow> dispatch a rq t (s\<lparr>cp_nodeDb := tb\<rparr>))))"

definition handleVmSubscription :: "rat \<Rightarrow> nat \<Rightarrow> SM_UserVM \<Rightarrow> CloudProvider \<Rightarrow> CloudProvider outcome" where
  "handleVmSubscription now a rq s =
     (if uv_vm rq = [] then Inl (RuntimeError ''Array of size 0 indexed by 0'')
      else let t = now + maxSubTime (rq_times (hd (uv_vm rq)))
        in if t < now then Inl (RuntimeError ''Cannot schedule message to the past'')
           else Inr (s\<lparr>cp_timers := cp_timers s @ [(t, a)],
             cp_queue := cp_queue s @ [\<lparr>qe_request = a,
               qe_message = rq\<lparr>uv_startSubscriptionTime := now\<rparr>, qe_timeOut = t\<rparr>]\<rparr>))"

text \<open>The timer that fires is no longer scheduled.\<close>

definition handleSubscriptionTimeout :: "rat \<Rightarrow> nat \<Rightarrow> CloudProvider \<Rightarrow> CloudProvider outcome" where
  "handleSubscriptionTimeout now a s =
     (let s = s\<lparr>cp_timers := remove1 (now, a) (cp_timers s)\<rparr>
      in case first_index (\<lambda>e. qe_request e = a) (cp_queue s) of
           None \<Rightarrow> Inl (RuntimeError ''Recieved timeout for request that doesnt exist in the queue'')
         | Some i \<Rightarrow>
             let rq = qe_message (cp_queue s ! i)
             in Inr (cp_send a (rq\<lparr>uv_endSubscriptionTime := now, uv_isResponse := True,
                  uv_operation := SM_VM_Sub, uv_result := SM_APP_Sub_Timeout,
                  uv_destinationTopic := uv_returnTopic rq\<rparr>)
                (s\<lparr>cp_queue := take i (cp_queue s) @ drop (Suc i) (cp_queue s)\<rparr>)))"

datatype cp_event =
    NodeReport string string u64 u64 u64
  | UserMessage nat SM_UserVM
  | Timeout nat

text \<open>\<open>handleMessage\<close> at the time \<open>now\<close>.\<close>

fun cp_handleMessage :: "DataRepository \<Rightarrow> rat \<times> cp_event \<Rightarrow> CloudProvider \<Rightarrow> CloudProvider outcome" where
  "cp_handleMessage r (now, Timeout a) s = handleSubscriptionTimeout now a s"
| "cp_handleMessage r (now, UserMessage a rq) s =
     (if uv_operation rq = SM_VM_Req_op then cp_handleVmRequest r a rq s
      else if uv_operation rq = SM_VM_Sub then handleVmSubscription now a rq s
      else Inl (RuntimeError ''Unexpected message kind''))"
| "cp_handleMessage r (now, NodeReport topic zone c m d) s = handleNodeUpdate r topic zone c m d s"

section \<open>The id of a user names its type\<close>

lemma first_index_append:
  "\<forall>x\<in>set xs. \<not> P x \<Longrightarrow> P y \<Longrightarrow> first_index P (xs @ y # ys) = Some (length xs)"
  by (induction xs) auto

lemma show_int_no_bracket:
  "0 \<le> i \<Longrightarrow> c \<in> set (show_int i) \<Longrightarrow> c \<noteq> CHR ''['' \<and> c \<noteq> CHR '')''"
  using show_nat_digits [of c "nat i"] by (auto simp: show_int_def is_digit_def)

text \<open>The id that is built for an instance of a user leads back to the type of the user, so that a
  priority user is recognised, unless the name of the type contains an opening bracket.
\<close>

theorem user_type_roundtrip:
  assumes "CHR ''['' \<notin> set type"
  shows "user_type_of (user_instance_id type un i n) = Some type"
proof -
  let ?p = "''('' @ show_int (uint un)" and ?q = "show_int (i + 1) @ ''/'' @ show_int n @ '']''"
  have u: "user_instance_id type un i n = ?p @ CHR '')'' # (type @ CHR ''['' # ?q)"
    "user_instance_id type un i n = (?p @ CHR '')'' # type) @ CHR ''['' # ?q"
    by (simp_all add: user_instance_id_def)
  have "first_index (\<lambda>c. c = CHR '')'') (user_instance_id type un i n) = Some (length ?p)"
    unfolding u(1) using show_int_no_bracket [of "uint un"] by (intro first_index_append) auto
  moreover have "first_index (\<lambda>c. c = CHR ''['') (user_instance_id type un i n) = Some (length (?p @ CHR '')'' # type))"
    unfolding u(2) using show_int_no_bracket [of "uint un"] assms by (intro first_index_append) auto
  ultimately show ?thesis by (simp add: user_type_of_def u(1))
qed

theorem user_type_roundtrip_witness: "user_type_of ''(4)UserA[1/20]'' = Some ''UserA''"
proof -
  have "user_instance_id ''UserA'' 4 0 20 = ''(4)UserA[1/20]''" by code_simp
  with user_type_roundtrip [of "''UserA''" 4 0 20] show ?thesis by simp
qed

section \<open>The node that is chosen\<close>

definition cores_of :: "NodeTable \<Rightarrow> nat \<Rightarrow> u64" where
  "cores_of tb n = ne_availableCores (tb_nodes tb ! n)"

lemma small_cores:
  fixes c :: u64
  assumes "c < 2 ^ 31"
  shows "scast (ucast c :: u32) = c"
proof -
  have l: "uint c < 2 ^ 31" using assms by (simp add: word_less_def)
  have "uint (ucast c :: u32) = take_bit 32 (uint c)" by transfer simp
  then have "uint (ucast c :: u32) = uint c" using l by (simp add: take_bit_int_eq_self)
  then have "sint (ucast c :: u32) = uint c" using l by (simp add: sint32)
  then show ?thesis by (metis scast_eq word_of_int_uint)
qed

lemma best_node_invariant:
  assumes "\<forall>n\<in>set pool. n < length (tb_nodes tb) \<and> cores_of tb n < 2 ^ 31"
    and "best_node c tb pool (ucast b, sel) = Inr k" "b < 2 ^ 31"
  shows "(k = sel \<and> (\<forall>n\<in>set pool. \<not> (c \<le> cores_of tb n \<and> b < cores_of tb n))) \<or>
    (\<exists>n\<in>set pool. k = int n \<and> c \<le> cores_of tb n \<and> b < cores_of tb n \<and>
       (\<forall>m\<in>set pool. c \<le> cores_of tb m \<longrightarrow> cores_of tb m \<le> cores_of tb n))"
  using assms
proof (induction pool arbitrary: b sel)
  case Nil
  then show ?case by simp
next
  case (Cons n pool)
  have n: "getNodeEntry (int n) tb = Inr (tb_nodes tb ! n)" and cn: "cores_of tb n < 2 ^ 31"
    using Cons.prems(1) by (auto simp: getNodeEntry_def)
  have tail: "\<forall>n\<in>set pool. n < length (tb_nodes tb) \<and> cores_of tb n < 2 ^ 31" using Cons.prems(1) by simp
  show ?case
  proof (cases "c \<le> cores_of tb n \<and> b < cores_of tb n")
    case True
    then have "best_node c tb pool (ucast (cores_of tb n), int n) = Inr k"
      using Cons.prems(2) n small_cores [OF Cons.prems(3)] by (simp add: cores_of_def Let_def)
    from Cons.IH [OF tail this cn] True show ?thesis by (auto simp: not_less intro: less_trans)
  next
    case False
    then have "best_node c tb pool (ucast b, sel) = Inr k"
      using Cons.prems(2) n small_cores [OF Cons.prems(3)] by (auto simp: cores_of_def Let_def)
    from Cons.IH [OF tail this Cons.prems(3)] False show ?thesis by (auto simp: not_less)
  qed
qed

lemma best_node_total:
  "\<forall>n\<in>set pool. n < length (tb_nodes tb) \<Longrightarrow> \<exists>k. best_node c tb pool bs = Inr k"
proof (induction pool arbitrary: bs)
  case Nil
  then show ?case by (cases bs) simp
next
  case (Cons n pool)
  then show ?case by (cases bs) (auto simp: getNodeEntry_def Let_def)
qed

definition table_small :: "NodeTable \<Rightarrow> bool" where
  "table_small tb \<longleftrightarrow> (\<forall>n<length (tb_nodes tb). cores_of tb n < 2 ^ 31)"

lemma selectNodeInPool_None: "selectNodeInPool r rq pool tb = Inr (None, tb') \<Longrightarrow> tb' = tb"
  by (auto simp: selectNodeInPool_def and_then_eq_Inr split: if_splits)

lemma selectNode_cases:
  assumes "selectNode r rq z tb = Inr (t, tb')"
  obtains pool where "findNodesByZone (uv_zone rq) tb = Some pool" "selectNodeInPool r rq pool tb = Inr (t, tb')" "t \<noteq> None"
  | pool where "findNodesByZone z tb = Some pool" "selectNodeInPool r rq pool tb = Inr (t, tb')"
proof -
  obtain p where p: "(case findNodesByZone (uv_zone rq) tb of
      None \<Rightarrow> Inr (None, tb) | Some pool \<Rightarrow> selectNodeInPool r rq pool tb) = Inr p"
    "(case p of (topic, tb') \<Rightarrow> if topic \<noteq> None then Inr (topic, tb') else case findNodesByZone z tb' of
       None \<Rightarrow> Inl (RuntimeError ''No nodes found in default zone!'')
     | Some pool \<Rightarrow> selectNodeInPool r rq pool tb') = Inr (t, tb')"
    using assms unfolding selectNode_def and_then_eq_Inr by blast
  obtain t1 tb1 where t1: "p = (t1, tb1)" by (cases p)
  note 1 = p(1) [unfolded t1] and 2 = p(2) [unfolded t1 prod.case]
  show thesis
  proof (cases "t1 = None")
    case True
    then have "tb1 = tb" using 1 selectNodeInPool_None by (cases "findNodesByZone (uv_zone rq) tb") auto
    then show thesis using 2 True that(2) by (cases "findNodesByZone z tb") auto
  next
    case False
    then obtain pool where "findNodesByZone (uv_zone rq) tb = Some pool"
      using 1 by (cases "findNodesByZone (uv_zone rq) tb") auto
    then show thesis using 1 2 False that(1) by simp
  qed
qed

lemma selectNode_None:
  assumes "selectNode r rq z tb = Inr (None, tb')" shows "tb' = tb"
  using assms by (rule selectNode_cases) (auto dest: selectNodeInPool_None)

lemma zone_nodes:
  assumes "table_ok tb" "findNodesByZone z tb = Some pool"
  shows "\<forall>n\<in>set pool. n < length (tb_nodes tb)"
proof -
  obtain i where "find_sorted nz_zone z (tb_zones tb) = Some i" "pool = nz_nodes (tb_zones tb ! i)"
    using assms(2) by (auto simp: findNodesByZone_def)
  moreover from this have "i < length (tb_zones tb)"
    using assms(1) find_sorted_Some [of nz_zone "tb_zones tb" z i] by (simp add: table_ok_def)
  ultimately show ?thesis using assms(1) nth_mem unfolding table_ok_def by blast
qed

text \<open>Among the data centres of the zone that have the requested cores, the one with most free cores
  is chosen, its free cores are reduced by exactly the requested ones without wrapping around, and no
  data centre is chosen only when none has the cores, or none has any.
\<close>

theorem most_free_node_chosen:
  assumes "table_ok tb" "table_small tb" "findNodesByZone z tb = Some pool"
    and "calculateRequestedCores r rq = Inr c" "selectNodeInPool r rq pool tb = Inr (topic, tb')"
  shows "case topic of
      None \<Rightarrow> tb' = tb \<and> (\<forall>n\<in>set pool. cores_of tb n < c \<or> cores_of tb n = 0)
    | Some t \<Rightarrow> \<exists>n\<in>set pool. c \<le> cores_of tb n \<and> getTopicForNode (tb_nodes tb ! n) tb = Inr t \<and>
        (\<forall>m\<in>set pool. c \<le> cores_of tb m \<longrightarrow> cores_of tb m \<le> cores_of tb n) \<and>
        unat (cores_of tb' n) = unat (cores_of tb n) - unat c \<and> (\<forall>m. m \<noteq> n \<longrightarrow> cores_of tb' m = cores_of tb m)"
proof -
  note pool = zone_nodes [OF assms(1,3)]
  then have p: "\<forall>n\<in>set pool. n < length (tb_nodes tb) \<and> cores_of tb n < 2 ^ 31"
    using assms(2) by (auto simp: table_small_def)
  obtain k where k: "best_node c tb pool (ucast (0 :: u64), - 1) = Inr k"
    using best_node_total [OF pool] by blast
  from best_node_invariant [OF p k] consider
    (none) "k = - 1" "\<forall>n\<in>set pool. \<not> (c \<le> cores_of tb n \<and> 0 < cores_of tb n)"
  | (some) n where "n \<in> set pool" "k = int n" "c \<le> cores_of tb n"
      "\<forall>m\<in>set pool. c \<le> cores_of tb m \<longrightarrow> cores_of tb m \<le> cores_of tb n" by auto
  then show ?thesis
  proof cases
    case none
    then have "topic = None \<and> tb' = tb" using assms(4,5) k by (simp add: selectNodeInPool_def)
    with none(2) show ?thesis by (auto simp: not_le word_gt_0)
  next
    case some
    then have l: "n < length (tb_nodes tb)" using pool by blast
    have e: "getNodeEntry k tb = Inr (tb_nodes tb ! n)" using l some(2) by (simp add: getNodeEntry_def)
    have t: "topic \<noteq> None" "getTopicForNode (tb_nodes tb ! n) tb = Inr (the topic)" "tb' = take_cores k c tb"
      using assms(4,5) k some(2) e by (auto simp: selectNodeInPool_def and_then_eq_Inr)
    have "unat (cores_of tb' n) = unat (cores_of tb n) - unat c"
      using some(2,3) l by (simp add: t(3) take_cores_def cores_of_def unat_sub)
    moreover have "\<forall>m. m \<noteq> n \<longrightarrow> cores_of tb' m = cores_of tb m"
      using some(2) by (simp add: t(3) take_cores_def cores_of_def)
    ultimately show ?thesis using some t by auto
  qed
qed

text \<open>The request is sent to the wrong data centre: the chosen node \<open>i\<close> has the requested cores, and
  they are taken from it, but the request goes to the \<open>i\<close>-th topic in alphabetical order, not to the
  topic of the \<open>i\<close>-th data centre.
\<close>

theorem request_sent_to_other_centre:
  assumes "distinct (map fst us)" "reports us clear_table = Inr tb" "table_small tb"
    and "selectNode r rq z tb = Inr (Some t, tb')"
  shows "\<exists>i<length us. t = sort (map fst us) ! i \<and> calculateRequestedCores r rq = Inr (cores_of tb i - cores_of tb' i) \<and>
    cores_of tb i - cores_of tb' i \<le> fst (snd (snd (us ! i)))"
proof -
  have ok: "table_ok tb" using reports_ok [OF table_ok_clear, of us] assms(2) by simp
  note tp = reports_topics [OF assms(1,2)]
  have ti: "getTopicForNode (tb_nodes tb ! i) tb = Inr (sort (map fst us) ! i)" if "i < length us" for i
  proof -
    have "ne_topicIndex (tb_nodes tb ! i) = i" using ok tp that by (simp add: table_ok_def)
    moreover have "length (tb_topics tb) = length us" using tp by (metis length_map length_sort)
    ultimately show ?thesis using tp that by (simp add: getTopicForNode_def) (metis nth_map)
  qed
  obtain z' pool where pool: "findNodesByZone z' tb = Some pool" and s: "selectNodeInPool r rq pool tb = Inr (Some t, tb')"
    using assms(4) by (rule selectNode_cases) blast+
  obtain c where c: "calculateRequestedCores r rq = Inr c" using s by (auto simp: selectNodeInPool_def and_then_eq_Inr)
  obtain k where k: "best_node c tb pool (ucast (0 :: u64), - 1) = Inr k" "k \<noteq> - 1"
    using s c by (auto simp: selectNodeInPool_def and_then_eq_Inr split: if_splits)
  have p: "\<forall>n\<in>set pool. n < length (tb_nodes tb) \<and> cores_of tb n < 2 ^ 31"
    using zone_nodes [OF ok pool] assms(3) by (auto simp: table_small_def)
  obtain n where n: "n \<in> set pool" "k = int n" "c \<le> cores_of tb n" using best_node_invariant [OF p k(1)] k(2) by auto
  then have l: "n < length us" "n < length (tb_nodes tb)" using p tp by auto
  have "tb' = take_cores k c tb" "t = sort (map fst us) ! n"
    using s c k n(2) l ti [OF l(1)] by (auto simp: selectNodeInPool_def and_then_eq_Inr getNodeEntry_def)
  moreover from this have "cores_of tb n - cores_of tb' n = c" using n(2) l by (simp add: take_cores_def cores_of_def)
  moreover have "cores_of tb n = fst (snd (snd (us ! n)))"
    using tp l by (metis cores_of_def entry_amounts_def fst_conv)
  ultimately show ?thesis using l(1) c n(3) by auto
qed

section \<open>The queue\<close>

definition forwarded :: "QueueElement \<Rightarrow> string \<Rightarrow> nat \<times> SM_UserVM" where
  "forwarded e t = (qe_request e, (qe_message e)\<lparr>uv_autoSourceTopic := False, uv_destinationTopic := t\<rparr>)"

definition serves ::
  "DataRepository \<Rightarrow> QueueElement list \<Rightarrow> CloudProvider \<Rightarrow> CloudProvider \<Rightarrow> nat \<Rightarrow> string list \<Rightarrow> bool" where
  "serves r q s s' k ts \<longleftrightarrow> length ts = k \<and> k \<le> length q \<and> cp_queue s' = drop k q \<and>
     cp_sent s' = cp_sent s @ map2 forwarded (take k q) ts \<and>
     cp_timers s' = fold (\<lambda>e. remove1 (qe_timeOut e, qe_request e)) (take k q) (cp_timers s) \<and>
     (k < length q \<longrightarrow> selectNode r (qe_message (q ! k)) (cp_defaultZone s) (cp_nodeDb s') = Inr (None, cp_nodeDb s'))"

lemma dispatch_queue_spec: "dispatch_queue r q s = Inr s' \<Longrightarrow> \<exists>k ts. serves r q s s' k ts"
proof (induction r q s rule: dispatch_queue.induct)
  case (1 r s)
  then show ?case by (intro exI [of _ 0] exI [of _ "[]"]) (auto simp: serves_def)
next
  case (2 r e q s)
  obtain topic tb where sel: "selectNode r (qe_message e) (cp_defaultZone s) (cp_nodeDb s) = Inr (topic, tb)"
    using 2(2) by (auto simp: and_then_eq_Inr)
  show ?case
  proof (cases topic)
    case None
    then have s': "s' = s\<lparr>cp_nodeDb := tb, cp_queue := e # q\<rparr>" "tb = cp_nodeDb s"
      using 2(2) sel selectNode_None by (auto simp: and_then_eq_Inr)
    show ?thesis by (rule exI [of _ 0], rule exI [of _ "[]"]) (use sel None in \<open>simp add: s' serves_def\<close>)
  next
    case (Some t)
    let ?s = "dispatch (qe_request e) (qe_message e) t
        (s\<lparr>cp_nodeDb := tb, cp_timers := remove1 (qe_timeOut e, qe_request e) (cp_timers s)\<rparr>)"
    have d: "dispatch_queue r q ?s = Inr s'" using 2(2) sel Some by simp
    from 2(1) [OF Some d] obtain k ts where IH: "serves r q ?s s' k ts" by blast
    show ?thesis
      by (rule exI [of _ "Suc k"], rule exI [of _ "t # ts"]) (use IH in \<open>simp add: serves_def dispatch_def cp_send_def forwarded_def\<close>)
  qed
qed

text \<open>When a data centre reports, the head of the queue is served as long as some data centre has
  room for it: what is sent are the first requests of the queue, in order, and what stays starts with
  a request no data centre of its zone or of the default zone has room for.
\<close>

theorem reports_serve_queue_in_order:
  assumes "handleNodeUpdate r topic zone c m d s = Inr s'"
  shows "\<exists>k. cp_queue s' = drop k (cp_queue s) \<and>
    map fst (cp_sent s') = map fst (cp_sent s) @ map qe_request (take k (cp_queue s)) \<and>
    (cp_queue s' \<noteq> [] \<longrightarrow> selectNode r (qe_message (hd (cp_queue s'))) (cp_defaultZone s) (cp_nodeDb s') = Inr (None, cp_nodeDb s'))"
proof -
  obtain tb where d: "dispatch_queue r (cp_queue s) (s\<lparr>cp_nodeDb := tb\<rparr>) = Inr s'"
    using assms by (auto simp: handleNodeUpdate_def attemptDispatching_def and_then_eq_Inr)
  obtain k ts where k: "serves r (cp_queue s) (s\<lparr>cp_nodeDb := tb\<rparr>) s' k ts" using dispatch_queue_spec [OF d] by blast
  have "map fst (map2 forwarded xs ys) = map qe_request xs" if "length xs = length ys" for xs ys
    using that by (induction xs ys rule: list_induct2) (simp_all add: forwarded_def)
  then have "map fst (map2 forwarded (take k (cp_queue s)) ts) = map qe_request (take k (cp_queue s))"
    using k by (simp add: serves_def)
  with k show ?thesis by (intro exI [of _ k]) (auto simp: serves_def hd_drop_conv_nth)
qed

text \<open>
  The runs of the module: a message that arrives is not one that waits in the queue, and a timer
  fires when it was scheduled to.  \<open>got\<close> lists the requests that arrived.
\<close>

inductive cp_reach :: "DataRepository \<Rightarrow> CloudProvider \<Rightarrow> nat list \<Rightarrow> CloudProvider \<Rightarrow> bool" for r s0 where
  start: "cp_reach r s0 [] s0"
| request_arrives: "cp_reach r s0 got s \<Longrightarrow> a \<notin> qe_request ` set (cp_queue s) \<Longrightarrow>
    cp_handleMessage r (now, UserMessage a rq) s = Inr s' \<Longrightarrow> cp_reach r s0 (got @ [a]) s'"
| timer_fires: "cp_reach r s0 got s \<Longrightarrow> (now, a) \<in> set (cp_timers s) \<Longrightarrow>
    cp_handleMessage r (now, Timeout a) s = Inr s' \<Longrightarrow> cp_reach r s0 got s'"
| node_reports: "cp_reach r s0 got s \<Longrightarrow>
    cp_handleMessage r (now, NodeReport topic zone c m d) s = Inr s' \<Longrightarrow> cp_reach r s0 got s'"

definition queue_timers :: "QueueElement list \<Rightarrow> (rat \<times> nat) multiset" where
  "queue_timers q = image_mset (\<lambda>e. (qe_timeOut e, qe_request e)) (mset q)"

definition cp_ok :: "nat list \<Rightarrow> CloudProvider \<Rightarrow> bool" where
  "cp_ok got s \<longleftrightarrow> distinct (map qe_request (cp_queue s)) \<and> mset (cp_timers s) = queue_timers (cp_queue s) \<and>
     mset got = mset (map fst (cp_sent s)) + mset (map qe_request (cp_queue s))"

lemma mset_fold_remove1:
  "mset (fold (\<lambda>e. remove1 (f e)) xs ys) = mset ys - image_mset f (mset xs)"
  by (induction xs arbitrary: ys) (simp_all add: diff_diff_add)

lemma mset_sent_map2:
  "length xs = length ts \<Longrightarrow> mset (map fst (map2 forwarded xs ts)) = image_mset qe_request (mset xs)"
  by (induction xs ts rule: list_induct2) (simp_all add: forwarded_def)

lemma cp_ok_dispatch:
  assumes "cp_ok got s" "dispatch_queue r (cp_queue s) (s\<lparr>cp_nodeDb := tb\<rparr>) = Inr s'"
  shows "cp_ok got s'"
proof -
  let ?q = "cp_queue s"
  obtain k ts where K: "serves r ?q (s\<lparr>cp_nodeDb := tb\<rparr>) s' k ts" using dispatch_queue_spec [OF assms(2)] by blast
  then have k: "length ts = k" "k \<le> length ?q" "cp_queue s' = drop k ?q"
    "cp_sent s' = cp_sent s @ map2 forwarded (take k ?q) ts"
    "cp_timers s' = fold (\<lambda>e. remove1 (qe_timeOut e, qe_request e)) (take k ?q) (cp_timers s)"
    by (simp_all add: serves_def)
  have split: "mset ?q = mset (take k ?q) + mset (drop k ?q)" by (metis append_take_drop_id mset_append)
  have "mset (map fst (cp_sent s')) = mset (map fst (cp_sent s)) + image_mset qe_request (mset (take k ?q))"
    using k(1,2) unfolding k(4) by (simp only: map_append mset_append) (subst mset_sent_map2, simp_all)
  moreover have "distinct (map qe_request (drop k ?q))" using assms(1) by (simp add: cp_ok_def drop_map [symmetric])
  ultimately show ?thesis
    using assms(1) k(3) split by (simp add: cp_ok_def queue_timers_def k(5) mset_fold_remove1)
qed

lemma cp_ok_timeout:
  assumes "cp_ok got s" "(now, a) \<in> set (cp_timers s)"
  shows "\<exists>s'. handleSubscriptionTimeout now a s = Inr s' \<and> cp_ok got s'"
proof -
  let ?q = "cp_queue s"
  have "(now, a) \<in># queue_timers ?q" using assms by (metis cp_ok_def set_mset_mset)
  then obtain e where e: "e \<in> set ?q" "qe_timeOut e = now" "qe_request e = a" by (auto simp: queue_timers_def)
  obtain i where i: "first_index (\<lambda>e. qe_request e = a) ?q = Some i"
    using e first_index_None [of "\<lambda>e. qe_request e = a" ?q] by (cases "first_index (\<lambda>e. qe_request e = a) ?q") auto
  then have il: "i < length ?q" "qe_request (?q ! i) = a" by (auto simp: first_index_Some)
  have "?q ! i = e"
    using e il assms(1) by (metis cp_ok_def distinct_map inj_onD nth_mem)
  then have ie: "qe_timeOut (?q ! i) = now" using e by simp
  have q: "mset ?q = {#?q ! i#} + mset (take i ?q @ drop (Suc i) ?q)"
    using il(1) by (metis add_mset_add_single append_take_drop_id Cons_nth_drop_Suc mset.simps(2) mset_append
        union_commute union_mset_add_mset_right)
  have "distinct (map qe_request (take i ?q @ drop (Suc i) ?q))"
    using assms(1) set_take_disj_set_drop_if_distinct [of "map qe_request ?q" i "Suc i"]
    by (simp add: cp_ok_def take_map [symmetric] drop_map [symmetric])
  then show ?thesis
    using i assms(1) q ie il(2)
    by (simp add: handleSubscriptionTimeout_def Let_def cp_ok_def cp_send_def queue_timers_def)
qed

lemma cp_handleVmRequest_shape:
  assumes "cp_handleVmRequest r a rq s = Inr s'"
  shows "\<exists>m. cp_sent s' = cp_sent s @ [(a, m)] \<and> cp_queue s' = cp_queue s \<and> cp_timers s' = cp_timers s"
proof (cases "cp_queue s \<noteq> [] \<and> \<not> skips_queue r rq s")
  case True
  then show ?thesis using assms by (auto simp: cp_handleVmRequest_def rejectVmRequest_def cp_send_def)
next
  case False
  then obtain t tb where "s' = (case t of None \<Rightarrow> rejectVmRequest a rq (s\<lparr>cp_nodeDb := tb\<rparr>)
      | Some t \<Rightarrow> dispatch a rq t (s\<lparr>cp_nodeDb := tb\<rparr>))"
    using assms unfolding cp_handleVmRequest_def by (auto simp: and_then_eq_Inr split del: option.split)
  then show ?thesis by (cases t) (auto simp: rejectVmRequest_def dispatch_def cp_send_def)
qed

lemma handleVmSubscription_shape:
  assumes "handleVmSubscription now a rq s = Inr s'"
  shows "\<exists>e. qe_request e = a \<and> cp_queue s' = cp_queue s @ [e] \<and> cp_sent s' = cp_sent s \<and>
    cp_timers s' = cp_timers s @ [(qe_timeOut e, a)]"
  using assms by (auto simp: handleVmSubscription_def Let_def split: if_splits)

lemma cp_reach_ok: "cp_reach r s0 got s \<Longrightarrow> cp_ok [] s0 \<Longrightarrow> cp_ok got s"
proof (induction rule: cp_reach.induct)
  case (request_arrives got s a now rq s')
  then have ok: "cp_ok got s" by blast
  consider "cp_handleVmRequest r a rq s = Inr s'" | "handleVmSubscription now a rq s = Inr s'"
    using request_arrives(3) by (auto split: if_splits)
  then show ?case
  proof cases
    case 1
    from cp_handleVmRequest_shape [OF 1] ok show ?thesis by (auto simp: cp_ok_def)
  next
    case 2
    from handleVmSubscription_shape [OF 2] ok request_arrives(2) show ?thesis by (auto simp: cp_ok_def queue_timers_def)
  qed
next
  case (timer_fires got s now a s')
  then show ?case using cp_ok_timeout [of got s now a] by auto
next
  case (node_reports got s now topic zone c m d s')
  then show ?case
    by (auto simp: handleNodeUpdate_def attemptDispatching_def and_then_eq_Inr intro: cp_ok_dispatch)
qed simp

text \<open>C19.  No request is lost, answered twice or left with a stale timer: in every run each request that
  arrived was sent on or answered exactly once, or waits in the queue with exactly one timer; and the
  timer of a waiting request, when it fires, always finds its request.
\<close>

theorem every_request_answered_once:
  assumes "cp_reach r (cp_initialize p z) got s"
  shows "mset got = mset (map fst (cp_sent s)) + mset (map qe_request (cp_queue s)) \<and>
    mset (cp_timers s) = queue_timers (cp_queue s) \<and>
    (\<forall>(t, a)\<in>set (cp_timers s). is_ok (handleSubscriptionTimeout t a s))"
proof -
  have "cp_ok [] (cp_initialize p z)" by (simp add: cp_ok_def cp_initialize_def queue_timers_def)
  then have ok: "cp_ok got s" by (rule cp_reach_ok [OF assms])
  then show ?thesis using cp_ok_timeout [OF ok] by (auto simp: cp_ok_def is_ok_iff)
qed

section \<open>A concrete provider\<close>

definition two_centres :: "report list" where
  "two_centres = [(''madrid'', ''cloud'', 8, 1, 1), (''berlin'', ''cloud'', 64, 1, 1)]"

definition two_centres_table :: NodeTable where
  "two_centres_table = \<lparr>tb_nodes =
      [\<lparr>ne_availableCores = 8, ne_availableRam = 1, ne_availableDisk = 1, ne_topicIndex = 0, ne_zoneIndex = 0\<rparr>,
       \<lparr>ne_availableCores = 64, ne_availableRam = 1, ne_availableDisk = 1, ne_topicIndex = 1, ne_zoneIndex = 0\<rparr>],
    tb_topics = [\<lparr>nt_topic = ''berlin'', nt_nodeId = 1\<rparr>, \<lparr>nt_topic = ''madrid'', nt_nodeId = 0\<rparr>],
    tb_zones = [\<lparr>nz_zone = ''cloud'', nz_nodes = [0, 1]\<rparr>]\<rparr>"

definition big_repository :: DataRepository where
  "big_repository = empty_repository\<lparr>vmMap := [(''big'', \<lparr>vm_type = ''big'', vm_numCores = 32, vm_diskMiB = 1,
     vm_memoryMiB = 1, vm_cost = 0, vm_scu = 0\<rparr>)]\<rparr>"

definition big_request :: SM_UserVM where
  "big_request = \<lparr>uv_operation = 500, uv_isResponse = False, uv_result = -1, uv_autoSourceTopic = True,
     uv_destinationTopic = [], uv_returnTopic = ''user'', uv_startSubscriptionTime = 0, uv_endSubscriptionTime = 0,
     uv_vmId = [], uv_userId = [], uv_zone = ''cloud'', uv_domain = [],
     uv_vm = [\<lparr>rq_times = \<lparr>maxStartTime = 1, rentTime = 1, maxSubTime = 5, maxSubscriptionTime = 5\<rparr>,
       rq_vmType = ''big'', rq_vmId = ''v'', rq_response = empty_response\<rparr>]\<rparr>"

lemma two_centres_reported: "reports two_centres clear_table = Inr two_centres_table"
  unfolding two_centres_def two_centres_table_def by code_simp

lemma two_centres_ok: "table_ok two_centres_table" "table_small two_centres_table"
proof -
  show "table_ok two_centres_table"
    using reports_ok [OF table_ok_clear, of two_centres] two_centres_reported by simp
  show "table_small two_centres_table"
    by (auto simp: table_small_def two_centres_table_def cores_of_def less_Suc_eq)
qed

lemma big_cores: "calculateRequestedCores big_repository big_request = Inr 32"
  by (simp add: calculateRequestedCores_def big_request_def searchVm_def manager_search_def findInMapOrNull_def
      big_repository_def)

lemma cloud_zone: "findNodesByZone ''cloud'' two_centres_table = Some [0, 1]"
  unfolding two_centres_table_def by code_simp

lemma big_in_pool:
  "selectNodeInPool big_repository big_request [0, 1] two_centres_table =
     Inr (Some ''madrid'', take_cores 1 32 two_centres_table)"
  unfolding selectNodeInPool_def big_cores
  by (simp add: getNodeEntry_def two_centres_table_def Let_def getTopicForNode_def)

lemma big_selected:
  "selectNode big_repository big_request ''cloud'' two_centres_table =
     Inr (Some ''madrid'', take_cores 1 32 two_centres_table)"
  using big_in_pool cloud_zone by (simp add: selectNode_def big_request_def)

theorem most_free_node_chosen_witness:
  "\<exists>n\<in>{0, 1}. 32 \<le> cores_of two_centres_table n \<and>
     unat (cores_of (take_cores 1 32 two_centres_table) n) = unat (cores_of two_centres_table n) - 32"
  using most_free_node_chosen [OF two_centres_ok cloud_zone big_cores big_in_pool] by auto

theorem request_sent_to_other_centre_witness:
  "\<exists>i<2. ''madrid'' = sort (map fst two_centres) ! i \<and> 32 \<le> fst (snd (snd (two_centres ! i)))"
proof -
  have d: "distinct (map fst two_centres)" by (simp add: two_centres_def)
  obtain i where i: "i < length two_centres" "''madrid'' = sort (map fst two_centres) ! i"
    "calculateRequestedCores big_repository big_request =
       Inr (cores_of two_centres_table i - cores_of (take_cores 1 32 two_centres_table) i)"
    "cores_of two_centres_table i - cores_of (take_cores 1 32 two_centres_table) i \<le> fst (snd (snd (two_centres ! i)))"
    using request_sent_to_other_centre [OF d two_centres_reported two_centres_ok(2) big_selected] by blast
  from i(3) have "cores_of two_centres_table i - cores_of (take_cores 1 32 two_centres_table) i = 32"
    by (simp only: big_cores sum.inject)
  with i(4) have "32 \<le> fst (snd (snd (two_centres ! i)))" by (simp only:)
  moreover have "length two_centres = 2" by (simp add: two_centres_def)
  ultimately show ?thesis using i(1,2) by (intro exI [of _ i]) simp
qed

theorem reports_serve_queue_in_order_witness:
  "\<exists>s' k. handleNodeUpdate big_repository ''berlin'' ''cloud'' 64 1 1 (cp_initialize False ''cloud'') = Inr s' \<and>
     cp_queue s' = drop k []"
proof -
  obtain s' where s': "handleNodeUpdate big_repository ''berlin'' ''cloud'' 64 1 1 (cp_initialize False ''cloud'') = Inr s'"
    using db_report_refines [OF table_ok_clear, of "''berlin''" "''cloud''" 64 1 1]
    by (auto simp: handleNodeUpdate_def cp_initialize_def attemptDispatching_def)
  from reports_serve_queue_in_order [OF s'] s' show ?thesis by (auto simp: cp_initialize_def)
qed

theorem every_request_answered_once_witness:
  "\<exists>s. cp_reach big_repository (cp_initialize False ''cloud'') [7] s \<and> mset [7] =
     mset (map fst (cp_sent s)) + mset (map qe_request (cp_queue s)) \<and> cp_timers s = [(5, 7)]"
proof -
  let ?s = "cp_initialize False ''cloud''" and ?rq = "big_request\<lparr>uv_operation := 502\<rparr>"
  obtain s where s: "cp_handleMessage big_repository (0, UserMessage 7 ?rq) ?s = Inr s" "cp_timers s = [(5, 7)]"
    by (simp add: SM_VM_Req_op_def SM_VM_Sub_def handleVmSubscription_def big_request_def cp_initialize_def Let_def)
  then have r: "cp_reach big_repository ?s ([] @ [7]) s"
    by (intro request_arrives [OF start _ s(1)]) (simp_all add: cp_initialize_def)
  from every_request_answered_once [OF r] r s(2) show ?thesis by auto
qed

end
