(* ===== verification/ServiceTable.thy ===== *)
theory ServiceTable
  imports Prelude
begin

text \<open>
  The table of the services of a domain (\<open>architecture/net/stack/proxy/ServiceTable\<close>): the end points
  registered under every service name, and the subscribers that are told when a service appears or
  disappears.  A subscriber is its address; what subscribers are told goes to \<open>st_notified\<close>.
\<close>

section \<open>The table\<close>

record ServiceEntry =
  se_ip :: u32
  se_port :: u32

text \<open>The \<open>uint64_t\<close> view of the union of a service entry: the ip is the lower half.\<close>

definition entry_id :: "ServiceEntry \<Rightarrow> u64" where
  "entry_id e = push_bit 32 (ucast (se_port e)) OR ucast (se_ip e)"

definition entry_less :: "ServiceEntry \<Rightarrow> ServiceEntry \<Rightarrow> bool" where
  "entry_less a b \<longleftrightarrow> entry_id a < entry_id b"

datatype notification = Registered nat string | Unregistered nat string

record ServiceTable =
  st_serviceMap :: "string \<Rightarrow> ServiceEntry list option"
  st_subscribers :: "nat list"   \<comment> \<open>a \<open>std::set\<close> of pointers, in increasing order\<close>
  st_domain :: string
  st_notified :: "notification list"

definition table_start :: "string \<Rightarrow> ServiceTable" where
  "table_start domain_name = \<lparr>st_serviceMap = Map.empty, st_subscribers = [], st_domain = domain_name, st_notified = []\<rparr>"

definition service_finish :: "ServiceTable \<Rightarrow> ServiceTable" where
  "service_finish st = st\<lparr>st_serviceMap := Map.empty, st_subscribers := []\<rparr>"

definition subscribeToUpdates :: "nat \<Rightarrow> ServiceTable \<Rightarrow> ServiceTable" where
  "subscribeToUpdates obs st = st\<lparr>st_subscribers := insort_insert obs (st_subscribers st)\<rparr>"

definition unsubscribeFromUpdates :: "nat \<Rightarrow> ServiceTable \<Rightarrow> ServiceTable" where
  "unsubscribeFromUpdates obs st = st\<lparr>st_subscribers := remove1 obs (st_subscribers st)\<rparr>"

text \<open>\<open>serviceMap[name]\<close>, which inserts an empty vector when there is none.\<close>

definition entries_of :: "string \<Rightarrow> ServiceTable \<Rightarrow> ServiceEntry list" where
  "entries_of name st = (case st_serviceMap st name of Some es \<Rightarrow> es | None \<Rightarrow> [])"

definition registerService :: "string \<Rightarrow> int \<Rightarrow> int \<Rightarrow> ServiceTable \<Rightarrow> ServiceTable" where
  "registerService name ip port st =
     (let es = entries_of name st @ [\<lparr>se_ip = of_int ip, se_port = of_int port\<rparr>]
      in st\<lparr>st_serviceMap := (st_serviceMap st)(name \<mapsto> es),
            st_notified := st_notified st @
              (if length es = 1 then map (\<lambda>obs. Registered obs name) (st_subscribers st) else [])\<rparr>)"

text \<open>
  When the end point is not there, \<open>std::find_if\<close> gives the end of the vector, which is then
  dereferenced.
\<close>

definition unregisterService :: "string \<Rightarrow> int \<Rightarrow> int \<Rightarrow> ServiceTable \<Rightarrow> ServiceTable outcome" where
  "unregisterService name ip port st =
     (let es = entries_of name st; key = entry_id \<lparr>se_ip = of_int ip, se_port = of_int port\<rparr>
      in case first_index (\<lambda>e. entry_id e = key) es of
           None \<Rightarrow> Inl (Undefined ''*entries.end()'')
         | Some i \<Rightarrow>
             let es' = butlast (es[i := last es])
             in Inr (st\<lparr>st_serviceMap := (st_serviceMap st)(name \<mapsto> es'),
                  st_notified := st_notified st @
                    (if es' = [] then map (\<lambda>obs. Unregistered obs name) (st_subscribers st) else [])\<rparr>))"

definition findService :: "string \<Rightarrow> ServiceTable \<Rightarrow> ServiceEntry list option" where
  "findService name st = st_serviceMap st name"

section \<open>The directory it implements\<close>

text \<open>The specification: the multiset of the end points of every service.\<close>

definition endpoints :: "ServiceTable \<Rightarrow> string \<Rightarrow> ServiceEntry multiset" where
  "endpoints st name = mset (entries_of name st)"

lemma entry_id_inject: "entry_id a = entry_id b \<longleftrightarrow> a = b"
proof
  assume eq: "entry_id a = entry_id b"
  have ip: "(ucast (entry_id e) :: u32) = se_ip e" for e
    unfolding entry_id_def by (rule bit_word_eqI) (auto simp: bit_simps)
  have port: "(ucast (drop_bit 32 (entry_id e)) :: u32) = se_port e" for e
    unfolding entry_id_def by (rule bit_word_eqI) (auto simp: bit_simps dest: bit_imp_le_length)
  have "se_ip a = se_ip b" "se_port a = se_port b" using eq ip port by metis+
  then show "a = b" by simp
qed simp

lemma entry_less_trans:
  "entry_less a b \<Longrightarrow> entry_less b c \<Longrightarrow> entry_less a c" "\<not> entry_less a a" "entry_less a b \<or> a = b \<or> entry_less b a"
  using entry_id_inject by (auto simp: entry_less_def)

lemma register_endpoints:
  "endpoints (registerService name ip port st) =
     (endpoints st)(name := add_mset \<lparr>se_ip = of_int ip, se_port = of_int port\<rparr> (endpoints st name))"
  by (auto simp: endpoints_def entries_of_def registerService_def Let_def fun_eq_iff)

lemma swap_pop:
  assumes "i < length es"
  shows "mset (butlast (es[i := last es])) = mset es - {#es ! i#}"
proof -
  have ne: "es \<noteq> []" using assms by auto
  show ?thesis
  proof (cases "i = length es - 1")
    case True
    then have "es[i := last es] = es" using ne by (simp add: last_conv_nth list_update_same_conv)
    moreover have "mset es = add_mset (last es) (mset (butlast es))"
      using ne by (metis append_butlast_last_id mset.simps(2) mset_append union_mset_add_mset_right add.right_neutral mset.simps(1))
    ultimately show ?thesis using True ne by (simp add: last_conv_nth)
  next
    case False
    then have i: "i < length (butlast es)" using assms by simp
    have es: "es = butlast es @ [last es]" using ne by simp
    have "butlast (es[i := last es]) = (butlast es)[i := last es]"
      using i by (subst es) (simp add: list_update_append1)
    then have "mset (butlast (es[i := last es])) = add_mset (last es) (mset (butlast es) - {#butlast es ! i#})"
      using i by (simp add: mset_update)
    moreover have "butlast es ! i = es ! i" using i by (simp add: nth_butlast)
    moreover have "mset es = add_mset (last es) (mset (butlast es))"
      by (subst es) simp
    moreover have "es ! i \<in># mset (butlast es)" using i by (metis nth_butlast nth_mem set_mset_mset)
    ultimately show ?thesis by simp
  qed
qed

lemma unregister_endpoints:
  assumes "\<lparr>se_ip = of_int ip, se_port = of_int port\<rparr> \<in># endpoints st name"
  shows "\<exists>st'. unregisterService name ip port st = Inr st' \<and>
    endpoints st' = (endpoints st)(name := endpoints st name - {#\<lparr>se_ip = of_int ip, se_port = of_int port\<rparr>#})"
proof -
  let ?e = "\<lparr>se_ip = of_int ip, se_port = of_int port\<rparr>" and ?es = "entries_of name st"
  have "?e \<in> set ?es" using assms by (simp add: endpoints_def)
  then obtain i where i: "first_index (\<lambda>e. entry_id e = entry_id ?e) ?es = Some i"
    using first_index_None [of "\<lambda>e. entry_id e = entry_id ?e" ?es] by (cases "first_index (\<lambda>e. entry_id e = entry_id ?e) ?es") auto
  then have il: "i < length ?es" "?es ! i = ?e" by (auto simp: first_index_Some entry_id_inject)
  then show ?thesis
    using i swap_pop [OF il(1)]
    by (auto simp: unregisterService_def Let_def endpoints_def entries_of_def fun_eq_iff)
qed

lemma unregister_unknown:
  assumes "\<lparr>se_ip = of_int ip, se_port = of_int port\<rparr> \<notin># endpoints st name"
  shows "unregisterService name ip port st = Inl (Undefined ''*entries.end()'')"
proof -
  have "first_index (\<lambda>e. entry_id e = entry_id \<lparr>se_ip = of_int ip, se_port = of_int port\<rparr>) (entries_of name st) = None"
    using assms by (auto simp: first_index_None entry_id_inject endpoints_def)
  then show ?thesis by (simp add: unregisterService_def)
qed

section \<open>Sequences of registrations\<close>

datatype service_op = Add string int int | Remove string int int

definition op_entry :: "int \<Rightarrow> int \<Rightarrow> ServiceEntry" where
  "op_entry ip port = \<lparr>se_ip = of_int ip, se_port = of_int port\<rparr>"

text \<open>
  The directory as its clients see it: what a registration adds and what the withdrawal of a
  registered end point removes; the withdrawal of an unknown one is not promised to return.
\<close>

locale service_directory =
  fixes add :: "string \<Rightarrow> int \<Rightarrow> int \<Rightarrow> 't \<Rightarrow> 't"
    and withdraw :: "string \<Rightarrow> int \<Rightarrow> int \<Rightarrow> 't \<Rightarrow> 't outcome"
    and content :: "'t \<Rightarrow> string \<Rightarrow> ServiceEntry multiset"
  assumes add_content: "content (add name ip port t) =
      (content t)(name := add_mset (op_entry ip port) (content t name))"
    and withdraw_content: "op_entry ip port \<in># content t name \<Longrightarrow>
      \<exists>t'. withdraw name ip port t = Inr t' \<and> content t' = (content t)(name := content t name - {#op_entry ip port#})"
    and withdraw_unknown: "op_entry ip port \<notin># content t name \<Longrightarrow> \<not> is_ok (withdraw name ip port t)"
begin

fun run_ops :: "service_op list \<Rightarrow> 't \<Rightarrow> 't outcome" where
  "run_ops [] t = Inr t"
| "run_ops (Add name ip port # ops) t = run_ops ops (add name ip port t)"
| "run_ops (Remove name ip port # ops) t = and_then (withdraw name ip port t) (run_ops ops)"

lemma run_ops_spec:
  assumes "\<And>ops c. spec ops c = (case ops of [] \<Rightarrow> Some c
      | Add name ip port # ops \<Rightarrow> spec ops (c(name := add_mset (op_entry ip port) (c name)))
      | Remove name ip port # ops \<Rightarrow>
          if op_entry ip port \<in># c name then spec ops (c(name := c name - {#op_entry ip port#})) else None)"
  shows "case spec ops (content t) of
      Some c \<Rightarrow> \<exists>t'. run_ops ops t = Inr t' \<and> content t' = c | None \<Rightarrow> \<not> is_ok (run_ops ops t)"
proof (induction ops t rule: run_ops.induct)
  case (1 t)
  then show ?case by (simp add: assms)
next
  case (2 name ip port ops t)
  then show ?case by (subst assms) (simp add: add_content [unfolded fun_upd_def] fun_upd_def split: option.splits)
next
  case (3 name ip port ops t)
  show ?case
  proof (cases "op_entry ip port \<in># content t name")
    case True
    then obtain t' where t': "withdraw name ip port t = Inr t'"
      "content t' = (content t)(name := content t name - {#op_entry ip port#})" using withdraw_content by blast
    from 3 [of t'] True t' show ?thesis by (subst assms) (simp add: fun_upd_def split: option.splits)
  next
    case False
    with withdraw_unknown [OF False] show ?thesis by (subst assms) (cases "withdraw name ip port t", auto)
  qed
qed

end

interpretation services: service_directory registerService unregisterService endpoints
proof
  show "endpoints (registerService name ip port t) =
      (endpoints t)(name := add_mset (op_entry ip port) (endpoints t name))" for name ip port t
    by (simp add: register_endpoints op_entry_def)
  show "op_entry ip port \<in># endpoints t name \<Longrightarrow>
      \<exists>t'. unregisterService name ip port t = Inr t' \<and> endpoints t' = (endpoints t)(name := endpoints t name - {#op_entry ip port#})"
    for name ip port t using unregister_endpoints by (simp add: op_entry_def)
  show "op_entry ip port \<notin># endpoints t name \<Longrightarrow> \<not> is_ok (unregisterService name ip port t)" for name ip port t
    using unregister_unknown by (simp add: op_entry_def)
qed

text \<open>The same run over the operations of the table.\<close>

fun service_run :: "service_op list \<Rightarrow> ServiceTable \<Rightarrow> ServiceTable outcome" where
  "service_run [] st = Inr st"
| "service_run (Add name ip port # ops) st = service_run ops (registerService name ip port st)"
| "service_run (Remove name ip port # ops) st = and_then (unregisterService name ip port st) (service_run ops)"

fun service_spec :: "service_op list \<Rightarrow> (string \<Rightarrow> ServiceEntry multiset) \<Rightarrow> (string \<Rightarrow> ServiceEntry multiset) option" where
  "service_spec [] c = Some c"
| "service_spec (Add name ip port # ops) c = service_spec ops (c(name := add_mset (op_entry ip port) (c name)))"
| "service_spec (Remove name ip port # ops) c =
     (if op_entry ip port \<in># c name then service_spec ops (c(name := c name - {#op_entry ip port#})) else None)"

lemma service_run_eq: "service_run ops st = services.run_ops ops st"
proof (induction ops st rule: service_run.induct)
  case (3 name ip port ops st)
  then show ?case by (cases "unregisterService name ip port st") simp_all
qed simp_all

text \<open>C20.  Refinement: the table holds for every service exactly the end points that were registered and
  not yet withdrawn, each as often as it was registered, for every sequence of registrations and
  withdrawals that withdraws only what is registered; any other sequence runs into undefined
  behaviour.
\<close>

theorem service_table_refines:
  "case service_spec ops (\<lambda>_. {#}) of
     Some c \<Rightarrow> \<exists>st. service_run ops (table_start d) = Inr st \<and> (\<forall>name. mset (entries_of name st) = c name)
   | None \<Rightarrow> \<not> is_ok (service_run ops (table_start d))"
proof -
  have eqs: "service_spec ops c = (case ops of [] \<Rightarrow> Some c
      | Add name ip port # ops \<Rightarrow> service_spec ops (c(name := add_mset (op_entry ip port) (c name)))
      | Remove name ip port # ops \<Rightarrow>
          if op_entry ip port \<in># c name then service_spec ops (c(name := c name - {#op_entry ip port#})) else None)"
    for ops c by (cases "(ops, c)" rule: service_spec.cases) simp_all
  have start: "endpoints (table_start d) = (\<lambda>_. {#})"
    by (simp add: endpoints_def entries_of_def table_start_def fun_eq_iff)
  from services.run_ops_spec [of service_spec ops "table_start d", OF eqs] show ?thesis
    unfolding service_run_eq start by (auto simp: endpoints_def fun_eq_iff split: option.splits)
qed

end
