(* ===== verification/AppProxy.thy ===== *)
theory AppProxy
  imports ServiceTable
begin

text \<open>
  The proxy between the applications of a node and its transport layer
  (\<open>architecture/net/stack/proxy/AppProxy\<close> and \<open>Session\<close>): it binds every session that a remote client
  opens to an end point registered for the service the first packet asks for, holds the packets of a
  session until the end point has accepted it, and passes everything else through.

  The packets and indications of the transport library are records of the fields the code reads; a tag
  that is missing is \<open>None\<close> and reading it stops the simulation.  \<open>px_server\<close> says which socket ids
  belong to the listening socket and \<open>px_removeend\<close> is \<open>opp_removeend\<close> of the simulation library; the
  random choice of an end point is an argument.
\<close>

section \<open>Messages\<close>

datatype tcp_kind =
    TCP_C_OPEN_ACTIVE | TCP_C_OPEN_PASSIVE | TCP_C_ACCEPT | TCP_C_CLOSE
  | TCP_I_AVAILABLE | TCP_I_ESTABLISHED | OtherKind int

text \<open>A command of an application or an indication of the transport layer.\<close>

record NetMessage =
  ms_kind :: tcp_kind
  ms_socket :: "int option"       \<comment> \<open>the tag \<open>SocketReq\<close> or \<open>SocketInd\<close>\<close>
  ms_isTcpCommand :: bool
  ms_newSocket :: "int option"    \<comment> \<open>the \<open>TcpAvailableInfo\<close>\<close>

record ProxyServiceRequest =
  ps_register :: bool
  ps_service :: string
  ps_ip :: u32
  ps_port :: u32
  ps_socketId :: int

text \<open>A packet; \<open>pk_rest\<close> is the host and path of the RESTful request at its head.\<close>

record Packet =
  pk_socket :: "int option"
  pk_service :: "ProxyServiceRequest option"
  pk_rest :: "(string \<times> string) option"
  pk_data :: "u8 list"

datatype px_out =
    CommandDown NetMessage
  | PacketDown Packet
  | Unavailable int string string     \<comment> \<open>the response of \<open>sendServiceUnavailable\<close>: socket, host, path\<close>
  | AcceptSocket int
  | IndicationUp int NetMessage       \<comment> \<open>to the application gate of that index\<close>
  | PacketUp int Packet

section \<open>Sessions\<close>

datatype SessionState = INIT | PENDING | ESTABLISHED

record Session =
  ss_socketId :: int
  ss_gateIndex :: int
  ss_state :: SessionState
  ss_socketInd :: "NetMessage option"
  ss_pendingQueue :: "Packet list option"

definition new_Session :: "int \<Rightarrow> NetMessage \<Rightarrow> Session" where
  "new_Session socketId ind =
     \<lparr>ss_socketId = socketId, ss_gateIndex = -1, ss_state = INIT, ss_socketInd = Some ind, ss_pendingQueue = None\<rparr>"

definition pushToPendingQueue :: "Packet \<Rightarrow> Session \<Rightarrow> Session" where
  "pushToPendingQueue p s =
     s\<lparr>ss_pendingQueue := Some (case ss_pendingQueue s of None \<Rightarrow> [p] | Some q \<Rightarrow> q @ [p])\<rparr>"

definition setSessionPending :: "int \<Rightarrow> Session \<Rightarrow> NetMessage option \<times> Session" where
  "setSessionPending g s = (ss_socketInd s, s\<lparr>ss_state := PENDING, ss_socketInd := None, ss_gateIndex := g\<rparr>)"

definition setSessionEstablished :: "Session \<Rightarrow> Packet list option \<times> Session" where
  "setSessionEstablished s = (ss_pendingQueue s, s\<lparr>ss_state := ESTABLISHED, ss_pendingQueue := None\<rparr>)"

section \<open>The proxy\<close>

datatype ConnectionType = PASSTHROUGH | EDGE

record Connection =
  co_socketId :: int
  co_gateIndex :: int
  co_ip :: int
  co_port :: int
  co_type :: ConnectionType

fun typeToString :: "ConnectionType \<Rightarrow> string" where
  "typeToString PASSTHROUGH = ''PASSTHROUGH''"
| "typeToString EDGE = ''EDGE''"

record AppProxy =
  px_connections :: "(int \<times> Connection) list"   \<comment> \<open>a \<open>std::map\<close>, in key order\<close>
  px_sessions :: "int \<Rightarrow> Session option"
  px_services :: ServiceTable
  px_server :: "int \<Rightarrow> bool"
  px_removeend :: "string \<Rightarrow> string \<Rightarrow> string"
  px_sent :: "px_out list"

definition proxy_initialize ::
  "ServiceTable \<Rightarrow> (int \<Rightarrow> bool) \<Rightarrow> (string \<Rightarrow> string \<Rightarrow> string) \<Rightarrow> AppProxy" where
  "proxy_initialize st server removeend =
     \<lparr>px_connections = [], px_sessions = Map.empty, px_services = st, px_server = server,
      px_removeend = removeend, px_sent = []\<rparr>"

definition px_send :: "px_out \<Rightarrow> AppProxy \<Rightarrow> AppProxy" where
  "px_send e s = s\<lparr>px_sent := px_sent s @ [e]\<rparr>"

definition px_get_tag :: "int option \<Rightarrow> int outcome" where
  "px_get_tag t = (case t of Some i \<Rightarrow> Inr i | None \<Rightarrow> Inl (RuntimeError ''tag is not found''))"

definition connection_of :: "int \<Rightarrow> AppProxy \<Rightarrow> Connection option" where
  "connection_of i s = map_of (px_connections s) i"

definition set_connection :: "int \<Rightarrow> Connection \<Rightarrow> AppProxy \<Rightarrow> AppProxy" where
  "set_connection i c s = s\<lparr>px_connections := map_at i c (\<lambda>_. c) (px_connections s)\<rparr>"

definition erase_connection :: "int \<Rightarrow> AppProxy \<Rightarrow> AppProxy" where
  "erase_connection i s = s\<lparr>px_connections := filter (\<lambda>p. fst p \<noteq> i) (px_connections s)\<rparr>"

definition set_session :: "int \<Rightarrow> Session \<Rightarrow> AppProxy \<Rightarrow> AppProxy" where
  "set_session i x s = s\<lparr>px_sessions := (px_sessions s)(i \<mapsto> x)\<rparr>"

definition handleServiceRequest :: "ProxyServiceRequest \<Rightarrow> AppProxy \<Rightarrow> AppProxy outcome" where
  "handleServiceRequest rq s =
     (if ps_register rq then
        let s' = s\<lparr>px_services := registerService (ps_service rq) (sint (ps_ip rq)) (sint (ps_port rq)) (px_services s)\<rparr>
        in case connection_of (ps_socketId rq) s' of
             None \<Rightarrow> Inl OutOfRange
           | Some c \<Rightarrow> Inr (set_connection (ps_socketId rq)
               (c\<lparr>co_ip := sint (ps_ip rq), co_port := sint (ps_port rq)\<rparr>) s')
      else and_then (unregisterService (ps_service rq) (sint (ps_ip rq)) (sint (ps_port rq)) (px_services s)) (\<lambda>st.
        Inr (s\<lparr>px_services := st\<rparr>)))"

definition handleAppPacket :: "Packet \<Rightarrow> AppProxy \<Rightarrow> AppProxy" where
  "handleAppPacket p = px_send (PacketDown p)"

definition px_open :: "int \<Rightarrow> int \<Rightarrow> NetMessage \<Rightarrow> AppProxy \<Rightarrow> AppProxy outcome" where
  "px_open gate i m s =
     (if connection_of i s \<noteq> None then Inl (RuntimeError ''Socket is already registered'')
      else let s' = set_connection i \<lparr>co_socketId = i, co_gateIndex = gate, co_ip = 0, co_port = 0,
              co_type = (if ms_kind m = TCP_C_OPEN_PASSIVE then EDGE else PASSTHROUGH)\<rparr> s
        in Inr (if ms_kind m = TCP_C_OPEN_ACTIVE then px_send (CommandDown m) s' else s'))"

definition px_accept :: "int \<Rightarrow> AppProxy \<Rightarrow> AppProxy outcome" where
  "px_accept i s =
     (case px_sessions s i of
        None \<Rightarrow> Inl (RuntimeError ''Connection not found'')
      | Some x \<Rightarrow>
          let (q, x') = setSessionEstablished x
          in Inr (fold (\<lambda>p. px_send (PacketUp (ss_gateIndex x') p)) (case q of None \<Rightarrow> [] | Some q \<Rightarrow> q)
               (set_session i x' s)))"

definition px_close :: "int \<Rightarrow> NetMessage \<Rightarrow> AppProxy \<Rightarrow> AppProxy outcome" where
  "px_close i m s =
     (case connection_of i s of
        Some c \<Rightarrow> Inr (erase_connection i (if co_type c = EDGE then px_send (CommandDown m) s else s))
      | None \<Rightarrow>
          (case px_sessions s i of
             Some x \<Rightarrow> Inr ((px_send (CommandDown m) s)\<lparr>px_sessions := (px_sessions s)(i := None)\<rparr>)
           | None \<Rightarrow> Inl (RuntimeError ''Connection not found on CLOSE'')))"

definition handleAppCommand :: "int \<Rightarrow> NetMessage \<Rightarrow> AppProxy \<Rightarrow> AppProxy outcome" where
  "handleAppCommand gate m s =
     and_then (px_get_tag (ms_socket m)) (\<lambda>i.
       and_then (require (ms_isTcpCommand m) (RuntimeError ''Proxy module doesnt support non TCP commands'')) (\<lambda>_.
         if ms_kind m = TCP_C_OPEN_ACTIVE \<or> ms_kind m = TCP_C_OPEN_PASSIVE then px_open gate i m s
         else if ms_kind m = TCP_C_ACCEPT then px_accept i s
         else if ms_kind m = TCP_C_CLOSE then px_close i m s
         else Inr s))"

definition findSocketGateIndex :: "int \<Rightarrow> AppProxy \<Rightarrow> int outcome" where
  "findSocketGateIndex i s =
     (case connection_of i s of
        Some c \<Rightarrow> Inr (co_gateIndex c)
      | None \<Rightarrow> (case px_sessions s i of
          Some x \<Rightarrow> Inr (ss_gateIndex x) | None \<Rightarrow> Inl (RuntimeError ''No connection for socket'')))"

definition findConnection :: "int \<Rightarrow> int \<Rightarrow> AppProxy \<Rightarrow> Connection option" where
  "findConnection ip port s =
     map_option snd (find (\<lambda>(i, c). co_ip c = ip \<and> co_port c = port) (px_connections s))"

definition getServiceName :: "AppProxy \<Rightarrow> Packet \<Rightarrow> string outcome" where
  "getServiceName s p =
     (case pk_rest p of
        None \<Rightarrow> Inr []
      | Some (host, _) \<Rightarrow>
          let service = px_removeend s host (st_domain (px_services s))
          in if service = [] then Inl (Undefined ''back() of an empty string'')
             else Inr (if last service = CHR ''.'' then butlast service else service))"

definition sendServiceUnavailable :: "int \<Rightarrow> Packet \<Rightarrow> AppProxy \<Rightarrow> AppProxy outcome" where
  "sendServiceUnavailable i p s =
     (case pk_rest p of
        None \<Rightarrow> Inl (RuntimeError ''peekData of another chunk type'')
      | Some (host, path) \<Rightarrow> Inr (px_send (Unavailable i host path) s))"

definition handleSessionInitialize ::
  "int \<Rightarrow> int \<Rightarrow> Session \<Rightarrow> ServiceEntry list \<Rightarrow> Packet \<Rightarrow> AppProxy \<Rightarrow> AppProxy outcome" where
  "handleSessionInitialize pick i x entries p s =
     (if 0 \<le> pick \<and> pick < int (length entries) then
        let e = entries ! nat pick
        in case findConnection (sint (se_ip e)) (sint (se_port e)) s of
             None \<Rightarrow> Inl (RuntimeError ''Connection not found'')
           | Some c \<Rightarrow>
               (case setSessionPending (co_gateIndex c) x of
                  (None, _) \<Rightarrow> Inl (Undefined ''null socketInd'')
                | (Some m, x') \<Rightarrow>
                    Inr (px_send (IndicationUp (co_gateIndex c) (m\<lparr>ms_socket := Some (co_socketId c)\<rparr>))
                      (set_session i (pushToPendingQueue p x') s)))
      else Inl (Undefined ''entries[]''))"

definition handleTransportPacket :: "int \<Rightarrow> Packet \<Rightarrow> AppProxy \<Rightarrow> AppProxy outcome" where
  "handleTransportPacket pick p s =
     and_then (px_get_tag (pk_socket p)) (\<lambda>i.
       let through = and_then (findSocketGateIndex i s) (\<lambda>g. Inr (px_send (PacketUp g p) s))
       in case px_sessions s i of
            None \<Rightarrow> through
          | Some x \<Rightarrow>
              (case ss_state x of
                 ESTABLISHED \<Rightarrow> through
               | INIT \<Rightarrow>
                   and_then (getServiceName s p) (\<lambda>name.
                     case findService name (px_services s) of
                       None \<Rightarrow> sendServiceUnavailable (ss_socketId x) p s
                     | Some entries \<Rightarrow> handleSessionInitialize pick i x entries p s)
               | PENDING \<Rightarrow> Inr (set_session i (pushToPendingQueue p x) s)))"

definition handleTransportIndication :: "NetMessage \<Rightarrow> AppProxy \<Rightarrow> AppProxy outcome" where
  "handleTransportIndication m s =
     and_then (px_get_tag (ms_socket m)) (\<lambda>i.
       if px_server s i then
         if ms_kind m \<noteq> TCP_I_AVAILABLE then Inl (RuntimeError ''TCP_I_AVAILABLE expected on server socket'')
         else (case ms_newSocket m of
                 None \<Rightarrow> Inl (RuntimeError ''check_and_cast'')
               | Some n \<Rightarrow>
                   let s' = px_send (AcceptSocket n) s
                   in Inr (if px_sessions s' n = None then set_session n (new_Session n m) s' else s'))
       else case connection_of i s of
           Some c \<Rightarrow> Inr (px_send (IndicationUp (co_gateIndex c) m) s)
         | None \<Rightarrow>
             (case px_sessions s i of
                None \<Rightarrow> Inl (RuntimeError ''Unkwon socketId'')
              | Some x \<Rightarrow>
                  if ss_state x = ESTABLISHED then Inr (px_send (IndicationUp (ss_gateIndex x) m) s)
                  else if ms_kind m \<noteq> TCP_I_ESTABLISHED then Inl (RuntimeError ''TBD handle TCP_CLOSED'')
                  else Inr s))"

datatype px_event =
    AppPacket Packet
  | AppCommand int NetMessage
  | NetPacket int Packet        \<comment> \<open>with the random number it would draw\<close>
  | NetIndication NetMessage

text \<open>\<open>handleMessage\<close>, \<open>handleUpperMessage\<close> and \<open>handleLowerMessage\<close>.\<close>

fun px_handleMessage :: "px_event \<Rightarrow> AppProxy \<Rightarrow> AppProxy outcome" where
  "px_handleMessage (AppPacket p) s =
     (case pk_service p of Some rq \<Rightarrow> handleServiceRequest rq s | None \<Rightarrow> Inr (handleAppPacket p s))"
| "px_handleMessage (AppCommand gate m) s = handleAppCommand gate m s"
| "px_handleMessage (NetPacket pick p) s = handleTransportPacket pick p s"
| "px_handleMessage (NetIndication m) s = handleTransportIndication m s"

abbreviation px_run :: "px_event list \<Rightarrow> AppProxy \<Rightarrow> AppProxy outcome" where
  "px_run \<equiv> for_each px_handleMessage"

section \<open>What sessions go through\<close>

lemma connection_of_set [simp]:
  "map_ordered (px_connections s) \<Longrightarrow> connection_of j (set_connection i c s) = (if j = i then Some c else connection_of j s)"
  by (simp add: connection_of_def set_connection_def map_of_map_at)

lemma connection_of_simps [simp]:
  "connection_of j (set_session i x s) = connection_of j s" "connection_of j (px_send e s) = connection_of j s"
  "connection_of j (s\<lparr>px_sessions := m\<rparr>) = connection_of j s"
  by (simp_all add: connection_of_def set_session_def px_send_def)

lemma map_of_filter_key: "map_of (filter (\<lambda>p. fst p \<noteq> i) m) j = (if j = i then None else map_of m j)"
  by (induction m) auto

lemma connection_of_erase [simp]: "connection_of j (erase_connection i s) = (if j = i then None else connection_of j s)"
  by (simp add: connection_of_def erase_connection_def map_of_filter_key)

lemma px_send_simps [simp]:
  "px_sessions (px_send e s) = px_sessions s" "px_sent (px_send e s) = px_sent s @ [e]"
  "px_services (px_send e s) = px_services s" "px_server (px_send e s) = px_server s"
  "px_removeend (px_send e s) = px_removeend s" "px_connections (px_send e s) = px_connections s"
  by (simp_all add: px_send_def)

lemma set_session_simps [simp]:
  "px_sessions (set_session i x s) = (px_sessions s)(i \<mapsto> x)" "px_sent (set_session i x s) = px_sent s"
  "px_services (set_session i x s) = px_services s" "px_server (set_session i x s) = px_server s"
  "px_removeend (set_session i x s) = px_removeend s" "px_connections (set_session i x s) = px_connections s"
  by (simp_all add: set_session_def)

lemma fold_px_send_simps [simp]:
  "px_sessions (fold (\<lambda>p. px_send (f p)) ps s) = px_sessions s"
  "px_connections (fold (\<lambda>p. px_send (f p)) ps s) = px_connections s"
  "px_sent (fold (\<lambda>p. px_send (f p)) ps s) = px_sent s @ map f ps"
  by (induction ps arbitrary: s) simp_all

lemma getServiceName_cong:
  "px_removeend s' = px_removeend s \<Longrightarrow> st_domain (px_services s') = st_domain (px_services s) \<Longrightarrow>
     getServiceName s' p = getServiceName s p"
  by (cases "pk_rest p") (auto simp: getServiceName_def)

text \<open>The packets of a session that waits for its end point are held in order.\<close>

lemma pending_packets:
  assumes "px_sessions s n = Some x" "ss_state x = PENDING" "\<forall>p\<in>set ps. pk_socket p = Some n" "ss_pendingQueue x = Some q"
  shows "px_run (map (NetPacket k) ps) s = Inr (set_session n (x\<lparr>ss_pendingQueue := Some (q @ ps)\<rparr>) s)"
  using assms
proof (induction ps arbitrary: s x q)
  case Nil
  have "x\<lparr>ss_pendingQueue := Some q\<rparr> = x" using Nil by (simp add: Session.equality)
  then show ?case using Nil by (simp add: set_session_def fun_upd_idem)
next
  case (Cons p ps)
  let ?x = "x\<lparr>ss_pendingQueue := Some (q @ [p])\<rparr>"
  have "px_handleMessage (NetPacket k p) s = Inr (set_session n ?x s)"
    using Cons.prems by (simp add: handleTransportPacket_def px_get_tag_def pushToPendingQueue_def)
  with Cons.IH [of "set_session n ?x s" ?x "q @ [p]"] Cons.prems show ?case
    by (simp add: set_session_def)
qed

lemma established_packets:
  assumes "px_sessions s n = Some x" "ss_state x = ESTABLISHED" "connection_of n s = None" "\<forall>p\<in>set ps. pk_socket p = Some n"
  shows "\<exists>s'. px_run (map (NetPacket k) ps) s = Inr s' \<and> px_sent s' = px_sent s @ map (PacketUp (ss_gateIndex x)) ps"
  using assms
proof (induction ps arbitrary: s)
  case (Cons p ps)
  have "px_handleMessage (NetPacket k p) s = Inr (px_send (PacketUp (ss_gateIndex x) p) s)"
    using Cons.prems by (simp add: handleTransportPacket_def px_get_tag_def findSocketGateIndex_def Let_def)
  with Cons.IH [of "px_send (PacketUp (ss_gateIndex x) p) s"] Cons.prems show ?case by simp
qed simp

text \<open>C21.  Every packet of a session reaches the end point chosen for its first packet, exactly once and
  in the order of arrival.  Until the end point has accepted the session, however many packets have
  arrived, none of them is passed on: the transport layer is told to accept the socket, the end
  point is told of the session under the socket it listens on, and the packets wait in the session.
  When it accepts, it gets all that wait, and from then on every packet is passed on as it arrives.
\<close>

theorem session_packets_delivered:
  assumes fresh: "px_sessions s n = None" "connection_of n s = None" "\<not> px_server s n"
    and avail: "ms_socket m = Some i" "px_server s i" "ms_kind m = TCP_I_AVAILABLE" "ms_newSocket m = Some n"
    and chosen: "getServiceName s p = Inr name" "findService name (px_services s) = Some entries"
      "0 \<le> k" "k < int (length entries)"
      "findConnection (sint (se_ip (entries ! nat k))) (sint (se_port (entries ! nat k))) s = Some c"
    and packets: "\<forall>x\<in>set (p # ps @ qs). pk_socket x = Some n"
    and accept: "ms_socket a = Some n" "ms_isTcpCommand a" "ms_kind a = TCP_C_ACCEPT"
  shows "\<exists>s1 s2 s3.
    px_run (NetIndication m # map (NetPacket k) (p # ps)) s = Inr s1 \<and>
    px_sent s1 = px_sent s @ [AcceptSocket n, IndicationUp (co_gateIndex c) (m\<lparr>ms_socket := Some (co_socketId c)\<rparr>)] \<and>
    map_option ss_pendingQueue (px_sessions s1 n) = Some (Some (p # ps)) \<and>
    px_run [AppCommand g a] s1 = Inr s2 \<and>
    px_sent s2 = px_sent s1 @ map (PacketUp (co_gateIndex c)) (p # ps) \<and>
    map_option ss_pendingQueue (px_sessions s2 n) = Some None \<and>
    px_run (map (NetPacket k) qs) s2 = Inr s3 \<and>
    px_sent s3 = px_sent s2 @ map (PacketUp (co_gateIndex c)) qs"
proof -
  let ?s1 = "set_session n (new_Session n m) (px_send (AcceptSocket n) s)"
  let ?x = "\<lparr>ss_socketId = n, ss_gateIndex = co_gateIndex c, ss_state = PENDING, ss_socketInd = None,
      ss_pendingQueue = Some [p]\<rparr>"
  let ?s2 = "px_send (IndicationUp (co_gateIndex c) (m\<lparr>ms_socket := Some (co_socketId c)\<rparr>)) (set_session n ?x ?s1)"
  let ?s3 = "set_session n (?x\<lparr>ss_pendingQueue := Some (p # ps)\<rparr>) ?s2"
  let ?s4 = "fold (\<lambda>y. px_send (PacketUp (co_gateIndex c) y)) (p # ps)
      (set_session n (?x\<lparr>ss_state := ESTABLISHED, ss_pendingQueue := None\<rparr>) ?s3)"
  have 1: "px_handleMessage (NetIndication m) s = Inr ?s1"
    using fresh avail by (simp add: handleTransportIndication_def px_get_tag_def Let_def)
  have "getServiceName ?s1 p = Inr name" using chosen(1) by (subst getServiceName_cong [of _ s]) simp_all
  moreover have "findConnection (sint (se_ip (entries ! nat k))) (sint (se_port (entries ! nat k))) ?s1 = Some c"
    using chosen(5) by (simp add: findConnection_def)
  ultimately have 2: "px_handleMessage (NetPacket k p) ?s1 = Inr ?s2"
    using chosen(2-4) packets
    by (simp add: handleTransportPacket_def px_get_tag_def new_Session_def handleSessionInitialize_def Let_def
        setSessionPending_def pushToPendingQueue_def)
  have 3: "px_run (map (NetPacket k) ps) ?s2 = Inr ?s3"
    using pending_packets [of ?s2 n ?x ps "[p]" k] packets by simp
  have 4: "px_handleMessage (AppCommand g a) ?s3 = Inr ?s4"
    using accept by (simp add: handleAppCommand_def px_get_tag_def px_accept_def setSessionEstablished_def)
  have c4: "connection_of n ?s4 = None" using fresh(2) by (simp add: connection_of_def)
  obtain s' where 5: "px_run (map (NetPacket k) qs) ?s4 = Inr s'"
    "px_sent s' = px_sent ?s4 @ map (PacketUp (co_gateIndex c)) qs"
    using established_packets [of ?s4 n "?x\<lparr>ss_state := ESTABLISHED, ss_pendingQueue := None\<rparr>" qs k] c4 packets by auto
  have a: "px_run (NetIndication m # map (NetPacket k) (p # ps)) s = Inr ?s3"
    using 1 2 3 by (simp only: list.map for_each.simps and_then_Inr)
  have b: "px_run [AppCommand g a] ?s3 = Inr ?s4"
    using 4 by (simp only: for_each.simps and_then_Inr)
  show ?thesis
    by (rule exI [of _ ?s3], rule exI [of _ ?s4], rule exI [of _ s'], intro conjI)
      (rule a, simp, simp, rule b, simp, simp, rule 5(1), rule 5(2))
qed

text \<open>A client connection is never closed below: the proxy passes the opening of a client connection
  to the transport layer but keeps its closing to itself and forgets the socket, so whatever the peer
  still sends on it ends the simulation; of a listening socket it is the other way round, the
  transport layer is told to close a socket it was never told to open.
\<close>

theorem closing_goes_astray:
  assumes "map_ordered (px_connections s)" "connection_of i s = None" "px_sessions s i = None" "\<not> px_server s i"
    and "ms_socket op = Some i" "ms_isTcpCommand op" "ms_kind op \<in> {TCP_C_OPEN_ACTIVE, TCP_C_OPEN_PASSIVE}"
    and "ms_socket cl = Some i" "ms_isTcpCommand cl" "ms_kind cl = TCP_C_CLOSE"
  shows "\<exists>s'. px_run [AppCommand g op, AppCommand g cl] s = Inr s' \<and>
    px_sent s' = px_sent s @ [CommandDown (if ms_kind op = TCP_C_OPEN_ACTIVE then op else cl)] \<and>
    (\<forall>p k. pk_socket p = Some i \<longrightarrow> \<not> is_ok (px_handleMessage (NetPacket k p) s')) \<and>
    (\<forall>m. ms_socket m = Some i \<longrightarrow> \<not> is_ok (px_handleMessage (NetIndication m) s'))"
proof -
  let ?c = "\<lparr>co_socketId = i, co_gateIndex = g, co_ip = 0, co_port = 0,
      co_type = (if ms_kind op = TCP_C_OPEN_PASSIVE then EDGE else PASSTHROUGH)\<rparr>"
  let ?s1 = "set_connection i ?c s"
  let ?s2 = "if ms_kind op = TCP_C_OPEN_ACTIVE then px_send (CommandDown op) ?s1 else ?s1"
  let ?s3 = "erase_connection i (if ms_kind op = TCP_C_OPEN_PASSIVE then px_send (CommandDown cl) ?s2 else ?s2)"
  have "px_handleMessage (AppCommand g op) s = Inr ?s2"
    using assms(2,5-7) by (auto simp: handleAppCommand_def px_get_tag_def px_open_def Let_def)
  moreover have "px_handleMessage (AppCommand g cl) ?s2 = Inr ?s3"
    using assms(1,7-10) by (auto simp: handleAppCommand_def px_get_tag_def px_close_def)
  moreover have "connection_of i ?s3 = None" "px_sessions ?s3 i = None" "\<not> px_server ?s3 i"
    using assms(3,4) by (auto simp: erase_connection_def set_connection_def connection_of_def map_of_filter_key)
  moreover have "px_sent ?s3 = px_sent s @ [CommandDown (if ms_kind op = TCP_C_OPEN_ACTIVE then op else cl)]"
    using assms(7) by (auto simp: erase_connection_def set_connection_def)
  ultimately show ?thesis
    by (intro exI [of _ ?s3])
      (simp add: handleTransportPacket_def px_get_tag_def findSocketGateIndex_def handleTransportIndication_def)
qed

text \<open>A service without end points brings the proxy down: a request for a service that was never
  registered is answered as unavailable, but once the last end point of a service has been withdrawn
  its entry stays in the table, empty, and the next session for it reads past the end of the vector.
\<close>

theorem withdrawn_service_fatal:
  assumes "px_sessions s n = Some x" "ss_state x = INIT" "pk_socket p = Some n" "pk_rest p = Some (host, path)"
    and "getServiceName s p = Inr name" "findService name (px_services s) = None"
    and "unregisterService name ip port (registerService name ip port (px_services s)) = Inr st"
  shows "px_handleMessage (NetPacket k p) s = Inr (px_send (Unavailable (ss_socketId x) host path) s) \<and>
    px_handleMessage (NetPacket k p) (s\<lparr>px_services := st\<rparr>) = Inl (Undefined ''entries[]'')"
proof -
  have "endpoints st name = {#}"
    using unregister_endpoints [of ip port "registerService name ip port (px_services s)" name] assms(6,7)
    by (simp add: register_endpoints) (auto simp: endpoints_def entries_of_def findService_def)
  moreover have "st_serviceMap st name \<noteq> None"
    using assms(7) by (auto simp: unregisterService_def Let_def split: option.splits)
  ultimately have "findService name st = Some []" by (auto simp: findService_def endpoints_def entries_of_def)
  moreover have "st_domain st = st_domain (px_services s)"
    using assms(7) by (auto simp: unregisterService_def registerService_def Let_def split: option.splits)
  then have "getServiceName (s\<lparr>px_services := st\<rparr>) p = Inr name" using assms(5) by (subst getServiceName_cong [of _ s]) simp_all
  ultimately show ?thesis
    using assms(1-6)
    by (auto simp: handleTransportPacket_def px_get_tag_def sendServiceUnavailable_def handleSessionInitialize_def)
qed

section \<open>A concrete proxy\<close>

definition web_services :: ServiceTable where
  "web_services = registerService ''web'' 1 80 (table_start ''fog'')"

definition web_proxy :: AppProxy where
  "web_proxy = (proxy_initialize web_services (\<lambda>i. i = 1) (\<lambda>host _. host))\<lparr>px_connections :=
     [(5, \<lparr>co_socketId = 5, co_gateIndex = 2, co_ip = 1, co_port = 80, co_type = EDGE\<rparr>)]\<rparr>"

definition web_packet :: Packet where
  "web_packet = \<lparr>pk_socket = Some 9, pk_service = None, pk_rest = Some (''web'', ''/''), pk_data = []\<rparr>"

definition sample_message :: "tcp_kind \<Rightarrow> int \<Rightarrow> NetMessage" where
  "sample_message k i = \<lparr>ms_kind = k, ms_socket = Some i, ms_isTcpCommand = True, ms_newSocket = Some 9\<rparr>"

theorem session_packets_delivered_witness:
  "\<exists>s1 s2 s3. px_run (NetIndication (sample_message TCP_I_AVAILABLE 1) # map (NetPacket 0) [web_packet, web_packet])
       web_proxy = Inr s1 \<and> px_sent s1 = [AcceptSocket 9, IndicationUp 2 (sample_message TCP_I_AVAILABLE 5)] \<and>
     px_run [AppCommand 2 (sample_message TCP_C_ACCEPT 9)] s1 = Inr s2 \<and>
     px_sent s2 = px_sent s1 @ [PacketUp 2 web_packet, PacketUp 2 web_packet] \<and>
     px_run [NetPacket 0 web_packet] s2 = Inr s3 \<and> px_sent s3 = px_sent s2 @ [PacketUp 2 web_packet]"
proof -
  have c: "findConnection (sint (1 :: u32)) (sint (80 :: u32)) web_proxy =
      Some \<lparr>co_socketId = 5, co_gateIndex = 2, co_ip = 1, co_port = 80, co_type = EDGE\<rparr>"
    by (simp add: findConnection_def web_proxy_def)
  have m: "(sample_message TCP_I_AVAILABLE 1)\<lparr>ms_socket := Some 5\<rparr> = sample_message TCP_I_AVAILABLE 5"
    by (simp add: sample_message_def)
  have sent: "px_sent web_proxy = []" by (simp add: web_proxy_def proxy_initialize_def)
  from session_packets_delivered [of web_proxy 9 "sample_message TCP_I_AVAILABLE 1" 1 web_packet "''web''"
        "[\<lparr>se_ip = 1, se_port = 80\<rparr>]" 0 "\<lparr>co_socketId = 5, co_gateIndex = 2, co_ip = 1, co_port = 80,
          co_type = EDGE\<rparr>" "[web_packet]" "[web_packet]" "sample_message TCP_C_ACCEPT 9" 2]
  obtain s1 s2 s3 where
    "px_run (NetIndication (sample_message TCP_I_AVAILABLE 1) # map (NetPacket 0) [web_packet, web_packet]) web_proxy = Inr s1"
    "px_sent s1 = px_sent web_proxy @ [AcceptSocket 9, IndicationUp 2 ((sample_message TCP_I_AVAILABLE 1)\<lparr>ms_socket := Some 5\<rparr>)]"
    "px_run [AppCommand 2 (sample_message TCP_C_ACCEPT 9)] s1 = Inr s2"
    "px_sent s2 = px_sent s1 @ map (PacketUp 2) [web_packet, web_packet]"
    "px_run (map (NetPacket 0) [web_packet]) s2 = Inr s3" "px_sent s3 = px_sent s2 @ map (PacketUp 2) [web_packet]"
    using c
    by (auto simp: web_proxy_def proxy_initialize_def connection_of_def sample_message_def getServiceName_def web_packet_def
        findService_def web_services_def registerService_def entries_of_def table_start_def Let_def)
  then show ?thesis unfolding m sent by (intro exI conjI) (assumption | simp)+
qed

theorem closing_goes_astray_witness:
  "\<exists>s'. px_run [AppCommand 0 (sample_message TCP_C_OPEN_ACTIVE 7), AppCommand 0 (sample_message TCP_C_CLOSE 7)] web_proxy = Inr s' \<and>
     px_sent s' = [CommandDown (sample_message TCP_C_OPEN_ACTIVE 7)]"
  using closing_goes_astray [of web_proxy 7 "sample_message TCP_C_OPEN_ACTIVE 7" "sample_message TCP_C_CLOSE 7" 0]
  by (auto simp: web_proxy_def proxy_initialize_def map_ordered_def connection_of_def sample_message_def)

theorem withdrawn_service_fatal_witness:
  "\<exists>s st. \<not> is_ok (px_handleMessage (NetPacket 0 web_packet) (s\<lparr>px_services := st\<rparr>)) \<and>
     is_ok (px_handleMessage (NetPacket 0 web_packet) s)"
proof -
  let ?s = "set_session 9 (new_Session 9 (sample_message TCP_I_AVAILABLE 1))
      (proxy_initialize (table_start ''fog'') (\<lambda>i. i = 1) (\<lambda>host _. host))"
  obtain st where st: "unregisterService ''web'' 1 80 (registerService ''web'' 1 80 (px_services ?s)) = Inr st"
    using unregister_endpoints [of 1 80 "registerService ''web'' 1 80 (px_services ?s)" "''web''"]
    by (auto simp: register_endpoints)
  from withdrawn_service_fatal [OF _ _ _ _ _ _ st, of 9 _ web_packet "''web''" "''/''" 0] show ?thesis
    by (intro exI [of _ ?s] exI [of _ st])
      (simp add: new_Session_def web_packet_def getServiceName_def proxy_initialize_def findService_def table_start_def Let_def)
qed

end
