(* ===== verification/MessageQueue.thy ===== *)
theory MessageQueue
  imports Prelude
begin

text \<open>
  The message queue of the network (\<open>architecture/messagequeue\<close>) and its clients
  (\<open>architecture/net/stack/queue\<close>): producers push messages addressed to a topic to
  \<open>MessageQueueIn\<close>, which hands them to \<open>MessageQueueOut\<close>; a consumer pulls them with acknowledgements.
  A packet is the list of its chunks; \<open>mo_sent\<close> lists what the queue sends to its sockets.
\<close>

section \<open>The queue\<close>

record 'd AppMessage =
  am_operation :: int
  am_autoSourceTopic :: bool
  am_destinationTopic :: string
  am_returnTopic :: string
  am_payload :: 'd

datatype 'd mq_chunk = AppChunk "'d AppMessage" | ForeignChunk

record Consumer =
  co_socket :: int
  co_ready :: bool

datatype 'd mq_msg = InetPacket "'d AppMessage" | InetRequest

datatype 'd mq_out = QueuePacket int "'d AppMessage" | AcceptConnection

record 'd MessageQueueOut =
  mo_preemptiveAlloc :: bool
  mo_queues :: "string \<Rightarrow> 'd AppMessage list option"
  mo_consumers :: "string \<Rightarrow> Consumer option"
  mo_sent :: "'d mq_out list"

definition SM_QueueAck :: int where "SM_QueueAck = 100"

definition mo_initialize :: "bool \<Rightarrow> 'd MessageQueueOut" where
  "mo_initialize b = \<lparr>mo_preemptiveAlloc = b, mo_queues = Map.empty, mo_consumers = Map.empty, mo_sent = []\<rparr>"

definition mo_finish :: "'d MessageQueueOut \<Rightarrow> 'd MessageQueueOut" where
  "mo_finish s = s\<lparr>mo_queues := Map.empty, mo_consumers := Map.empty\<rparr>"

text \<open>
  \<open>sendBack\<close> casts what it gets to a \<open>Packet\<close> and sends the result of the cast: nothing, for a
  \<open>Request\<close>, which the kernel refuses.
\<close>

fun mo_sendBack :: "'d mq_msg \<Rightarrow> int \<Rightarrow> 'd MessageQueueOut \<Rightarrow> 'd MessageQueueOut outcome" where
  "mo_sendBack (InetPacket m) i s = Inr (s\<lparr>mo_sent := mo_sent s @ [QueuePacket i m]\<rparr>)"
| "mo_sendBack InetRequest i s = Inl (RuntimeError ''send(): Message pointer is nullptr'')"

definition queue_of :: "string \<Rightarrow> 'd MessageQueueOut \<Rightarrow> 'd AppMessage list" where
  "queue_of t s = (case mo_queues s t of Some q \<Rightarrow> q | None \<Rightarrow> [])"

definition createOrFindQueue :: "string \<Rightarrow> 'd MessageQueueOut \<Rightarrow> 'd MessageQueueOut" where
  "createOrFindQueue t s = s\<lparr>mo_queues := (mo_queues s)(t \<mapsto> queue_of t s)\<rparr>"

definition registerConsumerToTopic :: "string \<Rightarrow> Consumer \<Rightarrow> 'd MessageQueueOut \<Rightarrow> 'd MessageQueueOut" where
  "registerConsumerToTopic t c s = s\<lparr>mo_consumers := (mo_consumers s)(t \<mapsto> c)\<rparr>"

text \<open>
  \<open>attemptToSend(topic, queue)\<close> with the queue of the topic; the flag \<open>ready\<close> of the consumer is
  written but not read.
\<close>

definition attemptToSend :: "string \<Rightarrow> 'd MessageQueueOut \<Rightarrow> 'd MessageQueueOut outcome" where
  "attemptToSend t s =
     (case mo_consumers s t of
        None \<Rightarrow> Inr s
      | Some c \<Rightarrow>
          (case queue_of t s of
             [] \<Rightarrow> Inr s
           | m # q \<Rightarrow> mo_sendBack (InetPacket m) (co_socket c)
               (s\<lparr>mo_queues := (mo_queues s)(t \<mapsto> q), mo_consumers := (mo_consumers s)(t \<mapsto> c\<lparr>co_ready := False\<rparr>)\<rparr>)))"

definition pushIncomingMessage :: "string \<Rightarrow> 'd AppMessage \<Rightarrow> 'd MessageQueueOut \<Rightarrow> 'd MessageQueueOut outcome" where
  "pushIncomingMessage t m s =
     (case mo_queues s t of
        Some q \<Rightarrow> attemptToSend t (s\<lparr>mo_queues := (mo_queues s)(t \<mapsto> q @ [m])\<rparr>)
      | None \<Rightarrow>
          if mo_preemptiveAlloc s
          then Inr ((createOrFindQueue t s)\<lparr>mo_queues := (mo_queues s)(t \<mapsto> [m])\<rparr>)
          else Inl (RuntimeError ''Destination topic has no consumers and preemptive allocation policy is false''))"

definition mo_handleIncomingMessage :: "int \<Rightarrow> 'd AppMessage \<Rightarrow> 'd MessageQueueOut \<Rightarrow> 'd MessageQueueOut outcome" where
  "mo_handleIncomingMessage socketId m s =
     (let t = am_destinationTopic m
      in case mo_consumers s t of
           Some c \<Rightarrow>
             if am_operation m = SM_QueueAck
             then attemptToSend t (createOrFindQueue t
                 (registerConsumerToTopic t (c\<lparr>co_ready := True\<rparr>) s))
             else Inl (AssertFail ''Not the expected operation of SM_QueueAck'')
         | None \<Rightarrow>
             attemptToSend t (registerConsumerToTopic t \<lparr>co_socket = socketId, co_ready = True\<rparr>
               (createOrFindQueue t s)))"

text \<open>
  The application messages at the head of a packet; what follows another chunk is dropped when the
  processing queue is cleared.
\<close>

fun app_messages :: "'d mq_chunk list \<Rightarrow> 'd AppMessage list" where
  "app_messages (AppChunk m # cs) = m # app_messages cs"
| "app_messages _ = []"

datatype 'd mq_event =
    PeerClosed int
  | SocketData int "'d mq_chunk list"
  | SocketAvailable
  | OtherIndication

fun mo_handleMessage :: "'d mq_event \<Rightarrow> 'd MessageQueueOut \<Rightarrow> 'd MessageQueueOut outcome" where
  "mo_handleMessage (PeerClosed i) s = mo_sendBack InetRequest i s"
| "mo_handleMessage (SocketData i cs) s = for_each (mo_handleIncomingMessage i) (app_messages cs) s"
| "mo_handleMessage SocketAvailable s = Inr (s\<lparr>mo_sent := mo_sent s @ [AcceptConnection]\<rparr>)"
| "mo_handleMessage OtherIndication s = Inr s"

text \<open>\<open>MessageQueueIn\<close> keeps no state of its own; \<open>mo_sent\<close> does not list what its socket accepts.\<close>

definition mi_handleIncomingMessage :: "'d AppMessage \<Rightarrow> 'd MessageQueueOut \<Rightarrow> 'd MessageQueueOut outcome" where
  "mi_handleIncomingMessage m = pushIncomingMessage (am_destinationTopic m) m"

fun mi_handleMessage :: "'d mq_event \<Rightarrow> 'd MessageQueueOut \<Rightarrow> 'd MessageQueueOut outcome" where
  "mi_handleMessage (PeerClosed i) s = mo_sendBack InetRequest i s"
| "mi_handleMessage (SocketData i cs) s = for_each mi_handleIncomingMessage (app_messages cs) s"
| "mi_handleMessage SocketAvailable s = Inr s"
| "mi_handleMessage OtherIndication s = Inr s"

section \<open>The clients\<close>

text \<open>The push client puts its own topic into a message as the topic of the answer.\<close>

definition push_handleMessage :: "string \<Rightarrow> 'd AppMessage \<Rightarrow> 'd mq_chunk list" where
  "push_handleMessage topic m =
     [AppChunk (if am_autoSourceTopic m then m\<lparr>am_returnTopic := topic\<rparr> else m\<lparr>am_autoSourceTopic := True\<rparr>)]"

definition ackTemplate :: "string \<Rightarrow> 'd \<Rightarrow> 'd mq_chunk list" where
  "ackTemplate topic d = [AppChunk \<lparr>am_operation = SM_QueueAck, am_autoSourceTopic = True,
     am_destinationTopic = topic, am_returnTopic = [], am_payload = d\<rparr>]"

text \<open>What the pull client hands on and what it sends for a packet it receives.\<close>

definition pull_handleMessage ::
  "string \<Rightarrow> 'd \<Rightarrow> 'd mq_chunk list \<Rightarrow> 'd AppMessage list \<times> 'd mq_chunk list" where
  "pull_handleMessage topic d cs = (app_messages cs, ackTemplate topic d)"

section \<open>Delivery\<close>

fun packet_for :: "string \<Rightarrow> 'd mq_out \<Rightarrow> 'd AppMessage list" where
  "packet_for t (QueuePacket _ m) = (if am_destinationTopic m = t then [m] else [])"
| "packet_for t AcceptConnection = []"

definition sent_for :: "string \<Rightarrow> 'd MessageQueueOut \<Rightarrow> 'd AppMessage list" where
  "sent_for t s = concat (map (packet_for t) (mo_sent s))"

definition queues_ok :: "'d MessageQueueOut \<Rightarrow> bool" where
  "queues_ok s \<longleftrightarrow> (\<forall>t. \<forall>m\<in>set (queue_of t s). am_destinationTopic m = t)"

text \<open>What has been accepted for a topic: sent already, then still queued.\<close>

definition accepted :: "string \<Rightarrow> 'd MessageQueueOut \<Rightarrow> 'd AppMessage list" where
  "accepted t s = sent_for t s @ queue_of t s"

lemma queue_of_upd [simp]:
  "queue_of u (s\<lparr>mo_queues := (mo_queues s)(t \<mapsto> q)\<rparr>) = (if u = t then q else queue_of u s)"
  "queue_of u (registerConsumerToTopic t c s) = queue_of u s"
  "queue_of u (createOrFindQueue t s) = queue_of u s"
  "queue_of u (s\<lparr>mo_sent := ps\<rparr>) = queue_of u s"
  by (auto simp: queue_of_def registerConsumerToTopic_def createOrFindQueue_def)

lemma sent_for_upd [simp]:
  "sent_for u (s\<lparr>mo_queues := qs\<rparr>) = sent_for u s" "sent_for u (registerConsumerToTopic t c s) = sent_for u s"
  "sent_for u (createOrFindQueue t s) = sent_for u s" "sent_for u (s\<lparr>mo_sent := mo_sent s @ [p]\<rparr>) = sent_for u s @ packet_for u p"
  by (simp_all add: sent_for_def registerConsumerToTopic_def createOrFindQueue_def)

text \<open>What an attempt does: nothing without a consumer or a message, otherwise the first message leaves.\<close>

lemma attemptToSend_simps:
  "mo_consumers s t = None \<Longrightarrow> attemptToSend t s = Inr s"
  "queue_of t s = [] \<Longrightarrow> attemptToSend t s = Inr s"
  "mo_consumers s t = Some c \<Longrightarrow> queue_of t s = m # q \<Longrightarrow>
     attemptToSend t s = Inr (s\<lparr>mo_queues := (mo_queues s)(t \<mapsto> q),
       mo_consumers := (mo_consumers s)(t \<mapsto> c\<lparr>co_ready := False\<rparr>),
       mo_sent := mo_sent s @ [QueuePacket (co_socket c) m]\<rparr>)"
  by (simp_all add: attemptToSend_def split: option.split)

lemma attemptToSend_cases:
  obtains "attemptToSend t s = Inr s"
  | c m q where "mo_consumers s t = Some c" "queue_of t s = m # q"
      "attemptToSend t s = Inr (s\<lparr>mo_queues := (mo_queues s)(t \<mapsto> q),
         mo_consumers := (mo_consumers s)(t \<mapsto> c\<lparr>co_ready := False\<rparr>),
         mo_sent := mo_sent s @ [QueuePacket (co_socket c) m]\<rparr>)"
  by (cases "mo_consumers s t"; cases "queue_of t s") (auto simp: attemptToSend_simps)

lemma sent_upd:
  "queue_of v (s\<lparr>mo_queues := (mo_queues s)(t \<mapsto> q), mo_consumers := c\<rparr>) = (if v = t then q else queue_of v s)"
  by (auto simp: queue_of_def)

lemma attemptToSend_accepted:
  assumes "attemptToSend t s = Inr s'" "queues_ok s"
  shows "queues_ok s' \<and> accepted u s' = accepted u s"
proof (cases rule: attemptToSend_cases [of t s])
  case 1
  then show ?thesis using assms by simp
next
  case (2 c m q)
  then have "am_destinationTopic m = t" "\<forall>x\<in>set q. am_destinationTopic x = t"
    using assms(2) unfolding queues_ok_def by (metis list.set_intros)+
  then show ?thesis using assms 2 by (auto simp: queues_ok_def accepted_def sent_upd sent_for_def split: if_splits)
qed

lemma queues_ok_register:
  "queues_ok s \<Longrightarrow> queues_ok (createOrFindQueue t s)" "queues_ok s \<Longrightarrow> queues_ok (registerConsumerToTopic t c s)"
  by (simp_all add: queues_ok_def)

lemma accepted_register [simp]:
  "accepted u (createOrFindQueue t s) = accepted u s" "accepted u (registerConsumerToTopic t c s) = accepted u s"
  by (simp_all add: accepted_def)

lemma incoming_accepted:
  assumes "mo_handleIncomingMessage i m s = Inr s'" "queues_ok s"
  shows "queues_ok s' \<and> accepted u s' = accepted u s"
  using assms attemptToSend_accepted queues_ok_register
  by (fastforce simp: mo_handleIncomingMessage_def Let_def split: option.splits if_splits)

lemma push_accepted:
  assumes "pushIncomingMessage (am_destinationTopic m) m s = Inr s'" "queues_ok s"
  shows "queues_ok s' \<and> accepted u s' = accepted u s @ (if am_destinationTopic m = u then [m] else [])"
proof (cases "mo_queues s (am_destinationTopic m)")
  case None
  let ?t = "am_destinationTopic m"
  have s': "s' = s\<lparr>mo_queues := (mo_queues s)(?t \<mapsto> [m])\<rparr>"
    using assms(1) None by (simp add: pushIncomingMessage_def createOrFindQueue_def split: if_splits)
  have "queue_of ?t s = []" using None by (simp add: queue_of_def)
  with assms(2) show ?thesis by (auto simp: s' queues_ok_def accepted_def)
next
  case (Some q)
  let ?t = "am_destinationTopic m" and ?s = "s\<lparr>mo_queues := (mo_queues s)(am_destinationTopic m \<mapsto> q @ [m])\<rparr>"
  have s': "attemptToSend ?t ?s = Inr s'" using assms(1) Some by (simp add: pushIncomingMessage_def)
  have q: "queue_of ?t s = q" using Some by (simp add: queue_of_def)
  then have "queues_ok ?s" "accepted u ?s = accepted u s @ (if ?t = u then [m] else [])"
    using assms(2) by (auto simp: queues_ok_def accepted_def)
  then show ?thesis using attemptToSend_accepted [OF s', of u] by simp
qed

text \<open>The runs of the queue: messages pushed in, and whatever its consumers do.\<close>

fun mq_step :: "'d AppMessage + 'd mq_event \<Rightarrow> 'd MessageQueueOut \<Rightarrow> 'd MessageQueueOut outcome" where
  "mq_step (Inl m) s = pushIncomingMessage (am_destinationTopic m) m s"
| "mq_step (Inr e) s = mo_handleMessage e s"

definition pushed :: "string \<Rightarrow> ('d AppMessage + 'd mq_event) list \<Rightarrow> 'd AppMessage list" where
  "pushed t es = [m \<leftarrow> concat (map (\<lambda>e. case e of Inl m \<Rightarrow> [m] | Inr _ \<Rightarrow> []) es). am_destinationTopic m = t]"

lemma handleMessage_accepted:
  assumes "mo_handleMessage e s = Inr s'" "queues_ok s"
  shows "queues_ok s' \<and> (\<forall>u. accepted u s' = accepted u s)"
proof (cases e)
  case (SocketData i cs)
  then have r: "for_each (mo_handleIncomingMessage i) (app_messages cs) s = Inr s'" using assms(1) by simp
  show ?thesis
  proof (rule for_each_invariant [OF r, where I = "\<lambda>x. queues_ok x \<and> (\<forall>u. accepted u x = accepted u s)"])
    fix x sa s' assume "queues_ok sa \<and> (\<forall>u. accepted u sa = accepted u s)" "mo_handleIncomingMessage i x sa = Inr s'"
    then show "queues_ok s' \<and> (\<forall>u. accepted u s' = accepted u s)" using incoming_accepted [of i x sa s'] by simp
  qed (use assms(2) in simp)
qed (use assms in \<open>auto simp: queues_ok_def accepted_def\<close>)

lemma mq_run_accepted:
  "for_each mq_step es s = Inr s' \<Longrightarrow> queues_ok s \<Longrightarrow> queues_ok s' \<and> accepted u s' = accepted u s @ pushed u es"
proof (induction es arbitrary: s)
  case (Cons e es)
  obtain s1 where s1: "mq_step e s = Inr s1" "for_each mq_step es s1 = Inr s'"
    using Cons.prems(1) by (auto simp: and_then_eq_Inr)
  show ?case
  proof (cases e)
    case (Inl m)
    from push_accepted [of m s s1 u] s1 Inl Cons.prems(2)
    have "queues_ok s1" "accepted u s1 = accepted u s @ (if am_destinationTopic m = u then [m] else [])" by auto
    with Cons.IH [OF s1(2)] show ?thesis by (simp add: Inl pushed_def)
  next
    case (Inr x)
    from handleMessage_accepted [of x s s1] s1 Inr Cons.prems(2) Cons.IH [OF s1(2)] show ?thesis
      by (simp add: Inr pushed_def)
  qed
qed (simp add: pushed_def)

text \<open>C22.  In every run, whatever producers and consumers do, the messages sent for a topic, followed by
  those still queued for it, are exactly the messages pushed to it, in the order they were pushed:
  nothing is lost, repeated, reordered or sent under another topic.
\<close>

theorem queue_fifo:
  fixes es :: "('d AppMessage + 'd mq_event) list" and s :: "'d MessageQueueOut"
  assumes "for_each mq_step es (mo_initialize b) = Inr s"
  shows "sent_for t s @ queue_of t s = pushed t es"
proof -
  have "queues_ok (mo_initialize b :: 'd MessageQueueOut)" "accepted t (mo_initialize b :: 'd MessageQueueOut) = []"
    by (simp_all add: queues_ok_def accepted_def queue_of_def sent_for_def mo_initialize_def)
  with mq_run_accepted [OF assms, of t] show ?thesis by (simp add: accepted_def)
qed

theorem queue_fifo_witness:
  "let t = ''jobs'';
       msg = (\<lambda>n. \<lparr>am_operation = 1, am_autoSourceTopic = True, am_destinationTopic = t, am_returnTopic = [], am_payload = n\<rparr>);
       es = [Inl (msg (1::nat)), Inl (msg 2), Inr (SocketData 7 (ackTemplate t 0)), Inl (msg 3)]
   in sent_for t (projr (for_each mq_step es (mo_initialize True))) @
        queue_of t (projr (for_each mq_step es (mo_initialize True))) = pushed t es \<and>
      map am_payload (sent_for t (projr (for_each mq_step es (mo_initialize True)))) = [1, 2]"
proof -
  let ?t = "''jobs''"
  let ?msg = "\<lambda>n. \<lparr>am_operation = 1, am_autoSourceTopic = True, am_destinationTopic = ?t, am_returnTopic = [], am_payload = n\<rparr>"
  let ?es = "[Inl (?msg (1::nat)), Inl (?msg 2), Inr (SocketData 7 (ackTemplate ?t 0)), Inl (?msg 3)]"
  have r: "for_each mq_step ?es (mo_initialize True) = Inr (projr (for_each mq_step ?es (mo_initialize True)))"
    by (simp add: mo_initialize_def pushIncomingMessage_def ackTemplate_def mo_handleIncomingMessage_def
        createOrFindQueue_def registerConsumerToTopic_def queue_of_def attemptToSend_def Let_def)
  have p: "map am_payload (sent_for ?t (projr (for_each mq_step ?es (mo_initialize True)))) = [1, 2]"
    by (simp add: mo_initialize_def pushIncomingMessage_def ackTemplate_def mo_handleIncomingMessage_def
        createOrFindQueue_def registerConsumerToTopic_def queue_of_def attemptToSend_def Let_def sent_for_def)
  show ?thesis using queue_fifo [OF r, of ?t] p by (simp only: Let_def)
qed

section \<open>Sessions\<close>

text \<open>
  A pull client on socket \<open>i\<close> and the queue: the client's acknowledgement, the packets the queue sends
  for it, the client's handling of each; the bound \<open>n\<close> on the rounds is more than the messages waiting.
\<close>

fun packet_on :: "int \<Rightarrow> 'd mq_out \<Rightarrow> 'd mq_chunk list list" where
  "packet_on i (QueuePacket j m) = (if j = i then [[AppChunk m]] else [])"
| "packet_on i AcceptConnection = []"

fun pull_session :: "nat \<Rightarrow> int \<Rightarrow> string \<Rightarrow> 'd \<Rightarrow> 'd MessageQueueOut \<Rightarrow> ('d AppMessage list \<times> 'd MessageQueueOut) outcome" where
  "pull_session 0 i t d s = Inr ([], s)"
| "pull_session (Suc n) i t d s =
     and_then (mo_handleMessage (SocketData i (ackTemplate t d)) s) (\<lambda>s1.
       let rs = concat (map (packet_on i) (drop (length (mo_sent s)) (mo_sent s1)))
       in if rs = [] then Inr ([], s1)
          else and_then (pull_session n i t d s1) (\<lambda>(ms, s2).
                 Inr (concat (map (\<lambda>cs. fst (pull_handleMessage t d cs)) rs) @ ms, s2)))"

definition on_socket :: "int \<Rightarrow> string \<Rightarrow> 'd MessageQueueOut \<Rightarrow> bool" where
  "on_socket i t s \<longleftrightarrow> (case mo_consumers s t of None \<Rightarrow> True | Some c \<Rightarrow> co_socket c = i)"

lemma register_commute:
  "registerConsumerToTopic t c (createOrFindQueue t s) = createOrFindQueue t (registerConsumerToTopic t c s)"
  by (simp add: createOrFindQueue_def registerConsumerToTopic_def queue_of_def)

lemma ack_step:
  assumes "on_socket i t s"
  shows "queue_of t s = [] \<Longrightarrow> \<exists>s1. mo_handleMessage (SocketData i (ackTemplate t d)) s = Inr s1 \<and>
           mo_sent s1 = mo_sent s \<and> queue_of t s1 = []"
    and "queue_of t s = m # q \<Longrightarrow> \<exists>s1. mo_handleMessage (SocketData i (ackTemplate t d)) s = Inr s1 \<and>
           mo_sent s1 = mo_sent s @ [QueuePacket i m] \<and> queue_of t s1 = q \<and> on_socket i t s1"
proof -
  let ?s1 = "createOrFindQueue t (registerConsumerToTopic t \<lparr>co_socket = i, co_ready = True\<rparr> s)"
  have i: "mo_handleMessage (SocketData i (ackTemplate t d)) s =
      mo_handleIncomingMessage i \<lparr>am_operation = SM_QueueAck, am_autoSourceTopic = True,
        am_destinationTopic = t, am_returnTopic = [], am_payload = d\<rparr> s"
    by (simp add: ackTemplate_def and_then_def split: sum.split)
  have h: "mo_handleMessage (SocketData i (ackTemplate t d)) s = attemptToSend t ?s1"
  proof (cases "mo_consumers s t")
    case None
    then show ?thesis unfolding i by (simp add: mo_handleIncomingMessage_def Let_def register_commute)
  next
    case (Some c)
    with assms have "c\<lparr>co_ready := True\<rparr> = \<lparr>co_socket = i, co_ready = True\<rparr>" by (simp add: on_socket_def)
    with Some show ?thesis unfolding i by (simp add: mo_handleIncomingMessage_def Let_def)
  qed
  have c: "mo_consumers ?s1 t = Some \<lparr>co_socket = i, co_ready = True\<rparr>" "mo_sent ?s1 = mo_sent s"
    by (simp_all add: createOrFindQueue_def registerConsumerToTopic_def)
  show "\<exists>s1. mo_handleMessage (SocketData i (ackTemplate t d)) s = Inr s1 \<and>
      mo_sent s1 = mo_sent s \<and> queue_of t s1 = []" if "queue_of t s = []"
    using that c unfolding h by (simp add: attemptToSend_simps)
  show "\<exists>s1. mo_handleMessage (SocketData i (ackTemplate t d)) s = Inr s1 \<and>
      mo_sent s1 = mo_sent s @ [QueuePacket i m] \<and> queue_of t s1 = q \<and> on_socket i t s1" if "queue_of t s = m # q"
  proof -
    have "queue_of t ?s1 = m # q" using that by simp
    note a = attemptToSend_simps(3) [OF c(1) this]
    show ?thesis unfolding h a by (simp add: c(2) on_socket_def queue_of_def)
  qed
qed

text \<open>A consumer that pulls with acknowledgements receives everything that waits for its topic, in
  order, and leaves the queue empty: with more rounds than messages waiting the session between the
  pull client and the queue ends, no round fails, and the client has handed on exactly the backlog.
\<close>

theorem backlog_delivered:
  assumes "on_socket i t s" "length (queue_of t s) < n"
  shows "\<exists>s'. pull_session n i t d s = Inr (queue_of t s, s') \<and> queue_of t s' = []"
  using assms
proof (induction n arbitrary: s)
  case (Suc n)
  show ?case
  proof (cases "queue_of t s")
    case Nil
    obtain s1 where "mo_handleMessage (SocketData i (ackTemplate t d)) s = Inr s1" "mo_sent s1 = mo_sent s"
      "queue_of t s1 = []" using ack_step(1) [OF Suc.prems(1) Nil] by blast
    with Nil show ?thesis by simp
  next
    case (Cons m q)
    obtain s1 where s1: "mo_handleMessage (SocketData i (ackTemplate t d)) s = Inr s1"
      "mo_sent s1 = mo_sent s @ [QueuePacket i m]" "queue_of t s1 = q" "on_socket i t s1"
      using ack_step(2) [OF Suc.prems(1) Cons] by blast
    obtain s' where "pull_session n i t d s1 = Inr (q, s')" "queue_of t s' = []"
      using Suc.IH [OF s1(4)] Suc.prems(2) Cons s1(3) by auto
    with s1 Cons show ?thesis by (simp add: pull_handleMessage_def)
  qed
qed simp

theorem backlog_delivered_witness:
  "\<exists>s'. pull_session 3 7 ''jobs'' 0 \<lparr>mo_preemptiveAlloc = True,
       mo_queues = [''jobs'' \<mapsto> [\<lparr>am_operation = 1, am_autoSourceTopic = True, am_destinationTopic = ''jobs'', am_returnTopic = [], am_payload = 5::nat\<rparr>,
                                \<lparr>am_operation = 1, am_autoSourceTopic = True, am_destinationTopic = ''jobs'', am_returnTopic = [], am_payload = 6\<rparr>]],
       mo_consumers = Map.empty, mo_sent = []\<rparr> =
     Inr ([\<lparr>am_operation = 1, am_autoSourceTopic = True, am_destinationTopic = ''jobs'', am_returnTopic = [], am_payload = 5\<rparr>,
           \<lparr>am_operation = 1, am_autoSourceTopic = True, am_destinationTopic = ''jobs'', am_returnTopic = [], am_payload = 6\<rparr>], s') \<and>
     queue_of ''jobs'' s' = []"
  using backlog_delivered [of 7 "''jobs''" "\<lparr>mo_preemptiveAlloc = True,
       mo_queues = [''jobs'' \<mapsto> [\<lparr>am_operation = 1, am_autoSourceTopic = True, am_destinationTopic = ''jobs'', am_returnTopic = [], am_payload = 5::nat\<rparr>,
                                \<lparr>am_operation = 1, am_autoSourceTopic = True, am_destinationTopic = ''jobs'', am_returnTopic = [], am_payload = 6\<rparr>]],
       mo_consumers = Map.empty, mo_sent = []\<rparr>" 3 0]
  by (simp add: on_socket_def queue_of_def)

text \<open>The flag \<open>ready\<close> does not pace anything: once a consumer is registered, the messages pushed to its
  topic all leave at once for its socket, whether it has acknowledged or not.
\<close>

theorem pushes_do_not_wait:
  assumes "mo_consumers s t = Some c" "mo_queues s t = Some []"
  shows "\<exists>s'. for_each (pushIncomingMessage t) ms s = Inr s' \<and>
           mo_sent s' = mo_sent s @ map (QueuePacket (co_socket c)) ms"
  using assms
proof (induction ms arbitrary: s c)
  case (Cons m ms)
  let ?s1 = "s\<lparr>mo_queues := (mo_queues s)(t \<mapsto> [m])\<rparr>"
  let ?s2 = "?s1\<lparr>mo_queues := (mo_queues ?s1)(t \<mapsto> []), mo_consumers := (mo_consumers ?s1)(t \<mapsto> c\<lparr>co_ready := False\<rparr>),
    mo_sent := mo_sent ?s1 @ [QueuePacket (co_socket c) m]\<rparr>"
  have "pushIncomingMessage t m s = attemptToSend t ?s1" using Cons.prems by (simp add: pushIncomingMessage_def)
  also have "\<dots> = Inr ?s2" using Cons.prems by (intro attemptToSend_simps(3)) (simp_all add: queue_of_def)
  finally have "pushIncomingMessage t m s = Inr ?s2" .
  moreover obtain s' where "for_each (pushIncomingMessage t) ms ?s2 = Inr s'"
    "mo_sent s' = mo_sent ?s2 @ map (QueuePacket (co_socket c)) ms"
    using Cons.IH [of ?s2 "c\<lparr>co_ready := False\<rparr>"] by auto
  ultimately show ?case by simp
qed simp

theorem pushes_do_not_wait_witness:
  "\<exists>s'. for_each (pushIncomingMessage ''jobs'')
         [\<lparr>am_operation = 1, am_autoSourceTopic = True, am_destinationTopic = ''jobs'', am_returnTopic = [], am_payload = 5::nat\<rparr>,
          \<lparr>am_operation = 1, am_autoSourceTopic = True, am_destinationTopic = ''jobs'', am_returnTopic = [], am_payload = 6\<rparr>]
         \<lparr>mo_preemptiveAlloc = False, mo_queues = [''jobs'' \<mapsto> []], mo_consumers = [''jobs'' \<mapsto> \<lparr>co_socket = 7, co_ready = False\<rparr>], mo_sent = []\<rparr> = Inr s' \<and>
     mo_sent s' =
       [QueuePacket 7 \<lparr>am_operation = 1, am_autoSourceTopic = True, am_destinationTopic = ''jobs'', am_returnTopic = [], am_payload = 5\<rparr>,
        QueuePacket 7 \<lparr>am_operation = 1, am_autoSourceTopic = True, am_destinationTopic = ''jobs'', am_returnTopic = [], am_payload = 6\<rparr>]"
  using pushes_do_not_wait [of "\<lparr>mo_preemptiveAlloc = False, mo_queues = [''jobs'' \<mapsto> []], mo_consumers = [''jobs'' \<mapsto> \<lparr>co_socket = 7, co_ready = False\<rparr>], mo_sent = []\<rparr>"
      "''jobs''" "\<lparr>co_socket = 7, co_ready = False\<rparr>"
      "[\<lparr>am_operation = 1, am_autoSourceTopic = True, am_destinationTopic = ''jobs'', am_returnTopic = [], am_payload = 5::nat\<rparr>,
        \<lparr>am_operation = 1, am_autoSourceTopic = True, am_destinationTopic = ''jobs'', am_returnTopic = [], am_payload = 6\<rparr>]"]
  by simp

text \<open>The end of a consumer's connection stops the simulation: the queue means to answer the peer's
  close with its own, but what it sends is the failed cast of its request to a packet.
\<close>

theorem peer_close_stops_queue:
  "for_each mq_step (es @ [Inr (PeerClosed i)]) s \<noteq> Inr s' \<and>
   mi_handleMessage (PeerClosed i) s = Inl (RuntimeError ''send(): Message pointer is nullptr'')"
  by (auto simp: for_each_append and_then_eq_Inr)

end
