(* ===== verification/Network.thy ===== *)
theory Network
  imports SimCore
begin

text \<open>
  The local network of a data centre (\<open>architecture/net\<close>): the link layer frames, the network cards
  that announce their address and stamp what they send, the switch that learns which port an address
  is behind, the table of host names, and the hub that connects the modules of a node.

  A payload that is no frame is \<open>Payload\<close>; the input and output half of a port of the switch have one
  number here.
\<close>

section \<open>Frames\<close>

record 'p L2Protocol =
  l2_origin :: int
  l2_destination :: int
  l2_payload :: "'p option"

datatype 'p net_msg = Frame "'p L2Protocol" | Payload 'p

definition encapsulate_from :: "'p \<Rightarrow> int \<Rightarrow> int \<Rightarrow> 'p L2Protocol" where
  "encapsulate_from p origin dest = \<lparr>l2_origin = origin, l2_destination = dest, l2_payload = Some p\<rparr>"

definition encapsulate_to :: "'p \<Rightarrow> int \<Rightarrow> 'p L2Protocol" where
  "encapsulate_to p dest = \<lparr>l2_origin = 0, l2_destination = dest, l2_payload = Some p\<rparr>"

fun tryDecapsulate :: "'p net_msg \<Rightarrow> 'p option" where
  "tryDecapsulate (Frame f) = l2_payload f"
| "tryDecapsulate (Payload p) = Some p"

section \<open>Network cards\<close>

text \<open>The address a card takes: its parameter, or its module id when that is not set; and its announcement.\<close>

definition card_initialize :: "int \<Rightarrow> int \<Rightarrow> bool \<Rightarrow> int \<times> 'p L2Protocol list" where
  "card_initialize parameter moduleId gratuitous =
     (let mac = (if parameter = -1 then moduleId else parameter)
      in (mac, if gratuitous then [\<lparr>l2_origin = mac, l2_destination = -1, l2_payload = None\<rparr>] else []))"

datatype 'p card_out = CardOut "'p L2Protocol" | CommOut "'p L2Protocol"

definition card_handleMessage :: "bool \<Rightarrow> int \<Rightarrow> 'p net_msg \<Rightarrow> 'p card_out option outcome" where
  "card_handleMessage fromComm mac m =
     (case m of
        Payload p \<Rightarrow> Inl (RuntimeError ''check_and_cast to L2Protocol'')
      | Frame f \<Rightarrow>
          if l2_destination f = -1 then Inr None
          else if fromComm then Inr (Some (CardOut f))
          else Inr (Some (CommOut (f\<lparr>l2_origin := mac\<rparr>))))"

section \<open>The switch\<close>

type_synonym commutationTable = "int \<Rightarrow> int option"

definition switch_handleMessage ::
  "int \<Rightarrow> 'p net_msg \<Rightarrow> commutationTable \<Rightarrow> (commutationTable \<times> (int \<times> 'p L2Protocol) option) outcome" where
  "switch_handleMessage port m tab =
     (case m of
        Payload p \<Rightarrow> Inl (RuntimeError ''check_and_cast to L2Protocol'')
      | Frame f \<Rightarrow>
          if l2_destination f = -1 then Inr (tab(l2_origin f \<mapsto> port), None)
          else (case tab (l2_destination f) of
                  None \<Rightarrow> Inl OutOfRange
                | Some gateId \<Rightarrow> Inr (tab, Some (gateId, f))))"

section \<open>Host names\<close>

record SimpleNetDb =
  nd_hostnameToAddress :: "string \<Rightarrow> int option"
  nd_addressToHostname :: "int \<Rightarrow> string option"

definition netDb_start :: SimpleNetDb where
  "netDb_start = \<lparr>nd_hostnameToAddress = Map.empty, nd_addressToHostname = Map.empty\<rparr>"

definition registerHost :: "string \<Rightarrow> int \<Rightarrow> SimpleNetDb \<Rightarrow> SimpleNetDb" where
  "registerHost host addr db =
     db\<lparr>nd_hostnameToAddress := (nd_hostnameToAddress db)(host \<mapsto> addr),
        nd_addressToHostname := (nd_addressToHostname db)(addr \<mapsto> host)\<rparr>"

definition getAddress :: "string \<Rightarrow> SimpleNetDb \<Rightarrow> int outcome" where
  "getAddress host db = (case nd_hostnameToAddress db host of Some a \<Rightarrow> Inr a | None \<Rightarrow> Inl OutOfRange)"

definition getHostName :: "int \<Rightarrow> SimpleNetDb \<Rightarrow> string outcome" where
  "getHostName addr db = (case nd_addressToHostname db addr of Some h \<Rightarrow> Inr h | None \<Rightarrow> Inl OutOfRange)"

text \<open>The contract of the table: with distinct names and addresses both look-ups are inverse.\<close>

locale host_table =
  fixes reg :: "string \<Rightarrow> int \<Rightarrow> 'db \<Rightarrow> 'db"
    and addr_of :: "string \<Rightarrow> 'db \<Rightarrow> int outcome"
    and name_of :: "int \<Rightarrow> 'db \<Rightarrow> string outcome"
  assumes addr_reg: "addr_of h (reg h' a db) = (if h = h' then Inr a else addr_of h db)"
    and name_reg: "name_of b (reg h' a db) = (if b = a then Inr h' else name_of b db)"
begin

definition registered :: "(string \<times> int) list \<Rightarrow> 'db \<Rightarrow> 'db" where
  "registered hs db = fold (\<lambda>(h, a). reg h a) hs db"

lemma registered_look_ups:
  assumes "distinct (map fst hs)" "distinct (map snd hs)" "(h, a) \<in> set hs"
  shows "addr_of h (registered hs db) = Inr a" "name_of a (registered hs db) = Inr h"
proof -
  have "addr_of h (registered hs db) = Inr a \<and> name_of a (registered hs db) = Inr h"
    using assms
  proof (induction hs rule: rev_induct)
    case (snoc x xs)
    obtain h' a' where x: "x = (h', a')" by force
    have r: "registered (xs @ [x]) db = reg h' a' (registered xs db)" by (simp add: registered_def x)
    show ?case
    proof (cases "(h, a) = x")
      case True
      then show ?thesis unfolding r by (simp add: x addr_reg name_reg)
    next
      case False
      then have "(h, a) \<in> set xs" using snoc.prems(3) by simp
      moreover from this have "h \<noteq> h'" "a \<noteq> a'" using snoc.prems(1,2) x by (force simp: image_iff)+
      ultimately show ?thesis using snoc unfolding r by (simp add: addr_reg name_reg)
    qed
  qed simp
  then show "addr_of h (registered hs db) = Inr a" "name_of a (registered hs db) = Inr h" by auto
qed

end

interpretation hosts: host_table registerHost getAddress getHostName
  by unfold_locales (simp_all add: registerHost_def getAddress_def getHostName_def)

section \<open>Delivery\<close>

text \<open>
  Cards on the ports of one switch: \<open>macs p\<close> is the address of the card on port \<open>p\<close>.  A card announces
  itself when it starts; \<open>transmit\<close> is what happens to a message its host hands to the card on port
  \<open>snd_port\<close>: the port that receives it and what the host there unpacks.
\<close>

definition announce :: "(int \<Rightarrow> int) \<Rightarrow> int \<Rightarrow> commutationTable \<Rightarrow> commutationTable outcome" where
  "announce macs p tab =
     for_each (\<lambda>f tab. and_then (switch_handleMessage p (Frame (f :: unit L2Protocol)) tab) (\<lambda>(tab', _). Inr tab'))
       (snd (card_initialize (macs p) 0 True)) tab"

definition transmit ::
  "(int \<Rightarrow> int) \<Rightarrow> int \<Rightarrow> 'p net_msg \<Rightarrow> commutationTable \<Rightarrow> (int \<times> 'p L2Protocol) option outcome" where
  "transmit macs snd_port m tab =
     and_then (card_handleMessage False (macs snd_port) m) (\<lambda>r.
       case r of
         Some (CommOut f) \<Rightarrow>
           and_then (switch_handleMessage snd_port (Frame f) tab) (\<lambda>(_, out).
             case out of
               None \<Rightarrow> Inr None
             | Some (p, f') \<Rightarrow>
                 and_then (card_handleMessage True (macs p) (Frame f')) (\<lambda>r'.
                   case r' of Some (CardOut f'') \<Rightarrow> Inr (Some (p, f'')) | _ \<Rightarrow> Inr None))
       | _ \<Rightarrow> Inr None)"

lemma announce_learns:
  "macs p \<noteq> -1 \<Longrightarrow> announce macs p tab = Inr (tab(macs p \<mapsto> p))"
  by (simp add: announce_def card_initialize_def switch_handleMessage_def Let_def)

lemma announcements_learn:
  assumes "\<forall>p\<in>set ps. macs p \<noteq> -1"
  shows "\<exists>tab'. for_each (announce macs) ps tab = Inr tab' \<and>
           tab' = fold (\<lambda>p t. t(macs p \<mapsto> p)) ps tab"
  using assms by (induction ps arbitrary: tab) (auto simp: announce_learns)

lemma fold_learn:
  assumes "inj_on macs (set ps)" "p \<in> set ps"
  shows "fold (\<lambda>p t. t(macs p \<mapsto> p)) ps tab (macs p) = Some p"
  using assms
proof (induction ps arbitrary: tab rule: rev_induct)
  case (snoc x xs)
  show ?case
  proof (cases "p = x")
    case False
    then have "p \<in> set xs" "macs p \<noteq> macs x" using snoc.prems by (auto simp: inj_on_def)
    then show ?thesis using snoc by (simp add: inj_on_def)
  qed simp
qed simp

text \<open>C23.  Once the cards have announced themselves, in any order, a payload addressed to one of them is
  delivered to the host behind it, unchanged and stamped with the sender's address, whichever card sends it,
  provided the addresses are different and none is the broadcast address; an address nobody announced
  stops the simulation.
\<close>

theorem network_delivers:
  assumes "inj_on macs (set ps)" "\<forall>p\<in>set ps. macs p \<noteq> -1"
  shows "\<exists>tab. for_each (announce macs) ps Map.empty = Inr tab \<and>
    (\<forall>snd_port payload dest. dest \<noteq> -1 \<longrightarrow>
       transmit macs snd_port (Frame (encapsulate_to payload dest)) tab =
         (case find (\<lambda>p. macs p = dest) ps of
            Some p \<Rightarrow> Inr (Some (p, encapsulate_from payload (macs snd_port) dest))
          | None \<Rightarrow> Inl OutOfRange))"
proof -
  let ?tab = "fold (\<lambda>p t. t(macs p \<mapsto> p)) ps Map.empty"
  have t: "for_each (announce macs) ps Map.empty = Inr ?tab" using announcements_learn [OF assms(2)] by auto
  have look: "?tab dest = find (\<lambda>p. macs p = dest) ps" for dest
  proof (cases "find (\<lambda>p. macs p = dest) ps")
    case None
    then have "\<forall>p\<in>set ps. macs p \<noteq> dest" by (simp add: find_None_iff)
    then have "fold (\<lambda>p t. t(macs p \<mapsto> p)) ps tab dest = tab dest" for tab
      by (induction ps arbitrary: tab) simp_all
    then show ?thesis using None by simp
  next
    case (Some p)
    then have "p \<in> set ps" "macs p = dest" by (auto simp: find_Some_iff)
    with fold_learn [OF assms(1), of p] Some show ?thesis by simp
  qed
  show ?thesis
  proof (intro exI conjI allI impI)
    show "for_each (announce macs) ps Map.empty = Inr ?tab" by (rule t)
    fix snd_port payload and dest :: int assume "dest \<noteq> -1"
    then show "transmit macs snd_port (Frame (encapsulate_to payload dest)) ?tab =
         (case find (\<lambda>p. macs p = dest) ps of
            Some p \<Rightarrow> Inr (Some (p, encapsulate_from payload (macs snd_port) dest))
          | None \<Rightarrow> Inl OutOfRange)"
      by (cases "find (\<lambda>p. macs p = dest) ps")
        (simp_all add: transmit_def card_handleMessage_def switch_handleMessage_def encapsulate_to_def
          encapsulate_from_def look)
  qed
qed

theorem network_delivers_witness:
  "\<exists>tab. for_each (announce (\<lambda>p. 10 + p)) [0, 1, 2] Map.empty = Inr tab \<and>
     transmit (\<lambda>p. 10 + p) 2 (Frame (encapsulate_to True 11)) tab = Inr (Some (1, encapsulate_from True 12 11)) \<and>
     transmit (\<lambda>p. 10 + p) 0 (Frame (encapsulate_to True 7)) tab = Inl OutOfRange"
proof -
  have "inj_on (\<lambda>p :: int. 10 + p) (set [0, 1, 2])" "\<forall>p\<in>set [0, 1, 2]. 10 + p \<noteq> (-1 :: int)"
    by (auto simp: inj_on_def)
  from network_delivers [OF this, where 'a = bool]
  obtain tab where t: "for_each (announce (\<lambda>p. 10 + p)) [0, 1, 2] Map.empty = Inr tab"
    and d: "\<And>snd_port payload dest. dest \<noteq> -1 \<Longrightarrow>
       transmit (\<lambda>p. 10 + p) snd_port (Frame (encapsulate_to (payload :: bool) dest)) tab =
         (case find (\<lambda>p. 10 + p = dest) [0, 1, 2] of
            Some p \<Rightarrow> Inr (Some (p, encapsulate_from payload (10 + snd_port) dest))
          | None \<Rightarrow> Inl OutOfRange)" by blast
  show ?thesis using d [of 11 2 True] d [of 7 0 True] t by auto
qed

section \<open>The hub\<close>

text \<open>\<open>CheckingHubModule\<close>: the gate a message arrived on is its vector and its index.\<close>

datatype hub_gate = FromLower int | FromUpper int | UnknownGate

record 'a Hub =
  hub_upperSize :: int
  hub_lowerSize :: int
  hub_lowerOut :: int
  hub_upperOut :: int
  hub_core :: "'a SIMCAN_Message_scheme core"

definition hub_getOutGate :: "hub_gate \<Rightarrow> 'a Hub \<Rightarrow> int option outcome" where
  "hub_getOutGate g h =
     (case g of
        FromLower i \<Rightarrow> Inr (Some (hub_lowerOut h + i))
      | FromUpper i \<Rightarrow> Inr (Some (hub_upperOut h + i))
      | UnknownGate \<Rightarrow> Inl (RuntimeError ''Message received from an unknown gate''))"

definition hub_processRequest ::
  "hub_gate \<Rightarrow> 'a SIMCAN_Message_scheme \<Rightarrow> 'a Hub \<Rightarrow> 'a SIMCAN_Message_scheme core outcome" where
  "hub_processRequest g sm h =
     (case g of
        FromLower _ \<Rightarrow>
          let idx = (if hub_upperSize h = 1 then 0 else nextModuleIndex sm)
          in sendRequest None (hub_upperOut h + idx) sm (hub_core h)
      | _ \<Rightarrow>
          let idx = (if hub_lowerSize h = 1 then 0 else nextModuleIndex sm)
          in sendRequest None (hub_lowerOut h + idx) sm (hub_core h))"

definition hub_handleMessage :: "hub_gate \<Rightarrow> 'a SIMCAN_Message_scheme \<Rightarrow> 'a Hub \<Rightarrow> 'a Hub outcome" where
  "hub_handleMessage g sm h =
     (if isResponse sm
      then and_then (sendResponse sm (hub_core h)) (\<lambda>c. Inr (h\<lparr>hub_core := c\<rparr>))
      else and_then (hub_getOutGate g h) (\<lambda>sel.
        and_then (updateMessageTrace sel sm (hub_core h)) (\<lambda>(sm', c).
          and_then (hub_processRequest g sm' (h\<lparr>hub_core := c\<rparr>)) (\<lambda>c'. Inr (h\<lparr>hub_core := c'\<rparr>)))))"

definition hub_processSelfMessage :: "'a Hub outcome" where
  "hub_processSelfMessage = Inl (RuntimeError ''This module cannot process self messages'')"

lemma updateMessageTrace_only_trace:
  assumes "updateMessageTrace sel sm c = Inr (sm', c')"
  obtains t where "sm' = sm\<lparr>trace := t\<rparr>" "t \<noteq> []"
proof -
  have "trace sm' \<noteq> []" by (rule sendResponse_after_update(2) [OF assms])
  moreover have "\<exists>t. sm' = sm\<lparr>trace := t\<rparr>"
    using assms by (cases "last (trace sm)")
      (auto simp: updateMessageTrace_def addModuleToTrace_def and_then_eq_Inr Let_def split: if_splits)
  ultimately show ?thesis using that by auto
qed

text \<open>A request that comes in from below leaves above through the port its sender names (the only one,
  if there is one), and its response leaves through the port the request came in by, with the trace the
  request had: the hub is transparent.
\<close>

theorem hub_transparent:
  assumes "trace sm \<noteq> []" "\<not> isResponse sm"
  shows "\<exists>sm' c. hub_handleMessage (FromLower i) sm h =
       Inr (h\<lparr>hub_core := send_via sm' (hub_upperOut h + (if hub_upperSize h = 1 then 0 else nextModuleIndex sm)) c\<rparr>) \<and>
     (\<forall>g h'. hub_handleMessage g (sm'\<lparr>isResponse := True\<rparr>) h' =
        Inr (h'\<lparr>hub_core := send_via (sm\<lparr>isResponse := True\<rparr>) (hub_lowerOut h + i) (hub_core h')\<rparr>))"
proof -
  obtain sm' c where u: "updateMessageTrace (Some (hub_lowerOut h + i)) sm (hub_core h) = Inr (sm', c)"
    using updateMessageTrace_ok [OF assms(1)] by blast
  then obtain t where t: "sm' = sm\<lparr>trace := t\<rparr>" "t \<noteq> []" by (rule updateMessageTrace_only_trace)
  have r: "hub_handleMessage g (sm'\<lparr>isResponse := True\<rparr>) h' =
        Inr (h'\<lparr>hub_core := send_via (sm\<lparr>isResponse := True\<rparr>) (hub_lowerOut h + i) (hub_core h')\<rparr>)" for g h'
    using sendResponse_same_trace [OF u, of "sm'\<lparr>isResponse := True\<rparr>"] t
    by (simp add: hub_handleMessage_def)
  have "hub_handleMessage (FromLower i) sm h =
       Inr (h\<lparr>hub_core := send_via sm' (hub_upperOut h + (if hub_upperSize h = 1 then 0 else nextModuleIndex sm)) c\<rparr>)"
    using assms(2) u t
    by (simp add: hub_handleMessage_def hub_getOutGate_def hub_processRequest_def sendRequest_def isTraceEmpty_def Let_def)
  with r show ?thesis by blast
qed

definition hub_example :: "unit Hub" where
  "hub_example = \<lparr>hub_upperSize = 1, hub_lowerSize = 2, hub_lowerOut = 20, hub_upperOut = 10, hub_core = core_initialize 1 ''hub''\<rparr>"

theorem hub_transparent_witness:
  "\<exists>sm' c. hub_handleMessage (FromLower 1) parent_example hub_example =
       Inr (hub_example\<lparr>hub_core := send_via sm' 10 c\<rparr>) \<and>
     (\<forall>g h'. hub_handleMessage g (sm'\<lparr>isResponse := True\<rparr>) h' =
        Inr (h'\<lparr>hub_core := send_via (parent_example\<lparr>isResponse := True\<rparr>) 21 (hub_core h')\<rparr>))"
proof -
  have "trace parent_example \<noteq> []" "\<not> isResponse parent_example"
    by (simp_all add: parent_example_def new_SIMCAN_Message_def)
  from hub_transparent [OF this, of 1 hub_example] show ?thesis by (simp add: hub_example_def)
qed

end
