(* ===== verification/DiskManager.thy ===== *)
theory DiskManager
  imports Hypervisor
begin

text \<open>
  The disk of a node (\<open>architecture/disk/DiskManager\<close>): one queue of requests and one timer per
  virtual machine; the head of a queue is being served while the timer runs.  Bandwidths and buffer
  sizes are rationals; a division by zero gives no time the simulation can schedule.  The timer of a
  queue is the time it is set to.
\<close>

section \<open>State\<close>

record DiskQueue =
  dq_ioFinished :: "rat option"
  dq_queue :: "DiskSyscall list"

record DiskManager =
  dm_readBandwidth :: rat
  dm_writeBandwidth :: rat
  dm_queueTable :: "DiskQueue list"
  dm_sent :: "DiskSyscall list"

definition SC_OK :: int where "SC_OK = 0"

definition disk_initialize :: "rat \<Rightarrow> rat \<Rightarrow> nat \<Rightarrow> DiskManager" where
  "disk_initialize rd wr numVms = \<lparr>dm_readBandwidth = rd, dm_writeBandwidth = wr,
     dm_queueTable = replicate numVms \<lparr>dq_ioFinished = None, dq_queue = []\<rparr>, dm_sent = []\<rparr>"

section \<open>Operations\<close>

definition io_time :: "DiskManager \<Rightarrow> DiskSyscall \<Rightarrow> rat outcome" where
  "io_time s rq =
     (let bandwidth = (if opCode rq = SYS_READ then dm_readBandwidth s else dm_writeBandwidth s)
      in if bandwidth = 0 then Inl (RuntimeError ''simtime overflow'') else Inr (bufferSize rq / bandwidth))"

text \<open>An event cannot be scheduled in the past, nor one that is scheduled already.\<close>

definition scheduleIo :: "rat \<Rightarrow> nat \<Rightarrow> DiskManager \<Rightarrow> DiskManager outcome" where
  "scheduleIo now v s =
     (let entry = dm_queueTable s ! v
      in case dq_queue entry of
           [] \<Rightarrow> Inr s
         | rq # _ \<Rightarrow>
             and_then (io_time s rq) (\<lambda>eta.
               if eta < 0 then Inl (RuntimeError ''scheduleAt: time in the past'')
               else if dq_ioFinished entry \<noteq> None then Inl (RuntimeError ''scheduleAt: already scheduled'')
               else Inr (s\<lparr>dm_queueTable := (dm_queueTable s)[v := entry\<lparr>dq_ioFinished := Some (now + eta)\<rparr>]\<rparr>)))"

definition flushQueue :: "DiskQueue \<Rightarrow> DiskQueue" where
  "flushQueue entry = entry\<lparr>dq_ioFinished := None, dq_queue := []\<rparr>"

definition disk_finish :: "DiskManager \<Rightarrow> DiskManager" where
  "disk_finish s = s\<lparr>dm_queueTable := map flushQueue (dm_queueTable s)\<rparr>"

definition stopVmQueue :: "int \<Rightarrow> DiskManager \<Rightarrow> DiskManager outcome" where
  "stopVmQueue v s =
     (if 0 \<le> v \<and> nat v < length (dm_queueTable s)
      then Inr (s\<lparr>dm_queueTable := (dm_queueTable s)[nat v := flushQueue (dm_queueTable s ! nat v)]\<rparr>)
      else Inl OutOfRange)"

text \<open>The two branches of \<open>handleMessage\<close>: the timer of queue \<open>v\<close>, and a request.\<close>

definition disk_timer :: "rat \<Rightarrow> nat \<Rightarrow> DiskManager \<Rightarrow> DiskManager outcome" where
  "disk_timer now v s =
     (let entry = dm_queueTable s ! v
      in case dq_queue entry of
           [] \<Rightarrow> Inl (RuntimeError ''pop(): Queue empty'')
         | rq # q \<Rightarrow>
             scheduleIo now v (s\<lparr>dm_queueTable := (dm_queueTable s)[v := entry\<lparr>dq_ioFinished := None, dq_queue := q\<rparr>],
               dm_sent := dm_sent s @ [rq\<lparr>isResponse := True, msg_result := SC_OK\<rparr>]\<rparr>))"

definition disk_request :: "rat \<Rightarrow> DiskSyscall \<Rightarrow> DiskManager \<Rightarrow> DiskManager outcome" where
  "disk_request now rq s =
     (if 0 \<le> vmId rq \<and> nat (vmId rq) < length (dm_queueTable s)
      then let v = nat (vmId rq); entry = dm_queueTable s ! v; q = dq_queue entry @ [rq];
               s' = s\<lparr>dm_queueTable := (dm_queueTable s)[v := entry\<lparr>dq_queue := q\<rparr>]\<rparr>
           in if length q = 1 then scheduleIo now v s' else Inr s'
      else Inl OutOfRange)"

section \<open>Runs\<close>

text \<open>
  Requests arrive at any time up to the next timer; a timer fires at the time it is set to.
\<close>

datatype disk_event = Arrive DiskSyscall | Fire nat | Stop int

fun disk_handle :: "rat \<times> disk_event \<Rightarrow> DiskManager \<Rightarrow> DiskManager outcome" where
  "disk_handle (now, Arrive rq) s = disk_request now rq s"
| "disk_handle (now, Fire v) s = disk_timer now v s"
| "disk_handle (now, Stop v) s = stopVmQueue v s"

text \<open>The kernel fires a timer only when it is set, at its time, and never lets time go back.\<close>

definition may_happen :: "rat \<times> disk_event \<Rightarrow> DiskManager \<Rightarrow> bool" where
  "may_happen e s \<longleftrightarrow>
     (case e of (now, Fire v) \<Rightarrow> v < length (dm_queueTable s) \<and> dq_ioFinished (dm_queueTable s ! v) = Some now
      | (now, _) \<Rightarrow> True) \<and>
     (\<forall>d\<in>set (dm_queueTable s). \<forall>t. dq_ioFinished d = Some t \<longrightarrow> fst e \<le> t)"

inductive disk_run :: "DiskManager \<Rightarrow> (rat \<times> disk_event) list \<Rightarrow> DiskManager \<Rightarrow> bool" for s0 where
  run_start: "disk_run s0 [] s0"
| run_step: "disk_run s0 es s \<Longrightarrow> may_happen e s \<Longrightarrow> disk_handle e s = Inr s' \<Longrightarrow> disk_run s0 (es @ [e]) s'"

inductive_cases disk_run_snocE: "disk_run s0 (es @ [e]) s'"

definition disk_answer :: "DiskSyscall \<Rightarrow> DiskSyscall" where
  "disk_answer rq = rq\<lparr>isResponse := True, msg_result := SC_OK\<rparr>"

fun arrivals :: "nat \<Rightarrow> (rat \<times> disk_event) list \<Rightarrow> DiskSyscall list" where
  "arrivals v [] = []"
| "arrivals v ((_, Arrive rq) # es) = (if vmId rq = int v then [rq] else []) @ arrivals v es"
| "arrivals v ((_, Fire _) # es) = arrivals v es"
| "arrivals v ((_, Stop _) # es) = arrivals v es"

definition answers_of :: "nat \<Rightarrow> DiskManager \<Rightarrow> DiskSyscall list" where
  "answers_of v s = filter (\<lambda>rq. vmId rq = int v) (dm_sent s)"

lemma arrivals_append [simp]: "arrivals v (es @ es') = arrivals v es @ arrivals v es'"
  by (induction v es rule: arrivals.induct) simp_all

definition disk_ok :: "DiskManager \<Rightarrow> bool" where
  "disk_ok s \<longleftrightarrow> (\<forall>v<length (dm_queueTable s). let d = dm_queueTable s ! v in
     (dq_ioFinished d = None \<longleftrightarrow> dq_queue d = []) \<and> (\<forall>rq\<in>set (dq_queue d). vmId rq = int v))"

text \<open>What starting the service of queue \<open>v\<close> does, when it does not fail.\<close>

lemma scheduleIo_cases:
  assumes "scheduleIo now v s = Inr s'" "v < length (dm_queueTable s)"
  obtains "dq_queue (dm_queueTable s ! v) = []" "s' = s"
  | t where "dq_queue (dm_queueTable s ! v) \<noteq> []"
      "s' = s\<lparr>dm_queueTable := (dm_queueTable s)[v := (dm_queueTable s ! v)\<lparr>dq_ioFinished := Some t\<rparr>]\<rparr>"
  using assms by (auto simp: scheduleIo_def Let_def and_then_eq_Inr split: list.splits if_splits)

definition serves_in_order :: "DiskSyscall list \<Rightarrow> nat \<Rightarrow> DiskManager \<Rightarrow> bool" where
  "serves_in_order rqs v s \<longleftrightarrow> answers_of v s @ map disk_answer (dq_queue (dm_queueTable s ! v)) = map disk_answer rqs"

lemma scheduleIo_keeps:
  assumes "scheduleIo now v s = Inr s'" "v < length (dm_queueTable s)"
    and "dq_queue (dm_queueTable s ! v) = [] \<longrightarrow> dq_ioFinished (dm_queueTable s ! v) = None"
    and "\<And>u. u < length (dm_queueTable s) \<Longrightarrow> (\<forall>rq\<in>set (dq_queue (dm_queueTable s ! u)). vmId rq = int u)"
    and "\<And>u. u < length (dm_queueTable s) \<Longrightarrow> u \<noteq> v \<Longrightarrow>
        (dq_ioFinished (dm_queueTable s ! u) = None \<longleftrightarrow> dq_queue (dm_queueTable s ! u) = [])"
  shows "disk_ok s' \<and> dm_sent s' = dm_sent s \<and> length (dm_queueTable s') = length (dm_queueTable s) \<and>
    (\<forall>u<length (dm_queueTable s). dq_queue (dm_queueTable s' ! u) = dq_queue (dm_queueTable s ! u))"
  using assms(1,2)
proof (cases rule: scheduleIo_cases)
  case 1
  with assms(2-5) show ?thesis by (auto simp: disk_ok_def Let_def)
next
  case (2 t)
  with assms(2,4,5) show ?thesis by (auto simp: disk_ok_def Let_def nth_list_update)
qed

lemma disk_request_keeps:
  assumes "disk_request now rq s = Inr s'" "disk_ok s"
  shows "disk_ok s' \<and> dm_sent s' = dm_sent s \<and> length (dm_queueTable s') = length (dm_queueTable s) \<and>
    (\<forall>u<length (dm_queueTable s). dq_queue (dm_queueTable s' ! u) =
       dq_queue (dm_queueTable s ! u) @ (if vmId rq = int u then [rq] else []))"
proof -
  define v where "v = nat (vmId rq)"
  define d where "d = dm_queueTable s ! v"
  define s1 where "s1 = s\<lparr>dm_queueTable := (dm_queueTable s)[v := d\<lparr>dq_queue := dq_queue d @ [rq]\<rparr>]\<rparr>"
  have v: "vmId rq = int v" "v < length (dm_queueTable s)"
    using assms(1) by (auto simp: disk_request_def v_def split: if_splits)
  have r: "if dq_queue d = [] then scheduleIo now v s1 = Inr s' else s1 = s'"
    using assms(1) v by (simp add: disk_request_def Let_def d_def s1_def split: if_splits)
  have old: "\<And>u. u < length (dm_queueTable s) \<Longrightarrow> (dq_ioFinished (dm_queueTable s ! u) = None \<longleftrightarrow> dq_queue (dm_queueTable s ! u) = []) \<and>
      (\<forall>rq\<in>set (dq_queue (dm_queueTable s ! u)). vmId rq = int u)"
    using assms(2) by (simp add: disk_ok_def Let_def)
  have q1: "\<forall>u<length (dm_queueTable s). dq_queue (dm_queueTable s1 ! u) =
      dq_queue (dm_queueTable s ! u) @ (if vmId rq = int u then [rq] else [])"
    using v by (simp add: s1_def d_def nth_list_update)
  have owner: "\<And>u. u < length (dm_queueTable s1) \<Longrightarrow> \<forall>rq\<in>set (dq_queue (dm_queueTable s1 ! u)). vmId rq = int u"
  proof -
    fix u assume "u < length (dm_queueTable s1)"
    then have u: "u < length (dm_queueTable s)" by (simp add: s1_def)
    then show "\<forall>rq\<in>set (dq_queue (dm_queueTable s1 ! u)). vmId rq = int u"
      using q1 [rule_format, OF u] old [OF u] by auto
  qed
  show ?thesis
  proof (cases "dq_queue d = []")
    case True
    then have r1: "scheduleIo now v s1 = Inr s'" using r by simp
    have "disk_ok s' \<and> dm_sent s' = dm_sent s1 \<and> length (dm_queueTable s') = length (dm_queueTable s1) \<and>
      (\<forall>u<length (dm_queueTable s1). dq_queue (dm_queueTable s' ! u) = dq_queue (dm_queueTable s1 ! u))"
    proof (rule scheduleIo_keeps [OF r1 _ _ owner])
      show "v < length (dm_queueTable s1)" using v(2) by (simp add: s1_def)
      show "dq_queue (dm_queueTable s1 ! v) = [] \<longrightarrow> dq_ioFinished (dm_queueTable s1 ! v) = None"
        using v(2) by (simp add: s1_def)
      fix u assume "u < length (dm_queueTable s1)" "u \<noteq> v"
      then show "(dq_ioFinished (dm_queueTable s1 ! u) = None) = (dq_queue (dm_queueTable s1 ! u) = [])"
        using old [of u] by (simp add: s1_def)
    qed
    moreover have "length (dm_queueTable s1) = length (dm_queueTable s)" "dm_sent s1 = dm_sent s" by (simp_all add: s1_def)
    ultimately show ?thesis using q1 by simp
  next
    case False
    have "disk_ok s1"
    proof -
      have "(dq_ioFinished (dm_queueTable s1 ! u) = None) = (dq_queue (dm_queueTable s1 ! u) = [])"
        if "u < length (dm_queueTable s1)" for u
        using that False v(2) old [of u] by (cases "u = v") (simp_all add: s1_def d_def)
      with owner show ?thesis unfolding disk_ok_def Let_def by blast
    qed
    moreover have "s1 = s'" using False r by simp
    moreover have "dm_sent s1 = dm_sent s" "length (dm_queueTable s1) = length (dm_queueTable s)"
      by (simp_all add: s1_def)
    ultimately show ?thesis using q1 by metis
  qed
qed

lemma disk_timer_keeps:
  assumes "disk_timer now v s = Inr s'" "v < length (dm_queueTable s)" "disk_ok s"
  shows "disk_ok s' \<and> length (dm_queueTable s') = length (dm_queueTable s) \<and>
    (\<exists>rq. vmId rq = int v \<and> dm_sent s' = dm_sent s @ [disk_answer rq] \<and>
       (\<forall>u<length (dm_queueTable s). dq_queue (dm_queueTable s ! u) =
          (if u = v then [rq] else []) @ dq_queue (dm_queueTable s' ! u)))"
proof -
  define d where "d = dm_queueTable s ! v"
  obtain rq q where q: "dq_queue d = rq # q"
    using assms(1) by (auto simp: disk_timer_def d_def Let_def split: list.splits)
  define s1 where "s1 = s\<lparr>dm_queueTable := (dm_queueTable s)[v := d\<lparr>dq_ioFinished := None, dq_queue := q\<rparr>],
     dm_sent := dm_sent s @ [disk_answer rq]\<rparr>"
  have r: "scheduleIo now v s1 = Inr s'"
    using assms(1) q by (simp add: disk_timer_def d_def Let_def s1_def disk_answer_def)
  have old: "\<And>u. u < length (dm_queueTable s) \<Longrightarrow> (dq_ioFinished (dm_queueTable s ! u) = None \<longleftrightarrow> dq_queue (dm_queueTable s ! u) = []) \<and>
      (\<forall>rq\<in>set (dq_queue (dm_queueTable s ! u)). vmId rq = int u)"
    using assms(3) by (simp add: disk_ok_def Let_def)
  have owner: "\<And>u. u < length (dm_queueTable s1) \<Longrightarrow> \<forall>rq\<in>set (dq_queue (dm_queueTable s1 ! u)). vmId rq = int u"
    using old assms(2) q by (force simp: s1_def d_def nth_list_update split: if_splits)
  have "vmId rq = int v" using old [OF assms(2)] q by (simp add: d_def)
  moreover have "\<forall>u<length (dm_queueTable s). dq_queue (dm_queueTable s ! u) =
      (if u = v then [rq] else []) @ dq_queue (dm_queueTable s1 ! u)"
    using assms(2) q by (simp add: s1_def d_def nth_list_update)
  moreover have "disk_ok s' \<and> dm_sent s' = dm_sent s1 \<and> length (dm_queueTable s') = length (dm_queueTable s1) \<and>
    (\<forall>u<length (dm_queueTable s1). dq_queue (dm_queueTable s' ! u) = dq_queue (dm_queueTable s1 ! u))"
    by (rule scheduleIo_keeps [OF r _ _ owner]) (use assms(2) old in \<open>auto simp: s1_def nth_list_update\<close>)
  ultimately show ?thesis by (auto simp: s1_def)
qed

lemma disk_stop_keeps:
  assumes "stopVmQueue v s = Inr s'" "disk_ok s"
  shows "disk_ok s' \<and> length (dm_queueTable s') = length (dm_queueTable s)"
  using assms by (auto simp: stopVmQueue_def disk_ok_def flushQueue_def Let_def nth_list_update split: if_splits)

lemma disk_step_keeps:
  assumes "disk_handle e s = Inr s'" "may_happen e s" "disk_ok s"
  shows "disk_ok s' \<and> length (dm_queueTable s') = length (dm_queueTable s) \<and>
    ((\<forall>i. snd e \<noteq> Stop i) \<longrightarrow> (\<forall>v rqs. v < length (dm_queueTable s) \<longrightarrow> serves_in_order rqs v s \<longrightarrow>
       serves_in_order (rqs @ arrivals v [e]) v s'))"
proof (cases e)
  case (Pair now x)
  show ?thesis
  proof (cases x)
    case (Arrive rq)
    from disk_request_keeps [of now rq s s'] assms Pair Arrive show ?thesis
      by (auto simp: serves_in_order_def answers_of_def)
  next
    case (Fire v)
    then have v: "v < length (dm_queueTable s)" using assms(2) Pair by (simp add: may_happen_def)
    have "disk_timer now v s = Inr s'" using assms(1) Pair Fire by simp
    from disk_timer_keeps [OF this v assms(3)] Pair Fire show ?thesis
      by (auto simp: serves_in_order_def answers_of_def disk_answer_def split: if_splits)
  next
    case (Stop i)
    with disk_stop_keeps [of i s s'] assms Pair show ?thesis by simp
  qed
qed

lemma disk_run_keeps:
  assumes "disk_run s0 es s" "disk_ok s0" "\<forall>e\<in>set es. \<forall>i. snd e \<noteq> Stop i"
    "\<forall>v<length (dm_queueTable s0). serves_in_order [] v s0"
  shows "disk_ok s \<and> length (dm_queueTable s) = length (dm_queueTable s0) \<and>
    (\<forall>v<length (dm_queueTable s0). serves_in_order (arrivals v es) v s)"
  using assms
proof (induction rule: disk_run.induct)
  case (run_step es s e s')
  then have IH: "disk_ok s" "length (dm_queueTable s) = length (dm_queueTable s0)"
    "\<forall>v<length (dm_queueTable s0). serves_in_order (arrivals v es) v s" by simp_all
  from disk_step_keeps [OF run_step(3,2) IH(1)] IH(2,3) run_step.prems(2) show ?case by simp
qed simp

text \<open>C24.  In every run the requests of a virtual machine are answered in the order they arrived, each once,
  and those that are not answered yet are the ones in its queue; a queue has its timer set exactly
  when a request waits in it, so that no request is forgotten, whatever the other machines do.
\<close>

theorem disk_serves_in_order:
  assumes "disk_run (disk_initialize rd wr n) es s" "\<forall>e\<in>set es. \<forall>i. snd e \<noteq> Stop i" "v < n"
  shows "answers_of v s @ map disk_answer (dq_queue (dm_queueTable s ! v)) = map disk_answer (arrivals v es) \<and>
    (dq_ioFinished (dm_queueTable s ! v) = None \<longleftrightarrow> answers_of v s = map disk_answer (arrivals v es))"
proof -
  let ?s0 = "disk_initialize rd wr n"
  have ok: "disk_ok ?s0" "\<forall>v<length (dm_queueTable ?s0). serves_in_order [] v ?s0" "length (dm_queueTable ?s0) = n"
    by (simp_all add: disk_ok_def disk_initialize_def serves_in_order_def answers_of_def)
  from disk_run_keeps [OF assms(1) ok(1) assms(2) ok(2)] ok(3) assms(3)
  have s: "disk_ok s" "v < length (dm_queueTable s)" "serves_in_order (arrivals v es) v s" by auto
  then have "dq_ioFinished (dm_queueTable s ! v) = None \<longleftrightarrow> dq_queue (dm_queueTable s ! v) = []"
    by (simp add: disk_ok_def Let_def)
  with s(3) show ?thesis by (metis append_Nil2 append_self_conv list.map_disc_iff serves_in_order_def)
qed

definition disk_example :: DiskSyscall where
  "disk_example = SIMCAN_Message.extend (new_SIMCAN_Message ''read'')
     \<lparr>pid = 3, vmId = 1, opCode = SYS_READ, bufferSize = 8, abortIOs = False\<rparr>"

theorem disk_serves_in_order_witness:
  "\<exists>s. disk_run (disk_initialize 4 2 2) [(0, Arrive disk_example), (1, Arrive (disk_example\<lparr>pid := 5\<rparr>)), (2, Fire 1)] s \<and>
     answers_of 1 s @ map disk_answer (dq_queue (dm_queueTable s ! 1)) =
       map disk_answer (arrivals 1 [(0, Arrive disk_example), (1, Arrive (disk_example\<lparr>pid := 5\<rparr>)), (2, Fire 1)]) \<and>
     (dq_ioFinished (dm_queueTable s ! 1) = None \<longleftrightarrow>
       answers_of 1 s = map disk_answer (arrivals 1 [(0, Arrive disk_example), (1, Arrive (disk_example\<lparr>pid := 5\<rparr>)), (2, Fire 1)]))"
proof -
  let ?s0 = "disk_initialize 4 2 2" and ?rq = "disk_example" and ?rq' = "disk_example\<lparr>pid := 5\<rparr>"
  let ?q0 = "\<lparr>dq_ioFinished = None, dq_queue = []\<rparr>"
  let ?s1 = "?s0\<lparr>dm_queueTable := [?q0, \<lparr>dq_ioFinished = Some 2, dq_queue = [?rq]\<rparr>]\<rparr>"
  let ?s2 = "?s0\<lparr>dm_queueTable := [?q0, \<lparr>dq_ioFinished = Some 2, dq_queue = [?rq, ?rq']\<rparr>]\<rparr>"
  let ?s3 = "?s0\<lparr>dm_queueTable := [?q0, \<lparr>dq_ioFinished = Some 4, dq_queue = [?rq']\<rparr>], dm_sent := [disk_answer ?rq]\<rparr>"
  have f: "vmId ?rq = 1" "opCode ?rq = SYS_READ" "bufferSize ?rq = 8"
    by (simp_all add: disk_example_def SIMCAN_Message.extend_def)
  have r: "replicate 2 ?q0 = [?q0, ?q0]" by (simp add: numeral_2_eq_2)
  have 1: "disk_handle (0, Arrive ?rq) ?s0 = Inr ?s1"
    by (simp add: disk_request_def scheduleIo_def io_time_def disk_initialize_def f r Let_def)
  have 2: "disk_handle (1, Arrive ?rq') ?s1 = Inr ?s2"
    by (simp add: disk_request_def disk_initialize_def f Let_def)
  have 3: "disk_handle (2, Fire 1) ?s2 = Inr ?s3"
    by (simp add: disk_timer_def scheduleIo_def io_time_def disk_initialize_def f Let_def disk_answer_def)
  have m: "may_happen (0, Arrive ?rq) ?s0" "may_happen (1, Arrive ?rq') ?s1" "may_happen (2, Fire 1) ?s2"
    by (simp_all add: may_happen_def disk_initialize_def)
  have run: "disk_run ?s0 [(0, Arrive ?rq), (1, Arrive ?rq'), (2, Fire 1)] ?s3"
    using run_step [OF run_step [OF run_step [OF run_start m(1) 1] m(2) 2] m(3) 3] by simp
  from disk_serves_in_order [OF run, of 1] run show ?thesis by auto
qed

text \<open>Nothing of the disk reads \<open>abortIOs\<close>: the request by which the hypervisor means to abort the transfers
  of a machine it releases joins the queue like a read of no data, and is answered in its turn after all of them.
\<close>

theorem abort_request_waits_its_turn:
  assumes "v < length (dm_queueTable s)" "dq_queue (dm_queueTable s ! v) \<noteq> []"
  shows "disk_request now (abort_disk (int v)) s =
    Inr (s\<lparr>dm_queueTable := (dm_queueTable s)[v := (dm_queueTable s ! v)
      \<lparr>dq_queue := dq_queue (dm_queueTable s ! v) @ [abort_disk (int v)]\<rparr>]\<rparr>)"
proof -
  have "vmId (abort_disk (int v)) = int v" by (simp add: abort_disk_def SIMCAN_Message.extend_def)
  with assms show ?thesis by (simp add: disk_request_def Let_def)
qed

theorem abort_request_waits_its_turn_witness:
  "disk_request 5 (abort_disk 0) \<lparr>dm_readBandwidth = 4, dm_writeBandwidth = 2,
      dm_queueTable = [\<lparr>dq_ioFinished = Some 7, dq_queue = [disk_example\<lparr>vmId := 0\<rparr>]\<rparr>], dm_sent = []\<rparr> =
    Inr \<lparr>dm_readBandwidth = 4, dm_writeBandwidth = 2,
      dm_queueTable = [\<lparr>dq_ioFinished = Some 7, dq_queue = [disk_example\<lparr>vmId := 0\<rparr>, abort_disk 0]\<rparr>], dm_sent = []\<rparr>"
  using abort_request_waits_its_turn [of 0 "\<lparr>dm_readBandwidth = 4, dm_writeBandwidth = 2,
      dm_queueTable = [\<lparr>dq_ioFinished = Some 7, dq_queue = [disk_example\<lparr>vmId := 0\<rparr>]\<rparr>], dm_sent = []\<rparr>" 5]
  by simp

end
