(* ===== verification/CloudMessages.thy ===== *)
theory CloudMessages
  imports Hypervisor CloudProvider
begin

text \<open>
  The messages the users, the cloud provider and the data centres exchange, as the managers see them: a
  traced message of the simulation with one of the bodies of \<open>UserMessages\<close>, \<open>Hypervisor\<close> or the control
  message that ends a simulation; the operation codes and results of \<open>core/include/SIMCAN_opcodes.h\<close> the
  handlers distinguish.  The fields the message and its body both have are those of the body.
\<close>

datatype dc_body =
    UserVm SM_UserVM
  | UserApp SM_UserAPP
  | VmExt SM_VmExtend
  | EndOfParty bool int       \<comment> \<open>\<open>SM_CloudProvider_Control\<close>: response flag and result\<close>
  | OtherBody int bool int    \<comment> \<open>operation, response flag and result\<close>

record DcMessage = SIMCAN_Message +
  env_body :: dc_body

definition SM_ExtensionOffer :: int where "SM_ExtensionOffer = 400"
definition SM_ExtensionOffer_Accept :: int where "SM_ExtensionOffer_Accept = 10007"
definition SM_ExtensionOffer_Reject :: int where "SM_ExtensionOffer_Reject = 10008"
definition SM_APP_Sub_Accept :: int where "SM_APP_Sub_Accept = 10003"
definition SM_APP_Sub_Reject :: int where "SM_APP_Sub_Reject = 10008"

lemmas dc_codes = SM_ExtensionOffer_def SM_ExtensionOffer_Accept_def SM_ExtensionOffer_Reject_def SM_VM_Req_op_def
  SM_VM_Sub_def SM_VM_Res_Accept_def SM_VM_Res_Reject_def SM_APP_Sub_Accept_def SM_APP_Sub_Reject_def
  SM_APP_Req_def SM_APP_Res_Accept_def

fun body_operation :: "dc_body \<Rightarrow> int" where
  "body_operation (UserVm rq) = uv_operation rq"
| "body_operation (UserApp ap) = ua_operation ap"
| "body_operation (VmExt ve) = SM_ExtensionOffer"
| "body_operation (EndOfParty _ _) = 0"
| "body_operation (OtherBody code _ _) = code"

fun body_isResponse :: "dc_body \<Rightarrow> bool" where
  "body_isResponse (UserVm rq) = uv_isResponse rq"
| "body_isResponse (UserApp ap) = ua_isResponse ap"
| "body_isResponse (VmExt ve) = ve_isResponse ve"
| "body_isResponse (EndOfParty r _) = r"
| "body_isResponse (OtherBody _ r _) = r"

fun body_result :: "dc_body \<Rightarrow> int" where
  "body_result (UserVm rq) = uv_result rq"
| "body_result (UserApp ap) = ua_result ap"
| "body_result (VmExt ve) = ve_result ve"
| "body_result (EndOfParty _ r) = r"
| "body_result (OtherBody _ _ r) = r"

definition with_body :: "dc_body \<Rightarrow> DcMessage" where
  "with_body b = SIMCAN_Message.extend (new_SIMCAN_Message []) \<lparr>env_body = b\<rparr>"

definition new_UserVm :: "VM_Request list \<Rightarrow> SM_UserVM" where
  "new_UserVm vms = \<lparr>uv_operation = 0, uv_isResponse = False, uv_result = SM_UnsetValue, uv_autoSourceTopic = True,
     uv_destinationTopic = [], uv_returnTopic = [], uv_startSubscriptionTime = 0, uv_endSubscriptionTime = 0,
     uv_vmId = [], uv_userId = [], uv_zone = [], uv_domain = [], uv_vm = vms\<rparr>"

end
