(* ===== verification/DcManager.thy ===== *)
theory DcManager
  imports Network CloudMessages ResManager
begin

text \<open>
  The manager of a data centre (\<open>management/managers/ManagerBase\<close> and \<open>DcManager\<close>): it receives the
  requests of the users from the message queue, places their machines through the resource manager,
  sends them to the hypervisors over the local network, answers the users and reports the resources
  of the centre to the cloud provider.

  The strategy, the catalogue, the tokenizer of the simulation
  library and the forecast are arguments.
\<close>

section \<open>State\<close>

record NodeUpdate =
  nu_destinationTopic :: string
  nu_returnTopic :: string
  nu_zone :: string
  nu_availableCores :: u64
  nu_availableRam :: u64
  nu_availableDisk :: u64

record DcManager =
  dc_core :: "DcMessage core"
  dc_pool :: NodePool
  dc_machinesInUse :: u32
  dc_activeMachines :: u32
  dc_netDb :: SimpleNetDb
  dc_zone :: string
  dc_nodeName :: string
  dc_domain :: string
  dc_eventTemplate :: NodeUpdate
  dc_networkIn :: int
  dc_networkOut :: int
  dc_queueIn :: int
  dc_queueOut :: int
  dc_cpuStatusInterval :: int
  dc_activeMachinesThreshold :: int
  dc_forecastActiveMachines :: bool
  dc_lastForecast :: int
  dc_acceptedUsers :: "string \<Rightarrow> string option"
  dc_finished :: bool
  dc_acceptResponses :: bool
  dc_timers :: "(rat \<times> int) list"
  dc_frames :: "DcMessage L2Protocol list"
  dc_updates :: "NodeUpdate list"

definition CPU_STATUS :: int where "CPU_STATUS = 8"
definition MANAGE_MACHINES :: int where "MANAGE_MACHINES = 9"

section \<open>Helpers\<close>

definition sendUpdateToCloudProvider :: "DcManager \<Rightarrow> DcManager" where
  "sendUpdateToCloudProvider s =
     (let u = (dc_eventTemplate s)\<lparr>nu_availableCores := getAvailableCores (dc_pool s),
            nu_availableRam := getAvailableRamMiB (dc_pool s), nu_availableDisk := getAvailableDiskMiB (dc_pool s)\<rparr>
      in s\<lparr>dc_eventTemplate := u, dc_updates := dc_updates s @ [u]\<rparr>)"

definition sendToLocalNetwork :: "DcMessage \<Rightarrow> int \<Rightarrow> DcManager \<Rightarrow> DcManager" where
  "sendToLocalNetwork m destinationAddress s = s\<lparr>dc_frames := dc_frames s @ [encapsulate_to m destinationAddress]\<rparr>"

definition generateHypervisorUrl :: "string \<Rightarrow> DcManager \<Rightarrow> string" where
  "generateHypervisorUrl hostName s = dc_nodeName s @ ''::'' @ hostName"

text \<open>
  The node name of the url is compared with itself (the local variable hides the member), so the error
  of the comparison cannot occur.
\<close>

definition resolveHypervisorUrl :: "(string \<Rightarrow> string \<Rightarrow> string list) \<Rightarrow> string \<Rightarrow> DcManager \<Rightarrow> int outcome" where
  "resolveHypervisorUrl tok url s =
     (case tok url ''::'' of
        node # hostName # _ \<Rightarrow>
          if node \<noteq> node then Inl (RuntimeError ''Wrong node for this hypervisor URL'')
          else getAddress hostName (dc_netDb s)
      | _ \<Rightarrow> Inl (RuntimeError ''Invalid hypervisor url''))"

text \<open>The life cycle: what each stage leaves behind.\<close>

definition dc_init_local :: "DcManager \<Rightarrow> DcManager" where
  "dc_init_local s = s\<lparr>dc_finished := False, dc_acceptResponses := True,
     dc_timers := [(0, MANAGE_MACHINES), (0, CPU_STATUS)]\<rparr>"

definition dc_init_near :: "int \<Rightarrow> DcManager \<Rightarrow> DcManager" where
  "dc_init_near L2Address s = s\<lparr>dc_netDb := registerHost ''manager'' L2Address (dc_netDb s)\<rparr>"

definition dc_init_application :: "bool \<Rightarrow> string \<Rightarrow> DcManager \<Rightarrow> DcManager" where
  "dc_init_application hasCloudEvents topic s =
     (if hasCloudEvents
      then sendUpdateToCloudProvider (s\<lparr>dc_eventTemplate := (dc_eventTemplate s)
             \<lparr>nu_destinationTopic := ''cloudProvider'', nu_returnTopic := topic, nu_zone := dc_zone s\<rparr>\<rparr>)
      else s)"

definition dc_finish :: "DcManager \<Rightarrow> DcManager" where
  "dc_finish s = s\<lparr>dc_timers := [], dc_acceptedUsers := Map.empty\<rparr>"

definition dc_getOutGate :: "DcMessage \<Rightarrow> DcManager \<Rightarrow> int option outcome" where
  "dc_getOutGate m s =
     (case msg_arrivalGate m of
        None \<Rightarrow> Inl (Undefined ''null arrival gate'')
      | Some gateId \<Rightarrow>
          if gateId = dc_networkIn s then Inr (Some (dc_networkOut s))
          else if gateId = dc_queueIn s then Inr (Some (dc_queueOut s))
          else Inl (RuntimeError ''Message received from an unknown gate''))"

section \<open>Timers\<close>

definition handleCpuStatus :: "rat \<Rightarrow> DcManager \<Rightarrow> DcManager" where
  "handleCpuStatus now s =
     (if dc_finished s then s
      else s\<lparr>dc_timers := dc_timers s @ [(now + of_int (dc_cpuStatusInterval s), CPU_STATUS)]\<rparr>)"

definition setActiveMachines :: "int \<Rightarrow> DcManager \<Rightarrow> DcManager outcome" where
  "setActiveMachines n s = Inl (RuntimeError ''To be reimplemented'')"

text \<open>The result of the forecast is a \<open>double\<close> that the assignment to an \<open>int\<close> truncates.\<close>

definition handleManageMachines :: "rat \<Rightarrow> (u32 \<Rightarrow> int) \<Rightarrow> DcManager \<Rightarrow> DcManager outcome" where
  "handleManageMachines now forecast s =
     (let s1 = (if dc_finished s then s
                else s\<lparr>dc_timers := dc_timers s @ [(now + of_int (dc_cpuStatusInterval s), MANAGE_MACHINES)]\<rparr>)
      in if dc_forecastActiveMachines s
         then let f = forecast (dc_machinesInUse s); s2 = s1\<lparr>dc_lastForecast := f\<rparr>
              in if f + dc_activeMachinesThreshold s > sint (dc_machinesInUse s)
                 then setActiveMachines (f + dc_activeMachinesThreshold s) s2 else Inr s2
         else Inr s1)"

definition manageActiveMachines :: "DcManager \<Rightarrow> DcManager outcome" where
  "manageActiveMachines s =
     (let inUse = sint (dc_machinesInUse s)
      in if dc_forecastActiveMachines s
         then if inUse + dc_activeMachinesThreshold s > sint (dc_activeMachines s)
              then setActiveMachines (inUse + dc_activeMachinesThreshold s) s else Inr s
         else if dc_activeMachinesThreshold s > 0
         then setActiveMachines (inUse + dc_activeMachinesThreshold s) s else Inr s)"

definition dc_processSelfMessage :: "rat \<Rightarrow> (u32 \<Rightarrow> int) \<Rightarrow> int \<Rightarrow> DcManager \<Rightarrow> DcManager outcome" where
  "dc_processSelfMessage now forecast kind s =
     (if kind = CPU_STATUS then Inr (handleCpuStatus now s)
      else if kind = MANAGE_MACHINES then handleManageMachines now forecast s
      else Inl (RuntimeError ''Unknown self message''))"

section \<open>Placing machines\<close>

definition grant :: "rat \<Rightarrow> string \<Rightarrow> VM_Request \<Rightarrow> VM_Request" where
  "grant now url vm = vm\<lparr>rq_response := (rq_response vm)\<lparr>rsp_state := ACCEPTED, rsp_startTime := now, rsp_ip := url\<rparr>\<rparr>"

text \<open>The answer for the machine at an index, with the url of the node of its record.\<close>

definition grant_at :: "rat \<Rightarrow> nat \<Rightarrow> NodeVmRecord \<Rightarrow> SM_UserVM \<Rightarrow> DcManager \<Rightarrow> SM_UserVM outcome" where
  "grant_at now i record rq s =
     and_then (getNode (rec_nodeIndex record) (dc_pool s)) (\<lambda>node.
     and_then (require (i < length (uv_vm rq)) (RuntimeError ''Array of size indexed out of range'')) (\<lambda>_.
     and_then (getHostName (address node) (dc_netDb s)) (\<lambda>host.
       Inr (rq\<lparr>uv_vm := (uv_vm rq)[i := grant now (generateHypervisorUrl host s) (uv_vm rq ! i)]\<rparr>))))"

definition dispatchVm ::
  "rat \<Rightarrow> NodeVmRecord \<Rightarrow> DcMessage \<Rightarrow> SM_UserVM \<Rightarrow> DcManager \<Rightarrow> (SM_UserVM \<times> DcManager) outcome" where
  "dispatchVm now record m rq s =
     and_then (grant_at now 0 record rq s) (\<lambda>rq'.
       Inr (rq', sendToLocalNetwork (m\<lparr>env_body := UserVm rq'\<rparr>) (int (rec_nodeIndex record)) s))"

text \<open>The machines of a request by node: \<open>hyperVmMap\<close>, whose values are new messages.\<close>

fun group_vms ::
  "rat \<Rightarrow> nat \<Rightarrow> NodeVmRecord list \<Rightarrow> (int \<times> VM_Request list) list \<Rightarrow> SM_UserVM \<Rightarrow> DcManager \<Rightarrow>
     ((int \<times> VM_Request list) list \<times> SM_UserVM) outcome" where
  "group_vms now i [] hyper rq s = Inr (hyper, rq)"
| "group_vms now i (r # rs) hyper rq s =
     and_then (grant_at now i r rq s) (\<lambda>rq'.
       group_vms now (Suc i) rs (map_at (int (rec_nodeIndex r)) [] (\<lambda>vms. vms @ [uv_vm rq' ! i]) hyper) rq' s)"

definition dispatchVms :: "rat \<Rightarrow> NodeVmRecord list \<Rightarrow> SM_UserVM \<Rightarrow> DcManager \<Rightarrow> (SM_UserVM \<times> DcManager) outcome" where
  "dispatchVms now rs rq s =
     and_then (group_vms now 0 rs [] rq s) (\<lambda>(hyper, rq').
       Inr (rq', fold (\<lambda>(node, vms). sendToLocalNetwork (with_body (UserVm (new_UserVm vms))) node) hyper s))"

type_synonym selection = "VirtualMachine \<Rightarrow> Node list \<Rightarrow> nat option outcome"

definition checkVmUserFit ::
  "selection \<Rightarrow> (string \<Rightarrow> VirtualMachine option) \<Rightarrow> rat \<Rightarrow> DcMessage \<Rightarrow> SM_UserVM \<Rightarrow> DcManager \<Rightarrow>
     (bool \<times> SM_UserVM \<times> DcManager) outcome" where
  "checkVmUserFit select vm_of now m rq s =
     and_then (allocateVms select vm_of rq (dc_pool s)) (\<lambda>(records, pool, _).
       let s1 = s\<lparr>dc_pool := pool\<rparr>
       in case records of
            None \<Rightarrow> Inr (False, rq, s1)
          | Some rs \<Rightarrow>
              let s2 = s1\<lparr>dc_acceptedUsers := (dc_acceptedUsers s1)(uv_userId rq \<mapsto> uv_returnTopic rq)\<rparr>
              in and_then (if length rs = 1 then dispatchVm now (rs ! 0) m rq s2 else dispatchVms now rs rq s2)
                   (\<lambda>(rq', s3). Inr (True, rq', s3)))"

section \<open>Handlers\<close>

text \<open>A handler says whether it ended by sending through the base module (\<open>drain\<close>).\<close>

definition dc_respond :: "DcMessage \<Rightarrow> DcManager \<Rightarrow> (DcManager \<times> bool) outcome" where
  "dc_respond m s = and_then (sendResponse m (dc_core s)) (\<lambda>c. Inr (s\<lparr>dc_core := c\<rparr>, True))"

fun as_UserVm :: "dc_body \<Rightarrow> SM_UserVM outcome" where
  "as_UserVm (UserVm rq) = Inr rq" | "as_UserVm _ = Inl (RuntimeError ''check_and_cast to SM_UserVM'')"

fun as_UserApp :: "dc_body \<Rightarrow> SM_UserAPP outcome" where
  "as_UserApp (UserApp ap) = Inr ap" | "as_UserApp _ = Inl (RuntimeError ''check_and_cast to SM_UserAPP'')"

fun as_VmExt :: "dc_body \<Rightarrow> SM_VmExtend outcome" where
  "as_VmExt (VmExt ve) = Inr ve" | "as_VmExt _ = Inl (RuntimeError ''check_and_cast to SM_VmExtend'')"

definition handleVmRequestFits ::
  "selection \<Rightarrow> (string \<Rightarrow> VirtualMachine option) \<Rightarrow> rat \<Rightarrow> DcMessage \<Rightarrow> DcManager \<Rightarrow> (DcManager \<times> bool) outcome" where
  "handleVmRequestFits select vm_of now m s =
     and_then (as_UserVm (env_body m)) (\<lambda>rq.
     and_then (checkVmUserFit select vm_of now m rq s) (\<lambda>(fit, rq1, s1).
       let rq2 = rq1\<lparr>uv_result := (if fit then SM_VM_Res_Accept else SM_VM_Res_Reject)\<rparr>;
           s2 = (if fit then s1 else sendUpdateToCloudProvider s1);
           rq3 = rq2\<lparr>uv_isResponse := True, uv_operation := SM_VM_Req_op, uv_zone := dc_zone s2,
                      uv_domain := dc_domain s2, uv_destinationTopic := uv_returnTopic rq2\<rparr>
       in dc_respond (m\<lparr>env_body := UserVm rq3\<rparr>) s2))"

definition dc_handleVmSubscription ::
  "selection \<Rightarrow> (string \<Rightarrow> VirtualMachine option) \<Rightarrow> rat \<Rightarrow> DcMessage \<Rightarrow> DcManager \<Rightarrow> (DcManager \<times> bool) outcome" where
  "dc_handleVmSubscription select vm_of now m s =
     and_then (as_UserVm (env_body m)) (\<lambda>rq.
     and_then (checkVmUserFit select vm_of now m rq s) (\<lambda>(fit, rq1, s1).
       let rq2 = rq1\<lparr>uv_result := (if fit then SM_APP_Sub_Accept else SM_APP_Sub_Reject)\<rparr>;
           s2 = (if fit then s1 else sendUpdateToCloudProvider s1);
           rq3 = rq2\<lparr>uv_isResponse := True, uv_operation := SM_VM_Sub, uv_destinationTopic := uv_returnTopic rq2\<rparr>
       in dc_respond (m\<lparr>env_body := UserVm rq3\<rparr>) s2))"

definition handleApplicationRequest ::
  "(string \<Rightarrow> string \<Rightarrow> string list) \<Rightarrow> DcMessage \<Rightarrow> DcManager \<Rightarrow> (DcManager \<times> bool) outcome" where
  "handleApplicationRequest tok m s =
     and_then (as_UserApp (env_body m)) (\<lambda>ap.
     and_then (resolveHypervisorUrl tok (ua_hypervisorUrl ap) s) (\<lambda>addr.
       Inr (sendToLocalNetwork m addr s, False)))"

definition handleVmRentTimeout :: "DcMessage \<Rightarrow> DcManager \<Rightarrow> (DcManager \<times> bool) outcome" where
  "handleVmRentTimeout m s =
     and_then (as_VmExt (env_body m)) (\<lambda>ve.
       case dc_acceptedUsers s (ve_userId ve) of
         None \<Rightarrow> Inl OutOfRange
       | Some topic \<Rightarrow>
           and_then (sendRequest None (dc_queueOut s) (m\<lparr>env_body := VmExt (ve\<lparr>ve_destinationTopic := topic\<rparr>)\<rparr>) (dc_core s))
             (\<lambda>c. Inr (s\<lparr>dc_core := c\<rparr>, True)))"

definition handleExtendVmAndResumeExecution ::
  "(string \<Rightarrow> string \<Rightarrow> string list) \<Rightarrow> DcMessage \<Rightarrow> DcManager \<Rightarrow> DcManager outcome" where
  "handleExtendVmAndResumeExecution tok m s =
     and_then (as_VmExt (env_body m)) (\<lambda>ve.
     and_then (resolveHypervisorUrl tok (ve_hypervisorUrl ve) s) (\<lambda>addr. Inr (sendToLocalNetwork m addr s)))"

definition handleEndVmAndAbortExecution ::
  "(string \<Rightarrow> string \<Rightarrow> string list) \<Rightarrow> DcMessage \<Rightarrow> DcManager \<Rightarrow> DcManager outcome" where
  "handleEndVmAndAbortExecution tok m s =
     and_then (as_VmExt (env_body m)) (\<lambda>ve.
     and_then (resolveHypervisorUrl tok (ve_hypervisorUrl ve) s) (\<lambda>addr.
       Inr (sendUpdateToCloudProvider (sendToLocalNetwork m addr s))))"

text \<open>
  \<open>processRequestMessage\<close> and \<open>processResponseMessage\<close> look the handler up under the operation of a request
  or the result of a response; the first turns \<open>std::out_of_range\<close>, its handler's too, into an error, the
  second only warns.
\<close>

definition dc_processRequestMessage ::
  "selection \<Rightarrow> (string \<Rightarrow> VirtualMachine option) \<Rightarrow> (string \<Rightarrow> string \<Rightarrow> string list) \<Rightarrow> rat \<Rightarrow> DcMessage \<Rightarrow> DcManager \<Rightarrow>
     (DcManager \<times> bool) outcome" where
  "dc_processRequestMessage select vm_of tok now m s =
     (case env_body m of
        EndOfParty _ _ \<Rightarrow> Inr (s\<lparr>dc_finished := True\<rparr>, False)
      | b \<Rightarrow>
          let code = body_operation b;
              r = (if code = SM_APP_Req then handleApplicationRequest tok m s
                   else if code = SM_VM_Req_op then handleVmRequestFits select vm_of now m s
                   else if code = SM_VM_Sub then dc_handleVmSubscription select vm_of now m s
                   else if code = SM_ExtensionOffer then handleVmRentTimeout m s
                   else Inl OutOfRange)
          in case r of
               Inl OutOfRange \<Rightarrow> Inl (RuntimeError ''Recieved request which has no handler'')
             | _ \<Rightarrow> r)"

definition dc_processResponseMessage ::
  "(string \<Rightarrow> string \<Rightarrow> string list) \<Rightarrow> DcMessage \<Rightarrow> DcManager \<Rightarrow> DcManager outcome" where
  "dc_processResponseMessage tok m s =
     (if \<not> dc_acceptResponses s then Inl (RuntimeError ''This module cannot process response messages'')
      else let code = body_result (env_body m);
               r = (if code = SM_APP_Res_Accept then and_then (dc_respond m s) (\<lambda>(s', _). Inr s')
                    else if code = SM_ExtensionOffer_Accept then handleExtendVmAndResumeExecution tok m s
                    else if code = SM_ExtensionOffer_Reject then handleEndVmAndAbortExecution tok m s
                    else Inl OutOfRange)
           in case r of Inl OutOfRange \<Rightarrow> Inr s | _ \<Rightarrow> r)"

definition dc_handleMessage ::
  "selection \<Rightarrow> (string \<Rightarrow> VirtualMachine option) \<Rightarrow> (string \<Rightarrow> string \<Rightarrow> string list) \<Rightarrow> rat \<Rightarrow> DcMessage net_msg \<Rightarrow> DcManager \<Rightarrow>
     DcManager outcome" where
  "dc_handleMessage select vm_of tok now msg s =
     (case tryDecapsulate msg of
        None \<Rightarrow> Inl (Undefined ''null message'')
      | Some m \<Rightarrow>
          if body_isResponse (env_body m) then dc_processResponseMessage tok m s
          else and_then (dc_getOutGate m s) (\<lambda>sel.
               and_then (updateMessageTrace sel m (dc_core s)) (\<lambda>(m', c).
               and_then (drain (dc_processRequestMessage select vm_of tok now) (queue c @ [m']) (s\<lparr>dc_core := c\<lparr>queue := []\<rparr>\<rparr>))
                 (\<lambda>(q, s'). Inr (s'\<lparr>dc_core := (dc_core s')\<lparr>queue := q\<rparr>\<rparr>)))))"

section \<open>What placing a request does\<close>

definition hosts_named :: "DcManager \<Rightarrow> bool" where
  "hosts_named s \<longleftrightarrow> (\<forall>n\<in>set (nodes (dc_pool s)). is_ok (getHostName (address n) (dc_netDb s)))"

definition url_of :: "DcManager \<Rightarrow> NodeVmRecord \<Rightarrow> string" where
  "url_of s r = (case getHostName (address (nodes (dc_pool s) ! rec_nodeIndex r)) (dc_netDb s) of
     Inr host \<Rightarrow> generateHypervisorUrl host s | Inl _ \<Rightarrow> [])"

text \<open>The requests with the answers of their records, in order.\<close>

definition granted :: "rat \<Rightarrow> DcManager \<Rightarrow> NodeVmRecord list \<Rightarrow> VM_Request list \<Rightarrow> VM_Request list" where
  "granted now s rs vms = map2 (\<lambda>r vm. grant now (url_of s r) vm) rs vms"

definition in_pool :: "DcManager \<Rightarrow> NodeVmRecord list \<Rightarrow> bool" where
  "in_pool s rs \<longleftrightarrow> list_all (\<lambda>r. rec_nodeIndex r < length (nodes (dc_pool s))) rs"

definition flat :: "(int \<times> 'a list) list \<Rightarrow> (int \<times> 'a) list" where
  "flat h = concat (map (\<lambda>(k, xs). map (Pair k) xs) h)"

lemma flat_map_at: "mset (flat (map_at k [] (\<lambda>xs. xs @ [x]) h)) = add_mset (k, x) (mset (flat h))"
proof (induction h)
  case (Cons p h)
  obtain k' v where "p = (k', v)" by force
  with Cons show ?case by (auto simp: flat_def)
qed (simp add: flat_def)

lemma grant_at_ok:
  assumes "hosts_named s" "rec_nodeIndex r < length (nodes (dc_pool s))" "i < length (uv_vm rq)"
  shows "grant_at now i r rq s = Inr (rq\<lparr>uv_vm := (uv_vm rq)[i := grant now (url_of s r) (uv_vm rq ! i)]\<rparr>)"
proof -
  have "nodes (dc_pool s) ! rec_nodeIndex r \<in> set (nodes (dc_pool s))" using assms(2) by simp
  with assms(1) have "is_ok (getHostName (address (nodes (dc_pool s) ! rec_nodeIndex r)) (dc_netDb s))"
    by (simp add: hosts_named_def)
  then obtain host where "getHostName (address (nodes (dc_pool s) ! rec_nodeIndex r)) (dc_netDb s) = Inr host"
    by (cases "getHostName (address (nodes (dc_pool s) ! rec_nodeIndex r)) (dc_netDb s)") simp_all
  with assms show ?thesis by (simp add: grant_at_def getNode_def url_of_def require_def)
qed

lemma group_vms_ok:
  assumes "hosts_named s" "in_pool s rs" "i + length rs = length (uv_vm rq)"
  shows "\<exists>h'. group_vms now i rs h rq s =
      Inr (h', rq\<lparr>uv_vm := take i (uv_vm rq) @ granted now s rs (drop i (uv_vm rq))\<rparr>) \<and>
    mset (flat h') = mset (flat h) + mset (zip (map (\<lambda>r. int (rec_nodeIndex r)) rs) (granted now s rs (drop i (uv_vm rq)))) \<and>
    (map_ordered h \<longrightarrow> map_ordered h')"
  using assms(2,3)
proof (induction rs arbitrary: i h rq)
  case Nil
  then show ?case by (simp add: granted_def)
next
  case (Cons r rs)
  let ?vm = "grant now (url_of s r) (uv_vm rq ! i)"
  let ?rq = "rq\<lparr>uv_vm := (uv_vm rq)[i := ?vm]\<rparr>"
  let ?h = "map_at (int (rec_nodeIndex r)) [] (\<lambda>vms. vms @ [?vm]) h"
  have i: "i < length (uv_vm rq)" using Cons.prems(2) by simp
  have g: "grant_at now i r rq s = Inr ?rq"
    using grant_at_ok [OF assms(1) _ i] Cons.prems(1) by (simp add: in_pool_def)
  have d: "drop i (uv_vm rq) = uv_vm rq ! i # drop (Suc i) (uv_vm rq)" by (simp add: Cons_nth_drop_Suc i)
  have t: "take (Suc i) (uv_vm ?rq) = take i (uv_vm rq) @ [?vm]" "drop (Suc i) (uv_vm ?rq) = drop (Suc i) (uv_vm rq)"
    using i by (simp_all add: take_Suc_conv_app_nth)
  have pre: "in_pool s rs" "Suc i + length rs = length (uv_vm ?rq)" using Cons.prems by (simp_all add: in_pool_def)
  have split: "granted now s (r # rs) (drop i (uv_vm rq)) = ?vm # granted now s rs (drop (Suc i) (uv_vm rq))"
    by (simp only: granted_def d zip_Cons_Cons list.map prod.case)
  from Cons.IH [where i = "Suc i" and rq = ?rq and h = ?h, OF pre]
  obtain h' where h': "group_vms now (Suc i) rs ?h ?rq s =
      Inr (h', ?rq\<lparr>uv_vm := (take i (uv_vm rq) @ [?vm]) @ granted now s rs (drop (Suc i) (uv_vm rq))\<rparr>)"
    "mset (flat h') = mset (flat ?h) + mset (zip (map (\<lambda>r. int (rec_nodeIndex r)) rs) (granted now s rs (drop (Suc i) (uv_vm rq))))"
    "map_ordered ?h \<longrightarrow> map_ordered h'"
    unfolding t by blast
  have vm: "uv_vm ?rq ! i = ?vm" using i by simp
  have step: "group_vms now i (r # rs) h rq s = group_vms now (Suc i) rs ?h ?rq s"
    by (simp only: group_vms.simps g and_then_Inr vm)
  have e: "?rq\<lparr>uv_vm := (take i (uv_vm rq) @ [?vm]) @ granted now s rs (drop (Suc i) (uv_vm rq))\<rparr> =
      rq\<lparr>uv_vm := take i (uv_vm rq) @ granted now s (r # rs) (drop i (uv_vm rq))\<rparr>"
    unfolding split by simp
  show ?case
  proof (intro exI conjI impI)
    show "group_vms now i (r # rs) h rq s =
        Inr (h', rq\<lparr>uv_vm := take i (uv_vm rq) @ granted now s (r # rs) (drop i (uv_vm rq))\<rparr>)"
      unfolding step h'(1) e ..
    show "mset (flat h') = mset (flat h) + mset (zip (map (\<lambda>r. int (rec_nodeIndex r)) (r # rs)) (granted now s (r # rs) (drop i (uv_vm rq))))"
      unfolding split h'(2) flat_map_at by simp
    show "map_ordered h'" if "map_ordered h" by (rule h'(3) [rule_format, OF map_at_ordered [OF that]])
  qed
qed

text \<open>The machines in a frame, each with the address the frame is sent to.\<close>

definition placed :: "DcMessage L2Protocol \<Rightarrow> (int \<times> VM_Request) list" where
  "placed f = (case l2_payload f of
     Some m \<Rightarrow> (case env_body m of UserVm rq \<Rightarrow> map (Pair (l2_destination f)) (uv_vm rq) | _ \<Rightarrow> [])
   | None \<Rightarrow> [])"

lemma send_groups:
  "fold (\<lambda>(node, vms). sendToLocalNetwork (with_body (UserVm (new_UserVm vms))) node) h s =
     s\<lparr>dc_frames := dc_frames s @ map (\<lambda>(node, vms). encapsulate_to (with_body (UserVm (new_UserVm vms))) node) h\<rparr>"
  by (induction h arbitrary: s) (auto simp: sendToLocalNetwork_def)

lemma placed_groups:
  "concat (map placed (map (\<lambda>(node, vms). encapsulate_to (with_body (UserVm (new_UserVm vms))) node) h)) = flat h"
  by (induction h) (auto simp: flat_def placed_def encapsulate_to_def with_body_def SIMCAN_Message.extend_def new_UserVm_def)

lemma frames_destinations:
  "map l2_destination (map (\<lambda>(node, vms). encapsulate_to (with_body (UserVm (new_UserVm vms))) node) h) = map fst h"
  by (induction h) (auto simp: encapsulate_to_def)

lemma take_from_node_address [simp]: "address (take_from_node vm n) = address n"
  by (simp add: take_from_node_def Let_def)

lemma take_record_addresses: "map address (nodes (take_record r p)) = map address (nodes p)"
proof (cases "rec_nodeIndex r < length (nodes p)")
  case True
  then have "(map address (nodes p))[rec_nodeIndex r := address (nodes p ! rec_nodeIndex r)] = map address (nodes p)"
    by (metis length_map list_update_id nth_map)
  then show ?thesis by (simp add: take_record_def map_update)
qed (simp add: take_record_def list_update_beyond)

lemma take_records_addresses: "map address (nodes (take_records rs p)) = map address (nodes p)"
  by (induction rs arbitrary: p) (simp_all add: take_records_def take_record_addresses)

text \<open>After an allocation the nodes are known under the same names.\<close>

definition after_alloc :: "NodeVmRecord list \<Rightarrow> SM_UserVM \<Rightarrow> DcManager \<Rightarrow> DcManager" where
  "after_alloc rs rq s = s\<lparr>dc_pool := take_records rs (dc_pool s),
     dc_acceptedUsers := (dc_acceptedUsers s)(uv_userId rq \<mapsto> uv_returnTopic rq)\<rparr>"

lemma after_alloc_names:
  assumes "in_pool s rs" "hosts_named s"
  shows "in_pool (after_alloc rs rq s) rs" "hosts_named (after_alloc rs rq s)"
    "granted now (after_alloc rs rq s) rs vms = granted now s rs vms"
proof -
  let ?p = "take_records rs (dc_pool s)"
  have a: "map address (nodes ?p) = map address (nodes (dc_pool s))" by (rule take_records_addresses)
  show "in_pool (after_alloc rs rq s) rs" using assms(1) by (simp add: in_pool_def after_alloc_def)
  have h: "hosts_named x = list_all (\<lambda>a. is_ok (getHostName a (dc_netDb x))) (map address (nodes (dc_pool x)))" for x
    by (simp add: hosts_named_def list_all_iff)
  have "dc_pool (after_alloc rs rq s) = ?p" "dc_netDb (after_alloc rs rq s) = dc_netDb s" by (simp_all add: after_alloc_def)
  then show "hosts_named (after_alloc rs rq s)" using assms(2) unfolding h by (simp only: a)
  have u: "url_of (after_alloc rs rq s) r = url_of s r" if "rec_nodeIndex r < length (nodes (dc_pool s))" for r
  proof -
    have "address (nodes ?p ! rec_nodeIndex r) = address (nodes (dc_pool s) ! rec_nodeIndex r)"
      using a that by (metis length_take_records nth_map)
    then show ?thesis by (simp add: url_of_def after_alloc_def generateHypervisorUrl_def split: sum.split)
  qed
  show "granted now (after_alloc rs rq s) rs vms = granted now s rs vms"
    unfolding granted_def
  proof (rule map_cong [OF refl], clarify)
    fix r vm assume "(r, vm) \<in> set (zip rs vms)"
    then have "r \<in> set rs" by (rule set_zip_leftD)
    with assms(1) have "rec_nodeIndex r < length (nodes (dc_pool s))" by (simp add: in_pool_def list_all_iff)
    then show "grant now (url_of (after_alloc rs rq s) r) vm = grant now (url_of s r) vm" by (simp add: u)
  qed
qed

definition granted_request :: "rat \<Rightarrow> DcManager \<Rightarrow> NodeVmRecord list \<Rightarrow> SM_UserVM \<Rightarrow> SM_UserVM" where
  "granted_request now s rs rq = rq\<lparr>uv_vm := granted now s rs (uv_vm rq)\<rparr>"

text \<open>The frames carry every machine of the request to the node of its record, once, one frame per node.\<close>

definition dispatched :: "rat \<Rightarrow> DcManager \<Rightarrow> NodeVmRecord list \<Rightarrow> SM_UserVM \<Rightarrow> DcMessage L2Protocol list \<Rightarrow> bool" where
  "dispatched now s rs rq fs \<longleftrightarrow>
     mset (concat (map placed fs)) = mset (zip (map (\<lambda>r. int (rec_nodeIndex r)) rs) (granted now s rs (uv_vm rq))) \<and>
     distinct (map l2_destination fs)"

lemma dispatch_one:
  assumes "in_pool s [r]" "hosts_named s" "length (uv_vm rq) = 1"
  shows "\<exists>fs. dispatchVm now r m rq s = Inr (granted_request now s [r] rq, s\<lparr>dc_frames := dc_frames s @ fs\<rparr>) \<and>
     dispatched now s [r] rq fs"
proof -
  obtain vm where vm: "uv_vm rq = [vm]" using assms(3) by (cases "uv_vm rq") auto
  have g: "grant_at now 0 r rq s = Inr (granted_request now s [r] rq)"
    using grant_at_ok [OF assms(2), of r 0 rq now] assms(1) by (simp add: in_pool_def vm granted_request_def granted_def)
  show ?thesis
    by (rule exI [of _ "[encapsulate_to (m\<lparr>env_body := UserVm (granted_request now s [r] rq)\<rparr>) (int (rec_nodeIndex r))]"])
      (simp add: dispatchVm_def g sendToLocalNetwork_def dispatched_def placed_def encapsulate_to_def
        granted_request_def granted_def vm)
qed

lemma dispatch_many:
  assumes "in_pool s rs" "hosts_named s" "length rs = length (uv_vm rq)"
  shows "\<exists>fs. dispatchVms now rs rq s = Inr (granted_request now s rs rq, s\<lparr>dc_frames := dc_frames s @ fs\<rparr>) \<and>
     dispatched now s rs rq fs"
proof -
  obtain h where h: "group_vms now 0 rs [] rq s = Inr (h, granted_request now s rs rq)"
    "mset (flat h) = mset (zip (map (\<lambda>r. int (rec_nodeIndex r)) rs) (granted now s rs (uv_vm rq)))" "map_ordered h"
    using group_vms_ok [OF assms(2,1), of 0 rq now "[]"] assms(3)
    by (auto simp: granted_request_def flat_def map_ordered_def)
  let ?fs = "map (\<lambda>(node, vms). encapsulate_to (with_body (UserVm (new_UserVm vms))) node) h"
  have "dispatchVms now rs rq s = Inr (granted_request now s rs rq, s\<lparr>dc_frames := dc_frames s @ ?fs\<rparr>)"
    by (simp only: dispatchVms_def h(1) and_then_Inr prod.case send_groups)
  moreover have "dispatched now s rs rq ?fs"
    unfolding dispatched_def placed_groups frames_destinations using h(2,3) by (simp add: map_ordered_def)
  ultimately show ?thesis by blast
qed

lemma checkVmUserFit_accept:
  assumes "allocateVms select vm_of rq (dc_pool s) = Inr (Some rs, pool', sigs)" "hosts_named s"
  shows "\<exists>fs. checkVmUserFit select vm_of now m rq s = Inr (True, granted_request now s rs rq,
       (after_alloc rs rq s)\<lparr>dc_frames := dc_frames s @ fs\<rparr>) \<and> dispatched now s rs rq fs"
proof -
  from allocateVms_result [OF assms(1)]
  have t: "map (Some o rec_vmTemplate) rs = map (vm_of o rq_vmType) (uv_vm rq)"
    and r: "in_pool s rs" "pool' = take_records rs (dc_pool s)"
    by (simp_all add: in_pool_def)
  have len: "length rs = length (uv_vm rq)" using t by (metis length_map)
  let ?s = "after_alloc rs rq s"
  note n = after_alloc_names [OF r(1) assms(2)]
  have same: "granted_request now ?s rs rq = granted_request now s rs rq"
    "dispatched now ?s rs rq fs = dispatched now s rs rq fs" "dc_frames ?s = dc_frames s" for fs
    by (simp_all add: granted_request_def dispatched_def n(3)) (simp add: after_alloc_def)
  have "\<exists>fs. (if length rs = 1 then dispatchVm now (rs ! 0) m rq ?s else dispatchVms now rs rq ?s) =
      Inr (granted_request now ?s rs rq, ?s\<lparr>dc_frames := dc_frames ?s @ fs\<rparr>) \<and> dispatched now ?s rs rq fs"
  proof (cases "length rs = 1")
    case True
    then obtain x where x: "rs = [x]" by (cases rs) auto
    with dispatch_one [of ?s x rq now m] n(1,2) len show ?thesis by simp
  next
    case False
    with dispatch_many [OF n(1,2) len] show ?thesis by simp
  qed
  then obtain fs where fs: "(if length rs = 1 then dispatchVm now (rs ! 0) m rq ?s else dispatchVms now rs rq ?s) =
      Inr (granted_request now s rs rq, ?s\<lparr>dc_frames := dc_frames s @ fs\<rparr>)" "dispatched now s rs rq fs"
    unfolding same by blast
  have "checkVmUserFit select vm_of now m rq s = and_then (Inr (granted_request now s rs rq, ?s\<lparr>dc_frames := dc_frames s @ fs\<rparr>))
      (\<lambda>(rq', s3). Inr (True, rq', s3))"
    unfolding fs(1) [symmetric] by (simp add: checkVmUserFit_def assms(1) r(2) after_alloc_def)
  with fs(2) show ?thesis by auto
qed

lemma checkVmUserFit_reject:
  assumes "allocateVms select vm_of rq (dc_pool s) = Inr (None, pool', sigs)"
  shows "checkVmUserFit select vm_of now m rq s = Inr (False, rq, s)"
  using allocateVms_result [OF assms] by (simp add: checkVmUserFit_def assms)

section \<open>Requests\<close>

lemma url_of_core: "url_of (s\<lparr>dc_core := c\<rparr>) r = url_of s r"
  by (simp add: url_of_def generateHypervisorUrl_def split: sum.split)

text \<open>A request from the message queue that reaches an idle manager.\<close>

definition from_queue :: "DcMessage \<Rightarrow> DcManager \<Rightarrow> bool" where
  "from_queue m s \<longleftrightarrow> msg_arrivalGate m = Some (dc_queueIn s) \<and> dc_queueIn s \<noteq> dc_networkIn s \<and> trace m \<noteq> [] \<and>
     queue (dc_core s) = [] \<and> \<not> body_isResponse (env_body m)"

lemma request_entry:
  assumes "tryDecapsulate msg = Some m" "from_queue m s"
  obtains t c where "queue c = []" "sent c = sent (dc_core s)"
    "dc_handleMessage select vm_of tok now msg s =
       and_then (dc_processRequestMessage select vm_of tok now (m\<lparr>trace := t\<rparr>) (s\<lparr>dc_core := c\<rparr>))
         (\<lambda>(s', _). Inr (s'\<lparr>dc_core := (dc_core s')\<lparr>queue := []\<rparr>\<rparr>))"
    "\<And>b d. sendResponse (m\<lparr>trace := t, env_body := b\<rparr>) d = Inr (send_via (m\<lparr>env_body := b\<rparr>) (dc_queueOut s) d)"
proof -
  have q: "msg_arrivalGate m = Some (dc_queueIn s)" "dc_queueIn s \<noteq> dc_networkIn s" "trace m \<noteq> []"
    "queue (dc_core s) = []" "\<not> body_isResponse (env_body m)" using assms(2) by (simp_all add: from_queue_def)
  obtain m' c where u: "updateMessageTrace (Some (dc_queueOut s)) m (dc_core s) = Inr (m', c)"
    using updateMessageTrace_ok [OF q(3)] by blast
  then obtain t where t: "m' = m\<lparr>trace := t\<rparr>" "t \<noteq> []" by (rule updateMessageTrace_only_trace)
  have c: "queue c = []" "sent c = sent (dc_core s)" "c\<lparr>queue := []\<rparr> = c"
    using u q(4) by (auto simp: updateMessageTrace_def Let_def and_then_eq_Inr)
  show thesis
  proof (rule that [OF c(1,2)])
    have "dc_handleMessage select vm_of tok now msg s =
       and_then (drain (dc_processRequestMessage select vm_of tok now) [m'] (s\<lparr>dc_core := c\<rparr>))
         (\<lambda>(q, s'). Inr (s'\<lparr>dc_core := (dc_core s')\<lparr>queue := q\<rparr>\<rparr>))"
      using q(2,5) by (simp add: dc_handleMessage_def assms(1) dc_getOutGate_def q(1) u c)
    then show "dc_handleMessage select vm_of tok now msg s =
       and_then (dc_processRequestMessage select vm_of tok now (m\<lparr>trace := t\<rparr>) (s\<lparr>dc_core := c\<rparr>))
         (\<lambda>(s', _). Inr (s'\<lparr>dc_core := (dc_core s')\<lparr>queue := []\<rparr>\<rparr>))"
      unfolding drain_single t by (simp add: and_then_def split: sum.splits prod.splits)
    show "sendResponse (m\<lparr>trace := t, env_body := b\<rparr>) d = Inr (send_via (m\<lparr>env_body := b\<rparr>) (dc_queueOut s) d)" for b d
      using sendResponse_same_trace [OF u, of "m\<lparr>trace := t, env_body := b\<rparr>" d] by (simp add: t)
  qed
qed

definition dc_answer :: "DcManager \<Rightarrow> int \<Rightarrow> SM_UserVM \<Rightarrow> SM_UserVM" where
  "dc_answer s result rq = rq\<lparr>uv_result := result, uv_isResponse := True, uv_operation := SM_VM_Req_op,
     uv_zone := dc_zone s, uv_domain := dc_domain s, uv_destinationTopic := uv_returnTopic rq\<rparr>"

text \<open>What the manager does with such a request.\<close>

lemma request_answered:
  assumes "tryDecapsulate msg = Some m" "from_queue m s" "env_body m = UserVm rq" "uv_operation rq = SM_VM_Req_op"
    and "allocateVms select vm_of rq (dc_pool s) = Inr (res, pool', sigs)" "hosts_named s"
  shows "\<exists>s'. dc_handleMessage select vm_of tok now msg s = Inr s' \<and>
    dc_netDb s' = dc_netDb s \<and> dc_nodeName s' = dc_nodeName s \<and> from_queue m' s' = from_queue m' s \<and>
    (case res of
       Some rs \<Rightarrow>
         sent (dc_core s') = sent (dc_core s) @
           [(m\<lparr>env_body := UserVm (dc_answer s SM_VM_Res_Accept (granted_request now s rs rq))\<rparr>, dc_queueOut s)] \<and>
         dc_pool s' = pool' \<and> (\<exists>fs. dc_frames s' = dc_frames s @ fs \<and> dispatched now s rs rq fs)
     | None \<Rightarrow>
         sent (dc_core s') = sent (dc_core s) @
           [(m\<lparr>env_body := UserVm (dc_answer s SM_VM_Res_Reject rq)\<rparr>, dc_queueOut s)] \<and>
         dc_pool s' = dc_pool s \<and> dc_frames s' = dc_frames s)"
proof -
  obtain t c where c: "queue c = []" "sent c = sent (dc_core s)"
    and h: "dc_handleMessage select vm_of tok now msg s =
       and_then (dc_processRequestMessage select vm_of tok now (m\<lparr>trace := t\<rparr>) (s\<lparr>dc_core := c\<rparr>))
         (\<lambda>(s', _). Inr (s'\<lparr>dc_core := (dc_core s')\<lparr>queue := []\<rparr>\<rparr>))"
    and r: "\<And>b d. sendResponse (m\<lparr>trace := t, env_body := b\<rparr>) d = Inr (send_via (m\<lparr>env_body := b\<rparr>) (dc_queueOut s) d)"
    by (rule request_entry [OF assms(1,2), of select vm_of tok now]) blast
  let ?s = "s\<lparr>dc_core := c\<rparr>" and ?m = "m\<lparr>trace := t\<rparr>"
  have q: "queue (dc_core s) = []" using assms(2) by (simp add: from_queue_def)
  have al: "allocateVms select vm_of rq (dc_pool ?s) = Inr (res, pool', sigs)" "hosts_named ?s"
    using assms(5,6) by (simp_all add: hosts_named_def)
  have p: "dc_processRequestMessage select vm_of tok now ?m ?s = Inr x" if "handleVmRequestFits select vm_of now ?m ?s = Inr x" for x
    using that assms(3,4) by (simp add: dc_processRequestMessage_def dc_codes)
  show ?thesis
  proof (cases res)
    case None
    have "checkVmUserFit select vm_of now ?m rq ?s = Inr (False, rq, ?s)"
      by (rule checkVmUserFit_reject) (use al None in simp)
    then have "handleVmRequestFits select vm_of now ?m ?s =
        dc_respond (?m\<lparr>env_body := UserVm (dc_answer s SM_VM_Res_Reject rq)\<rparr>) (sendUpdateToCloudProvider ?s)"
      using assms(3) by (simp add: handleVmRequestFits_def Let_def dc_answer_def sendUpdateToCloudProvider_def)
    then have "handleVmRequestFits select vm_of now ?m ?s = Inr ((sendUpdateToCloudProvider ?s)\<lparr>dc_core :=
        send_via (m\<lparr>env_body := UserVm (dc_answer s SM_VM_Res_Reject rq)\<rparr>) (dc_queueOut s) c\<rparr>, True)"
      by (simp add: dc_respond_def r sendUpdateToCloudProvider_def Let_def)
    from h p [OF this] show ?thesis
      by (simp add: None c send_via_def sendUpdateToCloudProvider_def Let_def from_queue_def q)
  next
    case (Some rs)
    obtain fs where fs: "checkVmUserFit select vm_of now ?m rq ?s = Inr (True, granted_request now ?s rs rq,
       (after_alloc rs rq ?s)\<lparr>dc_frames := dc_frames ?s @ fs\<rparr>)" "dispatched now ?s rs rq fs"
      using checkVmUserFit_accept [OF al(1) [unfolded Some] al(2)] by blast
    have same: "granted_request now ?s rs rq = granted_request now s rs rq" "dispatched now ?s rs rq fs = dispatched now s rs rq fs"
      by (simp_all add: granted_request_def granted_def url_of_core dispatched_def)
    have pool: "pool' = take_records rs (dc_pool s)" using allocateVms_result [OF assms(5)] Some by simp
    let ?s2 = "(after_alloc rs rq ?s)\<lparr>dc_frames := dc_frames s @ fs\<rparr>"
    have "handleVmRequestFits select vm_of now ?m ?s =
        dc_respond (?m\<lparr>env_body := UserVm (dc_answer s SM_VM_Res_Accept (granted_request now s rs rq))\<rparr>) ?s2"
      using assms(3) fs(1) same(1) by (simp add: handleVmRequestFits_def Let_def dc_answer_def after_alloc_def granted_request_def)
    then have "handleVmRequestFits select vm_of now ?m ?s = Inr (?s2\<lparr>dc_core :=
        send_via (m\<lparr>env_body := UserVm (dc_answer s SM_VM_Res_Accept (granted_request now s rs rq))\<rparr>) (dc_queueOut s) c\<rparr>, True)"
      by (simp add: dc_respond_def r after_alloc_def)
    from h p [OF this] fs(2) same(2) show ?thesis
      by (simp add: Some c send_via_def after_alloc_def pool from_queue_def q)
  qed
qed

text \<open>C25.  A request for virtual machines that reaches the manager is answered, once, through the queue it came
  from, with the trace it came with.  If every machine has found a node, the answer carries the url of
  the node for each, and the machines leave for the nodes of their records: each machine once, one frame
  per node.  Otherwise the answer is a refusal, nothing is sent and the pool is as before.
\<close>

theorem vm_request_answered:
  assumes "tryDecapsulate msg = Some m" "from_queue m s" "env_body m = UserVm rq" "uv_operation rq = SM_VM_Req_op"
    and "allocateVms select vm_of rq (dc_pool s) = Inr (res, pool', sigs)" "hosts_named s"
  shows "\<exists>s'. dc_handleMessage select vm_of tok now msg s = Inr s' \<and>
    (case res of
       Some rs \<Rightarrow>
         sent (dc_core s') = sent (dc_core s) @
           [(m\<lparr>env_body := UserVm (dc_answer s SM_VM_Res_Accept (granted_request now s rs rq))\<rparr>, dc_queueOut s)] \<and>
         dc_pool s' = pool' \<and> (\<exists>fs. dc_frames s' = dc_frames s @ fs \<and> dispatched now s rs rq fs)
     | None \<Rightarrow>
         sent (dc_core s') = sent (dc_core s) @
           [(m\<lparr>env_body := UserVm (dc_answer s SM_VM_Res_Reject rq)\<rparr>, dc_queueOut s)] \<and>
         dc_pool s' = dc_pool s \<and> dc_frames s' = dc_frames s)"
  using request_answered [OF assms, of tok now m] by blast

section \<open>Hypervisor urls\<close>

definition plain_name :: "string \<Rightarrow> bool" where
  "plain_name n \<longleftrightarrow> n \<noteq> [] \<and> CHR '':'' \<notin> set n"

text \<open>What the code relies on of the library's tokenizer: the delimiters are characters, empty tokens are skipped.\<close>

definition tokenizes :: "(string \<Rightarrow> string \<Rightarrow> string list) \<Rightarrow> bool" where
  "tokenizes tok \<longleftrightarrow> (\<forall>a b. plain_name a \<and> plain_name b \<longrightarrow> tok (a @ ''::'' @ b) ''::'' = [a, b]) \<and> tok [] ''::'' = []"

text \<open>A tokenizer of that kind.\<close>

fun char_tokens :: "string \<Rightarrow> string \<Rightarrow> string \<Rightarrow> string list" where
  "char_tokens acc [] ds = (if acc = [] then [] else [rev acc])"
| "char_tokens acc (c # cs) ds =
     (if c \<in> set ds then (if acc = [] then [] else [rev acc]) @ char_tokens [] cs ds else char_tokens (c # acc) cs ds)"

lemma char_tokens_plain:
  "\<forall>c\<in>set a. c \<notin> set ds \<Longrightarrow> char_tokens acc (a @ cs) ds = char_tokens (rev a @ acc) cs ds"
  by (induction a arbitrary: acc) simp_all

lemma char_tokens_tokenizes: "tokenizes (char_tokens [])"
proof -
  have "char_tokens [] (a @ ''::'' @ b) ''::'' = [a, b]" if "plain_name a" "plain_name b" for a b
  proof -
    have "\<forall>c\<in>set a. c \<notin> set ''::''" "\<forall>c\<in>set b. c \<notin> set ''::''" using that by (auto simp: plain_name_def)
    from char_tokens_plain [OF this(1), of "[]" "''::'' @ b"] char_tokens_plain [OF this(2), of "[]" "[]"] that
    show ?thesis by (simp add: plain_name_def)
  qed
  then show ?thesis by (simp add: tokenizes_def)
qed

text \<open>The url the manager makes for a host leads back to the host's address; but so does the same host under
  the name of any other centre, because the name in the url is compared with itself.
\<close>

theorem hypervisor_url_roundtrip:
  assumes "tokenizes tok" "distinct (map fst hs)" "distinct (map snd hs)"
    and "dc_netDb s = hosts.registered hs netDb_start" "(host, addr) \<in> set hs" "plain_name host" "plain_name (dc_nodeName s)"
  shows "getHostName addr (dc_netDb s) = Inr host \<and>
    resolveHypervisorUrl tok (generateHypervisorUrl host s) s = Inr addr \<and>
    (\<forall>other. plain_name other \<longrightarrow> resolveHypervisorUrl tok (other @ ''::'' @ host) s = Inr addr)"
proof -
  note l = hosts.registered_look_ups [OF assms(2,3,5), of netDb_start]
  have r: "resolveHypervisorUrl tok (n @ ''::'' @ host) s = Inr addr" if "plain_name n" for n
  proof -
    have "tok (n @ ''::'' @ host) ''::'' = [n, host]" using assms(1,6) that by (simp add: tokenizes_def)
    then show ?thesis using l(1) by (simp add: resolveHypervisorUrl_def assms(4))
  qed
  from l(2) r r [OF assms(7)] assms(4) show ?thesis by (simp add: generateHypervisorUrl_def)
qed

text \<open>An application request for the url of a machine is forwarded to the address of the machine's node.  The
  machine itself was sent to the index of the node (\<open>vm_request_answered\<close>): they meet if the addresses are the indices.
\<close>

theorem application_forwarded:
  assumes "tokenizes tok" "distinct (map fst hs)" "distinct (map snd hs)" "dc_netDb s = hosts.registered hs netDb_start"
    and "(host, addr) \<in> set hs" "plain_name host" "plain_name (dc_nodeName s)"
    and "tryDecapsulate msg = Some m" "from_queue m s" "env_body m = UserApp ap" "ua_operation ap = SM_APP_Req"
    and "rec_nodeIndex r < length (nodes (dc_pool s))" "address (nodes (dc_pool s) ! rec_nodeIndex r) = addr"
    and "ua_hypervisorUrl ap = url_of s r"
  shows "\<exists>s' t. dc_handleMessage select vm_of tok now msg s = Inr s' \<and>
    dc_frames s' = dc_frames s @ [encapsulate_to (m\<lparr>trace := t\<rparr>) addr]"
proof -
  note l = hosts.registered_look_ups [OF assms(2,3,5), of netDb_start]
  have url: "ua_hypervisorUrl ap = dc_nodeName s @ ''::'' @ host"
    using assms(13,14) l(2) assms(4) by (simp add: url_of_def generateHypervisorUrl_def)
  have "tok (dc_nodeName s @ ''::'' @ host) ''::'' = [dc_nodeName s, host]" using assms(1,6,7) by (simp add: tokenizes_def)
  then have res: "resolveHypervisorUrl tok (ua_hypervisorUrl ap) (s\<lparr>dc_core := c\<rparr>) = Inr addr" for c
    using l(1) by (simp add: resolveHypervisorUrl_def url assms(4))
  obtain t c where h: "dc_handleMessage select vm_of tok now msg s =
       and_then (dc_processRequestMessage select vm_of tok now (m\<lparr>trace := t\<rparr>) (s\<lparr>dc_core := c\<rparr>))
         (\<lambda>(s', _). Inr (s'\<lparr>dc_core := (dc_core s')\<lparr>queue := []\<rparr>\<rparr>))"
    by (rule request_entry [OF assms(8,9), of select vm_of tok now]) blast
  have "dc_processRequestMessage select vm_of tok now (m\<lparr>trace := t\<rparr>) (s\<lparr>dc_core := c\<rparr>) =
      Inr (sendToLocalNetwork (m\<lparr>trace := t\<rparr>) addr (s\<lparr>dc_core := c\<rparr>), False)"
    using assms(10,11) res by (simp add: dc_processRequestMessage_def handleApplicationRequest_def)
  with h show ?thesis by (auto simp: sendToLocalNetwork_def)
qed

section \<open>What the hypervisors make of it\<close>

text \<open>
  \<open>handleMessage\<close> of the hypervisor up to the choice of the handler: \<open>messageIsCommand\<close> and the casts.
\<close>

definition hyp_receive :: "DcMessage \<Rightarrow> hyp_message outcome" where
  "hyp_receive m =
     (let b = env_body m; code = body_operation b
      in if code = SM_APP_Req then and_then (as_UserApp b) (\<lambda>x. Inr (AppReq x))
         else if code = SM_VM_Req_op then and_then (as_UserVm b) (\<lambda>x. Inr (VmReq x))
         else if code = SM_ExtensionOffer then and_then (as_VmExt b) (\<lambda>x. Inr (Extension x))
         else Inl (RuntimeError ''check_and_cast to Syscall''))"

text \<open>The machines of a request for several machines never start: the messages made for the nodes have no
  operation, so no hypervisor takes them for a request and the first to receive one ends the simulation.
\<close>

theorem grouped_request_not_understood:
  assumes "dispatchVms now rs rq s = Inr (rq', s')" "f \<in> set (drop (length (dc_frames s)) (dc_frames s'))"
  shows "\<exists>m. l2_payload f = Some m \<and> hyp_receive m = Inl (RuntimeError ''check_and_cast to Syscall'') \<and>
    (\<exists>x. env_body m = UserVm x \<and> uv_userId x = [])"
proof -
  obtain h where "s' = s\<lparr>dc_frames := dc_frames s @ map (\<lambda>(node, vms). encapsulate_to (with_body (UserVm (new_UserVm vms))) node) h\<rparr>"
    using assms(1) by (auto simp: dispatchVms_def and_then_eq_Inr send_groups)
  with assms(2) obtain node vms where "f = encapsulate_to (with_body (UserVm (new_UserVm vms))) node" by auto
  then show ?thesis
    by (simp add: encapsulate_to_def hyp_receive_def with_body_def SIMCAN_Message.extend_def new_UserVm_def dc_codes)
qed

text \<open>The extension of a machine's rent never gets through: what the hypervisor hands to its network card is no
  frame and is refused; and an answer of the user to the offer, kept as the hypervisor made it but for
  the decision, has no url the manager could send it to.
\<close>

theorem extension_offer_lost:
  assumes "dc_handleVmTimeout v h = Inr (offer, h')" "tokenizes tok" "dc_acceptResponses s"
    and "code = SM_ExtensionOffer_Accept \<or> code = SM_ExtensionOffer_Reject"
    and "env_body m = VmExt (offer\<lparr>ve_isResponse := True, ve_result := code, ve_accepted := acc, ve_extensionTime := n\<rparr>)"
  shows "card_handleMessage False mac (Payload (with_body (VmExt offer))) = Inl (RuntimeError ''check_and_cast to L2Protocol'') \<and>
    dc_handleMessage select vm_of tok now (Payload m) s = Inl (RuntimeError ''Invalid hypervisor url'')"
proof -
  have "ve_hypervisorUrl offer = []"
    using assms(1) by (auto simp: dc_handleVmTimeout_def Let_def and_then_eq_Inr new_VmExtend_def)
  moreover have "resolveHypervisorUrl tok [] s = Inl (RuntimeError ''Invalid hypervisor url'')"
    using assms(2) by (simp add: tokenizes_def resolveHypervisorUrl_def)
  ultimately show ?thesis
    using assms(3-5) by (auto simp: card_handleMessage_def dc_handleMessage_def dc_processResponseMessage_def dc_codes
        handleExtendVmAndResumeExecution_def handleEndVmAndAbortExecution_def)
qed

section \<open>Reports\<close>

definition full_report :: "DcManager \<Rightarrow> NodeUpdate \<Rightarrow> bool" where
  "full_report s u \<longleftrightarrow> nu_availableCores u = pr_cores (totalResources (dc_pool s)) \<and>
     nu_availableRam u = pr_memoryMiB (totalResources (dc_pool s)) \<and>
     nu_availableDisk u = pr_diskMiB (totalResources (dc_pool s))"

definition reports_full :: "DcManager \<Rightarrow> DcManager \<Rightarrow> bool" where
  "reports_full s s' \<longleftrightarrow> totalResources (dc_pool s') = totalResources (dc_pool s) \<and>
     (\<exists>us. dc_updates s' = dc_updates s @ us \<and> list_all (full_report s) us)"

lemma reports_full_refl: "reports_full s s"
  by (simp add: reports_full_def)

lemma reports_full_trans: "reports_full a b \<Longrightarrow> reports_full b c \<Longrightarrow> reports_full a c"
  by (auto simp: reports_full_def full_report_def list_all_iff)

lemma reports_full_upd:
  "dc_updates s' = dc_updates s \<Longrightarrow> totalResources (dc_pool s') = totalResources (dc_pool s) \<Longrightarrow> reports_full s s'"
  by (simp add: reports_full_def)

lemma reports_full_core [simp]:
  "reports_full s (s\<lparr>dc_core := c\<rparr>)" "full_report (s\<lparr>dc_core := c\<rparr>) u = full_report s u"
  "reports_full (s\<lparr>dc_core := c\<rparr>) s' = reports_full s s'" "reports_full s (s'\<lparr>dc_core := c\<rparr>) = reports_full s s'"
  by (simp_all add: reports_full_def full_report_def cong: list.pred_cong)

lemma reports_full_update: "reports_full s (sendUpdateToCloudProvider s)"
  by (simp add: reports_full_def sendUpdateToCloudProvider_def Let_def full_report_def getAvailableCores_def
      getAvailableRamMiB_def getAvailableDiskMiB_def)

lemma reports_full_respond: "dc_respond m s = Inr (s', b) \<Longrightarrow> reports_full s s'"
  by (auto simp: dc_respond_def and_then_eq_Inr intro: reports_full_upd)

lemma dispatch_keeps:
  "dispatchVm now r m rq s = Inr (rq', s') \<Longrightarrow> reports_full s s'"
  "dispatchVms now rs rq s = Inr (rq', s') \<Longrightarrow> reports_full s s'"
  by (auto simp: dispatchVm_def dispatchVms_def and_then_eq_Inr send_groups sendToLocalNetwork_def intro: reports_full_upd)

lemma fit_reports:
  assumes "checkVmUserFit select vm_of now m rq s = Inr (fit, rq', s')"
  shows "reports_full s s'"
proof -
  obtain res pool sigs where al: "allocateVms select vm_of rq (dc_pool s) = Inr (res, pool, sigs)"
    using assms by (auto simp: checkVmUserFit_def and_then_eq_Inr)
  have tot: "totalResources pool = totalResources (dc_pool s)"
    using allocateVms_result [OF al] by (cases res) auto
  show ?thesis
  proof (cases res)
    case None
    with assms al tot show ?thesis by (auto simp: checkVmUserFit_def intro: reports_full_upd)
  next
    case (Some rs)
    define s2 where "s2 = s\<lparr>dc_pool := pool, dc_acceptedUsers := (dc_acceptedUsers s)(uv_userId rq \<mapsto> uv_returnTopic rq)\<rparr>"
    have "(if length rs = 1 then dispatchVm now (rs ! 0) m rq s2 else dispatchVms now rs rq s2) = Inr (rq', s')"
      using assms al Some by (auto simp: checkVmUserFit_def and_then_eq_Inr Let_def s2_def)
    then have "reports_full s2 s'" by (cases "length rs = 1") (auto intro: dispatch_keeps)
    moreover have "reports_full s s2" by (rule reports_full_upd) (simp_all add: s2_def tot)
    ultimately show ?thesis using reports_full_trans by blast
  qed
qed

lemma fits_reports:
  "handleVmRequestFits select vm_of now m s = Inr (s', b) \<Longrightarrow> reports_full s s'"
  "dc_handleVmSubscription select vm_of now m s = Inr (s', b) \<Longrightarrow> reports_full s s'"
proof -
  have "reports_full s s'" if "checkVmUserFit select vm_of now m rq s = Inr (fit, rq1, s1)"
    "dc_respond x (if fit then s1 else sendUpdateToCloudProvider s1) = Inr (s', b)" for rq fit rq1 s1 x
    using fit_reports [OF that(1)] reports_full_respond [OF that(2)] reports_full_update reports_full_trans
    by (metis (full_types))
  then show "handleVmRequestFits select vm_of now m s = Inr (s', b) \<Longrightarrow> reports_full s s'"
    "dc_handleVmSubscription select vm_of now m s = Inr (s', b) \<Longrightarrow> reports_full s s'"
    by (auto simp: handleVmRequestFits_def dc_handleVmSubscription_def and_then_eq_Inr Let_def)
qed

lemma local_reports: "reports_full s (sendToLocalNetwork m a s)"
  by (rule reports_full_upd) (simp_all add: sendToLocalNetwork_def)

lemma other_reports:
  "handleApplicationRequest tok m s = Inr (s', b) \<Longrightarrow> reports_full s s'"
  "handleVmRentTimeout m s = Inr (s', b) \<Longrightarrow> reports_full s s'"
  "handleExtendVmAndResumeExecution tok m s = Inr s' \<Longrightarrow> reports_full s s'"
  "handleEndVmAndAbortExecution tok m s = Inr s' \<Longrightarrow> reports_full s s'"
proof -
  show "handleApplicationRequest tok m s = Inr (s', b) \<Longrightarrow> reports_full s s'"
    "handleExtendVmAndResumeExecution tok m s = Inr s' \<Longrightarrow> reports_full s s'"
    by (auto simp: handleApplicationRequest_def handleExtendVmAndResumeExecution_def and_then_eq_Inr local_reports)
  show "handleVmRentTimeout m s = Inr (s', b) \<Longrightarrow> reports_full s s'"
    by (auto simp: handleVmRentTimeout_def and_then_eq_Inr split: option.splits intro: reports_full_upd)
  show "handleEndVmAndAbortExecution tok m s = Inr s' \<Longrightarrow> reports_full s s'"
    using reports_full_trans [OF local_reports reports_full_update]
    by (auto simp: handleEndVmAndAbortExecution_def and_then_eq_Inr)
qed

lemma process_reports:
  "dc_processRequestMessage select vm_of tok now m s = Inr (s', b) \<Longrightarrow> reports_full s s'"
  by (auto simp: dc_processRequestMessage_def Let_def intro: fits_reports other_reports reports_full_upd
      split: dc_body.splits sum.splits sim_error.splits if_splits)

lemma response_reports:
  "dc_processResponseMessage tok m s = Inr s' \<Longrightarrow> reports_full s s'"
  by (auto simp: dc_processResponseMessage_def Let_def and_then_eq_Inr intro: reports_full_refl other_reports reports_full_respond
      split: sum.splits sim_error.splits if_splits)

lemma drain_reports:
  "drain (dc_processRequestMessage select vm_of tok now) ms s = Inr (q, s') \<Longrightarrow> reports_full s s'"
proof (induction ms arbitrary: s)
  case (Cons m ms)
  then obtain s1 b where "dc_processRequestMessage select vm_of tok now m s = Inr (s1, b)"
    "if b then drain (dc_processRequestMessage select vm_of tok now) ms s1 = Inr (q, s') else s1 = s'"
    by (auto simp: and_then_eq_Inr split: if_splits)
  note x = this
  have "reports_full s1 s'" using x(2) Cons.IH [of s1] reports_full_refl [of s1] by (cases b) simp_all
  with process_reports [OF x(1)] show ?case by (rule reports_full_trans)
qed (simp add: reports_full_refl)

lemma handle_reports:
  assumes "dc_handleMessage select vm_of tok now msg s = Inr s'"
  shows "reports_full s s'"
proof -
  obtain m where m: "tryDecapsulate msg = Some m" using assms by (auto simp: dc_handleMessage_def split: option.splits)
  show ?thesis
  proof (cases "body_isResponse (env_body m)")
    case True
    with assms m show ?thesis by (auto simp: dc_handleMessage_def intro: response_reports)
  next
    case False
    with assms m obtain m' c q s1 where "drain (dc_processRequestMessage select vm_of tok now) (queue c @ [m']) (s\<lparr>dc_core := c\<lparr>queue := []\<rparr>\<rparr>) = Inr (q, s1)"
      "s' = s1\<lparr>dc_core := (dc_core s1)\<lparr>queue := q\<rparr>\<rparr>"
      by (auto simp: dc_handleMessage_def and_then_eq_Inr)
    with drain_reports [of select vm_of tok now "queue c @ [m']" "s\<lparr>dc_core := c\<lparr>queue := []\<rparr>\<rparr>"] show ?thesis by simp
  qed
qed

text \<open>Whatever requests the centre has accepted, every report it sends to the cloud provider says that all
  its cores, memory and disk are available: the report after a refusal makes the cloud provider choose the
  centre again.
\<close>

theorem reports_ignore_allocations:
  assumes "for_each (\<lambda>(now, msg). dc_handleMessage select vm_of tok now msg) evs s = Inr s'" "dc_updates s = []"
  shows "totalResources (dc_pool s') = totalResources (dc_pool s) \<and> list_all (full_report s) (dc_updates s')"
proof -
  have "reports_full s s'"
    by (rule for_each_invariant [OF assms(1), where I = "reports_full s"])
      (auto intro: reports_full_refl reports_full_trans handle_reports)
  with assms(2) show ?thesis by (simp add: reports_full_def)
qed

section \<open>A centre of two nodes\<close>

definition dc_hosts :: "(string \<times> int) list" where
  "dc_hosts = [(''manager'', 7), (''blade0'', 0), (''blade1'', 1)]"

definition dc_example :: DcManager where
  "dc_example = \<lparr>dc_core = core_initialize 1 ''dc.manager'',
     dc_pool = two_node_pool\<lparr>nodes := [(node_with 2 500 4096)\<lparr>address := 0\<rparr>, (node_with 4 200 2048)\<lparr>address := 1\<rparr>]\<rparr>,
     dc_machinesInUse = 0, dc_activeMachines = 0, dc_netDb = hosts.registered dc_hosts netDb_start,
     dc_zone = ''z'', dc_nodeName = ''dc'', dc_domain = ''d'',
     dc_eventTemplate = \<lparr>nu_destinationTopic = ''cloudProvider'', nu_returnTopic = ''t'', nu_zone = ''z'',
       nu_availableCores = 0, nu_availableRam = 0, nu_availableDisk = 0\<rparr>,
     dc_networkIn = 10, dc_networkOut = 11, dc_queueIn = 12, dc_queueOut = 13, dc_cpuStatusInterval = 60,
     dc_activeMachinesThreshold = 0, dc_forecastActiveMachines = False, dc_lastForecast = 0,
     dc_acceptedUsers = Map.empty, dc_finished = False, dc_acceptResponses = True, dc_timers = [],
     dc_frames = [], dc_updates = []\<rparr>"

definition dc_message :: "dc_body \<Rightarrow> DcMessage" where
  "dc_message b = (with_body b)\<lparr>msg_arrivalGate := Some 12, trace := [(''user'', [])]\<rparr>"

lemma dc_example_ok:
  "\<not> body_isResponse b \<Longrightarrow> from_queue (dc_message b) dc_example" "env_body (dc_message b) = b"
  "hosts_named dc_example" "tryDecapsulate (Payload (dc_message b)) = Some (dc_message b)"
  "distinct (map fst dc_hosts)" "distinct (map snd dc_hosts)" "plain_name (dc_nodeName dc_example)"
  "dc_netDb dc_example = hosts.registered dc_hosts netDb_start"
  by (simp_all add: from_queue_def dc_example_def dc_message_def with_body_def SIMCAN_Message.extend_def core_initialize_def
      hosts_named_def two_node_pool_def hosts.registered_def dc_hosts_def getHostName_def registerHost_def plain_name_def)

definition best_fit :: selection where
  "best_fit = bestFit_selectNode sorted_heap"

lemma dc_example_alloc:
  obtains rs pool' sigs where "allocateVms best_fit catalogue (request_of [''small'', ''small'', ''small'']) (dc_pool dc_example) =
    Inr (Some rs, pool', sigs)" "length rs = 3"
proof -
  have "case allocateVms (bestFit_selectNode sorted_heap) catalogue (request_of [''small'', ''small'', ''small''])
     (two_node_pool\<lparr>nodes := [(node_with 2 500 4096)\<lparr>address := 0\<rparr>, (node_with 4 200 2048)\<lparr>address := 1\<rparr>]\<rparr>) of
       Inr (Some rs, _) \<Rightarrow> length rs = 3 | _ \<Rightarrow> False"
    by code_simp
  then show thesis
    by (auto split: sum.splits option.splits prod.splits simp: best_fit_def dc_example_def intro: that)
qed

theorem vm_request_answered_witness:
  "\<exists>rs s'. length rs = 3 \<and>
     dc_handleMessage best_fit catalogue (char_tokens []) 5
       (Payload (dc_message (UserVm (request_of [''small'', ''small'', ''small''])))) dc_example = Inr s' \<and>
     sent (dc_core s') = [((dc_message (UserVm (request_of [''small'', ''small'', ''small''])))\<lparr>env_body := UserVm
       (dc_answer dc_example SM_VM_Res_Accept (granted_request 5 dc_example rs (request_of [''small'', ''small'', ''small''])))\<rparr>, 13)] \<and>
     dispatched 5 dc_example rs (request_of [''small'', ''small'', ''small'']) (dc_frames s')"
proof -
  let ?rq = "request_of [''small'', ''small'', ''small'']"
  obtain rs pool' sigs where a: "allocateVms best_fit catalogue ?rq (dc_pool dc_example) = Inr (Some rs, pool', sigs)" "length rs = 3"
    by (rule dc_example_alloc)
  have r: "\<not> body_isResponse (UserVm ?rq)" "uv_operation ?rq = SM_VM_Req_op" by (simp_all add: request_of_def SM_VM_Req_op_def)
  from vm_request_answered [OF dc_example_ok(4) dc_example_ok(1) [OF r(1)] dc_example_ok(2) r(2) a(1) dc_example_ok(3), of "char_tokens []" 5]
  show ?thesis by (auto simp: dc_example_def core_initialize_def a(2) intro!: exI [of _ rs])
qed

theorem hypervisor_url_roundtrip_witness:
  "getHostName 1 (dc_netDb dc_example) = Inr ''blade1'' \<and>
    resolveHypervisorUrl (char_tokens []) (generateHypervisorUrl ''blade1'' dc_example) dc_example = Inr 1 \<and>
    resolveHypervisorUrl (char_tokens []) (''other'' @ ''::'' @ ''blade1'') dc_example = Inr 1"
proof -
  have p: "plain_name ''blade1''" "plain_name ''other''" "(''blade1'', 1) \<in> set dc_hosts"
    by (simp_all add: plain_name_def dc_hosts_def)
  have "getHostName 1 (dc_netDb dc_example) = Inr ''blade1'' \<and>
    resolveHypervisorUrl (char_tokens []) (generateHypervisorUrl ''blade1'' dc_example) dc_example = Inr 1 \<and>
    (\<forall>other. plain_name other \<longrightarrow> resolveHypervisorUrl (char_tokens []) (other @ ''::'' @ ''blade1'') dc_example = Inr 1)"
    by (rule hypervisor_url_roundtrip [OF char_tokens_tokenizes dc_example_ok(5,6,8) p(3,1) dc_example_ok(7)])
  with p(2) show ?thesis by blast
qed

definition app_for :: "string \<Rightarrow> SM_UserAPP" where
  "app_for url = \<lparr>ua_operation = SM_APP_Req, ua_isResponse = False, ua_result = -1, ua_destinationTopic = [], ua_returnTopic = [],
     ua_vmId = ''vm'', ua_hypervisorUrl = url, ua_userId = ''u'', ua_app = [], ua_nFinishedApps = 0, ua_finished = False\<rparr>"

theorem application_forwarded_witness:
  "\<exists>s' t. dc_handleMessage best_fit catalogue (char_tokens []) 5
       (Payload (dc_message (UserApp (app_for (url_of dc_example \<lparr>rec_nodeIndex = 1, rec_vmTemplate = small_vm\<rparr>))))) dc_example = Inr s' \<and>
    dc_frames s' = dc_frames dc_example @
      [encapsulate_to ((dc_message (UserApp (app_for (url_of dc_example \<lparr>rec_nodeIndex = 1, rec_vmTemplate = small_vm\<rparr>))))\<lparr>trace := t\<rparr>) 1]"
proof -
  let ?r = "\<lparr>rec_nodeIndex = 1, rec_vmTemplate = small_vm\<rparr>"
  let ?b = "UserApp (app_for (url_of dc_example ?r))"
  show ?thesis
    by (rule application_forwarded [OF char_tokens_tokenizes dc_example_ok(5,6,8) _ _ dc_example_ok(7) dc_example_ok(4)
          dc_example_ok(1) dc_example_ok(2), where r = ?r and host = "''blade1''"])
      (simp_all add: dc_hosts_def plain_name_def app_for_def dc_example_def two_node_pool_def)
qed

theorem grouped_request_not_understood_witness:
  "\<exists>rq' s' f m. dispatchVms 5 [\<lparr>rec_nodeIndex = 0, rec_vmTemplate = small_vm\<rparr>, \<lparr>rec_nodeIndex = 1, rec_vmTemplate = small_vm\<rparr>]
      (request_of [''small'', ''small'']) dc_example = Inr (rq', s') \<and> f \<in> set (dc_frames s') \<and>
    l2_payload f = Some m \<and> hyp_receive m = Inl (RuntimeError ''check_and_cast to Syscall'') \<and>
    (\<exists>x. env_body m = UserVm x \<and> uv_userId x = [])"
proof -
  let ?rs = "[\<lparr>rec_nodeIndex = 0, rec_vmTemplate = small_vm\<rparr>, \<lparr>rec_nodeIndex = 1, rec_vmTemplate = small_vm\<rparr>]"
  let ?rq = "request_of [''small'', ''small'']"
  have "in_pool dc_example ?rs" by (simp add: in_pool_def dc_example_def two_node_pool_def)
  moreover have "length ?rs = length (uv_vm ?rq)" by (simp add: request_of_def)
  ultimately obtain fs where d: "dispatchVms 5 ?rs ?rq dc_example =
      Inr (granted_request 5 dc_example ?rs ?rq, dc_example\<lparr>dc_frames := dc_frames dc_example @ fs\<rparr>)"
    "dispatched 5 dc_example ?rs ?rq fs" using dispatch_many [OF _ dc_example_ok(3), of ?rs ?rq 5] by blast
  then have "fs \<noteq> []" by (auto simp: dispatched_def granted_def request_of_def)
  then obtain f where f: "f \<in> set fs" by (cases fs) auto
  have e: "dc_frames dc_example = []" by (simp add: dc_example_def)
  from grouped_request_not_understood [OF d(1), of f] f d(1) e show ?thesis by auto
qed

theorem extension_offer_lost_witness:
  "\<exists>offer h'. dc_handleVmTimeout 0 hyp_example = Inr (offer, h') \<and>
    card_handleMessage False 3 (Payload (with_body (VmExt offer))) = Inl (RuntimeError ''check_and_cast to L2Protocol'') \<and>
    dc_handleMessage best_fit catalogue (char_tokens []) 5 (Payload (dc_message (VmExt (offer\<lparr>ve_isResponse := True,
      ve_result := SM_ExtensionOffer_Accept, ve_accepted := True, ve_extensionTime := 3600\<rparr>)))) dc_example =
      Inl (RuntimeError ''Invalid hypervisor url'')"
proof -
  have "is_ok (dc_handleVmTimeout 0 hyp_example)"
    by (simp add: dc_handleVmTimeout_def hyp_example_def Let_def vm_block_def set_block_def getGlobalVmId_def
        setSuspended_def fresh_block_def)
  then obtain offer h' where o: "dc_handleVmTimeout 0 hyp_example = Inr (offer, h')"
    by (cases "dc_handleVmTimeout 0 hyp_example") auto
  have "dc_acceptResponses dc_example" by (simp add: dc_example_def)
  from extension_offer_lost [OF o char_tokens_tokenizes this disjI1 [OF refl] dc_example_ok(2), where mac = 3 and select = best_fit and vm_of = catalogue and now = 5] o
  show ?thesis by blast
qed

theorem reports_ignore_allocations_witness:
  "\<exists>s'. for_each (\<lambda>(now, msg). dc_handleMessage best_fit catalogue (char_tokens []) now msg)
       [(5, Payload (dc_message (UserVm (request_of [''small'', ''small'', ''small'']))))] dc_example = Inr s' \<and>
     totalResources (dc_pool s') = totalResources (dc_pool dc_example) \<and> list_all (full_report dc_example) (dc_updates s')"
proof -
  let ?m = "dc_message (UserVm (request_of [''small'', ''small'', ''small'']))"
  obtain s' where "dc_handleMessage best_fit catalogue (char_tokens []) 5 (Payload ?m) dc_example = Inr s'"
  proof -
    let ?rq = "request_of [''small'', ''small'', ''small'']"
    obtain rs pool' sigs where a: "allocateVms best_fit catalogue ?rq (dc_pool dc_example) = Inr (Some rs, pool', sigs)"
      by (rule dc_example_alloc)
    have r: "\<not> body_isResponse (UserVm ?rq)" "uv_operation ?rq = SM_VM_Req_op" by (simp_all add: request_of_def SM_VM_Req_op_def)
    from request_answered [OF dc_example_ok(4) dc_example_ok(1) [OF r(1)] dc_example_ok(2) r(2) a dc_example_ok(3), of "char_tokens []" 5]
    show thesis using that by blast
  qed
  then have r: "for_each (\<lambda>(now, msg). dc_handleMessage best_fit catalogue (char_tokens []) now msg) [(5, Payload ?m)] dc_example = Inr s'" by simp
  have "dc_updates dc_example = []" by (simp add: dc_example_def)
  from reports_ignore_allocations [OF r this] r show ?thesis by blast
qed

end
