(* ===== verification/DcBoot.thy ===== *)
theory DcBoot
  imports DcManager Hardware
begin

text \<open>
  How a data centre starts, and the queries of \<open>ManagerBase\<close>.  The stages of the initialisation run one after
  the other over all modules: \<open>LOCAL\<close>, \<open>NEAR\<close> (each \<open>os/hypervisors/DcHypervisor\<close> and the manager register a name
  in the table of hosts), \<open>BLADE\<close> (each \<open>os/hardwaremanagers/DcHardwareManager\<close> adds its node to the pool of the
  \<open>ResourceManager\<close>), \<open>MANAGER\<close> (the totals are reported) and that of the applications.

  A centre is the list of its blades, whose addresses are their positions (\<open>architecture/nodes/cloud/DataCentre.ned\<close>).
  The number \<open>minActiveMachines\<close>, which nothing reads, is left out.
\<close>

section \<open>Stages\<close>

definition empty_pool :: NodePool where
  "empty_pool = (let z = \<lparr>pr_memoryMiB = 0, pr_diskMiB = 0, pr_cores = 0, pr_vms = 0\<rparr>
     in \<lparr>nodes = [], totalResources = z, pool_availableResources = z\<rparr>)"

definition rm_initialize_local :: "DcManager \<Rightarrow> DcManager" where
  "rm_initialize_local s = s\<lparr>dc_machinesInUse := 0, dc_activeMachines := 0\<rparr>"

datatype max_signal = MaxCores u64 | MaxDisk rat | MaxRam rat | MaxVms u64

definition rm_initialize_manager :: "DcManager \<Rightarrow> max_signal list \<times> DcManager" where
  "rm_initialize_manager s =
     (let r = totalResources (dc_pool s)
      in ([MaxCores (pr_cores r), MaxDisk (of_int (uint (pr_diskMiB r)) / 1024), MaxRam (of_int (uint (pr_memoryMiB r)) / 1024),
           MaxVms (pr_vms r)], s\<lparr>dc_activeMachines := 0, dc_machinesInUse := 0\<rparr>))"

definition dch_initialize_near :: "string \<Rightarrow> int \<Rightarrow> DcManager \<Rightarrow> DcManager" where
  "dch_initialize_near hostName ip s = s\<lparr>dc_netDb := registerHost hostName ip (dc_netDb s)\<rparr>"

definition register_node ::
  "int \<times> HardwareParams \<Rightarrow> DcHardwareManager list \<times> DcManager \<Rightarrow> (DcHardwareManager list \<times> DcManager) outcome" where
  "register_node b hs =
     and_then (dc_initialize (snd b) (fst b) (dc_pool (snd hs))) (\<lambda>(hw, pool).
       Inr (fst hs @ [hw], (snd hs)\<lparr>dc_pool := pool\<rparr>))"

text \<open>The modules of a stage run in the order the simulation library puts them in.\<close>

datatype near_call = HypervisorNear string int | ManagerNear int

fun near_step :: "near_call \<Rightarrow> DcManager \<Rightarrow> DcManager" where
  "near_step (HypervisorNear hostName ip) s = dch_initialize_near hostName ip s"
| "near_step (ManagerNear addr) s = dc_init_near addr s"

record Blade =
  bl_hostName :: string
  bl_params :: HardwareParams

definition near_calls :: "int \<Rightarrow> Blade list \<Rightarrow> near_call list" where
  "near_calls mgr bs = ManagerNear mgr # map2 (\<lambda>b i. HypervisorNear (bl_hostName b) (int i)) bs [0..<length bs]"

definition blade_nodes :: "Blade list \<Rightarrow> (int \<times> HardwareParams) list" where
  "blade_nodes bs = map2 (\<lambda>i b. (int i, bl_params b)) [0..<length bs] bs"

definition boot ::
  "near_call list \<Rightarrow> Blade list \<Rightarrow> bool \<Rightarrow> string \<Rightarrow> DcManager \<Rightarrow>
     (DcHardwareManager list \<times> max_signal list \<times> DcManager) outcome" where
  "boot calls bs hasCloudEvents topic s =
     (let s1 = rm_initialize_local (dc_init_local (s\<lparr>dc_pool := empty_pool, dc_netDb := netDb_start\<rparr>));
          s2 = fold near_step calls s1
      in and_then (for_each register_node (blade_nodes bs) ([], s2)) (\<lambda>(hws, s3).
           let (sigs, s4) = rm_initialize_manager s3 in Inr (hws, sigs, dc_init_application hasCloudEvents topic s4)))"

section \<open>Queries and the end\<close>

definition dch_finish :: "'h Hypervisor \<Rightarrow> 'h Hypervisor" where
  "dch_finish s = s\<lparr>hyp_schedulers := []\<rparr>"

text \<open>\<open>findUserTypeById\<close>: the text between the first closing parenthesis and the first bracket.\<close>

definition mb_findUserTypeById :: "(string \<Rightarrow> 'u option) \<Rightarrow> string \<Rightarrow> 'u option" where
  "mb_findUserTypeById user_of userId =
     (case (first_index (\<lambda>c. c = CHR '')'') userId, first_index (\<lambda>c. c = CHR ''['') userId) of
        (Some fromPos, Some toPos) \<Rightarrow>
          if fromPos < toPos then user_of (take (toPos - fromPos - 1) (drop (fromPos + 1) userId)) else None
      | _ \<Rightarrow> None)"

definition getTotalCoresByVmType :: "(string \<Rightarrow> VirtualMachine option) \<Rightarrow> string \<Rightarrow> int" where
  "getTotalCoresByVmType vm_of ty = (case vm_of ty of Some vm \<Rightarrow> sint (vm_numCores vm) | None \<Rightarrow> 0)"

text \<open>The sum is an \<open>int\<close>; a null request is read for the log after the test.\<close>

fun add_cores :: "(string \<Rightarrow> VirtualMachine option) \<Rightarrow> VM_Request \<Rightarrow> int \<Rightarrow> int outcome" where
  "add_cores vm_of vm n =
     (let k = n + getTotalCoresByVmType vm_of (rq_vmType vm)
      in if - (2 ^ 31) \<le> k \<and> k < 2 ^ 31 then Inr k else Inl (Undefined ''integer overflow''))"

definition calculateTotalCoresRequested :: "(string \<Rightarrow> VirtualMachine option) \<Rightarrow> SM_UserVM option \<Rightarrow> int outcome" where
  "calculateTotalCoresRequested vm_of req =
     (case req of None \<Rightarrow> Inl (Undefined ''null request'') | Some rq \<Rightarrow> for_each (add_cores vm_of) (uv_vm rq) 0)"

section \<open>What a started centre looks like\<close>

fun near_entry :: "near_call \<Rightarrow> string \<times> int" where
  "near_entry (HypervisorNear hostName ip) = (hostName, ip)"
| "near_entry (ManagerNear addr) = (''manager'', addr)"

lemma near_steps: "fold near_step cs s = s\<lparr>dc_netDb := hosts.registered (map near_entry cs) (dc_netDb s)\<rparr>"
proof (induction cs arbitrary: s)
  case (Cons c cs)
  then show ?case
    by (cases c) (simp_all add: dch_initialize_near_def dc_init_near_def hosts.registered_def)
qed (simp add: hosts.registered_def)

lemma register_nodes:
  assumes "for_each register_node ns (hws, s) = Inr (hws', s')"
  shows "\<exists>pool. s' = s\<lparr>dc_pool := pool\<rparr> \<and> map address (nodes pool) = map address (nodes (dc_pool s)) @ map fst ns \<and>
     map dc_nodeId hws' = map dc_nodeId hws @ [length (nodes (dc_pool s))..<length (nodes (dc_pool s)) + length ns]"
  using assms
proof (induction ns arbitrary: hws s)
  case Nil
  then show ?case by (intro exI [of _ "dc_pool s"]) simp
next
  case (Cons n ns)
  obtain hw pool where 1: "dc_initialize (snd n) (fst n) (dc_pool s) = Inr (hw, pool)"
    "for_each register_node ns (hws @ [hw], s\<lparr>dc_pool := pool\<rparr>) = Inr (hws', s')"
    using Cons.prems unfolding for_each.simps and_then_eq_Inr by (auto simp: register_node_def and_then_eq_Inr)
  have a: "map address (nodes pool) = map address (nodes (dc_pool s)) @ [fst n]" "dc_nodeId hw = length (nodes (dc_pool s))"
    using 1(1) by (auto simp: dc_initialize_def Let_def and_then_eq_Inr addNode_def setActive_def)
  then have l: "length (nodes pool) = length (nodes (dc_pool s)) + 1" by (metis length_append_singleton length_map Suc_eq_plus1)
  have u: "[k..<k + length (n # ns)] = k # [k + 1..<k + 1 + length ns]" for k by (simp add: upt_conv_Cons del: upt_Suc)
  obtain p where p: "s' = s\<lparr>dc_pool := p\<rparr>" "map address (nodes p) = map address (nodes pool) @ map fst ns"
    "map dc_nodeId hws' = map dc_nodeId (hws @ [hw]) @ [length (nodes pool)..<length (nodes pool) + length ns]"
    using Cons.IH [OF 1(2)] by auto
  show ?case unfolding u by (rule exI [of _ p]) (simp add: p a l)
qed

text \<open>The tables a started centre has.\<close>

definition started :: "int \<Rightarrow> string list \<Rightarrow> DcManager \<Rightarrow> bool" where
  "started mgr names s \<longleftrightarrow> map address (nodes (dc_pool s)) = map int [0..<length names] \<and>
     (\<exists>hs. dc_netDb s = hosts.registered hs netDb_start \<and> distinct (map fst hs) \<and> distinct (map snd hs) \<and>
       set hs = insert (''manager'', mgr) (set (zip names (map int [0..<length names]))))"

lemma boot_started:
  assumes "boot calls bs ev topic s0 = Inr (hws, sigs, s)" "mset calls = mset (near_calls mgr bs)"
    and "distinct (''manager'' # map bl_hostName bs)" "mgr \<notin> {0..<int (length bs)}"
  shows "started mgr (map bl_hostName bs) s" "dc_nodeName s = dc_nodeName s0" "map dc_nodeId hws = [0..<length bs]"
proof -
  let ?hs = "map near_entry calls"
  let ?ps = "zip (map bl_hostName bs) (map int [0..<length bs])"
  have m: "mset ?hs = mset ((''manager'', mgr) # ?ps)"
  proof -
    have "map near_entry (near_calls mgr bs) = (''manager'', mgr) # ?ps"
      by (simp add: near_calls_def zip_map_map split_def comp_def map_zip_map2 zip_map1 zip_map2)
    then show ?thesis using assms(2) by (metis mset_map)
  qed
  have d: "distinct (map fst ?hs)" "distinct (map snd ?hs)"
  proof -
    have "mset (map fst ?hs) = mset (map fst ((''manager'', mgr) # ?ps))" "mset (map snd ?hs) = mset (map snd ((''manager'', mgr) # ?ps))"
      using m by (metis mset_map)+
    then have "mset (map fst ?hs) = mset (''manager'' # map bl_hostName bs)" "mset (map snd ?hs) = mset (mgr # map int [0..<length bs])"
      by simp_all
    moreover have "distinct (mgr # map int [0..<length bs])" using assms(4) by (auto simp: distinct_map)
    ultimately show "distinct (map fst ?hs)" "distinct (map snd ?hs)" using assms(3) by (metis mset_eq_imp_distinct_iff)+
  qed
  let ?s1 = "rm_initialize_local (dc_init_local (s0\<lparr>dc_pool := empty_pool, dc_netDb := netDb_start\<rparr>))"
  obtain s3 where s3: "for_each register_node (blade_nodes bs) ([], fold near_step calls ?s1) = Inr (hws, s3)"
    "s = dc_init_application ev topic (snd (rm_initialize_manager s3))"
    using assms(1) by (auto simp: boot_def Let_def and_then_eq_Inr rm_initialize_manager_def)
  have n: "map fst (blade_nodes bs) = map int [0..<length bs]" "length (blade_nodes bs) = length bs"
    by (auto simp: blade_nodes_def intro: nth_equalityI)
  obtain pool where pool: "s3 = (fold near_step calls ?s1)\<lparr>dc_pool := pool\<rparr>" "map address (nodes pool) = map int [0..<length bs]"
    "map dc_nodeId hws = [0..<length bs]"
    using register_nodes [OF s3(1)] n by (auto simp: near_steps rm_initialize_local_def dc_init_local_def empty_pool_def Let_def)
  have s: "dc_pool s = pool" "dc_netDb s = hosts.registered ?hs netDb_start" "dc_nodeName s = dc_nodeName s0"
    by (simp_all add: s3(2) pool(1) dc_init_application_def sendUpdateToCloudProvider_def Let_def rm_initialize_manager_def
        near_steps rm_initialize_local_def dc_init_local_def)
  have "set ?hs = insert (''manager'', mgr) (set ?ps)" using m by (metis list.set(2) set_mset_mset)
  with d s pool(2) show "started mgr (map bl_hostName bs) s" by (auto simp: started_def)
  show "dc_nodeName s = dc_nodeName s0" by (rule s(3))
  show "map dc_nodeId hws = [0..<length bs]" by (rule pool(3))
qed

lemma started_node:
  assumes "started mgr names s" "i < length names"
  shows "address (nodes (dc_pool s) ! i) = int i" "i < length (nodes (dc_pool s))"
    "getHostName (int i) (dc_netDb s) = Inr (names ! i)" "getAddress (names ! i) (dc_netDb s) = Inr (int i)"
proof -
  obtain hs where hs: "map address (nodes (dc_pool s)) = map int [0..<length names]" "dc_netDb s = hosts.registered hs netDb_start"
    "distinct (map fst hs)" "distinct (map snd hs)" "set hs = insert (''manager'', mgr) (set (zip names (map int [0..<length names])))"
    using assms(1) by (auto simp: started_def)
  from hs(1) have l: "length (nodes (dc_pool s)) = length names" by (metis length_map length_upt minus_nat.diff_0)
  with assms(2) show "i < length (nodes (dc_pool s))" by simp
  then show "address (nodes (dc_pool s) ! i) = int i"
    using hs(1) assms(2) by (metis add_0 length_map length_upt nth_map nth_upt minus_nat.diff_0)
  have "(names ! i, int i) \<in> set hs" using assms(2) by (auto simp: hs(5) set_zip intro!: exI [of _ i])
  from hosts.registered_look_ups [OF hs(3,4) this, of netDb_start] hs(2)
  show "getHostName (int i) (dc_netDb s) = Inr (names ! i)" "getAddress (names ! i) (dc_netDb s) = Inr (int i)" by simp_all
qed

lemma started_hosts_named: "started mgr names s \<Longrightarrow> hosts_named s"
proof -
  assume st: "started mgr names s"
  have "is_ok (getHostName (address n) (dc_netDb s))" if n: "n \<in> set (nodes (dc_pool s))" for n
  proof -
    obtain i where i: "i < length (nodes (dc_pool s))" "n = nodes (dc_pool s) ! i" using n by (metis in_set_conv_nth)
    moreover have "length (nodes (dc_pool s)) = length names"
      using st unfolding started_def by (metis length_map length_upt minus_nat.diff_0)
    ultimately show ?thesis using started_node(1,3) [OF st, of i] by simp
  qed
  then show ?thesis by (simp add: hosts_named_def)
qed

section \<open>From the start to the applications\<close>

lemma url_of_cong:
  assumes "dc_netDb s' = dc_netDb s" "dc_nodeName s' = dc_nodeName s"
    and "address (nodes (dc_pool s') ! rec_nodeIndex r) = address (nodes (dc_pool s) ! rec_nodeIndex r)"
  shows "url_of s' r = url_of s r"
  using assms by (simp add: url_of_def generateHypervisorUrl_def split: sum.split)

lemma answer_url:
  assumes "i < length rs" "length rs = length (uv_vm rq)"
  shows "rsp_ip (rq_response (uv_vm (dc_answer s c (granted_request now s rs rq)) ! i)) = url_of s (rs ! i)"
  using assms by (simp add: dc_answer_def granted_request_def granted_def grant_def)

text \<open>C40.  In a data centre that has started, with distinct host names, its hypervisors and its manager in whatever
  order in the stage \<open>NEAR\<close> and its hardware managers in the order of their addresses in the stage \<open>BLADE\<close>, a machine
  and its applications meet: the machine leaves in a frame for the node of its record, the answer names
  that node, and a request of applications with that name that comes next is sent to the same node, whose hardware
  manager is the one that gives the resources back to it.
\<close>

theorem machines_reached:
  assumes "boot calls bs ev topic s0 = Inr (hws, sigs, s)" "mset calls = mset (near_calls mgr bs)"
    and "distinct (''manager'' # map bl_hostName bs)" "mgr \<notin> {0..<int (length bs)}"
    and "list_all plain_name (dc_nodeName s0 # map bl_hostName bs)" "tokenizes tok"
    and "tryDecapsulate msg = Some m" "from_queue m s" "env_body m = UserVm rq" "uv_operation rq = SM_VM_Req_op"
    and "allocateVms select vm_of rq (dc_pool s) = Inr (Some rs, pool', sigs')" "i < length rs" "n = rec_nodeIndex (rs ! i)"
  shows "\<exists>s1 rq1. dc_handleMessage select vm_of tok now msg s = Inr s1 \<and>
    sent (dc_core s1) = sent (dc_core s) @ [(m\<lparr>env_body := UserVm rq1\<rparr>, dc_queueOut s)] \<and>
    (\<exists>f\<in>set (dc_frames s1). (int n, uv_vm rq1 ! i) \<in> set (placed f)) \<and> dc_nodeId (hws ! n) = n \<and>
    (\<forall>msg2 m2 ap t2. tryDecapsulate msg2 = Some m2 \<and> from_queue m2 s \<and> env_body m2 = UserApp ap \<and>
        ua_operation ap = SM_APP_Req \<and> ua_hypervisorUrl ap = rsp_ip (rq_response (uv_vm rq1 ! i)) \<longrightarrow>
      (\<exists>s2 tr. dc_handleMessage select vm_of tok t2 msg2 s1 = Inr s2 \<and>
        dc_frames s2 = dc_frames s1 @ [encapsulate_to (m2\<lparr>trace := tr\<rparr>) (int n)]))"
proof -
  note st = boot_started [OF assms(1-4)]
  let ?names = "map bl_hostName bs" and ?r = "rs ! i"
  let ?rq1 = "dc_answer s SM_VM_Res_Accept (granted_request now s rs rq)"
  obtain s1 fs where s1: "dc_handleMessage select vm_of tok now msg s = Inr s1" "dc_netDb s1 = dc_netDb s" "dc_nodeName s1 = dc_nodeName s"
    "sent (dc_core s1) = sent (dc_core s) @ [(m\<lparr>env_body := UserVm ?rq1\<rparr>, dc_queueOut s)]" "dc_pool s1 = pool'"
    "dc_frames s1 = dc_frames s @ fs" "dispatched now s rs rq fs"
    using request_answered [OF assms(7-11) started_hosts_named [OF st(1)], of tok now m] by auto
  have ready: "from_queue m' s1 = from_queue m' s" for m'
    using request_answered [OF assms(7-11) started_hosts_named [OF st(1)], of tok now m'] s1(1) by auto
  from allocateVms_result [OF assms(11)] have al: "map (Some o rec_vmTemplate) rs = map (vm_of o rq_vmType) (uv_vm rq)"
    "list_all (\<lambda>r. rec_nodeIndex r < length (nodes (dc_pool s))) rs" "pool' = take_records rs (dc_pool s)" by simp_all
  then have len: "length rs = length (uv_vm rq)" by (metis length_map)
  have "length (nodes (dc_pool s)) = length bs" using st(1) unfolding started_def by (metis length_map length_upt minus_nat.diff_0)
  then have n: "n < length bs" "n < length (nodes (dc_pool s))" using al(2) assms(12,13) by (auto simp: list_all_length)
  note nd = started_node [OF st(1), of n]
  have id: "dc_nodeId (hws ! n) = n" using st(3) n(1) by (metis add_0 length_map length_upt minus_nat.diff_0 nth_map nth_upt)
  have "(int n, uv_vm ?rq1 ! i) \<in> set (zip (map (\<lambda>r. int (rec_nodeIndex r)) rs) (granted now s rs (uv_vm rq)))"
    using assms(12,13) len by (auto simp: set_zip dc_answer_def granted_request_def granted_def intro!: exI [of _ i])
  then have "(int n, uv_vm ?rq1 ! i) \<in> set (concat (map placed fs))"
    using s1(7) unfolding dispatched_def by (metis set_mset_mset)
  then have frame: "\<exists>f\<in>set (dc_frames s1). (int n, uv_vm ?rq1 ! i) \<in> set (placed f)" using s1(6) by auto
  have addrs: "map address (nodes (dc_pool s1)) = map address (nodes (dc_pool s))" by (simp add: s1(5) al(3) take_records_addresses)
  then have n1: "n < length (nodes (dc_pool s1))" using n(2) by (metis length_map)
  then have a1: "address (nodes (dc_pool s1) ! n) = int n" using addrs nd(1) n by (metis length_map nth_map)
  have url: "url_of s1 ?r = rsp_ip (rq_response (uv_vm ?rq1 ! i))"
    unfolding answer_url [OF assms(12) len] by (rule url_of_cong) (use s1(2,3) a1 nd(1) n(1) assms(13) in simp_all)
  obtain hs where hs: "dc_netDb s = hosts.registered hs netDb_start" "distinct (map fst hs)" "distinct (map snd hs)"
    "set hs = insert (''manager'', mgr) (set (zip ?names (map int [0..<length ?names])))" using st(1) by (auto simp: started_def)
  have host: "(bl_hostName (bs ! n), int n) \<in> set hs" using n(1) by (auto simp: hs(4) set_zip intro!: exI [of _ n])
  have p: "plain_name (bl_hostName (bs ! n))" "plain_name (dc_nodeName s1)" using assms(5) n(1) s1(3) st(2) by (auto simp: list_all_iff)
  have "\<exists>s2 tr. dc_handleMessage select vm_of tok t2 msg2 s1 = Inr s2 \<and>
      dc_frames s2 = dc_frames s1 @ [encapsulate_to (m2\<lparr>trace := tr\<rparr>) (int n)]"
    if "tryDecapsulate msg2 = Some m2" "from_queue m2 s" "env_body m2 = UserApp ap" "ua_operation ap = SM_APP_Req"
      "ua_hypervisorUrl ap = rsp_ip (rq_response (uv_vm ?rq1 ! i))" for msg2 m2 ap t2
  proof -
    have u: "ua_hypervisorUrl ap = url_of s1 ?r" unfolding url by (rule that(5))
    have r: "rec_nodeIndex ?r < length (nodes (dc_pool s1))" "address (nodes (dc_pool s1) ! rec_nodeIndex ?r) = int n"
      using n1 a1 assms(13) by simp_all
    have db: "dc_netDb s1 = hosts.registered hs netDb_start" using hs(1) s1(2) by simp
    have q: "from_queue m2 s1" using ready that(2) by simp
    show ?thesis by (rule application_forwarded [OF assms(6) hs(2,3) db host p that(1) q that(3,4) r u])
  qed
  with s1(1,4) frame id show ?thesis by blast
qed

definition two_blades :: "Blade list" where
  "two_blades = map (\<lambda>h. \<lparr>bl_hostName = h, bl_params = \<lparr>par_isVirtualHardware = True, par_numCpuCores = 4, par_memorySize = 8192,
     par_diskSize = 1000, par_maxVMs = 2, par_maxUsers = 2, par_address = -1\<rparr>\<rparr>) [''blade[0]'', ''blade[1]'']"

definition blade_node :: "int \<Rightarrow> Node" where
  "blade_node a = \<lparr>availableResources = \<lparr>nr_memoryMiB = 8192, nr_diskMiB = 1000, nr_cores = 4, nr_vms = 2, nr_users = 2\<rparr>,
     address = a, state = ACTIVE\<rparr>"

definition two_blades_pool :: NodePool where
  "two_blades_pool = (let z = \<lparr>pr_memoryMiB = 16384, pr_diskMiB = 2000, pr_cores = 8, pr_vms = 4\<rparr>
     in \<lparr>nodes = [blade_node 0, blade_node 1], totalResources = z, pool_availableResources = z\<rparr>)"

lemma two_blades_pool:
  assumes "dc_pool s = empty_pool"
  shows "\<exists>hws. for_each register_node (blade_nodes two_blades) ([], s) = Inr (hws, s\<lparr>dc_pool := two_blades_pool\<rparr>)"
  by (simp add: assms empty_pool_def blade_nodes_def two_blades_def register_node_def dc_initialize_def Let_def params_resources_def
      checkNodeSetup_def addNode_def upt_rec two_blades_pool_def blade_node_def setActive_def zero_node_def)

lemma two_blades_booted:
  obtains hws sigs s where "boot (rev (near_calls 7 two_blades)) two_blades False [] dc_example = Inr (hws, sigs, s)"
    "dc_pool s = two_blades_pool" "\<And>b. \<not> body_isResponse b \<Longrightarrow> from_queue (dc_message b) s"
proof -
  let ?s1 = "rm_initialize_local (dc_init_local (dc_example\<lparr>dc_pool := empty_pool, dc_netDb := netDb_start\<rparr>))"
  let ?s2 = "fold near_step (rev (near_calls 7 two_blades)) ?s1"
  have "dc_pool ?s2 = empty_pool" by (simp add: near_steps rm_initialize_local_def dc_init_local_def)
  then obtain hws where h: "for_each register_node (blade_nodes two_blades) ([], ?s2) = Inr (hws, ?s2\<lparr>dc_pool := two_blades_pool\<rparr>)"
    using two_blades_pool by blast
  have q: "from_queue (dc_message b) (snd (rm_initialize_manager (?s2\<lparr>dc_pool := two_blades_pool\<rparr>)))" if "\<not> body_isResponse b" for b
    using dc_example_ok(1) [OF that]
    by (simp add: from_queue_def near_steps rm_initialize_manager_def Let_def rm_initialize_local_def dc_init_local_def)
  show thesis
    by (rule that [of hws _ "snd (rm_initialize_manager (?s2\<lparr>dc_pool := two_blades_pool\<rparr>))"])
      (use q in \<open>simp_all add: boot_def Let_def h dc_init_application_def rm_initialize_manager_def\<close>)
qed

lemma two_blades_alloc:
  obtains rs pool' sigs where "allocateVms best_fit catalogue (request_of [''small'']) two_blades_pool = Inr (Some rs, pool', sigs)"
    "map rec_nodeIndex rs = [0]"
proof -
  have "case allocateVms (bestFit_selectNode sorted_heap) catalogue (request_of [''small'']) two_blades_pool of
     Inr (Some rs, _) \<Rightarrow> map rec_nodeIndex rs = [0] | _ \<Rightarrow> False"
    by code_simp
  then show thesis
    by (auto split: sum.splits option.splits prod.splits simp: best_fit_def intro: that)
qed

theorem machines_reached_witness:
  "\<exists>hws sigs s s1 s2 tr url. boot (rev (near_calls 7 two_blades)) two_blades False [] dc_example = Inr (hws, sigs, s) \<and>
    dc_handleMessage best_fit catalogue (char_tokens []) 5 (Payload (dc_message (UserVm (request_of [''small''])))) s = Inr s1 \<and>
    dc_handleMessage best_fit catalogue (char_tokens []) 9 (Payload (dc_message (UserApp (app_for url)))) s1 = Inr s2 \<and>
    dc_frames s2 = dc_frames s1 @ [encapsulate_to ((dc_message (UserApp (app_for url)))\<lparr>trace := tr\<rparr>) 0]"
proof -
  obtain hws sigs s where b: "boot (rev (near_calls 7 two_blades)) two_blades False [] dc_example = Inr (hws, sigs, s)"
    "dc_pool s = two_blades_pool" "\<And>b. \<not> body_isResponse b \<Longrightarrow> from_queue (dc_message b) s" using two_blades_booted by blast
  obtain rs pool' sigs' where a: "allocateVms best_fit catalogue (request_of [''small'']) (dc_pool s) = Inr (Some rs, pool', sigs')"
    "map rec_nodeIndex rs = [0]" unfolding b(2) using two_blades_alloc by blast
  let ?rq = "request_of [''small'']"
  have h: "mset (rev (near_calls 7 two_blades)) = mset (near_calls 7 two_blades)" "distinct (''manager'' # map bl_hostName two_blades)"
    "7 \<notin> {0..<int (length two_blades)}" "list_all plain_name (dc_nodeName dc_example # map bl_hostName two_blades)"
    "\<not> body_isResponse (UserVm ?rq)" "uv_operation ?rq = SM_VM_Req_op"
    by (simp_all add: two_blades_def plain_name_def dc_example_def request_of_def SM_VM_Req_op_def)
  have i: "0 < length rs" "0 = rec_nodeIndex (rs ! 0)" using a(2) by (cases rs, simp_all)+
  obtain s1 and rq1 :: SM_UserVM where s1: "dc_handleMessage best_fit catalogue (char_tokens []) 5 (Payload (dc_message (UserVm ?rq))) s = Inr s1"
    "\<forall>msg2 m2 ap t2. tryDecapsulate msg2 = Some m2 \<and> from_queue m2 s \<and> env_body m2 = UserApp ap \<and>
        ua_operation ap = SM_APP_Req \<and> ua_hypervisorUrl ap = rsp_ip (rq_response (uv_vm rq1 ! 0)) \<longrightarrow>
      (\<exists>s2 tr. dc_handleMessage best_fit catalogue (char_tokens []) t2 msg2 s1 = Inr s2 \<and>
        dc_frames s2 = dc_frames s1 @ [encapsulate_to (m2\<lparr>trace := tr\<rparr>) (int 0)])"
    using machines_reached [OF b(1) h(1-4) char_tokens_tokenizes dc_example_ok(4) b(3) [OF h(5)] dc_example_ok(2) h(6) a(1) i, of 5]
    by blast
  let ?ap = "app_for (rsp_ip (rq_response (uv_vm rq1 ! 0)))"
  have "\<not> body_isResponse (UserApp ?ap)" by (simp add: app_for_def)
  from s1(2) [rule_format, of "Payload (dc_message (UserApp ?ap))" "dc_message (UserApp ?ap)" ?ap 9] b(3) [OF this] dc_example_ok(2,4)
  show ?thesis using b(1) s1(1) by (auto simp: app_for_def)
qed

end
