(* ===== verification/UserModel.thy ===== *)
theory UserModel
  imports CloudMessages
begin

text \<open>
  The users as the generators drive them: \<open>users/base/BaseUserModel\<close>, \<open>users/cloud/CloudUserModel\<close> and
  the state of \<open>users/generators/UserGeneratorBase\<close> and \<open>UserGenerator_simple\<close> the models work on.

  A user instance is an object of the generator: \<open>ud_objects\<close> holds them in the order of creation, and
  the vector \<open>userInstances\<close>, the groups and the map by id hold positions in it, as the code holds
  pointers.  Points in time are rationals; \<open>inUnit(SIMTIME_S)\<close> truncates.  The random numbers the models
  draw are arguments.
\<close>

section \<open>State\<close>

text \<open>\<open>CloudUserInstance\<close> with the fields of its subclass \<open>CloudUserInstancePriority\<close>, and whether it is one
  of a trace.
\<close>

record UserObject =
  uo_inst :: CloudUserInstance
  uo_requestTimes :: InstanceRequestTimes
  uo_requestVmMsg :: "DcMessage option"
  uo_credit :: bool
  uo_fromTrace :: bool

definition new_UserObject :: "bool \<Rightarrow> CloudUserInstance \<Rightarrow> UserObject" where
  "new_UserObject fromTrace u = \<lparr>uo_inst = u,
     uo_requestTimes = \<lparr>maxStartTime = 0, rentTime = 0, maxSubTime = 0, maxSubscriptionTime = 0\<rparr>,
     uo_requestVmMsg = None, uo_credit = True, uo_fromTrace = fromTrace\<rparr>"

datatype user_signal = RequestSignal | ResponseSignal | ExecuteSignal | OkSignal | FailSignal | SubscribeSignal
  | NotifySignal | TimeoutSignal

record UserDriver =
  ud_core :: "DcMessage core"
  ud_fromCloudProvider :: int
  ud_toCloudProvider :: int
  ud_objects :: "UserObject list"
  ud_groups :: "nat list list"             \<comment> \<open>\<open>groupOfUsers\<close>\<close>
  ud_instances :: "nat list"               \<comment> \<open>\<open>userInstances\<close>\<close>
  ud_byId :: "string \<Rightarrow> nat option"        \<comment> \<open>\<open>userHashMap\<close>\<close>
  ud_nFinished :: int                      \<comment> \<open>\<open>nUserInstancesFinished\<close>\<close>
  ud_index :: nat                          \<comment> \<open>\<open>nUserIndex\<close>\<close>
  ud_startTimes :: bool                    \<comment> \<open>\<open>bMaxStartTime_t1_active\<close>\<close>
  ud_acceptanceRate :: rat
  ud_extensions :: "string \<Rightarrow> int option"  \<comment> \<open>\<open>extensionTimeHashMap\<close>\<close>
  ud_priorized :: "string \<Rightarrow> bool option"  \<comment> \<open>\<open>priorizedHashMap\<close>\<close>
  ud_emitted :: "(user_signal \<times> string \<times> int) list"
  ud_initSim :: rat                        \<comment> \<open>\<open>m_dInitSim\<close>\<close>
  ud_timers :: "(rat \<times> string) list"       \<comment> \<open>scheduled self messages: time and name\<close>
  ud_ended :: bool                         \<comment> \<open>\<open>endSimulation\<close> was called\<close>

definition inUnit_s :: "rat \<Rightarrow> int" where
  "inUnit_s t = (if 0 \<le> t then \<lfloor>t\<rfloor> else - \<lfloor>- t\<rfloor>)"

section \<open>Access\<close>

definition the_user :: "nat \<Rightarrow> UserDriver \<Rightarrow> CloudUserInstance" where
  "the_user a s = uo_inst (ud_objects s ! a)"

definition set_user :: "nat \<Rightarrow> CloudUserInstance \<Rightarrow> UserDriver \<Rightarrow> UserDriver" where
  "set_user a u s = s\<lparr>ud_objects := (ud_objects s)[a := (ud_objects s ! a)\<lparr>uo_inst := u\<rparr>]\<rparr>"

definition on_user :: "nat \<Rightarrow> (CloudUserInstance \<Rightarrow> CloudUserInstance) \<Rightarrow> UserDriver \<Rightarrow> UserDriver" where
  "on_user a f s = set_user a (f (the_user a s)) s"

definition try_user :: "nat \<Rightarrow> (CloudUserInstance \<Rightarrow> CloudUserInstance outcome) \<Rightarrow> UserDriver \<Rightarrow> UserDriver outcome" where
  "try_user a f s = and_then (f (the_user a s)) (\<lambda>u. Inr (set_user a u s))"

definition ud_emit :: "user_signal \<Rightarrow> string \<Rightarrow> nat \<Rightarrow> UserDriver \<Rightarrow> UserDriver" where
  "ud_emit sig vm a s = s\<lparr>ud_emitted := ud_emitted s @ [(sig, vm, ci_nId (the_user a s))]\<rparr>"

definition ud_getOutGate :: "DcMessage \<Rightarrow> UserDriver \<Rightarrow> int option" where
  "ud_getOutGate m s =
     (if msg_arrivalGate m = Some (ud_fromCloudProvider s) then Some (ud_toCloudProvider s) else None)"

text \<open>
  \<open>driver.sendRequestMessage(sm, toCloudProviderGate)\<close>.  The queue of the base module is empty whenever
  a model sends (\<open>UserGenerator\<close>), so no other request is processed after the send.
\<close>

definition ud_send :: "DcMessage \<Rightarrow> UserDriver \<Rightarrow> UserDriver outcome" where
  "ud_send m s =
     and_then (sendRequest (ud_getOutGate m s) (ud_toCloudProvider s) m (ud_core s)) (\<lambda>c. Inr (s\<lparr>ud_core := c\<rparr>))"

section \<open>Deploying the applications\<close>

text \<open>One application instance of collection \<open>i\<close>: name, type, virtual machine and start time; nothing when
  the machine starts too late for the user.  The null pointer of an instance out of range is not reached.
\<close>

definition deploy_app ::
  "UserDriver \<Rightarrow> InstanceRequestTimes \<Rightarrow> VM_Request \<Rightarrow> VM_Response \<Rightarrow> AppInstance \<Rightarrow> UserAppBuilder \<Rightarrow> UserAppBuilder" where
  "deploy_app s rentTimes vmRq vmAllocation app b =
     (if ud_startTimes s \<and> maxStartTime rentTimes < rsp_startTime vmAllocation then b
      else builder_createNewAppRequest (ai_appInstanceID app @ rq_vmId vmRq) (ai_appName app) (rq_vmId vmRq)
             (rsp_startTime vmAllocation) b)"

definition deploy_collection ::
  "UserDriver \<Rightarrow> nat \<Rightarrow> SM_UserVM \<Rightarrow> nat \<Rightarrow> UserAppBuilder \<Rightarrow> UserAppBuilder outcome" where
  "deploy_collection s a rq i b =
     and_then (getAppCollection i (the_user a s)) (\<lambda>c.
     and_then (getResponse i rq) (\<lambda>rsp.
       case rsp of
         None \<Rightarrow> Inl (RuntimeError ''Error in model: The transactional deployment did not work?'')
       | Some vmAllocation \<Rightarrow>
           if 5 < length (ac_appInstances c) then Inl (RuntimeError ''EINVAL'')
           else Inr (fold (deploy_app s (uo_requestTimes (ud_objects s ! a)) (uv_vm rq ! i) vmAllocation)
                  (ac_appInstances c) b)))"

definition finish_machine :: "int \<Rightarrow> nat \<Rightarrow> VM_Request \<Rightarrow> UserDriver \<Rightarrow> UserDriver outcome" where
  "finish_machine now a vmRq = try_user a (updateVmInstanceStatus now (rq_vmId vmRq) vmFinished)"

definition send_app :: "string \<Rightarrow> SM_UserAPP \<Rightarrow> UserDriver \<Rightarrow> UserDriver outcome" where
  "send_app topic ap = ud_send (with_body (UserApp (ap\<lparr>ua_destinationTopic := topic\<rparr>)))"

definition deployApps :: "int \<Rightarrow> SM_UserVM \<Rightarrow> nat \<Rightarrow> UserDriver \<Rightarrow> UserDriver outcome" where
  "deployApps now rq a s =
     and_then (for_each (deploy_collection s a rq) [0..<length (ui_applications (the_user a s))] []) (\<lambda>b.
     and_then (for_each (finish_machine now a) (uv_vm rq) s) (\<lambda>s'.
       for_each (send_app (uv_returnTopic rq)) (builder_finish (uv_userId rq) b) s'))"

section \<open>The base model\<close>

definition handleResponseVmRequest :: "int \<Rightarrow> DcMessage \<Rightarrow> SM_UserVM \<Rightarrow> nat \<Rightarrow> UserDriver \<Rightarrow> UserDriver outcome" where
  "handleResponseVmRequest now m rq a s =
     (if uv_result rq = SM_VM_Res_Accept
      then let s1 = on_user a (updateAllVmInstances now vmAccepted) s;
               s2 = ud_emit ExecuteSignal [] a (ud_emit ResponseSignal [] a s1);
               s3 = on_user a (startExecution now) s2
           in deployApps now rq a s3
      else let s1 = on_user a (updateAllVmInstances now vmIdle) s;
               s2 = ud_emit SubscribeSignal [] a (ud_emit ResponseSignal [] a s1);
               s3 = on_user a (startSubscription now) s2
           in ud_send (m\<lparr>env_body := UserVm (rq\<lparr>uv_isResponse := False, uv_operation := SM_VM_Sub,
                uv_destinationTopic := ''CloudProvider''\<rparr>)\<rparr>) s3)"

definition count_extension :: "string \<Rightarrow> UserDriver \<Rightarrow> UserDriver outcome" where
  "count_extension vm s =
     (case ud_extensions s vm of
        None \<Rightarrow> Inl OutOfRange
      | Some k \<Rightarrow> Inr (s\<lparr>ud_extensions := (ud_extensions s)(vm \<mapsto> k + 1)\<rparr>))"

definition handleResponseSubscription :: "int \<Rightarrow> SM_UserVM \<Rightarrow> nat \<Rightarrow> UserDriver \<Rightarrow> UserDriver outcome" where
  "handleResponseSubscription now rq a s =
     (let vm = uv_vmId rq in
      if uv_result rq = SM_APP_Sub_Accept
      then let s1 = on_user a (updateAllVmInstances now vmAccepted) s
           in and_then (if vm \<noteq> [] then count_extension vm s1 else Inr s1) (\<lambda>s2.
                let s3 = on_user a (endSubscription now) s2;
                    s4 = ud_emit ExecuteSignal vm a (ud_emit NotifySignal vm a s3);
                    s5 = on_user a (startExecution now) s4
                in deployApps now rq a s5)
      else let s1 = on_user a (updateAllVmInstances now vmFinished) s;
               s2 = on_user a (endSubscription now) s1;
               s3 = on_user a (\<lambda>u. u\<lparr>ci_timeout_t4 := True\<rparr>) s2
           in Inr (ud_emit TimeoutSignal vm a s3))"

definition handleResponseAppRequest :: "int \<Rightarrow> SM_UserAPP \<Rightarrow> nat \<Rightarrow> UserDriver \<Rightarrow> UserDriver outcome" where
  "handleResponseAppRequest now ap a s =
     (if ua_result ap = SM_APP_Res_Accept
      then and_then (try_user a (updateVmInstanceStatus now (ua_vmId ap) vmFinished) s) (\<lambda>s'.
             Inr (ud_emit OkSignal (ua_vmId ap) a s'))
      else Inl (RuntimeError ''Unexpected return result on Applications: UserBaseModel''))"

text \<open>\<open>dice\<close> is \<open>rand() / RAND_MAX\<close>.\<close>

definition decidesToRescueVm :: "rat \<Rightarrow> UserDriver \<Rightarrow> bool" where
  "decidesToRescueVm dice s \<longleftrightarrow> dice \<le> ud_acceptanceRate s"

text \<open>The decision of the model is an argument: it is drawn only for a user and machine still in use.\<close>

definition handleVmExtendRequest ::
  "(UserDriver \<Rightarrow> bool \<times> UserDriver) \<Rightarrow> int \<Rightarrow> DcMessage \<Rightarrow> SM_VmExtend \<Rightarrow> nat \<Rightarrow> UserDriver \<Rightarrow> UserDriver outcome" where
  "handleVmExtendRequest decide now m offer a s =
     (let s1 = ud_emit FailSignal (ve_vmId offer) a s;
          answer = (\<lambda>accepted result ext s. ud_send (m\<lparr>env_body := VmExt (offer\<lparr>ve_result := result, ve_accepted := accepted,
            ve_extensionTime := ext, ve_isResponse := True, ve_destinationTopic := ve_returnTopic offer\<rparr>)\<rparr>) s)
      in and_then (if ci_finished (the_user a s1) then Inr True
                   else and_then (getVmInstanceState (ve_vmId offer) (the_user a s1)) (\<lambda>st. Inr (st = vmFinished)))
           (\<lambda>finished.
              let (rescue, s2) = (if finished then (False, s1) else decide s1)
              in if finished \<or> \<not> rescue
                 then and_then (try_user a (updateVmInstanceStatus now (ve_vmId offer) vmFinished) s2)
                        (answer False SM_ExtensionOffer_Reject (ve_extensionTime offer))
                 else and_then (count_extension (ve_vmId offer) s2) (answer True SM_ExtensionOffer_Accept 3600)))"

section \<open>The model of the priority users\<close>

text \<open>
  \<open>priorized\<close> is the flag of the message, an \<open>SM_UserVM_Cost\<close>.  The empty id a request normally carries in
  \<open>getVmId()\<close> is looked up among the machines of the user.
\<close>

definition cloud_handleResponseVmRequest ::
  "DataRepository \<Rightarrow> bool \<Rightarrow> int \<Rightarrow> DcMessage \<Rightarrow> SM_UserVM \<Rightarrow> nat \<Rightarrow> UserDriver \<Rightarrow> UserDriver outcome" where
  "cloud_handleResponseVmRequest r priorized now m rq a s =
     (let cloudUser = searchUser r (ui_type (the_user a s));
          mark = (\<lambda>s. if priorized then s\<lparr>ud_priorized := (ud_priorized s)(uv_userId rq \<mapsto> True)\<rparr> else s)
      in case cloudUser of
           None \<Rightarrow> Inl (Undefined ''null user'')
         | Some cu \<Rightarrow>
             if uv_result rq = SM_VM_Res_Accept
             then handleResponseVmRequest now m rq a (if cp_priorityType cu = Priority then mark s else s)
             else if cp_priorityType cu = Priority
             then and_then (try_user a (updateVmInstanceStatus now (uv_vmId rq) vmFinished) s) (\<lambda>s1.
                    let s2 = ud_emit ResponseSignal [] a (mark s1)
                    in Inr (on_user a (\<lambda>u. (startExecution now u)\<lparr>ci_timeout_t4 := True\<rparr>) s2))
             else handleResponseVmRequest now m rq a s)"

text \<open>
  \<open>auto userPriorityInstance = reinterpret_cast\<close> copies the object: the credit that is lost is that of
  the copy.  \<open>draw\<close> is \<open>offerAcceptanceDistribution->doubleValue()\<close>.
\<close>

definition cloud_decidesToRescueVm :: "rat \<Rightarrow> nat \<Rightarrow> UserDriver \<Rightarrow> bool \<times> UserDriver" where
  "cloud_decidesToRescueVm draw a s =
     (let copy = ud_objects s ! a;
          copy' = (if uo_credit copy then copy\<lparr>uo_credit := draw \<le> 9 / 10\<rparr> else copy)
      in (uo_credit copy', s))"

end
