(* ===== verification/UserGenerator.thy ===== *)
theory UserGenerator
  imports UserModel
begin

text \<open>
  The generator of the users: \<open>users/generators/UserGeneratorBase\<close> (the instances, their arrival times and
  requests) and \<open>UserGenerator_simple\<close> (the requests sent as the users arrive, the answers, the end of the
  simulation and its statistics).

  A volatile parameter of the module, and \<open>rand()\<close>, is a sequence of draws and the number of draws taken.
  \<open>SimTime(distribution->doubleValue())\<close> is one draw.  The rejection loops of \<open>getNextTime\<close> may not end: then
  the result is \<open>None\<close>.  \<open>std::sort\<close> leaves the order of equal arrivals open; the model keeps it.
\<close>

section \<open>Parameters\<close>

record UserParams =
  up_startDelay :: rat
  up_intervalBetweenUsers :: bool
  up_shuffleUsers :: bool
  up_activeCycles :: bool
  up_numberOfCycles :: int
  up_durationOfCycle :: rat
  up_isolateCycle :: bool
  up_traceStartTime :: int
  up_traceEndTime :: int
  up_userTraceMaxVms :: int
  up_timeouts :: InstanceRequestTimes      \<comment> \<open>\<open>timeoutsTemplate\<close>\<close>
  up_distribution :: "nat \<Rightarrow> rat"
  up_cycleDistribution :: "nat \<Rightarrow> int"
  up_rand :: "nat \<Rightarrow> nat"

section \<open>Arrival times\<close>

text \<open>\<open>do x = draw(); while (!ok(x));\<close>\<close>

partial_function (option) draw_until :: "('a \<Rightarrow> bool) \<Rightarrow> (nat \<Rightarrow> 'a) \<Rightarrow> nat \<Rightarrow> ('a \<times> nat) option" where
  "draw_until ok draws i = (if ok (draws i) then Some (draws i, Suc i) else draw_until ok draws (Suc i))"

declare draw_until.simps [code]

definition in_cycle :: "UserParams \<Rightarrow> int \<Rightarrow> rat \<Rightarrow> bool" where
  "in_cycle p cycle t \<longleftrightarrow>
     (let offset = of_int cycle * up_durationOfCycle p
      in \<not> ((up_isolateCycle p \<or> cycle = 0) \<and> t < 0 \<or>
           (up_isolateCycle p \<or> cycle = up_numberOfCycles p - 1) \<and> up_durationOfCycle p < t \<or>
           t + offset < 0 \<or> up_durationOfCycle p * of_int (up_numberOfCycles p) < t + offset))"

text \<open>
  The draws taken from the two distributions are threaded through: \<open>(i, j)\<close>.  In the last branch the first
  draw from \<open>distribution\<close> precedes those of the cycle.
\<close>

definition getNextTime :: "UserParams \<Rightarrow> rat \<Rightarrow> rat \<Rightarrow> nat \<times> nat \<Rightarrow> (rat \<times> nat \<times> nat) option" where
  "getNextTime p initSim prev = (\<lambda>(i, j).
     if up_intervalBetweenUsers p
     then if 0 < prev then Some (up_distribution p i + prev, Suc i, j) else Some (initSim, i, j)
     else if up_activeCycles p then Some (up_distribution p i + initSim, Suc i, j)
     else Option.bind
       (if 1 < up_numberOfCycles p
        then map_option (\<lambda>(c, j'). (c - 1, j'))
               (draw_until (\<lambda>c. \<not> (c < 1 \<or> up_numberOfCycles p < c)) (up_cycleDistribution p) j)
        else Some (0, j)) (\<lambda>(cycle, j').
       map_option (\<lambda>(t, i'). (initSim + t + of_int cycle * up_durationOfCycle p, i', j'))
         (draw_until (in_cycle p cycle) (up_distribution p) i)))"

section \<open>The request of a user\<close>

definition createVmRequest :: "UserParams \<Rightarrow> nat \<Rightarrow> UserDriver \<Rightarrow> (DcMessage \<times> UserDriver) outcome" where
  "createVmRequest p a s =
     (let u = the_user a s;
          s' = s\<lparr>ud_objects := (ud_objects s)[a := (ud_objects s ! a)\<lparr>uo_requestTimes := up_timeouts p\<rparr>]\<rparr>
      in if getTotalVMs u = 0 \<or> ui_id u = []
         then Inl (RuntimeError ''[UserGenerator] Collection or User-ID malformed!'')
         else let rq = (new_UserVm [])\<lparr>uv_userId := ui_id u, uv_isResponse := False, uv_operation := SM_VM_Req_op\<rparr>
              in Inr (with_body (UserVm (fold (\<lambda>vm. createNewVmRequest (vm_type (vt_base (vi_type vm))) (vi_id vm) (up_timeouts p))
                   (flattened (ci_vmGroupedInstances u)) rq)), s'))"

definition setRequestVmMsg :: "nat \<Rightarrow> DcMessage option \<Rightarrow> UserDriver \<Rightarrow> UserDriver" where
  "setRequestVmMsg a m s = s\<lparr>ud_objects := (ud_objects s)[a := (ud_objects s ! a)\<lparr>uo_requestVmMsg := m\<rparr>]\<rparr>"

section \<open>Generating the users\<close>

definition add_object :: "UserObject \<Rightarrow> UserDriver \<Rightarrow> UserDriver" where
  "add_object o' s = (let a = length (ud_objects s) in
     s\<lparr>ud_objects := ud_objects s @ [o'], ud_byId := (ud_byId s)(ui_id (uo_inst o') \<mapsto> a),
       ud_instances := ud_instances s @ [a]\<rparr>)"

text \<open>One instance of the user type number \<open>k\<close>; \<open>totalUserInstance\<close> counts the objects.\<close>

definition add_instance :: "CloudUserPriority \<Rightarrow> nat \<Rightarrow> nat \<Rightarrow> UserDriver \<Rightarrow> UserDriver outcome" where
  "add_instance user k i s =
     and_then (new_CloudUserInstance user (of_nat (length (ud_objects s))) (of_nat k) (int i) (us_numInstances user))
       (\<lambda>u. Inr (add_object (new_UserObject False u) s))"

definition add_user_type :: "nat \<times> CloudUserPriority \<Rightarrow> UserDriver \<Rightarrow> UserDriver outcome" where
  "add_user_type = (\<lambda>(k, user) s.
     let first = length (ud_objects s)
     in and_then (for_each (add_instance user k) [0..<nat (us_numInstances user)] s) (\<lambda>s'.
          Inr (s'\<lparr>ud_groups := ud_groups s' @ [[first..<length (ud_objects s')]]\<rparr>)))"

text \<open>\<open>generateShuffledUsers\<close>, with the numbers of \<open>rand()\<close> after \<open>srand(33)\<close>.\<close>

definition iter_swap :: "nat \<Rightarrow> nat \<Rightarrow> 'a list \<Rightarrow> 'a list" where
  "iter_swap i j xs = xs[i := xs ! j, j := xs ! i]"

definition generateShuffledUsers :: "UserParams \<Rightarrow> 'a list \<Rightarrow> 'a list" where
  "generateShuffledUsers p xs =
     fold (\<lambda>i ys. iter_swap i (up_rand p i mod length xs) ys) [0..<length xs] xs"

definition set_arrival :: "rat \<Rightarrow> nat \<Rightarrow> UserDriver \<Rightarrow> UserDriver" where
  "set_arrival t a = on_user a (\<lambda>u. u\<lparr>ci_times := (ci_times u)\<lparr>it_initTime := inUnit_s t, it_arrival2Cloud := inUnit_s t\<rparr>\<rparr>)"

text \<open>The loop of \<open>generateUserArrivalTimes\<close>.  \<open>None\<close>: a rejection loop does not end.\<close>

fun arrival_times :: "UserParams \<Rightarrow> nat list \<Rightarrow> rat \<Rightarrow> nat \<times> nat \<Rightarrow> UserDriver \<Rightarrow> UserDriver outcome option" where
  "arrival_times p [] prev ij s = Some (Inr s)"
| "arrival_times p (a # as) prev ij s =
     (case createVmRequest p a s of
        Inl e \<Rightarrow> Some (Inl e)
      | Inr (m, s1) \<Rightarrow>
          let s2 = setRequestVmMsg a (Some m) s1
          in if uo_fromTrace (ud_objects s2 ! a) then arrival_times p as prev ij s2
             else case getNextTime p (ud_initSim s2) prev ij of
                    None \<Rightarrow> None
                  | Some (t, ij') \<Rightarrow> arrival_times p as t ij' (set_arrival t a s2))"

definition generateUserArrivalTimes :: "UserParams \<Rightarrow> rat \<Rightarrow> UserDriver \<Rightarrow> UserDriver outcome option" where
  "generateUserArrivalTimes p now s =
     (let s1 = s\<lparr>ud_initSim := now + up_startDelay p\<rparr>;
          s2 = (if up_shuffleUsers p then s1\<lparr>ud_instances := generateShuffledUsers p (ud_instances s1)\<rparr> else s1)
      in arrival_times p (ud_instances s2) 0 (0, 0) s2)"

definition generateUsersBeforeSimulationStarts ::
  "UserParams \<Rightarrow> rat \<Rightarrow> CloudUserPriority list \<Rightarrow> UserDriver \<Rightarrow> UserDriver outcome option" where
  "generateUsersBeforeSimulationStarts p now users s =
     (case for_each add_user_type (enumerate 0 users) s of
        Inl e \<Rightarrow> Some (Inl e)
      | Inr s' \<Rightarrow> generateUserArrivalTimes p now s')"


section \<open>Users of a trace\<close>

text \<open>
  The fields of a job of a trace file the generator reads; \<open>parse_swf\<close> gives the jobs whose run time is not
  negative and whose size is positive, and its file is an argument.
\<close>

record Job =
  jb_submit :: rat
  jb_runtime :: rat
  jb_size :: int

definition sane_jobs :: "Job list \<Rightarrow> Job list" where
  "sane_jobs = filter (\<lambda>j. 0 \<le> jb_runtime j \<and> 0 < jb_size j)"

text \<open>
  \<open>CloudUserInstanceTrace\<close> hands a null user to its base classes, which then create no machines; the
  user's number and instance number stay indeterminate and are not read.
\<close>

definition new_CloudUserInstanceTrace :: "u32 \<Rightarrow> int \<Rightarrow> int \<Rightarrow> Application option \<Rightarrow> CloudUserInstance outcome" where
  "new_CloudUserInstanceTrace totalUserInstance i n app =
     (let uid = ''(-1)UserTrace['' @ show_int (i + 1) @ ''/'' @ show_int n @ '']''
      in and_then (new_AppInstanceCollection app uid 1) (\<lambda>c.
           Inr (UserInstance.extend \<lparr>ui_id = uid, ui_type = ''UserTrace'', ui_userNumber = 0, ui_instanceNumber = 0,
               ui_applications = [c]\<rparr>
             (CloudUserInstance.fields (sint totalUserInstance)
               \<lparr>it_initTime = 0, it_arrival2Cloud = 0, it_initWaitTime = 0, it_waitTime = 0, it_initExec = 0,
                it_endTime = 0\<rparr> empty_gv Map.empty 0 0 False False False None))))"

text \<open>
  A job of the window becomes a user; \<open>size\<close> is not used further.  The times are written to a copy
  (\<open>auto times\<close>), so the user keeps arrival time 0.
\<close>

definition add_job :: "UserParams \<Rightarrow> Application option \<Rightarrow> int \<Rightarrow> Job \<Rightarrow> nat \<times> UserDriver \<Rightarrow> (nat \<times> UserDriver) outcome" where
  "add_job p app nJobs job = (\<lambda>(n, s).
     if 0 < jb_runtime job \<and> jb_size job \<noteq> -1 \<and> of_int (up_traceStartTime p) \<le> jb_submit job \<and>
        jb_submit job \<le> of_int (up_traceEndTime p)
     then and_then (new_CloudUserInstanceTrace (of_nat n) (int n) nJobs app) (\<lambda>u.
            let a = length (ud_objects s); s1 = s\<lparr>ud_objects := ud_objects s @ [new_UserObject True u]\<rparr>
            in and_then (createVmRequest p a s1) (\<lambda>(m, s2).
                 let s3 = setRequestVmMsg a (Some m) s2
                 in Inr (Suc n, s3\<lparr>ud_byId := (ud_byId s3)(ui_id u \<mapsto> a), ud_instances := ud_instances s3 @ [a]\<rparr>)))
     else Inr (n, s))"

definition parseTraceFile :: "UserParams \<Rightarrow> Application option \<Rightarrow> Job list \<Rightarrow> UserDriver \<Rightarrow> UserDriver outcome" where
  "parseTraceFile p app file s =
     (let jobs = sane_jobs file
      in and_then (for_each (add_job p app (int (length jobs))) jobs (0, s)) (\<lambda>(_, s'). Inr s'))"

section \<open>Initialisation\<close>

definition ud_start :: "int \<Rightarrow> string \<Rightarrow> int \<Rightarrow> int \<Rightarrow> rat \<Rightarrow> UserDriver" where
  "ud_start i path fromGate toGate acceptanceRate =
     \<lparr>ud_core = core_initialize i path, ud_fromCloudProvider = fromGate, ud_toCloudProvider = toGate, ud_objects = [],
      ud_groups = [], ud_instances = [], ud_byId = Map.empty, ud_nFinished = 0, ud_index = 0, ud_startTimes = False,
      ud_acceptanceRate = acceptanceRate, ud_extensions = Map.empty, ud_priorized = Map.empty, ud_emitted = [],
      ud_initSim = 0, ud_timers = [], ud_ended = False\<rparr>"

definition all_machines :: "UserDriver \<Rightarrow> string list" where
  "all_machines s = concat (map (\<lambda>a. map vi_id (flattened (ci_vmGroupedInstances (the_user a s)))) (ud_instances s))"

definition initializeHashMaps :: "UserDriver \<Rightarrow> UserDriver" where
  "initializeHashMaps s = s\<lparr>ud_extensions := fold (\<lambda>vm e. e(vm \<mapsto> 0)) (all_machines s) (ud_extensions s)\<rparr>"

text \<open>The version of \<open>UserGeneratorCost\<close>.\<close>

definition cost_initializeHashMaps :: "UserDriver \<Rightarrow> UserDriver" where
  "cost_initializeHashMaps s =
     (initializeHashMaps s)\<lparr>ud_priorized := fold (\<lambda>a m. m(ui_id (the_user a s) \<mapsto> False)) (ud_instances s) (ud_priorized s)\<rparr>"

definition Timer_WaitToExecute :: string where "Timer_WaitToExecute = ''Timer: Wait to execute''"
definition USER_REQ_GEN_MSG :: string where "USER_REQ_GEN_MSG = ''USER_REQ_GEN''"

definition ud_schedule :: "rat \<Rightarrow> string \<Rightarrow> UserDriver \<Rightarrow> UserDriver" where
  "ud_schedule t name s = s\<lparr>ud_timers := ud_timers s @ [(t, name)]\<rparr>"

definition ud_initialize ::
  "UserParams \<Rightarrow> rat \<Rightarrow> CloudUserPriority list \<Rightarrow> Application option \<Rightarrow> Job list \<Rightarrow> UserDriver \<Rightarrow> UserDriver outcome option" where
  "ud_initialize p now users app file s =
     map_option (\<lambda>r. and_then r (\<lambda>s1. and_then (parseTraceFile p app file s1) (\<lambda>s2.
         Inr (initializeHashMaps (ud_schedule (now + up_startDelay p) Timer_WaitToExecute s2)))))
       (generateUsersBeforeSimulationStarts p now users s)"

section \<open>Sending the requests\<close>

definition arrival_of :: "UserDriver \<Rightarrow> nat \<Rightarrow> int" where
  "arrival_of s a = it_arrival2Cloud (ci_times (the_user a s))"

definition scheduleNextReqGenMessage :: "rat \<Rightarrow> UserDriver \<Rightarrow> UserDriver outcome" where
  "scheduleNextReqGenMessage now s =
     (if ud_index s < length (ud_instances s)
      then let nextArrivalTime = of_int (arrival_of s (ud_instances s ! ud_index s))
           in if nextArrivalTime < now
              then Inl (RuntimeError ''Vector of user instances is not sorted by arrival time'')
              else Inr (ud_schedule nextArrivalTime USER_REQ_GEN_MSG s)
      else Inr s)"

definition getNextUser :: "UserDriver \<Rightarrow> nat option" where
  "getNextUser s = (if ud_index s < length (ud_instances s) then Some (ud_instances s ! ud_index s) else None)"

definition handleWaitToExecuteMessage :: "rat \<Rightarrow> UserDriver \<Rightarrow> UserDriver outcome" where
  "handleWaitToExecuteMessage now s =
     scheduleNextReqGenMessage now (s\<lparr>ud_instances := sort_key (arrival_of s) (ud_instances s)\<rparr>)"

definition to_cloud_provider :: "DcMessage \<Rightarrow> DcMessage" where
  "to_cloud_provider m = (case env_body m of
     UserVm rq \<Rightarrow> m\<lparr>env_body := UserVm (rq\<lparr>uv_destinationTopic := ''CloudProvider''\<rparr>)\<rparr> | _ \<Rightarrow> m)"

definition handleUserReqGenMessage :: "rat \<Rightarrow> UserDriver \<Rightarrow> UserDriver outcome" where
  "handleUserReqGenMessage now s =
     (if ud_index s < length (ud_instances s)
      then and_then (case uo_requestVmMsg (ud_objects s ! (ud_instances s ! ud_index s)) of
                       None \<Rightarrow> Inr s | Some m \<Rightarrow> ud_send (to_cloud_provider m) s) (\<lambda>s'.
             scheduleNextReqGenMessage now (s'\<lparr>ud_index := Suc (ud_index s')\<rparr>))
      else Inl OutOfRange)"

definition ud_processSelfMessage :: "rat \<Rightarrow> string \<Rightarrow> UserDriver \<Rightarrow> UserDriver outcome" where
  "ud_processSelfMessage now name s =
     (if name = Timer_WaitToExecute then handleWaitToExecuteMessage now s
      else if name = USER_REQ_GEN_MSG then handleUserReqGenMessage now s
      else Inl (RuntimeError ''Unknown self message''))"


section \<open>Requests and answers\<close>

text \<open>The virtual functions of the user model, which \<open>UserGenerator_simple\<close> calls.\<close>

record UserModelOps =
  mo_vmRequest :: "int \<Rightarrow> DcMessage \<Rightarrow> SM_UserVM \<Rightarrow> nat \<Rightarrow> UserDriver \<Rightarrow> UserDriver outcome"
  mo_decide :: "nat \<Rightarrow> UserDriver \<Rightarrow> bool \<times> UserDriver"

text \<open>
  The constructor installs the model through \<open>newUserModelInstance\<close>, which is not virtual: a
  \<open>UserGeneratorCost\<close> gets the base model too.  \<open>dice\<close> is \<open>rand() / RAND_MAX\<close>.
\<close>

definition newUserModelInstance :: "rat \<Rightarrow> UserModelOps" where
  "newUserModelInstance dice = \<lparr>mo_vmRequest = handleResponseVmRequest, mo_decide = (\<lambda>a s. (decidesToRescueVm dice s, s))\<rparr>"

definition new_CloudUserModel :: "DataRepository \<Rightarrow> bool \<Rightarrow> rat \<Rightarrow> UserModelOps" where
  "new_CloudUserModel r priorized draw =
     \<lparr>mo_vmRequest = cloud_handleResponseVmRequest r priorized, mo_decide = cloud_decidesToRescueVm draw\<rparr>"

definition find_user :: "string \<Rightarrow> UserDriver \<Rightarrow> nat outcome" where
  "find_user uid s = (case ud_byId s uid of Some a \<Rightarrow> Inr a | None \<Rightarrow> Inl OutOfRange)"

text \<open>\<open>processRequestMessage\<close> ends with a send.\<close>

definition ud_processRequestMessage :: "UserModelOps \<Rightarrow> int \<Rightarrow> DcMessage \<Rightarrow> UserDriver \<Rightarrow> (UserDriver \<times> bool) outcome" where
  "ud_processRequestMessage model now m s =
     (case env_body m of
        VmExt offer \<Rightarrow>
          and_then (find_user (ve_userId offer) s) (\<lambda>a.
          and_then (handleVmExtendRequest (mo_decide model a) now m offer a s) (\<lambda>s'. Inr (s', True)))
      | _ \<Rightarrow> Inl (RuntimeError ''check_and_cast to SM_VmExtend''))"

text \<open>\<open>cancelAndDelete\<close> of the request, which the answer has brought back, and its pointer.\<close>

definition cancelAndDeleteMessages :: "nat \<Rightarrow> UserDriver \<Rightarrow> UserDriver" where
  "cancelAndDeleteMessages a s = setRequestVmMsg a None s"

definition allUsersFinished :: "UserDriver \<Rightarrow> bool" where
  "allUsersFinished s \<longleftrightarrow> int (length (ud_instances s)) \<le> ud_nFinished s"

definition count_finished :: "nat \<Rightarrow> UserDriver \<Rightarrow> UserDriver" where
  "count_finished a s =
     (if ci_finished (the_user a s)
      then let s' = cancelAndDeleteMessages a (s\<lparr>ud_nFinished := ud_nFinished s + 1\<rparr>)
           in if allUsersFinished s' then s'\<lparr>ud_ended := True\<rparr> else s'
      else s)"

definition ud_processResponseMessage :: "UserModelOps \<Rightarrow> int \<Rightarrow> DcMessage \<Rightarrow> UserDriver \<Rightarrow> UserDriver outcome" where
  "ud_processResponseMessage model now m s =
     (let code = body_operation (env_body m)
      in and_then
           (if code = SM_VM_Req_op
            then (case env_body m of
                    UserVm rq \<Rightarrow> and_then (find_user (uv_userId rq) s) (\<lambda>a.
                      and_then (mo_vmRequest model now m rq a s) (\<lambda>s'. Inr (a, s')))
                  | _ \<Rightarrow> Inl (RuntimeError ''check_and_cast to SM_UserVM''))
            else if code = SM_VM_Sub
            then (case env_body m of
                    UserVm rq \<Rightarrow> and_then (find_user (uv_userId rq) s) (\<lambda>a.
                      and_then (handleResponseSubscription now rq a s) (\<lambda>s'. Inr (a, s')))
                  | _ \<Rightarrow> Inl (RuntimeError ''check_and_cast to SM_UserVM''))
            else if code = SM_APP_Req
            then (case env_body m of
                    UserApp ap \<Rightarrow> and_then (find_user (ua_userId ap) s) (\<lambda>a.
                      and_then (handleResponseAppRequest now ap a s) (\<lambda>s'. Inr (a, s')))
                  | _ \<Rightarrow> Inl (RuntimeError ''check_and_cast to SM_UserAPP''))
            else Inl (RuntimeError ''Unable to handle incoming response, please check operation codes of the requests!''))
           (\<lambda>(a, s'). Inr (count_finished a s')))"

text \<open>\<open>handleMessage\<close> of the base module, with a self message or a message from the cloud provider.\<close>

datatype ud_event = Timer string | Arrives DcMessage

fun ud_handleMessage :: "UserModelOps \<Rightarrow> rat \<Rightarrow> ud_event \<Rightarrow> UserDriver \<Rightarrow> UserDriver outcome" where
  "ud_handleMessage model now (Timer name) s = ud_processSelfMessage now name s"
| "ud_handleMessage model now (Arrives m) s =
     (if body_isResponse (env_body m) then ud_processResponseMessage model (inUnit_s now) m s
      else and_then (updateMessageTrace (ud_getOutGate m s) m (ud_core s)) (\<lambda>(m', c).
           and_then (drain (ud_processRequestMessage model (inUnit_s now)) (queue c @ [m']) (s\<lparr>ud_core := c\<lparr>queue := []\<rparr>\<rparr>))
             (\<lambda>(q, s'). Inr (s'\<lparr>ud_core := (ud_core s')\<lparr>queue := q\<rparr>\<rparr>))))"

section \<open>Statistics\<close>

record UserStatistics =
  st_totalSub :: rat
  st_maxSub :: rat
  st_noWaitUsers :: nat
  st_waitUsers :: nat
  st_totalTimeouts :: nat
  st_acceptOffer :: int
  st_usersAcceptOffer :: nat

definition empty_statistics :: UserStatistics where
  "empty_statistics = \<lparr>st_totalSub = 0, st_maxSub = 0, st_noWaitUsers = 0, st_waitUsers = 0, st_totalTimeouts = 0,
     st_acceptOffer = 0, st_usersAcceptOffer = 0\<rparr>"

definition extension_of :: "UserDriver \<Rightarrow> string \<Rightarrow> int outcome" where
  "extension_of s vm = (case ud_extensions s vm of Some k \<Rightarrow> Inr k | None \<Rightarrow> Inl OutOfRange)"

definition add_extension :: "UserDriver \<Rightarrow> VmInstance \<Rightarrow> int \<times> bool \<Rightarrow> (int \<times> bool) outcome" where
  "add_extension s vm = (\<lambda>(k, any). and_then (extension_of s (vi_id vm)) (\<lambda>e. Inr (k + e, any \<or> 0 < e)))"

text \<open>\<open>maxSubscriptionTime\<close> is passed as an \<open>int64_t\<close>, which truncates, and the division is that of integers.\<close>

definition add_statistics :: "UserDriver \<Rightarrow> nat \<Rightarrow> UserStatistics \<Rightarrow> UserStatistics outcome" where
  "add_statistics s a st =
     (let u = the_user a s; ts = times_convertToHours (ci_times u);
          maxSub = of_int (convertToHours (inUnit_s (maxSubscriptionTime (uo_requestTimes (ud_objects s ! a)))));
          subTime = (if it_arrival2Cloud ts < it_initExec ts then it_initExec ts - it_arrival2Cloud ts else 0);
          st1 = (if ci_timeout_t4 u
                 then st\<lparr>st_maxSub := maxSub, st_totalSub := st_totalSub st + maxSub, st_totalTimeouts := Suc (st_totalTimeouts st)\<rparr>
                 else st\<lparr>st_maxSub := maxSub, st_totalSub := st_totalSub st + of_int subTime\<rparr>)
      in and_then (hasSubscribed u) (\<lambda>b.
           let st2 = (if b then st1\<lparr>st_waitUsers := Suc (st_waitUsers st1)\<rparr> else st1\<lparr>st_noWaitUsers := Suc (st_noWaitUsers st1)\<rparr>)
           in and_then (for_each (add_extension s) (flattened (ci_vmGroupedInstances u)) (0, False)) (\<lambda>(k, any).
                Inr (st2\<lparr>st_acceptOffer := st_acceptOffer st2 + k,
                         st_usersAcceptOffer := st_usersAcceptOffer st2 + (if any then 1 else 0)\<rparr>))))"

definition ud_finish :: "UserDriver \<Rightarrow> (UserStatistics \<times> rat) outcome" where
  "ud_finish s =
     and_then (for_each (add_statistics s) (ud_instances s) empty_statistics) (\<lambda>st.
       Inr (st, if 0 < length (ud_instances s) then st_totalSub st / of_nat (length (ud_instances s)) else 0))"

end
