(* ===== verification/UserGeneration.thy ===== *)
theory UserGeneration
  imports UserGenerator
begin

text \<open>
  What the generator promises before the simulation starts: the instances it creates have distinct ids and
  are found under them, shuffling only reorders them, the arrival times lie in the cycles, every user gets a
  request for exactly its machines, and a trace with a usable job stops the simulation.
\<close>

section \<open>Rejection loops\<close>

lemma draw_until_Some:
  assumes ret: "draw_until ok d i = Some r"
  shows "ok (fst r) \<and> (\<exists>k\<ge>i. r = (d k, Suc k))"
proof (rule draw_until.raw_induct [where P = "\<lambda>ok d i r. ok (fst r) \<and> (\<exists>k\<ge>i. r = (d k, Suc k))", OF _ ret])
  fix f :: "('a \<Rightarrow> bool) \<Rightarrow> (nat \<Rightarrow> 'a) \<Rightarrow> nat \<Rightarrow> ('a \<times> nat) option" and ok d i r
  assume IH: "\<And>ok d i r. f ok d i = Some r \<Longrightarrow> ok (fst r) \<and> (\<exists>k\<ge>i. r = (d k, Suc k))"
    and s: "(if ok (d i) then Some (d i, Suc i) else f ok d (Suc i)) = Some r"
  show "ok (fst r) \<and> (\<exists>k\<ge>i. r = (d k, Suc k))"
  proof (cases "ok (d i)")
    case False
    then show ?thesis using IH [of ok d "Suc i" r] s by (auto intro: Suc_leD)
  qed (use s in auto)
qed

lemma draw_until_returns:
  assumes "i \<le> k" "ok (d k)"
  shows "\<exists>r. draw_until ok d i = Some r"
  using assms
proof (induction "k - i" arbitrary: i)
  case (Suc n)
  show ?case
  proof (cases "ok (d i)")
    case False
    then have "draw_until ok d i = draw_until ok d (Suc i)" by (subst draw_until.simps) simp
    moreover have "i \<noteq> k" using False Suc.prems by auto
    ultimately show ?thesis using Suc.hyps(1) [of "Suc i"] Suc.hyps(2) Suc.prems by auto
  qed (subst draw_until.simps, simp)
qed (subst draw_until.simps, simp)

text \<open>The loop ends exactly when some draw from here on is acceptable.\<close>

lemma draw_until_terminates:
  "(\<exists>r. draw_until ok d i = Some r) \<longleftrightarrow> (\<exists>k\<ge>i. ok (d k))"
  using draw_until_returns draw_until_Some by (metis fst_conv)

section \<open>Arrival times\<close>

text \<open>C27.  Users that arrive in cycles: if the distributions give a cycle that exists and, for every cycle, a
  time in it, then the time of a user is found; it lies between the start and the end of all cycles, and when
  the cycles are isolated in one of them.
\<close>

theorem arrival_within_cycles:
  assumes "\<not> up_intervalBetweenUsers p" "\<not> up_activeCycles p" "0 < up_numberOfCycles p"
    and "\<exists>k\<ge>j. 1 \<le> up_cycleDistribution p k \<and> up_cycleDistribution p k \<le> up_numberOfCycles p"
    and "\<forall>c. 0 \<le> c \<and> c < up_numberOfCycles p \<longrightarrow> (\<exists>k\<ge>i. in_cycle p c (up_distribution p k))"
  shows "\<exists>t i' j'. getNextTime p initSim prev (i, j) = Some (t, i', j') \<and>
    initSim \<le> t \<and> t \<le> initSim + up_durationOfCycle p * of_int (up_numberOfCycles p) \<and>
    (up_isolateCycle p \<longrightarrow> (\<exists>c. 0 \<le> c \<and> c < up_numberOfCycles p \<and>
       initSim + of_int c * up_durationOfCycle p \<le> t \<and> t \<le> initSim + (of_int c + 1) * up_durationOfCycle p))"
proof -
  let ?n = "up_numberOfCycles p" and ?D = "up_durationOfCycle p"
  let ?cyc = "if 1 < ?n then map_option (\<lambda>(c, j'). (c - 1, j'))
      (draw_until (\<lambda>c. \<not> (c < 1 \<or> ?n < c)) (up_cycleDistribution p) j) else Some (0, j)"
  have "\<exists>c j'. ?cyc = Some (c, j') \<and> 0 \<le> c \<and> c < ?n"
  proof (cases "1 < ?n")
    case True
    have "\<exists>k\<ge>j. \<not> (up_cycleDistribution p k < 1 \<or> ?n < up_cycleDistribution p k)"
      using assms(4) by (meson not_less)
    then obtain r where r: "draw_until (\<lambda>c. \<not> (c < 1 \<or> ?n < c)) (up_cycleDistribution p) j = Some r"
      using draw_until_terminates by blast
    with draw_until_Some [OF r] True show ?thesis by (cases r) auto
  next
    case False
    then show ?thesis using assms(3) by auto
  qed
  then obtain c j' where c: "?cyc = Some (c, j')" "0 \<le> c" "c < ?n" by blast
  have "\<exists>k\<ge>i. in_cycle p c (up_distribution p k)" using assms(5) c(2,3) by blast
  then obtain t i' where t: "draw_until (in_cycle p c) (up_distribution p) i = Some (t, i')"
    using draw_until_terminates by (metis surj_pair)
  have ok: "in_cycle p c t" using draw_until_Some [OF t] by simp
  have g: "getNextTime p initSim prev (i, j) = Some (initSim + t + of_int c * ?D, i', j')"
    using assms(1,2) c(1) t by (simp add: getNextTime_def)
  have b: "0 \<le> t + of_int c * ?D" "t + of_int c * ?D \<le> ?D * of_int ?n"
    "up_isolateCycle p \<Longrightarrow> 0 \<le> t \<and> t \<le> ?D" using ok by (auto simp: in_cycle_def Let_def not_less)
  have "up_isolateCycle p \<longrightarrow> (\<exists>c'. 0 \<le> c' \<and> c' < ?n \<and> initSim + of_int c' * ?D \<le> initSim + t + of_int c * ?D \<and>
      initSim + t + of_int c * ?D \<le> initSim + (of_int c' + 1) * ?D)"
    using b(3) c(2,3) by (intro impI exI [of _ c]) (simp add: algebra_simps)
  with g b(1,2) show ?thesis by (intro exI [of _ "initSim + t + of_int c * ?D"] exI [of _ i'] exI [of _ j']) simp
qed

section \<open>Shuffling\<close>

lemma iter_swap_mset: "i < length xs \<Longrightarrow> j < length xs \<Longrightarrow> mset (iter_swap i j xs) = mset xs \<and> length (iter_swap i j xs) = length xs"
  by (simp add: iter_swap_def mset_swap)

lemma shuffle_mset:
  "mset (generateShuffledUsers p xs) = mset xs"
proof -
  have "mset (fold (\<lambda>i ys. iter_swap i (up_rand p i mod length xs) ys) is xs) = mset xs \<and>
      length (fold (\<lambda>i ys. iter_swap i (up_rand p i mod length xs) ys) is xs) = length xs"
    if "set is \<subseteq> {0..<length xs}" for "is"
    using that
  proof (induction "is" rule: rev_induct)
    case (snoc i "is")
    then have l: "i < length xs" "up_rand p i mod length xs < length xs" by (auto intro: mod_less_divisor)
    show ?case using snoc iter_swap_mset [of i "fold (\<lambda>i ys. iter_swap i (up_rand p i mod length xs) ys) is xs"] l by simp
  qed simp
  from this [of "[0..<length xs]"] show ?thesis by (auto simp: generateShuffledUsers_def)
qed


text \<open>Shuffling the users, whatever \<open>rand()\<close> gives, only changes their order: none is lost or doubled.\<close>

theorem shuffle_permutes:
  "mset (generateShuffledUsers p xs) = mset xs"
  by (rule shuffle_mset)

section \<open>The request of a user\<close>

definition vm_request_of :: "UserParams \<Rightarrow> CloudUserInstance \<Rightarrow> SM_UserVM" where
  "vm_request_of p u = (new_UserVm (map (\<lambda>vm. \<lparr>rq_times = up_timeouts p, rq_vmType = vm_type (vt_base (vi_type vm)),
       rq_vmId = vi_id vm, rq_response = empty_response\<rparr>) (flattened (ci_vmGroupedInstances u))))
     \<lparr>uv_userId := ui_id u, uv_isResponse := False, uv_operation := SM_VM_Req_op\<rparr>"

lemma fold_createNewVmRequest:
  "fold (\<lambda>vm. createNewVmRequest (f vm) (g vm) t) vms rq =
     rq\<lparr>uv_vm := uv_vm rq @ map (\<lambda>vm. \<lparr>rq_times = t, rq_vmType = f vm, rq_vmId = g vm, rq_response = empty_response\<rparr>) vms\<rparr>"
  by (induction vms arbitrary: rq) (simp_all add: createNewVmRequest_def)

lemma createVmRequest_Inr:
  "createVmRequest p a s = Inr (m, s') \<longleftrightarrow>
     getTotalVMs (the_user a s) \<noteq> 0 \<and> ui_id (the_user a s) \<noteq> [] \<and> m = with_body (UserVm (vm_request_of p (the_user a s))) \<and>
     s' = s\<lparr>ud_objects := (ud_objects s)[a := (ud_objects s ! a)\<lparr>uo_requestTimes := up_timeouts p\<rparr>]\<rparr>"
  by (auto simp: createVmRequest_def Let_def fold_createNewVmRequest vm_request_of_def new_UserVm_def)

lemma vm_request_of_times [simp]: "vm_request_of p (u\<lparr>ci_times := ts\<rparr>) = vm_request_of p u"
  by (simp add: vm_request_of_def)

text \<open>What the loop over the users leaves in an object: the request, and the same user but for its times.\<close>

definition with_request :: "UserParams \<Rightarrow> UserObject \<Rightarrow> UserObject \<Rightarrow> bool" where
  "with_request p x y \<longleftrightarrow> getTotalVMs (uo_inst x) \<noteq> 0 \<and> ui_id (uo_inst x) \<noteq> [] \<and>
     uo_requestVmMsg y = Some (with_body (UserVm (vm_request_of p (uo_inst x)))) \<and> uo_requestTimes y = up_timeouts p \<and>
     (\<exists>ts. uo_inst y = (uo_inst x)\<lparr>ci_times := ts\<rparr>)"

lemma with_request_trans:
  "with_request p x y \<Longrightarrow> with_request p y z \<Longrightarrow> with_request p x z"
  by (auto simp: with_request_def)

lemma only_times_changed [simp]: "\<exists>ts. u = u\<lparr>ci_times := ts\<rparr>"
  by (rule exI [of _ "ci_times u"]) (cases u, simp)

lemma arrival_times_requests:
  assumes "arrival_times p as prev ij s = Some (Inr s')" "\<forall>a\<in>set as. a < length (ud_objects s)"
  shows "\<exists>objs. s' = s\<lparr>ud_objects := objs\<rparr> \<and> length objs = length (ud_objects s) \<and>
    (\<forall>a. a \<notin> set as \<longrightarrow> objs ! a = ud_objects s ! a) \<and> (\<forall>a\<in>set as. with_request p (ud_objects s ! a) (objs ! a))"
  using assms
proof (induction p as prev ij s rule: arrival_times.induct)
  case (1 p prev ij s)
  then show ?case by (intro exI [of _ "ud_objects s"]) simp
next
  case (2 p a as prev ij s)
  have a: "a < length (ud_objects s)" using "2.prems"(2) by simp
  obtain m s1 where c: "createVmRequest p a s = Inr (m, s1)" using "2.prems"(1) by (auto split: sum.splits)
  let ?s2 = "setRequestVmMsg a (Some m) s1"
  obtain prev' ij' s3 where r: "arrival_times p as prev' ij' s3 = Some (Inr s')" and s3: "s3 = ?s2 \<or> (\<exists>t. s3 = set_arrival t a ?s2)"
    and IH: "\<forall>a\<in>set as. a < length (ud_objects s3) \<Longrightarrow> \<exists>objs. s' = s3\<lparr>ud_objects := objs\<rparr> \<and> length objs = length (ud_objects s3) \<and>
      (\<forall>a. a \<notin> set as \<longrightarrow> objs ! a = ud_objects s3 ! a) \<and> (\<forall>a\<in>set as. with_request p (ud_objects s3 ! a) (objs ! a))"
  proof (cases "uo_fromTrace (ud_objects ?s2 ! a)")
    case True
    then have r: "arrival_times p as prev ij ?s2 = Some (Inr s')" using "2.prems"(1) c by (simp add: Let_def)
    show thesis by (rule that [OF r]) (use "2.IH"(1) [OF c refl refl True r] in auto)
  next
    case False
    then obtain t ij' where g: "getNextTime p (ud_initSim ?s2) prev ij = Some (t, ij')"
      using "2.prems"(1) c by (auto simp: Let_def split: option.splits)
    then have r: "arrival_times p as t ij' (set_arrival t a ?s2) = Some (Inr s')" using "2.prems"(1) c False by (simp add: Let_def)
    show thesis by (rule that [OF r]) (use "2.IH"(2) [OF c refl refl False g refl r] in auto)
  qed
  have s3': "s3 = s\<lparr>ud_objects := ud_objects s3\<rparr>" "length (ud_objects s3) = length (ud_objects s)"
    "\<forall>b. b \<noteq> a \<longrightarrow> ud_objects s3 ! b = ud_objects s ! b" "with_request p (ud_objects s ! a) (ud_objects s3 ! a)"
    using s3 c a by (auto simp: createVmRequest_Inr setRequestVmMsg_def set_arrival_def on_user_def set_user_def the_user_def
        with_request_def)
  obtain objs where o: "s' = s3\<lparr>ud_objects := objs\<rparr>" "length objs = length (ud_objects s3)"
      "\<forall>a. a \<notin> set as \<longrightarrow> objs ! a = ud_objects s3 ! a" "\<forall>a\<in>set as. with_request p (ud_objects s3 ! a) (objs ! a)"
    using IH "2.prems"(2) s3'(2) by auto
  have "with_request p (ud_objects s ! b) (objs ! b)" if "b \<in> set (a # as)" for b
  proof (cases "b \<in> set as")
    case True
    then have o4: "with_request p (ud_objects s3 ! b) (objs ! b)" using o(4) by blast
    show ?thesis
    proof (cases "b = a")
      case True
      then show ?thesis using with_request_trans [OF s3'(4)] o4 by simp
    qed (use o4 s3'(3) in simp)
  next
    case False
    then have "b = a" "objs ! b = ud_objects s3 ! b" using that o(3) by simp_all
    then show ?thesis using s3'(4) by simp
  qed
  moreover have "s' = s\<lparr>ud_objects := objs\<rparr>" by (subst o(1), subst s3'(1)) simp
  moreover have "\<forall>b. b \<notin> set (a # as) \<longrightarrow> objs ! b = ud_objects s ! b" using o(3) s3'(3) by simp
  ultimately show ?case using o(2) s3'(2) by (intro exI [of _ objs]) simp
qed


section \<open>The ids of the users\<close>

lemma number_prefix:
  assumes "show_nat m @ c # xs = show_nat n @ c # ys" "\<not> is_digit c"
  shows "m = n \<and> xs = ys"
proof -
  have "takeWhile is_digit (show_nat m @ c # xs) = show_nat m" for m xs
    using assms(2) show_nat_digits [of _ m] by (subst takeWhile_append2) auto
  then have "show_nat m = show_nat n" using assms(1) by metis
  with assms(1) show ?thesis using show_nat_inject by auto
qed

lemma separators_no_digits: "\<not> is_digit CHR '')''" "\<not> is_digit CHR ''/''"
  by (simp_all add: is_digit_def)

lemma user_ids_distinct:
  assumes "user_instance_id type k i n = user_instance_id type' k' i' n'" "0 \<le> i" "0 \<le> i'" "k = k' \<Longrightarrow> type = type'"
  shows "k = k' \<and> i = i'"
proof -
  have "show_nat (nat (uint k)) @ CHR '')'' # (type @ CHR ''['' # show_int (i + 1) @ CHR ''/'' # show_int n @ '']'') =
      show_nat (nat (uint k')) @ CHR '')'' # (type' @ CHR ''['' # show_int (i' + 1) @ CHR ''/'' # show_int n' @ '']'')"
    using assms(1) by (simp add: user_instance_id_def show_int_def)
  from number_prefix [OF this separators_no_digits(1)]
  have k: "k = k'" and rest: "type @ CHR ''['' # show_int (i + 1) @ CHR ''/'' # show_int n @ '']'' =
      type' @ CHR ''['' # show_int (i' + 1) @ CHR ''/'' # show_int n' @ '']''"
    by (simp_all add: word_unat_eq_iff)
  with assms(4) have "show_nat (nat (i + 1)) @ CHR ''/'' # (show_int n @ '']'') = show_nat (nat (i' + 1)) @ CHR ''/'' # (show_int n' @ '']'')"
    using assms(2,3) by (simp add: show_int_def)
  from number_prefix [OF this separators_no_digits(2)] have "i = i'" using assms(2,3) by (simp add: eq_nat_nat_iff)
  with k show ?thesis by simp
qed

section \<open>The generated users\<close>

text \<open>The instances created so far: user type, number of the type, index and object of each.\<close>

definition created_as :: "(CloudUserPriority \<times> nat \<times> nat) list \<Rightarrow> UserDriver \<Rightarrow> bool" where
  "created_as cs s \<longleftrightarrow> length cs = length (ud_objects s) \<and> ud_instances s = [0..<length (ud_objects s)] \<and>
     (\<forall>a<length cs. case cs ! a of (user, k, i) \<Rightarrow>
        new_CloudUserInstance user (of_nat a) (of_nat k) (int i) (us_numInstances user) = Inr (the_user a s)) \<and>
     (\<forall>uid a. ud_byId s uid = Some a \<longleftrightarrow> a < length cs \<and> ui_id (the_user a s) = uid)"

definition instances_from :: "nat \<Rightarrow> CloudUserPriority list \<Rightarrow> (CloudUserPriority \<times> nat \<times> nat) list" where
  "instances_from k users = concat (map (\<lambda>(k, user). map (\<lambda>i. (user, k, i)) [0..<nat (us_numInstances user)]) (enumerate k users))"

lemma created_id:
  assumes "created_as cs s" "a < length cs" "cs ! a = (user, k, i)"
  shows "ui_id (the_user a s) = user_instance_id (us_type user) (of_nat k) (int i) (us_numInstances user)"
proof -
  have "new_CloudUserInstance user (of_nat a) (of_nat k) (int i) (us_numInstances user) = Inr (the_user a s)"
    using assms by (auto simp: created_as_def)
  from new_CloudUserInstance_shape [OF this] show ?thesis by metis
qed

text \<open>The pairs of type number and index occur once, and a number has one type.\<close>

definition numbering :: "(CloudUserPriority \<times> nat \<times> nat) list \<Rightarrow> bool" where
  "numbering cs \<longleftrightarrow> distinct (map snd cs) \<and> (\<forall>c\<in>set cs. fst (snd c) < 2 ^ 32 \<and> (\<forall>d\<in>set cs. fst (snd d) = fst (snd c) \<longrightarrow> fst d = fst c))"

lemma numbering_prefix: "numbering (xs @ ys) \<Longrightarrow> numbering xs"
  by (simp add: numbering_def)

lemma created_ids_differ:
  assumes "created_as cs s" "numbering (cs @ [(user, k, i)])" "a < length cs"
  shows "ui_id (the_user a s) \<noteq> user_instance_id (us_type user) (of_nat k) (int i) (us_numInstances user)"
proof
  assume eq: "ui_id (the_user a s) = user_instance_id (us_type user) (of_nat k) (int i) (us_numInstances user)"
  obtain user' k' i' where c: "cs ! a = (user', k', i')" by (metis prod_cases3)
  then have m: "(user', k', i') \<in> set cs" using assms(3) by (metis nth_mem)
  have "distinct (map snd cs @ [(k, i)])" using assms(2) by (simp add: numbering_def)
  then have ki: "(k', i') \<noteq> (k, i)" using m by (auto simp: rev_image_eqI)
  note N = conjunct2 [OF assms(2) [unfolded numbering_def], THEN bspec]
  have k: "k' < 2 ^ 32" "k < 2 ^ 32" using N [of "(user', k', i')"] N [of "(user, k, i)"] m by simp_all
  have ku: "k' = k \<longrightarrow> user' = user"
    using N [of "(user, k, i)", THEN conjunct2, THEN bspec, of "(user', k', i')"] m by simp
  have "(of_nat k' :: u32) = of_nat k \<longrightarrow> k' = k"
    using k(1,2) by (simp add: word_unat_eq_iff unat_of_nat)
  moreover have "(of_nat k' :: u32) = of_nat k \<and> int i' = int i"
  proof (rule user_ids_distinct)
    show "user_instance_id (us_type user') (of_nat k') (int i') (us_numInstances user') =
        user_instance_id (us_type user) (of_nat k) (int i) (us_numInstances user)"
      using eq created_id [OF assms(1,3) c] by simp
    assume "(of_nat k' :: u32) = of_nat k"
    then show "us_type user' = us_type user" using \<open>(of_nat k' :: u32) = of_nat k \<longrightarrow> k' = k\<close> ku by simp
  qed simp_all
  ultimately show False using ki by simp
qed

lemma add_instance_created:
  assumes "created_as cs s" "add_instance user k i s = Inr s'" "numbering (cs @ [(user, k, i)])"
  shows "created_as (cs @ [(user, k, i)]) s' \<and> ud_groups s' = ud_groups s \<and> length (ud_objects s') = Suc (length (ud_objects s))"
proof -
  obtain u where u: "new_CloudUserInstance user (of_nat (length (ud_objects s))) (of_nat k) (int i) (us_numInstances user) = Inr u"
      and s': "s' = add_object (new_UserObject False u) s"
    using assms(2) by (auto simp: add_instance_def and_then_eq_Inr)
  have l: "length cs = length (ud_objects s)" using assms(1) by (simp add: created_as_def)
  have old: "the_user a s' = the_user a s" if "a < length cs" for a
    using that l by (simp add: s' add_object_def the_user_def Let_def nth_append)
  have new: "the_user (length cs) s' = u" by (simp add: s' add_object_def the_user_def Let_def l new_UserObject_def)
  have id: "ui_id u = user_instance_id (us_type user) (of_nat k) (int i) (us_numInstances user)"
    using new_CloudUserInstance_shape [OF u] by metis
  have fresh: "ui_id (the_user a s) \<noteq> ui_id u" if "a < length cs" for a
    unfolding id by (rule created_ids_differ [OF assms(1,3) that])
  have "created_as (cs @ [(user, k, i)]) s'"
    unfolding created_as_def
  proof (intro conjI allI impI)
    show "length (cs @ [(user, k, i)]) = length (ud_objects s')" using l by (simp add: s' add_object_def Let_def)
    show "ud_instances s' = [0..<length (ud_objects s')]"
      using assms(1) by (simp add: s' add_object_def Let_def created_as_def)
    fix a assume a: "a < length (cs @ [(user, k, i)])"
    show "case (cs @ [(user, k, i)]) ! a of (user, k, i) \<Rightarrow>
        new_CloudUserInstance user (of_nat a) (of_nat k) (int i) (us_numInstances user) = Inr (the_user a s')"
    proof (cases "a < length cs")
      case True
      then show ?thesis using assms(1) by (simp add: created_as_def nth_append old)
    next
      case False
      then have "a = length cs" using a by simp
      then show ?thesis using new u by (simp add: l [symmetric])
    qed
  next
    fix uid a
    have ids: "ud_byId s' = (ud_byId s)(ui_id u \<mapsto> length cs)" by (simp add: s' add_object_def Let_def l new_UserObject_def)
    have hit: "ud_byId s uid = Some a \<longleftrightarrow> a < length cs \<and> ui_id (the_user a s) = uid" for uid a
      using assms(1) by (simp add: created_as_def)
    show "ud_byId s' uid = Some a \<longleftrightarrow> a < length (cs @ [(user, k, i)]) \<and> ui_id (the_user a s') = uid"
    proof (cases "a < length cs")
      case True
      then have "ui_id (the_user a s) = uid \<longrightarrow> uid \<noteq> ui_id u" using fresh by metis
      with True show ?thesis using hit [of uid a] old [OF True] by (auto simp: ids)
    next
      case False
      then have "ud_byId s uid \<noteq> Some a" using hit by simp
      with False show ?thesis using new by (auto simp: ids less_Suc_eq)
    qed
  qed
  then show ?thesis by (simp add: s' add_object_def Let_def)
qed


lemma add_instances_created:
  assumes "for_each (add_instance user k) is s = Inr s'" "created_as cs s" "numbering (cs @ map (\<lambda>i. (user, k, i)) is)"
  shows "created_as (cs @ map (\<lambda>i. (user, k, i)) is) s' \<and> ud_groups s' = ud_groups s"
  using assms
proof (induction "is" arbitrary: s cs)
  case (Cons i "is")
  obtain s1 where s1: "add_instance user k i s = Inr s1" "for_each (add_instance user k) is s1 = Inr s'"
    using Cons.prems(1) by (auto simp: and_then_eq_Inr)
  have "numbering (cs @ [(user, k, i)])"
    by (rule numbering_prefix [of _ "map (\<lambda>i. (user, k, i)) is"]) (use Cons.prems(3) in simp)
  from add_instance_created [OF Cons.prems(2) s1(1) this] Cons.IH [OF s1(2), of "cs @ [(user, k, i)]"] Cons.prems(3)
  show ?case by simp
qed simp

lemma add_user_types_created:
  assumes "for_each add_user_type (enumerate k users) s = Inr s'" "created_as cs s" "numbering (cs @ instances_from k users)"
    and "concat (ud_groups s) = ud_instances s"
  shows "created_as (cs @ instances_from k users) s' \<and> concat (ud_groups s') = ud_instances s' \<and>
    length (ud_groups s') = length (ud_groups s) + length users"
  using assms
proof (induction users arbitrary: k s cs)
  case (Cons user users)
  let ?new = "map (\<lambda>i. (user, k, i)) [0..<nat (us_numInstances user)]"
  obtain s1 s2 where s1: "for_each (add_instance user k) [0..<nat (us_numInstances user)] s = Inr s1"
      and s2: "s2 = s1\<lparr>ud_groups := ud_groups s1 @ [[length (ud_objects s)..<length (ud_objects s1)]]\<rparr>"
      and r: "for_each add_user_type (enumerate (Suc k) users) s2 = Inr s'"
    using Cons.prems(1) by (auto simp: and_then_eq_Inr add_user_type_def Let_def)
  have n: "numbering ((cs @ ?new) @ instances_from (Suc k) users)" using Cons.prems(3) by (simp add: instances_from_def)
  then have n1: "numbering (cs @ ?new)" by (rule numbering_prefix)
  from add_instances_created [OF s1 Cons.prems(2) n1]
  have c: "created_as (cs @ ?new) s1" "ud_groups s1 = ud_groups s" by auto
  then have c2: "created_as (cs @ ?new) s2" by (simp add: created_as_def s2 the_user_def)
  have "length (ud_objects s) \<le> length (ud_objects s1)"
    using c(1) Cons.prems(2) by (simp add: created_as_def)
  then have g: "concat (ud_groups s2) = ud_instances s2"
    using c Cons.prems(2,4) upt_add_eq_append [of 0 "length (ud_objects s)" "length (ud_objects s1) - length (ud_objects s)"]
    by (simp add: s2 created_as_def)
  from Cons.IH [OF r c2 n g] show ?case using c(2) by (simp add: instances_from_def s2)
qed (simp add: instances_from_def)

lemma instances_from_Cons:
  "instances_from k (u # users) = map (\<lambda>i. (u, k, i)) [0..<nat (us_numInstances u)] @ instances_from (Suc k) users"
  by (simp add: instances_from_def)

lemma instances_from_set:
  "c \<in> set (instances_from k users) \<Longrightarrow> k \<le> fst (snd c) \<and> fst (snd c) < k + length users \<and> fst c = users ! (fst (snd c) - k)"
proof (induction users arbitrary: k)
  case (Cons u users)
  show ?case
  proof (cases "c \<in> set (instances_from (Suc k) users)")
    case True
    from Cons.IH [OF True] show ?thesis by (simp add: nth_Cons' Suc_diff_Suc)
  qed (use Cons.prems in \<open>auto simp: instances_from_Cons\<close>)
qed (simp add: instances_from_def)

lemma instances_from_distinct: "distinct (map snd (instances_from k users))"
proof (induction users arbitrary: k)
  case (Cons u users)
  have no: "(k, i) \<notin> snd ` set (instances_from (Suc k) users)" for i
  proof
    assume "(k, i) \<in> snd ` set (instances_from (Suc k) users)"
    then obtain c where "c \<in> set (instances_from (Suc k) users)" "snd c = (k, i)" by auto
    with instances_from_set [OF this(1)] show False by simp
  qed
  have "set (map snd (map (\<lambda>i. (u, k, i)) [0..<nat (us_numInstances u)])) = (\<lambda>i. (k, i)) ` {0..<nat (us_numInstances u)}"
    by (simp add: image_image)
  moreover have "(\<lambda>i. (k, i)) ` {0..<nat (us_numInstances u)} \<inter> snd ` set (instances_from (Suc k) users) = {}"
    using no by blast
  ultimately have "set (map snd (map (\<lambda>i. (u, k, i)) [0..<nat (us_numInstances u)])) \<inter> set (map snd (instances_from (Suc k) users)) = {}"
    by (simp only: set_map)
  moreover have "distinct (map snd (map (\<lambda>i. (u, k, i)) [0..<nat (us_numInstances u)]))"
    by (simp add: distinct_map inj_on_def)
  ultimately show ?case using Cons.IH [of "Suc k"] by (simp only: instances_from_Cons map_append distinct_append)
qed (simp add: instances_from_def)

lemma numbering_instances:
  assumes "length users \<le> 2 ^ 32"
  shows "numbering (instances_from 0 users)"
  unfolding numbering_def
proof (intro conjI ballI impI)
  show "distinct (map snd (instances_from 0 users))" by (rule instances_from_distinct)
  fix c assume c: "c \<in> set (instances_from 0 users)"
  show "fst (snd c) < 2 ^ 32" using instances_from_set [OF c] assms by linarith
  fix d assume "d \<in> set (instances_from 0 users)" "fst (snd d) = fst (snd c)"
  then show "fst d = fst c" using instances_from_set c by metis
qed


lemma users_generated_lemma:
  assumes "for_each add_user_type (enumerate 0 users) (ud_start m path g h rate) = Inr s" "length users \<le> 2 ^ 32"
  shows "ud_instances s = [0..<length (ud_objects s)] \<and>
    length (ud_objects s) = sum_list (map (\<lambda>u. nat (us_numInstances u)) users) \<and>
    concat (ud_groups s) = ud_instances s \<and> length (ud_groups s) = length users \<and>
    (\<forall>uid a. ud_byId s uid = Some a \<longleftrightarrow> a < length (ud_objects s) \<and> ui_id (the_user a s) = uid)"
proof -
  have start: "created_as [] (ud_start m path g h rate)" by (simp add: created_as_def ud_start_def)
  have "created_as ([] @ instances_from 0 users) s \<and> concat (ud_groups s) = ud_instances s \<and>
      length (ud_groups s) = length (ud_groups (ud_start m path g h rate)) + length users"
    by (rule add_user_types_created [OF assms(1) start]) (use numbering_instances [OF assms(2)] in \<open>simp_all add: ud_start_def\<close>)
  moreover have "length (instances_from k users) = sum_list (map (\<lambda>u. nat (us_numInstances u)) users)" for k
    by (induction users arbitrary: k) (simp_all add: instances_from_Cons, simp add: instances_from_def)
  ultimately show ?thesis by (simp add: created_as_def ud_start_def)
qed

text \<open>The generator creates, for every user type of the experiment, as many instances as it declares; the
  vector of the instances holds each object once, in order, the groups split it by type, and looking an id up
  finds the one instance that has it.
\<close>

theorem users_generated:
  assumes "for_each add_user_type (enumerate 0 users) (ud_start m path g h rate) = Inr s" "length users \<le> 2 ^ 32"
  shows "ud_instances s = [0..<length (ud_objects s)] \<and>
    length (ud_objects s) = sum_list (map (\<lambda>u. nat (us_numInstances u)) users) \<and>
    concat (ud_groups s) = ud_instances s \<and> length (ud_groups s) = length users \<and>
    (\<forall>uid a. ud_byId s uid = Some a \<longleftrightarrow> a < length (ud_objects s) \<and> ui_id (the_user a s) = uid)"
  by (rule users_generated_lemma [OF assms])

section \<open>The requests of the users\<close>

text \<open>A user that is ready: its request asks for exactly its machines and was not sent yet.\<close>

definition user_ready :: "UserParams \<Rightarrow> UserDriver \<Rightarrow> nat \<Rightarrow> bool" where
  "user_ready p s a \<longleftrightarrow> a < length (ud_objects s) \<and> getTotalVMs (the_user a s) \<noteq> 0 \<and>
     uo_requestVmMsg (ud_objects s ! a) = Some (with_body (UserVm (vm_request_of p (the_user a s))))"

lemma with_request_ready:
  "with_request p x (ud_objects s ! a) \<Longrightarrow> a < length (ud_objects s) \<Longrightarrow> user_ready p s a"
  by (auto simp: with_request_def user_ready_def the_user_def getTotalVMs_def)

lemma shuffle_set: "set (generateShuffledUsers p xs) = set xs"
  using mset_eq_setD [of "generateShuffledUsers p xs" xs] shuffle_mset by blast

lemma requests_prepared_lemma:
  assumes "generateUsersBeforeSimulationStarts p now users (ud_start m path g h rate) = Some (Inr s)"
    and "length users \<le> 2 ^ 32"
  shows "mset (ud_instances s) = mset [0..<length (ud_objects s)] \<and> (\<forall>a<length (ud_objects s). user_ready p s a) \<and>
    (\<forall>uid a. ud_byId s uid = Some a \<longleftrightarrow> a < length (ud_objects s) \<and> ui_id (the_user a s) = uid)"
proof -
  obtain s0 where s0: "for_each add_user_type (enumerate 0 users) (ud_start m path g h rate) = Inr s0"
      and g: "generateUserArrivalTimes p now s0 = Some (Inr s)"
    using assms(1) by (auto simp: generateUsersBeforeSimulationStarts_def split: sum.splits)
  note U = users_generated_lemma [OF s0 assms(2)]
  define s1 where "s1 = s0\<lparr>ud_initSim := now + up_startDelay p\<rparr>"
  define s2 where "s2 = (if up_shuffleUsers p then s1\<lparr>ud_instances := generateShuffledUsers p (ud_instances s1)\<rparr> else s1)"
  have s2: "ud_objects s2 = ud_objects s0" "ud_byId s2 = ud_byId s0" "mset (ud_instances s2) = mset (ud_instances s0)"
    by (simp_all add: s2_def s1_def shuffle_mset)
  have "ud_instances s0 = [0..<length (ud_objects s0)]" using U by blast
  then have set: "set (ud_instances s2) = {0..<length (ud_objects s0)}"
    using mset_eq_setD [OF s2(3)] by (metis set_upt)
  have "arrival_times p (ud_instances s2) 0 (0, 0) s2 = Some (Inr s)"
    using g unfolding generateUserArrivalTimes_def Let_def s1_def [symmetric] s2_def [symmetric] .
  note R = arrival_times_requests [OF this]
  have "\<forall>a\<in>set (ud_instances s2). a < length (ud_objects s2)" by (simp add: set s2(1))
  from R [OF this] obtain objs where o: "s = s2\<lparr>ud_objects := objs\<rparr>" "length objs = length (ud_objects s0)"
      and w: "\<forall>a\<in>set (ud_instances s2). with_request p (ud_objects s0 ! a) (objs ! a)"
    unfolding s2(1) by metis
  have o3: "with_request p (ud_objects s0 ! a) (objs ! a)" if "a < length (ud_objects s0)" for a
    using w that by (simp add: set)
  have id: "ui_id (the_user a s) = ui_id (the_user a s0)" if "a < length objs" for a
    using o3 [of a] that o by (auto simp: the_user_def with_request_def)
  have "user_ready p s a" if "a < length (ud_objects s)" for a
    using with_request_ready [of p "ud_objects s0 ! a" s a] o o3 that by simp
  moreover have "mset (ud_instances s) = mset [0..<length (ud_objects s)]" using o(1,2) s2(3) U by simp
  moreover have "ud_byId s uid = Some a \<longleftrightarrow> a < length (ud_objects s) \<and> ui_id (the_user a s) = uid" for uid a
    using o(1,2) s2(2) U id by (cases "a < length objs") auto
  ultimately show ?thesis by blast
qed

text \<open>When the users could be generated, every one of them has its place among the instances, shuffled or
  not, is found under its id, and carries a request that names it and asks for each of its machines.
\<close>

theorem requests_prepared:
  assumes "generateUsersBeforeSimulationStarts p now users (ud_start m path g h rate) = Some (Inr s)"
    and "length users \<le> 2 ^ 32"
  shows "mset (ud_instances s) = mset [0..<length (ud_objects s)] \<and> (\<forall>a<length (ud_objects s). user_ready p s a) \<and>
    (\<forall>uid a. ud_byId s uid = Some a \<longleftrightarrow> a < length (ud_objects s) \<and> ui_id (the_user a s) = uid)"
  by (rule requests_prepared_lemma [OF assms])

section \<open>Users that all arrive at once\<close>

text \<open>With an interval between the users and no start delay, the interval is never used: the arrival time
  of the user before is 0, which counts as none, and all users arrive at time 0.
\<close>

theorem no_interval_without_delay:
  assumes "up_intervalBetweenUsers p" "ud_initSim s = 0" "arrival_times p as 0 ij s = Some (Inr s')"
    and "\<forall>a\<in>set as. a < length (ud_objects s) \<and> \<not> uo_fromTrace (ud_objects s ! a)"
  shows "\<forall>a\<in>set as. arrival_of s' a = 0"
  using assms(2-)
proof (induction as arbitrary: s)
  case (Cons a as)
  have a: "a < length (ud_objects s)" "\<not> uo_fromTrace (ud_objects s ! a)" using Cons.prems(3) by simp_all
  obtain m s1 where c: "createVmRequest p a s = Inr (m, s1)" using Cons.prems(2) by (auto split: sum.splits)
  let ?s2 = "setRequestVmMsg a (Some m) s1" and ?s3 = "set_arrival 0 a (setRequestVmMsg a (Some m) s1)"
  have s1: "s1 = s\<lparr>ud_objects := (ud_objects s)[a := (ud_objects s ! a)\<lparr>uo_requestTimes := up_timeouts p\<rparr>]\<rparr>"
    using c by (simp add: createVmRequest_Inr)
  let ?x = "(ud_objects s ! a)\<lparr>uo_requestTimes := up_timeouts p, uo_requestVmMsg := Some m\<rparr>"
  let ?y = "?x\<lparr>uo_inst := (uo_inst ?x)\<lparr>ci_times := (ci_times (uo_inst ?x))\<lparr>it_initTime := 0, it_arrival2Cloud := 0\<rparr>\<rparr>\<rparr>"
  have s2: "?s2 = s\<lparr>ud_objects := (ud_objects s)[a := ?x]\<rparr>" using a(1) by (simp add: s1 setRequestVmMsg_def)
  have s3: "?s3 = s\<lparr>ud_objects := (ud_objects s)[a := ?y]\<rparr>"
    using a(1) unfolding s2 by (simp add: set_arrival_def on_user_def set_user_def the_user_def inUnit_s_def)
  have f: "ud_initSim ?s2 = 0" "\<not> uo_fromTrace (ud_objects ?s2 ! a)" unfolding s2 using Cons.prems(1) a by simp_all
  have f3: "ud_initSim ?s3 = 0" "length (ud_objects ?s3) = length (ud_objects s)" "arrival_of ?s3 a = 0"
    "\<And>b. b < length (ud_objects s) \<Longrightarrow> uo_fromTrace (ud_objects ?s3 ! b) = uo_fromTrace (ud_objects s ! b)"
    unfolding s3 using Cons.prems(1) a by (simp_all add: arrival_of_def the_user_def nth_list_update)
  have r: "arrival_times p as 0 ij ?s3 = Some (Inr s')"
    using Cons.prems(2) c f assms(1) by (cases ij) (simp add: Let_def getNextTime_def)
  have ok: "\<forall>a\<in>set as. a < length (ud_objects ?s3) \<and> \<not> uo_fromTrace (ud_objects ?s3 ! a)"
    using Cons.prems(3) f3(2,4) by simp
  have rest: "\<forall>b\<in>set as. arrival_of s' b = 0" using Cons.IH [OF f3(1) r ok] .
  show ?case
  proof (cases "a \<in> set as")
    case False
    obtain objs where "s' = ?s3\<lparr>ud_objects := objs\<rparr>" "objs ! a = ud_objects ?s3 ! a"
      using arrival_times_requests [OF r] ok False by blast
    then have "arrival_of s' a = arrival_of ?s3 a" by (simp add: arrival_of_def the_user_def)
    with rest f3(3) show ?thesis by simp
  qed (use rest in simp)
qed simp

section \<open>Users that start between two seconds\<close>

definition no_traces :: "UserDriver \<Rightarrow> bool" where
  "no_traces s \<longleftrightarrow> (\<forall>x\<in>set (ud_objects s). \<not> uo_fromTrace x)"

lemma generated_invariant:
  assumes "for_each add_user_type ks s = Inr s'" "I s"
    and add: "\<And>u s. I s \<Longrightarrow> I (add_object (new_UserObject False u) s)"
    and grp: "\<And>gs s. I s \<Longrightarrow> I (s\<lparr>ud_groups := gs\<rparr>)"
  shows "I s'"
proof (rule for_each_invariant [OF assms(1), where I = I])
  show "I s" by (rule assms(2))
  fix x s s' assume I: "I s" and r: "add_user_type x s = Inr s'"
  obtain k user where x: "x = (k, user)" by (cases x)
  obtain s1 gs where s1: "for_each (add_instance user k) [0..<nat (us_numInstances user)] s = Inr s1"
      "s' = s1\<lparr>ud_groups := gs\<rparr>"
    using r by (auto simp: x add_user_type_def and_then_eq_Inr Let_def)
  have "I s1"
    by (rule for_each_invariant [OF s1(1), where I = I]) (use I add in \<open>auto simp: add_instance_def and_then_eq_Inr\<close>)
  then show "I s'" using s1(2) grp by simp
qed

lemma generated_no_traces:
  assumes "for_each add_user_type ks s = Inr s'" "no_traces s" "ud_index s = 0"
  shows "no_traces s' \<and> ud_index s' = 0"
  by (rule generated_invariant [OF assms(1), where I = "\<lambda>s. no_traces s \<and> ud_index s = 0"])
    (use assms(2,3) in \<open>auto simp: add_object_def new_UserObject_def no_traces_def Let_def\<close>)

lemma first_arrival:
  assumes "up_intervalBetweenUsers p" "arrival_times p (a # as) 0 ij s = Some (Inr s')" "a \<notin> set as"
    and "\<forall>x\<in>set (a # as). x < length (ud_objects s)" "no_traces s"
  shows "arrival_of s' a = inUnit_s (ud_initSim s)"
proof -
  obtain m s1 where c: "createVmRequest p a s = Inr (m, s1)" using assms(2) by (auto split: sum.splits)
  let ?s2 = "setRequestVmMsg a (Some m) s1"
  have a: "a < length (ud_objects s)" using assms(4) by simp
  have s2: "?s2 = s\<lparr>ud_objects := (ud_objects s)[a := (ud_objects s ! a)\<lparr>uo_requestTimes := up_timeouts p, uo_requestVmMsg := Some m\<rparr>]\<rparr>"
    using c a by (auto simp: createVmRequest_Inr setRequestVmMsg_def)
  have "\<not> uo_fromTrace (ud_objects s ! a)" using assms(5) a by (simp add: no_traces_def)
  then have f: "\<not> uo_fromTrace (ud_objects ?s2 ! a)" "ud_initSim ?s2 = ud_initSim s" "length (ud_objects ?s2) = length (ud_objects s)"
    unfolding s2 using a by simp_all
  let ?s3 = "set_arrival (ud_initSim s) a ?s2"
  obtain ij' where r: "arrival_times p as (ud_initSim s) ij' ?s3 = Some (Inr s')"
    using assms(1,2) c f(1,2) by (cases ij) (simp add: Let_def getNextTime_def)
  have l: "length (ud_objects ?s3) = length (ud_objects s)" using f(3) by (simp add: set_arrival_def on_user_def set_user_def)
  obtain objs where "s' = ?s3\<lparr>ud_objects := objs\<rparr>" "objs ! a = ud_objects ?s3 ! a"
    using arrival_times_requests [OF r] assms(3,4) l by auto
  then have "arrival_of s' a = arrival_of ?s3 a" by (simp add: arrival_of_def the_user_def)
  also have "\<dots> = inUnit_s (ud_initSim s)"
    using a f(3) by (simp add: set_arrival_def on_user_def set_user_def arrival_of_def the_user_def)
  finally show ?thesis .
qed

lemma inUnit_fraction:
  assumes "0 \<le> t" "t \<notin> \<int>"
  shows "of_int (inUnit_s t) < t"
  using assms by (simp add: inUnit_s_def) (metis Ints_of_int of_int_floor_le order_le_less)

text \<open>Arrival times are cut to whole seconds and the start is not: with an interval between the users and a
  start within a second, the first user has arrived before the generator starts, and the simulation stops.
\<close>

theorem fractional_start_stops:
  assumes "generateUsersBeforeSimulationStarts p now users (ud_start m path g h rate) = Some (Inr s)"
    and "length users \<le> 2 ^ 32" "up_intervalBetweenUsers p" "ud_instances s \<noteq> []"
    and "0 \<le> now + up_startDelay p" "now + up_startDelay p \<notin> \<int>"
  shows "handleWaitToExecuteMessage (now + up_startDelay p) s =
    Inl (RuntimeError ''Vector of user instances is not sorted by arrival time'')"
proof -
  let ?t = "now + up_startDelay p"
  obtain s0 where s0: "for_each add_user_type (enumerate 0 users) (ud_start m path g h rate) = Inr s0"
      and gen: "generateUserArrivalTimes p now s0 = Some (Inr s)"
    using assms(1) by (auto simp: generateUsersBeforeSimulationStarts_def split: sum.splits)
  have U: "ud_instances s0 = [0..<length (ud_objects s0)]" using users_generated_lemma [OF s0 assms(2)] by blast
  have nt: "no_traces s0 \<and> ud_index s0 = 0" by (rule generated_no_traces [OF s0]) (simp_all add: no_traces_def ud_start_def)
  define perm where "perm = (if up_shuffleUsers p then generateShuffledUsers p (ud_instances s0) else ud_instances s0)"
  let ?s1 = "s0\<lparr>ud_initSim := ?t, ud_instances := perm\<rparr>"
  have ms: "mset perm = mset [0..<length (ud_objects s0)]" using U by (simp add: perm_def shuffle_mset)
  have r: "arrival_times p perm 0 (0, 0) ?s1 = Some (Inr s)"
    using gen by (cases "up_shuffleUsers p") (simp_all add: generateUserArrivalTimes_def perm_def Let_def)
  have set: "set perm = {0..<length (ud_objects s0)}" "distinct perm"
    using mset_eq_setD [OF ms] mset_eq_imp_distinct_iff [OF ms] by simp_all
  obtain objs where o: "s = ?s1\<lparr>ud_objects := objs\<rparr>"
    using arrival_times_requests [OF r] set(1) by auto
  then have "perm \<noteq> []" using assms(4) by auto
  then obtain a as where as: "perm = a # as" by (cases "perm") auto
  have "arrival_of s a = inUnit_s (ud_initSim ?s1)"
  proof (rule first_arrival [OF assms(3), where as = as and ij = "(0, 0)"])
    show "arrival_times p (a # as) 0 (0, 0) ?s1 = Some (Inr s)" using r as by simp
    show "a \<notin> set as" "\<forall>x\<in>set (a # as). x < length (ud_objects ?s1)" using set as by auto
    show "no_traces ?s1" using nt by (simp add: no_traces_def)
  qed
  then have lt: "of_int (arrival_of s a) < ?t" using inUnit_fraction [OF assms(5,6)] by simp
  let ?us = "sort_key (arrival_of s) (ud_instances s)"
  have "a \<in> set (ud_instances s)" using o as by simp
  then have "a \<in> set ?us" by (simp only: set_sort)
  then obtain i where i: "i < length ?us" "?us ! i = a" by (metis in_set_conv_nth)
  then have "arrival_of s (?us ! 0) \<le> arrival_of s a"
    using sorted_nth_mono [of "map (arrival_of s) ?us" 0 i] by (cases "ud_instances s = []") (simp_all add: nth_map)
  then have "of_int (arrival_of s (?us ! 0)) < ?t" using lt by linarith
  moreover have "arrival_of (s\<lparr>ud_instances := ?us\<rparr>) = arrival_of s" by (simp add: fun_eq_iff arrival_of_def the_user_def)
  moreover have "ud_index s = 0" using nt o by simp
  ultimately show ?thesis using assms(4)
    by (simp add: handleWaitToExecuteMessage_def scheduleNextReqGenMessage_def Let_def)
qed

section \<open>Traces\<close>

definition in_window :: "UserParams \<Rightarrow> Job \<Rightarrow> bool" where
  "in_window p job \<longleftrightarrow> 0 < jb_runtime job \<and> 0 < jb_size job \<and> of_int (up_traceStartTime p) \<le> jb_submit job \<and>
     jb_submit job \<le> of_int (up_traceEndTime p)"

lemma add_job_cases:
  assumes "jb_size job \<noteq> -1 \<longleftrightarrow> 0 < jb_size job"
  shows "\<not> in_window p job \<Longrightarrow> add_job p app k job (n, s) = Inr (n, s)"
    and "in_window p job \<Longrightarrow> \<exists>e. add_job p app k job (n, s) = Inl e"
proof -
  show "\<not> in_window p job \<Longrightarrow> add_job p app k job (n, s) = Inr (n, s)"
    using assms by (auto simp: add_job_def in_window_def)
  assume w: "in_window p job"
  show "\<exists>e. add_job p app k job (n, s) = Inl e"
  proof (cases "new_CloudUserInstanceTrace (of_nat n) (int n) k app")
    case (Inl e)
    then show ?thesis using w by (simp add: add_job_def in_window_def)
  next
    case (Inr u)
    then have "getTotalVMs u = 0"
      by (auto simp: new_CloudUserInstanceTrace_def Let_def and_then_eq_Inr getTotalVMs_def flattened_def empty_gv_def
          UserInstance.defs CloudUserInstance.defs)
    then have "createVmRequest p (length (ud_objects s)) (s\<lparr>ud_objects := ud_objects s @ [new_UserObject True u]\<rparr>) =
        Inl (RuntimeError ''[UserGenerator] Collection or User-ID malformed!'')"
      by (simp add: createVmRequest_def the_user_def new_UserObject_def Let_def)
    then show ?thesis using w Inr by (simp add: add_job_def in_window_def Let_def)
  qed
qed

text \<open>A user made from a job of a trace has no machines, so its request cannot be made: a trace with one
  job in the window stops the simulation, and a trace with none changes nothing.
\<close>

theorem trace_stops_simulation:
  "if \<exists>job\<in>set file. in_window p job then \<exists>e. parseTraceFile p app file s = Inl e
   else parseTraceFile p app file s = Inr s"
proof -
  let ?add = "add_job p app (int (length (sane_jobs file)))"
  have sane: "jb_size job \<noteq> -1 \<longleftrightarrow> 0 < jb_size job" if "job \<in> set (sane_jobs file)" for job
    using that by (auto simp: sane_jobs_def)
  have "if \<exists>job\<in>set jobs. in_window p job then \<exists>e. for_each ?add jobs (0, s) = Inl e else for_each ?add jobs (0, s) = Inr (0, s)"
    if "set jobs \<subseteq> set (sane_jobs file)" for jobs
    using that
  proof (induction jobs)
    case (Cons job jobs)
    then have "job \<in> set (sane_jobs file)" by simp
    note J = add_job_cases [OF sane [OF this], of p app "int (length (sane_jobs file))" 0 s]
    show ?case
    proof (cases "in_window p job")
      case True
      then obtain e where "?add job (0, s) = Inl e" using J(2) by blast
      with True show ?thesis by simp
    next
      case False
      then show ?thesis using J(1) Cons by simp
    qed
  qed simp
  from this [OF subset_refl] have r: "if \<exists>job\<in>set (sane_jobs file). in_window p job
      then \<exists>e. for_each ?add (sane_jobs file) (0, s) = Inl e else for_each ?add (sane_jobs file) (0, s) = Inr (0, s)" .
  have w: "(\<exists>job\<in>set (sane_jobs file). in_window p job) \<longleftrightarrow> (\<exists>job\<in>set file. in_window p job)"
    by (auto simp: sane_jobs_def in_window_def)
  show ?thesis
  proof (cases "\<exists>job\<in>set file. in_window p job")
    case True
    with r w obtain e where "for_each ?add (sane_jobs file) (0, s) = Inl e" by auto
    with True show ?thesis by (simp add: parseTraceFile_def Let_def)
  next
    case False
    with r w have "for_each ?add (sane_jobs file) (0, s) = Inr (0, s)" by (simp del: Ball_def)
    with False show ?thesis by (simp add: parseTraceFile_def Let_def)
  qed
qed

section \<open>Two concrete users\<close>

definition sample_params :: "bool \<Rightarrow> UserParams" where
  "sample_params interval = \<lparr>up_startDelay = 0, up_intervalBetweenUsers = interval, up_shuffleUsers = True, up_activeCycles = False,
     up_numberOfCycles = 2, up_durationOfCycle = 100, up_isolateCycle = True, up_traceStartTime = 0, up_traceEndTime = 1000,
     up_userTraceMaxVms = 10, up_timeouts = \<lparr>maxStartTime = 5, rentTime = 5, maxSubTime = 5, maxSubscriptionTime = 7200\<rparr>,
     up_distribution = (\<lambda>i. 7 * of_nat i), up_cycleDistribution = (\<lambda>i. int i), up_rand = (\<lambda>i. 3 * i + 1)\<rparr>"

definition two_users :: "CloudUserPriority list" where
  "two_users = [sample_user\<lparr>us_numInstances := 2\<rparr>]"

definition fresh_driver :: UserDriver where
  "fresh_driver = ud_start 3 ''users'' 1 2 (1 / 2)"

lemma two_users_created:
  "is_ok (for_each add_user_type (enumerate 0 two_users) fresh_driver)"
  by code_simp

theorem arrival_within_cycles_witness:
  "\<exists>t i' j'. getNextTime (sample_params False) 0 0 (0, 0) = Some (t, i', j') \<and> 0 \<le> t \<and> t \<le> 200"
proof -
  have "\<exists>k\<ge>0. in_cycle (sample_params False) c (up_distribution (sample_params False) k)"
    if "0 \<le> c" "c < up_numberOfCycles (sample_params False)" for c
    using that by (intro exI [of _ 0]) (simp add: in_cycle_def sample_params_def)
  moreover have "\<exists>k\<ge>0. 1 \<le> up_cycleDistribution (sample_params False) k \<and>
      up_cycleDistribution (sample_params False) k \<le> up_numberOfCycles (sample_params False)"
    by (intro exI [of _ 1]) (simp add: sample_params_def)
  ultimately show ?thesis
    using arrival_within_cycles [of "sample_params False" 0 0 0 0] by (simp add: sample_params_def) blast
qed

lemma two_users_size: "length two_users \<le> 2 ^ 32" "sum_list (map (\<lambda>u. nat (us_numInstances u)) two_users) = 2"
  by (simp_all add: two_users_def sample_user_def insertVirtualMachine_def new_CloudUserPriority_def)

theorem users_generated_witness:
  "\<exists>s. for_each add_user_type (enumerate 0 two_users) fresh_driver = Inr s \<and> ud_instances s = [0, 1]"
proof -
  obtain s where s: "for_each add_user_type (enumerate 0 two_users) fresh_driver = Inr s"
    using two_users_created by (auto simp: is_ok_iff)
  from users_generated [OF s [unfolded fresh_driver_def] two_users_size(1)] two_users_size(2) s show ?thesis
    by (intro exI [of _ s]) (simp add: numeral_2_eq_2)
qed

theorem requests_prepared_witness:
  "\<exists>s. generateUsersBeforeSimulationStarts (sample_params False) 0 two_users fresh_driver = Some (Inr s) \<and>
     user_ready (sample_params False) s 1 \<and> mset (ud_instances s) = {#0, 1#}"
proof -
  have "case generateUsersBeforeSimulationStarts (sample_params False) 0 two_users fresh_driver of
      Some (Inr s) \<Rightarrow> length (ud_objects s) = 2 | _ \<Rightarrow> False" by code_simp
  then obtain s where s: "generateUsersBeforeSimulationStarts (sample_params False) 0 two_users fresh_driver = Some (Inr s)"
      "length (ud_objects s) = 2" by (auto split: option.splits sum.splits)
  from requests_prepared [OF s(1) [unfolded fresh_driver_def] two_users_size(1)] s show ?thesis
    by (intro exI [of _ s]) (simp add: numeral_2_eq_2)
qed

definition half_second_params :: UserParams where
  "half_second_params = (sample_params True)\<lparr>up_startDelay := 1 / 2\<rparr>"

theorem fractional_start_stops_witness:
  "\<exists>s. generateUsersBeforeSimulationStarts half_second_params 0 two_users fresh_driver = Some (Inr s) \<and>
     handleWaitToExecuteMessage (1 / 2) s = Inl (RuntimeError ''Vector of user instances is not sorted by arrival time'')"
proof -
  have "case generateUsersBeforeSimulationStarts half_second_params 0 two_users fresh_driver of
      Some (Inr s) \<Rightarrow> length (ud_instances s) = 2 | _ \<Rightarrow> False" by code_simp
  then obtain s where s: "generateUsersBeforeSimulationStarts half_second_params 0 two_users fresh_driver = Some (Inr s)"
      "length (ud_instances s) = 2" by (auto split: option.splits sum.splits)
  have d: "0 + up_startDelay half_second_params = 1 / 2" "up_intervalBetweenUsers half_second_params"
    by (simp_all add: half_second_params_def sample_params_def)
  have n: "(1 / 2 :: rat) \<notin> \<int>"
  proof
    assume "(1 / 2 :: rat) \<in> \<int>"
    then obtain z :: int where "(1 / 2 :: rat) = of_int z" by (auto elim: Ints_cases)
    then have "(of_int (2 * z) :: rat) = of_int 1" by simp
    then have "2 * z = 1" unfolding of_int_eq_iff .
    then show False by presburger
  qed
  have "ud_instances s \<noteq> []" using s(2) by auto
  from fractional_start_stops [OF s(1) [unfolded fresh_driver_def] two_users_size(1) d(2) this] n s(1) show ?thesis
    unfolding d(1) by (intro exI [of _ s]) simp
qed

theorem no_interval_without_delay_witness:
  "\<exists>s0 s. for_each add_user_type (enumerate 0 two_users) fresh_driver = Inr s0 \<and>
     arrival_times (sample_params True) [0, 1] 0 (0, 0) s0 = Some (Inr s) \<and> arrival_of s 1 = 0"
proof -
  have "case for_each add_user_type (enumerate 0 two_users) fresh_driver of Inr s0 \<Rightarrow>
      length (ud_objects s0) = 2 \<and> ud_initSim s0 = 0 \<and> \<not> uo_fromTrace (ud_objects s0 ! 0) \<and> \<not> uo_fromTrace (ud_objects s0 ! 1) \<and>
      (case arrival_times (sample_params True) [0, 1] 0 (0, 0) s0 of Some r \<Rightarrow> is_ok r | None \<Rightarrow> False) | _ \<Rightarrow> False"
    by code_simp
  then obtain s0 s where s: "for_each add_user_type (enumerate 0 two_users) fresh_driver = Inr s0"
      "arrival_times (sample_params True) [0, 1] 0 (0, 0) s0 = Some (Inr s)" "length (ud_objects s0) = 2" "ud_initSim s0 = 0"
      "\<not> uo_fromTrace (ud_objects s0 ! 0)" "\<not> uo_fromTrace (ud_objects s0 ! 1)"
    by (auto simp del: arrival_times.simps simp: is_ok_iff split: option.splits sum.splits)
  have "up_intervalBetweenUsers (sample_params True)" by (simp add: sample_params_def)
  from no_interval_without_delay [OF this s(4,2)] s show ?thesis by (intro exI [of _ s0] exI [of _ s]) simp
qed

end
