(* ===== verification/UserRequests.thy ===== *)
theory UserRequests
  imports UserGeneration
begin

text \<open>
  What the generator promises while the simulation runs: the answer to one user changes no other user, the
  requests of the users leave in the order of their arrival, each at its time and once, whatever answers come
  in between; and what an accepted request, an offer and the end of an application do to a user.
\<close>

section \<open>An answer changes one user\<close>

fun is_vm_request :: "dc_body \<Rightarrow> bool" where
  "is_vm_request (UserVm rq) \<longleftrightarrow> uv_operation rq = SM_VM_Req_op"
| "is_vm_request _ \<longleftrightarrow> False"

definition requests_sent :: "UserDriver \<Rightarrow> dc_body list" where
  "requests_sent s = filter is_vm_request (map (env_body \<circ> fst) (sent (ud_core s)))"

text \<open>Everything but user \<open>a\<close>, the statistics and messages that are not machine requests.\<close>

definition only_user :: "nat \<Rightarrow> UserDriver \<Rightarrow> UserDriver \<Rightarrow> bool" where
  "only_user a s s' \<longleftrightarrow> length (ud_objects s') = length (ud_objects s) \<and> (\<forall>b. b \<noteq> a \<longrightarrow> ud_objects s' ! b = ud_objects s ! b) \<and>
     arrival_of s' a = arrival_of s a \<and> ud_instances s' = ud_instances s \<and> ud_index s' = ud_index s \<and>
     ud_timers s' = ud_timers s \<and> ud_byId s' = ud_byId s \<and> queue (ud_core s') = queue (ud_core s) \<and>
     requests_sent s' = requests_sent s"

lemma only_user_refl [simp]: "only_user a s s"
  by (simp add: only_user_def)

lemma only_user_trans: "only_user a s t \<Longrightarrow> only_user a t u \<Longrightarrow> only_user a s u"
  by (simp add: only_user_def)

lemma only_user_emit [simp]: "only_user a s (ud_emit sig vm b s')  \<longleftrightarrow> only_user a s s'"
  by (simp add: only_user_def ud_emit_def arrival_of_def the_user_def requests_sent_def)

lemma only_user_set:
  assumes "it_arrival2Cloud (ci_times u) = arrival_of s a"
  shows "only_user a s (set_user a u s)"
  using assms by (cases "a < length (ud_objects s)") (simp_all add: only_user_def set_user_def arrival_of_def the_user_def requests_sent_def
      not_less list_update_beyond)

definition keeps_arrival :: "(CloudUserInstance \<Rightarrow> CloudUserInstance) \<Rightarrow> bool" where
  "keeps_arrival f \<longleftrightarrow> (\<forall>u. it_arrival2Cloud (ci_times (f u)) = it_arrival2Cloud (ci_times u))"

lemma only_user_on: "keeps_arrival f \<Longrightarrow> only_user a s (on_user a f s)"
  unfolding on_user_def by (rule only_user_set) (simp add: keeps_arrival_def arrival_of_def)

lemma user_ops_keep_arrival [simp]:
  "keeps_arrival (updateAllVmInstances now st)" "keeps_arrival (startExecution now)" "keeps_arrival (startSubscription now)"
  "keeps_arrival (endSubscription now)" "keeps_arrival (\<lambda>u. u\<lparr>ci_timeout_t4 := True\<rparr>)"
  "keeps_arrival (\<lambda>u. startExecution now u\<lparr>ci_timeout_t4 := True\<rparr>)"
  by (simp_all add: keeps_arrival_def updateAllVmInstances_def startExecution_def startSubscription_def endSubscription_def
      finish_if_done_def user_finish_def Let_def)

lemma only_user_status:
  assumes "try_user a (updateVmInstanceStatus now vm st) s = Inr s'"
  shows "only_user a s s'"
  using assms by (auto simp: try_user_def and_then_eq_Inr updateVmInstanceStatus_def Let_def finish_if_done_def user_finish_def
      arrival_of_def intro!: only_user_set split: option.splits if_splits)

lemma only_user_send:
  assumes "ud_send m s = Inr s'" "\<not> is_vm_request (env_body m)"
  shows "only_user a s s'"
  using assms
  by (auto simp: ud_send_def and_then_eq_Inr sendRequest_def send_via_def updateMessageTrace_def addModuleToTrace_def
      addNodeToTrace_def only_user_def arrival_of_def the_user_def requests_sent_def Let_def split: if_splits)

lemma only_user_extension: "count_extension vm s = Inr s' \<Longrightarrow> only_user a s s'"
  by (auto simp: count_extension_def only_user_def arrival_of_def the_user_def requests_sent_def split: option.splits)

lemma only_user_for_each:
  assumes "for_each f xs s = Inr s'" "\<And>x s s'. x \<in> set xs \<Longrightarrow> f x s = Inr s' \<Longrightarrow> only_user a s s'"
  shows "only_user a s s'"
  by (rule for_each_invariant [OF assms(1), where I = "only_user a s"]) (use assms(2) only_user_trans in \<open>auto\<close>)

lemma only_user_deployApps:
  assumes "deployApps now rq a s = Inr s'"
  shows "only_user a s s'"
proof -
  obtain b s1 where s1: "for_each (finish_machine now a) (uv_vm rq) s = Inr s1"
      "for_each (send_app (uv_returnTopic rq)) (builder_finish (uv_userId rq) b) s1 = Inr s'"
    using assms by (auto simp: deployApps_def and_then_eq_Inr)
  have "only_user a s s1" by (rule only_user_for_each [OF s1(1)]) (auto simp: finish_machine_def intro: only_user_status)
  moreover have "only_user a s1 s'"
    by (rule only_user_for_each [OF s1(2)])
      (auto simp: send_app_def with_body_def SIMCAN_Message.extend_def intro: only_user_send)
  ultimately show ?thesis by (rule only_user_trans)
qed


lemma only_user_vmRequest:
  assumes "handleResponseVmRequest now m rq a s = Inr s'"
  shows "only_user a s s'"
proof (cases "uv_result rq = SM_VM_Res_Accept")
  case True
  let ?s = "on_user a (startExecution now) (ud_emit ExecuteSignal [] a (ud_emit ResponseSignal [] a
      (on_user a (updateAllVmInstances now vmAccepted) s)))"
  have "only_user a s ?s" by (rule only_user_trans [OF _ only_user_on]) (simp_all add: only_user_on)
  moreover have "only_user a ?s s'"
    by (rule only_user_deployApps) (use assms True in \<open>simp add: handleResponseVmRequest_def Let_def\<close>)
  ultimately show ?thesis by (rule only_user_trans)
next
  case False
  let ?s = "on_user a (startSubscription now) (ud_emit SubscribeSignal [] a (ud_emit ResponseSignal [] a
      (on_user a (updateAllVmInstances now vmIdle) s)))"
  have "only_user a s ?s" by (rule only_user_trans [OF _ only_user_on]) (simp_all add: only_user_on)
  moreover have "ud_send (m\<lparr>env_body := UserVm (rq\<lparr>uv_isResponse := False, uv_operation := SM_VM_Sub,
      uv_destinationTopic := ''CloudProvider''\<rparr>)\<rparr>) ?s = Inr s'"
    using assms False by (simp add: handleResponseVmRequest_def Let_def)
  then have "only_user a ?s s'" by (rule only_user_send) (simp add: SM_VM_Sub_def SM_VM_Req_op_def)
  ultimately show ?thesis by (rule only_user_trans)
qed

lemma only_user_subscription:
  assumes "handleResponseSubscription now rq a s = Inr s'"
  shows "only_user a s s'"
proof (cases "uv_result rq = SM_APP_Sub_Accept")
  case True
  let ?s1 = "on_user a (updateAllVmInstances now vmAccepted) s"
  obtain s2 where s2: "(if uv_vmId rq \<noteq> [] then count_extension (uv_vmId rq) ?s1 else Inr ?s1) = Inr s2"
      and d: "deployApps now rq a (on_user a (startExecution now) (ud_emit ExecuteSignal (uv_vmId rq) a
        (ud_emit NotifySignal (uv_vmId rq) a (on_user a (endSubscription now) s2)))) = Inr s'"
    using assms True by (auto simp: handleResponseSubscription_def Let_def and_then_eq_Inr)
  let ?s3 = "on_user a (endSubscription now) s2"
  let ?s4 = "ud_emit ExecuteSignal (uv_vmId rq) a (ud_emit NotifySignal (uv_vmId rq) a ?s3)"
  have 1: "only_user a s ?s1" by (rule only_user_on) simp
  have 2: "only_user a ?s1 s2" using s2 by (simp add: only_user_extension split: if_splits)
  have 3: "only_user a s2 ?s4" by (simp add: only_user_on)
  have 4: "only_user a ?s4 (on_user a (startExecution now) ?s4)" by (rule only_user_on) simp
  note only_user_trans [OF 1 2, THEN only_user_trans, OF 3, THEN only_user_trans, OF 4]
  from only_user_trans [OF this only_user_deployApps [OF d]] show ?thesis .
next
  case False
  let ?s1 = "on_user a (updateAllVmInstances now vmFinished) s" and ?s2 = "on_user a (endSubscription now)
    (on_user a (updateAllVmInstances now vmFinished) s)"
  have 1: "only_user a s ?s1" "only_user a ?s1 ?s2" "only_user a ?s2 (on_user a (\<lambda>u. u\<lparr>ci_timeout_t4 := True\<rparr>) ?s2)"
    by (rule only_user_on; simp)+
  note only_user_trans [OF 1(1) 1(2), THEN only_user_trans, OF 1(3)]
  moreover have "s' = ud_emit TimeoutSignal (uv_vmId rq) a (on_user a (\<lambda>u. u\<lparr>ci_timeout_t4 := True\<rparr>) ?s2)"
    using assms False by (simp add: handleResponseSubscription_def Let_def)
  ultimately show ?thesis by simp
qed

lemma only_user_appRequest:
  "handleResponseAppRequest now ap a s = Inr s' \<Longrightarrow> only_user a s s'"
  by (auto simp: handleResponseAppRequest_def and_then_eq_Inr intro: only_user_status split: if_splits)

lemma only_user_extendRequest:
  assumes "handleVmExtendRequest (\<lambda>s. (decidesToRescueVm dice s, s)) now m offer a s = Inr s'"
  shows "only_user a s s'"
proof -
  let ?s1 = "ud_emit FailSignal (ve_vmId offer) a s"
  have answer: "only_user a t s'" if "ud_send (m\<lparr>env_body := VmExt ve\<rparr>) t = Inr s'" for ve t
    by (rule only_user_send [OF that]) simp
  have one: "only_user a s ?s1" by simp
  obtain t ve where u: "try_user a (updateVmInstanceStatus now (ve_vmId offer) vmFinished) ?s1 = Inr t \<or>
        count_extension (ve_vmId offer) ?s1 = Inr t" and send: "ud_send (m\<lparr>env_body := VmExt ve\<rparr>) t = Inr s'"
    using assms by (auto simp: handleVmExtendRequest_def Let_def and_then_eq_Inr split: if_splits)
  from u have "only_user a ?s1 t" using only_user_status only_user_extension by blast
  from only_user_trans [OF only_user_trans [OF one this] answer [OF send]] show ?thesis .
qed

lemma only_user_request_msg: "only_user a s (setRequestVmMsg a m s)"
  by (cases "a < length (ud_objects s)")
    (simp_all add: setRequestVmMsg_def only_user_def arrival_of_def the_user_def requests_sent_def not_less list_update_beyond)

lemma only_user_counts [simp]:
  "only_user a s (s'\<lparr>ud_nFinished := k\<rparr>) \<longleftrightarrow> only_user a s s'" "only_user a s (s'\<lparr>ud_ended := b\<rparr>) \<longleftrightarrow> only_user a s s'"
  by (simp_all add: only_user_def arrival_of_def the_user_def requests_sent_def)

lemma only_user_count_finished: "only_user a s (count_finished a s)"
  using only_user_trans [OF _ only_user_request_msg, of a s "s\<lparr>ud_nFinished := ud_nFinished s + 1\<rparr>"]
  by (simp add: count_finished_def cancelAndDeleteMessages_def Let_def)

text \<open>The user a message is about.\<close>

fun body_user :: "dc_body \<Rightarrow> string" where
  "body_user (UserVm rq) = uv_userId rq"
| "body_user (UserApp ap) = ua_userId ap"
| "body_user (VmExt ve) = ve_userId ve"
| "body_user (EndOfParty _ _) = []"
| "body_user (OtherBody _ _ _) = []"

lemma response_only_user:
  assumes "ud_processResponseMessage (newUserModelInstance dice) now m s = Inr s'"
  shows "\<exists>a. ud_byId s (body_user (env_body m)) = Some a \<and> only_user a s s'"
proof -
  have c: "only_user a s (count_finished a t)" if "only_user a s t" for a t
    using that only_user_count_finished only_user_trans by blast
  show ?thesis
    using assms only_user_vmRequest only_user_subscription only_user_appRequest
    by (fastforce simp: ud_processResponseMessage_def newUserModelInstance_def find_user_def Let_def and_then_eq_Inr
        intro: c split: if_splits dc_body.splits option.splits)
qed


section \<open>The requests leave in the order of arrival\<close>

text \<open>
  The generator at work: its timer fires, or a message about a user whose request has left arrives, at any
  time and with any result that the user model handles.  Nothing happens any more once the simulation
  has been ended.
\<close>

inductive gen_step :: "UserDriver \<Rightarrow> UserDriver \<Rightarrow> bool" where
  fires: "gen_step s s'" if "\<not> ud_ended s" "ud_timers s = (t, name) # ts"
    "ud_handleMessage (newUserModelInstance dice) t (Timer name) (s\<lparr>ud_timers := ts\<rparr>) = Inr s'"
| answered: "gen_step s s'" if "\<not> ud_ended s" "ud_byId s (body_user (env_body m)) = Some a" "a \<in> set (take (ud_index s) (ud_instances s))"
    "ud_handleMessage (newUserModelInstance dice) now (Arrives m) s = Inr s'"

inductive_cases gen_stepE: "gen_step s s'"

definition request_body :: "UserParams \<Rightarrow> UserDriver \<Rightarrow> nat \<Rightarrow> dc_body" where
  "request_body p s a = UserVm ((vm_request_of p (the_user a s))\<lparr>uv_destinationTopic := ''CloudProvider''\<rparr>)"

text \<open>\<open>k\<close> requests have left; the users behind them are as they were at the start \<open>s0\<close>.\<close>

definition on_schedule :: "UserParams \<Rightarrow> UserDriver \<Rightarrow> UserDriver \<Rightarrow> bool" where
  "on_schedule p s0 s \<longleftrightarrow> (let us = ud_instances s0; k = ud_index s in
     ud_instances s = us \<and> k \<le> length us \<and> queue (ud_core s) = [] \<and> length (ud_objects s) = length (ud_objects s0) \<and>
     requests_sent s = map (request_body p s0) (take k us) \<and>
     ud_timers s = (if k < length us then [(of_int (arrival_of s0 (us ! k)), USER_REQ_GEN_MSG)] else []) \<and>
     (\<forall>a. a \<notin> set (take k us) \<longrightarrow> ud_objects s ! a = ud_objects s0 ! a))"

lemma arrives_only_user:
  assumes "ud_handleMessage (newUserModelInstance dice) now (Arrives m) s = Inr s'" "queue (ud_core s) = []"
  shows "\<exists>a. ud_byId s (body_user (env_body m)) = Some a \<and> only_user a s s'"
proof (cases "body_isResponse (env_body m)")
  case True
  then show ?thesis using assms response_only_user by simp
next
  case False
  obtain m' c where t: "updateMessageTrace (ud_getOutGate m s) m (ud_core s) = Inr (m', c)"
      and d: "and_then (drain (ud_processRequestMessage (newUserModelInstance dice) (inUnit_s now)) (queue c @ [m'])
        (s\<lparr>ud_core := c\<lparr>queue := []\<rparr>\<rparr>)) (\<lambda>(q, s'). Inr (s'\<lparr>ud_core := (ud_core s')\<lparr>queue := q\<rparr>\<rparr>)) = Inr s'"
    using assms(1) False by (auto simp: and_then_eq_Inr)
  have c: "queue c = []" "sent c = sent (ud_core s)" "env_body m' = env_body m"
    using t assms(2) by (auto simp: updateMessageTrace_def addModuleToTrace_def and_then_eq_Inr Let_def split: if_splits prod.splits)
  let ?s = "s\<lparr>ud_core := c\<lparr>queue := []\<rparr>\<rparr>"
  have s: "only_user a s ?s" for a
    using assms(2) c by (simp add: only_user_def arrival_of_def the_user_def requests_sent_def)
  obtain s1 b where p: "ud_processRequestMessage (newUserModelInstance dice) (inUnit_s now) m' ?s = Inr (s1, b)"
      and s': "s' = s1\<lparr>ud_core := (ud_core s1)\<lparr>queue := []\<rparr>\<rparr>"
    using d c(1) by (auto simp: drain_single and_then_eq_Inr split: if_splits)
  then obtain offer a where o: "env_body m = VmExt offer" "ud_byId s (ve_userId offer) = Some a"
      "handleVmExtendRequest (\<lambda>s. (decidesToRescueVm dice s, s)) (inUnit_s now) m' offer a ?s = Inr s1"
    using c(3) by (auto simp: ud_processRequestMessage_def newUserModelInstance_def find_user_def and_then_eq_Inr
        split: dc_body.splits option.splits)
  have "only_user a s s1" using only_user_trans [OF s only_user_extendRequest [OF o(3)]] .
  then have "only_user a s s'" using assms(2) by (simp add: s' only_user_def arrival_of_def the_user_def requests_sent_def)
  with o(1,2) show ?thesis by simp
qed

lemma answered_on_schedule:
  assumes "on_schedule p s0 s" "only_user a s s'" "a \<in> set (take (ud_index s) (ud_instances s))"
  shows "on_schedule p s0 s'"
  using assms by (auto simp: on_schedule_def only_user_def Let_def)

lemma send_request:
  assumes "uo_requestVmMsg (ud_objects s ! a) = Some (with_body (UserVm rq))" "uv_operation rq = SM_VM_Req_op"
  shows "\<exists>c. ud_send (to_cloud_provider (with_body (UserVm rq))) s = Inr (s\<lparr>ud_core := c\<rparr>) \<and> queue c = queue (ud_core s) \<and>
    requests_sent (s\<lparr>ud_core := c\<rparr>) = requests_sent s @ [UserVm (rq\<lparr>uv_destinationTopic := ''CloudProvider''\<rparr>)]"
  using assms(2)
  by (auto simp: ud_send_def to_cloud_provider_def with_body_def SIMCAN_Message.extend_def new_SIMCAN_Message_def sendRequest_def
      isTraceEmpty_def addNodeToTrace_def updateMessageTrace_def addModuleToTrace_def send_via_def requests_sent_def Let_def)


lemma sort_key_eq_Nil [simp]: "sort_key f xs = [] \<longleftrightarrow> xs = []"
  by (metis length_0_conv length_sort)

lemma fires_on_schedule:
  assumes "on_schedule p s0 s" "ud_index s < length (ud_instances s0)" "sorted (map (arrival_of s0) (ud_instances s0))"
    and "\<forall>a\<in>set (ud_instances s0). user_ready p s0 a" "distinct (ud_instances s0)"
  shows "\<exists>s'. ud_processSelfMessage (of_int (arrival_of s0 (ud_instances s0 ! ud_index s))) USER_REQ_GEN_MSG
      (s\<lparr>ud_timers := []\<rparr>) = Inr s' \<and> on_schedule p s0 s' \<and> ud_index s' = Suc (ud_index s)"
proof -
  let ?us = "ud_instances s0" and ?k = "ud_index s"
  let ?a = "?us ! ?k" and ?s = "s\<lparr>ud_timers := []\<rparr>"
  have S: "ud_instances s = ?us" "queue (ud_core s) = []" "length (ud_objects s) = length (ud_objects s0)"
    "requests_sent s = map (request_body p s0) (take ?k ?us)" "\<And>a. a \<notin> set (take ?k ?us) \<Longrightarrow> ud_objects s ! a = ud_objects s0 ! a"
    using assms(1) by (simp_all add: on_schedule_def Let_def)
  have later: "?us ! j \<notin> set (take ?k ?us)" if "?k \<le> j" "j < length ?us" for j
    using assms(5) that by (auto simp: in_set_conv_nth nth_eq_iff_index_eq)
  have obj: "ud_objects s ! (?us ! j) = ud_objects s0 ! (?us ! j)" if "?k \<le> j" "j < length ?us" for j
    using S(5) later [OF that] .
  have "user_ready p s0 ?a" using assms(2,4) by simp
  then have rdy: "uo_requestVmMsg (ud_objects ?s ! ?a) = Some (with_body (UserVm (vm_request_of p (the_user ?a s0))))"
    using obj [of ?k] assms(2) by (simp add: user_ready_def)
  have op: "uv_operation (vm_request_of p (the_user ?a s0)) = SM_VM_Req_op" by (simp add: vm_request_of_def)
  obtain c where c: "ud_send (to_cloud_provider (with_body (UserVm (vm_request_of p (the_user ?a s0))))) ?s = Inr (?s\<lparr>ud_core := c\<rparr>)"
      "queue c = []" "requests_sent (?s\<lparr>ud_core := c\<rparr>) = requests_sent ?s @ [request_body p s0 ?a]"
    using send_request [OF rdy op] S(2) by (auto simp: request_body_def)
  let ?t = "?s\<lparr>ud_core := c, ud_index := Suc ?k\<rparr>"
  let ?timers = "if Suc ?k < length ?us then [(of_int (arrival_of s0 (?us ! Suc ?k)), USER_REQ_GEN_MSG)] else []"
  have arr: "arrival_of ?t (?us ! Suc ?k) = arrival_of s0 (?us ! Suc ?k)" if "Suc ?k < length ?us"
    using obj [of "Suc ?k"] that by (simp add: arrival_of_def the_user_def)
  have le: "arrival_of s0 ?a \<le> arrival_of s0 (?us ! Suc ?k)" if "Suc ?k < length ?us"
    using sorted_nth_mono [OF assms(3), of ?k "Suc ?k"] that by simp
  have next': "scheduleNextReqGenMessage (of_int (arrival_of s0 ?a)) ?t = Inr (?t\<lparr>ud_timers := ?timers\<rparr>)"
    using arr le S(1)
    by (cases "Suc ?k < length ?us") (simp_all add: scheduleNextReqGenMessage_def ud_schedule_def Let_def not_less)
  have "ud_processSelfMessage (of_int (arrival_of s0 ?a)) USER_REQ_GEN_MSG ?s = Inr (?t\<lparr>ud_timers := ?timers\<rparr>)"
    using assms(2) S(1) rdy c(1) next'
    by (simp add: ud_processSelfMessage_def Timer_WaitToExecute_def USER_REQ_GEN_MSG_def handleUserReqGenMessage_def)
  moreover have "requests_sent (?t\<lparr>ud_timers := ?timers\<rparr>) = map (request_body p s0) (take (Suc ?k) ?us)"
    using c(3) S(4) assms(2) by (simp add: requests_sent_def take_Suc_conv_app_nth)
  moreover have "set (take ?k ?us) \<subseteq> set (take (Suc ?k) ?us)" by (rule set_take_subset_set_take) simp
  then have "on_schedule p s0 (?t\<lparr>ud_timers := ?timers\<rparr>)"
    using c(2) S assms(2) calculation(2) by (auto simp: on_schedule_def Let_def)
  ultimately show ?thesis by (intro exI [of _ "?t\<lparr>ud_timers := ?timers\<rparr>"]) simp
qed

lemma gen_step_on_schedule:
  assumes "gen_step s s'" "on_schedule p s0 s" "sorted (map (arrival_of s0) (ud_instances s0))"
    and "\<forall>a\<in>set (ud_instances s0). user_ready p s0 a" "distinct (ud_instances s0)"
  shows "on_schedule p s0 s'"
  using assms(1)
proof cases
  case (fires t name ts dice)
  have less: "ud_index s < length (ud_instances s0)" and tn: "t = of_int (arrival_of s0 (ud_instances s0 ! ud_index s))"
      "name = USER_REQ_GEN_MSG" "ts = []"
    using fires(2) assms(2) by (auto simp: on_schedule_def Let_def split: if_splits)
  from fires_on_schedule [OF assms(2) less assms(3-5)] fires(3) show ?thesis unfolding tn by auto
next
  case (answered m a dice now)
  have "queue (ud_core s) = []" using assms(2) by (simp add: on_schedule_def Let_def)
  from arrives_only_user [OF answered(4) this] answered(2) have "only_user a s s'" by auto
  from answered_on_schedule [OF assms(2) this answered(3)] show ?thesis .
qed

text \<open>C26.  Once the users are sorted, their requests leave one by one in the order of arrival: whatever answers to
  the earlier ones come in between, the requests sent are those of the first users of the order, each once,
  and the timer of the next user is set to its arrival time.  As long as the simulation has not been ended and
  users are left, the next request can go out; after its end nothing goes out any more, so an early end leaves
  the requests of the last users unsent.
\<close>

theorem requests_in_arrival_order:
  assumes "\<forall>a\<in>set (ud_instances s). user_ready p s a" "distinct (ud_instances s)"
    and "ud_index s = 0" "ud_timers s = []" "queue (ud_core s) = []" "sent (ud_core s) = []"
    and "handleWaitToExecuteMessage t s = Inr s0" "gen_step\<^sup>*\<^sup>* s0 s1"
  shows "let us = sort_key (arrival_of s) (ud_instances s); k = ud_index s1 in
    requests_sent s1 = map (request_body p s) (take k us) \<and> k \<le> length us \<and>
    ud_timers s1 = (if k < length us then [(of_int (arrival_of s (us ! k)), USER_REQ_GEN_MSG)] else []) \<and>
    (if ud_ended s1 then \<not> (\<exists>s2. gen_step s1 s2)
     else k < length us \<longrightarrow> (\<exists>s2. gen_step s1 s2 \<and> requests_sent s2 = map (request_body p s) (take (Suc k) us)))"
proof -
  let ?us = "sort_key (arrival_of s) (ud_instances s)"
  have s0: "ud_instances s0 = ?us" "ud_objects s0 = ud_objects s" "ud_core s0 = ud_core s" "ud_index s0 = 0"
    "ud_timers s0 = (if 0 < length ?us then [(of_int (arrival_of s (?us ! 0)), USER_REQ_GEN_MSG)] else [])"
    using assms(3,4,7) by (auto simp: handleWaitToExecuteMessage_def scheduleNextReqGenMessage_def ud_schedule_def
        arrival_of_def the_user_def Let_def split: if_splits)
  have arr: "arrival_of s0 = arrival_of s" "request_body p s0 = request_body p s"
    by (simp_all add: fun_eq_iff arrival_of_def request_body_def the_user_def s0(2))
  have start: "on_schedule p s0 s0"
    using s0 assms(5,6) arr by (simp add: on_schedule_def Let_def requests_sent_def)
  have ready: "sorted (map (arrival_of s0) (ud_instances s0))" "\<forall>a\<in>set (ud_instances s0). user_ready p s0 a"
    "distinct (ud_instances s0)"
    using assms(1,2) s0(1,2) arr(1) by (simp_all add: user_ready_def the_user_def)
  have on: "on_schedule p s0 s1"
    using assms(8) by (induction rule: rtranclp_induct) (use start gen_step_on_schedule ready in blast)+
  have "\<exists>s2. gen_step s1 s2 \<and> requests_sent s2 = map (request_body p s) (take (Suc (ud_index s1)) ?us)"
    if less: "ud_index s1 < length ?us" and run: "\<not> ud_ended s1"
  proof -
    obtain s2 where s2: "ud_processSelfMessage (of_int (arrival_of s0 (ud_instances s0 ! ud_index s1))) USER_REQ_GEN_MSG
        (s1\<lparr>ud_timers := []\<rparr>) = Inr s2" "on_schedule p s0 s2" "ud_index s2 = Suc (ud_index s1)"
      using fires_on_schedule [OF on _ ready] less s0(1) by auto
    have "ud_timers s1 = [(of_int (arrival_of s0 (ud_instances s0 ! ud_index s1)), USER_REQ_GEN_MSG)]"
      using on less s0(1) by (simp add: on_schedule_def Let_def)
    then have "gen_step s1 s2" using run s2(1) by (intro fires) simp_all
    moreover have "requests_sent s2 = map (request_body p s) (take (Suc (ud_index s1)) ?us)"
      using s2(2,3) s0(1) arr(2) by (simp add: on_schedule_def Let_def)
    ultimately show ?thesis by blast
  qed
  moreover have "\<not> (\<exists>s2. gen_step s1 s2)" if "ud_ended s1" using that by (blast elim: gen_stepE)
  ultimately show ?thesis using on unfolding on_schedule_def Let_def s0(1) arr by (cases "ud_ended s1") auto
qed


section \<open>Two users arrive\<close>

lemma two_users_wait:
  obtains s s0 where "generateUsersBeforeSimulationStarts (sample_params False) 0 two_users fresh_driver = Some (Inr s)"
    "handleWaitToExecuteMessage 0 s = Inr s0" "length (ud_instances s) = 2" "ud_index s = 0" "ud_timers s = []"
    "queue (ud_core s) = []" "sent (ud_core s) = []" "length (ud_objects s) = 2" "\<not> ud_ended s0"
proof -
  have "case generateUsersBeforeSimulationStarts (sample_params False) 0 two_users fresh_driver of
      Some (Inr s) \<Rightarrow> (case handleWaitToExecuteMessage 0 s of Inr s0 \<Rightarrow> \<not> ud_ended s0 | _ \<Rightarrow> False) \<and> length (ud_instances s) = 2 \<and> ud_index s = 0 \<and> ud_timers s = [] \<and>
        queue (ud_core s) = [] \<and> sent (ud_core s) = [] \<and> length (ud_objects s) = 2 | _ \<Rightarrow> False" by code_simp
  then show thesis by (auto simp: is_ok_iff split: option.splits sum.splits intro: that)
qed

theorem requests_in_arrival_order_witness:
  "\<exists>s0 s1 b. gen_step s0 s1 \<and> requests_sent s1 = [b]"
proof -
  obtain s s0 where s: "generateUsersBeforeSimulationStarts (sample_params False) 0 two_users fresh_driver = Some (Inr s)"
    "handleWaitToExecuteMessage 0 s = Inr s0" "length (ud_instances s) = 2" "ud_index s = 0" "ud_timers s = []"
    "queue (ud_core s) = []" "sent (ud_core s) = []" "length (ud_objects s) = 2" "\<not> ud_ended s0"
    by (rule two_users_wait)
  have prep: "mset (ud_instances s) = mset [0..<2]" "\<forall>a<2. user_ready (sample_params False) s a"
    using requests_prepared_lemma [OF s(1) [unfolded fresh_driver_def] two_users_size(1)] s(8) by simp_all
  have m: "set (ud_instances s) = set [0..<2]" by (rule mset_eq_setD [OF prep(1)])
  have "distinct (ud_instances s)" using mset_eq_imp_distinct_iff [OF prep(1)] by simp
  moreover have "\<forall>a\<in>set (ud_instances s). user_ready (sample_params False) s a" using prep(2) unfolding m by simp
  moreover have "ud_index s0 = 0"
    using s(2,4) by (auto simp: handleWaitToExecuteMessage_def scheduleNextReqGenMessage_def ud_schedule_def Let_def split: if_splits)
  ultimately obtain s1 where "gen_step s0 s1" "requests_sent s1 =
      map (request_body (sample_params False) s) (take (Suc 0) (sort_key (arrival_of s) (ud_instances s)))"
    using requests_in_arrival_order [OF _ _ s(4-7,2), of "sample_params False" s0] s(3,9) by (auto simp: Let_def)
  moreover have "\<exists>x. take (Suc 0) (sort_key (arrival_of s) (ud_instances s)) = [x]"
    using s(3) by (cases "sort_key (arrival_of s) (ud_instances s)") (auto simp: length_0_conv dest: arg_cong [where f = length])
  ultimately obtain x where "gen_step s0 s1" "requests_sent s1 = [request_body (sample_params False) s x]" by auto
  then show ?thesis by blast
qed

end
