(* ===== verification/UserAnswers.thy ===== *)
theory UserAnswers
  imports UserRequests
begin

text \<open>
  What an answer does to a user: an accepted request deploys the applications and finishes the user at once,
  so that the end of an application counts the user a second time; an offer for more time is answered by the
  state of the machine and the draw of the model.
\<close>

section \<open>Machines of a user\<close>

definition machines_found :: "CloudUserInstance \<Rightarrow> bool" where
  "machines_found u \<longleftrightarrow> (\<forall>v j. ci_vmIdMap u v = Some j \<longleftrightarrow> j < getTotalVMs u \<and> vi_id (flattened (ci_vmGroupedInstances u) ! j) = v)"

definition machine_ids :: "CloudUserInstance \<Rightarrow> string list" where
  "machine_ids u = map vi_id (flattened (ci_vmGroupedInstances u))"

definition user_ok :: "CloudUserInstance \<Rightarrow> bool" where
  "user_ok u \<longleftrightarrow> machines_found u \<and> counts_ok u"

lemma new_user_ok:
  assumes "new_CloudUserInstance user t un i n = Inr u"
  shows "user_ok u"
proof -
  obtain ids k where "building_ok (getNumVms user) (ci_vmGroupedInstances u, ids, k)" "ci_vmIdMap u = ids"
    using new_CloudUserInstance_shape [OF assms] by metis
  then show ?thesis using new_counts_ok [OF assms]
    by (simp add: user_ok_def machines_found_def building_ok_def getTotalVMs_def)
qed

lemma update_ids:
  "machine_ids (updateAllVmInstances now st u) = machine_ids u"
  "ci_vmIdMap (updateAllVmInstances now st u) = ci_vmIdMap u"
  by (simp_all add: machine_ids_def updateAllVmInstances_def Let_def flattened_def finish_if_done_def user_finish_def)

lemma machines_found_cong:
  assumes "machine_ids u' = machine_ids u" "ci_vmIdMap u' = ci_vmIdMap u" "machines_found u"
  shows "machines_found u'"
proof -
  have l: "getTotalVMs u' = getTotalVMs u" using assms(1) by (metis getTotalVMs_def length_map machine_ids_def)
  have "vi_id (flattened (ci_vmGroupedInstances u') ! j) = vi_id (flattened (ci_vmGroupedInstances u) ! j)" if "j < getTotalVMs u" for j
    using assms(1) l that by (metis getTotalVMs_def machine_ids_def nth_map)
  then show ?thesis using assms(2,3) l by (auto simp: machines_found_def)
qed

lemma user_ok_all: "user_ok u \<Longrightarrow> user_ok (updateAllVmInstances now st u)"
  using machines_found_cong [OF update_ids] update_all_counts by (auto simp: user_ok_def)

lemma status_update:
  assumes "user_ok u" "v \<in> set (machine_ids u)"
  obtains u' where "updateVmInstanceStatus now v st u = Inr u'" "user_ok u'" "machine_ids u' = machine_ids u"
    "\<And>e. e \<in> set (flattened (ci_vmGroupedInstances u')) \<Longrightarrow> vi_id e = v \<and> vi_state e = st \<or> e \<in> set (flattened (ci_vmGroupedInstances u))"
    "\<And>e. e \<in> set (flattened (ci_vmGroupedInstances u')) \<Longrightarrow> vi_id e = v \<Longrightarrow> vi_state e = st"
    "allVmsFinished u' \<longrightarrow> ci_finished u'" "ci_vmIdMap u' = ci_vmIdMap u" "ui_applications u' = ui_applications u"
proof -
  let ?xs = "flattened (ci_vmGroupedInstances u)"
  obtain j where j: "j < length ?xs" "vi_id (?xs ! j) = v"
    using assms(2) by (auto simp: machine_ids_def in_set_conv_nth)
  have m: "\<And>v j. ci_vmIdMap u v = Some j \<longleftrightarrow> j < length ?xs \<and> vi_id (?xs ! j) = v"
    using assms(1) by (simp add: user_ok_def machines_found_def getTotalVMs_def)
  then have "ci_vmIdMap u v = Some j" using j by simp
  then have ok: "is_ok (updateVmInstanceStatus now v st u)"
    using j(1) by (simp add: updateVmInstanceStatus_def Let_def flattened_def)
  then obtain u' where u': "updateVmInstanceStatus now v st u = Inr u'" by (auto simp: is_ok_iff)
  have f: "flattened (ci_vmGroupedInstances u') = ?xs[j := (?xs ! j)\<lparr>vi_state := st\<rparr>]" "ci_vmIdMap u' = ci_vmIdMap u"
    "ui_applications u' = ui_applications u"
    using u' \<open>ci_vmIdMap u v = Some j\<close> j(1)
    by (auto simp: updateVmInstanceStatus_def Let_def flattened_def finish_if_done_def user_finish_def)
  have ids: "machine_ids u' = machine_ids u"
    using j(1) by (auto simp: machine_ids_def f(1) list_eq_iff_nth_eq nth_list_update)
  have uok: "user_ok u'"
    using machines_found_cong [OF ids f(2)] update_counts [OF u'] assms(1) by (simp add: user_ok_def)
  have flag: "allVmsFinished u' \<longrightarrow> ci_finished u'" using update_counts [OF u'] assms(1) by (simp add: user_ok_def)
  have only: "i = j" if "i < length ?xs" "vi_id (?xs ! i) = v" for i using m that j by (metis option.inject)
  have split: "\<exists>i<length ?xs. e = (if i = j then (?xs ! j)\<lparr>vi_state := st\<rparr> else ?xs ! i)"
    if e: "e \<in> set (flattened (ci_vmGroupedInstances u'))" for e
  proof -
    obtain i where i: "i < length ?xs" "e = ?xs[j := (?xs ! j)\<lparr>vi_state := st\<rparr>] ! i"
      using e by (auto simp: f(1) in_set_conv_nth)
    then show ?thesis using j(1) by (intro exI [of _ i]) (simp add: nth_list_update)
  qed
  have e1: "vi_id e = v \<and> vi_state e = st \<or> e \<in> set ?xs"
    if "e \<in> set (flattened (ci_vmGroupedInstances u'))" for e
    using split [OF that] j by (auto split: if_splits)
  have e2: "vi_state e = st" if "e \<in> set (flattened (ci_vmGroupedInstances u'))" "vi_id e = v" for e
    using split [OF that(1)] only that(2) by (auto split: if_splits)
  show thesis by (rule that [OF u' uok ids e1 e2 flag f(2,3)])
qed

text \<open>Finishing the machines of a list, which names all of them, finishes the user.\<close>

lemma finish_machines:
  assumes "user_ok u" "set vs \<subseteq> set (machine_ids u)"
    and "\<And>e. e \<in> set (flattened (ci_vmGroupedInstances u)) \<Longrightarrow> vi_id e \<notin> set vs \<Longrightarrow> vi_state e = vmFinished"
    and "vs = [] \<Longrightarrow> allVmsFinished u \<longrightarrow> ci_finished u"
  shows "\<exists>u'. for_each (\<lambda>v. updateVmInstanceStatus now v vmFinished) vs u = Inr u' \<and> user_ok u' \<and> ci_finished u' \<and>
    (\<forall>e\<in>set (flattened (ci_vmGroupedInstances u')). vi_state e = vmFinished) \<and> ui_applications u' = ui_applications u \<and>
    machine_ids u' = machine_ids u"
  using assms
proof (induction vs arbitrary: u)
  case Nil
  then have "\<forall>e\<in>set (flattened (ci_vmGroupedInstances u)). vi_state e = vmFinished" by simp
  moreover from this have "ci_finished u" using Nil.prems(1,4) counts_finished by (simp add: user_ok_def)
  ultimately show ?case using Nil.prems(1) by simp
next
  case (Cons v vs)
  have v: "v \<in> set (machine_ids u)" using Cons.prems(2) by simp
  obtain u1 where u1: "updateVmInstanceStatus now v vmFinished u = Inr u1" "user_ok u1" "machine_ids u1 = machine_ids u"
    "\<And>e. e \<in> set (flattened (ci_vmGroupedInstances u1)) \<Longrightarrow> vi_id e = v \<and> vi_state e = vmFinished \<or> e \<in> set (flattened (ci_vmGroupedInstances u))"
    "\<And>e. e \<in> set (flattened (ci_vmGroupedInstances u1)) \<Longrightarrow> vi_id e = v \<Longrightarrow> vi_state e = vmFinished"
    "allVmsFinished u1 \<longrightarrow> ci_finished u1" "ui_applications u1 = ui_applications u"
    by (rule status_update [OF Cons.prems(1) v, of now vmFinished]) (rule that, assumption+)
  have "vi_state e = vmFinished" if "e \<in> set (flattened (ci_vmGroupedInstances u1))" "vi_id e \<notin> set vs" for e
  proof (cases "vi_id e = v")
    case False
    then have "e \<in> set (flattened (ci_vmGroupedInstances u))" using u1(4) [OF that(1)] by blast
    with False that(2) show ?thesis using Cons.prems(3) by simp
  qed (rule u1(5) [OF that(1)])
  then obtain u' where "for_each (\<lambda>v. updateVmInstanceStatus now v vmFinished) vs u1 = Inr u'" "user_ok u'" "ci_finished u'"
      "\<forall>e\<in>set (flattened (ci_vmGroupedInstances u')). vi_state e = vmFinished" "ui_applications u' = ui_applications u1" "machine_ids u' = machine_ids u1"
    using Cons.IH [OF u1(2) _ _ u1(6)] Cons.prems(2) u1(3) by auto
  then show ?case using u1(1,3,7) by simp
qed


section \<open>Deploying\<close>

definition app_calls :: "VM_Request \<Rightarrow> AppInstanceCollection \<Rightarrow> (string \<times> string \<times> string \<times> rat) list" where
  "app_calls vm c = map (\<lambda>app. (ai_appInstanceID app @ rq_vmId vm, ai_appName app, rq_vmId vm, rsp_startTime (rq_response vm)))
     (ac_appInstances c)"

text \<open>The applications of the user on the machines of the request: collection \<open>i\<close> on machine \<open>i\<close>.\<close>

definition user_calls :: "SM_UserVM \<Rightarrow> CloudUserInstance \<Rightarrow> (string \<times> string \<times> string \<times> rat) list" where
  "user_calls rq u = concat (map (\<lambda>i. app_calls (uv_vm rq ! i) (ui_applications u ! i)) [0..<length (ui_applications u)])"

lemma build_apps_append: "build_apps (xs @ ys) b = build_apps ys (build_apps xs b)"
  by (induction xs b rule: build_apps.induct) simp_all

lemma fold_deploy_app:
  assumes "\<not> ud_startTimes s"
  shows "fold (deploy_app s ts vm (rq_response vm)) as b =
    build_apps (map (\<lambda>app. (ai_appInstanceID app @ rq_vmId vm, ai_appName app, rq_vmId vm, rsp_startTime (rq_response vm))) as) b"
  using assms by (induction as arbitrary: b) (simp_all add: deploy_app_def)

definition deployable :: "SM_UserVM \<Rightarrow> CloudUserInstance \<Rightarrow> bool" where
  "deployable rq u \<longleftrightarrow> length (ui_applications u) \<le> length (uv_vm rq) \<and>
     list_all (\<lambda>c. length (ac_appInstances c) \<le> 5) (ui_applications u) \<and>
     list_all (\<lambda>vm. rsp_state (rq_response vm) = ACCEPTED) (uv_vm rq) \<and> map rq_vmId (uv_vm rq) = machine_ids u"

lemma deploy_collections:
  assumes "\<not> ud_startTimes s" "deployable rq (the_user a s)" "k \<le> length (ui_applications (the_user a s))"
  shows "for_each (deploy_collection s a rq) [0..<k] b =
    Inr (build_apps (concat (map (\<lambda>i. app_calls (uv_vm rq ! i) (ui_applications (the_user a s) ! i)) [0..<k])) b)"
  using assms(3)
proof (induction k arbitrary: b)
  case (Suc k)
  let ?u = "the_user a s"
  have k: "k < length (ui_applications ?u)" "k < length (uv_vm rq)" using Suc.prems assms(2) by (auto simp: deployable_def)
  then have ok: "length (ac_appInstances (ui_applications ?u ! k)) \<le> 5" "rsp_state (rq_response (uv_vm rq ! k)) = ACCEPTED"
    using assms(2) by (auto simp: deployable_def list_all_length)
  have "deploy_collection s a rq k b = Inr (build_apps (app_calls (uv_vm rq ! k) (ui_applications ?u ! k)) b)" for b
    using k ok by (simp add: deploy_collection_def getAppCollection_def getResponse_def Let_def app_calls_def
        fold_deploy_app [OF assms(1)])
  with Suc show ?case by (simp add: for_each_append build_apps_append)
qed simp

lemma for_each_finish_machine:
  assumes "a < length (ud_objects s)"
  shows "for_each (finish_machine now a) vms s =
    and_then (for_each (\<lambda>v. updateVmInstanceStatus now v vmFinished) (map rq_vmId vms) (the_user a s)) (\<lambda>u. Inr (set_user a u s))"
  using assms
proof (induction vms arbitrary: s)
  case Nil
  then show ?case by (simp add: set_user_def the_user_def)
next
  case (Cons vm vms)
  show ?case
  proof (cases "updateVmInstanceStatus now (rq_vmId vm) vmFinished (the_user a s)")
    case (Inr u)
    have "the_user a (set_user a u s) = u" "length (ud_objects (set_user a u s)) = length (ud_objects s)"
      "set_user a u' (set_user a u s) = set_user a u' s" for u'
      using Cons.prems by (simp_all add: the_user_def set_user_def)
    with Cons.IH [of "set_user a u s"] Cons.prems Inr show ?thesis by (simp add: finish_machine_def try_user_def)
  qed (simp add: finish_machine_def try_user_def)
qed

definition bodies_sent :: "UserDriver \<Rightarrow> dc_body list" where
  "bodies_sent s = map (env_body \<circ> fst) (sent (ud_core s))"

lemma send_new_message:
  "\<exists>c. ud_send (with_body b) s = Inr (s\<lparr>ud_core := c\<rparr>) \<and> bodies_sent (s\<lparr>ud_core := c\<rparr>) = bodies_sent s @ [b]"
  by (auto simp: ud_send_def with_body_def SIMCAN_Message.extend_def new_SIMCAN_Message_def sendRequest_def bodies_sent_def
      isTraceEmpty_def addNodeToTrace_def updateMessageTrace_def addModuleToTrace_def send_via_def Let_def)

lemma send_apps:
  "\<exists>c. for_each (send_app topic) aps s = Inr (s\<lparr>ud_core := c\<rparr>) \<and>
     bodies_sent (s\<lparr>ud_core := c\<rparr>) = bodies_sent s @ map (\<lambda>ap. UserApp (ap\<lparr>ua_destinationTopic := topic\<rparr>)) aps"
proof (induction aps arbitrary: s)
  case Nil
  then show ?case by (intro exI [of _ "ud_core s"]) simp
next
  case (Cons ap aps)
  obtain c where c: "send_app topic ap s = Inr (s\<lparr>ud_core := c\<rparr>)"
      "bodies_sent (s\<lparr>ud_core := c\<rparr>) = bodies_sent s @ [UserApp (ap\<lparr>ua_destinationTopic := topic\<rparr>)]"
    using send_new_message unfolding send_app_def by blast
  with Cons.IH [of "s\<lparr>ud_core := c\<rparr>"] show ?case by auto
qed

text \<open>\<open>deployApps\<close> sends the applications of each machine and finishes all machines, and so the user.\<close>

lemma deployApps_result:
  assumes "a < length (ud_objects s)" "\<not> ud_startTimes s" "user_ok (the_user a s)" "deployable rq (the_user a s)"
    and "machine_ids (the_user a s) \<noteq> []"
  shows "\<exists>u c. deployApps now rq a s = Inr (set_user a u s\<lparr>ud_core := c\<rparr>) \<and> ci_finished u \<and>
    user_ok u \<and> machine_ids u = machine_ids (the_user a s) \<and> (\<forall>e\<in>set (flattened (ci_vmGroupedInstances u)). vi_state e = vmFinished) \<and>
    bodies_sent (s\<lparr>ud_core := c\<rparr>) = bodies_sent s @ map (\<lambda>ap. UserApp (ap\<lparr>ua_destinationTopic := uv_returnTopic rq\<rparr>))
      (builder_finish (uv_userId rq) (build_apps (user_calls rq (the_user a s)) []))"
proof -
  let ?u = "the_user a s" and ?b = "build_apps (user_calls rq (the_user a s)) []"
  have d: "for_each (deploy_collection s a rq) [0..<length (ui_applications ?u)] [] = Inr ?b"
    unfolding user_calls_def by (rule deploy_collections [OF assms(2,4) order_refl])
  have ids: "map rq_vmId (uv_vm rq) = machine_ids ?u" using assms(4) by (simp add: deployable_def)
  have "\<exists>u. for_each (\<lambda>v. updateVmInstanceStatus now v vmFinished) (machine_ids ?u) ?u = Inr u \<and> user_ok u \<and> ci_finished u \<and>
      (\<forall>e\<in>set (flattened (ci_vmGroupedInstances u)). vi_state e = vmFinished) \<and> ui_applications u = ui_applications ?u \<and> machine_ids u = machine_ids ?u"
    by (rule finish_machines [OF assms(3)]) (use assms(5) in \<open>auto simp: machine_ids_def\<close>)
  then obtain u where u: "for_each (\<lambda>v. updateVmInstanceStatus now v vmFinished) (machine_ids ?u) ?u = Inr u" "ci_finished u"
      "\<forall>e\<in>set (flattened (ci_vmGroupedInstances u)). vi_state e = vmFinished" "user_ok u" "machine_ids u = machine_ids ?u" by blast
  have f: "for_each (finish_machine now a) (uv_vm rq) s = Inr (set_user a u s)"
    using for_each_finish_machine [OF assms(1)] u(1) ids by simp
  obtain c where c: "for_each (send_app (uv_returnTopic rq)) (builder_finish (uv_userId rq) ?b) (set_user a u s) =
        Inr (set_user a u s\<lparr>ud_core := c\<rparr>)"
      "bodies_sent (set_user a u s\<lparr>ud_core := c\<rparr>) = bodies_sent (set_user a u s) @
         map (\<lambda>ap. UserApp (ap\<lparr>ua_destinationTopic := uv_returnTopic rq\<rparr>)) (builder_finish (uv_userId rq) ?b)"
    using send_apps by blast
  have "deployApps now rq a s = Inr (set_user a u s\<lparr>ud_core := c\<rparr>)"
    using d f c(1) by (simp add: deployApps_def)
  moreover have "bodies_sent (s\<lparr>ud_core := c\<rparr>) = bodies_sent s @ map (\<lambda>ap. UserApp (ap\<lparr>ua_destinationTopic := uv_returnTopic rq\<rparr>))
      (builder_finish (uv_userId rq) ?b)" using c(2) by (simp add: bodies_sent_def set_user_def)
  ultimately show ?thesis using u(2-5) by (intro exI [of _ u] exI [of _ c]) simp
qed


section \<open>An accepted request\<close>

definition deployed_apps :: "SM_UserVM \<Rightarrow> CloudUserInstance \<Rightarrow> SM_UserAPP list" where
  "deployed_apps rq u = map (\<lambda>ap. ap\<lparr>ua_destinationTopic := uv_returnTopic rq\<rparr>)
     (builder_finish (uv_userId rq) (build_apps (user_calls rq u) []))"

text \<open>The user a request was accepted for, as the generator knows it.\<close>

definition accepted_for :: "DcMessage \<Rightarrow> SM_UserVM \<Rightarrow> nat \<Rightarrow> UserDriver \<Rightarrow> bool" where
  "accepted_for m rq a s \<longleftrightarrow> env_body m = UserVm rq \<and> uv_operation rq = SM_VM_Req_op \<and> uv_result rq = SM_VM_Res_Accept \<and>
     ud_byId s (uv_userId rq) = Some a \<and> a < length (ud_objects s) \<and> \<not> ud_startTimes s \<and> user_ok (the_user a s) \<and>
     machine_ids (the_user a s) \<noteq> [] \<and> deployable rq (the_user a s)"

lemma the_user_simps [simp]:
  "a < length (ud_objects s) \<Longrightarrow> the_user a (set_user a u s) = u"
  "the_user a (ud_emit sig vm b s) = the_user a s" "length (ud_objects (set_user a u s)) = length (ud_objects s)"
  "ud_objects (ud_emit sig vm b s) = ud_objects s" "the_user a (s\<lparr>ud_core := c\<rparr>) = the_user a s"
  "ud_acceptanceRate (ud_emit sig vm b s) = ud_acceptanceRate s"
  by (simp_all add: the_user_def set_user_def ud_emit_def)

lemma accepted_result:
  assumes "accepted_for m rq a s"
  shows "\<exists>s'. ud_processResponseMessage (newUserModelInstance dice) now m s = Inr s' \<and> only_user a s s' \<and>
    user_ok (the_user a s') \<and> machine_ids (the_user a s') = machine_ids (the_user a s) \<and>
    ci_finished (the_user a s') \<and> (\<forall>e\<in>set (flattened (ci_vmGroupedInstances (the_user a s'))). vi_state e = vmFinished) \<and>
    bodies_sent s' = bodies_sent s @ map UserApp (deployed_apps rq (the_user a s)) \<and> ud_nFinished s' = ud_nFinished s + 1 \<and>
    (ud_ended s' \<longleftrightarrow> ud_ended s \<or> int (length (ud_instances s)) \<le> ud_nFinished s + 1)"
proof -
  have A: "a < length (ud_objects s)" "\<not> ud_startTimes s" "user_ok (the_user a s)" "machine_ids (the_user a s) \<noteq> []"
    "deployable rq (the_user a s)" and M: "env_body m = UserVm rq" "uv_operation rq = SM_VM_Req_op" "uv_result rq = SM_VM_Res_Accept"
    "ud_byId s (uv_userId rq) = Some a" using assms by (auto simp: accepted_for_def)
  let ?u1 = "updateAllVmInstances now vmAccepted (the_user a s)"
  let ?u2 = "startExecution now ?u1"
  let ?s3 = "on_user a (startExecution now) (ud_emit ExecuteSignal [] a (ud_emit ResponseSignal [] a
      (on_user a (updateAllVmInstances now vmAccepted) s)))"
  have u2: "the_user a ?s3 = ?u2" "length (ud_objects ?s3) = length (ud_objects s)" "ud_startTimes ?s3 = ud_startTimes s"
    "bodies_sent (?s3\<lparr>ud_core := c\<rparr>) = bodies_sent (s\<lparr>ud_core := c\<rparr>)" "bodies_sent ?s3 = bodies_sent s"
    "ud_nFinished ?s3 = ud_nFinished s" "ud_instances ?s3 = ud_instances s" "ud_ended ?s3 = ud_ended s" for c
    using A(1) by (simp_all add: on_user_def) (simp_all add: set_user_def ud_emit_def bodies_sent_def)
  have ids: "machine_ids ?u2 = machine_ids (the_user a s)" "ci_vmIdMap ?u2 = ci_vmIdMap ?u1" "machine_ids ?u2 = machine_ids ?u1"
    "ui_applications ?u2 = ui_applications (the_user a s)"
    by (simp_all add: machine_ids_def startExecution_def updateAllVmInstances_def Let_def flattened_def finish_if_done_def user_finish_def)
  have "counts_ok ?u2" using user_ok_all [OF A(3)] by (simp add: user_ok_def counts_ok_def startExecution_def)
  then have ok: "user_ok ?u2"
    using user_ok_all [OF A(3)] machines_found_cong [OF ids(3,2)] by (simp add: user_ok_def)
  have dep: "deployable rq ?u2" "user_calls rq ?u2 = user_calls rq (the_user a s)"
    using A(5) ids by (simp_all add: deployable_def user_calls_def)
  obtain u c where d: "deployApps now rq a ?s3 = Inr (set_user a u ?s3\<lparr>ud_core := c\<rparr>)" "ci_finished u"
      "\<forall>e\<in>set (flattened (ci_vmGroupedInstances u)). vi_state e = vmFinished"
      "bodies_sent (?s3\<lparr>ud_core := c\<rparr>) = bodies_sent ?s3 @ map (\<lambda>ap. UserApp (ap\<lparr>ua_destinationTopic := uv_returnTopic rq\<rparr>))
        (builder_finish (uv_userId rq) (build_apps (user_calls rq ?u2) []))" "user_ok u" "machine_ids u = machine_ids ?u2"
    using deployApps_result [of a ?s3 rq now] A(1,2,4) ok dep(1) ids(1) unfolding u2(1-3) by auto
  let ?s4 = "set_user a u ?s3\<lparr>ud_core := c\<rparr>"
  have h: "handleResponseVmRequest now m rq a s = Inr ?s4"
    using d(1) M(3) by (simp add: handleResponseVmRequest_def Let_def)
  have p: "ud_processResponseMessage (newUserModelInstance dice) now m s = Inr (count_finished a ?s4)"
    using M h by (simp add: ud_processResponseMessage_def newUserModelInstance_def find_user_def Let_def)
  have s4: "ci_finished (the_user a ?s4)" "ud_nFinished ?s4 = ud_nFinished s" "ud_instances ?s4 = ud_instances s" "ud_ended ?s4 = ud_ended s"
    using A(1) d(2) u2(2) by (simp_all add: set_user_def on_user_def ud_emit_def the_user_def)
  have len: "a < length (ud_objects ?s4)" using A(1) u2(2) by simp
  have f: "the_user a (count_finished a ?s4) = u"
    using len s4(1) A(1) u2(2)
    by (simp add: count_finished_def Let_def cancelAndDeleteMessages_def setRequestVmMsg_def) (simp add: the_user_def set_user_def)
  have n: "ud_nFinished (count_finished a ?s4) = ud_nFinished s + 1"
    "ud_ended (count_finished a ?s4) \<longleftrightarrow> ud_ended s \<or> int (length (ud_instances s)) \<le> ud_nFinished s + 1"
    "bodies_sent (count_finished a ?s4) = bodies_sent (?s3\<lparr>ud_core := c\<rparr>)"
    unfolding count_finished_def
    using s4 by (simp_all add: Let_def cancelAndDeleteMessages_def setRequestVmMsg_def allUsersFinished_def bodies_sent_def)
  have "only_user a s (count_finished a ?s4)"
    using only_user_trans [OF only_user_vmRequest [OF h] only_user_count_finished] .
  with p f d(2,3) n d(4-6) u2(5) dep(2) ids(1) show ?thesis
    by (intro exI [of _ "count_finished a ?s4"]) (simp add: deployed_apps_def)
qed


text \<open>C28.  When the request of a user is accepted, one message with the applications of each machine goes out, to
  the centre that answered, and no other user is touched.  All machines of the user are marked as finished at
  once, those that were just sent applications too, and the user with them; the comment of
  \<open>BaseUserModel::deployApps\<close> says that only unmapped machines are.  The answer adds one to the count of
  finished users, whether the user was counted before or not, and the simulation ends when that count, not
  the number of different users that finished, reaches the number of users.
\<close>

theorem accepted_user_finishes:
  assumes "accepted_for m rq a s"
  shows "\<exists>s'. ud_processResponseMessage (newUserModelInstance dice) now m s = Inr s' \<and>
    bodies_sent s' = bodies_sent s @ map UserApp (deployed_apps rq (the_user a s)) \<and>
    ci_finished (the_user a s') \<and> (\<forall>e\<in>set (flattened (ci_vmGroupedInstances (the_user a s'))). vi_state e = vmFinished) \<and>
    (\<forall>b. b \<noteq> a \<longrightarrow> the_user b s' = the_user b s) \<and> ud_nFinished s' = ud_nFinished s + 1 \<and>
    (ud_ended s' \<longleftrightarrow> ud_ended s \<or> int (length (ud_instances s)) \<le> ud_nFinished s + 1)"
proof -
  obtain s' where s': "ud_processResponseMessage (newUserModelInstance dice) now m s = Inr s'" "only_user a s s'"
    "ci_finished (the_user a s')" "\<forall>e\<in>set (flattened (ci_vmGroupedInstances (the_user a s'))). vi_state e = vmFinished"
    "bodies_sent s' = bodies_sent s @ map UserApp (deployed_apps rq (the_user a s))"
    "ud_nFinished s' = ud_nFinished s + 1"
    "ud_ended s' \<longleftrightarrow> ud_ended s \<or> int (length (ud_instances s)) \<le> ud_nFinished s + 1"
    using accepted_result [OF assms] by blast
  have "\<forall>b. b \<noteq> a \<longrightarrow> the_user b s' = the_user b s" using s'(2) by (simp add: only_user_def the_user_def)
  with s' show ?thesis by (intro exI [of _ s'] conjI)
qed

lemma app_end_result:
  assumes "env_body m = UserApp ap" "ua_operation ap = SM_APP_Req" "ua_result ap = SM_APP_Res_Accept"
    and "ud_byId s (ua_userId ap) = Some a" "a < length (ud_objects s)" "ci_finished (the_user a s)"
    and "updateVmInstanceStatus now (ua_vmId ap) vmFinished (the_user a s) = Inr u"
  shows "\<exists>s'. ud_processResponseMessage (newUserModelInstance dice) now m s = Inr s' \<and> only_user a s s' \<and>
    ud_nFinished s' = ud_nFinished s + 1 \<and> (int (length (ud_instances s)) \<le> ud_nFinished s + 1 \<longrightarrow> ud_ended s')"
proof -
  let ?s1 = "ud_emit OkSignal (ua_vmId ap) a (set_user a u s)"
  have h: "handleResponseAppRequest now ap a s = Inr ?s1"
    using assms(3,7) by (simp add: handleResponseAppRequest_def try_user_def)
  have p: "ud_processResponseMessage (newUserModelInstance dice) now m s = Inr (count_finished a ?s1)"
    using assms(1,2,4) h
    by (simp add: ud_processResponseMessage_def newUserModelInstance_def find_user_def Let_def SM_APP_Req_def SM_VM_Req_op_def SM_VM_Sub_def)
  have "ci_finished u"
    using assms(6,7) by (auto simp: updateVmInstanceStatus_def Let_def finish_if_done_def user_finish_def split: option.splits if_splits)
  then have f: "ci_finished (the_user a ?s1)" using assms(5) by simp
  have n: "ud_nFinished ?s1 = ud_nFinished s" "ud_instances ?s1 = ud_instances s" by (simp_all add: ud_emit_def set_user_def)
  have "ud_nFinished (count_finished a ?s1) = ud_nFinished s + 1"
    "int (length (ud_instances s)) \<le> ud_nFinished s + 1 \<longrightarrow> ud_ended (count_finished a ?s1)"
    unfolding count_finished_def
    using f n by (simp_all add: Let_def cancelAndDeleteMessages_def setRequestVmMsg_def allUsersFinished_def)
  moreover have "only_user a s (count_finished a ?s1)"
    using only_user_trans [OF only_user_appRequest [OF h] only_user_count_finished] .
  ultimately show ?thesis using p by blast
qed

text \<open>C30.  A user whose request was accepted is counted when that answer arrives and again when an application on
  one of its machines ends, so two answers to one user can end a simulation in which another user is untouched.
\<close>

theorem one_user_counts_twice:
  assumes "accepted_for m rq a s" "env_body m2 = UserApp ap" "ua_operation ap = SM_APP_Req" "ua_result ap = SM_APP_Res_Accept"
    and "ua_userId ap = uv_userId rq" "ua_vmId ap \<in> set (machine_ids (the_user a s))"
  shows "\<exists>s1 s2. ud_processResponseMessage (newUserModelInstance dice) now m s = Inr s1 \<and>
    ud_processResponseMessage (newUserModelInstance dice) now2 m2 s1 = Inr s2 \<and> ud_nFinished s2 = ud_nFinished s + 2 \<and>
    (int (length (ud_instances s)) \<le> ud_nFinished s + 2 \<longrightarrow> ud_ended s2) \<and> (\<forall>b. b \<noteq> a \<longrightarrow> the_user b s2 = the_user b s)"
proof -
  obtain s1 where s1: "ud_processResponseMessage (newUserModelInstance dice) now m s = Inr s1" "only_user a s s1"
    "ci_finished (the_user a s1)" "ud_nFinished s1 = ud_nFinished s + 1" "user_ok (the_user a s1)"
    "machine_ids (the_user a s1) = machine_ids (the_user a s)"
    using accepted_result [OF assms(1)] by blast
  have A: "ud_byId s (uv_userId rq) = Some a" "a < length (ud_objects s)" using assms(1) by (simp_all add: accepted_for_def)
  have A1: "ud_byId s1 (ua_userId ap) = Some a" "a < length (ud_objects s1)" "ud_instances s1 = ud_instances s"
    using A s1(2) assms(5) by (simp_all add: only_user_def)
  have v: "ua_vmId ap \<in> set (machine_ids (the_user a s1))" using s1(6) assms(6) by simp
  obtain u where "updateVmInstanceStatus now2 (ua_vmId ap) vmFinished (the_user a s1) = Inr u"
    by (rule status_update [OF s1(5) v, of now2 vmFinished]) (rule that)
  from app_end_result [OF assms(2-4) A1(1,2) s1(3) this, of dice] obtain s2 where
    s2: "ud_processResponseMessage (newUserModelInstance dice) now2 m2 s1 = Inr s2" "only_user a s1 s2"
    "ud_nFinished s2 = ud_nFinished s1 + 1" "int (length (ud_instances s1)) \<le> ud_nFinished s1 + 1 \<longrightarrow> ud_ended s2"
    by blast
  have "\<forall>b. b \<noteq> a \<longrightarrow> the_user b s2 = the_user b s"
    using only_user_trans [OF s1(2) s2(2)] by (simp add: only_user_def the_user_def)
  with s1 s2 A1(3) show ?thesis by (intro exI [of _ s1] exI [of _ s2]) simp
qed


section \<open>An offer for more time\<close>

text \<open>The offer for a machine in use is taken exactly when the draw is within the acceptance rate: the answer
  goes back to the centre that made it, with an hour more and the extension counted, or as a refusal after
  which the machine is finished.  A machine that is finished, or whose user is, is always given up.
\<close>

theorem offer_answered:
  assumes "trace m \<noteq> []" "a < length (ud_objects s)" "user_ok (the_user a s)" "ve_vmId offer \<in> set (machine_ids (the_user a s))"
    and "ud_extensions s (ve_vmId offer) = Some k" "getVmInstanceState (ve_vmId offer) (the_user a s) = Inr st"
  shows "\<exists>s'. handleVmExtendRequest (\<lambda>s. (decidesToRescueVm dice s, s)) now m offer a s = Inr s' \<and>
    (if \<not> ci_finished (the_user a s) \<and> st \<noteq> vmFinished \<and> dice \<le> ud_acceptanceRate s
     then bodies_sent s' = bodies_sent s @ [VmExt (offer\<lparr>ve_result := SM_ExtensionOffer_Accept, ve_accepted := True,
            ve_extensionTime := 3600, ve_isResponse := True, ve_destinationTopic := ve_returnTopic offer\<rparr>)] \<and>
          ud_extensions s' (ve_vmId offer) = Some (k + 1) \<and> the_user a s' = the_user a s
     else bodies_sent s' = bodies_sent s @ [VmExt (offer\<lparr>ve_result := SM_ExtensionOffer_Reject, ve_accepted := False,
            ve_extensionTime := ve_extensionTime offer, ve_isResponse := True, ve_destinationTopic := ve_returnTopic offer\<rparr>)] \<and>
          ud_extensions s' = ud_extensions s \<and> getVmInstanceState (ve_vmId offer) (the_user a s') = Inr vmFinished)"
proof -
  let ?v = "ve_vmId offer" and ?s1 = "ud_emit FailSignal (ve_vmId offer) a s"
  have send: "ud_send (m\<lparr>env_body := b\<rparr>) t = Inr (t\<lparr>ud_core := send_via (m\<lparr>env_body := b\<rparr>) (ud_toCloudProvider t) (ud_core t)\<rparr>)" for b t
    using assms(1) by (simp add: ud_send_def sendRequest_def isTraceEmpty_def)
  have ext: "count_extension ?v ?s1 = Inr (?s1\<lparr>ud_extensions := (ud_extensions s)(?v \<mapsto> k + 1)\<rparr>)"
    using assms(5) by (simp add: count_extension_def ud_emit_def)
  obtain u where u: "updateVmInstanceStatus now ?v vmFinished (the_user a s) = Inr u" "user_ok u" "machine_ids u = machine_ids (the_user a s)"
      "\<And>e. e \<in> set (flattened (ci_vmGroupedInstances u)) \<Longrightarrow> vi_id e = ?v \<Longrightarrow> vi_state e = vmFinished"
    by (rule status_update [OF assms(3,4), of now vmFinished]) (rule that)
  have upd: "try_user a (updateVmInstanceStatus now ?v vmFinished) ?s1 = Inr (set_user a u ?s1)" by (simp add: try_user_def u(1))
  obtain j where j: "j < getTotalVMs u" "vi_id (flattened (ci_vmGroupedInstances u) ! j) = ?v"
    using assms(4) u(3) by (auto simp: machine_ids_def getTotalVMs_def in_set_conv_nth dest: map_eq_imp_length_eq) (metis length_map nth_map)
  then have "ci_vmIdMap u ?v = Some j" using u(2) by (simp add: user_ok_def machines_found_def)
  then have fin: "getVmInstanceState ?v u = Inr vmFinished"
    using j u(4) by (simp add: getVmInstanceState_def getTotalVMs_def)
  show ?thesis
  proof (cases "\<not> ci_finished (the_user a s) \<and> st \<noteq> vmFinished \<and> dice \<le> ud_acceptanceRate s")
    case True
    then show ?thesis using assms(6) ext
      by (simp add: handleVmExtendRequest_def Let_def send decidesToRescueVm_def)
        (simp add: ud_emit_def bodies_sent_def send_via_def the_user_def)
  next
    case False
    then have h: "handleVmExtendRequest (\<lambda>s. (decidesToRescueVm dice s, s)) now m offer a s =
        ud_send (m\<lparr>env_body := VmExt (offer\<lparr>ve_result := SM_ExtensionOffer_Reject, ve_accepted := False,
            ve_extensionTime := ve_extensionTime offer, ve_isResponse := True, ve_destinationTopic := ve_returnTopic offer\<rparr>)\<rparr>) (set_user a u ?s1)"
      using assms(6) upd
      by (cases "ci_finished (the_user a s)"; cases "st = vmFinished")
        (simp_all add: handleVmExtendRequest_def Let_def decidesToRescueVm_def)
    show ?thesis unfolding if_not_P [OF False] h using fin assms(2)
      by (simp add: send) (simp add: ud_emit_def bodies_sent_def send_via_def set_user_def)
  qed
qed


section \<open>A concrete user\<close>

definition app_user :: CloudUserPriority where
  "app_user = (insertApplication (Some (new_Application ''cpu'' ''LocalApplication'' ''path'')) 1 sample_user)\<lparr>us_numInstances := 2\<rparr>"

definition app_driver :: UserDriver where
  "app_driver = (case for_each add_user_type [(0, app_user)] fresh_driver of Inr s \<Rightarrow> s | Inl _ \<Rightarrow> fresh_driver)"

definition answer_of :: "UserDriver \<Rightarrow> nat \<Rightarrow> SM_UserVM" where
  "answer_of s a = (let rq = vm_request_of (sample_params False) (the_user a s)
     in rq\<lparr>uv_isResponse := True, uv_result := SM_VM_Res_Accept,
          uv_vm := map (\<lambda>vm. vm\<lparr>rq_response := \<lparr>rsp_startTime = 5, rsp_price = 0, rsp_state = ACCEPTED, rsp_ip = ''dc::blade0''\<rparr>\<rparr>) (uv_vm rq)\<rparr>)"

lemma app_driver_created: "for_each add_user_type (enumerate 0 [app_user]) fresh_driver = Inr app_driver"
proof -
  have "is_ok (for_each add_user_type [(0, app_user)] fresh_driver)" by code_simp
  then show ?thesis by (auto simp: is_ok_iff app_driver_def split: sum.splits)
qed

lemma app_driver_ok: "user_ok (the_user 0 app_driver)"
proof -
  have start: "created_as [] fresh_driver" by (simp add: created_as_def fresh_driver_def ud_start_def)
  have "created_as ([] @ instances_from 0 [app_user]) app_driver"
    using add_user_types_created [OF app_driver_created start] numbering_instances [of "[app_user]"]
    by (simp add: fresh_driver_def ud_start_def)
  moreover have n: "us_numInstances app_user = 2" by (simp add: app_user_def)
  ultimately have "new_CloudUserInstance app_user 0 0 0 2 = Inr (the_user 0 app_driver)"
    by (auto simp: created_as_def instances_from_Cons instances_from_def n numeral_2_eq_2)
  then show ?thesis by (rule new_user_ok)
qed

definition accept_message :: DcMessage where
  "accept_message = with_body (UserVm (answer_of app_driver 0))"

lemma accept_message_ok: "accepted_for accept_message (answer_of app_driver 0) 0 app_driver"
proof -
  have "uv_operation (answer_of app_driver 0) = SM_VM_Req_op \<and> uv_result (answer_of app_driver 0) = SM_VM_Res_Accept \<and>
      ud_byId app_driver (uv_userId (answer_of app_driver 0)) = Some 0 \<and> 0 < length (ud_objects app_driver) \<and>
      \<not> ud_startTimes app_driver \<and> machine_ids (the_user 0 app_driver) \<noteq> [] \<and> deployable (answer_of app_driver 0) (the_user 0 app_driver)"
    by code_simp
  with app_driver_ok show ?thesis
    by (simp add: accepted_for_def accept_message_def with_body_def SIMCAN_Message.extend_def)
qed

theorem accepted_user_finishes_witness:
  "\<exists>s'. ud_processResponseMessage (newUserModelInstance 0) 9 accept_message app_driver = Inr s' \<and>
     ci_finished (the_user 0 s') \<and> the_user 1 s' = the_user 1 app_driver \<and>
     bodies_sent s' = bodies_sent app_driver @ map UserApp (deployed_apps (answer_of app_driver 0) (the_user 0 app_driver))"
  using accepted_user_finishes [OF accept_message_ok, of 0 9] by auto

definition end_message :: DcMessage where
  "end_message = with_body (UserApp \<lparr>ua_operation = SM_APP_Req, ua_isResponse = True, ua_result = SM_APP_Res_Accept, ua_destinationTopic = [],
     ua_returnTopic = [], ua_vmId = hd (machine_ids (the_user 0 app_driver)), ua_hypervisorUrl = [],
     ua_userId = uv_userId (answer_of app_driver 0), ua_app = [], ua_nFinishedApps = 1, ua_finished = True\<rparr>)"

theorem one_user_counts_twice_witness:
  "\<exists>s1 s2. ud_processResponseMessage (newUserModelInstance 0) 9 accept_message app_driver = Inr s1 \<and>
     ud_processResponseMessage (newUserModelInstance 0) 20 end_message s1 = Inr s2 \<and> ud_ended s2 \<and>
     \<not> ci_finished (the_user 1 s2)"
proof -
  have c: "int (length (ud_instances app_driver)) \<le> ud_nFinished app_driver + 2 \<and> \<not> ci_finished (the_user 1 app_driver) \<and>
      machine_ids (the_user 0 app_driver) \<noteq> []" by code_simp
  obtain ap where ap: "env_body end_message = UserApp ap" "ua_operation ap = SM_APP_Req" "ua_result ap = SM_APP_Res_Accept"
      "ua_userId ap = uv_userId (answer_of app_driver 0)" "ua_vmId ap = hd (machine_ids (the_user 0 app_driver))"
    by (simp add: end_message_def with_body_def SIMCAN_Message.extend_def)
  have "ua_vmId ap \<in> set (machine_ids (the_user 0 app_driver))" using c ap(5) by simp
  from one_user_counts_twice [OF accept_message_ok ap(1-4) this, of 0 9 20] c show ?thesis by auto
qed

definition offer_message :: DcMessage where
  "offer_message = (with_body (VmExt (new_VmExtend\<lparr>ve_vmId := hd (machine_ids (the_user 0 app_driver)), ve_returnTopic := ''dc''\<rparr>)))
     \<lparr>trace := [(''users'', [])]\<rparr>"

theorem offer_answered_witness:
  "\<exists>s'. handleVmExtendRequest (\<lambda>s. (decidesToRescueVm (1 / 4) s, s)) 30 offer_message
       (new_VmExtend\<lparr>ve_vmId := hd (machine_ids (the_user 0 app_driver)), ve_returnTopic := ''dc''\<rparr>) 0 (initializeHashMaps app_driver) = Inr s' \<and>
     ud_extensions s' (hd (machine_ids (the_user 0 app_driver))) = Some 1"
proof -
  let ?s = "initializeHashMaps app_driver" and ?v = "hd (machine_ids (the_user 0 app_driver))"
  let ?offer = "new_VmExtend\<lparr>ve_vmId := ?v, ve_returnTopic := ''dc''\<rparr>"
  have c: "0 < length (ud_objects ?s) \<and> ?v \<in> set (machine_ids (the_user 0 ?s)) \<and> ud_extensions ?s ?v = Some 0 \<and>
      getVmInstanceState ?v (the_user 0 ?s) = Inr vmIdle \<and> \<not> ci_finished (the_user 0 ?s) \<and> (1 / 4 :: rat) \<le> ud_acceptanceRate ?s" by code_simp
  have "user_ok (the_user 0 ?s)" using app_driver_ok by (simp add: initializeHashMaps_def the_user_def)
  from offer_answered [of offer_message 0 ?s ?offer 0 vmIdle "1 / 4" 30] this c show ?thesis
    by (auto simp: offer_message_def new_VmExtend_def)
qed

end
