(* ===== verification/UserCloud.thy ===== *)
theory UserCloud
  imports UserAnswers DcManager
begin

text \<open>
  Users and data centres together: the answer of a data centre to a user's own request is one the user's
  model can handle, and the applications the user then sends are ones no data centre can.
\<close>

section \<open>A request from the user to the centre and back\<close>

text \<open>The request of a user on its way: the queues have set its topics.\<close>

definition routed :: "string \<Rightarrow> string \<Rightarrow> SM_UserVM \<Rightarrow> SM_UserVM" where
  "routed destination return rq = rq\<lparr>uv_destinationTopic := destination, uv_returnTopic := return\<rparr>"

lemma granted_ids:
  assumes "length rs = length vms"
  shows "map rq_vmId (granted now s rs vms) = map rq_vmId vms"
    and "list_all (\<lambda>vm. rsp_state (rq_response vm) = ACCEPTED) (granted now s rs vms)"
    and "length (granted now s rs vms) = length vms"
proof -
  show "map rq_vmId (granted now s rs vms) = map rq_vmId vms"
    using assms by (simp add: list_eq_iff_nth_eq granted_def grant_def)
  show "list_all (\<lambda>vm. rsp_state (rq_response vm) = ACCEPTED) (granted now s rs vms)"
    using assms by (simp add: list_all_length granted_def grant_def)
  show "length (granted now s rs vms) = length vms" using assms by (simp add: granted_def)
qed

lemma granted_accepted_for:
  assumes "rq = routed d r (vm_request_of p (the_user a ud))" "length rs = length (uv_vm rq)"
    and "ud_byId ud (ui_id (the_user a ud)) = Some a" "a < length (ud_objects ud)" "\<not> ud_startTimes ud"
    and "user_ok (the_user a ud)" "machine_ids (the_user a ud) \<noteq> []"
    and "length (ui_applications (the_user a ud)) \<le> length (machine_ids (the_user a ud))"
    and "list_all (\<lambda>c. length (ac_appInstances c) \<le> 5) (ui_applications (the_user a ud))"
  shows "accepted_for (m\<lparr>env_body := UserVm (dc_answer s SM_VM_Res_Accept (granted_request now s rs rq))\<rparr>)
    (dc_answer s SM_VM_Res_Accept (granted_request now s rs rq)) a ud"
proof -
  have ids: "map rq_vmId (uv_vm rq) = machine_ids (the_user a ud)"
    by (simp add: assms(1) routed_def vm_request_of_def new_UserVm_def machine_ids_def comp_def)
  then have l: "length (uv_vm rq) = length (machine_ids (the_user a ud))" by (metis length_map)
  have "deployable (dc_answer s SM_VM_Res_Accept (granted_request now s rs rq)) (the_user a ud)"
    using granted_ids [OF assms(2)] ids l assms(8,9) by (simp add: deployable_def dc_answer_def granted_request_def)
  moreover have "uv_userId rq = ui_id (the_user a ud)" by (simp add: assms(1) routed_def vm_request_of_def)
  ultimately show ?thesis
    using assms(3-7) by (simp add: accepted_for_def dc_answer_def granted_request_def)
qed

text \<open>C29.  A user's own request that a data centre can place comes back as an answer the user's model handles: the
  user sends one message per centre with the applications of each machine, nothing is left to reject, and
  the user and all its machines count as finished on this answer, before any application has run; by the
  comment of \<open>BaseUserModel::deployApps\<close> only machines without applications should.
\<close>

theorem request_comes_back:
  assumes "tryDecapsulate msg = Some m" "from_queue m s" "env_body m = UserVm rq"
    and "rq = routed d r (vm_request_of p (the_user a ud))"
    and "allocateVms select vm_of rq (dc_pool s) = Inr (Some rs, pool', sigs)" "hosts_named s"
    and "ud_byId ud (ui_id (the_user a ud)) = Some a" "a < length (ud_objects ud)" "\<not> ud_startTimes ud"
    and "user_ok (the_user a ud)" "machine_ids (the_user a ud) \<noteq> []"
    and "length (ui_applications (the_user a ud)) \<le> length (machine_ids (the_user a ud))"
    and "list_all (\<lambda>c. length (ac_appInstances c) \<le> 5) (ui_applications (the_user a ud))"
  shows "\<exists>s' x ans ud'. dc_handleMessage select vm_of tok now msg s = Inr s' \<and>
    sent (dc_core s') = sent (dc_core s) @ [(x, dc_queueOut s)] \<and> env_body x = UserVm ans \<and>
    ud_processResponseMessage (newUserModelInstance dice) t x ud = Inr ud' \<and> ci_finished (the_user a ud') \<and>
    (\<forall>e\<in>set (flattened (ci_vmGroupedInstances (the_user a ud'))). vi_state e = vmFinished) \<and>
    bodies_sent ud' = bodies_sent ud @ map UserApp (deployed_apps ans (the_user a ud))"
proof -
  let ?ans = "dc_answer s SM_VM_Res_Accept (granted_request now s rs rq)"
  let ?x = "m\<lparr>env_body := UserVm ?ans\<rparr>"
  have op: "uv_operation rq = SM_VM_Req_op" by (simp add: assms(4) routed_def vm_request_of_def)
  obtain s' where s': "dc_handleMessage select vm_of tok now msg s = Inr s'" "sent (dc_core s') = sent (dc_core s) @ [(?x, dc_queueOut s)]"
    using request_answered [OF assms(1-3) op assms(5,6), of tok now] by auto
  have "map (Some o rec_vmTemplate) rs = map (vm_of o rq_vmType) (uv_vm rq)"
    using allocateVms_result [OF assms(5)] by simp
  then have l: "length rs = length (uv_vm rq)" by (metis length_map)
  obtain ud' where "ud_processResponseMessage (newUserModelInstance dice) t ?x ud = Inr ud'" "ci_finished (the_user a ud')"
      "\<forall>e\<in>set (flattened (ci_vmGroupedInstances (the_user a ud'))). vi_state e = vmFinished"
      "bodies_sent ud' = bodies_sent ud @ map UserApp (deployed_apps ?ans (the_user a ud))"
    using accepted_result [OF granted_accepted_for [OF assms(4) l assms(7-13)]] by blast
  with s' show ?thesis by (intro exI [of _ s'] exI [of _ ?x] exI [of _ ?ans] exI [of _ ud']) simp
qed

section \<open>The applications\<close>

lemma deployed_apps_plain:
  "ap \<in> set (deployed_apps rq u) \<Longrightarrow> ua_hypervisorUrl ap = [] \<and> ua_operation ap = SM_APP_Req \<and> \<not> ua_isResponse ap"
  by (auto simp: deployed_apps_def builder_finish_def)

text \<open>The applications a user of the generator deploys carry no hypervisor url, so every data centre they reach
  stops the simulation.
\<close>

theorem applications_not_deliverable:
  assumes "tokenizes tok" "ap \<in> set (deployed_apps rq u)"
    and "tryDecapsulate msg = Some m" "from_queue m s" "env_body m = UserApp ap"
  shows "dc_handleMessage select vm_of tok now msg s = Inl (RuntimeError ''Invalid hypervisor url'')"
proof -
  obtain t c where h: "dc_handleMessage select vm_of tok now msg s =
       and_then (dc_processRequestMessage select vm_of tok now (m\<lparr>trace := t\<rparr>) (s\<lparr>dc_core := c\<rparr>))
         (\<lambda>(s', _). Inr (s'\<lparr>dc_core := (dc_core s')\<lparr>queue := []\<rparr>\<rparr>))"
    by (rule request_entry [OF assms(3,4), of select vm_of tok now]) blast
  have "tok [] ''::'' = []" using assms(1) by (simp add: tokenizes_def)
  then have "resolveHypervisorUrl tok (ua_hypervisorUrl ap) (s\<lparr>dc_core := c\<rparr>) = Inl (RuntimeError ''Invalid hypervisor url'')"
    using deployed_apps_plain [OF assms(2)] by (simp add: resolveHypervisorUrl_def)
  then have "dc_processRequestMessage select vm_of tok now (m\<lparr>trace := t\<rparr>) (s\<lparr>dc_core := c\<rparr>) =
      Inl (RuntimeError ''Invalid hypervisor url'')"
    using assms(5) deployed_apps_plain [OF assms(2)] by (simp add: dc_processRequestMessage_def handleApplicationRequest_def)
  with h show ?thesis by simp
qed


section \<open>A user and a centre\<close>

definition routed_request :: SM_UserVM where
  "routed_request = routed ''dc'' ''users'' (vm_request_of (sample_params False) (the_user 0 app_driver))"

lemma app_user_facts:
  "ud_byId app_driver (ui_id (the_user 0 app_driver)) = Some 0" "0 < length (ud_objects app_driver)" "\<not> ud_startTimes app_driver"
  "machine_ids (the_user 0 app_driver) \<noteq> []" "length (ui_applications (the_user 0 app_driver)) \<le> length (machine_ids (the_user 0 app_driver))"
  "list_all (\<lambda>c. length (ac_appInstances c) \<le> 5) (ui_applications (the_user 0 app_driver))"
  by code_simp+

lemma routed_request_placed:
  obtains rs pool' sigs where "allocateVms best_fit catalogue routed_request (dc_pool dc_example) = Inr (Some rs, pool', sigs)"
proof -
  have "case allocateVms (bestFit_selectNode sorted_heap) catalogue routed_request
     (two_node_pool\<lparr>nodes := [(node_with 2 500 4096)\<lparr>address := 0\<rparr>, (node_with 4 200 2048)\<lparr>address := 1\<rparr>]\<rparr>) of
       Inr (Some rs, _) \<Rightarrow> True | _ \<Rightarrow> False"
    by code_simp
  then show thesis
    by (auto split: sum.splits option.splits prod.splits simp: best_fit_def dc_example_def intro: that)
qed

theorem request_comes_back_witness:
  "\<exists>s' x ans ud'. dc_handleMessage best_fit catalogue (char_tokens []) 5 (Payload (dc_message (UserVm routed_request))) dc_example = Inr s' \<and>
     sent (dc_core s') = sent (dc_core dc_example) @ [(x, dc_queueOut dc_example)] \<and> env_body x = UserVm ans \<and>
     ud_processResponseMessage (newUserModelInstance 0) 6 x app_driver = Inr ud' \<and> ci_finished (the_user 0 ud')"
proof -
  obtain rs pool' sigs where a: "allocateVms best_fit catalogue routed_request (dc_pool dc_example) = Inr (Some rs, pool', sigs)"
    by (rule routed_request_placed)
  have r: "\<not> body_isResponse (UserVm routed_request)" by (simp add: routed_request_def routed_def vm_request_of_def)
  from request_comes_back [OF dc_example_ok(4) dc_example_ok(1) [OF r] dc_example_ok(2) routed_request_def a dc_example_ok(3)
      app_user_facts(1-3) app_driver_ok app_user_facts(4-6), of "char_tokens []" 5 0 6]
  show ?thesis by blast
qed

theorem applications_not_deliverable_witness:
  "\<exists>ap. ap \<in> set (deployed_apps (answer_of app_driver 0) (the_user 0 app_driver)) \<and>
     dc_handleMessage best_fit catalogue (char_tokens []) 5 (Payload (dc_message (UserApp ap))) dc_example =
       Inl (RuntimeError ''Invalid hypervisor url'')"
proof -
  have "deployed_apps (answer_of app_driver 0) (the_user 0 app_driver) \<noteq> []" by code_simp
  then obtain ap where ap: "ap \<in> set (deployed_apps (answer_of app_driver 0) (the_user 0 app_driver))"
    by (meson list.set_intros(1) neq_Nil_conv list.set_sel(1))
  have r: "\<not> body_isResponse (UserApp ap)" using deployed_apps_plain [OF ap] by simp
  from applications_not_deliverable [OF char_tokens_tokenizes ap dc_example_ok(4) dc_example_ok(1) [OF r] dc_example_ok(2)] ap
  show ?thesis by blast
qed

end
