(* ===== verification/UserCost.thy ===== *)
theory UserCost
  imports UserGeneration
begin

text \<open>
  The statistics of \<open>users/generators/UserGeneratorCost\<close>: what the users waited, what they paid by the service
  level agreement of their type and what they were compensated.  Values of type \<open>double\<close> are rationals.
\<close>

section \<open>What a machine costs a user\<close>

definition slaZero :: VMCost where
  "slaZero = \<lparr>base_cost = 0, cost_increase = 0, cost_discount = 0, cost_compensation = 0\<rparr>"

text \<open>
  \<open>pvmCost == nullptr ? *pvmCost : slaZero\<close>: the map's checked access never gives a null pointer, so what
  it gives is not used.
\<close>

definition selected_cost :: "Sla option \<Rightarrow> string \<Rightarrow> VMCost outcome" where
  "selected_cost pSla vmType =
     (case pSla of
        None \<Rightarrow> Inl (Undefined ''null agreement'')
      | Some sla \<Rightarrow> and_then (getVmCost vmType sla) (\<lambda>_. Inr slaZero))"

text \<open>The cost of one instance for an hour, from the flags of the user: timed out, prioritised, subscribed.\<close>

definition instance_cost :: "bool \<Rightarrow> bool \<Rightarrow> bool \<Rightarrow> VMCost \<Rightarrow> rat" where
  "instance_cost timedOut priorized subscribed c =
     (if priorized
      then if timedOut then base_cost c * (-1 * cost_compensation c) else base_cost c + base_cost c * cost_increase c
      else if timedOut then 0
      else if subscribed then base_cost c - base_cost c * cost_discount c else base_cost c)"

record CostStatistics =
  cs_totalSub :: rat
  cs_totalCost :: rat
  cs_totalOfferCost :: rat
  cs_noWaitUsers :: nat
  cs_waitUsers :: nat
  cs_totalUnprovided :: nat
  cs_pUnprovided :: nat
  cs_rUnprovided :: nat
  cs_pProvided :: nat
  cs_prProvided :: nat
  cs_rProvided :: nat
  cs_rentTimeout :: nat
  cs_acceptOffer :: int
  cs_usersAcceptOffer :: nat

definition empty_costs :: CostStatistics where
  "empty_costs = \<lparr>cs_totalSub = 0, cs_totalCost = 0, cs_totalOfferCost = 0, cs_noWaitUsers = 0, cs_waitUsers = 0,
     cs_totalUnprovided = 0, cs_pUnprovided = 0, cs_rUnprovided = 0, cs_pProvided = 0, cs_prProvided = 0,
     cs_rProvided = 0, cs_rentTimeout = 0, cs_acceptOffer = 0, cs_usersAcceptOffer = 0\<rparr>"

section \<open>Groups of machines\<close>

text \<open>The state of the loops over one user: \<open>dUserCost\<close>, \<open>dTotalOfferCost\<close>, \<open>nAcceptOffer\<close>, \<open>bUserAcceptOffer\<close>.\<close>

type_synonym user_costs = "rat \<times> rat \<times> int \<times> bool"

definition add_instance_cost :: "UserDriver \<Rightarrow> rat \<Rightarrow> rat \<Rightarrow> VmInstance \<Rightarrow> user_costs \<Rightarrow> user_costs outcome" where
  "add_instance_cost s increase base vm = (\<lambda>(cost, offers, accepted, any).
     and_then (extension_of s (vi_id vm)) (\<lambda>ext.
       let offer = of_int ext * (base + base * increase)
       in Inr (cost + offer, offers + offer, accepted + ext, any \<or> 0 < ext)))"

definition add_group_cost ::
  "UserDriver \<Rightarrow> rat \<Rightarrow> Sla option \<Rightarrow> (VMCost \<Rightarrow> rat) \<Rightarrow> VmInstanceType \<times> VmInstance list \<Rightarrow> user_costs \<Rightarrow> user_costs outcome" where
  "add_group_cost s increase pSla cost_of = (\<lambda>(type, vms) (cost, offers, accepted, any).
     and_then (selected_cost pSla (vm_type (vt_base type))) (\<lambda>c.
       let base = cost_of c;
           renting = of_int (sint (ucast (vt_rentingTime type) :: 32 word)) * base * of_int (vt_numInstances type)
       in for_each (add_instance_cost s increase base) vms (cost + renting, offers, accepted, any)))"

section \<open>Users\<close>

definition waiting_time :: "bool \<Rightarrow> CloudUserInstance \<Rightarrow> rat \<Rightarrow> rat" where
  "waiting_time subscribed u maxSubHours =
     (let ts = times_convertToHours (ci_times u) in
      if \<not> subscribed then 0
      else if ci_timeout_t4 u then maxSubHours
      else if it_arrival2Cloud ts < it_initExec ts then of_int (it_initExec ts - it_arrival2Cloud ts) else 0)"

definition count_provision :: "bool \<Rightarrow> bool \<Rightarrow> CloudUserInstance \<Rightarrow> CostStatistics \<Rightarrow> CostStatistics" where
  "count_provision isPriority priorized u st =
     (if ci_timeout_t4 u
      then (if priorized then st\<lparr>cs_pUnprovided := Suc (cs_pUnprovided st)\<rparr>
            else st\<lparr>cs_rUnprovided := Suc (cs_rUnprovided st)\<rparr>)\<lparr>cs_totalUnprovided := Suc (cs_totalUnprovided st)\<rparr>
      else let st1 = (if isPriority
                      then if priorized then st\<lparr>cs_pProvided := Suc (cs_pProvided st)\<rparr>
                           else st\<lparr>cs_prProvided := Suc (cs_prProvided st)\<rparr>
                      else st\<lparr>cs_rProvided := Suc (cs_rProvided st)\<rparr>)
           in if ci_timeout_t2 u then st1\<lparr>cs_rentTimeout := Suc (cs_rentTimeout st1)\<rparr> else st1)"

definition add_user_cost :: "DataRepository \<Rightarrow> rat \<Rightarrow> UserDriver \<Rightarrow> nat \<Rightarrow> CostStatistics \<Rightarrow> CostStatistics outcome" where
  "add_user_cost r increase s a st =
     (let u = the_user a s in
      case searchUser r (ui_type u) of
        None \<Rightarrow> Inl (RuntimeError ''Could not cast CloudUser* to CloudUserPriority* (wrong userType or class?)'')
      | Some cu \<Rightarrow>
          and_then (hasSubscribed u) (\<lambda>subscribed.
          case ud_priorized s (ui_id u) of
            None \<Rightarrow> Inl OutOfRange
          | Some priorized \<Rightarrow>
              let maxSub = maxSubscriptionTime (uo_requestTimes (ud_objects s ! a)) / 3600;
                  cost_of = instance_cost (ci_timeout_t4 u) priorized subscribed
              in and_then (for_each (add_group_cost s increase (searchSla r (cp_sla cu)) cost_of)
                     (groups (ci_vmGroupedInstances u)) (0, cs_totalOfferCost st, cs_acceptOffer st, False))
                   (\<lambda>(cost, offers, accepted, any).
                      let st1 = (if subscribed then st\<lparr>cs_waitUsers := Suc (cs_waitUsers st)\<rparr>
                                 else st\<lparr>cs_noWaitUsers := Suc (cs_noWaitUsers st)\<rparr>);
                          st2 = st1\<lparr>cs_totalSub := cs_totalSub st1 + waiting_time subscribed u maxSub,
                                cs_totalCost := cs_totalCost st1 + cost, cs_totalOfferCost := offers,
                                cs_acceptOffer := accepted,
                                cs_usersAcceptOffer := cs_usersAcceptOffer st1 + (if any then 1 else 0)\<rparr>
                      in Inr (count_provision (cp_priorityType cu = Priority) priorized u st2))))"

text \<open>The statistics, the mean waiting time and the mean cost.\<close>

definition cost_finish :: "DataRepository \<Rightarrow> rat \<Rightarrow> UserDriver \<Rightarrow> (CostStatistics \<times> rat \<times> rat) outcome" where
  "cost_finish r increase s =
     and_then (for_each (add_user_cost r increase s) (ud_instances s) empty_costs) (\<lambda>st.
       let n = of_nat (length (ud_instances s))
       in Inr (st, cs_totalSub st / n, cs_totalCost st / n))"


section \<open>Nobody pays\<close>

lemma instance_cost_zero [simp]: "instance_cost t p b slaZero = 0"
  by (simp add: instance_cost_def slaZero_def)

lemma add_instance_costs_zero:
  assumes "for_each (add_instance_cost s increase 0) vms (cost, offers, accepted, any) = Inr (cost', offers', accepted', any')"
  shows "cost' = cost \<and> offers' = offers"
  using assms by (induction vms arbitrary: accepted any) (auto simp: add_instance_cost_def and_then_eq_Inr)

lemma add_group_costs_zero:
  assumes "for_each (add_group_cost s increase pSla (instance_cost t p b)) gs (cost, offers, accepted, any) = Inr (cost', offers', accepted', any')"
  shows "cost' = cost \<and> offers' = offers"
  using assms
proof (induction gs arbitrary: accepted any)
  case (Cons g gs)
  obtain type vms where g: "g = (type, vms)" by (cases g)
  obtain c1 o1 a1 n1 where r: "for_each (add_instance_cost s increase 0) vms (cost, offers, accepted, any) = Inr (c1, o1, a1, n1)"
      "for_each (add_group_cost s increase pSla (instance_cost t p b)) gs (c1, o1, a1, n1) = Inr (cost', offers', accepted', any')"
    using Cons.prems by (auto simp: g add_group_cost_def selected_cost_def and_then_eq_Inr Let_def split: option.splits)
  from add_instance_costs_zero [OF r(1)] Cons.IH r(2) show ?case by simp
qed simp

definition no_costs :: "CostStatistics \<Rightarrow> bool" where
  "no_costs st \<longleftrightarrow> cs_totalCost st = 0 \<and> cs_totalOfferCost st = 0"

definition users_counted :: "nat \<Rightarrow> CostStatistics \<Rightarrow> bool" where
  "users_counted n st \<longleftrightarrow> cs_waitUsers st + cs_noWaitUsers st = n \<and>
     cs_totalUnprovided st = cs_pUnprovided st + cs_rUnprovided st \<and>
     cs_totalUnprovided st + cs_pProvided st + cs_prProvided st + cs_rProvided st = n"

lemma add_user_cost_step:
  assumes "add_user_cost r increase s a st = Inr st'" "no_costs st" "users_counted n st"
  shows "no_costs st' \<and> users_counted (Suc n) st'"
proof -
  obtain cu subscribed priorized where u: "searchUser r (ui_type (the_user a s)) = Some cu" "hasSubscribed (the_user a s) = Inr subscribed"
      "ud_priorized s (ui_id (the_user a s)) = Some priorized"
    using assms(1) by (auto simp: add_user_cost_def and_then_eq_Inr Let_def split: option.splits)
  let ?maxSub = "maxSubscriptionTime (uo_requestTimes (ud_objects s ! a)) / 3600"
  obtain cost offers accepted any where g: "for_each (add_group_cost s increase (searchSla r (cp_sla cu))
        (instance_cost (ci_timeout_t4 (the_user a s)) priorized subscribed)) (groups (ci_vmGroupedInstances (the_user a s)))
        (0, cs_totalOfferCost st, cs_acceptOffer st, False) = Inr (cost, offers, accepted, any)"
    using assms(1) u by (auto simp: add_user_cost_def and_then_eq_Inr Let_def)
  from add_group_costs_zero [OF g] have z: "cost = 0" "offers = cs_totalOfferCost st" by simp_all
  define st1 where "st1 = (if subscribed then st\<lparr>cs_waitUsers := Suc (cs_waitUsers st)\<rparr>
      else st\<lparr>cs_noWaitUsers := Suc (cs_noWaitUsers st)\<rparr>)"
  define st2 where "st2 = st1\<lparr>cs_totalSub := cs_totalSub st1 + waiting_time subscribed (the_user a s) ?maxSub,
      cs_totalCost := cs_totalCost st1 + cost, cs_totalOfferCost := offers, cs_acceptOffer := accepted,
      cs_usersAcceptOffer := cs_usersAcceptOffer st1 + (if any then 1 else 0)\<rparr>"
  have st': "st' = count_provision (cp_priorityType cu = Priority) priorized (the_user a s) st2"
    using assms(1) u g by (simp add: add_user_cost_def Let_def st2_def st1_def)
  have "no_costs st2" using assms(2) z by (simp add: no_costs_def st2_def st1_def)
  then have "no_costs st'" by (simp add: st' no_costs_def count_provision_def Let_def)
  moreover have "cs_waitUsers st2 + cs_noWaitUsers st2 = Suc n" "cs_totalUnprovided st2 = cs_pUnprovided st2 + cs_rUnprovided st2"
    "cs_totalUnprovided st2 + cs_pProvided st2 + cs_prProvided st2 + cs_rProvided st2 = n"
    using assms(3) by (simp_all add: users_counted_def st2_def st1_def)
  then have "users_counted (Suc n) st'" by (simp add: st' users_counted_def count_provision_def Let_def)
  ultimately show ?thesis by simp
qed

text \<open>The statistics of the costs count every user once, as waiting or not and as provided or not; and
  whatever the agreements, the users and the extensions, the costs and the mean cost are 0.
\<close>

theorem nobody_pays:
  assumes "cost_finish r increase s = Inr (st, meanSub, meanCost)"
  shows "cs_totalCost st = 0 \<and> cs_totalOfferCost st = 0 \<and> meanCost = 0 \<and> users_counted (length (ud_instances s)) st"
proof -
  have f: "for_each (add_user_cost r increase s) (ud_instances s) empty_costs = Inr st" "meanCost = cs_totalCost st / of_nat (length (ud_instances s))"
    using assms by (auto simp: cost_finish_def and_then_eq_Inr Let_def)
  have "no_costs st' \<and> users_counted (n + length as) st'"
    if "for_each (add_user_cost r increase s) as st0 = Inr st'" "no_costs st0" "users_counted n st0" for as st0 st' n
    using that
  proof (induction as arbitrary: st0 n)
    case (Cons a as)
    obtain st1 where "add_user_cost r increase s a st0 = Inr st1" "for_each (add_user_cost r increase s) as st1 = Inr st'"
      using Cons.prems(1) by (auto simp: and_then_eq_Inr)
    with add_user_cost_step [OF this(1) Cons.prems(2,3)] Cons.IH [of st1 "Suc n"] show ?case by simp
  qed simp
  from this [OF f(1), of 0] have "no_costs st \<and> users_counted (length (ud_instances s)) st"
    by (simp add: no_costs_def users_counted_def empty_costs_def)
  with f(2) show ?thesis by (simp add: no_costs_def)
qed


section \<open>Two users and their bill\<close>

definition cost_repository :: DataRepository where
  "cost_repository = empty_repository\<lparr>userMap := [(''bob'', hd two_users)],
     slaMap := [(''gold'', addVmCost ''small'' 3 (1 / 2) (1 / 4) 2 (new_Sla ''gold''))]\<rparr>"

text \<open>Both have waited, and every machine was extended once.\<close>

definition cost_driver :: UserDriver where
  "cost_driver = (case for_each add_user_type (enumerate 0 two_users) fresh_driver of
     Inl _ \<Rightarrow> fresh_driver
   | Inr s \<Rightarrow> (cost_initializeHashMaps (on_user 0 (startSubscription 3) (on_user 1 (startSubscription 4) s)))
       \<lparr>ud_extensions := fold (\<lambda>v e. e(v \<mapsto> 1)) (all_machines s) Map.empty\<rparr>)"

theorem nobody_pays_witness:
  "\<exists>st meanSub meanCost. cost_finish cost_repository (1 / 2) cost_driver = Inr (st, meanSub, meanCost) \<and>
     cs_totalCost st = 0 \<and> cs_waitUsers st + cs_noWaitUsers st = 2 \<and> cs_acceptOffer st = 4"
proof -
  have c: "case cost_finish cost_repository (1 / 2) cost_driver of Inr (st, _, _) \<Rightarrow> cs_acceptOffer st = 4 | Inl _ \<Rightarrow> False"
    by code_simp
  have l: "length (ud_instances cost_driver) = 2" by code_simp
  obtain st meanSub meanCost where r: "cost_finish cost_repository (1 / 2) cost_driver = Inr (st, meanSub, meanCost)"
      "cs_acceptOffer st = 4" using c by (auto split: sum.splits)
  from nobody_pays [OF r(1)] r l show ?thesis by (intro exI [of _ st] exI [of _ meanSub] exI [of _ meanCost]) (simp add: users_counted_def)
qed

end
