(* ===== verification/Apps.thy ===== *)
theory Apps
  imports Hypervisor SimCore AppProxy
begin

text \<open>
  The base of the applications, \<open>apps/AppBase\<close>: the system calls an application sends to the operating
  system of its node, its sockets, the answers of its name resolver, and the callbacks it gives all of
  these to.  The sequential application built on it is in \<open>LocalApp\<close>, the networked ones in \<open>Endpoints\<close>.

  The state of a subclass extends the record of the base, and \<open>app_callback\<close> holds its \<open>ICallback\<close>.  A
  socket belongs to the network library: it is its id and its mode, what the code asks of it is an entry of
  \<open>ap_out\<close>, and what it tells the code is a \<open>sock_event\<close>; the id of a new socket is an argument.
\<close>

section \<open>Messages\<close>

datatype Verb = GET | POST | PUT | DELETE | HEAD

datatype ResponseCode = RC_OK | RC_NOT_FOUND | RC_INTERNAL_ERROR

text \<open>The packets the applications exchange: \<open>RestfulRequest\<close> (its verb is \<open>None\<close> when the code does not set
  it, the size is given where the code sets one), \<open>RestfulResponse\<close>, and the commands to the actuators.\<close>

datatype app_packet =
    RestRequest "Verb option" string string "rat option"
  | RestResponse ResponseCode string string rat
  | PowerCommand bool
  | ControllerCommand int
  | ForeignPacket

datatype sock_mode = SOCK_DGRAM | SOCK_STREAM

datatype 'ip sock_event =
    TcpData app_packet | TcpAvailable int 'ip u16 | TcpEstablished | TcpPeerClosed | TcpClosed
  | TcpFailure int | TcpStatus | UdpData app_packet | UdpError | UdpClosed

text \<open>The kinds of the timer \<open>event\<close>, and a message an application sends to itself: that timer or another
  one with its kind and, for a packet, its socket and content.\<close>

datatype app_event = EXEC_START | POLL | POLL_TIMEOUT | SEND_DELAYED

datatype self_msg = EventTimer | KindTimer int | PacketTimer int app_packet

datatype 'ip app_msg =
    SelfMsg self_msg
  | CallMsg any_call
  | ResolverMsg "'ip list" bool
  | SocketMsg int "'ip sock_event"

datatype 'ip app_out =
    AskResolver string
  | BindSocket int sock_mode u16 string
  | ListenOn int
  | ConnectTo int 'ip u16
  | TcpSend int app_packet
  | UdpSend int app_packet u32 u16
  | CloseSocket int
  | AcceptOn int int
  | DestroySocket int
  | ProxyRequest ProxyServiceRequest
  | SelfTimer rat self_msg        \<comment> \<open>\<open>scheduleAt\<close> of a message other than \<open>event\<close>\<close>

section \<open>State\<close>

record 'ip AppBase =
  ap_core :: "any_call core"
  ap_pid :: u32
  ap_vmId :: u32
  ap_operationStart :: rat
  ap_resolver :: bool
  ap_startDelay :: rat
  ap_appInstance :: string
  ap_event :: app_event
  ap_eventAt :: "rat option"          \<comment> \<open>when \<open>event\<close> is due, if it is scheduled\<close>
  ap_outGate :: int
  ap_sockets :: "int \<Rightarrow> sock_mode option"
  ap_out :: "'ip app_out list"

definition app_emit :: "'ip app_out \<Rightarrow> ('ip, 'x) AppBase_scheme \<Rightarrow> ('ip, 'x) AppBase_scheme" where
  "app_emit x s = s\<lparr>ap_out := ap_out s @ [x]\<rparr>"

definition scheduleExecStart :: "rat \<Rightarrow> ('ip, 'x) AppBase_scheme \<Rightarrow> ('ip, 'x) AppBase_scheme" where
  "scheduleExecStart now s = s\<lparr>ap_event := EXEC_START, ap_eventAt := Some (now + ap_startDelay s)\<rparr>"

text \<open>\<open>initialize\<close>, on the state after the parameters have been read.\<close>

definition app_base_initialize :: "rat \<Rightarrow> ('ip, 'x) AppBase_scheme \<Rightarrow> ('ip, 'x) AppBase_scheme" where
  "app_base_initialize now s =
     scheduleExecStart now (s\<lparr>ap_core := core_initialize (modId (ap_core s)) (fullPath (ap_core s)),
       ap_sockets := Map.empty, ap_out := []\<rparr>)"

text \<open>\<open>finish\<close>; the sockets are destroyed in the order of the map.\<close>

definition app_base_finish :: "int list \<Rightarrow> ('ip, 'x) AppBase_scheme \<Rightarrow> ('ip, 'x) AppBase_scheme" where
  "app_base_finish ids s =
     (fold (\<lambda>i. app_emit (DestroySocket i)) ids s)\<lparr>ap_sockets := Map.empty, ap_eventAt := None\<rparr>"

section \<open>System calls\<close>

definition new_Syscall :: Syscall where
  "new_Syscall = SIMCAN_Message.extend ((new_SIMCAN_Message [])\<lparr>operation := SM_Syscall_Req\<rparr>)
     \<lparr>pid = 0, vmId = 0, opCode = 0\<rparr>"

definition new_DiskSyscall :: DiskSyscall where
  "new_DiskSyscall = Syscall.extend new_Syscall \<lparr>bufferSize = 0, abortIOs = False\<rparr>"

definition syscallFillData ::
  "u16 \<Rightarrow> ('ip, 'x) AppBase_scheme \<Rightarrow> 'a Syscall_scheme \<Rightarrow> 'a Syscall_scheme" where
  "syscallFillData code s m = m\<lparr>pid := sint (ap_pid s), vmId := sint (ap_vmId s), opCode := code\<rparr>"

text \<open>\<open>sendRequestMessage\<close>.  \<open>wrap\<close> gives the class of the message; a fresh message comes through no gate,
  so \<open>getOutGate\<close> finds none for it, and the queue of an application is empty.\<close>

definition send_as ::
  "('a SIMCAN_Message_scheme \<Rightarrow> any_call) \<Rightarrow> int \<Rightarrow> 'a SIMCAN_Message_scheme \<Rightarrow> any_call core \<Rightarrow> any_call core outcome" where
  "send_as wrap g m c =
     and_then (sendRequest None g m
         \<lparr>modId = modId c, fullPath = fullPath c, currentRequest = currentRequest c, queue = [], sent = []\<rparr>) (\<lambda>c'.
       Inr (c\<lparr>currentRequest := currentRequest c', sent := sent c @ map (\<lambda>(x, i). (wrap x, i)) (sent c')\<rparr>))"

definition app_sendRequest ::
  "('a SIMCAN_Message_scheme \<Rightarrow> any_call) \<Rightarrow> rat \<Rightarrow> 'a SIMCAN_Message_scheme \<Rightarrow> ('ip, 'x) AppBase_scheme \<Rightarrow>
     ('ip, 'x) AppBase_scheme outcome" where
  "app_sendRequest wrap now m s =
     and_then (send_as wrap (ap_outGate s) m (ap_core s)) (\<lambda>c.
       Inr (s\<lparr>ap_operationStart := now, ap_core := c\<rparr>))"

definition app_execute :: "rat \<Rightarrow> rat \<Rightarrow> ('ip, 'x) AppBase_scheme \<Rightarrow> ('ip, 'x) AppBase_scheme outcome" where
  "app_execute now MIs s =
     app_sendRequest CpuCall now (updateLength ((syscallFillData SYS_EXEC s new_SM_CPU_Message)
       \<lparr>operation := SM_ExecCpu, appInstance := ap_appInstance s, useMis := True, misToExecute := MIs\<rparr>)) s"

definition app_execute_time :: "rat \<Rightarrow> int \<Rightarrow> ('ip, 'x) AppBase_scheme \<Rightarrow> ('ip, 'x) AppBase_scheme outcome" where
  "app_execute_time now t s =
     app_sendRequest CpuCall now (updateLength ((syscallFillData SYS_EXEC s new_SM_CPU_Message)
       \<lparr>operation := SM_ExecCpu, appInstance := ap_appInstance s, useTime := True, cpuTime := t\<rparr>)) s"

definition app_read :: "rat \<Rightarrow> rat \<Rightarrow> ('ip, 'x) AppBase_scheme \<Rightarrow> ('ip, 'x) AppBase_scheme outcome" where
  "app_read now n s = app_sendRequest DiskCall now ((syscallFillData SYS_READ s new_DiskSyscall)\<lparr>bufferSize := n\<rparr>) s"

definition app_write :: "rat \<Rightarrow> rat \<Rightarrow> ('ip, 'x) AppBase_scheme \<Rightarrow> ('ip, 'x) AppBase_scheme outcome" where
  "app_write now n s = app_sendRequest DiskCall now ((syscallFillData SYS_WRITE s new_DiskSyscall)\<lparr>bufferSize := n\<rparr>) s"

definition app_exit :: "rat \<Rightarrow> ('ip, 'x) AppBase_scheme \<Rightarrow> ('ip, 'x) AppBase_scheme outcome" where
  "app_exit now s = app_sendRequest PlainCall now (syscallFillData SYS_EXIT s new_Syscall) s"

definition app_abort :: "rat \<Rightarrow> ('ip, 'x) AppBase_scheme \<Rightarrow> ('ip, 'x) AppBase_scheme outcome" where
  "app_abort now s = app_sendRequest PlainCall now (syscallFillData SYS_ABORT s new_Syscall) s"

section \<open>Sockets and names\<close>

definition app_resolve :: "string \<Rightarrow> ('ip, 'x) AppBase_scheme \<Rightarrow> ('ip, 'x) AppBase_scheme outcome" where
  "app_resolve d s =
     (if ap_resolver s then Inr (app_emit (AskResolver d) s)
      else Inl (RuntimeError ''sendDirect(): no destination gate''))"

definition app_open ::
  "int \<Rightarrow> u16 \<Rightarrow> sock_mode \<Rightarrow> string \<Rightarrow> ('ip, 'x) AppBase_scheme \<Rightarrow> ('ip, 'x) AppBase_scheme" where
  "app_open fd localPort mode interface s =
     app_emit (BindSocket fd mode localPort interface) (s\<lparr>ap_sockets := (ap_sockets s)(fd \<mapsto> mode)\<rparr>)"

definition cast_socket :: "sock_mode \<Rightarrow> int \<Rightarrow> ('ip, 'x) AppBase_scheme \<Rightarrow> unit outcome" where
  "cast_socket mode fd s = require (ap_sockets s fd = Some mode) (RuntimeError ''check_and_cast'')"

definition app_listen :: "int \<Rightarrow> ('ip, 'x) AppBase_scheme \<Rightarrow> ('ip, 'x) AppBase_scheme outcome" where
  "app_listen fd s = and_then (cast_socket SOCK_STREAM fd s) (\<lambda>_. Inr (app_emit (ListenOn fd) s))"

definition app_connect ::
  "int \<Rightarrow> 'ip \<Rightarrow> u16 \<Rightarrow> ('ip, 'x) AppBase_scheme \<Rightarrow> ('ip, 'x) AppBase_scheme outcome" where
  "app_connect fd destIp destPort s =
     and_then (cast_socket SOCK_STREAM fd s) (\<lambda>_. Inr (app_emit (ConnectTo fd destIp destPort) s))"

definition app_send ::
  "int \<Rightarrow> app_packet \<Rightarrow> u32 \<Rightarrow> u16 \<Rightarrow> ('ip, 'x) AppBase_scheme \<Rightarrow> ('ip, 'x) AppBase_scheme outcome" where
  "app_send fd p destIp destPort s =
     (if destIp = 0 \<and> destPort = 0
      then and_then (cast_socket SOCK_STREAM fd s) (\<lambda>_. Inr (app_emit (TcpSend fd p) s))
      else and_then (cast_socket SOCK_DGRAM fd s) (\<lambda>_. Inr (app_emit (UdpSend fd p destIp destPort) s)))"

definition app_close :: "int \<Rightarrow> ('ip, 'x) AppBase_scheme \<Rightarrow> ('ip, 'x) AppBase_scheme outcome" where
  "app_close fd s =
     (case ap_sockets s fd of
        None \<Rightarrow> Inl (Undefined ''null socket'')
      | Some m \<Rightarrow> Inr (app_emit (CloseSocket fd) (s\<lparr>ap_sockets := (ap_sockets s)(fd := None)\<rparr>)))"

definition proxy_request :: "bool \<Rightarrow> string \<Rightarrow> int \<Rightarrow> ('ip, 'x) AppBase_scheme \<Rightarrow> ProxyServiceRequest" where
  "proxy_request register name fd s = \<lparr>ps_register = register, ps_service = name,
     ps_ip = of_int (modId (ap_core s)), ps_port = 443, ps_socketId = fd\<rparr>"

definition app_registerService :: "string \<Rightarrow> int \<Rightarrow> ('ip, 'x) AppBase_scheme \<Rightarrow> ('ip, 'x) AppBase_scheme" where
  "app_registerService name fd s = app_emit (ProxyRequest (proxy_request True name fd s)) s"

definition app_unregisterService :: "string \<Rightarrow> int \<Rightarrow> ('ip, 'x) AppBase_scheme \<Rightarrow> ('ip, 'x) AppBase_scheme" where
  "app_unregisterService name fd s = app_emit (ProxyRequest (proxy_request False name fd s)) s"

section \<open>The callbacks\<close>

record ('ip, 's) app_callback =
  cb_processSelfMessage :: "rat \<Rightarrow> self_msg \<Rightarrow> 's \<Rightarrow> 's outcome"
  cb_returnExec :: "rat \<Rightarrow> rat \<Rightarrow> SM_CPU_Message \<Rightarrow> 's \<Rightarrow> 's outcome"
  cb_returnRead :: "rat \<Rightarrow> rat \<Rightarrow> 's \<Rightarrow> 's outcome"
  cb_returnWrite :: "rat \<Rightarrow> rat \<Rightarrow> 's \<Rightarrow> 's outcome"
  cb_handleResolutionFinished :: "'ip \<Rightarrow> bool \<Rightarrow> 's \<Rightarrow> 's outcome"
  cb_handleDataArrived :: "rat \<Rightarrow> int \<Rightarrow> app_packet \<Rightarrow> 's \<Rightarrow> 's outcome"
  cb_handleClientConnection :: "int \<Rightarrow> 'ip \<Rightarrow> u16 \<Rightarrow> 's \<Rightarrow> bool \<times> 's"
  cb_handleConnectReturn :: "int \<Rightarrow> bool \<Rightarrow> 's \<Rightarrow> 's outcome"
  cb_handlePeerClosed :: "int \<Rightarrow> 's \<Rightarrow> (bool \<times> 's) outcome"

text \<open>What \<open>ICallback\<close> does itself, where a subclass leaves it.\<close>

definition ignore_return :: "rat \<Rightarrow> rat \<Rightarrow> 's \<Rightarrow> 's outcome" where
  "ignore_return now t s = Inr s"

definition refuse_client :: "int \<Rightarrow> 'ip \<Rightarrow> u16 \<Rightarrow> 's \<Rightarrow> bool \<times> 's" where
  "refuse_client fd ip port s = (False, s)"

text \<open>The answer with several addresses: the least one, or the unspecified address if there is none.\<close>

definition handleResolutions ::
  "('ip::linorder, 's) app_callback \<Rightarrow> 'ip \<Rightarrow> 'ip list \<Rightarrow> bool \<Rightarrow> 's \<Rightarrow> 's outcome" where
  "handleResolutions cb unspecified ips resolved =
     cb_handleResolutionFinished cb (if ips = [] then unspecified else Min (set ips)) resolved"

definition app_processResponse ::
  "('ip, ('ip, 'x) AppBase_scheme) app_callback \<Rightarrow> rat \<Rightarrow> any_call \<Rightarrow> ('ip, 'x) AppBase_scheme \<Rightarrow>
     ('ip, 'x) AppBase_scheme outcome" where
  "app_processResponse cb now c s =
     (let timeElapsed = now - ap_operationStart s; code = opCode (call_base c)
      in if code = SYS_EXEC then
           (case c of CpuCall sm \<Rightarrow> cb_returnExec cb now timeElapsed sm s
                    | _ \<Rightarrow> Inl (RuntimeError ''check_and_cast''))
         else if code = SYS_READ then cb_returnRead cb now timeElapsed s
         else if code = SYS_WRITE then cb_returnWrite cb now timeElapsed s
         else Inr s)"

text \<open>What a socket of each mode does with an event, and the callbacks of the base.\<close>

definition app_socketEvent ::
  "('ip, ('ip, 'x) AppBase_scheme) app_callback \<Rightarrow> rat \<Rightarrow> int \<Rightarrow> sock_mode \<Rightarrow> 'ip sock_event \<Rightarrow>
     ('ip, 'x) AppBase_scheme \<Rightarrow> ('ip, 'x) AppBase_scheme outcome" where
  "app_socketEvent cb now fd mode e s =
     (case (mode, e) of
        (SOCK_DGRAM, UdpData p) \<Rightarrow> cb_handleDataArrived cb now fd p s
      | (SOCK_DGRAM, UdpError) \<Rightarrow> Inr s
      | (SOCK_DGRAM, UdpClosed) \<Rightarrow> Inr (s\<lparr>ap_sockets := (ap_sockets s)(fd := None)\<rparr>)
      | (SOCK_STREAM, TcpData p) \<Rightarrow> cb_handleDataArrived cb now fd p s
      | (SOCK_STREAM, TcpAvailable newFd ip port) \<Rightarrow>
          (let (ok, s') = cb_handleClientConnection cb newFd ip port s
           in if ok then Inr (app_emit (AcceptOn fd newFd) (s'\<lparr>ap_sockets := (ap_sockets s')(newFd \<mapsto> SOCK_STREAM)\<rparr>))
              else Inl (RuntimeError ''TBD: Closing socket on TCP/ACCEPT''))
      | (SOCK_STREAM, TcpEstablished) \<Rightarrow> cb_handleConnectReturn cb fd True s
      | (SOCK_STREAM, TcpFailure code) \<Rightarrow> cb_handleConnectReturn cb fd False s
      | (SOCK_STREAM, TcpPeerClosed) \<Rightarrow>
          and_then (cb_handlePeerClosed cb fd s) (\<lambda>(closeSocket, s').
            if closeSocket then app_close fd s' else Inr s')
      | (SOCK_STREAM, TcpClosed) \<Rightarrow> Inr (s\<lparr>ap_sockets := (ap_sockets s)(fd := None)\<rparr>)
      | (SOCK_STREAM, TcpStatus) \<Rightarrow> Inr s
      | _ \<Rightarrow> Inl (RuntimeError ''invalid message for the socket''))"

text \<open>\<open>handleMessage\<close>.  A message for an unknown socket is taken for a packet; only data comes as one.\<close>

definition app_handleMessage ::
  "('ip::linorder, ('ip, 'x) AppBase_scheme) app_callback \<Rightarrow> 'ip \<Rightarrow> rat \<Rightarrow> 'ip app_msg \<Rightarrow>
     ('ip, 'x) AppBase_scheme \<Rightarrow> ('ip, 'x) AppBase_scheme outcome" where
  "app_handleMessage cb unspecified now m s =
     (case m of
        SelfMsg x \<Rightarrow> cb_processSelfMessage cb now x (if x = EventTimer then s\<lparr>ap_eventAt := None\<rparr> else s)
      | CallMsg c \<Rightarrow>
          if isResponse (call_base c) then app_processResponse cb now c s
          else Inl (if trace (call_base c) = [] then empty_trace_error
                    else RuntimeError ''This module doesn't take requests'')
      | ResolverMsg ips ok \<Rightarrow> handleResolutions cb unspecified ips ok s
      | SocketMsg fd e \<Rightarrow>
          (case ap_sockets s fd of
             Some mode \<Rightarrow> app_socketEvent cb now fd mode e s
           | None \<Rightarrow> (case e of
                 TcpData p \<Rightarrow> Inl (RuntimeError ''Message arrived for an unregistered socket'')
               | UdpData p \<Rightarrow> Inl (RuntimeError ''Message arrived for an unregistered socket'')
               | _ \<Rightarrow> Inl (Undefined ''null packet''))))"

section \<open>What a system call leaves\<close>

lemmas call_codes = SYS_READ_def SYS_WRITE_def SYS_EXEC_def SYS_EXIT_def SYS_ABORT_def

lemma sendRequest_fresh:
  assumes "trace m = []"
  shows "\<exists>tr k. sendRequest None g m c = Inr (send_via (m\<lparr>trace := tr\<rparr>) g (c\<lparr>currentRequest := k\<rparr>))"
proof -
  have "addModuleToTrace i sel k (addNodeToTrace path m) =
      Inr (m\<lparr>trace := [(path, [(TraceComponent2 i sel)\<lparr>reqSequence := reqSequence (TraceComponent2 i sel) @ [k]\<rparr>])]\<rparr>)"
    for i sel k path
    using assms by (simp add: addModuleToTrace_def addNodeToTrace_def set_back_def Let_def)
  then show ?thesis
    using assms by (auto simp: sendRequest_def isTraceEmpty_def updateMessageTrace_def)
qed

lemma new_calls [simp]:
  "trace new_SM_CPU_Message = []" "trace new_DiskSyscall = []" "trace new_Syscall = []"
  "isResponse new_SM_CPU_Message = False" "isResponse new_DiskSyscall = False" "isResponse new_Syscall = False"
  "operation new_DiskSyscall = SM_Syscall_Req" "operation new_Syscall = SM_Syscall_Req"
  by (simp_all add: new_SM_CPU_Message_def new_DiskSyscall_def new_Syscall_def new_SIMCAN_Message_def
      SIMCAN_Message.defs Syscall.defs)

lemma app_sendRequest_fresh:
  assumes "trace m = []"
  shows "\<exists>tr k. app_sendRequest wrap now m s = Inr (s\<lparr>ap_operationStart := now, ap_core := (ap_core s)
    \<lparr>currentRequest := k, sent := sent (ap_core s) @ [(wrap (m\<lparr>trace := tr\<rparr>), ap_outGate s)]\<rparr>\<rparr>)"
proof -
  let ?c = "\<lparr>modId = modId (ap_core s), fullPath = fullPath (ap_core s),
      currentRequest = currentRequest (ap_core s), queue = [], sent = []\<rparr>"
  obtain tr k where "sendRequest None (ap_outGate s) m ?c =
      Inr (send_via (m\<lparr>trace := tr\<rparr>) (ap_outGate s) (?c\<lparr>currentRequest := k\<rparr>))"
    using sendRequest_fresh [OF assms, of "ap_outGate s" ?c] by blast
  then show ?thesis
    by (intro exI [of _ tr] exI [of _ k]) (simp add: app_sendRequest_def send_as_def send_via_def)
qed

text \<open>A computation is one more call, and nothing else of the application changes.\<close>

lemma app_execute_one:
  "\<exists>t c. app_execute now n s = Inr (s\<lparr>ap_operationStart := t, ap_core := c\<rparr>) \<and>
     length (sent c) = length (sent (ap_core s)) + 1"
proof -
  let ?m = "updateLength ((syscallFillData SYS_EXEC s new_SM_CPU_Message)
       \<lparr>operation := SM_ExecCpu, appInstance := ap_appInstance s, useMis := True, misToExecute := n\<rparr>)"
  have "trace ?m = []" by (simp add: updateLength_def syscallFillData_def)
  from app_sendRequest_fresh [OF this, of CpuCall now s] obtain tr k where
    r: "app_execute now n s = Inr (s\<lparr>ap_operationStart := now, ap_core := (ap_core s)
      \<lparr>currentRequest := k, sent := sent (ap_core s) @ [(CpuCall (?m\<lparr>trace := tr\<rparr>), ap_outGate s)]\<rparr>\<rparr>)"
    unfolding app_execute_def by blast
  show ?thesis
    unfolding r by (intro exI [of _ now] exI [of _ "(ap_core s)
      \<lparr>currentRequest := k, sent := sent (ap_core s) @ [(CpuCall (?m\<lparr>trace := tr\<rparr>), ap_outGate s)]\<rparr>"]) simp
qed

text \<open>Messages handled one after the other, each at its time.\<close>

fun app_events ::
  "('ip::linorder, ('ip, 'x) AppBase_scheme) app_callback \<Rightarrow> 'ip \<Rightarrow> (rat \<times> 'ip app_msg) list \<Rightarrow>
     ('ip, 'x) AppBase_scheme \<Rightarrow> ('ip, 'x) AppBase_scheme outcome" where
  "app_events cb u [] s = Inr s"
| "app_events cb u ((t, m) # ms) s = and_then (app_handleMessage cb u t m s) (app_events cb u ms)"

lemma app_events_append:
  "app_events cb u (xs @ ys) s = and_then (app_events cb u xs s) (app_events cb u ys)"
  by (induction xs arbitrary: s) (auto simp: and_then_def split: sum.split)

end
