(* ===== verification/LocalApp.thy ===== *)
theory LocalApp
  imports Apps
begin

text \<open>
  The sequential application \<open>apps/cloud/LocalApplication\<close>, which reads, computes and writes in turn, and
  its run on a machine of the hypervisor: every system call it sends is handled by \<open>Hypervisor\<close>, carried
  out by the disk or the scheduler, and answered through the hypervisor, until the application ends.

  Time is a rational number of seconds.  A field that \<open>initialize\<close> leaves unset is \<open>None\<close>, and reading it
  then is undefined.
\<close>

section \<open>The application\<close>

record 'ip LocalApplication = "'ip AppBase" +
  la_inputDataSize :: u32
  la_outputDataSize :: u32
  la_MIs :: u32
  la_iterations :: u32
  la_remainingMIs :: "u32 option"
  la_iteration :: "u32 option"
  la_initialized :: bool
  la_start :: rat
  la_serviceCPU :: rat
  la_serviceIO :: rat

definition la_initialize :: "rat \<Rightarrow> 'ip LocalApplication \<Rightarrow> 'ip LocalApplication" where
  "la_initialize now s =
     (let s1 = (app_base_initialize now s)\<lparr>la_serviceIO := 0, la_serviceCPU := 0\<rparr>;
          s2 = (if la_initialized s1 then s1\<lparr>la_remainingMIs := None, la_iteration := None\<rparr>
                else s1\<lparr>la_remainingMIs := Some (la_MIs s1), la_iteration := Some 1\<rparr>)
      in s2\<lparr>la_start := now, la_initialized := True\<rparr>)"

definition rat_of_u32 :: "u32 \<Rightarrow> rat" where "rat_of_u32 w = of_nat (unat w)"

definition la_processSelfMessage :: "rat \<Rightarrow> self_msg \<Rightarrow> 'ip LocalApplication \<Rightarrow> 'ip LocalApplication outcome" where
  "la_processSelfMessage now m s = app_read now (rat_of_u32 (la_inputDataSize s)) s"

definition la_returnRead :: "rat \<Rightarrow> rat \<Rightarrow> 'ip LocalApplication \<Rightarrow> 'ip LocalApplication outcome" where
  "la_returnRead now timeElapsed s =
     (let s1 = s\<lparr>la_serviceIO := la_serviceIO s + timeElapsed\<rparr>
      in case la_remainingMIs s1 of
           None \<Rightarrow> Inl (Undefined ''currentRemainingMIs is not set'')
         | Some n \<Rightarrow> app_execute now (rat_of_u32 n) s1)"

definition la_returnExec ::
  "rat \<Rightarrow> rat \<Rightarrow> SM_CPU_Message \<Rightarrow> 'ip LocalApplication \<Rightarrow> 'ip LocalApplication outcome" where
  "la_returnExec now timeElapsed sm s =
     app_write now (rat_of_u32 (la_outputDataSize s)) (s\<lparr>la_serviceCPU := la_serviceCPU s + timeElapsed\<rparr>)"

definition la_returnWrite :: "rat \<Rightarrow> rat \<Rightarrow> 'ip LocalApplication \<Rightarrow> 'ip LocalApplication outcome" where
  "la_returnWrite now timeElapsed s =
     (let s1 = s\<lparr>la_serviceIO := la_serviceIO s + timeElapsed\<rparr>
      in case la_iteration s1 of
           None \<Rightarrow> Inl (Undefined ''currentIteration is not set'')
         | Some i \<Rightarrow>
             let s2 = s1\<lparr>la_iteration := Some (i + 1)\<rparr>
             in if i + 1 < la_iterations s2 then app_read now (rat_of_u32 (la_inputDataSize s2)) s2
                else app_exit now s2)"

definition la_error :: "string \<Rightarrow> 'b outcome" where
  "la_error e = Inl (RuntimeError e)"

definition la_callback :: "('ip, 'ip LocalApplication) app_callback" where
  "la_callback = \<lparr>
     cb_processSelfMessage = la_processSelfMessage,
     cb_returnExec = la_returnExec, cb_returnRead = la_returnRead, cb_returnWrite = la_returnWrite,
     cb_handleResolutionFinished = (\<lambda>ip ok s. la_error ''LocalApp: no resolving''),
     cb_handleDataArrived = (\<lambda>now fd p s. la_error ''LocalApp: no sockets''),
     cb_handleClientConnection = refuse_client,
     cb_handleConnectReturn = (\<lambda>fd ok s. la_error ''LocalApp: no sockets''),
     cb_handlePeerClosed = (\<lambda>fd s. la_error ''LocalApp: no sockets'')\<rparr>"

abbreviation la_handleMessage ::
  "'ip::linorder \<Rightarrow> rat \<Rightarrow> 'ip app_msg \<Rightarrow> 'ip LocalApplication \<Rightarrow> 'ip LocalApplication outcome" where
  "la_handleMessage \<equiv> app_handleMessage la_callback"

section \<open>A machine serving its applications\<close>

text \<open>
  A system call goes to the hypervisor; what this hands to the disk or to a scheduler comes back as
  \<open>device\<close> says, and the hypervisor passes it on.  \<open>None\<close>: nothing comes back to the application.
\<close>

definition serve_call ::
  "(any_call \<Rightarrow> any_call) \<Rightarrow> rat \<Rightarrow> any_call \<Rightarrow> 'h Hypervisor \<Rightarrow> (any_call option \<times> 'h Hypervisor) outcome" where
  "serve_call device now c h =
     and_then (handle_call now c h) (\<lambda>h1.
       let return = (\<lambda>d. and_then (handle_call now (device d) h1) (\<lambda>h2.
             case drop (length (hyp_out h1)) (hyp_out h2) of
               [ToApp v r] \<Rightarrow> Inr (Some r, h2) | _ \<Rightarrow> Inr (None, h2)))
       in case drop (length (hyp_out h)) (hyp_out h1) of
            [ToDisk d] \<Rightarrow> return d
          | [ToScheduler v d] \<Rightarrow> return d
          | _ \<Rightarrow> Inr (None, h1))"

text \<open>The newest call of an application, and its run from one call on.  \<open>clock\<close> gives the time of each
  round trip.  The result are the calls, the application and the hypervisor at the end; the outer \<open>None\<close>
  says that the fuel is used up.\<close>

definition newest_call :: "('ip, 'x) AppBase_scheme \<Rightarrow> any_call" where
  "newest_call s = fst (last (sent (ap_core s)))"

fun run_app ::
  "nat \<Rightarrow> (any_call \<Rightarrow> any_call) \<Rightarrow> 'ip::linorder \<Rightarrow> (nat \<Rightarrow> rat) \<Rightarrow> 'ip LocalApplication \<Rightarrow> 'h Hypervisor \<Rightarrow>
     (any_call list \<times> 'ip LocalApplication \<times> 'h Hypervisor) outcome option" where
  "run_app 0 device unspec clock s h = None"
| "run_app (Suc n) device unspec clock s h =
     (let c = newest_call s
      in case serve_call device (clock n) c h of
           Inl e \<Rightarrow> Some (Inl e)
         | Inr (None, h') \<Rightarrow> Some (Inr ([c], s, h'))
         | Inr (Some r, h') \<Rightarrow>
             (case la_handleMessage unspec (clock n) (CallMsg r) s of
                Inl e \<Rightarrow> Some (Inl e)
              | Inr s' \<Rightarrow> map_option (\<lambda>x. and_then x (\<lambda>(cs, a, h''). Inr (c # cs, a, h'')))
                           (run_app n device unspec clock s' h')))"

section \<open>One call and its answer\<close>

definition call_ok :: "u16 \<Rightarrow> ('ip, 'x) AppBase_scheme \<Rightarrow> any_call \<Rightarrow> bool" where
  "call_ok code s c \<longleftrightarrow> (let b = call_base c in opCode b = code \<and> \<not> isResponse b \<and>
     vmId b = sint (ap_vmId s) \<and> pid b = sint (ap_pid s) \<and> (operation b = SM_ExecCpu \<longleftrightarrow> code = SYS_EXEC)) \<and>
     (code = SYS_EXEC \<longrightarrow> (\<exists>m. c = CpuCall m))"

text \<open>What is asked of the disk and the schedulers: the answer is the call itself, marked as a response,
  and a computation comes back when it is complete.\<close>

definition device_ok :: "(any_call \<Rightarrow> any_call) \<Rightarrow> bool" where
  "device_ok device \<longleftrightarrow> (\<forall>c. call_base (device c) = (call_base c)\<lparr>isResponse := True\<rparr>) \<and>
     (\<forall>m. \<exists>m'. device (CpuCall m) = CpuCall m' \<and> isCompleted m')"

definition sends :: "u16 \<Rightarrow> ('ip, 'x) AppBase_scheme outcome \<Rightarrow> ('ip, 'x) AppBase_scheme \<Rightarrow> bool" where
  "sends code r s \<longleftrightarrow> (\<exists>t c. r = Inr (s\<lparr>ap_operationStart := t, ap_core := c\<rparr>) \<and>
     call_ok code s (fst (last (sent c))))"

lemma base_of_call [simp]:
  "isResponse (Syscall.truncate m) = isResponse m" "operation (Syscall.truncate m) = operation m"
  "opCode (Syscall.truncate m) = opCode m" "vmId (Syscall.truncate m) = vmId m" "pid (Syscall.truncate m) = pid m"
  by (simp_all add: Syscall.defs)

lemma sendsI:
  assumes "trace m = []" "\<And>tr. call_ok code s (wrap (m\<lparr>trace := tr\<rparr>))"
  shows "sends code (app_sendRequest wrap now m s) s"
proof -
  obtain tr k where r: "app_sendRequest wrap now m s = Inr (s\<lparr>ap_operationStart := now, ap_core := (ap_core s)
      \<lparr>currentRequest := k, sent := sent (ap_core s) @ [(wrap (m\<lparr>trace := tr\<rparr>), ap_outGate s)]\<rparr>\<rparr>)"
    using app_sendRequest_fresh [OF assms(1)] by blast
  show ?thesis
    unfolding sends_def r using assms(2) [of tr]
    by (intro exI [of _ now] exI [of _ "(ap_core s)
      \<lparr>currentRequest := k, sent := sent (ap_core s) @ [(wrap (m\<lparr>trace := tr\<rparr>), ap_outGate s)]\<rparr>"]) simp
qed

lemmas call_simps = call_ok_def syscallFillData_def call_codes SM_Syscall_Req_def SM_ExecCpu_def

lemma app_read_sends: "sends SYS_READ (app_read now n s) s"
  unfolding app_read_def by (rule sendsI) (simp_all add: call_simps)

lemma app_write_sends: "sends SYS_WRITE (app_write now n s) s"
  unfolding app_write_def by (rule sendsI) (simp_all add: call_simps)

lemma app_exit_sends: "sends SYS_EXIT (app_exit now s) s"
  unfolding app_exit_def by (rule sendsI) (simp_all add: call_simps)

lemma app_execute_sends: "sends SYS_EXEC (app_execute now n s) s"
  unfolding app_execute_def by (rule sendsI) (simp_all add: call_simps updateLength_def)

text \<open>A machine that runs, and what it does with the calls of one of its applications.\<close>

definition runs_on :: "int \<Rightarrow> 'h Hypervisor \<Rightarrow> bool" where
  "runs_on v h \<longleftrightarrow> 0 \<le> v \<and> v < int (length (vmTable (hyp_table h))) \<and> block_isRunning (vm_block v (hyp_table h))"

lemma runs_on_out [simp]: "runs_on v (h\<lparr>hyp_out := os\<rparr>) = runs_on v h"
  by (simp add: runs_on_def)

lemma not_suspended: "runs_on v h \<Longrightarrow> vmIsSuspended v (hyp_table h) = Inr False"
  by (simp add: runs_on_def vmIsSuspended_def vm_in_bounds_def block_isRunning_def block_isSuspended_def)

lemma serve_device_call:
  assumes "call_ok code s c" "code = SYS_READ \<or> code = SYS_WRITE \<or> code = SYS_EXEC"
    "runs_on (sint (ap_vmId s)) h" "device_ok device"
  shows "\<exists>r os. serve_call device now c h = Inr (Some r, h\<lparr>hyp_out := hyp_out h @ os\<rparr>) \<and>
    isResponse (call_base r) \<and> opCode (call_base r) = code \<and> (code = SYS_EXEC \<longrightarrow> (\<exists>m. r = CpuCall m))"
proof -
  let ?v = "sint (ap_vmId s)"
  note ns = not_suspended [OF assms(3)]
  have mark: "opCode (call_base (mark_response x)) = opCode (call_base x)"
    "isResponse (call_base (mark_response x))" for x by (cases x; simp add: Syscall.defs)+
  have d: "call_base (device c) = (call_base c)\<lparr>isResponse := True\<rparr>" using assms(4) by (simp add: device_ok_def)
  have e: "processSyscallEnd (device c) (emit_out x h) = sendOrBufferToApp (mark_response (device c)) (emit_out x h)" for x
  proof (cases "code = SYS_EXEC")
    case True
    then obtain m where m: "c = CpuCall m" "operation m = SM_ExecCpu" using assms(1) by (auto simp: call_ok_def Let_def)
    then obtain m' where "device c = CpuCall m'" "isCompleted m'" using assms(4) by (auto simp: device_ok_def)
    with m d show ?thesis by (simp add: processSyscallEnd_def)
  next
    case False
    with assms(1) d show ?thesis by (auto simp: call_ok_def Let_def processSyscallEnd_def)
  qed
  have up: "handle_call now (device c) (emit_out x h) =
      Inr (emit_out (ToApp ?v (mark_response (device c))) (emit_out x h))" for x
    using assms(1) d e [of x] ns
    by (simp add: handle_call_def call_ok_def Let_def sendOrBufferToApp_def emit_out_def)
  have down: "\<exists>x. handle_call now c h = Inr (emit_out x h) \<and> (x = ToDisk c \<or> x = ToScheduler ?v c)"
    using assms(1,2) ns
    by (auto simp: handle_call_def call_ok_def Let_def processSyscallStart_def call_codes)
  then obtain x where x: "handle_call now c h = Inr (emit_out x h)" "x = ToDisk c \<or> x = ToScheduler ?v c" by blast
  have "serve_call device now c h = Inr (Some (mark_response (device c)),
      emit_out (ToApp ?v (mark_response (device c))) (emit_out x h))"
    using x up [of x] by (auto simp: serve_call_def Let_def emit_out_def)
  moreover have "code = SYS_EXEC \<longrightarrow> (\<exists>m. mark_response (device c) = CpuCall m)"
    using assms(1,4) by (auto simp: call_ok_def device_ok_def) (metis mark_response.simps(1))
  moreover have "opCode (call_base (mark_response (device c))) = code"
    using assms(1) d mark(1) [of "device c"] by (simp add: call_ok_def Let_def)
  ultimately show ?thesis
    using mark(2) by (auto simp: emit_out_def intro!: exI [of _ "mark_response (device c)"])
qed

section \<open>A round of the application\<close>

text \<open>What the answers leave of an application.\<close>

definition same_app :: "'ip LocalApplication \<Rightarrow> 'ip LocalApplication \<Rightarrow> bool" where
  "same_app s s' \<longleftrightarrow> ap_pid s' = ap_pid s \<and> ap_vmId s' = ap_vmId s \<and> la_iterations s' = la_iterations s \<and>
     la_remainingMIs s' = la_remainingMIs s"

lemma sends_result:
  fixes s s0 :: "'ip LocalApplication"
  assumes "sends code r s" "same_app s0 s"
  shows "\<exists>s'. r = Inr s' \<and> same_app s0 s' \<and> la_iteration s' = la_iteration s \<and> call_ok code s' (newest_call s')"
proof -
  obtain t c where r: "r = Inr (s\<lparr>ap_operationStart := t, ap_core := c\<rparr>)" "call_ok code s (fst (last (sent c)))"
    using assms(1) by (auto simp: sends_def)
  let ?s = "s\<lparr>ap_operationStart := t, ap_core := c\<rparr>"
  have "call_ok code ?s (newest_call ?s)" using r(2) by (simp add: call_ok_def newest_call_def)
  moreover have "same_app s0 ?s" using assms(2) by (simp add: same_app_def)
  ultimately show ?thesis using r(1) by (intro exI [of _ ?s]) simp
qed

definition is_answer :: "u16 \<Rightarrow> any_call \<Rightarrow> bool" where
  "is_answer code r \<longleftrightarrow> isResponse (call_base r) \<and> opCode (call_base r) = code \<and>
     (code = SYS_EXEC \<longrightarrow> (\<exists>m. r = CpuCall m))"

lemma answer_to_read:
  assumes "la_remainingMIs s = Some k"
  shows "\<exists>s'. (\<forall>r. is_answer SYS_READ r \<longrightarrow> la_handleMessage u t (CallMsg r) s = Inr s') \<and>
    same_app s s' \<and> la_iteration s' = la_iteration s \<and> call_ok SYS_EXEC s' (newest_call s')"
proof -
  let ?s = "s\<lparr>la_serviceIO := la_serviceIO s + (t - ap_operationStart s)\<rparr>"
  have m: "la_handleMessage u t (CallMsg r) s = app_execute t (rat_of_u32 k) ?s" if "is_answer SYS_READ r" for r
    using that assms by (simp add: is_answer_def app_handleMessage_def app_processResponse_def call_codes
        la_callback_def la_returnRead_def Let_def)
  have "same_app s ?s" by (simp add: same_app_def)
  from sends_result [OF app_execute_sends [of t "rat_of_u32 k" ?s] this] show ?thesis using m by auto
qed

lemma answer_to_exec:
  "\<exists>s'. (\<forall>r. is_answer SYS_EXEC r \<longrightarrow> la_handleMessage u t (CallMsg r) s = Inr s') \<and>
    same_app s s' \<and> la_iteration s' = la_iteration s \<and> call_ok SYS_WRITE s' (newest_call s')"
proof -
  let ?s = "s\<lparr>la_serviceCPU := la_serviceCPU s + (t - ap_operationStart s)\<rparr>"
  have m: "la_handleMessage u t (CallMsg r) s = app_write t (rat_of_u32 (la_outputDataSize s)) ?s"
    if "is_answer SYS_EXEC r" for r
    using that by (auto simp: is_answer_def app_handleMessage_def app_processResponse_def call_codes
        la_callback_def la_returnExec_def Let_def)
  have "same_app s ?s" by (simp add: same_app_def)
  from sends_result [OF app_write_sends [of t "rat_of_u32 (la_outputDataSize s)" ?s] this] show ?thesis using m by auto
qed

lemma answer_to_write:
  assumes "la_iteration s = Some i"
  shows "\<exists>s'. (\<forall>r. is_answer SYS_WRITE r \<longrightarrow> la_handleMessage u t (CallMsg r) s = Inr s') \<and>
    same_app s s' \<and> la_iteration s' = Some (i + 1) \<and>
    call_ok (if i + 1 < la_iterations s then SYS_READ else SYS_EXIT) s' (newest_call s')"
proof -
  let ?s = "s\<lparr>la_serviceIO := la_serviceIO s + (t - ap_operationStart s), la_iteration := Some (i + 1)\<rparr>"
  have m: "la_handleMessage u t (CallMsg r) s =
      (if i + 1 < la_iterations s then app_read t (rat_of_u32 (la_inputDataSize s)) ?s else app_exit t ?s)"
    if "is_answer SYS_WRITE r" for r
    using that assms by (simp add: is_answer_def app_handleMessage_def app_processResponse_def call_codes
        la_callback_def la_returnWrite_def Let_def)
  have "same_app s ?s" by (simp add: same_app_def)
  from sends_result [OF app_read_sends [of t "rat_of_u32 (la_inputDataSize s)" ?s] this]
    sends_result [OF app_exit_sends [of t ?s] this] show ?thesis using m by (cases "i + 1 < la_iterations s") auto
qed

text \<open>One answered call of a run.\<close>

abbreviation after_call :: "any_call \<Rightarrow> (any_call list \<times> 'a \<times> 'b) outcome option \<Rightarrow> (any_call list \<times> 'a \<times> 'b) outcome option" where
  "after_call c \<equiv> map_option (\<lambda>x. and_then x (\<lambda>(cs, a, h). Inr (c # cs, a, h)))"

lemma run_app_step:
  assumes "call_ok code s (newest_call s)" "code = SYS_READ \<or> code = SYS_WRITE \<or> code = SYS_EXEC"
    "runs_on (sint (ap_vmId s)) h" "device_ok device"
    "\<forall>r. is_answer code r \<longrightarrow> la_handleMessage u (clock n) (CallMsg r) s = Inr s'"
  shows "\<exists>os. run_app (Suc n) device u clock s h =
    after_call (newest_call s) (run_app n device u clock s' (h\<lparr>hyp_out := hyp_out h @ os\<rparr>))"
proof -
  obtain r os where r: "serve_call device (clock n) (newest_call s) h = Inr (Some r, h\<lparr>hyp_out := hyp_out h @ os\<rparr>)"
    "is_answer code r"
    using serve_device_call [OF assms(1-4), where now = "clock n"] unfolding is_answer_def by blast
  with assms(5) have "la_handleMessage u (clock n) (CallMsg r) s = Inr s'" by blast
  with r(1) show ?thesis by (intro exI [of _ os]) (simp add: Let_def)
qed

lemma run_app_round:
  assumes "call_ok SYS_READ s (newest_call s)" "la_remainingMIs s = Some k" "la_iteration s = Some i"
    "runs_on (sint (ap_vmId s)) h" "device_ok device"
  shows "\<exists>c1 c2 c3 s' os. map (\<lambda>c. opCode (call_base c)) [c1, c2, c3] = [SYS_READ, SYS_EXEC, SYS_WRITE] \<and>
    run_app (n + 3) device u clock s h =
      after_call c1 (after_call c2 (after_call c3 (run_app n device u clock s' (h\<lparr>hyp_out := hyp_out h @ os\<rparr>)))) \<and>
    same_app s s' \<and> la_iteration s' = Some (i + 1) \<and>
    call_ok (if i + 1 < la_iterations s then SYS_READ else SYS_EXIT) s' (newest_call s')"
proof -
  have code: "opCode (call_base c) = x" if "call_ok x t c" for x t c using that by (simp add: call_ok_def Let_def)
  obtain s1 where s1: "\<forall>r. is_answer SYS_READ r \<longrightarrow> la_handleMessage u (clock (Suc (Suc n))) (CallMsg r) s = Inr s1"
    "same_app s s1" "la_iteration s1 = la_iteration s" "call_ok SYS_EXEC s1 (newest_call s1)"
    using answer_to_read [OF assms(2), of u "clock (Suc (Suc n))"] by blast
  obtain s2 where s2: "\<forall>r. is_answer SYS_EXEC r \<longrightarrow> la_handleMessage u (clock (Suc n)) (CallMsg r) s1 = Inr s2"
    "same_app s1 s2" "la_iteration s2 = la_iteration s1" "call_ok SYS_WRITE s2 (newest_call s2)"
    using answer_to_exec [of u "clock (Suc n)" s1] by blast
  have i2: "la_iteration s2 = Some i" "la_iterations s2 = la_iterations s"
    using s1(2,3) s2(2,3) assms(3) by (simp_all add: same_app_def)
  obtain s3 where s3: "\<forall>r. is_answer SYS_WRITE r \<longrightarrow> la_handleMessage u (clock n) (CallMsg r) s2 = Inr s3"
    "same_app s2 s3" "la_iteration s3 = Some (i + 1)"
    "call_ok (if i + 1 < la_iterations s then SYS_READ else SYS_EXIT) s3 (newest_call s3)"
    using answer_to_write [OF i2(1), of u "clock n"] i2(2) by auto
  have v: "ap_vmId s1 = ap_vmId s" "ap_vmId s2 = ap_vmId s" "same_app s s3"
    using s1(2) s2(2) s3(2) by (simp_all add: same_app_def)
  obtain o1 where o1: "run_app (Suc (Suc (Suc n))) device u clock s h =
      after_call (newest_call s) (run_app (Suc (Suc n)) device u clock s1 (h\<lparr>hyp_out := hyp_out h @ o1\<rparr>))"
    using run_app_step [where clock = clock and n = "Suc (Suc n)", OF assms(1) _ assms(4,5) s1(1)] by blast
  have r1: "runs_on (sint (ap_vmId s1)) (h\<lparr>hyp_out := hyp_out h @ o1\<rparr>)" using assms(4) v by simp
  obtain o2 where o2: "run_app (Suc (Suc n)) device u clock s1 (h\<lparr>hyp_out := hyp_out h @ o1\<rparr>) =
      after_call (newest_call s1) (run_app (Suc n) device u clock s2 (h\<lparr>hyp_out := hyp_out h @ o1 @ o2\<rparr>))"
    using run_app_step [where clock = clock and n = "Suc n", OF s1(4) _ r1 assms(5) s2(1)] by auto
  have r2: "runs_on (sint (ap_vmId s2)) (h\<lparr>hyp_out := hyp_out h @ o1 @ o2\<rparr>)" using assms(4) v by simp
  obtain o3 where o3: "run_app (Suc n) device u clock s2 (h\<lparr>hyp_out := hyp_out h @ o1 @ o2\<rparr>) =
      after_call (newest_call s2) (run_app n device u clock s3 (h\<lparr>hyp_out := hyp_out h @ o1 @ o2 @ o3\<rparr>))"
    using run_app_step [where clock = clock and n = n, OF s2(4) _ r2 assms(5) s3(1)] by auto
  have "run_app (n + 3) device u clock s h = after_call (newest_call s) (after_call (newest_call s1)
      (after_call (newest_call s2) (run_app n device u clock s3 (h\<lparr>hyp_out := hyp_out h @ o1 @ o2 @ o3\<rparr>))))"
    using o1 unfolding o2 o3 by (simp only: numeral_3_eq_3 add_Suc_right add_0_right)
  then show ?thesis
    using code [OF assms(1)] code [OF s1(4)] code [OF s2(4)] v(3) s3(3,4)
    by (intro exI [of _ "newest_call s"] exI [of _ "newest_call s1"] exI [of _ "newest_call s2"]
        exI [of _ s3] exI [of _ "o1 @ o2 @ o3"]) simp
qed

section \<open>The whole run\<close>

text \<open>The machine \<open>v\<close> runs the process \<open>p\<close>, which is the application \<open>d\<close> of the request \<open>rq\<close>.\<close>

definition hosts :: "int \<Rightarrow> int \<Rightarrow> SM_UserAPP \<Rightarrow> nat \<Rightarrow> string \<Rightarrow> 'h Hypervisor \<Rightarrow> bool" where
  "hosts v p rq d g h \<longleftrightarrow> runs_on v h \<and> (let b = vm_block v (hyp_table h) in
     0 \<le> p \<and> p < int (length (apps b)) \<and> request b = To rq \<and> deploymentIndex (apps b ! nat p) = int d \<and>
     d < length (ua_app rq) \<and> localToGlobalVmIdMap (hyp_table h) v = Some g)"

lemma hosts_out [simp]: "hosts v p rq d g (h\<lparr>hyp_out := os\<rparr>) = hosts v p rq d g h"
  by (simp add: hosts_def)

definition finished_at :: "rat \<Rightarrow> nat \<Rightarrow> SM_UserAPP \<Rightarrow> SM_UserAPP" where
  "finished_at t d rq = rq\<lparr>ua_app := (ua_app rq)[d := setAppState t appFinishedOK (ua_app rq ! d)]\<rparr>"

text \<open>What the end of a process leaves: its slot is free, the request says that it has finished, and the
  answer goes out when it was the last one.\<close>

definition ended :: "int \<Rightarrow> int \<Rightarrow> SM_UserAPP \<Rightarrow> string \<Rightarrow> hyp_out list \<Rightarrow> 'h Hypervisor \<Rightarrow> bool" where
  "ended v p rq g os h \<longleftrightarrow>
     request (vm_block v (hyp_table h)) = To rq \<and> app_isFree (apps (vm_block v (hyp_table h)) ! nat p) \<and>
     hyp_out h = os @ DeleteApp v p # (if allAppsFinished rq
       then [Event (rq\<lparr>ua_destinationTopic := ua_returnTopic rq, ua_result := SM_APP_Res_Accept,
               ua_vmId := g, ua_isResponse := True\<rparr>)] else [])"

lemma termination_ends:
  assumes "hosts v p rq d g h"
  shows "\<exists>h'. handleAppTermination t p v appFinishedOK h = Inr h' \<and> ended v p (finished_at t d rq) g (hyp_out h) h'"
proof -
  let ?b = "vm_block v (hyp_table h)" and ?rq = "finished_at t d rq"
  have a: "0 \<le> v" "v < int (length (vmTable (hyp_table h)))" "0 \<le> p" "p < int (length (apps ?b))" "request ?b = To rq"
    "deploymentIndex (apps ?b ! nat p) = int d" "d < length (ua_app rq)" "localToGlobalVmIdMap (hyp_table h) v = Some g"
    using assms by (simp_all add: hosts_def runs_on_def Let_def)
  let ?b1 = "?b\<lparr>apps := (apps ?b)[nat p := app_free (apps ?b ! nat p)]\<rparr>"
  let ?s1 = "h\<lparr>hyp_table := set_block v ?b1 (hyp_table h)\<rparr>"
  have s1: "on_table (deallocateApp v p) h = Inr ?s1"
    using a(1-4) by (simp add: on_table_def deallocateApp_def vm_in_bounds_def app_in_bounds_def Let_def)
  have rq: "changeStateByIndex t (int d) appFinishedOK rq = Inr ?rq"
    using a(7) by (simp add: changeStateByIndex_def finished_at_def)
  have v1: "vm_block v (set_block v ?b1 (hyp_table h)) = ?b1" using a(1,2) by (simp add: vm_block_def set_block_def)
  let ?s3 = "(emit_out (DeleteApp v p) h)\<lparr>hyp_table := set_block v (?b1\<lparr>request := To ?rq\<rparr>) (hyp_table h)\<rparr>"
  have s3: "on_table (associateDeploymentToVm v ?rq) (emit_out (DeleteApp v p) ?s1) = Inr ?s3"
    using a(1,2) v1 by (simp add: on_table_def associateDeploymentToVm_def vm_in_bounds_def emit_out_def set_block_def)
  have g: "getGlobalVmId v (hyp_table ?s3) = Inr g" using a(8) by (simp add: getGlobalVmId_def set_block_def)
  have "handleAppTermination t p v appFinishedOK h = Inr (if allAppsFinished ?rq
      then emit_out (Event (?rq\<lparr>ua_destinationTopic := ua_returnTopic ?rq, ua_result := SM_APP_Res_Accept,
               ua_vmId := g, ua_isResponse := True\<rparr>)) ?s3 else ?s3)"
    unfolding handleAppTermination_def
    using a(1-6) s1 rq s3 g
    by (simp add: getVmControlBlock_def getAppControlBlock_def vm_in_bounds_def app_in_bounds_def Let_def)
  moreover have "vm_block v (set_block v (?b1\<lparr>request := To ?rq\<rparr>) (hyp_table h)) = ?b1\<lparr>request := To ?rq\<rparr>"
    using a(1,2) by (simp add: vm_block_def set_block_def)
  ultimately show ?thesis
    using a(3,4) by (auto simp: ended_def emit_out_def app_isFree_def app_free_def)
qed

lemma run_app_exit:
  assumes "call_ok SYS_EXIT s (newest_call s)" "hosts (sint (ap_vmId s)) (sint (ap_pid s)) rq d g h"
  shows "\<exists>h'. run_app (Suc n) device u clock s h = Some (Inr ([newest_call s], s, h')) \<and>
    ended (sint (ap_vmId s)) (sint (ap_pid s)) (finished_at (clock n) d rq) g (hyp_out h) h'"
proof -
  obtain h' where h': "handleAppTermination (clock n) (sint (ap_pid s)) (sint (ap_vmId s)) appFinishedOK h = Inr h'"
    "ended (sint (ap_vmId s)) (sint (ap_pid s)) (finished_at (clock n) d rq) g (hyp_out h) h'"
    using termination_ends [OF assms(2)] by blast
  have "vmIsSuspended (sint (ap_vmId s)) (hyp_table h) = Inr False"
    using assms(2) by (simp add: hosts_def not_suspended)
  then have "handle_call (clock n) (newest_call s) h = Inr h'"
    using assms(1) h'(1) by (simp add: handle_call_def call_ok_def Let_def processSyscallStart_def call_codes)
  moreover have "drop (length (hyp_out h)) (hyp_out h') = DeleteApp (sint (ap_vmId s)) (sint (ap_pid s)) #
      drop (Suc (length (hyp_out h))) (hyp_out h')"
    using h'(2) by (simp add: ended_def)
  ultimately have "serve_call device (clock n) (newest_call s) h = Inr (None, h')"
    by (simp add: serve_call_def Let_def)
  then show ?thesis using h'(2) by simp
qed

lemma run_app_rounds:
  assumes "call_ok (if R = 0 then SYS_EXIT else SYS_READ) s (newest_call s)" "la_remainingMIs s = Some k"
    "la_iteration s = Some i" "R = 0 \<or> unat i + R = max (unat i + 1) (unat (la_iterations s))"
    "unat i < 2 ^ 32 - 1" "device_ok device" "hosts (sint (ap_vmId s)) (sint (ap_pid s)) rq d g h"
  shows "\<exists>cs s' h' os. run_app (3 * R + 1) device u clock s h = Some (Inr (cs, s', h')) \<and>
    map (\<lambda>c. opCode (call_base c)) cs = concat (replicate R [SYS_READ, SYS_EXEC, SYS_WRITE]) @ [SYS_EXIT] \<and>
    ended (sint (ap_vmId s)) (sint (ap_pid s)) (finished_at (clock 0) d rq) g (hyp_out h @ os) h'"
  using assms
proof (induction R arbitrary: s h i)
  case 0
  then obtain h' where "run_app (Suc 0) device u clock s h = Some (Inr ([newest_call s], s, h'))"
    "ended (sint (ap_vmId s)) (sint (ap_pid s)) (finished_at (clock 0) d rq) g (hyp_out h) h'"
    using run_app_exit [where n = 0 and clock = clock] by (metis (mono_tags, lifting))
  moreover have "opCode (call_base (newest_call s)) = SYS_EXIT" using 0(1) by (simp add: call_ok_def Let_def)
  ultimately show ?case
    by (intro exI [of _ "[newest_call s]"] exI [of _ s] exI [of _ h'] exI [of _ "[]"]) simp
next
  case (Suc R)
  have on: "runs_on (sint (ap_vmId s)) h" using Suc.prems(7) by (simp add: hosts_def)
  have reading: "call_ok SYS_READ s (newest_call s)" using Suc.prems(1) by simp
  obtain c1 c2 c3 s1 os where r: "map (\<lambda>c. opCode (call_base c)) [c1, c2, c3] = [SYS_READ, SYS_EXEC, SYS_WRITE]"
    "run_app ((3 * R + 1) + 3) device u clock s h = after_call c1 (after_call c2 (after_call c3
       (run_app (3 * R + 1) device u clock s1 (h\<lparr>hyp_out := hyp_out h @ os\<rparr>))))"
    "same_app s s1" "la_iteration s1 = Some (i + 1)"
    "call_ok (if i + 1 < la_iterations s then SYS_READ else SYS_EXIT) s1 (newest_call s1)"
    using run_app_round [OF reading Suc.prems(2,3) on Suc.prems(6), where n = "3 * R + 1" and clock = clock and u = u]
    by (elim exE conjE) (rule that; assumption)
  have i: "unat (i + 1) = unat i + 1" using Suc.prems(5) by (simp add: unat_word_ariths(1))
  have lt: "i + 1 < la_iterations s \<longleftrightarrow> R \<noteq> 0"
    unfolding word_less_nat_alt i using Suc.prems(4) by auto
  have same: "ap_vmId s1 = ap_vmId s" "ap_pid s1 = ap_pid s" "la_iterations s1 = la_iterations s"
    "la_remainingMIs s1 = la_remainingMIs s" using r(3) by (simp_all add: same_app_def)
  have ok: "call_ok (if R = 0 then SYS_EXIT else SYS_READ) s1 (newest_call s1)"
    using r(5) lt by (cases "R = 0") simp_all
  have bound: "R = 0 \<or> unat (i + 1) + R = max (unat (i + 1) + 1) (unat (la_iterations s1))"
    unfolding i same using Suc.prems(4) by auto
  have small: "unat (i + 1) < 2 ^ 32 - 1" if "R \<noteq> 0"
  proof -
    have "unat (la_iterations s1) < 2 ^ LENGTH(32)" by (rule unsigned_less)
    moreover have "unat (i + 1) < unat (la_iterations s1)" using lt that same by (simp add: word_less_nat_alt)
    ultimately show ?thesis unfolding i by simp
  qed
  show ?case
  proof (cases "R = 0")
    case False
    have hs: "hosts (sint (ap_vmId s1)) (sint (ap_pid s1)) rq d g (h\<lparr>hyp_out := hyp_out h @ os\<rparr>)"
      using Suc.prems(7) same by simp
    have rem: "la_remainingMIs s1 = Some k" using same Suc.prems(2) by simp
    obtain cs s' h' os' where t: "run_app (3 * R + 1) device u clock s1 (h\<lparr>hyp_out := hyp_out h @ os\<rparr>) = Some (Inr (cs, s', h'))"
      "map (\<lambda>c. opCode (call_base c)) cs = concat (replicate R [SYS_READ, SYS_EXEC, SYS_WRITE]) @ [SYS_EXIT]"
      "ended (sint (ap_vmId s1)) (sint (ap_pid s1)) (finished_at (clock 0) d rq) g
         (hyp_out (h\<lparr>hyp_out := hyp_out h @ os\<rparr>) @ os') h'"
      using Suc.IH [OF ok rem r(4) bound small [OF False] Suc.prems(6) hs] by blast
    have e: "3 * Suc R + 1 = (3 * R + 1) + 3" by simp
    show ?thesis
      unfolding e r(2) t(1) using r(1) t(2,3) same
      by (intro exI [of _ "c1 # c2 # c3 # cs"] exI [of _ s'] exI [of _ h'] exI [of _ "os @ os'"]) simp
  next
    case True
    have hs: "hosts (sint (ap_vmId s1)) (sint (ap_pid s1)) rq d g (h\<lparr>hyp_out := hyp_out h @ os\<rparr>)"
      using Suc.prems(7) same by simp
    obtain h' where t: "run_app (Suc 0) device u clock s1 (h\<lparr>hyp_out := hyp_out h @ os\<rparr>) = Some (Inr ([newest_call s1], s1, h'))"
      "ended (sint (ap_vmId s1)) (sint (ap_pid s1)) (finished_at (clock 0) d rq) g (hyp_out h @ os) h'"
      using run_app_exit [OF _ hs, where n = 0 and clock = clock] ok True by auto
    have x: "opCode (call_base (newest_call s1)) = SYS_EXIT" using ok True by (simp add: call_ok_def Let_def)
    have e: "3 * Suc R + 1 = (3 * R + 1) + 3" "3 * R + 1 = Suc 0" using True by simp_all
    show ?thesis
      unfolding e(1) r(2) unfolding e(2) t(1) using r(1) t(2) same x True
      by (intro exI [of _ "[c1, c2, c3, newest_call s1]"] exI [of _ s1] exI [of _ h'] exI [of _ os]) simp
  qed
qed

text \<open>C31.  An application started on a machine that runs it issues its calls in rounds of reading, computing and
  writing and then ends.  It makes one round less than its parameter \<open>iterations\<close> but at least one, where
  \<open>LocalApplication.ned\<close> and \<open>LocalApplication.h\<close> call the parameter the number of iterations to be
  performed: the code falls one short of what they document.  At the end the hypervisor frees its process, marks it as finished in the request of the user and answers the user if it was the last
  one.  The run takes three round trips for each round and one for the end.
\<close>

theorem application_runs_to_exit:
  assumes "la_handleMessage u now (SelfMsg EventTimer) (la_initialize t0 a) = Inr s" "\<not> la_initialized a"
    "device_ok device" "hosts (sint (ap_vmId a)) (sint (ap_pid a)) rq d g h"
  shows "let R = max 1 (unat (la_iterations a) - 1) in
    \<exists>cs s' h' os. run_app (3 * R + 1) device u clock s h = Some (Inr (cs, s', h')) \<and>
      map (\<lambda>c. opCode (call_base c)) cs = concat (replicate R [SYS_READ, SYS_EXEC, SYS_WRITE]) @ [SYS_EXIT] \<and>
      ended (sint (ap_vmId a)) (sint (ap_pid a)) (finished_at (clock 0) d rq) g (hyp_out h @ os) h'"
proof -
  let ?R = "max 1 (unat (la_iterations a) - 1)"
  let ?s0 = "la_initialize t0 a"
  have i: "ap_vmId ?s0 = ap_vmId a" "ap_pid ?s0 = ap_pid a" "la_iterations ?s0 = la_iterations a"
    "la_remainingMIs ?s0 = Some (la_MIs a)" "la_iteration ?s0 = Some 1"
    using assms(2) by (simp_all add: la_initialize_def app_base_initialize_def scheduleExecStart_def Let_def)
  let ?s1 = "?s0\<lparr>ap_eventAt := None\<rparr>"
  have "app_read now (rat_of_u32 (la_inputDataSize ?s1)) ?s1 = Inr s"
    using assms(1) by (simp add: app_handleMessage_def la_callback_def la_processSelfMessage_def)
  then have s: "same_app ?s1 s" "la_iteration s = la_iteration ?s1" "call_ok SYS_READ s (newest_call s)"
    using sends_result [OF app_read_sends [of now "rat_of_u32 (la_inputDataSize ?s1)" ?s1], of ?s1]
    by (auto simp: same_app_def)
  have same: "ap_vmId s = ap_vmId a" "ap_pid s = ap_pid a" "la_iterations s = la_iterations a"
    "la_remainingMIs s = Some (la_MIs a)" "la_iteration s = Some 1"
    using s(1,2) i by (simp_all add: same_app_def)
  have "call_ok (if ?R = 0 then SYS_EXIT else SYS_READ) s (newest_call s)" using s(3) by simp
  moreover have "?R = 0 \<or> unat (1 :: u32) + ?R = max (unat (1 :: u32) + 1) (unat (la_iterations s))"
    unfolding same by auto
  moreover have "unat (1 :: u32) < 2 ^ 32 - 1" by simp
  moreover have "hosts (sint (ap_vmId s)) (sint (ap_pid s)) rq d g h" using assms(4) same by simp
  ultimately show ?thesis
    using run_app_rounds [where R = ?R and s = s, OF _ same(4,5) _ _ assms(3)] same unfolding Let_def by simp
qed

definition la_example :: "nat LocalApplication" where
  "la_example = \<lparr>ap_core = core_initialize 5 ''app'', ap_pid = 1, ap_vmId = 0, ap_operationStart = 0, ap_resolver = False,
     ap_startDelay = 1, ap_appInstance = ''a'', ap_event = EXEC_START, ap_eventAt = None, ap_outGate = 2,
     ap_sockets = Map.empty, ap_out = [], la_inputDataSize = 10, la_outputDataSize = 5, la_MIs = 100,
     la_iterations = 3, la_remainingMIs = None, la_iteration = None, la_initialized = False, la_start = 0,
     la_serviceCPU = 0, la_serviceIO = 0\<rparr>"

fun echo_device :: "any_call \<Rightarrow> any_call" where
  "echo_device (CpuCall m) = CpuCall (m\<lparr>isResponse := True, isCompleted := True\<rparr>)"
| "echo_device (DiskCall m) = DiskCall (m\<lparr>isResponse := True\<rparr>)"
| "echo_device (PlainCall m) = PlainCall (m\<lparr>isResponse := True\<rparr>)"

definition la_request :: SM_UserAPP where
  "la_request = \<lparr>ua_operation = 0, ua_isResponse = False, ua_result = 0, ua_destinationTopic = [], ua_returnTopic = ''u'',
     ua_vmId = ''vm'', ua_hypervisorUrl = [], ua_userId = ''u'',
     ua_app = [\<lparr>app_name = ''a'', app_type = ''Local'', app_startTime = 0, app_finishTime = 0, app_state = 1\<rparr>],
     ua_nFinishedApps = 0, ua_finished = False\<rparr>"

definition la_host :: "unit Hypervisor" where
  "la_host = \<lparr>hyp_table = \<lparr>globalToLocalVmIdMap = [''vm'' \<mapsto> 0], localToGlobalVmIdMap = [0 \<mapsto> ''vm''],
       vmTable = [fresh_block\<lparr>vcb_state := vmRunning, request := To la_request,
         apps := [fresh_app, app_initialize 0 1 0 fresh_app]\<rparr>], numAppsPerVm = 2\<rparr>, hyp_hw = (),
     hyp_schedulers = [], hyp_isVirtual = True, hyp_out = []\<rparr>"

lemma echo_device_ok: "device_ok echo_device"
proof -
  have "call_base (echo_device c) = (call_base c)\<lparr>isResponse := True\<rparr>" for c
    by (cases c) (simp_all add: Syscall.defs)
  then show ?thesis by (simp add: device_ok_def)
qed

lemma la_hosts: "hosts 0 1 la_request 0 ''vm'' la_host"
  by (simp add: hosts_def runs_on_def la_host_def vm_block_def block_isRunning_def app_initialize_def la_request_def)

theorem application_runs_to_exit_witness:
  "\<exists>s cs s' h' os. la_handleMessage 0 1 (SelfMsg EventTimer) (la_initialize 0 la_example) = Inr s \<and>
     run_app 7 echo_device 0 of_nat s la_host = Some (Inr (cs, s', h')) \<and>
     map (\<lambda>c. opCode (call_base c)) cs = [0, 2, 1, 0, 2, 1, 9] \<and>
     ended 0 1 (finished_at 0 0 la_request) ''vm'' (hyp_out la_host @ os) h'"
proof -
  have n: "\<not> la_initialized la_example" "la_iterations la_example = 3"
    "ap_vmId la_example = 0" "ap_pid la_example = 1"
    by (simp_all add: la_example_def)
  have "sends SYS_READ (la_handleMessage 0 1 (SelfMsg EventTimer) (la_initialize 0 la_example))
      ((la_initialize 0 la_example)\<lparr>ap_eventAt := None\<rparr>)"
    by (simp add: app_handleMessage_def la_callback_def la_processSelfMessage_def app_read_sends)
  then obtain s where s: "la_handleMessage 0 1 (SelfMsg EventTimer) (la_initialize 0 la_example) = Inr s"
    by (auto simp: sends_def)
  have h: "hosts (sint (ap_vmId la_example)) (sint (ap_pid la_example)) la_request 0 ''vm'' la_host"
    using la_hosts n by simp
  have r: "max 1 (unat (3 :: u32) - 1) = 2" by simp
  have c: "concat (replicate 2 [SYS_READ, SYS_EXEC, SYS_WRITE]) @ [SYS_EXIT] = [0, 2, 1, 0, 2, 1, 9]"
    by (simp add: call_codes numeral_2_eq_2)
  have f: "3 * 2 + 1 = (7 :: nat)" "of_nat 0 = (0 :: rat)" "sint (0 :: u32) = 0" "sint (1 :: u32) = 1" by simp_all
  have "\<exists>cs s' h' os. run_app 7 echo_device 0 of_nat s la_host = Some (Inr (cs, s', h')) \<and>
      map (\<lambda>c. opCode (call_base c)) cs = [0, 2, 1, 0, 2, 1, 9] \<and>
      ended 0 1 (finished_at 0 0 la_request) ''vm'' (hyp_out la_host @ os) h'"
    using application_runs_to_exit [OF s n(1) echo_device_ok h, where clock = of_nat]
    unfolding n r f c Let_def .
  with s show ?thesis by (intro exI [of _ s]) simp
qed

end
