(* ===== verification/Endpoints.thy ===== *)
theory Endpoints
  imports Apps
begin

text \<open>
  The clients and servers of \<open>apps/endpoints\<close> and \<open>apps/services/IotService\<close>: a client resolves the name of
  its service, connects and sends requests; the probing client first waits until the service says that it is
  ready; a server listens, registers itself at the proxy of its node and answers.

  \<open>parse\<close> says which strings are addresses; the ids of new sockets are arguments.
\<close>

section \<open>The client\<close>

record 'ip ClientEndpoint = "'ip AppBase" +
  ce_sockFd :: int
  ce_servingHost :: string
  ce_serviceName :: string

definition ce_initialize :: "int \<Rightarrow> rat \<Rightarrow> 'ip ClientEndpoint \<Rightarrow> 'ip ClientEndpoint" where
  "ce_initialize fd now s = (app_open fd (-1) SOCK_STREAM [] (app_base_initialize now s))\<lparr>ce_sockFd := fd\<rparr>"

definition ce_processSelfMessage ::
  "(string \<Rightarrow> 'ip option) \<Rightarrow> rat \<Rightarrow> self_msg \<Rightarrow> 'ip ClientEndpoint \<Rightarrow> 'ip ClientEndpoint outcome" where
  "ce_processSelfMessage parse now m s =
     (if m = EventTimer then
        (case parse (ce_servingHost s) of
           Some ip \<Rightarrow> app_connect (ce_sockFd s) ip 443 s
         | None \<Rightarrow> if ap_resolver s then app_resolve (ce_servingHost s) s
                   else Inl (RuntimeError ''No resolver available and not able to get an Ip address''))
      else Inr s)"

definition ce_handleResolutionFinished :: "'ip \<Rightarrow> bool \<Rightarrow> 'ip ClientEndpoint \<Rightarrow> 'ip ClientEndpoint outcome" where
  "ce_handleResolutionFinished ip resolved s =
     (if \<not> resolved then Inl (RuntimeError ''Unexpected unavailability of service'')
      else app_connect (ce_sockFd s) ip 443 s)"

definition ce_sendRequest :: "'ip ClientEndpoint \<Rightarrow> 'ip ClientEndpoint outcome" where
  "ce_sendRequest s = app_send (ce_sockFd s) (RestRequest (Some GET) (ce_serviceName s) ''/'' None) 0 0 s"

definition ce_handleConnectReturn :: "int \<Rightarrow> bool \<Rightarrow> 'ip ClientEndpoint \<Rightarrow> 'ip ClientEndpoint outcome" where
  "ce_handleConnectReturn fd ok s =
     (if \<not> ok then Inl (RuntimeError ''Unable to connect to service'') else ce_sendRequest s)"

definition ce_handleDataArrived ::
  "rat \<Rightarrow> int \<Rightarrow> app_packet \<Rightarrow> 'ip ClientEndpoint \<Rightarrow> 'ip ClientEndpoint outcome" where
  "ce_handleDataArrived now fd p s = ce_sendRequest s"

text \<open>The peer closed: \<open>true\<close>, so that the base closes the socket.\<close>

definition close_with_peer :: "int \<Rightarrow> 's \<Rightarrow> (bool \<times> 's) outcome" where
  "close_with_peer fd s = Inr (True, s)"

definition ignore_exec :: "rat \<Rightarrow> rat \<Rightarrow> SM_CPU_Message \<Rightarrow> 's \<Rightarrow> 's outcome" where
  "ignore_exec now t m s = Inr s"

definition ce_callback :: "(string \<Rightarrow> 'ip option) \<Rightarrow> ('ip, 'ip ClientEndpoint) app_callback" where
  "ce_callback parse = \<lparr>
     cb_processSelfMessage = ce_processSelfMessage parse,
     cb_returnExec = ignore_exec, cb_returnRead = ignore_return, cb_returnWrite = ignore_return,
     cb_handleResolutionFinished = ce_handleResolutionFinished,
     cb_handleDataArrived = ce_handleDataArrived,
     cb_handleClientConnection = refuse_client,
     cb_handleConnectReturn = ce_handleConnectReturn,
     cb_handlePeerClosed = close_with_peer\<rparr>"

section \<open>The probing client\<close>

record 'ip ProbingClient = "'ip AppBase" +
  pc_sockFd :: int
  pc_started :: bool
  pc_serviceName :: string
  pc_pollingInterval :: rat

definition SEND_PROBE :: int where "SEND_PROBE = 100"

definition pc_initialize :: "int \<Rightarrow> rat \<Rightarrow> 'ip ProbingClient \<Rightarrow> 'ip ProbingClient" where
  "pc_initialize fd now s =
     (app_open fd (-1) SOCK_STREAM [] (app_base_initialize now s))\<lparr>pc_sockFd := fd, pc_started := False\<rparr>"

definition attemptStart :: "'ip ProbingClient \<Rightarrow> 'ip ProbingClient outcome" where
  "attemptStart s =
     (if pc_started s \<or> pc_serviceName s = [] then Inr s
      else and_then (if ap_resolver s then app_resolve (pc_serviceName s) s
                     else Inl (RuntimeError ''No resolver available and not able to get an Ip address'')) (\<lambda>s'.
             Inr (s'\<lparr>pc_started := True\<rparr>)))"

definition sendProbe :: "'ip ProbingClient \<Rightarrow> 'ip ProbingClient outcome" where
  "sendProbe s = app_send (pc_sockFd s) (RestRequest (Some HEAD) (pc_serviceName s) ''/'' None) 0 0 s"

definition pc_sendRequest :: "'ip ProbingClient \<Rightarrow> 'ip ProbingClient outcome" where
  "pc_sendRequest s = app_send (pc_sockFd s) (RestRequest (Some GET) (pc_serviceName s) ''/'' None) 0 0 s"

definition pc_processSelfMessage :: "rat \<Rightarrow> self_msg \<Rightarrow> 'ip ProbingClient \<Rightarrow> 'ip ProbingClient outcome" where
  "pc_processSelfMessage now m s =
     (if m = EventTimer then attemptStart s
      else if m = KindTimer SEND_PROBE then sendProbe s
      else Inr s)"

text \<open>\<open>handleParameterChange\<close>, with the new value of the parameter.\<close>

definition pc_handleParameterChange :: "string \<Rightarrow> string \<Rightarrow> 'ip ProbingClient \<Rightarrow> 'ip ProbingClient outcome" where
  "pc_handleParameterChange name new s =
     (if name = ''serviceName'' then attemptStart (s\<lparr>pc_serviceName := new\<rparr>) else Inr s)"

definition pc_handleResolutionFinished :: "'ip \<Rightarrow> bool \<Rightarrow> 'ip ProbingClient \<Rightarrow> 'ip ProbingClient outcome" where
  "pc_handleResolutionFinished ip resolved s =
     (if \<not> resolved then Inl (RuntimeError ''Unexpected unavailability of service'')
      else app_connect (pc_sockFd s) ip 443 s)"

definition pc_handleConnectReturn :: "int \<Rightarrow> bool \<Rightarrow> 'ip ProbingClient \<Rightarrow> 'ip ProbingClient outcome" where
  "pc_handleConnectReturn fd ok s =
     (if \<not> ok then Inl (RuntimeError ''Unable to connect to service'') else sendProbe s)"

definition pc_handleDataArrived ::
  "rat \<Rightarrow> int \<Rightarrow> app_packet \<Rightarrow> 'ip ProbingClient \<Rightarrow> 'ip ProbingClient outcome" where
  "pc_handleDataArrived now fd p s =
     (case p of
        RestResponse code host path n \<Rightarrow>
          if code = RC_OK then pc_sendRequest s
          else Inr (app_emit (SelfTimer (now + pc_pollingInterval s) (KindTimer SEND_PROBE)) s)
      | _ \<Rightarrow> Inl (RuntimeError ''peekData: unexpected chunk''))"

definition pc_callback :: "('ip, 'ip ProbingClient) app_callback" where
  "pc_callback = \<lparr>
     cb_processSelfMessage = pc_processSelfMessage,
     cb_returnExec = ignore_exec, cb_returnRead = ignore_return, cb_returnWrite = ignore_return,
     cb_handleResolutionFinished = pc_handleResolutionFinished,
     cb_handleDataArrived = pc_handleDataArrived,
     cb_handleClientConnection = refuse_client,
     cb_handleConnectReturn = pc_handleConnectReturn,
     cb_handlePeerClosed = close_with_peer\<rparr>"

section \<open>The server\<close>

record 'ip ServerEndpoint = "'ip AppBase" +
  se_sockFd :: int
  se_serviceName :: string

definition se_initialize :: "int \<Rightarrow> rat \<Rightarrow> bool \<Rightarrow> string \<Rightarrow> 'ip ServerEndpoint \<Rightarrow> 'ip ServerEndpoint outcome" where
  "se_initialize fd now useAppId name s =
     (let s1 = app_base_initialize now s;
          s2 = s1\<lparr>se_serviceName := (if useAppId then ap_appInstance s1 else name), se_sockFd := fd\<rparr>
      in app_listen fd (app_open fd 443 SOCK_STREAM [] s2))"

definition se_processSelfMessage :: "rat \<Rightarrow> self_msg \<Rightarrow> 'ip ServerEndpoint \<Rightarrow> 'ip ServerEndpoint outcome" where
  "se_processSelfMessage now m s =
     Inr (if m = EventTimer then app_registerService (se_serviceName s) (se_sockFd s) s else s)"

definition se_handleDataArrived ::
  "rat \<Rightarrow> int \<Rightarrow> app_packet \<Rightarrow> 'ip ServerEndpoint \<Rightarrow> 'ip ServerEndpoint outcome" where
  "se_handleDataArrived now fd p s =
     (case p of
        RestRequest v host path n \<Rightarrow> app_send fd (RestResponse RC_OK (se_serviceName s) path 0) 0 0 s
      | _ \<Rightarrow> Inl (Undefined ''null request''))"

definition accept_client :: "int \<Rightarrow> 'ip \<Rightarrow> u16 \<Rightarrow> 's \<Rightarrow> bool \<times> 's" where
  "accept_client fd ip port s = (True, s)"

definition se_callback :: "('ip, 'ip ServerEndpoint) app_callback" where
  "se_callback = \<lparr>
     cb_processSelfMessage = se_processSelfMessage,
     cb_returnExec = ignore_exec, cb_returnRead = ignore_return, cb_returnWrite = ignore_return,
     cb_handleResolutionFinished = (\<lambda>ip ok s. Inr s),
     cb_handleDataArrived = se_handleDataArrived,
     cb_handleClientConnection = accept_client,
     cb_handleConnectReturn = (\<lambda>fd ok s. Inr s),
     cb_handlePeerClosed = close_with_peer\<rparr>"

section \<open>The service for the devices\<close>

record 'ip IotService = "'ip AppBase" +
  is_sockFd :: int
  is_serviceName :: string
  is_replySize :: rat
  is_responseDelay :: rat
  is_queues :: "int \<Rightarrow> app_packet list option"     \<comment> \<open>\<open>connectionQueue\<close>\<close>

definition is_initialize :: "int \<Rightarrow> rat \<Rightarrow> 'ip IotService \<Rightarrow> 'ip IotService outcome" where
  "is_initialize fd now s =
     (let s1 = (app_base_initialize now s)\<lparr>is_queues := Map.empty\<rparr>
      in app_listen fd (app_open fd 443 SOCK_STREAM []
           (s1\<lparr>is_serviceName := ap_appInstance s1, is_sockFd := fd\<rparr>)))"

definition is_processSelfMessage :: "rat \<Rightarrow> self_msg \<Rightarrow> 'ip IotService \<Rightarrow> 'ip IotService outcome" where
  "is_processSelfMessage now m s =
     (case m of
        EventTimer \<Rightarrow> Inr (if ap_event s = EXEC_START then app_registerService (is_serviceName s) (is_sockFd s) s else s)
      | PacketTimer fd p \<Rightarrow> app_send fd p 0 0 s
      | KindTimer k \<Rightarrow> Inr s)"

text \<open>The loop over the requests at the head of the queue of a connection.\<close>

fun answer_requests :: "rat \<Rightarrow> int \<Rightarrow> app_packet list \<Rightarrow> 'ip IotService \<Rightarrow> app_packet list \<times> 'ip IotService" where
  "answer_requests now fd (RestRequest v host path n # q) s =
     answer_requests now fd q (app_emit (SelfTimer (now + is_responseDelay s)
       (PacketTimer fd (RestResponse RC_OK (is_serviceName s) path (is_replySize s)))) s)"
| "answer_requests now fd q s = (q, s)"

definition is_handleDataArrived ::
  "rat \<Rightarrow> int \<Rightarrow> app_packet \<Rightarrow> 'ip IotService \<Rightarrow> 'ip IotService outcome" where
  "is_handleDataArrived now fd p s =
     (case is_queues s fd of
        None \<Rightarrow> Inl OutOfRange
      | Some q \<Rightarrow> let (q', s') = answer_requests now fd (q @ [p]) s in Inr (s'\<lparr>is_queues := (is_queues s')(fd \<mapsto> q')\<rparr>))"

definition is_handleClientConnection :: "int \<Rightarrow> 'ip \<Rightarrow> u16 \<Rightarrow> 'ip IotService \<Rightarrow> bool \<times> 'ip IotService" where
  "is_handleClientConnection fd ip port s =
     (True, case is_queues s fd of Some q \<Rightarrow> s | None \<Rightarrow> s\<lparr>is_queues := (is_queues s)(fd \<mapsto> [])\<rparr>)"

definition is_handlePeerClosed :: "int \<Rightarrow> 'ip IotService \<Rightarrow> (bool \<times> 'ip IotService) outcome" where
  "is_handlePeerClosed fd s = Inr (True, s\<lparr>is_queues := (is_queues s)(fd := None)\<rparr>)"

definition is_callback :: "('ip, 'ip IotService) app_callback" where
  "is_callback = \<lparr>
     cb_processSelfMessage = is_processSelfMessage,
     cb_returnExec = ignore_exec, cb_returnRead = ignore_return, cb_returnWrite = ignore_return,
     cb_handleResolutionFinished = (\<lambda>ip ok s. Inr s),
     cb_handleDataArrived = is_handleDataArrived,
     cb_handleClientConnection = is_handleClientConnection,
     cb_handleConnectReturn = (\<lambda>fd ok s. Inr s),
     cb_handlePeerClosed = is_handlePeerClosed\<rparr>"

section \<open>The service answers\<close>

fun is_request :: "app_packet \<Rightarrow> bool" where
  "is_request (RestRequest v host path n) = True"
| "is_request p = False"

fun request_path :: "app_packet \<Rightarrow> string" where
  "request_path (RestRequest v host path n) = path"
| "request_path p = []"

definition reply_to :: "'ip IotService \<Rightarrow> app_packet \<Rightarrow> app_packet" where
  "reply_to s p = RestResponse RC_OK (is_serviceName s) (request_path p) (is_replySize s)"

definition reply_timers :: "'ip IotService \<Rightarrow> int \<Rightarrow> rat \<Rightarrow> app_packet list \<Rightarrow> 'ip app_out list" where
  "reply_timers s fd now ps = map (\<lambda>p. SelfTimer (now + is_responseDelay s) (PacketTimer fd (reply_to s p))) ps"

lemma answer_requests_eq:
  "answer_requests now fd q s = (dropWhile is_request q,
     s\<lparr>ap_out := ap_out s @ reply_timers s fd now (takeWhile is_request q)\<rparr>)"
proof (induction now fd q s rule: answer_requests.induct)
  case (1 now fd v host path n q s)
  then show ?case by (simp add: app_emit_def reply_timers_def reply_to_def)
qed (simp_all add: reply_timers_def)

text \<open>A connection of a service that has received some packets: the requests before the first other packet
  have their answers under way, and what follows waits.\<close>

definition serving :: "int \<Rightarrow> app_packet list \<Rightarrow> 'ip IotService \<Rightarrow> bool" where
  "serving fd q s \<longleftrightarrow> ap_sockets s fd = Some SOCK_STREAM \<and> is_queues s fd = Some q"

lemma service_packet:
  assumes "serving fd q s"
  shows "app_handleMessage is_callback u t (SocketMsg fd (TcpData p)) s =
    Inr (s\<lparr>ap_out := ap_out s @ reply_timers s fd t (takeWhile is_request (q @ [p])),
           is_queues := (is_queues s)(fd \<mapsto> dropWhile is_request (q @ [p]))\<rparr>)"
  using assms
  by (simp add: serving_def app_handleMessage_def app_socketEvent_def is_callback_def is_handleDataArrived_def
      answer_requests_eq)

lemma takeWhile_stuck: "q \<noteq> [] \<Longrightarrow> \<not> is_request (hd q) \<Longrightarrow> takeWhile is_request (q @ ps) = []"
  by (cases q) auto

lemma dropWhile_stuck: "q \<noteq> [] \<Longrightarrow> \<not> is_request (hd q) \<Longrightarrow> dropWhile is_request (q @ ps) = q @ ps"
  by (cases q) auto

abbreviation data_on :: "int \<Rightarrow> (rat \<times> app_packet) list \<Rightarrow> (rat \<times> 'ip app_msg) list" where
  "data_on fd ps \<equiv> map (\<lambda>(t, p). (t, SocketMsg fd (TcpData p))) ps"

lemma service_stuck:
  assumes "serving fd q s" "q \<noteq> []" "\<not> is_request (hd q)"
  shows "\<exists>s'. app_events is_callback u (data_on fd ps) s = Inr s' \<and> serving fd (q @ map snd ps) s' \<and>
    ap_out s' = ap_out s \<and> is_serviceName s' = is_serviceName s \<and> is_replySize s' = is_replySize s"
  using assms
proof (induction ps arbitrary: s q)
  case Nil
  then show ?case by simp
next
  case (Cons tp ps)
  obtain t p where tp: "tp = (t, p)" by force
  let ?s = "s\<lparr>ap_out := ap_out s @ reply_timers s fd t (takeWhile is_request (q @ [p])),
           is_queues := (is_queues s)(fd \<mapsto> dropWhile is_request (q @ [p]))\<rparr>"
  have "serving fd (q @ [p]) ?s" "ap_out ?s = ap_out s"
    using Cons.prems dropWhile_stuck [of q "[p]"] takeWhile_stuck [of q "[p]"]
    by (simp_all add: serving_def reply_timers_def)
  moreover have "q @ [p] \<noteq> []" "\<not> is_request (hd (q @ [p]))" using Cons.prems by simp_all
  ultimately show ?case
    using Cons.IH [of "q @ [p]" ?s] service_packet [OF Cons.prems(1), of u t p] tp by auto
qed

lemma service_packets:
  assumes "serving fd [] s"
  shows "\<exists>s'. app_events is_callback u (data_on fd ps) s = Inr s' \<and>
    serving fd (map snd (dropWhile (is_request \<circ> snd) ps)) s' \<and>
    ap_out s' = ap_out s @ map (\<lambda>(t, p). SelfTimer (t + is_responseDelay s) (PacketTimer fd (reply_to s p)))
      (takeWhile (is_request \<circ> snd) ps) \<and> is_serviceName s' = is_serviceName s \<and> is_replySize s' = is_replySize s"
  using assms
proof (induction ps arbitrary: s)
  case Nil
  then show ?case by simp
next
  case (Cons tp ps)
  obtain t p where tp: "tp = (t, p)" by force
  note step = service_packet [OF Cons.prems, of u t p]
  show ?case
  proof (cases "is_request p")
    case True
    let ?s = "s\<lparr>ap_out := ap_out s @ reply_timers s fd t [p], is_queues := (is_queues s)(fd \<mapsto> [])\<rparr>"
    have "serving fd [] ?s" using Cons.prems by (simp add: serving_def)
    from Cons.IH [OF this] step True tp show ?thesis by (auto simp: reply_timers_def reply_to_def)
  next
    case False
    let ?s = "s\<lparr>ap_out := ap_out s @ reply_timers s fd t [], is_queues := (is_queues s)(fd \<mapsto> [p])\<rparr>"
    have "serving fd [p] ?s" using Cons.prems by (simp add: serving_def)
    from service_stuck [OF this, of u ps] step False tp show ?thesis by (auto simp: reply_timers_def)
  qed
qed

lemma service_sends:
  assumes "ap_sockets s fd = Some SOCK_STREAM"
  shows "\<exists>s'. app_events is_callback u (map (\<lambda>(t, p). (t, SelfMsg (PacketTimer fd p))) ps) s = Inr s' \<and>
    ap_out s' = ap_out s @ map (\<lambda>(t, p). TcpSend fd p) ps"
  using assms
proof (induction ps arbitrary: s)
  case Nil
  then show ?case by simp
next
  case (Cons tp ps)
  obtain t p where tp: "tp = (t, p)" by force
  have "app_handleMessage is_callback u t (SelfMsg (PacketTimer fd p)) s = Inr (app_emit (TcpSend fd p) s)"
    using Cons.prems by (simp add: app_handleMessage_def is_callback_def is_processSelfMessage_def app_send_def cast_socket_def)
  moreover have "ap_sockets (app_emit (TcpSend fd p) s) fd = Some SOCK_STREAM" using Cons.prems by (simp add: app_emit_def)
  ultimately show ?case using Cons.IH [of "app_emit (TcpSend fd p) s"] tp by (auto simp: app_emit_def)
qed

text \<open>C32.  A service answers the requests of a connection in their order and on that connection, each with the
  path it asked for and after the response delay; from the first packet on that is not a request everything
  waits.  When the peer closes the connection before an answer is due, that answer stops the simulation.
\<close>

theorem service_answers_in_order:
  assumes "ap_sockets s fd = Some SOCK_STREAM" "is_queues s fd = Some []"
  shows "let rs = takeWhile (is_request \<circ> snd) ps in
    \<exists>s1 s2 s3. app_events is_callback u (data_on fd ps) s = Inr s1 \<and>
      ap_out s1 = ap_out s @ map (\<lambda>(t, p). SelfTimer (t + is_responseDelay s) (PacketTimer fd (reply_to s p))) rs \<and>
      is_queues s1 fd = Some (map snd (drop (length rs) ps)) \<and>
      app_events is_callback u (map (\<lambda>(t, p). (t + is_responseDelay s, SelfMsg (PacketTimer fd (reply_to s p)))) rs) s1 = Inr s2 \<and>
      ap_out s2 = ap_out s1 @ map (\<lambda>(t, p). TcpSend fd (reply_to s p)) rs \<and>
      app_handleMessage is_callback u t0 (SocketMsg fd TcpPeerClosed) s1 = Inr s3 \<and>
      app_handleMessage is_callback u t1 (SelfMsg (PacketTimer fd (reply_to s p))) s3 = Inl (RuntimeError ''check_and_cast'')"
proof -
  let ?rs = "takeWhile (is_request \<circ> snd) ps"
  have "serving fd [] s" using assms by (simp add: serving_def)
  then obtain s1 where s1: "app_events is_callback u (data_on fd ps) s = Inr s1"
    "serving fd (map snd (dropWhile (is_request \<circ> snd) ps)) s1"
    "ap_out s1 = ap_out s @ map (\<lambda>(t, p). SelfTimer (t + is_responseDelay s) (PacketTimer fd (reply_to s p))) ?rs"
    using service_packets by blast
  have sock: "ap_sockets s1 fd = Some SOCK_STREAM" using s1(2) by (simp add: serving_def)
  from service_sends [OF this, of u "map (\<lambda>(t, p). (t + is_responseDelay s, reply_to s p)) ?rs"]
  obtain s2 where s2: "app_events is_callback u
      (map (\<lambda>(t, p). (t + is_responseDelay s, SelfMsg (PacketTimer fd (reply_to s p)))) ?rs) s1 = Inr s2"
    "ap_out s2 = ap_out s1 @ map (\<lambda>(t, p). TcpSend fd (reply_to s p)) ?rs"
    by (auto simp: comp_def case_prod_unfold)
  let ?s3 = "app_emit (CloseSocket fd) (s1\<lparr>is_queues := (is_queues s1)(fd := None), ap_sockets := (ap_sockets s1)(fd := None)\<rparr>)"
  have s3: "app_handleMessage is_callback u t0 (SocketMsg fd TcpPeerClosed) s1 = Inr ?s3"
    using sock by (simp add: app_handleMessage_def app_socketEvent_def is_callback_def is_handlePeerClosed_def app_close_def)
  have "app_handleMessage is_callback u t1 (SelfMsg (PacketTimer fd (reply_to s p))) ?s3 = Inl (RuntimeError ''check_and_cast'')"
    by (simp add: app_handleMessage_def is_callback_def is_processSelfMessage_def app_send_def cast_socket_def app_emit_def)
  with s1 s2 s3 show ?thesis
    by (auto simp: Let_def serving_def dropWhile_eq_drop)
qed

definition service_example :: "nat IotService" where
  "service_example = \<lparr>ap_core = core_initialize 5 ''app'', ap_pid = 1, ap_vmId = 0, ap_operationStart = 0, ap_resolver = False,
     ap_startDelay = 1, ap_appInstance = ''a'', ap_event = EXEC_START, ap_eventAt = None, ap_outGate = 2,
     ap_sockets = [3 \<mapsto> SOCK_STREAM, 8 \<mapsto> SOCK_STREAM], ap_out = [], is_sockFd = 3, is_serviceName = ''svc'',
     is_replySize = 10, is_responseDelay = 2, is_queues = [8 \<mapsto> []]\<rparr>"

theorem service_answers_in_order_witness:
  "\<exists>s1 s2. app_events is_callback 0 (data_on 8 [(1, RestRequest (Some GET) ''h'' ''/a'' None), (2, RestRequest (Some GET) ''h'' ''/b'' None),
       (3, ForeignPacket), (4, RestRequest (Some GET) ''h'' ''/c'' None)]) service_example = Inr s1 \<and>
     app_events is_callback 0 [(3, SelfMsg (PacketTimer 8 (RestResponse RC_OK ''svc'' ''/a'' 10))),
       (4, SelfMsg (PacketTimer 8 (RestResponse RC_OK ''svc'' ''/b'' 10)))] s1 = Inr s2 \<and>
     ap_out s2 = ap_out s1 @ [TcpSend 8 (RestResponse RC_OK ''svc'' ''/a'' 10), TcpSend 8 (RestResponse RC_OK ''svc'' ''/b'' 10)] \<and>
     is_queues s1 8 = Some [ForeignPacket, RestRequest (Some GET) ''h'' ''/c'' None]"
proof -
  have e: "ap_sockets service_example 8 = Some SOCK_STREAM" "is_queues service_example 8 = Some []"
    "is_responseDelay service_example = 2" "reply_to service_example p = RestResponse RC_OK ''svc'' (request_path p) 10" for p
    by (simp_all add: service_example_def reply_to_def)
  show ?thesis
    using service_answers_in_order [OF e(1,2), of "[(1, RestRequest (Some GET) ''h'' ''/a'' None),
       (2, RestRequest (Some GET) ''h'' ''/b'' None), (3, ForeignPacket), (4, RestRequest (Some GET) ''h'' ''/c'' None)]" 0]
    by (simp add: e Let_def del: app_events.simps) blast
qed

end
