(* ===== verification/SimService.thy ===== *)
theory SimService
  imports ResManager
begin

text \<open>
  The service that stands for an application of a user, \<open>apps/services/SimService\<close>: it takes the requests of each
  connection from a queue, reports the machine a new connection is for to the statistics of the resource manager,
  and answers with as many bytes as asked for, at once or later.

  The queue of a connection is the list of its chunks; one that is no request stays at its front.  The catalogue is
  \<open>searchVm\<close>; times and numbers are unbounded.
\<close>

section \<open>State\<close>

record GenericAppMsg =
  gm_length :: int
  gm_expectedReplyLength :: int
  gm_replyDelay :: rat
  gm_serverClose :: bool
  gm_vmType :: "string option"     \<comment> \<open>for a \<open>SimServiceReq\<close>\<close>

datatype service_chunk = AppMsg GenericAppMsg | OtherChunk

datatype service_packet = Reply int int rat | CloseConn int

record SimService =
  ss_delay :: rat
  ss_maxMsgDelay :: rat
  ss_msgsRcvd :: int
  ss_msgsSent :: int
  ss_bytesRcvd :: int
  ss_bytesSent :: int
  ss_queues :: "int \<Rightarrow> service_chunk list option"
  ss_timers :: "(rat \<times> service_packet) list"
  ss_sent :: "service_packet list"
  ss_accepted :: nat
  ss_signals :: "signal list"

definition ss_initialize :: "rat \<Rightarrow> SimService" where
  "ss_initialize replyDelay = \<lparr>ss_delay = replyDelay, ss_maxMsgDelay = 0, ss_msgsRcvd = 0, ss_msgsSent = 0, ss_bytesRcvd = 0,
     ss_bytesSent = 0, ss_queues = Map.empty, ss_timers = [], ss_sent = [], ss_accepted = 0, ss_signals = []\<rparr>"

section \<open>Operations\<close>

text \<open>\<open>sendBack\<close> reads the tags of the packet also when the message is the command to close.\<close>

definition ss_sendBack :: "service_packet \<Rightarrow> SimService \<Rightarrow> SimService outcome" where
  "ss_sendBack p s =
     (case p of
        Reply conn n t \<Rightarrow> Inr (s\<lparr>ss_msgsSent := ss_msgsSent s + 1, ss_bytesSent := ss_bytesSent s + n, ss_sent := ss_sent s @ [p]\<rparr>)
      | CloseConn conn \<Rightarrow> Inl (Undefined ''null packet''))"

definition ss_sendOrSchedule :: "rat \<Rightarrow> service_packet \<Rightarrow> rat \<Rightarrow> SimService \<Rightarrow> SimService outcome" where
  "ss_sendOrSchedule now p d s =
     (if d = 0 then ss_sendBack p s else Inr (s\<lparr>ss_timers := ss_timers s @ [(now + d, p)]\<rparr>))"

text \<open>What a request of a new connection adds to the statistics.\<close>

definition report_machine ::
  "bool \<Rightarrow> (string \<Rightarrow> VirtualMachine option) \<Rightarrow> GenericAppMsg \<Rightarrow> SimService \<Rightarrow> SimService outcome" where
  "report_machine listeners searchVm m s =
     (case gm_vmType m of
        None \<Rightarrow> Inl (Undefined ''null request'')
      | Some ty \<Rightarrow>
          (case searchVm ty of
             None \<Rightarrow> if listeners then Inl (Undefined ''null template'') else Inr s
           | Some vm \<Rightarrow> Inr (s\<lparr>ss_signals := ss_signals s @ emitSignals listeners vm True\<rparr>)))"

definition ss_request ::
  "bool \<Rightarrow> (string \<Rightarrow> VirtualMachine option) \<Rightarrow> rat \<Rightarrow> int \<Rightarrow> bool \<Rightarrow> GenericAppMsg \<Rightarrow> SimService \<Rightarrow> SimService outcome" where
  "ss_request listeners searchVm now conn established m s =
     (let s1 = s\<lparr>ss_msgsRcvd := ss_msgsRcvd s + 1, ss_bytesRcvd := ss_bytesRcvd s + gm_length m\<rparr>
      in and_then (if established then Inr s1 else report_machine listeners searchVm m s1) (\<lambda>s2.
         let s3 = (if gm_replyDelay m > ss_maxMsgDelay s2 then s2\<lparr>ss_maxMsgDelay := gm_replyDelay m\<rparr> else s2)
         in if gm_expectedReplyLength m > 0
            then ss_sendOrSchedule now (Reply conn (gm_expectedReplyLength m) now) (ss_delay s3 + gm_replyDelay m) s3
            else Inr s3))"

text \<open>The loop over the queue of a connection: what is left of it, and whether the connection is to be closed.\<close>

fun ss_requests ::
  "bool \<Rightarrow> (string \<Rightarrow> VirtualMachine option) \<Rightarrow> rat \<Rightarrow> int \<Rightarrow> bool \<Rightarrow> service_chunk list \<Rightarrow> SimService \<Rightarrow>
     (bool \<times> service_chunk list \<times> SimService) outcome" where
  "ss_requests listeners searchVm now conn established (AppMsg m # cs) s =
     and_then (ss_request listeners searchVm now conn established m s) (\<lambda>s'.
       if gm_serverClose m then Inr (True, cs, s') else ss_requests listeners searchVm now conn established cs s')"
| "ss_requests listeners searchVm now conn established cs s = Inr (False, cs, s)"

datatype service_event =
    Fired service_packet
  | ServicePeerClosed int
  | ServiceData int "service_chunk list"
  | ServiceAvailable
  | ServiceOther

definition ss_handleMessage ::
  "bool \<Rightarrow> (string \<Rightarrow> VirtualMachine option) \<Rightarrow> rat \<Rightarrow> service_event \<Rightarrow> SimService \<Rightarrow> SimService outcome" where
  "ss_handleMessage listeners searchVm now e s =
     (case e of
        Fired p \<Rightarrow>
          if (now, p) \<in> set (ss_timers s) then ss_sendBack p (s\<lparr>ss_timers := remove1 (now, p) (ss_timers s)\<rparr>)
          else Inl (RuntimeError ''no such message is scheduled'')
      | ServicePeerClosed conn \<Rightarrow> ss_sendOrSchedule now (CloseConn conn) (ss_delay s + ss_maxMsgDelay s) s
      | ServiceData conn cs \<Rightarrow>
          (let established = ss_queues s conn \<noteq> None; q = (case ss_queues s conn of Some q \<Rightarrow> q | None \<Rightarrow> [])
           in and_then (ss_requests listeners searchVm now conn established (q @ cs) s) (\<lambda>(doClose, rest, s1).
              let s2 = s1\<lparr>ss_queues := (ss_queues s1)(conn \<mapsto> rest)\<rparr>
              in if doClose then ss_sendOrSchedule now (CloseConn conn) (ss_delay s2 + ss_maxMsgDelay s2) s2 else Inr s2))
      | ServiceAvailable \<Rightarrow> Inr (s\<lparr>ss_accepted := ss_accepted s + 1\<rparr>)
      | ServiceOther \<Rightarrow> Inr s)"

section \<open>Accounts\<close>

text \<open>Requests, answers and bytes in a run without closes.\<close>

fun messages_of :: "service_event \<Rightarrow> GenericAppMsg list" where
  "messages_of (ServiceData conn cs) = concat (map (\<lambda>c. case c of AppMsg m \<Rightarrow> [m] | OtherChunk \<Rightarrow> []) cs)"
| "messages_of _ = []"

fun plain_event :: "service_event \<Rightarrow> bool" where
  "plain_event (ServicePeerClosed conn) = False"
| "plain_event (ServiceData conn cs) = list_all (\<lambda>c. case c of AppMsg m \<Rightarrow> \<not> gm_serverClose m | OtherChunk \<Rightarrow> False) cs"
| "plain_event _ = True"

definition reply_bytes :: "service_packet \<Rightarrow> int" where
  "reply_bytes p = (case p of Reply conn n t \<Rightarrow> n | CloseConn conn \<Rightarrow> 0)"

definition accounts :: "SimService \<Rightarrow> GenericAppMsg list \<Rightarrow> bool" where
  "accounts s ms \<longleftrightarrow> ss_msgsRcvd s = int (length ms) \<and> ss_bytesRcvd s = sum_list (map gm_length ms) \<and>
     ss_msgsSent s = int (length (ss_sent s)) \<and> ss_bytesSent s = sum_list (map reply_bytes (ss_sent s)) \<and>
     mset (map reply_bytes (ss_sent s @ map snd (ss_timers s))) = mset (filter (\<lambda>n. 0 < n) (map gm_expectedReplyLength ms))"

lemma accounts_cong:
  "ss_msgsRcvd s' = ss_msgsRcvd s \<Longrightarrow> ss_bytesRcvd s' = ss_bytesRcvd s \<Longrightarrow> ss_msgsSent s' = ss_msgsSent s \<Longrightarrow>
   ss_bytesSent s' = ss_bytesSent s \<Longrightarrow> ss_sent s' = ss_sent s \<Longrightarrow> ss_timers s' = ss_timers s \<Longrightarrow> accounts s' ms = accounts s ms"
  by (simp add: accounts_def)

lemma request_accounts:
  assumes "ss_request l db now conn est m s = Inr s'" "accounts s ms"
  shows "accounts s' (ms @ [m])" "ss_queues s' = ss_queues s"
proof -
  let ?s1 = "s\<lparr>ss_msgsRcvd := ss_msgsRcvd s + 1, ss_bytesRcvd := ss_bytesRcvd s + gm_length m\<rparr>"
  obtain s2 where s2: "(if est then Inr ?s1 else report_machine l db m ?s1) = Inr s2"
    "(let s3 = (if gm_replyDelay m > ss_maxMsgDelay s2 then s2\<lparr>ss_maxMsgDelay := gm_replyDelay m\<rparr> else s2)
         in if gm_expectedReplyLength m > 0
            then ss_sendOrSchedule now (Reply conn (gm_expectedReplyLength m) now) (ss_delay s3 + gm_replyDelay m) s3
            else Inr s3) = Inr s'"
    using assms(1) unfolding ss_request_def Let_def and_then_eq_Inr by auto
  obtain sg where sg: "s2 = ?s1\<lparr>ss_signals := sg\<rparr>"
  proof -
    have "s2 = ?s1 \<or> (\<exists>sg. s2 = ?s1\<lparr>ss_signals := sg\<rparr>)"
      using s2(1) by (auto simp: report_machine_def split: if_splits option.splits)
    moreover have "?s1 = ?s1\<lparr>ss_signals := ss_signals s\<rparr>" by simp
    ultimately show thesis using that by metis
  qed
  show "accounts s' (ms @ [m])" "ss_queues s' = ss_queues s"
    using s2(2) assms(2) unfolding sg
    by (auto simp: Let_def ss_sendOrSchedule_def ss_sendBack_def accounts_def reply_bytes_def split: if_splits)
qed

lemma requests_accounts:
  assumes "ss_requests l db now conn est cs s = Inr (b, rest, s')" "accounts s ms"
    and "list_all (\<lambda>c. case c of AppMsg m \<Rightarrow> \<not> gm_serverClose m | OtherChunk \<Rightarrow> False) cs"
  shows "accounts s' (ms @ messages_of (ServiceData conn cs)) \<and> \<not> b \<and> rest = [] \<and> ss_queues s' = ss_queues s"
  using assms
proof (induction l db now conn est cs s arbitrary: ms rule: ss_requests.induct)
  case (1 l db now conn est m cs s)
  obtain s1 where s1: "ss_request l db now conn est m s = Inr s1" "ss_requests l db now conn est cs s1 = Inr (b, rest, s')"
    using "1.prems"(1,3) by (auto simp: and_then_eq_Inr)
  note a = request_accounts [OF s1(1) "1.prems"(2)]
  have "\<not> gm_serverClose m" using "1.prems"(3) by simp
  from "1.IH" [OF this s1(2) a(1)] "1.prems"(3) a(2) show ?case by simp
qed auto

lemma event_accounts:
  assumes "ss_handleMessage l db now e s = Inr s'" "accounts s ms" "\<forall>q\<in>ran (ss_queues s). q = []" "plain_event e"
  shows "accounts s' (ms @ messages_of e) \<and> (\<forall>q\<in>ran (ss_queues s'). q = [])"
proof (cases e)
  case (Fired p)
  then have t: "(now, p) \<in> set (ss_timers s)" "ss_sendBack p (s\<lparr>ss_timers := remove1 (now, p) (ss_timers s)\<rparr>) = Inr s'"
    using assms(1) by (auto simp: ss_handleMessage_def split: if_splits)
  then obtain conn n c where p: "p = Reply conn n c" by (cases p) (auto simp: ss_sendBack_def)
  define r where "r = mset (remove1 (now, p) (ss_timers s))"
  have "mset (ss_timers s) = add_mset (now, p) r" using t(1) by (simp add: r_def)
  then have m: "image_mset (reply_bytes \<circ> snd) (mset (ss_timers s)) = add_mset n (image_mset (reply_bytes \<circ> snd) r)"
    by (simp add: p reply_bytes_def)
  have s': "s' = s\<lparr>ss_timers := remove1 (now, p) (ss_timers s), ss_msgsSent := ss_msgsSent s + 1, ss_bytesSent := ss_bytesSent s + n,
      ss_sent := ss_sent s @ [p]\<rparr>" using t(2) by (simp add: p ss_sendBack_def)
  have "accounts s' ms" using assms(2) m r_def unfolding s' accounts_def by (simp add: p reply_bytes_def)
  with assms(3) show ?thesis by (simp add: s' Fired)
next
  case (ServiceData conn cs)
  have q: "(case ss_queues s conn of Some q \<Rightarrow> q | None \<Rightarrow> []) = []"
    using assms(3) by (auto simp: ran_def split: option.splits)
  obtain b rest s1 where s1: "ss_requests l db now conn (ss_queues s conn \<noteq> None) cs s = Inr (b, rest, s1)"
    "(let s2 = s1\<lparr>ss_queues := (ss_queues s1)(conn \<mapsto> rest)\<rparr>
      in if b then ss_sendOrSchedule now (CloseConn conn) (ss_delay s2 + ss_maxMsgDelay s2) s2 else Inr s2) = Inr s'"
    using assms(1) by (auto simp: ServiceData ss_handleMessage_def Let_def q and_then_eq_Inr)
  from requests_accounts [OF s1(1) assms(2)] assms(4) have r: "accounts s1 (ms @ messages_of e)" "\<not> b" "rest = []" "ss_queues s1 = ss_queues s"
    by (auto simp: ServiceData)
  then have s': "s' = s1\<lparr>ss_queues := (ss_queues s)(conn \<mapsto> [])\<rparr>" using s1(2) by simp
  have "accounts s' (ms @ messages_of e)" using r(1) unfolding s' by (subst accounts_cong) simp_all
  with assms(3) show ?thesis by (auto simp: s' ran_def split: if_splits)
qed (use assms in \<open>auto simp: ss_handleMessage_def accounts_def\<close>)

text \<open>In every run without closes the numbers are those of what was received and sent, and every request that wants an
  answer has one, sent or due, of the length it wants.\<close>

lemma run_accounts:
  assumes "for_each (\<lambda>(t, e). ss_handleMessage l db t e) es (ss_initialize d) = Inr s" "list_all (plain_event \<circ> snd) es"
  shows "accounts s (concat (map (messages_of \<circ> snd) es))"
proof -
  have "accounts s' (ms @ concat (map (messages_of \<circ> snd) es))"
    if "for_each (\<lambda>(t, e). ss_handleMessage l db t e) es s = Inr s'" "accounts s ms" "\<forall>q\<in>ran (ss_queues s). q = []"
      "list_all (plain_event \<circ> snd) es" for es s s' ms
    using that
  proof (induction es arbitrary: s ms)
    case (Cons x es)
    obtain t e where x: "x = (t, e)" by force
    obtain s1 where s1: "ss_handleMessage l db t e s = Inr s1" "for_each (\<lambda>(t, e). ss_handleMessage l db t e) es s1 = Inr s'"
      using Cons.prems(1) by (auto simp: x and_then_eq_Inr)
    from event_accounts [OF s1(1) Cons.prems(2,3)] Cons.prems(4)
    have "accounts s1 (ms @ messages_of e)" "\<forall>q\<in>ran (ss_queues s1). q = []" by (simp_all add: x)
    from Cons.IH [OF s1(2) this] Cons.prems(4) show ?case by (simp add: x)
  qed simp
  from this [OF assms(1), of "[]"] assms(2) show ?thesis by (simp add: accounts_def ss_initialize_def)
qed

text \<open>Once the peer of a connection has closed, the command to close it ends the simulation, at once or when it is due.\<close>

lemma close_fatal:
  "ss_sendBack (CloseConn conn) s = Inl (Undefined ''null packet'')"
  by (simp add: ss_sendBack_def)

end
