(* ===== verification/IotDevices.thy ===== *)
theory IotDevices
  imports Prelude
begin

text \<open>
  The devices of \<open>architecture/nodes/iot\<close>: the sensor \<open>IotSensorModel\<close>, which sends a measurement every
  period, and the actuator \<open>IotActuatorModel\<close>, which switches some time after each command and adds up how
  long it was on.

  Simulation time is a rational number of seconds.  The timers of a device are part of its state: the
  sensor has one message, which the simulator refuses to schedule while it is scheduled.
\<close>

section \<open>The sensor\<close>

datatype sensor_kind = START | SEND | STOP

record 'ip Sensor =
  sn_controller :: "'ip option"
  sn_localPort :: int
  sn_destPort :: int
  sn_startTime :: rat
  sn_stopTime :: rat
  sn_updatePeriod :: rat
  sn_tag :: string
  sn_value :: "int \<Rightarrow> rat"           \<comment> \<open>the value drawn for each packet\<close>
  sn_unit :: string
  sn_kind :: sensor_kind
  sn_timer :: "rat option"              \<comment> \<open>when the message \<open>selfMsg\<close> is due\<close>
  sn_numSent :: int
  sn_numReceived :: int
  sn_bound :: bool
  sn_closed :: bool
  sn_sent :: "(rat \<times> int \<times> string \<times> rat \<times> string) list"   \<comment> \<open>time, number and content of each packet\<close>

definition schedule_self :: "rat \<Rightarrow> sensor_kind \<Rightarrow> 'ip Sensor \<Rightarrow> 'ip Sensor outcome" where
  "schedule_self t k s =
     (if sn_timer s \<noteq> None then Inl (RuntimeError ''scheduleAt(): message is already scheduled'')
      else Inr (s\<lparr>sn_kind := k, sn_timer := Some t\<rparr>))"

definition sensor_initialize :: "'ip Sensor \<Rightarrow> 'ip Sensor outcome" where
  "sensor_initialize s =
     (if sn_stopTime s \<ge> 0 \<and> sn_stopTime s < sn_startTime s
      then Inl (RuntimeError ''Invalid startTime/stopTime parameters'')
      else Inr (s\<lparr>sn_numSent := 0, sn_numReceived := 0, sn_timer := None\<rparr>))"

definition sensor_sendPacket :: "rat \<Rightarrow> 'ip Sensor \<Rightarrow> 'ip Sensor" where
  "sensor_sendPacket now s =
     s\<lparr>sn_sent := sn_sent s @ [(now, sn_numSent s, sn_tag s, sn_value s (sn_numSent s), sn_unit s)], sn_numSent := sn_numSent s + 1\<rparr>"

definition processSend :: "rat \<Rightarrow> 'ip Sensor \<Rightarrow> 'ip Sensor outcome" where
  "processSend now s =
     (let s1 = sensor_sendPacket now s; d = now + sn_updatePeriod s1
      in if sn_stopTime s1 < 0 \<or> d < sn_stopTime s1 then schedule_self d SEND s1
         else schedule_self (sn_stopTime s1) STOP s1)"

text \<open>\<open>controller\<close> is the address the resolver of the library finds for the controller.  The last
  scheduling sets the kind of the message before it is refused.\<close>

definition processStart :: "'ip \<Rightarrow> rat \<Rightarrow> 'ip Sensor \<Rightarrow> 'ip Sensor outcome" where
  "processStart controller now s =
     and_then (processSend now (s\<lparr>sn_bound := True, sn_controller := Some controller, sn_kind := SEND\<rparr>)) (\<lambda>s1.
       if sn_stopTime s1 \<ge> 0 then schedule_self (sn_stopTime s1) STOP s1 else Inr s1)"

definition processStop :: "'ip Sensor \<Rightarrow> 'ip Sensor" where
  "processStop s = s\<lparr>sn_closed := True\<rparr>"

text \<open>\<open>handleMessageWhenUp\<close>: the timer, or a packet from the network.\<close>

definition sensor_timer :: "'ip \<Rightarrow> rat \<Rightarrow> 'ip Sensor \<Rightarrow> 'ip Sensor outcome" where
  "sensor_timer controller now s =
     (let s1 = s\<lparr>sn_timer := None\<rparr>
      in case sn_kind s1 of
           START \<Rightarrow> processStart controller now s1
         | SEND \<Rightarrow> processSend now s1
         | STOP \<Rightarrow> Inr (processStop s1))"

definition sensor_processPacket :: "'ip Sensor \<Rightarrow> 'ip Sensor" where
  "sensor_processPacket s = s\<lparr>sn_numReceived := sn_numReceived s + 1\<rparr>"

definition handleStartOperation :: "rat \<Rightarrow> 'ip Sensor \<Rightarrow> 'ip Sensor outcome" where
  "handleStartOperation now s =
     (let start = max (sn_startTime s) now
      in if sn_stopTime s < 0 \<or> start < sn_stopTime s \<or> (start = sn_stopTime s \<and> sn_startTime s = sn_stopTime s)
         then schedule_self start START s else Inr s)"

definition handleStopOperation :: "'ip Sensor \<Rightarrow> 'ip Sensor" where
  "handleStopOperation s = s\<lparr>sn_timer := None, sn_closed := True\<rparr>"

definition handleCrashOperation :: "'ip Sensor \<Rightarrow> 'ip Sensor" where
  "handleCrashOperation s = s\<lparr>sn_timer := None, sn_closed := True\<rparr>"

text \<open>The sensor under the simulator: its timer goes off when it is due, and packets may arrive between.\<close>

fun sensor_runs :: "'ip \<Rightarrow> nat \<Rightarrow> 'ip Sensor \<Rightarrow> 'ip Sensor outcome" where
  "sensor_runs c 0 s = Inr s"
| "sensor_runs c (Suc n) s =
     (case sn_timer s of
        None \<Rightarrow> Inr s
      | Some t \<Rightarrow> and_then (sensor_timer c t s) (sensor_runs c n))"

lemma sensor_send_step:
  assumes "sn_stopTime s < 0" "sn_timer s = Some t" "sn_kind s = SEND \<or> sn_kind s = START"
  shows "\<exists>s'. sensor_timer c t s = Inr s' \<and> sn_timer s' = Some (t + sn_updatePeriod s) \<and> sn_kind s' = SEND \<and>
    sn_stopTime s' = sn_stopTime s \<and> sn_updatePeriod s' = sn_updatePeriod s \<and> sn_tag s' = sn_tag s \<and>
    sn_value s' = sn_value s \<and> sn_unit s' = sn_unit s \<and> sn_numSent s' = sn_numSent s + 1 \<and>
    sn_sent s' = sn_sent s @ [(t, sn_numSent s, sn_tag s, sn_value s (sn_numSent s), sn_unit s)]"
  using assms
  by (auto simp: sensor_timer_def processStart_def processSend_def sensor_sendPacket_def schedule_self_def Let_def)

lemma sensor_sends:
  assumes "sn_stopTime s < 0" "sn_timer s = Some t" "sn_kind s = SEND \<or> sn_kind s = START"
  shows "\<exists>s'. sensor_runs c n s = Inr s' \<and> sn_timer s' = Some (t + of_nat n * sn_updatePeriod s) \<and>
    sn_sent s' = sn_sent s @ map (\<lambda>k. (t + of_nat k * sn_updatePeriod s, sn_numSent s + int k, sn_tag s, sn_value s (sn_numSent s + int k), sn_unit s)) [0..<n]"
  using assms
proof (induction n arbitrary: s t)
  case 0
  then show ?case by simp
next
  case (Suc n)
  obtain s1 where s1: "sensor_timer c t s = Inr s1" "sn_timer s1 = Some (t + sn_updatePeriod s)" "sn_kind s1 = SEND"
    "sn_stopTime s1 = sn_stopTime s" "sn_updatePeriod s1 = sn_updatePeriod s" "sn_tag s1 = sn_tag s"
    "sn_value s1 = sn_value s" "sn_unit s1 = sn_unit s" "sn_numSent s1 = sn_numSent s + 1"
    "sn_sent s1 = sn_sent s @ [(t, sn_numSent s, sn_tag s, sn_value s (sn_numSent s), sn_unit s)]"
    using sensor_send_step [OF Suc.prems] by blast
  have "sn_stopTime s1 < 0" "sn_kind s1 = SEND \<or> sn_kind s1 = START" using s1 Suc.prems(1) by simp_all
  then obtain s2 where s2: "sensor_runs c n s1 = Inr s2"
    "sn_timer s2 = Some (t + sn_updatePeriod s + of_nat n * sn_updatePeriod s)"
    "sn_sent s2 = sn_sent s1 @ map (\<lambda>k. (t + sn_updatePeriod s + of_nat k * sn_updatePeriod s,
        sn_numSent s1 + int k, sn_tag s, sn_value s (sn_numSent s1 + int k), sn_unit s)) [0..<n]"
    using Suc.IH [OF _ s1(2)] s1 by auto
  have "[0..<Suc n] = 0 # map Suc [0..<n]" by (simp add: map_Suc_upt upt_conv_Cons)
  with Suc.prems(2) s1 s2 show ?case by (simp add: algebra_simps)
qed

text \<open>A sensor without a stop time sends its measurements from its start on, one every period and
  numbered, for as many periods as the simulation goes on; a sensor with a stop time after its start sends
  one packet and then stops the simulation, because it schedules its only message twice.
\<close>

theorem sensor_periodic:
  assumes "sensor_initialize s = Inr s0" "handleStartOperation now s0 = Inr s1" "sn_sent s = []"
  shows "(sn_stopTime s < 0 \<longrightarrow> (let start = max (sn_startTime s) now in
      \<exists>s'. sensor_runs c n s1 = Inr s' \<and>
        sn_sent s' = map (\<lambda>k. (start + of_nat k * sn_updatePeriod s, int k, sn_tag s, sn_value s (int k), sn_unit s)) [0..<n])) \<and>
    (sn_stopTime s \<ge> 0 \<and> max (sn_startTime s) now < sn_stopTime s \<and> n > 0 \<longrightarrow>
       sensor_runs c n s1 = Inl (RuntimeError ''scheduleAt(): message is already scheduled''))"
proof (intro conjI impI)
  let ?start = "max (sn_startTime s) now"
  have s0: "s0 = s\<lparr>sn_numSent := 0, sn_numReceived := 0, sn_timer := None\<rparr>"
    using assms(1) by (simp add: sensor_initialize_def split: if_splits)
  {
    assume "sn_stopTime s < 0"
    then have s1: "s1 = s0\<lparr>sn_kind := START, sn_timer := Some ?start\<rparr>"
      using assms(2) s0 by (simp add: handleStartOperation_def schedule_self_def Let_def)
    then obtain s' where "sensor_runs c n s1 = Inr s'" "sn_sent s' = sn_sent s1 @
        map (\<lambda>k. (?start + of_nat k * sn_updatePeriod s1, sn_numSent s1 + int k, sn_tag s1, sn_value s1 (sn_numSent s1 + int k), sn_unit s1)) [0..<n]"
      using sensor_sends [of s1 ?start c n] s0 \<open>sn_stopTime s < 0\<close> by auto
    then show "let start = ?start in \<exists>s'. sensor_runs c n s1 = Inr s' \<and>
        sn_sent s' = map (\<lambda>k. (start + of_nat k * sn_updatePeriod s, int k, sn_tag s, sn_value s (int k), sn_unit s)) [0..<n]"
      using s0 s1 assms(3) by (simp add: Let_def)
  }
  {
    assume a: "sn_stopTime s \<ge> 0 \<and> ?start < sn_stopTime s \<and> n > 0"
    then have s1: "s1 = s0\<lparr>sn_kind := START, sn_timer := Some ?start\<rparr>"
      using assms(2) s0 by (simp add: handleStartOperation_def schedule_self_def Let_def)
    have "sensor_timer c ?start s1 = Inl (RuntimeError ''scheduleAt(): message is already scheduled'')"
      using a s0 s1 by (simp add: sensor_timer_def processStart_def processSend_def sensor_sendPacket_def
          schedule_self_def Let_def)
    then show "sensor_runs c n s1 = Inl (RuntimeError ''scheduleAt(): message is already scheduled'')"
      using a s1 by (cases n) simp_all
  }
qed

definition sensor_example :: "rat \<Rightarrow> nat Sensor" where
  "sensor_example stop = \<lparr>sn_controller = None, sn_localPort = -1, sn_destPort = 5, sn_startTime = 2, sn_stopTime = stop,
     sn_updatePeriod = 10, sn_tag = ''t'', sn_value = (\<lambda>k. 20 + of_int k), sn_unit = ''C'', sn_kind = START, sn_timer = None,
     sn_numSent = 0, sn_numReceived = 0, sn_bound = False, sn_closed = False, sn_sent = []\<rparr>"

theorem sensor_periodic_witness:
  "(\<exists>s1 s'. handleStartOperation 0 (sensor_example (-1)) = Inr s1 \<and> sensor_runs 7 2 s1 = Inr s' \<and>
      sn_sent s' = [(2, 0, ''t'', 20, ''C''), (12, 1, ''t'', 21, ''C'')]) \<and>
    (\<exists>s1. handleStartOperation 0 (sensor_example 100) = Inr s1 \<and>
      sensor_runs 7 2 s1 = Inl (RuntimeError ''scheduleAt(): message is already scheduled''))"
proof -
  have i: "sensor_initialize (sensor_example x) = Inr (sensor_example x)" "sn_sent (sensor_example x) = []"
    if "x = -1 \<or> x = 100" for x
    using that by (auto simp: sensor_initialize_def sensor_example_def)
  have h: "\<exists>s1. handleStartOperation 0 (sensor_example x) = Inr s1" if "x = -1 \<or> x = 100" for x
    using that by (auto simp: handleStartOperation_def schedule_self_def sensor_example_def)
  obtain a b where a: "handleStartOperation 0 (sensor_example (-1)) = Inr a"
    and b: "handleStartOperation 0 (sensor_example 100) = Inr b" using h by blast
  have f: "sn_startTime (sensor_example x) = 2" "sn_stopTime (sensor_example x) = x"
    "sn_updatePeriod (sensor_example x) = 10" "sn_tag (sensor_example x) = ''t''"
    "sn_value (sensor_example x) = (\<lambda>k. 20 + of_int k)" "sn_unit (sensor_example x) = ''C''" for x
    by (simp_all add: sensor_example_def)
  have "\<exists>s'. sensor_runs 7 2 a = Inr s' \<and> sn_sent s' = [(2, 0, ''t'', 20, ''C''), (12, 1, ''t'', 21, ''C'')]"
    using sensor_periodic [OF i(1) a i(2), where c = 7 and n = 2] by (simp add: f Let_def numeral_2_eq_2)
  moreover have "sensor_runs 7 2 b = Inl (RuntimeError ''scheduleAt(): message is already scheduled'')"
    using sensor_periodic [OF i(1) b i(2), where c = 7 and n = 2] by (simp add: f)
  ultimately show ?thesis using a b by blast
qed

section \<open>The actuator\<close>

text \<open>\<open>True\<close> is the power state \<open>ON\<close>.  \<open>ac_pending\<close> are the transitions that are scheduled, in the order
  in which they are due, and \<open>ac_signal\<close> are the power states emitted, with their times.\<close>

record Actuator =
  ac_totalTimeOn :: int
  ac_powerOnTimestamp :: int
  ac_powerState :: bool
  ac_powerOnTime :: rat
  ac_powerOffTime :: rat
  ac_pending :: "(rat \<times> bool) list"
  ac_signal :: "(rat \<times> bool) list"

definition actuator_initialize :: "bool \<Rightarrow> rat \<Rightarrow> rat \<Rightarrow> Actuator" where
  "actuator_initialize poweredOnStart powerOnTime powerOffTime =
     \<lparr>ac_totalTimeOn = 0, ac_powerOnTimestamp = 0, ac_powerState = poweredOnStart, ac_powerOnTime = powerOnTime,
      ac_powerOffTime = powerOffTime, ac_pending = [], ac_signal = []\<rparr>"

definition savePowerOnTimestamp :: "rat \<Rightarrow> Actuator \<Rightarrow> Actuator" where
  "savePowerOnTimestamp now s = s\<lparr>ac_powerOnTimestamp := \<lfloor>now\<rfloor>\<rparr>"

definition addPowerOnDelta :: "rat \<Rightarrow> Actuator \<Rightarrow> Actuator" where
  "addPowerOnDelta now s =
     s\<lparr>ac_totalTimeOn := ac_totalTimeOn s + (\<lfloor>now\<rfloor> - ac_powerOnTimestamp s), ac_powerOnTimestamp := 0\<rparr>"

definition changePowerState :: "rat \<Rightarrow> bool \<Rightarrow> Actuator \<Rightarrow> Actuator" where
  "changePowerState now newState s =
     (let s1 = (if newState then savePowerOnTimestamp now s else addPowerOnDelta now s)
      in s1\<lparr>ac_powerState := newState, ac_signal := ac_signal s1 @ [(now, newState)]\<rparr>)"

text \<open>\<open>scheduleAt\<close>: after the transitions that are due before it or at the same time.\<close>

definition schedule_transition :: "rat \<Rightarrow> bool \<Rightarrow> Actuator \<Rightarrow> Actuator" where
  "schedule_transition t b s =
     s\<lparr>ac_pending := takeWhile (\<lambda>e. fst e \<le> t) (ac_pending s) @ (t, b) # dropWhile (\<lambda>e. fst e \<le> t) (ac_pending s)\<rparr>"

text \<open>\<open>socketDataArrived\<close>; \<open>None\<close> is a packet that is not a command.\<close>

definition actuator_command :: "rat \<Rightarrow> bool option \<Rightarrow> Actuator \<Rightarrow> Actuator" where
  "actuator_command now command s =
     (case command of
        None \<Rightarrow> s
      | Some newState \<Rightarrow>
          if ac_powerState s = newState then s
          else schedule_transition (now + (if newState then ac_powerOnTime s else ac_powerOffTime s)) newState s)"

definition actuator_finish :: "rat \<Rightarrow> Actuator \<Rightarrow> Actuator" where
  "actuator_finish now s = (if ac_powerState s then addPowerOnDelta now s else s)"

text \<open>A run: commands at their times, and the first scheduled transition, at the time it is due.\<close>

datatype actuator_event = Command rat "bool option" | Transition

fun actuator_step :: "actuator_event \<Rightarrow> Actuator \<Rightarrow> Actuator" where
  "actuator_step (Command now c) s = actuator_command now c s"
| "actuator_step Transition s =
     (case ac_pending s of [] \<Rightarrow> s | (t, b) # es \<Rightarrow> changePowerState t b (s\<lparr>ac_pending := es\<rparr>))"

text \<open>A run in which a command that asks for a change comes only when none is under way.\<close>

fun one_at_a_time :: "actuator_event list \<Rightarrow> Actuator \<Rightarrow> bool" where
  "one_at_a_time [] s = True"
| "one_at_a_time (e # es) s =
     ((case e of Command now (Some b) \<Rightarrow> b = ac_powerState s \<or> ac_pending s = [] | _ \<Rightarrow> True) \<and>
      one_at_a_time es (actuator_step e s))"

text \<open>What the time should be: the time the signal was on, up to a time, and the number of intervals in
  which it was.\<close>

fun time_on :: "bool \<Rightarrow> rat \<Rightarrow> (rat \<times> bool) list \<Rightarrow> rat \<Rightarrow> rat" where
  "time_on st since [] now = (if st then now - since else 0)"
| "time_on st since ((t, st') # es) now = (if st then t - since else 0) + time_on st' t es now"

definition on_intervals :: "bool \<Rightarrow> (rat \<times> bool) list \<Rightarrow> nat" where
  "on_intervals st es = length (filter (\<lambda>b. b) (st # map snd es))"

text \<open>What the actuator adds up: both ends of every interval are cut to whole seconds first.\<close>

fun cut_time :: "bool \<Rightarrow> rat \<Rightarrow> (rat \<times> bool) list \<Rightarrow> rat \<Rightarrow> int" where
  "cut_time st since [] now = (if st then \<lfloor>now\<rfloor> - \<lfloor>since\<rfloor> else 0)"
| "cut_time st since ((t, st') # es) now = (if st then \<lfloor>t\<rfloor> - \<lfloor>since\<rfloor> else 0) + cut_time st' t es now"

lemma cut_time_append:
  "cut_time st since (es @ [(t, b)]) now = cut_time st since es t + (if b then \<lfloor>now\<rfloor> - \<lfloor>t\<rfloor> else 0)"
  by (induction es arbitrary: st since) auto

definition counts_right :: "bool \<Rightarrow> Actuator \<Rightarrow> bool" where
  "counts_right on0 s \<longleftrightarrow>
     (\<forall>now. cut_time on0 0 (ac_signal s) now =
        ac_totalTimeOn s + (if ac_powerState s then \<lfloor>now\<rfloor> - ac_powerOnTimestamp s else 0)) \<and>
     (ac_pending s = [] \<or> (\<exists>t. ac_pending s = [(t, \<not> ac_powerState s)]))"

lemma actuator_step_counts_right:
  assumes "counts_right on0 s" "one_at_a_time [e] s"
  shows "counts_right on0 (actuator_step e s)"
proof (cases e)
  case (Command now c)
  with assms show ?thesis
    by (auto simp: counts_right_def actuator_command_def schedule_transition_def split: option.splits)
next
  case Transition
  show ?thesis
  proof (cases "ac_pending s")
    case Nil
    with Transition assms(1) show ?thesis by simp
  next
    case (Cons a es)
    then obtain t where p: "ac_pending s = [(t, \<not> ac_powerState s)]" using assms(1) by (auto simp: counts_right_def)
    have o: "cut_time on0 0 (ac_signal s) t =
        ac_totalTimeOn s + (if ac_powerState s then \<lfloor>t\<rfloor> - ac_powerOnTimestamp s else 0)"
      using assms(1) by (simp add: counts_right_def)
    show ?thesis
      unfolding counts_right_def
      by (simp add: Transition p changePowerState_def savePowerOnTimestamp_def addPowerOnDelta_def Let_def cut_time_append o)
  qed
qed

lemma actuator_run_counts_right:
  "counts_right on0 s \<Longrightarrow> one_at_a_time es s \<Longrightarrow> counts_right on0 (fold actuator_step es s)"
proof (induction es arbitrary: s)
  case Nil
  then show ?case by simp
next
  case (Cons e es)
  then have "counts_right on0 (actuator_step e s)" by (intro actuator_step_counts_right) simp_all
  with Cons show ?case by simp
qed

text \<open>Cutting both ends of an interval moves its length by less than a second.\<close>

lemma cut_interval: "\<bar>rat_of_int (\<lfloor>b\<rfloor> - \<lfloor>a\<rfloor>) - (b - a)\<bar> < 1"
  using floor_correct [of a] floor_correct [of b] by (simp add: abs_less_iff) linarith

lemma cut_time_close:
  "\<bar>rat_of_int (cut_time st since es now) - time_on st since es now\<bar> \<le> of_nat (on_intervals st es) \<and>
    (on_intervals st es \<noteq> 0 \<longrightarrow>
      \<bar>rat_of_int (cut_time st since es now) - time_on st since es now\<bar> < of_nat (on_intervals st es))"
proof (induction st since es now rule: cut_time.induct)
  case (1 st since now)
  then show ?case using cut_interval [of now since] by (simp add: on_intervals_def)
next
  case (2 st since t st' es now)
  have n: "on_intervals st ((t, st') # es) = (if st then 1 else 0) + on_intervals st' es"
    by (simp add: on_intervals_def)
  show ?case
  proof (cases st)
    case True
    have d: "rat_of_int (cut_time st since ((t, st') # es) now) - time_on st since ((t, st') # es) now =
        (rat_of_int (\<lfloor>t\<rfloor> - \<lfloor>since\<rfloor>) - (t - since)) + (rat_of_int (cut_time st' t es now) - time_on st' t es now)"
      using True by simp
    have "\<bar>rat_of_int (cut_time st since ((t, st') # es) now) - time_on st since ((t, st') # es) now\<bar>
        < 1 + of_nat (on_intervals st' es)"
      unfolding d using 2 cut_interval [of t since] abs_triangle_ineq
      by (metis add_less_le_mono order_le_less_trans)
    then show ?thesis using True n by simp
  next
    case False
    with 2 n show ?thesis by simp
  qed
qed

lemma cut_time_whole:
  "list_all (\<lambda>e. fst e \<in> \<int>) es \<Longrightarrow> since \<in> \<int> \<Longrightarrow> now \<in> \<int> \<Longrightarrow>
    rat_of_int (cut_time st since es now) = time_on st since es now"
proof (induction st since es now rule: cut_time.induct)
  case (1 st since now)
  then show ?case by (auto elim!: Ints_cases)
next
  case (2 st since t st' es now)
  from "2.prems" have "rat_of_int (\<lfloor>t\<rfloor> - \<lfloor>since\<rfloor>) = t - since" by (auto elim!: Ints_cases)
  with 2 show ?case by (auto simp del: of_int_diff)
qed

text \<open>C33.  As long as no command asks for a change while one is under way, the time an actuator reports at the
  end differs from the time its power signal was really on by less than one second for each interval it was
  on, whatever commands came and whether it was on at the start; when the signal changed and the simulation
  ended at whole seconds the report is exact, and when it was never on the report is 0.  The code cuts the
  ends of each interval to whole seconds, so a signal that is on from 0.9 to 1.1 is reported as one second.
\<close>

theorem on_time_reported:
  assumes "one_at_a_time es (actuator_initialize on0 t1 t0)" "s = fold actuator_step es (actuator_initialize on0 t1 t0)"
  shows "let reported = rat_of_int (ac_totalTimeOn (actuator_finish now s));
             real_time = time_on on0 0 (ac_signal s) now; n = on_intervals on0 (ac_signal s)
    in (if n = 0 then reported = 0 \<and> real_time = 0 else \<bar>reported - real_time\<bar> < of_nat n) \<and>
      (list_all (\<lambda>e. fst e \<in> \<int>) (ac_signal s) \<and> now \<in> \<int> \<longrightarrow> reported = real_time)"
proof -
  have "counts_right on0 (actuator_initialize on0 t1 t0)" by (simp add: counts_right_def actuator_initialize_def)
  with assms have "counts_right on0 s" using actuator_run_counts_right by blast
  then have c: "ac_totalTimeOn (actuator_finish now s) = cut_time on0 0 (ac_signal s) now"
    by (auto simp: counts_right_def actuator_finish_def addPowerOnDelta_def)
  have never: "cut_time st x es now = 0 \<and> time_on st x es now = 0" if "on_intervals st es = 0" for st x es
    using that by (induction st x es now rule: cut_time.induct) (auto simp: on_intervals_def split: if_splits)
  show ?thesis
    using cut_time_close [of on0 0 "ac_signal s" now] never cut_time_whole [of "ac_signal s" 0 now on0]
    by (simp add: c Let_def)
qed

theorem on_time_reported_witness:
  "\<bar>rat_of_int (ac_totalTimeOn (actuator_finish 100 (fold actuator_step
      [Command 10 (Some False), Transition, Command 20 None, Command 40 (Some True), Transition]
      (actuator_initialize True (1 / 2) (3 / 2))))) - 71\<bar> < 2"
proof -
  let ?es = "[Command 10 (Some False), Transition, Command 20 None, Command 40 (Some True), Transition]"
  let ?s = "fold actuator_step ?es (actuator_initialize True (1 / 2) (3 / 2))"
  have ok: "one_at_a_time ?es (actuator_initialize True (1 / 2) (3 / 2))"
    and sig: "ac_signal ?s = [(23 / 2, False), (81 / 2, True)]"
    by (simp_all add: actuator_initialize_def actuator_command_def schedule_transition_def changePowerState_def
        savePowerOnTimestamp_def addPowerOnDelta_def)
  show ?thesis
    using on_time_reported [OF ok refl, of 100] unfolding sig Let_def by (simp add: on_intervals_def)
qed

text \<open>The cut is real: a signal that is on from 0.9 to 1.1 counts for a whole second.\<close>

lemma short_interval_reported:
  "let s = fold actuator_step [Command (4 / 5) (Some True), Transition, Command 1 (Some False), Transition]
     (actuator_initialize False (1 / 10) (1 / 10))
   in ac_totalTimeOn (actuator_finish 5 s) = 1 \<and> time_on False 0 (ac_signal s) 5 = 1 / 5"
proof -
  have "\<lfloor>11 / 10 :: rat\<rfloor> = 1" "\<lfloor>9 / 10 :: rat\<rfloor> = 0" by (simp_all add: floor_eq_iff)
  then show ?thesis
    by (simp add: actuator_initialize_def actuator_command_def schedule_transition_def changePowerState_def
        savePowerOnTimestamp_def addPowerOnDelta_def actuator_finish_def Let_def)
qed

text \<open>Without the condition the report is wrong by more: of two commands to switch off, both sent before the
  first takes effect, the second one counts the whole time since the start of the simulation again.\<close>

lemma switched_off_twice:
  "let s = fold actuator_step [Command 10 (Some False), Command 11 (Some False), Transition, Transition]
     (actuator_initialize True 1 2)
   in ac_totalTimeOn (actuator_finish 100 s) = 25 \<and> time_on True 0 (ac_signal s) 100 = 12"
  by (simp add: actuator_initialize_def actuator_command_def schedule_transition_def changePowerState_def
      savePowerOnTimestamp_def addPowerOnDelta_def actuator_finish_def Let_def)

end
