(* ===== verification/IotApps.thy ===== *)
theory IotApps
  imports Apps
begin

text \<open>
  The controllers of the devices, \<open>apps/iot/LocalIotApplication\<close> and \<open>apps/iot/IotApplication\<close>: they count
  the packets of the sensors, compute when there are enough of them, and then command an actuator at random,
  at once or after a server in the cloud has answered.

  The random draws are the function \<open>intuniform\<close> of the simulation library with the number of the draw;
  \<open>ip_int\<close> is the number of an address.  The statistics and the log are left out.
\<close>

section \<open>The controller without a server\<close>

record 'ip LocalIotApplication = "'ip AppBase" +
  li_processingMIs :: u32
  li_listeningPort :: u16
  li_pingsThreshold :: int
  li_udpSocket :: "int option"
  li_actuators :: "'ip list"
  li_serviceUp :: bool
  li_numPings :: int
  li_draws :: nat

definition li_initialize :: "rat \<Rightarrow> 'ip list \<Rightarrow> 'ip LocalIotApplication \<Rightarrow> 'ip LocalIotApplication" where
  "li_initialize now found s =
     (app_base_initialize now s)\<lparr>li_serviceUp := False, li_actuators := found, li_udpSocket := None,
       li_numPings := 0, li_draws := 0\<rparr>"

definition li_processSelfMessage :: "int \<Rightarrow> rat \<Rightarrow> self_msg \<Rightarrow> 'ip LocalIotApplication \<Rightarrow> 'ip LocalIotApplication outcome" where
  "li_processSelfMessage fd now m s = Inr ((app_open fd (li_listeningPort s) SOCK_DGRAM [] s)\<lparr>li_udpSocket := Some fd\<rparr>)"

definition li_handleDataArrived ::
  "rat \<Rightarrow> int \<Rightarrow> app_packet \<Rightarrow> 'ip LocalIotApplication \<Rightarrow> 'ip LocalIotApplication outcome" where
  "li_handleDataArrived now fd p s =
     (if Some fd = li_udpSocket s then
        let s1 = s\<lparr>li_numPings := li_numPings s + 1\<rparr>
        in if li_numPings s1 > li_pingsThreshold s1
           then and_then (app_execute now (of_nat (unat (li_processingMIs s1))) s1) (\<lambda>s2. Inr (s2\<lparr>li_numPings := 0\<rparr>))
           else Inr s1
      else Inr s)"

text \<open>The command to an actuator; the index is drawn between 0 and the size less one, and there is no check
  that there is one.\<close>

definition li_returnExec ::
  "(nat \<Rightarrow> int \<Rightarrow> int \<Rightarrow> int) \<Rightarrow> ('ip \<Rightarrow> u32) \<Rightarrow> rat \<Rightarrow> rat \<Rightarrow> SM_CPU_Message \<Rightarrow> 'ip LocalIotApplication \<Rightarrow>
     'ip LocalIotApplication outcome" where
  "li_returnExec intuniform ip_int now t sm s =
     (if li_serviceUp s then Inr s
      else let i = intuniform (li_draws s) 0 (int (length (li_actuators s)) - 1);
               on = intuniform (li_draws s + 1) 0 1;
               s1 = s\<lparr>li_draws := li_draws s + 2\<rparr>
           in if 0 \<le> i \<and> nat i < length (li_actuators s)
              then (case li_udpSocket s of
                      None \<Rightarrow> Inl (RuntimeError ''check_and_cast'')
                    | Some fd \<Rightarrow> app_send fd (PowerCommand (on = 1)) (ip_int (li_actuators s ! nat i)) (li_listeningPort s) s1)
              else Inl (Undefined ''vector index''))"

definition li_callback ::
  "(nat \<Rightarrow> int \<Rightarrow> int \<Rightarrow> int) \<Rightarrow> ('ip \<Rightarrow> u32) \<Rightarrow> int \<Rightarrow> ('ip, 'ip LocalIotApplication) app_callback" where
  "li_callback intuniform ip_int fd = \<lparr>
     cb_processSelfMessage = li_processSelfMessage fd,
     cb_returnExec = li_returnExec intuniform ip_int, cb_returnRead = ignore_return, cb_returnWrite = ignore_return,
     cb_handleResolutionFinished = (\<lambda>ip ok s. Inl (RuntimeError ''LocalIotApp: no resolving'')),
     cb_handleDataArrived = li_handleDataArrived,
     cb_handleClientConnection = refuse_client,
     cb_handleConnectReturn = (\<lambda>fd ok s. Inr s),
     cb_handlePeerClosed = (\<lambda>fd s. Inr (True, s))\<rparr>"

section \<open>The controller with a server\<close>

datatype iot_state = INIT | RUNNING | ENDPOINT_AVAILABLE

record 'ip IotApplication = "'ip AppBase" +
  ia_state :: iot_state
  ia_processingMIs :: u32
  ia_serviceName :: string
  ia_endpointIp :: "'ip option"
  ia_udpSocket :: "int option"
  ia_tcpSocket :: "int option"
  ia_chronometer :: rat
  ia_listeningPort :: u16
  ia_pingsThreshold :: int
  ia_pollingInterval :: rat
  ia_synthSize :: rat
  ia_localInterface :: string
  ia_externalInterface :: string
  ia_actuators :: "'ip list"
  ia_serviceUp :: bool
  ia_numPings :: int
  ia_draws :: nat

definition ia_initialize :: "rat \<Rightarrow> 'ip list \<Rightarrow> 'ip IotApplication \<Rightarrow> 'ip IotApplication" where
  "ia_initialize now found s =
     (app_base_initialize now s)\<lparr>ia_state := INIT, ia_actuators := found, ia_udpSocket := None, ia_tcpSocket := None,
       ia_serviceUp := False, ia_numPings := 0, ia_draws := 0\<rparr>"

text \<open>\<open>sendPoll\<close>, \<open>sendServer\<close> and \<open>sendActuator\<close>.  A socket that has not been opened has no valid id.\<close>

definition send_tcp :: "app_packet \<Rightarrow> 'ip IotApplication \<Rightarrow> 'ip IotApplication outcome" where
  "send_tcp p s = (case ia_tcpSocket s of
     None \<Rightarrow> Inl (RuntimeError ''check_and_cast'') | Some fd \<Rightarrow> app_send fd p 0 0 s)"

definition sendPoll :: "'ip IotApplication \<Rightarrow> 'ip IotApplication outcome" where
  "sendPoll s = send_tcp (RestRequest (Some HEAD) (ia_serviceName s) ''/'' None) s"

definition sendServer :: "rat \<Rightarrow> 'ip IotApplication \<Rightarrow> 'ip IotApplication outcome" where
  "sendServer now s = send_tcp (RestRequest None [] [] (Some (ia_synthSize s))) (s\<lparr>ia_chronometer := now\<rparr>)"

definition sendActuator ::
  "(nat \<Rightarrow> int \<Rightarrow> int \<Rightarrow> int) \<Rightarrow> ('ip \<Rightarrow> u32) \<Rightarrow> 'ip IotApplication \<Rightarrow> 'ip IotApplication outcome" where
  "sendActuator intuniform ip_int s =
     (let i = intuniform (ia_draws s) 0 (int (length (ia_actuators s)) - 1);
          on = intuniform (ia_draws s + 1) 0 1;
          s1 = s\<lparr>ia_draws := ia_draws s + 2\<rparr>
      in if 0 \<le> i \<and> nat i < length (ia_actuators s)
         then (case ia_udpSocket s of
                 None \<Rightarrow> Inl (RuntimeError ''check_and_cast'')
               | Some fd \<Rightarrow> app_send fd (ControllerCommand on) (ip_int (ia_actuators s ! nat i)) (ia_listeningPort s) s1)
         else Inl (Undefined ''vector index''))"

definition self_kind :: "self_msg \<Rightarrow> ('ip, 'x) AppBase_scheme \<Rightarrow> app_event option" where
  "self_kind m s = (if m = EventTimer then Some (ap_event s) else None)"

definition ia_processSelfMessage :: "int \<Rightarrow> rat \<Rightarrow> self_msg \<Rightarrow> 'ip IotApplication \<Rightarrow> 'ip IotApplication outcome" where
  "ia_processSelfMessage fd now m s =
     (case self_kind m s of
        Some EXEC_START \<Rightarrow>
          (let s1 = (app_open fd (ia_listeningPort s) SOCK_DGRAM (ia_localInterface s) s)\<lparr>ia_udpSocket := Some fd\<rparr>
           in if ia_state s1 = ENDPOINT_AVAILABLE then app_resolve (ia_serviceName s1) s1
              else Inr (s1\<lparr>ia_state := RUNNING\<rparr>))
      | Some POLL \<Rightarrow> sendPoll s
      | _ \<Rightarrow> Inr s)"

definition ia_handleResolutionFinished :: "int \<Rightarrow> 'ip \<Rightarrow> bool \<Rightarrow> 'ip IotApplication \<Rightarrow> 'ip IotApplication outcome" where
  "ia_handleResolutionFinished fd ip resolved s =
     (if \<not> resolved then Inl (RuntimeError ''Unexpected unavailability of service'')
      else app_connect fd ip 443 ((app_open fd (-1) SOCK_STREAM (ia_externalInterface s)
             (s\<lparr>ia_endpointIp := Some ip\<rparr>))\<lparr>ia_tcpSocket := Some fd\<rparr>))"

definition ia_handleConnectReturn :: "int \<Rightarrow> bool \<Rightarrow> 'ip IotApplication \<Rightarrow> 'ip IotApplication outcome" where
  "ia_handleConnectReturn fd ok s =
     (if \<not> ok then Inl (RuntimeError ''Unable to connect to endpoint'')
      else if Some fd = ia_tcpSocket s then sendPoll s else Inr s)"

text \<open>A poll that is answered with anything but \<open>OK\<close> is repeated after the polling interval; the timer of the
  application is used for it, so it must not be scheduled for anything else.\<close>

definition schedulePoll :: "rat \<Rightarrow> 'ip IotApplication \<Rightarrow> 'ip IotApplication outcome" where
  "schedulePoll now s =
     (let s1 = (if ap_eventAt s \<noteq> None \<and> ap_event s = POLL_TIMEOUT then s\<lparr>ap_eventAt := None\<rparr> else s)
      in if ap_eventAt s1 \<noteq> None then Inl (RuntimeError ''scheduleAt(): message is already scheduled'')
         else Inr (s1\<lparr>ap_event := POLL, ap_eventAt := Some (now + ia_pollingInterval s1)\<rparr>))"

definition ia_handleDataArrived ::
  "(nat \<Rightarrow> int \<Rightarrow> int \<Rightarrow> int) \<Rightarrow> ('ip \<Rightarrow> u32) \<Rightarrow> rat \<Rightarrow> int \<Rightarrow> app_packet \<Rightarrow> 'ip IotApplication \<Rightarrow>
     'ip IotApplication outcome" where
  "ia_handleDataArrived intuniform ip_int now fd p s =
     (if Some fd = ia_udpSocket s then
        let s1 = s\<lparr>ia_numPings := ia_numPings s + 1\<rparr>
        in if ia_numPings s1 > ia_pingsThreshold s1 \<and> ia_serviceUp s1
           then and_then (app_execute now (of_nat (unat (ia_processingMIs s1))) s1) (\<lambda>s2. Inr (s2\<lparr>ia_numPings := 0\<rparr>))
           else Inr s1
      else if Some fd = ia_tcpSocket s then
        if \<not> ia_serviceUp s then
          (case p of
             RestResponse code host path n \<Rightarrow>
               if code = RC_OK then Inr (s\<lparr>ap_eventAt := None, ia_serviceUp := True\<rparr>) else schedulePoll now s
           | _ \<Rightarrow> Inl (RuntimeError ''peekData: unexpected chunk''))
        else let s1 = s\<lparr>ia_chronometer := now - ia_chronometer s\<rparr>
             in if ia_actuators s1 \<noteq> [] then sendActuator intuniform ip_int s1 else Inr s1
      else Inr s)"

definition ia_returnExec :: "rat \<Rightarrow> rat \<Rightarrow> SM_CPU_Message \<Rightarrow> 'ip IotApplication \<Rightarrow> 'ip IotApplication outcome" where
  "ia_returnExec now t sm s = sendServer now s"

text \<open>\<open>handleParameterChange\<close>, with the value of the parameter after the change.\<close>

definition ia_handleParameterChange :: "string \<Rightarrow> string \<Rightarrow> 'ip IotApplication \<Rightarrow> 'ip IotApplication outcome" where
  "ia_handleParameterChange name new s =
     (if name = ''serviceName'' \<and> new \<noteq> [] \<and> \<not> ia_serviceUp s
      then let s1 = s\<lparr>ia_serviceName := new\<rparr>
           in if ia_state s1 = RUNNING \<or> ia_state s1 = ENDPOINT_AVAILABLE then app_resolve new s1
              else Inr (s1\<lparr>ia_state := ENDPOINT_AVAILABLE\<rparr>)
      else Inr s)"

definition ia_callback ::
  "(nat \<Rightarrow> int \<Rightarrow> int \<Rightarrow> int) \<Rightarrow> ('ip \<Rightarrow> u32) \<Rightarrow> int \<Rightarrow> ('ip, 'ip IotApplication) app_callback" where
  "ia_callback intuniform ip_int fd = \<lparr>
     cb_processSelfMessage = ia_processSelfMessage fd,
     cb_returnExec = ia_returnExec, cb_returnRead = ignore_return, cb_returnWrite = ignore_return,
     cb_handleResolutionFinished = ia_handleResolutionFinished fd,
     cb_handleDataArrived = ia_handleDataArrived intuniform ip_int,
     cb_handleClientConnection = refuse_client,
     cb_handleConnectReturn = ia_handleConnectReturn,
     cb_handlePeerClosed = (\<lambda>fd s. Inl (RuntimeError ''Here''))\<rparr>"

definition ia_finish :: "int list \<Rightarrow> 'ip IotApplication \<Rightarrow> 'ip IotApplication" where
  "ia_finish ids s = app_base_finish ids (s\<lparr>ia_actuators := []\<rparr>)"

definition li_finish :: "int list \<Rightarrow> 'ip LocalIotApplication \<Rightarrow> 'ip LocalIotApplication" where
  "li_finish ids s = app_base_finish ids (s\<lparr>li_actuators := []\<rparr>)"

section \<open>The packets of the sensors\<close>

fun sensor_packets ::
  "('ip::linorder, ('ip, 'x) AppBase_scheme) app_callback \<Rightarrow> 'ip \<Rightarrow> int \<Rightarrow> (rat \<times> app_packet) list \<Rightarrow>
     ('ip, 'x) AppBase_scheme \<Rightarrow> ('ip, 'x) AppBase_scheme outcome" where
  "sensor_packets cb u fd [] s = Inr s"
| "sensor_packets cb u fd ((t, p) # ps) s =
     and_then (app_handleMessage cb u t (SocketMsg fd (UdpData p)) s) (sensor_packets cb u fd ps)"

definition calls_sent :: "('ip, 'x) AppBase_scheme \<Rightarrow> nat" where
  "calls_sent s = length (sent (ap_core s))"

lemma li_packet:
  assumes "ap_sockets s fd = Some SOCK_DGRAM" "li_udpSocket s = Some fd" "li_pingsThreshold s = int th"
    "li_numPings s = int k" "k \<le> th"
  shows "\<exists>s'. app_handleMessage (li_callback f g x) u t (SocketMsg fd (UdpData p)) s = Inr s' \<and>
    ap_sockets s' fd = Some SOCK_DGRAM \<and> li_udpSocket s' = Some fd \<and> li_pingsThreshold s' = int th \<and>
    li_numPings s' = int ((k + 1) mod (th + 1)) \<and> calls_sent s' = calls_sent s + (k + 1) div (th + 1)"
proof -
  let ?s = "s\<lparr>li_numPings := int (k + 1)\<rparr>"
  have m: "app_handleMessage (li_callback f g x) u t (SocketMsg fd (UdpData p)) s =
      (if k = th then and_then (app_execute t (of_nat (unat (li_processingMIs ?s))) ?s) (\<lambda>s2. Inr (s2\<lparr>li_numPings := 0\<rparr>))
       else Inr ?s)"
    using assms by (simp add: app_handleMessage_def app_socketEvent_def li_callback_def li_handleDataArrived_def Let_def
        add.commute)
  show ?thesis
  proof (cases "k = th")
    case True
    obtain t' c where "app_execute t (of_nat (unat (li_processingMIs ?s))) ?s = Inr (?s\<lparr>ap_operationStart := t', ap_core := c\<rparr>)"
      "length (sent c) = length (sent (ap_core ?s)) + 1" using app_execute_one [of t _ ?s] by blast
    with m True assms show ?thesis
      by (intro exI [of _ "?s\<lparr>ap_operationStart := t', ap_core := c, li_numPings := 0\<rparr>"]) (simp add: calls_sent_def)
  next
    case False
    with assms(5) have "(k + 1) div (th + 1) = 0" "(k + 1) mod (th + 1) = k + 1" by simp_all
    with m False assms show ?thesis by (intro exI [of _ ?s]) (simp add: calls_sent_def)
  qed
qed

lemma div_mod_step:
  fixes a b m :: nat
  assumes "0 < m"
  shows "a div m + (a mod m + b) div m = (a + b) div m" "(a mod m + b) mod m = (a + b) mod m"
  using assms div_mult_self1 [of m "a mod m + b" "a div m"] by (simp_all add: mod_add_left_eq)

lemma li_packets:
  assumes "ap_sockets s fd = Some SOCK_DGRAM" "li_udpSocket s = Some fd" "li_pingsThreshold s = int th"
    "li_numPings s = int k" "k \<le> th"
  shows "\<exists>s'. sensor_packets (li_callback f g x) u fd ps s = Inr s' \<and>
    li_numPings s' = int ((k + length ps) mod (th + 1)) \<and> calls_sent s' = calls_sent s + (k + length ps) div (th + 1)"
  using assms
proof (induction ps arbitrary: s k)
  case Nil
  then show ?case by simp
next
  case (Cons tp ps)
  obtain t p where tp: "tp = (t, p)" by force
  obtain s1 where s1: "app_handleMessage (li_callback f g x) u t (SocketMsg fd (UdpData p)) s = Inr s1"
    "ap_sockets s1 fd = Some SOCK_DGRAM" "li_udpSocket s1 = Some fd" "li_pingsThreshold s1 = int th"
    "li_numPings s1 = int ((k + 1) mod (th + 1))" "calls_sent s1 = calls_sent s + (k + 1) div (th + 1)"
    using li_packet [OF Cons.prems] by blast
  have "(k + 1) mod (th + 1) \<le> th" using mod_less_divisor [of "th + 1" "k + 1"] by simp
  then obtain s2 where s2: "sensor_packets (li_callback f g x) u fd ps s1 = Inr s2"
    "li_numPings s2 = int (((k + 1) mod (th + 1) + length ps) mod (th + 1))"
    "calls_sent s2 = calls_sent s1 + ((k + 1) mod (th + 1) + length ps) div (th + 1)"
    using Cons.IH [OF s1(2-5)] by blast
  have "li_numPings s2 = int ((k + 1 + length ps) mod (th + 1))"
    using s2(2) div_mod_step(2) [of "th + 1" "k + 1" "length ps"] by simp
  moreover have "calls_sent s2 = calls_sent s + (k + 1 + length ps) div (th + 1)"
    using s2(3) s1(6) div_mod_step(1) [of "th + 1" "k + 1" "length ps"] by simp
  ultimately show ?case using s1(1) s2(1) tp by (intro exI [of _ s2]) simp
qed

text \<open>C34.  A local controller that has opened its socket asks for one computation with every
  \<open>pingsThreshold + 1\<close> packets of its sensors, whatever they hold, and its counter never passes the
  threshold.  \<open>LocalIotApplication.ned\<close> documents \<open>pingsThreshold\<close> as the number of packets where it will
  start processing; the code starts with the packet after that one.
\<close>

theorem computations_bounded:
  assumes "app_handleMessage (li_callback f g fd) u t0 (SelfMsg EventTimer) (li_initialize t0 found a) = Inr s"
    "li_pingsThreshold a = int th"
  shows "\<exists>s'. sensor_packets (li_callback f g fd) u fd ps s = Inr s' \<and>
    calls_sent s' = length ps div (th + 1) \<and> li_numPings s' = int (length ps mod (th + 1)) \<and> li_numPings s' \<le> int th"
proof -
  have s: "ap_sockets s fd = Some SOCK_DGRAM" "li_udpSocket s = Some fd" "li_pingsThreshold s = int th"
    "li_numPings s = int 0" "calls_sent s = 0"
    using assms by (auto simp: app_handleMessage_def li_callback_def li_processSelfMessage_def li_initialize_def
        app_base_initialize_def scheduleExecStart_def core_initialize_def app_open_def app_emit_def calls_sent_def Let_def)
  have "length ps mod (th + 1) \<le> th" using mod_less_divisor [of "th + 1" "length ps"] by simp
  then show ?thesis using li_packets [OF s(1-4), of f g fd u ps] s(5) by auto
qed

definition li_example :: "nat LocalIotApplication" where
  "li_example = \<lparr>ap_core = core_initialize 5 ''app'', ap_pid = 1, ap_vmId = 0, ap_operationStart = 0, ap_resolver = False,
     ap_startDelay = 1, ap_appInstance = ''a'', ap_event = EXEC_START, ap_eventAt = None, ap_outGate = 2,
     ap_sockets = Map.empty, ap_out = [], li_processingMIs = 7, li_listeningPort = 1000, li_pingsThreshold = 2,
     li_udpSocket = None, li_actuators = [], li_serviceUp = False, li_numPings = 0, li_draws = 0\<rparr>"

theorem computations_bounded_witness:
  "\<exists>s s'. app_handleMessage (li_callback (\<lambda>k a b. a) of_nat 4) 0 1 (SelfMsg EventTimer) (li_initialize 1 [9] li_example) = Inr s \<and>
     sensor_packets (li_callback (\<lambda>k a b. a) of_nat 4) 0 4 (replicate 7 (2, ForeignPacket)) s = Inr s' \<and>
     calls_sent s' = 2 \<and> li_numPings s' = 1"
proof -
  have "\<exists>s. app_handleMessage (li_callback (\<lambda>k a b. a) of_nat 4) 0 1 (SelfMsg EventTimer) (li_initialize 1 [9] li_example) = Inr s"
    by (simp add: app_handleMessage_def li_callback_def li_processSelfMessage_def)
  then obtain s where s: "app_handleMessage (li_callback (\<lambda>k a b. a) of_nat 4) 0 1 (SelfMsg EventTimer)
      (li_initialize 1 [9] li_example) = Inr s" by blast
  have "li_pingsThreshold li_example = int 2" by (simp add: li_example_def)
  from computations_bounded [OF s this, of "replicate 7 (2, ForeignPacket)"] s show ?thesis by auto
qed

section \<open>Waiting for the server\<close>

text \<open>One round of polling: an answer that is not \<open>OK\<close>, and the timer it sets.\<close>

fun poll_rounds ::
  "('ip::linorder, 'ip IotApplication) app_callback \<Rightarrow> 'ip \<Rightarrow> int \<Rightarrow> (rat \<times> app_packet) list \<Rightarrow> 'ip IotApplication \<Rightarrow>
     'ip IotApplication outcome" where
  "poll_rounds cb u fd [] s = Inr s"
| "poll_rounds cb u fd ((t, p) # ps) s =
     and_then (app_handleMessage cb u t (SocketMsg fd (TcpData p)) s) (\<lambda>s1.
       case ap_eventAt s1 of
         None \<Rightarrow> Inr s1
       | Some t' \<Rightarrow> and_then (app_handleMessage cb u t' (SelfMsg EventTimer) s1) (poll_rounds cb u fd ps))"

definition polling :: "int \<Rightarrow> string \<Rightarrow> 'ip IotApplication \<Rightarrow> bool" where
  "polling fd name s \<longleftrightarrow> ap_sockets s fd = Some SOCK_STREAM \<and> ia_tcpSocket s = Some fd \<and> ia_udpSocket s \<noteq> Some fd \<and>
     \<not> ia_serviceUp s \<and> ap_eventAt s = None \<and> ia_serviceName s = name"

definition refused :: "app_packet \<Rightarrow> bool" where
  "refused p \<longleftrightarrow> (case p of RestResponse code host path n \<Rightarrow> code \<noteq> RC_OK | _ \<Rightarrow> False)"

abbreviation probe :: "int \<Rightarrow> string \<Rightarrow> 'ip app_out" where
  "probe fd name \<equiv> TcpSend fd (RestRequest (Some HEAD) name ''/'' None)"

lemma poll_refused:
  assumes "polling fd name s" "refused p"
  shows "\<exists>s1 t' s2. app_handleMessage (ia_callback f g x) u t (SocketMsg fd (TcpData p)) s = Inr s1 \<and> ap_eventAt s1 = Some t' \<and>
    app_handleMessage (ia_callback f g x) u t' (SelfMsg EventTimer) s1 = Inr s2 \<and> polling fd name s2 \<and>
    ap_out s2 = ap_out s @ [probe fd name] \<and> t' = t + ia_pollingInterval s \<and> ia_pollingInterval s2 = ia_pollingInterval s"
proof -
  let ?s1 = "s\<lparr>ap_event := POLL, ap_eventAt := Some (t + ia_pollingInterval s)\<rparr>"
  have "app_handleMessage (ia_callback f g x) u t (SocketMsg fd (TcpData p)) s = Inr ?s1"
    using assms by (auto simp: app_handleMessage_def app_socketEvent_def ia_callback_def ia_handleDataArrived_def polling_def
        refused_def schedulePoll_def Let_def split: app_packet.splits)
  moreover have "app_handleMessage (ia_callback f g x) u t' (SelfMsg EventTimer) ?s1 =
      Inr (app_emit (probe fd name) (?s1\<lparr>ap_eventAt := None\<rparr>))" for t'
    using assms(1) by (simp add: app_handleMessage_def ia_callback_def ia_processSelfMessage_def self_kind_def sendPoll_def
        send_tcp_def app_send_def cast_socket_def polling_def app_emit_def)
  ultimately show ?thesis
    using assms(1) by (intro exI [of _ ?s1] exI [of _ "t + ia_pollingInterval s"]
        exI [of _ "app_emit (probe fd name) (?s1\<lparr>ap_eventAt := None\<rparr>)"]) (simp add: polling_def app_emit_def)
qed

text \<open>As long as the service says that it is not ready the application polls again, once per answer; the first
  \<open>OK\<close> ends the polling.\<close>

lemma polls_until_up:
  assumes "polling fd name s" "\<forall>(t, p)\<in>set ps. refused p"
  shows "\<exists>s' s''. poll_rounds (ia_callback f g x) u fd ps s = Inr s' \<and> polling fd name s' \<and>
    ap_out s' = ap_out s @ replicate (length ps) (probe fd name) \<and>
    app_handleMessage (ia_callback f g x) u t (SocketMsg fd (TcpData (RestResponse RC_OK h pa n))) s' = Inr s'' \<and>
    ia_serviceUp s'' \<and> ap_out s'' = ap_out s' \<and> ap_eventAt s'' = None"
  using assms
proof (induction ps arbitrary: s)
  case Nil
  then show ?case
    by (auto simp: app_handleMessage_def app_socketEvent_def ia_callback_def ia_handleDataArrived_def polling_def Let_def)
next
  case (Cons tp ps)
  obtain t0 p where tp: "tp = (t0, p)" by force
  with Cons.prems have "refused p" by simp
  from poll_refused [OF Cons.prems(1) this] obtain s1 t' s2 where
    s1: "app_handleMessage (ia_callback f g x) u t0 (SocketMsg fd (TcpData p)) s = Inr s1" "ap_eventAt s1 = Some t'"
    "app_handleMessage (ia_callback f g x) u t' (SelfMsg EventTimer) s1 = Inr s2" "polling fd name s2"
    "ap_out s2 = ap_out s @ [probe fd name]" by blast
  have "poll_rounds (ia_callback f g x) u fd (tp # ps) s = poll_rounds (ia_callback f g x) u fd ps s2"
    using s1 tp by simp
  moreover have "\<forall>(t, p)\<in>set ps. refused p" using Cons.prems(2) by simp
  ultimately show ?case using Cons.IH [OF s1(4)] s1(5) by simp
qed

end
