(* ===== verification/EdgeUser.thy ===== *)
theory EdgeUser
  imports CloudMessages IotApps
begin

text \<open>
  The user of an edge area, \<open>users/edge/EdgeUser\<close>: it asks the cloud provider for its virtual machines, deploys
  its remote applications on each machine that is accepted, its local applications on the controller of the
  area, and tells a local application when the service it depends on has been deployed.

  The configuration arrays are lists; the modules of the area are a list of names, and the pattern matcher of the
  simulation library is the parameter \<open>matches\<close>.
\<close>

section \<open>State\<close>

datatype run_state = PENDING | UP | DOWN

record EdgeApp =
  ea_name :: string
  ea_type :: string
  ea_dependant :: string
  ea_state :: run_state

record EdgeVm =
  ev_name :: string
  ev_type :: string
  ev_state :: run_state
  ev_apps :: "EdgeApp list"

definition new_EdgeApp :: EdgeApp where
  "new_EdgeApp = \<lparr>ea_name = [], ea_type = [], ea_dependant = [], ea_state = PENDING\<rparr>"

definition new_EdgeVm :: EdgeVm where
  "new_EdgeVm = \<lparr>ev_name = [], ev_type = [], ev_state = PENDING, ev_apps = []\<rparr>"

text \<open>The definitions of the configuration.\<close>

record vm_config =
  vc_name :: string
  vc_type :: string

record local_config =
  lc_name :: string
  lc_type :: string
  lc_dependsOn :: "string option"

record remote_config =
  rm_name :: string
  rm_type :: string
  rm_platform :: string

text \<open>What the user sends: to the message queue, to the controller, and the parameters it sets.\<close>

datatype edge_out =
    ToQueue DcMessage
  | AppsToController SM_UserAPP
  | SettingsToController SM_AppSettings
  | SensorPower string bool

record EdgeUser =
  eu_id :: int
  eu_fullName :: string
  eu_fullPath :: string
  eu_queueGate :: int
  eu_zone :: string
  eu_controllerHostName :: string
  eu_uniqueServices :: bool
  eu_userId :: string
  eu_vms :: "(string \<times> EdgeVm) list"
  eu_localApps :: "EdgeApp list"
  eu_sensors :: "string list"
  eu_startAt :: "rat option"
  eu_out :: "edge_out list"

definition eu_emit :: "edge_out \<Rightarrow> EdgeUser \<Rightarrow> EdgeUser" where
  "eu_emit x s = s\<lparr>eu_out := eu_out s @ [x]\<rparr>"

definition generateUniqueId :: "string \<Rightarrow> EdgeUser \<Rightarrow> string" where
  "generateUniqueId name s = name @ ''::'' @ show_int (eu_id s)"

section \<open>The configuration\<close>

definition eu_load_vm :: "vm_config \<Rightarrow> EdgeUser \<Rightarrow> EdgeUser" where
  "eu_load_vm c s = s\<lparr>eu_vms := map_at (generateUniqueId (vc_name c) s) new_EdgeVm
     (\<lambda>v. v\<lparr>ev_name := vc_name c, ev_type := vc_type c\<rparr>) (eu_vms s)\<rparr>"

text \<open>\<open>dependencies\<close> maps the name of a remote application to the last local one that depends on it.\<close>

definition load_local ::
  "local_config \<Rightarrow> (string \<Rightarrow> string option) \<times> EdgeUser \<Rightarrow> (string \<Rightarrow> string option) \<times> EdgeUser" where
  "load_local c ds = (case ds of (dependencies, s) \<Rightarrow>
     ((case lc_dependsOn c of Some d \<Rightarrow> dependencies(d \<mapsto> lc_name c) | None \<Rightarrow> dependencies),
      s\<lparr>eu_localApps := eu_localApps s @ [new_EdgeApp\<lparr>ea_name := lc_name c, ea_type := lc_type c\<rparr>]\<rparr>))"

text \<open>\<open>findPlatform(platform)->appendApp(app)\<close>: the first machine of that name, in the order of the identifiers.\<close>

fun append_to_platform :: "string \<Rightarrow> EdgeApp \<Rightarrow> (string \<times> EdgeVm) list \<Rightarrow> (string \<times> EdgeVm) list outcome" where
  "append_to_platform name app [] = Inl (RuntimeError ''Could not find platform'')"
| "append_to_platform name app ((k, v) # vs) =
     (if ev_name v = name then Inr ((k, v\<lparr>ev_apps := ev_apps v @ [app]\<rparr>) # vs)
      else and_then (append_to_platform name app vs) (\<lambda>vs'. Inr ((k, v) # vs')))"

definition load_remote :: "(string \<Rightarrow> string option) \<Rightarrow> remote_config \<Rightarrow> EdgeUser \<Rightarrow> EdgeUser outcome" where
  "load_remote dependencies c s =
     (let app = (case dependencies (rm_name c) of
                   Some l \<Rightarrow> new_EdgeApp\<lparr>ea_dependant := l\<rparr> | None \<Rightarrow> new_EdgeApp);
          app2 = app\<lparr>ea_name := if eu_uniqueServices s then generateUniqueId (rm_name c) s else rm_name c,
                     ea_type := rm_type c\<rparr>
      in and_then (append_to_platform (rm_platform c) app2 (eu_vms s)) (\<lambda>vs. Inr (s\<lparr>eu_vms := vs\<rparr>)))"

definition find_sensors :: "(string \<Rightarrow> string \<Rightarrow> bool) \<Rightarrow> string list \<Rightarrow> string list \<Rightarrow> string list" where
  "find_sensors matches submodules patterns = concat (map (\<lambda>p. filter (matches p) submodules) patterns)"

definition eu_initialize ::
  "(string \<Rightarrow> string \<Rightarrow> bool) \<Rightarrow> string list \<Rightarrow> rat \<Rightarrow> vm_config list \<Rightarrow> local_config list \<Rightarrow> remote_config list \<Rightarrow>
     string list \<Rightarrow> EdgeUser \<Rightarrow> EdgeUser outcome" where
  "eu_initialize matches submodules startupTime vms locals remotes patterns s =
     (let s1 = s\<lparr>eu_userId := generateUniqueId (eu_fullName s) s, eu_vms := [], eu_localApps := [], eu_sensors := [],
                 eu_out := []\<rparr>;
          (dependencies, s2) = fold load_local locals (Map.empty, fold eu_load_vm vms s1)
      in and_then (for_each (load_remote dependencies) remotes s2) (\<lambda>s3.
           Inr (s3\<lparr>eu_sensors := find_sensors matches submodules patterns, eu_startAt := Some startupTime\<rparr>)))"

definition eu_finish :: "EdgeUser \<Rightarrow> EdgeUser" where
  "eu_finish s = s\<lparr>eu_vms := [], eu_localApps := [], eu_sensors := []\<rparr>"

section \<open>Requests and answers\<close>

definition send_to_queue :: "dc_body \<Rightarrow> EdgeUser \<Rightarrow> EdgeUser outcome" where
  "send_to_queue b s =
     and_then (addModuleToTrace (eu_id s) (eu_queueGate s) 0 (addNodeToTrace (eu_fullPath s) (with_body b)))
       (\<lambda>m. Inr (eu_emit (ToQueue m) s))"

definition new_UserApp :: SM_UserAPP where
  "new_UserApp = \<lparr>ua_operation = SM_APP_Req, ua_isResponse = False, ua_result = SM_UnsetValue, ua_destinationTopic = [],
     ua_returnTopic = [], ua_vmId = [], ua_hypervisorUrl = [], ua_userId = [], ua_app = [], ua_nFinishedApps = 0,
     ua_finished = False\<rparr>"

definition edge_times :: InstanceRequestTimes where
  "edge_times = \<lparr>maxStartTime = 1000, rentTime = 3600, maxSubTime = 1000, maxSubscriptionTime = 1000\<rparr>"

definition ask_for_vm :: "string \<times> EdgeVm \<Rightarrow> EdgeUser \<Rightarrow> EdgeUser outcome" where
  "ask_for_vm e s =
     send_to_queue (UserVm (createNewVmRequest (ev_type (snd e)) (fst e) edge_times
       ((new_UserVm [])\<lparr>uv_operation := SM_VM_Req_op, uv_userId := eu_userId s, uv_zone := eu_zone s,
         uv_destinationTopic := ''cloudProvider''\<rparr>))) s"

definition set_sensors :: "bool \<Rightarrow> EdgeUser \<Rightarrow> EdgeUser" where
  "set_sensors on s = fold (\<lambda>x. eu_emit (SensorPower x on)) (eu_sensors s) s"

definition turnSensorsOn :: "EdgeUser \<Rightarrow> EdgeUser" where "turnSensorsOn = set_sensors True"

definition turnSensorsOff :: "EdgeUser \<Rightarrow> EdgeUser" where "turnSensorsOff = set_sensors False"

definition local_request :: "EdgeUser \<Rightarrow> SM_UserAPP" where
  "local_request s = fold (\<lambda>a. createNewAppRequest (ea_name a) (ea_type a) 0) (eu_localApps s)
     (new_UserApp\<lparr>ua_userId := eu_userId s, ua_vmId := eu_controllerHostName s\<rparr>)"

definition startup :: "EdgeUser \<Rightarrow> EdgeUser outcome" where
  "startup s =
     and_then (for_each ask_for_vm (eu_vms s) s) (\<lambda>s1.
       let s2 = (if eu_localApps s1 \<noteq> [] then eu_emit (AppsToController (local_request s1)) s1 else s1)
       in Inr (if eu_sensors s2 \<noteq> [] then turnSensorsOn s2 else s2))"

definition sendServiceIsUp :: "string \<Rightarrow> EdgeApp \<Rightarrow> string \<Rightarrow> EdgeUser \<Rightarrow> EdgeUser" where
  "sendServiceIsUp localApp service domain s =
     eu_emit (SettingsToController \<lparr>as_vmId = eu_controllerHostName s, as_appName = localApp,
       as_parameters = [(''serviceName'', ea_name service @ ''.'' @ domain)]\<rparr>) s"

text \<open>The loop over the applications of a machine: the request grows, and the dependants hear of it.\<close>

definition eu_deploy_app ::
  "rat \<Rightarrow> string \<Rightarrow> EdgeApp \<Rightarrow> SM_UserAPP \<times> EdgeUser \<Rightarrow> SM_UserAPP \<times> EdgeUser" where
  "eu_deploy_app now domain app rs = (case rs of (rq, s) \<Rightarrow>
     (createNewAppRequest (ea_name app) (ea_type app) now rq,
      if ea_dependant app \<noteq> [] then sendServiceIsUp (ea_dependant app) app domain s else s))"

definition deploy_vm :: "rat \<Rightarrow> SM_UserVM \<Rightarrow> nat \<Rightarrow> EdgeUser \<Rightarrow> EdgeUser outcome" where
  "deploy_vm now update i s =
     (let vmId = rq_vmId (uv_vm update ! i);
          vm = (case map_of (eu_vms s) vmId of Some v \<Rightarrow> v | None \<Rightarrow> new_EdgeVm);
          s1 = s\<lparr>eu_vms := map_at vmId new_EdgeVm id (eu_vms s)\<rparr>
      in and_then (getResponse i update) (\<lambda>response.
           case response of
             None \<Rightarrow> Inr s1
           | Some r \<Rightarrow>
               let s2 = s1\<lparr>eu_vms := map_at vmId new_EdgeVm
                       (\<lambda>v. v\<lparr>ev_state := UP, ev_apps := map (\<lambda>a. a\<lparr>ea_state := UP\<rparr>) (ev_apps v)\<rparr>) (eu_vms s1)\<rparr>;
                   (rq, s3) = fold (eu_deploy_app now (uv_domain update)) (ev_apps vm)
                     (new_UserApp\<lparr>ua_vmId := vmId, ua_destinationTopic := uv_returnTopic update,
                        ua_hypervisorUrl := rsp_ip r, ua_userId := eu_userId s2\<rparr>, s2)
               in send_to_queue (UserApp rq) s3))"

definition handleVmUpdate :: "rat \<Rightarrow> SM_UserVM \<Rightarrow> EdgeUser \<Rightarrow> EdgeUser outcome" where
  "handleVmUpdate now update s = for_each (deploy_vm now update) [0..<length (uv_vm update)] s"

datatype edge_msg = StartTimer | SerialIn | QueueIn DcMessage

definition eu_handleMessage :: "rat \<Rightarrow> edge_msg \<Rightarrow> EdgeUser \<Rightarrow> EdgeUser outcome" where
  "eu_handleMessage now msg s =
     (case msg of
        StartTimer \<Rightarrow> startup s
      | SerialIn \<Rightarrow> Inr s
      | QueueIn m \<Rightarrow>
          (let code = body_operation (env_body m)
           in if code = SM_VM_Req_op then
                (case env_body m of UserVm update \<Rightarrow> handleVmUpdate now update s
                   | _ \<Rightarrow> Inl (RuntimeError ''check_and_cast''))
              else if code = SM_APP_Req then
                (case env_body m of UserApp update \<Rightarrow> Inr s | _ \<Rightarrow> Inl (RuntimeError ''check_and_cast''))
              else Inl (RuntimeError ''Unexpected message kind'')))"

section \<open>What a deployment sends\<close>

lemma send_to_queue_eq:
  "\<exists>m. send_to_queue b s = Inr (eu_emit (ToQueue m) s) \<and> env_body m = b"
proof -
  have "\<exists>tr. addModuleToTrace (eu_id s) (eu_queueGate s) 0 (addNodeToTrace (eu_fullPath s) (with_body b)) =
      Inr ((with_body b)\<lparr>trace := tr\<rparr>)"
    by (simp add: addModuleToTrace_def addNodeToTrace_def Let_def split: prod.split) blast
  then obtain tr where "send_to_queue b s = Inr (eu_emit (ToQueue ((with_body b)\<lparr>trace := tr\<rparr>)) s)"
    by (auto simp: send_to_queue_def)
  moreover have "env_body ((with_body b)\<lparr>trace := tr\<rparr>) = b" by (simp add: with_body_def SIMCAN_Message.defs)
  ultimately show ?thesis by blast
qed

definition announcements :: "EdgeUser \<Rightarrow> string \<Rightarrow> EdgeApp list \<Rightarrow> edge_out list" where
  "announcements s domain as = map (\<lambda>a. SettingsToController \<lparr>as_vmId = eu_controllerHostName s, as_appName = ea_dependant a,
     as_parameters = [(''serviceName'', ea_name a @ ''.'' @ domain)]\<rparr>) (filter (\<lambda>a. ea_dependant a \<noteq> []) as)"

lemma announcements_vms [simp]: "announcements (s\<lparr>eu_vms := vs, eu_out := os\<rparr>) = announcements s"
  "announcements (s\<lparr>eu_out := os\<rparr>) = announcements s" "announcements (s\<lparr>eu_vms := vs\<rparr>) = announcements s"
  by (simp_all add: fun_eq_iff announcements_def)

lemma deploy_one:
  "eu_deploy_app now d a (rq, s) = (rq\<lparr>ua_app := ua_app rq @ [new_app (ea_name a) (ea_type a) now]\<rparr>,
     s\<lparr>eu_out := eu_out s @ announcements s d [a]\<rparr>)"
  by (simp add: eu_deploy_app_def sendServiceIsUp_def eu_emit_def createNewAppRequest_def announcements_def)

lemma fold_deploy:
  "fold (eu_deploy_app now d) as (rq, s) =
     (rq\<lparr>ua_app := ua_app rq @ map (\<lambda>a. new_app (ea_name a) (ea_type a) now) as\<rparr>,
      s\<lparr>eu_out := eu_out s @ announcements s d as\<rparr>)"
proof (induction as arbitrary: rq s)
  case Nil
  then show ?case by (simp add: announcements_def)
next
  case (Cons a as)
  have "announcements s d (a # as) = announcements s d [a] @ announcements s d as" by (simp add: announcements_def)
  then show ?case by (simp add: deploy_one Cons.IH)
qed

definition app_keys :: "EdgeVm \<Rightarrow> (string \<times> string \<times> string) list" where
  "app_keys v = map (\<lambda>a. (ea_name a, ea_type a, ea_dependant a)) (ev_apps v)"

text \<open>The machines keep their applications; only states change.\<close>

definition same_platforms :: "EdgeUser \<Rightarrow> EdgeUser \<Rightarrow> bool" where
  "same_platforms s s' \<longleftrightarrow> map_ordered (eu_vms s') \<and> eu_controllerHostName s' = eu_controllerHostName s \<and>
     (\<forall>k. map_option app_keys (map_of (eu_vms s') k) = map_option app_keys (map_of (eu_vms s) k))"

definition deployed :: "rat \<Rightarrow> string \<Rightarrow> SM_UserVM \<Rightarrow> VM_Response \<Rightarrow> EdgeVm \<Rightarrow> EdgeUser \<Rightarrow> SM_UserAPP" where
  "deployed now k update r v s = new_UserApp\<lparr>ua_vmId := k, ua_destinationTopic := uv_returnTopic update,
     ua_hypervisorUrl := rsp_ip r, ua_userId := eu_userId s,
     ua_app := map (\<lambda>a. new_app (ea_name a) (ea_type a) now) (ev_apps v)\<rparr>"

lemma deploy_vm_accepted:
  assumes "map_ordered (eu_vms s)" "map_of (eu_vms s) (rq_vmId (uv_vm u ! i)) = Some v" "i < length (uv_vm u)"
    "rsp_state (rq_response (uv_vm u ! i)) = ACCEPTED"
  shows "\<exists>s' m. deploy_vm now u i s = Inr s' \<and> same_platforms s s' \<and>
    eu_out s' = eu_out s @ announcements s (uv_domain u) (ev_apps v) @ [ToQueue m] \<and>
    env_body m = UserApp (deployed now (rq_vmId (uv_vm u ! i)) u (rq_response (uv_vm u ! i)) v s)"
proof -
  let ?k = "rq_vmId (uv_vm u ! i)" and ?r = "rq_response (uv_vm u ! i)"
  let ?vs = "map_at ?k new_EdgeVm (\<lambda>v. v\<lparr>ev_state := UP, ev_apps := map (\<lambda>a. a\<lparr>ea_state := UP\<rparr>) (ev_apps v)\<rparr>)
      (map_at ?k new_EdgeVm id (eu_vms s))"
  let ?s2 = "s\<lparr>eu_vms := ?vs, eu_out := eu_out s @ announcements s (uv_domain u) (ev_apps v)\<rparr>"
  obtain m where m: "send_to_queue (UserApp (deployed now ?k u ?r v s)) ?s2 = Inr (eu_emit (ToQueue m) ?s2)"
    "env_body m = UserApp (deployed now ?k u ?r v s)" using send_to_queue_eq by blast
  have "deploy_vm now u i s = Inr (eu_emit (ToQueue m) ?s2)"
    using assms(2-4) m(1)
    by (simp add: deploy_vm_def getResponse_def Let_def fold_deploy deployed_def new_UserApp_def)
  moreover have "same_platforms s (eu_emit (ToQueue m) ?s2)"
    using assms(1,2) by (simp add: same_platforms_def eu_emit_def map_at_ordered map_of_map_at app_keys_def o_def)
  ultimately show ?thesis using m(2) by (intro exI [of _ "eu_emit (ToQueue m) ?s2"] exI [of _ m]) (simp add: eu_emit_def)
qed

fun sent_apps :: "edge_out \<Rightarrow> (string \<times> string) list" where
  "sent_apps (ToQueue m) = (case env_body m of UserApp rq \<Rightarrow> map (\<lambda>a. (app_name a, app_type a)) (ua_app rq) | _ \<Rightarrow> [])"
| "sent_apps _ = []"

definition services_of :: "EdgeUser \<Rightarrow> string \<Rightarrow> (string \<times> string) list" where
  "services_of s k = (case map_of (eu_vms s) k of
     Some v \<Rightarrow> map (\<lambda>a. (ea_name a, ea_type a)) (ev_apps v) | None \<Rightarrow> [])"

lemma services_of_keys:
  "services_of s k = (case map_option app_keys (map_of (eu_vms s) k) of
     Some l \<Rightarrow> map (\<lambda>(n, t, d). (n, t)) l | None \<Rightarrow> [])"
  by (simp add: services_of_def app_keys_def o_def split: option.split)

lemma same_platforms_services:
  assumes "same_platforms s s'"
  shows "services_of s' = services_of s" "map_of (eu_vms s') k = None \<longleftrightarrow> map_of (eu_vms s) k = None"
proof -
  have e: "map_option app_keys (map_of (eu_vms s') k) = map_option app_keys (map_of (eu_vms s) k)" for k
    using assms by (simp add: same_platforms_def)
  show "services_of s' = services_of s" by (simp add: fun_eq_iff services_of_keys e)
  show "map_of (eu_vms s') k = None \<longleftrightarrow> map_of (eu_vms s) k = None"
    using e [of k] by (metis option.map_disc_iff)
qed

lemma no_apps_announced: "concat (map sent_apps (announcements s d as)) = []"
  by (simp add: announcements_def)

text \<open>The answers of a list of updates, one after the other.\<close>

definition answers_in :: "(rat \<times> SM_UserVM) list \<Rightarrow> (rat \<times> SM_UserVM \<times> nat) list" where
  "answers_in us = concat (map (\<lambda>(t, u). map (\<lambda>i. (t, u, i)) [0..<length (uv_vm u)]) us)"

definition vm_at :: "rat \<times> SM_UserVM \<times> nat \<Rightarrow> VM_Request" where
  "vm_at x = (case x of (t, u, i) \<Rightarrow> uv_vm u ! i)"

lemma vm_at_answers: "map vm_at (answers_in us) = concat (map (uv_vm \<circ> snd) us)"
proof -
  have "map vm_at (map (\<lambda>i. (t, u, i)) [0..<length (uv_vm u)]) = uv_vm u" for t u
    by (simp add: vm_at_def o_def map_nth)
  then show ?thesis by (simp add: answers_in_def map_concat o_def case_prod_unfold)
qed

lemma answers_in_range: "(t, u, i) \<in> set (answers_in us) \<Longrightarrow> i < length (uv_vm u)"
  by (auto simp: answers_in_def)

lemma for_each_map: "for_each f (map g xs) s = for_each (f \<circ> g) xs s"
  by (induction xs arbitrary: s) (auto simp: and_then_def split: sum.split)

lemma updates_flat:
  "for_each (\<lambda>(t, u). handleVmUpdate t u) us s = for_each (\<lambda>(t, u, i). deploy_vm t u i) (answers_in us) s"
proof (induction us arbitrary: s)
  case Nil
  then show ?case by (simp add: answers_in_def)
next
  case (Cons tu us)
  obtain t u where tu: "tu = (t, u)" by force
  have "answers_in (tu # us) = map (\<lambda>i. (t, u, i)) [0..<length (uv_vm u)] @ answers_in us"
    by (simp add: answers_in_def tu)
  moreover have "for_each (\<lambda>(t, u, i). deploy_vm t u i) (map (\<lambda>i. (t, u, i)) [0..<length (uv_vm u)]) s = handleVmUpdate t u s"
    by (simp add: handleVmUpdate_def for_each_map o_def)
  moreover have "for_each (\<lambda>(t, u). handleVmUpdate t u) us = for_each (\<lambda>(t, u, i). deploy_vm t u i) (answers_in us)"
    by (rule ext) (rule Cons.IH)
  ultimately show ?case by (simp only: tu for_each_append) simp
qed

lemma deploy_list:
  assumes "map_ordered (eu_vms s)" "\<forall>x\<in>set xs. map_of (eu_vms s) (rq_vmId (vm_at x)) \<noteq> None \<and>
      rsp_state (rq_response (vm_at x)) = ACCEPTED \<and> (case x of (t, u, i) \<Rightarrow> i < length (uv_vm u))"
  shows "\<exists>s'. for_each (\<lambda>(t, u, i). deploy_vm t u i) xs s = Inr s' \<and> same_platforms s s' \<and>
    concat (map sent_apps (eu_out s')) = concat (map sent_apps (eu_out s)) @
      concat (map (\<lambda>x. services_of s (rq_vmId (vm_at x))) xs)"
  using assms
proof (induction xs arbitrary: s)
  case Nil
  then show ?case by (simp add: same_platforms_def)
next
  case (Cons x xs)
  obtain t u i where x: "x = (t, u, i)" by (metis prod_cases3)
  then obtain v where v: "map_of (eu_vms s) (rq_vmId (uv_vm u ! i)) = Some v" "i < length (uv_vm u)"
    "rsp_state (rq_response (uv_vm u ! i)) = ACCEPTED" "vm_at x = uv_vm u ! i"
    using Cons.prems(2) by (auto simp: vm_at_def)
  from deploy_vm_accepted [OF Cons.prems(1) v(1-3), of t] obtain s1 m where s1:
    "deploy_vm t u i s = Inr s1" "same_platforms s s1"
    "eu_out s1 = eu_out s @ announcements s (uv_domain u) (ev_apps v) @ [ToQueue m]"
    "env_body m = UserApp (deployed t (rq_vmId (uv_vm u ! i)) u (rq_response (uv_vm u ! i)) v s)" by blast
  have "sent_apps (ToQueue m) = services_of s (rq_vmId (vm_at x))"
    using s1(4) v(1,4) by (simp add: deployed_def services_of_def new_app_def o_def)
  then have o1: "concat (map sent_apps (eu_out s1)) = concat (map sent_apps (eu_out s)) @ services_of s (rq_vmId (vm_at x))"
    using s1(3) by (simp add: no_apps_announced del: sent_apps.simps)
  have "map_ordered (eu_vms s1)" using s1(2) by (simp add: same_platforms_def)
  moreover have "\<forall>x\<in>set xs. map_of (eu_vms s1) (rq_vmId (vm_at x)) \<noteq> None \<and>
      rsp_state (rq_response (vm_at x)) = ACCEPTED \<and> (case x of (t, u, i) \<Rightarrow> i < length (uv_vm u))"
    using Cons.prems(2) same_platforms_services(2) [OF s1(2)] by (meson list.set_intros(2))
  ultimately obtain s2 where s2: "for_each (\<lambda>(t, u, i). deploy_vm t u i) xs s1 = Inr s2" "same_platforms s1 s2"
    "concat (map sent_apps (eu_out s2)) = concat (map sent_apps (eu_out s1)) @
      concat (map (\<lambda>x. services_of s1 (rq_vmId (vm_at x))) xs)" using Cons.IH by blast
  have "same_platforms s s2" using s1(2) s2(2) by (simp add: same_platforms_def)
  with s1(1) s2 o1 x show ?case
    by (simp add: same_platforms_services(1) [OF s1(2)] del: sent_apps.simps)
qed

section \<open>What the configuration gives\<close>

definition all_services :: "(string \<times> EdgeVm) list \<Rightarrow> (string \<times> string) list" where
  "all_services vs = concat (map (\<lambda>(k, v). map (\<lambda>a. (ea_name a, ea_type a)) (ev_apps v)) vs)"

lemma append_to_platform_spec:
  assumes "append_to_platform name a vs = Inr vs'"
  shows "mset (all_services vs') = add_mset (ea_name a, ea_type a) (mset (all_services vs)) \<and> map fst vs' = map fst vs"
  using assms
proof (induction name a vs arbitrary: vs' rule: append_to_platform.induct)
  case (2 name a k v vs)
  then show ?case by (auto simp: all_services_def and_then_eq_Inr split: if_splits)
qed simp

definition service_name :: "EdgeUser \<Rightarrow> remote_config \<Rightarrow> string" where
  "service_name s c = (if eu_uniqueServices s then generateUniqueId (rm_name c) s else rm_name c)"

lemma load_remotes:
  assumes "for_each (load_remote deps) cs s = Inr s'"
  shows "mset (all_services (eu_vms s')) = mset (map (\<lambda>c. (service_name s c, rm_type c)) cs) + mset (all_services (eu_vms s)) \<and>
    map fst (eu_vms s') = map fst (eu_vms s) \<and> eu_out s' = eu_out s"
  using assms
proof (induction cs arbitrary: s)
  case (Cons c cs)
  then obtain s1 where s1: "load_remote deps c s = Inr s1" "for_each (load_remote deps) cs s1 = Inr s'"
    by (auto simp: and_then_eq_Inr)
  then obtain a vs where a: "append_to_platform (rm_platform c) a (eu_vms s) = Inr vs" "s1 = s\<lparr>eu_vms := vs\<rparr>"
    "ea_name a = service_name s c" "ea_type a = rm_type c"
    by (auto simp: load_remote_def Let_def and_then_eq_Inr service_name_def)
  then have "service_name s1 = service_name s" by (simp add: fun_eq_iff service_name_def generateUniqueId_def)
  with Cons.IH [OF s1(2)] append_to_platform_spec [OF a(1)] a(2-4) show ?case by simp
qed simp

lemma load_locals: "\<exists>d l. fold load_local cs (d0, s) = (d, s\<lparr>eu_localApps := l\<rparr>)"
proof (induction cs arbitrary: d0 s)
  case (Cons c cs)
  show ?case
    using Cons [of _ "s\<lparr>eu_localApps := eu_localApps s @ [new_EdgeApp\<lparr>ea_name := lc_name c, ea_type := lc_type c\<rparr>]\<rparr>"]
    by (simp add: load_local_def)
qed (metis EdgeUser.surjective EdgeUser.update_convs(10) fold_simps(1))

lemma load_vms:
  assumes "map_ordered (eu_vms s)" "all_services (eu_vms s) = []"
  shows "\<exists>vs. fold eu_load_vm cs s = s\<lparr>eu_vms := vs\<rparr> \<and> map_ordered vs \<and> all_services vs = []"
  using assms
proof (induction cs arbitrary: s)
  case Nil
  then show ?case by (intro exI [of _ "eu_vms s"]) simp
next
  case (Cons c cs)
  have "all_services (map_at k new_EdgeVm (\<lambda>v. v\<lparr>ev_name := vc_name c, ev_type := vc_type c\<rparr>) vs) = []"
    if "all_services vs = []" for k vs
    using that by (induction vs) (auto simp: all_services_def new_EdgeVm_def split: if_splits)
  then have "map_ordered (eu_vms (eu_load_vm c s))" "all_services (eu_vms (eu_load_vm c s)) = []"
    using Cons.prems by (simp_all add: eu_load_vm_def map_at_ordered)
  from Cons.IH [OF this] obtain vs where "fold eu_load_vm cs (eu_load_vm c s) = (eu_load_vm c s)\<lparr>eu_vms := vs\<rparr>"
    "map_ordered vs" "all_services vs = []" by blast
  then show ?case by (intro exI [of _ vs]) (simp add: eu_load_vm_def [of c])
qed

lemma initialize_spec:
  assumes "eu_initialize matches subs t0 vms locals remotes pats s0 = Inr s"
  shows "map_ordered (eu_vms s)" "eu_out s = []"
    "mset (all_services (eu_vms s)) = mset (map (\<lambda>c. (service_name s0 c, rm_type c)) remotes)"
proof -
  let ?s1 = "s0\<lparr>eu_userId := generateUniqueId (eu_fullName s0) s0, eu_vms := [], eu_localApps := [], eu_sensors := [],
      eu_out := []\<rparr>"
  obtain vs where vs: "fold eu_load_vm vms ?s1 = ?s1\<lparr>eu_vms := vs\<rparr>" "map_ordered vs" "all_services vs = []"
    using load_vms [of ?s1 vms] by (auto simp: map_ordered_def all_services_def)
  obtain d l where dl: "fold load_local locals (Map.empty, ?s1\<lparr>eu_vms := vs\<rparr>) = (d, ?s1\<lparr>eu_vms := vs, eu_localApps := l\<rparr>)"
    using load_locals [of locals Map.empty "?s1\<lparr>eu_vms := vs\<rparr>"] by auto
  let ?s2 = "?s1\<lparr>eu_vms := vs, eu_localApps := l\<rparr>"
  obtain s3 where s3: "for_each (load_remote d) remotes ?s2 = Inr s3"
    "s = s3\<lparr>eu_sensors := find_sensors matches subs pats, eu_startAt := Some t0\<rparr>"
    using assms vs(1) dl by (auto simp: eu_initialize_def Let_def and_then_eq_Inr)
  have "service_name ?s2 = service_name s0" by (simp add: fun_eq_iff service_name_def generateUniqueId_def)
  with load_remotes [OF s3(1)] s3(2) vs(2,3)
  show "map_ordered (eu_vms s)" "eu_out s = []"
    "mset (all_services (eu_vms s)) = mset (map (\<lambda>c. (service_name s0 c, rm_type c)) remotes)"
    by (simp_all add: map_ordered_def)
qed

lemma sensors_out:
  "concat (map sent_apps (eu_out (fold (\<lambda>x. eu_emit (SensorPower x on)) xs s))) = concat (map sent_apps (eu_out s)) \<and>
   eu_vms (fold (\<lambda>x. eu_emit (SensorPower x on)) xs s) = eu_vms s"
  by (induction xs arbitrary: s) (simp_all add: eu_emit_def)

lemma ask_all:
  "\<exists>os. for_each ask_for_vm es s = Inr (s\<lparr>eu_out := eu_out s @ os\<rparr>) \<and> concat (map sent_apps os) = [] \<and> length os = length es"
proof (induction es arbitrary: s)
  case Nil
  then show ?case by (intro exI [of _ "[]"]) simp
next
  case (Cons e es)
  obtain m rq where m: "ask_for_vm e s = Inr (eu_emit (ToQueue m) s)" "env_body m = UserVm rq"
    unfolding ask_for_vm_def using send_to_queue_eq by blast
  obtain os where os: "for_each ask_for_vm es (eu_emit (ToQueue m) s) =
      Inr ((eu_emit (ToQueue m) s)\<lparr>eu_out := eu_out (eu_emit (ToQueue m) s) @ os\<rparr>)" "concat (map sent_apps os) = []"
    "length os = length es"
    using Cons.IH by blast
  then show ?case using m by (intro exI [of _ "ToQueue m # os"]) (simp add: eu_emit_def)
qed

lemma startup_spec:
  "\<exists>s'. startup s = Inr s' \<and> eu_vms s' = eu_vms s \<and> concat (map sent_apps (eu_out s')) = concat (map sent_apps (eu_out s))"
proof -
  obtain os where "for_each ask_for_vm (eu_vms s) s = Inr (s\<lparr>eu_out := eu_out s @ os\<rparr>)" "concat (map sent_apps os) = []"
    using ask_all by blast
  then show ?thesis
    using sensors_out [of True]
    by (simp add: startup_def Let_def turnSensorsOn_def set_sensors_def) (simp add: eu_emit_def)
qed

lemma mset_concat_map:
  assumes "mset xs = mset ys"
  shows "mset (concat (map f xs)) = mset (concat (map f ys))"
proof -
  have "mset (concat (map f zs)) = sum_mset (image_mset (\<lambda>x. mset (f x)) (mset zs))" for zs
    by (induction zs) simp_all
  then show ?thesis by (simp only: assms)
qed

section \<open>Properties\<close>

text \<open>C36.  After a user has started, and whatever the order in which its machines are accepted, in one update or
  in many, every remote application of its configuration is sent for deployment exactly once, under the
  name and type it was configured with.
\<close>

theorem remote_apps_deployed_once:
  assumes "eu_initialize matches subs t0 vms locals remotes pats s0 = Inr s"
    and "mset (map rq_vmId (concat (map (uv_vm \<circ> snd) us))) = mset (map fst (eu_vms s))"
    and "\<forall>vm\<in>set (concat (map (uv_vm \<circ> snd) us)). rsp_state (rq_response vm) = ACCEPTED"
  shows "\<exists>s1 s2. startup s = Inr s1 \<and> for_each (\<lambda>(t, u). handleVmUpdate t u) us s1 = Inr s2 \<and>
    mset (concat (map sent_apps (eu_out s2))) = mset (map (\<lambda>c. (service_name s0 c, rm_type c)) remotes)"
proof -
  note init = initialize_spec [OF assms(1)]
  obtain s1 where s1: "startup s = Inr s1" "eu_vms s1 = eu_vms s" "concat (map sent_apps (eu_out s1)) = []"
    using startup_spec [of s] init(2) by auto
  have ids: "set (map rq_vmId (concat (map (uv_vm \<circ> snd) us))) = set (map fst (eu_vms s))"
    using assms(2) by (metis set_mset_mset)
  have known: "map_of (eu_vms s1) (rq_vmId (vm_at x)) \<noteq> None \<and> rsp_state (rq_response (vm_at x)) = ACCEPTED \<and>
      (case x of (t, u, i) \<Rightarrow> i < length (uv_vm u))" if x: "x \<in> set (answers_in us)" for x
  proof -
    have "vm_at x \<in> set (map vm_at (answers_in us))" using x by simp
    then have v: "vm_at x \<in> set (concat (map (uv_vm \<circ> snd) us))" unfolding vm_at_answers .
    then have "rq_vmId (vm_at x) \<in> fst ` set (eu_vms s)" using ids by (metis image_eqI list.set_map)
    then have "map_of (eu_vms s1) (rq_vmId (vm_at x)) \<noteq> None" by (simp add: s1(2) map_of_eq_None_iff)
    then show ?thesis using v assms(3) x answers_in_range by (cases x) auto
  qed
  then obtain s2 where s2: "for_each (\<lambda>(t, u, i). deploy_vm t u i) (answers_in us) s1 = Inr s2"
    "concat (map sent_apps (eu_out s2)) = concat (map (\<lambda>x. services_of s1 (rq_vmId (vm_at x))) (answers_in us))"
    using deploy_list [of s1 "answers_in us"] init(1) s1(2,3) by auto
  have "map (\<lambda>x. services_of s1 (rq_vmId (vm_at x))) (answers_in us) =
      map (services_of s1) (map rq_vmId (concat (map (uv_vm \<circ> snd) us)))"
    unfolding vm_at_answers [symmetric] by simp
  then have "mset (concat (map sent_apps (eu_out s2))) = mset (concat (map (services_of s1) (map fst (eu_vms s))))"
    unfolding s2(2) using mset_concat_map [OF assms(2), of "services_of s1"] by (simp only:)
  also have "map (services_of s1) (map fst (eu_vms s)) = map (\<lambda>(k, v). map (\<lambda>a. (ea_name a, ea_type a)) (ev_apps v)) (eu_vms s)"
  proof -
    have "distinct (map fst (eu_vms s))" using init(1) by (simp add: map_ordered_def)
    then show ?thesis by (auto simp: services_of_def s1(2))
  qed
  finally have "mset (concat (map sent_apps (eu_out s2))) = mset (all_services (eu_vms s))"
    by (simp only: all_services_def)
  with init(3) s1(1) s2(1) show ?thesis by (simp only: updates_flat) blast
qed

text \<open>The request for the controller names the local applications in their order.\<close>

lemma fold_create_requests:
  fixes as :: "EdgeApp list"
  shows "ua_app (fold (\<lambda>a. createNewAppRequest (ea_name a) (ea_type a) t) as rq) =
    ua_app rq @ map (\<lambda>a. new_app (ea_name a) (ea_type a) t) as"
  by (induction as arbitrary: rq) (simp_all add: createNewAppRequest_def)

lemma local_request_apps:
  "ua_app (local_request s) = map (\<lambda>a. new_app (ea_name a) (ea_type a) 0) (eu_localApps s)"
  unfolding local_request_def fold_create_requests by (simp add: new_UserApp_def)

text \<open>The process of a local application is the place of the first one of that name.\<close>

lemma local_process:
  assumes "l \<in> ea_name ` set (eu_localApps s)"
  shows "\<exists>j. findRequestIndex l (local_request s) = int j \<and> j < length (eu_localApps s) \<and> ea_name (eu_localApps s ! j) = l"
proof -
  let ?as = "map (\<lambda>a. new_app (ea_name a) (ea_type a) 0) (eu_localApps s)"
  have "\<exists>x\<in>set ?as. app_name x = l" using assms by (auto simp: new_app_def)
  then obtain j where j: "first_index (\<lambda>a. app_name a = l) ?as = Some j"
    by (cases "first_index (\<lambda>a. app_name a = l) ?as") (auto simp: first_index_None)
  have len: "j < length (eu_localApps s)" using first_index_less [OF j] by simp
  moreover have "ea_name (eu_localApps s ! j) = l" using first_index_nth [OF j] len by (simp add: new_app_def)
  ultimately show ?thesis using j by (intro exI [of _ j]) (simp add: findRequestIndex_def local_request_apps)
qed

text \<open>A concrete area: one machine, two remote applications and a local one that depends on the second.\<close>

definition edge_blank :: EdgeUser where
  "edge_blank = \<lparr>eu_id = 3, eu_fullName = ''user'', eu_fullPath = ''net.user'', eu_queueGate = 7, eu_zone = ''z'',
     eu_controllerHostName = ''localhost'', eu_uniqueServices = False, eu_userId = [], eu_vms = [], eu_localApps = [],
     eu_sensors = [], eu_startAt = None, eu_out = []\<rparr>"

definition edge_area :: EdgeUser where
  "edge_area = edge_blank\<lparr>eu_userId := generateUniqueId ''user'' edge_blank,
     eu_vms := [(generateUniqueId ''vm'' edge_blank, \<lparr>ev_name = ''vm'', ev_type = ''t'', ev_state = PENDING, ev_apps =
        [\<lparr>ea_name = ''db'', ea_type = ''D'', ea_dependant = [], ea_state = PENDING\<rparr>,
         \<lparr>ea_name = ''srv'', ea_type = ''S'', ea_dependant = ''ctl'', ea_state = PENDING\<rparr>]\<rparr>)],
     eu_localApps := [\<lparr>ea_name = ''ctl'', ea_type = ''C'', ea_dependant = [], ea_state = PENDING\<rparr>],
     eu_sensors := [''s1''], eu_startAt := Some 1\<rparr>"

lemma edge_area_init:
  "eu_initialize (=) [''s1''] 1 [\<lparr>vc_name = ''vm'', vc_type = ''t''\<rparr>]
     [\<lparr>lc_name = ''ctl'', lc_type = ''C'', lc_dependsOn = Some ''srv''\<rparr>]
     [\<lparr>rm_name = ''db'', rm_type = ''D'', rm_platform = ''vm''\<rparr>, \<lparr>rm_name = ''srv'', rm_type = ''S'', rm_platform = ''vm''\<rparr>]
     [''s1''] edge_blank = Inr edge_area"
  by (simp add: eu_initialize_def eu_load_vm_def load_local_def load_remote_def find_sensors_def edge_area_def
      edge_blank_def new_EdgeVm_def new_EdgeApp_def generateUniqueId_def Let_def)

definition edge_accept :: SM_UserVM where
  "edge_accept = (new_UserVm [\<lparr>rq_times = edge_times, rq_vmType = ''t'', rq_vmId = generateUniqueId ''vm'' edge_blank,
     rq_response = \<lparr>rsp_startTime = 1, rsp_price = 0, rsp_state = ACCEPTED, rsp_ip = ''h1''\<rparr>\<rparr>])
     \<lparr>uv_domain := ''dc.org''\<rparr>"

theorem remote_apps_deployed_once_witness:
  "\<exists>s1 s2. startup edge_area = Inr s1 \<and> for_each (\<lambda>(t, u). handleVmUpdate t u) [(5, edge_accept)] s1 = Inr s2 \<and>
     mset (concat (map sent_apps (eu_out s2))) = {#(''db'', ''D''), (''srv'', ''S'')#}"
proof -
  have h: "mset (map rq_vmId (concat (map (uv_vm \<circ> snd) [(5 :: rat, edge_accept)]))) = mset (map fst (eu_vms edge_area))"
    "\<forall>vm\<in>set (concat (map (uv_vm \<circ> snd) [(5 :: rat, edge_accept)])). rsp_state (rq_response vm) = ACCEPTED"
    by (simp_all add: edge_accept_def edge_area_def new_UserVm_def)
  from remote_apps_deployed_once [OF edge_area_init h] show ?thesis
    by (simp add: service_name_def edge_blank_def)
qed

end
