(* ===== verification/EdgeDeploy.thy ===== *)
theory EdgeDeploy
  imports EdgeUser
begin

text \<open>
  The edge user and the controller of its area together: what \<open>os/hypervisors/EdgeHypervisor\<close> does with the
  applications the user sends it, the processes that come out of it, and the way the name of a
  deployed service takes to the process that depends on it.
\<close>

section \<open>Starting applications on an empty machine\<close>

text \<open>The first \<open>i\<close> slots of a running machine are taken, the others free.\<close>

definition taken_up_to :: "nat \<Rightarrow> 'c VmControlBlock \<Rightarrow> bool" where
  "taken_up_to i b \<longleftrightarrow> block_isRunning b \<and> (\<forall>j<length (apps b). app_isFree (apps b ! j) \<longleftrightarrow> i \<le> j)"

definition process_entry :: "int \<Rightarrow> nat \<Rightarrow> AppControlBlock" where
  "process_entry c i = \<lparr>acb_pid = int i, acb_vmId = c, deploymentIndex = int i\<rparr>"

lemma vm_block_with_app:
  "0 \<le> c \<Longrightarrow> c < int (length (vmTable t)) \<Longrightarrow>
    vm_block c (with_app c p a t) = (vm_block c t)\<lparr>apps := (apps (vm_block c t))[nat p := a]\<rparr>"
  "length (vmTable (with_app c p a t)) = length (vmTable t)"
  by (simp_all add: vm_block_def with_app_def set_block_def)

lemma allocate_next:
  assumes "0 \<le> c" "c < int (length (vmTable t))" "taken_up_to i (vm_block c t)" "i < length (apps (vm_block c t))"
  shows "allocateApp c (int i) t = Inr (int i, with_app c (int i) (process_entry c i) t)"
    and "taken_up_to (Suc i) (vm_block c (with_app c (int i) (process_entry c i) t))"
proof -
  let ?b = "vm_block c t"
  have "first_index app_isFree (apps ?b) = Some i"
    using assms(3,4) by (auto simp: first_index_Some taken_up_to_def)
  moreover have "app_initialize c (int i) (int i) x = process_entry c i" for x
    by (cases x) (simp add: app_initialize_def process_entry_def)
  ultimately show "allocateApp c (int i) t = Inr (int i, with_app c (int i) (process_entry c i) t)"
    using assms(1-3) by (simp add: allocateApp_def vm_in_bounds_def taken_up_to_def with_app_def Let_def)
  show "taken_up_to (Suc i) (vm_block c (with_app c (int i) (process_entry c i) t))"
    using assms by (auto simp: taken_up_to_def vm_block_with_app block_isRunning_def app_isFree_def
        process_entry_def nth_list_update)
qed

lemma start_apps_fresh:
  assumes "0 \<le> c" "c < int (length (vmTable (hyp_table h)))" "taken_up_to i (vm_block c (hyp_table h))"
    and "i + length as \<le> length (apps (vm_block c (hyp_table h)))" "\<forall>a\<in>set as. search (app_type a) \<noteq> None"
  shows "\<exists>h'. start_apps search c i as h = Inr h' \<and>
    hyp_out h' = hyp_out h @ map (\<lambda>j. BuildApp c (int (i + j)) (app_type (as ! j)) (app_name (as ! j))) [0..<length as] \<and>
    (\<forall>j<length as. getAppControlBlock c (int (i + j)) (hyp_table h') = Inr (process_entry c (i + j))) \<and>
    (\<forall>k<i. getAppControlBlock c (int k) (hyp_table h') = getAppControlBlock c (int k) (hyp_table h)) \<and>
    request (vm_block c (hyp_table h')) = request (vm_block c (hyp_table h)) \<and>
    globalToLocalVmIdMap (hyp_table h') = globalToLocalVmIdMap (hyp_table h) \<and>
    length (vmTable (hyp_table h')) = length (vmTable (hyp_table h))"
  using assms
proof (induction as arbitrary: i h)
  case Nil
  then show ?case by simp
next
  case (Cons a as)
  let ?t = "with_app c (int i) (process_entry c i) (hyp_table h)"
  let ?h = "emit_out (BuildApp c (int i) (app_type a) (app_name a)) (h\<lparr>hyp_table := ?t\<rparr>)"
  have i: "i < length (apps (vm_block c (hyp_table h)))" using Cons.prems(4) by simp
  note next_slot = allocate_next [OF Cons.prems(1-3) i]
  have t: "hyp_table ?h = ?t" "hyp_out ?h = hyp_out h @ [BuildApp c (int i) (app_type a) (app_name a)]"
    by (simp_all add: emit_out_def)
  note blk = vm_block_with_app(1) [OF Cons.prems(1,2)]
  have slot: "getAppControlBlock c (int k) ?t =
      (if k = i then Inr (process_entry c i) else getAppControlBlock c (int k) (hyp_table h))" for k
    using getAppControlBlock_with_app [OF Cons.prems(1,2), of "int i"] i by simp
  obtain ty where "search (app_type a) = Some ty" using Cons.prems(5) by auto
  then have "start_apps search c i (a # as) h = start_apps search c (Suc i) as ?h"
    using next_slot(1) by simp
  moreover have "\<exists>h'. start_apps search c (Suc i) as ?h = Inr h' \<and>
    hyp_out h' = hyp_out ?h @ map (\<lambda>j. BuildApp c (int (Suc i + j)) (app_type (as ! j)) (app_name (as ! j))) [0..<length as] \<and>
    (\<forall>j<length as. getAppControlBlock c (int (Suc i + j)) (hyp_table h') = Inr (process_entry c (Suc i + j))) \<and>
    (\<forall>k<Suc i. getAppControlBlock c (int k) (hyp_table h') = getAppControlBlock c (int k) (hyp_table ?h)) \<and>
    request (vm_block c (hyp_table h')) = request (vm_block c (hyp_table ?h)) \<and>
    globalToLocalVmIdMap (hyp_table h') = globalToLocalVmIdMap (hyp_table ?h) \<and>
    length (vmTable (hyp_table h')) = length (vmTable (hyp_table ?h))"
    by (rule Cons.IH) (use Cons.prems next_slot(2) in \<open>simp_all add: t(1) blk vm_block_with_app(2)\<close>)
  ultimately obtain h' where h': "start_apps search c i (a # as) h = Inr h'"
    "hyp_out h' = hyp_out ?h @ map (\<lambda>j. BuildApp c (int (Suc i + j)) (app_type (as ! j)) (app_name (as ! j))) [0..<length as]"
    "\<forall>j<length as. getAppControlBlock c (int (Suc i + j)) (hyp_table h') = Inr (process_entry c (Suc i + j))"
    "\<forall>k<Suc i. getAppControlBlock c (int k) (hyp_table h') = getAppControlBlock c (int k) ?t"
    "request (vm_block c (hyp_table h')) = request (vm_block c ?t)"
    "globalToLocalVmIdMap (hyp_table h') = globalToLocalVmIdMap ?t"
    "length (vmTable (hyp_table h')) = length (vmTable ?t)"
    unfolding t(1) by auto
  have outs: "hyp_out h' = hyp_out h @ map (\<lambda>j. BuildApp c (int (i + j)) (app_type ((a # as) ! j)) (app_name ((a # as) ! j)))
      [0..<length (a # as)]"
    unfolding h'(2) t(2) by (simp add: map_upt_Suc del: upt_Suc)
  have mine: "getAppControlBlock c (int (i + j)) (hyp_table h') = Inr (process_entry c (i + j))" if "j < length (a # as)" for j
    using h'(3,4) slot [of i] that by (cases j) auto
  have low: "getAppControlBlock c (int k) (hyp_table h') = getAppControlBlock c (int k) (hyp_table h)" if "k < i" for k
    using h'(4) slot [of k] that by simp
  show ?case
    using h'(1,5-7) outs mine low Cons.prems(1,2)
    by (intro exI [of _ h']) (simp add: blk vm_block_with_app(2), simp add: with_app_def set_block_def)
qed

section \<open>The controller of an area\<close>

lemma first_index_all: "xs \<noteq> [] \<Longrightarrow> P (hd xs) \<Longrightarrow> first_index P xs = Some 0"
  by (cases xs) (auto simp: first_index_Some)

text \<open>An edge node boots with its only machine allocated, all slots of it free.\<close>

lemma edge_boot:
  assumes "edge_start host h0 = Inr h" "hyp_table h0 = table_initialize n k"
  shows "globalToLocalVmIdMap (hyp_table h) host = Some 0" "0 < length (vmTable (hyp_table h))"
    "taken_up_to 0 (vm_block 0 (hyp_table h))" "length (apps (vm_block 0 (hyp_table h))) = k" "hyp_out h = hyp_out h0"
proof -
  let ?b = "fresh_block\<lparr>apps := replicate k fresh_app\<rparr>"
  let ?t = "table_initialize n k :: any_call VmControlTable"
  have n: "n \<noteq> 0"
  proof
    assume "n = 0"
    then have "allocateVm None [] ?t = (- 1, ?t)" by (simp add: allocateVm_def table_initialize_def)
    then show False using assms by (simp add: edge_start_def createMapping_def vm_in_bounds_def)
  qed
  then have f: "first_index block_isFree (vmTable ?t) = Some 0"
    by (intro first_index_all) (simp_all add: table_initialize_def block_isFree_def fresh_block_def)
  let ?r = "setRunning (block_initialize 0 None [] k ?b)"
  have "allocateVm None [] ?t = (0, set_block 0 ?r ?t)"
    using f n by (simp add: allocateVm_def table_initialize_def)
  then have h: "h = h0\<lparr>hyp_table := (set_block 0 ?r ?t)\<lparr>globalToLocalVmIdMap := [host \<mapsto> 0],
      localToGlobalVmIdMap := [0 \<mapsto> host]\<rparr>\<rparr>"
    using assms n
    by (simp add: edge_start_def createMapping_def vm_in_bounds_def set_block_def and_then_eq_Inr)
      (simp add: table_initialize_def)
  have b: "vm_block 0 (hyp_table h) = ?r" using n by (simp add: h vm_block_def set_block_def table_initialize_def)
  have a: "apps ?r = replicate k fresh_app" by (simp add: setRunning_def block_initialize_def resize_to_def)
  show "globalToLocalVmIdMap (hyp_table h) host = Some 0" "hyp_out h = hyp_out h0" by (simp_all add: h)
  show "0 < length (vmTable (hyp_table h))" using n by (simp add: h set_block_def table_initialize_def)
  show "length (apps (vm_block 0 (hyp_table h))) = k" by (simp only: b a length_replicate)
  show "taken_up_to 0 (vm_block 0 (hyp_table h))"
    unfolding b taken_up_to_def a
    by (simp add: block_isRunning_def setRunning_def app_isFree_def fresh_app_def)
qed

lemma local_request_machine: "ua_vmId (local_request s) = eu_controllerHostName s"
proof -
  have "ua_vmId (fold (\<lambda>a. createNewAppRequest (ea_name a) (ea_type a) t) as rq) = ua_vmId rq"
    for as :: "EdgeApp list" and t rq
    by (induction as arbitrary: rq) (simp_all add: createNewAppRequest_def)
  then show ?thesis by (simp add: local_request_def)
qed

text \<open>The controller gets the local applications of its user.\<close>

lemma local_apps_started:
  assumes "globalToLocalVmIdMap (hyp_table h) (eu_controllerHostName s) = Some 0" "0 < length (vmTable (hyp_table h))"
    and "taken_up_to 0 (vm_block 0 (hyp_table h))" "length (eu_localApps s) \<le> length (apps (vm_block 0 (hyp_table h)))"
    and "\<forall>x\<in>set (eu_localApps s). search (ea_type x) \<noteq> None"
  shows "\<exists>h'. handleAppRequest search (local_request s) h = Inr h' \<and>
    hyp_out h' = hyp_out h @ map (\<lambda>j. BuildApp 0 (int j) (ea_type (eu_localApps s ! j)) (ea_name (eu_localApps s ! j)))
      [0..<length (eu_localApps s)] \<and>
    (\<forall>j<length (eu_localApps s). getAppControlBlock 0 (int j) (hyp_table h') = Inr (process_entry 0 j)) \<and>
    request (vm_block 0 (hyp_table h')) = To (local_request s) \<and>
    globalToLocalVmIdMap (hyp_table h') (eu_controllerHostName s) = Some 0 \<and> 0 < length (vmTable (hyp_table h'))"
proof -
  let ?rq = "local_request s" and ?as = "ua_app (local_request s)"
  let ?h = "h\<lparr>hyp_table := set_block 0 ((vm_block 0 (hyp_table h))\<lparr>request := To ?rq\<rparr>) (hyp_table h)\<rparr>"
  have blk: "vm_block 0 (hyp_table ?h) = (vm_block 0 (hyp_table h))\<lparr>request := To ?rq\<rparr>"
    using assms(2) by (simp add: vm_block_def set_block_def)
  have as: "length ?as = length (eu_localApps s)" "\<forall>a\<in>set ?as. search (app_type a) \<noteq> None"
    "\<And>j. j < length (eu_localApps s) \<Longrightarrow> app_type (?as ! j) = ea_type (eu_localApps s ! j) \<and>
        app_name (?as ! j) = ea_name (eu_localApps s ! j)"
    using assms(5) by (simp_all add: local_request_apps new_app_def)
  have "handleAppRequest search ?rq h = start_apps search 0 0 ?as ?h"
    using assms(1,2)
    by (simp add: handleAppRequest_def getLocalVmId_def local_request_machine on_table_def
        associateDeploymentToVm_def vm_in_bounds_def)
  moreover have "taken_up_to 0 (vm_block 0 (hyp_table ?h))"
    "0 + length ?as \<le> length (apps (vm_block 0 (hyp_table ?h)))" "0 < int (length (vmTable (hyp_table ?h)))"
    unfolding blk using assms(2-4) as(1) by (simp_all add: taken_up_to_def block_isRunning_def set_block_def)
  then have "\<exists>h'. start_apps search 0 0 ?as ?h = Inr h' \<and>
    hyp_out h' = hyp_out ?h @ map (\<lambda>j. BuildApp 0 (int (0 + j)) (app_type (?as ! j)) (app_name (?as ! j))) [0..<length ?as] \<and>
    (\<forall>j<length ?as. getAppControlBlock 0 (int (0 + j)) (hyp_table h') = Inr (process_entry 0 (0 + j))) \<and>
    (\<forall>k<0. getAppControlBlock 0 (int k) (hyp_table h') = getAppControlBlock 0 (int k) (hyp_table ?h)) \<and>
    request (vm_block 0 (hyp_table h')) = request (vm_block 0 (hyp_table ?h)) \<and>
    globalToLocalVmIdMap (hyp_table h') = globalToLocalVmIdMap (hyp_table ?h) \<and>
    length (vmTable (hyp_table h')) = length (vmTable (hyp_table ?h))"
    by (intro start_apps_fresh as(2)) (rule order_refl)
  ultimately obtain h' where h': "handleAppRequest search ?rq h = Inr h'"
    "hyp_out h' = hyp_out ?h @ map (\<lambda>j. BuildApp 0 (int (0 + j)) (app_type (?as ! j)) (app_name (?as ! j))) [0..<length ?as]"
    "\<forall>j<length ?as. getAppControlBlock 0 (int (0 + j)) (hyp_table h') = Inr (process_entry 0 (0 + j))"
    "request (vm_block 0 (hyp_table h')) = request (vm_block 0 (hyp_table ?h))"
    "globalToLocalVmIdMap (hyp_table h') = globalToLocalVmIdMap (hyp_table ?h)"
    "length (vmTable (hyp_table h')) = length (vmTable (hyp_table ?h))"
    by auto
  have outs: "hyp_out h' = hyp_out h @ map (\<lambda>j. BuildApp 0 (int j) (ea_type (eu_localApps s ! j)) (ea_name (eu_localApps s ! j)))
      [0..<length (eu_localApps s)]"
    using h'(2) as(1,3) by simp
  have req: "request (vm_block 0 (hyp_table h')) = To ?rq" using h'(4) unfolding blk by simp
  have map0: "globalToLocalVmIdMap (hyp_table h') (eu_controllerHostName s) = Some 0"
    "0 < length (vmTable (hyp_table h'))"
    using h'(5,6) assms(1,2) by (simp_all add: set_block_def)
  have "\<forall>j<length (eu_localApps s). getAppControlBlock 0 (int j) (hyp_table h') = Inr (process_entry 0 j)"
    using h'(3) as(1) by simp
  with h'(1) outs req map0 show ?thesis by (intro exI [of _ h'] conjI)
qed

section \<open>The processes of a node\<close>

text \<open>
  The process modules of a node by machine and process number: \<open>ApplicationBuilder\<close> makes the module of the
  type of an application (\<open>build\<close>; \<open>None\<close> for a module of another class than \<open>IotApplication\<close>) in its
  place and initializes it, the end of a process removes it, and a parameter that the hypervisor sets is
  announced to the module in that place.
\<close>

type_synonym 'ip processes = "int \<Rightarrow> int \<Rightarrow> 'ip IotApplication option"

definition put_process :: "int \<Rightarrow> int \<Rightarrow> 'ip IotApplication option \<Rightarrow> 'ip processes \<Rightarrow> 'ip processes" where
  "put_process v p b P = P(v := (P v)(p := b))"

fun node_effect ::
  "(string \<Rightarrow> 'ip IotApplication option) \<Rightarrow> 'ip list \<Rightarrow> rat \<Rightarrow> hyp_out \<Rightarrow> 'ip processes \<Rightarrow> 'ip processes outcome" where
  "node_effect build found now (BuildApp v p ty name) P =
     Inr (put_process v p (map_option (\<lambda>b. ia_initialize now found
       (b\<lparr>ap_vmId := of_int v, ap_pid := of_int p, ap_appInstance := name\<rparr>)) (build ty)) P)"
| "node_effect build found now (DeleteApp v p) P = Inr (put_process v p None P)"
| "node_effect build found now (SetParam v p name x) P =
     (case P v p of
        None \<Rightarrow> Inl (Undefined ''parameter of no application'')
      | Some b \<Rightarrow> and_then (ia_handleParameterChange name x b) (\<lambda>b'. Inr (put_process v p (Some b') P)))"
| "node_effect build found now _ P = Inr P"

text \<open>The timer of a process goes off.\<close>

definition process_starts ::
  "('ip::linorder, 'ip IotApplication) app_callback \<Rightarrow> 'ip \<Rightarrow> rat \<Rightarrow> int \<Rightarrow> int \<Rightarrow> 'ip processes \<Rightarrow> 'ip processes outcome" where
  "process_starts cb unspecified now v p P =
     (case P v p of
        None \<Rightarrow> Inr P
      | Some b \<Rightarrow> and_then (app_handleMessage cb unspecified now (SelfMsg EventTimer) b)
          (\<lambda>b'. Inr (put_process v p (Some b') P)))"

text \<open>The names an application has asked its resolver for.\<close>

fun asked :: "'ip app_out list \<Rightarrow> string list" where
  "asked [] = []"
| "asked (AskResolver d # es) = d # asked es"
| "asked (_ # es) = asked es"

lemma asked_append: "asked (xs @ ys) = asked xs @ asked ys"
  by (induction xs rule: asked.induct) simp_all

definition built_process :: "'ip list \<Rightarrow> rat \<Rightarrow> nat \<Rightarrow> string \<Rightarrow> 'ip IotApplication \<Rightarrow> 'ip IotApplication" where
  "built_process found now j name b =
     ia_initialize now found (b\<lparr>ap_vmId := 0, ap_pid := of_nat j, ap_appInstance := name\<rparr>)"

lemma processes_built:
  assumes "n \<le> length xs"
  shows "for_each (node_effect build found now) (map (\<lambda>j. BuildApp 0 (int j) (ty (xs ! j)) (nm (xs ! j))) [0..<n]) (\<lambda>_ _. None) =
    Inr (\<lambda>v p. if v = 0 \<and> 0 \<le> p \<and> p < int n
      then map_option (built_process found now (nat p) (nm (xs ! nat p))) (build (ty (xs ! nat p))) else None)"
  using assms
proof (induction n)
  case 0
  then show ?case by (auto simp: fun_eq_iff)
next
  case (Suc n)
  then show ?case
    by (auto simp: for_each_append put_process_def fun_eq_iff built_process_def less_Suc_eq
        intro!: option.map_cong)
qed

text \<open>Whether the service is named before or after the process has started, it is asked for once.\<close>

lemma process_asks:
  assumes "ap_resolver b" "route \<noteq> []" "b0 = built_process found t j name b"
  shows "\<exists>b1 b2. app_handleMessage (ia_callback f g fd) un t1 (SelfMsg EventTimer) b0 = Inr b1 \<and>
      ia_handleParameterChange ''serviceName'' route b1 = Inr b2 \<and> asked (ap_out b2) = [route]"
    and "\<exists>b1 b2. ia_handleParameterChange ''serviceName'' route b0 = Inr b1 \<and>
      app_handleMessage (ia_callback f g fd) un t1 (SelfMsg EventTimer) b1 = Inr b2 \<and> asked (ap_out b2) = [route]"
  using assms(1,2)
  by (simp_all add: assms(3) built_process_def ia_initialize_def app_base_initialize_def scheduleExecStart_def
      app_handleMessage_def ia_callback_def ia_processSelfMessage_def self_kind_def app_open_def app_emit_def
      ia_handleParameterChange_def app_resolve_def Let_def)

lemma startup_sends:
  assumes "eu_localApps s \<noteq> []"
  shows "\<exists>os. startup s = Inr (s\<lparr>eu_out := eu_out s @ os\<rparr>) \<and> AppsToController (local_request s) \<in> set os"
proof -
  obtain os where os: "for_each ask_for_vm (eu_vms s) s = Inr (s\<lparr>eu_out := eu_out s @ os\<rparr>)"
    using ask_all by blast
  have fold_on: "fold (\<lambda>x. eu_emit (SensorPower x on)) xs s' = s'\<lparr>eu_out := eu_out s' @ map (\<lambda>x. SensorPower x on) xs\<rparr>"
    for on xs s'
    by (induction xs arbitrary: s') (simp_all add: eu_emit_def)
  have "local_request (s\<lparr>eu_out := x\<rparr>) = local_request s" for x by (simp add: local_request_def)
  then show ?thesis
    using assms os
    by (simp add: startup_def Let_def turnSensorsOn_def set_sensors_def fold_on)
      (auto simp: eu_emit_def intro!: exI)
qed

section \<open>A service and its dependant\<close>

text \<open>C37.  A service reaches the process that depends on it.  The controller of the area boots, the user starts
  and sends it its local applications, and the hypervisor makes a process of each: the process of local
  application number \<open>j\<close> has the process number \<open>j\<close>.  When the machine of a remote application is accepted, the
  user tells the controller its name in the domain of the data centre, for the local application that depends
  on it; whatever the hypervisor has done in between that leaves its table as it was, it finds the
  first local application of that name, its number is that of the running process of the application, and
  the name is set there.  That process then asks its resolver for exactly that service, once, whether it is told
  before or after its own start.
\<close>

theorem service_reaches_dependant:
  assumes "map_ordered (eu_vms s)" "uv_vm u = [vm]" "rsp_state (rq_response vm) = ACCEPTED"
    and "map_of (eu_vms s) (rq_vmId vm) = Some v" "a \<in> set (ev_apps v)" "ea_dependant a = l" "l \<noteq> []"
    and "l \<in> ea_name ` set (eu_localApps s)"
    and boot: "hyp_table h0 = table_initialize n k" "edge_start (eu_controllerHostName s) h0 = Inr h"
    and room: "length (eu_localApps s) \<le> k" "\<forall>x\<in>set (eu_localApps s). search (ea_type x) \<noteq> None"
    and modules: "\<forall>x\<in>set (eu_localApps s). ea_name x \<noteq> l \<or> (\<exists>b. build (ea_type x) = Some b \<and> ap_resolver b)"
  shows "\<exists>s1 s2 settings h1 j P P1 P2. let route = ea_name a @ ''.'' @ uv_domain u in
    startup s = Inr s1 \<and> AppsToController (local_request s) \<in> set (eu_out s1) \<and>
    hyp_handleMessage alloc dealloc vm_of search t0 (AppReq (local_request s)) h = Inr h1 \<and>
    for_each (node_effect build found t0) (drop (length (hyp_out h)) (hyp_out h1)) (\<lambda>_ _. None) = Inr P \<and>
    handleVmUpdate t1 u s1 = Inr s2 \<and> SettingsToController settings \<in> set (eu_out s2) \<and>
    j < length (eu_localApps s) \<and> ea_name (eu_localApps s ! j) = l \<and>
    getAppControlBlock 0 (int j) (hyp_table h1) = Inr \<lparr>acb_pid = int j, acb_vmId = 0, deploymentIndex = int j\<rparr> \<and>
    map_option (\<lambda>b. (ap_vmId b, ap_pid b, ap_appInstance b)) (P 0 (int j)) = Some (0, of_nat j, l) \<and>
    (\<forall>h2. hyp_table h2 \<noteq> hyp_table h1 \<or>
       hyp_handleMessage alloc dealloc vm_of search t1 (Settings settings) h2 =
         Inr (emit_out (SetParam 0 (int j) ''serviceName'' route) h2)) \<and>
    and_then (node_effect build found t1 (SetParam 0 (int j) ''serviceName'' route) P)
      (process_starts (ia_callback f g fd) un t2 0 (int j)) = Inr P1 \<and>
    map_option (\<lambda>b. asked (ap_out b)) (P1 0 (int j)) = Some [route] \<and>
    and_then (process_starts (ia_callback f g fd) un t2 0 (int j) P)
      (node_effect build found t1 (SetParam 0 (int j) ''serviceName'' route)) = Inr P2 \<and>
    map_option (\<lambda>b. asked (ap_out b)) (P2 0 (int j)) = Some [route]"
proof -
  let ?route = "ea_name a @ ''.'' @ uv_domain u"
  let ?st = "\<lparr>as_vmId = eu_controllerHostName s, as_appName = l, as_parameters = [(''serviceName'', ?route)]\<rparr>"
  let ?set = "SetParam 0" and ?n = "length (eu_localApps s)"
  have "eu_localApps s \<noteq> []" using assms(8) by auto
  then obtain os where s1: "startup s = Inr (s\<lparr>eu_out := eu_out s @ os\<rparr>)" "AppsToController (local_request s) \<in> set os"
    using startup_sends by blast
  let ?s1 = "s\<lparr>eu_out := eu_out s @ os\<rparr>"
  have v: "map_of (eu_vms ?s1) (rq_vmId (uv_vm u ! 0)) = Some v" "0 < length (uv_vm u)"
    "rsp_state (rq_response (uv_vm u ! 0)) = ACCEPTED" "map_ordered (eu_vms ?s1)" using assms(1-4) by simp_all
  obtain s2 m where s2: "deploy_vm t1 u 0 ?s1 = Inr s2"
    "eu_out s2 = eu_out ?s1 @ announcements ?s1 (uv_domain u) (ev_apps v) @ [ToQueue m]"
    using deploy_vm_accepted [OF v(4,1-3), of t1] by blast
  have up: "handleVmUpdate t1 u ?s1 = Inr s2" using s2(1) assms(2) by (simp add: handleVmUpdate_def)
  have "SettingsToController ?st \<in> set (announcements s (uv_domain u) (ev_apps v))"
    using assms(5-7) by (auto simp: announcements_def)
  then have st: "SettingsToController ?st \<in> set (eu_out s2)" using s2(2) by simp
  obtain j where j: "findRequestIndex l (local_request s) = int j" "j < ?n" "ea_name (eu_localApps s ! j) = l"
    using local_process [OF assms(8)] by blast
  note up_h = edge_boot [OF boot(2,1)]
  have room': "?n \<le> length (apps (vm_block 0 (hyp_table h)))" using room(1) up_h(4) by simp
  obtain h1 where h1: "handleAppRequest search (local_request s) h = Inr h1"
    "hyp_out h1 = hyp_out h @ map (\<lambda>j. BuildApp 0 (int j) (ea_type (eu_localApps s ! j)) (ea_name (eu_localApps s ! j))) [0..<?n]"
    "\<forall>j<?n. getAppControlBlock 0 (int j) (hyp_table h1) = Inr (process_entry 0 j)"
    "request (vm_block 0 (hyp_table h1)) = To (local_request s)"
    "globalToLocalVmIdMap (hyp_table h1) (eu_controllerHostName s) = Some 0" "0 < length (vmTable (hyp_table h1))"
    using local_apps_started [OF up_h(1-3) room' room(2)] by blast
  have entry: "getAppControlBlock 0 (int j) (hyp_table h1) = Inr \<lparr>acb_pid = int j, acb_vmId = 0, deploymentIndex = int j\<rparr>"
    using h1(3) j(2) by (simp add: process_entry_def)
  have told: "hyp_table h2 \<noteq> hyp_table h1 \<or> hyp_handleMessage alloc dealloc vm_of search t1 (Settings ?st) h2 =
      Inr (emit_out (SetParam 0 (int j) ''serviceName'' ?route) h2)" for h2
    using h1(4-6) j(1)
    by (simp add: hyp_handleMessage_def handleAppSettings_def getLocalVmId_def getPidFromServiceName_def vm_in_bounds_def)
  obtain P where P: "for_each (node_effect build found t0) (drop (length (hyp_out h)) (hyp_out h1)) (\<lambda>_ _. None) = Inr P"
    "\<And>i. i < ?n \<Longrightarrow> P 0 (int i) = map_option (built_process found t0 i (ea_name (eu_localApps s ! i)))
       (build (ea_type (eu_localApps s ! i)))"
    using processes_built [of ?n "eu_localApps s" build found t0 ea_type ea_name] by (simp add: h1(2))
  obtain b where b: "build (ea_type (eu_localApps s ! j)) = Some b" "ap_resolver b"
    using modules j(2,3) nth_mem [OF j(2)] by blast
  let ?b = "built_process found t0 j l b"
  have Pj: "P 0 (int j) = Some ?b" using P(2) [OF j(2)] b(1) j(3) by simp
  have idb: "(ap_vmId ?b, ap_pid ?b, ap_appInstance ?b) = (0, of_nat j, l)"
    by (simp add: built_process_def ia_initialize_def app_base_initialize_def scheduleExecStart_def)
  have route: "?route \<noteq> []" by simp
  obtain b1 b2 where late: "app_handleMessage (ia_callback f g fd) un t2 (SelfMsg EventTimer) ?b = Inr b1"
    "ia_handleParameterChange ''serviceName'' ?route b1 = Inr b2" "asked (ap_out b2) = [?route]"
    using process_asks(1) [OF b(2) route refl] by blast
  obtain c1 c2 where early: "ia_handleParameterChange ''serviceName'' ?route ?b = Inr c1"
    "app_handleMessage (ia_callback f g fd) un t2 (SelfMsg EventTimer) c1 = Inr c2" "asked (ap_out c2) = [?route]"
    using process_asks(2) [OF b(2) route refl] by blast
  let ?P1 = "put_process 0 (int j) (Some c2) (put_process 0 (int j) (Some c1) P)"
  let ?P2 = "put_process 0 (int j) (Some b2) (put_process 0 (int j) (Some b1) P)"
  have P1: "and_then (node_effect build found t1 (SetParam 0 (int j) ''serviceName'' ?route) P)
      (process_starts (ia_callback f g fd) un t2 0 (int j)) = Inr ?P1"
    "map_option (\<lambda>b. asked (ap_out b)) (?P1 0 (int j)) = Some [?route]"
    using early by (simp_all add: Pj process_starts_def, simp_all add: put_process_def)
  have P2: "and_then (process_starts (ia_callback f g fd) un t2 0 (int j) P)
      (node_effect build found t1 (SetParam 0 (int j) ''serviceName'' ?route)) = Inr ?P2"
    "map_option (\<lambda>b. asked (ap_out b)) (?P2 0 (int j)) = Some [?route]"
    using late by (simp_all add: Pj process_starts_def, simp_all add: put_process_def)
  have hm: "hyp_handleMessage alloc dealloc vm_of search t0 (AppReq (local_request s)) h = Inr h1"
    using h1(1) by (simp add: hyp_handleMessage_def)
  have idP: "map_option (\<lambda>b. (ap_vmId b, ap_pid b, ap_appInstance b)) (P 0 (int j)) = Some (0, of_nat j, l)"
    using idb by (simp add: Pj)
  have out: "AppsToController (local_request s) \<in> set (eu_out ?s1)" using s1(2) by simp
  show ?thesis
    unfolding Let_def
    by (rule exI [of _ ?s1], rule exI [of _ s2], rule exI [of _ ?st], rule exI [of _ h1], rule exI [of _ j],
        rule exI [of _ P], rule exI [of _ ?P1], rule exI [of _ ?P2])
      (intro conjI allI; fact s1(1) out hm P(1) up st j(2,3) entry idP told P1 P2)
qed

text \<open>The number the hypervisor looks up is the place of the application in the request last associated with
  the machine, not a process number: on a machine that still runs a process of an earlier request, the only
  application of a new one gets process 1, and its parameters go to process 0.\<close>

lemma request_index_is_no_pid:
  assumes "globalToLocalVmIdMap (hyp_table h) (ua_vmId rq) = Some 0" "0 < length (vmTable (hyp_table h))"
    and "taken_up_to 1 (vm_block 0 (hyp_table h))" "1 < length (apps (vm_block 0 (hyp_table h)))"
    and "ua_app rq = [ap]" "search (app_type ap) \<noteq> None"
  shows "\<exists>h'. handleAppRequest search rq h = Inr h' \<and>
    hyp_out h' = hyp_out h @ [BuildApp 0 1 (app_type ap) (app_name ap)] \<and>
    getPidFromServiceName 0 (app_name ap) (hyp_table h') = Inr 0"
proof -
  let ?t = "set_block 0 ((vm_block 0 (hyp_table h))\<lparr>request := To rq\<rparr>) (hyp_table h)"
  have blk: "vm_block 0 ?t = (vm_block 0 (hyp_table h))\<lparr>request := To rq\<rparr>" "length (vmTable ?t) = length (vmTable (hyp_table h))"
    using assms(2) by (simp_all add: vm_block_def set_block_def)
  obtain ty where ty: "search (app_type ap) = Some ty" using assms(6) by auto
  have "app_isFree (apps (vm_block 0 (hyp_table h)) ! k) \<longleftrightarrow> 1 \<le> k" if "k < length (apps (vm_block 0 (hyp_table h)))" for k
    using assms(3) that by (simp add: taken_up_to_def)
  moreover have "0 < length (apps (vm_block 0 (hyp_table h)))" using assms(4) by linarith
  ultimately have "\<not> app_isFree (apps (vm_block 0 (hyp_table h)) ! 0)" "app_isFree (apps (vm_block 0 (hyp_table h)) ! 1)"
    using assms(4) by simp_all
  with assms(4) have "first_index app_isFree (apps (vm_block 0 ?t)) = Some 1"
    unfolding blk by (auto simp: first_index_Some)
  then obtain t' where t': "allocateApp 0 0 ?t = Inr (1, t')" "vmTable t' \<noteq> []" "request (vm_block 0 t') = To rq"
    using assms(2,3)
    by (simp add: allocateApp_def vm_in_bounds_def blk taken_up_to_def block_isRunning_def Let_def)
      (simp add: vm_block_def set_block_def)
  have "findRequestIndex (app_name ap) rq = 0"
    by (simp add: findRequestIndex_def assms(5) first_index_all)
  with t' ty assms(1,2,5) show ?thesis
    by (simp add: handleAppRequest_def getLocalVmId_def on_table_def associateDeploymentToVm_def vm_in_bounds_def
        emit_out_def getPidFromServiceName_def)
qed

section \<open>A concrete controller\<close>

definition edge_host :: "unit Hypervisor" where
  "edge_host = \<lparr>hyp_table = table_initialize 1 2, hyp_hw = (), hyp_schedulers = [], hyp_isVirtual = False, hyp_out = []\<rparr>"

definition edge_app :: "nat IotApplication" where
  "edge_app = \<lparr>ap_core = core_initialize 5 ''app'', ap_pid = 9, ap_vmId = 9, ap_operationStart = 0, ap_resolver = True,
     ap_startDelay = 1, ap_appInstance = [], ap_event = EXEC_START, ap_eventAt = None, ap_outGate = 2,
     ap_sockets = Map.empty, ap_out = [], ia_state = INIT, ia_processingMIs = 7, ia_serviceName = [], ia_endpointIp = None,
     ia_udpSocket = None, ia_tcpSocket = None, ia_chronometer = 0, ia_listeningPort = 1000, ia_pingsThreshold = 2,
     ia_pollingInterval = 1, ia_synthSize = 1, ia_localInterface = [], ia_externalInterface = [], ia_actuators = [],
     ia_serviceUp = False, ia_numPings = 0, ia_draws = 0\<rparr>"

lemma edge_host_boots:
  obtains h where "edge_start ''localhost'' edge_host = Inr h"
proof -
  have "first_index block_isFree (vmTable (hyp_table edge_host)) = Some 0"
    by (rule first_index_all) (simp_all add: edge_host_def table_initialize_def block_isFree_def fresh_block_def)
  then have "\<exists>h. edge_start ''localhost'' edge_host = Inr h"
    by (simp add: edge_start_def allocateVm_def createMapping_def vm_in_bounds_def set_block_def)
      (simp add: edge_host_def table_initialize_def)
  with that show thesis by blast
qed

theorem service_reaches_dependant_witness:
  "\<exists>h s1 s2 settings h1 P P1. edge_start ''localhost'' edge_host = Inr h \<and> startup edge_area = Inr s1 \<and>
     hyp_handleMessage (\<lambda>_ hw. Inr (None, hw)) (\<lambda>_ _ hw. Inr hw) (\<lambda>_. None) (\<lambda>_. Some ()) 1
       (AppReq (local_request edge_area)) h = Inr h1 \<and>
     handleVmUpdate 5 edge_accept s1 = Inr s2 \<and> SettingsToController settings \<in> set (eu_out s2) \<and>
     getAppControlBlock 0 0 (hyp_table h1) = Inr \<lparr>acb_pid = 0, acb_vmId = 0, deploymentIndex = 0\<rparr> \<and>
     map_option (\<lambda>b. (ap_vmId b, ap_pid b, ap_appInstance b)) (P 0 0) = Some (0, 0, ''ctl'') \<and>
     hyp_handleMessage (\<lambda>_ hw. Inr (None, hw)) (\<lambda>_ _ hw. Inr hw) (\<lambda>_. None) (\<lambda>_. Some ()) 5 (Settings settings) h1 =
       Inr (emit_out (SetParam 0 0 ''serviceName'' ''srv.dc.org'') h1) \<and>
     and_then (process_starts (ia_callback (\<lambda>k a b. a) of_nat 4) 0 2 0 0 P)
       (node_effect (\<lambda>_. Some edge_app) [] 5 (SetParam 0 0 ''serviceName'' ''srv.dc.org'')) = Inr P1 \<and>
     map_option (\<lambda>b. asked (ap_out b)) (P1 0 0) = Some [''srv.dc.org'']"
proof -
  let ?vm = "\<lparr>rq_times = edge_times, rq_vmType = ''t'', rq_vmId = generateUniqueId ''vm'' edge_blank,
     rq_response = \<lparr>rsp_startTime = 1, rsp_price = 0, rsp_state = ACCEPTED, rsp_ip = ''h1''\<rparr>\<rparr>"
  let ?v = "\<lparr>ev_name = ''vm'', ev_type = ''t'', ev_state = PENDING, ev_apps =
        [\<lparr>ea_name = ''db'', ea_type = ''D'', ea_dependant = [], ea_state = PENDING\<rparr>,
         \<lparr>ea_name = ''srv'', ea_type = ''S'', ea_dependant = ''ctl'', ea_state = PENDING\<rparr>]\<rparr>"
  let ?a = "\<lparr>ea_name = ''srv'', ea_type = ''S'', ea_dependant = ''ctl'', ea_state = PENDING\<rparr>"
  obtain h where boot: "edge_start ''localhost'' edge_host = Inr h" by (rule edge_host_boots)
  have facts: "map_ordered (eu_vms edge_area)" "uv_vm edge_accept = [?vm]" "rsp_state (rq_response ?vm) = ACCEPTED"
    "map_of (eu_vms edge_area) (rq_vmId ?vm) = Some ?v" "?a \<in> set (ev_apps ?v)" "ea_dependant ?a = ''ctl''" "''ctl'' \<noteq> []"
    "''ctl'' \<in> ea_name ` set (eu_localApps edge_area)" "hyp_table edge_host = table_initialize 1 2"
    "edge_start (eu_controllerHostName edge_area) edge_host = Inr h" "length (eu_localApps edge_area) \<le> 2"
    "\<forall>x\<in>set (eu_localApps edge_area). (\<lambda>_. Some ()) (ea_type x) \<noteq> None"
    "\<forall>x\<in>set (eu_localApps edge_area). ea_name x \<noteq> ''ctl'' \<or> (\<exists>b. (\<lambda>_. Some edge_app) (ea_type x) = Some b \<and> ap_resolver b)"
    using boot
    by (simp_all add: edge_area_def edge_blank_def edge_accept_def edge_host_def edge_app_def new_UserVm_def map_ordered_def)
  have len: "length (eu_localApps edge_area) = 1" "ea_name ?a @ ''.'' @ uv_domain edge_accept = ''srv.dc.org''"
    by (simp_all add: edge_area_def edge_accept_def)
  note d = service_reaches_dependant [OF facts, of "\<lambda>_ hw. Inr (None, hw)" "\<lambda>_ _ hw. Inr hw" "\<lambda>_. None" 1 "[]" 5
      "\<lambda>k a b. a" of_nat 4 0 2, unfolded len Let_def]
  from d show ?thesis
  proof (elim exE conjE, goal_cases)
    case (1 s1 s2 settings h1 j P P1 P2)
    then have j0: "j = 0" by (simp only: less_one)
    note f = 1 [unfolded j0]
    have told: "hyp_handleMessage (\<lambda>_ hw. Inr (None, hw)) (\<lambda>_ _ hw. Inr hw) (\<lambda>_. None) (\<lambda>_. Some ()) 5 (Settings settings) h1 =
        Inr (emit_out (SetParam 0 0 ''serviceName'' ''srv.dc.org'') h1)"
      using spec [OF f(11), of h1] by simp
    have zero: "int 0 = 0" "(of_nat 0 :: u32) = 0" by simp_all
    note z = f(9,10,14,15) [unfolded zero]
    show ?case
      by (rule exI [of _ h], rule exI [of _ s1], rule exI [of _ s2], rule exI [of _ settings], rule exI [of _ h1],
          rule exI [of _ P], rule exI [of _ P2]) (intro conjI; fact boot f(1,3,5,6) told z)
  qed
qed

end
