(* ===== verification/DnsRegistry.thy ===== *)
theory DnsRegistry
  imports DnsClient DnsServer Apps
begin

text \<open>
  How names get into the name service and out of it again: the registry \<open>architecture/dns/registry\<close>, which
  changes the records of a zone on request, and the resolver of a node,
  \<open>architecture/net/stack/resolver/StubDnsResolver\<close>, which asks the resolver of the provider through
  \<open>DnsClientService\<close> and keeps the answers.

  What the modules send is listed in \<open>rg_sent\<close> and \<open>st_out\<close>; \<open>tok\<close> splits a name into its labels.
\<close>

section \<open>The registry\<close>

record 'ip Registration =
  rq_verb :: Verb
  rq_host :: string
  rq_path :: string
  rq_zone :: string
  rq_records :: "'ip ResourceRecord list"

datatype 'ip registry_chunk = RegistrationChunk "'ip Registration" | ForeignData

datatype registry_out = RegistryAnswer int app_packet | RegistryAccept

record 'ip Registry =
  rg_db :: "'ip DnsTreeNode"
  rg_sent :: "registry_out list"

fun remove_records ::
  "(string \<Rightarrow> string list) \<Rightarrow> string \<Rightarrow> 'ip::linorder ResourceRecord list \<Rightarrow> 'ip DnsTreeNode \<Rightarrow> 'ip DnsTreeNode outcome" where
  "remove_records tok zone [] t = Inr t"
| "remove_records tok zone (r # rs) t = and_then (removeRecord tok zone r t) (\<lambda>(t', b). remove_records tok zone rs t')"

definition registry_processRequest ::
  "(string \<Rightarrow> string list) \<Rightarrow> 'ip::linorder Registration \<Rightarrow> 'ip Registry \<Rightarrow> (bool \<times> 'ip Registry) outcome" where
  "registry_processRequest tok rq s =
     (if rq_verb rq = PUT then Inr (True, s\<lparr>rg_db := fold (insertRecord tok (rq_zone rq)) (rq_records rq) (rg_db s)\<rparr>)
      else if rq_verb rq = DELETE
      then and_then (remove_records tok (rq_zone rq) (rq_records rq) (rg_db s)) (\<lambda>t. Inr (True, s\<lparr>rg_db := t\<rparr>))
      else Inr (False, s))"

text \<open>\<open>sendBack\<close> reads the tags of the packet also when the message is none.\<close>

definition registry_sendBack :: "registry_out option \<Rightarrow> 'ip Registry \<Rightarrow> 'ip Registry outcome" where
  "registry_sendBack m s =
     (case m of None \<Rightarrow> Inl (Undefined ''null packet'') | Some x \<Rightarrow> Inr (s\<lparr>rg_sent := rg_sent s @ [x]\<rparr>))"

fun registry_requests ::
  "(string \<Rightarrow> string list) \<Rightarrow> int \<Rightarrow> 'ip::linorder registry_chunk list \<Rightarrow> 'ip Registry \<Rightarrow> 'ip Registry outcome" where
  "registry_requests tok conn (RegistrationChunk rq # cs) s =
     and_then (registry_processRequest tok rq s) (\<lambda>(ok, s').
     and_then (registry_sendBack (Some (RegistryAnswer conn
         (RestResponse (if ok then RC_OK else RC_INTERNAL_ERROR) (rq_host rq) (rq_path rq) 0))) s')
       (registry_requests tok conn cs))"
| "registry_requests tok conn cs s = Inr s"

datatype 'ip registry_event =
    RegistryPeerClosed int
  | RegistryData int "'ip registry_chunk list"
  | RegistryAvailable
  | RegistryOther

fun registry_handleMessage ::
  "(string \<Rightarrow> string list) \<Rightarrow> 'ip::linorder registry_event \<Rightarrow> 'ip Registry \<Rightarrow> 'ip Registry outcome" where
  "registry_handleMessage tok (RegistryPeerClosed conn) s = registry_sendBack None s"
| "registry_handleMessage tok (RegistryData conn cs) s = registry_requests tok conn cs s"
| "registry_handleMessage tok RegistryAvailable s = Inr (s\<lparr>rg_sent := rg_sent s @ [RegistryAccept]\<rparr>)"
| "registry_handleMessage tok RegistryOther s = Inr s"

section \<open>The resolver of a node\<close>

record StubDnsRequest =
  sr_moduleId :: int
  sr_domain :: string

datatype 'ip stub_out =
    AskClient "'ip DnsClientCommand"
  | AnswerModule int string bool "'ip list"     \<comment> \<open>the module, the name, whether it was found, the addresses\<close>

record 'ip StubResolver =
  st_ispResolver :: 'ip
  st_db :: "'ip DnsTreeNode"
  st_lastId :: u16
  st_pending :: "u16 \<Rightarrow> StubDnsRequest option"
  st_out :: "'ip stub_out list"

definition stub_finish :: "'ip StubResolver \<Rightarrow> 'ip StubResolver" where
  "stub_finish s = s\<lparr>st_pending := Map.empty\<rparr>"

text \<open>\<open>std::set<ResourceRecord>\<close> from a range.\<close>

definition record_set :: "'ip::linorder ResourceRecord list \<Rightarrow> 'ip ResourceRecord list" where
  "record_set rs = fold (set_insert record_less) rs []"

definition stub_sendResponse :: "StubDnsRequest \<Rightarrow> 'ip ResourceRecord list \<Rightarrow> 'ip StubResolver \<Rightarrow> 'ip StubResolver" where
  "stub_sendResponse rq records s =
     s\<lparr>st_out := st_out s @ [AnswerModule (sr_moduleId rq) (sr_domain rq) (records \<noteq> []) (map rr_ip records)]\<rparr>"

definition stub_handleRequest ::
  "(string \<Rightarrow> string list) \<Rightarrow> StubDnsRequest \<Rightarrow> 'ip::linorder StubResolver \<Rightarrow> 'ip StubResolver outcome" where
  "stub_handleRequest tok rq s0 =
     (let i = st_lastId s0; s = s0\<lparr>st_lastId := i + 1\<rparr>;
          q = \<lparr>q_domain = sr_domain rq, q_type = RT_A\<rparr>;
          ask = s\<lparr>st_out := st_out s @ [AskClient \<lparr>cc_ipPool = [st_ispResolver s], cc_requestId = i,
                  cc_payload = \<lparr>dr_requestId = i, dr_operationCode = QUERY, dr_returnCode = NOERROR,
                    dr_isAuthoritative = False, dr_question = [q], dr_nonAuth = [], dr_auth = []\<rparr>\<rparr>],
                st_pending := (st_pending s)(i \<mapsto> rq)\<rparr>
      in case db_searchRecords tok q (st_db s) of
           None \<Rightarrow> Inr ask
         | Some (parent, n) \<Rightarrow>
             if node_level n = AUTHORITATIVE \<and> getChildCount n > 0
             then (case getRecords n of
                     None \<Rightarrow> Inl (Undefined ''null records'')
                   | Some rs \<Rightarrow>
                       let cached = record_set (filter (\<lambda>r. matchWithWildcard r (q_domain q)) rs)
                       in if cached \<noteq> [] then Inr (stub_sendResponse rq cached s) else Inr ask)
             else Inr ask)"

definition processIndication ::
  "(string \<Rightarrow> string list) \<Rightarrow> 'ip::linorder DnsClientIndication \<Rightarrow> 'ip StubResolver \<Rightarrow>
     ('ip ResourceRecord list \<times> 'ip StubResolver) outcome" where
  "processIndication tok m s =
     (if ci_result m \<noteq> DC_OK then Inr ([], s)
      else (case ci_payload m of
              None \<Rightarrow> Inl (Undefined ''null payload'')
            | Some p \<Rightarrow>
                if dr_returnCode p \<noteq> NOERROR then Inr ([], s)
                else let records = record_set (if dr_isAuthoritative p then dr_auth p else dr_nonAuth p)
                     in case dr_question p of
                          [] \<Rightarrow> Inl (RuntimeError ''array index out of range'')
                        | q # qs \<Rightarrow> Inr (records, s\<lparr>st_db := fold (insertRecord tok (q_domain q)) records (st_db s)\<rparr>)))"

definition stub_handleResponse ::
  "(string \<Rightarrow> string list) \<Rightarrow> 'ip::linorder DnsClientIndication \<Rightarrow> 'ip StubResolver \<Rightarrow> 'ip StubResolver outcome" where
  "stub_handleResponse tok m s =
     (case st_pending s (ci_requestId m) of
        None \<Rightarrow> Inl (RuntimeError ''Unknown request id'')
      | Some rq \<Rightarrow> and_then (processIndication tok m s) (\<lambda>(records, s').
          Inr ((stub_sendResponse rq records s')\<lparr>st_pending := (st_pending s')(ci_requestId m := None)\<rparr>)))"

section \<open>What an address set holds\<close>

lemma same_record_same:
  "same_record x r \<Longrightarrow> rr_domain x = rr_domain r \<and> rr_type x = rr_type r \<and> rr_ip x = rr_ip r"
proof -
  have t: "rtype_val a = rtype_val b \<Longrightarrow> a = b" for a b by (cases a; cases b) simp_all
  assume "same_record x r"
  then show ?thesis
    unfolding same_record_def record_less_def by (auto intro: t simp: not_less order_antisym)
qed

lemma same_recordI:
  "rr_domain x = rr_domain r \<Longrightarrow> rr_type x = rr_type r \<Longrightarrow> rr_ip x = rr_ip r \<Longrightarrow> same_record x r"
  by (simp add: same_record_def record_less_def)

lemma set_insert_keeps: "(\<exists>x\<in>set rs. same_record x r) \<Longrightarrow> \<exists>x\<in>set (set_insert record_less y rs). same_record x r"
  using set_insert_sub [of rs record_less y] by blast

lemma fold_set_insert_keeps:
  "(\<exists>x\<in>set acc. same_record x r) \<Longrightarrow> \<exists>x\<in>set (fold (set_insert record_less) rs acc). same_record x r"
  by (induction rs arbitrary: acc) (simp_all add: set_insert_keeps)

lemma fold_set_insert_has:
  "r \<in> set rs \<Longrightarrow> \<exists>x\<in>set (fold (set_insert record_less) rs acc). same_record x r"
proof (induction rs arbitrary: acc)
  case Nil
  then show ?case by simp
next
  case (Cons y rs)
  show ?case
  proof (cases "r = y")
    case True
    have "\<exists>x\<in>set (set_insert record_less y acc). same_record x r"
      using set_insert_has [of record_less y acc] True by (auto simp: same_record_def)
    then show ?thesis using fold_set_insert_keeps by simp
  next
    case False
    with Cons show ?thesis by simp
  qed
qed

lemma record_set_has: "r \<in> set rs \<Longrightarrow> \<exists>x\<in>set (record_set rs). same_record x r"
  by (simp add: record_set_def fold_set_insert_has)

lemma fold_set_insert_set: "set (fold (set_insert record_less) rs acc) \<subseteq> set rs \<union> set acc"
proof (induction rs arbitrary: acc)
  case (Cons r rs)
  with set_insert_set [of record_less r acc] show ?case by fastforce
qed simp

lemma record_set_sub: "set (record_set rs) \<subseteq> set rs"
  using fold_set_insert_set [of rs "[]"] by (simp add: record_set_def)

lemma record_set_ips: "rr_ip ` set (record_set rs) = rr_ip ` set rs"
proof
  show "rr_ip ` set (record_set rs) \<subseteq> rr_ip ` set rs" using record_set_sub by blast
  show "rr_ip ` set rs \<subseteq> rr_ip ` set (record_set rs)"
  proof
    fix i assume "i \<in> rr_ip ` set rs"
    then obtain r where r: "r \<in> set rs" "i = rr_ip r" by blast
    from record_set_has [OF r(1)] obtain x where "x \<in> set (record_set rs)" "same_record x r" by blast
    with r(2) same_record_same [of x r] have "i = rr_ip x" by simp
    then show "i \<in> rr_ip ` set (record_set rs)"
      using \<open>x \<in> set (record_set rs)\<close> by (rule image_eqI)
  qed
qed

section \<open>A stub resolver does not use what it has kept\<close>

text \<open>An authoritative node has no children, so the test of \<open>handleRequest\<close> never finds a kept answer.\<close>

lemma authoritative_no_children:
  assumes "tree_ok t" "searchRecords tok d t = Some (p, n)" "node_level n = AUTHORITATIVE"
  shows "getChildCount n = 0"
proof -
  have root: "node_level t = ROOT" using assms(1) by (simp add: tree_ok_def)
  note old = assms(2) [unfolded search_found [OF assms(1)]]
  obtain s subs where d: "rev (tok d) = s # subs" "getChildCount t \<noteq> 0"
    using old root assms(3) by (cases "rev (tok d)"; cases "getChildCount t = 0") auto
  then obtain m where m0: "getChild s t = Some m" using old by (cases "getChild s t") auto
  have "node_level m = TLD" by (rule levels_below(1) [OF assms(1) m0])
  then obtain a rest where "subs = a # rest" "getChildCount m \<noteq> 0"
    using old d m0 assms(3) by (cases subs; cases "getChildCount m = 0") auto
  then have m: "getChild s t = Some m" "getChild a m = Some n" using old d m0 by (auto simp: map_option_case split: option.splits)
  from tld_child [OF tree_child [OF assms(1) m(1)] m(2)] show ?thesis
    by (simp add: auth_ok_def getChildCount_def)
qed

definition stub_question :: "string \<Rightarrow> u16 \<Rightarrow> 'ip DnsRequest" where
  "stub_question d i = \<lparr>dr_requestId = i, dr_operationCode = QUERY, dr_returnCode = NOERROR,
     dr_isAuthoritative = False, dr_question = [\<lparr>q_domain = d, q_type = RT_A\<rparr>], dr_nonAuth = [], dr_auth = []\<rparr>"

lemma stub_always_asks:
  assumes "tree_ok (st_db s)"
  shows "stub_handleRequest tok rq s = Inr (s\<lparr>st_lastId := st_lastId s + 1,
     st_out := st_out s @ [AskClient \<lparr>cc_ipPool = [st_ispResolver s], cc_requestId = st_lastId s,
       cc_payload = stub_question (sr_domain rq) (st_lastId s)\<rparr>],
     st_pending := (st_pending s)(st_lastId s \<mapsto> rq)\<rparr>)"
  using authoritative_no_children [OF assms, of tok "sr_domain rq"]
  by (auto simp: stub_handleRequest_def Let_def db_searchRecords_def stub_question_def split: option.splits)

lemma tree_ok_inserts: "tree_ok t \<Longrightarrow> tree_ok (fold (insertRecord tok zone) rs t)"
  by (induction rs arbitrary: t) (simp_all add: insert_search_parts(1))

lemma insert_found_authoritative:
  assumes "tree_ok t" "take 2 (rev (tok d)) = take 2 (rev (tok zone))" "2 \<le> length (tok zone)"
  shows "\<exists>p n. searchRecords tok d (insertRecord tok zone r t) = Some (p, n) \<and> node_level n = AUTHORITATIVE \<and>
    (\<exists>x\<in>set (node_records n). same_record x r)"
proof -
  obtain s a rest where z: "rev (tok zone) = s # a # rest"
    using assms(3) by (cases "rev (tok zone)"; cases "tl (rev (tok zone))")
      (auto dest!: arg_cong [where f = length])
  with assms(2) obtain rest' where d: "rev (tok d) = s # a # rest'"
    by (cases "rev (tok d)"; cases "tl (rev (tok d))") auto
  note ok = tree_ok_insert [OF assms(1)]
  note ins = getChild_insert [where tok = tok and zone = zone and r = r, OF assms(1) z]
    and ins2 = getChild_insert_tld [OF tree_child_or_new [OF assms(1)]]
  have "node_level (child_or_new a (child_or_new s t)) = AUTHORITATIVE"
    using tld_child_or_new [OF tree_child_or_new [OF assms(1)]] by (simp add: auth_ok_def)
  then show ?thesis
    using addRecord_has [of r "child_or_new a (child_or_new s t)"] d
    by (simp add: search_found [OF ok] ins ins2 del: insert_loop.simps)
qed

lemma inserts_keep:
  assumes "tree_ok t" "searchRecords tok d t = Some (p, n)" "node_level n = AUTHORITATIVE" "x \<in> set (node_records n)"
  shows "\<exists>p' n'. searchRecords tok d (fold (insertRecord tok zone) rs t) = Some (p', n') \<and>
    node_level n' = AUTHORITATIVE \<and> x \<in> set (node_records n')"
  using assms
proof (induction rs arbitrary: t p n)
  case (Cons r rs)
  from insert_search_parts(3) [OF Cons.prems(1-3), of zone r] obtain p' n' where
    "searchRecords tok d (insertRecord tok zone r t) = Some (p', n')" "node_level n' = AUTHORITATIVE"
    "set (node_records n) \<subseteq> set (node_records n')" by blast
  with Cons.IH [OF insert_search_parts(1) [OF Cons.prems(1)]] Cons.prems(4) show ?case by auto
qed auto

lemma inserts_found:
  assumes "tree_ok t" "take 2 (rev (tok d)) = take 2 (rev (tok zone))" "2 \<le> length (tok zone)" "r \<in> set rs"
  shows "\<exists>p n. searchRecords tok d (fold (insertRecord tok zone) rs t) = Some (p, n) \<and>
    (\<exists>x\<in>set (node_records n). same_record x r)"
  using assms(1,4)
proof (induction rs arbitrary: t)
  case (Cons y rs)
  show ?case
  proof (cases "r \<in> set rs")
    case True
    with Cons.IH [OF insert_search_parts(1) [OF Cons.prems(1)]] show ?thesis by simp
  next
    case False
    then have "r = y" using Cons.prems(2) by simp
    with insert_found_authoritative [OF Cons.prems(1) assms(2,3)] obtain p n x where
      n: "searchRecords tok d (insertRecord tok zone y t) = Some (p, n)" "node_level n = AUTHORITATIVE"
        "x \<in> set (node_records n)" "same_record x r" by blast
    from inserts_keep [OF insert_search_parts(1) [OF Cons.prems(1)] n(1-3)] n(4) show ?thesis by fastforce
  qed
qed simp

section \<open>Every operation keeps the shape of the tree\<close>

lemma erase_record_shape:
  assumes "erase_record r n = Inr (n', b)"
  shows "node_domain n' = node_domain n \<and> node_level n' = node_level n \<and> node_children n' = node_children n"
  using assms by (auto simp: erase_record_def Let_def split: if_splits)

lemma auth_ok_remove: "auth_ok k n \<Longrightarrow> remove_loop subs r n = Inr (n', b) \<Longrightarrow> auth_ok k n'"
  by (cases subs) (auto simp: auth_ok_def getChildCount_def dest!: erase_record_shape)

lemma tld_ok_remove:
  assumes "tld_ok k n" "remove_loop subs r n = Inr (n', b)"
  shows "tld_ok k n'"
proof (cases "subs = [] \<or> getChildCount n = 0")
  case True
  with assms(2) have "erase_record r n = Inr (n', b)" by (cases subs) simp_all
  with assms(1) erase_record_shape show ?thesis by (fastforce simp: tld_ok_def)
next
  case False
  then obtain s rest where subs: "subs = s # rest" "getChildCount n \<noteq> 0" by (cases subs) auto
  show ?thesis
  proof (cases "getChild s n")
    case None
    with assms subs show ?thesis by simp
  next
    case (Some c)
    with assms(2) subs obtain c' where c': "remove_loop rest r c = Inr (c', b)" "n' = getChildOrCreate s (\<lambda>_. c') n"
      by (auto simp: and_then_eq_Inr)
    have ok: "auth_ok s c'" using auth_ok_remove [OF tld_child [OF assms(1) Some] c'(1)] .
    have n: "map_ordered (node_children n)" "\<forall>(j, c)\<in>set (node_children n). auth_ok j c"
      "auth_ok s (Zone s (next_level (node_level n)) [] [])"
      using assms(1) by (simp_all add: tld_ok_def auth_ok_def)
    note new = getChildOrCreate_ok [where f = "\<lambda>_. c'" and P = auth_ok, OF n(1) n(2) _ n(3)]
    show ?thesis using new ok assms(1) c'(2) by (simp add: tld_ok_def)
  qed
qed

lemma tree_ok_remove:
  assumes "tree_ok t" "removeRecord tok zone r t = Inr (t', b)"
  shows "tree_ok t'"
proof (cases "rev (tok zone) = [] \<or> getChildCount t = 0")
  case True
  with assms(2) have "erase_record r t = Inr (t', b)"
    by (cases "rev (tok zone)") (simp_all add: removeRecord_def)
  with assms(1) erase_record_shape show ?thesis by (fastforce simp: tree_ok_def)
next
  case False
  then obtain s rest where subs: "rev (tok zone) = s # rest" "getChildCount t \<noteq> 0" by (cases "rev (tok zone)") auto
  show ?thesis
  proof (cases "getChild s t")
    case None
    with assms subs show ?thesis by (simp add: removeRecord_def)
  next
    case (Some c)
    with assms(2) subs obtain c' where c': "remove_loop rest r c = Inr (c', b)" "t' = getChildOrCreate s (\<lambda>_. c') t"
      by (auto simp: removeRecord_def and_then_eq_Inr)
    have ok: "tld_ok s c'" using tld_ok_remove [OF tree_child [OF assms(1) Some] c'(1)] .
    have t: "map_ordered (node_children t)" "\<forall>(k, n)\<in>set (node_children t). tld_ok k n"
      "tld_ok s (Zone s (next_level (node_level t)) [] [])"
      using assms(1) by (simp_all add: tree_ok_def tld_ok_def map_ordered_def)
    note new = getChildOrCreate_ok [where f = "\<lambda>_. c'" and P = tld_ok, OF t(1) t(2) _ t(3)]
    show ?thesis using new ok assms(1) c'(2) by (simp add: tree_ok_def)
  qed
qed

lemma tree_ok_removes: "remove_records tok zone rs t = Inr t' \<Longrightarrow> tree_ok t \<Longrightarrow> tree_ok t'"
  by (induction tok zone rs t rule: remove_records.induct) (auto simp: and_then_eq_Inr intro: tree_ok_remove)

lemma tree_ok_loads: "load_records tok parse no_ip zone zs t = Inr t' \<Longrightarrow> tree_ok t \<Longrightarrow> tree_ok t'"
  by (induction tok parse no_ip zone zs t rule: load_records.induct) (auto simp: and_then_eq_Inr tree_ok_insert)

lemma tree_ok_config: "db_initialize tok parse no_ip cfg t = Inr t' \<Longrightarrow> tree_ok t \<Longrightarrow> tree_ok t'"
  by (induction tok parse no_ip cfg t rule: db_initialize.induct) (auto simp: and_then_eq_Inr tree_ok_loads)

lemma tree_ok_request: "registry_processRequest tok rq s = Inr (b, s') \<Longrightarrow> tree_ok (rg_db s) \<Longrightarrow> tree_ok (rg_db s')"
  by (auto simp: registry_processRequest_def and_then_eq_Inr tree_ok_inserts tree_ok_removes split: if_splits)

lemma tree_ok_requests: "registry_requests tok conn cs s = Inr s' \<Longrightarrow> tree_ok (rg_db s) \<Longrightarrow> tree_ok (rg_db s')"
  by (induction tok conn cs s rule: registry_requests.induct)
    (auto simp: and_then_eq_Inr registry_sendBack_def tree_ok_request)

lemma tree_ok_message: "registry_handleMessage tok e s = Inr s' \<Longrightarrow> tree_ok (rg_db s) \<Longrightarrow> tree_ok (rg_db s')"
  by (cases e) (auto simp: registry_sendBack_def tree_ok_requests)

lemma new_root_ok: "tree_ok new_root"
  by (simp add: tree_ok_def new_root_def map_ordered_def)

section \<open>Properties\<close>

text \<open>A resolver of a node never uses the answers it keeps: whatever it has received, as long as
  its database grew from a well-formed one, every request goes to the resolver of the provider, and
  each identifier in turn is pending for it; the database stays well formed with every answer.
\<close>

theorem stub_never_uses_cache:
  assumes "tree_ok (st_db s)"
  shows "(\<exists>s'. stub_handleRequest tok rq s = Inr s' \<and> st_db s' = st_db s \<and>
      st_pending s' (st_lastId s) = Some rq \<and> st_lastId s' = st_lastId s + 1 \<and>
      st_out s' = st_out s @ [AskClient \<lparr>cc_ipPool = [st_ispResolver s], cc_requestId = st_lastId s,
        cc_payload = stub_question (sr_domain rq) (st_lastId s)\<rparr>]) \<and>
    (\<forall>m s'. stub_handleResponse tok m s = Inr s' \<longrightarrow> tree_ok (st_db s'))"
proof -
  have "tree_ok (st_db s')" if "stub_handleResponse tok m s = Inr s'" for m s'
    using that assms
    by (auto simp: stub_handleResponse_def processIndication_def stub_sendResponse_def Let_def tree_ok_inserts
        and_then_def split: option.splits if_splits list.splits sum.splits)
  then show ?thesis using stub_always_asks [OF assms] by simp
qed

text \<open>C35.  A registered name is found: once a registration for a zone of at least two labels has been
  put, and answered, a node that asks a server with authority over the same database for a name of the
  zone gets an answer that holds the registered address, and the request is no longer pending.
\<close>

theorem registered_name_resolved:
  assumes "tree_ok (rg_db g)" "tree_ok (st_db st)" "rq_verb rq = PUT" "r \<in> set (rq_records rq)"
    and "take 2 (rev (tok d)) = take 2 (rev (tok (rq_zone rq)))" "2 \<le> length (tok (rq_zone rq))"
    and "srv_authority srv d"
  shows "\<exists>g' st1 q srv' a st2 ips.
    registry_handleMessage tok (RegistryData conn [RegistrationChunk rq]) g = Inr g' \<and>
    rg_sent g' = rg_sent g @ [RegistryAnswer conn (RestResponse RC_OK (rq_host rq) (rq_path rq) 0)] \<and>
    stub_handleRequest tok \<lparr>sr_moduleId = m, sr_domain = d\<rparr> st = Inr st1 \<and>
    st_out st1 = st_out st @ [AskClient q] \<and>
    srv_socketDataArrived tok no_ip \<lparr>dg_src = src, dg_port = port, dg_chunks = [RequestChunk (cc_payload q)]\<rparr>
      (srv\<lparr>srv_db := rg_db g'\<rparr>) = Inr srv' \<and>
    srv_sent srv' = srv_sent srv @ [(a, src, port)] \<and>
    stub_handleResponse tok \<lparr>ci_requestId = cc_requestId q, ci_result = DC_OK, ci_payload = Some a\<rparr> st1 = Inr st2 \<and>
    st_out st2 = st_out st1 @ [AnswerModule m d True ips] \<and> rr_ip r \<in> set ips \<and>
    st_pending st2 (cc_requestId q) = None"
proof -
  define t where "t = fold (insertRecord tok (rq_zone rq)) (rq_records rq) (rg_db g)"
  define q :: "'a DnsRequest" where "q = stub_question d (st_lastId st)"
  define srv1 where "srv1 = srv\<lparr>srv_db := t\<rparr>"
  obtain p n x where n: "searchRecords tok d t = Some (p, n)" "x \<in> set (node_records n)" "same_record x r"
    using inserts_found [OF assms(1,5,6,4)] by (auto simp: t_def)
  have zone: "zone_records tok srv1 q = node_records n"
    using n(1) by (simp add: zone_records_def srv1_def q_def stub_question_def db_searchRecords_def)
  have nf: "\<not> foreign_query tok srv1 q"
    using assms(7) by (simp add: foreign_query_def authoritative_for_def srv1_def q_def stub_question_def)
  have ans: "srv_answer tok srv1 q = q\<lparr>dr_isAuthoritative := True, dr_auth := node_records n\<rparr>"
    using n(2) zone by (auto simp: srv_answer_def q_def stub_question_def)
  let ?ips = "map rr_ip (record_set (node_records n))"
  have ip: "rr_ip r \<in> set ?ips"
    using record_set_ips [of "node_records n"] n(2) same_record_same [OF n(3)] by (metis imageI list.set_map)
  then have ne: "record_set (node_records n) \<noteq> []" by auto
  let ?cmd = "\<lparr>cc_ipPool = [st_ispResolver st], cc_requestId = st_lastId st, cc_payload = q\<rparr>"
  let ?st1 = "st\<lparr>st_lastId := st_lastId st + 1, st_out := st_out st @ [AskClient ?cmd],
    st_pending := (st_pending st)(st_lastId st \<mapsto> \<lparr>sr_moduleId = m, sr_domain = d\<rparr>)\<rparr>"
  let ?a = "q\<lparr>dr_isAuthoritative := True, dr_auth := node_records n\<rparr>"
  let ?p = "\<lparr>dg_src = src, dg_port = port, dg_chunks = [RequestChunk q]\<rparr>"
  have 1: "registry_handleMessage tok (RegistryData conn [RegistrationChunk rq]) g =
      Inr (g\<lparr>rg_db := t, rg_sent := rg_sent g @ [RegistryAnswer conn (RestResponse RC_OK (rq_host rq) (rq_path rq) 0)]\<rparr>)"
    using assms(3) by (simp add: registry_processRequest_def registry_sendBack_def t_def)
  have 2: "stub_handleRequest tok \<lparr>sr_moduleId = m, sr_domain = d\<rparr> st = Inr ?st1"
    using stub_always_asks [OF assms(2)] by (simp add: q_def)
  have "\<forall>req\<in>set (leading_requests [RequestChunk q]). \<not> foreign_query tok srv1 req" using nf by simp
  from serve_chunks_spec [OF this, of no_ip ?p]
  have 3: "srv_socketDataArrived tok no_ip ?p (srv\<lparr>srv_db := t\<rparr>) =
      Inr (srv1\<lparr>srv_sent := srv_sent srv @ [(?a, src, port)]\<rparr>)"
    by (simp add: srv_socketDataArrived_def ans srv1_def [symmetric] del: serve_chunks.simps)
      (simp add: srv1_def)
  have 4: "\<exists>st2. stub_handleResponse tok \<lparr>ci_requestId = st_lastId st, ci_result = DC_OK, ci_payload = Some ?a\<rparr> ?st1 =
      Inr st2 \<and> st_out st2 = st_out ?st1 @ [AnswerModule m d True ?ips] \<and> st_pending st2 (st_lastId st) = None"
    using ne by (simp add: stub_handleResponse_def processIndication_def stub_sendResponse_def Let_def
        q_def stub_question_def)
  then obtain st2 where st2: "stub_handleResponse tok \<lparr>ci_requestId = st_lastId st, ci_result = DC_OK,
      ci_payload = Some ?a\<rparr> ?st1 = Inr st2"
    "st_out st2 = st_out ?st1 @ [AnswerModule m d True ?ips]" "st_pending st2 (st_lastId st) = None" by blast
  show ?thesis
    by (rule exI [of _ "g\<lparr>rg_db := t, rg_sent := rg_sent g @ [RegistryAnswer conn (RestResponse RC_OK (rq_host rq) (rq_path rq) 0)]\<rparr>"],
        rule exI [of _ ?st1], rule exI [of _ ?cmd], rule exI [of _ "srv1\<lparr>srv_sent := srv_sent srv @ [(?a, src, port)]\<rparr>"],
        rule exI [of _ ?a], rule exI [of _ st2], rule exI [of _ ?ips], intro conjI)
      (use 1 2 3 st2 ip in simp_all)
qed

definition example_registration :: "nat Registration" where
  "example_registration = \<lparr>rq_verb = PUT, rq_host = ''h'', rq_path = [], rq_zone = ''a.com'',
     rq_records = [example_record ''w.a.com'' 9 RT_A]\<rparr>"

definition example_stub :: "nat StubResolver" where
  "example_stub = \<lparr>st_ispResolver = 1, st_db = new_root, st_lastId = 0, st_pending = Map.empty, st_out = []\<rparr>"

theorem stub_never_uses_cache_witness:
  "\<exists>s'. stub_handleRequest tokens \<lparr>sr_moduleId = 4, sr_domain = ''w.a.com''\<rparr> example_stub = Inr s' \<and>
     st_pending s' 0 = Some \<lparr>sr_moduleId = 4, sr_domain = ''w.a.com''\<rparr>"
  using stub_never_uses_cache [of example_stub tokens "\<lparr>sr_moduleId = 4, sr_domain = ''w.a.com''\<rparr>"]
  by (auto simp: example_stub_def new_root_ok)

theorem registered_name_resolved_witness:
  "\<exists>st1 q a st2 ips. stub_handleRequest tokens \<lparr>sr_moduleId = 4, sr_domain = ''w.a.com''\<rparr> example_stub = Inr st1 \<and>
     st_out st1 = [AskClient q] \<and>
     stub_handleResponse tokens \<lparr>ci_requestId = cc_requestId q, ci_result = DC_OK, ci_payload = Some a\<rparr> st1 = Inr st2 \<and>
     st_out st2 = st_out st1 @ [AnswerModule 4 ''w.a.com'' True ips] \<and> 9 \<in> set ips"
proof -
  let ?g = "\<lparr>rg_db = com_tree, rg_sent = []\<rparr>"
  let ?srv = "\<lparr>srv_db = com_tree, srv_authority = (\<lambda>_. True), srv_sent = []\<rparr> :: nat DnsServer"
  have h: "tree_ok (rg_db ?g)" "tree_ok (st_db example_stub)" "rq_verb example_registration = PUT"
    "example_record ''w.a.com'' 9 RT_A \<in> set (rq_records example_registration)"
    "take 2 (rev (tokens ''w.a.com'')) = take 2 (rev (tokens (rq_zone example_registration)))"
    "2 \<le> length (tokens (rq_zone example_registration))" "srv_authority ?srv ''w.a.com''"
    by (simp_all add: com_tree_ok new_root_ok example_stub_def example_registration_def)
  have "st_out example_stub = []" "rr_ip (example_record ''w.a.com'' 9 RT_A) = 9"
    by (simp_all add: example_stub_def example_record_def)
  with registered_name_resolved [where conn = 0 and no_ip = 0 and src = 1 and port = 53 and m = 4, OF h]
  show ?thesis by (simp only: append_Nil) blast
qed

text \<open>C39.  Every zone database is well formed: whatever its configuration and whatever requests the registry has
  handled since, additions and removals, the node of each key carries that key, the root holds top level nodes and
  these authoritative ones, each in the order of their names and once, and an authoritative node has no children.
\<close>

theorem zones_well_formed:
  assumes "db_initialize tok parse no_ip cfg new_root = Inr t"
    and "for_each (registry_handleMessage tok) es \<lparr>rg_db = t, rg_sent = []\<rparr> = Inr g"
  shows "tree_ok (rg_db g) \<and> (\<forall>d p n. searchRecords tok d (rg_db g) = Some (p, n) \<longrightarrow>
    (node_level n = AUTHORITATIVE \<longrightarrow> getChildCount n = 0))"
proof -
  have "tree_ok (rg_db \<lparr>rg_db = t, rg_sent = []\<rparr>)" using tree_ok_config [OF assms(1) new_root_ok] by simp
  with assms(2) have "tree_ok (rg_db g)"
    by (rule for_each_invariant [where I = "\<lambda>s. tree_ok (rg_db s)"]) (rule tree_ok_message)
  then show ?thesis using authoritative_no_children by blast
qed

definition example_config :: "(string \<times> zone_record list) list" where
  "example_config = [(''b.com'', [\<lparr>zr_domain = ''b.com'', zr_type = ''A'', zr_text = [], zr_ip = ''5''\<rparr>])]"

definition example_removal :: "nat Registration" where
  "example_removal = example_registration\<lparr>rq_verb := DELETE\<rparr>"

definition example_requests :: "nat registry_event list" where
  "example_requests = [RegistryData 1 [RegistrationChunk example_registration], RegistryAvailable,
     RegistryData 2 [RegistrationChunk example_removal]]"

lemma example_run:
  "case db_initialize tokens (\<lambda>_. 5) 0 example_config new_root of Inl e \<Rightarrow> False
   | Inr t \<Rightarrow> (case for_each (registry_handleMessage tokens) example_requests \<lparr>rg_db = t, rg_sent = []\<rparr> of Inl e \<Rightarrow> False
     | Inr g \<Rightarrow> (case searchRecords tokens ''b.com'' (rg_db g) of None \<Rightarrow> False | Some (p, n) \<Rightarrow> node_level n = AUTHORITATIVE))"
  by code_simp

theorem zones_well_formed_witness:
  "\<exists>t g p n. db_initialize tokens (\<lambda>_. 5) 0 example_config new_root = Inr t \<and>
     for_each (registry_handleMessage tokens) example_requests \<lparr>rg_db = t, rg_sent = []\<rparr> = Inr g \<and> tree_ok (rg_db g) \<and>
     searchRecords tokens ''b.com'' (rg_db g) = Some (p, n) \<and> node_level n = AUTHORITATIVE \<and> getChildCount n = 0"
proof -
  from example_run obtain t g p n where
    e: "db_initialize tokens (\<lambda>_. 5) 0 example_config new_root = Inr t"
      "for_each (registry_handleMessage tokens) example_requests \<lparr>rg_db = t, rg_sent = []\<rparr> = Inr g"
      "searchRecords tokens ''b.com'' (rg_db g) = Some (p, n)" "node_level n = AUTHORITATIVE"
    by (auto split: sum.splits option.splits)
  with zones_well_formed [OF e(1,2)] show ?thesis by blast
qed

end
