(* ===== verification/P2P.thy ===== *)
theory P2P
  imports Apps
begin

text \<open>
  The base of the peer-to-peer applications, \<open>apps/p2p/P2P\<close>: a node finds candidates through its discovery
  services, connects to one of them a second, and keeps its peers by connection.  The services themselves are
  \<open>apps/p2p/discovery\<close>; the protocol on top of it is in \<open>PowP2P\<close>.

  The kind of the timer \<open>event\<close> is a number, as in the simulation library, because the enumerations of
  \<open>AppBase\<close> and of \<open>P2P\<close> share it.  The ids of new sockets are the values of \<open>fresh\<close> in turn, random numbers
  those of \<open>uniform\<close>.  An entry of \<open>peerData\<close> is a pointer, so it can be null.
\<close>

section \<open>State\<close>

datatype p2p_event = PEER_DISCOVERY | PEER_CONNECTION | CONNECTED

fun p2p_kind :: "p2p_event \<Rightarrow> int" where
  "p2p_kind PEER_DISCOVERY = 0" | "p2p_kind PEER_CONNECTION = 1" | "p2p_kind CONNECTED = 2"

fun base_kind :: "app_event \<Rightarrow> int" where
  "base_kind EXEC_START = 0" | "base_kind POLL = 1" | "base_kind POLL_TIMEOUT = 2" | "base_kind SEND_DELAYED = 3"

record 'ip PowPeer =
  pr_ip :: 'ip
  pr_time :: u32
  pr_services :: u64
  pr_port :: u16

record 'ip P2P = "'ip AppBase" +
  pp_kind :: int
  pp_peerData :: "(int \<times> 'ip PowPeer option) list"
  pp_peers :: "'ip set"
  pp_localIp :: 'ip
  pp_listeningPort :: int
  pp_listeningSocket :: "int option"
  pp_services :: "int list"
  pp_numServices :: int
  pp_resolutionList :: "'ip set"
  pp_discoveryAttempts :: int
  pp_discoveryThreshold :: int
  pp_opened :: nat
  pp_draws :: nat
  pp_asked :: "int list"     \<comment> \<open>the services asked for candidates\<close>

definition pp_schedule :: "rat \<Rightarrow> rat \<Rightarrow> ('ip, 'x) P2P_scheme \<Rightarrow> ('ip, 'x) P2P_scheme outcome" where
  "pp_schedule now d s =
     (if ap_eventAt s \<noteq> None then Inl (RuntimeError ''scheduleAt(): message is already scheduled'')
      else Inr (s\<lparr>ap_eventAt := Some (now + d)\<rparr>))"

definition pp_open ::
  "(nat \<Rightarrow> int) \<Rightarrow> u16 \<Rightarrow> ('ip, 'x) P2P_scheme \<Rightarrow> int \<times> ('ip, 'x) P2P_scheme" where
  "pp_open fresh port s =
     (let fd = fresh (pp_opened s) in (fd, app_open fd port SOCK_STREAM [] (s\<lparr>pp_opened := pp_opened s + 1\<rparr>)))"

text \<open>The two stages of \<open>initialize\<close>.\<close>

definition pp_initialize_local :: "rat \<Rightarrow> int list \<Rightarrow> ('ip, 'x) P2P_scheme \<Rightarrow> ('ip, 'x) P2P_scheme" where
  "pp_initialize_local now services s =
     (app_base_initialize now s)\<lparr>pp_kind := base_kind EXEC_START, pp_peers := {}, pp_peerData := [],
       pp_resolutionList := {}, pp_services := services, pp_numServices := int (length services), pp_asked := [],
       pp_opened := 0, pp_draws := 0\<rparr>"

definition pp_initialize_app ::
  "(nat \<Rightarrow> int) \<Rightarrow> 'ip \<Rightarrow> ('ip, 'x) P2P_scheme \<Rightarrow> ('ip, 'x) P2P_scheme outcome" where
  "pp_initialize_app fresh ip s =
     (let (fd, s1) = pp_open fresh (of_int (pp_listeningPort s)) (s\<lparr>pp_localIp := ip\<rparr>)
      in app_listen fd (s1\<lparr>pp_listeningSocket := Some fd\<rparr>))"

section \<open>Discovery\<close>

text \<open>The answer of a discovery service; the last one starts the connections.\<close>

definition pp_handleResolution :: "rat \<Rightarrow> 'ip list \<Rightarrow> ('ip, 'x) P2P_scheme \<Rightarrow> ('ip, 'x) P2P_scheme outcome" where
  "pp_handleResolution now ips s =
     (let s1 = s\<lparr>pp_resolutionList := pp_resolutionList s \<union> set ips, pp_numServices := pp_numServices s - 1\<rparr>
      in if pp_numServices s1 \<noteq> 0 then Inr s1
         else and_then (pp_schedule now 1 (s1\<lparr>pp_kind := p2p_kind PEER_CONNECTION\<rparr>)) (\<lambda>s2.
                Inr (s2\<lparr>pp_numServices := int (length (pp_services s2))\<rparr>)))"

definition connectToPeer ::
  "(nat \<Rightarrow> int) \<Rightarrow> ('ip::linorder, 'x) P2P_scheme \<Rightarrow> ('ip, 'x) P2P_scheme outcome" where
  "connectToPeer fresh s =
     (let destIp = Min (pp_resolutionList s);
          s1 = s\<lparr>pp_resolutionList := pp_resolutionList s - {destIp}\<rparr>
      in if destIp \<in> pp_peers s1 \<or> destIp = pp_localIp s1 then Inr s1
         else (let (fd, s2) = pp_open fresh (-1) s1
               in app_connect fd destIp (of_int (pp_listeningPort s2)) s2))"

definition pp_join ::
  "(nat \<Rightarrow> rat \<Rightarrow> rat \<Rightarrow> rat) \<Rightarrow> rat \<Rightarrow> ('ip, 'x) P2P_scheme \<Rightarrow> ('ip, 'x) P2P_scheme outcome" where
  "pp_join uniform now s =
     pp_schedule now (uniform (pp_draws s) 30 120)
       (s\<lparr>pp_kind := p2p_kind PEER_DISCOVERY, pp_draws := pp_draws s + 1\<rparr>)"

text \<open>\<open>processSelfMessage\<close> of a message of the given kind; the number of peers is unsigned, so the threshold is read as unsigned too.\<close>

definition pp_processSelfMessage ::
  "(nat \<Rightarrow> int) \<Rightarrow> (nat \<Rightarrow> rat \<Rightarrow> rat \<Rightarrow> rat) \<Rightarrow> rat \<Rightarrow> int \<Rightarrow> ('ip::linorder, 'x) P2P_scheme \<Rightarrow>
     ('ip, 'x) P2P_scheme outcome" where
  "pp_processSelfMessage fresh uniform now kind s =
     (if kind = base_kind EXEC_START then pp_join uniform now s
      else if kind = p2p_kind PEER_DISCOVERY \<and> pp_discoveryAttempts s \<noteq> 0
      then Inr (s\<lparr>pp_asked := pp_asked s @ pp_services s\<rparr>)
      else if kind = p2p_kind PEER_CONNECTION then
        (if pp_resolutionList s \<noteq> {} then and_then (connectToPeer fresh s) (pp_schedule now 1)
         else if (of_nat (card (pp_peers s)) :: u64) < of_int (pp_discoveryThreshold s)
         then pp_join uniform now (s\<lparr>pp_discoveryAttempts := pp_discoveryAttempts s - 1\<rparr>)
         else Inr (s\<lparr>pp_kind := p2p_kind CONNECTED\<rparr>))
      else Inr s)"

section \<open>Connections\<close>

text \<open>\<open>handleConnectFailure\<close> and \<open>handlePeerClosed\<close> both forget the peer, and read it through \<open>peerData[sockFd]\<close>.\<close>

definition forget_peer :: "int \<Rightarrow> ('ip, 'x) P2P_scheme \<Rightarrow> ('ip, 'x) P2P_scheme outcome" where
  "forget_peer fd s =
     (case map_of (pp_peerData s) fd of
        Some (Some p) \<Rightarrow> Inr (s\<lparr>pp_peers := pp_peers s - {pr_ip p}, pp_peerData := filter (\<lambda>(k, _). k \<noteq> fd) (pp_peerData s)\<rparr>)
      | _ \<Rightarrow> Inl (Undefined ''null peer''))"

definition handleConnectFailure :: "int \<Rightarrow> ('ip, 'x) P2P_scheme \<Rightarrow> ('ip, 'x) P2P_scheme outcome" where
  "handleConnectFailure fd s = forget_peer fd s"

definition pp_handlePeerClosed :: "int \<Rightarrow> ('ip, 'x) P2P_scheme \<Rightarrow> (bool \<times> ('ip, 'x) P2P_scheme) outcome" where
  "pp_handlePeerClosed fd s = and_then (forget_peer fd s) (\<lambda>s'. Inr (True, s'))"

text \<open>\<open>std::find_if\<close> over the entries; 0 stands for none.\<close>

fun find_peer :: "'ip \<Rightarrow> (int \<times> 'ip PowPeer option) list \<Rightarrow> int outcome" where
  "find_peer ip [] = Inr 0"
| "find_peer ip ((fd, p) # ps) =
     (case p of None \<Rightarrow> Inl (Undefined ''null peer'')
      | Some q \<Rightarrow> if pr_ip q = ip then Inr fd else find_peer ip ps)"

definition getSockFd :: "'ip \<Rightarrow> ('ip, 'x) P2P_scheme \<Rightarrow> int outcome" where
  "getSockFd ip s = find_peer ip (pp_peerData s)"

text \<open>\<open>localPort\<close> gives the local port of a socket of the network library.\<close>

definition isClient :: "(int \<Rightarrow> int) \<Rightarrow> int \<Rightarrow> ('ip, 'x) P2P_scheme \<Rightarrow> bool outcome" where
  "isClient localPort fd s = and_then (cast_socket SOCK_STREAM fd s) (\<lambda>_. Inr (pp_listeningPort s \<noteq> localPort fd))"

definition pp_finish :: "int list \<Rightarrow> ('ip, 'x) P2P_scheme \<Rightarrow> ('ip, 'x) P2P_scheme outcome" where
  "pp_finish ids s =
     and_then (for_each app_close (map fst (pp_peerData s)) s) (\<lambda>s'.
       Inr (app_base_finish ids (s'\<lparr>pp_peers := {}, pp_resolutionList := {}\<rparr>)))"

section \<open>Discovery services\<close>

text \<open>
  Both services answer a request of a module of their node: the one from its list of addresses, the other with
  what its resolver finds under the seed, a name it registers its own address for when it is connected.
\<close>

datatype 'ip discovery_out =
    Resolution int "'ip list"
  | RegisterSeed string string 'ip     \<comment> \<open>zone, name and address of the record put\<close>

record 'ip HardcodedDiscovery =
  hd_addressList :: "'ip list"
  hd_out :: "'ip discovery_out list"

definition hd_initialize :: "(string \<Rightarrow> 'ip) \<Rightarrow> string list \<Rightarrow> 'ip HardcodedDiscovery" where
  "hd_initialize parse_ip addresses = \<lparr>hd_addressList = map parse_ip addresses, hd_out = []\<rparr>"

definition hd_handleRequest :: "int \<Rightarrow> 'ip HardcodedDiscovery \<Rightarrow> 'ip HardcodedDiscovery" where
  "hd_handleRequest caller s = s\<lparr>hd_out := hd_out s @ [Resolution caller (hd_addressList s)]\<rparr>"

record 'ip DnsDiscovery = "'ip AppBase" +
  dd_dnsIp :: 'ip
  dd_dnsSeed :: string
  dd_dnsSock :: int
  dd_localIp :: 'ip
  dd_caller :: "int option"
  dd_sent :: "'ip discovery_out list"

definition dd_initialize :: "rat \<Rightarrow> int \<Rightarrow> 'ip \<Rightarrow> 'ip DnsDiscovery \<Rightarrow> 'ip DnsDiscovery outcome" where
  "dd_initialize now fd ip s =
     (let s1 = (app_open fd (-1) SOCK_STREAM [] (app_base_initialize now s))\<lparr>dd_dnsSock := fd, dd_localIp := ip\<rparr>
      in app_connect fd (dd_dnsIp s1) 443 s1)"

definition dd_handleRequest :: "int \<Rightarrow> 'ip DnsDiscovery \<Rightarrow> 'ip DnsDiscovery outcome" where
  "dd_handleRequest moduleId s = app_resolve (dd_dnsSeed s) (s\<lparr>dd_caller := Some moduleId\<rparr>)"

text \<open>\<open>handleResolutionFinished\<close>; the set is passed on in its order.\<close>

definition dd_handleResolutions :: "'ip::linorder set \<Rightarrow> bool \<Rightarrow> 'ip DnsDiscovery \<Rightarrow> 'ip DnsDiscovery outcome" where
  "dd_handleResolutions ips resolved s =
     (if \<not> resolved then Inl (RuntimeError ''No peers connected on DNS seed'')
      else (case dd_caller s of
              None \<Rightarrow> Inl (Undefined ''null module'')
            | Some c \<Rightarrow> Inr (s\<lparr>dd_sent := dd_sent s @ [Resolution c (sorted_list_of_set ips)]\<rparr>)))"

definition dd_handleConnectReturn :: "int \<Rightarrow> bool \<Rightarrow> 'ip DnsDiscovery \<Rightarrow> 'ip DnsDiscovery outcome" where
  "dd_handleConnectReturn fd ok s =
     (if fd \<noteq> dd_dnsSock s then Inr s
      else if \<not> ok then Inl (RuntimeError ''Cannot connect to DNS to join the network'')
      else and_then (cast_socket SOCK_STREAM fd s) (\<lambda>_.
             Inr (s\<lparr>dd_sent := dd_sent s @ [RegisterSeed ''mainnet.com'' (dd_dnsSeed s) (dd_localIp s)]\<rparr>)))"

definition dd_finish :: "int list \<Rightarrow> 'ip DnsDiscovery \<Rightarrow> 'ip DnsDiscovery outcome" where
  "dd_finish ids s = and_then (app_close (dd_dnsSock s) s) (\<lambda>s'. Inr (app_base_finish ids s'))"

end
