(* ===== verification/PowP2P.thy ===== *)
theory PowP2P
  imports P2P
begin

text \<open>
  The protocol of the nodes of a blockchain, \<open>architecture/p2p/pow/PowP2P\<close>, with its message consumers and
  producers: peers introduce themselves with \<open>version\<close> and \<open>verack\<close>, exchange the addresses they know, and keep
  a connection alive with \<open>ping\<close> and \<open>pong\<close>.

  A packet is its command with the payload the consumer of the command reads.  The local port and the remote end
  of a socket, the system time and the random nonces are arguments; the timer of a connection is the record of
  its kind, its context and the time it is due.
\<close>

section \<open>Packets\<close>

record 'ip VersionPayload =
  vp_version :: int
  vp_services :: u64
  vp_timestamp :: int
  vp_recvServices :: u64
  vp_recvIp :: 'ip
  vp_recvPort :: u16
  vp_transServices :: u64
  vp_transIp :: 'ip
  vp_transPort :: u16
  vp_nonce :: u64
  vp_userAgentBytes :: u64
  vp_userAgent :: string
  vp_startHeight :: int
  vp_relay :: bool

datatype 'ip pow_packet =
    VersionMsg "'ip VersionPayload"
  | VerackMsg
  | GetAddrMsg
  | AddrMsg "'ip PowPeer list"
  | PingMsg u64
  | PongMsg u64
  | OtherCommand string

definition UNNAMED :: u64 where "UNNAMED = 0"
definition NODE_NETWORK :: u64 where "NODE_NETWORK = 1"
definition PONG_TIMEOUT_SECONDS :: rat where "PONG_TIMEOUT_SECONDS = 1200"
definition PING_POLLING_MIN :: rat where "PING_POLLING_MIN = 60"
definition PING_POLLING_MAX :: rat where "PING_POLLING_MAX = 600"
definition SEND_PING :: int where "SEND_PING = 8"
definition AWAITING_POLL :: int where "AWAITING_POLL = 9"

section \<open>State\<close>

record conn_timer =
  ct_kind :: int
  ct_context :: "int option"
  ct_at :: "rat option"

definition new_timer :: conn_timer where
  "new_timer = \<lparr>ct_kind = 0, ct_context = None, ct_at = None\<rparr>"

record 'ip PowP2P = "'ip P2P" +
  pw_self :: "'ip PowPeer"
  pw_connection :: "int \<Rightarrow> conn_timer option"
  pw_sent :: "(int \<times> 'ip pow_packet) list"
  pw_nonces :: nat

text \<open>What the network and the operating system tell the node.\<close>

record 'ip pow_env =
  en_fresh :: "nat \<Rightarrow> int"
  en_uniform :: "nat \<Rightarrow> rat \<Rightarrow> rat \<Rightarrow> rat"
  en_nonce :: "nat \<Rightarrow> u64"
  en_systime :: int
  en_localPort :: "int \<Rightarrow> int"
  en_remoteIp :: "int \<Rightarrow> 'ip"
  en_remotePort :: "int \<Rightarrow> u16"

definition pw_send :: "int \<Rightarrow> 'ip pow_packet \<Rightarrow> 'ip PowP2P \<Rightarrow> 'ip PowP2P outcome" where
  "pw_send fd p s = and_then (cast_socket SOCK_STREAM fd s) (\<lambda>_. Inr (s\<lparr>pw_sent := pw_sent s @ [(fd, p)]\<rparr>))"

definition pw_initialize_app :: "'ip pow_env \<Rightarrow> 'ip \<Rightarrow> 'ip PowP2P \<Rightarrow> 'ip PowP2P outcome" where
  "pw_initialize_app en ip s =
     and_then (pp_initialize_app (en_fresh en) ip s) (\<lambda>s1.
       Inr (s1\<lparr>pw_self := (pw_self s1)\<lparr>pr_services := NODE_NETWORK, pr_time := of_int (en_systime en), pr_ip := ip\<rparr>\<rparr>))"

definition pw_initialize_local :: "rat \<Rightarrow> int list \<Rightarrow> 'ip PowP2P \<Rightarrow> 'ip PowP2P" where
  "pw_initialize_local now services s =
     (pp_initialize_local now services s)\<lparr>pw_connection := Map.empty, pw_sent := [], pw_nonces := 0\<rparr>"

definition pw_finish :: "int list \<Rightarrow> 'ip PowP2P \<Rightarrow> 'ip PowP2P outcome" where
  "pw_finish ids s = pp_finish ids (s\<lparr>pw_connection := Map.empty\<rparr>)"

section \<open>Producers and consumers\<close>

definition ping_buildMessage :: "'ip pow_env \<Rightarrow> 'ip PowP2P \<Rightarrow> 'ip pow_packet \<times> 'ip PowP2P" where
  "ping_buildMessage en s = (PingMsg (en_nonce en (pw_nonces s)), s\<lparr>pw_nonces := pw_nonces s + 1\<rparr>)"

definition version_buildMessage ::
  "'ip pow_env \<Rightarrow> 'ip PowPeer \<Rightarrow> 'ip PowP2P \<Rightarrow> 'ip pow_packet \<times> 'ip PowP2P" where
  "version_buildMessage en peer s =
     (VersionMsg \<lparr>vp_version = 1, vp_services = pr_services (pw_self s), vp_timestamp = en_systime en,
        vp_recvServices = pr_services peer, vp_recvIp = pr_ip peer, vp_recvPort = pr_port peer,
        vp_transServices = pr_services (pw_self s), vp_transIp = pr_ip (pw_self s), vp_transPort = pr_port (pw_self s),
        vp_nonce = en_nonce en (pw_nonces s), vp_userAgentBytes = 5, vp_userAgent = ''TODO'', vp_startHeight = 0,
        vp_relay = True\<rparr>, s\<lparr>pw_nonces := pw_nonces s + 1\<rparr>)"

datatype 'ip pow_action =
    OpenPeers "'ip PowPeer list"
  | SchedulePeer int rat rat
  | CancelPeer int rat rat
  | NoAction

text \<open>\<open>ictx.peers[ictx.sockFd]\<close> makes an entry with a null pointer when there is none.\<close>

definition peer_at :: "int \<Rightarrow> 'ip PowP2P \<Rightarrow> 'ip PowPeer option \<times> 'ip PowP2P" where
  "peer_at fd s =
     (let m = map_at fd None id (pp_peerData s)
      in (case map_of m fd of Some p \<Rightarrow> p | None \<Rightarrow> None, s\<lparr>pp_peerData := m\<rparr>))"

definition version_handleMessage ::
  "int \<Rightarrow> 'ip VersionPayload \<Rightarrow> 'ip PowP2P \<Rightarrow> ('ip pow_action \<times> 'ip PowP2P) outcome" where
  "version_handleMessage fd v s =
     (let (p, s1) = peer_at fd s
      in if vp_version v \<noteq> 1 then Inr (NoAction, s1)
         else (case p of
                 None \<Rightarrow> Inl (Undefined ''null peer'')
               | Some q \<Rightarrow> Inr (NoAction, s1\<lparr>pp_peerData := map_at fd None
                   (\<lambda>_. Some (q\<lparr>pr_services := vp_transServices v, pr_time := of_int (vp_timestamp v), pr_port := vp_transPort v\<rparr>))
                   (pp_peerData s1)\<rparr>)))"

definition verack_handleMessage :: "'ip PowP2P \<Rightarrow> ('ip pow_action \<times> 'ip PowP2P) outcome" where
  "verack_handleMessage s = Inr (SchedulePeer SEND_PING PING_POLLING_MIN PING_POLLING_MAX, s)"

definition verack_buildResponse :: "bool \<Rightarrow> 'ip pow_packet option" where
  "verack_buildResponse client = (if client then Some GetAddrMsg else None)"

fun copy_peers :: "(int \<times> 'ip PowPeer option) list \<Rightarrow> 'ip PowPeer list outcome" where
  "copy_peers [] = Inr []"
| "copy_peers ((fd, p) # ps) =
     (case p of None \<Rightarrow> Inl (Undefined ''null peer'') | Some q \<Rightarrow> and_then (copy_peers ps) (\<lambda>qs. Inr (q # qs)))"

definition getaddr_buildResponse :: "'ip PowP2P \<Rightarrow> 'ip pow_packet option outcome" where
  "getaddr_buildResponse s = and_then (copy_peers (pp_peerData s)) (\<lambda>qs. Inr (Some (AddrMsg qs)))"

fun unknown_peers :: "'ip PowPeer list \<Rightarrow> 'ip PowP2P \<Rightarrow> 'ip PowPeer list outcome" where
  "unknown_peers [] s = Inr []"
| "unknown_peers (p # ps) s =
     (if pr_ip p = pr_ip (pw_self s) then unknown_peers ps s
      else and_then (find_peer (pr_ip p) (pp_peerData s)) (\<lambda>fd.
           if fd \<noteq> 0 then unknown_peers ps s else and_then (unknown_peers ps s) (\<lambda>qs. Inr (p # qs))))"

definition address_handleMessage :: "'ip PowPeer list \<Rightarrow> 'ip PowP2P \<Rightarrow> ('ip pow_action \<times> 'ip PowP2P) outcome" where
  "address_handleMessage ps s = and_then (unknown_peers ps s) (\<lambda>qs. Inr (OpenPeers qs, s))"

definition ping_buildResponse :: "u64 \<Rightarrow> 'ip pow_packet option" where
  "ping_buildResponse n = Some (PongMsg n)"

definition pong_handleMessage :: "'ip PowP2P \<Rightarrow> ('ip pow_action \<times> 'ip PowP2P) outcome" where
  "pong_handleMessage s = Inr (CancelPeer SEND_PING PING_POLLING_MIN PING_POLLING_MAX, s)"

text \<open>The consumer of a command: what it does, then the response it builds.\<close>

definition consume ::
  "bool \<Rightarrow> int \<Rightarrow> 'ip pow_packet \<Rightarrow> 'ip PowP2P \<Rightarrow> ('ip pow_action \<times> 'ip pow_packet option \<times> 'ip PowP2P) outcome" where
  "consume client fd p s =
     (case p of
        VersionMsg v \<Rightarrow> and_then (version_handleMessage fd v s) (\<lambda>(a, s'). Inr (a, Some VerackMsg, s'))
      | VerackMsg \<Rightarrow> and_then (verack_handleMessage s) (\<lambda>(a, s'). Inr (a, verack_buildResponse client, s'))
      | GetAddrMsg \<Rightarrow> and_then (getaddr_buildResponse s) (\<lambda>r. Inr (NoAction, r, s))
      | AddrMsg ps \<Rightarrow> and_then (address_handleMessage ps s) (\<lambda>(a, s'). Inr (a, None, s'))
      | PingMsg n \<Rightarrow> Inr (NoAction, ping_buildResponse n, s)
      | PongMsg n \<Rightarrow> and_then (pong_handleMessage s) (\<lambda>(a, s'). Inr (a, None, s'))
      | OtherCommand c \<Rightarrow> Inl (RuntimeError ''Message kind not yet implemented!''))"

section \<open>The node\<close>

definition pw_cancel :: "int \<Rightarrow> 'ip PowP2P \<Rightarrow> 'ip PowP2P outcome" where
  "pw_cancel fd s =
     (case pw_connection s fd of
        None \<Rightarrow> Inl (RuntimeError ''cancelEvent(): null message'')
      | Some c \<Rightarrow> Inr (s\<lparr>pw_connection := (pw_connection s)(fd \<mapsto> c\<lparr>ct_at := None\<rparr>)\<rparr>))"

definition pw_schedule :: "rat \<Rightarrow> int \<Rightarrow> int \<Rightarrow> int option \<Rightarrow> rat \<Rightarrow> 'ip PowP2P \<Rightarrow> 'ip PowP2P outcome" where
  "pw_schedule now fd kind ctx d s =
     (case pw_connection s fd of
        None \<Rightarrow> Inl (Undefined ''null event'')
      | Some c \<Rightarrow>
          if ct_at c \<noteq> None then Inl (RuntimeError ''scheduleAt(): message is already scheduled'')
          else Inr (s\<lparr>pw_connection := (pw_connection s)(fd \<mapsto> \<lparr>ct_kind = kind, ct_context = ctx, ct_at = Some (now + d)\<rparr>)\<rparr>))"

text \<open>The branch \<open>SCHEDULE\<close>: nothing is scheduled without a delay.\<close>

definition schedule_peer ::
  "'ip pow_env \<Rightarrow> rat \<Rightarrow> int \<Rightarrow> int \<Rightarrow> rat \<Rightarrow> rat \<Rightarrow> 'ip PowP2P \<Rightarrow> 'ip PowP2P outcome" where
  "schedule_peer en now fd kind mn mx s =
     (if mn = 0 then Inr s
      else pw_schedule now fd kind (Some fd) (en_uniform en (pp_draws s) mn mx) (s\<lparr>pp_draws := pp_draws s + 1\<rparr>))"

definition open_peer :: "'ip pow_env \<Rightarrow> 'ip PowPeer \<Rightarrow> 'ip PowP2P \<Rightarrow> 'ip PowP2P" where
  "open_peer en p s =
     (let (fd, s1) = pp_open (en_fresh en) (-1) s
      in s1\<lparr>pp_peerData := map_at fd None (\<lambda>_. Some (p\<lparr>pr_port := of_int (pp_listeningPort s1)\<rparr>)) (pp_peerData s1)\<rparr>)"

definition pw_action :: "'ip pow_env \<Rightarrow> rat \<Rightarrow> int \<Rightarrow> 'ip pow_action \<Rightarrow> 'ip PowP2P \<Rightarrow> 'ip PowP2P outcome" where
  "pw_action en now fd a s =
     (case a of
        OpenPeers ps \<Rightarrow> Inr (fold (open_peer en) ps s)
      | CancelPeer kind mn mx \<Rightarrow> and_then (pw_cancel fd s) (schedule_peer en now fd kind mn mx)
      | SchedulePeer kind mn mx \<Rightarrow> schedule_peer en now fd kind mn mx s
      | NoAction \<Rightarrow> Inr s)"

definition pw_handleDataArrived :: "'ip pow_env \<Rightarrow> rat \<Rightarrow> int \<Rightarrow> 'ip pow_packet \<Rightarrow> 'ip PowP2P \<Rightarrow> 'ip PowP2P outcome" where
  "pw_handleDataArrived en now fd p s =
     and_then (isClient (en_localPort en) fd s) (\<lambda>client.
     and_then (consume client fd p s) (\<lambda>(a, response, s1).
     and_then (pw_action en now fd a s1) (\<lambda>s2.
       case response of None \<Rightarrow> Inr s2 | Some r \<Rightarrow> pw_send fd r s2)))"

text \<open>The end of \<open>handleConnectReturn\<close>: the peer gets its entry, its event and a \<open>version\<close>.\<close>

definition pw_greet :: "'ip pow_env \<Rightarrow> int \<Rightarrow> int \<Rightarrow> 'ip PowPeer \<Rightarrow> 'ip PowP2P \<Rightarrow> 'ip PowP2P outcome" where
  "pw_greet en fd oldSock q s =
     (let p = q\<lparr>pr_ip := en_remoteIp en fd, pr_port := en_remotePort en fd\<rparr>;
          old = (if oldSock \<noteq> 0 then filter (\<lambda>(k, _). k \<noteq> oldSock) (pp_peerData s) else pp_peerData s);
          s2 = s\<lparr>pp_peers := insert (pr_ip p) (pp_peers s), pp_peerData := map_at fd None (\<lambda>_. Some p) old,
                 pw_connection := (pw_connection s)(fd \<mapsto> new_timer),
                 pw_self := (pw_self s)\<lparr>pr_port := of_int (en_localPort en fd)\<rparr>\<rparr>
      in pw_send fd (fst (version_buildMessage en p s2)) (snd (version_buildMessage en p s2)))"

definition pw_handleConnectReturn :: "'ip pow_env \<Rightarrow> int \<Rightarrow> bool \<Rightarrow> 'ip PowP2P \<Rightarrow> 'ip PowP2P outcome" where
  "pw_handleConnectReturn en fd ok s =
     (if \<not> ok then handleConnectFailure fd s
      else and_then (isClient (en_localPort en) fd s) (\<lambda>client.
           and_then (getSockFd (en_remoteIp en fd) s) (\<lambda>oldSock.
           if en_remoteIp en fd \<in> pp_peers s then Inr s
           else if oldSock \<noteq> 0 then
             (case fst (peer_at oldSock s) of
                None \<Rightarrow> Inl (Undefined ''null peer'')
              | Some q \<Rightarrow> pw_greet en fd oldSock q (snd (peer_at oldSock s)))
           else pw_greet en fd oldSock \<lparr>pr_ip = en_remoteIp en fd, pr_time = 0, pr_services = UNNAMED, pr_port = 0\<rparr> s)))"

text \<open>
  The timer of connection \<open>fd\<close>.  When its peer is gone, the event is deleted and read again after that.
\<close>

definition pw_peerTimer :: "'ip::linorder pow_env \<Rightarrow> rat \<Rightarrow> int \<Rightarrow> 'ip PowP2P \<Rightarrow> 'ip PowP2P outcome" where
  "pw_peerTimer en now fd s =
     (case pw_connection s fd of
        None \<Rightarrow> Inl (Undefined ''null event'')
      | Some c \<Rightarrow>
          let s1 = s\<lparr>pw_connection := (pw_connection s)(fd \<mapsto> c\<lparr>ct_at := None\<rparr>)\<rparr>
          in if ct_kind c = SEND_PING then
               (case ct_context c of
                  None \<Rightarrow> Inl (Undefined ''null context'')
                | Some k \<Rightarrow>
                    if k \<in> fst ` set (pp_peerData s1) then
                      and_then (pw_schedule now k AWAITING_POLL (Some k) PONG_TIMEOUT_SECONDS s1) (\<lambda>s2.
                        let (m, s3) = ping_buildMessage en s2 in pw_send k m s3)
                    else Inl (Undefined ''use of a deleted event''))
             else if ct_kind c = AWAITING_POLL then Inr s1
             else pp_processSelfMessage (en_fresh en) (en_uniform en) now (ct_kind c) s1)"

text \<open>What arrives at a node.\<close>

datatype 'ip pow_event =
    OwnTimer
  | ConnTimer int
  | Candidates "'ip list"
  | Connected int bool
  | Arrived int "'ip pow_packet"
  | PeerClosed int
  | Accepted int

definition pw_handle :: "'ip::linorder pow_env \<Rightarrow> rat \<Rightarrow> 'ip pow_event \<Rightarrow> 'ip PowP2P \<Rightarrow> 'ip PowP2P outcome" where
  "pw_handle en now e s =
     (case e of
        OwnTimer \<Rightarrow> pp_processSelfMessage (en_fresh en) (en_uniform en) now (pp_kind s) (s\<lparr>ap_eventAt := None\<rparr>)
      | ConnTimer fd \<Rightarrow> pw_peerTimer en now fd s
      | Candidates ips \<Rightarrow> pp_handleResolution now ips s
      | Connected fd ok \<Rightarrow> pw_handleConnectReturn en fd ok s
      | Arrived fd p \<Rightarrow> pw_handleDataArrived en now fd p s
      | PeerClosed fd \<Rightarrow> and_then (pp_handlePeerClosed fd s) (\<lambda>(b, s'). if b then app_close fd s' else Inr s')
      | Accepted fd \<Rightarrow> Inr (s\<lparr>ap_sockets := (ap_sockets s)(fd \<mapsto> SOCK_STREAM)\<rparr>))"

section \<open>Joining the network\<close>

definition pw_run :: "'ip::linorder pow_env \<Rightarrow> (rat \<times> 'ip pow_event) list \<Rightarrow> 'ip PowP2P \<Rightarrow> 'ip PowP2P outcome" where
  "pw_run en = for_each (\<lambda>(t, e). pw_handle en t e)"

text \<open>\<open>PEER_DISCOVERY\<close> and \<open>EXEC_START\<close> are the same number, so a node that waits to join waits again.\<close>

definition outside :: "'ip PowP2P \<Rightarrow> bool" where
  "outside s \<longleftrightarrow> pp_kind s = p2p_kind PEER_DISCOVERY \<and> pp_asked s = [] \<and>
     (\<forall>fd c. pw_connection s fd = Some c \<longrightarrow> ct_kind c \<in> {0, SEND_PING, AWAITING_POLL})"

named_theorems outside_simps "updates that keep a node outside the network"

lemma outside_updates [outside_simps]:
  "outside (s\<lparr>ap_eventAt := a\<rparr>) = outside s" "outside (s\<lparr>pp_draws := n\<rparr>) = outside s" "outside (s\<lparr>pw_sent := x\<rparr>) = outside s"
  "outside (s\<lparr>pw_nonces := n\<rparr>) = outside s" "outside (s\<lparr>pp_peerData := d\<rparr>) = outside s" "outside (s\<lparr>pp_peers := ps\<rparr>) = outside s"
  "outside (s\<lparr>ap_sockets := so\<rparr>) = outside s" "outside (s\<lparr>ap_out := os\<rparr>) = outside s" "outside (s\<lparr>pw_self := sf\<rparr>) = outside s"
  "outside (s\<lparr>pp_opened := n\<rparr>) = outside s"
  by (simp_all add: outside_def)

lemma outside_timer [outside_simps]:
  "outside s \<Longrightarrow> ct_kind c \<in> {0, SEND_PING, AWAITING_POLL} \<Longrightarrow> outside (s\<lparr>pw_connection := (pw_connection s)(fd \<mapsto> c)\<rparr>)"
  by (simp add: outside_def)

lemma outside_send: "pw_send fd p s = Inr s' \<Longrightarrow> outside s \<Longrightarrow> outside s'"
  by (auto simp: pw_send_def and_then_eq_Inr outside_simps)

lemma outside_schedule:
  "pw_schedule now fd kind ctx d s = Inr s' \<Longrightarrow> kind \<in> {SEND_PING, AWAITING_POLL} \<Longrightarrow> outside s \<Longrightarrow> outside s'"
  by (auto simp: pw_schedule_def outside_simps split: option.splits if_splits)

lemma outside_cancel: "pw_cancel fd s = Inr s' \<Longrightarrow> outside s \<Longrightarrow> outside s'"
  by (auto simp: pw_cancel_def split: option.splits intro!: outside_timer) (auto simp: outside_def)

lemma outside_schedule_peer:
  "schedule_peer en now fd kind mn mx s = Inr s' \<Longrightarrow> kind \<in> {SEND_PING, AWAITING_POLL} \<Longrightarrow> outside s \<Longrightarrow> outside s'"
  by (auto simp: schedule_peer_def outside_simps split: if_splits intro: outside_schedule)

lemma outside_open: "outside (fold (open_peer en) ps s) = outside s"
  by (induction ps arbitrary: s) (simp_all add: open_peer_def pp_open_def app_open_def app_emit_def Let_def outside_simps)

definition ping_action :: "'ip pow_action \<Rightarrow> bool" where
  "ping_action a \<longleftrightarrow> (case a of SchedulePeer k mn mx \<Rightarrow> k = SEND_PING | CancelPeer k mn mx \<Rightarrow> k = SEND_PING | _ \<Rightarrow> True)"

lemma consume_outside:
  assumes "consume client fd p s = Inr (a, r, s')"
  shows "ping_action a" "outside s \<Longrightarrow> outside s'"
  using assms
  by (auto simp: consume_def ping_action_def and_then_eq_Inr version_handleMessage_def verack_handleMessage_def
      pong_handleMessage_def address_handleMessage_def peer_at_def Let_def outside_simps
      split: pow_packet.splits if_splits option.splits)

lemma action_outside:
  assumes "pw_action en now fd a s = Inr s'" "ping_action a" "outside s"
  shows "outside s'"
  using assms
  by (auto simp: pw_action_def ping_action_def and_then_eq_Inr outside_open split: pow_action.splits
      intro: outside_schedule_peer outside_cancel)

lemma data_outside:
  assumes "pw_handleDataArrived en now fd p s = Inr s'" "outside s"
  shows "outside s'"
proof -
  obtain client a r s1 s2 where "consume client fd p s = Inr (a, r, s1)" "pw_action en now fd a s1 = Inr s2"
    "(case r of None \<Rightarrow> Inr s2 | Some x \<Rightarrow> pw_send fd x s2) = Inr s'"
    using assms(1) by (auto simp: pw_handleDataArrived_def and_then_eq_Inr)
  with assms(2) consume_outside action_outside outside_send show ?thesis
    by (metis Inr_inject option.case_eq_if)
qed

lemma outside_cong:
  assumes "pp_kind s' = pp_kind s" "pp_asked s' = pp_asked s" "outside s"
    "\<And>fd c. pw_connection s' fd = Some c \<Longrightarrow> pw_connection s fd = Some c \<or> ct_kind c \<in> {0, SEND_PING, AWAITING_POLL}"
  shows "outside s'"
  using assms(3) by (auto simp: outside_def assms(1,2) dest!: assms(4))

lemma greet_outside:
  assumes "pw_greet en fd k q s = Inr s'" "outside s"
  shows "outside s'"
proof -
  have "pp_kind s' = pp_kind s" "pp_asked s' = pp_asked s" "pw_connection s' = (pw_connection s)(fd \<mapsto> new_timer)"
    using assms(1) by (auto simp: pw_greet_def pw_send_def and_then_eq_Inr Let_def version_buildMessage_def)
  then show ?thesis by (intro outside_cong [OF _ _ assms(2)]) (auto simp: new_timer_def split: if_splits)
qed

lemma connect_outside:
  assumes "pw_handleConnectReturn en fd ok s = Inr s'" "outside s"
  shows "outside s'"
proof (cases ok)
  case False
  with assms show ?thesis
    by (auto simp: pw_handleConnectReturn_def handleConnectFailure_def forget_peer_def outside_simps split: option.splits)
next
  case True
  have "outside (snd (peer_at k s))" for k using assms(2) by (simp add: peer_at_def outside_simps Let_def)
  with True assms show ?thesis
    by (auto simp: pw_handleConnectReturn_def and_then_eq_Inr split: if_splits option.splits intro: greet_outside)
qed

lemma join_outside:
  assumes "pp_processSelfMessage fresh uniform now kind s = Inr s'" "kind \<in> {0, SEND_PING, AWAITING_POLL}" "outside s"
  shows "outside s'"
proof -
  have "s' = s \<or> s' = s\<lparr>pp_kind := 0, pp_draws := pp_draws s + 1, ap_eventAt := Some (now + uniform (pp_draws s) 30 120)\<rparr>"
    using assms(1,2)
    by (auto simp: pp_processSelfMessage_def pp_join_def pp_schedule_def SEND_PING_def AWAITING_POLL_def split: if_splits)
  moreover have "pp_kind s = 0" using assms(3) by (simp add: outside_def)
  ultimately show ?thesis using outside_cong [OF _ _ assms(3), of s'] by auto
qed

lemma timer_outside:
  assumes "pw_peerTimer en now fd s = Inr s'" "outside s"
  shows "outside s'"
proof -
  obtain c where c: "pw_connection s fd = Some c" using assms(1) by (auto simp: pw_peerTimer_def split: option.splits)
  with assms(2) have k: "ct_kind c \<in> {0, SEND_PING, AWAITING_POLL}" by (auto simp: outside_def)
  let ?s1 = "s\<lparr>pw_connection := (pw_connection s)(fd \<mapsto> c\<lparr>ct_at := None\<rparr>)\<rparr>"
  have s1: "outside ?s1" using assms(2) k by (simp add: outside_simps)
  show ?thesis
  proof (cases "ct_kind c = SEND_PING")
    case True
    then obtain n s2 where n: "pw_schedule now n AWAITING_POLL (Some n) PONG_TIMEOUT_SECONDS ?s1 = Inr s2"
      "pw_send n (fst (ping_buildMessage en s2)) (snd (ping_buildMessage en s2)) = Inr s'"
      using assms(1) c by (auto simp: pw_peerTimer_def Let_def and_then_eq_Inr case_prod_unfold split: option.splits if_splits)
    have "outside s2" using outside_schedule [OF n(1) _ s1] by simp
    then have "outside (snd (ping_buildMessage en s2))" by (simp add: ping_buildMessage_def outside_simps)
    then show ?thesis by (rule outside_send [OF n(2)])
  next
    case False
    with assms(1) c have "s' = ?s1 \<or> pp_processSelfMessage (en_fresh en) (en_uniform en) now (ct_kind c) ?s1 = Inr s'"
      by (auto simp: pw_peerTimer_def Let_def split: if_splits)
    with s1 k join_outside show ?thesis by metis
  qed
qed

lemma handle_outside:
  assumes "pw_handle en t e s = Inr s'" "outside s" "\<forall>ips. e \<noteq> Candidates ips"
  shows "outside s'"
proof (cases e)
  case OwnTimer
  with assms(1,2) join_outside [of "en_fresh en" "en_uniform en" t 0 "s\<lparr>ap_eventAt := None\<rparr>" s'] show ?thesis
    by (auto simp: pw_handle_def outside_simps) (simp add: outside_def)
next
  case (PeerClosed fd)
  with assms(1,2) show ?thesis
    by (auto simp: pw_handle_def pp_handlePeerClosed_def forget_peer_def app_close_def app_emit_def and_then_eq_Inr
        outside_simps split: option.splits)
qed (use assms in \<open>auto simp: pw_handle_def outside_simps intro: timer_outside connect_outside data_outside\<close>)

lemma run_outside:
  assumes "pw_run en es s = Inr s'" "outside s" "\<forall>(t, e)\<in>set es. \<forall>ips. e \<noteq> Candidates ips"
  shows "outside s'"
proof -
  have "for_each (\<lambda>(t, e). pw_handle en t e) es s = Inr s'" using assms(1) by (simp add: pw_run_def)
  then show ?thesis
    by (rule for_each_invariant [where I = outside]) (use assms(2,3) handle_outside in \<open>auto, blast\<close>)
qed

text \<open>A node never looks for peers: whatever happens to it, as long as no service answers unasked, it has
  asked no discovery service, and whenever its timer runs out it only waits for another 30 to 120 seconds.
\<close>

theorem discovery_never_starts:
  assumes "pw_initialize_app en ip (pw_initialize_local t0 services s) = Inr s0"
    and "pw_run en es s0 = Inr s1" "\<forall>(t, e)\<in>set es. \<forall>ips. e \<noteq> Candidates ips"
  shows "pp_asked s1 = [] \<and> pw_handle en t OwnTimer s1 =
    Inr (s1\<lparr>ap_eventAt := Some (t + en_uniform en (pp_draws s1) 30 120), pp_draws := pp_draws s1 + 1\<rparr>)"
proof -
  have "outside s0"
    using assms(1)
    by (auto simp: pw_initialize_app_def pp_initialize_app_def pp_open_def app_listen_def cast_socket_def and_then_eq_Inr
        Let_def app_open_def app_emit_def pw_initialize_local_def pp_initialize_local_def outside_def)
  with assms(2,3) run_outside have o: "outside s1" by blast
  then show ?thesis
    by (simp add: pw_handle_def pp_processSelfMessage_def pp_join_def pp_schedule_def outside_def)
qed

section \<open>A concrete pair\<close>

text \<open>The first node opened its socket 4 to the second, which accepted it as 6.\<close>

definition pow_node :: "nat \<Rightarrow> int \<Rightarrow> nat PowP2P" where
  "pow_node ip fd = \<lparr>ap_core = core_initialize 5 ''app'', ap_pid = 1, ap_vmId = 0, ap_operationStart = 0, ap_resolver = False,
     ap_startDelay = 1, ap_appInstance = ''p2p'', ap_event = EXEC_START, ap_eventAt = None, ap_outGate = 2,
     ap_sockets = [fd \<mapsto> SOCK_STREAM], ap_out = [], pp_kind = 0, pp_peerData = [], pp_peers = {}, pp_localIp = ip,
     pp_listeningPort = 8333, pp_listeningSocket = None, pp_services = [], pp_numServices = 0, pp_resolutionList = {},
     pp_discoveryAttempts = 3, pp_discoveryThreshold = 5, pp_opened = 0, pp_draws = 0, pp_asked = [],
     pw_self = \<lparr>pr_ip = ip, pr_time = 0, pr_services = NODE_NETWORK, pr_port = 0\<rparr>, pw_connection = Map.empty, pw_sent = [],
     pw_nonces = 0\<rparr>"

definition pow_outside :: "nat \<Rightarrow> int \<Rightarrow> nat pow_env" where
  "pow_outside ip port = \<lparr>en_fresh = int, en_uniform = (\<lambda>k a b. a), en_nonce = of_nat, en_systime = 7,
     en_localPort = (\<lambda>_. port), en_remoteIp = (\<lambda>_. ip), en_remotePort = (\<lambda>_. 9)\<rparr>"

theorem discovery_never_starts_witness:
  "\<exists>s0 s1. pw_initialize_app (pow_outside 2 8333) 1 (pw_initialize_local 0 [3, 4] (pow_node 1 4)) = Inr s0 \<and>
     pw_run (pow_outside 2 8333) [(1, OwnTimer), (31, OwnTimer), (61, OwnTimer)] s0 = Inr s1 \<and> pp_asked s1 = []"
proof -
  obtain s0 where s0: "pw_initialize_app (pow_outside 2 8333) 1 (pw_initialize_local 0 [3, 4] (pow_node 1 4)) = Inr s0"
    by (simp add: pw_initialize_app_def pp_initialize_app_def pp_open_def app_listen_def cast_socket_def app_open_def app_emit_def Let_def)
  have nil: "pw_run (pow_outside 2 8333) [] s0 = Inr s0" by (simp add: pw_run_def)
  have step: "\<exists>s'. pw_run (pow_outside 2 8333) (es @ [(t, OwnTimer)]) s0 = Inr s'"
    if "pw_run (pow_outside 2 8333) es s0 = Inr s" "\<forall>(t, e)\<in>set es. \<forall>ips. e \<noteq> Candidates ips" for es s t
    using discovery_never_starts [OF s0 that, of t] that(1)
    by (auto simp: pw_run_def for_each_append)
  obtain s1 where "pw_run (pow_outside 2 8333) [(1, OwnTimer)] s0 = Inr s1" using step [OF nil, of 1] by auto
  from step [OF this, of 31] obtain s2 where "pw_run (pow_outside 2 8333) [(1, OwnTimer), (31, OwnTimer)] s0 = Inr s2" by auto
  from step [OF this, of 61] obtain s3 where s3:
    "pw_run (pow_outside 2 8333) [(1, OwnTimer), (31, OwnTimer), (61, OwnTimer)] s0 = Inr s3" by auto
  with discovery_never_starts [OF s0 s3, of 0] s0 show ?thesis by auto
qed

end
