(* ===== verification/PowLink.thy ===== *)
theory PowLink
  imports PowP2P
begin

text \<open>
  Two nodes of \<open>PowP2P\<close> and the connection between them: how they introduce themselves, and how each keeps the
  connection alive with its pings while it answers those of the other.
\<close>

section \<open>A connection\<close>

definition speaks :: "int \<Rightarrow> 'ip PowP2P \<Rightarrow> bool" where
  "speaks fd s \<longleftrightarrow> ap_sockets s fd = Some SOCK_STREAM \<and> fd \<in> fst ` set (pp_peerData s)"

text \<open>The next \<open>ping\<close> of a connection is due at time \<open>d\<close>.\<close>

definition due_at :: "int \<Rightarrow> rat \<Rightarrow> 'ip PowP2P \<Rightarrow> bool" where
  "due_at fd d s \<longleftrightarrow> pw_connection s fd = Some \<lparr>ct_kind = SEND_PING, ct_context = Some fd, ct_at = Some d\<rparr>"

text \<open>A random number of the library lies between its bounds.\<close>

definition random_in_bounds :: "'ip pow_env \<Rightarrow> bool" where
  "random_in_bounds en \<longleftrightarrow> (\<forall>k p q. p \<le> q \<longrightarrow> p \<le> en_uniform en k p q \<and> en_uniform en k p q \<le> q)"

lemma next_ping_delay:
  assumes "random_in_bounds en"
  shows "60 \<le> en_uniform en k PING_POLLING_MIN PING_POLLING_MAX" "en_uniform en k PING_POLLING_MIN PING_POLLING_MAX \<le> 600"
proof -
  have "PING_POLLING_MIN \<le> en_uniform en k PING_POLLING_MIN PING_POLLING_MAX \<and>
      en_uniform en k PING_POLLING_MIN PING_POLLING_MAX \<le> PING_POLLING_MAX"
    using assms unfolding random_in_bounds_def by (simp add: PING_POLLING_MIN_def PING_POLLING_MAX_def)
  then show "60 \<le> en_uniform en k PING_POLLING_MIN PING_POLLING_MAX" "en_uniform en k PING_POLLING_MIN PING_POLLING_MAX \<le> 600"
    by (simp_all add: PING_POLLING_MIN_def PING_POLLING_MAX_def)
qed

text \<open>The first exchange of two nodes over a new connection, opened by the first one.\<close>

abbreviation last_sent :: "'ip PowP2P \<Rightarrow> 'ip pow_packet" where
  "last_sent s \<equiv> snd (last (pw_sent s))"

definition handshake ::
  "'ip::linorder pow_env \<Rightarrow> 'ip pow_env \<Rightarrow> int \<Rightarrow> int \<Rightarrow> rat \<Rightarrow> 'ip PowP2P \<Rightarrow> 'ip PowP2P \<Rightarrow> ('ip PowP2P \<times> 'ip PowP2P) outcome" where
  "handshake en em a b t x y =
     and_then (pw_handle en t (Connected a True) x) (\<lambda>x1.
     and_then (pw_handle em t (Connected b True) y) (\<lambda>y1.
     and_then (pw_handle en t (Arrived a (last_sent y1)) x1) (\<lambda>x2.
     and_then (pw_handle em t (Arrived b (last_sent x1)) y1) (\<lambda>y2.
     and_then (pw_handle en t (Arrived a (last_sent y2)) x2) (\<lambda>x3.
     and_then (pw_handle em t (Arrived b (last_sent x2)) y2) (\<lambda>y3.
     and_then (pw_handle em t (Arrived b (last_sent x3)) y3) (\<lambda>y4.
     and_then (pw_handle en t (Arrived a (last_sent y4)) x3) (\<lambda>x4. Inr (x4, y4)))))))))"

definition introduces :: "'ip pow_env \<Rightarrow> int \<Rightarrow> 'ip PowP2P \<Rightarrow> 'ip PowPeer" where
  "introduces en fd s = \<lparr>pr_ip = pr_ip (pw_self s), pr_time = of_int (en_systime en),
     pr_services = pr_services (pw_self s), pr_port = of_int (en_localPort en fd)\<rparr>"

definition new_link :: "'ip pow_env \<Rightarrow> int \<Rightarrow> 'ip \<Rightarrow> 'ip PowP2P \<Rightarrow> bool" where
  "new_link en fd remote s \<longleftrightarrow> ap_sockets s fd = Some SOCK_STREAM \<and> pp_peerData s = [] \<and> pp_peers s = {} \<and>
     en_remoteIp en fd = remote"

text \<open>The versions the nodes send when the connection is there, and what each makes of the other's.\<close>

definition greeted :: "'ip pow_env \<Rightarrow> int \<Rightarrow> 'ip PowP2P \<Rightarrow> 'ip PowP2P" where
  "greeted en fd s =
     (let p = \<lparr>pr_ip = en_remoteIp en fd, pr_time = 0, pr_services = UNNAMED, pr_port = en_remotePort en fd\<rparr>;
          s2 = s\<lparr>pp_peers := {en_remoteIp en fd}, pp_peerData := [(fd, Some p)], pw_connection := (pw_connection s)(fd \<mapsto> new_timer),
                 pw_self := (pw_self s)\<lparr>pr_port := of_int (en_localPort en fd)\<rparr>\<rparr>
      in (snd (version_buildMessage en p s2))\<lparr>pw_sent := pw_sent s @ [(fd, fst (version_buildMessage en p s2))]\<rparr>)"

lemma new_link_connected:
  assumes "new_link en fd r s"
  shows "pw_handle en t (Connected fd True) s = Inr (greeted en fd s)"
  using assms
  by (simp add: new_link_def pw_handle_def pw_handleConnectReturn_def isClient_def cast_socket_def getSockFd_def pw_greet_def
      Let_def version_buildMessage_def pw_send_def greeted_def)

definition acquainted :: "int \<Rightarrow> 'ip PowPeer \<Rightarrow> 'ip PowP2P \<Rightarrow> 'ip PowP2P" where
  "acquainted fd q s = s\<lparr>pp_peerData := [(fd, Some q)], pw_sent := pw_sent s @ [(fd, VerackMsg)]\<rparr>"

lemma greeted_version:
  assumes "ap_sockets s fd = Some SOCK_STREAM" "en_remoteIp en fd = pr_ip (pw_self r)"
  shows "pw_handle en t (Arrived fd (last_sent (greeted em k r))) (greeted en fd s) =
    Inr (acquainted fd (introduces em k r) (greeted en fd s))"
  using assms
  by (simp add: pw_handle_def pw_handleDataArrived_def isClient_def cast_socket_def consume_def version_handleMessage_def
      peer_at_def greeted_def Let_def version_buildMessage_def pw_action_def pw_send_def acquainted_def introduces_def)

definition pinging :: "'ip pow_env \<Rightarrow> rat \<Rightarrow> int \<Rightarrow> 'ip PowP2P \<Rightarrow> 'ip PowP2P" where
  "pinging en t fd s = s\<lparr>pp_draws := pp_draws s + 1, pw_connection := (pw_connection s)(fd \<mapsto>
     \<lparr>ct_kind = SEND_PING, ct_context = Some fd, ct_at = Some (t + en_uniform en (pp_draws s) PING_POLLING_MIN PING_POLLING_MAX)\<rparr>)\<rparr>"

lemma acquainted_verack:
  assumes "ap_sockets s fd = Some SOCK_STREAM"
  shows "pw_handle en t (Arrived fd VerackMsg) (acquainted fd q (greeted en fd s)) =
    Inr (let s1 = pinging en t fd (acquainted fd q (greeted en fd s))
         in if pp_listeningPort s \<noteq> en_localPort en fd then s1\<lparr>pw_sent := pw_sent s1 @ [(fd, GetAddrMsg)]\<rparr> else s1)"
  using assms
  by (simp add: pw_handle_def pw_handleDataArrived_def isClient_def cast_socket_def consume_def verack_handleMessage_def
      verack_buildResponse_def pw_action_def schedule_peer_def pw_schedule_def PING_POLLING_MIN_def acquainted_def
      greeted_def version_buildMessage_def new_timer_def pinging_def Let_def pw_send_def)

lemma pinging_getaddr:
  assumes "ap_sockets s fd = Some SOCK_STREAM" "pp_peerData s = [(fd, Some q)]"
  shows "pw_handle en t (Arrived fd GetAddrMsg) s = Inr (s\<lparr>pw_sent := pw_sent s @ [(fd, AddrMsg [q])]\<rparr>)"
  using assms
  by (simp add: pw_handle_def pw_handleDataArrived_def isClient_def cast_socket_def consume_def getaddr_buildResponse_def
      pw_action_def pw_send_def)

lemma own_address_ignored:
  assumes "ap_sockets s fd = Some SOCK_STREAM" "pr_ip q = pr_ip (pw_self s)"
  shows "pw_handle en t (Arrived fd (AddrMsg [q])) s = Inr s"
  using assms
  by (simp add: pw_handle_def pw_handleDataArrived_def isClient_def cast_socket_def consume_def address_handleMessage_def
      pw_action_def)

lemma handshake_spec:
  assumes "new_link en a (pr_ip (pw_self y)) x" "new_link em b (pr_ip (pw_self x)) y"
    and "pp_listeningPort x \<noteq> en_localPort en a" "pp_listeningPort y = en_localPort em b"
  shows "\<exists>x' y' v w. handshake en em a b t x y = Inr (x', y') \<and>
    pp_peerData x' = [(a, Some (introduces em b y))] \<and> pp_peerData y' = [(b, Some (introduces en a x))] \<and>
    pp_peers x' = {pr_ip (pw_self y)} \<and> pp_peers y' = {pr_ip (pw_self x)} \<and> pp_opened x' = pp_opened x \<and>
    pw_sent x' = pw_sent x @ [(a, VersionMsg v), (a, VerackMsg), (a, GetAddrMsg)] \<and>
    pw_sent y' = pw_sent y @ [(b, VersionMsg w), (b, VerackMsg), (b, AddrMsg [introduces en a x])] \<and>
    speaks a x' \<and> due_at a (t + en_uniform en (pp_draws x) PING_POLLING_MIN PING_POLLING_MAX) x' \<and>
    speaks b y' \<and> due_at b (t + en_uniform em (pp_draws y) PING_POLLING_MIN PING_POLLING_MAX) y'"
proof -
  let ?x1 = "greeted en a x" and ?y1 = "greeted em b y"
  let ?x2 = "acquainted a (introduces em b y) ?x1" and ?y2 = "acquainted b (introduces en a x) ?y1"
  let ?x3 = "(pinging en t a ?x2)\<lparr>pw_sent := pw_sent (pinging en t a ?x2) @ [(a, GetAddrMsg)]\<rparr>" and ?y3 = "pinging em t b ?y2"
  let ?y4 = "?y3\<lparr>pw_sent := pw_sent ?y3 @ [(b, AddrMsg [introduces en a x])]\<rparr>"
  have so: "ap_sockets x a = Some SOCK_STREAM" "ap_sockets y b = Some SOCK_STREAM"
    "en_remoteIp en a = pr_ip (pw_self y)" "en_remoteIp em b = pr_ip (pw_self x)" using assms(1,2) by (simp_all add: new_link_def)
  note c = new_link_connected [OF assms(1), of t] new_link_connected [OF assms(2), of t]
  note v = greeted_version [OF so(1,3), of t em b] greeted_version [OF so(2,4), of t en a]
  have vx: "last_sent ?x2 = VerackMsg" and vy: "last_sent ?y2 = VerackMsg" by (simp_all add: acquainted_def)
  have lx: "last_sent ?x3 = GetAddrMsg" and ly: "last_sent ?y4 = AddrMsg [introduces en a x]" by simp_all
  note k = acquainted_verack [OF so(1), of en t "introduces em b y"] acquainted_verack [OF so(2), of em t "introduces en a x"]
  have k1: "pw_handle en t (Arrived a VerackMsg) ?x2 = Inr ?x3" using k(1) assms(3) by (simp add: Let_def)
  have k2: "pw_handle em t (Arrived b VerackMsg) ?y2 = Inr ?y3" using k(2) assms(4) by (simp add: Let_def)
  have g: "pw_handle em t (Arrived b GetAddrMsg) ?y3 = Inr ?y4"
    by (rule pinging_getaddr) (simp_all add: so pinging_def acquainted_def greeted_def Let_def version_buildMessage_def)
  have o: "pw_handle en t (Arrived a (AddrMsg [introduces en a x])) ?x3 = Inr ?x3"
    by (rule own_address_ignored)
      (simp_all add: so pinging_def acquainted_def greeted_def Let_def version_buildMessage_def introduces_def)
  have "handshake en em a b t x y = Inr (?x3, ?y4)"
    by (simp only: handshake_def c v and_then_Inr vx vy k1 k2 lx ly g o)
  then show ?thesis
    by (intro exI [of _ ?x3] exI [of _ ?y4])
      (simp add: pinging_def acquainted_def greeted_def Let_def version_buildMessage_def due_at_def speaks_def so)
qed

section \<open>What a node does with the packets and the timer of a connection\<close>

lemma node_pings:
  assumes "speaks fd s" "due_at fd d s"
  shows "pw_handle en t (ConnTimer fd) s =
    Inr (s\<lparr>pw_connection := (pw_connection s)(fd \<mapsto>
        \<lparr>ct_kind = AWAITING_POLL, ct_context = Some fd, ct_at = Some (t + PONG_TIMEOUT_SECONDS)\<rparr>),
      pw_sent := pw_sent s @ [(fd, PingMsg (en_nonce en (pw_nonces s)))], pw_nonces := pw_nonces s + 1\<rparr>)"
  using assms
  by (simp add: speaks_def due_at_def pw_handle_def pw_peerTimer_def Let_def pw_schedule_def ping_buildMessage_def pw_send_def
      cast_socket_def)

lemma node_times_out:
  assumes "pw_connection s fd = Some \<lparr>ct_kind = AWAITING_POLL, ct_context = Some fd, ct_at = w\<rparr>"
  shows "pw_handle en t (ConnTimer fd) s =
    Inr (s\<lparr>pw_connection := (pw_connection s)(fd \<mapsto> \<lparr>ct_kind = AWAITING_POLL, ct_context = Some fd, ct_at = None\<rparr>)\<rparr>)"
  using assms by (simp add: pw_handle_def pw_peerTimer_def Let_def SEND_PING_def AWAITING_POLL_def)

lemma node_answers:
  assumes "speaks fd s"
  shows "pw_handle en t (Arrived fd (PingMsg n)) s = Inr (s\<lparr>pw_sent := pw_sent s @ [(fd, PongMsg n)]\<rparr>)"
  using assms
  by (simp add: speaks_def pw_handle_def pw_handleDataArrived_def isClient_def cast_socket_def consume_def
      ping_buildResponse_def pw_action_def pw_send_def)

lemma node_answered:
  assumes "speaks fd s" "pw_connection s fd = Some c"
  shows "pw_handle en t (Arrived fd (PongMsg n)) s =
    Inr (s\<lparr>pw_connection := (pw_connection s)(fd \<mapsto> \<lparr>ct_kind = SEND_PING, ct_context = Some fd,
        ct_at = Some (t + en_uniform en (pp_draws s) PING_POLLING_MIN PING_POLLING_MAX)\<rparr>), pp_draws := pp_draws s + 1\<rparr>)"
  using assms
  by (simp add: speaks_def pw_handle_def pw_handleDataArrived_def isClient_def cast_socket_def consume_def
      pong_handleMessage_def pw_action_def pw_cancel_def schedule_peer_def pw_schedule_def PING_POLLING_MIN_def)

text \<open>A node whose peer has gone still has the timer of the connection.\<close>

lemma lost_peer:
  assumes "speaks fd s" "due_at fd d s" "map_of (pp_peerData s) fd = Some (Some p)"
  shows "\<exists>s'. pw_handle en t (PeerClosed fd) s = Inr s' \<and> pw_handle em t' (ConnTimer fd) s' = Inl (Undefined ''use of a deleted event'')"
proof -
  have c: "pw_connection s fd = Some \<lparr>ct_kind = SEND_PING, ct_context = Some fd, ct_at = Some d\<rparr>"
    "ap_sockets s fd = Some SOCK_STREAM" using assms(1,2) by (simp_all add: due_at_def speaks_def)
  let ?s1 = "s\<lparr>pp_peers := pp_peers s - {pr_ip p}, pp_peerData := filter (\<lambda>(k, _). k \<noteq> fd) (pp_peerData s)\<rparr>"
  let ?s2 = "app_emit (CloseSocket fd) (?s1\<lparr>ap_sockets := (ap_sockets s)(fd := None)\<rparr>)"
  have "pw_handle en t (PeerClosed fd) s = Inr ?s2"
    using c(2) assms(3) by (simp add: pw_handle_def pp_handlePeerClosed_def forget_peer_def app_close_def)
  moreover have "fd \<notin> fst ` set (pp_peerData ?s2)" by (auto simp: app_emit_def)
  then have "pw_handle em t' (ConnTimer fd) ?s2 = Inl (Undefined ''use of a deleted event'')"
    using c(1) by (simp add: pw_handle_def pw_peerTimer_def app_emit_def)
  ultimately show ?thesis by blast
qed

section \<open>The two nodes and the packets between them\<close>

text \<open>
  The nodes are told apart by a truth value, the one that opened the connection is \<open>True\<close>; \<open>lk_flight\<close> holds the
  packets on their way to a node, in the order they were sent.  A step happens at a time: the timer of a node's
  end of the connection runs out, or the first packet on its way to a node arrives.  Time does not go back and
  passes no timer, but a packet may take as long as it likes.
\<close>

record 'ip link =
  lk_node :: "bool \<Rightarrow> 'ip PowP2P"
  lk_flight :: "bool \<Rightarrow> 'ip pow_packet list"
  lk_now :: rat

datatype link_act = Fire bool | Deliver bool

definition link_start :: "rat \<Rightarrow> 'ip PowP2P \<Rightarrow> 'ip PowP2P \<Rightarrow> 'ip link" where
  "link_start t x y = \<lparr>lk_node = (\<lambda>i. if i then x else y), lk_flight = (\<lambda>_. []), lk_now = t\<rparr>"

definition timer_at :: "int \<Rightarrow> 'ip PowP2P \<Rightarrow> rat option" where
  "timer_at fd s = (case pw_connection s fd of None \<Rightarrow> None | Some c \<Rightarrow> ct_at c)"

definition not_after :: "rat \<Rightarrow> rat option \<Rightarrow> bool" where
  "not_after t w \<longleftrightarrow> (case w of None \<Rightarrow> True | Some d \<Rightarrow> t \<le> d)"

fun link_possible :: "(bool \<Rightarrow> int) \<Rightarrow> rat \<times> link_act \<Rightarrow> 'ip link \<Rightarrow> bool" where
  "link_possible fd (t, a) L \<longleftrightarrow> lk_now L \<le> t \<and>
     not_after t (timer_at (fd True) (lk_node L True)) \<and> not_after t (timer_at (fd False) (lk_node L False)) \<and>
     (case a of Fire i \<Rightarrow> timer_at (fd i) (lk_node L i) = Some t | Deliver i \<Rightarrow> lk_flight L i \<noteq> [])"

text \<open>What the node has sent in a step is on its way to the other one.\<close>

definition link_put :: "bool \<Rightarrow> rat \<Rightarrow> (bool \<Rightarrow> 'ip pow_packet list) \<Rightarrow> 'ip PowP2P \<Rightarrow> 'ip link \<Rightarrow> 'ip link" where
  "link_put i t fl s L = \<lparr>lk_node = (lk_node L)(i := s),
     lk_flight = fl(\<not> i := fl (\<not> i) @ map snd (drop (length (pw_sent (lk_node L i))) (pw_sent s))), lk_now = t\<rparr>"

fun link_do :: "(bool \<Rightarrow> 'ip::linorder pow_env) \<Rightarrow> (bool \<Rightarrow> int) \<Rightarrow> rat \<times> link_act \<Rightarrow> 'ip link \<Rightarrow> 'ip link outcome" where
  "link_do en fd (t, Fire i) L =
     and_then (pw_handle (en i) t (ConnTimer (fd i)) (lk_node L i)) (\<lambda>s. Inr (link_put i t (lk_flight L) s L))"
| "link_do en fd (t, Deliver i) L =
     and_then (pw_handle (en i) t (Arrived (fd i) (hd (lk_flight L i))) (lk_node L i)) (\<lambda>s.
       Inr (link_put i t ((lk_flight L)(i := tl (lk_flight L i))) s L))"

fun link_run ::
  "(bool \<Rightarrow> 'ip::linorder pow_env) \<Rightarrow> (bool \<Rightarrow> int) \<Rightarrow> (rat \<times> link_act) list \<Rightarrow> 'ip link \<Rightarrow> 'ip link outcome" where
  "link_run en fd [] L = Inr L"
| "link_run en fd (e # es) L = and_then (link_do en fd e L) (link_run en fd es)"

fun link_allows :: "(bool \<Rightarrow> 'ip::linorder pow_env) \<Rightarrow> (bool \<Rightarrow> int) \<Rightarrow> (rat \<times> link_act) list \<Rightarrow> 'ip link \<Rightarrow> bool" where
  "link_allows en fd [] L = True"
| "link_allows en fd (e # es) L \<longleftrightarrow> link_possible fd e L \<and>
     (case link_do en fd e L of Inl x \<Rightarrow> True | Inr L' \<Rightarrow> link_allows en fd es L')"

text \<open>The numbers of the pings and of the pongs among some packets.\<close>

fun ping_numbers :: "'ip pow_packet list \<Rightarrow> u64 list" where
  "ping_numbers [] = []"
| "ping_numbers (p # ps) = (case p of PingMsg n \<Rightarrow> [n] | _ \<Rightarrow> []) @ ping_numbers ps"

fun pong_numbers :: "'ip pow_packet list \<Rightarrow> u64 list" where
  "pong_numbers [] = []"
| "pong_numbers (p # ps) = (case p of PongMsg n \<Rightarrow> [n] | _ \<Rightarrow> []) @ pong_numbers ps"

lemma numbers_append [simp]:
  "ping_numbers (xs @ ys) = ping_numbers xs @ ping_numbers ys"
  "pong_numbers (xs @ ys) = pong_numbers xs @ pong_numbers ys"
  by (induction xs) simp_all

text \<open>The timer of an end with the numbers its node waits for.\<close>

definition timer_ok :: "int \<Rightarrow> rat \<Rightarrow> u64 list \<Rightarrow> conn_timer option \<Rightarrow> bool" where
  "timer_ok fd now ns c \<longleftrightarrow>
     (case ns of [] \<Rightarrow> (\<exists>d. c = Some \<lparr>ct_kind = SEND_PING, ct_context = Some fd, ct_at = Some d\<rparr> \<and> now \<le> d \<and> d \<le> now + 600)
      | [n] \<Rightarrow> (\<exists>w. c = Some \<lparr>ct_kind = AWAITING_POLL, ct_context = Some fd, ct_at = w\<rparr> \<and> not_after now w)
      | _ \<Rightarrow> False)"

definition keep_alive_packet :: "'ip pow_packet \<Rightarrow> bool" where
  "keep_alive_packet p \<longleftrightarrow> (case p of PingMsg n \<Rightarrow> True | PongMsg n \<Rightarrow> True | _ \<Rightarrow> False)"

definition awaited :: "bool \<Rightarrow> 'ip link \<Rightarrow> u64 list" where
  "awaited i L = ping_numbers (lk_flight L (\<not> i)) @ pong_numbers (lk_flight L i)"

definition link_inv ::
  "(bool \<Rightarrow> int) \<Rightarrow> (bool \<Rightarrow> 'ip PowP2P) \<Rightarrow> (bool \<Rightarrow> 'ip pow_packet list) \<Rightarrow> 'ip link \<Rightarrow> bool" where
  "link_inv fd n0 out L \<longleftrightarrow> (\<forall>i. speaks (fd i) (lk_node L i) \<and>
     pw_sent (lk_node L i) = pw_sent (n0 i) @ map (Pair (fd i)) (out i) \<and>
     ping_numbers (out i) = pong_numbers (out (\<not> i)) @ ping_numbers (lk_flight L (\<not> i)) \<and>
     list_all keep_alive_packet (lk_flight L i) \<and>
     timer_ok (fd i) (lk_now L) (awaited i L) (pw_connection (lk_node L i) (fd i)))"

lemma timer_ok_later:
  "timer_ok fd now ns c \<Longrightarrow> now \<le> t \<Longrightarrow> not_after t (case c of None \<Rightarrow> None | Some d \<Rightarrow> ct_at d) \<Longrightarrow> timer_ok fd t ns c"
  by (auto simp: timer_ok_def not_after_def split: list.splits option.splits)

lemma link_possible_time:
  assumes "link_possible fd (t, a) L"
  shows "lk_now L \<le> t" "not_after t (timer_at (fd i) (lk_node L i))"
  using assms by (cases i, simp_all)+

lemma link_invD:
  assumes "link_inv fd n0 out L"
  shows "speaks (fd i) (lk_node L i)" "pw_sent (lk_node L i) = pw_sent (n0 i) @ map (Pair (fd i)) (out i)"
    "ping_numbers (out i) = pong_numbers (out (\<not> i)) @ ping_numbers (lk_flight L (\<not> i))"
    "list_all keep_alive_packet (lk_flight L i)"
    "timer_ok (fd i) (lk_now L) (awaited i L) (pw_connection (lk_node L i) (fd i))"
  using assms by (simp_all add: link_inv_def)

text \<open>A step of one node keeps the invariant; \<open>fl\<close> is what is left on its way to it.\<close>

lemma link_inv_put:
  assumes inv: "link_inv fd n0 out L" and now: "link_possible fd (t, a) L"
    and s: "speaks (fd i) s" "pw_sent s = pw_sent (lk_node L i) @ map (Pair (fd i)) ext"
    and fl: "list_all keep_alive_packet fl" "list_all keep_alive_packet ext"
    and heard: "ping_numbers (lk_flight L i) = pong_numbers ext @ ping_numbers fl"
      "ping_numbers fl @ pong_numbers (lk_flight L (\<not> i)) @ pong_numbers ext = awaited (\<not> i) L"
    and timer: "timer_ok (fd i) t (ping_numbers (lk_flight L (\<not> i)) @ ping_numbers ext @ pong_numbers fl) (pw_connection s (fd i))"
  shows "link_inv fd n0 (out(i := out i @ ext)) (link_put i t ((lk_flight L)(i := fl)) s L)"
proof -
  let ?L = "link_put i t ((lk_flight L)(i := fl)) s L"
  have ni: "(\<not> i) \<noteq> i" "(\<not> \<not> i) = i" by simp_all
  have node: "lk_node ?L i = s" "lk_node ?L (\<not> i) = lk_node L (\<not> i)" "lk_now ?L = t"
    by (simp_all add: link_put_def)
  have flight: "lk_flight ?L i = fl" "lk_flight ?L (\<not> i) = lk_flight L (\<not> i) @ ext"
    by (simp_all add: link_put_def s(2) comp_def)
  have here: "speaks (fd i) (lk_node ?L i) \<and> pw_sent (lk_node ?L i) = pw_sent (n0 i) @ map (Pair (fd i)) (out i @ ext) \<and>
      ping_numbers (out i @ ext) = pong_numbers (out (\<not> i)) @ ping_numbers (lk_flight ?L (\<not> i)) \<and>
      list_all keep_alive_packet (lk_flight ?L i) \<and>
      timer_ok (fd i) (lk_now ?L) (awaited i ?L) (pw_connection (lk_node ?L i) (fd i))"
    using s fl timer link_invD(2,3) [OF inv, of i] by (simp add: node flight awaited_def)
  have later: "timer_ok (fd (\<not> i)) t (awaited (\<not> i) L) (pw_connection (lk_node L (\<not> i)) (fd (\<not> i)))"
    using timer_ok_later [OF link_invD(5) [OF inv] link_possible_time(1) [OF now]] link_possible_time(2) [OF now, of "\<not> i"]
    by (simp add: timer_at_def)
  have same: "awaited (\<not> i) ?L = awaited (\<not> i) L" using heard(2) by (simp add: awaited_def flight)
  have there: "speaks (fd (\<not> i)) (lk_node ?L (\<not> i)) \<and>
      pw_sent (lk_node ?L (\<not> i)) = pw_sent (n0 (\<not> i)) @ map (Pair (fd (\<not> i))) (out (\<not> i)) \<and>
      ping_numbers (out (\<not> i)) = pong_numbers (out i @ ext) @ ping_numbers (lk_flight ?L i) \<and>
      list_all keep_alive_packet (lk_flight ?L (\<not> i)) \<and>
      timer_ok (fd (\<not> i)) (lk_now ?L) (awaited (\<not> i) ?L) (pw_connection (lk_node ?L (\<not> i)) (fd (\<not> i)))"
    unfolding same node(3) using fl(2) later heard(1) link_invD(1,2,4) [OF inv, of "\<not> i"] link_invD(3) [OF inv, of "\<not> i"]
    by (simp add: node flight)
  show ?thesis
    unfolding link_inv_def
  proof (intro allI)
    fix k
    consider "k = i" | "k = (\<not> i)" by auto
    then show "speaks (fd k) (lk_node ?L k) \<and>
        pw_sent (lk_node ?L k) = pw_sent (n0 k) @ map (Pair (fd k)) ((out(i := out i @ ext)) k) \<and>
        ping_numbers ((out(i := out i @ ext)) k) = pong_numbers ((out(i := out i @ ext)) (\<not> k)) @ ping_numbers (lk_flight ?L (\<not> k)) \<and>
        list_all keep_alive_packet (lk_flight ?L k) \<and>
        timer_ok (fd k) (lk_now ?L) (awaited k ?L) (pw_connection (lk_node ?L k) (fd k))"
    proof cases
      case 1
      show ?thesis unfolding 1 fun_upd_same fun_upd_other [OF ni(1)] by (rule here)
    next
      case 2
      show ?thesis unfolding 2 not_not fun_upd_same fun_upd_other [OF ni(1)] by (rule there)
    qed
  qed
qed

lemma timer_ok_cases:
  assumes "timer_ok fd now ns c"
  obtains d where "ns = []" "c = Some \<lparr>ct_kind = SEND_PING, ct_context = Some fd, ct_at = Some d\<rparr>" "now \<le> d" "d \<le> now + 600"
  | n w where "ns = [n]" "c = Some \<lparr>ct_kind = AWAITING_POLL, ct_context = Some fd, ct_at = w\<rparr>" "not_after now w"
  using assms by (auto simp: timer_ok_def split: list.splits)

text \<open>What a step does: the node \<open>i\<close> sends \<open>ext\<close>; a due ping stays due until it is sent.\<close>

definition link_moves ::
  "(bool \<Rightarrow> 'ip::linorder pow_env) \<Rightarrow> (bool \<Rightarrow> int) \<Rightarrow> (bool \<Rightarrow> 'ip PowP2P) \<Rightarrow> (bool \<Rightarrow> 'ip pow_packet list) \<Rightarrow>
     rat \<times> link_act \<Rightarrow> 'ip link \<Rightarrow> bool" where
  "link_moves en fd n0 out e L \<longleftrightarrow> (\<exists>L' i ext. link_do en fd e L = Inr L' \<and> link_inv fd n0 (out(i := out i @ ext)) L' \<and>
     (\<forall>k d. due_at (fd k) d (lk_node L k) \<longrightarrow> due_at (fd k) d (lk_node L' k) \<or> k = i \<and> ping_numbers ext \<noteq> []))"

lemma link_movesI:
  assumes inv: "link_inv fd n0 out L" "link_possible fd (t, a) L"
    and put: "link_do en fd (t, a) L = Inr (link_put i t ((lk_flight L)(i := fl)) s L)"
    and s: "speaks (fd i) s" "pw_sent s = pw_sent (lk_node L i) @ map (Pair (fd i)) ext"
    and fl: "list_all keep_alive_packet fl" "list_all keep_alive_packet ext"
    and heard: "ping_numbers (lk_flight L i) = pong_numbers ext @ ping_numbers fl"
      "ping_numbers fl @ pong_numbers (lk_flight L (\<not> i)) @ pong_numbers ext = awaited (\<not> i) L"
    and timer: "timer_ok (fd i) t (ping_numbers (lk_flight L (\<not> i)) @ ping_numbers ext @ pong_numbers fl) (pw_connection s (fd i))"
    and due: "\<And>d. due_at (fd i) d (lk_node L i) \<Longrightarrow> due_at (fd i) d s \<or> ping_numbers ext \<noteq> []"
  shows "link_moves en fd n0 out (t, a) L"
proof -
  have "due_at (fd k) d (lk_node (link_put i t ((lk_flight L)(i := fl)) s L) k) \<or> k = i \<and> ping_numbers ext \<noteq> []"
    if "due_at (fd k) d (lk_node L k)" for k d
    using that due by (cases "k = i") (auto simp: link_put_def)
  with put link_inv_put [OF inv s fl heard timer] show ?thesis unfolding link_moves_def by blast
qed

lemma fire_moves:
  assumes inv: "link_inv fd n0 out L" and now: "link_possible fd (t, Fire i) L"
  shows "link_moves en fd n0 out (t, Fire i) L"
proof -
  note I = link_invD [OF inv, of i]
  have at: "timer_at (fd i) (lk_node L i) = Some t" using now by simp
  have triv: "lk_flight L = (lk_flight L)(i := lk_flight L i)" by simp
  have oth: "ping_numbers (lk_flight L i) @ pong_numbers (lk_flight L (\<not> i)) = awaited (\<not> i) L" by (simp add: awaited_def)
  from I(5) show ?thesis
  proof (cases rule: timer_ok_cases)
    case (1 d)
    then have due: "due_at (fd i) d (lk_node L i)" by (simp add: due_at_def)
    note p = node_pings [OF I(1) due, of "en i" t]
    let ?s = "(lk_node L i)\<lparr>pw_connection := (pw_connection (lk_node L i))(fd i \<mapsto>
        \<lparr>ct_kind = AWAITING_POLL, ct_context = Some (fd i), ct_at = Some (t + PONG_TIMEOUT_SECONDS)\<rparr>),
      pw_sent := pw_sent (lk_node L i) @ [(fd i, PingMsg (en_nonce (en i) (pw_nonces (lk_node L i))))],
      pw_nonces := pw_nonces (lk_node L i) + 1\<rparr>"
    have put: "link_do en fd (t, Fire i) L = Inr (link_put i t ((lk_flight L)(i := lk_flight L i)) ?s L)"
      unfolding link_do.simps p by simp
    have "ping_numbers (lk_flight L (\<not> i)) = []" "pong_numbers (lk_flight L i) = []"
      using 1(1) by (simp_all add: awaited_def)
    then show ?thesis
      using I(1,4) oth
      by (intro link_movesI [where ext = "[PingMsg (en_nonce (en i) (pw_nonces (lk_node L i)))]", OF inv now put])
        (simp_all add: speaks_def keep_alive_packet_def timer_ok_def not_after_def PONG_TIMEOUT_SECONDS_def)
  next
    case (2 n w)
    note p = node_times_out [OF 2(2), of "en i" t]
    let ?s = "(lk_node L i)\<lparr>pw_connection := (pw_connection (lk_node L i))(fd i \<mapsto>
        \<lparr>ct_kind = AWAITING_POLL, ct_context = Some (fd i), ct_at = None\<rparr>)\<rparr>"
    have put: "link_do en fd (t, Fire i) L = Inr (link_put i t ((lk_flight L)(i := lk_flight L i)) ?s L)"
      unfolding link_do.simps p by simp
    have "ping_numbers (lk_flight L (\<not> i)) @ pong_numbers (lk_flight L i) = [n]"
      using 2(1) by (simp add: awaited_def)
    moreover have "\<not> due_at (fd i) d (lk_node L i)" for d
      using 2(2) by (simp add: due_at_def SEND_PING_def AWAITING_POLL_def)
    ultimately show ?thesis
      using I(1,4) oth
      by (intro link_movesI [where ext = "[]", OF inv now put])
        (simp_all add: speaks_def timer_ok_def not_after_def)
  qed
qed

lemma deliver_moves:
  assumes inv: "link_inv fd n0 out L" and now: "link_possible fd (t, Deliver i) L" and bounds: "random_in_bounds (en i)"
  shows "link_moves en fd n0 out (t, Deliver i) L"
proof -
  note I = link_invD [OF inv, of i]
  obtain q r where q: "lk_flight L i = q # r" using now by (cases "lk_flight L i") auto
  have now': "lk_now L \<le> t" using link_possible_time [OF now] by blast
  consider n where "q = PingMsg n" | n where "q = PongMsg n"
    using I(4) q by (auto simp: keep_alive_packet_def split: pow_packet.splits)
  then show ?thesis
  proof cases
    case (1 n)
    note p = node_answers [OF I(1), of "en i" t n]
    let ?s = "(lk_node L i)\<lparr>pw_sent := pw_sent (lk_node L i) @ [(fd i, PongMsg n)]\<rparr>"
    have put: "link_do en fd (t, Deliver i) L = Inr (link_put i t ((lk_flight L)(i := r)) ?s L)"
      unfolding link_do.simps q list.sel 1 p by simp
    have aw: "awaited (\<not> i) L = n # ping_numbers r @ pong_numbers (lk_flight L (\<not> i))"
      by (simp add: awaited_def q 1)
    moreover have "ping_numbers r = []" "pong_numbers (lk_flight L (\<not> i)) = []"
      using link_invD(5) [OF inv, of "\<not> i"] by (auto simp: aw timer_ok_def split: list.splits)
    moreover have "timer_ok (fd i) t (ping_numbers (lk_flight L (\<not> i)) @ pong_numbers r) (pw_connection (lk_node L i) (fd i))"
      using timer_ok_later [OF I(5) now'] link_possible_time(2) [OF now, of i] by (simp add: timer_at_def awaited_def q 1)
    ultimately show ?thesis
      using I(1,4) by (intro link_movesI [where ext = "[PongMsg n]", OF inv now put])
        (simp_all add: speaks_def keep_alive_packet_def q 1 due_at_def)
  next
    case (2 n)
    have aw: "awaited i L = ping_numbers (lk_flight L (\<not> i)) @ n # pong_numbers r" by (simp add: awaited_def q 2)
    from I(5) obtain w where w: "ping_numbers (lk_flight L (\<not> i)) = []" "pong_numbers r = []"
      "pw_connection (lk_node L i) (fd i) = Some \<lparr>ct_kind = AWAITING_POLL, ct_context = Some (fd i), ct_at = w\<rparr>"
      by (cases rule: timer_ok_cases) (auto simp: aw append_eq_Cons_conv)
    note p = node_answered [OF I(1) w(3), of "en i" t n]
    let ?u = "en_uniform (en i) (pp_draws (lk_node L i)) PING_POLLING_MIN PING_POLLING_MAX"
    let ?s = "(lk_node L i)\<lparr>pw_connection := (pw_connection (lk_node L i))(fd i \<mapsto>
        \<lparr>ct_kind = SEND_PING, ct_context = Some (fd i), ct_at = Some (t + ?u)\<rparr>), pp_draws := pp_draws (lk_node L i) + 1\<rparr>"
    have put: "link_do en fd (t, Deliver i) L = Inr (link_put i t ((lk_flight L)(i := r)) ?s L)"
      unfolding link_do.simps q list.sel 2 p by simp
    have "0 \<le> ?u" "?u \<le> 600" using next_ping_delay [OF bounds, of "pp_draws (lk_node L i)"] by simp_all
    moreover have "\<not> due_at (fd i) d (lk_node L i)" for d
      using w(3) by (simp add: due_at_def SEND_PING_def AWAITING_POLL_def)
    moreover have "ping_numbers r @ pong_numbers (lk_flight L (\<not> i)) = awaited (\<not> i) L" by (simp add: awaited_def q 2)
    ultimately show ?thesis
      using I(1,4) w(1,2) by (intro link_movesI [where ext = "[]", OF inv now put])
        (simp_all add: speaks_def q 2 timer_ok_def)
  qed
qed

lemma link_step_moves:
  assumes "link_inv fd n0 out L" "link_possible fd e L" "\<forall>i. random_in_bounds (en i)"
  shows "link_moves en fd n0 out e L"
proof -
  obtain t i where "e = (t, Fire i) \<or> e = (t, Deliver i)" by (metis link_act.exhaust surj_pair)
  with assms fire_moves deliver_moves show ?thesis by metis
qed

lemma link_run_inv:
  assumes "link_inv fd n0 out L" "link_allows en fd es L" "\<forall>i. random_in_bounds (en i)"
  shows "\<exists>L' ext. link_run en fd es L = Inr L' \<and> link_inv fd n0 (\<lambda>i. out i @ ext i) L' \<and>
    (\<forall>k d. due_at (fd k) d (lk_node L k) \<longrightarrow> due_at (fd k) d (lk_node L' k) \<or> ping_numbers (ext k) \<noteq> [])"
  using assms(1,2)
proof (induction es arbitrary: out L)
  case Nil
  then show ?case by (intro exI [of _ L] exI [of _ "\<lambda>_. []"]) simp
next
  case (Cons e es)
  have "link_possible fd e L" using Cons.prems(2) by simp
  from link_step_moves [OF Cons.prems(1) this assms(3)] obtain L1 i x where
    1: "link_do en fd e L = Inr L1" "link_inv fd n0 (out(i := out i @ x)) L1"
      "\<forall>k d. due_at (fd k) d (lk_node L k) \<longrightarrow> due_at (fd k) d (lk_node L1 k) \<or> k = i \<and> ping_numbers x \<noteq> []"
    unfolding link_moves_def by blast
  have "link_allows en fd es L1" using Cons.prems(2) 1(1) by simp
  from Cons.IH [OF 1(2) this] obtain L2 y where
    2: "link_run en fd es L1 = Inr L2" "link_inv fd n0 (\<lambda>k. (out(i := out i @ x)) k @ y k) L2"
      "\<forall>k d. due_at (fd k) d (lk_node L1 k) \<longrightarrow> due_at (fd k) d (lk_node L2 k) \<or> ping_numbers (y k) \<noteq> []" by blast
  let ?z = "\<lambda>k. (if k = i then x else []) @ y k"
  have "(\<lambda>k. (out(i := out i @ x)) k @ y k) = (\<lambda>k. out k @ ?z k)" by auto
  with 2(2) have inv: "link_inv fd n0 (\<lambda>k. out k @ ?z k) L2" by (simp only:)
  have due: "\<forall>k d. due_at (fd k) d (lk_node L k) \<longrightarrow> due_at (fd k) d (lk_node L2 k) \<or> ping_numbers (?z k) \<noteq> []"
    using 1(3) 2(3) by fastforce
  have "link_run en fd (e # es) L = Inr L2" using 1(1) 2(1) by simp
  with inv due show ?case by (intro exI [of _ L2] exI [of _ ?z] conjI)
qed

text \<open>Something can always happen next.\<close>

lemma link_inv_timer:
  assumes "link_inv fd n0 out L"
  shows "not_after (lk_now L) (timer_at (fd i) (lk_node L i))"
  using link_invD(5) [OF assms, of i] by (cases rule: timer_ok_cases) (simp_all add: timer_at_def not_after_def)

lemma link_goes_on:
  assumes "link_inv fd n0 out L"
  shows "\<exists>e. link_possible fd e L"
proof (cases "\<exists>i. lk_flight L i \<noteq> []")
  case True
  then obtain i where "lk_flight L i \<noteq> []" by blast
  then have "link_possible fd (lk_now L, Deliver i) L" using link_inv_timer [OF assms] by simp
  then show ?thesis by blast
next
  case False
  then have none: "awaited i L = []" for i by (simp add: awaited_def)
  have "\<exists>d. timer_at (fd i) (lk_node L i) = Some d \<and> lk_now L \<le> d" for i
    using link_invD(5) [OF assms, of i] unfolding none by (auto simp: timer_ok_def timer_at_def)
  then obtain d where d: "timer_at (fd i) (lk_node L i) = Some (d i)" "lk_now L \<le> d i" for i by metis
  have "link_possible fd (d i, Fire i) L" if "d i \<le> d (\<not> i)" for i
    using that d by (cases i) (simp_all add: not_after_def)
  from this [of True] this [of False] linear [of "d True" "d False"] show ?thesis
    by (simp only: not_True_eq_False not_False_eq_True) blast
qed

text \<open>
  What a connection that is alive looks like from the outside: the pings each node has sent since the start are
  those the other has answered with their numbers, in their order, and at most one more, which is on its way; and a node
  that waits for nothing sends its next ping at a time that is set, in 600 seconds at the latest.
\<close>

definition link_alive :: "(bool \<Rightarrow> int) \<Rightarrow> (bool \<Rightarrow> 'ip PowP2P) \<Rightarrow> 'ip link \<Rightarrow> bool" where
  "link_alive fd n0 L \<longleftrightarrow> (\<exists>out. \<forall>i.
     pw_sent (lk_node L i) = pw_sent (n0 i) @ map (Pair (fd i)) (out i) \<and>
     ping_numbers (out i) = pong_numbers (out (\<not> i)) @ ping_numbers (lk_flight L (\<not> i)) \<and>
     length (ping_numbers (lk_flight L (\<not> i)) @ pong_numbers (lk_flight L i)) \<le> 1 \<and>
     (ping_numbers (lk_flight L (\<not> i)) @ pong_numbers (lk_flight L i) = [] \<longrightarrow>
       (\<exists>d. due_at (fd i) d (lk_node L i) \<and> lk_now L \<le> d \<and> d \<le> lk_now L + 600)))"

lemma link_inv_alive:
  assumes "link_inv fd n0 out L"
  shows "link_alive fd n0 L"
proof -
  have "length (awaited i L) \<le> 1 \<and> (awaited i L = [] \<longrightarrow>
      (\<exists>d. due_at (fd i) d (lk_node L i) \<and> lk_now L \<le> d \<and> d \<le> lk_now L + 600))" for i
    using link_invD(5) [OF assms, of i] by (cases rule: timer_ok_cases) (simp_all add: due_at_def)
  then show ?thesis
    unfolding link_alive_def using link_invD(2,3) [OF assms] by (intro exI [of _ out]) (simp add: awaited_def)
qed

definition pings_sent :: "'ip PowP2P \<Rightarrow> nat" where
  "pings_sent s = length (ping_numbers (map snd (pw_sent s)))"

lemma due_ping_sent:
  assumes inv: "link_inv fd n0 out L" and go: "link_allows en fd es L" "link_run en fd es L = Inr L'"
    and bounds: "\<forall>i. random_in_bounds (en i)" and due: "due_at (fd i) d (lk_node L i)" "d < lk_now L'"
  shows "pings_sent (lk_node L i) < pings_sent (lk_node L' i)"
proof -
  from link_run_inv [OF inv go(1) bounds] go(2) obtain ext where
    e: "link_inv fd n0 (\<lambda>i. out i @ ext i) L'" "due_at (fd i) d (lk_node L' i) \<or> ping_numbers (ext i) \<noteq> []"
    using due(1) by auto
  have "\<not> due_at (fd i) d (lk_node L' i)"
    using link_inv_timer [OF e(1), of i] due(2) by (auto simp: due_at_def timer_at_def not_after_def)
  with e(2) have "ping_numbers (ext i) \<noteq> []" by blast
  then show ?thesis
    by (simp add: pings_sent_def link_invD(2) [OF inv] link_invD(2) [OF e(1)] comp_def)
qed

lemma link_start_inv:
  assumes "speaks (fd True) x" "due_at (fd True) (t + p) x" "speaks (fd False) y" "due_at (fd False) (t + q) y"
    and "0 \<le> p" "p \<le> 600" "0 \<le> q" "q \<le> 600"
  shows "link_inv fd (\<lambda>i. if i then x else y) (\<lambda>_. []) (link_start t x y)"
proof -
  have "timer_ok (fd i) t [] (pw_connection (if i then x else y) (fd i))" for i
    using assms by (cases i) (auto simp: timer_ok_def due_at_def)
  then show ?thesis using assms(1,3) by (simp add: link_inv_def link_start_def awaited_def)
qed

text \<open>C38.  Two nodes that a connection joins introduce themselves, each keeps what the other said of itself, the
  one that opened the connection asks for addresses and ignores its own among them, and both are set to ping.  From
  then on the timers of both run out when they are due and the packets of both arrive in any order and after any
  time: no step fails and there always is a next one, each answers every ping of the other with its number, a
  node that waits for nothing pings within 600 seconds, and once the time a ping is due has passed it has been sent.
  The timeout of a pong only stops its timer, so a pong that comes later leads to the next ping as well.
\<close>

theorem connection_kept_alive:
  assumes "new_link en a (pr_ip (pw_self y)) x" "new_link em b (pr_ip (pw_self x)) y"
    and "pp_listeningPort x \<noteq> en_localPort en a" "pp_listeningPort y = en_localPort em b"
    and "random_in_bounds en" "random_in_bounds em"
  shows "\<exists>x1 y1 v w. handshake en em a b t x y = Inr (x1, y1) \<and>
    pp_peerData x1 = [(a, Some (introduces em b y))] \<and> pp_peerData y1 = [(b, Some (introduces en a x))] \<and>
    pw_sent x1 = pw_sent x @ [(a, VersionMsg v), (a, VerackMsg), (a, GetAddrMsg)] \<and>
    pw_sent y1 = pw_sent y @ [(b, VersionMsg w), (b, VerackMsg), (b, AddrMsg [introduces en a x])] \<and>
    pp_opened x1 = pp_opened x \<and>
    (let env = (\<lambda>i. if i then en else em); fd = (\<lambda>i. if i then a else b); n0 = (\<lambda>i. if i then x1 else y1)
     in \<forall>es. link_allows env fd es (link_start t x1 y1) \<longrightarrow>
       (\<exists>L. link_run env fd es (link_start t x1 y1) = Inr L \<and> link_alive fd n0 L \<and> (\<exists>e. link_possible fd e L) \<and>
         (\<forall>i d es' L'. due_at (fd i) d (lk_node L i) \<and> link_allows env fd es' L \<and> link_run env fd es' L = Inr L' \<and>
            d < lk_now L' \<longrightarrow> pings_sent (lk_node L i) < pings_sent (lk_node L' i))))"
proof -
  let ?env = "\<lambda>i. if i then en else em" and ?fd = "\<lambda>i. if i then a else b"
  from handshake_spec [OF assms(1-4), of t] obtain x1 y1 v w where h: "handshake en em a b t x y = Inr (x1, y1)"
    "pp_peerData x1 = [(a, Some (introduces em b y))]" "pp_peerData y1 = [(b, Some (introduces en a x))]"
    "pp_opened x1 = pp_opened x" "pw_sent x1 = pw_sent x @ [(a, VersionMsg v), (a, VerackMsg), (a, GetAddrMsg)]"
    "pw_sent y1 = pw_sent y @ [(b, VersionMsg w), (b, VerackMsg), (b, AddrMsg [introduces en a x])]"
    "speaks a x1" "due_at a (t + en_uniform en (pp_draws x) PING_POLLING_MIN PING_POLLING_MAX) x1"
    "speaks b y1" "due_at b (t + en_uniform em (pp_draws y) PING_POLLING_MIN PING_POLLING_MAX) y1" by blast
  let ?n0 = "\<lambda>i. if i then x1 else y1" and ?L0 = "link_start t x1 y1"
  have bounds: "\<forall>i. random_in_bounds (?env i)" using assms(5,6) by simp
  have start: "link_inv ?fd ?n0 (\<lambda>_. []) ?L0"
    by (rule link_start_inv [of _ _ _ "en_uniform en (pp_draws x) PING_POLLING_MIN PING_POLLING_MAX" _
          "en_uniform em (pp_draws y) PING_POLLING_MIN PING_POLLING_MAX"])
      (use h(7-10) next_ping_delay [OF assms(5), of "pp_draws x"] next_ping_delay [OF assms(6), of "pp_draws y"] in simp_all)
  have run: "\<exists>L. link_run ?env ?fd es ?L0 = Inr L \<and> link_alive ?fd ?n0 L \<and> (\<exists>e. link_possible ?fd e L) \<and>
      (\<forall>i d es' L'. due_at (?fd i) d (lk_node L i) \<and> link_allows ?env ?fd es' L \<and> link_run ?env ?fd es' L = Inr L' \<and>
         d < lk_now L' \<longrightarrow> pings_sent (lk_node L i) < pings_sent (lk_node L' i))"
    if "link_allows ?env ?fd es ?L0" for es
  proof -
    from link_run_inv [OF start that bounds] obtain L out where L: "link_run ?env ?fd es ?L0 = Inr L" "link_inv ?fd ?n0 out L"
      by auto
    show ?thesis
      by (rule exI [of _ L], intro conjI allI impI L(1) link_inv_alive [OF L(2)] link_goes_on [OF L(2)], elim conjE,
          rule due_ping_sent [OF L(2) _ _ bounds])
  qed
  show ?thesis
    unfolding Let_def
    by (rule exI [of _ x1], rule exI [of _ y1], rule exI [of _ v], rule exI [of _ w])
      (intro conjI allI impI h(1-3) h(4-6); erule run)
qed

text \<open>In the example both nodes ping at the same time, and each gets the other's ping before its own pong.\<close>

definition pow_steps :: "(rat \<times> link_act) list" where
  "pow_steps = [(60, Fire True), (60, Fire False), (61, Deliver False), (62, Deliver True), (63, Deliver True), (64, Deliver False)]"

definition pow_link :: "nat link outcome" where
  "pow_link = and_then (handshake (pow_outside 2 65535) (pow_outside 1 8333) 4 6 0 (pow_node 1 4) (pow_node 2 6)) (\<lambda>(x, y).
     Inr (link_start 0 x y))"

abbreviation pow_envs :: "bool \<Rightarrow> nat pow_env" where
  "pow_envs \<equiv> \<lambda>i. if i then pow_outside 2 65535 else pow_outside 1 8333"

abbreviation pow_sockets :: "bool \<Rightarrow> int" where
  "pow_sockets \<equiv> \<lambda>i. if i then 4 else 6"

lemma pow_steps_allowed:
  "case pow_link of Inl e \<Rightarrow> False | Inr L \<Rightarrow> link_allows pow_envs pow_sockets pow_steps L"
  by code_simp

lemma pow_steps_pings:
  "case pow_link of Inl e \<Rightarrow> False | Inr L \<Rightarrow> (case link_run pow_envs pow_sockets pow_steps L of Inl e \<Rightarrow> False
   | Inr M \<Rightarrow> pings_sent (lk_node M True) = 1 \<and> pings_sent (lk_node M False) = 1)"
  by code_simp

theorem connection_kept_alive_witness:
  "\<exists>x1 y1 L. handshake (pow_outside 2 65535) (pow_outside 1 8333) 4 6 0 (pow_node 1 4) (pow_node 2 6) = Inr (x1, y1) \<and>
     link_run pow_envs pow_sockets pow_steps (link_start 0 x1 y1) = Inr L \<and>
     link_alive pow_sockets (\<lambda>i. if i then x1 else y1) L \<and> (\<exists>e. link_possible pow_sockets e L) \<and>
     pings_sent (lk_node L True) = 1 \<and> pings_sent (lk_node L False) = 1"
proof -
  have h: "new_link (pow_outside 2 65535) 4 (pr_ip (pw_self (pow_node 2 6))) (pow_node 1 4)"
    "new_link (pow_outside 1 8333) 6 (pr_ip (pw_self (pow_node 1 4))) (pow_node 2 6)"
    "pp_listeningPort (pow_node 1 4) \<noteq> en_localPort (pow_outside 2 65535) 4"
    "pp_listeningPort (pow_node 2 6) = en_localPort (pow_outside 1 8333) 6"
    "random_in_bounds (pow_outside 2 65535)" "random_in_bounds (pow_outside 1 8333)"
    by (simp_all add: new_link_def pow_node_def pow_outside_def random_in_bounds_def)
  from connection_kept_alive [OF h, of 0, unfolded Let_def] show ?thesis
  proof (elim exE conjE, goal_cases)
    case (1 x1 y1 v w)
    have "pow_link = Inr (link_start 0 x1 y1)" by (simp only: pow_link_def 1(1) and_then_Inr prod.case)
    note go = pow_steps_allowed [unfolded this sum.case] pow_steps_pings [unfolded this sum.case]
    from 1(7) [rule_format, OF go(1)] obtain L where
      L: "link_run pow_envs pow_sockets pow_steps (link_start 0 x1 y1) = Inr L"
        "link_alive pow_sockets (\<lambda>i. if i then x1 else y1) L" "\<exists>e. link_possible pow_sockets e L" by blast
    from go(2) have "pings_sent (lk_node L True) = 1" "pings_sent (lk_node L False) = 1" by (simp_all add: L(1))
    with L 1(1) show ?case by blast
  qed
qed

end
