(* ===== verification/Spec2Isabelle.thy ===== *)
theory Spec2Isabelle
  imports Prelude BitTools Resources Selection ResManager UserMessages Hardware MsgTrace SimCore Cpu CpuSched
    ControlTable Hypervisor DnsData DnsServer DnsResolver DnsClient PowChain FullNode ChainSound NodeTable GroupVector Users
    DataManager SqlEngine CloudProvider ServiceTable AppProxy MessageQueue Network DiskManager CloudMessages DcManager DcBoot
    UserModel UserGenerator UserGeneration UserRequests UserAnswers UserCloud UserCost Apps LocalApp Endpoints SimService
    IotDevices IotApps EdgeUser EdgeDeploy DnsRegistry P2P PowP2P PowLink
begin

text \<open>
  A model of Simcan2Fog, a simulator of clouds, fog centres and edge areas, and what it is proved to do.  Paths are
  under \<open>src/src/s2f\<close>.

  The program is a set of modules of a discrete event simulation.  Users ask a cloud provider for virtual machines; the
  provider passes a request to a data centre with room for it; the manager of the centre places the machines on nodes
  through its resource manager, and the hypervisors of the nodes run the applications of the users on processors
  that a scheduler shares out.  Messages find their way back by the trace they carry.  Requests travel through a message
  queue, packets of applications through proxies; names are kept by a name service.  Edge areas have sensors, actuators and
  controllers of their own, and a network of peers keeps a block chain.

  How code is read.
    A module is a record of its members.  A handler is a function of the record, the message and the time.  What a module
    sends, schedules or reports is appended to lists of the record, in order.  An operation that can stop the
    simulation returns an \<open>outcome\<close> (\<open>Prelude\<close>): \<open>Inr\<close> the result, or \<open>Inl\<close> the error: an exception, a failed
    assertion, an index out of range, or undefined behaviour of the language.  Amounts of 16, 32 and 64 bits are words
    and wrap around; \<open>int\<close> and \<open>double\<close> are unbounded integers and rationals.  A \<open>cQueue\<close> is a list with its front
    first, a \<open>std::map\<close> a partial map, or an ordered list of pairs where the code walks through it.  The libraries
    (the simulation kernel, the network library, the cryptographic functions, the tokenizer, \<open>std::make_heap\<close>, random
    numbers, the system clock, the database, JSON) are arguments; what is relied on is a named hypothesis.

  The theories.
    \<^item> Basics.  \<open>Prelude\<close>; \<open>BitTools\<close> (\<open>core/tools.h\<close>, \<open>architecture/dns/DnsHeader\<close>); \<open>GroupVector\<close>
      (\<open>core/include/GroupVector.hpp\<close>), with a refinement to a list of groups.
    \<^item> Messages.  \<open>UserMessages\<close> (\<open>messages/SM_UserVM\<close>, \<open>SM_UserAPP\<close>, \<open>VMRequest.h\<close>); \<open>MsgTrace\<close>
      (\<open>messages/SIMCAN_Message\<close>); \<open>SimCore\<close> (\<open>core/cSIMCAN_Core\<close>): requests leave a trace and responses retrace it;
      \<open>CloudMessages\<close>: the bodies of the traced messages the managers see.
    \<^item> Nodes.  \<open>Resources\<close> (\<open>management/managers/Node\<close>, \<open>NodePool\<close>, \<open>os/hardwaremanagers/NodeResources\<close>); \<open>Selection\<close>
      (\<open>management/managers/selection/Strategies\<close>); \<open>ResManager\<close> (\<open>management/managers/ResourceManager\<close>): machines are
      placed completely or not at all; \<open>Hardware\<close> (\<open>os/hardwaremanagers\<close>): cores of a node.
    \<^item> Operating system.  \<open>Cpu\<close> (\<open>messages/SM_CPU_Message\<close>, the cores); \<open>CpuSched\<close> (\<open>os/schedulers/CpuSchedulerRR\<close>):
      a step relation and its invariant; \<open>ControlTable\<close> (\<open>os/control\<close>): processes; \<open>Hypervisor\<close> (\<open>os/hypervisors\<close>);
      \<open>DiskManager\<close> (\<open>architecture/disk\<close>).
    \<^item> Applications.  \<open>Apps\<close> (\<open>apps/AppBase\<close>): system calls, sockets and callbacks, a record of functions for a
      derived class; \<open>LocalApp\<close> (\<open>apps/cloud\<close>) with the run of an application on its hypervisor; \<open>Endpoints\<close>
      (\<open>apps/endpoints\<close>, \<open>apps/services/IotService\<close>); \<open>SimService\<close> (\<open>apps/services/SimService\<close>).
    \<^item> Data centres and the cloud.  \<open>Network\<close> (\<open>architecture/net\<close>: cards, switch, host names, hub); \<open>DcManager\<close>
      (\<open>management/managers/ManagerBase\<close>, \<open>DcManager\<close>); \<open>DcBoot\<close>: the stages of its start; \<open>NodeTable\<close> and \<open>CloudProvider\<close>
      (\<open>management/cloudprovider\<close>); \<open>DataManager\<close> (\<open>core/simdata\<close>) and \<open>SqlEngine\<close>
      (\<open>core/simdata/engine/sql\<close>): the catalogue.
    \<^item> Users.  \<open>Users\<close> (\<open>management/dataClasses\<close>); \<open>UserModel\<close> (\<open>users/base\<close>, \<open>users/cloud\<close>); \<open>UserGenerator\<close>
      (\<open>users/generators\<close>), whose promises are in \<open>UserGeneration\<close>, \<open>UserRequests\<close> and \<open>UserAnswers\<close>;
      \<open>UserCloud\<close>: users and data centres together; \<open>UserCost\<close>: the statistics.
    \<^item> Services of the network.  \<open>ServiceTable\<close> and \<open>AppProxy\<close> (\<open>architecture/net/stack/proxy\<close>); \<open>MessageQueue\<close>
      (\<open>architecture/messagequeue\<close>).
    \<^item> Names (\<open>architecture/dns\<close>).  \<open>DnsData\<close>: records and the tree of zones; \<open>DnsServer\<close>; \<open>DnsResolver\<close>; \<open>DnsClient\<close>;
      \<open>DnsRegistry\<close>: the registry and the resolver of a node.
    \<^item> Edge areas.  \<open>IotDevices\<close> (\<open>architecture/nodes/iot\<close>); \<open>IotApps\<close> (\<open>apps/iot\<close>); \<open>EdgeUser\<close> (\<open>users/edge\<close>);
      \<open>EdgeDeploy\<close>: the user, the hypervisor of its controller and the processes there, from their start.
    \<^item> Block chain.  \<open>PowChain\<close> (\<open>architecture/p2p/pow/chain\<close>); \<open>FullNode\<close> (\<open>architecture/p2p/pow/nodes\<close>);
      \<open>ChainSound\<close>: what a sound chain is, in terms of its blocks and numbers alone; \<open>P2P\<close> (\<open>apps/p2p\<close>); \<open>PowP2P\<close>
      (\<open>architecture/p2p/pow\<close>); \<open>PowLink\<close>: two nodes and the connection between them.

  Interfaces.
    The locales state the contracts components rely on, each interpreted on the model's own functions where these
    are defined: a field of a packed header and two fields that do not disturb each other (\<open>BitTools\<close>), the heap of the
    library and the strategies that use it (\<open>Selection\<close>), a store of groups (\<open>GroupVector\<close>), a table of hosts
    (\<open>Network\<close>), a directory of services (\<open>ServiceTable\<close>).

  What is shown.
    \<^item> State.  Zones, chains, tables, pools and schedulers stay well formed whatever happens to them
      (\<open>zones_well_formed\<close>, \<open>chain_always_sound\<close>, \<open>pid_allocation_sound\<close>, \<open>scheduler_work_conserving\<close>, \<open>queue_fifo\<close>).
    \<^item> Refinement.  The sorted vectors of the provider are a map, the service table a map to multisets, a group
      vector a list of lists.
    \<^item> Requests.  Every request is answered once, in order, to whom it came from (the name server, the resolver, the
      provider, the centre, the disk, the services), and what is taken is what is recorded.
    \<^item> Composition.  An application, its hypervisor and its devices (\<open>application_runs_to_exit\<close>); a user, its provider
      and a data centre (\<open>request_comes_back\<close>); a centre from its start to the applications of a machine
      (\<open>machines_reached\<close>); an edge user, the hypervisor of the controller and its application
      (\<open>service_reaches_dependant\<close>); the registry, a server and the resolver of a node (\<open>registered_name_resolved\<close>);
      two peers whose timers and packets come in any order (\<open>connection_kept_alive\<close>); the hosts of a switch (\<open>network_delivers\<close>).
    \<^item> Where the code differs from its documentation the theorems state what the code does and say so
      (\<open>application_runs_to_exit\<close>, \<open>computations_bounded\<close>, \<open>accepted_user_finishes\<close>, \<open>request_comes_back\<close>,
      \<open>on_time_reported\<close>, \<open>servers_tried_in_turn\<close>, \<open>request_index_is_no_pid\<close>).
    \<^item> Errors.  Where the code stops the simulation or runs into undefined behaviour, the outcome says so, and the
      theorems say when.

  Bounds.
    \<^item> The resolver follows aliases by mutual recursion.  \<open>processResolution\<close> has the depth of the call stack as fuel; a chain
      of \<open>k\<close> aliases needs \<open>k + 1\<close>, a circle exhausts any.
    \<^item> \<open>run_app\<close> of \<open>LocalApp\<close> serves one call a step; \<open>3 * R + 1\<close> steps are enough for \<open>R\<close> rounds, as the theorem states.
    \<^item> \<open>pull_session\<close> of \<open>MessageQueue\<close> and \<open>link_run\<close> of \<open>PowLink\<close> are as long as their argument says, which is arbitrary.
    \<^item> Drawing until a value fits (\<open>draw_until\<close>) and the search for a nonce (\<open>find_nonce\<close>) may not end; they are partial
      functions whose value is \<open>None\<close> then, and that they end is proved where it is claimed.

  Not modelled.
    \<^item> \<open>management/algorithms/ExponentialSmoothing.h\<close>: a third-party header of floating point forecasts.
    \<^item> \<open>apps/ApplicationBuilder\<close>: creates and connects modules, an argument of \<open>EdgeDeploy\<close>; \<open>architecture/net/stack/registry/ServiceRegistrar\<close>: the
      body of its handler is commented out.
    \<^item> \<open>os/crypto\<close>: calls to a cryptographic library.
    \<^item> Logging, the drawing of modules, statistics files, the modules that only test others, the descriptions of the
      network (\<open>.ned\<close>), configurations and scripts.
\<close>

end
